(* ===== verification/Prelude.thy ===== *)
theory Prelude
  imports Main "HOL-Library.Word" "HOL-Library.Multiset"
begin

text \<open>
  Shared vocabulary of the development: the integer types and error codes the C++ code
  returns, the sorted association list that stands for a \<^verbatim>\<open>KeyedVector\<close> or a
  \<^verbatim>\<open>std::map\<close>, and the contract of a component whose operations keep an invariant.
\<close>

named_theorems kv_laws \<open>laws of the sorted association lists\<close>

section \<open>Machine integers and error codes\<close>

type_synonym u32 = "32 word"
type_synonym u64 = "64 word"

text \<open>
  The status of an operation is the \<^verbatim>\<open>int32_t\<close> it returns: 0 for success and a
  negated errno of Linux for an error.
\<close>

abbreviation (input) EPERM :: int where "EPERM \<equiv> 1"
abbreviation (input) ENOENT :: int where "ENOENT \<equiv> 2"
abbreviation (input) EINTR :: int where "EINTR \<equiv> 4"
abbreviation (input) ENOMEM :: int where "ENOMEM \<equiv> 12"
abbreviation (input) EFAULT :: int where "EFAULT \<equiv> 14"
abbreviation (input) ENODEV :: int where "ENODEV \<equiv> 19"
abbreviation (input) EINVAL :: int where "EINVAL \<equiv> 22"
abbreviation (input) ENOSYS :: int where "ENOSYS \<equiv> 38"
abbreviation (input) ENODATA :: int where "ENODATA \<equiv> 61"
abbreviation (input) ENOTCONN :: int where "ENOTCONN \<equiv> 107"
abbreviation (input) ETIMEDOUT :: int where "ETIMEDOUT \<equiv> 110"
abbreviation (input) EALREADY :: int where "EALREADY \<equiv> 114"

text \<open>The names that \<^verbatim>\<open>utils/Errors.h\<close> of the platform gives them.\<close>

abbreviation (input) NO_ERROR :: int where "NO_ERROR \<equiv> 0"
abbreviation (input) BAD_VALUE :: int where "BAD_VALUE \<equiv> - EINVAL"
abbreviation (input) INVALID_OPERATION :: int where "INVALID_OPERATION \<equiv> - ENOSYS"
abbreviation (input) NAME_NOT_FOUND :: int where "NAME_NOT_FOUND \<equiv> - ENOENT"
abbreviation (input) NO_INIT :: int where "NO_INIT \<equiv> - ENODEV"
abbreviation (input) NO_MEMORY :: int where "NO_MEMORY \<equiv> - ENOMEM"
abbreviation (input) TIMED_OUT :: int where "TIMED_OUT \<equiv> - ETIMEDOUT"

section \<open>Sorted association lists\<close>

text \<open>
  A \<^verbatim>\<open>KeyedVector\<close> keeps its pairs sorted by key, with at most one pair per key;
  \<open>add\<close> on a key that is present replaces its value. The index of a key is its position,
  or \<open>-ENOENT\<close> when the key is absent.
\<close>

type_synonym ('k, 'v) kv = "('k \<times> 'v) list"

primrec kv_add :: "'k::linorder \<Rightarrow> 'v \<Rightarrow> ('k, 'v) kv \<Rightarrow> ('k, 'v) kv" where
  "kv_add k v [] = [(k, v)]"
| "kv_add k v (p # m) =
     (if fst p < k then p # kv_add k v m
      else if fst p = k then (k, v) # m
      else (k, v) # p # m)"

definition kv_remove :: "'k \<Rightarrow> ('k, 'v) kv \<Rightarrow> ('k, 'v) kv" where
  "kv_remove k m = filter (\<lambda>p. fst p \<noteq> k) m"

primrec kv_index_from :: "int \<Rightarrow> 'k \<Rightarrow> ('k, 'v) kv \<Rightarrow> int" where
  "kv_index_from i k [] = - ENOENT"
| "kv_index_from i k (p # m) = (if fst p = k then i else kv_index_from (i + 1) k m)"

definition kv_index :: "'k \<Rightarrow> ('k, 'v) kv \<Rightarrow> int" where
  "kv_index k m = kv_index_from 0 k m"

abbreviation kv_find :: "('k, 'v) kv \<Rightarrow> 'k \<Rightarrow> 'v option" where
  "kv_find m k \<equiv> map_of m k"

abbreviation kv_keys :: "('k, 'v) kv \<Rightarrow> 'k list" where
  "kv_keys m \<equiv> map fst m"

definition kv_wf :: "('k::linorder, 'v) kv \<Rightarrow> bool" where
  "kv_wf m \<longleftrightarrow> sorted_wrt (<) (kv_keys m)"

definition kv_keyset :: "('k, 'v) kv \<Rightarrow> 'k set" where
  "kv_keyset m = fst ` set m"

lemma kv_find_add [simp, kv_laws]: "kv_wf m \<Longrightarrow> map_of (kv_add k v m) = (map_of m)(k \<mapsto> v)"
proof (induction m)
  case Nil
  then show ?case by (simp add: fun_eq_iff)
next
  case (Cons p m)
  then have "map_of (kv_add k v m) = (map_of m)(k \<mapsto> v)"
    by (auto simp: kv_wf_def)
  then show ?case by (cases p) (auto simp: fun_eq_iff)
qed

lemma set_kv_keys_add [simp, kv_laws]: "fst ` set (kv_add k v m) = insert k (fst ` set m)"
  by (induction m) auto

lemma kv_wf_Nil [simp, kv_laws]: "kv_wf []"
  by (simp add: kv_wf_def)

lemma kv_wf_add [simp, kv_laws]: "kv_wf m \<Longrightarrow> kv_wf (kv_add k v m)"
proof (induction m)
  case Nil
  then show ?case by (simp add: kv_wf_def)
next
  case (Cons p m)
  have keys: "\<And>y. y \<in> set (kv_keys (kv_add k v m)) \<Longrightarrow> y = k \<or> y \<in> set (kv_keys m)"
    using set_kv_keys_add [of k v m] by auto
  from Cons have tl: "kv_wf m" and IH: "kv_wf (kv_add k v m)"
    by (simp_all add: kv_wf_def)
  from Cons.prems have hd: "\<forall>y \<in> set (kv_keys m). fst p < y"
    by (simp add: kv_wf_def)
  consider (lt) "fst p < k" | (eq) "fst p = k" | (gt) "k < fst p" by fastforce
  then show ?case
  proof cases
    case lt
    with keys hd have "\<forall>y \<in> set (kv_keys (kv_add k v m)). fst p < y" by blast
    with lt IH show ?thesis by (simp add: kv_wf_def)
  next
    case eq
    with tl hd show ?thesis by (simp add: kv_wf_def)
  next
    case gt
    with hd have "\<forall>y \<in> set (kv_keys m). k < y" by (blast intro: less_trans)
    moreover from gt have "\<not> fst p < k" by simp
    ultimately show ?thesis using gt Cons.prems by (simp add: kv_wf_def)
  qed
qed

lemma kv_find_remove [simp, kv_laws]: "map_of (kv_remove k m) = (map_of m)(k := None)"
  by (induction m) (auto simp: kv_remove_def fun_eq_iff)

lemma in_kv_remove [simp, kv_laws]: "p \<in> set (kv_remove k m) \<longleftrightarrow> p \<in> set m \<and> fst p \<noteq> k"
  by (auto simp: kv_remove_def)

lemma set_kv_keys_remove [simp, kv_laws]: "fst ` set (kv_remove k m) = fst ` set m - {k}"
  by (force simp: kv_remove_def)

lemma kv_remove_add [simp, kv_laws]: "kv_remove k (kv_add k v m) = kv_remove k m"
  by (induction m) (auto simp: kv_remove_def)

lemma kv_remove_absent [kv_laws]: "kv_find m k = None \<Longrightarrow> kv_remove k m = m"
  by (auto simp: kv_remove_def map_of_eq_None_iff intro!: filter_True)

lemma kv_wf_remove [simp, kv_laws]: "kv_wf m \<Longrightarrow> kv_wf (kv_remove k m)"
  unfolding kv_wf_def kv_remove_def by (induction m) auto

lemma kv_keyset_laws [simp, kv_laws]:
  "kv_keyset [] = {}"
  "kv_keyset (p # m) = insert (fst p) (kv_keyset m)"
  "kv_keyset (kv_add k v m) = insert k (kv_keyset m)"
  "kv_keyset (kv_remove k m) = kv_keyset m - {k}"
  by (auto simp: kv_keyset_def)

lemma kv_keyset_find: "k \<in> kv_keyset m \<longleftrightarrow> map_of m k \<noteq> None"
  using map_of_eq_None_iff [of m k] by (auto simp: kv_keyset_def)

lemma kv_keyset_empty [simp]: "kv_keyset m = {} \<longleftrightarrow> m = []" "{} = kv_keyset m \<longleftrightarrow> m = []"
  by (auto simp: kv_keyset_def)

lemma kv_add_same [kv_laws]: "kv_wf m \<Longrightarrow> map_of m k = Some v \<Longrightarrow> kv_add k v m = m"
proof (induction m)
  case Nil
  then show ?case by simp
next
  case (Cons p m)
  then have "fst p \<noteq> k \<Longrightarrow> fst p < k"
    by (auto simp: kv_wf_def dest!: map_of_SomeD)
  with Cons show ?case by (cases p) (auto simp: kv_wf_def split: if_splits)
qed

lemma kv_wf_distinct: "kv_wf m \<Longrightarrow> distinct (kv_keys m)"
  by (simp add: kv_wf_def strict_sorted_iff)

lemma kv_ext:
  assumes wf: "kv_wf m" "kv_wf m'" and eq: "\<And>k. kv_find m k = kv_find m' k"
  shows "m = m'"
proof (rule map_sorted_distinct_set_unique [of fst])
  have "\<And>k v. (k, v) \<in> set m \<longleftrightarrow> (k, v) \<in> set m'"
    using wf [THEN kv_wf_distinct, THEN map_of_eq_Some_iff] eq by auto
  then show set_eq: "set m = set m'" by auto
  show "inj_on fst (set m \<union> set m')"
    using kv_wf_distinct [OF wf(1)] set_eq by (simp add: distinct_map)
qed (use wf in \<open>auto simp: kv_wf_def strict_sorted_iff\<close>)

lemma kv_add_add: "kv_wf m \<Longrightarrow> kv_add k v (kv_add k u m) = kv_add k v m"
  by (rule kv_ext) auto

lemma kv_index_from_ge:
  "0 \<le> i \<Longrightarrow> kv_find m k \<noteq> None \<Longrightarrow> i \<le> kv_index_from i k m"
proof (induction m arbitrary: i)
  case Nil
  then show ?case by simp
next
  case (Cons p m)
  show ?case
  proof (cases "fst p = k")
    case True
    then show ?thesis by simp
  next
    case False
    with Cons.prems have "i + 1 \<le> kv_index_from (i + 1) k m"
      by (intro Cons.IH) auto
    with False show ?thesis by simp
  qed
qed

lemma kv_index_from_absent: "kv_find m k = None \<Longrightarrow> kv_index_from i k m = - ENOENT"
  by (induction m arbitrary: i) (auto split: if_splits)

lemma kv_index_nonneg [simp]: "0 \<le> kv_index k m \<longleftrightarrow> kv_find m k \<noteq> None"
proof (cases "kv_find m k")
  case None
  then show ?thesis by (simp add: kv_index_def kv_index_from_absent)
next
  case (Some v)
  then show ?thesis using kv_index_from_ge [of 0 m k] by (simp add: kv_index_def)
qed

lemma kv_index_absent [simp]: "kv_index k m = - ENOENT \<longleftrightarrow> kv_find m k = None"
proof (cases "kv_find m k")
  case None
  then show ?thesis by (simp add: kv_index_def kv_index_from_absent)
next
  case (Some v)
  then show ?thesis using kv_index_from_ge [of 0 m k] by (simp add: kv_index_def)
qed

section \<open>Words\<close>

lemma unat_Suc_below: "unat (a :: u32) < unat (b :: u32) \<Longrightarrow> unat (a + 1) = Suc (unat a)"
  by unat_arith

lemma unat_pred: "(a :: u32) \<noteq> 0 \<Longrightarrow> unat (a - 1) = unat a - 1"
  by unat_arith

section \<open>Components that keep an invariant\<close>

text \<open>
  The contract every stateful component states: the states it may start in, the steps it
  makes and an invariant which the starts satisfy and the steps keep. What a client may
  use of it is that every state a run reaches satisfies the invariant.
\<close>

locale invariant_system =
  fixes start :: "'s \<Rightarrow> bool"
    and step :: "'s \<Rightarrow> 's \<Rightarrow> bool"
    and inv :: "'s \<Rightarrow> bool"
  assumes inv_start: "start s \<Longrightarrow> inv s"
    and inv_step: "inv s \<Longrightarrow> step s t \<Longrightarrow> inv t"
begin

lemma inv_run: "step\<^sup>*\<^sup>* s t \<Longrightarrow> inv s \<Longrightarrow> inv t"
  by (induction rule: rtranclp_induct) (auto intro: inv_step)

lemma inv_reachable: "start s \<Longrightarrow> step\<^sup>*\<^sup>* s t \<Longrightarrow> inv t"
  by (blast intro: inv_run inv_start)

lemma inv_consequence: "start s \<Longrightarrow> step\<^sup>*\<^sup>* s t \<Longrightarrow> (\<And>u. inv u \<Longrightarrow> P u) \<Longrightarrow> P t"
  by (auto dest: inv_reachable)

end

section \<open>Lists that alternate\<close>

text \<open>No two neighbours are equal: the shape of a sequence of change notifications.\<close>

fun alternating :: "'a list \<Rightarrow> bool" where
  "alternating (x # y # zs) = (x \<noteq> y \<and> alternating (y # zs))"
| "alternating _ = True"

lemma alternating_snoc:
  "alternating (xs @ [x]) \<Longrightarrow> x \<noteq> y \<Longrightarrow> alternating (xs @ [x, y])"
  by (induction xs rule: alternating.induct) auto

section \<open>Components that implement a specification\<close>

text \<open>
  A sequence of operations on a component that can fault, and on its specification, which
  cannot.
\<close>

primrec run_ops :: "('op \<Rightarrow> 'c \<Rightarrow> ('out \<times> 'c) option) \<Rightarrow> 'op list \<Rightarrow> 'c \<Rightarrow> ('out list \<times> 'c) option" where
  "run_ops step [] c = Some ([], c)"
| "run_ops step (p # ps) c =
     (case step p c of
        None \<Rightarrow> None
      | Some (r, c1) \<Rightarrow> map_option (\<lambda>(rs, c2). (r # rs, c2)) (run_ops step ps c1))"

primrec spec_ops :: "('op \<Rightarrow> 'a \<Rightarrow> 'out \<times> 'a) \<Rightarrow> 'op list \<Rightarrow> 'a \<Rightarrow> 'out list \<times> 'a" where
  "spec_ops spec [] a = ([], a)"
| "spec_ops spec (p # ps) a =
     (let (r, a1) = spec p a; (rs, a2) = spec_ops spec ps a1 in (r # rs, a2))"

text \<open>
  The contract: \<open>rel ps c a\<close> relates a state of the component and one of the specification
  when the operations \<open>ps\<close> are still to come, since what a caller may pass later can depend on
  what has been passed before.
\<close>

locale forward_simulation =
  fixes rel :: "'op list \<Rightarrow> 'c \<Rightarrow> 'a \<Rightarrow> bool"
    and step :: "'op \<Rightarrow> 'c \<Rightarrow> ('out \<times> 'c) option"
    and spec :: "'op \<Rightarrow> 'a \<Rightarrow> 'out \<times> 'a"
  assumes simulates: "rel (p # ps) c a \<Longrightarrow>
    \<exists>c'. step p c = Some (fst (spec p a), c') \<and> rel ps c' (snd (spec p a))"
begin

lemma runs_simulate:
  "rel ps c a \<Longrightarrow>
    \<exists>c'. run_ops step ps c = Some (fst (spec_ops spec ps a), c') \<and> rel [] c' (snd (spec_ops spec ps a))"
proof (induction ps arbitrary: c a)
  case (Cons p ps)
  obtain c1 where c1: "step p c = Some (fst (spec p a), c1)" "rel ps c1 (snd (spec p a))"
    using simulates [OF Cons.prems] by blast
  from Cons.IH [OF c1(2)] obtain c' where
    "run_ops step ps c1 = Some (fst (spec_ops spec ps (snd (spec p a))), c')"
    "rel [] c' (snd (spec_ops spec ps (snd (spec p a))))" by blast
  with c1(1) show ?case by (simp add: split_beta Let_def)
qed simp

end

end
