(* ===== verification/Monitor.thy ===== *)
theory Monitor
  imports Prelude
begin

text \<open>
  The activity tracker \<^verbatim>\<open>Camera3Monitor\<close>: every stream and the request handler own a
  monitor id whose state is IDLE or ACTIVE; a thread folds the queued state changes into a
  composite state and reports every change of it to the device client. Source:
  \<^verbatim>\<open>common/cameraadaptor/qmmf_camera3_monitor.{h,cc}\<close>.
\<close>

section \<open>State\<close>

datatype MonitorState = IDLE | ACTIVE

type_synonym StateTransition = "int \<times> MonitorState"

record monitor =
  input_queue :: "StateTransition list"
  monitor_updated :: bool
  idle_notify :: bool \<comment> \<open>whether a callback is registered\<close>
  next_monitor :: int
  monitor_states :: "(int, MonitorState) kv"
  composite_state :: MonitorState
  updated_states :: "MonitorState list"

definition INVALID_ID :: int where
  "INVALID_ID = -1"

definition Camera3Monitor :: monitor where
  "Camera3Monitor = \<lparr>input_queue = [], monitor_updated = False, idle_notify = False,
     next_monitor = 0, monitor_states = [], composite_state = IDLE, updated_states = []\<rparr>"

definition SetIdleNotifyCb :: "monitor \<Rightarrow> monitor" where
  "SetIdleNotifyCb m = m\<lparr>idle_notify := True\<rparr>"

section \<open>Operations\<close>

text \<open>
  \<^verbatim>\<open>KeyedVector::add\<close> returns the index of the added pair, which is never negative, so
  the error branch after it is the test of the code on that index.
\<close>

definition AcquireMonitor :: "monitor \<Rightarrow> int \<times> monitor" where
  "AcquireMonitor m =
     (let mid = next_monitor m;
          m1 = m\<lparr>next_monitor := mid + 1, monitor_states := kv_add mid IDLE (monitor_states m)\<rparr>;
          res = kv_index mid (monitor_states m1)
      in if res < 0 then (res, m1)
         else (if 0 \<le> mid then (mid, m1\<lparr>monitor_updated := True\<rparr>) else (mid, m1)))"

definition ReleaseMonitor :: "monitor \<Rightarrow> int \<Rightarrow> monitor" where
  "ReleaseMonitor m mid =
     (let idx = kv_index mid (monitor_states m);
          m1 = m\<lparr>monitor_states := kv_remove mid (monitor_states m)\<rparr>
      in if 0 \<le> idx then m1\<lparr>monitor_updated := True\<rparr> else m1)"

definition ChangeState :: "monitor \<Rightarrow> int \<Rightarrow> MonitorState \<Rightarrow> monitor" where
  "ChangeState m mid state = m\<lparr>input_queue := input_queue m @ [(mid, state)]\<rparr>"

definition ChangeStateToIdle :: "monitor \<Rightarrow> int \<Rightarrow> monitor" where
  "ChangeStateToIdle m mid = ChangeState m mid IDLE"

definition ChangeStateToActive :: "monitor \<Rightarrow> int \<Rightarrow> monitor" where
  "ChangeStateToActive m mid = ChangeState m mid ACTIVE"

definition BuildCompositeState :: "monitor \<Rightarrow> MonitorState" where
  "BuildCompositeState m =
     (if ACTIVE \<in> set (map snd (monitor_states m)) then ACTIVE else IDLE)"

text \<open>
  One iteration of the monitor thread. The wait at its start releases the input lock, so
  each wake-up is given by the environment: the result of \<^verbatim>\<open>cond_wait_relative\<close>, whether
  an exit is pending, and the state the other threads left. \<open>None\<close> is a thread that still
  waits.
\<close>

type_synonym 's wake = "int \<times> bool \<times> 's"

primrec WaitInput :: "monitor wake list \<Rightarrow> monitor \<Rightarrow> (bool \<times> monitor) option" where
  "WaitInput [] m =
     (if input_queue m = [] \<and> \<not> monitor_updated m then None else Some (False, m))"
| "WaitInput (w # ws) m =
     (if input_queue m = [] \<and> \<not> monitor_updated m
      then (case w of (res, exit_pending, m') \<Rightarrow>
              if exit_pending then Some (True, m')
              else if res \<noteq> 0 then Some (False, m')
              else WaitInput ws m')
      else Some (False, m))"

primrec ApplyTransitions ::
    "StateTransition list \<Rightarrow> MonitorState \<Rightarrow> monitor \<Rightarrow> MonitorState \<times> monitor" where
  "ApplyTransitions [] oldState m = (oldState, m)"
| "ApplyTransitions (t # ts) oldState m =
     (if 0 \<le> kv_index (fst t) (monitor_states m)
      then let m1 = m\<lparr>monitor_states := kv_add (fst t) (snd t) (monitor_states m)\<rparr>;
               newState = BuildCompositeState m1;
               m2 = (if newState \<noteq> oldState
                     then m1\<lparr>updated_states := updated_states m1 @ [newState]\<rparr> else m1)
           in ApplyTransitions ts newState m2
      else ApplyTransitions ts oldState m)"

definition UpdateComposite :: "monitor \<Rightarrow> monitor" where
  "UpdateComposite m =
     (let oldState = BuildCompositeState m;
          m1 = (if oldState \<noteq> composite_state m
                then m\<lparr>updated_states := updated_states m @ [oldState]\<rparr> else m);
          (last_state, m2) = ApplyTransitions (input_queue m) oldState m1
      in m2\<lparr>input_queue := [], monitor_updated := False, composite_state := last_state\<rparr>)"

text \<open>The result: whether the thread goes on, the arguments of the calls of the idle callback, the state.\<close>

definition ThreadLoop :: "monitor wake list \<Rightarrow> monitor \<Rightarrow> (bool \<times> bool list \<times> monitor) option" where
  "ThreadLoop ws m =
     (case WaitInput ws m of
        None \<Rightarrow> None
      | Some (True, m') \<Rightarrow> Some (False, [], m')
      | Some (False, m') \<Rightarrow>
          (let m2 = UpdateComposite m';
               calls = (if idle_notify m2 then map (\<lambda>s. s = IDLE) (updated_states m2) else [])
           in Some (True, calls, m2\<lparr>updated_states := []\<rparr>)))"

section \<open>Well-formedness\<close>

definition monitor_inv :: "monitor \<Rightarrow> bool" where
  "monitor_inv m \<longleftrightarrow>
     kv_wf (monitor_states m) \<and> 0 \<le> next_monitor m \<and>
     (\<forall>mid \<in> kv_keyset (monitor_states m). 0 \<le> mid \<and> mid < next_monitor m) \<and>
     updated_states m = []"

definition monitor_ids :: "monitor \<Rightarrow> int set" where
  "monitor_ids m = kv_keyset (monitor_states m)"

lemmas monitor_defs = AcquireMonitor_def ReleaseMonitor_def ChangeState_def
  ChangeStateToIdle_def ChangeStateToActive_def monitor_inv_def monitor_ids_def Let_def

lemma AcquireMonitor_inv:
  assumes "monitor_inv m"
  shows "AcquireMonitor m = (next_monitor m,
           m\<lparr>next_monitor := next_monitor m + 1,
             monitor_states := kv_add (next_monitor m) IDLE (monitor_states m),
             monitor_updated := True\<rparr>)"
    and "monitor_inv (snd (AcquireMonitor m))"
proof -
  from assms have "0 \<le> kv_index (next_monitor m) (kv_add (next_monitor m) IDLE (monitor_states m))"
    by (simp add: monitor_inv_def del: kv_index_nonneg add: kv_index_nonneg)
  with assms show eq: "AcquireMonitor m = (next_monitor m,
           m\<lparr>next_monitor := next_monitor m + 1,
             monitor_states := kv_add (next_monitor m) IDLE (monitor_states m),
             monitor_updated := True\<rparr>)"
    by (simp add: AcquireMonitor_def Let_def monitor_inv_def not_less)
  show "monitor_inv (snd (AcquireMonitor m))"
    unfolding eq using assms by (auto simp: monitor_inv_def)
qed

lemma ReleaseMonitor_inv: "monitor_inv m \<Longrightarrow> monitor_inv (ReleaseMonitor m mid)"
  by (auto simp: monitor_defs)

lemma ChangeState_inv: "monitor_inv m \<Longrightarrow> monitor_inv (ChangeState m mid s)"
  by (simp add: monitor_defs)

lemma ChangeState_ids [simp]: "monitor_ids (ChangeState m mid s) = monitor_ids m"
  by (simp add: monitor_defs)

lemma ReleaseMonitor_ids [simp]: "monitor_ids (ReleaseMonitor m mid) = monitor_ids m - {mid}"
  by (simp add: monitor_defs)

section \<open>The composite state\<close>

lemma BuildCompositeState_iff:
  "kv_wf (monitor_states m) \<Longrightarrow>
   BuildCompositeState m = ACTIVE \<longleftrightarrow> (\<exists>mid. kv_find (monitor_states m) mid = Some ACTIVE)"
  using kv_wf_distinct [of "monitor_states m"]
  by (force simp: BuildCompositeState_def dest: map_of_SomeD)

lemma BuildCompositeState_cong [simp]:
  "BuildCompositeState (m\<lparr>updated_states := us\<rparr>) = BuildCompositeState m"
  "BuildCompositeState (m\<lparr>input_queue := q\<rparr>) = BuildCompositeState m"
  "BuildCompositeState (m\<lparr>monitor_updated := b\<rparr>) = BuildCompositeState m"
  "BuildCompositeState (m\<lparr>composite_state := c\<rparr>) = BuildCompositeState m"
  by (simp_all add: BuildCompositeState_def)

lemma ApplyTransitions_registered:
  assumes "kv_find (monitor_states m) (fst t) = Some v"
  obtains n m2 where "ApplyTransitions (t # ts) oldState m = ApplyTransitions ts n m2"
    and "monitor_states m2 = kv_add (fst t) (snd t) (monitor_states m)"
    and "BuildCompositeState m2 = n"
    and "updated_states m2 = updated_states m @ (if n \<noteq> oldState then [n] else [])"
    and "next_monitor m2 = next_monitor m" and "idle_notify m2 = idle_notify m"
    and "monitor_ids m2 = monitor_ids m"
proof -
  define m1 where "m1 = m\<lparr>monitor_states := kv_add (fst t) (snd t) (monitor_states m)\<rparr>"
  define n where "n = BuildCompositeState m1"
  define m2 where "m2 = (if n \<noteq> oldState then m1\<lparr>updated_states := updated_states m1 @ [n]\<rparr> else m1)"
  from assms have "fst t \<in> monitor_ids m"
    using kv_keyset_find [of "fst t" "monitor_states m"] by (simp add: monitor_ids_def)
  then have ids: "monitor_ids m2 = monitor_ids m"
    by (auto simp: m2_def m1_def monitor_ids_def)
  from assms have run: "ApplyTransitions (t # ts) oldState m = ApplyTransitions ts n m2"
    by (simp add: m1_def n_def m2_def Let_def split del: if_split cong: if_cong)
  show thesis
  proof (rule that [OF run])
    show "BuildCompositeState m2 = n" by (simp add: m2_def n_def)
    show "monitor_ids m2 = monitor_ids m" by (rule ids)
  qed (simp_all add: m2_def m1_def)
qed

lemma ApplyTransitions_unregistered:
  "kv_find (monitor_states m) (fst t) = None \<Longrightarrow>
   ApplyTransitions (t # ts) oldState m = ApplyTransitions ts oldState m"
  by simp

text \<open>
  The history \<open>c # updated_states\<close> of composite states alternates and ends with the
  composite state of the processed transitions.
\<close>

lemma ApplyTransitions_spec:
  assumes "kv_wf (monitor_states m)" and "BuildCompositeState m = oldState"
    and "alternating (c # updated_states m)" and "last (c # updated_states m) = oldState"
    and "ApplyTransitions ts oldState m = (s, m')"
  shows "kv_wf (monitor_states m') \<and> BuildCompositeState m' = s \<and>
         alternating (c # updated_states m') \<and> last (c # updated_states m') = s \<and>
         monitor_ids m' = monitor_ids m \<and> next_monitor m' = next_monitor m \<and>
         idle_notify m' = idle_notify m"
  using assms
proof (induction ts arbitrary: oldState m)
  case Nil
  then show ?case by auto
next
  case (Cons t ts)
  show ?case
  proof (cases "kv_find (monitor_states m) (fst t)")
    case None
    with Cons.prems(5) have "ApplyTransitions ts oldState m = (s, m')"
      by (simp only: ApplyTransitions_unregistered)
    with Cons.prems(1-4) show ?thesis by (rule Cons.IH)
  next
    case (Some v)
    then obtain n m2 where eq: "ApplyTransitions (t # ts) oldState m = ApplyTransitions ts n m2"
      and ms: "monitor_states m2 = kv_add (fst t) (snd t) (monitor_states m)"
      and bc: "BuildCompositeState m2 = n"
      and us: "updated_states m2 = updated_states m @ (if n \<noteq> oldState then [n] else [])"
      and rest: "next_monitor m2 = next_monitor m" "idle_notify m2 = idle_notify m"
        "monitor_ids m2 = monitor_ids m"
      by (rule ApplyTransitions_registered)
    have wf: "kv_wf (monitor_states m2)" using Cons.prems(1) ms by simp
    have alt: "alternating (c # updated_states m2)"
    proof (cases "updated_states m" rule: rev_cases)
      case Nil
      with Cons.prems(4) us show ?thesis by auto
    next
      case (snoc xs u)
      with Cons.prems(3,4) us show ?thesis
        using alternating_snoc [of "c # xs" u n] by auto
    qed
    have l: "last (c # updated_states m2) = n"
      using Cons.prems(4) us by auto
    from Cons.prems(5) eq have "ApplyTransitions ts n m2 = (s, m')" by simp
    from Cons.IH [OF wf bc alt l this] rest show ?thesis by simp
  qed
qed

text \<open>What the queued transitions leave of each monitor: the last one queued for it, if it is registered.\<close>

lemma ApplyTransitions_states:
  assumes "kv_wf (monitor_states m)" and "ApplyTransitions ts oldState m = (s, m')"
  shows "kv_find (monitor_states m') mid =
     (case kv_find (monitor_states m) mid of
        None \<Rightarrow> None
      | Some v \<Rightarrow> Some (case map_of (rev ts) mid of None \<Rightarrow> v | Some t \<Rightarrow> t))"
  using assms
proof (induction ts arbitrary: oldState m)
  case Nil
  then show ?case by (auto split: option.splits)
next
  case (Cons t ts)
  show ?case
  proof (cases "kv_find (monitor_states m) (fst t)")
    case None
    with Cons.prems(2) have "ApplyTransitions ts oldState m = (s, m')"
      by (simp only: ApplyTransitions_unregistered)
    from Cons.IH [OF Cons.prems(1) this] None show ?thesis
      by (cases t) (auto simp: map_add_def split: option.splits)
  next
    case (Some v)
    then obtain n m2 where eq: "ApplyTransitions (t # ts) oldState m = ApplyTransitions ts n m2"
      and ms: "monitor_states m2 = kv_add (fst t) (snd t) (monitor_states m)"
      by (rule ApplyTransitions_registered)
    then have wf: "kv_wf (monitor_states m2)" using Cons.prems(1) by simp
    from Cons.prems(2) eq have "ApplyTransitions ts n m2 = (s, m')" by simp
    from Cons.IH [OF wf this] ms Cons.prems(1) Some show ?thesis
      by (cases t) (auto simp: map_add_def split: option.splits)
  qed
qed

lemma UpdateComposite_spec:
  assumes "monitor_inv m"
  defines "m' \<equiv> UpdateComposite m"
  shows "composite_state m' = BuildCompositeState m'"
    and "alternating (composite_state m # updated_states m')"
    and "last (composite_state m # updated_states m') = composite_state m'"
    and "monitor_inv (m'\<lparr>updated_states := []\<rparr>)"
    and "monitor_ids m' = monitor_ids m"
    and "idle_notify m' = idle_notify m"
    and "kv_find (monitor_states m') mid =
     (case kv_find (monitor_states m) mid of
        None \<Rightarrow> None
      | Some v \<Rightarrow> Some (case map_of (rev (input_queue m)) mid of None \<Rightarrow> v | Some t \<Rightarrow> t))"
proof -
  define c where "c = BuildCompositeState m"
  define m1 where "m1 = (if c \<noteq> composite_state m then m\<lparr>updated_states := updated_states m @ [c]\<rparr> else m)"
  obtain s m2 where run: "ApplyTransitions (input_queue m) c m1 = (s, m2)" by fastforce
  have m': "m' = m2\<lparr>input_queue := [], monitor_updated := False, composite_state := s\<rparr>"
    using run by (simp add: m'_def UpdateComposite_def c_def m1_def Let_def split del: if_split cong: if_cong)
  from assms have wf: "kv_wf (monitor_states m1)" and us: "updated_states m = []"
    by (simp_all add: m1_def monitor_inv_def)
  have pre: "BuildCompositeState m1 = c" "alternating (composite_state m # updated_states m1)"
    "last (composite_state m # updated_states m1) = c"
    using us by (auto simp: m1_def c_def)
  have m1_fields: "monitor_states m1 = monitor_states m" "next_monitor m1 = next_monitor m"
    "idle_notify m1 = idle_notify m" "monitor_ids m1 = monitor_ids m"
    by (simp_all add: m1_def monitor_ids_def)
  note spec = ApplyTransitions_spec [OF wf pre run]
  from spec show "composite_state m' = BuildCompositeState m'"
    "alternating (composite_state m # updated_states m')"
    "last (composite_state m # updated_states m') = composite_state m'"
    "monitor_ids m' = monitor_ids m" "idle_notify m' = idle_notify m"
    by (simp_all add: m' m1_fields monitor_ids_def)
  from spec assms(1) m1_fields show "monitor_inv (m'\<lparr>updated_states := []\<rparr>)"
    by (simp add: m' monitor_inv_def monitor_ids_def)
  show "kv_find (monitor_states m') mid =
     (case kv_find (monitor_states m) mid of
        None \<Rightarrow> None
      | Some v \<Rightarrow> Some (case map_of (rev (input_queue m)) mid of None \<Rightarrow> v | Some t \<Rightarrow> t))"
    using ApplyTransitions_states [OF wf run, of mid] by (simp add: m' m1_fields)
qed

lemma alternating_map_inj: "inj_on f (set xs) \<Longrightarrow> alternating xs \<Longrightarrow> alternating (map f xs)"
  by (induction xs rule: alternating.induct) (auto dest: inj_onD)

lemma idle_inj: "inj_on (\<lambda>s. s = IDLE) S"
  by (auto simp: inj_on_def) (metis MonitorState.exhaust)+

section \<open>The monitor as an invariant system and as a service\<close>

text \<open>The steps of the threads that share the monitor: every client call and every iteration of its thread.\<close>

inductive monitor_step :: "monitor \<Rightarrow> monitor \<Rightarrow> bool" where
  acquire: "monitor_step m (snd (AcquireMonitor m))"
| release: "monitor_step m (ReleaseMonitor m mid)"
| change: "monitor_step m (ChangeState m mid s)"
| set_cb: "monitor_step m (SetIdleNotifyCb m)"
| loop: "ThreadLoop [] m = Some (b, calls, m') \<Longrightarrow> monitor_step m m'"
| timeout: "r \<noteq> 0 \<Longrightarrow> ThreadLoop [(r, False, m)] m = Some (b, calls, m') \<Longrightarrow> monitor_step m m'"

lemma WaitInput_inv:
  "monitor_inv m \<Longrightarrow> \<forall>w \<in> set ws. monitor_inv (snd (snd w)) \<Longrightarrow> WaitInput ws m = Some (b, m') \<Longrightarrow>
   monitor_inv m'"
  by (induction ws arbitrary: m) (auto split: if_splits prod.splits)

lemma ThreadLoop_inv:
  assumes "monitor_inv m" and "\<forall>w \<in> set ws. monitor_inv (snd (snd w))"
    and "ThreadLoop ws m = Some (b, calls, m')"
  shows "monitor_inv m'"
  using assms WaitInput_inv [OF assms(1,2)]
  by (auto simp: ThreadLoop_def Let_def UpdateComposite_spec(4) split: option.splits prod.splits bool.splits)

interpretation monitor_sys: invariant_system "\<lambda>m. m = Camera3Monitor" monitor_step monitor_inv
proof unfold_locales
  fix s assume "s = Camera3Monitor"
  then show "monitor_inv s" by (simp add: Camera3Monitor_def monitor_inv_def)
next
  fix s t assume inv: "monitor_inv s" and "monitor_step s t"
  from this(2) show "monitor_inv t"
  proof cases
    case set_cb
    with inv show ?thesis by (simp add: SetIdleNotifyCb_def monitor_inv_def)
  qed (use inv in \<open>auto simp: AcquireMonitor_inv(2) ReleaseMonitor_inv ChangeState_inv
         intro: ThreadLoop_inv [of s "[]"] ThreadLoop_inv [of s "[(_, False, s)]"]\<close>)
qed

text \<open>
  What the streams and the request handler rely on of the monitor: acquired ids are valid
  and distinct from every id in use, and a state change never adds or drops an id.
\<close>

locale monitor_service =
  fixes acquire :: "'m \<Rightarrow> int \<times> 'm"
    and release :: "'m \<Rightarrow> int \<Rightarrow> 'm"
    and change :: "'m \<Rightarrow> int \<Rightarrow> 's \<Rightarrow> 'm"
    and ids :: "'m \<Rightarrow> int set"
    and ok :: "'m \<Rightarrow> bool"
  assumes acquire_id: "ok m \<Longrightarrow> 0 \<le> fst (acquire m) \<and> fst (acquire m) \<notin> ids m"
    and acquire_ids: "ok m \<Longrightarrow> ids (snd (acquire m)) = insert (fst (acquire m)) (ids m)"
    and acquire_ok: "ok m \<Longrightarrow> ok (snd (acquire m))"
    and release_ids: "ids (release m i) = ids m - {i}"
    and release_ok: "ok m \<Longrightarrow> ok (release m i)"
    and change_ids: "ids (change m i s) = ids m"
    and change_ok: "ok m \<Longrightarrow> ok (change m i s)"
begin

lemma acquire_twice_distinct:
  "ok m \<Longrightarrow> fst (acquire (snd (acquire m))) \<noteq> fst (acquire m)"
  using acquire_id [OF acquire_ok] acquire_ids by blast

lemma acquire_release: "ok m \<Longrightarrow> ids (release (snd (acquire m)) (fst (acquire m))) = ids m"
  using acquire_id acquire_ids by (auto simp: release_ids)

end

interpretation mon: monitor_service AcquireMonitor ReleaseMonitor ChangeState monitor_ids monitor_inv
proof unfold_locales
  fix m :: monitor assume inv: "monitor_inv m"
  show "0 \<le> fst (AcquireMonitor m) \<and> fst (AcquireMonitor m) \<notin> monitor_ids m"
    using inv by (auto simp: AcquireMonitor_inv(1) monitor_inv_def monitor_ids_def)
  show "monitor_ids (snd (AcquireMonitor m)) = insert (fst (AcquireMonitor m)) (monitor_ids m)"
    using inv by (simp add: AcquireMonitor_inv(1) monitor_ids_def)
qed (simp_all add: AcquireMonitor_inv(2) ReleaseMonitor_inv ChangeState_inv)

end
