(* ===== verification/Stream.thy ===== *)
theory Stream
  imports Monitor
begin

unbundle bit_operations_syntax

text \<open>
  An output stream \<^verbatim>\<open>Camera3Stream\<close>: its configuration state machine and the pool of
  graphics buffers it hands to the camera HAL and takes back from the client. Source:
  \<^verbatim>\<open>common/cameraadaptor/qmmf_camera3_stream.{h,cc}\<close>. Each public method holds the
  stream's lock from its start to its end, so it is one function of the stream and of what
  streams share; the one wait (in \<open>GetBuffer\<close>) takes the state in which the lock is taken
  again as an argument.
\<close>

section \<open>Data\<close>

datatype hal_format =
    HAL_PIXEL_FORMAT_BLOB
  | HAL_PIXEL_FORMAT_YCbCr_420_SP_VENUS
  | HAL_PIXEL_FORMAT_NV12_ENCODEABLE
  | HAL_PIXEL_FORMAT_YCbCr_420_888
  | HAL_PIXEL_FORMAT_IMPLEMENTATION_DEFINED
  | HAL_PIXEL_FORMAT_YCbCr_420_SP_VENUS_UBWC
  | HAL_PIXEL_FORMAT_YCbCr_422_888
  | HAL_PIXEL_FORMAT_YCbCr_422_SP
  | HAL_PIXEL_FORMAT_NV21_ZSL
  | HAL_PIXEL_FORMAT_RAW8
  | HAL_PIXEL_FORMAT_RAW10
  | HAL_PIXEL_FORMAT_RAW12
  | HAL_PIXEL_FORMAT_RAW16
  | HAL_PIXEL_FORMAT_OTHER nat

datatype BufferFormat = kRGB | kNV12 | kNV12UBWC | kNV21 | kNV16 | kBLOB | kRAW8 | kRAW10
  | kRAW12 | kRAW16 | kNV12Encodable | kUnsupported

record PlaneInfo =
  stride :: u32
  scanline :: u32
  width :: u32
  height :: u32
  offset :: u32
  plane_size :: u32

text \<open>The planes a buffer really has; \<open>num_planes\<close> is the length of the list.\<close>

record CameraBufferMetaData =
  buffer_format :: BufferFormat
  plane_info :: "PlaneInfo list"

type_synonym handle = nat

text \<open>
  What the streams use of code outside the repository or behind a virtual interface: the
  usage flag conversions of \<^verbatim>\<open>IMemAllocUsage\<close>, the allocator \<^verbatim>\<open>IAllocDevice\<close>
  (an allocation sees the handles that are live), the accessors of a buffer handle, and
  the macros of \<^verbatim>\<open>media/msm_media_info.h\<close>.
\<close>

record platform =
  cam_arch_v2 :: bool
  to_local :: "u32 \<Rightarrow> u32"
  to_common :: "u32 \<Rightarrow> u32"
  alloc_buffer :: "handle list \<Rightarrow> u32 \<Rightarrow> u32 \<Rightarrow> hal_format \<Rightarrow> u32 \<Rightarrow> (handle \<times> u32) option"
  buf_native :: "handle \<Rightarrow> nat"
  buf_fd :: "handle \<Rightarrow> int"
  buf_size :: "handle \<Rightarrow> u32"
  buf_format :: "handle \<Rightarrow> hal_format"
  perform_stride :: "handle \<Rightarrow> u32 option"
  perform_aligned_height :: "handle \<Rightarrow> u32 option"
  perform_meta_fd :: "handle \<Rightarrow> int option"
  msm_align :: "u32 \<Rightarrow> u32 \<Rightarrow> u32"
  y_meta_stride :: "u32 \<Rightarrow> u32"
  y_meta_scanlines :: "u32 \<Rightarrow> u32"
  uv_meta_stride :: "u32 \<Rightarrow> u32"
  uv_meta_scanlines :: "u32 \<Rightarrow> u32"

definition kPrivateAllocUbwc :: u32 where "kPrivateAllocUbwc = push_bit 1 1"
definition kHwCameraRead :: u32 where "kHwCameraRead = push_bit 13 1"
definition kHwCameraWrite :: u32 where "kHwCameraWrite = push_bit 14 1"

datatype Status = STATUS_ERROR | STATUS_INTIALIZED | STATUS_CONFIG_ACTIVE
  | STATUS_RECONFIG_ACTIVE | STATUS_CONFIGURED | STATUS_PREPARE_ACTIVE

datatype dataspace = HAL_DATASPACE_UNKNOWN | HAL_DATASPACE_V0_JFIF | HAL_DATASPACE_OTHER nat

record CameraStreamParameters =
  par_width :: u32
  par_height :: u32
  par_format :: hal_format
  par_data_space :: dataspace
  par_rotation :: nat
  par_allocFlags :: u32
  par_bufferCount :: u32
  par_cb :: bool \<comment> \<open>whether a callback is given\<close>
  par_cam_feature_flags :: u32

record stream =
  st_width :: u32
  st_height :: u32
  st_format :: hal_format
  st_data_space :: dataspace
  st_rotation :: nat
  st_usage :: u32
  st_max_buffers :: u32
  current_buffer_stride :: u32
  stream_id :: int
  max_size :: u32
  status :: Status
  total_buffer_count :: u32
  pending_buffer_count :: u32
  hal_buffer_cnt :: u32
  client_buffer_cnt :: u32
  has_callback :: bool
  old_usage :: u32
  client_usage :: u32
  old_max_buffers :: u32
  client_max_buffers :: u32
  mem_alloc_buffers :: "(handle, bool) kv" \<comment> \<open>True marks a buffer that is free\<close>
  mem_alloc_slots :: "handle option list option"
  hw_buffer_allocated :: u32
  monitor_id :: int
  is_stream_active :: bool
  prepared_buffers_count :: u32
  buffers_map :: "(nat, handle) kv"

text \<open>What the streams share: the activity monitor and the buffers that are allocated.\<close>

record shared =
  mon :: monitor
  live :: "handle list"

datatype buffer_status = CAMERA3_BUFFER_STATUS_OK | CAMERA3_BUFFER_STATUS_ERROR

record camera3_stream_buffer =
  sb_buffer :: nat
  sb_status :: buffer_status
  sb_acquire_fence :: int
  sb_release_fence :: int

record StreamBuffer =
  b_info :: CameraBufferMetaData
  b_timestamp :: int
  b_frame_number :: u32
  b_stream_id :: int
  b_data_space :: dataspace
  b_handle :: handle
  b_fd :: int
  b_size :: u32
  b_metafd :: int

section \<open>Construction and the configuration state machine\<close>

definition Camera3Stream :: "platform \<Rightarrow> int \<Rightarrow> u32 \<Rightarrow> CameraStreamParameters \<Rightarrow> bool \<Rightarrow> stream" where
  "Camera3Stream P i maxSize cfg device =
     (let s = \<lparr>st_width = par_width cfg, st_height = par_height cfg, st_format = par_format cfg,
            st_data_space = (if cam_arch_v2 P \<and> par_format cfg = HAL_PIXEL_FORMAT_BLOB
                             then HAL_DATASPACE_V0_JFIF else par_data_space cfg),
            st_rotation = par_rotation cfg, st_usage = to_local P (par_allocFlags cfg),
            st_max_buffers = par_bufferCount cfg, current_buffer_stride = 0, stream_id = i,
            max_size = maxSize, status = STATUS_INTIALIZED, total_buffer_count = 0,
            pending_buffer_count = 0, hal_buffer_cnt = 0, client_buffer_cnt = 0,
            has_callback = par_cb cfg, old_usage = 0, client_usage = par_allocFlags cfg,
            old_max_buffers = 0, client_max_buffers = par_bufferCount cfg,
            mem_alloc_buffers = [], mem_alloc_slots = None, hw_buffer_allocated = 0,
            monitor_id = INVALID_ID, is_stream_active = False, prepared_buffers_count = 0,
            buffers_map = []\<rparr>;
          s1 = (if st_format s = HAL_PIXEL_FORMAT_BLOB \<and> maxSize = 0
                then s\<lparr>status := STATUS_ERROR\<rparr> else s)
      in if \<not> device then s1\<lparr>status := STATUS_ERROR\<rparr> else s1)"

definition release_own_monitor :: "stream \<Rightarrow> shared \<Rightarrow> stream \<times> shared" where
  "release_own_monitor s sh =
     (if monitor_id s \<noteq> INVALID_ID
      then (s\<lparr>monitor_id := INVALID_ID\<rparr>, sh\<lparr>mon := ReleaseMonitor (mon sh) (monitor_id s)\<rparr>)
      else (s, sh))"

definition BeginConfigure :: "platform \<Rightarrow> stream \<Rightarrow> shared \<Rightarrow> bool \<times> stream \<times> shared" where
  "BeginConfigure P s sh =
     (let prepare = (\<lambda>_::unit.
            release_own_monitor (s\<lparr>st_usage := to_local P (client_usage s),
                                   st_max_buffers := client_max_buffers s\<rparr>) sh)
      in case status s of
           STATUS_ERROR \<Rightarrow> (False, s, sh)
         | STATUS_INTIALIZED \<Rightarrow>
             (let (s1, sh1) = prepare () in (True, s1\<lparr>status := STATUS_CONFIG_ACTIVE\<rparr>, sh1))
         | STATUS_CONFIG_ACTIVE \<Rightarrow> (True, s, sh)
         | STATUS_RECONFIG_ACTIVE \<Rightarrow> (True, s, sh)
         | STATUS_CONFIGURED \<Rightarrow>
             (let (s1, sh1) = prepare () in (True, s1\<lparr>status := STATUS_RECONFIG_ACTIVE\<rparr>, sh1))
         | STATUS_PREPARE_ACTIVE \<Rightarrow> (False, s, sh))"

definition IsConfigureActive :: "stream \<Rightarrow> bool" where
  "IsConfigureActive s \<longleftrightarrow> status s = STATUS_CONFIG_ACTIVE \<or> status s = STATUS_RECONFIG_ACTIVE"

definition FreeBuffer :: "shared \<Rightarrow> handle \<Rightarrow> shared" where
  "FreeBuffer sh h = sh\<lparr>live := remove1 h (live sh)\<rparr>"

definition FreeBuffers :: "stream \<Rightarrow> shared \<Rightarrow> stream \<times> shared" where
  "FreeBuffers s sh =
     (s\<lparr>mem_alloc_buffers := []\<rparr>, foldl FreeBuffer sh (kv_keys (mem_alloc_buffers s)))"

definition CloseLocked :: "stream \<Rightarrow> shared \<Rightarrow> int \<times> stream \<times> shared" where
  "CloseLocked s sh =
     (if status s \<noteq> STATUS_RECONFIG_ACTIVE \<and> status s \<noteq> STATUS_CONFIGURED
      then (- ENOTCONN, s, sh)
      else if pending_buffer_count s > 0 then (- ENOSYS, s, sh)
      else let (s1, sh1) = FreeBuffers s sh
           in (0, s1\<lparr>status := (if status s = STATUS_RECONFIG_ACTIVE
                                 then STATUS_CONFIG_ACTIVE else STATUS_INTIALIZED)\<rparr>, sh1))"

definition ConfigureLocked :: "stream \<Rightarrow> shared \<Rightarrow> int \<times> stream \<times> shared" where
  "ConfigureLocked s sh =
     (let allocate = (\<lambda>s sh.
            let s1 = s\<lparr>total_buffer_count := max (client_max_buffers s) (st_max_buffers s),
                       pending_buffer_count := 0, hw_buffer_allocated := 0,
                       is_stream_active := False\<rparr>;
                (s2, sh2) = (if mem_alloc_buffers s1 \<noteq> [] then FreeBuffers s1 sh else (s1, sh))
            in (0, s2\<lparr>mem_alloc_slots :=
                        Some (replicate (unat (total_buffer_count s2)) None)\<rparr>, sh2))
      in case status s of
           STATUS_RECONFIG_ACTIVE \<Rightarrow>
             (case CloseLocked s sh of
                (res, s1, sh1) \<Rightarrow> if res \<noteq> 0 then (res, s1, sh1) else allocate s1 sh1)
         | STATUS_CONFIG_ACTIVE \<Rightarrow> allocate s sh
         | _ \<Rightarrow> (- ENOSYS, s, sh))"

definition EndConfigure :: "platform \<Rightarrow> stream \<Rightarrow> shared \<Rightarrow> int \<times> stream \<times> shared" where
  "EndConfigure P s sh =
     (if status s = STATUS_CONFIG_ACTIVE \<or> status s = STATUS_RECONFIG_ACTIVE
      then
        (case AcquireMonitor (mon sh) of
           (mid, m1) \<Rightarrow>
             let s1 = s\<lparr>monitor_id := mid\<rparr>; sh1 = sh\<lparr>mon := m1\<rparr>
             in if mid < 0 then (mid, s1, sh1)
                else if status s1 = STATUS_RECONFIG_ACTIVE \<and>
                        to_common P (st_usage s1) = old_usage s1 \<and>
                        old_max_buffers s1 = st_max_buffers s1
                then (0, s1\<lparr>status := STATUS_CONFIGURED\<rparr>, sh1)
                else (case ConfigureLocked s1 sh1 of
                        (res, s2, sh2) \<Rightarrow>
                          if res \<noteq> 0 then (res, s2\<lparr>status := STATUS_ERROR\<rparr>, sh2)
                          else (0, s2\<lparr>status := STATUS_CONFIGURED,
                                     old_usage := to_common P (st_usage s2),
                                     old_max_buffers := st_max_buffers s2\<rparr>, sh2)))
      else (- ENOSYS, s, sh))"

definition AbortConfigure :: "platform \<Rightarrow> stream \<Rightarrow> int \<times> stream" where
  "AbortConfigure P s =
     (if status s = STATUS_CONFIG_ACTIVE \<or> status s = STATUS_RECONFIG_ACTIVE
      then (0, s\<lparr>st_usage := to_local P (old_usage s), st_max_buffers := old_max_buffers s,
                 status := (if status s = STATUS_RECONFIG_ACTIVE
                            then STATUS_CONFIGURED else STATUS_INTIALIZED)\<rparr>)
      else (- ENOSYS, s))"

definition Close :: "stream \<Rightarrow> shared \<Rightarrow> int \<times> stream \<times> shared" where
  "Close s sh =
     (case CloseLocked s sh of (res, s1, sh1) \<Rightarrow> (if res = - ENOTCONN then 0 else res, s1, sh1))"

text \<open>The destructor releases a valid monitor and closes the stream.\<close>

definition DestroyStream :: "stream \<Rightarrow> shared \<Rightarrow> stream \<times> shared" where
  "DestroyStream s sh =
     (let (s1, sh1) = (if 0 \<le> monitor_id s
                       then (s\<lparr>monitor_id := INVALID_ID\<rparr>,
                             sh\<lparr>mon := ReleaseMonitor (mon sh) (monitor_id s)\<rparr>)
                       else (s, sh));
          (res, s2, sh2) = CloseLocked s1 sh1
      in (s2\<lparr>mem_alloc_slots := None\<rparr>, sh2))"

section \<open>Buffers\<close>

fun find_slot :: "handle option list \<Rightarrow> nat \<Rightarrow> handle \<Rightarrow> int" where
  "find_slot [] n h = -1"
| "find_slot (x # xs) 0 h = -1"
| "find_slot (x # xs) (Suc n) h =
     (if x = Some h then 0 else let r = find_slot xs n h in if r < 0 then -1 else r + 1)"

definition find_free :: "(handle, bool) kv \<Rightarrow> handle option" where
  "find_free m = map_option fst (find snd m)"

definition may_get_buffer :: "Status \<Rightarrow> bool" where
  "may_get_buffer st \<longleftrightarrow> st = STATUS_CONFIGURED \<or> st = STATUS_CONFIG_ACTIVE \<or>
     st = STATUS_RECONFIG_ACTIVE \<or> st = STATUS_PREPARE_ACTIVE"

text \<open>The dimensions and the usage flags with which a buffer is allocated.\<close>

definition alloc_width :: "stream \<Rightarrow> u32" where
  "alloc_width s = (if st_format s = HAL_PIXEL_FORMAT_BLOB then max_size s else st_width s)"

definition alloc_height :: "stream \<Rightarrow> u32" where
  "alloc_height s = (if st_format s = HAL_PIXEL_FORMAT_BLOB then 1 else st_height s)"

definition alloc_usage :: "platform \<Rightarrow> stream \<Rightarrow> u32" where
  "alloc_usage P s =
     (let flags = to_common P (st_usage s)
      in if flags AND kPrivateAllocUbwc \<noteq> 0
         then flags AND NOT (kHwCameraRead OR kHwCameraWrite) else flags)"

text \<open>
  Lines 715--798: the choice of a buffer. \<open>want\<close> says that the caller passed a stream
  buffer to fill; without one a new buffer is allocated and stays free. The result is the
  error code, or the slot index with the handle.
\<close>

definition SelectBuffer :: "platform \<Rightarrow> bool \<Rightarrow> stream \<Rightarrow> shared \<Rightarrow>
    (int + int \<times> handle option) \<times> stream \<times> shared" where
  "SelectBuffer P want s sh =
     (case (if want then find_free (mem_alloc_buffers s) else None) of
        Some h \<Rightarrow>
          (Inr (find_slot (case mem_alloc_slots s of None \<Rightarrow> [] | Some sl \<Rightarrow> sl)
                  (unat (hw_buffer_allocated s)) h, Some h),
           s\<lparr>mem_alloc_buffers := kv_add h False (mem_alloc_buffers s)\<rparr>, sh)
      | None \<Rightarrow>
          if hw_buffer_allocated s < total_buffer_count s
          then (case alloc_buffer P (live sh) (alloc_width s) (alloc_height s) (st_format s)
                       (alloc_usage P s) of
                  None \<Rightarrow> (Inl (- ENOMEM), s, sh)
                | Some (h, strd) \<Rightarrow>
                    (Inr (int (unat (hw_buffer_allocated s)), Some h),
                     s\<lparr>current_buffer_stride := strd,
                       mem_alloc_slots := map_option
                         (\<lambda>sl. sl[unat (hw_buffer_allocated s) := Some h]) (mem_alloc_slots s),
                       mem_alloc_buffers := kv_add h (\<not> want) (mem_alloc_buffers s),
                       hw_buffer_allocated := hw_buffer_allocated s + 1\<rparr>,
                     sh\<lparr>live := h # live sh\<rparr>))
          else (Inr (-1, None), s, sh))"

definition GetBufferLocked :: "platform \<Rightarrow> bool \<Rightarrow> stream \<Rightarrow> shared \<Rightarrow>
    int \<times> camera3_stream_buffer option \<times> stream \<times> shared" where
  "GetBufferLocked P want s sh =
     (if \<not> may_get_buffer (status s) then (- ENOSYS, None, s, sh)
      else case SelectBuffer P want s sh of
        (Inl e, s1, sh1) \<Rightarrow> (e, None, s1, sh1)
      | (Inr (idx, None), s1, sh1) \<Rightarrow> (- ENOSYS, None, s1, sh1)
      | (Inr (idx, Some h), s1, sh1) \<Rightarrow>
          if idx < 0 then (- ENOSYS, None, s1, sh1)
          else if \<not> want then (0, None, s1, sh1)
          else
            (0, Some \<lparr>sb_buffer = buf_native P h, sb_status = CAMERA3_BUFFER_STATUS_OK,
                      sb_acquire_fence = -1, sb_release_fence = -1\<rparr>,
             s1\<lparr>buffers_map := kv_add (buf_native P h) h (buffers_map s1),
                hal_buffer_cnt := hal_buffer_cnt s1 + 1,
                pending_buffer_count := pending_buffer_count s1 + 1\<rparr>,
             if pending_buffer_count s1 = 0 \<and> status s1 \<noteq> STATUS_CONFIG_ACTIVE \<and>
                status s1 \<noteq> STATUS_RECONFIG_ACTIVE
             then sh1\<lparr>mon := ChangeStateToActive (mon sh1) (monitor_id s1)\<rparr> else sh1))"

text \<open>
  \<open>GetBuffer\<close> waits when all buffers are handed out. \<open>wake\<close> is the outcome of the wait:
  its result and the state in which the lock is taken again.
\<close>

definition GetBuffer_waits :: "stream \<Rightarrow> bool" where
  "GetBuffer_waits s \<longleftrightarrow>
     status s = STATUS_CONFIGURED \<and> pending_buffer_count s = total_buffer_count s"

definition GetBuffer :: "platform \<Rightarrow> int \<times> stream \<times> shared \<Rightarrow> stream \<Rightarrow> shared \<Rightarrow>
    int \<times> camera3_stream_buffer option \<times> stream \<times> shared" where
  "GetBuffer P wake s sh =
     (if status s \<noteq> STATUS_CONFIGURED then (- ENOSYS, None, s, sh)
      else if pending_buffer_count s = total_buffer_count s
      then (case wake of (res, s1, sh1) \<Rightarrow>
              if res \<noteq> 0 then (res, None, s1, sh1) else GetBufferLocked P True s1 sh1)
      else GetBufferLocked P True s sh)"

definition ReturnBufferLocked :: "handle \<Rightarrow> stream \<Rightarrow> shared \<Rightarrow> int \<times> stream \<times> shared" where
  "ReturnBufferLocked h s sh =
     (if status s = STATUS_INTIALIZED then (- ENOSYS, s, sh)
      else if pending_buffer_count s = 0 then (- ENOSYS, s, sh)
      else if kv_index h (mem_alloc_buffers s) = - ENOENT then (- EINVAL, s, sh)
      else
        let s1 = s\<lparr>mem_alloc_buffers := kv_add h True (mem_alloc_buffers s),
                   pending_buffer_count := pending_buffer_count s - 1,
                   client_buffer_cnt := client_buffer_cnt s - 1\<rparr>
        in (0, s1,
            if pending_buffer_count s1 = 0 \<and> status s1 \<noteq> STATUS_CONFIG_ACTIVE \<and>
               status s1 \<noteq> STATUS_RECONFIG_ACTIVE
            then sh\<lparr>mon := ChangeStateToIdle (mon sh) (monitor_id s1)\<rparr> else sh))"

definition ReturnBuffer :: "handle \<Rightarrow> stream \<Rightarrow> shared \<Rightarrow> int \<times> stream \<times> shared" where
  "ReturnBuffer h s sh = ReturnBufferLocked h s sh"

section \<open>Preparation\<close>

definition BeginPrepare :: "stream \<Rightarrow> int \<times> stream" where
  "BeginPrepare s =
     (if status s \<noteq> STATUS_CONFIGURED then (- ENOSYS, s)
      else if is_stream_active s then (- ENOSYS, s)
      else if 0 < pending_buffer_count s then (- ENOSYS, s)
      else (- ENODATA, s\<lparr>prepared_buffers_count := 0, status := STATUS_PREPARE_ACTIVE\<rparr>))"

definition EndPrepareLocked :: "stream \<Rightarrow> int \<times> stream" where
  "EndPrepareLocked s =
     (if status s \<noteq> STATUS_PREPARE_ACTIVE then (- ENOSYS, s)
      else (0, s\<lparr>prepared_buffers_count := 0, status := STATUS_CONFIGURED\<rparr>))"

definition EndPrepare :: "stream \<Rightarrow> int \<times> stream" where
  "EndPrepare s = EndPrepareLocked s"

definition PrepareBuffer :: "platform \<Rightarrow> stream \<Rightarrow> shared \<Rightarrow> int \<times> stream \<times> shared" where
  "PrepareBuffer P s sh =
     (if status s \<noteq> STATUS_PREPARE_ACTIVE then (- ENOSYS, s, sh)
      else case GetBufferLocked P False s sh of
        (res, _, s1, sh1) \<Rightarrow>
          if res \<noteq> 0 then (- ENODEV, s1, sh1)
          else let s2 = s1\<lparr>prepared_buffers_count := prepared_buffers_count s1 + 1\<rparr>
               in if prepared_buffers_count s2 < total_buffer_count s2
                  then (- ENODATA, s2, sh1)
                  else (case EndPrepareLocked s2 of (r, s3) \<Rightarrow> (r, s3, sh1)))"

definition IsPrepareActive :: "stream \<Rightarrow> bool" where
  "IsPrepareActive s \<longleftrightarrow> status s = STATUS_PREPARE_ACTIVE"

definition IsStreamActive :: "stream \<Rightarrow> bool" where
  "IsStreamActive s = is_stream_active s"

definition TearDown :: "stream \<Rightarrow> shared \<Rightarrow> int \<times> stream \<times> shared" where
  "TearDown s sh =
     (if status s \<noteq> STATUS_CONFIGURED then (- ENOSYS, s, sh)
      else if 0 < pending_buffer_count s then (- ENOSYS, s, sh)
      else
        let (s1, sh1) = (if 0 < hw_buffer_allocated s
                         then (case FreeBuffers s sh of
                                 (s', sh') \<Rightarrow> (s'\<lparr>hw_buffer_allocated := 0\<rparr>, sh'))
                         else (s, sh))
        in (0, s1\<lparr>mem_alloc_slots := map_option
                     (\<lambda>sl. replicate (unat (total_buffer_count s1)) None @
                            drop (unat (total_buffer_count s1)) sl) (mem_alloc_slots s1),
                   is_stream_active := False\<rparr>, sh1))"

section \<open>Buffer meta data and delivery to the client\<close>

text \<open>
  \<open>alignedW\<close> and \<open>alignedH\<close> are \<^verbatim>\<open>int\<close> in the code and are stored into and multiplied
  for \<^verbatim>\<open>uint32_t\<close> fields; they are 32-bit words here.
\<close>

definition empty_meta :: CameraBufferMetaData where
  "empty_meta = \<lparr>buffer_format = kRGB, plane_info = []\<rparr>"

definition plane :: "u32 \<Rightarrow> u32 \<Rightarrow> u32 \<Rightarrow> u32 \<Rightarrow> u32 \<Rightarrow> u32 \<Rightarrow> PlaneInfo" where
  "plane w h strd scan sz off =
     \<lparr>stride = strd, scanline = scan, width = w, height = h, offset = off, plane_size = sz\<rparr>"

definition single_plane :: "BufferFormat \<Rightarrow> stream \<Rightarrow> u32 \<Rightarrow> u32 \<Rightarrow> CameraBufferMetaData" where
  "single_plane f s aw ah =
     \<lparr>buffer_format = f, plane_info = [plane (st_width s) (st_height s) aw ah (aw * ah) 0]\<rparr>"

definition half_chroma :: "BufferFormat \<Rightarrow> stream \<Rightarrow> u32 \<Rightarrow> u32 \<Rightarrow> CameraBufferMetaData" where
  "half_chroma f s aw ah =
     \<lparr>buffer_format = f,
      plane_info = [plane (st_width s) (st_height s) aw ah (aw * ah) 0,
                    plane (st_width s) (st_height s div 2) aw (ah div 2) (aw * (ah div 2)) (aw * ah)]\<rparr>"

definition PopulateMetaInfo :: "platform \<Rightarrow> stream \<Rightarrow> handle \<Rightarrow> int \<times> CameraBufferMetaData" where
  "PopulateMetaInfo P s h =
     (case perform_stride P h of
        None \<Rightarrow> (- EINVAL, empty_meta)
      | Some aw \<Rightarrow>
     (case perform_aligned_height P h of
        None \<Rightarrow> (- EINVAL, empty_meta)
      | Some ah \<Rightarrow>
     (case buf_format P h of
        HAL_PIXEL_FORMAT_BLOB \<Rightarrow>
          (0, \<lparr>buffer_format = kBLOB,
               plane_info = [plane (st_width s) (st_height s) aw ah (max_size s) 0]\<rparr>)
      | HAL_PIXEL_FORMAT_YCbCr_420_SP_VENUS \<Rightarrow> (0, half_chroma kNV12 s aw ah)
      | HAL_PIXEL_FORMAT_NV12_ENCODEABLE \<Rightarrow> (0, half_chroma kNV12 s aw ah)
      | HAL_PIXEL_FORMAT_YCbCr_420_888 \<Rightarrow> (0, half_chroma kNV12 s aw ah)
      | HAL_PIXEL_FORMAT_IMPLEMENTATION_DEFINED \<Rightarrow> (0, half_chroma kNV12 s aw ah)
      | HAL_PIXEL_FORMAT_YCbCr_420_SP_VENUS_UBWC \<Rightarrow>
          (let size0 = msm_align P (aw * ah) 4096 +
                       msm_align P (y_meta_stride P (st_width s) * y_meta_scanlines P (st_height s)) 4096;
               size1 = msm_align P (aw * ah div 2) 4096 +
                       msm_align P (uv_meta_stride P (st_width s) * uv_meta_scanlines P (st_height s)) 4096
           in (0, \<lparr>buffer_format = kNV12UBWC,
                   plane_info = [plane (st_width s) (st_height s) aw ah size0 0,
                                 plane (st_width s) (st_height s div 2) aw (ah div 2) size1 (0 + size0)]\<rparr>))
      | HAL_PIXEL_FORMAT_YCbCr_422_888 \<Rightarrow>
          (0, \<lparr>buffer_format = kNV16,
               plane_info = [plane (st_width s) (st_height s) aw ah (aw * ah) 0,
                             plane (st_width s) (st_height s) aw ah (aw * ah) (aw * ah)]\<rparr>)
      | HAL_PIXEL_FORMAT_YCbCr_422_SP \<Rightarrow>
          (0, \<lparr>buffer_format = kNV16,
               plane_info = [plane (st_width s) (st_height s) aw ah (aw * ah) 0,
                             plane (st_width s) (st_height s) aw ah (aw * ah) (aw * ah)]\<rparr>)
      | HAL_PIXEL_FORMAT_NV21_ZSL \<Rightarrow> (0, half_chroma kNV21 s aw ah)
      | HAL_PIXEL_FORMAT_RAW8 \<Rightarrow> (0, single_plane kRAW8 s aw ah)
      | HAL_PIXEL_FORMAT_RAW10 \<Rightarrow> (0, single_plane kRAW10 s aw ah)
      | HAL_PIXEL_FORMAT_RAW12 \<Rightarrow> (0, single_plane kRAW12 s aw ah)
      | HAL_PIXEL_FORMAT_RAW16 \<Rightarrow> (0, single_plane kRAW16 s aw ah)
      | HAL_PIXEL_FORMAT_OTHER n \<Rightarrow> (- ENOENT, empty_meta))))"

text \<open>
  The HAL hands a buffer back. \<open>None\<close> is a failed assertion (no callback, or a native
  handle the stream never gave out); otherwise the buffer that goes to the client callback,
  or \<open>None\<close> inside when a buffer with an error status is returned to the stream at once.
\<close>

definition ReturnBufferToClient :: "platform \<Rightarrow> camera3_stream_buffer \<Rightarrow> int \<Rightarrow> int \<Rightarrow>
    stream \<Rightarrow> shared \<Rightarrow> (StreamBuffer option \<times> stream \<times> shared) option" where
  "ReturnBufferToClient P buffer timestamp frame_number s sh =
     (if \<not> has_callback s then None
      else case kv_find (buffers_map s) (sb_buffer buffer) of
        None \<Rightarrow> None
      | Some h \<Rightarrow>
          let s1 = s\<lparr>hal_buffer_cnt := hal_buffer_cnt s - 1,
                     client_buffer_cnt := client_buffer_cnt s + 1,
                     is_stream_active := True\<rparr>;
              b = \<lparr>b_info = snd (PopulateMetaInfo P s h), b_timestamp = timestamp,
                   b_frame_number = word_of_int frame_number, b_stream_id = stream_id s,
                   b_data_space = st_data_space s, b_handle = h, b_fd = buf_fd P h,
                   b_size = buf_size P h,
                   b_metafd = (case perform_meta_fd P h of None \<Rightarrow> 0 | Some fd \<Rightarrow> fd)\<rparr>
          in if sb_status buffer = CAMERA3_BUFFER_STATUS_OK
             then Some (Some b, s1, sh)
             else (case ReturnBuffer h s1 sh of (_, s2, sh2) \<Rightarrow> Some (None, s2, sh2)))"

end
