(* ===== verification/Stream_Props.thy ===== *)
theory Stream_Props
  imports Stream
begin

text \<open>
  The buffer accounting of a stream: the invariant that ties its counters, its slots and
  its table of buffers together, that every operation keeps it, and what each operation
  does on every branch.
\<close>

section \<open>The invariant\<close>

definition busy :: "(handle, bool) kv \<Rightarrow> nat" where
  "busy m = length (filter (\<lambda>p. \<not> snd p) m)"

text \<open>The statuses in which a stream owns a pool of buffers.\<close>

definition pooled :: "Status \<Rightarrow> bool" where
  "pooled st \<longleftrightarrow> st = STATUS_CONFIGURED \<or> st = STATUS_RECONFIG_ACTIVE \<or> st = STATUS_PREPARE_ACTIVE"

definition pool_ok :: "stream \<Rightarrow> bool" where
  "pool_ok s \<longleftrightarrow>
     (\<exists>hs. mem_alloc_slots s =
             Some (map Some hs @ replicate (unat (total_buffer_count s) - length hs) None) \<and>
           length hs = unat (hw_buffer_allocated s) \<and>
           length hs \<le> unat (total_buffer_count s) \<and>
           distinct hs \<and> set hs = kv_keyset (mem_alloc_buffers s))"

definition stream_inv :: "stream \<Rightarrow> shared \<Rightarrow> bool" where
  "stream_inv s sh \<longleftrightarrow>
     kv_wf (mem_alloc_buffers s) \<and> kv_wf (buffers_map s) \<and>
     kv_keyset (mem_alloc_buffers s) \<subseteq> set (live sh) \<and> distinct (live sh) \<and>
     unat (pending_buffer_count s) = busy (mem_alloc_buffers s) \<and>
     hal_buffer_cnt s + client_buffer_cnt s = pending_buffer_count s \<and>
     (if pooled (status s) then pool_ok s
      else status s = STATUS_ERROR \<or> mem_alloc_buffers s = [])"

definition alloc_fresh :: "platform \<Rightarrow> bool" where
  "alloc_fresh P \<longleftrightarrow>
     (\<forall>lv w h f u x st. alloc_buffer P lv w h f u = Some (x, st) \<longrightarrow> x \<notin> set lv)"

lemma alloc_freshD: "alloc_fresh P \<Longrightarrow> alloc_buffer P lv w h f u = Some (x, st) \<Longrightarrow> x \<notin> set lv"
  unfolding alloc_fresh_def by blast

lemma pooled_simps [simp]:
  "pooled STATUS_CONFIGURED" "pooled STATUS_RECONFIG_ACTIVE" "pooled STATUS_PREPARE_ACTIVE"
  "\<not> pooled STATUS_ERROR" "\<not> pooled STATUS_INTIALIZED" "\<not> pooled STATUS_CONFIG_ACTIVE"
  by (simp_all add: pooled_def)

section \<open>Counting busy buffers\<close>

lemma busy_Nil [simp]: "busy [] = 0"
  by (simp add: busy_def)

lemma busy_le: "busy m \<le> length m"
  by (simp add: busy_def)

lemma busy_Cons [simp]: "busy (p # m) = (if snd p then busy m else Suc (busy m))"
  by (simp add: busy_def)

lemma busy_add_new: "h \<notin> kv_keyset m \<Longrightarrow> busy (kv_add h b m) = busy m + (if b then 0 else 1)"
  by (induction m) auto

lemma length_add_new: "h \<notin> kv_keyset m \<Longrightarrow> length (kv_add h b m) = Suc (length m)"
  by (induction m) auto

lemma busy_take: "kv_wf m \<Longrightarrow> map_of m h = Some True \<Longrightarrow> busy (kv_add h False m) = Suc (busy m)"
proof (induction m)
  case Nil
  then show ?case by simp
next
  case (Cons p m)
  then have "fst p \<noteq> h \<Longrightarrow> fst p < h"
    by (auto simp: kv_wf_def dest!: map_of_SomeD)
  with Cons show ?case by (auto simp: kv_wf_def split: if_splits)
qed

lemma busy_give: "kv_wf m \<Longrightarrow> map_of m h = Some False \<Longrightarrow> Suc (busy (kv_add h True m)) = busy m"
proof (induction m)
  case Nil
  then show ?case by simp
next
  case (Cons p m)
  then have "fst p \<noteq> h \<Longrightarrow> fst p < h"
    by (auto simp: kv_wf_def dest!: map_of_SomeD)
  with Cons show ?case by (auto simp: kv_wf_def split: if_splits)
qed

lemma kv_keys_replace: "kv_wf m \<Longrightarrow> h \<in> kv_keyset m \<Longrightarrow> kv_keyset (kv_add h b m) = kv_keyset m"
  by auto

lemma find_free_in: "find_free m = Some h \<Longrightarrow> (h, True) \<in> set m"
  by (induction m) (auto simp: find_free_def split: if_splits)

lemma find_free_Some: "kv_wf m \<Longrightarrow> find_free m = Some h \<Longrightarrow> map_of m h = Some True"
  by (rule map_of_is_SomeI) (simp_all add: kv_wf_distinct find_free_in)

lemma find_free_None: "find_free m = None \<Longrightarrow> busy m = length m"
  by (induction m) (auto simp: find_free_def split: if_splits)

lemma length_kv_keys: "kv_wf m \<Longrightarrow> length m = card (kv_keyset m)"
  by (metis distinct_card kv_wf_distinct length_map list.set_map kv_keyset_def)

lemma pool_card:
  assumes "kv_wf (mem_alloc_buffers s)" and "pool_ok s"
  shows "length (mem_alloc_buffers s) = unat (hw_buffer_allocated s)"
    and "length (mem_alloc_buffers s) \<le> unat (total_buffer_count s)"
proof -
  from assms(2) obtain hs where hs: "length hs = unat (hw_buffer_allocated s)" "distinct hs"
    "set hs = kv_keyset (mem_alloc_buffers s)" "length hs \<le> unat (total_buffer_count s)"
    by (auto simp: pool_ok_def)
  then show "length (mem_alloc_buffers s) = unat (hw_buffer_allocated s)"
    using length_kv_keys [OF assms(1)] distinct_card [of hs] by simp
  with hs show "length (mem_alloc_buffers s) \<le> unat (total_buffer_count s)" by simp
qed

lemma find_slot_found:
  "i < length hs \<Longrightarrow> distinct hs \<Longrightarrow> find_slot (map Some hs @ ys) (length hs) (hs ! i) = int i"
proof (induction hs arbitrary: i)
  case Nil
  then show ?case by simp
next
  case (Cons x hs)
  show ?case
  proof (cases i)
    case 0
    then show ?thesis by simp
  next
    case (Suc j)
    with Cons have "find_slot (map Some hs @ ys) (length hs) (hs ! j) = int j" by simp
    moreover from Suc Cons.prems have "x \<noteq> hs ! j" by auto
    ultimately show ?thesis using Suc by (simp add: Let_def)
  qed
qed

lemma find_slot_pool:
  assumes "pool_ok s" and "h \<in> kv_keyset (mem_alloc_buffers s)"
  shows "0 \<le> find_slot (the (mem_alloc_slots s)) (unat (hw_buffer_allocated s)) h"
proof -
  from assms(1) obtain hs where hs: "mem_alloc_slots s =
             Some (map Some hs @ replicate (unat (total_buffer_count s) - length hs) None)"
    "length hs = unat (hw_buffer_allocated s)" "distinct hs"
    "set hs = kv_keyset (mem_alloc_buffers s)"
    by (auto simp: pool_ok_def)
  with assms(2) have "h \<in> set hs" by simp
  then obtain i where "i < length hs" "hs ! i = h" by (auto simp: in_set_conv_nth)
  with hs find_slot_found [of i hs] show ?thesis by fastforce
qed

section \<open>The configuration operations keep the invariant\<close>

text \<open>The pool does not depend on the other fields.\<close>

lemma pool_ok_frame [simp]:
  "pool_ok (s\<lparr>status := st\<rparr>) = pool_ok s"
  "pool_ok (s\<lparr>st_usage := u\<rparr>) = pool_ok s"
  "pool_ok (s\<lparr>st_max_buffers := n\<rparr>) = pool_ok s"
  "pool_ok (s\<lparr>monitor_id := i\<rparr>) = pool_ok s"
  "pool_ok (s\<lparr>pending_buffer_count := n\<rparr>) = pool_ok s"
  "pool_ok (s\<lparr>hal_buffer_cnt := n\<rparr>) = pool_ok s"
  "pool_ok (s\<lparr>client_buffer_cnt := n\<rparr>) = pool_ok s"
  "pool_ok (s\<lparr>buffers_map := bm\<rparr>) = pool_ok s"
  "pool_ok (s\<lparr>is_stream_active := a\<rparr>) = pool_ok s"
  "pool_ok (s\<lparr>prepared_buffers_count := n\<rparr>) = pool_ok s"
  "pool_ok (s\<lparr>current_buffer_stride := n\<rparr>) = pool_ok s"
  "pool_ok (s\<lparr>old_usage := u\<rparr>) = pool_ok s"
  "pool_ok (s\<lparr>old_max_buffers := n\<rparr>) = pool_ok s"
  by (simp_all add: pool_ok_def)

lemma stream_inv_mon [simp]: "stream_inv s (sh\<lparr>mon := m\<rparr>) = stream_inv s sh"
  by (simp add: stream_inv_def)

lemma Camera3Stream_inv: "distinct (live sh) \<Longrightarrow> stream_inv (Camera3Stream P i sz cfg dev) sh"
  by (auto simp: stream_inv_def Camera3Stream_def Let_def)

lemma BeginConfigure_inv:
  "stream_inv s sh \<Longrightarrow> BeginConfigure P s sh = (r, s', sh') \<Longrightarrow> stream_inv s' sh'"
  by (auto simp: BeginConfigure_def release_own_monitor_def stream_inv_def
      split: Status.splits if_splits)

lemma AbortConfigure_inv:
  "stream_inv s sh \<Longrightarrow> AbortConfigure P s = (r, s') \<Longrightarrow> stream_inv s' sh"
  by (auto simp: AbortConfigure_def stream_inv_def split: if_splits)

lemma live_foldl_FreeBuffer [simp]:
  "distinct (live sh) \<Longrightarrow> set (live (foldl FreeBuffer sh ks)) = set (live sh) - set ks"
  "distinct (live sh) \<Longrightarrow> distinct (live (foldl FreeBuffer sh ks))"
  "mon (foldl FreeBuffer sh ks) = mon sh"
  by (induction ks arbitrary: sh) (auto simp: FreeBuffer_def)

lemma CloseLocked_inv:
  "stream_inv s sh \<Longrightarrow> CloseLocked s sh = (r, s', sh') \<Longrightarrow> stream_inv s' sh'"
  by (auto simp: CloseLocked_def FreeBuffers_def stream_inv_def Let_def word_gt_0 split: if_splits)

lemma Close_inv: "stream_inv s sh \<Longrightarrow> Close s sh = (r, s', sh') \<Longrightarrow> stream_inv s' sh'"
  by (auto simp: Close_def dest: CloseLocked_inv split: prod.splits)

lemma CloseLocked_ok:
  "CloseLocked s sh = (0, s', sh') \<Longrightarrow> mem_alloc_buffers s' = [] \<and> pending_buffer_count s' = 0"
  by (auto simp: CloseLocked_def FreeBuffers_def word_gt_0 split: if_splits)

text \<open>Allocating the slots of a closed stream gives an empty pool of the negotiated size.\<close>

lemma ConfigureLocked_ok:
  assumes "stream_inv s sh" and "ConfigureLocked s sh = (0, s', sh')"
  shows "stream_inv (s'\<lparr>status := STATUS_CONFIGURED\<rparr>) sh'"
    and "total_buffer_count s' = max (client_max_buffers s) (st_max_buffers s)"
    and "mem_alloc_buffers s' = []" and "hw_buffer_allocated s' = 0"
  using assms
  by (auto simp: ConfigureLocked_def CloseLocked_def FreeBuffers_def Let_def stream_inv_def
      pool_ok_def word_gt_0 unat_0_iff split: Status.splits if_splits)

lemma ConfigureLocked_fail:
  "stream_inv s sh \<Longrightarrow> ConfigureLocked s sh = (r, s', sh') \<Longrightarrow> r \<noteq> 0 \<Longrightarrow> s' = s \<and> sh' = sh"
  by (auto simp: ConfigureLocked_def CloseLocked_def FreeBuffers_def Let_def
      split: Status.splits if_splits prod.splits)

lemma EndConfigure_inv:
  assumes inv: "stream_inv s sh" and run: "EndConfigure P s sh = (r, s', sh')"
  shows "stream_inv s' sh'"
proof (cases "status s = STATUS_CONFIG_ACTIVE \<or> status s = STATUS_RECONFIG_ACTIVE")
  case False
  with run inv show ?thesis by (auto simp: EndConfigure_def)
next
  case True
  obtain mid m1 where acq: "AcquireMonitor (mon sh) = (mid, m1)" by fastforce
  define s1 where "s1 = s\<lparr>monitor_id := mid\<rparr>"
  define sh1 where "sh1 = sh\<lparr>mon := m1\<rparr>"
  from inv have inv1: "stream_inv s1 sh1" by (simp add: s1_def sh1_def stream_inv_def)
  obtain res s2 sh2 where cfg: "ConfigureLocked s1 sh1 = (res, s2, sh2)" by (metis prod_cases3)
  consider (nomon) "s' = s1" "sh' = sh1"
    | (same) "status s1 = STATUS_RECONFIG_ACTIVE" "s' = s1\<lparr>status := STATUS_CONFIGURED\<rparr>" "sh' = sh1"
    | (fail) "res \<noteq> 0" "s' = s2\<lparr>status := STATUS_ERROR\<rparr>" "sh' = sh2"
    | (ok) "res = 0" "s' = s2\<lparr>status := STATUS_CONFIGURED, old_usage := to_common P (st_usage s2),
                             old_max_buffers := st_max_buffers s2\<rparr>" "sh' = sh2"
    using True run acq cfg by (auto simp: EndConfigure_def Let_def s1_def sh1_def split: if_splits)
  then show ?thesis
  proof cases
    case nomon
    with inv1 show ?thesis by simp
  next
    case same
    with inv1 show ?thesis by (simp add: stream_inv_def)
  next
    case fail
    with ConfigureLocked_fail [OF inv1 cfg] inv1 show ?thesis by (simp add: stream_inv_def)
  next
    case ok
    with ConfigureLocked_ok(1) [OF inv1] cfg show ?thesis by (simp add: stream_inv_def)
  qed
qed

section \<open>The buffer operations keep the invariant\<close>

lemma pooled_pending:
  assumes "stream_inv s sh" and "pooled (status s)"
  shows "unat (pending_buffer_count s) \<le> unat (hw_buffer_allocated s)"
    and "unat (hw_buffer_allocated s) \<le> unat (total_buffer_count s)"
  using assms pool_card [of s] busy_le [of "mem_alloc_buffers s"]
  by (auto simp: stream_inv_def)

text \<open>Taking a buffer: the free buffer of the pool, or a new one in the next slot.\<close>

lemma SelectBuffer_free:
  assumes inv: "stream_inv s sh" and p: "pooled (status s)"
    and free: "find_free (mem_alloc_buffers s) = Some h"
  obtains i where "SelectBuffer P True s sh =
      (Inr (int i, Some h), s\<lparr>mem_alloc_buffers := kv_add h False (mem_alloc_buffers s)\<rparr>, sh)"
proof -
  from inv p have wf: "kv_wf (mem_alloc_buffers s)" and pool: "pool_ok s"
    by (simp_all add: stream_inv_def)
  from find_free_Some [OF wf free] have "h \<in> kv_keyset (mem_alloc_buffers s)"
    by (simp add: kv_keyset_find)
  from find_slot_pool [OF pool this]
  obtain i where "find_slot (the (mem_alloc_slots s)) (unat (hw_buffer_allocated s)) h = int i"
    using nonneg_int_cases by blast
  moreover from pool obtain sl where "mem_alloc_slots s = Some sl" by (auto simp: pool_ok_def)
  ultimately show thesis using free that [of i] by (simp add: SelectBuffer_def)
qed

lemma pool_take:
  assumes inv: "stream_inv s sh" and p: "pooled (status s)"
    and free: "find_free (mem_alloc_buffers s) = Some h"
  defines "s1 \<equiv> s\<lparr>mem_alloc_buffers := kv_add h False (mem_alloc_buffers s)\<rparr>"
  shows "kv_wf (mem_alloc_buffers s1)" and "pool_ok s1"
    and "busy (mem_alloc_buffers s1) = Suc (busy (mem_alloc_buffers s))"
    and "kv_keyset (mem_alloc_buffers s1) = kv_keyset (mem_alloc_buffers s)"
    and "unat (pending_buffer_count s) < unat (total_buffer_count s)"
proof -
  from inv p have wf: "kv_wf (mem_alloc_buffers s)" and pool: "pool_ok s"
    by (simp_all add: stream_inv_def)
  from find_free_Some [OF wf free] have fnd: "map_of (mem_alloc_buffers s) h = Some True" .
  then have "h \<in> kv_keyset (mem_alloc_buffers s)" by (simp add: kv_keyset_find)
  then show keys: "kv_keyset (mem_alloc_buffers s1) = kv_keyset (mem_alloc_buffers s)"
    by (auto simp: s1_def)
  with pool show "pool_ok s1" by (simp add: s1_def pool_ok_def)
  show wf1: "kv_wf (mem_alloc_buffers s1)" using wf by (simp add: s1_def)
  show b: "busy (mem_alloc_buffers s1) = Suc (busy (mem_alloc_buffers s))"
    using busy_take [OF wf fnd] by (simp add: s1_def)
  have "busy (mem_alloc_buffers s1) \<le> length (mem_alloc_buffers s)"
    using busy_le [of "mem_alloc_buffers s1"] length_kv_keys [OF wf1] length_kv_keys [OF wf] keys
    by simp
  with b inv pool_card(2) [OF wf pool] show "unat (pending_buffer_count s) < unat (total_buffer_count s)"
    by (simp add: stream_inv_def)
qed

lemma pool_grow:
  fixes strd :: u32 and b :: bool
  assumes inv: "stream_inv s sh" and p: "pooled (status s)" and fresh: "h \<notin> set (live sh)"
    and room: "hw_buffer_allocated s < total_buffer_count s"
  defines "s1 \<equiv> s\<lparr>current_buffer_stride := strd,
       mem_alloc_slots := map_option (\<lambda>sl. sl[unat (hw_buffer_allocated s) := Some h]) (mem_alloc_slots s),
       mem_alloc_buffers := kv_add h b (mem_alloc_buffers s),
       hw_buffer_allocated := hw_buffer_allocated s + 1\<rparr>"
  shows "kv_wf (mem_alloc_buffers s1)" and "pool_ok s1"
    and "busy (mem_alloc_buffers s1) = busy (mem_alloc_buffers s) + (if b then 0 else 1)"
    and "kv_keyset (mem_alloc_buffers s1) = insert h (kv_keyset (mem_alloc_buffers s))"
    and "unat (pending_buffer_count s) < unat (total_buffer_count s)"
proof -
  from inv p have wf: "kv_wf (mem_alloc_buffers s)" and pool: "pool_ok s"
    and sub: "kv_keyset (mem_alloc_buffers s) \<subseteq> set (live sh)"
    by (simp_all add: stream_inv_def)
  from sub fresh have new: "h \<notin> kv_keyset (mem_alloc_buffers s)" by blast
  show "kv_wf (mem_alloc_buffers s1)" using wf by (simp add: s1_def)
  show "kv_keyset (mem_alloc_buffers s1) = insert h (kv_keyset (mem_alloc_buffers s))"
    by (simp add: s1_def)
  show "busy (mem_alloc_buffers s1) = busy (mem_alloc_buffers s) + (if b then 0 else 1)"
    using new by (simp add: s1_def busy_add_new)
  from room have room': "unat (hw_buffer_allocated s) < unat (total_buffer_count s)"
    by (simp add: word_less_nat_alt)
  then have hw: "unat (hw_buffer_allocated s + 1) = Suc (unat (hw_buffer_allocated s))"
    by (rule unat_Suc_below)
  show "unat (pending_buffer_count s) < unat (total_buffer_count s)"
    using pooled_pending [OF inv p] room' by simp
  from pool obtain hs where hs: "mem_alloc_slots s =
             Some (map Some hs @ replicate (unat (total_buffer_count s) - length hs) None)"
    "length hs = unat (hw_buffer_allocated s)" "distinct hs"
    "set hs = kv_keyset (mem_alloc_buffers s)"
    by (auto simp: pool_ok_def)
  define n where "n = unat (total_buffer_count s) - Suc (length hs)"
  have "replicate (unat (total_buffer_count s) - length hs) (None :: handle option) = None # replicate n None"
    using room' hs(2) by (simp add: n_def Suc_diff_Suc flip: replicate_Suc)
  with hs have "mem_alloc_slots s1 = Some (map Some (hs @ [h]) @ replicate n None)"
    by (simp add: s1_def list_update_append)
  then show "pool_ok s1"
    unfolding pool_ok_def
    by (intro exI [of _ "hs @ [h]"]) (use hs new hw room' in \<open>auto simp: s1_def n_def\<close>)
qed

text \<open>The bookkeeping after a buffer was taken: one more buffer is busy, pending and with the HAL.\<close>

lemma stream_inv_taken:
  assumes "kv_wf (mem_alloc_buffers s1)" and "pool_ok s1" and "pooled (status s1)"
    and "kv_keyset (mem_alloc_buffers s1) \<subseteq> set (live sh1)" and "distinct (live sh1)"
    and "busy (mem_alloc_buffers s1) = Suc (unat (pending_buffer_count s1))"
    and "hal_buffer_cnt s1 + client_buffer_cnt s1 = pending_buffer_count s1"
    and "unat (pending_buffer_count s1) < unat (total_buffer_count s1)" and "kv_wf bm"
  shows "stream_inv (s1\<lparr>buffers_map := bm, hal_buffer_cnt := hal_buffer_cnt s1 + 1,
            pending_buffer_count := pending_buffer_count s1 + 1\<rparr>) sh1"
proof -
  have "hal_buffer_cnt s1 + 1 + client_buffer_cnt s1 = pending_buffer_count s1 + 1"
    unfolding assms(7) [symmetric] by (simp only: ac_simps)
  with assms(1-6,9) unat_Suc_below [OF assms(8)] show ?thesis by (simp add: stream_inv_def)
qed

text \<open>
  The outcome of \<open>GetBufferLocked\<close> on a pooled stream: a free buffer, a new one, no memory, or
  nothing left; the slot search never fails.
\<close>

definition taken :: "platform \<Rightarrow> handle \<Rightarrow> stream \<Rightarrow> stream" where
  "taken P h s1 = s1\<lparr>buffers_map := kv_add (buf_native P h) h (buffers_map s1),
     hal_buffer_cnt := hal_buffer_cnt s1 + 1, pending_buffer_count := pending_buffer_count s1 + 1\<rparr>"

definition grown :: "handle \<Rightarrow> u32 \<Rightarrow> bool \<Rightarrow> stream \<Rightarrow> stream" where
  "grown h strd b s = s\<lparr>current_buffer_stride := strd,
     mem_alloc_slots := map_option (\<lambda>sl. sl[unat (hw_buffer_allocated s) := Some h]) (mem_alloc_slots s),
     mem_alloc_buffers := kv_add h b (mem_alloc_buffers s),
     hw_buffer_allocated := hw_buffer_allocated s + 1\<rparr>"

definition activated :: "stream \<Rightarrow> shared \<Rightarrow> shared" where
  "activated s sh =
     (if pending_buffer_count s = 0 \<and> status s \<noteq> STATUS_CONFIG_ACTIVE \<and> status s \<noteq> STATUS_RECONFIG_ACTIVE
      then sh\<lparr>mon := ChangeStateToActive (mon sh) (monitor_id s)\<rparr> else sh)"

definition hal_buffer :: "platform \<Rightarrow> handle \<Rightarrow> camera3_stream_buffer" where
  "hal_buffer P h = \<lparr>sb_buffer = buf_native P h, sb_status = CAMERA3_BUFFER_STATUS_OK,
     sb_acquire_fence = -1, sb_release_fence = -1\<rparr>"

lemma live_activated [simp]: "live (activated s sh) = live sh"
  by (simp add: activated_def)

lemma stream_inv_activated [simp]: "stream_inv s (activated s1 sh) = stream_inv s sh"
  by (simp add: activated_def)

lemma GetBufferLocked_want_cases:
  assumes inv: "stream_inv s sh" and p: "pooled (status s)"
    and run: "GetBufferLocked P True s sh = (r, out, s', sh')"
  obtains (free) h where "find_free (mem_alloc_buffers s) = Some h" and "r = 0"
      and "out = Some (hal_buffer P h)"
      and "s' = taken P h (s\<lparr>mem_alloc_buffers := kv_add h False (mem_alloc_buffers s)\<rparr>)"
      and "sh' = activated s sh"
  | (fresh) h strd where "find_free (mem_alloc_buffers s) = None"
      and "hw_buffer_allocated s < total_buffer_count s"
      and "alloc_buffer P (live sh) (alloc_width s) (alloc_height s) (st_format s) (alloc_usage P s)
             = Some (h, strd)"
      and "r = 0" and "out = Some (hal_buffer P h)" and "s' = taken P h (grown h strd False s)"
      and "sh' = activated s (sh\<lparr>live := h # live sh\<rparr>)"
  | (nomem) "find_free (mem_alloc_buffers s) = None" and "r = - ENOMEM" and "out = None"
      and "s' = s" and "sh' = sh"
  | (none) "find_free (mem_alloc_buffers s) = None"
      and "\<not> hw_buffer_allocated s < total_buffer_count s"
      and "r = - ENOSYS" and "out = None" and "s' = s" and "sh' = sh"
proof (cases "find_free (mem_alloc_buffers s)")
  case (Some h)
  from p have may: "may_get_buffer (status s)" by (auto simp: pooled_def may_get_buffer_def)
  obtain i where "SelectBuffer P True s sh =
      (Inr (int i, Some h), s\<lparr>mem_alloc_buffers := kv_add h False (mem_alloc_buffers s)\<rparr>, sh)"
    by (rule SelectBuffer_free [OF inv p Some])
  with run may Some show ?thesis
    by (intro free [of h]) (auto simp: GetBufferLocked_def hal_buffer_def taken_def activated_def)
next
  case None
  from p have may: "may_get_buffer (status s)" by (auto simp: pooled_def may_get_buffer_def)
  show ?thesis
  proof (cases "hw_buffer_allocated s < total_buffer_count s")
    case False
    with run may None show ?thesis by (intro none) (auto simp: GetBufferLocked_def SelectBuffer_def)
  next
    case True
    show ?thesis
    proof (cases "alloc_buffer P (live sh) (alloc_width s) (alloc_height s) (st_format s) (alloc_usage P s)")
      case None
      with run may \<open>find_free _ = None\<close> True show ?thesis
        by (intro nomem) (auto simp: GetBufferLocked_def SelectBuffer_def)
    next
      case (Some a)
      obtain h strd where "a = (h, strd)" by fastforce
      with run may \<open>find_free _ = None\<close> True Some show ?thesis
        by (intro fresh [of h strd]) (auto simp: GetBufferLocked_def SelectBuffer_def
            hal_buffer_def taken_def grown_def activated_def)
    qed
  qed
qed

lemma GetBufferLocked_want_inv:
  assumes inv: "stream_inv s sh" and p: "pooled (status s)" and fr: "alloc_fresh P"
    and run: "GetBufferLocked P True s sh = (r, out, s', sh')"
  shows "stream_inv s' sh'"
proof (cases rule: GetBufferLocked_want_cases [OF inv p run])
  case (1 h)
  note pool = pool_take [OF inv p 1(1)]
  show ?thesis
    unfolding 1 stream_inv_activated taken_def
    by (rule stream_inv_taken) (use inv p pool in \<open>auto simp: stream_inv_def\<close>)
next
  case (2 h strd)
  from alloc_freshD [OF fr 2(3)] have new: "h \<notin> set (live sh)" .
  note pool = pool_grow(1-4) [OF inv p new 2(2), where strd = strd and b = False]
    pool_grow(5) [OF inv p new 2(2)]
  show ?thesis
    unfolding 2 stream_inv_activated taken_def
    by (rule stream_inv_taken) (use inv p pool new in \<open>auto simp: stream_inv_def grown_def\<close>)
qed (use inv in auto)

lemma GetBufferLocked_spare_inv:
  assumes inv: "stream_inv s sh" and p: "pooled (status s)" and fr: "alloc_fresh P"
    and run: "GetBufferLocked P False s sh = (r, out, s', sh')"
  shows "stream_inv s' sh' \<and> status s' = status s"
proof (cases "hw_buffer_allocated s < total_buffer_count s")
  case False
  with run inv show ?thesis by (auto simp: GetBufferLocked_def SelectBuffer_def split: if_splits)
next
  case True
  from p have may: "may_get_buffer (status s)" by (auto simp: pooled_def may_get_buffer_def)
  show ?thesis
  proof (cases "alloc_buffer P (live sh) (alloc_width s) (alloc_height s) (st_format s) (alloc_usage P s)")
    case None
    with run inv may True show ?thesis by (auto simp: GetBufferLocked_def SelectBuffer_def)
  next
    case (Some a)
    obtain h strd where a: "a = (h, strd)" by fastforce
    with Some fr have new: "h \<notin> set (live sh)" by (simp add: alloc_freshD)
    from Some a run may True have "s' = grown h strd True s" "sh' = sh\<lparr>live := h # live sh\<rparr>"
      by (auto simp: GetBufferLocked_def SelectBuffer_def grown_def)
    with inv p new pool_grow(1-4) [OF inv p new True, where strd = strd and b = True]
    show ?thesis by (auto simp: stream_inv_def grown_def)
  qed
qed

text \<open>Giving a buffer back that is out: it becomes free and one buffer less is pending.\<close>

lemma ReturnBufferLocked_held:
  assumes inv: "stream_inv s sh" and held: "kv_find (mem_alloc_buffers s) h = Some False"
  shows "ReturnBufferLocked h s sh =
     (0, s\<lparr>mem_alloc_buffers := kv_add h True (mem_alloc_buffers s),
           pending_buffer_count := pending_buffer_count s - 1,
           client_buffer_cnt := client_buffer_cnt s - 1\<rparr>,
      if pending_buffer_count s = 1 \<and> status s \<noteq> STATUS_CONFIG_ACTIVE \<and>
         status s \<noteq> STATUS_RECONFIG_ACTIVE
      then sh\<lparr>mon := ChangeStateToIdle (mon sh) (monitor_id s)\<rparr> else sh)"
    and "pending_buffer_count s \<noteq> 0"
proof -
  from inv have wf: "kv_wf (mem_alloc_buffers s)"
    and cnt: "unat (pending_buffer_count s) = busy (mem_alloc_buffers s)"
    by (simp_all add: stream_inv_def)
  from busy_give [OF wf held] cnt show nz: "pending_buffer_count s \<noteq> 0" by auto
  from held have ne: "mem_alloc_buffers s \<noteq> []" by auto
  with inv have "status s \<noteq> STATUS_INTIALIZED" by (auto simp: stream_inv_def)
  moreover have "pending_buffer_count s - 1 = 0 \<longleftrightarrow> pending_buffer_count s = 1"
    by simp
  ultimately show "ReturnBufferLocked h s sh =
     (0, s\<lparr>mem_alloc_buffers := kv_add h True (mem_alloc_buffers s),
           pending_buffer_count := pending_buffer_count s - 1,
           client_buffer_cnt := client_buffer_cnt s - 1\<rparr>,
      if pending_buffer_count s = 1 \<and> status s \<noteq> STATUS_CONFIG_ACTIVE \<and>
         status s \<noteq> STATUS_RECONFIG_ACTIVE
      then sh\<lparr>mon := ChangeStateToIdle (mon sh) (monitor_id s)\<rparr> else sh)"
    using nz held by (simp add: ReturnBufferLocked_def Let_def)
qed

lemma ReturnBufferLocked_inv:
  assumes inv: "stream_inv s sh" and held: "kv_find (mem_alloc_buffers s) h = Some False"
    and run: "ReturnBufferLocked h s sh = (r, s', sh')"
  shows "stream_inv s' sh'"
proof -
  note eq = ReturnBufferLocked_held [OF inv held]
  from inv have wf: "kv_wf (mem_alloc_buffers s)" by (simp add: stream_inv_def)
  from held have "h \<in> kv_keyset (mem_alloc_buffers s)" by (simp add: kv_keyset_find)
  then have keys: "kv_keyset (kv_add h True (mem_alloc_buffers s)) = kv_keyset (mem_alloc_buffers s)"
    by auto
  then have pool: "pool_ok (s\<lparr>mem_alloc_buffers := kv_add h True (mem_alloc_buffers s)\<rparr>) = pool_ok s"
    by (simp add: pool_ok_def)
  have sum: "hal_buffer_cnt s + (client_buffer_cnt s - 1) = pending_buffer_count s - 1"
    using inv by (simp add: stream_inv_def)
  have "unat (pending_buffer_count s - 1) = busy (kv_add h True (mem_alloc_buffers s))"
    using inv busy_give [OF wf held] unat_pred [OF eq(2)] by (simp add: stream_inv_def)
  with inv sum wf keys pool have
    "stream_inv (s\<lparr>mem_alloc_buffers := kv_add h True (mem_alloc_buffers s),
        pending_buffer_count := pending_buffer_count s - 1,
        client_buffer_cnt := client_buffer_cnt s - 1\<rparr>) sh"
    by (auto simp: stream_inv_def)
  with run eq(1) show ?thesis by (auto split: if_splits)
qed

lemma GetBuffer_inv:
  assumes "stream_inv s sh" and "alloc_fresh P"
    and "stream_inv (fst (snd wake)) (snd (snd wake))" and "pooled (status (fst (snd wake)))"
    and "GetBuffer P wake s sh = (r, out, s', sh')"
  shows "stream_inv s' sh'"
  using assms GetBufferLocked_want_inv [of "fst (snd wake)" "snd (snd wake)" P r out s' sh']
    GetBufferLocked_want_inv [of s sh P r out s' sh']
  by (auto simp: GetBuffer_def split: if_splits prod.splits)

lemma ReturnBufferToClient_inv:
  assumes inv: "stream_inv s sh"
    and held: "\<And>h. kv_find (buffers_map s) (sb_buffer b) = Some h \<Longrightarrow>
                 kv_find (mem_alloc_buffers s) h = Some False"
    and run: "ReturnBufferToClient P b ts fn s sh = Some (out, s', sh')"
  shows "stream_inv s' sh'"
proof -
  from run obtain h where h: "kv_find (buffers_map s) (sb_buffer b) = Some h"
    by (auto simp: ReturnBufferToClient_def split: if_splits option.splits)
  define s1 where "s1 = s\<lparr>hal_buffer_cnt := hal_buffer_cnt s - 1,
     client_buffer_cnt := client_buffer_cnt s + 1, is_stream_active := True\<rparr>"
  from inv have inv1: "stream_inv s1 sh" by (simp add: s1_def stream_inv_def)
  from held [OF h] have held1: "kv_find (mem_alloc_buffers s1) h = Some False"
    by (simp add: s1_def)
  obtain r s2 sh2 where ret: "ReturnBufferLocked h s1 sh = (r, s2, sh2)" by (metis prod_cases3)
  from run h ret have "s' = s1 \<and> sh' = sh \<or> s' = s2 \<and> sh' = sh2"
    by (auto simp: ReturnBufferToClient_def s1_def ReturnBuffer_def Let_def split: if_splits)
  with inv1 ReturnBufferLocked_inv [OF inv1 held1 ret] show ?thesis by auto
qed

section \<open>Preparation and tear down\<close>

lemma BeginPrepare_inv: "stream_inv s sh \<Longrightarrow> BeginPrepare s = (r, s') \<Longrightarrow> stream_inv s' sh"
  by (auto simp: BeginPrepare_def stream_inv_def split: if_splits)

lemma EndPrepareLocked_inv: "stream_inv s sh \<Longrightarrow> EndPrepareLocked s = (r, s') \<Longrightarrow> stream_inv s' sh"
  by (auto simp: EndPrepareLocked_def stream_inv_def split: if_splits)

lemma stream_inv_prepared [simp]: "stream_inv (s\<lparr>prepared_buffers_count := n\<rparr>) sh = stream_inv s sh"
  by (simp add: stream_inv_def)

lemma PrepareBuffer_inv:
  assumes inv: "stream_inv s sh" and fr: "alloc_fresh P"
    and run: "PrepareBuffer P s sh = (r, s', sh')"
  shows "stream_inv s' sh'"
proof (cases "status s = STATUS_PREPARE_ACTIVE")
  case False
  with run inv show ?thesis by (simp add: PrepareBuffer_def)
next
  case True
  obtain g out s1 sh1 where get: "GetBufferLocked P False s sh = (g, out, s1, sh1)"
    by (metis prod_cases4)
  from True have "pooled (status s)" by simp
  from GetBufferLocked_spare_inv [OF inv this fr get] have inv1: "stream_inv s1 sh1" by simp
  define s2 where "s2 = s1\<lparr>prepared_buffers_count := prepared_buffers_count s1 + 1\<rparr>"
  obtain e s3 where fin: "EndPrepareLocked s2 = (e, s3)" by fastforce
  from inv1 have inv2: "stream_inv s2 sh1" by (simp add: s2_def)
  from run True get fin have "sh' = sh1 \<and> (s' = s1 \<or> s' = s2 \<or> s' = s3)"
    by (auto simp: PrepareBuffer_def Let_def s2_def split: if_splits)
  with inv1 inv2 EndPrepareLocked_inv [OF inv2 fin] show ?thesis by auto
qed

lemma TearDown_inv:
  assumes inv: "stream_inv s sh" and run: "TearDown s sh = (r, s', sh')"
  shows "stream_inv s' sh'"
proof (cases "status s = STATUS_CONFIGURED \<and> pending_buffer_count s = 0")
  case False
  with run inv show ?thesis by (auto simp: TearDown_def word_gt_0 split: if_splits)
next
  case True
  with inv have pool: "pool_ok s" by (simp add: stream_inv_def)
  then obtain sl where sl: "mem_alloc_slots s = Some sl" "length sl = unat (total_buffer_count s)"
    by (auto simp: pool_ok_def)
  have empty: "hw_buffer_allocated s = 0 \<Longrightarrow> mem_alloc_buffers s = []"
    using pool by (auto simp: pool_ok_def)
  show ?thesis
  proof (cases "hw_buffer_allocated s = 0")
    case True': True
    with True run sl inv empty show ?thesis
      by (auto simp: TearDown_def stream_inv_def pool_ok_def word_gt_0)
  next
    case False
    with True run sl inv show ?thesis
      by (auto simp: TearDown_def stream_inv_def pool_ok_def word_gt_0 FreeBuffers_def)
  qed
qed

section \<open>Every run of a stream keeps its accounting\<close>

text \<open>
  The steps of the threads that use a stream. The client returns buffers it holds, the HAL
  hands back buffers it was given; while \<open>GetBuffer\<close> waits, any number of steps may happen.
\<close>

inductive stream_step :: "platform \<Rightarrow> stream \<times> shared \<Rightarrow> stream \<times> shared \<Rightarrow> bool" for P where
  begin_configure: "BeginConfigure P s sh = (r1, s', sh') \<Longrightarrow> stream_step P (s, sh) (s', sh')"
| end_configure: "EndConfigure P s sh = (r, s', sh') \<Longrightarrow> stream_step P (s, sh) (s', sh')"
| abort_configure: "AbortConfigure P s = (r, s') \<Longrightarrow> stream_step P (s, sh) (s', sh)"
| begin_prepare: "BeginPrepare s = (r, s') \<Longrightarrow> stream_step P (s, sh) (s', sh)"
| prepare: "PrepareBuffer P s sh = (r, s', sh') \<Longrightarrow> stream_step P (s, sh) (s', sh')"
| end_prepare: "EndPrepare s = (r, s') \<Longrightarrow> stream_step P (s, sh) (s', sh)"
| tear_down: "TearDown s sh = (r, s', sh') \<Longrightarrow> stream_step P (s, sh) (s', sh')"
| get: "\<not> GetBuffer_waits s \<Longrightarrow> GetBuffer P wake s sh = (r, out, s', sh') \<Longrightarrow>
     stream_step P (s, sh) (s', sh')"
| wake: "pooled (status s) \<Longrightarrow> GetBufferLocked P True s sh = (r, out, s', sh') \<Longrightarrow>
     stream_step P (s, sh) (s', sh')"
| return_buffer: "kv_find (mem_alloc_buffers s) h = Some False \<Longrightarrow>
     ReturnBuffer h s sh = (r, s', sh') \<Longrightarrow> stream_step P (s, sh) (s', sh')"
| hal_return: "kv_find (buffers_map s) (sb_buffer b) = Some h \<Longrightarrow>
     kv_find (mem_alloc_buffers s) h = Some False \<Longrightarrow>
     ReturnBufferToClient P b ts fn s sh = Some (out, s', sh') \<Longrightarrow> stream_step P (s, sh) (s', sh')"
| close: "Close s sh = (r, s', sh') \<Longrightarrow> stream_step P (s, sh) (s', sh')"
| other: "distinct (live sh') \<Longrightarrow> kv_keyset (mem_alloc_buffers s) \<subseteq> set (live sh') \<Longrightarrow>
     stream_step P (s, sh) (s, sh')"

definition stream_start :: "platform \<Rightarrow> stream \<times> shared \<Rightarrow> bool" where
  "stream_start P c \<longleftrightarrow> distinct (live (snd c)) \<and> (\<exists>i sz cfg dev. fst c = Camera3Stream P i sz cfg dev)"

lemma stream_step_inv:
  assumes "alloc_fresh P" and "stream_inv (fst c) (snd c)" and "stream_step P c d"
  shows "stream_inv (fst d) (snd d)"
  using assms(3)
proof cases
  case (get s wake sh r out s' sh')
  with assms(1,2) show ?thesis
    using GetBufferLocked_want_inv [of s sh P r out s' sh']
    by (auto simp: GetBuffer_def GetBuffer_waits_def split: if_splits)
next
  case (wake s sh r out s' sh')
  with assms(1,2) GetBufferLocked_want_inv show ?thesis by auto
next
  case (hal_return s b h ts fn sh out s' sh')
  with assms(2) ReturnBufferToClient_inv [of s sh b P ts fn out s' sh'] show ?thesis by auto
next
  case (other sh' s sh)
  with assms(2) show ?thesis by (auto simp: stream_inv_def)
qed (use assms(1,2) in \<open>auto simp: ReturnBuffer_def EndPrepare_def intro: BeginConfigure_inv EndConfigure_inv
       AbortConfigure_inv BeginPrepare_inv PrepareBuffer_inv EndPrepareLocked_inv TearDown_inv
       ReturnBufferLocked_inv Close_inv\<close>)

interpretation stream_sys: invariant_system "stream_start P" "stream_step P"
  "\<lambda>c. alloc_fresh P \<longrightarrow> stream_inv (fst c) (snd c)" for P
  by unfold_locales (auto simp: stream_start_def Camera3Stream_inv intro: stream_step_inv)

section \<open>Preparing all buffers of a stream\<close>

text \<open>The calls of \<open>PrepareBuffer\<close> that the prepare thread makes, with their results.\<close>

primrec prepare_calls :: "platform \<Rightarrow> nat \<Rightarrow> stream \<Rightarrow> shared \<Rightarrow> int list \<times> stream \<times> shared" where
  "prepare_calls P 0 s sh = ([], s, sh)"
| "prepare_calls P (Suc n) s sh =
     (case PrepareBuffer P s sh of (r, s1, sh1) \<Rightarrow>
        (case prepare_calls P n s1 sh1 of (rs, s2, sh2) \<Rightarrow> (r # rs, s2, sh2)))"

definition alloc_total :: "platform \<Rightarrow> bool" where
  "alloc_total P \<longleftrightarrow> (\<forall>lv w h f u. alloc_buffer P lv w h f u \<noteq> None)"

lemma PrepareBuffer_step:
  assumes "alloc_total P" and "status s = STATUS_PREPARE_ACTIVE"
    and "unat (prepared_buffers_count s) < unat (total_buffer_count s)"
    and "hw_buffer_allocated s = prepared_buffers_count s"
  obtains h strd s' where
    "PrepareBuffer P s sh = (if Suc (unat (prepared_buffers_count s)) < unat (total_buffer_count s)
        then - ENODATA else 0, s', sh\<lparr>live := h # live sh\<rparr>)"
    and "hw_buffer_allocated s' = hw_buffer_allocated s + 1"
    and "total_buffer_count s' = total_buffer_count s"
    and "Suc (unat (prepared_buffers_count s)) < unat (total_buffer_count s) \<Longrightarrow>
         status s' = STATUS_PREPARE_ACTIVE \<and> prepared_buffers_count s' = prepared_buffers_count s + 1"
    and "\<not> Suc (unat (prepared_buffers_count s)) < unat (total_buffer_count s) \<Longrightarrow>
         status s' = STATUS_CONFIGURED"
proof -
  obtain h strd where al: "alloc_buffer P (live sh) (alloc_width s) (alloc_height s) (st_format s)
      (alloc_usage P s) = Some (h, strd)"
    using assms(1) unfolding alloc_total_def by (metis not_None_eq surj_pair)
  have room: "hw_buffer_allocated s < total_buffer_count s"
    using assms(3,4) by (simp add: word_less_nat_alt)
  have "GetBufferLocked P False s sh = (0, None, grown h strd True s, sh\<lparr>live := h # live sh\<rparr>)"
    using al room assms(2) by (simp add: GetBufferLocked_def SelectBuffer_def may_get_buffer_def grown_def)
  moreover have "prepared_buffers_count s + 1 < total_buffer_count s \<longleftrightarrow>
      Suc (unat (prepared_buffers_count s)) < unat (total_buffer_count s)"
    using unat_Suc_below [OF assms(3)] by (simp add: word_less_nat_alt)
  ultimately show thesis
    using assms(2) that by (cases "Suc (unat (prepared_buffers_count s)) < unat (total_buffer_count s)")
      (auto simp: PrepareBuffer_def Let_def grown_def EndPrepareLocked_def)
qed

lemma prepare_calls_finish:
  assumes "alloc_total P" and "status s = STATUS_PREPARE_ACTIVE"
    and "unat (prepared_buffers_count s) + Suc n = unat (total_buffer_count s)"
    and "hw_buffer_allocated s = prepared_buffers_count s"
  shows "\<exists>s' sh'. prepare_calls P (Suc n) s sh = (replicate n (- ENODATA) @ [0], s', sh') \<and>
     status s' = STATUS_CONFIGURED \<and> hw_buffer_allocated s' = total_buffer_count s \<and>
     total_buffer_count s' = total_buffer_count s \<and> length (live sh') = Suc n + length (live sh)"
  using assms
proof (induction n arbitrary: s sh)
  case 0
  then have below: "unat (prepared_buffers_count s) < unat (total_buffer_count s)" by simp
  obtain h s' where "PrepareBuffer P s sh = (0, s', sh\<lparr>live := h # live sh\<rparr>)"
    "hw_buffer_allocated s' = hw_buffer_allocated s + 1" "total_buffer_count s' = total_buffer_count s"
    "status s' = STATUS_CONFIGURED"
    by (rule PrepareBuffer_step [OF 0(1,2) below 0(4), of sh]) (use 0(3) in auto)
  moreover have "prepared_buffers_count s + 1 = total_buffer_count s"
    using 0(3) unat_Suc_below [OF below] by (simp add: word_unat_eq_iff)
  ultimately show ?case using 0(4) by simp
next
  case (Suc n)
  then have below: "unat (prepared_buffers_count s) < unat (total_buffer_count s)" by simp
  obtain h s1 where step: "PrepareBuffer P s sh = (- ENODATA, s1, sh\<lparr>live := h # live sh\<rparr>)"
    and s1: "hw_buffer_allocated s1 = hw_buffer_allocated s + 1" "total_buffer_count s1 = total_buffer_count s"
    "status s1 = STATUS_PREPARE_ACTIVE" "prepared_buffers_count s1 = prepared_buffers_count s + 1"
    by (rule PrepareBuffer_step [OF Suc.prems(1,2) below Suc.prems(4), of sh]) (use Suc.prems(3) in auto)
  from s1 Suc.prems(3) unat_Suc_below [OF below]
  have "unat (prepared_buffers_count s1) + Suc n = unat (total_buffer_count s1)" by simp
  from Suc.IH [OF Suc.prems(1) s1(3) this, of "sh\<lparr>live := h # live sh\<rparr>"] s1 Suc.prems(4) step
  show ?case by auto
qed

end
