(* ===== verification/Stream_Claims.thy ===== *)
theory Stream_Claims
  imports Stream_Props
begin

text \<open>
  The properties of the monitor and of the streams, each with a witness on a concrete
  platform.
\<close>

section \<open>A concrete platform\<close>

text \<open>An allocator that numbers its handles upwards, on a platform without flag conversions.\<close>

definition ref_platform :: platform where
  "ref_platform = \<lparr>cam_arch_v2 = False, to_local = (\<lambda>x. x), to_common = (\<lambda>x. x),
     alloc_buffer = (\<lambda>lv w h f u. Some (Suc (foldr max lv 0), w)),
     buf_native = (\<lambda>h. 1000 + h), buf_fd = int, buf_size = (\<lambda>h. 4096),
     buf_format = (\<lambda>h. HAL_PIXEL_FORMAT_YCbCr_420_888),
     perform_stride = (\<lambda>h. Some 64), perform_aligned_height = (\<lambda>h. Some 48),
     perform_meta_fd = (\<lambda>h. None), msm_align = (\<lambda>x a. ((x + a - 1) div a) * a),
     y_meta_stride = (\<lambda>x. x), y_meta_scanlines = (\<lambda>x. x),
     uv_meta_stride = (\<lambda>x. x), uv_meta_scanlines = (\<lambda>x. x)\<rparr>"

lemma foldr_max_upper: "x \<in> set xs \<Longrightarrow> x \<le> foldr max xs (0 :: nat)"
  by (induction xs) auto

lemma ref_platform_fresh: "alloc_fresh ref_platform"
  unfolding alloc_fresh_def ref_platform_def
  by (auto dest!: foldr_max_upper)

definition ref_params :: CameraStreamParameters where
  "ref_params = \<lparr>par_width = 64, par_height = 48, par_format = HAL_PIXEL_FORMAT_YCbCr_420_888,
     par_data_space = HAL_DATASPACE_UNKNOWN, par_rotation = 0, par_allocFlags = 0,
     par_bufferCount = 2, par_cb = True, par_cam_feature_flags = 0\<rparr>"

definition ref_shared :: shared where
  "ref_shared = \<lparr>mon = Camera3Monitor, live = []\<rparr>"

text \<open>A stream of two buffers that went through a complete configuration.\<close>

definition ref_configured :: "stream \<times> shared" where
  "ref_configured =
     (let s = Camera3Stream ref_platform 0 0 ref_params True;
          (r, s1, sh1) = BeginConfigure ref_platform s ref_shared;
          (e, s2, sh2) = EndConfigure ref_platform s1 sh1
      in (s2, sh2))"

abbreviation (input) ref_stream :: stream where "ref_stream \<equiv> fst ref_configured"
abbreviation (input) ref_env :: shared where "ref_env \<equiv> snd ref_configured"

lemmas ref_eval = ref_configured_def ref_platform_def ref_params_def ref_shared_def
  Camera3Stream_def BeginConfigure_def release_own_monitor_def EndConfigure_def
  ConfigureLocked_def AcquireMonitor_def Camera3Monitor_def INVALID_ID_def kv_index_def
  ReleaseMonitor_def kv_remove_def

lemma ref_run: "(stream_step ref_platform)\<^sup>*\<^sup>* (Camera3Stream ref_platform 0 0 ref_params True, ref_shared)
    ref_configured"
proof -
  let ?s = "Camera3Stream ref_platform 0 0 ref_params True"
  obtain r s1 sh1 where b: "BeginConfigure ref_platform ?s ref_shared = (r, s1, sh1)" by (metis prod_cases3)
  obtain e s2 sh2 where c: "EndConfigure ref_platform s1 sh1 = (e, s2, sh2)" by (metis prod_cases3)
  from b c have "ref_configured = (s2, sh2)" by (simp add: ref_configured_def)
  with stream_step.begin_configure [OF b] stream_step.end_configure [OF c] show ?thesis
    by (simp add: converse_rtranclp_into_rtranclp)
qed

lemma ref_start: "stream_start ref_platform (Camera3Stream ref_platform 0 0 ref_params True, ref_shared)"
  by (auto simp: stream_start_def ref_shared_def)

lemma ref_status: "status ref_stream = STATUS_CONFIGURED"
  by (simp add: ref_eval)

lemma ref_inv: "stream_inv ref_stream ref_env"
  using stream_sys.inv_reachable [OF ref_start ref_run] ref_platform_fresh by simp

section \<open>Monitor\<close>

text \<open>
  One iteration of the monitor thread that does not exit: the composite state it stores
  is ACTIVE exactly when a registered monitor is, the calls of the idle callback alternate,
  starting from the opposite of the previous composite state, and the last reported value
  is the new composite state; so no change is lost and none is reported twice.
\<close>

theorem monitor_reports_changes:
  assumes "monitor_inv m" and "idle_notify m" and "input_queue m \<noteq> [] \<or> monitor_updated m"
  shows "\<exists>calls m'. ThreadLoop [] m = Some (True, calls, m') \<and>
     (composite_state m' = ACTIVE \<longleftrightarrow> (\<exists>mid. kv_find (monitor_states m') mid = Some ACTIVE)) \<and>
     alternating ((composite_state m = IDLE) # calls) \<and>
     last ((composite_state m = IDLE) # calls) = (composite_state m' = IDLE)"
proof -
  let ?u = "UpdateComposite m"
  let ?calls = "map (\<lambda>s. s = IDLE) (updated_states ?u)"
  note spec = UpdateComposite_spec [OF assms(1)]
  have run: "ThreadLoop [] m = Some (True, ?calls, ?u\<lparr>updated_states := []\<rparr>)"
    using assms spec(6) by (auto simp: ThreadLoop_def Let_def)
  have wf: "kv_wf (monitor_states ?u)" using spec(4) by (simp add: monitor_inv_def)
  have "alternating (map (\<lambda>s. s = IDLE) (composite_state m # updated_states ?u))"
    by (rule alternating_map_inj [OF idle_inj spec(2)])
  moreover have "last (map (\<lambda>s. s = IDLE) (composite_state m # updated_states ?u))
      = (last (composite_state m # updated_states ?u) = IDLE)"
    by (rule last_map) simp
  ultimately show ?thesis
    using run spec(1,3) BuildCompositeState_iff [OF wf] by auto
qed

definition ref_monitor :: monitor where
  "ref_monitor = ChangeStateToActive (SetIdleNotifyCb (snd (AcquireMonitor Camera3Monitor))) 0"

lemma ref_monitor_inv: "monitor_inv ref_monitor"
  by (simp add: ref_monitor_def Camera3Monitor_def SetIdleNotifyCb_def monitor_defs kv_index_def kv_wf_def)

theorem monitor_reports_changes_witness:
  "\<exists>calls m'. ThreadLoop [] ref_monitor = Some (True, calls, m') \<and>
     alternating (True # calls) \<and> last (True # calls) = (composite_state m' = IDLE)"
proof -
  have "idle_notify ref_monitor" "input_queue ref_monitor \<noteq> []" "composite_state ref_monitor = IDLE"
    by (simp_all add: ref_monitor_def Camera3Monitor_def SetIdleNotifyCb_def monitor_defs kv_index_def)
  with monitor_reports_changes [OF ref_monitor_inv] show ?thesis by fastforce
qed

text \<open>
  Queued state changes are applied in order: after an iteration every registered monitor
  has the state of the last change queued for it (or keeps its state when none was), and
  changes for ids that were released meanwhile are dropped.
\<close>

theorem monitor_applies_last_change:
  assumes "monitor_inv m" and "ThreadLoop [] m = Some (True, calls, m')"
  shows "kv_find (monitor_states m') mid =
     (case kv_find (monitor_states m) mid of
        None \<Rightarrow> None
      | Some v \<Rightarrow> Some (case map_of (rev (input_queue m)) mid of None \<Rightarrow> v | Some t \<Rightarrow> t))"
proof -
  from assms(2) have "m' = (UpdateComposite m)\<lparr>updated_states := []\<rparr>"
    by (auto simp: ThreadLoop_def Let_def split: if_splits)
  with UpdateComposite_spec(7) [OF assms(1)] show ?thesis by simp
qed

theorem monitor_applies_last_change_witness:
  "\<exists>calls m'. ThreadLoop [] ref_monitor = Some (True, calls, m') \<and>
     kv_find (monitor_states m') 0 = Some ACTIVE \<and> kv_find (monitor_states m') 7 = None"
proof -
  let ?m' = "(UpdateComposite ref_monitor)\<lparr>updated_states := []\<rparr>"
  have st: "monitor_states ref_monitor = [(0, IDLE)]" "input_queue ref_monitor = [(0, ACTIVE)]"
    by (simp_all add: ref_monitor_def Camera3Monitor_def SetIdleNotifyCb_def monitor_defs kv_index_def)
  then obtain calls where run: "ThreadLoop [] ref_monitor = Some (True, calls, ?m')"
    by (simp add: ThreadLoop_def Let_def)
  show ?thesis
    using run monitor_applies_last_change [OF ref_monitor_inv run] st by auto
qed

section \<open>Streams\<close>

text \<open>
  C8. In every state a stream can reach (from its construction, by any interleaving of
  configuration, preparation, buffer hand-out, HAL returns, client returns of buffers the
  client holds, tear down and close) the pending counter is the number of buffers that are
  out, the HAL and client counters add up to it, and a stream with a pool has at most
  \<open>total_buffer_count\<close> buffers, all of them allocated and not freed.
\<close>

theorem stream_accounting:
  assumes "alloc_fresh P" and "stream_start P c" and "(stream_step P)\<^sup>*\<^sup>* c d"
  shows "unat (pending_buffer_count (fst d)) = busy (mem_alloc_buffers (fst d)) \<and>
     hal_buffer_cnt (fst d) + client_buffer_cnt (fst d) = pending_buffer_count (fst d) \<and>
     kv_keyset (mem_alloc_buffers (fst d)) \<subseteq> set (live (snd d)) \<and>
     (pooled (status (fst d)) \<longrightarrow>
        length (mem_alloc_buffers (fst d)) = unat (hw_buffer_allocated (fst d)) \<and>
        pending_buffer_count (fst d) \<le> hw_buffer_allocated (fst d) \<and>
        hw_buffer_allocated (fst d) \<le> total_buffer_count (fst d))"
proof -
  from stream_sys.inv_reachable [OF assms(2,3)] assms(1) have inv: "stream_inv (fst d) (snd d)"
    by simp
  then show ?thesis
    using pooled_pending [OF inv] pool_card(1) [of "fst d"]
    by (auto simp: stream_inv_def word_le_nat_alt)
qed

theorem stream_accounting_witness:
  "pooled (status ref_stream) \<and>
   pending_buffer_count ref_stream \<le> hw_buffer_allocated ref_stream \<and>
   hw_buffer_allocated ref_stream \<le> total_buffer_count ref_stream"
  using stream_accounting [OF ref_platform_fresh ref_start ref_run] ref_status by simp

text \<open>
  A successful \<open>GetBuffer\<close> gives the HAL a buffer that is out to nobody: the buffer it
  returns was not busy before, is busy afterwards, no other buffer changes, and the pending
  and HAL counters grow by one.
\<close>

theorem GetBuffer_exclusive:
  assumes "stream_inv s sh" and "alloc_fresh P" and "status s = STATUS_CONFIGURED"
    and "pending_buffer_count s \<noteq> total_buffer_count s"
    and "GetBuffer P wake s sh = (0, Some b, s', sh')"
  shows "\<exists>h. sb_buffer b = buf_native P h \<and> kv_find (buffers_map s') (sb_buffer b) = Some h \<and>
     kv_find (mem_alloc_buffers s) h \<noteq> Some False \<and>
     kv_find (mem_alloc_buffers s') h = Some False \<and>
     (\<forall>k. k \<noteq> h \<longrightarrow> kv_find (mem_alloc_buffers s') k = kv_find (mem_alloc_buffers s) k) \<and>
     pending_buffer_count s' = pending_buffer_count s + 1 \<and>
     hal_buffer_cnt s' = hal_buffer_cnt s + 1"
proof -
  from assms(1) have wf: "kv_wf (mem_alloc_buffers s)" "kv_wf (buffers_map s)"
    and sub: "kv_keyset (mem_alloc_buffers s) \<subseteq> set (live sh)"
    by (simp_all add: stream_inv_def)
  from assms(3-5) have run: "GetBufferLocked P True s sh = (0, Some b, s', sh')"
    by (simp add: GetBuffer_def)
  have p: "pooled (status s)" by (simp add: assms(3))
  show ?thesis
  proof (cases rule: GetBufferLocked_want_cases [OF assms(1) p run])
    case (1 h)
    with find_free_Some [OF wf(1) 1(1)] wf show ?thesis
      by (intro exI [of _ h]) (simp add: taken_def hal_buffer_def)
  next
    case (2 h strd)
    from alloc_freshD [OF assms(2) 2(3)] sub have "h \<notin> kv_keyset (mem_alloc_buffers s)" by blast
    with 2 wf show ?thesis
      by (intro exI [of _ h]) (simp add: taken_def grown_def hal_buffer_def kv_keyset_find)
  qed simp_all
qed

definition ref_got :: "int \<times> camera3_stream_buffer option \<times> stream \<times> shared" where
  "ref_got = GetBuffer ref_platform (0, ref_stream, ref_env) ref_stream ref_env"

lemmas get_eval = ref_eval GetBuffer_def GetBufferLocked_def SelectBuffer_def may_get_buffer_def
  find_free_def alloc_width_def alloc_height_def alloc_usage_def kPrivateAllocUbwc_def
  ChangeStateToActive_def ChangeState_def

lemma ref_got_eq: "\<exists>s' sh'. ref_got = (0, Some \<lparr>sb_buffer = 1001,
     sb_status = CAMERA3_BUFFER_STATUS_OK, sb_acquire_fence = -1, sb_release_fence = -1\<rparr>, s', sh')"
  by (simp add: ref_got_def get_eval)

theorem GetBuffer_exclusive_witness:
  "\<exists>b s' sh' h. ref_got = (0, Some b, s', sh') \<and> sb_buffer b = buf_native ref_platform h \<and>
     kv_find (mem_alloc_buffers ref_stream) h \<noteq> Some False \<and>
     kv_find (mem_alloc_buffers s') h = Some False"
proof -
  obtain b s' sh' where g: "ref_got = (0, Some b, s', sh')" using ref_got_eq by blast
  have ne: "pending_buffer_count ref_stream \<noteq> total_buffer_count ref_stream" by (simp add: ref_eval)
  from g have run: "GetBuffer ref_platform (0, ref_stream, ref_env) ref_stream ref_env = (0, Some b, s', sh')"
    by (simp add: ref_got_def)
  from GetBuffer_exclusive [OF ref_inv ref_platform_fresh ref_status ne run] g show ?thesis by blast
qed

text \<open>
  Hand-out and return are inverse: a buffer that \<open>GetBuffer\<close> handed out is accepted by
  \<open>ReturnBuffer\<close>, is free afterwards, and the pending counter is back at its old value.
\<close>

theorem GetBuffer_ReturnBuffer:
  assumes "stream_inv s sh" and "alloc_fresh P" and "status s = STATUS_CONFIGURED"
    and "pending_buffer_count s \<noteq> total_buffer_count s"
    and "GetBuffer P wake s sh = (0, Some b, s', sh')"
  shows "\<exists>h s2 sh2. kv_find (buffers_map s') (sb_buffer b) = Some h \<and>
     ReturnBuffer h s' sh' = (0, s2, sh2) \<and> kv_find (mem_alloc_buffers s2) h = Some True \<and>
     pending_buffer_count s2 = pending_buffer_count s \<and>
     busy (mem_alloc_buffers s2) = busy (mem_alloc_buffers s)"
proof -
  from assms(3-5) have run: "GetBufferLocked P True s sh = (0, Some b, s', sh')"
    by (simp add: GetBuffer_def)
  have p: "pooled (status s)" by (simp add: assms(3))
  note inv' = GetBufferLocked_want_inv [OF assms(1) p assms(2) run]
  obtain h where h: "kv_find (buffers_map s') (sb_buffer b) = Some h"
      "kv_find (mem_alloc_buffers s') h = Some False" "pending_buffer_count s' = pending_buffer_count s + 1"
  proof (cases rule: GetBufferLocked_want_cases [OF assms(1) p run])
    case (1 h)
    with assms(1) show thesis by (intro that [of h]) (simp_all add: taken_def hal_buffer_def stream_inv_def)
  next
    case (2 h strd)
    with assms(1) show thesis
      by (intro that [of h]) (simp_all add: taken_def grown_def hal_buffer_def stream_inv_def)
  qed simp_all
  obtain s2 sh2 where ret: "ReturnBufferLocked h s' sh' = (0, s2, sh2)"
    using ReturnBufferLocked_held(1) [OF inv' h(2)] by (metis prod_cases3 prod.inject)
  with ReturnBufferLocked_held(1) [OF inv' h(2)] inv' h(3)
  have "kv_find (mem_alloc_buffers s2) h = Some True" "pending_buffer_count s2 = pending_buffer_count s"
    by (auto simp: stream_inv_def)
  moreover from ReturnBufferLocked_inv [OF inv' h(2) ret] assms(1) this(2)
  have "busy (mem_alloc_buffers s2) = busy (mem_alloc_buffers s)" by (simp add: stream_inv_def)
  ultimately show ?thesis using h(1) ret by (auto simp: ReturnBuffer_def)
qed

theorem GetBuffer_ReturnBuffer_witness:
  "\<exists>b s' sh' h s2 sh2. ref_got = (0, Some b, s', sh') \<and> ReturnBuffer h s' sh' = (0, s2, sh2) \<and>
     kv_find (mem_alloc_buffers s2) h = Some True \<and>
     pending_buffer_count s2 = pending_buffer_count ref_stream"
proof -
  obtain b s' sh' where g: "ref_got = (0, Some b, s', sh')" using ref_got_eq by blast
  have ne: "pending_buffer_count ref_stream \<noteq> total_buffer_count ref_stream" by (simp add: ref_eval)
  from g have run: "GetBuffer ref_platform (0, ref_stream, ref_env) ref_stream ref_env = (0, Some b, s', sh')"
    by (simp add: ref_got_def)
  from GetBuffer_ReturnBuffer [OF ref_inv ref_platform_fresh ref_status ne run] g show ?thesis by blast
qed

text \<open>
  Preparation terminates: on a configured idle stream that has no buffers yet,
  \<open>BeginPrepare\<close> asks for data and exactly \<open>total_buffer_count\<close> calls of \<open>PrepareBuffer\<close>
  follow, all but the last asking for more and the last one ending the preparation, with
  that many buffers allocated.
\<close>

theorem prepare_terminates:
  assumes "alloc_total P" and "status s = STATUS_CONFIGURED" and "\<not> is_stream_active s"
    and "pending_buffer_count s = 0" and "hw_buffer_allocated s = 0" and "0 < total_buffer_count s"
  shows "\<exists>s1 s2 sh2. BeginPrepare s = (- ENODATA, s1) \<and>
     prepare_calls P (unat (total_buffer_count s)) s1 sh =
       (replicate (unat (total_buffer_count s) - 1) (- ENODATA) @ [0], s2, sh2) \<and>
     status s2 = STATUS_CONFIGURED \<and> hw_buffer_allocated s2 = total_buffer_count s \<and>
     length (live sh2) = unat (total_buffer_count s) + length (live sh)"
proof -
  let ?s1 = "s\<lparr>prepared_buffers_count := 0, status := STATUS_PREPARE_ACTIVE\<rparr>"
  from assms(6) obtain n where n: "unat (total_buffer_count s) = Suc n"
    by (metis not0_implies_Suc unat_0_iff word_gt_0)
  have "BeginPrepare s = (- ENODATA, ?s1)" using assms by (simp add: BeginPrepare_def)
  moreover have "\<exists>s' sh'. prepare_calls P (Suc n) ?s1 sh = (replicate n (- ENODATA) @ [0], s', sh') \<and>
     status s' = STATUS_CONFIGURED \<and> hw_buffer_allocated s' = total_buffer_count ?s1 \<and>
     total_buffer_count s' = total_buffer_count ?s1 \<and> length (live sh') = Suc n + length (live sh)"
    by (rule prepare_calls_finish [OF assms(1)]) (use n assms(5) in simp_all)
  ultimately show ?thesis using n by auto
qed

lemma ref_platform_total: "alloc_total ref_platform"
  by (simp add: alloc_total_def ref_platform_def)

theorem prepare_terminates_witness:
  "\<exists>s1 s2 sh2. BeginPrepare ref_stream = (- ENODATA, s1) \<and>
     prepare_calls ref_platform 2 s1 ref_env = ([- ENODATA, 0], s2, sh2) \<and>
     status s2 = STATUS_CONFIGURED \<and> hw_buffer_allocated s2 = 2"
proof -
  have h: "\<not> is_stream_active ref_stream" "pending_buffer_count ref_stream = 0"
    "hw_buffer_allocated ref_stream = 0" "0 < total_buffer_count ref_stream"
    and n: "total_buffer_count ref_stream = 2"
    by (simp_all add: ref_eval)
  have "replicate 1 (- 61) @ [0] = [- 61 :: int, 0]" by simp
  then show ?thesis
    using prepare_terminates [OF ref_platform_total ref_status h, of ref_env] n by auto
qed

text \<open>
  Closing a stream: with buffers out it is refused with \<open>-ENOSYS\<close> and nothing changes;
  with none out every buffer of the stream is freed, exactly once and no other buffer, and
  the stream is back in its initial status; a stream that is not configured is left alone.
\<close>

theorem Close_frees_pool:
  assumes "stream_inv s sh"
  shows "(\<not> (status s = STATUS_CONFIGURED \<or> status s = STATUS_RECONFIG_ACTIVE) \<longrightarrow>
            Close s sh = (0, s, sh)) \<and>
     (status s = STATUS_CONFIGURED \<and> busy (mem_alloc_buffers s) > 0 \<longrightarrow>
            Close s sh = (- ENOSYS, s, sh)) \<and>
     (status s = STATUS_CONFIGURED \<and> busy (mem_alloc_buffers s) = 0 \<longrightarrow>
        (\<exists>s' sh'. Close s sh = (0, s', sh') \<and> status s' = STATUS_INTIALIZED \<and>
           mem_alloc_buffers s' = [] \<and> mon sh' = mon sh \<and>
           mset (live sh') = mset (live sh) - mset (kv_keys (mem_alloc_buffers s))))"
proof -
  have freed: "mset (live (foldl FreeBuffer sh ks)) = mset (live sh) - mset ks" for ks
    by (induction ks arbitrary: sh) (simp_all add: FreeBuffer_def)
  from assms have cnt: "unat (pending_buffer_count s) = busy (mem_alloc_buffers s)"
    by (simp add: stream_inv_def)
  show ?thesis
  proof (intro conjI impI)
    assume "\<not> (status s = STATUS_CONFIGURED \<or> status s = STATUS_RECONFIG_ACTIVE)"
    then show "Close s sh = (0, s, sh)" by (simp add: Close_def CloseLocked_def)
  next
    assume "status s = STATUS_CONFIGURED \<and> busy (mem_alloc_buffers s) > 0"
    with cnt show "Close s sh = (- ENOSYS, s, sh)"
      by (auto simp: Close_def CloseLocked_def word_gt_0)
  next
    assume "status s = STATUS_CONFIGURED \<and> busy (mem_alloc_buffers s) = 0"
    with cnt freed show "\<exists>s' sh'. Close s sh = (0, s', sh') \<and> status s' = STATUS_INTIALIZED \<and>
           mem_alloc_buffers s' = [] \<and> mon sh' = mon sh \<and>
           mset (live sh') = mset (live sh) - mset (kv_keys (mem_alloc_buffers s))"
      by (auto simp: Close_def CloseLocked_def FreeBuffers_def unat_0_iff)
  qed
qed

theorem Close_frees_pool_witness:
  "\<exists>s' sh'. Close ref_stream ref_env = (0, s', sh') \<and> status s' = STATUS_INTIALIZED"
proof -
  have "busy (mem_alloc_buffers ref_stream) = 0" by (simp add: ref_eval)
  with Close_frees_pool [OF ref_inv] ref_status show ?thesis by blast
qed

text \<open>
  Aborting a reconfiguration loses the monitor: \<open>BeginConfigure\<close> on a configured stream
  releases the monitor of the stream, \<open>AbortConfigure\<close> makes the stream configured again
  without acquiring one, and from then on the activity the stream reports is dropped by the
  monitor thread, whatever buffers are handed out.
\<close>

theorem AbortConfigure_loses_monitor:
  assumes "status s = STATUS_CONFIGURED" and "monitor_inv (mon sh)"
    and "BeginConfigure P s sh = (b, s1, sh1)" and "AbortConfigure P s1 = (r, s2)"
    and "kv_find (monitor_states (mon sh)) mid \<noteq> Some ACTIVE"
    and "ThreadLoop [] (ChangeStateToActive (mon sh1) (monitor_id s2)) = Some (True, calls, m')"
    and "input_queue (mon sh) = []"
  shows "r = 0 \<and> status s2 = STATUS_CONFIGURED \<and> monitor_id s2 = INVALID_ID \<and>
     monitor_id s2 \<notin> monitor_ids (mon sh1) \<and>
     kv_find (monitor_states m') mid \<noteq> Some ACTIVE"
proof -
  from assms(1,3) have sh1: "mon sh1 = (if monitor_id s \<noteq> INVALID_ID
      then ReleaseMonitor (mon sh) (monitor_id s) else mon sh)"
    and s1: "status s1 = STATUS_RECONFIG_ACTIVE" "monitor_id s1 = INVALID_ID"
    by (auto simp: BeginConfigure_def release_own_monitor_def split: if_splits)
  from s1 assms(4) have s2: "r = 0" "status s2 = STATUS_CONFIGURED" "monitor_id s2 = INVALID_ID"
    by (auto simp: AbortConfigure_def)
  from sh1 assms(2) have inv1: "monitor_inv (mon sh1)" by (simp add: ReleaseMonitor_inv)
  then have "INVALID_ID \<notin> monitor_ids (mon sh1)"
    by (auto simp: monitor_inv_def monitor_ids_def INVALID_ID_def)
  moreover from this have "kv_find (monitor_states (mon sh1)) INVALID_ID = None"
    by (simp add: monitor_ids_def kv_keyset_find)
  moreover have q: "input_queue (mon sh1) = []" and ms: "kv_find (monitor_states (mon sh1)) mid \<noteq> Some ACTIVE"
    using sh1 assms(5,7) by (auto simp: ReleaseMonitor_def Let_def)
  have "m' = (UpdateComposite (ChangeStateToActive (mon sh1) (monitor_id s2)))\<lparr>updated_states := []\<rparr>"
    using assms(6) by (auto simp: ThreadLoop_def Let_def split: if_splits)
  moreover have "monitor_inv (ChangeStateToActive (mon sh1) (monitor_id s2))"
    using inv1 by (simp add: ChangeStateToActive_def ChangeState_inv)
  ultimately show ?thesis
    using s2 q ms UpdateComposite_spec(7) [of "ChangeStateToActive (mon sh1) (monitor_id s2)" mid]
    by (auto simp: ChangeStateToActive_def ChangeState_def split: option.splits if_splits)
qed

theorem AbortConfigure_loses_monitor_witness:
  "\<exists>b s1 sh1 r s2. BeginConfigure ref_platform ref_stream ref_env = (b, s1, sh1) \<and>
     AbortConfigure ref_platform s1 = (r, s2) \<and> 0 \<le> monitor_id ref_stream \<and>
     status s2 = STATUS_CONFIGURED \<and> monitor_id s2 = INVALID_ID"
proof -
  obtain b s1 sh1 where b: "BeginConfigure ref_platform ref_stream ref_env = (b, s1, sh1)"
    by (metis prod_cases3)
  obtain r s2 where a: "AbortConfigure ref_platform s1 = (r, s2)" by fastforce
  have mi: "monitor_inv (mon ref_env)" "0 \<le> monitor_id ref_stream" "input_queue (mon ref_env) = []"
    "kv_find (monitor_states (mon ref_env)) 0 \<noteq> Some ACTIVE"
    by (simp_all add: ref_eval monitor_inv_def kv_wf_def)
  obtain c m' where "ThreadLoop [] (ChangeStateToActive (mon sh1) (monitor_id s2)) = Some (True, c, m')"
    by (simp add: ThreadLoop_def ChangeStateToActive_def ChangeState_def Let_def)
  from AbortConfigure_loses_monitor [OF ref_status mi(1) b a mi(4) this mi(3)] b a mi(2)
  show ?thesis by blast
qed

text \<open>
  A second return of the same buffer is not detected: while another buffer is out,
  \<open>ReturnBuffer\<close> of a buffer that is already free succeeds and takes one from the pending
  and client counters, after which the pending counter is below the number of buffers that
  are out.
\<close>

theorem double_return_undetected:
  assumes "stream_inv s sh" and "status s = STATUS_CONFIGURED"
    and "kv_find (mem_alloc_buffers s) h = Some True" and "0 < busy (mem_alloc_buffers s)"
  shows "\<exists>s' sh'. ReturnBuffer h s sh = (0, s', sh') \<and>
     pending_buffer_count s' = pending_buffer_count s - 1 \<and>
     unat (pending_buffer_count s') < busy (mem_alloc_buffers s')"
proof -
  from assms(1) have wf: "kv_wf (mem_alloc_buffers s)"
    and cnt: "unat (pending_buffer_count s) = busy (mem_alloc_buffers s)"
    by (simp_all add: stream_inv_def)
  have same: "kv_add h True (mem_alloc_buffers s) = mem_alloc_buffers s"
    by (rule kv_add_same [OF wf assms(3)])
  from cnt assms(4) have nz: "pending_buffer_count s \<noteq> 0" by auto
  then have "unat (pending_buffer_count s - 1) < unat (pending_buffer_count s)"
    by (simp add: unat_pred unat_gt_0)
  with nz same cnt assms show ?thesis
    by (auto simp: ReturnBuffer_def ReturnBufferLocked_def Let_def)
qed

text \<open>A stream of two buffers, one of them out.\<close>

definition ref_one_out :: "stream \<times> shared" where
  "ref_one_out =
     (let (r, b, s1, sh1) = GetBuffer ref_platform (0, ref_stream, ref_env) ref_stream ref_env;
          (r2, b2, s2, sh2) = GetBuffer ref_platform (0, s1, sh1) s1 sh1;
          (r3, s3, sh3) = ReturnBuffer 1 s2 sh2
      in (s3, sh3))"

lemmas one_out_eval = ref_one_out_def get_eval ReturnBuffer_def ReturnBufferLocked_def
  ChangeStateToIdle_def

lemma ref_one_out_state:
  "status (fst ref_one_out) = STATUS_CONFIGURED"
  "mem_alloc_buffers (fst ref_one_out) = [(1, True), (2, False)]"
  "pending_buffer_count (fst ref_one_out) = 1"
  by (simp_all add: one_out_eval)

lemma replicate_two: "replicate 2 x = [x, x]"
  by (simp add: numeral_2_eq_2)

lemma ref_one_out_inv: "stream_inv (fst ref_one_out) (snd ref_one_out)"
proof -
  have slots: "mem_alloc_slots (fst ref_one_out) = Some [Some 1, Some 2]"
    "total_buffer_count (fst ref_one_out) = 2" "hw_buffer_allocated (fst ref_one_out) = 2"
    "live (snd ref_one_out) = [2, 1]" "kv_keys (buffers_map (fst ref_one_out)) = [1001, 1002]"
    "hal_buffer_cnt (fst ref_one_out) + client_buffer_cnt (fst ref_one_out) = 1"
    by (simp_all add: one_out_eval replicate_two)
  then have "pool_ok (fst ref_one_out)"
    unfolding pool_ok_def using ref_one_out_state by (intro exI [of _ "[1, 2]"]) simp
  with slots ref_one_out_state show ?thesis by (simp add: stream_inv_def kv_wf_def)
qed

theorem double_return_undetected_witness:
  "\<exists>s' sh'. ReturnBuffer 1 (fst ref_one_out) (snd ref_one_out) = (0, s', sh') \<and>
     pending_buffer_count s' = 0 \<and> 0 < busy (mem_alloc_buffers s')"
  using double_return_undetected [OF ref_one_out_inv ref_one_out_state(1), of 1] ref_one_out_state
  by auto

text \<open>
  The plane layout given to the client: when \<open>PopulateMetaInfo\<close> succeeds there are one
  or two planes, the first starts at offset 0, a second one starts where the first ends,
  every plane has the stride of the allocation, and the planes of an NV12 or NV21 buffer
  have the luma size and half of it (rounded down to whole lines).
\<close>

theorem PopulateMetaInfo_layout:
  assumes "PopulateMetaInfo P s h = (0, info)"
  shows "\<exists>aw ah p ps. perform_stride P h = Some aw \<and> perform_aligned_height P h = Some ah \<and>
     plane_info info = p # ps \<and> length ps \<le> 1 \<and> offset p = 0 \<and>
     (\<forall>q \<in> set ps. offset q = plane_size p) \<and> (\<forall>q \<in> set (p # ps). stride q = aw) \<and>
     (buffer_format info = kNV12 \<or> buffer_format info = kNV21 \<longrightarrow>
        map plane_size (p # ps) = [aw * ah, aw * (ah div 2)])"
  using assms
  by (auto simp: PopulateMetaInfo_def half_chroma_def single_plane_def plane_def empty_meta_def Let_def
      split: option.splits hal_format.splits)

theorem PopulateMetaInfo_layout_witness:
  "\<exists>info p q. PopulateMetaInfo ref_platform ref_stream 1 = (0, info) \<and> plane_info info = [p, q] \<and>
     offset q = plane_size p \<and> plane_size p = 3072"
proof -
  let ?info = "half_chroma kNV12 ref_stream 64 48"
  have run: "PopulateMetaInfo ref_platform ref_stream 1 = (0, ?info)"
    by (simp add: PopulateMetaInfo_def ref_platform_def)
  have "buffer_format ?info = kNV12" "length (plane_info ?info) = 2"
    by (simp_all add: half_chroma_def)
  with PopulateMetaInfo_layout [OF run] run show ?thesis
    by (auto simp: ref_platform_def length_Suc_conv)
qed

end
