(* ===== verification/Extra_Param.thy ===== *)
theory Extra_Param
  imports Prelude
begin

unbundle bit_operations_syntax

text \<open>
  The container of tagged parameters \<^verbatim>\<open>ExtraParam\<close> that clients pass to the recorder
  service: a byte buffer of entries, each a descriptor followed by the bytes of a structure,
  and a map from tags to the offsets of their entries. Source:
  \<^verbatim>\<open>include/qmmf-sdk/qmmf_recorder_extra_param.h\<close> and
  \<^verbatim>\<open>recorder/src/client/qmmf_recorder_extra_param.cc\<close>. Offsets and sizes are natural
  numbers, since a \<^verbatim>\<open>size_t\<close> is wider than any buffer; the 32-bit fields of a
  descriptor keep their width and are stored in little endian order. A read or a write
  outside the buffer is the outcome \<open>Undefined\<close>, and a failing \<^verbatim>\<open>at\<close> is
  \<open>Out_of_range\<close>.
\<close>

section \<open>Bytes and descriptors\<close>

type_synonym byte = "8 word"

datatype fault = Out_of_range | Undefined

type_synonym 'a outcome = "fault + 'a"

definition le32 :: "u32 \<Rightarrow> byte list" where
  "le32 w = [ucast w, ucast (drop_bit 8 w), ucast (drop_bit 16 w), ucast (drop_bit 24 w)]"

fun of_le32 :: "byte list \<Rightarrow> u32" where
  "of_le32 [a, b, c, d] =
     ucast a OR push_bit 8 (ucast b) OR push_bit 16 (ucast c) OR push_bit 24 (ucast d)"
| "of_le32 _ = 0"

record DataDecriptor =
  tag_id :: u32
  entry_id :: u32
  data_size :: u32

definition kDataDescSize :: nat where "kDataDescSize = 12"

definition desc_bytes :: "DataDecriptor \<Rightarrow> byte list" where
  "desc_bytes d = le32 (tag_id d) @ le32 (entry_id d) @ le32 (data_size d)"

definition read_desc :: "byte list \<Rightarrow> nat \<Rightarrow> DataDecriptor option" where
  "read_desc buf off =
     (if off + kDataDescSize \<le> length buf
      then Some \<lparr>tag_id = of_le32 (take 4 (drop off buf)),
                 entry_id = of_le32 (take 4 (drop (off + 4) buf)),
                 data_size = of_le32 (take 4 (drop (off + 8) buf))\<rparr>
      else None)"

text \<open>\<^verbatim>\<open>memcpy\<close> into the buffer, \<^verbatim>\<open>memcpy\<close> out of it, and \<^verbatim>\<open>vector::erase\<close>.\<close>

definition write_bytes :: "byte list \<Rightarrow> nat \<Rightarrow> byte list \<Rightarrow> byte list option" where
  "write_bytes buf off bs =
     (if off + length bs \<le> length buf
      then Some (take off buf @ bs @ drop (off + length bs) buf) else None)"

definition read_bytes :: "byte list \<Rightarrow> nat \<Rightarrow> nat \<Rightarrow> byte list option" where
  "read_bytes buf off n = (if off + n \<le> length buf then Some (take n (drop off buf)) else None)"

definition erase_range :: "byte list \<Rightarrow> nat \<Rightarrow> nat \<Rightarrow> byte list option" where
  "erase_range buf a b =
     (if a \<le> b \<and> b \<le> length buf then Some (take a buf @ drop b buf) else None)"

section \<open>The container\<close>

record extra_param =
  locked :: bool
  data_map :: "(u32, nat list) kv"
  data_buffer :: "byte list"
  data_ptr :: nat \<comment> \<open>the address of the bytes, \<^verbatim>\<open>data_buffer_.data()\<close>\<close>

definition ExtraParam :: extra_param where
  "ExtraParam = \<lparr>locked = False, data_map = [], data_buffer = [], data_ptr = 0\<rparr>"

definition Clear :: "extra_param \<Rightarrow> int \<times> extra_param" where
  "Clear p = (if locked p then (- EPERM, p) else (0, p\<lparr>data_map := [], data_buffer := []\<rparr>))"

definition IsEmpty :: "extra_param \<Rightarrow> bool" where
  "IsEmpty p \<longleftrightarrow> data_map p = []"

definition Exists :: "u32 \<Rightarrow> extra_param \<Rightarrow> bool" where
  "Exists tag p \<longleftrightarrow> kv_find (data_map p) tag \<noteq> None"

definition TagCount :: "extra_param \<Rightarrow> nat" where
  "TagCount p = length (data_map p)"

definition EntryCount :: "u32 \<Rightarrow> extra_param \<Rightarrow> nat" where
  "EntryCount tag p = (case kv_find (data_map p) tag of None \<Rightarrow> 0 | Some os \<Rightarrow> length os)"

definition Size :: "extra_param \<Rightarrow> nat" where
  "Size p = length (data_buffer p)"

text \<open>One iteration of the loop of \<open>Acquire\<close>, and the loop.\<close>

definition register_entry :: "DataDecriptor \<Rightarrow> nat \<Rightarrow> (u32, nat list) kv \<Rightarrow> (u32, nat list) kv" where
  "register_entry d off m =
     (case kv_find m (tag_id d) of
        None \<Rightarrow> kv_add (tag_id d) [off] m
      | Some os \<Rightarrow> if length os \<le> unat (entry_id d) then kv_add (tag_id d) (os @ [off]) m else m)"

function AcquireLoop :: "byte list \<Rightarrow> nat \<Rightarrow> (u32, nat list) kv \<Rightarrow> (u32, nat list) kv option" where
  "AcquireLoop buf off m =
     (if off < length buf
      then (case read_desc buf off of
              None \<Rightarrow> None
            | Some d \<Rightarrow> AcquireLoop buf (off + (unat (data_size d) + kDataDescSize))
                          (register_entry d off m))
      else Some m)"
  by pat_completeness auto
termination
  by (relation "measure (\<lambda>(buf, off, m). length buf - off)") (auto simp: kDataDescSize_def)

declare AcquireLoop.simps [simp del]

text \<open>\<open>np\<close> is the address of the bytes after the buffer is resized to the new size.\<close>

definition Acquire :: "nat \<Rightarrow> byte list \<Rightarrow> extra_param \<Rightarrow> (int \<times> extra_param) outcome" where
  "Acquire np data p =
     (if locked p then Inr (- EPERM, p)
      else case AcquireLoop data 0 [] of
        None \<Rightarrow> Inl Undefined
      | Some m \<Rightarrow> Inr (0, p\<lparr>data_map := m, data_buffer := data, data_ptr := np\<rparr>))"

definition ExtraParam_from :: "nat \<Rightarrow> byte list \<Rightarrow> extra_param outcome" where
  "ExtraParam_from np data =
     (case Acquire np data ExtraParam of Inl f \<Rightarrow> Inl f | Inr (_, p) \<Rightarrow> Inr p)"

definition ReleaseOwnership :: "extra_param \<Rightarrow> byte list \<times> extra_param" where
  "ReleaseOwnership p = (data_buffer p, p\<lparr>data_map := [], data_buffer := []\<rparr>)"

definition GetAndLock :: "extra_param \<Rightarrow> nat \<times> extra_param" where
  "GetAndLock p = (data_ptr p, p\<lparr>locked := True\<rparr>)"

definition ReturnAndUnlock :: "nat \<Rightarrow> extra_param \<Rightarrow> int \<times> extra_param" where
  "ReturnAndUnlock ptr p =
     (if \<not> locked p then (- EPERM, p)
      else if ptr \<noteq> data_ptr p then (- EINVAL, p)
      else (0, p\<lparr>locked := False\<rparr>))"

text \<open>
  The copy constructor and the assignment lock the source while they read it. The
  assignment to itself (\<open>self\<close>) finds equal pointers and copies nothing.
\<close>

definition ExtraParam_copy :: "nat \<Rightarrow> extra_param \<Rightarrow> (extra_param \<times> extra_param) outcome" where
  "ExtraParam_copy np other =
     (let (src, other1) = GetAndLock other
      in case Acquire np (data_buffer other1) ExtraParam of
           Inl f \<Rightarrow> Inl f
         | Inr (_, p) \<Rightarrow> Inr (p, snd (ReturnAndUnlock src other1)))"

definition assign :: "nat \<Rightarrow> extra_param \<Rightarrow> extra_param \<Rightarrow> (extra_param \<times> extra_param) outcome" where
  "assign np other p =
     (let (src, other1) = GetAndLock other
      in if src \<noteq> data_ptr p
         then (case Acquire np (data_buffer other1) p of
                 Inl f \<Rightarrow> Inl f
               | Inr (_, p1) \<Rightarrow> Inr (p1, snd (ReturnAndUnlock src other1)))
         else Inr (p, snd (ReturnAndUnlock src other1)))"

definition assign_self :: "extra_param \<Rightarrow> extra_param" where
  "assign_self p = (let (src, p1) = GetAndLock p in snd (ReturnAndUnlock src p1))"

section \<open>Update and fetch\<close>

text \<open>
  A structure derived from \<^verbatim>\<open>DataTagBase\<close> is its bytes; the tag comes first.
\<close>

definition IsValidTag :: "u32 \<Rightarrow> byte list \<Rightarrow> bool" where
  "IsValidTag tag data \<longleftrightarrow> of_le32 (take 4 data) = tag"

definition append_entry :: "nat \<Rightarrow> u32 \<Rightarrow> u32 \<Rightarrow> byte list \<Rightarrow> nat list \<Rightarrow> extra_param \<Rightarrow>
    (int \<times> extra_param) outcome" where
  "append_entry np tag entry data os p =
     (let off = length (data_buffer p);
          sz = (of_nat (length data) :: u32);
          entry_size = of_nat kDataDescSize + sz;
          m = kv_add tag (os @ [off]) (data_map p);
          buf = data_buffer p @ replicate (unat entry_size) 0
      in case write_bytes buf off
                (desc_bytes \<lparr>tag_id = tag, entry_id = entry, data_size = sz\<rparr>) of
           None \<Rightarrow> Inl Undefined
         | Some buf1 \<Rightarrow>
             (case write_bytes buf1 (off + kDataDescSize) data of
                None \<Rightarrow> Inl Undefined
              | Some buf2 \<Rightarrow> Inr (0, p\<lparr>data_map := m, data_buffer := buf2, data_ptr := np\<rparr>)))"

definition FillDataEntry :: "nat \<Rightarrow> u32 \<Rightarrow> u32 \<Rightarrow> byte list \<Rightarrow> extra_param \<Rightarrow>
    (int \<times> extra_param) outcome" where
  "FillDataEntry np tag entry data p =
     (if locked p then Inr (- EPERM, p)
      else case kv_find (data_map p) tag of
        None \<Rightarrow> if entry \<noteq> 0 then Inr (- EINVAL, p) else append_entry np tag entry data [] p
      | Some os \<Rightarrow>
          if unat entry < length os
          then (case write_bytes (data_buffer p) (os ! unat entry + kDataDescSize) data of
                  None \<Rightarrow> Inl Undefined
                | Some buf \<Rightarrow> Inr (0, p\<lparr>data_buffer := buf\<rparr>))
          else if 1 < (of_nat (length os) - ucast entry :: u64) then Inr (- EINVAL, p)
          else append_entry np tag entry data os p)"

definition Update :: "nat \<Rightarrow> u32 \<Rightarrow> byte list \<Rightarrow> u32 \<Rightarrow> extra_param \<Rightarrow>
    (int \<times> extra_param) outcome" where
  "Update np tag data entry p =
     (if \<not> IsValidTag tag data then Inr (- EINVAL, p) else FillDataEntry np tag entry data p)"

definition FetchDataEntry :: "u32 \<Rightarrow> u32 \<Rightarrow> byte list \<Rightarrow> extra_param \<Rightarrow>
    (int \<times> byte list) outcome" where
  "FetchDataEntry tag entry data p =
     (case kv_find (data_map p) tag of
        None \<Rightarrow> Inl Out_of_range
      | Some os \<Rightarrow>
          if unat entry < length os
          then (case read_bytes (data_buffer p) (os ! unat entry + kDataDescSize) (length data) of
                  None \<Rightarrow> Inl Undefined
                | Some bs \<Rightarrow> Inr (0, bs))
          else Inl Out_of_range)"

definition Fetch :: "u32 \<Rightarrow> byte list \<Rightarrow> u32 \<Rightarrow> extra_param \<Rightarrow> (int \<times> byte list) outcome" where
  "Fetch tag data entry p =
     (if \<not> IsValidTag tag data then Inr (- EINVAL, data)
      else if kv_find (data_map p) tag = None then Inr (- ENOENT, data)
      else FetchDataEntry tag entry data p)"

section \<open>Removal\<close>

function ReorganizeDataMap :: "byte list \<Rightarrow> nat \<Rightarrow> (u32, nat list) kv \<Rightarrow>
    (int \<times> (u32, nat list) kv) outcome" where
  "ReorganizeDataMap buf off m =
     (if off < length buf
      then (case read_desc buf off of
              None \<Rightarrow> Inl Undefined
            | Some d \<Rightarrow>
                (case kv_find m (tag_id d) of
                   None \<Rightarrow> Inr (- EFAULT, m)
                 | Some os \<Rightarrow>
                     if length os \<le> unat (entry_id d) then Inr (- EFAULT, m)
                     else ReorganizeDataMap buf (off + (unat (data_size d) + kDataDescSize))
                            (kv_add (tag_id d) (os[unat (entry_id d) := off]) m)))
      else Inr (0, m))"
  by pat_completeness auto
termination
  by (relation "measure (\<lambda>(buf, off, m). length buf - off)") (auto simp: kDataDescSize_def)

declare ReorganizeDataMap.simps [simp del]

definition drop_index :: "nat \<Rightarrow> 'a list \<Rightarrow> 'a list" where
  "drop_index i xs = take i xs @ drop (Suc i) xs"

definition RemoveDataEntry :: "u32 \<Rightarrow> u32 \<Rightarrow> extra_param \<Rightarrow> (int \<times> extra_param) outcome" where
  "RemoveDataEntry tag entry p =
     (if locked p then Inr (- EPERM, p)
      else case kv_find (data_map p) tag of
        None \<Rightarrow> Inr (- EINVAL, p)
      | Some os \<Rightarrow>
          if length os \<le> unat entry then Inr (- EINVAL, p)
          else let off = os ! unat entry
               in case read_desc (data_buffer p) off of
                    None \<Rightarrow> Inl Undefined
                  | Some d \<Rightarrow>
                      let entry_size = data_size d + of_nat kDataDescSize :: u32
                      in case erase_range (data_buffer p) off (unat entry_size) of
                           None \<Rightarrow> Inl Undefined
                         | Some buf \<Rightarrow>
                             (case ReorganizeDataMap buf off (data_map p) of
                                Inl f \<Rightarrow> Inl f
                              | Inr (ret, m) \<Rightarrow>
                                  if ret \<noteq> 0
                                  then Inr (ret, p\<lparr>data_buffer := buf, data_map := m\<rparr>)
                                  else Inr (0, p\<lparr>data_buffer := buf,
                                    data_map := kv_add tag (drop_index (unat entry)
                                       (the (kv_find m tag))) m\<rparr>)))"

fun EraseEntries :: "byte list \<Rightarrow> nat list \<Rightarrow> byte list option" where
  "EraseEntries buf [] = Some buf"
| "EraseEntries buf (off # os) =
     (case read_desc buf off of
        None \<Rightarrow> None
      | Some d \<Rightarrow>
          (case erase_range buf off (unat (data_size d + of_nat kDataDescSize)) of
             None \<Rightarrow> None
           | Some buf1 \<Rightarrow> EraseEntries buf1 os))"

definition EraseDataTag :: "u32 \<Rightarrow> extra_param \<Rightarrow> (int \<times> extra_param) outcome" where
  "EraseDataTag tag p =
     (if locked p then Inr (- EPERM, p)
      else case kv_find (data_map p) tag of
        None \<Rightarrow> Inr (- EINVAL, p)
      | Some os \<Rightarrow>
          let entries = rev (sort os); m0 = kv_add tag entries (data_map p)
          in case EraseEntries (data_buffer p) entries of
               None \<Rightarrow> Inl Undefined
             | Some buf \<Rightarrow>
                 if entries = [] then Inl Undefined
                 else (case ReorganizeDataMap buf (last entries) m0 of
                         Inl f \<Rightarrow> Inl f
                       | Inr (ret, m) \<Rightarrow>
                           if ret \<noteq> 0 then Inr (ret, p\<lparr>data_buffer := buf, data_map := m\<rparr>)
                           else Inr (0, p\<lparr>data_buffer := buf, data_map := kv_remove tag m\<rparr>)))"

definition Remove :: "u32 \<Rightarrow> u32 \<Rightarrow> extra_param \<Rightarrow> (int \<times> extra_param) outcome" where
  "Remove tag entry p = RemoveDataEntry tag entry p"

definition Erase :: "u32 \<Rightarrow> extra_param \<Rightarrow> (int \<times> extra_param) outcome" where
  "Erase tag p = EraseDataTag tag p"

end
