(* ===== verification/Extra_Param_Props.thy ===== *)
theory Extra_Param_Props
  imports Extra_Param
begin

unbundle bit_operations_syntax

text \<open>
  The abstract view of an \<^verbatim>\<open>ExtraParam\<close> as a list of tagged entries, the relation
  between a container and its entries, and the refinement lemmas for the operations.
\<close>

section \<open>Encoding\<close>

lemma of_le32_le32 [simp]: "of_le32 (le32 w) = w"
proof -
  have "bit (of_le32 (le32 w)) n \<longleftrightarrow> bit w n" if "n < 32" for n
  proof -
    from that consider "n < 8" | "8 \<le> n" "n < 16" | "16 \<le> n" "n < 24" | "24 \<le> n" "n < 32"
      by linarith
    then show ?thesis
      by cases (auto simp: le32_def bit_or_iff bit_push_bit_iff bit_unsigned_iff
          bit_drop_bit_eq min_def dest: bit_imp_le_length)
  qed
  then show ?thesis by (intro bit_word_eqI) auto
qed

lemma length_le32 [simp]: "length (le32 w) = 4"
  by (simp add: le32_def)

lemma length_desc_bytes [simp]: "length (desc_bytes d) = kDataDescSize"
  by (simp add: desc_bytes_def kDataDescSize_def)

lemma read_desc_bytes: "read_desc (a @ desc_bytes d @ b) (length a) = Some d"
  by (simp add: read_desc_def desc_bytes_def kDataDescSize_def)

record entry =
  e_tag :: u32
  e_id :: u32
  e_data :: "byte list"

definition e_desc :: "entry \<Rightarrow> DataDecriptor" where
  "e_desc x = \<lparr>tag_id = e_tag x, entry_id = e_id x, data_size = of_nat (length (e_data x))\<rparr>"

definition e_bytes :: "entry \<Rightarrow> byte list" where
  "e_bytes x = desc_bytes (e_desc x) @ e_data x"

definition encode :: "entry list \<Rightarrow> byte list" where
  "encode es = concat (map e_bytes es)"

lemma encode_simps [simp]:
  "encode [] = []" "encode (x # es) = e_bytes x @ encode es"
  "encode (es @ es') = encode es @ encode es'"
  by (simp_all add: encode_def)

definition e_fits :: "entry \<Rightarrow> bool" where
  "e_fits x \<longleftrightarrow> kDataDescSize + length (e_data x) < 2 ^ 32"

lemma e_fits_size:
  "e_fits x \<Longrightarrow> unat (of_nat (length (e_data x)) :: u32) = length (e_data x)"
  by (simp add: e_fits_def unat_of_nat)

lemma length_e_bytes [simp]: "length (e_bytes x) = kDataDescSize + length (e_data x)"
  by (simp add: e_bytes_def)

section \<open>Offsets and numbering\<close>

primrec offsets :: "u32 \<Rightarrow> nat \<Rightarrow> entry list \<Rightarrow> nat list" where
  "offsets t n [] = []"
| "offsets t n (x # es) =
     (if e_tag x = t then [n] else []) @ offsets t (n + length (e_bytes x)) es"

lemma offsets_append [simp]:
  "offsets t n (es @ es') = offsets t n es @ offsets t (n + length (encode es)) es'"
  by (induction es arbitrary: n) (simp_all add: add.assoc)

abbreviation tagged :: "u32 \<Rightarrow> entry list \<Rightarrow> entry list" where
  "tagged t es \<equiv> filter (\<lambda>x. e_tag x = t) es"

lemma length_offsets [simp]: "length (offsets t n es) = length (tagged t es)"
  by (induction es arbitrary: n) auto

text \<open>Every entry is numbered by the entries of its tag before it.\<close>

definition numbered :: "entry list \<Rightarrow> bool" where
  "numbered es \<longleftrightarrow>
     (\<forall>pre x post. es = pre @ x # post \<longrightarrow> unat (e_id x) = length (tagged (e_tag x) pre))"

lemma numbered_snoc:
  "numbered (es @ [x]) \<longleftrightarrow> numbered es \<and> unat (e_id x) = length (tagged (e_tag x) es)"
  (is "?L \<longleftrightarrow> ?R")
proof
  assume L: ?L
  have "numbered es" unfolding numbered_def
  proof (intro allI impI)
    fix pre y post assume "es = pre @ y # post"
    then have "es @ [x] = pre @ y # (post @ [x])" by simp
    with L show "unat (e_id y) = length (tagged (e_tag y) pre)" unfolding numbered_def by blast
  qed
  moreover have "unat (e_id x) = length (tagged (e_tag x) es)"
    using L unfolding numbered_def by blast
  ultimately show ?R ..
next
  assume R: ?R
  show ?L unfolding numbered_def
  proof (intro allI impI)
    fix pre y post assume eq: "es @ [x] = pre @ y # post"
    show "unat (e_id y) = length (tagged (e_tag y) pre)"
    proof (cases post rule: rev_cases)
      case Nil
      with eq R show ?thesis by simp
    next
      case (snoc post' z)
      with eq have "es = pre @ y # post'" by simp
      with R show ?thesis unfolding numbered_def by blast
    qed
  qed
qed

lemma numbered_Nil [simp]: "numbered []"
  by (simp add: numbered_def)

lemma numbered_appendD: "numbered (es @ es') \<Longrightarrow> numbered es"
  by (induction es' rule: rev_induct) (simp_all add: numbered_snoc flip: append_assoc)

definition valid_entries :: "entry list \<Rightarrow> bool" where
  "valid_entries es \<longleftrightarrow> numbered es \<and> (\<forall>x \<in> set es. e_fits x)"

text \<open>The map of a container lists the offsets of the entries of each tag.\<close>

definition indexes :: "(u32, nat list) kv \<Rightarrow> entry list \<Rightarrow> bool" where
  "indexes m es \<longleftrightarrow> kv_wf m \<and>
     (\<forall>t. kv_find m t = (if tagged t es = [] then None else Some (offsets t 0 es)))"

lemma indexes_Nil [simp]: "indexes [] []"
  by (simp add: indexes_def)

lemma indexes_find:
  "indexes m es \<Longrightarrow> kv_find m t = (if tagged t es = [] then None else Some (offsets t 0 es))"
  by (simp add: indexes_def)

lemma indexes_add:
  assumes "indexes m es"
  shows "indexes (kv_add (e_tag x) (offsets (e_tag x) 0 es @ [length (encode es)]) m) (es @ [x])"
  using assms unfolding indexes_def by auto

lemma offsets_Nil_iff: "offsets t n es = [] \<longleftrightarrow> tagged t es = []"
  by (metis length_0_conv length_offsets)

lemma register_entry_indexes:
  assumes "indexes m es" "unat (e_id x) = length (tagged (e_tag x) es)"
  shows "indexes (register_entry (e_desc x) (length (encode es)) m) (es @ [x])"
  using indexes_add [OF assms(1), of x] assms(2)
  by (cases "tagged (e_tag x) es = []")
    (simp_all add: register_entry_def e_desc_def indexes_find [OF assms(1)]
      iffD2 [OF offsets_Nil_iff])

lemma AcquireLoop_encode:
  assumes "indexes m es0" "valid_entries (es0 @ es)"
  shows "\<exists>m'. AcquireLoop (encode (es0 @ es)) (length (encode es0)) m = Some m' \<and>
              indexes m' (es0 @ es)"
  using assms
proof (induction es arbitrary: es0 m)
  case Nil
  then show ?case by (simp add: AcquireLoop.simps)
next
  case (Cons x es)
  have nx: "numbered (es0 @ [x])"
    using Cons.prems numbered_appendD [of "es0 @ [x]" es] by (simp add: valid_entries_def)
  then have idx: "indexes (register_entry (e_desc x) (length (encode es0)) m) (es0 @ [x])"
    using register_entry_indexes Cons.prems(1) by (simp add: numbered_snoc)
  from Cons.prems have fx: "e_fits x" by (simp add: valid_entries_def)
  have rd: "read_desc (encode (es0 @ x # es)) (length (encode es0)) = Some (e_desc x)"
    using read_desc_bytes [of "encode es0" "e_desc x" "e_data x @ encode es"]
    by (simp add: e_bytes_def)
  have off: "length (encode es0) + (unat (data_size (e_desc x)) + kDataDescSize) =
             length (encode (es0 @ [x]))"
    using e_fits_size [OF fx] by (simp add: e_desc_def)
  have lt: "length (encode es0) < length (encode (es0 @ x # es))"
    by (simp add: kDataDescSize_def)
  have "\<exists>m'. AcquireLoop (encode ((es0 @ [x]) @ es)) (length (encode (es0 @ [x])))
               (register_entry (e_desc x) (length (encode es0)) m) = Some m' \<and>
             indexes m' ((es0 @ [x]) @ es)"
    by (rule Cons.IH [OF idx]) (use Cons.prems in simp)
  then show ?case
    using rd off lt by (subst AcquireLoop.simps) (simp only: append_Cons append_Nil append_assoc if_True option.case)
qed

section \<open>The representation relation\<close>

definition represents :: "extra_param \<Rightarrow> entry list \<Rightarrow> bool" where
  "represents p es \<longleftrightarrow>
     data_buffer p = encode es \<and> indexes (data_map p) es \<and> valid_entries es"

lemma represents_empty: "represents ExtraParam []"
  by (simp add: represents_def ExtraParam_def valid_entries_def)

lemma AcquireLoop_represents:
  assumes "represents p es"
  shows "AcquireLoop (data_buffer p) 0 [] = Some (data_map p)"
proof -
  from assms have v: "valid_entries es" and b: "data_buffer p = encode es"
    and i: "indexes (data_map p) es"
    by (simp_all add: represents_def)
  from AcquireLoop_encode [of "[]" "[]" es] v obtain m
    where m: "AcquireLoop (encode es) 0 [] = Some m" "indexes m es" by auto
  then have "m = data_map p"
    using i by (intro kv_ext) (simp_all add: indexes_def)
  with m b show ?thesis by simp
qed

lemma Acquire_represents:
  "represents p es \<Longrightarrow> \<not> locked q \<Longrightarrow>
   Acquire np (data_buffer p) q =
     Inr (0, q\<lparr>data_map := data_map p, data_buffer := data_buffer p, data_ptr := np\<rparr>)"
  by (simp add: Acquire_def AcquireLoop_represents)

lemma locate_entry:
  assumes "i < length (tagged t es)"
  obtains pre x post where "es = pre @ x # post" "e_tag x = t" "length (tagged t pre) = i"
    "offsets t n es ! i = n + length (encode pre)"
proof -
  have "\<exists>pre x post. es = pre @ x # post \<and> e_tag x = t \<and> length (tagged t pre) = i \<and>
          offsets t n es ! i = n + length (encode pre)"
    using assms
  proof (induction es arbitrary: i n)
    case Nil
    then show ?case by simp
  next
    case (Cons y es)
    show ?case
    proof (cases "e_tag y = t \<and> i = 0")
      case True
      then show ?thesis by (intro exI [of _ "[]"]) auto
    next
      case False
      define k where "k = (if e_tag y = t then i - 1 else i)"
      from Cons.prems False have k: "k < length (tagged t es)" by (auto simp: k_def)
      from Cons.IH [OF k, of "n + length (e_bytes y)"] obtain pre x post
        where p: "es = pre @ x # post" "e_tag x = t" "length (tagged t pre) = k"
          "offsets t (n + length (e_bytes y)) es ! k = n + length (e_bytes y) + length (encode pre)"
        by blast
      have "offsets t n (y # es) ! i = offsets t (n + length (e_bytes y)) es ! k"
        using False by (auto simp: k_def nth_Cons')
      with p False show ?thesis
        by (intro exI [of _ "y # pre"] exI [of _ x] exI [of _ post]) (auto simp: k_def)
    qed
  qed
  with that show thesis by blast
qed

section \<open>Update\<close>

definition set_data :: "byte list \<Rightarrow> entry \<Rightarrow> entry" where
  "set_data d x = x\<lparr>e_data := d\<rparr>"

lemma set_data_simps [simp]:
  "e_tag (set_data d x) = e_tag x" "e_id (set_data d x) = e_id x" "e_data (set_data d x) = d"
  by (simp_all add: set_data_def)

lemma write_in_place:
  assumes "length d = length (e_data x)"
  shows "write_bytes (encode (pre @ x # post)) (length (encode pre) + kDataDescSize) d =
         Some (encode (pre @ set_data d x # post))"
  using assms by (simp add: write_bytes_def e_bytes_def e_desc_def)

lemma tagged_replace:
  "map e_id (tagged t (pre @ set_data d x # post)) = map e_id (tagged t (pre @ x # post))"
  "length (tagged t (pre @ set_data d x # post)) = length (tagged t (pre @ x # post))"
  by simp_all

lemma offsets_replace:
  "length d = length (e_data x) \<Longrightarrow>
   offsets t n (pre @ set_data d x # post) = offsets t n (pre @ x # post)"
  by simp

lemma numbered_cong:
  assumes "map e_tag es = map e_tag es'" "map e_id es = map e_id es'" "numbered es"
  shows "numbered es'"
proof -
  have cnt: "length (tagged t xs) = length (filter (\<lambda>u. u = t) (map e_tag xs))" for t xs
    by (simp add: filter_map o_def)
  have len: "length es = length es'" using assms(1) map_eq_imp_length_eq by blast
  show ?thesis unfolding numbered_def
  proof (intro allI impI)
    fix pre x post assume eq: "es' = pre @ x # post"
    let ?n = "length pre"
    have n: "?n < length es" using eq len by simp
    then have split: "es = take ?n es @ es ! ?n # drop (Suc ?n) es" by (simp add: id_take_nth_drop)
    have "e_tag (es ! ?n) = e_tag x" "e_id (es ! ?n) = e_id x"
      using arg_cong [OF assms(1), of "\<lambda>l. l ! ?n"] arg_cong [OF assms(2), of "\<lambda>l. l ! ?n"] n eq
      by (simp_all add: nth_append)
    moreover have "map e_tag (take ?n es) = map e_tag pre"
      using arg_cong [OF assms(1), of "take ?n"] eq by (simp add: take_map)
    ultimately show "unat (e_id x) = length (tagged (e_tag x) pre)"
      using assms(3) split cnt unfolding numbered_def by metis
  qed
qed

lemma represents_replace:
  assumes "represents p (pre @ x # post)" "length d = length (e_data x)"
  shows "represents (p\<lparr>data_buffer := encode (pre @ set_data d x # post)\<rparr>)
           (pre @ set_data d x # post)"
proof -
  have "numbered (pre @ set_data d x # post)"
    by (rule numbered_cong [of "pre @ x # post"])
      (use assms in \<open>simp_all add: represents_def valid_entries_def\<close>)
  moreover have "indexes (data_map p) (pre @ set_data d x # post)"
    using assms unfolding represents_def indexes_def by simp
  moreover have "\<forall>y \<in> set (pre @ set_data d x # post). e_fits y"
    using assms by (auto simp: represents_def valid_entries_def e_fits_def)
  ultimately show ?thesis by (simp add: represents_def valid_entries_def)
qed

lemma append_entry_represents:
  assumes rep: "represents p es" and fits: "kDataDescSize + length d < 2 ^ 32"
    and num: "unat i = length (tagged t es)" and os: "os = offsets t 0 es"
  defines "x \<equiv> \<lparr>e_tag = t, e_id = i, e_data = d\<rparr>"
  obtains m where
    "append_entry np t i d os p =
       Inr (0, p\<lparr>data_map := m, data_buffer := encode (es @ [x]), data_ptr := np\<rparr>)"
    "represents (p\<lparr>data_map := m, data_buffer := encode (es @ [x]), data_ptr := np\<rparr>) (es @ [x])"
proof -
  let ?m = "kv_add t (os @ [length (encode es)]) (data_map p)"
  have b: "data_buffer p = encode es" using rep by (simp add: represents_def)
  have len: "unat (of_nat kDataDescSize + of_nat (length d) :: u32) = kDataDescSize + length d"
    using fits by (simp flip: of_nat_add add: unat_of_nat)
  have xf: "e_fits x" using fits by (simp add: e_fits_def x_def)
  have "append_entry np t i d os p =
      Inr (0, p\<lparr>data_map := ?m, data_buffer := encode (es @ [x]), data_ptr := np\<rparr>)"
    by (simp add: append_entry_def b len Let_def write_bytes_def x_def e_bytes_def e_desc_def)
  moreover have "indexes ?m (es @ [x])"
    using indexes_add [of "data_map p" es x] rep by (simp add: represents_def x_def os)
  moreover have "valid_entries (es @ [x])"
    using rep num xf by (auto simp: valid_entries_def represents_def numbered_snoc x_def)
  ultimately show thesis by (intro that [of ?m]) (simp_all add: represents_def)
qed

lemma subsequent_check:
  assumes "n \<le> unat (i :: u32)"
  shows "1 < (of_nat n - ucast i :: u64) \<longleftrightarrow> n \<noteq> unat i"
proof -
  have i: "unat i < 2 ^ 32" using unsigned_less [of i] by simp
  have "unat (of_nat n :: u64) = n" "unat (ucast i :: u64) = unat i"
    using assms i by (simp_all add: unat_of_nat unsigned_ucast_eq take_bit_nat_eq_self)
  then show ?thesis using assms i by (simp add: word_less_nat_alt unat_sub_if') arith
qed

section \<open>What a container holds\<close>

text \<open>The structures stored under a tag, read back through the map and the descriptors.\<close>

definition entry_at :: "byte list \<Rightarrow> nat \<Rightarrow> byte list" where
  "entry_at buf off =
     (case read_desc buf off of
        None \<Rightarrow> []
      | Some d \<Rightarrow> take (unat (data_size d)) (drop (off + kDataDescSize) buf))"

definition contents :: "extra_param \<Rightarrow> u32 \<Rightarrow> byte list list" where
  "contents p t =
     (case kv_find (data_map p) t of None \<Rightarrow> [] | Some os \<Rightarrow> map (entry_at (data_buffer p)) os)"

lemma entry_at_encode:
  assumes "e_fits x"
  shows "entry_at (encode (pre @ x # post)) (length (encode pre)) = e_data x"
  using read_desc_bytes [of "encode pre" "e_desc x" "e_data x @ encode post"] e_fits_size [OF assms]
  by (simp add: entry_at_def e_bytes_def e_desc_def)

lemma contents_represents:
  assumes "represents p es"
  shows "contents p t = map e_data (tagged t es)"
proof (rule nth_equalityI)
  have find: "kv_find (data_map p) t = (if tagged t es = [] then None else Some (offsets t 0 es))"
    using assms by (simp add: represents_def indexes_def)
  then show len: "length (contents p t) = length (map e_data (tagged t es))"
    by (simp add: contents_def)
  fix i assume "i < length (contents p t)"
  with len have i: "i < length (tagged t es)" by simp
  obtain pre x post where l: "es = pre @ x # post" "e_tag x = t" "length (tagged t pre) = i"
    "offsets t 0 es ! i = 0 + length (encode pre)"
    using i by (rule locate_entry)
  have "e_fits x" using assms l(1) by (simp add: represents_def valid_entries_def)
  then have "entry_at (data_buffer p) (offsets t 0 es ! i) = e_data x"
    using assms l entry_at_encode by (simp add: represents_def)
  moreover have "tagged t es ! i = x"
    using l(1-3) by (simp add: nth_append)
  moreover have "contents p t ! i = entry_at (data_buffer p) (offsets t 0 es ! i)"
  proof -
    from i have "tagged t es \<noteq> []" by auto
    with i find show ?thesis by (simp add: contents_def)
  qed
  ultimately show "contents p t ! i = map e_data (tagged t es) ! i" using i by simp
qed

lemma EntryCount_represents: "represents p es \<Longrightarrow> EntryCount t p = length (tagged t es)"
  by (simp add: EntryCount_def represents_def indexes_def)

lemma length_contents: "length (contents p t) = EntryCount t p"
  by (simp add: contents_def EntryCount_def split: option.splits)

definition container_ok :: "extra_param \<Rightarrow> bool" where
  "container_ok p \<longleftrightarrow> (\<exists>es. represents p es)"

lemma FillDataEntry_replace:
  assumes ok: "container_ok p" and un: "\<not> locked p"
    and e: "unat i < EntryCount t p" and sz: "length d = length (contents p t ! unat i)"
  obtains p' where "FillDataEntry np t i d p = Inr (0, p')" "container_ok p'" "\<not> locked p'"
    "contents p' t = (contents p t)[unat i := d]" "\<And>u. u \<noteq> t \<Longrightarrow> contents p' u = contents p u"
proof -
  from ok obtain es where rep: "represents p es" by (auto simp: container_ok_def)
  from e rep have i: "unat i < length (tagged t es)" by (simp add: EntryCount_represents)
  obtain pre x post where l: "es = pre @ x # post" "e_tag x = t" "length (tagged t pre) = unat i"
    "offsets t 0 es ! unat i = 0 + length (encode pre)"
    using i by (rule locate_entry)
  have len: "length d = length (e_data x)"
    using sz l(1-3) i by (simp add: contents_represents [OF rep] nth_append)
  let ?es = "pre @ set_data d x # post" and ?p = "p\<lparr>data_buffer := encode (pre @ set_data d x # post)\<rparr>"
  have find: "kv_find (data_map p) t = Some (offsets t 0 es)"
    using rep i by (auto simp: represents_def indexes_def)
  have rep': "represents ?p ?es" using represents_replace rep len l(1) by blast
  have "FillDataEntry np t i d p = Inr (0, ?p)"
    using un find i l(4) rep write_in_place [OF len, of pre post] l(1)
    by (simp only: FillDataEntry_def represents_def if_False option.case length_offsets if_True
        add_0_left)
  moreover have "contents ?p t = (contents p t)[unat i := d]"
    unfolding contents_represents [OF rep'] contents_represents [OF rep]
    using l(1-3) by (simp add: list_update_append flip: l(3))
  moreover have "contents ?p u = contents p u" if "u \<noteq> t" for u
    unfolding contents_represents [OF rep'] contents_represents [OF rep]
    using l(1,2) that by simp
  ultimately show thesis using that [of ?p] rep' un by (auto simp: container_ok_def)
qed

lemma FillDataEntry_append:
  assumes ok: "container_ok p" and un: "\<not> locked p"
    and e: "unat i = EntryCount t p" and sz: "kDataDescSize + length d < 2 ^ 32"
  obtains p' where "FillDataEntry np t i d p = Inr (0, p')" "container_ok p'" "\<not> locked p'"
    "contents p' t = contents p t @ [d]" "\<And>u. u \<noteq> t \<Longrightarrow> contents p' u = contents p u"
proof -
  from ok obtain es where rep: "represents p es" by (auto simp: container_ok_def)
  have i: "unat i = length (tagged t es)" using e rep by (simp add: EntryCount_represents)
  obtain q where m: "append_entry np t i d (offsets t 0 es) p = Inr (0, q)"
    "represents q (es @ [\<lparr>e_tag = t, e_id = i, e_data = d\<rparr>])" "\<not> locked q"
    by (rule append_entry_represents [OF rep sz i refl, where np = np]) (use un in auto)
  have find: "kv_find (data_map p) t = (if tagged t es = [] then None else Some (offsets t 0 es))"
    using rep by (simp add: represents_def indexes_def)
  have chk: "\<not> 1 < (of_nat (length (tagged t es)) - ucast i :: u64)"
    using subsequent_check [of "length (tagged t es)" i] i by simp
  have "FillDataEntry np t i d p = Inr (0, q)"
  proof (cases "tagged t es = []")
    case True
    with i have "i = 0" "offsets t 0 es = []"
      by (simp_all add: unat_eq_0 offsets_Nil_iff)
    with True m(1) find un show ?thesis by (simp add: FillDataEntry_def)
  next
    case False
    with m(1) find un i chk show ?thesis by (simp add: FillDataEntry_def)
  qed
  moreover have "contents q u = contents p u @ (if u = t then [d] else [])" for u
    unfolding contents_represents [OF m(2)] contents_represents [OF rep] by simp
  ultimately show thesis using that [of q] m(2,3) by (auto simp: container_ok_def)
qed

lemma FillDataEntry_gap:
  assumes "container_ok p" "\<not> locked p" "EntryCount t p < unat i"
  shows "FillDataEntry np t i d p = Inr (- EINVAL, p)"
  using assms subsequent_check [of "EntryCount t p" i]
  by (auto simp: FillDataEntry_def EntryCount_def split: option.splits)

lemma FetchDataEntry_contents:
  assumes ok: "container_ok p" and i: "unat i < EntryCount t p"
    and len: "length buf = length (contents p t ! unat i)"
  shows "FetchDataEntry t i buf p = Inr (0, contents p t ! unat i)"
proof -
  from ok obtain es where rep: "represents p es" by (auto simp: container_ok_def)
  from i rep have i: "unat i < length (tagged t es)" by (simp add: EntryCount_represents)
  obtain pre x post where l: "es = pre @ x # post" "e_tag x = t" "length (tagged t pre) = unat i"
    "offsets t 0 es ! unat i = 0 + length (encode pre)"
    using i by (rule locate_entry)
  have x: "contents p t ! unat i = e_data x"
    using l(1-3) i by (simp add: contents_represents [OF rep] nth_append)
  have find: "kv_find (data_map p) t = Some (offsets t 0 es)"
    using rep i by (auto simp: represents_def indexes_def)
  have "read_bytes (data_buffer p) (length (encode pre) + kDataDescSize) (length (e_data x)) =
        Some (e_data x)"
    using rep l(1) by (simp add: represents_def read_bytes_def e_bytes_def)
  with find i l(4) x len show ?thesis by (simp add: FetchDataEntry_def)
qed

section \<open>The contract of a tagged store\<close>

text \<open>
  What the users of the container rely on: each tag holds a list of values, a value is
  appended at the end of the list or replaces one of the same size, and the other tags keep
  theirs.
\<close>

locale tagged_store =
  fixes ok :: "'s \<Rightarrow> bool"
    and lookup :: "'s \<Rightarrow> 'k \<Rightarrow> 'v list"
    and update :: "'k \<Rightarrow> nat \<Rightarrow> 'v \<Rightarrow> 's \<Rightarrow> 's option"
    and storable :: "'k \<Rightarrow> 'v \<Rightarrow> bool"
    and same_size :: "'v \<Rightarrow> 'v \<Rightarrow> bool"
    and room :: nat
  assumes update_append: "ok s \<Longrightarrow> storable k v \<Longrightarrow> length (lookup s k) < room \<Longrightarrow>
      \<exists>s'. update k (length (lookup s k)) v s = Some s' \<and> ok s' \<and>
           lookup s' = (lookup s)(k := lookup s k @ [v])"
    and update_replace: "ok s \<Longrightarrow> storable k v \<Longrightarrow> i < length (lookup s k) \<Longrightarrow> i < room \<Longrightarrow>
      same_size v (lookup s k ! i) \<Longrightarrow>
      \<exists>s'. update k i v s = Some s' \<and> ok s' \<and> lookup s' = (lookup s)(k := (lookup s k)[i := v])"
begin

primrec store_all :: "'k \<Rightarrow> nat \<Rightarrow> 'v list \<Rightarrow> 's \<Rightarrow> 's option" where
  "store_all k i [] s = Some s"
| "store_all k i (v # vs) s =
     (case update k i v s of None \<Rightarrow> None | Some s' \<Rightarrow> store_all k (Suc i) vs s')"

lemma store_all_appends:
  assumes "ok s" "\<forall>v \<in> set vs. storable k v" "length (lookup s k) + length vs \<le> room"
  shows "\<exists>s'. store_all k (length (lookup s k)) vs s = Some s' \<and> ok s' \<and>
              lookup s' = (lookup s)(k := lookup s k @ vs)"
  using assms
proof (induction vs arbitrary: s)
  case Nil
  then show ?case by simp
next
  case (Cons v vs)
  then obtain s1 where s1: "update k (length (lookup s k)) v s = Some s1" "ok s1"
    "lookup s1 = (lookup s)(k := lookup s k @ [v])"
    using update_append [of s k v] by auto
  have "\<exists>s'. store_all k (length (lookup s1 k)) vs s1 = Some s' \<and> ok s' \<and>
             lookup s' = (lookup s1)(k := lookup s1 k @ vs)"
    by (rule Cons.IH) (use Cons.prems s1 in auto)
  with s1 show ?case by (auto simp: fun_eq_iff)
qed

end

definition Update_entry :: "u32 \<Rightarrow> nat \<Rightarrow> byte list \<Rightarrow> extra_param \<Rightarrow> extra_param option" where
  "Update_entry t i d p =
     (case Update (data_ptr p) t d (of_nat i) p of Inr (r, p') \<Rightarrow> if r = 0 then Some p' else None
      | Inl _ \<Rightarrow> None)"

definition struct_ok :: "u32 \<Rightarrow> byte list \<Rightarrow> bool" where
  "struct_ok t d \<longleftrightarrow> IsValidTag t d \<and> kDataDescSize + length d < 2 ^ 32"

definition open_ok :: "extra_param \<Rightarrow> bool" where
  "open_ok p \<longleftrightarrow> container_ok p \<and> \<not> locked p"

lemma unat_index: "i < 2 ^ 32 \<Longrightarrow> unat (of_nat i :: u32) = i"
  by (simp add: unat_of_nat)

interpretation params: tagged_store open_ok contents Update_entry struct_ok
  "\<lambda>v w. length v = length w" "2 ^ 32"
proof
  fix p :: extra_param and t d
  assume a: "open_ok p" "struct_ok t d" "length (contents p t) < 2 ^ 32"
  then have e: "unat (of_nat (length (contents p t)) :: u32) = EntryCount t p"
    by (simp add: unat_index length_contents)
  from a obtain p' where p: "FillDataEntry (data_ptr p) t (of_nat (length (contents p t))) d p = Inr (0, p')"
    "container_ok p'" "\<not> locked p'" "contents p' t = contents p t @ [d]"
    "\<And>u. u \<noteq> t \<Longrightarrow> contents p' u = contents p u"
    using FillDataEntry_append [OF _ _ e] unfolding open_ok_def struct_ok_def by metis
  then show "\<exists>p'. Update_entry t (length (contents p t)) d p = Some p' \<and> open_ok p' \<and>
      contents p' = (contents p)(t := contents p t @ [d])"
    using a(2) by (auto simp: Update_entry_def Update_def struct_ok_def open_ok_def fun_eq_iff)
next
  fix p :: extra_param and t d i
  assume a: "open_ok p" "struct_ok t d" "i < length (contents p t)" "i < 2 ^ 32"
    "length d = length (contents p t ! i)"
  then have e: "unat (of_nat i :: u32) = i" by (simp add: unat_index)
  with a have lt: "unat (of_nat i :: u32) < EntryCount t p" by (simp add: length_contents)
  from a e obtain p' where p: "FillDataEntry (data_ptr p) t (of_nat i) d p = Inr (0, p')"
    "container_ok p'" "\<not> locked p'" "contents p' t = (contents p t)[i := d]"
    "\<And>u. u \<noteq> t \<Longrightarrow> contents p' u = contents p u"
    using FillDataEntry_replace [OF _ _ lt] unfolding open_ok_def by metis
  then show "\<exists>p'. Update_entry t i d p = Some p' \<and> open_ok p' \<and>
      contents p' = (contents p)(t := (contents p t)[i := d])"
    using a(2) by (auto simp: Update_entry_def Update_def struct_ok_def open_ok_def fun_eq_iff)
qed

end
