(* ===== verification/Extra_Param_Claims.thy ===== *)
theory Extra_Param_Claims
  imports Extra_Param_Props
begin

text \<open>The properties of the parameter container, with a sample container for the witnesses.\<close>

section \<open>A sample container\<close>

definition sample_struct :: "u32 \<Rightarrow> byte \<Rightarrow> byte list" where
  "sample_struct t b = le32 t @ [b]"

definition sample_entries :: "entry list" where
  "sample_entries =
     [\<lparr>e_tag = 7, e_id = 0, e_data = sample_struct 7 1\<rparr>,
      \<lparr>e_tag = 3, e_id = 0, e_data = sample_struct 3 2\<rparr>,
      \<lparr>e_tag = 7, e_id = 1, e_data = sample_struct 7 9\<rparr>]"

definition sample_param :: extra_param where
  "sample_param = \<lparr>locked = False, data_map = [(3, [17]), (7, [0, 34])],
     data_buffer = encode sample_entries, data_ptr = 4096\<rparr>"

lemma sample_tag [simp]: "IsValidTag t (sample_struct t b)"
  by (simp add: IsValidTag_def sample_struct_def)

lemma sample_length [simp]: "length (sample_struct t b) = 5"
  by (simp add: sample_struct_def)

lemma sample_numbered: "numbered sample_entries"
proof -
  have "numbered ((([] @ [\<lparr>e_tag = 7, e_id = 0, e_data = sample_struct 7 1\<rparr>]) @
      [\<lparr>e_tag = 3, e_id = 0, e_data = sample_struct 3 2\<rparr>]) @
      [\<lparr>e_tag = 7, e_id = 1, e_data = sample_struct 7 9\<rparr>])"
    unfolding numbered_snoc by simp
  then show ?thesis by (simp add: sample_entries_def)
qed

lemma sample_represents: "represents sample_param sample_entries"
proof -
  have "valid_entries sample_entries"
    using sample_numbered
    by (simp add: valid_entries_def sample_entries_def e_fits_def kDataDescSize_def)
  moreover have "indexes (data_map sample_param) sample_entries"
    by (auto simp: indexes_def sample_param_def kv_wf_def sample_entries_def kDataDescSize_def)
  ultimately show ?thesis by (simp add: represents_def sample_param_def)
qed

lemma sample_ok: "container_ok sample_param" "\<not> locked sample_param" "open_ok sample_param"
  using sample_represents by (auto simp: container_ok_def open_ok_def sample_param_def)

lemma sample_contents:
  "contents sample_param 7 = [sample_struct 7 1, sample_struct 7 9]"
  "contents sample_param 3 = [sample_struct 3 2]"
  by (simp_all add: contents_represents [OF sample_represents] sample_entries_def)

section \<open>Properties\<close>

text \<open>
  C22. Update then Fetch: in a well-formed container that is not locked, \<open>Update\<close> of a
  structure with a matching tag, at an existing entry of the same size or at the next entry
  number, succeeds, never writes outside the buffer and keeps the container well formed; the
  tag then holds the old structures with the new one in its place, every other tag holds what
  it held, and \<open>Fetch\<close> of that entry returns exactly the bytes that were stored.
\<close>

theorem Update_Fetch:
  assumes "container_ok p" "\<not> locked p" "IsValidTag t d"
    and "unat i \<le> EntryCount t p" "kDataDescSize + length d < 2 ^ 32"
    and "unat i < EntryCount t p \<Longrightarrow> length d = length (contents p t ! unat i)"
    and "IsValidTag t buf" "length buf = length d"
  shows "\<exists>p'. Update np t d i p = Inr (0, p') \<and> container_ok p' \<and>
     contents p' = (contents p)(t := (if unat i < EntryCount t p then (contents p t)[unat i := d]
                                      else contents p t @ [d])) \<and>
     Fetch t buf i p' = Inr (0, d)"
proof -
  obtain p' where p: "FillDataEntry np t i d p = Inr (0, p')" "container_ok p'"
    "contents p' t = (if unat i < EntryCount t p then (contents p t)[unat i := d]
                      else contents p t @ [d])" (is "_ = ?new")
    "\<And>u. u \<noteq> t \<Longrightarrow> contents p' u = contents p u"
  proof (cases "unat i < EntryCount t p")
    case True
    show thesis
      by (rule FillDataEntry_replace [OF assms(1,2) True assms(6) [OF True], where np = np])
        (use True in \<open>auto intro: that\<close>)
  next
    case False
    with assms(4) have e: "unat i = EntryCount t p" by simp
    show thesis
      by (rule FillDataEntry_append [OF assms(1,2) e assms(5), where np = np])
        (use False in \<open>auto intro: that\<close>)
  qed
  have nth: "contents p' t ! unat i = d" "unat i < length (contents p' t)"
    using p(3) assms(4) length_contents [of p t] by (auto simp: nth_append)
  then have "FetchDataEntry t i buf p' = Inr (0, d)"
    using FetchDataEntry_contents [OF p(2), of i t buf] assms(8) by (simp add: length_contents)
  moreover have "kv_find (data_map p') t \<noteq> None"
    using nth(2) by (auto simp: contents_def split: option.splits)
  moreover have "contents p' = (contents p)(t := ?new)"
    using p(3,4) by (simp add: fun_eq_iff)
  ultimately show ?thesis
    using p(1,2) assms(3,7) by (auto simp: Update_def Fetch_def)
qed

theorem Update_Fetch_witness:
  "\<exists>p'. Update 0 7 (sample_struct 7 5) 1 sample_param = Inr (0, p') \<and> container_ok p' \<and>
     contents p' = (contents sample_param)(7 := [sample_struct 7 1, sample_struct 7 5]) \<and>
     Fetch 7 (sample_struct 7 0) 1 p' = Inr (0, sample_struct 7 5)"
proof -
  have n: "EntryCount 7 sample_param = 2"
    by (simp add: EntryCount_def sample_param_def)
  show ?thesis
    using Update_Fetch [OF sample_ok(1,2), of 7 "sample_struct 7 5" 1 "sample_struct 7 0" 0]
    by (simp add: n sample_contents kDataDescSize_def)
qed

text \<open>
  C23. Serialisation: acquiring the raw bytes of a well-formed container rebuilds its map
  exactly, without reading outside the bytes, whatever the receiving container held before.
  A copy made by the copy constructor therefore holds the same structures under every tag,
  and leaves the source as it was.
\<close>

theorem Acquire_rebuilds:
  assumes "container_ok p" "\<not> locked p" "\<not> locked q"
  shows "\<exists>q'. Acquire np (data_buffer p) q = Inr (0, q') \<and> container_ok q' \<and>
     data_map q' = data_map p \<and> data_buffer q' = data_buffer p \<and> contents q' = contents p \<and>
     (\<exists>c. ExtraParam_copy np p = Inr (c, p) \<and> contents c = contents p \<and> container_ok c)"
proof -
  from assms(1) obtain es where rep: "represents p es" by (auto simp: container_ok_def)
  let ?q = "\<lambda>q. q\<lparr>data_map := data_map p, data_buffer := data_buffer p, data_ptr := np\<rparr>"
  have same: "contents (?q q) = contents p" "container_ok (?q q)" for q
    using rep by (auto simp: contents_def fun_eq_iff container_ok_def represents_def cong: option.case_cong)
  have "ExtraParam_copy np p = Inr (?q ExtraParam, p)"
    using Acquire_represents [OF rep, of ExtraParam np] assms(2)
    by (simp add: ExtraParam_copy_def GetAndLock_def ReturnAndUnlock_def ExtraParam_def)
  then show ?thesis
    using Acquire_represents [OF rep assms(3), of np] same
    by (intro exI [of _ "?q q"] exI [of _ "?q ExtraParam"] conjI) simp_all
qed

theorem Acquire_rebuilds_witness:
  "\<exists>q'. Acquire 8 (data_buffer sample_param) ExtraParam = Inr (0, q') \<and>
     data_map q' = [(3, [17]), (7, [0, 34])] \<and>
     contents q' 7 = [sample_struct 7 1, sample_struct 7 9]"
proof -
  have "\<not> locked ExtraParam" by (simp add: ExtraParam_def)
  from Acquire_rebuilds [OF sample_ok(1,2) this, of 8]
  obtain q' where q: "Acquire 8 (data_buffer sample_param) ExtraParam = Inr (0, q')"
    "data_map q' = data_map sample_param" "contents q' = contents sample_param" by blast
  moreover have "data_map sample_param = [(3, [17]), (7, [0, 34])]" by (simp add: sample_param_def)
  ultimately show ?thesis using sample_contents by auto
qed

text \<open>
  Packing several structures: storing a list of structures of one tag one after the
  other, from the first free entry number, succeeds and appends exactly them, in order, to
  what the tag holds; no other tag changes.
\<close>

theorem store_all_in_order:
  assumes "open_ok p" "\<forall>d \<in> set ds. struct_ok t d" "EntryCount t p + length ds \<le> 2 ^ 32"
  shows "\<exists>p'. params.store_all t (EntryCount t p) ds p = Some p' \<and> open_ok p' \<and>
     contents p' = (contents p)(t := contents p t @ ds)"
  using params.store_all_appends [of p ds t] assms by (simp add: length_contents)

theorem store_all_in_order_witness:
  "\<exists>p'. params.store_all 3 1 [sample_struct 3 4, sample_struct 3 5] sample_param = Some p' \<and>
     contents p' 3 = [sample_struct 3 2, sample_struct 3 4, sample_struct 3 5]"
proof -
  have n: "EntryCount 3 sample_param = 1" by (simp add: EntryCount_def sample_param_def)
  have s: "\<forall>d \<in> set [sample_struct 3 4, sample_struct 3 5]. struct_ok 3 d"
    by (simp add: struct_ok_def kDataDescSize_def)
  obtain p' where "params.store_all 3 (EntryCount 3 sample_param)
      [sample_struct 3 4, sample_struct 3 5] sample_param = Some p'"
    "contents p' = (contents sample_param)(3 := contents sample_param 3 @
       [sample_struct 3 4, sample_struct 3 5])"
    using store_all_in_order [OF sample_ok(3) s] n by auto
  with n show ?thesis by (intro exI [of _ p']) (simp add: sample_contents)
qed

text \<open>
  Refusals: a locked container refuses every operation that would change it with
  \<open>-EPERM\<close> and stays as it is; an update whose structure does not carry the tag, or whose
  entry number leaves a gap, is refused with \<open>-EINVAL\<close> and changes nothing; a fetch of a
  tag that is absent returns \<open>-ENOENT\<close>.
\<close>

theorem refusals:
  assumes "container_ok p"
  shows "(locked p \<longrightarrow>
      Clear p = (- EPERM, p) \<and> Acquire np bs p = Inr (- EPERM, p) \<and>
      Remove t i p = Inr (- EPERM, p) \<and> Erase t p = Inr (- EPERM, p) \<and>
      (IsValidTag t d \<longrightarrow> Update np t d i p = Inr (- EPERM, p))) \<and>
    (\<not> IsValidTag t d \<longrightarrow> Update np t d i p = Inr (- EINVAL, p)) \<and>
    (\<not> locked p \<and> EntryCount t p < unat i \<longrightarrow> Update np t d i p = Inr (- EINVAL, p)) \<and>
    (IsValidTag t d \<and> \<not> Exists t p \<longrightarrow> Fetch t d i p = Inr (- ENOENT, d))"
  using FillDataEntry_gap [OF assms, of t i np d]
  by (auto simp: Clear_def Acquire_def Remove_def RemoveDataEntry_def Erase_def EraseDataTag_def
      Update_def FillDataEntry_def Fetch_def Exists_def)

theorem refusals_witness:
  "Update 0 7 (sample_struct 7 5) 3 sample_param = Inr (- EINVAL, sample_param) \<and>
   Fetch 9 (sample_struct 9 5) 0 sample_param = Inr (- ENOENT, sample_struct 9 5)"
proof -
  have "EntryCount 7 sample_param < unat (3 :: u32)" "\<not> Exists 9 sample_param"
    by (simp_all add: EntryCount_def Exists_def sample_param_def)
  then show ?thesis
    using refusals [OF sample_ok(1), of 0 "[]" 7 3 "sample_struct 7 5"]
      refusals [OF sample_ok(1), of 0 "[]" 9 0 "sample_struct 9 5"] sample_ok(2)
    by simp
qed

text \<open>
  Removal computes the end of the erased range from the size of the entry alone, without
  its offset: removing an entry of a well-formed container whose offset is larger than its
  size, descriptor included, erases an invalid range, so the outcome is undefined, although
  the entry exists and the container is not locked.
\<close>

theorem Remove_invalid_range:
  assumes "represents p (pre @ x # post)" "\<not> locked p"
    and "length (e_bytes x) < length (encode pre)"
  shows "Remove (e_tag x) (e_id x) p = Inl Undefined"
proof -
  let ?es = "pre @ x # post" and ?t = "e_tag x"
  have fx: "e_fits x" and id: "unat (e_id x) = length (tagged ?t pre)"
    using assms(1) by (auto simp: represents_def valid_entries_def numbered_def)
  have find: "kv_find (data_map p) ?t = Some (offsets ?t 0 ?es)"
    using assms(1) by (simp add: represents_def indexes_def)
  have off: "offsets ?t 0 ?es ! unat (e_id x) = length (encode pre)"
    by (simp add: id nth_append)
  have rd: "read_desc (data_buffer p) (length (encode pre)) = Some (e_desc x)"
    using read_desc_bytes [of "encode pre" "e_desc x" "e_data x @ encode post"] assms(1)
    by (simp add: represents_def e_bytes_def)
  have sz: "unat (data_size (e_desc x) + of_nat kDataDescSize) = length (e_bytes x)"
    using fx by (simp add: e_desc_def e_fits_def unat_of_nat flip: of_nat_add)
  have er: "erase_range (data_buffer p) (length (encode pre)) (length (e_bytes x)) = None"
    using assms(3) by (simp add: erase_range_def)
  have lt: "\<not> length (offsets ?t 0 ?es) \<le> unat (e_id x)" by (simp add: id)
  show ?thesis
    unfolding Remove_def RemoveDataEntry_def find option.case Let_def off rd sz er
    using assms(2) lt by (simp only: if_False off rd sz er option.case)
qed

theorem Remove_invalid_range_witness:
  "Remove 7 1 sample_param = Inl Undefined"
proof -
  have "represents sample_param (take 2 sample_entries @
      \<lparr>e_tag = 7, e_id = 1, e_data = sample_struct 7 9\<rparr> # [])"
    using sample_represents by (simp add: sample_entries_def)
  from Remove_invalid_range [OF this sample_ok(2)] show ?thesis
    by (simp add: sample_entries_def kDataDescSize_def)
qed

end
