(* ===== verification/Smooth_Zoom.thy ===== *)
theory Smooth_Zoom
  imports Prelude "HOL-Library.Signed_Division"
begin

text \<open>
  The smooth zoom of the streaming requests, \<^verbatim>\<open>Camera3SmoothZoom\<close>: it replaces the
  crop region of a request by one that moves to the requested region in steps. Source:
  \<^verbatim>\<open>common/cameraadaptor/qmmf_camera3_smooth_zoom.{h,cc}\<close>. Single precision numbers
  are their 32-bit patterns and their operations a parameter, as are the operations of
  \<^verbatim>\<open>CameraMetadata\<close>. Pixel coordinates are \<^verbatim>\<open>int32_t\<close>; the code relies on the
  coordinates of a sensor being far from the limits of the type, and they are integers here.
\<close>

section \<open>Parameters: metadata and single precision numbers\<close>

text \<open>The tags the code uses, among the others of the platform.\<close>

datatype tag = ANDROID_SENSOR_INFO_ACTIVE_ARRAY_SIZE | ANDROID_SCALER_CROP_REGION
  | ANDROID_REQUEST_PARTIAL_RESULT_COUNT | ANDROID_REQUEST_AVAILABLE_CAPABILITIES
  | ANDROID_SCALER_AVAILABLE_STREAM_CONFIGURATIONS | ANDROID_JPEG_MAX_SIZE
  | ANDROID_REQUEST_FRAME_COUNT | ANDROID_REQUEST_ID | ANDROID_REQUEST_OUTPUT_STREAMS
  | ANDROID_REQUEST_INPUT_STREAMS | ANDROID_SENSOR_TIMESTAMP | ANDROID_CONTROL_AE_TARGET_FPS_RANGE
  | ANDROID_SENSOR_FRAME_DURATION | ANDROID_CONTROL_AE_STATE | ANDROID_CONTROL_AWB_MODE
  | ANDROID_CONTROL_AF_MODE | ANDROID_CONTROL_AWB_STATE | ANDROID_CONTROL_AF_STATE
  | ANDROID_JPEG_QUALITY | OTHER_TAG u32

text \<open>
  A metadata buffer is the list of its entries. What the code uses of \<^verbatim>\<open>CameraMetadata\<close>
  is a parameter; \<open>metadata_ok\<close> is what its documentation promises of \<^verbatim>\<open>find\<close> after
  \<^verbatim>\<open>update\<close>, \<^verbatim>\<open>erase\<close>, \<^verbatim>\<open>append\<close> and \<^verbatim>\<open>sort\<close>.
\<close>

type_synonym metadata = "(tag \<times> int list) list"

record metadata_api =
  md_find :: "metadata \<Rightarrow> tag \<Rightarrow> int list option"
  md_update :: "metadata \<Rightarrow> tag \<Rightarrow> int list \<Rightarrow> metadata"
  md_erase :: "metadata \<Rightarrow> tag \<Rightarrow> metadata"
  md_append :: "metadata \<Rightarrow> metadata \<Rightarrow> metadata"
  md_sort :: "metadata \<Rightarrow> metadata"

definition metadata_ok :: "metadata_api \<Rightarrow> bool" where
  "metadata_ok M \<longleftrightarrow>
     (\<forall>m t v u. md_find M (md_update M m t v) u = (if u = t then Some v else md_find M m u)) \<and>
     (\<forall>m t u. md_find M (md_erase M m t) u = (if u = t then None else md_find M m u)) \<and>
     (\<forall>m u. md_find M (md_sort M m) u = md_find M m u) \<and>
     (\<forall>m m' u. md_find M m u \<noteq> None \<longrightarrow> md_find M (md_append M m m') u = md_find M m u) \<and>
     (\<forall>u. md_find M [] u = None)"

lemma metadata_find_update:
  "metadata_ok M \<Longrightarrow> md_find M (md_update M m t v) u = (if u = t then Some v else md_find M m u)"
  "metadata_ok M \<Longrightarrow> md_find M (md_erase M m t) u = (if u = t then None else md_find M m u)"
  "metadata_ok M \<Longrightarrow> md_find M (md_sort M m) u = md_find M m u"
  by (simp_all add: metadata_ok_def)

lemma metadata_find_append:
  "metadata_ok M \<Longrightarrow> md_find M m u \<noteq> None \<Longrightarrow> md_find M (md_append M m m') u = md_find M m u"
  by (simp add: metadata_ok_def)

type_synonym flt = "32 word"

record float_ops =
  f_of_int :: "int \<Rightarrow> flt"
  f_add :: "flt \<Rightarrow> flt \<Rightarrow> flt"
  f_sub :: "flt \<Rightarrow> flt \<Rightarrow> flt"
  f_mul :: "flt \<Rightarrow> flt \<Rightarrow> flt"
  f_div :: "flt \<Rightarrow> flt \<Rightarrow> flt"
  f_abs :: "flt \<Rightarrow> flt"
  f_to_int :: "flt \<Rightarrow> int"
  f_nonpos :: "flt \<Rightarrow> bool"

section \<open>State\<close>

record CropData =
  left :: int
  top :: int
  cwidth :: int
  cheight :: int

record zoom =
  enable :: bool
  max_width :: int
  max_height :: int
  zoom_factor :: flt
  zoom_step_size :: flt
  zoom_step :: flt
  zoom_steps :: int
  left_offset :: flt
  top_offset :: flt
  left_step :: flt
  top_step :: flt
  crop_current :: CropData
  crop_target :: CropData

text \<open>
  The constructor: \<open>prop_step\<close> is the value of the property \<^verbatim>\<open>persist.qmmf.zoom.step\<close>
  and \<open>garbage\<close> what the member \<^verbatim>\<open>crop_target_\<close>, which is not initialised, contains.
\<close>

definition Camera3SmoothZoom :: "float_ops \<Rightarrow> flt \<Rightarrow> CropData \<Rightarrow> zoom" where
  "Camera3SmoothZoom F prop_step garbage =
     \<lparr>enable = False, max_width = 0, max_height = 0, zoom_factor = f_of_int F 1,
      zoom_step_size = prop_step, zoom_step = f_of_int F 0, zoom_steps = 0,
      left_offset = f_of_int F 0, top_offset = f_of_int F 0, left_step = f_of_int F 0,
      top_step = f_of_int F 0, crop_current = \<lparr>left = 0, top = 0, cwidth = 0, cheight = 0\<rparr>,
      crop_target = garbage\<rparr>"

definition IsEnable :: "zoom \<Rightarrow> bool" where "IsEnable z = enable z"
definition IsGoing :: "zoom \<Rightarrow> bool" where "IsGoing z \<longleftrightarrow> 0 \<le> zoom_steps z"
definition Enable :: "zoom \<Rightarrow> zoom" where "Enable z = z\<lparr>enable := True\<rparr>"
definition Disable :: "zoom \<Rightarrow> zoom" where "Disable z = z\<lparr>enable := False\<rparr>"

section \<open>Update\<close>

text \<open>The four values of a region entry; a shorter entry would be read past its end.\<close>

fun region :: "int list \<Rightarrow> CropData option" where
  "region (l # t # w # h # _) = Some \<lparr>left = l, top = t, cwidth = w, cheight = h\<rparr>"
| "region _ = None"

definition region_values :: "CropData \<Rightarrow> int list" where
  "region_values c = [left c, top c, cwidth c, cheight c]"

text \<open>Lines 71--88: the dimensions of the sensor and the first crop region.\<close>

definition init_dimensions :: "metadata_api \<Rightarrow> metadata \<Rightarrow> zoom \<Rightarrow> zoom option" where
  "init_dimensions M md z =
     (if max_width z = 0 \<or> max_height z = 0 then
        (case (case md_find M md ANDROID_SENSOR_INFO_ACTIVE_ARRAY_SIZE of
                 None \<Rightarrow> Some z
               | Some v \<Rightarrow> map_option (\<lambda>r. z\<lparr>max_width := cwidth r, max_height := cheight r\<rparr>)
                              (region v)) of
           None \<Rightarrow> None
         | Some z1 \<Rightarrow>
             (case md_find M md ANDROID_SCALER_CROP_REGION of
                None \<Rightarrow> Some z1
              | Some v \<Rightarrow> map_option (\<lambda>r. z1\<lparr>crop_current := r, crop_target := r\<rparr>) (region v)))
      else Some z)"

definition blocked :: "float_ops \<Rightarrow> zoom \<Rightarrow> bool" where
  "blocked F z \<longleftrightarrow> max_width z \<le> 0 \<or> max_height z \<le> 0 \<or> cwidth (crop_current z) \<le> 0 \<or>
     cheight (crop_current z) \<le> 0 \<or> cwidth (crop_target z) \<le> 0 \<or> cheight (crop_target z) \<le> 0 \<or>
     f_nonpos F (zoom_step_size z)"

text \<open>Lines 110--129: the requested region, cut to the sensor.\<close>

definition clamp :: "int \<Rightarrow> int \<Rightarrow> CropData \<Rightarrow> CropData" where
  "clamp mw mh r =
     (let w = (if cwidth r > mw then mw else cwidth r);
          h = (if cheight r > mh then mh else cheight r);
          l = (if left r + w > mw then mw - w else left r);
          t = (if top r + h > mh then mh - h else top r)
      in \<lparr>left = l, top = t, cwidth = w, cheight = h\<rparr>)"

text \<open>Lines 110--157: a new target and the steps to it.\<close>

definition new_target :: "float_ops \<Rightarrow> CropData \<Rightarrow> zoom \<Rightarrow> zoom" where
  "new_target F r z =
     (let tgt = clamp (max_width z) (max_height z) r;
          zoom_target = f_div F (f_of_int F (cwidth tgt)) (f_of_int F (max_width z));
          factor = f_div F (f_of_int F (cwidth (crop_current z))) (f_of_int F (max_width z));
          diff = f_sub F zoom_target factor;
          steps = f_to_int F (f_abs F (f_div F diff (zoom_step_size z)));
          z1 = z\<lparr>crop_target := tgt, zoom_factor := factor, zoom_steps := steps\<rparr>
      in if steps \<noteq> 0
         then z1\<lparr>zoom_step := f_div F diff (f_of_int F steps),
                 left_offset := f_of_int F (left (crop_current z)),
                 top_offset := f_of_int F (top (crop_current z)),
                 left_step := f_div F (f_of_int F (left tgt - left (crop_current z))) (f_of_int F steps),
                 top_step := f_div F (f_of_int F (top tgt - top (crop_current z))) (f_of_int F steps)\<rparr>
         else z1\<lparr>zoom_step := f_of_int F 0, left_step := f_of_int F 0, top_step := f_of_int F 0\<rparr>)"

text \<open>Lines 169--183: one step.\<close>

definition advance :: "float_ops \<Rightarrow> zoom \<Rightarrow> zoom" where
  "advance F z =
     (if zoom_steps z \<le> 0 then z\<lparr>crop_current := crop_target z\<rparr>
      else
        let f = f_add F (zoom_factor z) (zoom_step z);
            lo = f_add F (left_offset z) (left_step z);
            to = f_add F (top_offset z) (top_step z);
            w = f_to_int F (f_mul F (f_of_int F (max_width z)) f);
            h = (w * cheight (crop_target z)) sdiv cwidth (crop_target z)
        in z\<lparr>zoom_factor := f, left_offset := lo, top_offset := to,
             crop_current := \<lparr>left = f_to_int F lo, top = f_to_int F to, cwidth = w, cheight = h\<rparr>\<rparr>)"

definition Update :: "metadata_api \<Rightarrow> float_ops \<Rightarrow> metadata \<Rightarrow> zoom \<Rightarrow> (metadata \<times> zoom) option" where
  "Update M F md z =
     (if \<not> enable z then Some (md, z)
      else case init_dimensions M md z of
        None \<Rightarrow> None
      | Some z1 \<Rightarrow>
          if blocked F z1 then Some (md, z1)
          else
            (case (case md_find M md ANDROID_SCALER_CROP_REGION of
                     None \<Rightarrow> Some z1
                   | Some v \<Rightarrow>
                       map_option (\<lambda>r. if r \<noteq> crop_current z1 \<and> zoom_steps z1 < 0
                                       then new_target F r z1 else z1) (region v)) of
               None \<Rightarrow> None
             | Some z2 \<Rightarrow>
                 let z3 = advance F z2;
                     md1 = md_update M md ANDROID_SCALER_CROP_REGION (region_values (crop_current z3))
                 in Some (md1, if 0 \<le> zoom_steps z3 then z3\<lparr>zoom_steps := zoom_steps z3 - 1\<rparr>
                               else z3)))"

section \<open>Reaching the target\<close>

lemma clamp_inside:
  assumes "0 < mw" "0 < mh"
  shows "cwidth (clamp mw mh r) \<le> mw" "cheight (clamp mw mh r) \<le> mh"
    "left (clamp mw mh r) + cwidth (clamp mw mh r) \<le> mw"
    "top (clamp mw mh r) + cheight (clamp mw mh r) \<le> mh"
    "0 \<le> left r \<Longrightarrow> 0 \<le> left (clamp mw mh r)" "0 \<le> top r \<Longrightarrow> 0 \<le> top (clamp mw mh r)"
  using assms by (auto simp: clamp_def Let_def)

lemma clamp_fits:
  "cwidth r \<le> mw \<Longrightarrow> cheight r \<le> mh \<Longrightarrow> left r + cwidth r \<le> mw \<Longrightarrow> top r + cheight r \<le> mh \<Longrightarrow>
   clamp mw mh r = r"
  by (simp add: clamp_def Let_def)

lemma advance_frame [simp]:
  "crop_target (advance F z) = crop_target z" "zoom_steps (advance F z) = zoom_steps z"
  "max_width (advance F z) = max_width z" "max_height (advance F z) = max_height z"
  "enable (advance F z) = enable z" "zoom_step_size (advance F z) = zoom_step_size z"
  by (simp_all add: advance_def Let_def)

lemma advance_arrives: "zoom_steps z \<le> 0 \<Longrightarrow> crop_current (advance F z) = crop_target z"
  by (simp add: advance_def)

text \<open>One update while the zoom is under way: the target is kept, one step is made.\<close>

definition zoom_tick :: "float_ops \<Rightarrow> zoom \<Rightarrow> zoom" where
  "zoom_tick F z = (advance F z)\<lparr>zoom_steps := zoom_steps z - 1\<rparr>"

lemma Update_going:
  assumes "enable z" "\<not> blocked F z" "IsGoing z" "\<And>v. md_find M md ANDROID_SCALER_CROP_REGION = Some v \<Longrightarrow> 4 \<le> length v"
  shows "Update M F md z =
    Some (md_update M md ANDROID_SCALER_CROP_REGION (region_values (crop_current (advance F z))),
          zoom_tick F z)"
proof -
  have i: "init_dimensions M md z = Some z"
    using assms(2) by (auto simp: init_dimensions_def blocked_def)
  have r: "\<exists>c. region v = Some c" if "4 \<le> length v" for v
    using that by (cases v rule: region.cases) auto
  show ?thesis
  proof (cases "md_find M md ANDROID_SCALER_CROP_REGION")
    case None
    then show ?thesis
      using assms(1-3) i by (simp add: Update_def zoom_tick_def IsGoing_def Let_def)
  next
    case (Some v)
    with assms(4) r obtain c where "region v = Some c" by blast
    with Some show ?thesis
      using assms(1-3) i by (simp add: Update_def zoom_tick_def IsGoing_def Let_def)
  qed
qed

lemma zoom_tick_frame [simp]:
  "crop_target (zoom_tick F z) = crop_target z" "enable (zoom_tick F z) = enable z"
  "zoom_steps (zoom_tick F z) = zoom_steps z - 1"
  by (simp_all add: zoom_tick_def)

lemma zoom_ticks_frame:
  "crop_target ((zoom_tick F ^^ n) z) = crop_target z" "enable ((zoom_tick F ^^ n) z) = enable z"
  "zoom_steps ((zoom_tick F ^^ n) z) = zoom_steps z - int n"
  by (induction n) simp_all

text \<open>Updates of a list of requests, one after the other.\<close>

primrec Updates :: "metadata_api \<Rightarrow> float_ops \<Rightarrow> metadata list \<Rightarrow> zoom \<Rightarrow> zoom option" where
  "Updates M F [] z = Some z"
| "Updates M F (md # mds) z =
     (case Update M F md z of None \<Rightarrow> None | Some (_, z1) \<Rightarrow> Updates M F mds z1)"

lemma Updates_going:
  assumes "enable z" "int (length mds) \<le> zoom_steps z + 1"
    and "\<And>k. k < length mds \<Longrightarrow> \<not> blocked F ((zoom_tick F ^^ k) z)"
    and "\<And>md v. md \<in> set mds \<Longrightarrow> md_find M md ANDROID_SCALER_CROP_REGION = Some v \<Longrightarrow> 4 \<le> length v"
  shows "Updates M F mds z = Some ((zoom_tick F ^^ length mds) z)"
  using assms
proof (induction mds arbitrary: z)
  case Nil
  then show ?case by simp
next
  case (Cons md mds)
  have "Update M F md z =
    Some (md_update M md ANDROID_SCALER_CROP_REGION (region_values (crop_current (advance F z))),
          zoom_tick F z)"
    by (rule Update_going) (use Cons.prems(1,2,4) Cons.prems(3) [of 0] in \<open>auto simp: IsGoing_def\<close>)
  moreover have "Updates M F mds (zoom_tick F z) = Some ((zoom_tick F ^^ length mds) (zoom_tick F z))"
  proof (rule Cons.IH)
    show "\<not> blocked F ((zoom_tick F ^^ k) (zoom_tick F z))" if "k < length mds" for k
      using Cons.prems(3) [of "Suc k"] that by (simp add: funpow_swap1)
  qed (use Cons.prems in auto)
  ultimately show ?case by (simp add: funpow_swap1)
qed

end
