(* ===== verification/Adaptor_State.thy ===== *)
theory Adaptor_State
  imports Stream Smooth_Zoom "HOL-Library.Monad_Syntax"
begin

text \<open>
  The state of one \<^verbatim>\<open>Camera3DeviceClient\<close> with the objects it owns: the streams by
  their addresses, the activity monitor, the request handler, the prepare handler, the
  requests in flight, and the log of the calls that leave the adaptor (client callbacks and
  HAL calls). Source: \<^verbatim>\<open>qmmf_camera3_device_client.h\<close>,
  \<^verbatim>\<open>qmmf_camera3_request_handler.h\<close>, \<^verbatim>\<open>qmmf_camera3_prepare_handler.h\<close>,
  \<^verbatim>\<open>qmmf_camera3_types.h\<close> and \<^verbatim>\<open>qmmf_camera3_internal_types.h\<close> of
  \<^verbatim>\<open>common/cameraadaptor\<close>. It also holds the operations of the device client that the
  handlers call back: the error state and the registration of pending requests.
\<close>

section \<open>Requests\<close>

record CaptureResultExtras =
  requestId :: int
  burstId :: int
  frameNumber :: u32
  partialResultCount :: int
  ex_input :: bool

definition no_extras :: CaptureResultExtras where
  "no_extras = \<lparr>requestId = 0, burstId = 0, frameNumber = 0, partialResultCount = 0, ex_input = False\<rparr>"

type_synonym pointer = nat

record CaptureRequest =
  req_metadata :: metadata
  req_streams :: "pointer list"
  resultExtras :: CaptureResultExtras
  req_input :: bool \<comment> \<open>whether the request refers to the input stream\<close>

type_synonym out_buffer = "pointer \<times> camera3_stream_buffer"

record PendingRequest =
  shutterTS :: int
  sensorTS :: int
  pr_extras :: CaptureResultExtras
  pr_status :: int
  isMetaPresent :: bool
  buffersRemaining :: int
  pendingMetadata :: metadata
  pendingBuffers :: "out_buffer list"
  partial3AReceived :: bool
  composedResult :: metadata

definition PendingRequest :: "int \<Rightarrow> CaptureResultExtras \<Rightarrow> PendingRequest" where
  "PendingRequest numBuffers extras =
     \<lparr>shutterTS = 0, sensorTS = 0, pr_extras = extras, pr_status = 0, isMetaPresent = False,
      buffersRemaining = numBuffers, pendingMetadata = [], pendingBuffers = [],
      partial3AReceived = False, composedResult = []\<rparr>"

section \<open>Components\<close>

record request_handler =
  rh_error_cb :: bool
  rh_mark_cb :: bool
  rh_set_error :: bool
  rh_hal3_device :: bool
  configuration_update :: bool
  toggle_pause_state :: bool
  paused_state :: bool
  requests :: "CaptureRequest list"
  streaming_requests :: "CaptureRequest list"
  current_request :: CaptureRequest
  old_request :: CaptureRequest
  current_frame_number :: u32
  current_input_frame_number :: u32
  streaming_last_frame_number :: int
  rh_monitor_id :: int
  batch_size :: u32
  smooth_zoom :: zoom
  reproc_requests :: "CaptureRequest list"
  run_worker :: bool
  rh_exit_pending :: bool

record prepare_handler =
  prepare_cb :: bool
  prepare_running :: bool
  abort_prepare :: bool
  prep_streams :: "pointer list"
  prepared_stream :: "pointer option"

datatype State = STATE_ERROR | STATE_NOT_INITIALIZED | STATE_CLOSED | STATE_NOT_CONFIGURED
  | STATE_CONFIGURED | STATE_RUNNING

datatype CameraErrorCode = ERROR_CAMERA_INVALID_ERROR | ERROR_CAMERA_DISCONNECTED
  | ERROR_CAMERA_DEVICE | ERROR_CAMERA_SERVICE | ERROR_CAMERA_REQUEST | ERROR_CAMERA_RESULT
  | ERROR_CAMERA_BUFFER

text \<open>Which callbacks the client has set.\<close>

record CameraClientCallbacks =
  errorCb :: bool
  idleCb :: bool
  shutterCb :: bool
  peparedCb :: bool
  resultCb :: bool

record input_stream =
  in_stream_id :: int
  in_width :: u32
  in_height :: u32
  in_format :: hal_format
  in_usage :: u32
  in_data_space :: dataspace
  in_buffers_map :: "(nat, handle) kv"
  input_buffer_cnt :: u32

record device =
  client_cb :: CameraClientCallbacks
  dev_id :: u32
  state :: State
  flush_on_going :: bool
  streams :: "(int, pointer) kv"
  deleted_streams :: "pointer list"
  next_stream_id :: int
  reconfig :: bool
  request_templates :: "(int, metadata) kv"
  camera_module :: bool
  hal_device :: bool
  number_of_cameras :: u32
  device_info :: metadata
  alloc_device :: bool
  repeating_requests :: "int list"
  current_request_ids :: "int list"
  next_request_id :: int
  next_shutter_frame_number :: u32
  next_shutter_input_frame_number :: u32
  partial_result_count :: u32
  is_partial_result_supported :: bool
  next_result_frame_number :: u32
  next_result_input_frame_number :: u32
  pause_state_notify :: bool
  current_state_updates :: "State list"
  state_listeners :: int
  is_hfr_supported :: bool
  is_raw_only :: bool
  hfr_mode_enabled :: bool
  cam_feature_flags :: u32
  fps_sensormode_index :: u32
  frame_rate_range :: "int \<times> int"
  input_stream :: input_stream
  dev_batch_size :: u32
  client_count :: u32 \<comment> \<open>a static member\<close>
  pending_requests :: "(u32, PendingRequest) kv"
  pending_error_requests :: "(u32, PendingRequest) kv"

text \<open>What the request handler hands to the HAL: settings are sent only when they changed.\<close>

record camera3_capture_request =
  cr_frame_number :: u32
  cr_settings :: "metadata option"
  cr_output_buffers :: "out_buffer list"
  cr_input_buffer :: "nat option"

datatype event =
    Ev_error CameraErrorCode CaptureResultExtras
  | Ev_idle
  | Ev_shutter CaptureResultExtras int
  | Ev_prepared int
  | Ev_result metadata CaptureResultExtras
  | Ev_buffer StreamBuffer
  | Ev_get_input
  | Ev_return_input handle int
  | Hal_request camera3_capture_request
  | Hal_configure u32 "(u32 \<times> u32) list" "(int \<times> int) option"
  | Hal_flush

record world =
  objects :: "(pointer, stream) kv"
  next_object :: pointer
  shr :: shared
  rh :: request_handler
  ph :: prepare_handler
  dev :: device
  log :: "event list"

text \<open>
  Code outside the adaptor. The HAL answers depend on what happened before, so its functions
  see the log; \<open>run_thread\<close> is the result of starting a thread, and \<open>input_buffer\<close> what the
  client's callback delivers for the input stream.
\<close>

record env =
  plat :: platform
  meta :: metadata_api
  flts :: float_ops
  uses_gbm :: bool
  local_to_gralloc :: "u32 \<Rightarrow> u32"
  gralloc_to_local :: "u32 \<Rightarrow> u32"
  run_thread :: "event list \<Rightarrow> int"
  input_buffer :: "event list \<Rightarrow> handle"
  process_capture_request :: "event list \<Rightarrow> camera3_capture_request \<Rightarrow> int"
  configure_streams :: "event list \<Rightarrow> u32 \<Rightarrow> (u32 \<times> u32) list \<Rightarrow> int \<times> (u32 \<times> u32) list"
  hal_flush :: "event list \<Rightarrow> int"
  construct_default_request_settings :: "int \<Rightarrow> metadata option"
  hw_get_module :: "int \<times> bool"
  get_number_of_cameras :: u32
  module_init :: "int option"
  vendor_tags :: "int option"
  get_camera_info :: "u32 \<Rightarrow> int \<times> metadata"
  module_open :: "u32 \<Rightarrow> int \<times> u32"
  hal_initialize :: int
  api_version_3_2 :: u32
  session_parameters :: bool \<comment> \<open>the HAL API takes session parameters\<close>
  disable_op_modes :: bool
  RAW_ONLY_MODE :: u32
  NORMAL_MODE :: u32
  HIGH_SPEED_MODE :: u32
  blob_code :: int \<comment> \<open>the value of \<^verbatim>\<open>HAL_PIXEL_FORMAT_BLOB\<close>\<close>
  jpeg_size_min :: int
  template_count :: int
  high_speed_capability :: int
  checked_containers :: bool \<comment> \<open>the containers of the platform abort on a missing key\<close>

text \<open>
  A wait on a condition variable ends with a result and the state in which the lock is held
  again; the outcomes of the successive waits at one point of the code are a list, and when
  it ends the wait times out with nothing changed.
\<close>

type_synonym waits = "world \<Rightarrow> (int \<times> world) list"

definition wait_once :: "waits \<Rightarrow> world \<Rightarrow> int \<times> world" where
  "wait_once wt w = (case wt w of [] \<Rightarrow> (- ETIMEDOUT, w) | p # _ \<Rightarrow> p)"

section \<open>Access to the stream objects\<close>

text \<open>A call on a stream object; \<open>None\<close> when the pointer does not refer to one.\<close>

definition on_stream :: "pointer \<Rightarrow> (stream \<Rightarrow> shared \<Rightarrow> 'a \<times> stream \<times> shared) \<Rightarrow> world \<Rightarrow>
    ('a \<times> world) option" where
  "on_stream p f w =
     (case kv_find (objects w) p of
        None \<Rightarrow> None
      | Some s \<Rightarrow>
          (case f s (shr w) of
             (r, s1, sh1) \<Rightarrow> Some (r, w\<lparr>objects := kv_add p s1 (objects w), shr := sh1\<rparr>)))"

definition emit :: "event \<Rightarrow> world \<Rightarrow> world" where
  "emit e w = w\<lparr>log := log w @ [e]\<rparr>"

definition upd_rh :: "(request_handler \<Rightarrow> request_handler) \<Rightarrow> world \<Rightarrow> world" where
  "upd_rh f w = w\<lparr>rh := f (rh w)\<rparr>"

definition upd_ph :: "(prepare_handler \<Rightarrow> prepare_handler) \<Rightarrow> world \<Rightarrow> world" where
  "upd_ph f w = w\<lparr>ph := f (ph w)\<rparr>"

definition upd_dev :: "(device \<Rightarrow> device) \<Rightarrow> world \<Rightarrow> world" where
  "upd_dev f w = w\<lparr>dev := f (dev w)\<rparr>"

definition upd_mon :: "(monitor \<Rightarrow> monitor) \<Rightarrow> world \<Rightarrow> world" where
  "upd_mon f w = w\<lparr>shr := (shr w)\<lparr>mon := f (mon (shr w))\<rparr>\<rparr>"

lemma upd_simps [simp]:
  "rh (upd_rh f w) = f (rh w)" "ph (upd_rh f w) = ph w" "dev (upd_rh f w) = dev w"
  "objects (upd_rh f w) = objects w" "shr (upd_rh f w) = shr w" "log (upd_rh f w) = log w"
  "next_object (upd_rh f w) = next_object w"
  "rh (upd_ph g w) = rh w" "ph (upd_ph g w) = g (ph w)" "dev (upd_ph g w) = dev w"
  "objects (upd_ph g w) = objects w" "shr (upd_ph g w) = shr w" "log (upd_ph g w) = log w"
  "next_object (upd_ph g w) = next_object w"
  "rh (upd_dev h w) = rh w" "ph (upd_dev h w) = ph w" "dev (upd_dev h w) = h (dev w)"
  "objects (upd_dev h w) = objects w" "shr (upd_dev h w) = shr w" "log (upd_dev h w) = log w"
  "next_object (upd_dev h w) = next_object w"
  "rh (upd_mon k w) = rh w" "ph (upd_mon k w) = ph w" "dev (upd_mon k w) = dev w"
  "objects (upd_mon k w) = objects w" "log (upd_mon k w) = log w"
  "shr (upd_mon k w) = (shr w)\<lparr>mon := k (mon (shr w))\<rparr>"
  "next_object (upd_mon k w) = next_object w"
  "rh (emit e w) = rh w" "ph (emit e w) = ph w" "dev (emit e w) = dev w"
  "objects (emit e w) = objects w" "shr (emit e w) = shr w" "log (emit e w) = log w @ [e]"
  "next_object (emit e w) = next_object w"
  by (simp_all add: upd_rh_def upd_ph_def upd_dev_def upd_mon_def emit_def)

text \<open>Only stream objects and what they share have changed.\<close>

definition only_streams :: "world \<Rightarrow> world \<Rightarrow> bool" where
  "only_streams w w' \<longleftrightarrow> rh w' = rh w \<and> dev w' = dev w \<and> ph w' = ph w \<and> log w' = log w"

lemma only_streams_refl [simp]: "only_streams w w"
  by (simp add: only_streams_def)

lemma only_streams_trans: "only_streams w w1 \<Longrightarrow> only_streams w1 w2 \<Longrightarrow> only_streams w w2"
  by (simp add: only_streams_def)

lemma on_stream_only: "on_stream p f w = Some (r, w') \<Longrightarrow> only_streams w w'"
  by (auto simp: on_stream_def only_streams_def split: option.splits prod.splits)

section \<open>Device operations the handlers call back\<close>

definition InternalUpdateStatusLocked :: "State \<Rightarrow> world \<Rightarrow> world" where
  "InternalUpdateStatusLocked st w =
     upd_dev (\<lambda>d. d\<lparr>state := st, current_state_updates := current_state_updates d @ [st]\<rparr>) w"

text \<open>\<open>Camera3RequestHandler::TogglePause\<close>; the flag tells whether requests are queued.\<close>

definition TogglePause :: "bool \<Rightarrow> world \<Rightarrow> bool \<times> world" where
  "TogglePause pause w =
     (\<not> (requests (rh w) = [] \<and> streaming_requests (rh w) = []),
      upd_rh (\<lambda>r. r\<lparr>toggle_pause_state := pause\<rparr>) w)"

definition SetErrorStateLockedV :: "world \<Rightarrow> world" where
  "SetErrorStateLockedV w =
     (if state (dev w) = STATE_ERROR \<or> state (dev w) = STATE_NOT_INITIALIZED \<or>
         state (dev w) = STATE_CLOSED then w
      else
        let w1 = InternalUpdateStatusLocked STATE_ERROR (snd (TogglePause True w))
        in if errorCb (client_cb (dev w1)) then emit (Ev_error ERROR_CAMERA_DEVICE no_extras) w1
           else w1)"

text \<open>
  \<open>SetErrorState\<close>, \<open>SetErrorStateV\<close> and \<open>SetErrorStateLocked\<close> differ in taking the lock and
  in how they receive the message.
\<close>

definition SetErrorState :: "world \<Rightarrow> world" where
  "SetErrorState w = SetErrorStateLockedV w"

definition MarkPendingRequest :: "u32 \<Rightarrow> int \<Rightarrow> CaptureResultExtras \<Rightarrow> world \<Rightarrow> int \<times> world" where
  "MarkPendingRequest frame numBuffers extras w =
     (let v = kv_add frame (PendingRequest numBuffers extras) (pending_requests (dev w))
      in (kv_index frame v, upd_dev (\<lambda>d. d\<lparr>pending_requests := v\<rparr>) w))"

end
