(* ===== verification/Prepare_Handler.thy ===== *)
theory Prepare_Handler
  imports Adaptor_State Stream_Props
begin

text \<open>
  The thread that allocates the buffers of streams ahead of their use,
  \<^verbatim>\<open>Camera3PrepareHandler\<close>. Source:
  \<^verbatim>\<open>common/cameraadaptor/qmmf_camera3_prepare_handler.{h,cc}\<close>. \<open>None\<close> is a call
  through a pointer to a stream that no longer exists.
\<close>

section \<open>Operations\<close>

definition Camera3PrepareHandler :: "prepare_handler" where
  "Camera3PrepareHandler =
     \<lparr>prepare_cb = False, prepare_running = False, abort_prepare = False, prep_streams = [],
      prepared_stream = None\<rparr>"

definition SetPrepareCb :: "bool \<Rightarrow> prepare_handler \<Rightarrow> prepare_handler" where
  "SetPrepareCb cb h = h\<lparr>prepare_cb := cb\<rparr>"

definition stream_BeginPrepare :: "pointer \<Rightarrow> world \<Rightarrow> (int \<times> world) option" where
  "stream_BeginPrepare p = on_stream p (\<lambda>s sh. case BeginPrepare s of (r, s1) \<Rightarrow> (r, s1, sh))"

definition stream_EndPrepare :: "pointer \<Rightarrow> world \<Rightarrow> (int \<times> world) option" where
  "stream_EndPrepare p = on_stream p (\<lambda>s sh. case EndPrepare s of (r, s1) \<Rightarrow> (r, s1, sh))"

definition stream_PrepareBuffer :: "env \<Rightarrow> pointer \<Rightarrow> world \<Rightarrow> (int \<times> world) option" where
  "stream_PrepareBuffer E p = on_stream p (PrepareBuffer (plat E))"

definition GetId :: "pointer \<Rightarrow> world \<Rightarrow> int option" where
  "GetId p w = map_option stream_id (kv_find (objects w) p)"

definition notify_prepared :: "pointer \<Rightarrow> world \<Rightarrow> world option" where
  "notify_prepared p w =
     (if prepare_cb (ph w) then map_option (\<lambda>i. emit (Ev_prepared i) w) (GetId p w) else Some w)"

definition Prepare :: "env \<Rightarrow> pointer option \<Rightarrow> world \<Rightarrow> (int \<times> world) option" where
  "Prepare E ptr w =
     (case ptr of
        None \<Rightarrow> Some (- EINVAL, w)
      | Some p \<Rightarrow> do {
          (res, w1) \<leftarrow> stream_BeginPrepare p w;
          if res = 0 then do {
            w2 \<leftarrow> notify_prepared p w1;
            Some (0, w2)
          } else if res \<noteq> - ENODATA then Some (res, w1)
          else if \<not> prepare_running (ph w1) then
            (let r = run_thread E (log w1)
             in if r \<noteq> 0 then do {
                  w2 \<leftarrow> notify_prepared p w1;
                  Some (r, w2)
                } else
                  Some (0, upd_ph (\<lambda>h. h\<lparr>abort_prepare := False, prepare_running := True,
                                        prep_streams := prep_streams h @ [p]\<rparr>) w1))
          else Some (0, upd_ph (\<lambda>h. h\<lparr>prep_streams := prep_streams h @ [p]\<rparr>) w1)
        })"

primrec EndPrepareAll :: "pointer list \<Rightarrow> world \<Rightarrow> world option" where
  "EndPrepareAll [] w = Some w"
| "EndPrepareAll (p # ps) w = do { (_, w1) \<leftarrow> stream_EndPrepare p w; EndPrepareAll ps w1 }"

definition Clear :: "world \<Rightarrow> (int \<times> world) option" where
  "Clear w = do {
     w1 \<leftarrow> EndPrepareAll (prep_streams (ph w)) w;
     Some (0, upd_ph (\<lambda>h. h\<lparr>prep_streams := [], abort_prepare := True\<rparr>) w1)
   }"

text \<open>
  One iteration of the thread: the locked choice of a stream (lines 113--130), which may end
  the iteration with the value to return, and the work on the chosen stream.
\<close>

definition ChooseStream :: "world \<Rightarrow> ((bool + pointer) \<times> world) option" where
  "ChooseStream w =
     (case prepared_stream (ph w) of
        None \<Rightarrow>
          (case prep_streams (ph w) of
             [] \<Rightarrow> Some (Inl False, upd_ph (\<lambda>h. h\<lparr>prepare_running := False\<rparr>) w)
           | p # ps \<Rightarrow>
               Some (Inr p, upd_ph (\<lambda>h. h\<lparr>prepared_stream := Some p, prep_streams := ps\<rparr>) w))
      | Some p \<Rightarrow>
          if abort_prepare (ph w) then do {
            (_, w1) \<leftarrow> stream_EndPrepare p w;
            Some (Inl True, upd_ph (\<lambda>h. h\<lparr>prepared_stream := None, abort_prepare := False\<rparr>) w1)
          } else Some (Inr p, w))"

definition PrepareChosen :: "env \<Rightarrow> pointer \<Rightarrow> world \<Rightarrow> (bool \<times> world) option" where
  "PrepareChosen E p w = do {
     (res, w1) \<leftarrow> stream_PrepareBuffer E p w;
     if res = - ENODATA then Some (True, w1)
     else do {
       w2 \<leftarrow> (if res \<noteq> 0 then map_option snd (stream_EndPrepare p w1) else Some w1);
       w3 \<leftarrow> notify_prepared p w2;
       Some (True, upd_ph (\<lambda>h. h\<lparr>prepared_stream := None\<rparr>) w3)
     }
   }"

definition ThreadLoop :: "env \<Rightarrow> world \<Rightarrow> (bool \<times> world) option" where
  "ThreadLoop E w = do {
     (c, w1) \<leftarrow> ChooseStream w;
     case c of Inl r \<Rightarrow> Some (r, w1) | Inr p \<Rightarrow> PrepareChosen E p w1
   }"

text \<open>The destructor, after the thread has been joined.\<close>

definition DestroyPrepareHandler :: "world \<Rightarrow> world option" where
  "DestroyPrepareHandler w = do {
     w1 \<leftarrow> (case prepared_stream (ph w) of
             None \<Rightarrow> Some w
           | Some p \<Rightarrow> do {
               (_, w') \<leftarrow> stream_EndPrepare p w;
               Some (upd_ph (\<lambda>h. h\<lparr>prepared_stream := None\<rparr>) w')
             });
     (_, w2) \<leftarrow> Clear w1;
     Some w2
   }"

text \<open>The main loop of the thread, for at most \<open>n\<close> iterations.\<close>

primrec MainLoop :: "env \<Rightarrow> nat \<Rightarrow> world \<Rightarrow> (bool \<times> world) option" where
  "MainLoop E 0 w = Some (True, w)"
| "MainLoop E (Suc n) w = do {
     (go, w1) \<leftarrow> ThreadLoop E w;
     if go then MainLoop E n w1 else Some (False, w1)
   }"

section \<open>What one stream operation changes\<close>

lemma on_stream_Some:
  "kv_find (objects w) p = Some s \<Longrightarrow> f s (shr w) = (r, s1, sh1) \<Longrightarrow>
   on_stream p f w = Some (r, w\<lparr>objects := kv_add p s1 (objects w), shr := sh1\<rparr>)"
  by (simp add: on_stream_def)

lemma MainLoop_add:
  "MainLoop E m w = Some (True, w1) \<Longrightarrow> MainLoop E (m + n) w = MainLoop E n w1"
proof (induction m arbitrary: w)
  case 0
  then show ?case by simp
next
  case (Suc m)
  then show ?case
    by (cases "ThreadLoop E w") (auto split: if_splits)
qed

text \<open>The frame of the preparation: what no operation of it touches.\<close>

definition same_rest :: "world \<Rightarrow> world \<Rightarrow> bool" where
  "same_rest w w' \<longleftrightarrow> rh w' = rh w \<and> dev w' = dev w \<and> mon (shr w') = mon (shr w) \<and>
     prepare_cb (ph w') = prepare_cb (ph w) \<and> kv_keyset (objects w') = kv_keyset (objects w)"

lemma same_rest_refl [simp]: "same_rest w w"
  by (simp add: same_rest_def)

lemma same_rest_trans: "same_rest w w1 \<Longrightarrow> same_rest w1 w2 \<Longrightarrow> same_rest w w2"
  by (simp add: same_rest_def)

text \<open>The counter of prepared buffers cannot wrap while a preparation is under way.\<close>

definition prep_ok :: "stream \<Rightarrow> bool" where
  "prep_ok s \<longleftrightarrow> Suc (unat (prepared_buffers_count s)) < 2 ^ 32"

lemma GetBufferLocked_spare_frame:
  assumes "GetBufferLocked P False s sh = (r, b, s', sh')"
  shows "stream_id s' = stream_id s" "mon sh' = mon sh" "status s' = status s"
    "total_buffer_count s' = total_buffer_count s"
    "prepared_buffers_count s' = prepared_buffers_count s"
  using assms
  by (auto simp: GetBufferLocked_def SelectBuffer_def split: if_splits option.splits prod.splits)

lemma PrepareBuffer_outcome:
  assumes "PrepareBuffer P s sh = (r, s', sh')" "prep_ok s"
  shows "stream_id s' = stream_id s" "mon sh' = mon sh"
    "r = - ENODATA \<Longrightarrow> status s' = STATUS_PREPARE_ACTIVE \<and> prep_ok s' \<and>
       total_buffer_count s' = total_buffer_count s \<and>
       unat (prepared_buffers_count s') = Suc (unat (prepared_buffers_count s)) \<and>
       Suc (unat (prepared_buffers_count s)) < unat (total_buffer_count s)"
    "r = 0 \<Longrightarrow> status s' = STATUS_CONFIGURED"
proof -
  obtain q b s1 sh1 where g: "GetBufferLocked P False s sh = (q, b, s1, sh1)" by (metis prod_cases4)
  note fr = GetBufferLocked_spare_frame [OF g]
  have inc: "unat (prepared_buffers_count s + 1) = Suc (unat (prepared_buffers_count s))"
    using assms(2) unfolding prep_ok_def by (simp add: unat_word_ariths(1))
  show "stream_id s' = stream_id s" "mon sh' = mon sh" "r = 0 \<Longrightarrow> status s' = STATUS_CONFIGURED"
    using assms(1) g fr
    by (auto simp: PrepareBuffer_def EndPrepareLocked_def Let_def split: if_splits)
  assume "r = - ENODATA"
  with assms(1) g fr have st: "status s' = STATUS_PREPARE_ACTIVE" "total_buffer_count s' = total_buffer_count s"
    "prepared_buffers_count s' = prepared_buffers_count s + 1"
    "prepared_buffers_count s + 1 < total_buffer_count s"
    by (auto simp: PrepareBuffer_def EndPrepareLocked_def Let_def split: if_splits)
  moreover have "Suc (unat (prepared_buffers_count s)) < unat (total_buffer_count s)"
    using st(4) inc by (simp add: word_less_nat_alt)
  moreover have "unat (total_buffer_count s) < 2 ^ 32"
    using unsigned_less [of "total_buffer_count s"] by simp
  ultimately show "status s' = STATUS_PREPARE_ACTIVE \<and> prep_ok s' \<and>
       total_buffer_count s' = total_buffer_count s \<and>
       unat (prepared_buffers_count s') = Suc (unat (prepared_buffers_count s)) \<and>
       Suc (unat (prepared_buffers_count s)) < unat (total_buffer_count s)"
    using inc by (simp add: prep_ok_def)
qed

section \<open>Serving the queue\<close>

text \<open>
  A stream being served: after enough iterations the client has been told, no other stream
  and nothing else has changed, and the stream is not under preparation any more.
\<close>

definition served :: "pointer \<Rightarrow> world \<Rightarrow> world \<Rightarrow> bool" where
  "served p w w' \<longleftrightarrow> same_rest w w' \<and> prepared_stream (ph w') = None \<and>
     prep_streams (ph w') = prep_streams (ph w) \<and> abort_prepare (ph w') = abort_prepare (ph w) \<and>
     prepare_running (ph w') = prepare_running (ph w) \<and> kv_wf (objects w') \<and>
     log w' = log w @ (if prepare_cb (ph w) then [Ev_prepared (the (GetId p w))] else []) \<and>
     (\<forall>q. q \<noteq> p \<longrightarrow> kv_find (objects w') q = kv_find (objects w) q) \<and>
     (\<exists>s. kv_find (objects w') p = Some s \<and> status s \<noteq> STATUS_PREPARE_ACTIVE \<and>
          Some (stream_id s) = GetId p w)"

lemma EndPrepare_frame:
  assumes "EndPrepare s = (r, s')"
  shows "stream_id s' = stream_id s" "status s' \<noteq> STATUS_PREPARE_ACTIVE"
  using assms by (auto simp: EndPrepare_def EndPrepareLocked_def split: if_splits)

lemma PrepareChosen_more:
  assumes "kv_find (objects w) p = Some s" "PrepareBuffer (plat E) s (shr w) = (- ENODATA, s', sh')"
  shows "PrepareChosen E p w = Some (True, w\<lparr>objects := kv_add p s' (objects w), shr := sh'\<rparr>)"
  using assms by (simp add: PrepareChosen_def stream_PrepareBuffer_def on_stream_Some)

lemma PrepareChosen_done:
  assumes wf: "kv_wf (objects w)" and s: "kv_find (objects w) p = Some s" "prep_ok s"
    and pb: "PrepareBuffer (plat E) s (shr w) = (r, s', sh')" "r \<noteq> - ENODATA"
  obtains w' where "PrepareChosen E p w = Some (True, w')" "served p w w'"
proof -
  define s2 where "s2 = (if r \<noteq> 0 then snd (EndPrepare s') else s')"
  define w1 where "w1 = w\<lparr>objects := kv_add p s' (objects w), shr := sh'\<rparr>"
  define w2 where "w2 = w\<lparr>objects := kv_add p s2 (objects w), shr := sh'\<rparr>"
  note o = PrepareBuffer_outcome [OF pb(1) s(2)]
  have ids: "stream_id s2 = stream_id s"
    using o(1) EndPrepare_frame(1) [of s'] by (cases "EndPrepare s'") (auto simp: s2_def)
  have st: "status s2 \<noteq> STATUS_PREPARE_ACTIVE"
    using o(4) EndPrepare_frame(2) [of s'] by (cases "EndPrepare s'") (auto simp: s2_def)
  have kv: "kv_add p x (kv_add p y (objects w)) = kv_add p x (objects w)" for x y
    using wf by (intro kv_ext) simp_all
  have mid: "(if r \<noteq> 0 then map_option snd (stream_EndPrepare p w1) else Some w1) = Some w2"
    using wf kv by (cases "EndPrepare s'") (simp add: stream_EndPrepare_def on_stream_Some w1_def w2_def s2_def)
  have id2: "GetId p w2 = Some (stream_id s)"
    using wf ids by (simp add: GetId_def w2_def)
  define w3 where "w3 = (if prepare_cb (ph w) then emit (Ev_prepared (stream_id s)) w2 else w2)"
  have told: "notify_prepared p w2 = Some w3"
    using id2 by (simp add: notify_prepared_def w3_def w2_def)
  let ?w = "upd_ph (\<lambda>h. h\<lparr>prepared_stream := None\<rparr>) w3"
  have "PrepareChosen E p w = Some (True, ?w)"
    using pb s(1) mid told
    by (simp add: PrepareChosen_def stream_PrepareBuffer_def on_stream_Some w1_def [symmetric] del: if_split split del: if_split cong: if_cong)
  moreover have "served p w ?w"
    using wf ids st o(2) s(1)
    by (auto simp: served_def same_rest_def w3_def w2_def GetId_def kv_keyset_find)
  ultimately show thesis by (rule that)
qed

lemma ThreadLoop_chosen:
  "prepared_stream (ph w) = Some p \<Longrightarrow> \<not> abort_prepare (ph w) \<Longrightarrow> ThreadLoop E w = PrepareChosen E p w"
  by (simp add: ThreadLoop_def ChooseStream_def)

lemma served_step:
  assumes "served p w1 w'" "w1 = w\<lparr>objects := kv_add p s' (objects w), shr := sh'\<rparr>"
    "kv_wf (objects w)" "kv_find (objects w) p = Some s" "stream_id s' = stream_id s"
    "mon sh' = mon (shr w)"
  shows "served p w w'"
  using assms by (auto simp: served_def same_rest_def GetId_def kv_keyset_find)

lemma serve_stream:
  assumes "kv_wf (objects w)" "prepared_stream (ph w) = Some p" "\<not> abort_prepare (ph w)"
    and "kv_find (objects w) p = Some s" "prep_ok s"
  shows "\<exists>n w'. MainLoop E (Suc n) w = Some (True, w') \<and> served p w w'"
  using assms
proof (induction "unat (total_buffer_count s) - unat (prepared_buffers_count s)" arbitrary: w s
    rule: less_induct)
  case less
  obtain r s' sh' where pb: "PrepareBuffer (plat E) s (shr w) = (r, s', sh')" by (metis prod_cases3)
  note o = PrepareBuffer_outcome [OF pb less.prems(5)]
  note tl = ThreadLoop_chosen [OF less.prems(2,3)]
  show ?case
  proof (cases "r = - ENODATA")
    case False
    obtain w' where "PrepareChosen E p w = Some (True, w')" "served p w w'"
      by (rule PrepareChosen_done [OF less.prems(1,4,5) pb False])
    then show ?thesis using tl by (intro exI [of _ 0]) auto
  next
    case True
    define w1 where "w1 = w\<lparr>objects := kv_add p s' (objects w), shr := sh'\<rparr>"
    have step: "ThreadLoop E w = Some (True, w1)"
      using tl PrepareChosen_more less.prems(4) pb True by (simp add: w1_def)
    have "\<exists>n w'. MainLoop E (Suc n) w1 = Some (True, w') \<and> served p w1 w'"
      by (rule less.hyps [of s']) (use o(3) [OF True] less.prems in \<open>auto simp: w1_def\<close>)
    then obtain n w' where n: "MainLoop E (Suc n) w1 = Some (True, w')" "served p w1 w'" by blast
    have "served p w w'"
      using n(2) w1_def less.prems(1,4) o(1,2) by (rule served_step)
    with n(1) step show ?thesis by (intro exI [of _ "Suc n"]) (auto simp del: MainLoop.simps simp: MainLoop.simps(2) [of E "Suc n" w])
  qed
qed

definition choose_next :: "world \<Rightarrow> world" where
  "choose_next w = upd_ph (\<lambda>h. h\<lparr>prepared_stream := Some (hd (prep_streams h)),
                                prep_streams := tl (prep_streams h)\<rparr>) w"

lemma MainLoop_choose:
  assumes "prepared_stream (ph w) = None" "prep_streams (ph w) = p # ps" "\<not> abort_prepare (ph w)"
  shows "MainLoop E (Suc n) w = MainLoop E (Suc n) (choose_next w)"
proof -
  have "choose_next w = upd_ph (\<lambda>h. h\<lparr>prepared_stream := Some p, prep_streams := ps\<rparr>) w"
    using assms by (simp add: choose_next_def upd_ph_def)
  then have "ThreadLoop E w = ThreadLoop E (choose_next w)"
    using assms by (simp add: ThreadLoop_def ChooseStream_def)
  then show ?thesis by simp
qed

text \<open>The whole queue is served in its order.\<close>

lemma MainLoop_drains:
  assumes "kv_wf (objects w)" "prepared_stream (ph w) = None" "\<not> abort_prepare (ph w)"
    and "prep_streams (ph w) = ps" "distinct ps"
    and "\<forall>p \<in> set ps. \<exists>s. kv_find (objects w) p = Some s \<and> prep_ok s"
  shows "\<exists>n w'. MainLoop E n w = Some (False, w') \<and> same_rest w w' \<and> prep_streams (ph w') = [] \<and>
     prepared_stream (ph w') = None \<and> \<not> prepare_running (ph w') \<and>
     log w' = log w @ (if prepare_cb (ph w) then map (\<lambda>p. Ev_prepared (the (GetId p w))) ps else []) \<and>
     (\<forall>p \<in> set ps. \<exists>s. kv_find (objects w') p = Some s \<and> status s \<noteq> STATUS_PREPARE_ACTIVE) \<and>
     (\<forall>q. q \<notin> set ps \<longrightarrow> kv_find (objects w') q = kv_find (objects w) q)"
  using assms
proof (induction ps arbitrary: w)
  case Nil
  then have "MainLoop E 1 w = Some (False, upd_ph (\<lambda>h. h\<lparr>prepare_running := False\<rparr>) w)"
    by (simp add: ThreadLoop_def ChooseStream_def)
  then show ?case
    using Nil by (intro exI [of _ 1] exI [of _ "upd_ph (\<lambda>h. h\<lparr>prepare_running := False\<rparr>) w"])
      (simp add: same_rest_def)
next
  case (Cons p ps)
  let ?c = "choose_next w"
  from Cons.prems(6) obtain s where s: "kv_find (objects w) p = Some s" "prep_ok s" by auto
  have c: "objects ?c = objects w" "prepared_stream (ph ?c) = Some p" "prep_streams (ph ?c) = ps"
    "\<not> abort_prepare (ph ?c)" "log ?c = log w" "prepare_cb (ph ?c) = prepare_cb (ph w)"
    "GetId q ?c = GetId q w" "same_rest w ?c" for q
    using Cons.prems(3,4) by (simp_all add: choose_next_def GetId_def same_rest_def)
  obtain n w1 where n: "MainLoop E (Suc n) ?c = Some (True, w1)" "served p ?c w1"
    using serve_stream [of ?c p s E] Cons.prems(1) c s by auto
  note sv = n(2) [unfolded served_def]
  have "\<exists>n w'. MainLoop E n w1 = Some (False, w') \<and> same_rest w1 w' \<and> prep_streams (ph w') = [] \<and>
     prepared_stream (ph w') = None \<and> \<not> prepare_running (ph w') \<and>
     log w' = log w1 @ (if prepare_cb (ph w1) then map (\<lambda>p. Ev_prepared (the (GetId p w1))) ps else []) \<and>
     (\<forall>p \<in> set ps. \<exists>s. kv_find (objects w') p = Some s \<and> status s \<noteq> STATUS_PREPARE_ACTIVE) \<and>
     (\<forall>q. q \<notin> set ps \<longrightarrow> kv_find (objects w') q = kv_find (objects w1) q)"
  proof (rule Cons.IH)
    show "\<forall>p \<in> set ps. \<exists>s. kv_find (objects w1) p = Some s \<and> prep_ok s"
    proof
      fix q assume q: "q \<in> set ps"
      then have "q \<noteq> p" using Cons.prems(5) by auto
      then have "kv_find (objects w1) q = kv_find (objects w) q" using sv c(1) by simp
      with q Cons.prems(6) show "\<exists>s. kv_find (objects w1) q = Some s \<and> prep_ok s" by simp
    qed
  qed (use sv c Cons.prems(5) in simp_all)
  then obtain m w' where m: "MainLoop E m w1 = Some (False, w')" "same_rest w1 w'"
    "prep_streams (ph w') = []" "prepared_stream (ph w') = None" "\<not> prepare_running (ph w')"
    "log w' = log w1 @ (if prepare_cb (ph w1) then map (\<lambda>p. Ev_prepared (the (GetId p w1))) ps else [])"
    "\<forall>p \<in> set ps. \<exists>s. kv_find (objects w') p = Some s \<and> status s \<noteq> STATUS_PREPARE_ACTIVE"
    "\<forall>q. q \<notin> set ps \<longrightarrow> kv_find (objects w') q = kv_find (objects w1) q" by blast
  have ids: "map (\<lambda>p. Ev_prepared (the (GetId p w1))) ps = map (\<lambda>p. Ev_prepared (the (GetId p w))) ps"
    using sv c(1) Cons.prems(5) by (auto simp: GetId_def)
  have "MainLoop E (Suc n + m) w = Some (False, w')"
    using MainLoop_add [of E "Suc n" w w1 m] MainLoop_choose [of w p ps E n] n(1) m(1) Cons.prems
    by simp
  moreover have "same_rest w w'"
    using same_rest_trans c(8) sv m(2) by blast
  moreover have "log w' = log w @ (if prepare_cb (ph w)
       then map (\<lambda>p. Ev_prepared (the (GetId p w))) (p # ps) else [])"
    using m(6) sv c(5,6,7) ids by (simp add: same_rest_def)
  moreover have "\<forall>q \<in> set (p # ps). \<exists>s. kv_find (objects w') q = Some s \<and> status s \<noteq> STATUS_PREPARE_ACTIVE"
    using m(7,8) sv Cons.prems(5) by auto
  moreover have "\<forall>q. q \<notin> set (p # ps) \<longrightarrow> kv_find (objects w') q = kv_find (objects w) q"
    using m(8) sv c(1) by auto
  ultimately show ?case using m(3-5) by blast
qed

end
