(* ===== verification/Request_Handler.thy ===== *)
theory Request_Handler
  imports Prepare_Handler
begin

text \<open>
  The thread that turns queued and repeating capture requests into HAL requests,
  \<^verbatim>\<open>Camera3RequestHandler\<close>. Source:
  \<^verbatim>\<open>common/cameraadaptor/qmmf_camera3_request_handler.{h,cc}\<close>. Each method runs with the
  handler's lock held between its waits; the outcomes of the waits are given by \<open>wt\<close>.
  \<open>None\<close> is a fault: a dangling stream pointer, a division by a zero batch size, or a crop
  region entry that is too short.
\<close>

section \<open>Construction and queueing\<close>

definition NO_IN_FLIGHT_REPEATING_FRAMES :: int where "NO_IN_FLIGHT_REPEATING_FRAMES = -1"

definition ClearCaptureRequest :: "CaptureRequest \<Rightarrow> CaptureRequest" where
  "ClearCaptureRequest r =
     r\<lparr>req_streams := [], req_metadata := [], resultExtras := no_extras\<lparr>requestId := -1\<rparr>\<rparr>"

text \<open>
  \<open>garbage\<close> is what the members \<^verbatim>\<open>current_request_\<close> and \<^verbatim>\<open>old_request_\<close> contain
  before the constructor; it clears the second one only.
\<close>

definition Camera3RequestHandler :: "CaptureRequest \<Rightarrow> zoom \<Rightarrow> request_handler" where
  "Camera3RequestHandler garbage z =
     \<lparr>rh_error_cb = False, rh_mark_cb = False, rh_set_error = False, rh_hal3_device = False,
      configuration_update = False, toggle_pause_state = False, paused_state = True,
      requests = [], streaming_requests = [], current_request = garbage,
      old_request = ClearCaptureRequest garbage, current_frame_number = 0,
      current_input_frame_number = 0,
      streaming_last_frame_number = NO_IN_FLIGHT_REPEATING_FRAMES, rh_monitor_id = INVALID_ID,
      batch_size = 1, smooth_zoom = z, reproc_requests = [], run_worker = False,
      rh_exit_pending = False\<rparr>"

definition Initialize :: "bool \<Rightarrow> bool \<Rightarrow> bool \<Rightarrow> bool \<Rightarrow> world \<Rightarrow> int \<times> world" where
  "Initialize device error_cb mark_cb set_error w =
     (case AcquireMonitor (mon (shr w)) of
        (mid, m1) \<Rightarrow>
          (mid, upd_mon (\<lambda>_. m1)
             (upd_rh (\<lambda>r. r\<lparr>rh_hal3_device := device, rh_error_cb := error_cb,
                           rh_mark_cb := mark_cb, rh_set_error := set_error,
                           rh_monitor_id := mid, smooth_zoom := Enable (smooth_zoom r)\<rparr>) w)))"

definition FinishConfiguration :: "u32 \<Rightarrow> world \<Rightarrow> world" where
  "FinishConfiguration n w = upd_rh (\<lambda>r. r\<lparr>configuration_update := True, batch_size := n\<rparr>) w"

definition Resume :: "world \<Rightarrow> world" where
  "Resume w =
     (if \<not> toggle_pause_state (rh w)
      then upd_rh (\<lambda>r. r\<lparr>paused_state := False\<rparr>)
             (upd_mon (\<lambda>m. ChangeStateToActive m (rh_monitor_id (rh w))) w)
      else w)"

text \<open>The queueing operations return the status and the last frame number they report.\<close>

definition QueueRequestList :: "CaptureRequest list \<Rightarrow> world \<Rightarrow> (int \<times> int) \<times> world" where
  "QueueRequestList rs w =
     (let w1 = upd_rh (\<lambda>r. r\<lparr>requests := requests r @ rs\<rparr>) w;
          lastFrame = int (unat (current_frame_number (rh w1))) + int (length (requests (rh w1))) - 1
      in ((0, lastFrame), Resume w1))"

definition QueueReprocRequestList :: "env \<Rightarrow> CaptureRequest list \<Rightarrow> world \<Rightarrow>
    (int \<times> int option) \<times> world" where
  "QueueReprocRequestList E rs w =
     (if \<not> run_worker (rh w) \<and> run_thread E (log w) \<noteq> 0 then ((- EINTR, None), w)
      else
        let w1 = upd_rh (\<lambda>r. r\<lparr>run_worker := True, reproc_requests := reproc_requests r @ rs\<rparr>) w;
            lastFrame = int (unat (current_frame_number (rh w1))) +
                        int (length (reproc_requests (rh w1))) - 1
        in ((0, Some lastFrame), Resume w1))"

definition SetRepeatingRequests :: "CaptureRequest list \<Rightarrow> world \<Rightarrow> (int \<times> int) \<times> world" where
  "SetRepeatingRequests rs w =
     (let lastFrame = streaming_last_frame_number (rh w);
          w1 = Resume (upd_rh (\<lambda>r. r\<lparr>streaming_requests := rs\<rparr>) w)
      in ((0, lastFrame),
          upd_rh (\<lambda>r. r\<lparr>streaming_last_frame_number := NO_IN_FLIGHT_REPEATING_FRAMES\<rparr>) w1))"

definition ClearRepeatingRequests :: "world \<Rightarrow> (int \<times> int) \<times> world" where
  "ClearRepeatingRequests w =
     ((0, streaming_last_frame_number (rh w)),
      upd_rh (\<lambda>r. r\<lparr>streaming_requests := [],
                    streaming_last_frame_number := NO_IN_FLIGHT_REPEATING_FRAMES\<rparr>) w)"

definition set_frame :: "u32 \<Rightarrow> CaptureRequest \<Rightarrow> CaptureRequest" where
  "set_frame n r = r\<lparr>resultExtras := (resultExtras r)\<lparr>frameNumber := n\<rparr>\<rparr>"

primrec ReportCleared :: "CaptureRequest list \<Rightarrow> world \<Rightarrow> world" where
  "ReportCleared [] w = w"
| "ReportCleared (r # rs) w =
     ReportCleared rs
       (emit (Ev_error ERROR_CAMERA_REQUEST (resultExtras (set_frame (current_frame_number (rh w)) r)))
         (upd_rh (\<lambda>h. h\<lparr>current_frame_number := current_frame_number h + 1\<rparr>) w))"

definition Clear :: "waits \<Rightarrow> world \<Rightarrow> (int \<times> int) \<times> world" where
  "Clear wt w =
     (let w1 = upd_rh (\<lambda>h. h\<lparr>streaming_requests := []\<rparr>) w;
          w2 = (if rh_error_cb (rh w1) then ReportCleared (requests (rh w1)) w1 else w1);
          w3 = upd_rh (\<lambda>h. h\<lparr>requests := []\<rparr>) w2;
          lastFrame = streaming_last_frame_number (rh w3);
          w4 = upd_rh (\<lambda>h. h\<lparr>streaming_last_frame_number := NO_IN_FLIGHT_REPEATING_FRAMES\<rparr>) w3
      in if requestId (resultExtras (current_request (rh w4))) \<noteq> -1
         then (case wait_once wt w4 of (ret, w5) \<Rightarrow> ((ret, lastFrame), w5))
         else ((0, lastFrame), w4))"

section \<open>Pausing\<close>

definition pause_idle :: "world \<Rightarrow> world" where
  "pause_idle w =
     (if \<not> paused_state (rh w)
      then upd_mon (\<lambda>m. ChangeStateToIdle m (rh_monitor_id (rh w)))
             (upd_rh (\<lambda>h. h\<lparr>paused_state := True\<rparr>) w)
      else w)"

fun PauseLoop :: "(int \<times> world) list \<Rightarrow> world \<Rightarrow> bool \<times> world" where
  "PauseLoop ws w =
     (if \<not> toggle_pause_state (rh w) then (False, w)
      else case ws of
        [] \<Rightarrow> (True, pause_idle w)
      | (r, w1) # ws1 \<Rightarrow>
          if r = - ETIMEDOUT \<or> rh_exit_pending (rh w1) then (True, w1) else PauseLoop ws1 w1)"

declare PauseLoop.simps [simp del]

definition WaitOnPause :: "waits \<Rightarrow> world \<Rightarrow> (bool \<times> world) option" where
  "WaitOnPause wt w =
     (if batch_size (rh w) = 0 then None
      else if current_frame_number (rh w) mod batch_size (rh w) \<noteq> 0 then Some (False, w)
      else Some (PauseLoop (wt (pause_idle w)) w))"

section \<open>The next request\<close>

primrec ZoomRequests :: "env \<Rightarrow> CaptureRequest list \<Rightarrow> zoom \<Rightarrow> (CaptureRequest list \<times> zoom) option" where
  "ZoomRequests E [] z = Some ([], z)"
| "ZoomRequests E (r # rs) z = do {
     (md, z1) \<leftarrow> Smooth_Zoom.Update (meta E) (flts E) (req_metadata r) z;
     (rs1, z2) \<leftarrow> ZoomRequests E rs z1;
     Some (r\<lparr>req_metadata := md\<rparr> # rs1, z2)
   }"

text \<open>Lines 510--530: the repeating requests are queued, the first one is taken.\<close>

definition TakeStreaming :: "env \<Rightarrow> world \<Rightarrow> (CaptureRequest \<times> world) option" where
  "TakeStreaming E w = do {
     (rs, z) \<leftarrow> ZoomRequests E (streaming_requests (rh w)) (smooth_zoom (rh w));
     case rs of
       [] \<Rightarrow> None
     | r # rest \<Rightarrow>
         Some (set_frame (current_frame_number (rh w)) r,
           upd_rh (\<lambda>h. h\<lparr>smooth_zoom := z, streaming_requests := rs,
             requests := requests h @ rest,
             streaming_last_frame_number := int (unat (current_frame_number h)) + int (length rs) - 1,
             current_frame_number := current_frame_number h + 1\<rparr>) w)
   }"

text \<open>Lines 545--568: a queued request, the first reprocessing one before the others.\<close>

fun split_first :: "('a \<Rightarrow> bool) \<Rightarrow> 'a list \<Rightarrow> ('a \<times> 'a list) option" where
  "split_first P [] = None"
| "split_first P (x # xs) =
     (if P x then Some (x, xs)
      else map_option (\<lambda>(y, ys). (y, x # ys)) (split_first P xs))"

definition TakeQueued :: "world \<Rightarrow> (CaptureRequest \<times> world) option" where
  "TakeQueued w =
     (case split_first req_input (requests (rh w)) of
        Some (r, rest) \<Rightarrow>
          Some (set_frame (current_input_frame_number (rh w)) r,
            upd_rh (\<lambda>h. h\<lparr>requests := rest,
                          current_input_frame_number := current_input_frame_number h + 1\<rparr>) w)
      | None \<Rightarrow>
          (case requests (rh w) of
             [] \<Rightarrow> None
           | r # rest \<Rightarrow>
               Some (set_frame (current_frame_number (rh w)) r,
                 upd_rh (\<lambda>h. h\<lparr>requests := rest,
                               current_frame_number := current_frame_number h + 1\<rparr>) w)))"

text \<open>Lines 570--582.\<close>

definition unpause :: "world \<Rightarrow> world" where
  "unpause w =
     upd_rh (\<lambda>h. h\<lparr>paused_state := False\<rparr>)
       (if paused_state (rh w)
        then upd_mon (\<lambda>m. ChangeStateToActive m (rh_monitor_id (rh w))) w else w)"

definition apply_configuration :: "world \<Rightarrow> world" where
  "apply_configuration w =
     (if configuration_update (rh w)
      then upd_rh (\<lambda>h. h\<lparr>old_request := ClearCaptureRequest (old_request h),
                         configuration_update := False\<rparr>) w
      else w)"

definition TakeRequest :: "env \<Rightarrow> world \<Rightarrow> (CaptureRequest \<times> world) option" where
  "TakeRequest E w = do {
     (r, w1) \<leftarrow> (if requests (rh w) = [] then TakeStreaming E w else TakeQueued w);
     Some (r, upd_rh (\<lambda>h. h\<lparr>current_request := r\<rparr>) (apply_configuration (unpause w1)))
   }"

definition no_requests :: "world \<Rightarrow> bool" where
  "no_requests w \<longleftrightarrow> requests (rh w) = [] \<and> streaming_requests (rh w) = []"

definition GetRequest :: "env \<Rightarrow> waits \<Rightarrow> world \<Rightarrow> ((int \<times> CaptureRequest option) \<times> world) option" where
  "GetRequest E wt w =
     (let take = (\<lambda>w. map_option (\<lambda>(r, w1). ((0, Some r), w1)) (TakeRequest E w))
      in if no_requests w
         then (case wait_once wt w of
                 (_, w1) \<Rightarrow>
                   if no_requests w1 \<or> rh_exit_pending (rh w1)
                      then Some ((- ETIMEDOUT, None), pause_idle w1)
                   else take w1)
         else take w)"

section \<open>Submission\<close>

definition stream_GetBuffer :: "env \<Rightarrow> waits \<Rightarrow> pointer \<Rightarrow> world \<Rightarrow>
    ((int \<times> camera3_stream_buffer option) \<times> world) option" where
  "stream_GetBuffer E wt p w =
     (case kv_find (objects w) p of
        None \<Rightarrow> None
      | Some s \<Rightarrow>
          let (r, w1) = (if GetBuffer_waits s then wait_once wt w else (0, w))
          in case kv_find (objects w1) p of
               None \<Rightarrow> None
             | Some s1 \<Rightarrow>
                 (case GetBuffer (plat E) (r, s1, shr w1) s (shr w) of
                    (res, b, s2, sh2) \<Rightarrow>
                      Some ((res, b), w1\<lparr>objects := kv_add p s2 (objects w1), shr := sh2\<rparr>)))"

text \<open>The loop that gets one buffer of each stream; it stops at the first failure.\<close>

primrec GetBuffers :: "env \<Rightarrow> waits \<Rightarrow> pointer list \<Rightarrow> world \<Rightarrow>
    ((int \<times> out_buffer list) \<times> world) option" where
  "GetBuffers E wt [] w = Some ((0, []), w)"
| "GetBuffers E wt (p # ps) w = do {
     ((res, b), w1) \<leftarrow> stream_GetBuffer E wt p w;
     if res \<noteq> 0 then Some ((res, []), w1)
     else do {
       ((res2, bs), w2) \<leftarrow> GetBuffers E wt ps w1;
       Some ((res2, (p, the b) # bs), w2)
     }
   }"

definition stream_ReturnBuffer :: "handle \<Rightarrow> pointer \<Rightarrow> world \<Rightarrow> (int \<times> world) option" where
  "stream_ReturnBuffer h p = on_stream p (ReturnBuffer h)"

definition take_mapped :: "nat \<Rightarrow> stream \<Rightarrow> shared \<Rightarrow> handle \<times> stream \<times> shared" where
  "take_mapped native s sh =
     (case kv_find (buffers_map s) native of None \<Rightarrow> 0 | Some h \<Rightarrow> h,
      s\<lparr>buffers_map := kv_remove native (buffers_map s)\<rparr>, sh)"

primrec ReturnAll :: "out_buffer list \<Rightarrow> world \<Rightarrow> world option" where
  "ReturnAll [] w = Some w"
| "ReturnAll (b # bs) w = do {
     (h, w1) \<leftarrow> on_stream (fst b) (take_mapped (sb_buffer (snd b))) w;
     (_, w2) \<leftarrow> stream_ReturnBuffer h (fst b) w1;
     ReturnAll bs w2
   }"

definition HandleErrorRequest :: "out_buffer list \<Rightarrow> world \<Rightarrow> world option" where
  "HandleErrorRequest bs w = do {
     w1 \<leftarrow> ReturnAll bs w;
     Some (upd_rh (\<lambda>h. h\<lparr>current_request := ClearCaptureRequest (current_request h)\<rparr>) w1)
   }"

definition map_usage :: "(u32 \<Rightarrow> u32) \<Rightarrow> pointer \<Rightarrow> world \<Rightarrow> world option" where
  "map_usage f p w =
     map_option snd (on_stream p (\<lambda>s sh. ((), s\<lparr>st_usage := f (st_usage s)\<rparr>, sh)) w)"

primrec map_usages :: "(u32 \<Rightarrow> u32) \<Rightarrow> pointer list \<Rightarrow> world \<Rightarrow> world option" where
  "map_usages f [] w = Some w"
| "map_usages f (p # ps) w = do { w1 \<leftarrow> map_usage f p w; map_usages f ps w1 }"

definition SignalError :: "world \<Rightarrow> world" where
  "SignalError w = (if rh_set_error (rh w) then SetErrorState w else w)"

text \<open>Lines 347--354: the settings go along only when the request or the zoom changed.\<close>

definition RequestSettings :: "env \<Rightarrow> CaptureRequest \<Rightarrow> world \<Rightarrow> metadata option \<times> world" where
  "RequestSettings E req w =
     (if requestId (resultExtras (old_request (rh w))) \<noteq> requestId (resultExtras req) \<or>
         IsGoing (smooth_zoom (rh w))
      then let md = md_sort (meta E) (req_metadata req)
           in (Some md, upd_rh (\<lambda>h. h\<lparr>old_request := req\<lparr>req_metadata := md\<rparr>\<rparr>) w)
      else (None, w))"

definition SubmitRequest :: "env \<Rightarrow> waits \<Rightarrow> CaptureRequest \<Rightarrow> nat option \<Rightarrow> world \<Rightarrow>
    (int \<times> world) option" where
  "SubmitRequest E wt req in_buf w = do {
     let (settings, w0) = RequestSettings E req w;
     ((res, bs), w1) \<leftarrow> GetBuffers E wt (req_streams req) w0;
     if res \<noteq> 0 then do {
       let w2 = (if rh_error_cb (rh w1)
                 then emit (Ev_error ERROR_CAMERA_REQUEST (resultExtras req)) w1 else w1);
       w3 \<leftarrow> HandleErrorRequest bs w2;
       Some (res, w3)
     } else if \<not> rh_mark_cb (rh w1) \<or> \<not> rh_hal3_device (rh w1) then do {
       w2 \<leftarrow> HandleErrorRequest bs w1;
       Some (-1, w2)
     } else do {
       w2 \<leftarrow> (if uses_gbm E then map_usages (local_to_gralloc E) (req_streams req) w1 else Some w1);
       let total = int (length bs) + (if in_buf = None then 0 else 1);
       let (mres, w3) = MarkPendingRequest (frameNumber (resultExtras req)) total (resultExtras req) w2;
       if mres < 0 then do {
         w4 \<leftarrow> HandleErrorRequest bs (SignalError w3);
         Some (mres, w4)
       } else do {
         let cr = \<lparr>cr_frame_number = frameNumber (resultExtras req), cr_settings = settings,
                   cr_output_buffers = bs, cr_input_buffer = in_buf\<rparr>;
         let hres = process_capture_request E (log w3) cr;
         let w4 = emit (Hal_request cr) w3;
         if hres \<noteq> 0 then do {
           w5 \<leftarrow> HandleErrorRequest bs (SignalError w4);
           Some (hres, w5)
         } else do {
           w5 \<leftarrow> (if uses_gbm E then map_usages (gralloc_to_local E) (req_streams req) w4 else Some w4);
           Some (hres, upd_rh (\<lambda>h. h\<lparr>current_request := ClearCaptureRequest (current_request h)\<rparr>) w5)
         }
       }
     }
   }"

section \<open>The threads\<close>

definition ThreadLoop :: "env \<Rightarrow> waits \<Rightarrow> world \<Rightarrow> (bool \<times> world) option" where
  "ThreadLoop E wt w = do {
     (waited, w1) \<leftarrow> WaitOnPause wt w;
     if waited then Some (True, w1)
     else if rh_exit_pending (rh w1) then Some (False, w1)
     else do {
       ((res, r), w2) \<leftarrow> GetRequest E wt w1;
       if res \<noteq> 0 then Some (True, w2)
       else if rh_exit_pending (rh w2) then Some (False, w2)
       else do {
         (_, w3) \<leftarrow> SubmitRequest E wt (the r) None w2;
         Some (True, w3)
       }
     }
   }"

text \<open>One reprocessing request (lines 288--330), and the batch the worker finds.\<close>

definition ReprocOne :: "env \<Rightarrow> waits \<Rightarrow> CaptureRequest \<Rightarrow> world \<Rightarrow> world option" where
  "ReprocOne E wt req w = do {
     let r = set_frame (current_input_frame_number (rh w)) req;
     let w1 = upd_rh (\<lambda>h. h\<lparr>current_input_frame_number := current_input_frame_number h + 1,
                            current_request := r\<rparr>) w;
     let w2 = apply_configuration (unpause w1);
     let hdl = input_buffer E (log w2);
     let native = buf_native (plat E) hdl;
     let w3 = emit Ev_get_input
       (upd_dev (\<lambda>d. d\<lparr>input_stream := (input_stream d)
          \<lparr>input_buffer_cnt := input_buffer_cnt (input_stream d) + 1,
           in_buffers_map := (if kv_find (in_buffers_map (input_stream d)) native = None
                              then kv_add native hdl (in_buffers_map (input_stream d))
                              else in_buffers_map (input_stream d))\<rparr>\<rparr>) w2);
     (_, w4) \<leftarrow> SubmitRequest E wt r (Some native) w3;
     Some w4
   }"

primrec ReprocAll :: "env \<Rightarrow> waits \<Rightarrow> CaptureRequest list \<Rightarrow> world \<Rightarrow> world option" where
  "ReprocAll E wt [] w = Some w"
| "ReprocAll E wt (r # rs) w = do { w1 \<leftarrow> ReprocOne E wt r w; ReprocAll E wt rs w1 }"

definition ReprocBatch :: "env \<Rightarrow> waits \<Rightarrow> world \<Rightarrow> world option" where
  "ReprocBatch E wt w = do {
     w1 \<leftarrow> ReprocAll E wt (reproc_requests (rh w)) w;
     Some (upd_rh (\<lambda>h. h\<lparr>reproc_requests := []\<rparr>) w1)
   }"

section \<open>Streams in use\<close>

fun id_among :: "int \<Rightarrow> pointer list \<Rightarrow> world \<Rightarrow> bool option" where
  "id_among i [] w = Some False"
| "id_among i (p # ps) w =
     (case GetId p w of None \<Rightarrow> None | Some j \<Rightarrow> if i = j then Some True else id_among i ps w)"

definition IsStreamActive :: "pointer \<Rightarrow> world \<Rightarrow> bool option" where
  "IsStreamActive p w = do {
     i \<leftarrow> GetId p w;
     id_among i (req_streams (current_request (rh w)) @
                 concat (map req_streams (requests (rh w))) @
                 concat (map req_streams (streaming_requests (rh w)))) w
   }"

text \<open>The destructor, after the threads have been joined.\<close>

definition DestroyRequestHandler :: "world \<Rightarrow> world" where
  "DestroyRequestHandler w =
     (let w1 = (if 0 \<le> rh_monitor_id (rh w)
                then upd_rh (\<lambda>h. h\<lparr>rh_monitor_id := INVALID_ID\<rparr>)
                       (upd_mon (\<lambda>m. ReleaseMonitor m (rh_monitor_id (rh w))) w)
                else w)
      in upd_rh (\<lambda>h. h\<lparr>run_worker := False\<rparr>) w1)"

end
