(* ===== verification/Request_Handler_Props.thy ===== *)
theory Request_Handler_Props
  imports Request_Handler
begin

text \<open>
  The order and the numbering of the requests the handler takes, and the buffers of a
  submission that fails.
\<close>

section \<open>Taking requests\<close>

text \<open>The requests that \<open>n\<close> successful calls of \<open>GetRequest\<close> return.\<close>

primrec GetRequests :: "env \<Rightarrow> waits \<Rightarrow> nat \<Rightarrow> world \<Rightarrow> (CaptureRequest list \<times> world) option" where
  "GetRequests E wt 0 w = Some ([], w)"
| "GetRequests E wt (Suc n) w =
     (case GetRequest E wt w of
        Some ((res, Some r), w1) \<Rightarrow>
          (if res = 0 then map_option (\<lambda>(rs, w2). (r # rs, w2)) (GetRequests E wt n w1) else None)
      | _ \<Rightarrow> None)"

text \<open>The requests with the frame numbers from \<open>n\<close> on.\<close>

fun number_frames :: "u32 \<Rightarrow> CaptureRequest list \<Rightarrow> CaptureRequest list" where
  "number_frames n [] = []"
| "number_frames n (r # rs) = set_frame n r # number_frames (n + 1) rs"

lemma length_number_frames [simp]: "length (number_frames n rs) = length rs"
  by (induction rs arbitrary: n) simp_all

lemma number_frames_nth:
  "k < length rs \<Longrightarrow> number_frames n rs ! k = set_frame (n + of_nat k) (rs ! k)"
proof (induction rs arbitrary: n k)
  case Nil
  then show ?case by simp
next
  case (Cons r rs)
  then show ?case by (cases k) (simp_all add: algebra_simps)
qed

lemma number_frames_append:
  "number_frames n (xs @ ys) = number_frames n xs @ number_frames (n + of_nat (length xs)) ys"
  by (induction xs arbitrary: n) (simp_all add: algebra_simps)

lemma number_frames_Nil_iff [simp]: "number_frames n rs = [] \<longleftrightarrow> rs = []"
  by (cases rs) simp_all

lemma last_number_frames:
  "rs \<noteq> [] \<Longrightarrow> last (number_frames n rs) = set_frame (n + of_nat (length rs - 1)) (last rs)"
  by (subst last_conv_nth) (simp_all add: number_frames_nth last_conv_nth)

lemma frameNumber_set_frame [simp]:
  "frameNumber (resultExtras (set_frame n r)) = n" "req_streams (set_frame n r) = req_streams r"
  "req_metadata (set_frame n r) = req_metadata r" "req_input (set_frame n r) = req_input r"
  "requestId (resultExtras (set_frame n r)) = requestId (resultExtras r)"
  by (simp_all add: set_frame_def)

text \<open>What taking a request leaves alone.\<close>

definition same_outside :: "world \<Rightarrow> world \<Rightarrow> bool" where
  "same_outside w w' \<longleftrightarrow> objects w' = objects w \<and> dev w' = dev w \<and> ph w' = ph w \<and> log w' = log w \<and>
     live (shr w') = live (shr w)"

lemma same_outside_refl [simp]: "same_outside w w"
  by (simp add: same_outside_def)

lemma same_outside_trans: "same_outside w w1 \<Longrightarrow> same_outside w1 w2 \<Longrightarrow> same_outside w w2"
  by (simp add: same_outside_def)

lemma finish_take:
  defines "fin \<equiv> \<lambda>r w. upd_rh (\<lambda>h. h\<lparr>current_request := r\<rparr>) (apply_configuration (unpause w))"
  shows "requests (rh (fin r w)) = requests (rh w)"
    "streaming_requests (rh (fin r w)) = streaming_requests (rh w)"
    "current_frame_number (rh (fin r w)) = current_frame_number (rh w)"
    "streaming_last_frame_number (rh (fin r w)) = streaming_last_frame_number (rh w)"
    "smooth_zoom (rh (fin r w)) = smooth_zoom (rh w)"
    "current_request (rh (fin r w)) = r" "\<not> paused_state (rh (fin r w))"
    "same_outside w (fin r w)"
  by (simp_all add: fin_def apply_configuration_def unpause_def same_outside_def)

lemma split_first_none: "\<forall>x \<in> set xs. \<not> P x \<Longrightarrow> split_first P xs = None"
  by (induction xs) simp_all

lemma TakeRequest_queued:
  assumes "requests (rh w) = r # rs" "\<forall>x \<in> set (r # rs). \<not> req_input x"
  obtains w' where "TakeRequest E w = Some (set_frame (current_frame_number (rh w)) r, w')"
    "requests (rh w') = rs" "current_frame_number (rh w') = current_frame_number (rh w) + 1"
    "streaming_requests (rh w') = streaming_requests (rh w)"
    "streaming_last_frame_number (rh w') = streaming_last_frame_number (rh w)"
    "same_outside w w'" "\<not> paused_state (rh w')"
proof -
  let ?w1 = "upd_rh (\<lambda>h. h\<lparr>requests := rs, current_frame_number := current_frame_number h + 1\<rparr>) w"
  let ?r = "set_frame (current_frame_number (rh w)) r"
  have "TakeQueued w = Some (?r, ?w1)"
    using assms by (simp add: TakeQueued_def split_first_none)
  then have "TakeRequest E w =
      Some (?r, upd_rh (\<lambda>h. h\<lparr>current_request := ?r\<rparr>) (apply_configuration (unpause ?w1)))"
    using assms(1) by (simp add: TakeRequest_def)
  then show thesis
    by (rule that) (use finish_take [where r = ?r and w = ?w1] in \<open>simp_all add: same_outside_def\<close>)
qed

lemma GetRequest_ready: "\<not> no_requests w \<Longrightarrow>
   GetRequest E wt w = map_option (\<lambda>(r, w1). ((0, Some r), w1)) (TakeRequest E w)"
  by (simp add: GetRequest_def)

lemma GetRequests_queue:
  assumes "requests (rh w) = rs" "\<forall>x \<in> set rs. \<not> req_input x"
  shows "\<exists>w'. GetRequests E wt (length rs) w = Some (number_frames (current_frame_number (rh w)) rs, w') \<and>
     requests (rh w') = [] \<and> current_frame_number (rh w') = current_frame_number (rh w) + of_nat (length rs) \<and>
     streaming_requests (rh w') = streaming_requests (rh w) \<and>
     streaming_last_frame_number (rh w') = streaming_last_frame_number (rh w) \<and> same_outside w w'"
  using assms
proof (induction rs arbitrary: w)
  case Nil
  then show ?case by simp
next
  case (Cons r rs)
  obtain w1 where w1: "TakeRequest E w = Some (set_frame (current_frame_number (rh w)) r, w1)"
    "requests (rh w1) = rs" "current_frame_number (rh w1) = current_frame_number (rh w) + 1"
    "streaming_requests (rh w1) = streaming_requests (rh w)"
    "streaming_last_frame_number (rh w1) = streaming_last_frame_number (rh w)" "same_outside w w1"
    using TakeRequest_queued [OF Cons.prems] by blast
  have "\<not> no_requests w" using Cons.prems by (simp add: no_requests_def)
  then have step: "GetRequest E wt w = Some ((0, Some (set_frame (current_frame_number (rh w)) r)), w1)"
    by (simp add: GetRequest_ready w1(1))
  from Cons.IH [OF w1(2)] Cons.prems(2) obtain w' where
    "GetRequests E wt (length rs) w1 = Some (number_frames (current_frame_number (rh w1)) rs, w')"
    "requests (rh w') = []" "current_frame_number (rh w') = current_frame_number (rh w1) + of_nat (length rs)"
    "streaming_requests (rh w') = streaming_requests (rh w1)"
    "streaming_last_frame_number (rh w') = streaming_last_frame_number (rh w1)" "same_outside w1 w'"
    by auto
  with step w1 show ?case
    by (auto simp: algebra_simps intro: same_outside_trans)
qed

section \<open>The repeating burst\<close>

definition regions_ok :: "env \<Rightarrow> CaptureRequest \<Rightarrow> bool" where
  "regions_ok E r \<longleftrightarrow>
     (\<forall>t v. md_find (meta E) (req_metadata r) t = Some v \<longrightarrow>
        t = ANDROID_SENSOR_INFO_ACTIVE_ARRAY_SIZE \<or> t = ANDROID_SCALER_CROP_REGION \<longrightarrow> 4 \<le> length v)"

lemma region_total: "4 \<le> length v \<Longrightarrow> \<exists>c. region v = Some c"
  by (cases v rule: region.cases) auto

lemma Update_total:
  assumes "\<And>t v. md_find M md t = Some v \<Longrightarrow>
     t = ANDROID_SENSOR_INFO_ACTIVE_ARRAY_SIZE \<or> t = ANDROID_SCALER_CROP_REGION \<Longrightarrow> 4 \<le> length v"
  shows "\<exists>md' z'. Smooth_Zoom.Update M F md z = Some (md', z')"
proof -
  have "\<exists>z1. init_dimensions M md z = Some z1"
    using assms [of ANDROID_SENSOR_INFO_ACTIVE_ARRAY_SIZE] assms [of ANDROID_SCALER_CROP_REGION]
    by (auto simp: init_dimensions_def split: option.splits dest!: region_total)
  then obtain z1 where "init_dimensions M md z = Some z1" ..
  moreover have "\<exists>z2. (case md_find M md ANDROID_SCALER_CROP_REGION of
                     None \<Rightarrow> Some z1
                   | Some v \<Rightarrow>
                       map_option (\<lambda>r. if r \<noteq> crop_current z1 \<and> zoom_steps z1 < 0
                                       then new_target F r z1 else z1) (region v)) = Some z2"
    using assms [of ANDROID_SCALER_CROP_REGION]
    by (auto split: option.splits dest!: region_total)
  ultimately show ?thesis by (auto simp: Smooth_Zoom.Update_def Let_def split: option.splits)
qed

text \<open>The zoom changes nothing of a request but its metadata.\<close>

definition but_metadata :: "CaptureRequest \<Rightarrow> pointer list \<times> CaptureResultExtras \<times> bool" where
  "but_metadata r = (req_streams r, resultExtras r, req_input r)"

lemma ZoomRequests_total:
  assumes "\<forall>r \<in> set rs. regions_ok E r"
  shows "\<exists>rs' z'. ZoomRequests E rs z = Some (rs', z') \<and> map but_metadata rs' = map but_metadata rs"
  using assms
proof (induction rs arbitrary: z)
  case Nil
  then show ?case by simp
next
  case (Cons r rs)
  then have "\<exists>md' z1. Smooth_Zoom.Update (meta E) (flts E) (req_metadata r) z = Some (md', z1)"
    by (intro Update_total) (auto simp: regions_ok_def)
  then obtain md' z1 where u: "Smooth_Zoom.Update (meta E) (flts E) (req_metadata r) z = Some (md', z1)"
    by blast
  from Cons obtain rs' z' where "ZoomRequests E rs z1 = Some (rs', z')"
    "map but_metadata rs' = map but_metadata rs" by force
  moreover have "but_metadata (r\<lparr>req_metadata := md'\<rparr>) = but_metadata r"
    by (simp add: but_metadata_def)
  ultimately show ?case using u by simp
qed

lemma GetRequests_burst:
  assumes "requests (rh w) = []" "streaming_requests (rh w) \<noteq> []"
    and "\<forall>r \<in> set (streaming_requests (rh w)). \<not> req_input r \<and> regions_ok E r"
  shows "\<exists>rs w'. GetRequests E wt (length (streaming_requests (rh w))) w =
         Some (number_frames (current_frame_number (rh w)) rs, w') \<and>
     map but_metadata rs = map but_metadata (streaming_requests (rh w)) \<and>
     streaming_requests (rh w') = rs \<and> requests (rh w') = [] \<and>
     streaming_last_frame_number (rh w') = int (unat (current_frame_number (rh w))) + int (length rs) - 1 \<and>
     current_frame_number (rh w') = current_frame_number (rh w) + of_nat (length rs) \<and> same_outside w w'"
proof -
  obtain rs z where z: "ZoomRequests E (streaming_requests (rh w)) (smooth_zoom (rh w)) = Some (rs, z)"
    "map but_metadata rs = map but_metadata (streaming_requests (rh w))"
    using ZoomRequests_total assms(3) by blast
  have len: "length rs = length (streaming_requests (rh w))"
    using z(2) map_eq_imp_length_eq by blast
  have noin: "\<forall>r \<in> set rs. \<not> req_input r"
  proof -
    have "req_input r = snd (snd (but_metadata r))" for r by (simp add: but_metadata_def)
    moreover have "set (map but_metadata rs) = set (map but_metadata (streaming_requests (rh w)))"
      using z(2) by simp
    ultimately show ?thesis using assms(3)
      by (metis (no_types, lifting) image_iff list.set_map)
  qed
  from len assms(2) obtain r rest where rs: "rs = r # rest" by (cases rs) auto
  let ?n = "current_frame_number (rh w)"
  let ?w1 = "upd_rh (\<lambda>h. h\<lparr>smooth_zoom := z, streaming_requests := rs, requests := requests h @ rest,
      streaming_last_frame_number := int (unat (current_frame_number h)) + int (length rs) - 1,
      current_frame_number := current_frame_number h + 1\<rparr>) w"
  let ?w2 = "upd_rh (\<lambda>h. h\<lparr>current_request := set_frame ?n r\<rparr>) (apply_configuration (unpause ?w1))"
  have "TakeRequest E w = Some (set_frame ?n r, ?w2)"
    using assms(1) z(1) rs by (simp add: TakeRequest_def TakeStreaming_def)
  moreover have "\<not> no_requests w" using assms(2) by (simp add: no_requests_def)
  ultimately have step: "GetRequest E wt w = Some ((0, Some (set_frame ?n r)), ?w2)"
    by (simp add: GetRequest_ready)
  note f = finish_take [where r = "set_frame ?n r" and w = ?w1]
  have q: "requests (rh ?w2) = rest" using f(1) assms(1) by simp
  from GetRequests_queue [OF q, of E wt] noin rs obtain w' where
    "GetRequests E wt (length rest) ?w2 = Some (number_frames (current_frame_number (rh ?w2)) rest, w')"
    "requests (rh w') = []" "current_frame_number (rh w') = current_frame_number (rh ?w2) + of_nat (length rest)"
    "streaming_requests (rh w') = streaming_requests (rh ?w2)"
    "streaming_last_frame_number (rh w') = streaming_last_frame_number (rh ?w2)" "same_outside ?w2 w'"
    by auto
  moreover have "same_outside w ?w2" using f(8) by (simp add: same_outside_def)
  ultimately show ?thesis
    using step f(2-4) rs z(2) len by (intro exI [of _ rs] exI [of _ w']) (auto simp flip: len simp: algebra_simps intro: same_outside_trans)
qed

section \<open>Clearing\<close>

lemma ReportCleared_spec:
  "log (ReportCleared rs w) = log w @ map (\<lambda>r. Ev_error ERROR_CAMERA_REQUEST (resultExtras r))
       (number_frames (current_frame_number (rh w)) rs)"
  "rh (ReportCleared rs w) =
     (rh w)\<lparr>current_frame_number := current_frame_number (rh w) + of_nat (length rs)\<rparr>"
  "objects (ReportCleared rs w) = objects w" "dev (ReportCleared rs w) = dev w"
  by (induction rs arbitrary: w) (simp_all add: algebra_simps)

section \<open>Buffers of a submission\<close>

definition objects_inv :: "world \<Rightarrow> bool" where
  "objects_inv w \<longleftrightarrow> kv_wf (objects w) \<and>
     (\<forall>p s. kv_find (objects w) p = Some s \<longrightarrow> stream_inv s (shr w))"

text \<open>A buffer of a stream is out: the stream knows its native handle, and it is not free.\<close>

definition lent :: "out_buffer \<Rightarrow> stream \<Rightarrow> bool" where
  "lent b s \<longleftrightarrow> (\<exists>h. kv_find (buffers_map s) (sb_buffer (snd b)) = Some h \<and>
                     kv_find (mem_alloc_buffers s) h = Some False)"

text \<open>One more buffer of the stream is out, in the hands of the HAL; nothing else changed.\<close>

definition one_more :: "stream \<Rightarrow> stream \<Rightarrow> bool" where
  "one_more s s' \<longleftrightarrow> pending_buffer_count s' = pending_buffer_count s + 1 \<and>
     hal_buffer_cnt s' = hal_buffer_cnt s + 1 \<and> client_buffer_cnt s' = client_buffer_cnt s \<and>
     status s' = status s \<and> total_buffer_count s' = total_buffer_count s \<and>
     stream_id s' = stream_id s \<and> has_callback s' = has_callback s"

definition ready :: "stream \<Rightarrow> bool" where
  "ready s \<longleftrightarrow> status s = STATUS_CONFIGURED \<and> pending_buffer_count s \<noteq> total_buffer_count s"

text \<open>
  A stream that has a buffer to give, or is not configured, or whose wait for a buffer times out with
  nothing changed: it gives a buffer or fails as it was.
\<close>

definition gives_or_fails :: "waits \<Rightarrow> stream \<Rightarrow> bool" where
  "gives_or_fails wt s \<longleftrightarrow> ready s \<or> status s \<noteq> STATUS_CONFIGURED \<or> (\<forall>w. wt w = [])"

lemma objects_inv_put:
  assumes "objects_inv w" "stream_inv s' sh'" "set (live (shr w)) \<subseteq> set (live sh')"
  shows "objects_inv (w\<lparr>objects := kv_add p s' (objects w), shr := sh'\<rparr>)"
  using assms unfolding objects_inv_def stream_inv_def by (auto split: if_splits)

lemma GetBufferLocked_success:
  assumes "stream_inv s sh" "status s = STATUS_CONFIGURED" "alloc_fresh P"
    and "GetBufferLocked P True s sh = (r, out, s', sh')"
  shows "set (live sh) \<subseteq> set (live sh')"
    "r \<noteq> 0 \<Longrightarrow> s' = s \<and> sh' = sh"
    "r = 0 \<Longrightarrow> one_more s s' \<and> (\<exists>b. out = Some b \<and> lent (p, b) s')"
proof -
  have pl: "pooled (status s)" by (simp add: assms(2))
  have wf: "kv_wf (mem_alloc_buffers s)" "kv_wf (buffers_map s)"
    using assms(1) by (simp_all add: stream_inv_def)
  show "set (live sh) \<subseteq> set (live sh')" "r \<noteq> 0 \<Longrightarrow> s' = s \<and> sh' = sh"
    "r = 0 \<Longrightarrow> one_more s s' \<and> (\<exists>b. out = Some b \<and> lent (p, b) s')"
    by (cases rule: GetBufferLocked_want_cases [OF assms(1) pl assms(4)];
        use wf in \<open>auto simp: one_more_def lent_def taken_def grown_def hal_buffer_def\<close>)+
qed

lemma stream_GetBuffer_ready:
  assumes inv: "objects_inv w" and s: "kv_find (objects w) p = Some s" "gives_or_fails wt s"
    and fr: "alloc_fresh (plat E)"
  obtains r out s' sh' where
    "stream_GetBuffer E wt p w = Some ((r, out), w\<lparr>objects := kv_add p s' (objects w), shr := sh'\<rparr>)"
    "objects_inv (w\<lparr>objects := kv_add p s' (objects w), shr := sh'\<rparr>)"
    "r \<noteq> 0 \<longrightarrow> s' = s" "r = 0 \<longrightarrow> one_more s s' \<and> (\<exists>b. out = Some b \<and> lent (p, b) s')"
proof (cases "ready s")
  case True
  have si: "stream_inv s (shr w)" using inv s(1) by (simp add: objects_inv_def)
  have st: "status s = STATUS_CONFIGURED" "\<not> GetBuffer_waits s"
    using True by (simp_all add: ready_def GetBuffer_waits_def)
  obtain r out s' sh' where g: "GetBufferLocked (plat E) True s (shr w) = (r, out, s', sh')"
    by (metis prod_cases4)
  have "stream_GetBuffer E wt p w = Some ((r, out), w\<lparr>objects := kv_add p s' (objects w), shr := sh'\<rparr>)"
    using s True st g by (simp add: stream_GetBuffer_def GetBuffer_def ready_def)
  moreover have "stream_inv s' sh'"
    by (rule GetBufferLocked_want_inv [OF si _ fr g]) (simp add: st)
  moreover note GetBufferLocked_success(1,2) [OF si st(1) fr g]
    GetBufferLocked_success(3) [OF si st(1) fr g, of p]
  ultimately show thesis using that inv objects_inv_put by metis
next
  case False
  then have "status s = STATUS_CONFIGURED \<longrightarrow> pending_buffer_count s = total_buffer_count s \<and> wt w = []"
    using s(2) by (auto simp: gives_or_fails_def ready_def)
  then obtain r where "r \<noteq> 0"
    "stream_GetBuffer E wt p w = Some ((r, None), w\<lparr>objects := kv_add p s (objects w), shr := shr w\<rparr>)"
    using s(1) by (cases "status s = STATUS_CONFIGURED")
      (auto simp: stream_GetBuffer_def GetBuffer_def GetBuffer_waits_def wait_once_def)
  moreover have "objects_inv (w\<lparr>objects := kv_add p s (objects w), shr := shr w\<rparr>)"
    using objects_inv_put [OF inv, of s "shr w" p] inv s(1) by (simp add: objects_inv_def)
  ultimately show thesis using that by blast
qed

text \<open>
  Getting one buffer from each of several distinct streams: the buffers come from the first
  streams of the list, each of these has one more buffer out, and every other stream is as
  it was.
\<close>

lemma GetBuffers_lend:
  assumes "objects_inv w" "alloc_fresh (plat E)" "distinct ps"
    and "\<forall>p \<in> set ps. \<exists>s. kv_find (objects w) p = Some s \<and> gives_or_fails wt s"
  shows "\<exists>r bs w'. GetBuffers E wt ps w = Some ((r, bs), w') \<and> objects_inv w' \<and> only_streams w w' \<and>
     map fst bs = take (length bs) ps \<and> (r = 0 \<longleftrightarrow> length bs = length ps) \<and>
     (\<forall>p. p \<notin> fst ` set bs \<longrightarrow> kv_find (objects w') p = kv_find (objects w) p) \<and>
     (\<forall>b \<in> set bs. \<exists>s s'. kv_find (objects w) (fst b) = Some s \<and>
        kv_find (objects w') (fst b) = Some s' \<and> one_more s s' \<and> lent b s')"
  using assms
proof (induction ps arbitrary: w)
  case Nil
  then show ?case by simp
next
  case (Cons p ps)
  from Cons.prems(4) obtain s where s: "kv_find (objects w) p = Some s" "gives_or_fails wt s" by auto
  obtain r out s1 sh1 where g:
    "stream_GetBuffer E wt p w = Some ((r, out), w\<lparr>objects := kv_add p s1 (objects w), shr := sh1\<rparr>)"
    "objects_inv (w\<lparr>objects := kv_add p s1 (objects w), shr := sh1\<rparr>)" "r \<noteq> 0 \<longrightarrow> s1 = s"
    "r = 0 \<longrightarrow> one_more s s1 \<and> (\<exists>b. out = Some b \<and> lent (p, b) s1)"
    by (rule stream_GetBuffer_ready [OF Cons.prems(1) s Cons.prems(2)])
  define w1 where "w1 = w\<lparr>objects := kv_add p s1 (objects w), shr := sh1\<rparr>"
  have wf: "kv_wf (objects w)" using Cons.prems(1) by (simp add: objects_inv_def)
  have find1: "kv_find (objects w1) q = (if q = p then Some s1 else kv_find (objects w) q)" for q
    using wf by (simp add: w1_def)
  have only: "only_streams w w1" by (simp add: w1_def only_streams_def)
  show ?case
  proof (cases "r = 0")
    case False
    then have "GetBuffers E wt (p # ps) w = Some ((r, []), w1)" using g(1) by (simp add: w1_def)
    moreover have "kv_find (objects w1) q = kv_find (objects w) q" for q
      using find1 g(3) False s(1) by simp
    ultimately show ?thesis using g(2) False only by (auto simp: w1_def)
  next
    case True
    from g(4) True obtain b where b: "out = Some b" "one_more s s1" "lent (p, b) s1" by blast
    have "\<forall>q \<in> set ps. \<exists>s. kv_find (objects w1) q = Some s \<and> gives_or_fails wt s"
      using Cons.prems(3,4) find1 by auto
    from Cons.IH [OF g(2) [folded w1_def] Cons.prems(2) _ this] Cons.prems(3)
    obtain r2 bs w2 where ih: "GetBuffers E wt ps w1 = Some ((r2, bs), w2)" "objects_inv w2"
      "only_streams w1 w2" "map fst bs = take (length bs) ps" "(r2 = 0) = (length bs = length ps)"
      "\<forall>q. q \<notin> fst ` set bs \<longrightarrow> kv_find (objects w2) q = kv_find (objects w1) q"
      "\<forall>b \<in> set bs. \<exists>s s'. kv_find (objects w1) (fst b) = Some s \<and>
        kv_find (objects w2) (fst b) = Some s' \<and> one_more s s' \<and> lent b s'" by auto
    have sub: "fst ` set bs \<subseteq> set ps"
      using ih(4) by (metis set_map set_take_subset)
    then have p: "p \<notin> fst ` set bs" using Cons.prems(3) by auto
    have run: "GetBuffers E wt (p # ps) w = Some ((r2, (p, b) # bs), w2)"
      using g(1) True b(1) ih(1) by (simp add: w1_def)
    have old: "kv_find (objects w1) (fst x) = kv_find (objects w) (fst x)" if "x \<in> set bs" for x
      using find1 p that by auto
    have "\<forall>x \<in> set ((p, b) # bs). \<exists>s s'. kv_find (objects w) (fst x) = Some s \<and>
        kv_find (objects w2) (fst x) = Some s' \<and> one_more s s' \<and> lent x s'"
      using ih(6,7) old p s(1) b find1 by auto
    moreover have "\<forall>q. q \<notin> fst ` set ((p, b) # bs) \<longrightarrow> kv_find (objects w2) q = kv_find (objects w) q"
      using ih(6) find1 by auto
    moreover have "map fst ((p, b) # bs) = take (length ((p, b) # bs)) (p # ps)"
      "(r2 = 0) = (length ((p, b) # bs) = length (p # ps))" "only_streams w w2"
      using ih(3-5) only only_streams_trans by auto
    ultimately show ?thesis using run ih(2) by blast
  qed
qed

section \<open>Returning them\<close>

text \<open>The buffer is back and free, the pending count as before; see the two other counters.\<close>

definition given_back :: "stream \<Rightarrow> stream \<Rightarrow> bool" where
  "given_back s s' \<longleftrightarrow> pending_buffer_count s' = pending_buffer_count s - 1 \<and>
     hal_buffer_cnt s' = hal_buffer_cnt s \<and> client_buffer_cnt s' = client_buffer_cnt s - 1 \<and>
     status s' = status s \<and> total_buffer_count s' = total_buffer_count s \<and>
     Suc (busy (mem_alloc_buffers s')) = busy (mem_alloc_buffers s)"

lemma return_one:
  assumes inv: "objects_inv w" and s: "kv_find (objects w) (fst b) = Some s" "lent b s"
  obtains h w1 w2 s' where
    "on_stream (fst b) (take_mapped (sb_buffer (snd b))) w = Some (h, w1)"
    "stream_ReturnBuffer h (fst b) w1 = Some (0, w2)"
    "objects_inv w2" "only_streams w w2" "given_back s s'"
    "\<And>q. kv_find (objects w2) q = (if q = fst b then Some s' else kv_find (objects w) q)"
proof -
  from s(2) obtain h where h: "kv_find (buffers_map s) (sb_buffer (snd b)) = Some h"
    "kv_find (mem_alloc_buffers s) h = Some False" by (auto simp: lent_def)
  have si: "stream_inv s (shr w)" and wf: "kv_wf (objects w)"
    using inv s(1) by (simp_all add: objects_inv_def)
  define s1 where "s1 = s\<lparr>buffers_map := kv_remove (sb_buffer (snd b)) (buffers_map s)\<rparr>"
  define w1 where "w1 = w\<lparr>objects := kv_add (fst b) s1 (objects w)\<rparr>"
  have si1: "stream_inv s1 (shr w)" using si by (simp add: s1_def stream_inv_def)
  have held: "kv_find (mem_alloc_buffers s1) h = Some False" using h(2) by (simp add: s1_def)
  obtain s2 sh2 where ret: "ReturnBufferLocked h s1 (shr w) = (0, s2, sh2)"
    using ReturnBufferLocked_held(1) [OF si1 held] by (metis prod_cases3 prod.inject)
  note eq = ReturnBufferLocked_held [OF si1 held, unfolded ret]
  have lv: "live sh2 = live (shr w)" using eq(1) by (auto split: if_splits)
  have gb: "given_back s s2"
    using eq(1) busy_give [of "mem_alloc_buffers s" h] si h(2)
    by (simp add: given_back_def s1_def stream_inv_def)
  define w2 where "w2 = w1\<lparr>objects := kv_add (fst b) s2 (objects w1), shr := sh2\<rparr>"
  have "stream_inv s2 sh2" by (rule ReturnBufferLocked_inv [OF si1 held ret])
  moreover have "objects_inv w1"
    using objects_inv_put [OF inv si1, of "fst b"] by (simp add: w1_def)
  ultimately have "objects_inv w2"
    unfolding w2_def by (intro objects_inv_put) (simp_all add: lv w1_def)
  moreover have "on_stream (fst b) (take_mapped (sb_buffer (snd b))) w = Some (h, w1)"
    using s(1) h(1) by (simp add: on_stream_def take_mapped_def w1_def s1_def)
  moreover have "stream_ReturnBuffer h (fst b) w1 = Some (0, w2)"
    using wf ret by (simp add: stream_ReturnBuffer_def on_stream_def ReturnBuffer_def w1_def w2_def)
  moreover have "kv_find (objects w2) q = (if q = fst b then Some s2 else kv_find (objects w) q)" for q
    using wf by (simp add: w2_def w1_def)
  ultimately show thesis using gb by (intro that [of h w1 w2 s2]) (simp_all add: w1_def w2_def only_streams_def)
qed

lemma ReturnAll_gives_back:
  assumes "objects_inv w" "distinct (map fst bs)"
    and "\<forall>b \<in> set bs. \<exists>s. kv_find (objects w) (fst b) = Some s \<and> lent b s"
  shows "\<exists>w'. ReturnAll bs w = Some w' \<and> objects_inv w' \<and> only_streams w w' \<and>
     (\<forall>p. p \<notin> fst ` set bs \<longrightarrow> kv_find (objects w') p = kv_find (objects w) p) \<and>
     (\<forall>b \<in> set bs. \<exists>s s'. kv_find (objects w) (fst b) = Some s \<and>
        kv_find (objects w') (fst b) = Some s' \<and> given_back s s')"
  using assms
proof (induction bs arbitrary: w)
  case Nil
  then show ?case by simp
next
  case (Cons b bs)
  from Cons.prems(3) obtain s where s: "kv_find (objects w) (fst b) = Some s" "lent b s" by auto
  obtain h w1 w2 s' where r: "on_stream (fst b) (take_mapped (sb_buffer (snd b))) w = Some (h, w1)"
    "stream_ReturnBuffer h (fst b) w1 = Some (0, w2)" "objects_inv w2" "only_streams w w2"
    "given_back s s'"
    "\<And>q. kv_find (objects w2) q = (if q = fst b then Some s' else kv_find (objects w) q)"
    using return_one [OF Cons.prems(1) s] by blast
  have ne: "fst x \<noteq> fst b" if "x \<in> set bs" for x
  proof
    assume "fst x = fst b"
    with that have "fst b \<in> set (map fst bs)" by (metis image_eqI list.set_map)
    with Cons.prems(2) show False by simp
  qed
  have "\<forall>x \<in> set bs. \<exists>s. kv_find (objects w2) (fst x) = Some s \<and> lent x s"
    using Cons.prems(3) r(6) ne by auto
  from Cons.IH [OF r(3) _ this] Cons.prems(2) obtain w' where ih: "ReturnAll bs w2 = Some w'"
    "objects_inv w'" "only_streams w2 w'"
    "\<forall>p. p \<notin> fst ` set bs \<longrightarrow> kv_find (objects w') p = kv_find (objects w2) p"
    "\<forall>b \<in> set bs. \<exists>s s'. kv_find (objects w2) (fst b) = Some s \<and>
        kv_find (objects w') (fst b) = Some s' \<and> given_back s s'" by auto
  have nb: "fst b \<notin> fst ` set bs" using Cons.prems(2) by simp
  have "\<forall>x \<in> set (b # bs). \<exists>s s'. kv_find (objects w) (fst x) = Some s \<and>
        kv_find (objects w') (fst x) = Some s' \<and> given_back s s'"
  proof
    fix x assume "x \<in> set (b # bs)"
    then show "\<exists>s s'. kv_find (objects w) (fst x) = Some s \<and>
        kv_find (objects w') (fst x) = Some s' \<and> given_back s s'"
    proof (cases "x = b")
      case True
      then show ?thesis using s(1) ih(4) nb r(5,6) by auto
    next
      case False
      with \<open>x \<in> set (b # bs)\<close> have "x \<in> set bs" by simp
      with ih(5) ne r(6) show ?thesis by fastforce
    qed
  qed
  moreover have "ReturnAll (b # bs) w = Some w'" using r(1,2) ih(1) by simp
  moreover have "\<forall>p. p \<notin> fst ` set (b # bs) \<longrightarrow> kv_find (objects w') p = kv_find (objects w) p"
    using ih(4) r(6) by auto
  ultimately show ?case using ih(2,3) r(4) only_streams_trans by blast
qed

section \<open>A whole submission\<close>

lemma SignalError_frame [simp]:
  "objects (SignalError w) = objects w" "shr (SignalError w) = shr w"
  "pending_requests (dev (SignalError w)) = pending_requests (dev w)"
  by (simp_all add: SignalError_def SetErrorState_def SetErrorStateLockedV_def
      InternalUpdateStatusLocked_def TogglePause_def Let_def)

lemma RequestSettings_frame:
  assumes "RequestSettings E req w = (st, w')"
  shows "objects w' = objects w" "shr w' = shr w" "dev w' = dev w" "log w' = log w" "ph w' = ph w"
    "rh w' = (rh w)\<lparr>old_request := old_request (rh w')\<rparr>"
  using assms by (auto simp: RequestSettings_def Let_def split: if_splits)

lemma objects_inv_cong: "objects w' = objects w \<Longrightarrow> shr w' = shr w \<Longrightarrow> objects_inv w' = objects_inv w"
  by (simp add: objects_inv_def)

text \<open>The streams of a request after its buffers went out and came back.\<close>

definition returned :: "world \<Rightarrow> world \<Rightarrow> pointer \<Rightarrow> bool" where
  "returned w w' p \<longleftrightarrow> (\<exists>s s'. kv_find (objects w) p = Some s \<and> kv_find (objects w') p = Some s' \<and>
     pending_buffer_count s' = pending_buffer_count s \<and>
     busy (mem_alloc_buffers s') = busy (mem_alloc_buffers s) \<and>
     (s' = s \<or> hal_buffer_cnt s' = hal_buffer_cnt s + 1 \<and>
               client_buffer_cnt s' = client_buffer_cnt s - 1))"

lemma HandleErrorRequest_returns:
  assumes w: "objects_inv w" and ps: "distinct ps" "\<forall>p \<in> set ps. \<exists>s. kv_find (objects w) p = Some s"
    and w1: "objects_inv w1" and bs: "map fst bs = take (length bs) ps"
    and same: "\<forall>p. p \<notin> fst ` set bs \<longrightarrow> kv_find (objects w1) p = kv_find (objects w) p"
    and more: "\<forall>b \<in> set bs. \<exists>s s'. kv_find (objects w) (fst b) = Some s \<and>
        kv_find (objects w1) (fst b) = Some s' \<and> one_more s s' \<and> lent b s'"
  shows "\<exists>w2. HandleErrorRequest bs w1 = Some w2 \<and> objects_inv w2 \<and> dev w2 = dev w1 \<and>
     log w2 = log w1 \<and> (\<forall>p \<in> set ps. returned w w2 p)"
proof -
  have "distinct (map fst bs)" using ps(1) bs by simp
  moreover have "\<forall>b \<in> set bs. \<exists>s. kv_find (objects w1) (fst b) = Some s \<and> lent b s"
    using more by blast
  ultimately obtain w2 where r: "ReturnAll bs w1 = Some w2" "objects_inv w2" "only_streams w1 w2"
    "\<forall>p. p \<notin> fst ` set bs \<longrightarrow> kv_find (objects w2) p = kv_find (objects w1) p"
    "\<forall>b \<in> set bs. \<exists>s s'. kv_find (objects w1) (fst b) = Some s \<and>
        kv_find (objects w2) (fst b) = Some s' \<and> given_back s s'"
    using ReturnAll_gives_back [OF w1] by blast
  have cnt: "unat (pending_buffer_count s) = busy (mem_alloc_buffers s)"
    if "objects_inv v" "kv_find (objects v) p = Some s" for v p s
    using that by (auto simp: objects_inv_def stream_inv_def)
  have "returned w w2 p" if p: "p \<in> set ps" for p
  proof (cases "p \<in> fst ` set bs")
    case True
    then obtain b where b: "b \<in> set bs" "fst b = p" by blast
    from more b obtain s s1 where s: "kv_find (objects w) p = Some s"
      "kv_find (objects w1) p = Some s1" "one_more s s1" by blast
    from r(5) b s(2) obtain s2 where s2: "kv_find (objects w2) p = Some s2" "given_back s1 s2" by force
    have "pending_buffer_count s2 = pending_buffer_count s"
      using s(3) s2(2) by (simp add: one_more_def given_back_def)
    moreover from this have "busy (mem_alloc_buffers s2) = busy (mem_alloc_buffers s)"
      using cnt [OF w s(1)] cnt [OF r(2) s2(1)] by simp
    ultimately show ?thesis
      using s s2 by (auto simp: returned_def one_more_def given_back_def)
  next
    case False
    with ps(2) p same r(4) show ?thesis by (auto simp: returned_def)
  qed
  then show ?thesis
    using r(1-3) by (intro exI [of _ "upd_rh (\<lambda>h. h\<lparr>current_request := ClearCaptureRequest (current_request h)\<rparr>) w2"])
      (auto simp: HandleErrorRequest_def only_streams_def objects_inv_def returned_def)
qed

text \<open>All streams of a request are known, distinct, configured and have a buffer to give.\<close>

definition submittable :: "env \<Rightarrow> CaptureRequest \<Rightarrow> world \<Rightarrow> bool" where
  "submittable E req w \<longleftrightarrow> objects_inv w \<and> alloc_fresh (plat E) \<and> \<not> uses_gbm E \<and>
     distinct (req_streams req) \<and>
     (\<forall>p \<in> set (req_streams req). \<exists>s. kv_find (objects w) p = Some s \<and> ready s)"

text \<open>All streams of a request are known and distinct, and each gives a buffer or fails as it was.\<close>

definition requestable :: "env \<Rightarrow> waits \<Rightarrow> CaptureRequest \<Rightarrow> world \<Rightarrow> bool" where
  "requestable E wt req w \<longleftrightarrow> objects_inv w \<and> alloc_fresh (plat E) \<and> distinct (req_streams req) \<and>
     (\<forall>p \<in> set (req_streams req). \<exists>s. kv_find (objects w) p = Some s \<and> gives_or_fails wt s)"

lemma submittable_requestable: "submittable E req w \<Longrightarrow> requestable E wt req w"
  by (auto simp: submittable_def requestable_def gives_or_fails_def)

lemma SubmitRequest_buffers:
  assumes "requestable E wt req w"
  obtains st w0 r bs w1 where "RequestSettings E req w = (st, w0)"
    "GetBuffers E wt (req_streams req) w0 = Some ((r, bs), w1)" "objects_inv w1" "only_streams w0 w1"
    "map fst bs = take (length bs) (req_streams req)" "r = 0 \<longleftrightarrow> length bs = length (req_streams req)"
    "\<forall>p. p \<notin> fst ` set bs \<longrightarrow> kv_find (objects w1) p = kv_find (objects w) p"
    "\<forall>b \<in> set bs. \<exists>s s'. kv_find (objects w) (fst b) = Some s \<and>
        kv_find (objects w1) (fst b) = Some s' \<and> one_more s s' \<and> lent b s'"
proof -
  obtain st w0 where rs: "RequestSettings E req w = (st, w0)" by fastforce
  note f = RequestSettings_frame [OF rs]
  have "objects_inv w0" using assms objects_inv_cong [OF f(1,2)] by (simp add: requestable_def)
  then obtain r bs w1 where "GetBuffers E wt (req_streams req) w0 = Some ((r, bs), w1)"
    "objects_inv w1" "only_streams w0 w1" "map fst bs = take (length bs) (req_streams req)"
    "r = 0 \<longleftrightarrow> length bs = length (req_streams req)"
    "\<forall>p. p \<notin> fst ` set bs \<longrightarrow> kv_find (objects w1) p = kv_find (objects w0) p"
    "\<forall>b \<in> set bs. \<exists>s s'. kv_find (objects w0) (fst b) = Some s \<and>
        kv_find (objects w1) (fst b) = Some s' \<and> one_more s s' \<and> lent b s'"
    using GetBuffers_lend [of w0 E "req_streams req" wt] assms f(1)
    unfolding requestable_def by auto
  then show thesis using f(1) by (intro that [OF rs]) simp_all
qed

lemma error_tail:
  "HandleErrorRequest bs v = Some w' \<Longrightarrow> objects v = objects w1 \<Longrightarrow> shr v = shr w1 \<Longrightarrow>
   \<exists>v. objects v = objects w1 \<and> shr v = shr w1 \<and> HandleErrorRequest bs v = Some w'"
  by blast

lemma SubmitRequest_total:
  assumes sub: "submittable E req w"
  shows "\<exists>res w'. SubmitRequest E wt req in_buf w = Some (res, w') \<and>
     ((\<forall>l r. process_capture_request E l r \<noteq> 0) \<longrightarrow> res \<noteq> 0)"
proof -
  obtain st w0 r bs w1 where g: "RequestSettings E req w = (st, w0)"
    "GetBuffers E wt (req_streams req) w0 = Some ((r, bs), w1)" "objects_inv w1" "only_streams w0 w1"
    "map fst bs = take (length bs) (req_streams req)" "r = 0 \<longleftrightarrow> length bs = length (req_streams req)"
    "\<forall>p. p \<notin> fst ` set bs \<longrightarrow> kv_find (objects w1) p = kv_find (objects w) p"
    "\<forall>b \<in> set bs. \<exists>s s'. kv_find (objects w) (fst b) = Some s \<and>
        kv_find (objects w1) (fst b) = Some s' \<and> one_more s s' \<and> lent b s'"
    by (rule SubmitRequest_buffers [OF submittable_requestable [OF sub, of wt]])
  from sub have w: "objects_inv w" "distinct (req_streams req)" "\<not> uses_gbm E"
    "\<forall>p \<in> set (req_streams req). \<exists>s. kv_find (objects w) p = Some s" by (auto simp: submittable_def)
  have fin: "\<exists>w2. HandleErrorRequest bs v = Some w2" if "objects v = objects w1" "shr v = shr w1" for v
    using HandleErrorRequest_returns [OF w(1,2,4), of v bs] g(3,5,7,8) that objects_inv_cong [OF that]
    by metis
  define e1 where "e1 = (if rh_error_cb (rh w1)
     then emit (Ev_error ERROR_CAMERA_REQUEST (resultExtras req)) w1 else w1)"
  obtain mres w3 where m: "MarkPendingRequest (frameNumber (resultExtras req))
      (int (length bs) + (if in_buf = None then 0 else 1)) (resultExtras req) w1 = (mres, w3)" by fastforce
  define e4 where "e4 = emit (Hal_request \<lparr>cr_frame_number = frameNumber (resultExtras req),
     cr_settings = st, cr_output_buffers = bs, cr_input_buffer = in_buf\<rparr>) w3"
  have o3: "objects w3 = objects w1" "shr w3 = shr w1"
    using m by (auto simp: MarkPendingRequest_def Let_def)
  have "objects e1 = objects w1" "shr e1 = shr w1" "objects e4 = objects w1" "shr e4 = shr w1"
    using o3 by (auto simp: e1_def e4_def)
  then obtain a b c d where "HandleErrorRequest bs e1 = Some a" "HandleErrorRequest bs w1 = Some b"
    "HandleErrorRequest bs (SignalError w3) = Some c" "HandleErrorRequest bs (SignalError e4) = Some d"
    using fin [of e1] fin [of w1] fin [of "SignalError w3"] fin [of "SignalError e4"] o3
    by auto
  then show ?thesis
    using g(1,2) w(3) m by (auto simp: SubmitRequest_def Let_def e1_def e4_def)
qed

text \<open>The conversion of the usage flags touches nothing else.\<close>

lemma map_usages_run:
  assumes "objects_inv w" "\<forall>p \<in> set ps. kv_find (objects w) p \<noteq> None"
  obtains w' where "map_usages f ps w = Some w'" "objects_inv w'"
    "\<And>p. p \<notin> set ps \<Longrightarrow> kv_find (objects w') p = kv_find (objects w) p"
    "\<And>p s. kv_find (objects w) p = Some s \<Longrightarrow> \<exists>u. kv_find (objects w') p = Some (s\<lparr>st_usage := u\<rparr>)"
proof -
  have "\<exists>w'. map_usages f ps w = Some w' \<and> objects_inv w' \<and>
      (\<forall>p. p \<notin> set ps \<longrightarrow> kv_find (objects w') p = kv_find (objects w) p) \<and>
      (\<forall>p s. kv_find (objects w) p = Some s \<longrightarrow> (\<exists>u. kv_find (objects w') p = Some (s\<lparr>st_usage := u\<rparr>)))"
    using assms
  proof (induction ps arbitrary: w)
    case Nil
    have "\<exists>u. s = s\<lparr>st_usage := u\<rparr>" for s :: stream by (rule exI [of _ "st_usage s"]) simp
    with Nil show ?case by auto
  next
    case (Cons p ps)
    then obtain s where s: "kv_find (objects w) p = Some s" by auto
    define w1 where "w1 = w\<lparr>objects := kv_add p (s\<lparr>st_usage := f (st_usage s)\<rparr>) (objects w), shr := shr w\<rparr>"
    have wf: "kv_wf (objects w)" and si: "stream_inv s (shr w)"
      using Cons.prems(1) s by (simp_all add: objects_inv_def)
    have one: "map_usage f p w = Some w1" using s by (simp add: map_usage_def on_stream_def w1_def)
    have find1: "kv_find (objects w1) q = (if q = p then Some (s\<lparr>st_usage := f (st_usage s)\<rparr>) else kv_find (objects w) q)" for q
      using wf by (simp add: w1_def)
    have "stream_inv (s\<lparr>st_usage := f (st_usage s)\<rparr>) (shr w)"
      using si by (auto simp: stream_inv_def pool_ok_def)
    then have inv1: "objects_inv w1" unfolding w1_def by (intro objects_inv_put [OF Cons.prems(1)]) auto
    have "\<forall>q \<in> set ps. kv_find (objects w1) q \<noteq> None" using Cons.prems(2) find1 by auto
    from Cons.IH [OF inv1 this] obtain w' where w': "map_usages f ps w1 = Some w'" "objects_inv w'"
      "\<forall>q. q \<notin> set ps \<longrightarrow> kv_find (objects w') q = kv_find (objects w1) q"
      "\<forall>q s. kv_find (objects w1) q = Some s \<longrightarrow> (\<exists>u. kv_find (objects w') q = Some (s\<lparr>st_usage := u\<rparr>))" by blast
    have "\<exists>u. kv_find (objects w') q = Some (r\<lparr>st_usage := u\<rparr>)" if "kv_find (objects w) q = Some r" for q r
    proof (cases "q = p")
      case True
      with that s have "kv_find (objects w1) q = Some (r\<lparr>st_usage := f (st_usage r)\<rparr>)" by (simp add: find1)
      with w'(4) show ?thesis by fastforce
    qed (use that find1 w'(4) in simp)
    moreover have "kv_find (objects w') q = kv_find (objects w) q" if "q \<notin> set (p # ps)" for q
      using that w'(3) find1 by simp
    ultimately show ?case using one w'(1,2) by (intro exI [of _ w']) simp
  qed
  then show thesis using that by blast
qed

lemma SubmitRequest_fails:
  assumes sub: "requestable E wt req w" and run: "SubmitRequest E wt req in_buf w = Some (res, w')"
    and err: "res \<noteq> 0"
  shows "\<forall>p \<in> set (req_streams req). returned w w' p" "objects_inv w'"
proof -
  obtain st w0 r bs w1 where g: "RequestSettings E req w = (st, w0)"
    "GetBuffers E wt (req_streams req) w0 = Some ((r, bs), w1)" "objects_inv w1" "only_streams w0 w1"
    "map fst bs = take (length bs) (req_streams req)" "r = 0 \<longleftrightarrow> length bs = length (req_streams req)"
    "\<forall>p. p \<notin> fst ` set bs \<longrightarrow> kv_find (objects w1) p = kv_find (objects w) p"
    "\<forall>b \<in> set bs. \<exists>s s'. kv_find (objects w) (fst b) = Some s \<and>
        kv_find (objects w1) (fst b) = Some s' \<and> one_more s s' \<and> lent b s'"
    by (rule SubmitRequest_buffers [OF sub])
  from sub have w: "objects_inv w" "distinct (req_streams req)"
    "\<forall>p \<in> set (req_streams req). \<exists>s. kv_find (objects w) p = Some s" by (auto simp: requestable_def)
  have known: "\<forall>p \<in> set (req_streams req). kv_find (objects w1) p \<noteq> None"
    using g(7,8) w(3) by (metis (no_types, lifting) image_iff option.distinct(1))
  obtain w2 where u: "map_usages (local_to_gralloc E) (req_streams req) w1 = Some w2" "objects_inv w2"
    "\<And>p. p \<notin> set (req_streams req) \<Longrightarrow> kv_find (objects w2) p = kv_find (objects w1) p"
    "\<And>p s. kv_find (objects w1) p = Some s \<Longrightarrow> \<exists>u. kv_find (objects w2) p = Some (s\<lparr>st_usage := u\<rparr>)"
    using map_usages_run [OF g(3) known, of "local_to_gralloc E"] by blast
  have fin: "\<forall>p \<in> set (req_streams req). returned w w' p" "objects_inv w'"
    if v: "objects v = objects w1 \<and> shr v = shr w1" and h: "HandleErrorRequest bs v = Some w'" for v
    using HandleErrorRequest_returns [OF w(1,2,3), of v bs] g(3,5,7,8) v h objects_inv_cong [of v w1]
    by (metis option.inject)+
  have fin2: "\<forall>p \<in> set (req_streams req). returned w w' p" "objects_inv w'"
    if v: "objects v = objects w2 \<and> shr v = shr w2" and h: "HandleErrorRequest bs v = Some w'" and r: "r = 0" for v
  proof -
    have all: "fst ` set bs = set (req_streams req)" using g(5,6) r by (metis order_refl set_map take_all_iff)
    have same: "\<forall>p. p \<notin> fst ` set bs \<longrightarrow> kv_find (objects v) p = kv_find (objects w) p"
      using g(7) u(3) v all by simp
    have more: "\<forall>b \<in> set bs. \<exists>s s'. kv_find (objects w) (fst b) = Some s \<and>
        kv_find (objects v) (fst b) = Some s' \<and> one_more s s' \<and> lent b s'"
    proof
      fix b assume "b \<in> set bs"
      with g(8) obtain s s1 where s: "kv_find (objects w) (fst b) = Some s" "kv_find (objects w1) (fst b) = Some s1"
        "one_more s s1" "lent b s1" by blast
      from u(4) [OF s(2)] obtain u where "kv_find (objects w2) (fst b) = Some (s1\<lparr>st_usage := u\<rparr>)" by blast
      with s v show "\<exists>s s'. kv_find (objects w) (fst b) = Some s \<and>
        kv_find (objects v) (fst b) = Some s' \<and> one_more s s' \<and> lent b s'" by (auto simp: one_more_def lent_def)
    qed
    have "objects_inv v" using u(2) v objects_inv_cong [of v w2] by blast
    from HandleErrorRequest_returns [OF w(1,2,3) this g(5) same more] h
    show "\<forall>p \<in> set (req_streams req). returned w w' p" "objects_inv w'" by auto
  qed
  have "(\<exists>v. objects v = objects w1 \<and> shr v = shr w1 \<and> HandleErrorRequest bs v = Some w') \<or>
    (r = 0 \<and> (\<exists>v. objects v = objects w2 \<and> shr v = shr w2 \<and> HandleErrorRequest bs v = Some w'))"
  proof (cases "uses_gbm E \<and> r = 0 \<and> rh_mark_cb (rh w1) \<and> rh_hal3_device (rh w1)")
    case True
    with run err g(1,2) u(1) show ?thesis
      by (intro disjI2) (auto simp: SubmitRequest_def MarkPendingRequest_def Let_def bind_eq_Some_conv
          split: if_splits elim!: error_tail)
  next
    case False
    with run err g(1,2) show ?thesis
      by (intro disjI1) (auto simp: SubmitRequest_def MarkPendingRequest_def Let_def bind_eq_Some_conv
          split: if_splits elim!: error_tail)
  qed
  then show "\<forall>p \<in> set (req_streams req). returned w w' p" "objects_inv w'"
    using fin fin2 by blast+
qed

lemma SubmitRequest_succeeds:
  assumes sub: "submittable E req w" and run: "SubmitRequest E wt req in_buf w = Some (0, w')"
  obtains st w0 bs where "RequestSettings E req w = (st, w0)"
    "map fst bs = req_streams req"
    "log w' = log w @ [Hal_request \<lparr>cr_frame_number = frameNumber (resultExtras req), cr_settings = st,
        cr_output_buffers = bs, cr_input_buffer = in_buf\<rparr>]"
    "dev w' = (dev w)\<lparr>pending_requests := kv_add (frameNumber (resultExtras req))
       (PendingRequest (int (length bs) + (if in_buf = None then 0 else 1)) (resultExtras req))
       (pending_requests (dev w))\<rparr>" "objects_inv w'"
    "\<forall>b \<in> set bs. \<exists>s s'. kv_find (objects w) (fst b) = Some s \<and>
        kv_find (objects w') (fst b) = Some s' \<and> one_more s s' \<and> lent b s'"
proof -
  obtain st w0 r bs w1 where g: "RequestSettings E req w = (st, w0)"
    "GetBuffers E wt (req_streams req) w0 = Some ((r, bs), w1)" "objects_inv w1" "only_streams w0 w1"
    "map fst bs = take (length bs) (req_streams req)" "r = 0 \<longleftrightarrow> length bs = length (req_streams req)"
    "\<forall>p. p \<notin> fst ` set bs \<longrightarrow> kv_find (objects w1) p = kv_find (objects w) p"
    "\<forall>b \<in> set bs. \<exists>s s'. kv_find (objects w) (fst b) = Some s \<and>
        kv_find (objects w1) (fst b) = Some s' \<and> one_more s s' \<and> lent b s'"
    by (rule SubmitRequest_buffers [OF submittable_requestable [OF sub, of wt]])
  note f = RequestSettings_frame [OF g(1)]
  have gbm: "\<not> uses_gbm E" using sub by (simp add: submittable_def)
  let ?cr = "\<lparr>cr_frame_number = frameNumber (resultExtras req), cr_settings = st,
        cr_output_buffers = bs, cr_input_buffer = in_buf\<rparr>"
  let ?v = "kv_add (frameNumber (resultExtras req))
       (PendingRequest (int (length bs) + (if in_buf = None then 0 else 1)) (resultExtras req))
       (pending_requests (dev w1))"
  have run': "r = 0 \<and> w' = upd_rh (\<lambda>h. h\<lparr>current_request := ClearCaptureRequest (current_request h)\<rparr>)
      (emit (Hal_request ?cr) (upd_dev (\<lambda>d. d\<lparr>pending_requests := ?v\<rparr>) w1))"
    using run g(1,2) gbm
    by (auto simp: SubmitRequest_def MarkPendingRequest_def Let_def bind_eq_Some_conv split: if_splits)
  then have "map fst bs = req_streams req" using g(5,6) by simp
  moreover have "log w1 = log w" "dev w1 = dev w"
    using g(4) f(3,4) by (simp_all add: only_streams_def)
  moreover have "objects w' = objects w1" "shr w' = shr w1" using run' by simp_all
  moreover have "objects_inv w'" using g(3) objects_inv_cong calculation(4,5) by blast
  ultimately show thesis using that [OF g(1)] run' g(8) by (simp add: upd_dev_def)
qed

end
