(* ===== verification/Handler_Claims.thy ===== *)
theory Handler_Claims
  imports Request_Handler_Props Stream_Claims
begin

text \<open>
  The properties of the smooth zoom, the prepare handler and the request handler, each with
  a witness on a concrete environment.
\<close>

section \<open>A concrete environment\<close>

definition ref_meta :: metadata_api where
  "ref_meta = \<lparr>md_find = map_of, md_update = (\<lambda>m t v. (t, v) # m),
     md_erase = (\<lambda>m t. filter (\<lambda>p. fst p \<noteq> t) m), md_append = (@), md_sort = (\<lambda>m. m)\<rparr>"

lemma map_of_erase: "map_of (filter (\<lambda>p. fst p \<noteq> t) m) u = (if u = t then None else map_of m u)"
  by (induction m) auto

lemma ref_meta_ok: "metadata_ok ref_meta"
  by (auto simp: metadata_ok_def ref_meta_def map_of_erase map_add_def split: option.splits)

text \<open>Fixed point numbers with three decimal places.\<close>

definition ref_floats :: float_ops where
  "ref_floats = \<lparr>f_of_int = (\<lambda>i. word_of_int (1000 * i)), f_add = (+), f_sub = (-),
     f_mul = (\<lambda>a b. word_of_int (uint a * uint b div 1000)),
     f_div = (\<lambda>a b. word_of_int (uint a * 1000 div uint b)),
     f_abs = (\<lambda>a. a), f_to_int = (\<lambda>a. uint a div 1000), f_nonpos = (\<lambda>a. a = 0)\<rparr>"

definition ref_E :: env where
  "ref_E = \<lparr>plat = ref_platform, meta = ref_meta, flts = ref_floats, uses_gbm = False,
     local_to_gralloc = (\<lambda>u. u), gralloc_to_local = (\<lambda>u. u), run_thread = (\<lambda>l. 0),
     input_buffer = (\<lambda>l. 5), process_capture_request = (\<lambda>l r. 0),
     configure_streams = (\<lambda>l m vs. (0, vs)), hal_flush = (\<lambda>l. 0),
     construct_default_request_settings = (\<lambda>t. None), hw_get_module = (0, True),
     get_number_of_cameras = 1, module_init = None, vendor_tags = None,
     get_camera_info = (\<lambda>i. (0, [])), module_open = (\<lambda>i. (0, 0x302)), hal_initialize = 0,
     api_version_3_2 = 0x302, session_parameters = False, disable_op_modes = False,
     RAW_ONLY_MODE = 0x8000, NORMAL_MODE = 0, HIGH_SPEED_MODE = 1, blob_code = 33,
     jpeg_size_min = 262152, template_count = 7, high_speed_capability = 9, checked_containers = True\<rparr>"

section \<open>Smooth zoom\<close>

text \<open>
  C25. A zoom under way reaches its target: with \<open>n\<close> steps left, whatever crop regions the requests
  carry meanwhile, it is still going after each of the first \<open>n\<close> updates, and after \<open>n + 1\<close> updates
  the current region is the target and the zoom is over, provided that no intermediate region is empty.
\<close>

theorem zoom_reaches_target:
  assumes "enable z" and "zoom_steps z = int n" and "length mds = Suc n"
    and "\<forall>k \<le> n. \<not> blocked F ((zoom_tick F ^^ k) z)"
    and "\<forall>md \<in> set mds. \<forall>v. md_find M md ANDROID_SCALER_CROP_REGION = Some v \<longrightarrow> 4 \<le> length v"
  shows "\<exists>z'. Updates M F mds z = Some z' \<and> crop_current z' = crop_target z \<and>
     crop_target z' = crop_target z \<and> \<not> IsGoing z' \<and>
     (\<forall>k \<le> n. \<exists>zk. Updates M F (take k mds) z = Some zk \<and> IsGoing zk \<and> zoom_steps zk = int (n - k))"
proof -
  let ?z = "(zoom_tick F ^^ n) z"
  have early: "\<exists>zk. Updates M F (take k mds) z = Some zk \<and> IsGoing zk \<and> zoom_steps zk = int (n - k)" if "k \<le> n" for k
  proof -
    have "Updates M F (take k mds) z = Some ((zoom_tick F ^^ length (take k mds)) z)"
      by (rule Updates_going) (use assms that in \<open>auto dest: in_set_takeD\<close>)
    moreover have "zoom_steps ((zoom_tick F ^^ k) z) = int (n - k)"
      using zoom_ticks_frame(3) [where F = F and n = k and z = z] assms(2) that by (simp add: of_nat_diff)
    ultimately show ?thesis using assms(3) that by (simp add: IsGoing_def)
  qed
  have "Updates M F mds z = Some ((zoom_tick F ^^ length mds) z)"
    by (rule Updates_going) (use assms in auto)
  then have run: "Updates M F mds z = Some (zoom_tick F ?z)" using assms(3) by simp
  have "zoom_steps ?z = 0" using zoom_ticks_frame(3) [where F = F and n = n and z = z] assms(2) by simp
  then have "crop_current (zoom_tick F ?z) = crop_target z" "\<not> IsGoing (zoom_tick F ?z)"
    using advance_arrives [of ?z F] zoom_ticks_frame(1) [where F = F and n = n and z = z]
    by (simp_all add: zoom_tick_def IsGoing_def)
  then show ?thesis using run early zoom_ticks_frame(1) [where F = F and n = n and z = z] by simp
qed

definition ref_zoom :: zoom where
  "ref_zoom = \<lparr>enable = True, max_width = 1000, max_height = 800, zoom_factor = 500,
     zoom_step_size = 250, zoom_step = 250, zoom_steps = 1,
     left_offset = 0, top_offset = 0, left_step = 0, top_step = 0,
     crop_current = \<lparr>left = 0, top = 0, cwidth = 500, cheight = 400\<rparr>,
     crop_target = \<lparr>left = 0, top = 0, cwidth = 1000, cheight = 800\<rparr>\<rparr>"

theorem zoom_reaches_target_witness:
  "\<exists>z'. Updates ref_meta ref_floats [[], [(ANDROID_SCALER_CROP_REGION, [1, 2, 3, 4])]] ref_zoom = Some z' \<and>
     crop_current z' = crop_target ref_zoom \<and> \<not> IsGoing z'"
proof -
  have b: "\<forall>k \<le> 1. \<not> blocked ref_floats ((zoom_tick ref_floats ^^ k) ref_zoom)"
  proof (intro allI impI)
    fix k :: nat assume "k \<le> 1"
    then consider "k = 0" | "k = 1" by linarith
    then show "\<not> blocked ref_floats ((zoom_tick ref_floats ^^ k) ref_zoom)"
      by cases (simp_all add: blocked_def ref_zoom_def ref_floats_def zoom_tick_def advance_def Let_def)
  qed
  have z: "enable ref_zoom" "zoom_steps ref_zoom = int 1" by (simp_all add: ref_zoom_def)
  let ?mds = "[[], [(ANDROID_SCALER_CROP_REGION, [1 :: int, 2, 3, 4])]]"
  have len: "length ?mds = Suc 1" by simp
  have "\<forall>md \<in> set ?mds. \<forall>v. md_find ref_meta md ANDROID_SCALER_CROP_REGION = Some v \<longrightarrow> 4 \<le> length v"
    by (auto simp: ref_meta_def)
  from zoom_reaches_target [OF z len b this] show ?thesis by blast
qed

text \<open>
  A new zoom target never leaves the sensor: when an idle zoom meets a request with
  another crop region, the target is that region cut to the sensor (the region itself when
  it fits), the width and height are within the sensor and so are the right and the lower
  edge, and the request is sent with the region the zoom is at now.
\<close>

theorem zoom_target_inside_sensor:
  assumes "metadata_ok M" and "enable z" and "\<not> blocked F z" and "zoom_steps z < 0"
    and "md_find M md ANDROID_SCALER_CROP_REGION = Some [l, t, wd, h]"
    and "\<lparr>left = l, top = t, cwidth = wd, cheight = h\<rparr> \<noteq> crop_current z"
  shows "\<exists>md' z'. Smooth_Zoom.Update M F md z = Some (md', z') \<and>
     md_find M md' ANDROID_SCALER_CROP_REGION = Some (region_values (crop_current z')) \<and>
     cwidth (crop_target z') \<le> max_width z \<and> cheight (crop_target z') \<le> max_height z \<and>
     left (crop_target z') + cwidth (crop_target z') \<le> max_width z \<and>
     top (crop_target z') + cheight (crop_target z') \<le> max_height z \<and>
     (0 \<le> l \<longrightarrow> 0 \<le> left (crop_target z')) \<and> (0 \<le> t \<longrightarrow> 0 \<le> top (crop_target z')) \<and>
     (l + wd \<le> max_width z \<and> t + h \<le> max_height z \<and> wd \<le> max_width z \<and> h \<le> max_height z \<longrightarrow>
        crop_target z' = \<lparr>left = l, top = t, cwidth = wd, cheight = h\<rparr>)"
proof -
  let ?r = "\<lparr>left = l, top = t, cwidth = wd, cheight = h\<rparr>"
  let ?z = "advance F (new_target F ?r z)"
  let ?md = "md_update M md ANDROID_SCALER_CROP_REGION (region_values (crop_current ?z))"
  have dims: "0 < max_width z" "0 < max_height z" using assms(3) by (auto simp: blocked_def)
  then have init: "init_dimensions M md z = Some z" by (simp add: init_dimensions_def)
  have tgt: "crop_target (new_target F ?r z) = clamp (max_width z) (max_height z) ?r"
    by (simp add: new_target_def Let_def)
  have "Smooth_Zoom.Update M F md z =
      Some (?md, if 0 \<le> zoom_steps ?z then ?z\<lparr>zoom_steps := zoom_steps ?z - 1\<rparr> else ?z)"
    using assms(2-6) init by (simp add: Smooth_Zoom.Update_def Let_def)
  then show ?thesis
    using tgt clamp_inside [OF dims, of ?r] clamp_fits [of ?r "max_width z" "max_height z"]
      metadata_find_update(1) [OF assms(1)]
    by (intro exI conjI) (auto split: if_splits)
qed

theorem zoom_target_inside_sensor_witness:
  "\<exists>md' z'. Smooth_Zoom.Update ref_meta ref_floats [(ANDROID_SCALER_CROP_REGION, [900, 700, 300, 200])]
       (ref_zoom\<lparr>zoom_steps := -1\<rparr>) = Some (md', z') \<and>
     left (crop_target z') + cwidth (crop_target z') \<le> 1000"
proof -
  have "\<not> blocked ref_floats (ref_zoom\<lparr>zoom_steps := -1\<rparr>)"
    by (simp add: blocked_def ref_zoom_def ref_floats_def)
  then show ?thesis
    using zoom_target_inside_sensor [OF ref_meta_ok, of "ref_zoom\<lparr>zoom_steps := -1\<rparr>" ref_floats
        "[(ANDROID_SCALER_CROP_REGION, [900, 700, 300, 200])]" 900 700 300 200]
    by (auto simp: ref_zoom_def ref_meta_def)
qed

section \<open>Prepare handler\<close>


definition ref_request :: "int \<Rightarrow> pointer list \<Rightarrow> CaptureRequest" where
  "ref_request i ps = \<lparr>req_metadata = [(ANDROID_REQUEST_ID, [i])], req_streams = ps,
     resultExtras = no_extras\<lparr>requestId := i\<rparr>, req_input = False\<rparr>"

definition ref_rh :: request_handler where
  "ref_rh = (Camera3RequestHandler (ref_request (-1) []) ref_zoom)
     \<lparr>rh_error_cb := True, rh_mark_cb := True, rh_set_error := True, rh_hal3_device := True\<rparr>"

definition ref_callbacks :: CameraClientCallbacks where
  "ref_callbacks = \<lparr>errorCb = True, idleCb = True, shutterCb = True, peparedCb = True, resultCb = True\<rparr>"

definition ref_dev :: device where
  "ref_dev = \<lparr>client_cb = ref_callbacks, dev_id = 0, state = STATE_CONFIGURED, flush_on_going = False,
     streams = [(0, 1)], deleted_streams = [], next_stream_id = 1, reconfig = False,
     request_templates = [], camera_module = True, hal_device = True, number_of_cameras = 1,
     device_info = [], alloc_device = True, repeating_requests = [], current_request_ids = [],
     next_request_id = 0, next_shutter_frame_number = 0, next_shutter_input_frame_number = 0,
     partial_result_count = 0, is_partial_result_supported = False,
     next_result_frame_number = 0, next_result_input_frame_number = 0,
     pause_state_notify = False, current_state_updates = [], state_listeners = 0,
     is_hfr_supported = False, is_raw_only = False, hfr_mode_enabled = False,
     cam_feature_flags = 0, fps_sensormode_index = 0, frame_rate_range = (0, 0),
     input_stream = \<lparr>in_stream_id = -1, in_width = 0, in_height = 0,
       in_format = HAL_PIXEL_FORMAT_BLOB, in_usage = 0, in_data_space = HAL_DATASPACE_UNKNOWN,
       in_buffers_map = [], input_buffer_cnt = 0\<rparr>,
     dev_batch_size = 1, client_count = 1, pending_requests = [], pending_error_requests = []\<rparr>"

text \<open>A device with one configured stream of two buffers, at address 1.\<close>

definition ref_w :: world where
  "ref_w = \<lparr>objects = [(1, ref_stream)], next_object = 2, shr = ref_env, rh = ref_rh,
     ph = SetPrepareCb True Camera3PrepareHandler, dev = ref_dev, log = []\<rparr>"

lemma ref_w_simps [simp]:
  "objects ref_w = [(1, ref_stream)]" "shr ref_w = ref_env" "log ref_w = []" "rh ref_w = ref_rh"
  "dev ref_w = ref_dev" "ph ref_w = SetPrepareCb True Camera3PrepareHandler"
  by (simp_all add: ref_w_def)



text \<open>
  A stale abort: \<open>Clear\<close> sets the abort flag even when no stream is being prepared. When
  the thread is running between two streams, a stream queued after such a \<open>Clear\<close> is aborted
  in its second iteration: one buffer has been allocated, the stream is back in its configured
  status, it has left the queue, and the client is never told.
\<close>

theorem stale_abort:
  assumes "prepare_running (ph w)" "prepared_stream (ph w) = None" "prep_streams (ph w) = []"
    and "kv_wf (objects w)" "kv_find (objects w) p = Some s" "status s = STATUS_CONFIGURED"
    and "\<not> is_stream_active s" "pending_buffer_count s = 0" "hw_buffer_allocated s = 0"
    and "1 < total_buffer_count s" "alloc_total (plat E)"
  shows "\<exists>w1 w2 w3 w4 s'. Prepare_Handler.Clear w = Some (0, w1) \<and>
     Prepare_Handler.Prepare E (Some p) w1 = Some (0, w2) \<and>
     Prepare_Handler.ThreadLoop E w2 = Some (True, w3) \<and>
     Prepare_Handler.ThreadLoop E w3 = Some (True, w4) \<and>
     log w4 = log w \<and> prepared_stream (ph w4) = None \<and> prep_streams (ph w4) = [] \<and>
     kv_find (objects w4) p = Some s' \<and> status s' = STATUS_CONFIGURED \<and> hw_buffer_allocated s' = 1"
proof -
  define w1 where "w1 = upd_ph (\<lambda>h. h\<lparr>prep_streams := [], abort_prepare := True\<rparr>) w"
  define s1 where "s1 = s\<lparr>prepared_buffers_count := 0, status := STATUS_PREPARE_ACTIVE\<rparr>"
  define w2 where "w2 = upd_ph (\<lambda>h. h\<lparr>prep_streams := [p]\<rparr>)
     (w1\<lparr>objects := kv_add p s1 (objects w)\<rparr>)"
  have c: "Prepare_Handler.Clear w = Some (0, w1)"
    using assms(3) by (simp add: Prepare_Handler.Clear_def w1_def)
  have b: "BeginPrepare s = (- ENODATA, s1)"
    using assms(6-8) by (simp add: BeginPrepare_def s1_def)
  have p: "Prepare_Handler.Prepare E (Some p) w1 = Some (0, w2)"
    using assms(1,5) b
    by (simp add: Prepare_Handler.Prepare_def stream_BeginPrepare_def on_stream_def w1_def w2_def upd_ph_def)
  obtain h s2 where pb: "PrepareBuffer (plat E) s1 (shr w) = (- ENODATA, s2, (shr w)\<lparr>live := h # live (shr w)\<rparr>)"
    and s2: "hw_buffer_allocated s2 = hw_buffer_allocated s1 + 1" "status s2 = STATUS_PREPARE_ACTIVE"
    by (rule PrepareBuffer_step [OF assms(11), of s1 "shr w"])
      (use assms(9,10) in \<open>auto simp: s1_def word_less_nat_alt\<close>)
  define w3 where "w3 = upd_ph (\<lambda>h. h\<lparr>prepared_stream := Some p, prep_streams := []\<rparr>)
     (w2\<lparr>objects := kv_add p s2 (objects w2), shr := (shr w)\<lparr>live := h # live (shr w)\<rparr>\<rparr>)"
  have t1: "Prepare_Handler.ThreadLoop E w2 = Some (True, w3)"
    using assms(2,4) pb
    by (simp add: Prepare_Handler.ThreadLoop_def ChooseStream_def PrepareChosen_def
        stream_PrepareBuffer_def on_stream_def w1_def w2_def w3_def upd_ph_def)
  let ?s = "s2\<lparr>prepared_buffers_count := 0, status := STATUS_CONFIGURED\<rparr>"
  define w4 where "w4 = upd_ph (\<lambda>h. h\<lparr>prepared_stream := None, abort_prepare := False\<rparr>)
     (w3\<lparr>objects := kv_add p ?s (objects w3)\<rparr>)"
  have t2: "Prepare_Handler.ThreadLoop E w3 = Some (True, w4)"
    using assms(4) s2(2)
    by (simp add: Prepare_Handler.ThreadLoop_def ChooseStream_def stream_EndPrepare_def on_stream_def
        EndPrepare_def EndPrepareLocked_def w1_def w2_def w3_def w4_def upd_ph_def)
  have "hw_buffer_allocated ?s = 1" using s2(1) assms(9) by (simp add: s1_def)
  moreover have "log w4 = log w" "prepared_stream (ph w4) = None" "prep_streams (ph w4) = []"
    "kv_find (objects w4) p = Some ?s" "status ?s = STATUS_CONFIGURED"
    using assms(4) by (simp_all add: w4_def w3_def w2_def w1_def)
  ultimately show ?thesis using c p t1 t2 by blast
qed

definition ref_running :: world where
  "ref_running = ref_w\<lparr>ph := \<lparr>prepare_cb = True, prepare_running = True, abort_prepare = False,
     prep_streams = [], prepared_stream = None\<rparr>\<rparr>"

theorem stale_abort_witness:
  "\<exists>w1 w2 w3 w4. Prepare_Handler.Clear ref_running = Some (0, w1) \<and>
     Prepare_Handler.Prepare ref_E (Some 1) w1 = Some (0, w2) \<and>
     Prepare_Handler.ThreadLoop ref_E w2 = Some (True, w3) \<and>
     Prepare_Handler.ThreadLoop ref_E w3 = Some (True, w4) \<and> log w4 = []"
proof -
  have "kv_find (objects ref_running) 1 = Some ref_stream" "alloc_total (plat ref_E)"
    using ref_platform_total by (simp_all add: ref_running_def ref_E_def)
  moreover have "\<not> is_stream_active ref_stream" "pending_buffer_count ref_stream = 0"
    "hw_buffer_allocated ref_stream = 0" "1 < total_buffer_count ref_stream"
    by (simp_all add: ref_eval)
  moreover have "prepare_running (ph ref_running)" "prepared_stream (ph ref_running) = None"
    "prep_streams (ph ref_running) = []" "kv_wf (objects ref_running)" "log ref_running = []"
    by (simp_all add: ref_running_def kv_wf_def)
  ultimately show ?thesis using stale_abort [of ref_running 1 ref_stream ref_E] ref_status by metis
qed

section \<open>Request handler\<close>

text \<open>
  Queued requests are taken first in, first out, with consecutive frame numbers: after
  \<open>QueueRequestList\<close>, as many calls of \<open>GetRequest\<close> as there are queued requests return
  exactly these, in order, numbered from the current frame number on; none of them waits and
  the repeating requests stay as they are. The frame number that \<open>QueueRequestList\<close> reported
  is the one of the last request of its list.
\<close>

theorem queue_fifo:
  assumes "QueueRequestList rs w = ((res, lastFrame), w1)" and "rs \<noteq> []"
    and "\<forall>r \<in> set (requests (rh w) @ rs). \<not> req_input r"
  shows "\<exists>out w2. GetRequests E wt (length (requests (rh w) @ rs)) w1 = Some (out, w2) \<and>
     out = number_frames (current_frame_number (rh w)) (requests (rh w) @ rs) \<and>
     requests (rh w2) = [] \<and> streaming_requests (rh w2) = streaming_requests (rh w) \<and>
     res = 0 \<and> word_of_int lastFrame = frameNumber (resultExtras (last out))"
proof -
  let ?q = "requests (rh w) @ rs" and ?n = "current_frame_number (rh w)"
  have w1: "requests (rh w1) = ?q" "current_frame_number (rh w1) = ?n"
    "streaming_requests (rh w1) = streaming_requests (rh w)" and r: "res = 0"
    and lf: "lastFrame = int (unat ?n) + int (length ?q) - 1"
    using assms(1) by (auto simp: QueueRequestList_def Resume_def Let_def)
  obtain w2 where w2: "GetRequests E wt (length ?q) w1 = Some (number_frames ?n ?q, w2)"
    "requests (rh w2) = []" "streaming_requests (rh w2) = streaming_requests (rh w)"
    using GetRequests_queue [OF w1(1) assms(3), of E wt] w1 by auto
  have ne: "?q \<noteq> []" using assms(2) by simp
  then have "last (number_frames ?n ?q) = set_frame (?n + of_nat (length ?q - 1)) (last ?q)"
    by (rule last_number_frames)
  moreover have "word_of_int lastFrame = ?n + of_nat (length ?q - 1)"
  proof -
    have "lastFrame = uint ?n + int (length ?q - 1)" using ne lf by (cases ?q) auto
    then show ?thesis by simp
  qed
  ultimately show ?thesis using w2 r by auto
qed

theorem queue_fifo_witness:
  "\<exists>out w2. GetRequests ref_E (\<lambda>w. []) 2
       (snd (QueueRequestList [ref_request 4 [1], ref_request 5 [1]] ref_w)) = Some (out, w2) \<and>
     map (\<lambda>r. frameNumber (resultExtras r)) out = [0, 1]"
proof -
  obtain res lastFrame w1 where q: "QueueRequestList [ref_request 4 [1], ref_request 5 [1]] ref_w = ((res, lastFrame), w1)"
    by (metis prod.exhaust)
  have "requests (rh ref_w) = []" "current_frame_number (rh ref_w) = 0"
    by (simp_all add: ref_rh_def Camera3RequestHandler_def)
  then show ?thesis
    using queue_fifo [OF q, of ref_E "\<lambda>w. []"] q
    by (auto simp: ref_request_def numeral_2_eq_2 simp del: GetRequests.simps)
qed

text \<open>
  Repeating requests: when no request is queued, the repeating requests are taken as one
  burst, in order and with consecutive frame numbers, and the repeating list is ready for the
  next burst; the zoom may change their metadata but nothing else. The last frame number that
  \<open>ClearRepeatingRequests\<close> reports afterwards is the one of the last request of the burst.
\<close>

theorem repeating_burst:
  assumes "requests (rh w) = []" "streaming_requests (rh w) \<noteq> []"
    and "\<forall>r \<in> set (streaming_requests (rh w)). \<not> req_input r \<and> regions_ok E r"
  shows "\<exists>out w'. GetRequests E wt (length (streaming_requests (rh w))) w = Some (out, w') \<and>
     map req_streams out = map req_streams (streaming_requests (rh w)) \<and>
     map (\<lambda>r. frameNumber (resultExtras r)) out =
       map (\<lambda>k. current_frame_number (rh w) + of_nat k) [0..<length (streaming_requests (rh w))] \<and>
     requests (rh w') = [] \<and>
     map but_metadata (streaming_requests (rh w')) = map but_metadata (streaming_requests (rh w)) \<and>
     word_of_int (snd (fst (ClearRepeatingRequests w'))) = frameNumber (resultExtras (last out))"
proof -
  let ?n = "current_frame_number (rh w)"
  obtain rs w' where b: "GetRequests E wt (length (streaming_requests (rh w))) w = Some (number_frames ?n rs, w')"
    "map but_metadata rs = map but_metadata (streaming_requests (rh w))"
    "streaming_requests (rh w') = rs" "requests (rh w') = []"
    "streaming_last_frame_number (rh w') = int (unat ?n) + int (length rs) - 1"
    using GetRequests_burst [OF assms, of wt] by blast
  have len: "length rs = length (streaming_requests (rh w))" using b(2) map_eq_imp_length_eq by blast
  have "map fst (map but_metadata rs) = map fst (map but_metadata (streaming_requests (rh w)))"
    using b(2) by simp
  then have st: "map req_streams rs = map req_streams (streaming_requests (rh w))"
    by (simp add: but_metadata_def o_def)
  have "map req_streams (number_frames m xs) = map req_streams xs" for m xs
    by (induction xs arbitrary: m) simp_all
  then have "map req_streams (number_frames ?n rs) = map req_streams (streaming_requests (rh w))"
    using st by simp
  moreover have "map (\<lambda>r. frameNumber (resultExtras r)) (number_frames ?n rs) =
      map (\<lambda>k. ?n + of_nat k) [0..<length (streaming_requests (rh w))]"
    by (rule nth_equalityI) (simp_all add: len number_frames_nth)
  moreover have "word_of_int (snd (fst (ClearRepeatingRequests w'))) =
      frameNumber (resultExtras (last (number_frames ?n rs)))"
  proof -
    have ne: "rs \<noteq> []" using len assms(2) by auto
    then have "last (number_frames ?n rs) = set_frame (?n + of_nat (length rs - 1)) (last rs)"
      by (rule last_number_frames)
    moreover have "streaming_last_frame_number (rh w') = uint ?n + int (length rs - 1)"
      using b(5) ne by (cases rs) auto
    ultimately show ?thesis by (simp add: ClearRepeatingRequests_def)
  qed
  ultimately show ?thesis using b(1-4) by auto
qed

theorem repeating_burst_witness:
  "\<exists>out w'. GetRequests ref_E (\<lambda>w. []) 1
       (snd (SetRepeatingRequests [ref_request 4 [1]] ref_w)) = Some (out, w') \<and>
     map (\<lambda>r. frameNumber (resultExtras r)) out = [0] \<and> requests (rh w') = []"
proof -
  let ?w = "snd (SetRepeatingRequests [ref_request 4 [1]] ref_w)"
  have s: "streaming_requests (rh ?w) = [ref_request 4 [1]]" "requests (rh ?w) = []"
    "current_frame_number (rh ?w) = 0"
    by (simp_all add: SetRepeatingRequests_def Resume_def Let_def ref_rh_def Camera3RequestHandler_def)
  have "regions_ok ref_E (ref_request 4 [1])"
    by (auto simp: regions_ok_def ref_request_def ref_E_def ref_meta_def)
  then show ?thesis
    using repeating_burst [of ?w ref_E "\<lambda>w. []"] s by (auto simp: ref_request_def)
qed

text \<open>
  Clearing reports every queued request: with an error callback and no request in flight,
  \<open>Clear\<close> calls it once for each queued request, in order, with consecutive frame numbers,
  drops the queued and the repeating requests, and the next request gets the frame number
  after the reported ones.
\<close>

theorem Clear_reports_each:
  assumes "rh_error_cb (rh w)" "requestId (resultExtras (current_request (rh w))) = -1"
  shows "\<exists>w'. Request_Handler.Clear wt w = ((0, streaming_last_frame_number (rh w)), w') \<and>
     log w' = log w @ map (\<lambda>r. Ev_error ERROR_CAMERA_REQUEST (resultExtras r))
        (number_frames (current_frame_number (rh w)) (requests (rh w))) \<and>
     requests (rh w') = [] \<and> streaming_requests (rh w') = [] \<and>
     current_frame_number (rh w') = current_frame_number (rh w) + of_nat (length (requests (rh w)))"
proof -
  let ?w1 = "upd_rh (\<lambda>h. h\<lparr>streaming_requests := []\<rparr>) w"
  note sp = ReportCleared_spec [of "requests (rh w)" ?w1]
  show ?thesis
    using assms sp by (simp add: Request_Handler.Clear_def Let_def)
qed

theorem Clear_reports_each_witness:
  "\<exists>w'. Request_Handler.Clear (\<lambda>w. []) (snd (QueueRequestList [ref_request 4 [1]] ref_w)) = ((0, -1), w') \<and>
     log w' = [Ev_error ERROR_CAMERA_REQUEST (resultExtras (ref_request 4 [1]))]"
proof -
  let ?w = "snd (QueueRequestList [ref_request 4 [1]] ref_w)"
  have "rh_error_cb (rh ?w)" "requestId (resultExtras (current_request (rh ?w))) = -1"
    "requests (rh ?w) = [ref_request 4 [1]]" "log ?w = []" "current_frame_number (rh ?w) = 0"
    "streaming_last_frame_number (rh ?w) = -1"
    by (simp_all add: QueueRequestList_def Resume_def Let_def ref_rh_def Camera3RequestHandler_def
        ref_request_def NO_IN_FLIGHT_REPEATING_FRAMES_def)
  then show ?thesis
    using Clear_reports_each [of ?w "\<lambda>w. []"]
    by (auto simp: set_frame_def ref_request_def no_extras_def)
qed

text \<open>
  C21. A failed submission leaks no buffer: whatever goes wrong (a stream that is not configured, a
  wait for a buffer that times out, an allocation that fails, no callbacks, a refused registration, an
  error of the HAL), with GBM or without, every stream of the request ends with as many pending and as
  many busy buffers as before. Of the two other counters of a stream that had given a buffer, though,
  the HAL one stays one too high and the client one becomes one too low. The streams are distinct and
  known, and a wait that is needed times out with nothing changed by others.
\<close>

theorem failed_submission_returns_buffers:
  assumes "requestable E wt req w" "Request_Handler.SubmitRequest E wt req in_buf w = Some (res, w')"
    and "res \<noteq> 0" "p \<in> set (req_streams req)"
  shows "\<exists>s s'. kv_find (objects w) p = Some s \<and> kv_find (objects w') p = Some s' \<and>
     pending_buffer_count s' = pending_buffer_count s \<and>
     busy (mem_alloc_buffers s') = busy (mem_alloc_buffers s) \<and>
     (s' = s \<or> hal_buffer_cnt s' = hal_buffer_cnt s + 1 \<and>
               client_buffer_cnt s' = client_buffer_cnt s - 1)"
  using SubmitRequest_fails(1) [OF assms(1-3)] assms(4) by (auto simp: returned_def)

definition failing_E :: env where
  "failing_E = ref_E\<lparr>process_capture_request := (\<lambda>l r. - 19)\<rparr>"

lemma ref_submittable:
  "plat E = ref_platform \<Longrightarrow> \<not> uses_gbm E \<Longrightarrow> submittable E (ref_request 4 [1]) ref_w"
  using ref_inv ref_platform_fresh ref_status
  by (auto simp: submittable_def objects_inv_def kv_wf_def ref_request_def ready_def ref_eval)

theorem failed_submission_returns_buffers_witness:
  "\<exists>res w' s'. Request_Handler.SubmitRequest failing_E (\<lambda>w. []) (ref_request 4 [1]) None ref_w = Some (res, w') \<and>
     res \<noteq> 0 \<and> kv_find (objects w') 1 = Some s' \<and> pending_buffer_count s' = 0"
proof -
  have sub: "submittable failing_E (ref_request 4 [1]) ref_w"
    by (rule ref_submittable) (simp_all add: failing_E_def ref_E_def)
  obtain res w' where r: "Request_Handler.SubmitRequest failing_E (\<lambda>w. []) (ref_request 4 [1]) None ref_w = Some (res, w')"
    "res \<noteq> 0"
    using SubmitRequest_total [OF sub, of "\<lambda>w. []" None] by (auto simp: failing_E_def)
  have "1 \<in> set (req_streams (ref_request 4 [1]))" "pending_buffer_count ref_stream = 0"
    by (simp_all add: ref_request_def ref_eval)
  with failed_submission_returns_buffers [OF submittable_requestable [OF sub] r] r show ?thesis by force
qed

lemma ref_submitted:
  obtains w' where "submittable ref_E (ref_request 4 [1]) ref_w"
    "Request_Handler.SubmitRequest ref_E (\<lambda>w. []) (ref_request 4 [1]) None ref_w = Some (0, w')"
proof -
  have sub: "submittable ref_E (ref_request 4 [1]) ref_w"
    by (rule ref_submittable) (simp_all add: ref_E_def)
  obtain b s1 sh1 where g: "GetBuffer ref_platform (0, ref_stream, ref_env) ref_stream ref_env = (0, Some b, s1, sh1)"
    using ref_got_eq by (auto simp: ref_got_def)
  have nw: "\<not> GetBuffer_waits ref_stream" by (simp add: GetBuffer_waits_def ref_eval)
  have E: "plat ref_E = ref_platform" "\<not> uses_gbm ref_E" "process_capture_request ref_E = (\<lambda>l r. 0)"
    by (simp_all add: ref_E_def)
  obtain st w0 where rs: "RequestSettings ref_E (ref_request 4 [1]) ref_w = (st, w0)" by fastforce
  note f = RequestSettings_frame [OF rs]
  have h: "rh_mark_cb (rh w0)" "rh_hal3_device (rh w0)" "pending_requests (dev w0) = []"
    using f(3) by (subst f(6), simp add: ref_rh_def, subst f(6), simp add: ref_rh_def, simp add: ref_dev_def)
  have gb: "stream_GetBuffer ref_E (\<lambda>w. []) 1 w0 =
      Some ((0, Some b), w0\<lparr>objects := kv_add 1 s1 (objects w0), shr := sh1\<rparr>)"
    using g nw f(1,2) E(1) by (simp add: stream_GetBuffer_def)
  have st: "req_streams (ref_request 4 [1]) = [1]" by (simp add: ref_request_def)
  obtain w' where "Request_Handler.SubmitRequest ref_E (\<lambda>w. []) (ref_request 4 [1]) None ref_w = Some (0, w')"
    using E h rs gb by (simp add: Request_Handler.SubmitRequest_def st MarkPendingRequest_def kv_index_def Let_def del: One_nat_def)
  with sub show thesis by (rule that)
qed

text \<open>
  C16. A successful submission hands the HAL exactly one request: it carries the frame number
  of the request and one buffer of every stream, each of them now pending at its stream and
  known by its native handle; the settings go along exactly when the request id differs from
  the last one sent or the zoom is under way; and the request is registered as pending with
  the number of buffers the HAL has to return.
\<close>

theorem submission_sends_once:
  assumes "submittable E req w" "Request_Handler.SubmitRequest E wt req in_buf w = Some (0, w')"
    and "kv_wf (pending_requests (dev w))"
  shows "\<exists>cr. log w' = log w @ [Hal_request cr] \<and>
     cr_frame_number cr = frameNumber (resultExtras req) \<and>
     map fst (cr_output_buffers cr) = req_streams req \<and>
     (cr_settings cr \<noteq> None \<longleftrightarrow>
        requestId (resultExtras (old_request (rh w))) \<noteq> requestId (resultExtras req) \<or>
        IsGoing (smooth_zoom (rh w))) \<and>
     kv_find (pending_requests (dev w')) (frameNumber (resultExtras req)) =
       Some (PendingRequest (int (length (req_streams req)) + (if in_buf = None then 0 else 1))
              (resultExtras req)) \<and>
     (\<forall>b \<in> set (cr_output_buffers cr). \<exists>s s' h. kv_find (objects w) (fst b) = Some s \<and>
        kv_find (objects w') (fst b) = Some s' \<and>
        pending_buffer_count s' = pending_buffer_count s + 1 \<and>
        kv_find (buffers_map s') (sb_buffer (snd b)) = Some h \<and>
        kv_find (mem_alloc_buffers s') h = Some False)"
proof -
  obtain st w0 bs where g: "RequestSettings E req w = (st, w0)" "map fst bs = req_streams req"
    "log w' = log w @ [Hal_request \<lparr>cr_frame_number = frameNumber (resultExtras req), cr_settings = st,
        cr_output_buffers = bs, cr_input_buffer = in_buf\<rparr>]"
    "dev w' = (dev w)\<lparr>pending_requests := kv_add (frameNumber (resultExtras req))
       (PendingRequest (int (length bs) + (if in_buf = None then 0 else 1)) (resultExtras req))
       (pending_requests (dev w))\<rparr>" "objects_inv w'"
    "\<forall>b \<in> set bs. \<exists>s s'. kv_find (objects w) (fst b) = Some s \<and>
        kv_find (objects w') (fst b) = Some s' \<and> one_more s s' \<and> lent b s'"
    by (rule SubmitRequest_succeeds [OF assms(1,2)])
  have len: "length bs = length (req_streams req)" using arg_cong [OF g(2), of length] by simp
  have "st \<noteq> None \<longleftrightarrow> requestId (resultExtras (old_request (rh w))) \<noteq> requestId (resultExtras req) \<or>
        IsGoing (smooth_zoom (rh w))"
    using g(1) by (auto simp: RequestSettings_def Let_def split: if_splits)
  moreover have "\<forall>b \<in> set bs. \<exists>s s' h. kv_find (objects w) (fst b) = Some s \<and>
        kv_find (objects w') (fst b) = Some s' \<and>
        pending_buffer_count s' = pending_buffer_count s + 1 \<and>
        kv_find (buffers_map s') (sb_buffer (snd b)) = Some h \<and>
        kv_find (mem_alloc_buffers s') h = Some False"
    using g(6) unfolding one_more_def lent_def by metis
  ultimately show ?thesis
    using g(2-4) assms(3) len
    by (intro exI [of _ "\<lparr>cr_frame_number = frameNumber (resultExtras req), cr_settings = st,
        cr_output_buffers = bs, cr_input_buffer = in_buf\<rparr>"]) simp
qed

theorem submission_sends_once_witness:
  "\<exists>w' cr. Request_Handler.SubmitRequest ref_E (\<lambda>w. []) (ref_request 4 [1]) None ref_w = Some (0, w') \<and>
     log w' = [Hal_request cr] \<and> map fst (cr_output_buffers cr) = [1]"
proof -
  obtain w' where sub: "submittable ref_E (ref_request 4 [1]) ref_w"
    and r: "Request_Handler.SubmitRequest ref_E (\<lambda>w. []) (ref_request 4 [1]) None ref_w = Some (0, w')"
    by (rule ref_submitted)
  have "kv_wf (pending_requests (dev ref_w))" by (simp add: ref_dev_def)
  from submission_sends_once [OF sub r this] r show ?thesis by (auto simp: ref_request_def)
qed

end
