(* ===== verification/Device.thy ===== *)
theory Device
  imports Request_Handler
begin

unbundle bit_operations_syntax

text \<open>
  The device client \<^verbatim>\<open>Camera3DeviceClient\<close>: its life cycle, the configuration of its
  streams and the waiting for state changes. Source:
  \<^verbatim>\<open>common/cameraadaptor/qmmf_camera3_device_client.{h,cc}\<close>. The methods hold the lock
  of the device from their start to their end, except in the waits, whose outcomes \<open>wt\<close>
  gives. \<open>None\<close> is a failed assertion, a dangling pointer or an access out of range.
\<close>

section \<open>Entries of the metadata\<close>

text \<open>The values of an entry; an absent entry has none.\<close>

definition entry_values :: "env \<Rightarrow> metadata \<Rightarrow> tag \<Rightarrow> int list" where
  "entry_values E md t = (case md_find (meta E) md t of None \<Rightarrow> [] | Some v \<Rightarrow> v)"

section \<open>Construction and opening\<close>

definition no_input_stream :: input_stream where
  "no_input_stream = \<lparr>in_stream_id = -1, in_width = 0, in_height = 0,
     in_format = HAL_PIXEL_FORMAT_OTHER 0, in_usage = 0, in_data_space = HAL_DATASPACE_UNKNOWN,
     in_buffers_map = [], input_buffer_cnt = 0\<rparr>"

text \<open>
  \<open>clients\<close> is the number of clients so far, a static member. The members
  \<^verbatim>\<open>batch_size_\<close> and \<^verbatim>\<open>frame_rate_range_\<close>, which the constructor leaves
  uninitialised, start as \<open>bs\<close> and \<open>rates\<close>.
\<close>

definition Camera3DeviceClient :: "CameraClientCallbacks \<Rightarrow> u32 \<Rightarrow> u32 \<Rightarrow> int \<times> int \<Rightarrow>
    CaptureRequest \<Rightarrow> zoom \<Rightarrow> world" where
  "Camera3DeviceClient cb clients bs rates garbage z =
     \<lparr>objects = [], next_object = 1,
      shr = \<lparr>mon = Camera3Monitor, live = []\<rparr>,
      rh = Camera3RequestHandler garbage z,
      ph = SetPrepareCb (peparedCb cb) Camera3PrepareHandler,
      dev = \<lparr>client_cb = cb, dev_id = 0, state = STATE_NOT_INITIALIZED, flush_on_going = False,
        streams = [], deleted_streams = [], next_stream_id = 0, reconfig = False,
        request_templates = [], camera_module = False, hal_device = False, number_of_cameras = 0,
        device_info = [], alloc_device = False, repeating_requests = [], current_request_ids = [],
        next_request_id = 0, next_shutter_frame_number = 0, next_shutter_input_frame_number = 0,
        partial_result_count = 0, is_partial_result_supported = False,
        next_result_frame_number = 0, next_result_input_frame_number = 0,
        pause_state_notify = False, current_state_updates = [], state_listeners = 0,
        is_hfr_supported = False, is_raw_only = False, hfr_mode_enabled = False,
        cam_feature_flags = 0, fps_sensormode_index = 0, frame_rate_range = rates,
        input_stream = no_input_stream, dev_batch_size = bs, client_count = clients,
        pending_requests = [], pending_error_requests = []\<rparr>,
      log = []\<rparr>"

text \<open>
  \<open>hw_get_module\<close> is the result of loading the HAL module and whether there is one;
  \<open>module_init\<close> and \<open>vendor_tags\<close> are \<open>None\<close> when the module lacks the operation.
\<close>

definition Initialize :: "env \<Rightarrow> world \<Rightarrow> int \<times> world" where
  "Initialize E w =
     (let fail = (\<lambda>res d. (res, upd_dev (\<lambda>_. d\<lparr>alloc_device := False, hal_device := False,
                                              camera_module := False\<rparr>) w));
          d1 = (dev w)\<lparr>camera_module := True, number_of_cameras := get_number_of_cameras E\<rparr>;
          ires = (case module_init E of None \<Rightarrow> 0 | Some r \<Rightarrow> r);
          vres = (case vendor_tags E of None \<Rightarrow> 0 | Some r \<Rightarrow> if client_count d1 = 0 then r else 0)
      in if state (dev w) \<noteq> STATE_NOT_INITIALIZED then fail (- ENOSYS) (dev w)
         else if fst (hw_get_module E) \<noteq> 0 \<or> \<not> snd (hw_get_module E)
         then fail (fst (hw_get_module E)) (dev w)
         else if ires \<noteq> 0 then fail ires d1
         else if vres \<noteq> 0 then fail vres d1
         else
           (0, upd_dev (\<lambda>_. d1\<lparr>client_count := (if vendor_tags E = None then client_count d1
                                                else client_count d1 + 1),
                              alloc_device := True, state := STATE_CLOSED, next_stream_id := 0,
                              reconfig := True\<rparr>) w))"

definition OpenCamera :: "env \<Rightarrow> u32 \<Rightarrow> world \<Rightarrow> int \<times> world" where
  "OpenCamera E idx w =
     (let fail = (\<lambda>res w. (res, upd_dev (\<lambda>d. d\<lparr>hal_device := False\<rparr>) w))
      in if idx \<ge> number_of_cameras (dev w) then (- EINVAL, w)
         else if \<not> camera_module (dev w) then (- ENODEV, w)
         else if hal_device (dev w) then (- EINVAL, w)
         else if state (dev w) \<noteq> STATE_CLOSED then fail (- ENOSYS) w
         else case get_camera_info E idx of
           (ires, info) \<Rightarrow>
             if ires \<noteq> 0 then fail ires w
             else
               let w1 = upd_dev (\<lambda>d. d\<lparr>device_info := info\<rparr>) w
               in case module_open E idx of
                    (ores, version) \<Rightarrow>
                      if ores \<noteq> 0 then fail ores w1
                      else if version < api_version_3_2 E then fail (- EINVAL) w1
                      else if hal_initialize E \<noteq> 0 then fail (hal_initialize E) w1
                      else
                        let prc = entry_values E info ANDROID_REQUEST_PARTIAL_RESULT_COUNT;
                            caps = entry_values E info ANDROID_REQUEST_AVAILABLE_CAPABILITIES;
                            w2 = upd_dev (\<lambda>d. d\<lparr>hal_device := True,
                                   partial_result_count :=
                                     (if prc \<noteq> [] then word_of_int (prc ! 0) else partial_result_count d),
                                   is_partial_result_supported :=
                                     (if prc \<noteq> [] then word_of_int (prc ! 0) > (1 :: u32)
                                      else is_partial_result_supported d),
                                   is_hfr_supported :=
                                     (high_speed_capability E \<in> set caps \<or> is_hfr_supported d),
                                   dev_id := idx, state := STATE_NOT_CONFIGURED\<rparr>) w1;
                            w3 = upd_mon (\<lambda>m. SetIdleNotifyCb m) w2;
                            (_, w4) = Request_Handler.Initialize True (errorCb (client_cb (dev w3)))
                                        True True w3;
                            rres = run_thread E (log w4)
                        in if rres < 0 then fail rres (SetErrorStateLockedV w4) else (rres, w4))"

section \<open>Waiting for a state\<close>

fun StateLoop :: "bool \<Rightarrow> nat \<Rightarrow> (int \<times> world) list \<Rightarrow> world \<Rightarrow> int \<times> world" where
  "StateLoop active start ws w =
     (if active = (state (dev w) = STATE_RUNNING) then (0, w)
      else case ws of
        [] \<Rightarrow> (- ETIMEDOUT, w)
      | (r, w1) # ws1 \<Rightarrow>
          if r \<noteq> 0 then (r, w1)
          else if \<exists>st \<in> set (drop start (current_state_updates (dev w1))).
                    active = (st = STATE_RUNNING)
          then (0, w1)
          else StateLoop active start ws1 w1)"

declare StateLoop.simps [simp del]

definition WaitUntilStateThenRelock :: "bool \<Rightarrow> waits \<Rightarrow> world \<Rightarrow> int \<times> world" where
  "WaitUntilStateThenRelock active wt w =
     (let first = (state_listeners (dev w) = 0);
          start = (if first then 0 else length (current_state_updates (dev w)));
          w1 = upd_dev (\<lambda>d. d\<lparr>current_state_updates := (if first then [] else current_state_updates d),
                              state_listeners := state_listeners d + 1\<rparr>) w
      in case StateLoop active start (wt w1) w1 of
           (res, w2) \<Rightarrow> (res, upd_dev (\<lambda>d. d\<lparr>state_listeners := state_listeners d - 1\<rparr>) w2))"

definition InternalPauseAndWaitLocked :: "waits \<Rightarrow> world \<Rightarrow> int \<times> world" where
  "InternalPauseAndWaitLocked wt w =
     (let w1 = upd_dev (\<lambda>d. d\<lparr>pause_state_notify := True\<rparr>) (snd (TogglePause True w))
      in case WaitUntilStateThenRelock False wt w1 of
           (res, w2) \<Rightarrow> (res, if res \<noteq> 0 then SetErrorStateLockedV w2 else w2))"

definition InternalResumeLocked :: "waits \<Rightarrow> world \<Rightarrow> int \<times> world" where
  "InternalResumeLocked wt w =
     (case TogglePause False w of
        (pending, w1) \<Rightarrow>
          if \<not> pending then (0, w1)
          else case WaitUntilStateThenRelock True wt w1 of
            (res, w2) \<Rightarrow>
              (res, upd_dev (\<lambda>d. d\<lparr>pause_state_notify := False\<rparr>)
                      (if res \<noteq> 0 then SetErrorStateLockedV w2 else w2)))"

definition WaitUntilDrainedLocked :: "waits \<Rightarrow> world \<Rightarrow> int \<times> world" where
  "WaitUntilDrainedLocked wt w =
     (case state (dev w) of
        STATE_NOT_INITIALIZED \<Rightarrow> (0, w)
      | STATE_CLOSED \<Rightarrow> (0, w)
      | STATE_NOT_CONFIGURED \<Rightarrow> (0, w)
      | _ \<Rightarrow>
          (case WaitUntilStateThenRelock False wt w of
             (res, w1) \<Rightarrow> (res, if res \<noteq> 0 then SetErrorStateLockedV w1 else w1)))"

definition WaitUntilIdle :: "waits \<Rightarrow> world \<Rightarrow> int \<times> world" where
  "WaitUntilIdle wt w = WaitUntilDrainedLocked wt w"

definition NotifyStatus :: "bool \<Rightarrow> world \<Rightarrow> world" where
  "NotifyStatus idle w =
     (if state (dev w) \<noteq> STATE_RUNNING \<and> state (dev w) \<noteq> STATE_CONFIGURED then w
      else
        let w1 = InternalUpdateStatusLocked (if idle then STATE_CONFIGURED else STATE_RUNNING) w
        in if pause_state_notify (dev w1) then w1
           else if idle \<and> idleCb (client_cb (dev w1)) then emit Ev_idle w1 else w1)"

section \<open>Configuration of the streams\<close>

definition kEIS :: u32 where "kEIS = push_bit 0 1"
definition kHDR :: u32 where "kHDR = push_bit 1 1"
definition kLDC :: u32 where "kLDC = push_bit 2 1"
definition kForceSensorMode :: u32 where "kForceSensorMode = push_bit 3 1"
definition FORCE_SENSOR_MODE_MASK :: u32 where "FORCE_SENSOR_MODE_MASK = 0x00FF0000"
definition ZZHDR_OPMODE :: u32 where "ZZHDR_OPMODE = 0xF002"
definition FORCE_SENSORMODE_ENABLE :: u32 where "FORCE_SENSORMODE_ENABLE = push_bit 24 1"
definition EIS_ENABLE :: u32 where "EIS_ENABLE = 0xF200"
definition LDC_ENABLE :: u32 where "LDC_ENABLE = 0xF800"

definition GetOpMode :: "env \<Rightarrow> device \<Rightarrow> u32" where
  "GetOpMode E d =
     (if \<not> disable_op_modes E
      then (if is_raw_only d then RAW_ONLY_MODE E else NORMAL_MODE E)
      else
        let f = cam_feature_flags d;
            m0 = NORMAL_MODE E;
            m1 = (if f AND kHDR \<noteq> 0 then m0 OR ZZHDR_OPMODE else m0);
            m2 = (if hfr_mode_enabled d then m1 OR HIGH_SPEED_MODE E else m1);
            m3 = (if f AND kEIS \<noteq> 0 then m2 OR EIS_ENABLE else m2);
            m4 = (if f AND kLDC \<noteq> 0 then m3 OR LDC_ENABLE else m3)
        in if f AND kForceSensorMode \<noteq> 0
           then m4 OR ((FORCE_SENSOR_MODE_MASK AND f) OR FORCE_SENSORMODE_ENABLE)
           else if fps_sensormode_index d > 0 then m4 OR push_bit 16 (fps_sensormode_index d)
           else m4)"

definition stream_pointers :: "world \<Rightarrow> pointer list" where
  "stream_pointers w = map snd (streams (dev w))"

definition stream_BeginConfigure :: "env \<Rightarrow> pointer \<Rightarrow> world \<Rightarrow> (bool \<times> world) option" where
  "stream_BeginConfigure E p = on_stream p (BeginConfigure (plat E))"

definition stream_EndConfigure :: "env \<Rightarrow> pointer \<Rightarrow> world \<Rightarrow> (int \<times> world) option" where
  "stream_EndConfigure E p = on_stream p (EndConfigure (plat E))"

definition stream_AbortConfigure :: "env \<Rightarrow> pointer \<Rightarrow> world \<Rightarrow> (int \<times> world) option" where
  "stream_AbortConfigure E p =
     on_stream p (\<lambda>s sh. case AbortConfigure (plat E) s of (r, s1) \<Rightarrow> (r, s1, sh))"

definition stream_is_configuring :: "pointer \<Rightarrow> world \<Rightarrow> bool option" where
  "stream_is_configuring p w = map_option IsConfigureActive (kv_find (objects w) p)"

primrec BeginConfigureAll :: "env \<Rightarrow> pointer list \<Rightarrow> world \<Rightarrow> (bool \<times> world) option" where
  "BeginConfigureAll E [] w = Some (True, w)"
| "BeginConfigureAll E (p # ps) w = do {
     (ok, w1) \<leftarrow> stream_BeginConfigure E p w;
     if ok then BeginConfigureAll E ps w1 else Some (False, w1)
   }"

text \<open>A loop that calls an operation on the streams being configured; it stops at an error.\<close>

primrec each_configuring :: "(pointer \<Rightarrow> world \<Rightarrow> (int \<times> world) option) \<Rightarrow> pointer list \<Rightarrow> world \<Rightarrow>
    (int \<times> world) option" where
  "each_configuring f [] w = Some (0, w)"
| "each_configuring f (p # ps) w = do {
     active \<leftarrow> stream_is_configuring p w;
     if active then do {
       (res, w1) \<leftarrow> f p w;
       if res \<noteq> 0 then Some (res, w1) else each_configuring f ps w1
     } else each_configuring f ps w
   }"

text \<open>The usage and the buffer count of the streams as the HAL sees and changes them.\<close>

primrec stream_settings :: "pointer list \<Rightarrow> world \<Rightarrow> (u32 \<times> u32) list option" where
  "stream_settings [] w = Some []"
| "stream_settings (p # ps) w = do {
     s \<leftarrow> kv_find (objects w) p;
     rest \<leftarrow> stream_settings ps w;
     Some ((st_usage s, st_max_buffers s) # rest)
   }"

fun apply_settings :: "pointer list \<Rightarrow> (u32 \<times> u32) list \<Rightarrow> world \<Rightarrow> world option" where
  "apply_settings (p # ps) ((u, n) # vs) w = do {
     (_, w1) \<leftarrow> on_stream p (\<lambda>s sh. ((), s\<lparr>st_usage := u, st_max_buffers := n\<rparr>, sh)) w;
     apply_settings ps vs w1
   }"
| "apply_settings _ _ w = Some w"

text \<open>
  Lines 445--478: the call of the HAL, with the usage flags converted for it and back when
  the buffers come from GBM. The input stream is last; it has no buffer count.
\<close>

definition HalConfigure :: "env \<Rightarrow> world \<Rightarrow> (int \<times> world) option" where
  "HalConfigure E w = do {
     let there = (\<lambda>(u, n). (if uses_gbm E then local_to_gralloc E u else u, n :: u32));
     let back = (\<lambda>(u, n). (if uses_gbm E then gralloc_to_local E u else u, n :: u32));
     let ps = stream_pointers w;
     let has_input = 0 \<le> in_stream_id (input_stream (dev w));
     vs \<leftarrow> stream_settings ps w;
     let all = map there (vs @ (if has_input then [(0, 0)] else []));
     let mode = GetOpMode E (dev w);
     let (res, vs1) = configure_streams E (log w) mode all;
     let w1 = emit (Hal_configure mode all
                (if session_parameters E \<and> hfr_mode_enabled (dev w)
                 then Some (frame_rate_range (dev w)) else None)) w;
     w2 \<leftarrow> apply_settings ps (map back vs1) w1;
     let w3 = (if has_input
               then upd_dev (\<lambda>d. d\<lparr>input_stream := (input_stream d)\<lparr>in_usage :=
                      (if length ps < length vs1 then fst (back (vs1 ! length ps)) else 0)\<rparr>\<rparr>) w2
               else w2);
     Some (res, w3)
   }"

definition delete_stream :: "pointer \<Rightarrow> world \<Rightarrow> world option" where
  "delete_stream p w = do {
     s \<leftarrow> kv_find (objects w) p;
     let (_, sh1) = DestroyStream s (shr w);
     Some (w\<lparr>objects := kv_remove p (objects w), shr := sh1\<rparr>)
   }"

primrec delete_all :: "pointer list \<Rightarrow> world \<Rightarrow> world option" where
  "delete_all [] w = Some w"
| "delete_all (p # ps) w = do { w1 \<leftarrow> delete_stream p w; delete_all ps w1 }"

definition ConfigureStreamsLocked :: "env \<Rightarrow> world \<Rightarrow> (int \<times> world) option" where
  "ConfigureStreamsLocked E w =
     (if state (dev w) \<noteq> STATE_NOT_CONFIGURED \<and> state (dev w) \<noteq> STATE_CONFIGURED
      then Some (- ENOSYS, w)
      else if \<not> reconfig (dev w) then Some (0, w)
      else do {
        (ok, w1) \<leftarrow> BeginConfigureAll E (stream_pointers w) w;
        if \<not> ok then Some (- ENOSYS, w1)
        else do {
          (res, w2) \<leftarrow> HalConfigure E w1;
          if res = - EINVAL then do {
            (ares, w3) \<leftarrow> each_configuring (stream_AbortConfigure E) (stream_pointers w2) w2;
            if ares \<noteq> 0 then Some (ares, w3)
            else Some (- EINVAL, upd_dev (\<lambda>d. d\<lparr>reconfig := True\<rparr>)
                                   (InternalUpdateStatusLocked STATE_NOT_CONFIGURED w3))
          } else if res \<noteq> 0 then Some (res, w2)
          else do {
            (eres, w3) \<leftarrow> each_configuring (stream_EndConfigure E) (stream_pointers w2) w2;
            if eres \<noteq> 0 then Some (eres, w3)
            else do {
              let w4 = upd_dev (\<lambda>d. d\<lparr>reconfig := False\<rparr>)
                         (FinishConfiguration (dev_batch_size (dev w3)) w3);
              let w5 = InternalUpdateStatusLocked STATE_CONFIGURED w4;
              w6 \<leftarrow> delete_all (deleted_streams (dev w5)) w5;
              Some (0, upd_dev (\<lambda>d. d\<lparr>deleted_streams := []\<rparr>) w6)
            }
          }
        }
      })"

record StreamConfiguration =
  is_constrained_high_speed :: bool
  cfg_is_raw_only :: bool
  cfg_batch_size :: u32
  cfg_fps_sensormode_index :: u32
  cfg_feature_flags :: "u32 option" \<comment> \<open>of the parameters, when they are given\<close>
  cfg_frame_rate_range :: "int \<times> int"

text \<open>The result is stored in a \<^verbatim>\<open>bool\<close> before it is returned. \<open>fps_idx\<close> is a build option.\<close>

definition ConfigureStreams :: "env \<Rightarrow> bool \<Rightarrow> StreamConfiguration \<Rightarrow> world \<Rightarrow> (int \<times> world) option" where
  "ConfigureStreams E fps_idx cfg w = do {
     let w1 = upd_dev (\<lambda>d. d\<lparr>hfr_mode_enabled := is_constrained_high_speed cfg,
                is_raw_only := cfg_is_raw_only cfg, dev_batch_size := cfg_batch_size cfg,
                frame_rate_range := cfg_frame_rate_range cfg,
                cam_feature_flags := (case cfg_feature_flags cfg of
                   None \<Rightarrow> cam_feature_flags d | Some f \<Rightarrow> cam_feature_flags d OR f),
                fps_sensormode_index := (if fps_idx then cfg_fps_sensormode_index cfg
                                         else fps_sensormode_index d)\<rparr>) w;
     (res, w2) \<leftarrow> ConfigureStreamsLocked E w1;
     Some (if res \<noteq> 0 then 1 else 0, w2)
   }"

definition EndConfigure :: "env \<Rightarrow> bool \<Rightarrow> StreamConfiguration \<Rightarrow> world \<Rightarrow> (int \<times> world) option" where
  "EndConfigure E fps_idx cfg w =
     (if \<not> camera_module (dev w) then Some (- ENODEV, w)
      else if is_constrained_high_speed cfg \<and> \<not> is_hfr_supported (dev w) then Some (- EINVAL, w)
      else ConfigureStreams E fps_idx cfg w)"

section \<open>Creating and deleting streams\<close>

definition device_unusable :: "State \<Rightarrow> bool" where
  "device_unusable st \<longleftrightarrow> st = STATE_ERROR \<or> st = STATE_NOT_INITIALIZED \<or> st = STATE_CLOSED"

fun best_blob :: "env \<Rightarrow> int list \<Rightarrow> int \<times> int \<Rightarrow> int \<times> int" where
  "best_blob E (f # wd # h # inp # rest) best =
     best_blob E rest (if inp = 0 \<and> f = blob_code E \<and> fst best * snd best < wd * h
                       then (wd, h) else best)"
| "best_blob E _ best = best"

definition QueryMaxBlobSize :: "env \<Rightarrow> metadata \<Rightarrow> int \<times> int" where
  "QueryMaxBlobSize E info =
     (let v = entry_values E info ANDROID_SCALER_AVAILABLE_STREAM_CONFIGURATIONS
      in if v = [] \<or> length v mod 4 \<noteq> 0 then (0, 0) else best_blob E v (0, 0))"

text \<open>\<open>None\<close> when the assertion on the maximum size fails.\<close>

definition CaclulateBlobSize :: "env \<Rightarrow> int \<Rightarrow> int \<Rightarrow> metadata \<Rightarrow> int option" where
  "CaclulateBlobSize E wd h info =
     (case QueryMaxBlobSize E info of
        (mw, mh) \<Rightarrow>
          if mw = 0 then Some (- EINVAL)
          else case entry_values E info ANDROID_JPEG_MAX_SIZE of
            [] \<Rightarrow> Some (- EINVAL)
          | maxSize # _ \<Rightarrow>
              if \<not> jpeg_size_min E < maxSize then None
              else
                let F = flts E;
                    scale = f_div F (f_of_int F (wd * h)) (f_of_int F (mw * mh));
                    sz = f_to_int F (f_add F (f_mul F scale (f_of_int F (maxSize - jpeg_size_min E)))
                                             (f_of_int F (jpeg_size_min E)))
                in Some (if sz > maxSize then maxSize else sz))"

definition new_stream :: "env \<Rightarrow> int \<Rightarrow> int \<Rightarrow> CameraStreamParameters \<Rightarrow> world \<Rightarrow> pointer \<times> world" where
  "new_stream E i blobSize cfg w =
     (let s = Camera3Stream (plat E) i (word_of_int blobSize) cfg (alloc_device (dev w));
          p = next_object w
      in (p, w\<lparr>objects := kv_add p s (objects w), next_object := p + 1\<rparr>))"

definition CreateStream :: "env \<Rightarrow> waits \<Rightarrow> CameraStreamParameters \<Rightarrow> world \<Rightarrow> (int \<times> world) option" where
  "CreateStream E wt cfg w =
     (if \<not> par_cb cfg then Some (- EINVAL, w)
      else if device_unusable (state (dev w)) then Some (- ENOSYS, w)
      else
        let wasActive = (state (dev w) = STATE_RUNNING);
            (pres, w1) = (if wasActive then InternalPauseAndWaitLocked wt w else (0, w))
        in if pres \<noteq> 0 then Some (pres, SetErrorStateLockedV w1)
           else if state (dev w1) = STATE_RUNNING then None
           else do {
             blob \<leftarrow> (if par_format cfg = HAL_PIXEL_FORMAT_BLOB
                      then CaclulateBlobSize E (sint (par_width cfg)) (sint (par_height cfg))
                             (device_info (dev w1))
                      else Some 0);
             if par_format cfg = HAL_PIXEL_FORMAT_BLOB \<and> blob \<le> 0 then Some (- EINVAL, w1)
             else do {
               let i = next_stream_id (dev w1);
               let (p, w2) = new_stream E i blob cfg w1;
               let w3 = upd_dev (\<lambda>d. d\<lparr>streams := kv_add i p (streams d), reconfig := True\<rparr>) w2;
               let done = (\<lambda>w. Some (next_stream_id (dev w),
                               upd_dev (\<lambda>d. d\<lparr>next_stream_id := next_stream_id d + 1\<rparr>) w));
               if wasActive then do {
                 (res, w4) \<leftarrow> ConfigureStreamsLocked E w3;
                 if res \<noteq> 0 then Some (res, w4) else done (snd (InternalResumeLocked wt w4))
               } else done w3
             }
           })"

record CameraInputStreamParameters =
  ip_width :: u32
  ip_height :: u32
  ip_format :: hal_format
  ip_get_input_buffer :: bool
  ip_return_input_buffer :: bool

definition CreateInputStream :: "env \<Rightarrow> waits \<Rightarrow> CameraInputStreamParameters \<Rightarrow> world \<Rightarrow>
    (int \<times> world) option" where
  "CreateInputStream E wt cfg w =
     (if \<not> ip_get_input_buffer cfg \<or> \<not> ip_return_input_buffer cfg then Some (- EINVAL, w)
      else if 0 \<le> in_stream_id (input_stream (dev w)) then Some (- ENOSYS, w)
      else if device_unusable (state (dev w)) then Some (- ENOSYS, w)
      else
        let wasActive = (state (dev w) = STATE_RUNNING);
            (pres, w1) = (if wasActive then InternalPauseAndWaitLocked wt w else (0, w))
        in if pres \<noteq> 0 then Some (pres, SetErrorStateLockedV w1)
           else if state (dev w1) = STATE_RUNNING then None
           else do {
             let w2 = upd_dev (\<lambda>d. d\<lparr>reconfig := True,
                        input_stream := no_input_stream\<lparr>in_width := ip_width cfg,
                          in_height := ip_height cfg, in_format := ip_format cfg,
                          in_stream_id := next_stream_id d\<rparr>,
                        next_stream_id := next_stream_id d + 1\<rparr>) w1;
             if wasActive then do {
               (res, w3) \<leftarrow> ConfigureStreamsLocked E w2;
               if res \<noteq> 0 then Some (res, w3)
               else (let w4 = snd (InternalResumeLocked wt w3)
                     in Some (in_stream_id (input_stream (dev w4)), w4))
             } else Some (in_stream_id (input_stream (dev w2)), w2)
           })"

definition DeleteStream :: "env \<Rightarrow> waits \<Rightarrow> int \<Rightarrow> bool \<Rightarrow> world \<Rightarrow> (int \<times> world) option" where
  "DeleteStream E wt i cache w =
     (if device_unusable (state (dev w)) then Some (- ENOSYS, w)
      else
        let (pres, w1) = (if \<not> cache then InternalPauseAndWaitLocked wt w else (0, w))
        in if pres \<noteq> 0 then Some (pres, SetErrorStateLockedV w1)
           else if i = in_stream_id (input_stream (dev w1))
           then Some (0, upd_dev (\<lambda>d. d\<lparr>input_stream := (input_stream d)\<lparr>in_stream_id := -1\<rparr>\<rparr>) w1)
           else case kv_find (streams (dev w1)) i of
             None \<Rightarrow> Some (- EINVAL, w1)
           | Some p \<Rightarrow> do {
               active \<leftarrow> Request_Handler.IsStreamActive p w1;
               if active then Some (- ENOSYS, w1)
               else do {
                 let w2 = upd_dev (\<lambda>d. d\<lparr>streams := kv_remove i (streams d),
                            cam_feature_flags := (if kv_remove i (streams d) = [] then 0
                                                  else cam_feature_flags d)\<rparr>) w1;
                 (cres, w3) \<leftarrow> on_stream p Close w2;
                 if \<not> cache \<and> streams (dev w3) \<noteq> [] then do {
                   (res, w4) \<leftarrow> ConfigureStreamsLocked E
                                  (upd_dev (\<lambda>d. d\<lparr>reconfig := True\<rparr>) w3);
                   if res \<noteq> 0 then Some (res, w4)
                   else Some (res, snd (InternalResumeLocked wt w4))
                 } else
                   Some (cres, upd_dev (\<lambda>d. d\<lparr>
                     reconfig := (if state d \<noteq> STATE_RUNNING then True else reconfig d),
                     deleted_streams := deleted_streams d @ [p]\<rparr>) w3)
               }
             })"

section \<open>Preparing and tearing down\<close>

text \<open>
  An unknown id is noticed but not acted on: the access at index \<open>-ENOENT\<close> that follows is
  out of range.
\<close>

definition Prepare :: "env \<Rightarrow> int \<Rightarrow> world \<Rightarrow> (int \<times> world) option" where
  "Prepare E i w =
     (case kv_find (streams (dev w)) i of
        None \<Rightarrow> None
      | Some p \<Rightarrow> do {
          s \<leftarrow> kv_find (objects w) p;
          if Stream.IsStreamActive s then Some (- EINVAL, w)
          else do {
            active \<leftarrow> Request_Handler.IsStreamActive p w;
            if active then Some (- EINVAL, w) else Prepare_Handler.Prepare E (Some p) w
          }
        })"

definition TearDown :: "int \<Rightarrow> world \<Rightarrow> (int \<times> world) option" where
  "TearDown i w =
     (case kv_find (streams (dev w)) i of
        None \<Rightarrow> None
      | Some p \<Rightarrow> do {
          active \<leftarrow> Request_Handler.IsStreamActive p w;
          if active then Some (- EINVAL, w) else on_stream p Stream.TearDown w
        })"

text \<open>The destructor.\<close>

definition DestroyDevice :: "world \<Rightarrow> world option" where
  "DestroyDevice w = do {
     (_, w1) \<leftarrow> Prepare_Handler.Clear (upd_rh (\<lambda>h. h\<lparr>rh_exit_pending := True\<rparr>) w);
     w2 \<leftarrow> delete_all (stream_pointers w1) w1;
     w3 \<leftarrow> delete_all (deleted_streams (dev w2)) (upd_dev (\<lambda>d. d\<lparr>streams := []\<rparr>) w2);
     Some (upd_dev (\<lambda>d. d\<lparr>deleted_streams := [], alloc_device := False,
             client_count := client_count d - 1, pending_error_requests := []\<rparr>) w3)
   }"

end
