(* ===== verification/Device_Requests.thy ===== *)
theory Device_Requests
  imports Device
begin

text \<open>
  The requests a client submits to a \<^verbatim>\<open>Camera3DeviceClient\<close>: validation, translation
  into capture requests, cancelling and flushing. Source:
  \<^verbatim>\<open>common/cameraadaptor/qmmf_camera3_device_client.cc\<close>, lines 864--910, 996--1048,
  1401--1445 and 1518--1810, 1876--1906.
\<close>

record Camera3Request =
  c3_metadata :: metadata
  c3_streamIds :: "int list"

section \<open>Validation\<close>

text \<open>
  The loop over the sorted stream ids (lines 1582--1608): the error, or the metadata and the
  index of the input stream. \<open>None\<close> when the container of the platform aborts on a missing
  key instead of returning a null pointer.
\<close>

fun CheckStreamIds :: "env \<Rightarrow> world \<Rightarrow> int list \<Rightarrow> nat \<Rightarrow> int \<Rightarrow> metadata \<times> nat option \<Rightarrow>
    (int + metadata \<times> nat option) option" where
  "CheckStreamIds E w [] k prev acc = Some (Inr acc)"
| "CheckStreamIds E w (i # is) k prev (md, inp) =
     (if in_stream_id (input_stream (dev w)) = i
      then CheckStreamIds E w is (Suc k) prev
             (md_update (meta E) md ANDROID_REQUEST_INPUT_STREAMS [i], Some k)
      else case kv_find (streams (dev w)) i of
        None \<Rightarrow> if checked_containers E then None else Some (Inl (- EINVAL))
      | Some p \<Rightarrow>
          if prev = i then Some (Inl (- EINVAL))
          else CheckStreamIds E w is (Suc k) i (md, inp))"

text \<open>Lines 1564--1617: the metadata of one request, with the ids of its streams and its own.\<close>

definition CheckRequest :: "env \<Rightarrow> world \<Rightarrow> int \<Rightarrow> Camera3Request \<Rightarrow> (int + metadata) option" where
  "CheckRequest E w rid req =
     (if c3_metadata req = [] then Some (Inl (- EINVAL))
      else if c3_streamIds req = [] then Some (Inl (- EINVAL))
      else
        let ids = sort (c3_streamIds req)
        in do {
             chk \<leftarrow> CheckStreamIds E w ids 0 (-1) (c3_metadata req, None);
             case chk of
               Inl e \<Rightarrow> Some (Inl e)
             | Inr (md, inp) \<Rightarrow>
                 let outs = (case inp of None \<Rightarrow> ids | Some k \<Rightarrow> take k ids @ drop (Suc k) ids)
                 in if outs = [] \<and> checked_containers E then None
                    else Some (Inr (md_update (meta E)
                           (md_update (meta E) md ANDROID_REQUEST_OUTPUT_STREAMS outs)
                           ANDROID_REQUEST_ID [rid]))
           })"

text \<open>The loop over the requests; the ids given so far are kept even when it fails.\<close>

fun CheckRequests :: "env \<Rightarrow> int \<Rightarrow> Camera3Request list \<Rightarrow> metadata list \<Rightarrow> world \<Rightarrow>
    ((int + metadata list \<times> int) \<times> world) option" where
  "CheckRequests E rid [] acc w = Some (Inr (acc, rid), w)"
| "CheckRequests E rid (q # qs) acc w =
     (case CheckRequest E w rid q of
        None \<Rightarrow> None
      | Some (Inl e) \<Rightarrow> Some (Inl e, w)
      | Some (Inr md) \<Rightarrow>
          CheckRequests E (rid + 1) qs (acc @ [md])
            (upd_dev (\<lambda>d. d\<lparr>current_request_ids := current_request_ids d @ [rid]\<rparr>) w))"

section \<open>Capture requests\<close>

text \<open>The streams of a request (lines 1758--1783).\<close>

primrec RequestStreams :: "env \<Rightarrow> int list \<Rightarrow> pointer list \<Rightarrow> world \<Rightarrow>
    ((int + pointer list) \<times> world) option" where
  "RequestStreams E [] acc w = Some (Inr acc, w)"
| "RequestStreams E (i # is) acc w =
     (case kv_find (streams (dev w)) i of
        None \<Rightarrow> Some (Inl (- EINVAL), w)
      | Some p \<Rightarrow> do {
          active \<leftarrow> stream_is_configuring p w;
          (res, w1) \<leftarrow> (if active then stream_EndConfigure E p w else Some (0, w));
          if res \<noteq> 0 then Some (Inl (- ENODEV), w1)
          else do {
            s \<leftarrow> kv_find (objects w1) p;
            if IsPrepareActive s then Some (Inl (- ENOSYS), w1)
            else RequestStreams E is (acc @ [p]) w1
          }
        })"

text \<open>Lines 1786--1807: the input stream of a request.\<close>

definition RequestInput :: "env \<Rightarrow> world \<Rightarrow> metadata \<Rightarrow> int + bool \<times> metadata" where
  "RequestInput E w md =
     (case md_find (meta E) md ANDROID_REQUEST_INPUT_STREAMS of
        None \<Rightarrow> Inr (False, md)
      | Some v \<Rightarrow>
          if length v \<noteq> 1 then Inl (- ENOSYS)
          else if in_stream_id (input_stream (dev w)) \<noteq> v ! 0 then Inl (- ENOSYS)
          else Inr (True, md_erase (meta E) md ANDROID_REQUEST_INPUT_STREAMS))"

definition GenerateCaptureRequestLocked :: "env \<Rightarrow> metadata \<Rightarrow> world \<Rightarrow>
    ((int + CaptureRequest) \<times> world) option" where
  "GenerateCaptureRequestLocked E md w = do {
     (cres, w1) \<leftarrow> (if state (dev w) = STATE_NOT_CONFIGURED \<or> reconfig (dev w)
                   then ConfigureStreamsLocked E w else Some (0, w));
     if cres \<noteq> 0 then Some (Inl cres, w1)
     else if (state (dev w) = STATE_NOT_CONFIGURED \<or> reconfig (dev w)) \<and>
             state (dev w1) = STATE_NOT_CONFIGURED then Some (Inl (- ENODEV), w1)
     else do {
       let ids = entry_values E md ANDROID_REQUEST_OUTPUT_STREAMS;
       if ids = [] then Some (Inl (- EINVAL), w1)
       else do {
         (rs, w2) \<leftarrow> RequestStreams E ids [] w1;
         case rs of
           Inl e \<Rightarrow> Some (Inl e, w2)
         | Inr ps \<Rightarrow>
             (case RequestInput E w2 (md_erase (meta E) md ANDROID_REQUEST_OUTPUT_STREAMS) of
                Inl e \<Rightarrow> Some (Inl e, w2)
              | Inr (inp, md1) \<Rightarrow>
                  Some (Inr \<lparr>req_metadata = md1, req_streams = ps,
                             resultExtras = no_extras\<lparr>ex_input := inp\<rparr>, req_input = inp\<rparr>, w2))
       }
     }
   }"

text \<open>The requests with an input stream are kept apart from the others.\<close>

primrec GetRequestListLocked :: "env \<Rightarrow> metadata list \<Rightarrow> int \<Rightarrow>
    CaptureRequest list \<times> CaptureRequest list \<Rightarrow> world \<Rightarrow>
    ((int \<times> CaptureRequest list \<times> CaptureRequest list) \<times> world) option" where
  "GetRequestListLocked E [] burst acc w = Some ((0, acc), w)"
| "GetRequestListLocked E (md # mds) burst acc w = do {
     (g, w1) \<leftarrow> GenerateCaptureRequestLocked E md w;
     case g of
       Inl e \<Rightarrow> Some ((- EINVAL, acc), w1)
     | Inr r \<Rightarrow>
         (case entry_values E md ANDROID_REQUEST_ID of
            [] \<Rightarrow> Some ((- EINVAL, acc), w1)
          | rid # _ \<Rightarrow>
              let r1 = r\<lparr>resultExtras := (resultExtras r)\<lparr>burstId := burst, requestId := rid\<rparr>\<rparr>
              in GetRequestListLocked E mds (burst + 1)
                   (if \<not> req_input r1 then (fst acc @ [r1], snd acc) else (fst acc, snd acc @ [r1])) w1)
   }"

definition AddRequestListLocked :: "env \<Rightarrow> waits \<Rightarrow> metadata list \<Rightarrow> bool \<Rightarrow> world \<Rightarrow>
    ((int \<times> int option) \<times> world) option" where
  "AddRequestListLocked E wt mds streaming w = do {
     ((res, outs, reprocs), w1) \<leftarrow> GetRequestListLocked E mds 0 ([], []) w;
     if res \<noteq> 0 then Some ((res, None), w1)
     else if (outs = []) = (reprocs = []) then Some ((- EINVAL, None), w1)
     else
       let ((qres, lastFrame), w2) =
         (if reprocs \<noteq> [] then QueueReprocRequestList E reprocs w1
          else if streaming
          then (case SetRepeatingRequests outs w1 of ((r, l), w') \<Rightarrow> ((r, Some l), w'))
          else (case QueueRequestList outs w1 of ((r, l), w') \<Rightarrow> ((r, Some l), w')))
       in if qres \<noteq> 0 then Some ((qres, lastFrame), w2)
          else Some ((qres, lastFrame), snd (WaitUntilStateThenRelock True wt w2))
   }"

definition SubmitRequestList :: "env \<Rightarrow> waits \<Rightarrow> Camera3Request list \<Rightarrow> bool \<Rightarrow> world \<Rightarrow>
    ((int \<times> int option) \<times> world) option" where
  "SubmitRequestList E wt qs streaming w =
     (if qs = [] then Some ((- EINVAL, None), w)
      else
        let requestId = next_request_id (dev w);
            w1 = upd_dev (\<lambda>d. d\<lparr>current_request_ids := []\<rparr>) w
        in if device_unusable (state (dev w1)) then Some ((- ENOSYS, None), w1)
           else do {
             (chk, w2) \<leftarrow> CheckRequests E requestId qs [] w1;
             case chk of
               Inl e \<Rightarrow> Some ((e, None), w2)
             | Inr (mds, nextId) \<Rightarrow> do {
                 ((res, lastFrame), w3) \<leftarrow> AddRequestListLocked E wt mds streaming
                    (upd_dev (\<lambda>d. d\<lparr>next_request_id := nextId\<rparr>) w2);
                 if res \<noteq> 0 then Some ((res, lastFrame), w3)
                 else Some ((requestId, lastFrame),
                        if streaming
                        then upd_dev (\<lambda>d. d\<lparr>repeating_requests := repeating_requests d @ [requestId]\<rparr>) w3
                        else w3)
               }
           })"

definition SubmitRequest :: "env \<Rightarrow> waits \<Rightarrow> Camera3Request \<Rightarrow> bool \<Rightarrow> world \<Rightarrow>
    ((int \<times> int option) \<times> world) option" where
  "SubmitRequest E wt q streaming w = SubmitRequestList E wt [q] streaming w"

section \<open>Other requests of the client\<close>

definition CancelRequest :: "int \<Rightarrow> world \<Rightarrow> (int \<times> int option) \<times> world" where
  "CancelRequest rid w =
     (if device_unusable (state (dev w)) then ((- ENOSYS, None), w)
      else if rid \<notin> set (repeating_requests (dev w)) then ((- EINVAL, None), w)
      else case ClearRepeatingRequests w of
        ((res, lastFrame), w1) \<Rightarrow>
          ((res, Some lastFrame),
           if res = 0 then upd_dev (\<lambda>d. d\<lparr>repeating_requests := []\<rparr>) w1 else w1))"

text \<open>
  \<open>Flush\<close> runs the clearing of the request handler and the call of the HAL without the
  device lock; \<open>flushed\<close> is the state in which the HAL call returns.
\<close>

definition Flush :: "env \<Rightarrow> waits \<Rightarrow> (world \<Rightarrow> world) \<Rightarrow> world \<Rightarrow> (int \<times> int) \<times> world" where
  "Flush E wt flushed w =
     (let w1 = upd_dev (\<lambda>d. d\<lparr>flush_on_going := True\<rparr>) w
      in case Request_Handler.Clear wt w1 of
           ((cres, lastFrame), w2) \<Rightarrow>
             if cres \<noteq> 0
             then ((cres, lastFrame), upd_dev (\<lambda>d. d\<lparr>flush_on_going := False\<rparr>) w2)
             else
               let fres = hal_flush E (log w2);
                   w3 = flushed (emit Hal_flush w2)
               in ((fres, lastFrame),
                   upd_dev (\<lambda>d. d\<lparr>repeating_requests := (if fres = 0 then [] else repeating_requests d),
                                 flush_on_going := False\<rparr>) w3))"

definition CreateDefaultRequest :: "env \<Rightarrow> int \<Rightarrow> world \<Rightarrow> ((int \<times> metadata option) \<times> world) option" where
  "CreateDefaultRequest E tid w =
     (if device_unusable (state (dev w)) then Some ((- ENOSYS, None), w)
      else if tid < 0 \<or> template_count E \<le> tid then None
      else
        let cached = (case kv_find (request_templates (dev w)) tid of None \<Rightarrow> [] | Some md \<Rightarrow> md)
        in if cached \<noteq> [] then Some ((0, Some cached), w)
           else case construct_default_request_settings E tid of
             None \<Rightarrow> Some ((- EINVAL, None), w)
           | Some md \<Rightarrow>
               Some ((0, Some md),
                 upd_dev (\<lambda>d. d\<lparr>request_templates := kv_add tid md (request_templates d)\<rparr>) w))"

definition ReturnStreamBuffer :: "int \<Rightarrow> handle \<Rightarrow> world \<Rightarrow> (int \<times> world) option" where
  "ReturnStreamBuffer i h w =
     (if state (dev w) \<noteq> STATE_CONFIGURED \<and> state (dev w) \<noteq> STATE_RUNNING then Some (- ENOSYS, w)
      else case kv_find (streams (dev w)) i of
        None \<Rightarrow> Some (- EINVAL, w)
      | Some p \<Rightarrow> stream_ReturnBuffer h p w)"

definition GetCameraInfo :: "env \<Rightarrow> u32 \<Rightarrow> bool \<Rightarrow> world \<Rightarrow> int \<times> metadata option" where
  "GetCameraInfo E idx has_info w =
     (if \<not> has_info then (- EINVAL, None)
      else if idx \<ge> number_of_cameras (dev w) then (- EINVAL, None)
      else if \<not> camera_module (dev w) then (- ENODEV, None)
      else case get_camera_info E idx of
        (res, info) \<Rightarrow> if res \<noteq> 0 then (res, None) else (res, Some info))"

end
