(* ===== verification/Device_Results.thy ===== *)
theory Device_Results
  imports Device_Requests
begin

text \<open>
  The callbacks of the HAL into a \<^verbatim>\<open>Camera3DeviceClient\<close>: capture results, shutter and
  error notifications, and the life of a pending request from its registration to its
  removal. Source: \<^verbatim>\<open>common/cameraadaptor/qmmf_camera3_device_client.cc\<close>, lines
  926--994, 1050--1399 and 1447--1476. The updates of metadata are taken to succeed, as the
  code's own branches for failing updates only report an error. \<open>None\<close> is a failed
  assertion, a dangling stream pointer or the call of an unset error callback.
\<close>

section \<open>Messages of the HAL\<close>

record camera3_capture_result =
  r_frame_number :: u32
  r_result :: "metadata option"
  r_output_buffers :: "out_buffer list"
  r_input_buffer :: "nat option"
  r_partial_result :: u32

datatype camera3_notify_msg =
    CAMERA3_MSG_SHUTTER u32 int \<comment> \<open>frame number and timestamp\<close>
  | CAMERA3_MSG_ERROR u32 int \<comment> \<open>frame number and error code\<close>
  | CAMERA3_MSG_OTHER

definition CAMERA3_MSG_ERROR_BUFFER :: int where "CAMERA3_MSG_ERROR_BUFFER = 4"

definition upd_pending :: "u32 \<Rightarrow> (PendingRequest \<Rightarrow> PendingRequest) \<Rightarrow> world \<Rightarrow> world" where
  "upd_pending f g w =
     (case kv_find (pending_requests (dev w)) f of
        None \<Rightarrow> w
      | Some r \<Rightarrow> upd_dev (\<lambda>d. d\<lparr>pending_requests := kv_add f (g r) (pending_requests d)\<rparr>) w)"

section \<open>Delivery to the client\<close>

definition HandlePartialResult :: "env \<Rightarrow> u32 \<Rightarrow> metadata \<Rightarrow> CaptureResultExtras \<Rightarrow> world \<Rightarrow>
    bool \<times> world" where
  "HandlePartialResult E frame partial extras w =
     (if resultCb (client_cb (dev w))
      then (True,
        emit (Ev_result
          (md_update (meta E)
            (md_update (meta E) partial ANDROID_REQUEST_FRAME_COUNT [sint frame])
            ANDROID_REQUEST_ID [requestId extras]) extras) w)
      else (True, w))"

text \<open>Lines 1329--1347: the order of the results; \<open>None\<close> for one that comes too late.\<close>

definition accept_result :: "CaptureResultExtras \<Rightarrow> u32 \<Rightarrow> device \<Rightarrow> device option" where
  "accept_result extras frame d =
     (if ex_input extras
      then (if frame < next_result_input_frame_number d then None
            else Some (d\<lparr>next_result_input_frame_number := frame + 1\<rparr>))
      else (if frame < next_result_frame_number d then None
            else Some (d\<lparr>next_result_frame_number := frame + 1\<rparr>)))"

definition SendCaptureResult :: "env \<Rightarrow> metadata \<Rightarrow> CaptureResultExtras \<Rightarrow> metadata \<Rightarrow> u32 \<Rightarrow>
    world \<Rightarrow> world" where
  "SendCaptureResult E md extras collected frame w =
     (if md = [] then w
      else if \<not> resultCb (client_cb (dev w)) then w
      else case accept_result extras frame (dev w) of
        None \<Rightarrow> SetErrorState w
      | Some d1 \<Rightarrow>
          let w1 = upd_dev (\<lambda>_. d1) w;
              m1 = md_update (meta E) md ANDROID_REQUEST_FRAME_COUNT [sint frame];
              m2 = (if is_partial_result_supported d1 \<and> collected \<noteq> []
                    then md_append (meta E) m1 collected else m1);
              m3 = md_sort (meta E) m2
          in if entry_values E m3 ANDROID_SENSOR_TIMESTAMP = [] then SetErrorState w1
             else emit (Ev_result m3 extras) w1)"

definition stream_ReturnBufferToClient :: "env \<Rightarrow> out_buffer \<Rightarrow> int \<Rightarrow> u32 \<Rightarrow> world \<Rightarrow> world option" where
  "stream_ReturnBufferToClient E b ts frame w = do {
     s \<leftarrow> kv_find (objects w) (fst b);
     (out, s1, sh1) \<leftarrow> ReturnBufferToClient (plat E) (snd b) ts (int (unat frame)) s (shr w);
     let w1 = w\<lparr>objects := kv_add (fst b) s1 (objects w), shr := sh1\<rparr>;
     Some (case out of None \<Rightarrow> w1 | Some sb \<Rightarrow> emit (Ev_buffer sb) w1)
   }"

primrec ReturnOutputBuffers :: "env \<Rightarrow> out_buffer list \<Rightarrow> int \<Rightarrow> u32 \<Rightarrow> world \<Rightarrow> world option" where
  "ReturnOutputBuffers E [] ts frame w = Some w"
| "ReturnOutputBuffers E (b # bs) ts frame w = do {
     w1 \<leftarrow> stream_ReturnBufferToClient E b ts frame w;
     w2 \<leftarrow> (if sb_status (snd b) = CAMERA3_BUFFER_STATUS_ERROR \<and> \<not> flush_on_going (dev w1) then
             (if \<not> errorCb (client_cb (dev w1)) then None
              else
                let extras = (case kv_find (pending_requests (dev w1)) frame of
                                Some r \<Rightarrow> pr_extras r
                              | None \<Rightarrow> no_extras\<lparr>frameNumber := frame\<rparr>)
                in Some (emit (Ev_error ERROR_CAMERA_BUFFER extras)
                     (upd_pending frame (\<lambda>r. r\<lparr>pr_status := CAMERA3_MSG_ERROR_BUFFER\<rparr>) w1)))
           else Some w1);
     ReturnOutputBuffers E bs ts frame w2
   }"

section \<open>Completion of a request\<close>

text \<open>A request is over: all its buffers are back, and it failed or has metadata and shutter.\<close>

definition request_complete :: "PendingRequest \<Rightarrow> bool" where
  "request_complete r \<longleftrightarrow>
     buffersRemaining r = 0 \<and> (pr_status r \<noteq> 0 \<or> (isMetaPresent r \<and> shutterTS r \<noteq> 0))"

definition RemovePendingRequestLocked :: "env \<Rightarrow> u32 \<Rightarrow> world \<Rightarrow> world option" where
  "RemovePendingRequestLocked E frame w = do {
     r \<leftarrow> kv_find (pending_requests (dev w)) frame;
     if request_complete r then do {
       let w1 = (if pr_status r = 0 \<and> sensorTS r \<noteq> shutterTS r then SetErrorState w else w);
       w2 \<leftarrow> ReturnOutputBuffers E (pendingBuffers r) 0 frame w1;
       r2 \<leftarrow> kv_find (pending_requests (dev w2)) frame;
       let w3 = (if pr_status r2 \<noteq> 0 \<and> (\<not> isMetaPresent r2 \<or> shutterTS r = 0)
                 then upd_dev (\<lambda>d. d\<lparr>pending_error_requests :=
                        kv_add frame r2 (pending_error_requests d)\<rparr>) w2
                 else w2);
       Some (upd_dev (\<lambda>d. d\<lparr>pending_requests := kv_remove frame (pending_requests d)\<rparr>) w3)
     } else Some w
   }"

definition ReturnInputBuffer :: "nat \<Rightarrow> world \<Rightarrow> world" where
  "ReturnInputBuffer native w =
     (let is = input_stream (dev w);
          h = (case kv_find (in_buffers_map is) native of None \<Rightarrow> 0 | Some h \<Rightarrow> h)
      in emit (Ev_return_input h (in_stream_id is))
           (upd_dev (\<lambda>d. d\<lparr>input_stream := is\<lparr>in_buffers_map := kv_remove native (in_buffers_map is),
                                            input_buffer_cnt := input_buffer_cnt is - 1\<rparr>\<rparr>) w))"

section \<open>Capture results\<close>

text \<open>
  Lines 1099--1158: the bookkeeping of a result on its request. The error, if any, is
  reported by the caller; otherwise the updated request, whether the metadata is a part
  only, and the parts collected so far.
\<close>

definition collect_partial :: "env \<Rightarrow> camera3_capture_result \<Rightarrow> device \<Rightarrow> PendingRequest \<Rightarrow>
    PendingRequest \<times> (bool option)" where
  "collect_partial E res d r =
     (let r1 = (if r_partial_result res \<noteq> 0
                then r\<lparr>pr_extras := (pr_extras r)\<lparr>partialResultCount := sint (r_partial_result res)\<rparr>\<rparr>
                else r)
      in case r_result res of
           None \<Rightarrow> (r1, Some False)
         | Some md \<Rightarrow>
             if \<not> is_partial_result_supported d then (r1, Some False)
             else if r_partial_result res > partial_result_count d \<or> r_partial_result res < 1
             then (r1, None)
             else if r_partial_result res < partial_result_count d
             then (r1\<lparr>composedResult := md_append (meta E) (composedResult r1) md\<rparr>, Some True)
             else (r1, Some False))"

definition buffers_after :: "camera3_capture_result \<Rightarrow> int \<Rightarrow> int" where
  "buffers_after res n =
     n - int (length (r_output_buffers res)) - (if r_input_buffer res = None then 0 else 1)"

definition sensor_time :: "env \<Rightarrow> camera3_capture_result \<Rightarrow> int \<Rightarrow> int" where
  "sensor_time E res old =
     (case r_result res of
        None \<Rightarrow> old
      | Some md \<Rightarrow> (case entry_values E md ANDROID_SENSOR_TIMESTAMP of [ts] \<Rightarrow> ts | _ \<Rightarrow> old))"

text \<open>Lines 1124--1178, with the pending lock held; the flag says that it got to the end.\<close>

definition FinishResult :: "env \<Rightarrow> camera3_capture_result \<Rightarrow> bool \<Rightarrow> world \<Rightarrow> (bool \<times> world) option" where
  "FinishResult E res isPartial w = do {
     let frame = r_frame_number res;
     r \<leftarrow> kv_find (pending_requests (dev w)) frame;
     let ts = shutterTS r;
     let whole = (r_result res \<noteq> None \<and> \<not> isPartial);
     if whole \<and> isMetaPresent r then Some (False, SetErrorState w)
     else do {
       let collected = (if whole \<and> is_partial_result_supported (dev w) then composedResult r else []);
       let r1 = (if whole then r\<lparr>isMetaPresent := True,
                     composedResult := (if is_partial_result_supported (dev w) then []
                                        else composedResult r)\<rparr> else r);
       let r2 = r1\<lparr>buffersRemaining := buffers_after res (buffersRemaining r1)\<rparr>;
       if buffersRemaining r2 < 0
       then Some (False, SetErrorState (upd_pending frame (\<lambda>_. r2) w))
       else do {
         let r3 = r2\<lparr>sensorTS := sensor_time E res (sensorTS r2),
                     pendingBuffers := (if ts = 0 then pendingBuffers r2 @ r_output_buffers res
                                        else pendingBuffers r2)\<rparr>;
         let r4 = (if whole \<and> ts = 0
                   then r3\<lparr>pendingMetadata := the (r_result res), composedResult := collected\<rparr>
                   else r3);
         let w1 = upd_pending frame (\<lambda>_. r4) w;
         let w2 = (if whole \<and> ts \<noteq> 0
                   then SendCaptureResult E (the (r_result res)) (pr_extras r4) collected frame w1
                   else w1);
         w3 \<leftarrow> (if 0 < ts then ReturnOutputBuffers E (r_output_buffers res) ts frame w2 else Some w2);
         w4 \<leftarrow> RemovePendingRequestLocked E frame w3;
         Some (True, w4)
       }
     }
   }"

definition HandleCaptureResult :: "env \<Rightarrow> camera3_capture_result \<Rightarrow> world \<Rightarrow> world option" where
  "HandleCaptureResult E res w =
     (let frame = r_frame_number res
      in if r_result res = None \<and> r_output_buffers res = [] \<and> r_input_buffer res = None
         then Some (SetErrorState w)
         else if \<not> is_partial_result_supported (dev w) \<and> r_result res \<noteq> None \<and>
                 r_partial_result res \<noteq> 1
         then Some (SetErrorState w)
         else case kv_find (pending_requests (dev w)) frame of
           None \<Rightarrow>
             if kv_find (pending_error_requests (dev w)) frame \<noteq> None
             then Some (upd_dev (\<lambda>d. d\<lparr>pending_error_requests :=
                          kv_remove frame (pending_error_requests d)\<rparr>) w)
             else Some (SetErrorState w)
         | Some r \<Rightarrow>
             (case collect_partial E res (dev w) r of
                (r1, part) \<Rightarrow>
                  let w1 = upd_pending frame (\<lambda>_. r1) w
                  in case part of
                       None \<Rightarrow> Some (SetErrorState w1)
                     | Some isPartial \<Rightarrow>
                         let w2 = (if isPartial
                                   then (case HandlePartialResult E frame (composedResult r1)
                                                (pr_extras r1) w1 of
                                           (got, w') \<Rightarrow>
                                             upd_pending frame (\<lambda>q. q\<lparr>partial3AReceived := got\<rparr>) w')
                                   else w1)
                         in do {
                              (done, w3) \<leftarrow> FinishResult E res isPartial w2;
                              Some (case r_input_buffer res of
                                      Some native \<Rightarrow> if done then ReturnInputBuffer native w3 else w3
                                    | None \<Rightarrow> w3)
                            }))"

section \<open>Notifications\<close>

definition hal_error :: "int \<Rightarrow> CameraErrorCode" where
  "hal_error c =
     (if c = 1 then ERROR_CAMERA_DEVICE else if c = 2 then ERROR_CAMERA_REQUEST
      else if c = 3 then ERROR_CAMERA_RESULT else if c = 4 then ERROR_CAMERA_BUFFER
      else ERROR_CAMERA_INVALID_ERROR)"

definition NotifyError :: "u32 \<Rightarrow> int \<Rightarrow> world \<Rightarrow> world" where
  "NotifyError frame c w =
     (let code = hal_error c
      in if code = ERROR_CAMERA_REQUEST \<or> code = ERROR_CAMERA_RESULT \<or> code = ERROR_CAMERA_BUFFER
         then
           let extras = (case kv_find (pending_requests (dev w)) frame of
                           Some r \<Rightarrow> pr_extras r
                         | None \<Rightarrow> no_extras\<lparr>frameNumber := frame\<rparr>);
               w1 = upd_pending frame (\<lambda>r. r\<lparr>pr_status := c\<rparr>) w
           in if \<not> flush_on_going (dev w1) \<and> errorCb (client_cb (dev w1))
              then emit (Ev_error code extras) w1 else w1
         else SetErrorState w)"

text \<open>Lines 1280--1300: the order of the shutter notifications.\<close>

definition accept_shutter :: "CaptureResultExtras \<Rightarrow> u32 \<Rightarrow> device \<Rightarrow> device option" where
  "accept_shutter extras frame d =
     (if ex_input extras
      then (if frame < next_shutter_input_frame_number d then None
            else Some (d\<lparr>next_shutter_input_frame_number := frame + 1\<rparr>))
      else (if frame < next_shutter_frame_number d then None
            else Some (d\<lparr>next_shutter_frame_number := frame + 1\<rparr>)))"

definition NotifyShutter :: "env \<Rightarrow> u32 \<Rightarrow> int \<Rightarrow> world \<Rightarrow> world option" where
  "NotifyShutter E frame ts w =
     (case kv_find (pending_requests (dev w)) frame of
        None \<Rightarrow> Some (SetErrorState w)
      | Some r \<Rightarrow>
          let w1 = (if shutterCb (client_cb (dev w)) then emit (Ev_shutter (pr_extras r) ts) w else w)
          in case accept_shutter (pr_extras r) frame (dev w1) of
               None \<Rightarrow> Some (SetErrorState w1)
             | Some d1 \<Rightarrow> do {
                 let w2 = upd_pending frame (\<lambda>q. q\<lparr>shutterTS := ts\<rparr>) (upd_dev (\<lambda>_. d1) w1);
                 let w3 = SendCaptureResult E (pendingMetadata r) (pr_extras r) (composedResult r) frame w2;
                 w4 \<leftarrow> ReturnOutputBuffers E (pendingBuffers r) ts frame w3;
                 RemovePendingRequestLocked E frame
                   (upd_pending frame (\<lambda>q. q\<lparr>pendingBuffers := []\<rparr>) w4)
               })"

definition Notify :: "env \<Rightarrow> camera3_notify_msg option \<Rightarrow> world \<Rightarrow> world option" where
  "Notify E msg w =
     (case msg of
        None \<Rightarrow> Some (SetErrorState w)
      | Some (CAMERA3_MSG_SHUTTER frame ts) \<Rightarrow> NotifyShutter E frame ts w
      | Some (CAMERA3_MSG_ERROR frame c) \<Rightarrow> Some (NotifyError frame c w)
      | Some CAMERA3_MSG_OTHER \<Rightarrow> Some (SetErrorState w))"

end
