(* ===== verification/Device_Error.thy ===== *)
theory Device_Error
  imports Device_Results
begin

text \<open>
  The error state of a \<^verbatim>\<open>Camera3DeviceClient\<close> over all its operations: the calls of the
  client, the callbacks of the HAL and of the monitor, and the iterations of the threads.
  Every one of them keeps the error state and reports entering it exactly once.
\<close>

section \<open>Reports of a device error\<close>

named_theorems adv_ops \<open>operations that respect the error state\<close>

fun device_error :: "event \<Rightarrow> bool" where
  "device_error (Ev_error c _) \<longleftrightarrow> c = ERROR_CAMERA_DEVICE"
| "device_error _ \<longleftrightarrow> False"

definition device_errors :: "world \<Rightarrow> nat" where
  "device_errors w = length (filter device_error (log w))"

definition in_error :: "world \<Rightarrow> bool" where
  "in_error w \<longleftrightarrow> state (dev w) = STATE_ERROR"

text \<open>The reports that entering the error state does not account for.\<close>

definition surplus :: "world \<Rightarrow> int" where
  "surplus w = int (device_errors w) -
     (if in_error w \<and> errorCb (client_cb (dev w)) then 1 else 0)"

definition adv :: "world \<Rightarrow> world \<Rightarrow> bool" where
  "adv w w' \<longleftrightarrow> client_cb (dev w') = client_cb (dev w) \<and> (in_error w \<longrightarrow> in_error w') \<and>
     surplus w' = surplus w"

lemmas adv_unfold = adv_def in_error_def surplus_def device_errors_def

lemma adv_refl [simp]: "adv w w"
  by (simp add: adv_def)

lemma adv_trans: "adv w w1 \<Longrightarrow> adv w1 w2 \<Longrightarrow> adv w w2"
  by (simp add: adv_def)

lemma adv_view:
  assumes "client_cb (dev w2) = client_cb (dev w1)" "state (dev w2) = state (dev w1)"
    "filter device_error (log w2) = filter device_error (log w1)"
  shows "adv w w2 = adv w w1" "adv w2 w = adv w1 w"
  using assms by (auto simp: adv_unfold)

lemma adv_simps [simp]:
  "adv w (upd_rh f w1) = adv w w1" "adv (upd_rh f w1) w = adv w1 w"
  "adv w (upd_ph g w1) = adv w w1" "adv (upd_ph g w1) w = adv w1 w"
  "adv w (upd_mon h w1) = adv w w1" "adv (upd_mon h w1) w = adv w1 w"
  "adv w (w1\<lparr>objects := ob\<rparr>) = adv w w1" "adv (w1\<lparr>objects := ob\<rparr>) w = adv w1 w"
  "adv w (w1\<lparr>shr := sh\<rparr>) = adv w w1" "adv (w1\<lparr>shr := sh\<rparr>) w = adv w1 w"
  "adv w (w1\<lparr>next_object := p\<rparr>) = adv w w1" "adv (w1\<lparr>next_object := p\<rparr>) w = adv w1 w"
  by (rule adv_view; simp)+

lemma adv_upd_dev [simp]:
  assumes "client_cb (f (dev w1)) = client_cb (dev w1)" "state (f (dev w1)) = state (dev w1)"
  shows "adv w (upd_dev f w1) = adv w w1" "adv (upd_dev f w1) w = adv w1 w"
  by (rule adv_view; simp add: assms)+

lemma adv_emit [simp]:
  assumes "\<not> device_error e"
  shows "adv w (emit e w1) = adv w w1" "adv (emit e w1) w = adv w1 w"
  by (rule adv_view; simp add: assms)+

text \<open>A change to another state that is not the error state, from one that is not.\<close>

lemma adv_status:
  assumes "state (dev w1) \<noteq> STATE_ERROR" "state (f (dev w1)) \<noteq> STATE_ERROR"
    "client_cb (f (dev w1)) = client_cb (dev w1)" "adv w w1"
  shows "adv w (upd_dev f w1)"
  using assms by (auto simp: adv_unfold)

lemma SetErrorStateLockedV_adv [simp, intro]: "adv w w1 \<Longrightarrow> adv w (SetErrorStateLockedV w1)"
  by (auto simp: adv_unfold SetErrorStateLockedV_def
      Let_def InternalUpdateStatusLocked_def TogglePause_def)

lemma SetErrorState_adv [simp, intro]: "adv w w1 \<Longrightarrow> adv w (SetErrorState w1)"
  by (simp add: SetErrorState_def)

lemma SignalError_adv [simp, intro]: "adv w w1 \<Longrightarrow> adv w (SignalError w1)"
  by (simp add: SignalError_def)

lemma error_first [dest!]:
  "adv (SetErrorStateLockedV w1) w \<Longrightarrow> adv w1 w" "adv (SetErrorState w1) w \<Longrightarrow> adv w1 w"
  "adv (SignalError w1) w \<Longrightarrow> adv w1 w"
  by (blast intro: adv_trans [OF SetErrorStateLockedV_adv] adv_trans [OF SetErrorState_adv]
      adv_trans [OF SignalError_adv] adv_refl)+

lemma only_streams_adv: "only_streams w w' \<Longrightarrow> adv w w'"
  by (simp add: only_streams_def adv_unfold)

lemmas on_stream_adv [adv_ops] = only_streams_adv [OF on_stream_only]

section \<open>Waits\<close>

definition calm :: "waits \<Rightarrow> bool" where
  "calm wt \<longleftrightarrow> (\<forall>w r w'. (r, w') \<in> set (wt w) \<longrightarrow> adv w w')"

lemma wait_once_adv [adv_ops]: "calm wt \<Longrightarrow> wait_once wt w = (r, w') \<Longrightarrow> adv w w'"
  by (cases "wt w") (force simp: wait_once_def calm_def)+

lemma StateLoop_adv:
  "\<forall>(r, w') \<in> set ws. adv w0 w' \<Longrightarrow> adv w0 w \<Longrightarrow> adv w0 (snd (StateLoop b n ws w))"
proof (induction ws arbitrary: w)
  case Nil
  then show ?case by (simp add: StateLoop.simps)
next
  case (Cons p ws)
  then show ?case by (cases p) (auto simp: StateLoop.simps [of b n "_ # ws"])
qed

lemma WaitUntilStateThenRelock_adv [adv_ops]:
  assumes "calm wt" "WaitUntilStateThenRelock b wt w = (r, w')"
  shows "adv w w'"
proof -
  define w1 where "w1 = upd_dev (\<lambda>d. d\<lparr>current_state_updates :=
      (if state_listeners (dev w) = 0 then [] else current_state_updates d),
      state_listeners := state_listeners d + 1\<rparr>) w"
  have 1: "adv w w1" by (simp add: w1_def)
  have "adv w (snd (StateLoop b n (wt w1) w1))" for n
    using assms(1) 1 by (intro StateLoop_adv) (auto simp: calm_def intro: adv_trans)
  with assms(2) show ?thesis
    by (auto simp: WaitUntilStateThenRelock_def Let_def w1_def [symmetric] split: prod.splits)
      (metis snd_conv)
qed

lemma PauseLoop_adv:
  "\<forall>(r, w') \<in> set ws. adv w0 w' \<Longrightarrow> adv w0 w \<Longrightarrow> adv w0 (snd (PauseLoop ws w))"
proof (induction ws arbitrary: w)
  case Nil
  then show ?case by (simp add: PauseLoop.simps pause_idle_def)
next
  case (Cons p ws)
  then show ?case by (cases p) (auto simp: PauseLoop.simps [of "_ # ws"])
qed

lemma WaitOnPause_adv [adv_ops]:
  assumes "calm wt" "WaitOnPause wt w = Some (r, w')"
  shows "adv w w'"
proof -
  have "adv w (pause_idle w)" by (simp add: pause_idle_def)
  then have "\<forall>(r, w') \<in> set (wt (pause_idle w)). adv w w'"
    using assms(1) by (auto simp: calm_def intro: adv_trans)
  from PauseLoop_adv [OF this adv_refl] assms(2) show ?thesis
    by (auto simp: WaitOnPause_def split: if_splits)
qed

section \<open>The handlers\<close>

text \<open>
  The proofs below all go the same way: the operation is unfolded, and the steps it is made of
  are chained.
\<close>

lemmas adv_split = option.splits prod.splits sum.splits if_splits Option.bind_splits

lemma stream_ops_only:
  "stream_BeginPrepare p w = Some (r, w') \<Longrightarrow> only_streams w w'"
  "stream_EndPrepare p w = Some (r, w') \<Longrightarrow> only_streams w w'"
  "stream_PrepareBuffer E p w = Some (r, w') \<Longrightarrow> only_streams w w'"
  "stream_ReturnBuffer h p w = Some (r, w') \<Longrightarrow> only_streams w w'"
  "stream_BeginConfigure E p w = Some (ok, w') \<Longrightarrow> only_streams w w'"
  "stream_EndConfigure E p w = Some (r, w') \<Longrightarrow> only_streams w w'"
  "stream_AbortConfigure E p w = Some (r, w') \<Longrightarrow> only_streams w w'"
  by (auto simp: stream_BeginPrepare_def stream_EndPrepare_def stream_PrepareBuffer_def
      stream_ReturnBuffer_def stream_BeginConfigure_def stream_EndConfigure_def
      stream_AbortConfigure_def intro: on_stream_only)

lemmas stream_ops_adv [adv_ops] = stream_ops_only [THEN only_streams_adv]

lemma notify_prepared_adv [adv_ops]: "notify_prepared p w = Some w' \<Longrightarrow> adv w w'"
  by (auto simp: notify_prepared_def split: if_splits)

lemma Prepare_Handler_Prepare_adv [adv_ops]: "Prepare_Handler.Prepare E q w = Some (r, w') \<Longrightarrow> adv w w'"
  unfolding Prepare_Handler.Prepare_def Let_def
  by (auto split: adv_split dest!: adv_ops intro: adv_trans)

lemma ChooseStream_adv [adv_ops]: "ChooseStream w = Some (c, w') \<Longrightarrow> adv w w'"
  unfolding ChooseStream_def by (auto split: adv_split list.splits dest!: adv_ops)

lemma PrepareChosen_adv [adv_ops]: "PrepareChosen E p w = Some (c, w') \<Longrightarrow> adv w w'"
  unfolding PrepareChosen_def by (auto split: adv_split dest!: adv_ops intro: adv_trans)

lemma Prepare_ThreadLoop_adv [adv_ops]: "Prepare_Handler.ThreadLoop E w = Some (c, w') \<Longrightarrow> adv w w'"
  unfolding Prepare_Handler.ThreadLoop_def
  by (auto split: adv_split dest!: adv_ops intro: adv_trans)

lemma Resume_adv [simp]: "adv w (Resume w1) = adv w w1"
  by (simp add: Resume_def)

lemma TakeStreaming_adv [adv_ops]: "TakeStreaming E w = Some (r, w') \<Longrightarrow> adv w w'"
  unfolding TakeStreaming_def by (auto split: adv_split list.splits)

lemma TakeQueued_adv [adv_ops]: "TakeQueued w = Some (r, w') \<Longrightarrow> adv w w'"
  unfolding TakeQueued_def by (auto split: adv_split list.splits)

lemma finish_take_adv [simp]:
  "adv w (unpause w1) = adv w w1" "adv w (apply_configuration w1) = adv w w1"
  by (simp_all add: unpause_def apply_configuration_def)

lemma TakeRequest_adv [adv_ops]: "TakeRequest E w = Some (r, w') \<Longrightarrow> adv w w'"
  unfolding TakeRequest_def by (auto split: adv_split dest!: adv_ops)

lemma pause_idle_adv [simp]: "adv w (pause_idle w1) = adv w w1"
  by (simp add: pause_idle_def)

lemma GetRequest_adv [adv_ops]: "calm wt \<Longrightarrow> GetRequest E wt w = Some (r, w') \<Longrightarrow> adv w w'"
  unfolding GetRequest_def Let_def
  by (auto split: adv_split dest!: wait_once_adv TakeRequest_adv intro: adv_trans)

lemma stream_GetBuffer_adv [adv_ops]:
  "calm wt \<Longrightarrow> stream_GetBuffer E wt p w = Some (r, w') \<Longrightarrow> adv w w'"
  unfolding stream_GetBuffer_def Let_def
  by (auto split: adv_split dest!: wait_once_adv)

lemma GetBuffers_adv [adv_ops]:
  "calm wt \<Longrightarrow> GetBuffers E wt ps w = Some (r, w') \<Longrightarrow> adv w w'"
proof (induction ps arbitrary: w r w')
  case Nil
  then show ?case by simp
next
  case (Cons p ps)
  from Cons.prems show ?case
    by (auto split: adv_split dest!: stream_GetBuffer_adv [OF Cons.prems(1)]
        Cons.IH [OF Cons.prems(1)] intro: adv_trans)
qed

lemma ReturnAll_adv [adv_ops]: "ReturnAll bs w = Some w' \<Longrightarrow> adv w w'"
proof (induction bs arbitrary: w)
  case Nil
  then show ?case by simp
next
  case (Cons b bs)
  from Cons.prems show ?case
    by (auto split: adv_split dest!: on_stream_adv stream_ops_adv(4) Cons.IH intro: adv_trans)
qed

lemma HandleErrorRequest_adv [adv_ops]: "HandleErrorRequest bs w = Some w' \<Longrightarrow> adv w w'"
  unfolding HandleErrorRequest_def by (auto split: adv_split dest!: ReturnAll_adv)

lemma map_usages_adv [adv_ops]: "map_usages f ps w = Some w' \<Longrightarrow> adv w w'"
proof (induction ps arbitrary: w)
  case Nil
  then show ?case by simp
next
  case (Cons p ps)
  from Cons.prems show ?case
    by (auto simp: map_usage_def split: adv_split dest!: on_stream_adv Cons.IH intro: adv_trans)
qed

lemma MarkPendingRequest_adv [adv_ops]: "MarkPendingRequest f n e w = (r, w') \<Longrightarrow> adv w w'"
  by (auto simp: MarkPendingRequest_def Let_def)

lemma RequestSettings_adv [adv_ops]: "RequestSettings E req w = (r, w') \<Longrightarrow> adv w w'"
  by (auto simp: RequestSettings_def Let_def split: if_splits)

lemma SubmitRequest_adv [adv_ops]:
  assumes "calm wt" "Request_Handler.SubmitRequest E wt req i w = Some (r, w')"
  shows "adv w w'"
proof -
  obtain st w0 where s: "RequestSettings E req w = (st, w0)" by fastforce
  from assms(2) s obtain res bs w1 where g: "GetBuffers E wt (req_streams req) w0 = Some ((res, bs), w1)"
    by (auto simp: Request_Handler.SubmitRequest_def split: Option.bind_split_asm)
  have 1: "adv w w1"
    using RequestSettings_adv [OF s] GetBuffers_adv [OF assms(1) g] by (rule adv_trans)
  have "adv w1 w'"
    using assms(2) s g unfolding Request_Handler.SubmitRequest_def Let_def
    by (auto split: adv_split dest!: HandleErrorRequest_adv map_usages_adv MarkPendingRequest_adv
        intro: adv_trans)
  with 1 show ?thesis by (rule adv_trans)
qed

lemma Request_ThreadLoop_adv [adv_ops]:
  assumes "calm wt" "Request_Handler.ThreadLoop E wt w = Some (r, w')"
  shows "adv w w'"
  using assms(2) unfolding Request_Handler.ThreadLoop_def
  by (auto split: adv_split dest!: WaitOnPause_adv [OF assms(1)] GetRequest_adv [OF assms(1)]
      SubmitRequest_adv [OF assms(1)] intro: adv_trans)

lemma ReprocOne_adv:
  assumes "calm wt" "ReprocOne E wt req w = Some w'"
  shows "adv w w'"
  using assms(2) unfolding ReprocOne_def Let_def
  by (auto split: adv_split dest!: SubmitRequest_adv [OF assms(1)]
      simp: apply_configuration_def unpause_def)

lemma ReprocAll_adv: "calm wt \<Longrightarrow> ReprocAll E wt rs w = Some w' \<Longrightarrow> adv w w'"
proof (induction rs arbitrary: w)
  case Nil
  then show ?case by simp
next
  case (Cons r rs)
  from Cons.prems(2) show ?case
    by (auto split: adv_split dest!: ReprocOne_adv [OF Cons.prems(1)] Cons.IH [OF Cons.prems(1)]
        intro: adv_trans)
qed

lemma ReprocBatch_adv [adv_ops]: "calm wt \<Longrightarrow> ReprocBatch E wt w = Some w' \<Longrightarrow> adv w w'"
  unfolding ReprocBatch_def by (auto split: adv_split dest!: ReprocAll_adv)

section \<open>Configuration and streams\<close>

lemma pause_adv [adv_ops]: "calm wt \<Longrightarrow> InternalPauseAndWaitLocked wt w = (r, w') \<Longrightarrow> adv w w'"
  by (auto simp: InternalPauseAndWaitLocked_def TogglePause_def Let_def split: prod.splits
      dest!: WaitUntilStateThenRelock_adv)

lemma resume_adv [adv_ops]: "calm wt \<Longrightarrow> InternalResumeLocked wt w = (r, w') \<Longrightarrow> adv w w'"
  by (auto simp: InternalResumeLocked_def TogglePause_def Let_def split: prod.splits if_splits
      dest!: WaitUntilStateThenRelock_adv)

lemma snd_resume_adv: "calm wt \<Longrightarrow> adv w (snd (InternalResumeLocked wt w))"
  by (cases "InternalResumeLocked wt w") (simp add: resume_adv)

lemma WaitUntilIdle_adv [adv_ops]: "calm wt \<Longrightarrow> WaitUntilIdle wt w = (r, w') \<Longrightarrow> adv w w'"
  by (auto simp: WaitUntilIdle_def WaitUntilDrainedLocked_def split: State.splits prod.splits
      dest!: WaitUntilStateThenRelock_adv)

lemma NotifyStatus_adv [adv_ops]: "adv w (NotifyStatus idle w)"
  by (auto simp: NotifyStatus_def InternalUpdateStatusLocked_def Let_def intro: adv_status)

lemma BeginConfigureAll_only: "BeginConfigureAll E ps w = Some (ok, w') \<Longrightarrow> only_streams w w'"
proof (induction ps arbitrary: w)
  case Nil
  then show ?case by simp
next
  case (Cons p ps)
  from Cons.prems show ?case
    by (auto split: adv_split dest!: stream_ops_only(5) Cons.IH intro: only_streams_trans)
qed

lemma each_configuring_only:
  assumes "\<And>p w r w'. f p w = Some (r, w') \<Longrightarrow> only_streams w w'"
  shows "each_configuring f ps w = Some (r, w') \<Longrightarrow> only_streams w w'"
proof (induction ps arbitrary: w)
  case Nil
  then show ?case by simp
next
  case (Cons p ps)
  from Cons.prems show ?case
    by (auto split: adv_split dest!: assms Cons.IH intro: only_streams_trans)
qed

lemma configuring_only:
  "each_configuring (stream_EndConfigure E) ps w = Some (r, w') \<Longrightarrow> only_streams w w'"
  "each_configuring (stream_AbortConfigure E) ps w = Some (r, w') \<Longrightarrow> only_streams w w'"
  by (blast intro: each_configuring_only stream_ops_only)+

lemma apply_settings_only: "apply_settings ps vs w = Some w' \<Longrightarrow> only_streams w w'"
proof (induction ps arbitrary: vs w)
  case Nil
  then show ?case by simp
next
  case (Cons p ps)
  from Cons.prems show ?case
    by (cases vs) (auto split: adv_split dest!: on_stream_only Cons.IH intro: only_streams_trans)
qed

lemma HalConfigure_state:
  "HalConfigure E w = Some (r, w') \<Longrightarrow> adv w w' \<and> state (dev w') = state (dev w)"
  unfolding HalConfigure_def Let_def
  by (auto split: adv_split dest!: apply_settings_only
      simp: only_streams_def adv_unfold)

lemma delete_all_adv [adv_ops]: "delete_all ps w = Some w' \<Longrightarrow> adv w w'"
proof (induction ps arbitrary: w)
  case Nil
  then show ?case by simp
next
  case (Cons p ps)
  from Cons.prems show ?case
    by (auto simp: delete_stream_def Let_def split: adv_split dest!: Cons.IH)
qed

lemma ConfigureStreamsLocked_adv [adv_ops]:
  assumes "ConfigureStreamsLocked E w = Some (r, w')"
  shows "adv w w'"
proof (cases "state (dev w) \<noteq> STATE_NOT_CONFIGURED \<and> state (dev w) \<noteq> STATE_CONFIGURED \<or> \<not> reconfig (dev w)")
  case True
  with assms show ?thesis by (auto simp: ConfigureStreamsLocked_def split: if_splits)
next
  case False
  then have ok: "state (dev w) \<noteq> STATE_ERROR" by auto
  from assms False obtain b w1 where b: "BeginConfigureAll E (stream_pointers w) w = Some (b, w1)"
    by (auto simp: ConfigureStreamsLocked_def split: Option.bind_split_asm)
  note b1 = BeginConfigureAll_only [OF b]
  show ?thesis
  proof (cases "b")
    case False
    with assms b b1 \<open>\<not> (_ \<or> _)\<close> show ?thesis
      by (auto simp: ConfigureStreamsLocked_def intro: only_streams_adv split: if_splits)
  next
    case True
    with assms b \<open>\<not> (_ \<or> _)\<close> obtain q w2 where h: "HalConfigure E w1 = Some (q, w2)"
      by (auto simp: ConfigureStreamsLocked_def split: Option.bind_split_asm if_splits)
    have w2: "adv w w2" "state (dev w2) \<noteq> STATE_ERROR"
      using HalConfigure_state [OF h] only_streams_adv [OF b1] b1 ok
      by (auto simp: only_streams_def intro: adv_trans)
    have st: "adv w2 (InternalUpdateStatusLocked st w3)"
      if "only_streams w2 w3" "st \<noteq> STATE_ERROR" for w3 st
      using that w2(2) only_streams_adv [OF that(1)]
      by (auto simp: InternalUpdateStatusLocked_def only_streams_def intro: adv_status)
    have st': "adv w2 (InternalUpdateStatusLocked st (upd_dev (\<lambda>d. d\<lparr>reconfig := False\<rparr>)
                        (FinishConfiguration n w3)))"
      if "only_streams w2 w3" "st \<noteq> STATE_ERROR" for w3 st n
      using that w2(2) only_streams_adv [OF that(1)]
      by (auto simp: InternalUpdateStatusLocked_def FinishConfiguration_def only_streams_def
          intro: adv_status)
    from assms b h True \<open>\<not> (_ \<or> _)\<close> have "adv w2 w'"
      unfolding ConfigureStreamsLocked_def Let_def
      by (auto split: adv_split dest!: configuring_only delete_all_adv
          intro: st adv_trans [OF st'] only_streams_adv)
    with w2(1) show ?thesis by (rule adv_trans)
  qed
qed

lemma CreateStream_adv [adv_ops]:
  assumes "calm wt" "CreateStream E wt cfg w = Some (r, w')"
  shows "adv w w'"
proof -
  note facts = pause_adv [OF assms(1)] snd_resume_adv [OF assms(1)]
  define p where "p = (if state (dev w) = STATE_RUNNING then InternalPauseAndWaitLocked wt w else (0, w))"
  have p: "adv w (snd p)"
    using facts(1) [of w] by (cases "InternalPauseAndWaitLocked wt w") (auto simp: p_def)
  have new: "adv w0 (snd (new_stream E i n cfg w1)) = adv w0 w1"
    "adv (snd (new_stream E i n cfg w1)) w0 = adv w1 w0" for i n w0 w1
    by (simp_all add: new_stream_def Let_def)
  show ?thesis
    using assms(2) p unfolding CreateStream_def Let_def p_def [symmetric]
    by (auto split: adv_split dest!: ConfigureStreamsLocked_adv intro: adv_trans facts(2)
        simp: new_stream_def Let_def) (meson adv_trans facts(2))+
qed

lemma CreateInputStream_adv [adv_ops]:
  assumes "calm wt" "CreateInputStream E wt cfg w = Some (r, w')"
  shows "adv w w'"
proof -
  define p where "p = (if state (dev w) = STATE_RUNNING then InternalPauseAndWaitLocked wt w else (0, w))"
  have p: "adv w (snd p)"
    using pause_adv [OF assms(1), of w] by (cases "InternalPauseAndWaitLocked wt w") (auto simp: p_def)
  show ?thesis
    using assms(2) p unfolding CreateInputStream_def Let_def p_def [symmetric]
    by (auto split: adv_split dest!: ConfigureStreamsLocked_adv
        intro: adv_trans snd_resume_adv [OF assms(1)])
      (meson adv_trans snd_resume_adv [OF assms(1)])+
qed

lemma DeleteStream_adv [adv_ops]:
  assumes "calm wt" "DeleteStream E wt i cache w = Some (r, w')"
  shows "adv w w'"
proof -
  define p where "p = (if \<not> cache then InternalPauseAndWaitLocked wt w else (0, w))"
  have p: "adv w (snd p)"
    using pause_adv [OF assms(1), of w] by (cases "InternalPauseAndWaitLocked wt w") (auto simp: p_def)
  show ?thesis
    using assms(2) p unfolding DeleteStream_def Let_def p_def [symmetric]
    by (auto split: adv_split dest!: ConfigureStreamsLocked_adv on_stream_adv
        intro: adv_trans snd_resume_adv [OF assms(1)])
      (meson adv_trans snd_resume_adv [OF assms(1)])+
qed

lemma EndConfigure_adv [adv_ops]: "Device.EndConfigure E b cfg w = Some (r, w') \<Longrightarrow> adv w w'"
  unfolding Device.EndConfigure_def ConfigureStreams_def Let_def
  by (auto split: adv_split dest!: ConfigureStreamsLocked_adv)

lemma Prepare_adv [adv_ops]: "Device.Prepare E i w = Some (r, w') \<Longrightarrow> adv w w'"
  unfolding Device.Prepare_def by (auto split: adv_split dest!: Prepare_Handler_Prepare_adv)

lemma TearDown_adv [adv_ops]: "Device.TearDown i w = Some (r, w') \<Longrightarrow> adv w w'"
  unfolding Device.TearDown_def by (auto split: adv_split dest!: on_stream_adv)

lemma Initialize_adv [adv_ops]: "Device.Initialize E w = (r, w') \<Longrightarrow> adv w w'"
  by (auto simp: Device.Initialize_def Let_def adv_unfold split: if_splits)

lemma OpenCamera_adv [adv_ops]: "OpenCamera E i w = (r, w') \<Longrightarrow> adv w w'"
  by (auto simp: OpenCamera_def Let_def Request_Handler.Initialize_def adv_unfold
      SetErrorStateLockedV_def InternalUpdateStatusLocked_def TogglePause_def
      split: if_splits prod.splits)

section \<open>Requests of the client\<close>

lemma CheckRequests_adv [adv_ops]: "CheckRequests E rid qs acc w = Some (r, w') \<Longrightarrow> adv w w'"
proof (induction qs arbitrary: rid acc w)
  case Nil
  then show ?case by simp
next
  case (Cons q qs)
  from Cons.prems show ?case by (auto split: adv_split dest!: Cons.IH)
qed

lemma RequestStreams_only: "RequestStreams E is acc w = Some (r, w') \<Longrightarrow> only_streams w w'"
proof (induction "is" arbitrary: acc w)
  case Nil
  then show ?case by simp
next
  case (Cons i "is")
  from Cons.prems show ?case
    by (auto split: adv_split dest!: stream_ops_only(6) Cons.IH intro: only_streams_trans)
qed

lemmas RequestStreams_adv [adv_ops] = RequestStreams_only [THEN only_streams_adv]

lemma GenerateCaptureRequestLocked_adv [adv_ops]:
  "GenerateCaptureRequestLocked E md w = Some (r, w') \<Longrightarrow> adv w w'"
  unfolding GenerateCaptureRequestLocked_def Let_def
  by (auto split: adv_split dest!: ConfigureStreamsLocked_adv RequestStreams_adv intro: adv_trans)

lemma GetRequestListLocked_adv [adv_ops]:
  "GetRequestListLocked E mds n acc w = Some (r, w') \<Longrightarrow> adv w w'"
proof (induction mds arbitrary: n acc w)
  case Nil
  then show ?case by simp
next
  case (Cons md mds)
  from Cons.prems show ?case
    by (auto simp: Let_def split: adv_split list.splits dest!: GenerateCaptureRequestLocked_adv Cons.IH
        intro: adv_trans)
qed

lemma queueing_adv [simp]:
  "adv w (snd (QueueRequestList rs w1)) = adv w w1"
  "adv w (snd (QueueReprocRequestList E rs w1)) = adv w w1"
  "adv w (snd (SetRepeatingRequests rs w1)) = adv w w1"
  by (simp_all add: QueueRequestList_def QueueReprocRequestList_def SetRepeatingRequests_def Let_def)

lemma AddRequestListLocked_adv [adv_ops]:
  assumes "calm wt" "AddRequestListLocked E wt mds b w = Some (r, w')"
  shows "adv w w'"
proof -
  have wait: "adv w0 (snd (WaitUntilStateThenRelock b wt w1))" if "adv w0 w1" for w0 w1 b
    using WaitUntilStateThenRelock_adv [OF assms(1)] that by (metis adv_trans prod.collapse)
  have q: "QueueRequestList rs w1 = (r, w2) \<Longrightarrow> adv w0 w2 = adv w0 w1"
    "QueueReprocRequestList E rs w1 = (r', w2) \<Longrightarrow> adv w0 w2 = adv w0 w1"
    "SetRepeatingRequests rs w1 = (r, w2) \<Longrightarrow> adv w0 w2 = adv w0 w1" for rs w0 w1 w2 r r'
    using queueing_adv by (metis snd_conv)+
  from assms(2) show ?thesis
    unfolding AddRequestListLocked_def Let_def
    by (auto split: adv_split dest!: GetRequestListLocked_adv intro!: wait simp: q)
qed

lemma SubmitRequestList_adv [adv_ops]:
  assumes "calm wt" "SubmitRequestList E wt qs b w = Some (r, w')"
  shows "adv w w'"
  using assms(2) unfolding SubmitRequestList_def Let_def
  by (auto split: adv_split dest!: CheckRequests_adv AddRequestListLocked_adv [OF assms(1)]
      intro: adv_trans)

lemma CancelRequest_adv [adv_ops]: "CancelRequest i w = (r, w') \<Longrightarrow> adv w w'"
  by (auto simp: CancelRequest_def ClearRepeatingRequests_def split: if_splits)

lemma ReportCleared_adv [simp]:
  "adv w (ReportCleared rs w1) = adv w w1" "adv (ReportCleared rs w1) w = adv w1 w"
  by (induction rs arbitrary: w1) simp_all

lemma Clear_adv [adv_ops]: "calm wt \<Longrightarrow> Request_Handler.Clear wt w = (r, w') \<Longrightarrow> adv w w'"
  by (auto simp: Request_Handler.Clear_def Let_def split: if_splits prod.splits dest!: wait_once_adv)

lemma Flush_adv [adv_ops]:
  assumes "calm wt" "\<And>u. adv u (g u)" "Flush E wt g w = (r, w')"
  shows "adv w w'"
proof -
  have "adv x (g (emit Hal_flush x))" for x using assms(2) [of "emit Hal_flush x"] by simp
  with assms(1,3) show ?thesis
    by (auto simp: Flush_def Let_def split: if_splits prod.splits dest!: Clear_adv intro: adv_trans)
qed

lemma CreateDefaultRequest_adv [adv_ops]: "CreateDefaultRequest E t w = Some (r, w') \<Longrightarrow> adv w w'"
  unfolding CreateDefaultRequest_def Let_def by (auto split: adv_split)

lemma ReturnStreamBuffer_adv [adv_ops]: "ReturnStreamBuffer i h w = Some (r, w') \<Longrightarrow> adv w w'"
  unfolding ReturnStreamBuffer_def by (auto split: adv_split dest!: stream_ops_adv(4))

section \<open>Callbacks of the HAL\<close>

lemma upd_pending_adv [simp]:
  "adv w (upd_pending f g w1) = adv w w1" "adv (upd_pending f g w1) w = adv w1 w"
  by (simp_all add: upd_pending_def split: option.splits)

lemma accept_frame:
  "accept_result x f d = Some d1 \<Longrightarrow> client_cb d1 = client_cb d \<and> state d1 = state d"
  "accept_shutter x f d = Some d1 \<Longrightarrow> client_cb d1 = client_cb d \<and> state d1 = state d"
  by (auto simp: accept_result_def accept_shutter_def split: if_splits)

lemma SendCaptureResult_adv: "adv w w1 \<Longrightarrow> adv w (SendCaptureResult E md x c f w1)"
  by (auto simp: SendCaptureResult_def Let_def accept_frame split: option.splits)

lemma ReturnBufferToClient_adv [adv_ops]:
  "stream_ReturnBufferToClient E b ts f w = Some w' \<Longrightarrow> adv w w'"
  unfolding stream_ReturnBufferToClient_def Let_def by (auto split: adv_split)

lemma ReturnOutputBuffers_adv [adv_ops]:
  "ReturnOutputBuffers E bs ts f w = Some w' \<Longrightarrow> adv w w'"
proof (induction bs arbitrary: w)
  case Nil
  then show ?case by simp
next
  case (Cons b bs)
  from Cons.prems show ?case
    by (auto simp: Let_def split: adv_split dest!: ReturnBufferToClient_adv Cons.IH intro: adv_trans)
qed

lemma RemovePendingRequestLocked_adv [adv_ops]:
  "RemovePendingRequestLocked E f w = Some w' \<Longrightarrow> adv w w'"
  unfolding RemovePendingRequestLocked_def Let_def
  by (auto split: adv_split dest!: ReturnOutputBuffers_adv)

lemma send_first: "adv (SendCaptureResult E md x c f w1) w \<Longrightarrow> adv w1 w"
  by (rule adv_trans [OF SendCaptureResult_adv [OF adv_refl]])

lemma FinishResult_adv [adv_ops]: "FinishResult E res b w = Some (r, w') \<Longrightarrow> adv w w'"
  unfolding FinishResult_def Let_def
  by (auto split: adv_split dest!: ReturnOutputBuffers_adv RemovePendingRequestLocked_adv send_first
      intro: adv_trans)

lemma HandleCaptureResult_adv [adv_ops]: "HandleCaptureResult E res w = Some w' \<Longrightarrow> adv w w'"
  unfolding HandleCaptureResult_def Let_def HandlePartialResult_def ReturnInputBuffer_def
  by (auto split: adv_split dest!: FinishResult_adv)

lemma NotifyError_adv: "adv w (NotifyError f c w)"
  by (auto simp: NotifyError_def Let_def)

lemma NotifyShutter_adv [adv_ops]: "NotifyShutter E f ts w = Some w' \<Longrightarrow> adv w w'"
  unfolding NotifyShutter_def Let_def
  by (auto simp: accept_frame split: adv_split dest!: accept_frame ReturnOutputBuffers_adv
      RemovePendingRequestLocked_adv send_first intro: adv_trans)

lemma Notify_adv [adv_ops]: "Notify E m w = Some w' \<Longrightarrow> adv w w'"
  by (auto simp: Notify_def NotifyError_adv split: option.splits camera3_notify_msg.splits
      dest!: NotifyShutter_adv)

section \<open>Runs of a device\<close>

text \<open>
  What may happen while a call waits with the lock released: callbacks of the HAL and of the
  monitor, iterations of the two threads, and buffers that come back.
\<close>

inductive callback_step :: "env \<Rightarrow> world \<Rightarrow> world \<Rightarrow> bool" for E where
  cb_result: "HandleCaptureResult E res w = Some w' \<Longrightarrow> callback_step E w w'"
| cb_notify: "Notify E m w = Some w' \<Longrightarrow> callback_step E w w'"
| cb_status: "callback_step E w (NotifyStatus idle w)"
| cb_request: "Request_Handler.ThreadLoop E (\<lambda>_. []) w = Some (c, w') \<Longrightarrow> callback_step E w w'"
| cb_reproc: "ReprocBatch E (\<lambda>_. []) w = Some w' \<Longrightarrow> callback_step E w w'"
| cb_prepare: "Prepare_Handler.ThreadLoop E w = Some (c, w') \<Longrightarrow> callback_step E w w'"
| cb_return: "ReturnStreamBuffer i h w = Some (r, w') \<Longrightarrow> callback_step E w w'"

definition waits_by :: "env \<Rightarrow> waits \<Rightarrow> bool" where
  "waits_by E wt \<longleftrightarrow> (\<forall>w r w'. (r, w') \<in> set (wt w) \<longrightarrow> (callback_step E)\<^sup>*\<^sup>* w w')"

inductive device_step :: "env \<Rightarrow> world \<Rightarrow> world \<Rightarrow> bool" for E where
  ds_callback: "callback_step E w w' \<Longrightarrow> device_step E w w'"
| ds_request: "waits_by E wt \<Longrightarrow> Request_Handler.ThreadLoop E wt w = Some (c, w') \<Longrightarrow> device_step E w w'"
| ds_reproc: "waits_by E wt \<Longrightarrow> ReprocBatch E wt w = Some w' \<Longrightarrow> device_step E w w'"
| ds_initialize: "Device.Initialize E w = (r, w') \<Longrightarrow> device_step E w w'"
| ds_open: "OpenCamera E idx w = (r, w') \<Longrightarrow> device_step E w w'"
| ds_configure: "Device.EndConfigure E b cfg w = Some (r, w') \<Longrightarrow> device_step E w w'"
| ds_create: "waits_by E wt \<Longrightarrow> CreateStream E wt par w = Some (r, w') \<Longrightarrow> device_step E w w'"
| ds_create_input: "waits_by E wt \<Longrightarrow> CreateInputStream E wt ipar w = Some (r, w') \<Longrightarrow> device_step E w w'"
| ds_delete: "waits_by E wt \<Longrightarrow> DeleteStream E wt i cache w = Some (r, w') \<Longrightarrow> device_step E w w'"
| ds_submit: "waits_by E wt \<Longrightarrow> SubmitRequestList E wt qs b w = Some (rl, w') \<Longrightarrow> device_step E w w'"
| ds_cancel: "CancelRequest i w = (rl, w') \<Longrightarrow> device_step E w w'"
| ds_flush: "waits_by E wt \<Longrightarrow> (\<And>u. (callback_step E)\<^sup>*\<^sup>* u (g u)) \<Longrightarrow> Flush E wt g w = (rf, w') \<Longrightarrow>
    device_step E w w'"
| ds_idle: "waits_by E wt \<Longrightarrow> WaitUntilIdle wt w = (r, w') \<Longrightarrow> device_step E w w'"
| ds_default: "CreateDefaultRequest E t w = Some (rm, w') \<Longrightarrow> device_step E w w'"
| ds_prepare: "Device.Prepare E i w = Some (r, w') \<Longrightarrow> device_step E w w'"
| ds_teardown: "Device.TearDown i w = Some (r, w') \<Longrightarrow> device_step E w w'"

lemma calm_none: "calm (\<lambda>_. [])"
  by (simp add: calm_def)

lemma callback_step_adv: "callback_step E w w' \<Longrightarrow> adv w w'"
  by (induction rule: callback_step.induct)
    (auto dest: HandleCaptureResult_adv Notify_adv Request_ThreadLoop_adv [OF calm_none]
      ReprocBatch_adv [OF calm_none] Prepare_ThreadLoop_adv ReturnStreamBuffer_adv
      intro: NotifyStatus_adv)

lemma callback_run_adv: "(callback_step E)\<^sup>*\<^sup>* w w' \<Longrightarrow> adv w w'"
  by (induction rule: rtranclp_induct) (auto intro: adv_trans callback_step_adv)

lemma waits_by_calm: "waits_by E wt \<Longrightarrow> calm wt"
  by (auto simp: waits_by_def calm_def intro: callback_run_adv)

lemma device_step_adv: "device_step E w w' \<Longrightarrow> adv w w'"
proof (induction rule: device_step.induct)
  case (ds_flush wt g w rf w')
  from ds_flush(2) have "adv u (g u)" for u by (rule callback_run_adv)
  from Flush_adv [OF waits_by_calm [OF ds_flush(1)] this ds_flush(3)] show ?case .
qed (auto dest: callback_step_adv waits_by_calm Request_ThreadLoop_adv ReprocBatch_adv Initialize_adv
    OpenCamera_adv EndConfigure_adv CreateStream_adv CreateInputStream_adv DeleteStream_adv
    SubmitRequestList_adv CancelRequest_adv WaitUntilIdle_adv CreateDefaultRequest_adv Prepare_adv
    TearDown_adv)

definition constructed :: "CameraClientCallbacks \<Rightarrow> world \<Rightarrow> bool" where
  "constructed cb w \<longleftrightarrow> (\<exists>clients bs rates garbage z. w = Camera3DeviceClient cb clients bs rates garbage z)"

definition error_inv :: "CameraClientCallbacks \<Rightarrow> world \<Rightarrow> bool" where
  "error_inv cb w \<longleftrightarrow> client_cb (dev w) = cb \<and> surplus w = 0"

interpretation device_sys: invariant_system "constructed cb" "device_step E" "error_inv cb"
proof unfold_locales
  show "error_inv cb w" if "constructed cb w" for w
    using that by (auto simp: constructed_def Camera3DeviceClient_def error_inv_def surplus_def
        device_errors_def in_error_def)
  show "error_inv cb w'" if "error_inv cb w" "device_step E w w'" for w w'
    using that device_step_adv [OF that(2)] by (simp add: error_inv_def adv_def)
qed

end
