(* ===== verification/Device_Order.thy ===== *)
theory Device_Order
  imports Device_Error
begin

text \<open>
  The order in which a \<^verbatim>\<open>Camera3DeviceClient\<close> passes results and shutter notifications to
  its client, over the callbacks of the HAL and the registration of requests.
\<close>

section \<open>What the client has seen\<close>

text \<open>The frame numbers of the results and of the shutters, for reprocessing (\<open>k\<close>) or not.\<close>

primrec result_frame :: "bool \<Rightarrow> event \<Rightarrow> u32 list" where
  "result_frame k (Ev_error c x) = []"
| "result_frame k Ev_idle = []"
| "result_frame k (Ev_shutter x ts) = []"
| "result_frame k (Ev_prepared i) = []"
| "result_frame k (Ev_result md x) = (if ex_input x = k then [frameNumber x] else [])"
| "result_frame k (Ev_buffer b) = []"
| "result_frame k Ev_get_input = []"
| "result_frame k (Ev_return_input h i) = []"
| "result_frame k (Hal_request r) = []"
| "result_frame k (Hal_configure m vs rates) = []"
| "result_frame k Hal_flush = []"

primrec shutter_frame :: "bool \<Rightarrow> event \<Rightarrow> u32 list" where
  "shutter_frame k (Ev_error c x) = []"
| "shutter_frame k Ev_idle = []"
| "shutter_frame k (Ev_shutter x ts) = (if ex_input x = k then [frameNumber x] else [])"
| "shutter_frame k (Ev_prepared i) = []"
| "shutter_frame k (Ev_result md x) = []"
| "shutter_frame k (Ev_buffer b) = []"
| "shutter_frame k Ev_get_input = []"
| "shutter_frame k (Ev_return_input h i) = []"
| "shutter_frame k (Hal_request r) = []"
| "shutter_frame k (Hal_configure m vs rates) = []"
| "shutter_frame k Hal_flush = []"

definition results :: "bool \<Rightarrow> world \<Rightarrow> u32 list" where
  "results k w = concat (map (result_frame k) (log w))"

definition shutters :: "bool \<Rightarrow> world \<Rightarrow> u32 list" where
  "shutters k w = concat (map (shutter_frame k) (log w))"

definition next_result :: "bool \<Rightarrow> device \<Rightarrow> u32" where
  "next_result k d = (if k then next_result_input_frame_number d else next_result_frame_number d)"

definition next_shutter :: "bool \<Rightarrow> device \<Rightarrow> u32" where
  "next_shutter k d = (if k then next_shutter_input_frame_number d else next_shutter_frame_number d)"

text \<open>A sequence of frame numbers without repetition, all below the next one expected.\<close>

definition in_order :: "u32 list \<Rightarrow> u32 \<Rightarrow> bool" where
  "in_order fs n \<longleftrightarrow> sorted_wrt (<) fs \<and> (\<forall>f \<in> set fs. f < n)"

lemma word_below_Suc: "(f :: u32) \<noteq> - 1 \<Longrightarrow> f < f + 1"
  using unatSuc [of f] max_word_wrap [of f] by (fastforce simp: word_less_nat_alt add.commute)

lemma in_order_above:
  assumes "in_order fs n" "n \<le> f" "f \<noteq> - 1"
  shows "in_order (fs @ [f]) (f + 1)" "in_order fs (f + 1)"
  using assms word_below_Suc [OF assms(3)] by (auto simp: in_order_def sorted_wrt_append)

section \<open>The invariant\<close>

definition keys_ok :: "world \<Rightarrow> bool" where
  "keys_ok w \<longleftrightarrow> kv_wf (pending_requests (dev w)) \<and>
     (\<forall>f r. kv_find (pending_requests (dev w)) f = Some r \<longrightarrow> frameNumber (pr_extras r) = f \<and> f \<noteq> - 1)"

definition opened :: "world \<Rightarrow> bool" where
  "opened w \<longleftrightarrow> state (dev w) \<noteq> STATE_NOT_INITIALIZED \<and> state (dev w) \<noteq> STATE_CLOSED"

definition order_inv :: "world \<Rightarrow> bool" where
  "order_inv w \<longleftrightarrow> \<not> is_partial_result_supported (dev w) \<and> opened w \<and> keys_ok w \<and>
     (\<forall>k. in_order (results k w) (next_result k (dev w))) \<and>
     (\<not> in_error w \<longrightarrow> (\<forall>k. in_order (shutters k w) (next_shutter k (dev w))))"

text \<open>Steps that show the client neither a result nor a shutter.\<close>

definition silent :: "world \<Rightarrow> world \<Rightarrow> bool" where
  "silent w w' \<longleftrightarrow> (\<forall>k. results k w' = results k w \<and> shutters k w' = shutters k w \<and>
       next_result k (dev w') = next_result k (dev w) \<and>
       next_shutter k (dev w') = next_shutter k (dev w)) \<and>
     is_partial_result_supported (dev w') = is_partial_result_supported (dev w) \<and>
     (opened w \<longrightarrow> opened w') \<and> (in_error w \<longrightarrow> in_error w') \<and> (keys_ok w \<longrightarrow> keys_ok w')"

lemma silent_refl [simp]: "silent w w"
  by (simp add: silent_def)

lemma silent_trans: "silent w w1 \<Longrightarrow> silent w1 w2 \<Longrightarrow> silent w w2"
  by (simp add: silent_def)

lemma silent_inv: "silent w w' \<Longrightarrow> order_inv w \<Longrightarrow> order_inv w'"
  by (auto simp: silent_def order_inv_def)

lemma silent_same:
  assumes "log w2 = log w1 \<or> (\<forall>k. results k w2 = results k w1 \<and> shutters k w2 = shutters k w1)"
    "\<forall>k. next_result k (dev w2) = next_result k (dev w1)"
    "\<forall>k. next_shutter k (dev w2) = next_shutter k (dev w1)"
    "is_partial_result_supported (dev w2) = is_partial_result_supported (dev w1)"
    "opened w1 \<longrightarrow> opened w2" "in_error w1 \<longrightarrow> in_error w2" "keys_ok w1 \<longrightarrow> keys_ok w2"
  shows "silent w w1 \<Longrightarrow> silent w w2"
  using assms by (auto simp: silent_def results_def shutters_def)

lemmas next_defs = next_result_def next_shutter_def

lemma silent_streams [intro!]: "silent w w1 \<Longrightarrow> silent w (w1\<lparr>objects := ob, shr := sh\<rparr>)"
  by (erule silent_same [rotated 7]) (simp_all add: opened_def in_error_def keys_ok_def)

lemma silent_emit [intro!]:
  assumes "\<forall>k. result_frame k e = [] \<and> shutter_frame k e = []"
  shows "silent w w1 \<Longrightarrow> silent w (emit e w1)"
  by (erule silent_same [rotated 7])
    (use assms in \<open>simp_all add: opened_def in_error_def keys_ok_def results_def shutters_def\<close>)

lemma SetErrorState_frame:
  "pending_requests (dev (SetErrorState w)) = pending_requests (dev w)"
  "next_result k (dev (SetErrorState w)) = next_result k (dev w)"
  "next_shutter k (dev (SetErrorState w)) = next_shutter k (dev w)"
  "is_partial_result_supported (dev (SetErrorState w)) = is_partial_result_supported (dev w)"
  "client_cb (dev (SetErrorState w)) = client_cb (dev w)"
  "results k (SetErrorState w) = results k w" "shutters k (SetErrorState w) = shutters k w"
  "opened w \<Longrightarrow> in_error (SetErrorState w)"
  "in_error w \<Longrightarrow> in_error (SetErrorState w)"
  "opened w \<Longrightarrow> opened (SetErrorState w)"
  by (auto simp: SetErrorState_def SetErrorStateLockedV_def Let_def InternalUpdateStatusLocked_def
      TogglePause_def next_defs results_def shutters_def opened_def in_error_def)

lemma silent_SetErrorState [intro!]: "silent w w1 \<Longrightarrow> silent w (SetErrorState w1)"
  by (erule silent_same [rotated 7]) (simp_all add: SetErrorState_frame keys_ok_def)

lemma silent_after_error [dest!]: "silent (SetErrorState w) w1 \<Longrightarrow> silent w w1"
  by (rule silent_trans [OF silent_SetErrorState [OF silent_refl]])

lemma silent_upd_pending [intro!]:
  assumes "\<forall>r. kv_find (pending_requests (dev w1)) f = Some r \<longrightarrow>
                frameNumber (pr_extras (g r)) = frameNumber (pr_extras r)"
  shows "silent w w1 \<Longrightarrow> silent w (upd_pending f g w1)"
  by (erule silent_same [rotated 7]) (use assms in
      \<open>auto simp: upd_pending_def opened_def in_error_def next_defs keys_ok_def split: option.splits\<close>)

lemma silent_remove [intro!]: "silent w w1 \<Longrightarrow> silent w (upd_dev (\<lambda>d. d\<lparr>pending_requests :=
    kv_remove f (pending_requests d)\<rparr>) w1)"
  by (erule silent_same [rotated 7]) (auto simp: opened_def in_error_def next_defs keys_ok_def)

lemma silent_dev:
  assumes "next_result_frame_number (h (dev w1)) = next_result_frame_number (dev w1)"
    "next_result_input_frame_number (h (dev w1)) = next_result_input_frame_number (dev w1)"
    "next_shutter_frame_number (h (dev w1)) = next_shutter_frame_number (dev w1)"
    "next_shutter_input_frame_number (h (dev w1)) = next_shutter_input_frame_number (dev w1)"
    "is_partial_result_supported (h (dev w1)) = is_partial_result_supported (dev w1)"
    "pending_requests (h (dev w1)) = pending_requests (dev w1)" "state (h (dev w1)) = state (dev w1)"
  shows "silent w w1 \<Longrightarrow> silent w (upd_dev h w1)"
  by (erule silent_same [rotated 7])
    (simp_all add: assms opened_def in_error_def next_defs keys_ok_def)

section \<open>The callbacks\<close>

lemma ReturnBufferToClient_silent:
  "stream_ReturnBufferToClient E b ts f w = Some w' \<Longrightarrow> silent w w'"
  unfolding stream_ReturnBufferToClient_def Let_def by (auto split: adv_split)

lemma ReturnOutputBuffers_silent: "ReturnOutputBuffers E bs ts f w = Some w' \<Longrightarrow> silent w w'"
proof (induction bs arbitrary: w)
  case Nil
  then show ?case by simp
next
  case (Cons b bs)
  from Cons.prems obtain w1 w2 where
    1: "stream_ReturnBufferToClient E b ts f w = Some w1" and
    2: "w2 = w1 \<or> (\<exists>x. w2 = emit (Ev_error ERROR_CAMERA_BUFFER x)
          (upd_pending f (\<lambda>r. r\<lparr>pr_status := CAMERA3_MSG_ERROR_BUFFER\<rparr>) w1))" and
    3: "ReturnOutputBuffers E bs ts f w2 = Some w'"
    by (auto simp: Let_def split: Option.bind_split_asm if_splits)
  have "silent w1 w2" using 2 by auto
  with ReturnBufferToClient_silent [OF 1] Cons.IH [OF 3] show ?case by (blast intro: silent_trans)
qed

lemma RemovePendingRequestLocked_silent:
  "RemovePendingRequestLocked E f w = Some w' \<Longrightarrow> silent w w'"
  unfolding RemovePendingRequestLocked_def Let_def
  by (auto split: Option.bind_split_asm if_splits dest!: ReturnOutputBuffers_silent
      intro!: silent_dev intro: silent_trans)

lemma SendCaptureResult_order:
  assumes "order_inv w" "frameNumber x = f" "f \<noteq> - 1"
  shows "order_inv (SendCaptureResult E md x c f w)"
proof (cases "md = [] \<or> \<not> resultCb (client_cb (dev w))")
  case True
  with assms show ?thesis by (auto simp: SendCaptureResult_def)
next
  case False
  show ?thesis
  proof (cases "accept_result x f (dev w)")
    case None
    with False assms(1) silent_inv [OF silent_SetErrorState [OF silent_refl]]
    show ?thesis by (simp add: SendCaptureResult_def)
  next
    case (Some d)
    let ?w = "upd_dev (\<lambda>_. d) w"
    have nx: "next_result (ex_input x) (dev w) \<le> f"
      "next_result (ex_input x) d = f + 1" "k \<noteq> ex_input x \<Longrightarrow> next_result k d = next_result k (dev w)" for k
      using Some by (auto simp: accept_result_def next_defs split: if_splits)
    have same: "next_shutter k d = next_shutter k (dev w)" "pending_requests d = pending_requests (dev w)"
      "is_partial_result_supported d = is_partial_result_supported (dev w)" "state d = state (dev w)" for k
      using Some by (auto simp: accept_result_def next_defs split: if_splits)
    have o: "in_order (results k w) (next_result k (dev w))" for k
      using assms(1) by (simp add: order_inv_def)
    have "in_order (results k ?w) (next_result k d)" for k
      using o [of k] in_order_above(2) [OF o nx(1) assms(3)] nx(2,3)
      by (cases "k = ex_input x") (simp_all add: results_def)
    then have 1: "order_inv ?w"
      using assms(1) same by (auto simp: order_inv_def opened_def in_error_def keys_ok_def shutters_def)
    have "in_order (results k (emit (Ev_result m x) ?w)) (next_result k d)" for k m
      using o [of k] in_order_above(1) [OF o nx(1) assms(3)] nx(2,3) assms(2)
      by (cases "k = ex_input x") (auto simp: results_def)
    then have 2: "order_inv (emit (Ev_result m x) ?w)" for m
      using assms(1) same by (auto simp: order_inv_def opened_def in_error_def keys_ok_def shutters_def)
    from False Some 1 2 silent_inv [OF silent_SetErrorState [OF silent_refl], of ?w] show ?thesis
      by (simp add: SendCaptureResult_def Let_def)
  qed
qed

lemma order_inv_pending:
  assumes "order_inv w" "kv_find (pending_requests (dev w)) f = Some r"
  shows "frameNumber (pr_extras r) = f" "f \<noteq> - 1"
  using assms by (auto simp: order_inv_def keys_ok_def)

lemma FinishResult_order:
  assumes "order_inv w" "FinishResult E res b w = Some (r, w')"
  shows "order_inv w'"
proof -
  obtain q where q: "kv_find (pending_requests (dev w)) (r_frame_number res) = Some q"
    using assms(2) by (cases "kv_find (pending_requests (dev w)) (r_frame_number res)")
      (simp_all add: FinishResult_def)
  note k = order_inv_pending [OF assms(1) q]
  have upd: "order_inv (upd_pending (r_frame_number res) (\<lambda>_. r4) w)"
    if "pr_extras r4 = pr_extras q" for r4
    using q that assms(1) by (intro silent_inv [OF silent_upd_pending [OF _ silent_refl]]) auto
  have send: "order_inv (SendCaptureResult E md (pr_extras q) c (r_frame_number res)
                 (upd_pending (r_frame_number res) (\<lambda>_. r4) w))"
    if "pr_extras r4 = pr_extras q" for r4 md c
    using upd [OF that] k by (intro SendCaptureResult_order) auto
  have err: "order_inv (SetErrorState u)" if "order_inv u" for u
    using that silent_inv [OF silent_SetErrorState [OF silent_refl]] by blast
  have fin: "order_inv w2"
    if "silent (upd_pending (r_frame_number res) (\<lambda>_. r4) w) x" "silent x w2" "pr_extras r4 = pr_extras q"
    for r4 x w2
    by (rule silent_inv [OF silent_trans [OF that(1,2)] upd [OF that(3)]])
  have fins: "order_inv w2"
    if "silent (SendCaptureResult E md (pr_extras q) c (r_frame_number res)
          (upd_pending (r_frame_number res) (\<lambda>_. r4) w)) x" "silent x w2" "pr_extras r4 = pr_extras q"
    for r4 x w2 md c
    by (rule silent_inv [OF silent_trans [OF that(1,2)] send [OF that(3)]])
  from assms(2) q show ?thesis
    unfolding FinishResult_def Let_def
    by (auto split: Option.bind_split_asm if_splits intro!: err upd assms(1)
        dest!: ReturnOutputBuffers_silent RemovePendingRequestLocked_silent)
      (erule fins [OF _ silent_refl] fin [OF _ silent_refl] fins fin; simp; fail)+
qed

lemma ReturnInputBuffer_silent: "silent w (ReturnInputBuffer n w)"
  unfolding ReturnInputBuffer_def Let_def by (auto intro!: silent_dev)

lemma HandleCaptureResult_order:
  assumes "order_inv w" "HandleCaptureResult E res w = Some w'"
  shows "order_inv w'"
proof -
  have np: "\<not> is_partial_result_supported (dev w)" using assms(1) by (simp add: order_inv_def)
  have err: "order_inv (SetErrorState u)" if "order_inv u" for u
    using that silent_inv [OF silent_SetErrorState [OF silent_refl]] by blast
  show ?thesis
  proof (cases "kv_find (pending_requests (dev w)) (r_frame_number res)")
    case None
    have "order_inv (upd_dev (\<lambda>d. d\<lparr>pending_error_requests := kv_remove f (pending_error_requests d)\<rparr>) w)" for f
      using assms(1) by (intro silent_inv [OF silent_dev [OF _ _ _ _ _ _ _ silent_refl]]) simp_all
    with None assms show ?thesis
      by (auto simp: HandleCaptureResult_def Let_def intro: err split: if_splits)
  next
    case (Some r)
    obtain r1 where r1: "collect_partial E res (dev w) r = (r1, Some False)"
      "frameNumber (pr_extras r1) = frameNumber (pr_extras r)"
      using np by (cases "r_result res") (auto simp: collect_partial_def Let_def)
    let ?w = "upd_pending (r_frame_number res) (\<lambda>_. r1) w"
    have 1: "order_inv ?w"
      using Some r1(2) assms(1) by (intro silent_inv [OF silent_upd_pending [OF _ silent_refl]]) auto
    have 2: "order_inv (ReturnInputBuffer n u)" if "order_inv u" for n u
      using that silent_inv [OF ReturnInputBuffer_silent] by blast
    from assms Some r1(1) show ?thesis
      unfolding HandleCaptureResult_def Let_def
      by (auto split: adv_split intro!: err 2 dest!: FinishResult_order [OF 1])
  qed
qed

lemma NotifyError_silent: "silent w (NotifyError f c w)"
  by (auto simp: NotifyError_def Let_def)

lemma NotifyStatus_silent: "silent w (NotifyStatus idle w)"
proof -
  have "silent w (upd_dev (\<lambda>d. d\<lparr>state := st, current_state_updates := us\<rparr>) w)"
    if "state (dev w) = STATE_RUNNING \<or> state (dev w) = STATE_CONFIGURED"
      "st = STATE_RUNNING \<or> st = STATE_CONFIGURED" for st us
    using that by (intro silent_same [OF _ _ _ _ _ _ _ silent_refl])
      (auto simp: next_defs opened_def in_error_def keys_ok_def)
  then show ?thesis
    by (auto simp: NotifyStatus_def InternalUpdateStatusLocked_def Let_def upd_dev_def)
qed

lemma NotifyShutter_order:
  assumes "order_inv w" "NotifyShutter E f ts w = Some w'"
  shows "order_inv w'"
proof (cases "kv_find (pending_requests (dev w)) f")
  case None
  with assms silent_inv [OF silent_SetErrorState [OF silent_refl]] show ?thesis
    by (auto simp: NotifyShutter_def)
next
  case (Some r)
  define w1 where "w1 = (if shutterCb (client_cb (dev w)) then emit (Ev_shutter (pr_extras r) ts) w else w)"
  note k = order_inv_pending [OF assms(1) Some]
  have d1: "dev w1 = dev w" "results k w1 = results k w" for k by (simp_all add: w1_def results_def)
  have sh: "shutters k w1 = shutters k w \<or> k = ex_input (pr_extras r) \<and> shutters k w1 = shutters k w @ [f]" for k
    using k(1) by (auto simp: w1_def shutters_def)
  show ?thesis
  proof (cases "accept_shutter (pr_extras r) f (dev w1)")
    case None
    have "in_error (SetErrorState w1)"
      using assms(1) d1 by (auto simp: SetErrorState_frame order_inv_def opened_def)
    moreover have "opened (SetErrorState w1)" "keys_ok (SetErrorState w1)"
      using assms(1) d1 SetErrorState_frame(10) [of w1]
      by (auto simp: order_inv_def opened_def keys_ok_def SetErrorState_frame)
    ultimately have "order_inv (SetErrorState w1)"
      using assms(1) d1 by (auto simp: order_inv_def SetErrorState_frame)
    with None Some assms(2) show ?thesis
      by (simp add: NotifyShutter_def Let_def w1_def [symmetric])
  next
    case (Some d)
    have nx: "next_shutter (ex_input (pr_extras r)) (dev w) \<le> f" "next_shutter (ex_input (pr_extras r)) d = f + 1"
      "k \<noteq> ex_input (pr_extras r) \<Longrightarrow> next_shutter k d = next_shutter k (dev w)" for k
      using Some d1 by (auto simp: accept_shutter_def next_defs split: if_splits)
    have same: "next_result k d = next_result k (dev w)" "pending_requests d = pending_requests (dev w)"
      "is_partial_result_supported d = is_partial_result_supported (dev w)" "state d = state (dev w)" for k
      using Some d1 by (auto simp: accept_shutter_def next_defs split: if_splits)
    have "in_order (shutters k (upd_dev (\<lambda>_. d) w1)) (next_shutter k d)" if "\<not> in_error w" for k
    proof -
      have o: "in_order (shutters k w) (next_shutter k (dev w))" for k
        using assms(1) that by (simp add: order_inv_def)
      show ?thesis
        using sh [of k] in_order_above [OF o nx(1) k(2)] o [of k] nx(2,3)
        by (cases "k = ex_input (pr_extras r)") (auto simp: shutters_def)
    qed
    then have 1: "order_inv (upd_dev (\<lambda>_. d) w1)"
      using assms(1) same d1 by (auto simp: order_inv_def opened_def in_error_def keys_ok_def results_def)
    define w2 where "w2 = upd_pending f (\<lambda>q. q\<lparr>shutterTS := ts\<rparr>) (upd_dev (\<lambda>_. d) w1)"
    have "order_inv w2"
      unfolding w2_def using 1 by (rule silent_inv [rotated]) auto
    then have 2: "order_inv (SendCaptureResult E (pendingMetadata r) (pr_extras r) (composedResult r) f w2)"
      using k by (rule SendCaptureResult_order)
    from Some \<open>kv_find _ f = Some r\<close> assms(2) obtain w4 where
      "ReturnOutputBuffers E (pendingBuffers r) ts f
         (SendCaptureResult E (pendingMetadata r) (pr_extras r) (composedResult r) f w2) = Some w4"
      "RemovePendingRequestLocked E f (upd_pending f (\<lambda>q. q\<lparr>pendingBuffers := []\<rparr>) w4) = Some w'"
      by (auto simp: NotifyShutter_def Let_def w1_def [symmetric] w2_def split: Option.bind_split_asm)
    then have "silent (SendCaptureResult E (pendingMetadata r) (pr_extras r) (composedResult r) f w2) w4"
      "silent (upd_pending f (\<lambda>q. q\<lparr>pendingBuffers := []\<rparr>) w4) w'"
      by (auto intro: ReturnOutputBuffers_silent RemovePendingRequestLocked_silent)
    moreover have "silent w4 (upd_pending f (\<lambda>q. q\<lparr>pendingBuffers := []\<rparr>) w4)" by auto
    ultimately show ?thesis using 2 by (blast intro: silent_inv)
  qed
qed

section \<open>Runs\<close>

text \<open>
  The callbacks of the HAL, the status changes of the monitor and the registration of requests
  by the request handler, whose frame numbers have not reached the end of their range.
\<close>

inductive hal_step :: "env \<Rightarrow> world \<Rightarrow> world \<Rightarrow> bool" for E where
  hal_result: "HandleCaptureResult E res w = Some w' \<Longrightarrow> hal_step E w w'"
| hal_notify: "Notify E m w = Some w' \<Longrightarrow> hal_step E w w'"
| hal_status: "hal_step E w (NotifyStatus idle w)"
| hal_mark: "frameNumber x \<noteq> - 1 \<Longrightarrow> MarkPendingRequest (frameNumber x) n x w = (r, w') \<Longrightarrow> hal_step E w w'"

lemma MarkPendingRequest_silent:
  "frameNumber x \<noteq> - 1 \<Longrightarrow> MarkPendingRequest (frameNumber x) n x w = (r, w') \<Longrightarrow> silent w w'"
  by (rule silent_same [OF _ _ _ _ _ _ _ silent_refl])
    (fastforce simp: MarkPendingRequest_def Let_def next_defs opened_def in_error_def keys_ok_def
      PendingRequest_def split: if_splits)+

lemma Notify_order: "order_inv w \<Longrightarrow> Notify E m w = Some w' \<Longrightarrow> order_inv w'"
  using silent_inv [OF NotifyError_silent] silent_inv [OF silent_SetErrorState [OF silent_refl]]
  by (auto simp: Notify_def split: option.splits camera3_notify_msg.splits intro: NotifyShutter_order)

lemma hal_step_order: "hal_step E w w' \<Longrightarrow> order_inv w \<Longrightarrow> order_inv w'"
  by (induction rule: hal_step.induct)
    (blast intro: HandleCaptureResult_order Notify_order silent_inv NotifyStatus_silent
      MarkPendingRequest_silent)+

text \<open>A device that has just been opened: no requests, and nothing passed to the client yet.\<close>

definition just_opened :: "world \<Rightarrow> bool" where
  "just_opened w \<longleftrightarrow> \<not> is_partial_result_supported (dev w) \<and> opened w \<and>
     pending_requests (dev w) = [] \<and> (\<forall>k. results k w = [] \<and> shutters k w = [])"

interpretation order_sys: invariant_system just_opened "hal_step E" order_inv
proof unfold_locales
  show "order_inv w" if "just_opened w" for w
    using that by (simp add: just_opened_def order_inv_def keys_ok_def in_order_def)
qed (rule hal_step_order)

end
