(* ===== verification/Device_Delivery.thy ===== *)
theory Device_Delivery
  imports Device_Order Request_Handler_Props
begin

text \<open>
  The delivery of one frame: a capture result and a shutter notification reach the device in
  either order, and the client gets the shutter, the metadata and the buffers, in this order.
\<close>

section \<open>Writing a pending request\<close>

definition put :: "u32 \<Rightarrow> PendingRequest \<Rightarrow> world \<Rightarrow> world" where
  "put f r w = upd_dev (\<lambda>d. d\<lparr>pending_requests := kv_add f r (pending_requests d)\<rparr>) w"

definition pending :: "u32 \<Rightarrow> world \<Rightarrow> PendingRequest option" where
  "pending f w = kv_find (pending_requests (dev w)) f"

definition pending_wf :: "world \<Rightarrow> bool" where
  "pending_wf w \<longleftrightarrow> kv_wf (pending_requests (dev w))"

lemma put_laws [simp]:
  "pending_wf w \<Longrightarrow> pending_wf (put f r w)"
  "pending_wf w \<Longrightarrow> pending f (put f r w) = Some r"
  "pending_wf w \<Longrightarrow> put f r (put f q w) = put f r w"
  "log (put f r w) = log w" "objects (put f r w) = objects w" "shr (put f r w) = shr w"
  "client_cb (dev (put f r w)) = client_cb (dev w)"
  "is_partial_result_supported (dev (put f r w)) = is_partial_result_supported (dev w)"
  by (simp_all add: put_def pending_def pending_wf_def upd_dev_def kv_add_add)

lemma upd_pending_put: "pending f w = Some q \<Longrightarrow> upd_pending f g w = put f (g q) w"
  by (simp add: upd_pending_def put_def pending_def)

section \<open>A result before its shutter\<close>

text \<open>The whole result of a frame: its metadata and all its buffers at once.\<close>

definition whole_result :: "u32 \<Rightarrow> metadata \<Rightarrow> out_buffer list \<Rightarrow> camera3_capture_result" where
  "whole_result f md bs = \<lparr>r_frame_number = f, r_result = Some md, r_output_buffers = bs,
     r_input_buffer = None, r_partial_result = 1\<rparr>"

definition counted :: "CaptureResultExtras \<Rightarrow> CaptureResultExtras" where
  "counted x = x\<lparr>partialResultCount := 1\<rparr>"

text \<open>The request of a frame whose result has come, with the shutter at \<open>ts\<close>.\<close>

definition answered :: "env \<Rightarrow> CaptureResultExtras \<Rightarrow> metadata \<Rightarrow> out_buffer list \<Rightarrow> int \<Rightarrow>
    metadata \<Rightarrow> out_buffer list \<Rightarrow> PendingRequest" where
  "answered E x md bs ts kept keptb =
     (PendingRequest 0 (counted x))\<lparr>shutterTS := ts, isMetaPresent := True,
        sensorTS := sensor_time E (whole_result 0 md bs) 0, pendingMetadata := kept,
        pendingBuffers := keptb\<rparr>"

lemma FinishResult_whole:
  assumes "pending_wf w" "pending f w = Some ((PendingRequest (int (length bs)) (counted x))\<lparr>shutterTS := ts\<rparr>)"
    and "\<not> is_partial_result_supported (dev w)"
  shows "FinishResult E (whole_result f md bs) False w =
    (if ts = 0 then Some (True, put f (answered E x md bs 0 md bs) w)
     else do {
       let w1 = SendCaptureResult E md (counted x) [] f (put f (answered E x md bs ts [] []) w);
       w2 \<leftarrow> (if 0 < ts then ReturnOutputBuffers E bs ts f w1 else Some w1);
       w3 \<leftarrow> RemovePendingRequestLocked E f w2;
       Some (True, w3)
     })"
proof -
  have p: "kv_find (pending_requests (dev w)) f =
      Some ((PendingRequest (int (length bs)) (counted x))\<lparr>shutterTS := ts\<rparr>)"
    using assms(2) by (simp add: pending_def)
  have rem: "RemovePendingRequestLocked E f (put f (answered E x md bs 0 md bs) w) =
      Some (put f (answered E x md bs 0 md bs) w)"
    using put_laws(2) [OF assms(1)] unfolding RemovePendingRequestLocked_def
    by (simp add: pending_def request_complete_def answered_def PendingRequest_def)
  show ?thesis
    using assms(3) p rem upd_pending_put [OF assms(2)]
    by (simp add: FinishResult_def whole_result_def buffers_after_def Let_def sensor_time_def
        answered_def PendingRequest_def)
qed

lemma HandleCaptureResult_whole:
  assumes "pending_wf w" "pending f w = Some ((PendingRequest (int (length bs)) x)\<lparr>shutterTS := ts\<rparr>)"
    and "\<not> is_partial_result_supported (dev w)"
  shows "HandleCaptureResult E (whole_result f md bs) w =
    (if ts = 0 then Some (put f (answered E x md bs 0 md bs) w)
     else do {
       let w1 = SendCaptureResult E md (counted x) [] f (put f (answered E x md bs ts [] []) w);
       w2 \<leftarrow> (if 0 < ts then ReturnOutputBuffers E bs ts f w1 else Some w1);
       RemovePendingRequestLocked E f w2
     })"
proof -
  let ?r = "(PendingRequest (int (length bs)) (counted x))\<lparr>shutterTS := ts\<rparr>"
  have p: "kv_find (pending_requests (dev w)) f = Some ((PendingRequest (int (length bs)) x)\<lparr>shutterTS := ts\<rparr>)"
    using assms(2) by (simp add: pending_def)
  have c: "collect_partial E (whole_result f md bs) (dev w) ((PendingRequest (int (length bs)) x)\<lparr>shutterTS := ts\<rparr>)
      = (?r, Some False)"
    using assms(3) by (simp add: collect_partial_def whole_result_def PendingRequest_def counted_def)
  have "HandleCaptureResult E (whole_result f md bs) w =
      map_option snd (FinishResult E (whole_result f md bs) False (put f ?r w))"
    using assms(3) p c upd_pending_put [OF assms(2)]
    by (cases "FinishResult E (whole_result f md bs) False (put f ?r w)")
      (auto simp: HandleCaptureResult_def whole_result_def Let_def)
  also have "\<dots> = (if ts = 0 then Some (put f (answered E x md bs 0 md bs) w)
     else do {
       let w1 = SendCaptureResult E md (counted x) [] f (put f (answered E x md bs ts [] []) w);
       w2 \<leftarrow> (if 0 < ts then ReturnOutputBuffers E bs ts f w1 else Some w1);
       RemovePendingRequestLocked E f w2
     })"
    using assms(1,3) by (subst FinishResult_whole) (auto simp: Let_def split: Option.bind_splits)
  finally show ?thesis .
qed

section \<open>The shutter\<close>

definition told :: "CaptureResultExtras \<Rightarrow> int \<Rightarrow> world \<Rightarrow> world" where
  "told x ts w = (if shutterCb (client_cb (dev w)) then emit (Ev_shutter x ts) w else w)"

lemma told_laws [simp]:
  "dev (told x ts w) = dev w" "pending f (told x ts w) = pending f w"
  "pending_wf (told x ts w) = pending_wf w" "objects (told x ts w) = objects w"
  "shr (told x ts w) = shr w"
  by (simp_all add: told_def pending_def pending_wf_def)

lemma accept_shutter_frame:
  assumes "accept_shutter x f d = Some d1"
  shows "pending_requests d1 = pending_requests d" "client_cb d1 = client_cb d"
    "is_partial_result_supported d1 = is_partial_result_supported d" "state d1 = state d"
    "flush_on_going d1 = flush_on_going d" "next_result_frame_number d1 = next_result_frame_number d"
  using assms by (auto simp: accept_shutter_def split: if_splits)

lemma accept_counted [simp]: "accept_shutter (counted x) f d = accept_shutter x f d"
  by (simp add: accept_shutter_def counted_def)

lemma RemovePending_waits:
  assumes "pending f w = Some r" "pr_status r = 0" "\<not> isMetaPresent r"
  shows "RemovePendingRequestLocked E f w = Some w"
  using assms by (simp add: RemovePendingRequestLocked_def pending_def request_complete_def)

lemma NotifyShutter_fresh:
  assumes "pending_wf w" "pending f w = Some (PendingRequest n x)"
  shows "NotifyShutter E f ts w =
    (case accept_shutter x f (dev w) of
       None \<Rightarrow> Some (SetErrorState (told x ts w))
     | Some d \<Rightarrow> Some (put f ((PendingRequest n x)\<lparr>shutterTS := ts\<rparr>) (upd_dev (\<lambda>_. d) (told x ts w))))"
proof (cases "accept_shutter x f (dev w)")
  case None
  with assms(2) show ?thesis
    by (simp add: NotifyShutter_def pending_def told_def Let_def PendingRequest_def)
next
  case (Some d)
  let ?w = "upd_dev (\<lambda>_. d) (told x ts w)" and ?r = "(PendingRequest n x)\<lparr>shutterTS := ts\<rparr>"
  have p: "pending f ?w = Some (PendingRequest n x)" "pending_wf ?w"
    using assms accept_shutter_frame(1) [OF Some] by (simp_all add: pending_def pending_wf_def)
  have q: "pending f (put f ?r ?w) = Some ?r" using p(2) by simp
  have "upd_pending f (\<lambda>q. q\<lparr>pendingBuffers := []\<rparr>) (put f ?r ?w) = put f ?r ?w"
    using upd_pending_put [OF q] p(2) by (simp add: PendingRequest_def)
  moreover have "RemovePendingRequestLocked E f (put f ?r ?w) = Some (put f ?r ?w)"
    using q by (rule RemovePending_waits) (simp_all add: PendingRequest_def)
  ultimately show ?thesis
    using Some assms(2) upd_pending_put [OF p(1), of "\<lambda>q. q\<lparr>shutterTS := ts\<rparr>"]
    by (simp add: NotifyShutter_def pending_def told_def [symmetric] Let_def SendCaptureResult_def
        PendingRequest_def)
qed

lemma NotifyShutter_answered:
  assumes "pending_wf w" "pending f w = Some (answered E x md bs 0 md bs)"
  shows "NotifyShutter E f ts w =
    (case accept_shutter x f (dev w) of
       None \<Rightarrow> Some (SetErrorState (told (counted x) ts w))
     | Some d \<Rightarrow> do {
         let w1 = SendCaptureResult E md (counted x) [] f
                    (put f (answered E x md bs ts md bs) (upd_dev (\<lambda>_. d) (told (counted x) ts w)));
         w2 \<leftarrow> ReturnOutputBuffers E bs ts f w1;
         RemovePendingRequestLocked E f (upd_pending f (\<lambda>q. q\<lparr>pendingBuffers := []\<rparr>) w2)
       })"
proof (cases "accept_shutter x f (dev w)")
  case None
  with assms(2) show ?thesis
    by (simp add: NotifyShutter_def pending_def told_def Let_def answered_def PendingRequest_def)
next
  case (Some d)
  let ?w = "upd_dev (\<lambda>_. d) (told (counted x) ts w)"
  have p: "pending f ?w = Some (answered E x md bs 0 md bs)"
    using assms accept_shutter_frame(1) [OF Some] by (simp add: pending_def)
  have "(answered E x md bs 0 md bs)\<lparr>shutterTS := ts\<rparr> = answered E x md bs ts md bs"
    by (simp add: answered_def)
  with Some assms(2) upd_pending_put [OF p, of "\<lambda>q. q\<lparr>shutterTS := ts\<rparr>"] show ?thesis
    by (simp add: NotifyShutter_def pending_def told_def [symmetric] Let_def)
      (simp add: answered_def PendingRequest_def told_def)
qed

section \<open>The two orders agree\<close>

text \<open>
  The two runs differ in the extras of one entry of the log, at position \<open>k\<close> (when there is a
  shutter callback, \<open>b\<close>), and in what the request of the frame keeps for its shutter.
\<close>

definition relog :: "bool \<Rightarrow> nat \<Rightarrow> event \<Rightarrow> event list \<Rightarrow> event list" where
  "relog b k e l = (if b then l[k := e] else l)"

definition kv_map :: "'k \<Rightarrow> ('v \<Rightarrow> 'v) \<Rightarrow> ('k, 'v) kv \<Rightarrow> ('k, 'v) kv" where
  "kv_map a g m = map (\<lambda>p. if fst p = a then (a, g (snd p)) else p) m"

definition strip :: "PendingRequest \<Rightarrow> PendingRequest" where
  "strip r = r\<lparr>pendingMetadata := [], pendingBuffers := []\<rparr>"

definition relabel :: "bool \<Rightarrow> nat \<Rightarrow> event \<Rightarrow> u32 \<Rightarrow> world \<Rightarrow> world" where
  "relabel b k e f w = w\<lparr>log := relog b k e (log w),
     dev := (dev w)\<lparr>pending_requests := kv_map f strip (pending_requests (dev w))\<rparr>\<rparr>"

lemma kv_map_laws [simp]:
  "kv_find (kv_map a g m) a = map_option g (kv_find m a)"
  "kv_map a g (kv_add a v m) = kv_add a (g v) (kv_map a g m)"
  "kv_remove a (kv_map a g m) = kv_remove a m"
  "kv_wf (kv_map a g m) = kv_wf m"
proof -
  show "kv_find (kv_map a g m) a = map_option g (kv_find m a)"
    by (induction m) (auto simp: kv_map_def)
  show "kv_map a g (kv_add a v m) = kv_add a (g v) (kv_map a g m)"
    by (induction m) (auto simp: kv_map_def)
  show "kv_remove a (kv_map a g m) = kv_remove a m"
    by (induction m) (auto simp: kv_map_def kv_remove_def)
  have "kv_keys (kv_map a g m) = kv_keys m" by (induction m) (auto simp: kv_map_def)
  then show "kv_wf (kv_map a g m) = kv_wf m" by (simp add: kv_wf_def)
qed

definition long :: "bool \<Rightarrow> nat \<Rightarrow> world \<Rightarrow> bool" where
  "long b k w \<longleftrightarrow> (b \<longrightarrow> k < length (log w))"

lemma relog_snoc: "b \<longrightarrow> k < length l \<Longrightarrow> relog b k e (l @ [v]) = relog b k e l @ [v]"
  by (auto simp: relog_def list_update_append)

lemma relabel_view [simp]:
  "objects (relabel b k e f w) = objects w" "shr (relabel b k e f w) = shr w"
  "client_cb (dev (relabel b k e f w)) = client_cb (dev w)" "state (dev (relabel b k e f w)) = state (dev w)"
  "flush_on_going (dev (relabel b k e f w)) = flush_on_going (dev w)"
  "is_partial_result_supported (dev (relabel b k e f w)) = is_partial_result_supported (dev w)"
  "pending_requests (dev (relabel b k e f w)) = kv_map f strip (pending_requests (dev w))"
  "rh (relabel b k e f w) = rh w" "log (relabel b k e f w) = relog b k e (log w)"
  by (simp_all add: relabel_def)

lemma relabel_emit: "long b k w \<Longrightarrow> emit v (relabel b k e f w) = relabel b k e f (emit v w)"
  by (simp add: emit_def relabel_def relog_snoc long_def)

lemma relabel_upd_rh: "upd_rh h (relabel b k e f w) = relabel b k e f (upd_rh h w)"
  by (simp add: relabel_def upd_rh_def)

lemma long_laws [simp]:
  "long b k w \<Longrightarrow> long b k (emit v w)" "long b k (upd_dev h w) = long b k w"
  "long b k (upd_rh r w) = long b k w" "long b k (put f q w) = long b k w"
  "long b k (w\<lparr>objects := ob, shr := sh\<rparr>) = long b k w"
  by (auto simp: long_def)

lemma long_upd_pending [simp]: "long b k (upd_pending f g w) = long b k w"
  by (simp add: upd_pending_def split: option.splits)

lemma relabel_SetErrorState:
  assumes "long b k w"
  shows "SetErrorState (relabel b k e f w) = relabel b k e f (SetErrorState w)"
    and "long b k (SetErrorState w)"
proof -
  let ?w1 = "InternalUpdateStatusLocked STATE_ERROR (snd (TogglePause True w))"
  have 1: "InternalUpdateStatusLocked STATE_ERROR (snd (TogglePause True (relabel b k e f w))) = relabel b k e f ?w1"
    by (simp add: InternalUpdateStatusLocked_def TogglePause_def relabel_def upd_dev_def upd_rh_def)
  have 2: "long b k ?w1" using assms by (simp add: InternalUpdateStatusLocked_def TogglePause_def)
  from 1 2 show "SetErrorState (relabel b k e f w) = relabel b k e f (SetErrorState w)"
    by (simp add: SetErrorState_def SetErrorStateLockedV_def relabel_emit Let_def)
  from assms 2 show "long b k (SetErrorState w)"
    by (simp add: SetErrorState_def SetErrorStateLockedV_def Let_def)
qed

lemma accept_result_relabel:
  "accept_result x f (dev (relabel b k e f' w)) =
     map_option (\<lambda>d. d\<lparr>pending_requests := kv_map f' strip (pending_requests d)\<rparr>) (accept_result x f (dev w))"
  by (simp add: accept_result_def relabel_def)

lemma upd_dev_relabel:
  "upd_dev (\<lambda>_. d\<lparr>pending_requests := kv_map f strip (pending_requests d)\<rparr>) (relabel b k e f w) =
     relabel b k e f (upd_dev (\<lambda>_. d) w)"
  by (simp add: relabel_def upd_dev_def)

lemma relabel_Send:
  assumes "long b k w"
  shows "SendCaptureResult E md x c f (relabel b k e f' w) = relabel b k e f' (SendCaptureResult E md x c f w)"
    and "long b k (SendCaptureResult E md x c f w)"
proof -
  show "SendCaptureResult E md x c f (relabel b k e f' w) = relabel b k e f' (SendCaptureResult E md x c f w)"
    using assms
    by (auto simp: SendCaptureResult_def accept_result_relabel upd_dev_relabel relabel_SetErrorState
        relabel_emit Let_def split: option.splits)
  show "long b k (SendCaptureResult E md x c f w)"
    using assms by (auto simp: SendCaptureResult_def relabel_SetErrorState Let_def split: option.splits)
qed

lemma relabel_upd_pending:
  assumes "\<And>r. g (strip r) = strip (g r)"
  shows "upd_pending f g (relabel b k e f w) = relabel b k e f (upd_pending f g w)"
  by (cases "kv_find (pending_requests (dev w)) f")
    (simp_all add: upd_pending_def assms relabel_def upd_dev_def)

lemma relabel_put: "put f (strip r) (relabel b k e f w) = relabel b k e f (put f r w)"
  by (simp add: put_def relabel_def upd_dev_def)

lemma relabel_streams:
  "(relabel b k e f w)\<lparr>objects := ob, shr := sh\<rparr> = relabel b k e f (w\<lparr>objects := ob, shr := sh\<rparr>)"
  by (simp add: relabel_def)

lemma relabel_ReturnBufferToClient:
  assumes "long b k w"
  shows "stream_ReturnBufferToClient E ob ts f (relabel b k e f' w) =
      map_option (relabel b k e f') (stream_ReturnBufferToClient E ob ts f w)"
    and "stream_ReturnBufferToClient E ob ts f w = Some w' \<Longrightarrow> long b k w'"
  using assms unfolding stream_ReturnBufferToClient_def Let_def
  by (auto simp: relabel_streams relabel_emit split: Option.bind_splits option.splits)

lemma extras_strip: "pr_extras (strip r) = pr_extras r"
  by (simp add: strip_def)

lemma long_ReturnOutputBuffers:
  "long b k w \<Longrightarrow> ReturnOutputBuffers E bs ts f w = Some w' \<Longrightarrow> long b k w'"
proof (induction bs arbitrary: w)
  case (Cons ob bs)
  from Cons.prems(2) obtain w1 where 1: "stream_ReturnBufferToClient E ob ts f w = Some w1"
    by (auto split: Option.bind_split_asm)
  have "long b k w1" using relabel_ReturnBufferToClient(2) Cons.prems(1) 1 by blast
  with Cons.prems(2) 1 show ?case
    by (auto simp: Let_def split: Option.bind_split_asm if_splits intro: Cons.IH [rotated])
qed simp

lemma relabel_ReturnOutputBuffers:
  "long b k w \<Longrightarrow> ReturnOutputBuffers E bs ts f (relabel b k e f w) =
      map_option (relabel b k e f) (ReturnOutputBuffers E bs ts f w)"
proof (induction bs arbitrary: w)
  case (Cons ob bs)
  note rb = relabel_ReturnBufferToClient [OF Cons.prems]
  let ?g = "\<lambda>r. r\<lparr>pr_status := CAMERA3_MSG_ERROR_BUFFER\<rparr>"
  have g: "upd_pending f ?g (relabel b k e f u) = relabel b k e f (upd_pending f ?g u)" for u
    by (rule relabel_upd_pending) (simp add: strip_def)
  show ?case
  proof (cases "stream_ReturnBufferToClient E ob ts f w")
    case None
    then show ?thesis by (simp add: rb(1))
  next
    case (Some w1)
    then have l: "long b k w1" by (rule rb(2))
    have ih: "ReturnOutputBuffers E bs ts f (relabel b k e f (emit (Ev_error ERROR_CAMERA_BUFFER x)
          (upd_pending f ?g w1))) = map_option (relabel b k e f)
          (ReturnOutputBuffers E bs ts f (emit (Ev_error ERROR_CAMERA_BUFFER x) (upd_pending f ?g w1)))" for x
      using l by (intro Cons.IH) simp
    from Some l show ?thesis
      by (cases "kv_find (pending_requests (dev w1)) f")
        (simp_all add: rb(1) Cons.IH g relabel_emit ih extras_strip Let_def)
  qed
qed simp

section \<open>The end of a request\<close>

definition drop_request :: "u32 \<Rightarrow> world \<Rightarrow> world" where
  "drop_request f w = upd_dev (\<lambda>d. d\<lparr>pending_requests := kv_remove f (pending_requests d)\<rparr>) w"

text \<open>The check of the two timestamps.\<close>

definition checked :: "PendingRequest \<Rightarrow> world \<Rightarrow> world" where
  "checked r w = (if pr_status r = 0 \<and> sensorTS r \<noteq> shutterTS r then SetErrorState w else w)"

lemma SetErrorState_put: "SetErrorState (put f r w) = put f r (SetErrorState w)"
  by (simp add: SetErrorState_def SetErrorStateLockedV_def Let_def InternalUpdateStatusLocked_def
      TogglePause_def put_def upd_dev_def upd_rh_def emit_def)

lemma drop_put [simp]: "drop_request f (put f r w) = drop_request f w"
  by (simp add: drop_request_def put_def upd_dev_def)

lemma checked_put: "checked q (put f r w) = put f r (checked q w)"
  by (simp add: checked_def SetErrorState_put)

lemma Remove_complete:
  assumes "pending f w = Some r" "buffersRemaining r = 0" "isMetaPresent r" "shutterTS r \<noteq> 0"
    "pendingBuffers r = []"
  shows "RemovePendingRequestLocked E f w = Some (drop_request f (checked r w))"
proof -
  have "kv_find (pending_requests (dev (SetErrorState w))) f = Some r"
    using assms(1) by (simp add: SetErrorState_frame pending_def)
  with assms show ?thesis
    by (simp add: RemovePendingRequestLocked_def pending_def request_complete_def checked_def
        drop_request_def Let_def)
qed

lemma Send_pending [simp]:
  "pending f' (SendCaptureResult E md x c f w) = pending f' w"
  "pending_wf (SendCaptureResult E md x c f w) = pending_wf w"
  by (auto simp: SendCaptureResult_def pending_def pending_wf_def accept_result_def Let_def
      SetErrorState_frame split: option.splits)

lemma ReturnOutputBuffers_pending:
  assumes "ReturnOutputBuffers E bs ts f w = Some w'" "pending_wf w" "pending f w = Some r"
  shows "pending_wf w' \<and> (\<exists>st. pending f w' = Some (r\<lparr>pr_status := st\<rparr>))"
  using assms
proof (induction bs arbitrary: w r)
  case Nil
  then have "pending_wf w'" "pending f w' = Some (r\<lparr>pr_status := pr_status r\<rparr>)" by simp_all
  then show ?case by blast
next
  case (Cons b bs)
  from Cons.prems(1) obtain w1 w2 where
    1: "stream_ReturnBufferToClient E b ts f w = Some w1" and
    2: "w2 = w1 \<or> (\<exists>x. w2 = emit (Ev_error ERROR_CAMERA_BUFFER x)
          (upd_pending f (\<lambda>r. r\<lparr>pr_status := CAMERA3_MSG_ERROR_BUFFER\<rparr>) w1))" and
    3: "ReturnOutputBuffers E bs ts f w2 = Some w'"
    by (auto simp: Let_def split: Option.bind_split_asm if_splits)
  from 1 have d: "dev w1 = dev w"
    by (auto simp: stream_ReturnBufferToClient_def Let_def split: adv_split)
  have w1: "pending_wf w1" "pending f w1 = Some r"
    using d Cons.prems(2,3) by (simp_all add: pending_def pending_wf_def)
  have "pending_wf w2 \<and> (pending f w2 = Some r \<or> pending f w2 = Some (r\<lparr>pr_status := CAMERA3_MSG_ERROR_BUFFER\<rparr>))"
    using 2 w1 upd_pending_put [OF w1(2)] by (auto simp: pending_def pending_wf_def put_def)
  then show ?case using Cons.IH [OF 3] by auto
qed

text \<open>Both orders end the same way, up to the relabelling.\<close>

lemma tails_agree:
  assumes "pending_wf w" "pending f w = Some r" "buffersRemaining r = 0" "isMetaPresent r" "shutterTS r \<noteq> 0"
    and "long b k w"
  shows "RemovePendingRequestLocked E f (relabel b k e f w) =
    map_option (\<lambda>u. u\<lparr>log := relog b k e (log u)\<rparr>)
      (RemovePendingRequestLocked E f (upd_pending f (\<lambda>q. q\<lparr>pendingBuffers := []\<rparr>) w))"
proof -
  let ?c = "r\<lparr>pendingBuffers := []\<rparr>"
  have ck: "checked ?c = checked r" "checked (strip r) = checked r"
    by (auto simp: checked_def strip_def)
  have rel: "checked r (relabel b k e f w) = relabel b k e f (checked r w)"
    using assms(6) by (simp add: checked_def relabel_SetErrorState)
  have drp: "drop_request f (relabel b k e f u) = (drop_request f u)\<lparr>log := relog b k e (log (drop_request f u))\<rparr>" for u
    by (simp add: drop_request_def relabel_def upd_dev_def)
  have "pending f (relabel b k e f w) = Some (strip r)" using assms(2) by (simp add: pending_def)
  moreover have "buffersRemaining (strip r) = 0" "isMetaPresent (strip r)" "shutterTS (strip r) \<noteq> 0"
    "pendingBuffers (strip r) = []"
    using assms(3-5) by (simp_all add: strip_def)
  ultimately have "RemovePendingRequestLocked E f (relabel b k e f w) =
      Some ((drop_request f (checked r w))\<lparr>log := relog b k e (log (drop_request f (checked r w)))\<rparr>)"
    by (simp add: Remove_complete ck rel drp)
  moreover have "RemovePendingRequestLocked E f (put f ?c w) = Some (drop_request f (checked r w))"
    using Remove_complete [of f "put f ?c w" ?c E] assms(1,3-5) by (simp add: ck checked_put)
  ultimately show ?thesis using upd_pending_put [OF assms(2)] by simp
qed

lemma kv_add_map: "kv_wf m \<Longrightarrow> kv_add a v (kv_map a g m) = kv_add a v m"
proof -
  have "kv_find (kv_map a g m) c = kv_find m c" if "c \<noteq> a" for c
    using that by (induction m) (auto simp: kv_map_def)
  then show "kv_wf m \<Longrightarrow> kv_add a v (kv_map a g m) = kv_add a v m"
    by (intro kv_ext) auto
qed

lemma orders_agree:
  assumes wf: "pending_wf w" and p: "pending f w = Some (PendingRequest (int (length bs)) x)"
    and np: "\<not> is_partial_result_supported (dev w)" and ts: "0 < ts"
  shows "Option.bind (NotifyShutter E f ts w) (HandleCaptureResult E (whole_result f md bs)) =
    map_option (\<lambda>u. u\<lparr>log := relog (shutterCb (client_cb (dev w))) (length (log w)) (Ev_shutter x ts) (log u)\<rparr>)
      (Option.bind (HandleCaptureResult E (whole_result f md bs) w) (NotifyShutter E f ts))"
proof -
  let ?cb = "shutterCb (client_cb (dev w))" and ?k = "length (log w)" and ?e = "Ev_shutter x ts"
  let ?R = "relabel ?cb ?k ?e f"
  define v where "v = put f (answered E x md bs 0 md bs) w"
  have v: "pending_wf v" "pending f v = Some (answered E x md bs 0 md bs)" "log v = log w"
    "client_cb (dev v) = client_cb (dev w)"
    "accept_shutter x f (dev v) = map_option (\<lambda>d. d\<lparr>pending_requests := pending_requests (dev v)\<rparr>)
       (accept_shutter x f (dev w))"
    using wf by (simp_all add: v_def) (simp add: accept_shutter_def put_def upd_dev_def)
  have r0: "PendingRequest n x = (PendingRequest n x)\<lparr>shutterTS := 0\<rparr>" for n
    by (simp add: PendingRequest_def)
  have first: "HandleCaptureResult E (whole_result f md bs) w = Some v"
    using HandleCaptureResult_whole [OF wf _ np, where f = f and bs = bs and x = x and ts = 0] p r0 by (simp add: v_def)
  show ?thesis
  proof (cases "accept_shutter x f (dev w)")
    case None
    have pt: "put f r (told y t u) = told y t (put f r u)" for r y t u
      by (simp add: told_def put_def upd_dev_def emit_def)
    have a: "pending_wf (SetErrorState (told x ts w))"
      "pending f (SetErrorState (told x ts w)) = Some (PendingRequest (int (length bs)) x)"
      "\<not> is_partial_result_supported (dev (SetErrorState (told x ts w)))"
      using wf p np by (simp_all add: pending_def pending_wf_def SetErrorState_frame)
    have b: "HandleCaptureResult E (whole_result f md bs) (SetErrorState (told x ts w)) =
        Some (SetErrorState (told x ts v))"
      using HandleCaptureResult_whole [OF a(1) _ a(3), where f = f and bs = bs and x = x and ts = 0] a(2) r0
      by (simp add: v_def SetErrorState_put [symmetric] pt)
    have "SetErrorState (told x ts v) = (SetErrorState (told (counted x) ts v))\<lparr>log :=
        relog ?cb ?k ?e (log (SetErrorState (told (counted x) ts v)))\<rparr>"
      using v(3,4) by (auto simp: SetErrorState_def SetErrorStateLockedV_def Let_def told_def relog_def
          InternalUpdateStatusLocked_def TogglePause_def upd_dev_def upd_rh_def emit_def list_update_append)
    with b first NotifyShutter_fresh [OF wf p] NotifyShutter_answered [OF v(1,2)] None v(5) show ?thesis
      by simp
  next
    case (Some d)
    define u where "u = put f (answered E x md bs ts md bs)
      (upd_dev (\<lambda>_. d\<lparr>pending_requests := pending_requests (dev v)\<rparr>) (told (counted x) ts v))"
    define t where "t = put f ((PendingRequest (int (length bs)) x)\<lparr>shutterTS := ts\<rparr>)
      (upd_dev (\<lambda>_. d) (told x ts w))"
    note fr = accept_shutter_frame [OF Some]
    have second: "NotifyShutter E f ts w = Some t"
      using NotifyShutter_fresh [OF wf p, of E ts] Some by (simp add: t_def)
    have t: "pending_wf t" "pending f t = Some ((PendingRequest (int (length bs)) x)\<lparr>shutterTS := ts\<rparr>)"
      "\<not> is_partial_result_supported (dev t)"
      using wf np fr by (simp_all add: t_def pending_wf_def pending_def put_def)
    have u: "pending_wf u" "pending f u = Some (answered E x md bs ts md bs)" "long ?cb ?k u"
      using v fr by (simp_all add: u_def pending_wf_def pending_def put_def long_def told_def)
    have ru: "put f (answered E x md bs ts [] []) t = ?R u"
      using wf fr(1) unfolding u_def t_def v_def put_def relabel_def upd_dev_def told_def relog_def
      by (auto simp: pending_wf_def emit_def kv_add_add kv_add_map strip_def answered_def)
    let ?S = "SendCaptureResult E md (counted x) [] f"
    have B: "HandleCaptureResult E (whole_result f md bs) t = Option.bind
        (ReturnOutputBuffers E bs ts f (?R (?S u))) (RemovePendingRequestLocked E f)"
      using HandleCaptureResult_whole [OF t] ts u(3) by (simp add: ru relabel_Send)
    have A: "NotifyShutter E f ts v = Option.bind (ReturnOutputBuffers E bs ts f (?S u))
        (\<lambda>w2. RemovePendingRequestLocked E f (upd_pending f (\<lambda>q. q\<lparr>pendingBuffers := []\<rparr>) w2))"
      using NotifyShutter_answered [OF v(1,2)] Some v(5) by (simp add: u_def Let_def)
    have l: "long ?cb ?k (?S u)" using u(3) by (rule relabel_Send(2))
    show ?thesis
    proof (cases "ReturnOutputBuffers E bs ts f (?S u)")
      case None
      then show ?thesis using A B first second relabel_ReturnOutputBuffers [OF l] by simp
    next
      case (Some w2)
      from ReturnOutputBuffers_pending [OF this] u(1,2) obtain st where
        w2: "pending_wf w2" "pending f w2 = Some ((answered E x md bs ts md bs)\<lparr>pr_status := st\<rparr>)" by auto
      have "long ?cb ?k w2" using l Some by (rule long_ReturnOutputBuffers)
      from tails_agree [OF w2 _ _ _ this, of E ?e] Some ts show ?thesis
        using A B first second relabel_ReturnOutputBuffers [OF l, of E bs ts f ?e]
        by (simp add: answered_def PendingRequest_def)
    qed
  qed
qed

section \<open>A frame without errors\<close>

text \<open>A buffer the HAL returns: in order, and known to its stream.\<close>

definition returnable :: "world \<Rightarrow> out_buffer \<Rightarrow> bool" where
  "returnable w b \<longleftrightarrow> sb_status (snd b) = CAMERA3_BUFFER_STATUS_OK \<and>
     (\<exists>s. kv_find (objects w) (fst b) = Some s \<and> has_callback s \<and>
          kv_find (buffers_map s) (sb_buffer (snd b)) \<noteq> None)"

text \<open>What the client is given for a buffer.\<close>

definition delivers :: "world \<Rightarrow> int \<Rightarrow> u32 \<Rightarrow> out_buffer \<Rightarrow> StreamBuffer \<Rightarrow> bool" where
  "delivers w ts f b sb \<longleftrightarrow> (\<exists>s. kv_find (objects w) (fst b) = Some s \<and>
     kv_find (buffers_map s) (sb_buffer (snd b)) = Some (b_handle sb) \<and>
     b_stream_id sb = stream_id s \<and> b_timestamp sb = ts \<and> b_frame_number sb = f)"

text \<open>A buffer of the stream has passed from the HAL to the client.\<close>

definition passed :: "stream \<Rightarrow> stream \<Rightarrow> bool" where
  "passed s s' \<longleftrightarrow> s' = s\<lparr>hal_buffer_cnt := hal_buffer_cnt s - 1,
     client_buffer_cnt := client_buffer_cnt s + 1, is_stream_active := True\<rparr>"

lemma return_returnable:
  assumes "kv_wf (objects w)" "returnable w b"
  obtains sb w' where "stream_ReturnBufferToClient E b ts f w = Some w'" "delivers w ts f b sb"
    "kv_wf (objects w')" "dev w' = dev w" "log w' = log w @ [Ev_buffer sb]"
    "\<forall>q. q \<noteq> fst b \<longrightarrow> kv_find (objects w') q = kv_find (objects w) q"
    "\<exists>s s'. kv_find (objects w) (fst b) = Some s \<and> kv_find (objects w') (fst b) = Some s' \<and> passed s s'"
proof -
  from assms(2) obtain s h where s: "kv_find (objects w) (fst b) = Some s" "has_callback s"
    "kv_find (buffers_map s) (sb_buffer (snd b)) = Some h" "sb_status (snd b) = CAMERA3_BUFFER_STATUS_OK"
    by (auto simp: returnable_def)
  then obtain sb s' where r: "ReturnBufferToClient (plat E) (snd b) ts (int (unat f)) s (shr w) = Some (Some sb, s', shr w)"
    "b_handle sb = h" "b_stream_id sb = stream_id s" "b_timestamp sb = ts" "b_frame_number sb = f" "passed s s'"
    by (simp add: ReturnBufferToClient_def Let_def passed_def)
  let ?w = "emit (Ev_buffer sb) (w\<lparr>objects := kv_add (fst b) s' (objects w), shr := shr w\<rparr>)"
  show thesis
    by (rule that [where sb = sb and w' = ?w]) (use s r assms(1) in
      \<open>simp_all add: stream_ReturnBufferToClient_def delivers_def\<close>)
qed

lemma ReturnOutputBuffers_returnable:
  assumes "kv_wf (objects w)" "\<forall>b \<in> set bs. returnable w b" "distinct (map fst bs)"
  shows "\<exists>sbs w'. ReturnOutputBuffers E bs ts f w = Some w' \<and> list_all2 (delivers w ts f) bs sbs \<and>
     kv_wf (objects w') \<and> dev w' = dev w \<and> log w' = log w @ map Ev_buffer sbs \<and>
     (\<forall>q. q \<notin> fst ` set bs \<longrightarrow> kv_find (objects w') q = kv_find (objects w) q) \<and>
     (\<forall>q \<in> fst ` set bs. \<exists>s s'. kv_find (objects w) q = Some s \<and> kv_find (objects w') q = Some s' \<and> passed s s')"
  using assms
proof (induction bs arbitrary: w)
  case Nil
  then show ?case by simp
next
  case (Cons b bs)
  from Cons.prems(2) have rb: "returnable w b" by simp
  obtain sb w1 where 1: "stream_ReturnBufferToClient E b ts f w = Some w1" "delivers w ts f b sb"
    "kv_wf (objects w1)" "dev w1 = dev w" "log w1 = log w @ [Ev_buffer sb]"
    and ot: "\<forall>q. q \<noteq> fst b \<longrightarrow> kv_find (objects w1) q = kv_find (objects w) q"
    and own: "\<exists>s s'. kv_find (objects w) (fst b) = Some s \<and> kv_find (objects w1) (fst b) = Some s' \<and> passed s s'"
    by (rule return_returnable [OF Cons.prems(1) rb])
  have ne: "fst c \<noteq> fst b" if "c \<in> set bs" for c
    using that Cons.prems(3) by (force simp: image_iff)
  have ret: "\<forall>c \<in> set bs. returnable w1 c" "distinct (map fst bs)"
    using Cons.prems(2,3) ot ne by (auto simp: returnable_def)
  from Cons.IH [OF 1(3) ret] obtain sbs w' where
    2: "ReturnOutputBuffers E bs ts f w1 = Some w'" "list_all2 (delivers w1 ts f) bs sbs"
    "kv_wf (objects w')" "dev w' = dev w1" "log w' = log w1 @ map Ev_buffer sbs"
    and ot2: "\<forall>q. q \<notin> fst ` set bs \<longrightarrow> kv_find (objects w') q = kv_find (objects w1) q"
    and own2: "\<forall>q \<in> fst ` set bs. \<exists>s s'. kv_find (objects w1) q = Some s \<and> kv_find (objects w') q = Some s' \<and> passed s s'"
    by blast
  have "sb_status (snd b) = CAMERA3_BUFFER_STATUS_OK" using rb by (simp add: returnable_def)
  then have run: "ReturnOutputBuffers E (b # bs) ts f w = Some w'" using 1(1) 2(1) by simp
  have "list_all2 (delivers w ts f) bs sbs"
    by (rule list.rel_mono_strong [OF 2(2)]) (use ot ne in \<open>auto simp: delivers_def\<close>)
  then have "list_all2 (delivers w ts f) (b # bs) (sb # sbs)" using 1(2) by simp
  moreover have "\<forall>q. q \<notin> fst ` set (b # bs) \<longrightarrow> kv_find (objects w') q = kv_find (objects w) q"
    using ot ot2 by simp
  moreover have "\<forall>q \<in> fst ` set (b # bs). \<exists>s s'. kv_find (objects w) q = Some s \<and>
      kv_find (objects w') q = Some s' \<and> passed s s'"
    using own own2 ot ot2 ne Cons.prems(3) by auto
  ultimately show ?case using run 1(4,5) 2(3-5) by (intro exI [of _ "sb # sbs"] exI [of _ w']) simp
qed

text \<open>The metadata of a result as the client gets it.\<close>

definition stamped :: "env \<Rightarrow> u32 \<Rightarrow> metadata \<Rightarrow> metadata" where
  "stamped E f md = md_sort (meta E) (md_update (meta E) md ANDROID_REQUEST_FRAME_COUNT [sint f])"

lemma Send_stamped:
  assumes "metadata_ok (meta E)" "md \<noteq> []" "resultCb (client_cb (dev w))"
    "entry_values E md ANDROID_SENSOR_TIMESTAMP \<noteq> []" "\<not> ex_input x" "next_result_frame_number (dev w) \<le> f"
  shows "SendCaptureResult E md x [] f w =
    emit (Ev_result (stamped E f md) x) (upd_dev (\<lambda>d. d\<lparr>next_result_frame_number := f + 1\<rparr>) w)"
proof -
  have "entry_values E (stamped E f md) ANDROID_SENSOR_TIMESTAMP \<noteq> []"
    using assms(1,4) by (simp add: entry_values_def stamped_def metadata_find_update)
  moreover have "accept_result x f (dev w) = Some ((dev w)\<lparr>next_result_frame_number := f + 1\<rparr>)"
    using assms(5,6) by (simp add: accept_result_def not_less)
  ultimately show ?thesis
    using assms(2,3) by (simp add: SendCaptureResult_def Let_def stamped_def upd_dev_def)
qed

lemma returnable_cong: "objects w' = objects w \<Longrightarrow> returnable w' b = returnable w b"
  "objects w' = objects w \<Longrightarrow> delivers w' = delivers w"
  by (simp_all add: returnable_def delivers_def fun_eq_iff)

lemma frame_cycle:
  assumes M: "metadata_ok (meta E)" and wf: "pending_wf w" "kv_wf (objects w)"
    and p: "pending f w = Some (PendingRequest (int (length bs)) x)" "\<not> ex_input x"
    and np: "\<not> is_partial_result_supported (dev w)"
    and cb: "shutterCb (client_cb (dev w))" "resultCb (client_cb (dev w))"
    and nx: "next_shutter_frame_number (dev w) \<le> f" "next_result_frame_number (dev w) \<le> f"
    and md: "md \<noteq> []" "entry_values E md ANDROID_SENSOR_TIMESTAMP = [ts]" "0 < ts"
    and bs: "\<forall>b \<in> set bs. returnable w b" "distinct (map fst bs)"
  shows "\<exists>sbs w'. Option.bind (NotifyShutter E f ts w) (HandleCaptureResult E (whole_result f md bs)) = Some w' \<and>
    log w' = log w @ [Ev_shutter x ts, Ev_result (stamped E f md) (counted x)] @ map Ev_buffer sbs \<and>
    list_all2 (delivers w ts f) bs sbs \<and> pending f w' = None \<and> state (dev w') = state (dev w) \<and>
    (\<forall>q \<in> fst ` set bs. \<exists>s s'. kv_find (objects w) q = Some s \<and> kv_find (objects w') q = Some s' \<and> passed s s')"
proof -
  define d where "d = (dev w)\<lparr>next_shutter_frame_number := f + 1\<rparr>"
  have acc: "accept_shutter x f (dev w) = Some d"
    using p(2) nx(1) by (simp add: accept_shutter_def d_def not_less)
  let ?r = "(PendingRequest (int (length bs)) x)\<lparr>shutterTS := ts\<rparr>"
  let ?a = "answered E x md bs ts [] []"
  define t where "t = put f ?r (upd_dev (\<lambda>_. d) (told x ts w))"
  have sh: "NotifyShutter E f ts w = Some t"
    using NotifyShutter_fresh [OF wf(1) p(1)] acc by (simp add: t_def)
  have t: "pending_wf t" "pending f t = Some ?r" "\<not> is_partial_result_supported (dev t)"
    using wf(1) np by (simp_all add: t_def pending_wf_def pending_def put_def d_def)
  define v where "v = emit (Ev_result (stamped E f md) (counted x))
      (upd_dev (\<lambda>d. d\<lparr>next_result_frame_number := f + 1\<rparr>) (put f ?a t))"
  have send: "SendCaptureResult E md (counted x) [] f (put f ?a t) = v"
    unfolding v_def by (rule Send_stamped)
      (use M md cb nx p(2) in \<open>simp_all add: t_def put_def d_def counted_def\<close>)
  have v: "objects v = objects w" "pending f v = Some ?a" "state (dev v) = state (dev w)"
    "log v = log w @ [Ev_shutter x ts, Ev_result (stamped E f md) (counted x)]"
    using t(1) cb by (simp_all add: v_def pending_def t_def put_def d_def told_def pending_wf_def)
  from wf(2) bs have "kv_wf (objects v)" "\<forall>b \<in> set bs. returnable v b"
    using v(1) by (simp_all add: returnable_cong(1) [of v w])
  from ReturnOutputBuffers_returnable [OF this bs(2), of E ts f] obtain sbs u where
    u: "ReturnOutputBuffers E bs ts f v = Some u" "list_all2 (delivers w ts f) bs sbs" "dev u = dev v"
    "log u = log v @ map Ev_buffer sbs"
    and own: "\<forall>q \<in> fst ` set bs. \<exists>s s'. kv_find (objects w) q = Some s \<and> kv_find (objects u) q = Some s' \<and> passed s s'"
    using v(1) by (auto simp: returnable_cong(2) [of v w])
  have "pending f u = Some ?a" using u(3) v(2) by (simp add: pending_def)
  then have "RemovePendingRequestLocked E f u = Some (drop_request f (checked ?a u))"
    using md(3) by (intro Remove_complete) (simp_all add: answered_def PendingRequest_def)
  moreover have "checked ?a u = u"
    using md(2) by (simp add: checked_def answered_def sensor_time_def whole_result_def)
  ultimately have run: "HandleCaptureResult E (whole_result f md bs) t = Some (drop_request f u)"
    using HandleCaptureResult_whole [OF t, of E md] md(3) send u(1) by simp
  from sh run u v own show ?thesis
    by (intro exI [of _ sbs] exI [of _ "drop_request f u"]) (simp add: drop_request_def pending_def)
qed

end
