(* ===== verification/Device_Claims.thy ===== *)
theory Device_Claims
  imports Device_Delivery Handler_Claims
begin

text \<open>
  The properties of the device client over its whole life: its error state, the order of what
  it passes to its client, the delivery of frames, and the requests of the client. The
  witnesses run on the device of \<^verbatim>\<open>Handler_Claims\<close>.
\<close>

section \<open>The error state\<close>

text \<open>
  C4. A device reports a fatal error exactly once: in every state that a device client can
  reach from its construction, by any interleaving of client calls, HAL callbacks and thread
  iterations, the client has been told of one \<open>ERROR_CAMERA_DEVICE\<close> if the device is in its
  error state and of none otherwise (of none at all when no error callback is set).
\<close>
theorem error_reported_once:
  assumes "constructed cb w0" "(device_step E)\<^sup>*\<^sup>* w0 w"
  shows "device_errors w = (if in_error w \<and> errorCb cb then 1 else 0)"
proof -
  have "error_inv cb w" by (rule device_sys.inv_reachable [OF assms])
  then show ?thesis by (auto simp: error_inv_def surplus_def split: if_splits)
qed

definition ref_new :: world where
  "ref_new = Camera3DeviceClient ref_callbacks 0 1 (0, 0) (ref_request (-1) []) ref_zoom"

definition ref_open :: world where
  "ref_open = snd (OpenCamera ref_E 0 (snd (Device.Initialize ref_E ref_new)))"

lemma ref_open_run: "(device_step ref_E)\<^sup>*\<^sup>* ref_new ref_open"
proof -
  obtain r w1 where i: "Device.Initialize ref_E ref_new = (r, w1)" by fastforce
  obtain q w2 where o: "OpenCamera ref_E 0 w1 = (q, w2)" by fastforce
  have "device_step ref_E ref_new w1" using i by (rule ds_initialize)
  moreover have "device_step ref_E w1 ref_open" using o i by (auto simp: ref_open_def intro: ds_open)
  ultimately show ?thesis by (meson converse_rtranclp_into_rtranclp rtranclp.rtrancl_refl)
qed

lemma ref_open_state:
  "state (dev ref_open) = STATE_NOT_CONFIGURED" "errorCb (client_cb (dev ref_open))" "log ref_open = []"
  "pending_requests (dev ref_open) = []" "\<not> is_partial_result_supported (dev ref_open)"
  "client_cb (dev ref_open) = ref_callbacks" "next_shutter_frame_number (dev ref_open) = 0"
  by (simp_all add: ref_open_def ref_new_def Camera3DeviceClient_def Device.Initialize_def OpenCamera_def
      Request_Handler.Initialize_def Let_def ref_E_def ref_callbacks_def entry_values_def ref_meta_def
      split: prod.splits)

theorem error_reported_once_witness:
  "\<exists>w. Notify ref_E None ref_open = Some w \<and> in_error w \<and> device_errors w = 1"
proof -
  let ?w = "SetErrorState ref_open"
  have n: "Notify ref_E None ref_open = Some ?w" by (simp add: Notify_def)
  have e: "in_error ?w" using ref_open_state(1)
    by (simp add: in_error_def SetErrorState_def SetErrorStateLockedV_def Let_def
        InternalUpdateStatusLocked_def TogglePause_def)
  have "device_step ref_E ref_open ?w" using n by (intro ds_callback cb_notify)
  with ref_open_run have "(device_step ref_E)\<^sup>*\<^sup>* ref_new ?w" by (rule rtranclp.rtrancl_into_rtrancl)
  moreover have "constructed ref_callbacks ref_new" unfolding constructed_def ref_new_def by blast
  ultimately have "device_errors ?w = (if in_error ?w \<and> errorCb ref_callbacks then 1 else 0)"
    by (intro error_reported_once)
  with n e show ?thesis by (auto simp: ref_callbacks_def)
qed

text \<open>
  C7. The error state is final: from a state in error every run stays in error and reports no second
  device error, and there \<open>CreateStream\<close> (with a callback), \<open>DeleteStream\<close>, \<open>SubmitRequestList\<close> (of some
  requests), \<open>CancelRequest\<close>, \<open>ReturnStreamBuffer\<close>, \<open>CreateDefaultRequest\<close> and \<open>ConfigureStreamsLocked\<close>
  are refused with \<open>-ENOSYS\<close> without any change but the list of ids that a submission clears. The
  other calls are not claimed to be refused.
\<close>
theorem error_is_final:
  assumes "in_error w"
  shows "(\<forall>w'. (device_step E)\<^sup>*\<^sup>* w w' \<longrightarrow> in_error w' \<and> device_errors w' = device_errors w) \<and>
    (par_cb par \<longrightarrow> CreateStream E wt par w = Some (- ENOSYS, w)) \<and>
    DeleteStream E wt i cache w = Some (- ENOSYS, w) \<and>
    (qs \<noteq> [] \<longrightarrow> SubmitRequestList E wt qs b w =
       Some ((- ENOSYS, None), upd_dev (\<lambda>d. d\<lparr>current_request_ids := []\<rparr>) w)) \<and>
    CancelRequest i w = ((- ENOSYS, None), w) \<and>
    ReturnStreamBuffer i h w = Some (- ENOSYS, w) \<and>
    CreateDefaultRequest E t w = Some ((- ENOSYS, None), w) \<and>
    ConfigureStreamsLocked E w = Some (- ENOSYS, w)"
proof -
  have "in_error w' \<and> device_errors w' = device_errors w" if "(device_step E)\<^sup>*\<^sup>* w w'" for w'
  proof -
    have "adv w w'"
      using that by (induction rule: rtranclp_induct) (auto intro: adv_trans device_step_adv)
    with assms show ?thesis by (auto simp: adv_def surplus_def split: if_splits)
  qed
  then have final: "\<forall>w'. (device_step E)\<^sup>*\<^sup>* w w' \<longrightarrow> in_error w' \<and> device_errors w' = device_errors w"
    by blast
  from assms have st: "state (dev w) = STATE_ERROR" by (simp add: in_error_def)
  show ?thesis
    by (intro conjI final) (simp_all add: st CreateStream_def DeleteStream_def SubmitRequestList_def
        CancelRequest_def ReturnStreamBuffer_def CreateDefaultRequest_def ConfigureStreamsLocked_def
        device_unusable_def Let_def)
qed

theorem error_is_final_witness:
  "in_error (SetErrorState ref_open) \<and> CancelRequest 0 (SetErrorState ref_open) = ((- ENOSYS, None), SetErrorState ref_open) \<and>
   CreateStream ref_E (\<lambda>w. []) ref_params (SetErrorState ref_open) = Some (- ENOSYS, SetErrorState ref_open)"
proof -
  have e: "in_error (SetErrorState ref_open)" using ref_open_state(1)
    by (simp add: in_error_def SetErrorState_def SetErrorStateLockedV_def Let_def
        InternalUpdateStatusLocked_def TogglePause_def)
  from error_is_final [OF e, where E = ref_E and wt = "\<lambda>w. []" and par = ref_params and i = 0] e show ?thesis
    by (simp add: ref_params_def)
qed

section \<open>The order of results\<close>

text \<open>
  C3. Results come in order: on a device without partial results, whatever the HAL sends, the
  results passed to the client have strictly increasing frame numbers, for the normal frames
  and for the reprocessed ones, so no frame has two results; and as long as the device is not
  in error the shutter notifications have strictly increasing frame numbers too.
\<close>
theorem results_in_order:
  assumes "just_opened w0" "(hal_step E)\<^sup>*\<^sup>* w0 w"
  shows "sorted_wrt (<) (results k w) \<and> (\<forall>f \<in> set (results k w). f < next_result k (dev w)) \<and>
    (\<not> in_error w \<longrightarrow> sorted_wrt (<) (shutters k w))"
  using order_sys.inv_reachable [OF assms] by (simp add: order_inv_def in_order_def)

theorem results_in_order_witness:
  "\<exists>w. NotifyShutter ref_E 0 5 (snd (MarkPendingRequest 0 1 no_extras ref_open)) = Some w \<and>
     shutters False w = [0] \<and> sorted_wrt (<) (shutters False w)"
proof -
  let ?w1 = "snd (MarkPendingRequest 0 1 no_extras ref_open)"
  have s: "just_opened ref_open"
    using ref_open_state by (simp add: just_opened_def opened_def results_def shutters_def)
  obtain r where m: "MarkPendingRequest (frameNumber no_extras) 1 no_extras ref_open = (r, ?w1)"
    by (simp add: no_extras_def MarkPendingRequest_def Let_def)
  have 1: "hal_step ref_E ref_open ?w1" using m by (rule hal_mark [rotated]) (simp add: no_extras_def)
  obtain w where n: "NotifyShutter ref_E 0 5 ?w1 = Some w" "shutters False w = [0]" "\<not> in_error w"
    using ref_open_state
    by (simp add: MarkPendingRequest_def Let_def NotifyShutter_def ref_callbacks_def PendingRequest_def accept_shutter_def
        no_extras_def upd_pending_def SendCaptureResult_def RemovePendingRequestLocked_def
        request_complete_def shutters_def in_error_def)
  have "hal_step ref_E ?w1 w" using n(1) by (intro hal_notify [where m = "Some (CAMERA3_MSG_SHUTTER 0 5)"])
      (simp add: Notify_def)
  with 1 have "(hal_step ref_E)\<^sup>*\<^sup>* ref_open w" by auto
  from results_in_order [OF s this, of False] n show ?thesis by blast
qed

section \<open>The delivery of a frame\<close>





text \<open>
  C1. A whole capture: a request that was handed to the HAL, and that the HAL answers with a
  shutter and then with the metadata and all the buffers of the request, is delivered
  completely. The client gets the shutter, then the metadata with the frame number and the
  sensor timestamp, then one buffer of every stream of the request, in order, with the
  timestamp and the frame number of the request; each stream counts the buffer as held by the
  client; the request is pending no more, and the state of the device is the same.
\<close>
theorem capture_cycle:
  fixes w w' :: world
  assumes "submittable E req w" "Request_Handler.SubmitRequest E wt req None w = Some (0, w')"
    and "metadata_ok (meta E)" "kv_wf (pending_requests (dev w))" "\<not> is_partial_result_supported (dev w)"
    and "shutterCb (client_cb (dev w))" "resultCb (client_cb (dev w))"
    and "f = frameNumber (resultExtras req)" "\<not> ex_input (resultExtras req)"
    and "next_shutter_frame_number (dev w) \<le> f" "next_result_frame_number (dev w) \<le> f"
    and "md \<noteq> []" "entry_values E md ANDROID_SENSOR_TIMESTAMP = [ts]" "0 < ts"
    and "\<forall>p \<in> set (req_streams req). \<forall>s. kv_find (objects w) p = Some s \<longrightarrow> has_callback s"
  shows "\<exists>cr sbs w2. log w' = log w @ [Hal_request cr] \<and>
    Option.bind (NotifyShutter E f ts w') (HandleCaptureResult E (whole_result f md
       (map (\<lambda>b. (fst b, (snd b)\<lparr>sb_status := CAMERA3_BUFFER_STATUS_OK\<rparr>)) (cr_output_buffers cr)))) = Some w2 \<and>
    log w2 = log w' @ [Ev_shutter (resultExtras req) ts,
      Ev_result (stamped E f md) ((resultExtras req)\<lparr>partialResultCount := 1\<rparr>)] @ map Ev_buffer sbs \<and>
    list_all2 (\<lambda>p sb. \<exists>s'. kv_find (objects w') p = Some s' \<and> b_stream_id sb = stream_id s' \<and>
       b_timestamp sb = ts \<and> b_frame_number sb = f) (req_streams req) sbs \<and>
    kv_find (pending_requests (dev w2)) f = None \<and> state (dev w2) = state (dev w) \<and>
    (\<forall>p \<in> set (req_streams req). \<exists>s s2. kv_find (objects w) p = Some s \<and> kv_find (objects w2) p = Some s2 \<and>
       pending_buffer_count s2 = pending_buffer_count s + 1 \<and>
       hal_buffer_cnt s2 = hal_buffer_cnt s \<and> client_buffer_cnt s2 = client_buffer_cnt s + 1)"
proof -
  obtain st w0 bs where set: "RequestSettings E req w = (st, w0)" and g: "map fst bs = req_streams req"
    "log w' = log w @ [Hal_request \<lparr>cr_frame_number = frameNumber (resultExtras req), cr_settings = st,
        cr_output_buffers = bs, cr_input_buffer = None\<rparr>]"
    "dev w' = (dev w)\<lparr>pending_requests := kv_add (frameNumber (resultExtras req))
       (PendingRequest (int (length bs) + (if None = (None :: nat option) then 0 else 1)) (resultExtras req))
       (pending_requests (dev w))\<rparr>" "objects_inv w'"
    "\<forall>b \<in> set bs. \<exists>s s'. kv_find (objects w) (fst b) = Some s \<and>
        kv_find (objects w') (fst b) = Some s' \<and> one_more s s' \<and> lent b s'"
    by (rule SubmitRequest_succeeds [OF assms(1,2)])
  define bs' where "bs' = map (\<lambda>b. (fst b, (snd b)\<lparr>sb_status := CAMERA3_BUFFER_STATUS_OK\<rparr>)) bs"
  have b': "map fst bs' = req_streams req" "length bs' = length bs"
    using g(1) by (simp_all add: bs'_def o_def)
  have ret: "\<forall>b \<in> set bs'. returnable w' b"
  proof
    fix b assume "b \<in> set bs'"
    then obtain c where c: "c \<in> set bs" "b = (fst c, (snd c)\<lparr>sb_status := CAMERA3_BUFFER_STATUS_OK\<rparr>)"
      by (auto simp: bs'_def)
    with g(1) have "fst c \<in> set (req_streams req)" by (metis image_eqI list.set_map)
    with c g(5) assms(15) show "returnable w' b"
      by (fastforce simp: returnable_def lent_def one_more_def)
  qed
  have "\<exists>sbs w2. Option.bind (NotifyShutter E f ts w') (HandleCaptureResult E (whole_result f md bs')) = Some w2 \<and>
    log w2 = log w' @ [Ev_shutter (resultExtras req) ts, Ev_result (stamped E f md) (counted (resultExtras req))]
      @ map Ev_buffer sbs \<and>
    list_all2 (delivers w' ts f) bs' sbs \<and> pending f w2 = None \<and> state (dev w2) = state (dev w') \<and>
    (\<forall>q \<in> fst ` set bs'. \<exists>s s'. kv_find (objects w') q = Some s \<and> kv_find (objects w2) q = Some s' \<and> passed s s')"
    by (rule frame_cycle)
      (use assms g ret b' in \<open>simp_all add: pending_wf_def pending_def objects_inv_def submittable_def\<close>)
  then obtain sbs w2 where r: "Option.bind (NotifyShutter E f ts w') (HandleCaptureResult E (whole_result f md bs')) = Some w2"
    "log w2 = log w' @ [Ev_shutter (resultExtras req) ts, Ev_result (stamped E f md) (counted (resultExtras req))]
      @ map Ev_buffer sbs"
    "list_all2 (delivers w' ts f) bs' sbs" "pending f w2 = None" "state (dev w2) = state (dev w')"
    "\<forall>q \<in> fst ` set bs'. \<exists>s s'. kv_find (objects w') q = Some s \<and> kv_find (objects w2) q = Some s' \<and> passed s s'"
    by blast
  have "list_all2 (\<lambda>p sb. \<exists>s'. kv_find (objects w') p = Some s' \<and> b_stream_id sb = stream_id s' \<and>
       b_timestamp sb = ts \<and> b_frame_number sb = f) (map fst bs') sbs"
    unfolding list.rel_map by (rule list.rel_mono_strong [OF r(3)]) (auto simp: delivers_def)
  moreover have "\<exists>s s2. kv_find (objects w) p = Some s \<and> kv_find (objects w2) p = Some s2 \<and>
       pending_buffer_count s2 = pending_buffer_count s + 1 \<and>
       hal_buffer_cnt s2 = hal_buffer_cnt s \<and> client_buffer_cnt s2 = client_buffer_cnt s + 1"
    if p: "p \<in> set (req_streams req)" for p
  proof -
    from p g(1) obtain c where "c \<in> set bs" "p = fst c" by (metis (no_types, lifting) image_iff list.set_map)
    with g(5) obtain s s' where s: "kv_find (objects w) p = Some s" "kv_find (objects w') p = Some s'" "one_more s s'"
      by blast
    from p b'(1) have "p \<in> fst ` set bs'" by (metis list.set_map)
    with r(6) s(2) obtain s2 where "kv_find (objects w2) p = Some s2" "passed s' s2" by auto
    with s show ?thesis by (simp add: one_more_def passed_def)
  qed
  ultimately show ?thesis
    using r g(2,3) b'(1) unfolding bs'_def counted_def pending_def
    by (intro exI [of _ "\<lparr>cr_frame_number = frameNumber (resultExtras req), cr_settings = st,
        cr_output_buffers = bs, cr_input_buffer = None\<rparr>"] exI [of _ sbs] exI [of _ w2]) simp
qed

theorem capture_cycle_witness:
  "\<exists>w' cr sbs (w2 :: world). Request_Handler.SubmitRequest ref_E (\<lambda>w. []) (ref_request 4 [1]) None ref_w = Some (0, w') \<and>
     Option.bind (NotifyShutter ref_E 0 7 w') (HandleCaptureResult ref_E
       (whole_result 0 [(ANDROID_SENSOR_TIMESTAMP, [7])]
         (map (\<lambda>b. (fst b, (snd b)\<lparr>sb_status := CAMERA3_BUFFER_STATUS_OK\<rparr>)) (cr_output_buffers cr)))) = Some w2 \<and>
     log w2 = [Hal_request cr, Ev_shutter (no_extras\<lparr>requestId := 4\<rparr>) 7,
       Ev_result (stamped ref_E 0 [(ANDROID_SENSOR_TIMESTAMP, [7])])
         (no_extras\<lparr>requestId := 4, partialResultCount := 1\<rparr>)] @ map Ev_buffer sbs \<and> length sbs = 1"
proof -
  obtain w' where s: "submittable ref_E (ref_request 4 [1]) ref_w"
    and r: "Request_Handler.SubmitRequest ref_E (\<lambda>w. []) (ref_request 4 [1]) None ref_w = Some (0, w')"
    by (rule ref_submitted)
  have m: "metadata_ok (meta ref_E)" using ref_meta_ok by (simp add: ref_E_def)
  have ts: "entry_values ref_E [(ANDROID_SENSOR_TIMESTAMP, [7])] ANDROID_SENSOR_TIMESTAMP = [7]"
    by (simp add: entry_values_def ref_E_def ref_meta_def)
  have fn: "0 = frameNumber (resultExtras (ref_request 4 [1]))" by (simp add: ref_request_def no_extras_def)
  have h: "kv_wf (pending_requests (dev ref_w))" "\<not> is_partial_result_supported (dev ref_w)"
    "shutterCb (client_cb (dev ref_w))" "resultCb (client_cb (dev ref_w))"
    "\<not> ex_input (resultExtras (ref_request 4 [1]))" "next_shutter_frame_number (dev ref_w) \<le> 0"
    "next_result_frame_number (dev ref_w) \<le> 0" "[(ANDROID_SENSOR_TIMESTAMP, [7 :: int])] \<noteq> []" "0 < (7 :: int)"
    "\<forall>p \<in> set (req_streams (ref_request 4 [1])). \<forall>s. kv_find (objects ref_w) p = Some s \<longrightarrow> has_callback s"
    by (simp_all add: ref_dev_def ref_callbacks_def ref_request_def no_extras_def ref_eval)
  obtain cr sbs and w2 :: world where c: "log w' = log ref_w @ [Hal_request cr]"
    "Option.bind (NotifyShutter ref_E 0 7 w') (HandleCaptureResult ref_E
       (whole_result 0 [(ANDROID_SENSOR_TIMESTAMP, [7])]
         (map (\<lambda>b. (fst b, (snd b)\<lparr>sb_status := CAMERA3_BUFFER_STATUS_OK\<rparr>)) (cr_output_buffers cr)))) = Some w2"
    "log w2 = log w' @ [Ev_shutter (resultExtras (ref_request 4 [1])) 7,
       Ev_result (stamped ref_E 0 [(ANDROID_SENSOR_TIMESTAMP, [7])])
         ((resultExtras (ref_request 4 [1]))\<lparr>partialResultCount := 1\<rparr>)] @ map Ev_buffer sbs"
    "list_all2 (\<lambda>p sb. \<exists>s'. kv_find (objects w') p = Some s' \<and> b_stream_id sb = stream_id s' \<and>
       b_timestamp sb = 7 \<and> b_frame_number sb = 0) (req_streams (ref_request 4 [1])) sbs"
    using capture_cycle [OF s r m h(1-4) fn h(5-8) ts h(9,10)] by blast
  with r show ?thesis
    by (intro exI [of _ w'] exI [of _ cr] exI [of _ sbs] exI [of _ w2])
      (auto simp: ref_request_def dest: list_all2_lengthD)
qed

end
