(* ===== verification/Client_Claims.thy ===== *)
theory Client_Claims
  imports Device_Claims
begin

text \<open>
  The calls of the client on an open device: which requests are accepted, how they reach the
  queue of the request handler, and the creation and deletion of streams.
\<close>

section \<open>Validation\<close>

definition known :: "world \<Rightarrow> int \<Rightarrow> bool" where
  "known w i \<longleftrightarrow> kv_find (streams (dev w)) i \<noteq> None"

text \<open>
  A request may name the input stream, even twice; each time the loop notes it in the metadata, and
  the last of its positions is the one that is removed afterwards.
\<close>

definition noted :: "env \<Rightarrow> int \<Rightarrow> nat \<Rightarrow> metadata \<Rightarrow> metadata" where
  "noted E s n md = ((\<lambda>m. md_update (meta E) m ANDROID_REQUEST_INPUT_STREAMS [s]) ^^ n) md"

primrec last_input :: "int \<Rightarrow> nat \<Rightarrow> int list \<Rightarrow> nat option \<Rightarrow> nat option" where
  "last_input s k [] inp = inp"
| "last_input s k (i # is) inp = last_input s (Suc k) is (if i = s then Some k else inp)"

lemma noted_Suc: "noted E s (Suc n) md = noted E s n (md_update (meta E) md ANDROID_REQUEST_INPUT_STREAMS [s])"
  by (induction n arbitrary: md) (simp_all add: noted_def)

lemma CheckStreamIds_accepts:
  assumes s: "s = in_stream_id (input_stream (dev w))"
  shows "CheckStreamIds E w is k prev (md, inp) = Some (Inr r) \<longleftrightarrow>
     r = (noted E s (count_list is s) md, last_input s k is inp) \<and>
     (\<forall>i \<in> set is. i \<noteq> s \<longrightarrow> known w i) \<and> alternating (prev # filter (\<lambda>i. i \<noteq> s) is)"
proof (induction "is" arbitrary: k prev md inp)
  case Nil
  then show ?case by (auto simp: noted_def)
next
  case (Cons i "is")
  show ?case
  proof (cases "i = s")
    case True
    then show ?thesis using Cons [of "Suc k" prev _ "Some k"] by (simp add: s noted_Suc)
  next
    case False
    then show ?thesis using Cons [of "Suc k" i md inp] by (auto simp: s known_def split: option.splits)
  qed
qed

lemma last_input_at:
  "s \<notin> set is \<Longrightarrow> last_input s k is inp = inp"
  "s \<in> set is \<Longrightarrow> \<exists>j < length is. last_input s k is inp = Some (k + j) \<and> is ! j = s"
proof -
  show none: "s \<notin> set is \<Longrightarrow> last_input s k is inp = inp" for "is" k inp
    by (induction "is" arbitrary: k) auto
  show "s \<in> set is \<Longrightarrow> \<exists>j < length is. last_input s k is inp = Some (k + j) \<and> is ! j = s"
  proof (induction "is" arbitrary: k inp)
    case (Cons i "is")
    show ?case
    proof (cases "s \<in> set is")
      case True
      with Cons.IH [of "Suc k"] obtain j where
        "j < length is" "last_input s (Suc k) is (if i = s then Some k else inp) = Some (Suc k + j)" "is ! j = s" by blast
      then show ?thesis by (intro exI [of _ "Suc j"]) simp
    next
      case False
      with Cons.prems none [OF False] show ?thesis by (intro exI [of _ 0]) simp
    qed
  qed simp
qed

lemma remove_input:
  assumes "sorted is"
  shows "(case last_input s 0 is None of None \<Rightarrow> is | Some k \<Rightarrow> take k is @ drop (Suc k) is) = remove1 s is"
proof (cases "s \<in> set is")
  case True
  then obtain j where j: "j < length is" "last_input s 0 is None = Some j" "is ! j = s"
    using last_input_at(2) [of s "is" 0 None] by auto
  have split: "is = take j is @ s # drop (Suc j) is" using j(1,3) by (metis id_take_nth_drop)
  then have "mset is = mset (take j is @ drop (Suc j) is) + {#s#}" by (metis mset_append mset.simps(2) union_mset_add_mset_right add_mset_add_single)
  then have m: "mset (remove1 s is) = mset (take j is @ drop (Suc j) is)" by simp
  have "sorted (take j is @ drop (Suc j) is)"
    using assms split by (metis sorted_append sorted_wrt.simps(2) list.set_intros(2))
  moreover have "sorted (remove1 s is)" using assms by (simp add: sorted_remove1)
  ultimately have "take j is @ drop (Suc j) is = remove1 s is"
    using m by (metis properties_for_sort)
  with j show ?thesis by simp
qed (simp add: last_input_at(1) remove1_idem)

lemma sorted_alternating: "sorted xs \<Longrightarrow> alternating xs \<longleftrightarrow> distinct xs"
proof (induction xs rule: alternating.induct)
  case (1 x y zs)
  then have "alternating (y # zs) \<longleftrightarrow> distinct (y # zs)" by simp
  moreover have "x \<notin> set zs" if "x \<noteq> y" using 1(2) that by auto
  ultimately show ?case by auto
qed auto

lemma alternating_sort:
  assumes "-1 \<notin> set xs"
  shows "alternating (- 1 # sort xs) \<longleftrightarrow> distinct (xs :: int list)"
proof (cases "sort xs")
  case Nil
  then have "xs = []" by (metis sort_key_simps(1) set_sort set_empty)
  then show ?thesis by simp
next
  case (Cons y ys)
  then have "y \<noteq> - 1" using assms by (metis list.set_intros(1) set_sort)
  then have "alternating (- 1 # sort xs) \<longleftrightarrow> alternating (sort xs)" using Cons by simp
  then show ?thesis using sorted_alternating [of "sort xs"] by simp
qed

text \<open>
  A request the device accepts: it has metadata and names streams, each of them known and named once,
  but for the input stream. With containers that check their bounds it also names an output.
\<close>

definition input_of :: "world \<Rightarrow> int" where
  "input_of w = in_stream_id (input_stream (dev w))"

definition outputs_of :: "world \<Rightarrow> Camera3Request \<Rightarrow> int list" where
  "outputs_of w q = sort (remove1 (input_of w) (c3_streamIds q))"

definition valid_request :: "env \<Rightarrow> world \<Rightarrow> Camera3Request \<Rightarrow> bool" where
  "valid_request E w q \<longleftrightarrow> c3_metadata q \<noteq> [] \<and> c3_streamIds q \<noteq> [] \<and>
     distinct (filter (\<lambda>i. i \<noteq> input_of w) (c3_streamIds q)) \<and>
     (\<forall>i \<in> set (c3_streamIds q). i = input_of w \<or> known w i) \<and>
     (checked_containers E \<longrightarrow> outputs_of w q \<noteq> [])"

definition request_metadata :: "env \<Rightarrow> world \<Rightarrow> int \<Rightarrow> Camera3Request \<Rightarrow> metadata" where
  "request_metadata E w rid q = md_update (meta E)
     (md_update (meta E) (noted E (input_of w) (count_list (c3_streamIds q) (input_of w)) (c3_metadata q))
       ANDROID_REQUEST_OUTPUT_STREAMS (outputs_of w q))
     ANDROID_REQUEST_ID [rid]"

lemma sort_remove1: "remove1 s (sort xs) = sort (remove1 s (xs :: int list))"
  by (rule properties_for_sort [symmetric]) (simp_all add: sorted_remove1)

lemma CheckRequest_accepts:
  assumes "\<not> known w (- 1)"
  shows "CheckRequest E w rid q = Some (Inr md) \<longleftrightarrow> valid_request E w q \<and> md = request_metadata E w rid q"
proof (cases "c3_metadata q = [] \<or> c3_streamIds q = []")
  case True
  then show ?thesis by (auto simp: CheckRequest_def valid_request_def)
next
  case False
  let ?s = "input_of w" and ?ids = "sort (c3_streamIds q)"
  let ?r = "(noted E ?s (count_list ?ids ?s) (c3_metadata q), last_input ?s 0 ?ids None)"
  let ?ok = "(\<forall>i \<in> set (c3_streamIds q). i = ?s \<or> known w i) \<and> distinct (filter (\<lambda>i. i \<noteq> ?s) (c3_streamIds q))"
  have alt: "alternating (- 1 # filter (\<lambda>i. i \<noteq> ?s) ?ids) \<longleftrightarrow> distinct (filter (\<lambda>i. i \<noteq> ?s) (c3_streamIds q))"
    if "\<forall>i \<in> set (c3_streamIds q). i = ?s \<or> known w i"
    using alternating_sort [of "filter (\<lambda>i. i \<noteq> ?s) (c3_streamIds q)"] assms that by (auto simp: filter_sort)
  have chk: "CheckStreamIds E w ?ids 0 (- 1) (c3_metadata q, None) = Some (Inr r) \<longleftrightarrow> r = ?r \<and> ?ok" for r
    using CheckStreamIds_accepts [of ?s w E ?ids 0 "- 1" "c3_metadata q" None r] alt by (auto simp: input_of_def)
  have outs: "(case last_input ?s 0 ?ids None of None \<Rightarrow> ?ids | Some k \<Rightarrow> take k ?ids @ drop (Suc k) ?ids) = outputs_of w q"
    using remove_input [of ?ids ?s] by (simp add: outputs_of_def sort_remove1)
  have cnt: "count_list ?ids ?s = count_list (c3_streamIds q) ?s"
    by (metis count_mset mset_sort)
  show ?thesis
  proof (cases ?ok)
    case True
    then have "CheckStreamIds E w ?ids 0 (- 1) (c3_metadata q, None) = Some (Inr ?r)" using chk by blast
    then show ?thesis using False True outs
      by (auto simp: CheckRequest_def valid_request_def request_metadata_def Let_def cnt)
  next
    case no: False
    then have "CheckStreamIds E w ?ids 0 (- 1) (c3_metadata q, None) \<noteq> Some (Inr r)" for r using chk by blast
    then show ?thesis using False no
      by (auto simp: CheckRequest_def valid_request_def Let_def split: Option.bind_splits sum.splits)
  qed
qed

text \<open>The special case of a request that does not name the input stream.\<close>

definition prepared :: "env \<Rightarrow> int \<Rightarrow> Camera3Request \<Rightarrow> metadata" where
  "prepared E rid q = md_update (meta E)
     (md_update (meta E) (c3_metadata q) ANDROID_REQUEST_OUTPUT_STREAMS (sort (c3_streamIds q)))
     ANDROID_REQUEST_ID [rid]"

definition acceptable :: "world \<Rightarrow> Camera3Request \<Rightarrow> bool" where
  "acceptable w q \<longleftrightarrow> c3_metadata q \<noteq> [] \<and> c3_streamIds q \<noteq> [] \<and> distinct (c3_streamIds q) \<and>
     (\<forall>i \<in> set (c3_streamIds q). known w i)"

lemma CheckRequest_iff:
  assumes "in_stream_id (input_stream (dev w)) \<notin> set (c3_streamIds q)" "\<not> known w (- 1)"
  shows "CheckRequest E w rid q = Some (Inr md) \<longleftrightarrow> acceptable w q \<and> md = prepared E rid q"
proof -
  have n: "input_of w \<notin> set (c3_streamIds q)" using assms(1) by (simp add: input_of_def)
  then have o: "outputs_of w q = sort (c3_streamIds q)" by (simp add: outputs_of_def remove1_idem)
  have f: "filter (\<lambda>i. i \<noteq> input_of w) (c3_streamIds q) = c3_streamIds q" using n by (auto intro!: filter_True)
  have ne: "sort (c3_streamIds q) = [] \<longleftrightarrow> c3_streamIds q = []" by (metis length_0_conv length_sort)
  have "request_metadata E w rid q = prepared E rid q"
    using n by (simp add: request_metadata_def prepared_def o noted_def count_list_0_iff)
  moreover have "valid_request E w q \<longleftrightarrow> acceptable w q"
    using n by (auto simp: valid_request_def acceptable_def f o ne)
  ultimately show ?thesis using CheckRequest_accepts [OF assms(2)] by simp
qed

text \<open>
  C6. Which requests are valid: a request passes the validation exactly when it has metadata and
  names at least one stream, only known ones and none of them twice; the input stream may be named,
  also twice, but with containers that check their bounds not alone. Its metadata then carries the
  request id, the sorted ids of the streams with one occurrence of the input stream taken out, the
  input stream if it was named, and is otherwise the one of the client. There is no stream -1.
\<close>
theorem request_validation:
  assumes "\<not> known w (- 1)"
  shows "(CheckRequest E w rid q = Some (Inr md) \<longleftrightarrow> valid_request E w q \<and> md = request_metadata E w rid q) \<and>
    (metadata_ok (meta E) \<longrightarrow>
       md_find (meta E) (request_metadata E w rid q) ANDROID_REQUEST_OUTPUT_STREAMS =
         Some (sort (remove1 (in_stream_id (input_stream (dev w))) (c3_streamIds q))) \<and>
       md_find (meta E) (request_metadata E w rid q) ANDROID_REQUEST_ID = Some [rid] \<and>
       (in_stream_id (input_stream (dev w)) \<in> set (c3_streamIds q) \<longrightarrow>
         md_find (meta E) (request_metadata E w rid q) ANDROID_REQUEST_INPUT_STREAMS = Some [in_stream_id (input_stream (dev w))]) \<and>
       (\<forall>t. t \<noteq> ANDROID_REQUEST_OUTPUT_STREAMS \<and> t \<noteq> ANDROID_REQUEST_ID \<and>
            (t = ANDROID_REQUEST_INPUT_STREAMS \<longrightarrow> in_stream_id (input_stream (dev w)) \<notin> set (c3_streamIds q)) \<longrightarrow>
          md_find (meta E) (request_metadata E w rid q) t = md_find (meta E) (c3_metadata q) t))"
proof -
  have find_noted: "md_find (meta E) (noted E s n m) t =
      (if t = ANDROID_REQUEST_INPUT_STREAMS \<and> n \<noteq> 0 then Some [s] else md_find (meta E) m t)"
    if "metadata_ok (meta E)" for s n m t
    using that by (induction n) (auto simp: noted_def metadata_find_update)
  show ?thesis
    using CheckRequest_accepts [OF assms]
    by (auto simp: request_metadata_def metadata_find_update find_noted outputs_of_def input_of_def count_list_0_iff)
qed

theorem request_validation_witness:
  "CheckRequest ref_E ref_w 4 \<lparr>c3_metadata = [(ANDROID_JPEG_MAX_SIZE, [1])], c3_streamIds = [0]\<rparr> =
     Some (Inr (request_metadata ref_E ref_w 4 \<lparr>c3_metadata = [(ANDROID_JPEG_MAX_SIZE, [1])], c3_streamIds = [0]\<rparr>)) \<and>
   \<not> (\<exists>md. CheckRequest ref_E ref_w 4 \<lparr>c3_metadata = [(ANDROID_JPEG_MAX_SIZE, [1])], c3_streamIds = [0, 0]\<rparr> = Some (Inr md))"
  using request_validation [of ref_w ref_E 4 "\<lparr>c3_metadata = [(ANDROID_JPEG_MAX_SIZE, [1])], c3_streamIds = [0]\<rparr>"]
    request_validation [of ref_w ref_E 4 "\<lparr>c3_metadata = [(ANDROID_JPEG_MAX_SIZE, [1])], c3_streamIds = [0, 0]\<rparr>"]
  by (simp add: ref_dev_def known_def valid_request_def input_of_def outputs_of_def)

section \<open>Submission\<close>

text \<open>The streams a request names are neither being configured nor prepared.\<close>

definition streams_ready :: "world \<Rightarrow> Camera3Request \<Rightarrow> bool" where
  "streams_ready w q \<longleftrightarrow> (\<forall>i \<in> set (c3_streamIds q). \<exists>p s. kv_find (streams (dev w)) i = Some p \<and>
     kv_find (objects w) p = Some s \<and> \<not> IsConfigureActive s \<and> \<not> IsPrepareActive s)"

definition stream_of :: "world \<Rightarrow> int \<Rightarrow> pointer" where
  "stream_of w i = the (kv_find (streams (dev w)) i)"

lemma RequestStreams_ready:
  assumes "\<forall>i \<in> set is. \<exists>p s. kv_find (streams (dev w)) i = Some p \<and>
     kv_find (objects w) p = Some s \<and> \<not> IsConfigureActive s \<and> \<not> IsPrepareActive s"
  shows "RequestStreams E is acc w = Some (Inr (acc @ map (stream_of w) is), w)"
  using assms
proof (induction "is" arbitrary: acc)
  case Nil
  then show ?case by simp
next
  case (Cons i "is")
  from Cons.prems obtain p s where "kv_find (streams (dev w)) i = Some p" "kv_find (objects w) p = Some s"
    "\<not> IsConfigureActive s" "\<not> IsPrepareActive s" by auto
  with Cons show ?case by (simp add: stream_is_configuring_def stream_of_def)
qed

text \<open>The capture request that the request \<open>q\<close> with id \<open>n\<close>, the \<open>k\<close>th of its list, becomes.\<close>

definition translated :: "env \<Rightarrow> world \<Rightarrow> int \<Rightarrow> int \<Rightarrow> Camera3Request \<Rightarrow> CaptureRequest" where
  "translated E w n k q =
     \<lparr>req_metadata = md_erase (meta E) (prepared E n q) ANDROID_REQUEST_OUTPUT_STREAMS,
      req_streams = map (stream_of w) (sort (c3_streamIds q)),
      resultExtras = no_extras\<lparr>burstId := k, requestId := n\<rparr>, req_input = False\<rparr>"

primrec translated_all :: "env \<Rightarrow> world \<Rightarrow> int \<Rightarrow> int \<Rightarrow> Camera3Request list \<Rightarrow> CaptureRequest list" where
  "translated_all E w n k [] = []"
| "translated_all E w n k (q # qs) = translated E w n k q # translated_all E w (n + 1) (k + 1) qs"

primrec prepared_all :: "env \<Rightarrow> int \<Rightarrow> Camera3Request list \<Rightarrow> metadata list" where
  "prepared_all E n [] = []"
| "prepared_all E n (q # qs) = prepared E n q # prepared_all E (n + 1) qs"

definition settled :: "world \<Rightarrow> bool" where
  "settled w \<longleftrightarrow> (state (dev w) = STATE_CONFIGURED \<or> state (dev w) = STATE_RUNNING) \<and> \<not> reconfig (dev w)"

definition submittable_by_client :: "env \<Rightarrow> world \<Rightarrow> Camera3Request \<Rightarrow> bool" where
  "submittable_by_client E w q \<longleftrightarrow> acceptable w q \<and> streams_ready w q \<and>
     in_stream_id (input_stream (dev w)) \<notin> set (c3_streamIds q) \<and>
     md_find (meta E) (c3_metadata q) ANDROID_REQUEST_INPUT_STREAMS = None"

lemma Generate_ready:
  assumes "metadata_ok (meta E)" "settled w" "submittable_by_client E w q"
  shows "GenerateCaptureRequestLocked E (prepared E n q) w =
    Some (Inr ((translated E w n 0 q)\<lparr>resultExtras := no_extras\<rparr>), w)"
proof -
  have ids: "entry_values E (prepared E n q) ANDROID_REQUEST_OUTPUT_STREAMS = sort (c3_streamIds q)"
    using assms(1) by (simp add: entry_values_def prepared_def metadata_find_update)
  have ne: "sort (c3_streamIds q) \<noteq> []"
    using assms(3) by (metis submittable_by_client_def acceptable_def length_0_conv length_sort)
  have rs: "RequestStreams E (sort (c3_streamIds q)) [] w = Some (Inr (map (stream_of w) (sort (c3_streamIds q))), w)"
    using RequestStreams_ready [of "sort (c3_streamIds q)" w E "[]"] assms(3)
    by (simp add: submittable_by_client_def streams_ready_def)
  have inp: "RequestInput E w (md_erase (meta E) (prepared E n q) ANDROID_REQUEST_OUTPUT_STREAMS) =
      Inr (False, md_erase (meta E) (prepared E n q) ANDROID_REQUEST_OUTPUT_STREAMS)"
    using assms(1,3) by (simp add: RequestInput_def prepared_def metadata_find_update submittable_by_client_def)
  from assms(2) have st: "\<not> (state (dev w) = STATE_NOT_CONFIGURED \<or> reconfig (dev w))"
    by (auto simp: settled_def)
  show ?thesis
    using st ids ne rs inp
    by (simp add: GenerateCaptureRequestLocked_def translated_def no_extras_def)
qed

lemma GetRequestList_ready:
  assumes "metadata_ok (meta E)" "settled w" "\<forall>q \<in> set qs. submittable_by_client E w q"
  shows "GetRequestListLocked E (prepared_all E n qs) k (as, bs) w =
    Some ((0, as @ translated_all E w n k qs, bs), w)"
  using assms(3)
proof (induction qs arbitrary: n k as)
  case Nil
  then show ?case by simp
next
  case (Cons q qs)
  have "entry_values E (prepared E n q) ANDROID_REQUEST_ID = [n]"
    using assms(1) by (simp add: entry_values_def prepared_def metadata_find_update)
  with Cons Generate_ready [OF assms(1,2), of q n] show ?case
    by (simp add: Let_def translated_def no_extras_def)
qed

lemma CheckRequests_ready:
  assumes "\<forall>q \<in> set qs. submittable_by_client E w q" "\<not> known w (- 1)"
  shows "\<exists>ids. CheckRequests E n qs acc w = Some (Inr (acc @ prepared_all E n qs, n + int (length qs)),
     upd_dev (\<lambda>d. d\<lparr>current_request_ids := ids\<rparr>) w)"
  using assms
proof (induction qs arbitrary: n acc w)
  case Nil
  have "upd_dev (\<lambda>d. d\<lparr>current_request_ids := current_request_ids (dev w)\<rparr>) w = w"
    by (simp add: upd_dev_def)
  then show ?case by (intro exI [of _ "current_request_ids (dev w)"]) simp
next
  case (Cons q qs)
  let ?w = "upd_dev (\<lambda>d. d\<lparr>current_request_ids := current_request_ids d @ [n]\<rparr>) w"
  have "CheckRequest E w n q = Some (Inr (prepared E n q))"
    using Cons.prems CheckRequest_iff by (simp add: submittable_by_client_def)
  moreover have "\<forall>q \<in> set qs. submittable_by_client E ?w q" "\<not> known ?w (- 1)"
    using Cons.prems by (simp_all add: submittable_by_client_def acceptable_def known_def streams_ready_def)
  from Cons.IH [OF this, of "n + 1" "acc @ [prepared E n q]"] obtain ids where
    "CheckRequests E (n + 1) qs (acc @ [prepared E n q]) ?w =
       Some (Inr ((acc @ [prepared E n q]) @ prepared_all E (n + 1) qs, n + 1 + int (length qs)),
         upd_dev (\<lambda>d. d\<lparr>current_request_ids := ids\<rparr>) ?w)" by blast
  ultimately show ?case by (intro exI [of _ ids]) (simp add: upd_dev_def algebra_simps)
qed

lemma translated_all_facts:
  "length (translated_all E w n k qs) = length qs"
  "j < length qs \<Longrightarrow> translated_all E w n k qs ! j = translated E w (n + int j) (k + int j) (qs ! j)"
proof -
  show "length (translated_all E w n k qs) = length qs"
    by (induction qs arbitrary: n k) simp_all
  show "j < length qs \<Longrightarrow> translated_all E w n k qs ! j = translated E w (n + int j) (k + int j) (qs ! j)"
    by (induction qs arbitrary: n k j) (auto simp: nth_Cons' algebra_simps of_nat_diff)
qed

lemma translated_cong:
  "streams (dev w') = streams (dev w) \<Longrightarrow> translated_all E w' n k qs = translated_all E w n k qs"
  by (induction qs arbitrary: n k) (simp_all add: translated_def stream_of_def)

text \<open>
  C5. A submitted list reaches the queue: on a configured device a list of valid requests for
  streams that are ready is accepted, the returned id is the next request id, which moves on
  by the length of the list, and the request handler has, behind what it had, one capture
  request for each, in order: with consecutive request ids, its position in the list, and the
  streams that the request names. The returned frame number is the one the last of them will
  have. The call then waits for the device to become active.
\<close>
theorem submission_queued:
  fixes w :: world
  assumes "metadata_ok (meta E)" "settled w" "qs \<noteq> []" "\<not> known w (- 1)"
    and "\<forall>q \<in> set qs. submittable_by_client E w q"
  shows "\<exists>w1 rs. SubmitRequestList E wt qs False w =
      Some ((next_request_id (dev w), Some (int (unat (current_frame_number (rh w))) +
        int (length (requests (rh w))) + int (length qs) - 1)), snd (WaitUntilStateThenRelock True wt w1)) \<and>
    requests (rh w1) = requests (rh w) @ rs \<and> length rs = length qs \<and>
    (\<forall>j < length qs. rs ! j = translated E w (next_request_id (dev w) + int j) (int j) (qs ! j)) \<and>
    next_request_id (dev w1) = next_request_id (dev w) + int (length qs)"
proof -
  let ?n = "next_request_id (dev w)" and ?w0 = "upd_dev (\<lambda>d. d\<lparr>current_request_ids := []\<rparr>) w"
  let ?rs = "translated_all E w ?n 0 qs"
  have rdy: "\<forall>q \<in> set qs. submittable_by_client E (upd_dev h w) q" "\<not> known (upd_dev h w) (- 1)"
    if "streams (h (dev w)) = streams (dev w)" "input_stream (h (dev w)) = input_stream (dev w)" for h
    using assms(4,5) that
    by (simp_all add: submittable_by_client_def acceptable_def known_def streams_ready_def)
  have r0: "\<forall>q \<in> set qs. submittable_by_client E ?w0 q" "\<not> known ?w0 (- 1)"
    by (rule rdy; simp)+
  obtain ids where c: "CheckRequests E ?n qs [] ?w0 = Some (Inr (prepared_all E ?n qs, ?n + int (length qs)),
      upd_dev (\<lambda>d. d\<lparr>current_request_ids := ids\<rparr>) ?w0)"
    using CheckRequests_ready [OF r0, of ?n "[]"] by auto
  define w1 where "w1 = upd_dev (\<lambda>d. d\<lparr>next_request_id := ?n + int (length qs)\<rparr>)
      (upd_dev (\<lambda>d. d\<lparr>current_request_ids := ids\<rparr>) ?w0)"
  have w1: "w1 = upd_dev (\<lambda>d. d\<lparr>current_request_ids := ids, next_request_id := ?n + int (length qs)\<rparr>) w"
    by (simp add: w1_def upd_dev_def)
  have r1: "\<forall>q \<in> set qs. submittable_by_client E w1 q" unfolding w1 by (rule rdy) simp_all
  have s1: "settled w1" using assms(2) by (simp add: w1 settled_def)
  have l: "GetRequestListLocked E (prepared_all E ?n qs) 0 ([], []) w1 = Some ((0, ?rs, []), w1)"
    using GetRequestList_ready [OF assms(1) s1 r1, of ?n 0 "[]" "[]"] translated_cong [of w1 w]
    by (simp add: w1)
  have ne: "?rs \<noteq> []" using assms(3) translated_all_facts(1) [of E w ?n 0 qs] by (metis length_0_conv)
  obtain w2 where q: "QueueRequestList ?rs w1 = ((0, int (unat (current_frame_number (rh w))) +
        int (length (requests (rh w))) + int (length qs) - 1), w2)"
    "requests (rh w2) = requests (rh w) @ ?rs" "next_request_id (dev w2) = ?n + int (length qs)"
    using translated_all_facts(1) [of E w ?n 0 qs] by (simp add: QueueRequestList_def Let_def w1 Resume_def)
  have "AddRequestListLocked E wt (prepared_all E ?n qs) False w1 =
      Some ((0, Some (int (unat (current_frame_number (rh w))) + int (length (requests (rh w))) +
        int (length qs) - 1)), snd (WaitUntilStateThenRelock True wt w2))"
    using l ne q(1) by (simp add: AddRequestListLocked_def Let_def)
  moreover have "\<not> device_unusable (state (dev w))"
    using assms(2) by (auto simp: settled_def device_unusable_def)
  ultimately show ?thesis
    using c q(2,3) assms(3) translated_all_facts(1) [of E w ?n 0 qs]
      translated_all_facts(2) [where E = E and w = w and n = ?n and k = 0 and qs = qs]
    by (intro exI [of _ w2] exI [of _ ?rs])
      (simp add: SubmitRequestList_def Let_def w1_def)
qed

theorem submission_queued_witness:
  "\<exists>w1 rs. SubmitRequestList ref_E (\<lambda>w. []) [\<lparr>c3_metadata = [(ANDROID_JPEG_MAX_SIZE, [1])], c3_streamIds = [0]\<rparr>]
      False ref_w = Some ((0, Some 0), snd (WaitUntilStateThenRelock True (\<lambda>w. []) w1)) \<and>
    requests (rh w1) = rs \<and> length rs = 1 \<and> req_streams (rs ! 0) = [1]"
proof -
  let ?q = "\<lparr>c3_metadata = [(ANDROID_JPEG_MAX_SIZE, [1 :: int])], c3_streamIds = [0 :: int]\<rparr>"
  have m: "metadata_ok (meta ref_E)" using ref_meta_ok by (simp add: ref_E_def)
  have s: "settled ref_w" "\<not> known ref_w (- 1)" by (simp_all add: settled_def known_def ref_dev_def)
  have "streams_ready ref_w ?q"
    by (simp add: streams_ready_def ref_dev_def IsConfigureActive_def IsPrepareActive_def ref_eval)
  then have q: "\<forall>q \<in> set [?q]. submittable_by_client ref_E ref_w q"
    by (simp add: submittable_by_client_def acceptable_def known_def ref_dev_def ref_E_def ref_meta_def)
  obtain w1 rs where r: "SubmitRequestList ref_E (\<lambda>w. []) [?q] False ref_w =
      Some ((next_request_id (dev ref_w), Some (int (unat (current_frame_number (rh ref_w))) +
        int (length (requests (rh ref_w))) + int (length [?q]) - 1)), snd (WaitUntilStateThenRelock True (\<lambda>w. []) w1))"
    "requests (rh w1) = requests (rh ref_w) @ rs" "length rs = length [?q]"
    "\<forall>j < length [?q]. rs ! j = translated ref_E ref_w (next_request_id (dev ref_w) + int j) (int j) ([?q] ! j)"
    using submission_queued [OF m s(1) _ s(2) q] by blast
  then show ?thesis
    by (intro exI [of _ w1] exI [of _ rs])
      (simp add: ref_dev_def ref_rh_def Camera3RequestHandler_def translated_def stream_of_def)
qed

end
