(* ===== verification/AV_Queue.thy ===== *)
theory AV_Queue
  imports Prelude "HOL-Library.Monad_Syntax"
begin

text \<open>
  The queue of audio and video packets, \<^verbatim>\<open>AVQueue\<close>: a doubly linked ring of nodes from
  \<^verbatim>\<open>malloc\<close> around a head node. Source: \<^verbatim>\<open>common/avqueue/qmmf_queue.cc\<close> and
  \<^verbatim>\<open>include/qmmf-sdk/qmmf_queue.h\<close>. Addresses are natural numbers, 0 is the null
  pointer; nodes and packets live in explicit stores, and the use of a node or packet that is
  not allocated is the fault \<open>None\<close>. The operations run with the mutex of the queue held.
\<close>

section \<open>State\<close>

type_synonym addr = nat

abbreviation (input) NULL :: addr where "NULL \<equiv> 0"

datatype QueueType = REALTIME | COMPLETE | UNKNOWN_TYPE

record AVNode =
  n_prev :: addr
  n_next :: addr
  n_data :: addr

record AVQueue =
  head_node :: addr
  qtype :: QueueType
  max_size :: int
  queue_size :: int
  overflow :: bool
  delay :: int

text \<open>
  The store: the nodes, the data pointers of the packets, what has been freed in order, and the
  next address that \<^verbatim>\<open>malloc\<close> gives. The arguments \<open>ok\<close> below say whether a
  \<^verbatim>\<open>malloc\<close> succeeds.
\<close>

record store =
  nodes :: "addr \<rightharpoonup> AVNode"
  packets :: "addr \<rightharpoonup> addr"
  freed :: "addr list"
  fresh :: addr

definition upd_node :: "addr \<Rightarrow> (AVNode \<Rightarrow> AVNode) \<Rightarrow> store \<Rightarrow> store option" where
  "upd_node a f s = (case nodes s a of None \<Rightarrow> None | Some n \<Rightarrow> Some (s\<lparr>nodes := (nodes s)(a \<mapsto> f n)\<rparr>))"

definition free_node :: "addr \<Rightarrow> store \<Rightarrow> store" where
  "free_node a s = s\<lparr>nodes := (nodes s)(a := None)\<rparr>"

section \<open>Operations\<close>

text \<open>
  \<open>AVQueueInit\<close> on a pointer that is null when \<open>p\<close> is \<open>None\<close>. The members \<^verbatim>\<open>pps\<close>,
  \<^verbatim>\<open>pps_size\<close> and \<^verbatim>\<open>is_pps\<close> are set here and never used.
\<close>

definition AVQueueInit :: "QueueType \<Rightarrow> int \<Rightarrow> int \<Rightarrow> bool \<Rightarrow> bool \<Rightarrow> AVQueue option \<Rightarrow> store \<Rightarrow>
    int \<times> AVQueue option \<times> store" where
  "AVQueueInit queue_type size_limit delay_count ok_queue ok_head p s =
     (if p \<noteq> None then (-1, p, s)
      else if queue_type = UNKNOWN_TYPE then (-1, p, s)
      else if queue_type = REALTIME \<and> delay_count > size_limit then (-1, p, s)
      else if \<not> ok_queue \<or> \<not> ok_head then (-1, None, s)
      else
        let h = fresh s;
            q = \<lparr>head_node = h, qtype = queue_type,
                 max_size = (if queue_type = REALTIME then size_limit else 0), queue_size = 0,
                 overflow = False, delay = (if queue_type = REALTIME then delay_count else 0)\<rparr>
        in (1, Some q, s\<lparr>nodes := (nodes s)(h \<mapsto> \<lparr>n_prev = h, n_next = h, n_data = 0\<rparr>),
                        fresh := h + 1\<rparr>))"

definition AVQueueWake :: "AVQueue option \<Rightarrow> AVQueue option" where
  "AVQueueWake p = map_option (\<lambda>q. if queue_size q = 0 then q\<lparr>queue_size := -1\<rparr> else q) p"

definition AVFreePacket :: "addr \<Rightarrow> store \<Rightarrow> store option" where
  "AVFreePacket d s =
     (if d = NULL then Some s
      else case packets s d of
        None \<Rightarrow> None
      | Some x \<Rightarrow> Some (s\<lparr>packets := (packets s)(d := None),
                         freed := freed s @ (if x \<noteq> NULL then [x] else []) @ [d]\<rparr>))"

text \<open>
  The unlinking of the node before the head, which occurs three times: twice the packet is then
  freed, once it is returned.
\<close>

definition unlink_tail :: "AVQueue \<Rightarrow> store \<Rightarrow> (addr \<times> store) option" where
  "unlink_tail q s = do {
     hd \<leftarrow> nodes s (head_node q);
     let node = n_prev hd;
     nd \<leftarrow> nodes s node;
     s1 \<leftarrow> upd_node (head_node q) (\<lambda>n. n\<lparr>n_prev := n_prev nd\<rparr>) s;
     nd1 \<leftarrow> nodes s1 node;
     s2 \<leftarrow> upd_node (n_prev nd1) (\<lambda>n. n\<lparr>n_next := head_node q\<rparr>) s1;
     nd2 \<leftarrow> nodes s2 node;
     Some (n_data nd2, free_node node s2)
   }"

definition drop_tail :: "AVQueue \<Rightarrow> store \<Rightarrow> store option" where
  "drop_tail q s = do { (d, s1) \<leftarrow> unlink_tail q s; AVFreePacket d s1 }"

text \<open>The linking of a node behind the head.\<close>

definition link_head :: "AVQueue \<Rightarrow> addr \<Rightarrow> store \<Rightarrow> store option" where
  "link_head q node s = do {
     hd \<leftarrow> nodes s (head_node q);
     s1 \<leftarrow> upd_node node (\<lambda>n. n\<lparr>n_next := n_next hd\<rparr>) s;
     s2 \<leftarrow> upd_node (n_next hd) (\<lambda>n. n\<lparr>n_prev := node\<rparr>) s1;
     s3 \<leftarrow> upd_node node (\<lambda>n. n\<lparr>n_prev := head_node q\<rparr>) s2;
     upd_node (head_node q) (\<lambda>n. n\<lparr>n_next := node\<rparr>) s3
   }"

definition AVQueuePushHead :: "bool \<Rightarrow> addr \<Rightarrow> AVQueue option \<Rightarrow> store \<Rightarrow>
    (int \<times> AVQueue option \<times> store) option" where
  "AVQueuePushHead ok databuf p s =
     (case p of
        None \<Rightarrow> Some (-1, p, s)
      | Some q \<Rightarrow>
          if \<not> ok then Some (-1, p, s)
          else do {
            let node = fresh s;
            let s1 = s\<lparr>nodes := (nodes s)(node \<mapsto> \<lparr>n_prev = 0, n_next = 0, n_data = databuf\<rparr>),
                       fresh := node + 1\<rparr>;
            let full = (qtype q = REALTIME \<and> queue_size q \<ge> max_size q);
            s2 \<leftarrow> (if full then drop_tail q s1 else Some s1);
            let q1 = (if full then q\<lparr>overflow := True, queue_size := queue_size q - 1\<rparr> else q);
            s3 \<leftarrow> link_head q1 node s2;
            Some (0, Some (q1\<lparr>queue_size := queue_size q1 + 1\<rparr>), s3)
          })"

definition AVQueueSize :: "AVQueue option \<Rightarrow> int" where
  "AVQueueSize p = (case p of None \<Rightarrow> -1 | Some q \<Rightarrow> queue_size q)"

text \<open>The loop after an overflow: the packets beyond \<open>delay\<close> are dropped, the oldest first.\<close>

function DropLoop :: "AVQueue \<Rightarrow> store \<Rightarrow> (AVQueue \<times> store) option" where
  "DropLoop q s =
     (if queue_size q > delay q
      then (case drop_tail q s of
              None \<Rightarrow> None
            | Some s1 \<Rightarrow> DropLoop (q\<lparr>queue_size := queue_size q - 1\<rparr>) s1)
      else Some (q, s))"
  by pat_completeness auto
termination by (relation "measure (\<lambda>(q, s). nat (queue_size q - delay q))") auto

declare DropLoop.simps [simp del]

text \<open>
  \<open>ws\<close> are the outcomes of the timed waits: whether the wait timed out, and the queue and store
  when the mutex is held again; when there are no more, the wait times out.
\<close>

fun PopWait :: "(bool \<times> AVQueue \<times> store) list \<Rightarrow> AVQueue \<Rightarrow> store \<Rightarrow> bool \<times> AVQueue \<times> store" where
  "PopWait ws q s =
     (if queue_size q \<noteq> 0 then (True, q, s)
      else case ws of
        [] \<Rightarrow> (False, q, s)
      | (timedout, q1, s1) # ws1 \<Rightarrow> if timedout then (False, q1, s1) else PopWait ws1 q1 s1)"

declare PopWait.simps [simp del]

definition AVQueuePopTail :: "(bool \<times> AVQueue \<times> store) list \<Rightarrow> AVQueue option \<Rightarrow> store \<Rightarrow>
    (addr \<times> AVQueue option \<times> store) option" where
  "AVQueuePopTail ws p s =
     (case p of
        None \<Rightarrow> Some (NULL, p, s)
      | Some q0 \<Rightarrow>
          (case PopWait ws q0 s of
             (ready, q, s0) \<Rightarrow>
               if \<not> ready then Some (NULL, Some q, s0)
               else if queue_size q > 0 then do {
                 (q1, s1) \<leftarrow> (if overflow q then DropLoop q s0 else Some (q, s0));
                 (d, s2) \<leftarrow> unlink_tail q1 s1;
                 Some (d, Some (q1\<lparr>overflow := False, queue_size := queue_size q1 - 1\<rparr>), s2)
               } else Some (NULL, Some q, s0)))"

text \<open>\<open>AVQueueAbort\<close> with a function that releases the data, or without one.\<close>

function AbortLoop :: "bool \<Rightarrow> AVQueue \<Rightarrow> store \<Rightarrow> addr list \<Rightarrow> (addr list \<times> AVQueue \<times> store) option" where
  "AbortLoop func q s acc =
     (if queue_size q > 0 then do {
        hd \<leftarrow> nodes s (head_node q);
        let node = n_next hd;
        nd \<leftarrow> nodes s node;
        s1 \<leftarrow> upd_node (head_node q) (\<lambda>n. n\<lparr>n_next := n_next nd\<rparr>) s;
        AbortLoop func (q\<lparr>queue_size := queue_size q - 1\<rparr>) (free_node node s1)
          (if n_data nd \<noteq> NULL \<and> func then acc @ [n_data nd] else acc)
      } else Some (acc, q, s))"
  by pat_completeness auto
termination by (relation "measure (\<lambda>(f, q, s, acc). nat (queue_size q))") auto

declare AbortLoop.simps [simp del]

definition AVQueueAbort :: "bool \<Rightarrow> AVQueue option \<Rightarrow> store \<Rightarrow> (addr list \<times> AVQueue option \<times> store) option" where
  "AVQueueAbort func p s =
     (case p of
        None \<Rightarrow> Some ([], p, s)
      | Some q \<Rightarrow> do {
          (ds, q1, s1) \<leftarrow> AbortLoop func q s [];
          s2 \<leftarrow> upd_node (head_node q1) (\<lambda>n. n\<lparr>n_next := head_node q1, n_prev := head_node q1\<rparr>) s1;
          Some (ds, Some q1, s2)
        })"

definition AVQueueFree :: "bool \<Rightarrow> AVQueue option \<Rightarrow> store \<Rightarrow> (addr list \<times> AVQueue option \<times> store) option" where
  "AVQueueFree func p s =
     (case p of
        None \<Rightarrow> Some ([], None, s)
      | Some q \<Rightarrow> do {
          (ds, _, s1) \<leftarrow> AVQueueAbort func p s;
          Some (ds, None, free_node (head_node q) s1)
        })"

end
