(* ===== verification/AV_Queue_Props.thy ===== *)
theory AV_Queue_Props
  imports AV_Queue
begin

text \<open>
  The ring of nodes as a list, and the operations on it: linking puts an element in front of
  the list, unlinking takes its last one, aborting empties it; none of them faults.
\<close>

section \<open>Rings\<close>

definition nxt :: "(addr \<rightharpoonup> AVNode) \<Rightarrow> addr \<Rightarrow> addr option" where
  "nxt m a = map_option n_next (m a)"

definition prv :: "(addr \<rightharpoonup> AVNode) \<Rightarrow> addr \<Rightarrow> addr option" where
  "prv m a = map_option n_prev (m a)"

text \<open>Neighbours in the list point to each other.\<close>

fun linked :: "(addr \<rightharpoonup> AVNode) \<Rightarrow> addr list \<Rightarrow> bool" where
  "linked m (a # b # as) = (nxt m a = Some b \<and> prv m b = Some a \<and> linked m (b # as))"
| "linked m _ = True"

definition ring :: "(addr \<rightharpoonup> AVNode) \<Rightarrow> addr \<Rightarrow> addr list \<Rightarrow> bool" where
  "ring m h as \<longleftrightarrow> linked m (h # as @ [h]) \<and> distinct (h # as)"

lemma linked_append: "linked m (xs @ a # ys) \<longleftrightarrow> linked m (xs @ [a]) \<and> linked m (a # ys)"
proof (induction xs rule: induct_list012)
  case 1
  then show ?case by simp
next
  case (2 x)
  then show ?case by auto
next
  case (3 x y zs)
  then show ?case by simp
qed

lemma linked_cong:
  assumes "\<forall>a \<in> set (butlast xs). nxt m' a = nxt m a" "\<forall>b \<in> set (tl xs). prv m' b = prv m b"
  shows "linked m' xs = linked m xs"
  using assms
proof (induction xs rule: induct_list012)
  case (3 x y zs)
  then show ?case by (cases zs) auto
qed auto

lemma ring_alloc: "ring m h as \<Longrightarrow> a \<in> set (h # as) \<Longrightarrow> m a \<noteq> None"
proof -
  have "linked m (xs @ [z]) \<Longrightarrow> a \<in> set xs \<Longrightarrow> m a \<noteq> None" for xs z
    by (induction xs rule: induct_list012) (auto simp: nxt_def)
  from this [of "h # as" h] show "ring m h as \<Longrightarrow> a \<in> set (h # as) \<Longrightarrow> m a \<noteq> None"
    by (simp add: ring_def)
qed

text \<open>A change of nodes outside the ring does not matter.\<close>

lemma ring_other: "a \<notin> set (h # as) \<Longrightarrow> ring (m(a := x)) h as = ring m h as"
proof -
  assume "a \<notin> set (h # as)"
  then have "linked (m(a := x)) (h # as @ [h]) = linked m (h # as @ [h])"
    by (intro linked_cong) (auto simp: nxt_def prv_def butlast_append)
  then show ?thesis by (simp add: ring_def)
qed

lemma ring_insert:
  assumes "ring m h as" "c \<notin> set (h # as)"
    and m': "nxt m' h = Some c" "prv m' c = Some h" "nxt m' c = nxt m h"
    "prv m' (hd (as @ [h])) = Some c"
    "\<And>a. a \<noteq> h \<Longrightarrow> a \<noteq> c \<Longrightarrow> nxt m' a = nxt m a"
    "\<And>b. b \<noteq> hd (as @ [h]) \<Longrightarrow> b \<noteq> c \<Longrightarrow> prv m' b = prv m b"
  shows "ring m' h (c # as)"
proof -
  obtain f rest where f: "as @ [h] = f # rest" by (cases "as @ [h]") auto
  have old: "nxt m h = Some f" "linked m (f # rest)"
    using assms(1) f by (auto simp: ring_def)
  have d: "distinct (f # rest)" using assms(1) f by (metis distinct.simps(2) distinct1_rotate ring_def rotate1.simps(2))
  have c: "c \<notin> set (f # rest)" using assms(2) f by (metis Un_iff list.set(1) set_append list.set_intros insertE list.set(2) empty_iff)
  have "a \<noteq> h" if "a \<in> set (butlast (f # rest))" for a
    using that f assms(1) by (metis butlast_snoc distinct.simps(2) ring_def)
  moreover have "a \<noteq> c" if "a \<in> set (butlast (f # rest))" for a
    using that c by (metis in_set_butlastD)
  moreover have "b \<noteq> f" "b \<noteq> c" if "b \<in> set rest" for b
    using that d c by auto
  ultimately have "linked m' (f # rest) = linked m (f # rest)"
    using m'(5,6) f by (intro linked_cong) auto
  then have "linked m' (h # c # as @ [h])"
    using old m' f by (metis linked.simps(1) list.sel(1))
  then show ?thesis using assms(1,2) by (auto simp: ring_def)
qed

lemma ring_remove_last:
  assumes "ring m h (as @ [t])"
    and m': "prv m' h = prv m t" "nxt m' (last (h # as)) = Some h"
    "\<And>a. a \<noteq> last (h # as) \<Longrightarrow> a \<noteq> t \<Longrightarrow> nxt m' a = nxt m a"
    "\<And>b. b \<noteq> h \<Longrightarrow> b \<noteq> t \<Longrightarrow> prv m' b = prv m b"
  shows "ring m' h as"
proof -
  obtain ls l where l: "h # as = ls @ [l]" by (metis list.discI rev_exhaust)
  then have ll: "last (h # as) = l" by simp
  have d: "distinct (ls @ [l])" "t \<notin> set (ls @ [l])"
    using assms(1) unfolding l [symmetric] by (auto simp: ring_def)
  have "linked m ((h # as) @ [t, h])" using assms(1) by (simp add: ring_def)
  then have "linked m (ls @ l # t # [h])" unfolding l by simp
  then have old: "linked m (ls @ [l])" "prv m t = Some l" using linked_append [of m ls l "[t, h]"] by simp_all
  have hh: "hd (ls @ [l]) = h" using l by (metis list.sel(1))
  have "linked m' (ls @ [l]) = linked m (ls @ [l])"
  proof (rule linked_cong)
    show "\<forall>a \<in> set (butlast (ls @ [l])). nxt m' a = nxt m a"
    proof
      fix a assume "a \<in> set (butlast (ls @ [l]))"
      then have "a \<noteq> l" "a \<noteq> t" using d by auto
      then show "nxt m' a = nxt m a" by (rule m'(3) [unfolded ll])
    qed
    show "\<forall>b \<in> set (tl (ls @ [l])). prv m' b = prv m b"
    proof
      fix b assume b: "b \<in> set (tl (ls @ [l]))"
      then have "b \<noteq> h" using d(1) hh by (cases "ls @ [l]") auto
      moreover have "b \<noteq> t" using b d(2) by (metis list.set_sel(2) list.sel(2) tl_Nil)
      ultimately show "prv m' b = prv m b" by (rule m'(4))
    qed
  qed
  then have "linked m' (ls @ l # [h])" using old m'(1) m'(2) [unfolded ll] linked_append [of m' ls l "[h]"] by simp
  then have "linked m' ((h # as) @ [h])" unfolding l by simp
  then have "linked m' (h # as @ [h])" by simp
  then show ?thesis using assms(1) by (auto simp: ring_def)
qed

section \<open>Linking and unlinking\<close>

definition data :: "store \<Rightarrow> addr \<Rightarrow> addr" where
  "data s a = n_data (the (nodes s a))"

text \<open>Only nodes changed, and none appeared.\<close>

definition same_store :: "store \<Rightarrow> store \<Rightarrow> bool" where
  "same_store s s' \<longleftrightarrow> packets s' = packets s \<and> freed s' = freed s \<and> fresh s' = fresh s \<and>
     dom (nodes s') \<subseteq> dom (nodes s)"

lemma upd_node_Some:
  "nodes s a = Some n \<Longrightarrow> upd_node a f s = Some (s\<lparr>nodes := (nodes s)(a \<mapsto> f n)\<rparr>)"
  by (simp add: upd_node_def)

lemma ring_last_prev: "ring m h (as @ [t]) \<Longrightarrow> prv m h = Some t \<and> prv m t = Some (last (h # as))"
proof -
  assume r: "ring m h (as @ [t])"
  then have 1: "linked m ((h # as) @ t # [h])" by (simp add: ring_def)
  obtain ls l where l: "h # as = ls @ [l]" by (metis list.discI rev_exhaust)
  from 1 have "prv m h = Some t" using linked_append [of m "h # as" t "[h]"] by simp
  moreover from 1 have "prv m t = Some l"
    using linked_append [of m ls l "[t, h]"] unfolding l by simp
  ultimately show ?thesis using l by (metis last_snoc)
qed

lemma unlink_tail_ring:
  assumes r: "ring (nodes s) (head_node q) (as @ [t])"
  shows "\<exists>s'. unlink_tail q s = Some (data s t, s') \<and> ring (nodes s') (head_node q) as \<and>
    (\<forall>a \<in> set as. data s' a = data s a) \<and> same_store s s' \<and>
    (\<forall>a. a \<notin> set (head_node q # as @ [t]) \<longrightarrow> nodes s' a = nodes s a)"
proof -
  let ?h = "head_node q"
  define l where "l = last (?h # as)"
  note p = ring_last_prev [OF r, folded l_def]
  from p obtain hd where hd: "nodes s ?h = Some hd" "n_prev hd = t" by (auto simp: prv_def)
  from p obtain nd where nd: "nodes s t = Some nd" "n_prev nd = l" by (auto simp: prv_def)
  have dist: "distinct (?h # as)" "t \<notin> set (?h # as)" using r by (auto simp: ring_def)
  have l_in: "l \<in> set (?h # as)" unfolding l_def by (metis last_in_set list.discI)
  have tl: "t \<noteq> l" "t \<noteq> ?h" using dist(2) l_in by (auto)
  obtain ln where ln: "nodes s l = Some ln" using ring_alloc [OF r, of l] l_in by fastforce
  define s1 where "s1 = s\<lparr>nodes := (nodes s)(?h \<mapsto> hd\<lparr>n_prev := l\<rparr>)\<rparr>"
  obtain l1 where l1: "nodes s1 l = Some l1" using ln by (cases "l = ?h") (auto simp: s1_def)
  define s2 where "s2 = s1\<lparr>nodes := (nodes s1)(l \<mapsto> l1\<lparr>n_next := ?h\<rparr>)\<rparr>"
  have t1: "nodes s1 t = Some nd" "nodes s2 t = Some nd" using nd tl by (simp_all add: s1_def s2_def)
  have run: "unlink_tail q s = Some (n_data nd, free_node t s2)"
    using hd nd t1 l1 tl unfolding unlink_tail_def Let_def
    by (simp add: upd_node_Some s1_def [symmetric] s2_def [symmetric])
  let ?m = "nodes (free_node t s2)"
  have hd_l: "?h = l \<Longrightarrow> l1 = hd\<lparr>n_prev := l\<rparr>" "?h \<noteq> l \<Longrightarrow> nodes s l = Some l1"
    using l1 by (auto simp: s1_def)
  have "ring ?m ?h as"
  proof (rule ring_remove_last [OF r, folded l_def])
    show "prv ?m ?h = prv (nodes s) t" using tl nd hd_l
      by (cases "?h = l") (auto simp: prv_def free_node_def s2_def s1_def)
    show "nxt ?m l = Some ?h" using tl by (auto simp: nxt_def free_node_def s2_def)
    show "nxt ?m a = nxt (nodes s) a" if "a \<noteq> l" "a \<noteq> t" for a
      using that hd(1) by (auto simp: nxt_def free_node_def s2_def s1_def)
    show "prv ?m b = prv (nodes s) b" if "b \<noteq> ?h" "b \<noteq> t" for b
      using that hd_l(2) by (auto simp: prv_def free_node_def s2_def s1_def)
  qed
  moreover have "data (free_node t s2) a = data s a" if "a \<in> set as" for a
    using that dist hd(1) hd_l by (cases "a = l"; cases "?h = l")
      (auto simp: data_def free_node_def s2_def s1_def)
  moreover have "same_store s (free_node t s2)"
    using hd(1) ln by (auto simp: same_store_def free_node_def s2_def s1_def split: if_splits)
  moreover have "nodes (free_node t s2) a = nodes s a" if "a \<notin> set (?h # as @ [t])" for a
    using that l_in by (auto simp: free_node_def s2_def s1_def)
  ultimately show ?thesis using run nd(1) by (auto simp: data_def)
qed

lemma link_head_ring:
  assumes r: "ring (nodes s) (head_node q) as" and c: "nodes s c = Some cn" "c \<notin> set (head_node q # as)"
  shows "\<exists>s'. link_head q c s = Some s' \<and> ring (nodes s') (head_node q) (c # as) \<and>
    (\<forall>a. data s' a = data s a) \<and> same_store s s'"
proof -
  let ?h = "head_node q" and ?f = "hd (as @ [head_node q])"
  have "linked (nodes s) (?h # as @ [?h])" using r by (simp add: ring_def)
  then have "nxt (nodes s) ?h = Some ?f" by (cases as) auto
  then obtain hd where hd: "nodes s ?h = Some hd" "n_next hd = ?f" by (auto simp: nxt_def)
  have f_in: "?f \<in> set (?h # as)" by (cases as) auto
  have ne: "c \<noteq> ?h" "c \<noteq> ?f" using c(2) f_in by (auto simp del: hd_append2)
  obtain fn where fn: "nodes s ?f = Some fn" using ring_alloc [OF r f_in] by auto
  define s1 where "s1 = s\<lparr>nodes := (nodes s)(c \<mapsto> cn\<lparr>n_next := ?f\<rparr>)\<rparr>"
  define s2 where "s2 = s1\<lparr>nodes := (nodes s1)(?f \<mapsto> fn\<lparr>n_prev := c\<rparr>)\<rparr>"
  define s3 where "s3 = s2\<lparr>nodes := (nodes s2)(c \<mapsto> cn\<lparr>n_next := ?f, n_prev := ?h\<rparr>)\<rparr>"
  obtain hn where hn: "nodes s3 ?h = Some hn" "n_prev hn = (if ?f = ?h then c else n_prev hd)"
    "n_data hn = n_data hd"
    using hd(1) fn ne by (cases "?f = ?h") (auto simp: s3_def s2_def s1_def)
  define s4 where "s4 = s3\<lparr>nodes := (nodes s3)(?h \<mapsto> hn\<lparr>n_next := c\<rparr>)\<rparr>"
  have run: "link_head q c s = Some s4"
    using hd c(1) fn hn(1) ne unfolding link_head_def
    by (simp add: upd_node_Some s1_def s2_def s3_def s4_def)
  have "ring (nodes s4) ?h (c # as)"
  proof (rule ring_insert [OF r c(2)])
    show "nxt (nodes s4) ?h = Some c" by (simp add: s4_def nxt_def)
    show "prv (nodes s4) c = Some ?h" using ne by (simp add: s4_def s3_def prv_def)
    show "nxt (nodes s4) c = nxt (nodes s) ?h" using ne hd by (simp add: s4_def s3_def nxt_def)
    show "prv (nodes s4) ?f = Some c"
      using ne hn(2) by (cases "?f = ?h") (auto simp: s4_def s3_def s2_def prv_def)
    show "nxt (nodes s4) a = nxt (nodes s) a" if "a \<noteq> ?h" "a \<noteq> c" for a
      using that fn by (auto simp: s4_def s3_def s2_def s1_def nxt_def)
    show "prv (nodes s4) b = prv (nodes s) b" if "b \<noteq> ?f" "b \<noteq> c" for b
      using that hd(1) hn(2) by (auto simp: s4_def s3_def s2_def s1_def prv_def)
  qed
  moreover have "data s4 a = data s a" for a
    using hd(1) fn c(1) hn(3) ne by (auto simp: data_def s4_def s3_def s2_def s1_def)
  moreover have "same_store s s4"
    using hd(1) fn c(1) by (auto simp: same_store_def s4_def s3_def s2_def s1_def split: if_splits)
  ultimately show ?thesis using run by blast
qed

section \<open>The queue as a list, oldest packet first\<close>

definition holds :: "addr \<Rightarrow> store \<Rightarrow> addr list \<Rightarrow> bool" where
  "holds h s ys \<longleftrightarrow> (\<exists>as. ring (nodes s) h as \<and> ys = rev (map (data s) as)) \<and>
     dom (nodes s) \<subseteq> {..<fresh s}"

text \<open>The packets in the queue are allocated and different.\<close>

definition owned :: "store \<Rightarrow> addr list \<Rightarrow> bool" where
  "owned s ys \<longleftrightarrow> (\<forall>y \<in> set ys. y \<noteq> NULL \<longrightarrow> packets s y \<noteq> None) \<and> distinct (filter (\<lambda>y. y \<noteq> NULL) ys)"

definition release :: "addr \<Rightarrow> (addr \<rightharpoonup> addr) \<Rightarrow> (addr \<rightharpoonup> addr)" where
  "release d m = (if d = NULL then m else m(d := None))"

text \<open>What freeing a packet frees: its data, when there is any, and the packet itself.\<close>

definition blocks :: "(addr \<rightharpoonup> addr) \<Rightarrow> addr \<Rightarrow> addr list" where
  "blocks m d = (if d = NULL then [] else
     (case m d of None \<Rightarrow> [] | Some x \<Rightarrow> if x \<noteq> NULL then [x, d] else [d]))"

lemma unlink_holds:
  assumes "holds (head_node q) s (y # ys)"
  shows "\<exists>s'. unlink_tail q s = Some (y, s') \<and> holds (head_node q) s' ys \<and>
    packets s' = packets s \<and> freed s' = freed s"
proof -
  from assms obtain as where as: "ring (nodes s) (head_node q) as" "y # ys = rev (map (data s) as)"
    "dom (nodes s) \<subseteq> {..<fresh s}" by (auto simp: holds_def)
  then obtain bs t where t: "as = bs @ [t]" by (cases as rule: rev_cases) auto
  with as(2) have y: "y = data s t" "ys = rev (map (data s) bs)" by simp_all
  obtain s' where s': "unlink_tail q s = Some (data s t, s')" "ring (nodes s') (head_node q) bs"
    "\<forall>a \<in> set bs. data s' a = data s a" "same_store s s'"
    using unlink_tail_ring as(1) t by blast
  then have "map (data s') bs = map (data s) bs" by simp
  moreover have "dom (nodes s') \<subseteq> {..<fresh s'}" using s'(4) as(3) unfolding same_store_def by (metis subset_trans)
  ultimately show ?thesis using s' y by (auto simp: holds_def same_store_def)
qed

lemma drop_holds:
  assumes "holds (head_node q) s (y # ys)" "owned s (y # ys)"
  shows "\<exists>s'. drop_tail q s = Some s' \<and> holds (head_node q) s' ys \<and> owned s' ys \<and>
    packets s' = release y (packets s) \<and> freed s' = freed s @ blocks (packets s) y"
proof -
  obtain s1 where s1: "unlink_tail q s = Some (y, s1)" "holds (head_node q) s1 ys"
    "packets s1 = packets s" "freed s1 = freed s" using unlink_holds [OF assms(1)] by blast
  show ?thesis
  proof (cases "y = NULL")
    case True
    with s1 assms(2) show ?thesis
      by (auto simp: drop_tail_def AVFreePacket_def release_def blocks_def owned_def)
  next
    case False
    then obtain x where x: "packets s y = Some x" using assms(2) by (auto simp: owned_def)
    let ?s = "s1\<lparr>packets := (packets s1)(y := None), freed := freed s1 @ (if x \<noteq> NULL then [x] else []) @ [y]\<rparr>"
    have "drop_tail q s = Some ?s" using s1 x False by (simp add: drop_tail_def AVFreePacket_def)
    moreover have "holds (head_node q) ?s ys" using s1(2) by (simp add: holds_def data_def [abs_def])
    moreover have "owned ?s ys" using assms(2) s1(3) False by (auto simp: owned_def)
    ultimately show ?thesis using s1 x False by (auto simp: release_def blocks_def)
  qed
qed

lemma link_holds:
  assumes "holds (head_node q) s ys"
  shows "\<exists>s'. link_head q (fresh s) (s\<lparr>nodes := (nodes s)(fresh s \<mapsto> \<lparr>n_prev = 0, n_next = 0, n_data = x\<rparr>),
       fresh := fresh s + 1\<rparr>) = Some s' \<and> holds (head_node q) s' (ys @ [x]) \<and>
    packets s' = packets s \<and> freed s' = freed s"
proof -
  let ?c = "fresh s" and ?s = "s\<lparr>nodes := (nodes s)(fresh s \<mapsto> \<lparr>n_prev = 0, n_next = 0, n_data = x\<rparr>),
       fresh := fresh s + 1\<rparr>"
  from assms obtain as where as: "ring (nodes s) (head_node q) as" "ys = rev (map (data s) as)"
    "dom (nodes s) \<subseteq> {..<fresh s}" by (auto simp: holds_def)
  have c: "?c \<notin> set (head_node q # as)" using ring_alloc [OF as(1)] as(3) by (metis domIff lessThan_iff less_irrefl subsetD)
  then have "ring (nodes ?s) (head_node q) as" using as(1) by (simp add: ring_other)
  then obtain s' where s': "link_head q ?c ?s = Some s'" "ring (nodes s') (head_node q) (?c # as)"
    "\<forall>a. data s' a = data ?s a" "same_store ?s s'"
    using link_head_ring [of ?s q as ?c] c by auto
  have "map (data s') as = map (data s) as" "data s' ?c = x"
    using s'(3) c by (auto simp: data_def)
  then have "rev (map (data s') (?c # as)) = ys @ [x]" using as(2) by simp
  moreover have "dom (nodes s') \<subseteq> {..<fresh s'}"
    using s'(4) as(3) by (fastforce simp: same_store_def)
  ultimately have "holds (head_node q) s' (ys @ [x])" using s'(2) unfolding holds_def by metis
  with s' show ?thesis by (auto simp: same_store_def)
qed

text \<open>A node is allocated, the oldest packet is dropped, and the node is linked.\<close>

lemma overflow_holds:
  assumes "holds (head_node q) s (y # ys)" "owned s (y # ys)"
  shows "\<exists>s1 s'. drop_tail q (s\<lparr>nodes := (nodes s)(fresh s \<mapsto> \<lparr>n_prev = 0, n_next = 0, n_data = x\<rparr>),
       fresh := fresh s + 1\<rparr>) = Some s1 \<and> link_head q (fresh s) s1 = Some s' \<and>
    holds (head_node q) s' (ys @ [x]) \<and>
    packets s' = release y (packets s) \<and> freed s' = freed s @ blocks (packets s) y"
proof -
  let ?h = "head_node q" and ?c = "fresh s" and ?n = "\<lparr>n_prev = 0, n_next = 0, n_data = x\<rparr>"
  let ?s = "s\<lparr>nodes := (nodes s)(?c \<mapsto> ?n), fresh := ?c + 1\<rparr>"
  from assms obtain as where as: "ring (nodes s) ?h as" "y # ys = rev (map (data s) as)"
    "dom (nodes s) \<subseteq> {..<?c}" by (auto simp: holds_def)
  then obtain bs t where t: "as = bs @ [t]" by (cases as rule: rev_cases) auto
  have c: "?c \<notin> set (?h # bs @ [t])"
    using ring_alloc [OF as(1)] as(3) unfolding t by (metis domIff lessThan_iff less_irrefl subsetD)
  then have "ring (nodes ?s) ?h (bs @ [t])" using as(1) by (simp add: ring_other t)
  from unlink_tail_ring [OF this] c obtain s1 where s1:
    "unlink_tail q ?s = Some (data ?s t, s1)" "ring (nodes s1) ?h bs"
    "\<forall>a \<in> set bs. data s1 a = data ?s a" "same_store ?s s1" "nodes s1 ?c = Some ?n" by fastforce
  have y: "data ?s t = y" "ys = rev (map (data s1) bs)"
    using as(2) s1(3) c by (auto simp: t data_def intro!: map_cong)
  define s2 where "s2 = s1\<lparr>packets := release y (packets s), freed := freed s @ blocks (packets s) y\<rparr>"
  have p: "packets s1 = packets s" "freed s1 = freed s" "dom (nodes s1) \<subseteq> {..<fresh s1}"
    using s1(4) as(3) by (fastforce simp: same_store_def)+
  have drop: "drop_tail q ?s = Some s2"
    using s1(1) y(1) p(1,2) assms(2) by (cases "y = NULL")
      (auto simp: drop_tail_def AVFreePacket_def release_def blocks_def owned_def s2_def)
  have "ring (nodes s2) ?h bs" "nodes s2 ?c = Some ?n" "?c \<notin> set (?h # bs)"
    using s1(2,5) c by (auto simp: s2_def)
  from link_head_ring [OF this] obtain s' where s': "link_head q ?c s2 = Some s'"
    "ring (nodes s') ?h (?c # bs)" "\<forall>a. data s' a = data s2 a" "same_store s2 s'" by blast
  have "rev (map (data s') (?c # bs)) = ys @ [x]"
    using s'(3) s1(5) y(2) by (simp add: s2_def data_def)
  moreover have "dom (nodes s') \<subseteq> {..<fresh s'}" using s'(4) p(3) by (fastforce simp: same_store_def s2_def)
  ultimately have "holds ?h s' (ys @ [x])" using s'(2) unfolding holds_def by metis
  with drop s' show ?thesis by (auto simp: same_store_def s2_def)
qed

lemma DropLoop_holds:
  assumes "holds (head_node q) s ys" "owned s ys" "queue_size q = int (length ys)" "0 \<le> delay q"
  shows "\<exists>s'. DropLoop q s = Some (q\<lparr>queue_size := int (min (length ys) (nat (delay q)))\<rparr>, s') \<and>
    holds (head_node q) s' (drop (length ys - nat (delay q)) ys) \<and>
    owned s' (drop (length ys - nat (delay q)) ys) \<and> (\<forall>y. y \<notin> set ys \<longrightarrow> packets s' y = packets s y)"
  using assms
proof (induction ys arbitrary: q s)
  case Nil
  then have "DropLoop q s = Some (q\<lparr>queue_size := 0\<rparr>, s)"
    by (simp add: DropLoop.simps [of q s])
  with Nil show ?case by simp
next
  case (Cons y ys)
  show ?case
  proof (cases "int (length (y # ys)) \<le> delay q")
    case True
    then have "DropLoop q s = Some (q, s)" using Cons.prems(3) by (simp add: DropLoop.simps [of q s])
    moreover have "q\<lparr>queue_size := int (min (length (y # ys)) (nat (delay q)))\<rparr> = q"
      using True Cons.prems(3) by (cases q) auto
    moreover have "length (y # ys) - nat (delay q) = 0" using True by auto
    ultimately show ?thesis using Cons.prems(1,2) by (intro exI [of _ s]) (metis drop0)
  next
    case False
    obtain s1 where s1: "drop_tail q s = Some s1" "holds (head_node q) s1 ys" "owned s1 ys"
      "packets s1 = release y (packets s)"
      using drop_holds [OF Cons.prems(1,2)] by blast
    let ?q = "q\<lparr>queue_size := queue_size q - 1\<rparr>"
    have "queue_size ?q = int (length ys)" "0 \<le> delay ?q" using Cons.prems(3,4) by simp_all
    from Cons.IH [of ?q s1] this s1 obtain s' where s':
      "DropLoop ?q s1 = Some (?q\<lparr>queue_size := int (min (length ys) (nat (delay q)))\<rparr>, s')"
      "holds (head_node q) s' (drop (length ys - nat (delay q)) ys)"
      "owned s' (drop (length ys - nat (delay q)) ys)"
      "\<forall>y. y \<notin> set ys \<longrightarrow> packets s' y = packets s1 y" by auto
    have "DropLoop q s = DropLoop ?q s1"
      using False s1(1) Cons.prems(3) by (subst DropLoop.simps) simp
    moreover have "length (y # ys) - nat (delay q) = Suc (length ys - nat (delay q))"
      "min (length (y # ys)) (nat (delay q)) = min (length ys) (nat (delay q))"
      using False Cons.prems(4) by auto
    ultimately show ?thesis using s' s1(4) by (simp add: release_def)
  qed
qed

section \<open>Emptying the queue\<close>

text \<open>The loop of \<open>AVQueueAbort\<close> only keeps the links forward.\<close>

fun forward :: "(addr \<rightharpoonup> AVNode) \<Rightarrow> addr list \<Rightarrow> bool" where
  "forward m (a # b # as) = (nxt m a = Some b \<and> forward m (b # as))"
| "forward m _ = True"

lemma linked_forward: "linked m xs \<Longrightarrow> forward m xs"
  by (induction m xs rule: linked.induct) auto

lemma forward_cong: "\<forall>a \<in> set (butlast xs). nxt m' a = nxt m a \<Longrightarrow> forward m' xs = forward m xs"
proof (induction xs rule: induct_list012)
  case (3 x y zs)
  then show ?case by (cases zs) auto
qed auto

lemma AbortLoop_forward:
  assumes "forward (nodes s) (head_node q # as @ [head_node q])" "distinct (head_node q # as)"
    "queue_size q = int (length as)" "dom (nodes s) \<subseteq> {..<fresh s}"
  shows "\<exists>s'. AbortLoop func q s acc =
      Some (acc @ (if func then filter (\<lambda>d. d \<noteq> NULL) (map (data s) as) else []), q\<lparr>queue_size := 0\<rparr>, s') \<and>
    nodes s' (head_node q) \<noteq> None \<and> packets s' = packets s \<and> freed s' = freed s \<and>
    dom (nodes s') \<subseteq> {..<fresh s'}"
  using assms
proof (induction as arbitrary: q s acc)
  case Nil
  then have "AbortLoop func q s acc = Some (acc, q, s)" by (subst AbortLoop.simps) simp
  moreover have "q\<lparr>queue_size := 0\<rparr> = q" using Nil.prems(3) by (cases q) simp
  ultimately show ?case using Nil.prems by (auto simp: nxt_def)
next
  case (Cons a as)
  let ?h = "head_node q" and ?f = "hd (as @ [head_node q])"
  from Cons.prems(1) obtain hd where hd: "nodes s ?h = Some hd" "n_next hd = a" by (auto simp: nxt_def)
  have "nxt (nodes s) a = Some ?f" using Cons.prems(1) by (cases as) auto
  then obtain nd where nd: "nodes s a = Some nd" "n_next nd = ?f" by (auto simp: nxt_def)
  have ne: "a \<noteq> ?h" "a \<notin> set as" "?h \<notin> set as" "distinct as" using Cons.prems(2) by auto
  define s1 where "s1 = free_node a (s\<lparr>nodes := (nodes s)(?h \<mapsto> hd\<lparr>n_next := ?f\<rparr>)\<rparr>)"
  let ?q = "q\<lparr>queue_size := queue_size q - 1\<rparr>"
  let ?acc = "if n_data nd \<noteq> NULL \<and> func then acc @ [n_data nd] else acc"
  have step: "AbortLoop func q s acc = AbortLoop func ?q s1 ?acc"
    using Cons.prems(3) hd nd by (subst AbortLoop.simps) (simp add: upd_node_Some s1_def Let_def)
  have "nxt (nodes s1) b = nxt (nodes s) b" if "b \<in> set as" for b
    using that ne by (auto simp: s1_def free_node_def nxt_def)
  then have "forward (nodes s1) (as @ [?h]) = forward (nodes s) (as @ [?h])"
    by (intro forward_cong) simp
  moreover have "forward (nodes s) (as @ [?h])" using Cons.prems(1) by (cases as) auto
  moreover have "nxt (nodes s1) ?h = Some ?f" using ne by (simp add: s1_def free_node_def nxt_def)
  ultimately have fw: "forward (nodes s1) (?h # as @ [?h])" by (cases as) auto
  have dm: "dom (nodes s1) \<subseteq> {..<fresh s1}"
    using Cons.prems(4) hd(1) by (auto simp: s1_def free_node_def)
  have dt: "map (data s1) as = map (data s) as" "data s a = n_data nd"
    using ne nd(1) by (auto simp: s1_def free_node_def data_def)
  from Cons.IH [where q = ?q and s = s1 and acc = ?acc] fw dm ne Cons.prems(3) obtain s' where
    "AbortLoop func ?q s1 ?acc = Some (?acc @ (if func then filter (\<lambda>d. d \<noteq> NULL) (map (data s1) as) else []),
       ?q\<lparr>queue_size := 0\<rparr>, s')" "nodes s' ?h \<noteq> None" "packets s' = packets s1" "freed s' = freed s1"
    "dom (nodes s') \<subseteq> {..<fresh s'}" by auto
  moreover have "packets s1 = packets s" "freed s1 = freed s" by (simp_all add: s1_def free_node_def)
  ultimately show ?case using step by (simp add: dt)
qed

lemma AVQueueAbort_holds:
  assumes "holds (head_node q) s ys" "queue_size q = int (length ys)"
  shows "\<exists>s'. AVQueueAbort func (Some q) s =
      Some (if func then filter (\<lambda>d. d \<noteq> NULL) (rev ys) else [], Some (q\<lparr>queue_size := 0\<rparr>), s') \<and>
    holds (head_node q) s' [] \<and> packets s' = packets s \<and> freed s' = freed s"
proof -
  let ?h = "head_node q"
  from assms(1) obtain as where as: "ring (nodes s) ?h as" "ys = rev (map (data s) as)"
    "dom (nodes s) \<subseteq> {..<fresh s}" by (auto simp: holds_def)
  have "forward (nodes s) (?h # as @ [?h])" "distinct (?h # as)"
    using as(1) by (auto simp: ring_def intro: linked_forward)
  from AbortLoop_forward [OF this _ as(3), of func "[]"] assms(2) as(2) obtain s1 hn where s1:
    "AbortLoop func q s [] = Some (if func then filter (\<lambda>d. d \<noteq> NULL) (rev ys) else [], q\<lparr>queue_size := 0\<rparr>, s1)"
    "nodes s1 ?h = Some hn" "packets s1 = packets s" "freed s1 = freed s" "dom (nodes s1) \<subseteq> {..<fresh s1}"
    by auto
  let ?s = "s1\<lparr>nodes := (nodes s1)(?h \<mapsto> hn\<lparr>n_next := ?h, n_prev := ?h\<rparr>)\<rparr>"
  have "ring (nodes ?s) ?h []" by (simp add: ring_def nxt_def prv_def)
  then have "holds ?h ?s []" using s1(2,5) unfolding holds_def by (auto intro!: exI [of _ "[]"])
  with s1 show ?thesis by (auto simp: AVQueueAbort_def upd_node_Some)
qed

section \<open>The specification: a bounded queue that drops the oldest\<close>

text \<open>
  The abstract state is the list of packets, the oldest first, and whether packets were dropped
  since the last time one was taken. A realtime queue of limit \<open>mx\<close> drops its oldest packet
  when it is full; the next packet taken after that comes from the last \<open>dl\<close> ones.
\<close>

definition spec_push :: "QueueType \<Rightarrow> int \<Rightarrow> addr \<Rightarrow> addr list \<times> bool \<Rightarrow> addr list \<times> bool" where
  "spec_push ty mx x a =
     (if ty = REALTIME \<and> mx \<le> int (length (fst a)) then (tl (fst a) @ [x], True)
      else (fst a @ [x], snd a))"

definition spec_pop :: "int \<Rightarrow> addr list \<times> bool \<Rightarrow> addr \<times> addr list \<times> bool" where
  "spec_pop dl a =
     (let kept = (if snd a then drop (length (fst a) - nat dl) (fst a) else fst a)
      in if fst a = [] then (NULL, a) else (hd kept, tl kept, False))"

definition implements :: "AVQueue \<Rightarrow> store \<Rightarrow> addr list \<times> bool \<Rightarrow> bool" where
  "implements q s a \<longleftrightarrow> holds (head_node q) s (fst a) \<and> owned s (fst a) \<and>
     queue_size q = int (length (fst a)) \<and> overflow q = snd a \<and>
     (if qtype q = REALTIME then 1 \<le> delay q \<and> delay q \<le> max_size q else \<not> overflow q)"

lemma PushHead_implements:
  assumes "implements q s a" "x = NULL \<or> packets s x \<noteq> None \<and> x \<notin> set (fst a)"
  shows "\<exists>q' s'. AVQueuePushHead True x (Some q) s = Some (0, Some q', s') \<and>
    implements q' s' (spec_push (qtype q) (max_size q) x a) \<and> qtype q' = qtype q \<and>
    max_size q' = max_size q \<and> delay q' = delay q \<and>
    (let dropped = qtype q = REALTIME \<and> max_size q \<le> int (length (fst a))
     in packets s' = (if dropped then release (hd (fst a)) (packets s) else packets s) \<and>
        freed s' = (if dropped then freed s @ blocks (packets s) (hd (fst a)) else freed s))"
proof -
  obtain ys ov where a: "a = (ys, ov)" by fastforce
  let ?s = "s\<lparr>nodes := (nodes s)(fresh s \<mapsto> \<lparr>n_prev = 0, n_next = 0, n_data = x\<rparr>), fresh := fresh s + 1\<rparr>"
  have h: "holds (head_node q) s ys" "owned s ys" "queue_size q = int (length ys)" "overflow q = ov"
    using assms(1) a by (simp_all add: implements_def)
  show ?thesis
  proof (cases "qtype q = REALTIME \<and> max_size q \<le> int (length ys)")
    case False
    obtain s' where s': "link_head q (fresh s) ?s = Some s'" "holds (head_node q) s' (ys @ [x])"
      "packets s' = packets s" "freed s' = freed s" using link_holds [OF h(1)] by blast
    have "owned s' (ys @ [x])" using h(2) assms(2) s'(3) a by (auto simp: owned_def)
    with False s' assms(1) a h show ?thesis
      by (auto simp: AVQueuePushHead_def Let_def spec_push_def implements_def)
  next
    case True
    then obtain y zs where ys: "ys = y # zs" using assms(1) by (cases ys) (auto simp: implements_def)
    from overflow_holds [OF h(1,2) [unfolded ys], of x] obtain s1 s' where s':
      "drop_tail q ?s = Some s1" "link_head q (fresh s) s1 = Some s'" "holds (head_node q) s' (zs @ [x])"
      "packets s' = release y (packets s)" "freed s' = freed s @ blocks (packets s) y" by blast
    have "owned s' (zs @ [x])" using h(2) assms(2) s'(4) a ys by (auto simp: owned_def release_def)
    moreover have "link_head (q\<lparr>overflow := True, queue_size := queue_size q - 1\<rparr>) (fresh s) s1 = Some s'"
      using s'(2) by (simp add: link_head_def)
    ultimately show ?thesis using True s' assms(1) a h ys
      by (auto simp: AVQueuePushHead_def Let_def spec_push_def implements_def)
  qed
qed

lemma PopTail_implements:
  assumes "implements q s a"
  shows "\<exists>q' s'. AVQueuePopTail [] (Some q) s = Some (fst (spec_pop (delay q) a), Some q', s') \<and>
    implements q' s' (snd (spec_pop (delay q) a)) \<and> qtype q' = qtype q \<and>
    max_size q' = max_size q \<and> delay q' = delay q \<and>
    (\<forall>y. y \<notin> set (fst a) \<longrightarrow> packets s' y = packets s y)"
proof -
  obtain ys ov where a: "a = (ys, ov)" by fastforce
  have h: "holds (head_node q) s ys" "owned s ys" "queue_size q = int (length ys)" "overflow q = ov"
    using assms(1) a by (simp_all add: implements_def)
  show ?thesis
  proof (cases ys)
    case Nil
    with h assms a show ?thesis
      by (auto simp: AVQueuePopTail_def PopWait.simps [of "[]"] spec_pop_def)
  next
    case (Cons y0 ys0)
    define kept where "kept = (if ov then drop (length ys - nat (delay q)) ys else ys)"
    have "\<exists>s1. (if ov then DropLoop q s else Some (q, s)) =
        Some (q\<lparr>queue_size := int (length kept)\<rparr>, s1) \<and> holds (head_node q) s1 kept \<and> owned s1 kept \<and>
        (\<forall>y. y \<notin> set ys \<longrightarrow> packets s1 y = packets s y)"
      using DropLoop_holds [OF h(1,2,3)] h assms a
      by (cases ov) (auto simp: kept_def implements_def split: if_splits)
    then obtain s1 where s1: "(if ov then DropLoop q s else Some (q, s)) =
        Some (q\<lparr>queue_size := int (length kept)\<rparr>, s1)" "holds (head_node q) s1 kept" "owned s1 kept"
      "\<forall>y. y \<notin> set ys \<longrightarrow> packets s1 y = packets s y" by blast
    have "kept \<noteq> []" using Cons h(4) assms a by (auto simp: kept_def implements_def split: if_splits)
    then obtain k ks where k: "kept = k # ks" by (cases kept) auto
    let ?q = "q\<lparr>queue_size := int (length kept)\<rparr>"
    obtain s2 where s2: "unlink_tail ?q s1 = Some (k, s2)" "holds (head_node q) s2 ks"
      "packets s2 = packets s1" using unlink_holds [of ?q s1 k ks] s1(2) k by auto
    have "owned s2 ks" using s1(3) k s2(3) by (auto simp: owned_def split: if_splits)
    moreover have "spec_pop (delay q) a = (k, ks, False)"
      using k Cons a by (cases ov) (simp_all add: spec_pop_def Let_def kept_def)
    ultimately show ?thesis using s1(1,4) s2 h Cons k assms a
      by (auto simp: AVQueuePopTail_def PopWait.simps [of "[]"] implements_def)
  qed
qed

end
