(* ===== verification/AV_Queue_Claims.thy ===== *)
theory AV_Queue_Claims
  imports AV_Queue_Props
begin

text \<open>
  What the users of the packet queue rely on: every sequence of operations after
  \<open>AVQueueInit\<close> runs without a fault and gives what a bounded queue gives; packets come out
  in the order in which they were pushed; and the exception, a wake-up of an empty queue.
\<close>

section \<open>Sequences of operations\<close>

datatype queue_op = PushHead addr | PopTail | Size | Abort

datatype queue_out = Status int | Packet addr | Elements int | Released "addr list"

text \<open>One call on a queue; \<open>Abort\<close> is called with a function that releases a packet.\<close>

definition queue_call :: "queue_op \<Rightarrow> AVQueue option \<times> store \<Rightarrow>
    (queue_out \<times> AVQueue option \<times> store) option" where
  "queue_call p c =
     (case p of
        PushHead x \<Rightarrow> map_option (\<lambda>(r, q, s). (Status r, q, s)) (AVQueuePushHead True x (fst c) (snd c))
      | PopTail \<Rightarrow> map_option (\<lambda>(d, q, s). (Packet d, q, s)) (AVQueuePopTail [] (fst c) (snd c))
      | Size \<Rightarrow> Some (Elements (AVQueueSize (fst c)), c)
      | Abort \<Rightarrow> map_option (\<lambda>(ds, q, s). (Released ds, q, s)) (AVQueueAbort True (fst c) (snd c)))"

text \<open>The same call on the specification of a queue of type \<open>ty\<close>, limit \<open>mx\<close>, delay \<open>dl\<close>.\<close>

definition spec_call :: "QueueType \<Rightarrow> int \<Rightarrow> int \<Rightarrow> queue_op \<Rightarrow> addr list \<times> bool \<Rightarrow>
    queue_out \<times> addr list \<times> bool" where
  "spec_call ty mx dl p a =
     (case p of
        PushHead x \<Rightarrow> (Status 0, spec_push ty mx x a)
      | PopTail \<Rightarrow> (case spec_pop dl a of (d, a') \<Rightarrow> (Packet d, a'))
      | Size \<Rightarrow> (Elements (int (length (fst a))), a)
      | Abort \<Rightarrow> (Released (filter (\<lambda>d. d \<noteq> NULL) (rev (fst a))), ([], snd a)))"

definition pushed :: "queue_op list \<Rightarrow> addr list" where
  "pushed ps = concat (map (\<lambda>p. case p of PushHead x \<Rightarrow> [x] | _ \<Rightarrow> []) ps)"

lemma pushed_Cons [simp]:
  "pushed (PushHead x # ps) = x # pushed ps" "pushed (PopTail # ps) = pushed ps"
  "pushed (Size # ps) = pushed ps" "pushed (Abort # ps) = pushed ps" "pushed [] = []"
  by (simp_all add: pushed_def)

text \<open>
  The packets a caller will still push are allocated, different from each other and from those
  that are in the queue.
\<close>

definition pushable :: "addr list \<Rightarrow> store \<Rightarrow> addr list \<Rightarrow> bool" where
  "pushable xs s ys \<longleftrightarrow> distinct xs \<and> (\<forall>x \<in> set xs. x \<noteq> NULL \<and> packets s x \<noteq> None \<and> x \<notin> set ys)"

definition queue_rel :: "QueueType \<Rightarrow> int \<Rightarrow> int \<Rightarrow> queue_op list \<Rightarrow> AVQueue option \<times> store \<Rightarrow>
    addr list \<times> bool \<Rightarrow> bool" where
  "queue_rel ty mx dl ps c a \<longleftrightarrow> (\<exists>q. fst c = Some q \<and> implements q (snd c) a \<and>
     qtype q = ty \<and> max_size q = mx \<and> delay q = dl \<and> pushable (pushed ps) (snd c) (fst a))"

lemma spec_push_set: "set (fst (spec_push ty mx x a)) \<subseteq> insert x (set (fst a))"
  by (cases "fst a") (auto simp: spec_push_def)

lemma spec_pop_set: "set (fst (snd (spec_pop dl a))) \<subseteq> set (fst a)"
  by (auto simp: spec_pop_def Let_def tl_drop dest!: in_set_dropD list.set_sel(2) [rotated])

lemma push_simulates:
  assumes "queue_rel ty mx dl (PushHead x # ps) c a"
  shows "\<exists>c'. queue_call (PushHead x) c = Some (Status 0, c') \<and> queue_rel ty mx dl ps c' (spec_push ty mx x a)"
proof -
  from assms obtain q s where q: "c = (Some q, s)" "implements q s a" "qtype q = ty" "max_size q = mx"
    "delay q = dl" "pushable (x # pushed ps) s (fst a)" by (cases c) (auto simp: queue_rel_def)
  then have "x = NULL \<or> packets s x \<noteq> None \<and> x \<notin> set (fst a)" by (auto simp: pushable_def)
  from PushHead_implements [OF q(2) this] q obtain q' s' where q':
    "AVQueuePushHead True x (Some q) s = Some (0, Some q', s')" "implements q' s' (spec_push ty mx x a)"
    "qtype q' = ty" "max_size q' = mx" "delay q' = dl"
    "packets s' = packets s \<or> (\<exists>y ys. fst a = y # ys \<and> packets s' = release y (packets s))"
    by (cases "fst a") (auto simp: Let_def implements_def split: if_splits)
  have "pushable (pushed ps) s' (fst (spec_push ty mx x a))"
    using q(6) q'(6) spec_push_set [of ty mx x a] by (auto simp: pushable_def release_def split: if_splits)
  with q q' show ?thesis by (auto simp: queue_call_def queue_rel_def)
qed

lemma pop_simulates:
  assumes "queue_rel ty mx dl (PopTail # ps) c a"
  shows "\<exists>c'. queue_call PopTail c = Some (Packet (fst (spec_pop dl a)), c') \<and>
    queue_rel ty mx dl ps c' (snd (spec_pop dl a))"
proof -
  from assms obtain q s where q: "c = (Some q, s)" "implements q s a" "qtype q = ty" "max_size q = mx"
    "delay q = dl" "pushable (pushed ps) s (fst a)" by (cases c) (auto simp: queue_rel_def)
  from PopTail_implements [OF q(2)] q obtain q' s' where q':
    "AVQueuePopTail [] (Some q) s = Some (fst (spec_pop dl a), Some q', s')"
    "implements q' s' (snd (spec_pop dl a))" "qtype q' = ty" "max_size q' = mx" "delay q' = dl"
    "\<forall>y. y \<notin> set (fst a) \<longrightarrow> packets s' y = packets s y" by auto
  have "pushable (pushed ps) s' (fst (snd (spec_pop dl a)))"
    using q(6) q'(6) spec_pop_set [of dl a] by (auto simp: pushable_def)
  with q q' show ?thesis by (auto simp: queue_call_def queue_rel_def)
qed

lemma abort_simulates:
  assumes "queue_rel ty mx dl (Abort # ps) c a"
  shows "\<exists>c'. queue_call Abort c = Some (Released (filter (\<lambda>d. d \<noteq> NULL) (rev (fst a))), c') \<and>
    queue_rel ty mx dl ps c' ([], snd a)"
proof -
  from assms obtain q s where q: "c = (Some q, s)" "implements q s a" "qtype q = ty" "max_size q = mx"
    "delay q = dl" "pushable (pushed ps) s (fst a)" by (cases c) (auto simp: queue_rel_def)
  from q(2) have h: "holds (head_node q) s (fst a)" "queue_size q = int (length (fst a))"
    by (simp_all add: implements_def)
  from AVQueueAbort_holds [OF this, of True] obtain s' where s':
    "AVQueueAbort True (Some q) s =
       Some (filter (\<lambda>d. d \<noteq> NULL) (rev (fst a)), Some (q\<lparr>queue_size := 0\<rparr>), s')"
    "holds (head_node q) s' []" "packets s' = packets s" by auto
  then have "implements (q\<lparr>queue_size := 0\<rparr>) s' ([], snd a)"
    using q(2) by (auto simp: implements_def owned_def)
  moreover have "pushable (pushed ps) s' []" using q(6) s'(3) by (auto simp: pushable_def)
  ultimately show ?thesis using q s' by (auto simp: queue_call_def queue_rel_def)
qed

interpretation avqueue: forward_simulation "queue_rel ty mx dl" queue_call "spec_call ty mx dl" for ty mx dl
proof
  fix p ps c a
  assume r: "queue_rel ty mx dl (p # ps) c a"
  show "\<exists>c'. queue_call p c = Some (fst (spec_call ty mx dl p a), c') \<and>
    queue_rel ty mx dl ps c' (snd (spec_call ty mx dl p a))"
  proof (cases p)
    case (PushHead x)
    with push_simulates r show ?thesis by (simp add: spec_call_def)
  next
    case PopTail
    with pop_simulates r show ?thesis by (simp add: spec_call_def split_beta)
  next
    case Size
    with r show ?thesis
      by (auto simp: queue_call_def spec_call_def queue_rel_def AVQueueSize_def implements_def)
  next
    case Abort
    with abort_simulates r show ?thesis by (simp add: spec_call_def)
  qed
qed

section \<open>The queue after \<open>AVQueueInit\<close>\<close>

lemma Init_rel:
  assumes "ty = COMPLETE \<or> ty = REALTIME \<and> 1 \<le> dl \<and> dl \<le> mx" "dom (nodes s) \<subseteq> {..<fresh s}"
    "pushable (pushed ps) s []"
  shows "\<exists>q s'. AVQueueInit ty mx dl True True None s = (1, Some q, s') \<and>
    (\<exists>mx' dl'. queue_rel ty mx' dl' ps (Some q, s') ([], False) \<and>
       (ty = REALTIME \<longrightarrow> mx' = mx \<and> dl' = dl))"
proof -
  let ?h = "fresh s"
  let ?s = "s\<lparr>nodes := (nodes s)(?h \<mapsto> \<lparr>n_prev = ?h, n_next = ?h, n_data = 0\<rparr>), fresh := ?h + 1\<rparr>"
  have "ring (nodes ?s) ?h []" by (simp add: ring_def nxt_def prv_def)
  moreover have "dom (nodes ?s) \<subseteq> {..<fresh ?s}" using assms(2) by auto
  ultimately have "holds ?h ?s []" unfolding holds_def by (auto intro!: exI [of _ "[]"])
  with assms show ?thesis
    by (auto simp: AVQueueInit_def Let_def queue_rel_def implements_def owned_def pushable_def)
qed

text \<open>The specification of a queue that is not bounded does not use the limit and the delay.\<close>

lemma spec_complete: "spec_call COMPLETE mx dl p (ys, False) = spec_call COMPLETE mx' dl' p (ys, False)"
  by (cases p) (auto simp: spec_call_def spec_push_def spec_pop_def)

lemma spec_complete_flag: "snd (snd (spec_call COMPLETE mx dl p (ys, False))) = False"
  by (cases p) (auto simp: spec_call_def spec_push_def spec_pop_def)

lemma spec_ops_complete: "spec_ops (spec_call COMPLETE mx dl) ps (ys, False) = spec_ops (spec_call COMPLETE mx' dl') ps (ys, False)"
proof (induction ps arbitrary: ys)
  case (Cons p ps)
  obtain r zs b where r: "spec_call COMPLETE mx dl p (ys, False) = (r, zs, b)" by (metis prod_cases3)
  moreover have "b = False" using spec_complete_flag [of mx dl p ys] r by simp
  moreover have "spec_call COMPLETE mx' dl' p (ys, False) = (r, zs, b)" using r spec_complete by metis
  ultimately show ?case using Cons.IH [of zs] by simp
qed simp

text \<open>
  C15. Take an unbounded queue, or a realtime one whose delay is at least 1 and at most its size. Every
  sequence of pushes, pops, size queries and aborts, without \<^verbatim>\<open>AVQueueWake\<close>, on a queue that
  \<open>AVQueueInit\<close> has made runs without touching memory that is not allocated and returns, call
  by call, what the abstract bounded queue returns: the ring of nodes implements a list whose
  oldest packet is taken first, a realtime queue that is full drops its oldest packet, and the
  first packet taken after that is one of the newest \<open>delay\<close> packets. The packets pushed are
  allocated and different.
\<close>

theorem avqueue_refines_bounded_queue:
  assumes "ty = COMPLETE \<or> ty = REALTIME \<and> 1 \<le> dl \<and> dl \<le> mx" "dom (nodes s) \<subseteq> {..<fresh s}"
    and "pushable (pushed ps) s []"
  shows "\<exists>q s1 q' s'. AVQueueInit ty mx dl True True None s = (1, Some q, s1) \<and>
    run_ops queue_call ps (Some q, s1) =
      Some (fst (spec_ops (spec_call ty mx dl) ps ([], False)), Some q', s') \<and>
    implements q' s' (snd (spec_ops (spec_call ty mx dl) ps ([], False)))"
proof -
  from Init_rel [OF assms] obtain q s1 mx' dl' where q:
    "AVQueueInit ty mx dl True True None s = (1, Some q, s1)"
    "queue_rel ty mx' dl' ps (Some q, s1) ([], False)" "ty = REALTIME \<longrightarrow> mx' = mx \<and> dl' = dl" by blast
  have "spec_ops (spec_call ty mx' dl') ps ([], False) = spec_ops (spec_call ty mx dl) ps ([], False)"
    using q(3) assms(1) spec_ops_complete by metis
  with avqueue.runs_simulate [OF q(2)] q(1) show ?thesis
    by (fastforce simp: queue_rel_def)
qed

definition two_packets :: store where
  "two_packets = \<lparr>nodes = (\<lambda>_. None), packets = (\<lambda>_. None)(7 := Some 70, 8 := Some 80, 9 := Some 90),
     freed = [], fresh = 100\<rparr>"

theorem avqueue_refines_bounded_queue_witness:
  "\<exists>q s1 q' s'. AVQueueInit REALTIME 2 1 True True None two_packets = (1, Some q, s1) \<and>
    run_ops queue_call [PushHead 7, PushHead 8, PushHead 9, Size, PopTail, PopTail] (Some q, s1) =
      Some ([Status 0, Status 0, Status 0, Elements 2, Packet 9, Packet 0], Some q', s') \<and>
    implements q' s' ([], False)"
  using avqueue_refines_bounded_queue [of REALTIME 1 2 two_packets
      "[PushHead 7, PushHead 8, PushHead 9, Size, PopTail, PopTail]"]
  by (simp add: two_packets_def pushable_def spec_call_def spec_push_def spec_pop_def)

section \<open>First in, first out\<close>

lemma spec_pushes:
  "ty = REALTIME \<longrightarrow> int (length ys + length xs) \<le> mx \<Longrightarrow>
    spec_ops (spec_call ty mx dl) (map PushHead xs @ ps) (ys, False) =
      (case spec_ops (spec_call ty mx dl) ps (ys @ xs, False) of
         (rs, a) \<Rightarrow> (replicate (length xs) (Status 0) @ rs, a))"
proof (induction xs arbitrary: ys)
  case (Cons x xs)
  then have "spec_call ty mx dl (PushHead x) (ys, False) = (Status 0, ys @ [x], False)"
    by (auto simp: spec_call_def spec_push_def)
  moreover note Cons.IH [of "ys @ [x]"]
  ultimately show ?case using Cons.prems by (simp add: split_beta)
qed simp

lemma spec_pops:
  "spec_ops (spec_call ty mx dl) (replicate (length xs) PopTail) (xs, False) = (map Packet xs, [], False)"
  by (induction xs) (auto simp: spec_call_def spec_pop_def)

lemma pushed_pops [simp]: "pushed (map PushHead xs @ replicate n PopTail) = xs"
  by (induction xs) (auto simp: pushed_def)

text \<open>
  Packets leave the queue in the order in which they entered it, and none is lost: pushing
  any number of packets that fit into an empty queue and then taking as many returns exactly
  these packets, in order, and leaves the queue empty.
\<close>

theorem avqueue_fifo:
  assumes "implements q s ([], False)" "qtype q = REALTIME \<longrightarrow> int (length xs) \<le> max_size q"
    and "pushable xs s []"
  shows "\<exists>q' s'. run_ops queue_call (map PushHead xs @ replicate (length xs) PopTail) (Some q, s) =
      Some (replicate (length xs) (Status 0) @ map Packet xs, Some q', s') \<and> implements q' s' ([], False)"
proof -
  let ?ps = "map PushHead xs @ replicate (length xs) PopTail"
  have "queue_rel (qtype q) (max_size q) (delay q) ?ps (Some q, s) ([], False)"
    using assms by (simp add: queue_rel_def)
  from avqueue.runs_simulate [OF this] obtain c' where
    "run_ops queue_call ?ps (Some q, s) =
       Some (fst (spec_ops (spec_call (qtype q) (max_size q) (delay q)) ?ps ([], False)), c')"
    "queue_rel (qtype q) (max_size q) (delay q) [] c'
       (snd (spec_ops (spec_call (qtype q) (max_size q) (delay q)) ?ps ([], False)))" by blast
  moreover have "spec_ops (spec_call (qtype q) (max_size q) (delay q)) ?ps ([], False) =
      (replicate (length xs) (Status 0) @ map Packet xs, [], False)"
    using assms(2) by (simp add: spec_pushes spec_pops)
  ultimately show ?thesis by (cases c') (auto simp: queue_rel_def simp del: run_ops.simps)
qed

definition empty_queue :: AVQueue where
  "empty_queue = \<lparr>head_node = 50, qtype = REALTIME, max_size = 3, queue_size = 0, overflow = False, delay = 2\<rparr>"

definition empty_store :: store where
  "empty_store = two_packets\<lparr>nodes := [50 \<mapsto> \<lparr>n_prev = 50, n_next = 50, n_data = 0\<rparr>]\<rparr>"

lemma empty_queue_implements: "implements empty_queue empty_store ([], False)"
proof -
  have "ring (nodes empty_store) 50 []" by (simp add: ring_def nxt_def prv_def empty_store_def)
  then have "holds 50 empty_store []"
    unfolding holds_def by (intro conjI exI [of _ "[]"]) (auto simp: empty_store_def two_packets_def)
  then show ?thesis by (simp add: implements_def empty_queue_def owned_def)
qed

theorem avqueue_fifo_witness:
  "\<exists>q' s'. run_ops queue_call [PushHead 7, PushHead 8, PushHead 9, PopTail, PopTail, PopTail]
      (Some empty_queue, empty_store) =
      Some ([Status 0, Status 0, Status 0, Packet 7, Packet 8, Packet 9], Some q', s') \<and>
    implements q' s' ([], False)"
  using avqueue_fifo [OF empty_queue_implements, of "[7, 8, 9]"]
  by (simp add: numeral_3_eq_3 empty_queue_def empty_store_def two_packets_def pushable_def del: run_ops.simps)

section \<open>The wake-up of an empty queue\<close>

text \<open>
  \<open>AVQueueWake\<close> on an empty queue sets its element count to -1, and nothing sets it back:
  the next packet pushed is linked into the ring, yet the count is 0, so \<open>AVQueueSize\<close> reports
  an empty queue and \<open>AVQueuePopTail\<close> times out and returns no packet although one is there.
\<close>

theorem wake_hides_packet:
  assumes "implements q s ([], False)" "pushable [x] s []"
  shows "\<exists>q' s'. AVQueuePushHead True x (AVQueueWake (Some q)) s = Some (0, Some q', s') \<and>
    holds (head_node q') s' [x] \<and> AVQueueSize (Some q') = 0 \<and>
    AVQueuePopTail [] (Some q') s' = Some (NULL, Some q', s')"
proof -
  let ?q = "q\<lparr>queue_size := -1\<rparr>"
  have q: "holds (head_node q) s []" "queue_size q = 0" "qtype q = REALTIME \<Longrightarrow> 1 \<le> max_size q"
    using assms(1) by (auto simp: implements_def split: if_splits)
  then have w: "AVQueueWake (Some q) = Some ?q" by (simp add: AVQueueWake_def)
  obtain s' where s': "link_head ?q (fresh s) (s\<lparr>nodes := (nodes s)(fresh s \<mapsto>
      \<lparr>n_prev = 0, n_next = 0, n_data = x\<rparr>), fresh := fresh s + 1\<rparr>) = Some s'"
    "holds (head_node q) s' [x]" using link_holds [of ?q s "[]" x] q(1) by auto
  then have "AVQueuePushHead True x (Some ?q) s = Some (0, Some (q\<lparr>queue_size := 0\<rparr>), s')"
    using q(3) by (auto simp: AVQueuePushHead_def Let_def)
  then show ?thesis unfolding w using s'(2)
    by (simp add: AVQueueSize_def AVQueuePopTail_def PopWait.simps [of "[]"])
qed

theorem wake_hides_packet_witness:
  "\<exists>q' s'. AVQueuePushHead True 7 (AVQueueWake (Some empty_queue)) empty_store = Some (0, Some q', s') \<and>
    holds (head_node q') s' [7] \<and> AVQueueSize (Some q') = 0 \<and>
    AVQueuePopTail [] (Some q') s' = Some (NULL, Some q', s')"
  using wake_hides_packet [OF empty_queue_implements, of 7]
  by (simp add: pushable_def empty_store_def two_packets_def)

end
