(* ===== verification/Buffer_Exchange.thy ===== *)
theory Buffer_Exchange
  imports Stream
begin

text \<open>
  The exchange of frames between a producer and its consumers, with a reference count per
  buffer. Source: \<^verbatim>\<open>recorder/src/service/qmmf_recorder_utils.h\<close>
  (\<^verbatim>\<open>IBufferProducer\<close>, \<^verbatim>\<open>BufferProducerImpl\<close>). The camera ports, the frame
  rate controller, the rescaler and the tracks of the recorder are connected by it.

  A consumer is the pointer it is registered under, 0 the null pointer. What an operation calls
  is its list of calls, in order: \<open>ToConsumer k b\<close> is \<^verbatim>\<open>OnFrameAvailable\<close> of consumer
  \<open>k\<close>, \<open>ToSource b\<close> is \<^verbatim>\<open>NotifyBufferReturned\<close> of the source. The failure of an
  assertion is \<open>None\<close>.
\<close>

section \<open>State\<close>

type_synonym consumer = nat

record producer =
  buffers :: "(handle, u32) kv"
  buffer_consumers :: "(nat, consumer) kv"

datatype exchange_call = ToConsumer consumer StreamBuffer | ToSource StreamBuffer

definition BufferProducerImpl :: producer where
  "BufferProducerImpl = \<lparr>buffers = [], buffer_consumers = []\<rparr>"

section \<open>Consumers\<close>

definition IsConnectedLocked :: "consumer \<Rightarrow> producer \<Rightarrow> bool" where
  "IsConnectedLocked c p = (kv_find (buffer_consumers p) c \<noteq> None)"

definition IsConnected :: "consumer \<Rightarrow> producer \<Rightarrow> bool" where
  "IsConnected c p = IsConnectedLocked c p"

definition GetNumConsumer :: "producer \<Rightarrow> u32" where
  "GetNumConsumer p = of_nat (length (buffer_consumers p))"

definition AddConsumer :: "consumer \<Rightarrow> producer \<Rightarrow> producer option" where
  "AddConsumer c p =
     (if c = 0 then None
      else if IsConnectedLocked c p then Some p
      else Some (p\<lparr>buffer_consumers := kv_add c c (buffer_consumers p)\<rparr>))"

definition RemoveConsumer :: "consumer \<Rightarrow> producer \<Rightarrow> producer option" where
  "RemoveConsumer c p =
     (if c = 0 then None
      else if \<not> IsConnectedLocked c p then Some p
      else Some (p\<lparr>buffer_consumers := kv_remove c (buffer_consumers p)\<rparr>))"

section \<open>Buffers\<close>

text \<open>\<open>buffers_[handle]\<close> of a \<^verbatim>\<open>std::map\<close> is 0 for a handle that is not there.\<close>

definition ref_count :: "producer \<Rightarrow> handle \<Rightarrow> u32" where
  "ref_count p h = (case kv_find (buffers p) h of None \<Rightarrow> 0 | Some n \<Rightarrow> n)"

definition NotifyBufferReturned :: "StreamBuffer \<Rightarrow> producer \<Rightarrow> producer \<times> exchange_call list" where
  "NotifyBufferReturned b p =
     (case kv_find (buffers p) (b_handle b) of
        None \<Rightarrow> (p, [])
      | Some n \<Rightarrow>
          if n > 1 then (p\<lparr>buffers := kv_add (b_handle b) (n - 1) (buffers p)\<rparr>, [])
          else (p\<lparr>buffers := kv_remove (b_handle b) (buffers p)\<rparr>, [ToSource b]))"

text \<open>The section of \<open>NotifyBuffer\<close> under \<^verbatim>\<open>buffer_lock_\<close>: one reference per consumer.\<close>

definition register_buffer :: "StreamBuffer \<Rightarrow> producer \<Rightarrow> producer" where
  "register_buffer b p =
     p\<lparr>buffers := kv_add (b_handle b) (ref_count p (b_handle b) + GetNumConsumer p) (buffers p)\<rparr>"

text \<open>
  The loop of \<open>NotifyBuffer\<close>. A consumer may return the buffer before its
  \<^verbatim>\<open>OnFrameAvailable\<close> ends, as a track that is stopped does: \<open>prompt\<close> says which do.
\<close>

primrec deliver :: "(consumer \<Rightarrow> StreamBuffer \<Rightarrow> bool) \<Rightarrow> StreamBuffer \<Rightarrow> consumer list \<Rightarrow> producer \<Rightarrow>
    producer \<times> exchange_call list" where
  "deliver prompt b [] p = (p, [])"
| "deliver prompt b (c # cs) p =
     (let (p1, r) = (if prompt c b then NotifyBufferReturned b p else (p, []));
          (p2, rs) = deliver prompt b cs p1
      in (p2, ToConsumer c b # r @ rs))"

definition NotifyBuffer :: "(consumer \<Rightarrow> StreamBuffer \<Rightarrow> bool) \<Rightarrow> StreamBuffer \<Rightarrow> producer \<Rightarrow>
    producer \<times> exchange_call list" where
  "NotifyBuffer prompt b p =
     (if buffer_consumers p = [] then (p, [ToSource b])
      else deliver prompt b (map snd (buffer_consumers p)) (register_buffer b p))"

text \<open>
  \<open>ws\<close> are the outcomes of the waits: whether the wait timed out and the producer when the
  lock is held again; when there are no more, the wait times out.
\<close>

fun CheckAndWaitPendingBuffers :: "(bool \<times> producer) list \<Rightarrow> producer \<Rightarrow> int \<times> producer" where
  "CheckAndWaitPendingBuffers ws p =
     (if buffers p = [] then (0, p)
      else case ws of
        [] \<Rightarrow> (- ETIMEDOUT, p)
      | (timedout, p1) # ws1 \<Rightarrow>
          if timedout then (- ETIMEDOUT, p1) else CheckAndWaitPendingBuffers ws1 p1)"

declare CheckAndWaitPendingBuffers.simps [simp del]

section \<open>The exchange as a system\<close>

text \<open>
  The producer with its surroundings: the deliveries that \<open>NotifyBuffer\<close> still has to make, the
  buffers the consumers hold, those that are with the source, and those on their way back to it:
  the lock is released before \<^verbatim>\<open>source_->NotifyBufferReturned\<close> is called.
\<close>

record exchange =
  prod :: producer
  in_flight :: "(consumer \<times> handle) multiset"
  held :: "(consumer \<times> handle) multiset"
  at_source :: "handle multiset"
  returning :: "handle multiset"

definition out :: "exchange \<Rightarrow> handle \<Rightarrow> nat" where
  "out e h = size (filter_mset (\<lambda>x. snd x = h) (in_flight e + held e))"

definition consumers_of :: "producer \<Rightarrow> consumer list" where
  "consumers_of p = map snd (buffer_consumers p)"

definition to_source :: "exchange_call list \<Rightarrow> handle multiset" where
  "to_source cs = mset (concat (map (\<lambda>c. case c of ToSource b \<Rightarrow> [b_handle b] | _ \<Rightarrow> []) cs))"

text \<open>
  The steps, one per critical section or call of the source, in any order. The source passes a buffer that it has, or
  one that is still out (a repeated frame), and a consumer returns what it holds. The number of
  references stays below \<open>2 ^ 32\<close>.
\<close>

inductive exchange_step :: "exchange \<Rightarrow> exchange \<Rightarrow> bool" where
  Register: "exchange_step e (e\<lparr>prod := register_buffer b (prod e),
      in_flight := in_flight e + mset (map (\<lambda>c. (c, b_handle b)) (consumers_of (prod e))),
      at_source := at_source e - {#b_handle b#}\<rparr>)"
    if "buffer_consumers (prod e) \<noteq> []" "b_handle b \<in># at_source e \<or> 0 < out e (b_handle b)"
      "out e (b_handle b) + length (buffer_consumers (prod e)) < 2 ^ 32"
| Bounce: "exchange_step e (e\<lparr>at_source := at_source e - {#b_handle b#}, returning := returning e + to_source cs\<rparr>)"
    if "buffer_consumers (prod e) = []" "b_handle b \<in># at_source e"
      "NotifyBuffer prompt b (prod e) = (prod e, cs)"
| Deliver: "exchange_step e (e\<lparr>in_flight := in_flight e - {#(c, h)#}, held := held e + {#(c, h)#}\<rparr>)"
    if "(c, h) \<in># in_flight e"
| GiveBack: "exchange_step e (e\<lparr>prod := p, held := held e - {#(c, b_handle b)#},
      returning := returning e + to_source cs\<rparr>)"
    if "(c, b_handle b) \<in># held e" "NotifyBufferReturned b (prod e) = (p, cs)"
| Arrive: "exchange_step e (e\<lparr>at_source := at_source e + {#h#}, returning := returning e - {#h#}\<rparr>)"
    if "h \<in># returning e"
| Add: "exchange_step e (e\<lparr>prod := p\<rparr>)" if "AddConsumer c (prod e) = Some p"
| Drop: "exchange_step e (e\<lparr>prod := p\<rparr>)" if "RemoveConsumer c (prod e) = Some p"

definition exchange_start :: "handle list \<Rightarrow> exchange \<Rightarrow> bool" where
  "exchange_start hs e \<longleftrightarrow> distinct hs \<and>
     e = \<lparr>prod = BufferProducerImpl, in_flight = {#}, held = {#}, at_source = mset hs, returning = {#}\<rparr>"

text \<open>
  The invariant: the table has for each buffer the number of references that are out and no
  other entry; a buffer is either out, or once with the source or on its way there.
\<close>

definition exchange_inv :: "handle list \<Rightarrow> exchange \<Rightarrow> bool" where
  "exchange_inv hs e \<longleftrightarrow> kv_wf (buffers (prod e)) \<and> kv_wf (buffer_consumers (prod e)) \<and>
     (\<forall>h. kv_find (buffers (prod e)) h = (if out e h = 0 then None else Some (of_nat (out e h)))) \<and>
     (\<forall>h. out e h < 2 ^ 32) \<and> (\<forall>h. h \<notin> set hs \<longrightarrow> out e h = 0) \<and>
     (\<forall>h. count (at_source e) h + count (returning e) h = (if h \<in> set hs \<and> out e h = 0 then 1 else 0))"

end
