(* ===== verification/Frame_Rate.thy ===== *)
theory Frame_Rate
  imports Buffer_Exchange "HOL-Library.Monad_Syntax"
begin

text \<open>
  The frame rate controller, which skips or repeats frames so that they leave at a given rate.
  Source: \<^verbatim>\<open>recorder/src/service/qmmf_camera_frc.{h,cc}\<close>. Times are nanoseconds; the
  64-bit times and the counters, which are reset every three seconds, are taken not to overflow.
\<close>

section \<open>Single precision\<close>

text \<open>
  What the code computes in \<^verbatim>\<open>float\<close> of an integer: the conversion rounds to 24 bits, to
  the nearest and to even on a tie. \<^verbatim>\<open>0.5f\<close> is a power of two, so the product with it is
  exact; \<^verbatim>\<open>0.01f\<close> is \<open>10737418 / 2 ^ 30\<close>. \<^verbatim>\<open>llround\<close> rounds halves away from zero.
\<close>

fun bit_length :: "nat \<Rightarrow> nat" where
  "bit_length n = (if n = 0 then 0 else Suc (bit_length (n div 2)))"

declare bit_length.simps [simp del]

definition round24 :: "nat \<Rightarrow> nat" where
  "round24 n =
     (let e = bit_length n - 24; q = n div 2 ^ e; r = n mod 2 ^ e
      in (if 2 * r > 2 ^ e \<or> 2 * r = 2 ^ e \<and> odd q then q + 1 else q) * 2 ^ e)"

definition half_interval :: "int \<Rightarrow> int" where
  "half_interval i = sgn i * int ((round24 (nat \<bar>i\<bar>) + 1) div 2)"

definition ts_delta :: "int \<Rightarrow> int" where
  "ts_delta i = sgn i * int ((round24 (10737418 * round24 (nat \<bar>i\<bar>)) + 2 ^ 29) div 2 ^ 30)"

section \<open>State\<close>

text \<open>
  \<open>has_producer\<close> tells whether \<^verbatim>\<open>buffer_consumer_\<close> has a producer handle. A use of the handle
  without one is the call \<open>NullProducer\<close>.
\<close>

record frc =
  active :: bool
  frame_repeat_enabled :: bool
  input_frame_count :: int
  output_frame_count :: int
  measurement_interval :: int
  output_frame_interval :: int
  expected_output_ts :: int
  input_frame_interval :: int
  previous_input_ts :: int
  buffer_producer :: producer
  has_producer :: bool

datatype frc_call = Frame consumer StreamBuffer | Upstream StreamBuffer | NullProducer
  | SetProducer consumer | ClearProducer consumer

abbreviation (input) EBUSY :: int where "EBUSY \<equiv> 16"
abbreviation (input) EEXIST :: int where "EEXIST \<equiv> 17"

definition FrameRateController :: frc where
  "FrameRateController =
     \<lparr>active = False, frame_repeat_enabled = False, input_frame_count = 0, output_frame_count = 0,
      measurement_interval = 0, output_frame_interval = 0, expected_output_ts = 0,
      input_frame_interval = 0, previous_input_ts = 0, buffer_producer = BufferProducerImpl,
      has_producer = False\<rparr>"

section \<open>Control\<close>

text \<open>
  The frame rate is a parameter: \<open>zero\<close> says whether it is 0, \<open>interval\<close> is the value of
  \<^verbatim>\<open>std::llround(FRC_FRAME_RATE_TIMEBASE / fps)\<close>.
\<close>

definition SetFrameRate :: "bool \<Rightarrow> int \<Rightarrow> frc \<Rightarrow> int \<times> frc" where
  "SetFrameRate zero interval f =
     (if zero then (- EINVAL, f) else (0, f\<lparr>output_frame_interval := interval\<rparr>))"

definition EnableFrameRepeat :: "bool \<Rightarrow> frc \<Rightarrow> frc" where
  "EnableFrameRepeat enable f = f\<lparr>frame_repeat_enabled := enable\<rparr>"

definition reset_counts :: "frc \<Rightarrow> frc" where
  "reset_counts f = f\<lparr>input_frame_count := 0, output_frame_count := 0, measurement_interval := 0,
     expected_output_ts := 0, previous_input_ts := 0\<rparr>"

definition Start :: "frc \<Rightarrow> int \<times> frc" where
  "Start f = (if active f then (- EALREADY, f) else (0, reset_counts (f\<lparr>active := True\<rparr>)))"

definition Stop :: "(bool \<times> producer) list \<Rightarrow> frc \<Rightarrow> int \<times> frc" where
  "Stop ws f =
     (if \<not> active f then (- EALREADY, f)
      else
        let f1 = reset_counts (f\<lparr>active := False\<rparr>);
            (r, p) = CheckAndWaitPendingBuffers ws (buffer_producer f1);
            f2 = f1\<lparr>buffer_producer := p\<rparr>
        in if r = - ETIMEDOUT then (r, f2) else (0, f2))"

definition AddConsumer :: "consumer \<Rightarrow> frc \<Rightarrow> int \<times> frc_call list \<times> frc" where
  "AddConsumer c f =
     (if active f then (- EBUSY, [], f)
      else if c = 0 then (- EINVAL, [], f)
      else if IsConnected c (buffer_producer f) then (- EEXIST, [], f)
      else case Buffer_Exchange.AddConsumer c (buffer_producer f) of
        None \<Rightarrow> (- EINVAL, [], f)
      | Some p \<Rightarrow> (0, [SetProducer c], f\<lparr>buffer_producer := p\<rparr>))"

definition RemoveConsumer :: "consumer \<Rightarrow> frc \<Rightarrow> int \<times> frc_call list \<times> frc" where
  "RemoveConsumer c f =
     (if active f then (- EBUSY, [], f)
      else if c = 0 then (- EINVAL, [], f)
      else if \<not> IsConnected c (buffer_producer f) then (- ENOENT, [], f)
      else case Buffer_Exchange.RemoveConsumer c (buffer_producer f) of
        None \<Rightarrow> (- EINVAL, [], f)
      | Some p \<Rightarrow> (0, [ClearProducer c], f\<lparr>buffer_producer := p\<rparr>))"

section \<open>Frames\<close>

text \<open>The call of the producer this controller is a consumer of.\<close>

definition NotifyBufferReturned :: "StreamBuffer \<Rightarrow> frc \<Rightarrow> frc_call" where
  "NotifyBufferReturned b f = (if has_producer f then Upstream b else NullProducer)"

text \<open>The source of the producer of the controller is the controller itself.\<close>

definition frc_calls :: "frc \<Rightarrow> exchange_call list \<Rightarrow> frc_call list" where
  "frc_calls f = map (\<lambda>c. case c of ToConsumer k b \<Rightarrow> Frame k b | ToSource b \<Rightarrow> NotifyBufferReturned b f)"

definition pass_on :: "(consumer \<Rightarrow> StreamBuffer \<Rightarrow> bool) \<Rightarrow> StreamBuffer \<Rightarrow> frc \<Rightarrow> frc_call list \<times> frc" where
  "pass_on prompt b f =
     (case NotifyBuffer prompt b (buffer_producer f) of
        (p, cs) \<Rightarrow> (frc_calls f cs, f\<lparr>buffer_producer := p\<rparr>))"

definition SkipFrame :: "StreamBuffer \<Rightarrow> frc \<Rightarrow> bool" where
  "SkipFrame b f =
     (let delta = expected_output_ts f - b_timestamp b
      in delta > 0 \<and> delta \<ge> half_interval (output_frame_interval f))"

text \<open>
  The quotient is computed in double precision: exact enough for the comparison with 0.5 when
  both numbers are below \<open>2 ^ 53\<close>. Division by zero gives infinity, or NaN for 0 by 0.
\<close>

definition RepeatFrame :: "StreamBuffer \<Rightarrow> frc \<Rightarrow> bool" where
  "RepeatFrame b f =
     (let delta = \<bar>expected_output_ts f - b_timestamp b\<bar>; i = output_frame_interval f
      in input_frame_interval f \<noteq> 0 \<and>
         (if i > 0 then 2 * delta \<ge> i else if i = 0 then delta > 0 else False))"

partial_function (option) RepeatLoop :: "(consumer \<Rightarrow> StreamBuffer \<Rightarrow> bool) \<Rightarrow> StreamBuffer \<Rightarrow> frc \<Rightarrow>
    (frc_call list \<times> frc) option" where
  "RepeatLoop prompt b f =
     (if RepeatFrame b f
      then let (cs, f1) = pass_on prompt b f;
               f2 = f1\<lparr>expected_output_ts := expected_output_ts f1 + output_frame_interval f1,
                       output_frame_count := output_frame_count f1 + 1\<rparr>
           in Option.bind (RepeatLoop prompt b f2) (\<lambda>(cs', f3). Some (cs @ cs', f3))
      else Some ([], f))"

text \<open>The bookkeeping for an incoming frame.\<close>

definition note_input :: "StreamBuffer \<Rightarrow> frc \<Rightarrow> frc" where
  "note_input b f =
     (let ii = (if previous_input_ts f = 0 then 0 else b_timestamp b - previous_input_ts f)
      in f\<lparr>input_frame_interval := ii, measurement_interval := measurement_interval f + ii,
           input_frame_count := input_frame_count f + 1, previous_input_ts := b_timestamp b,
           expected_output_ts := (if expected_output_ts f = 0 then b_timestamp b else expected_output_ts f)\<rparr>)"

text \<open>The bookkeeping for the frame that is passed on; the measured rates are only logged.\<close>

definition note_output :: "StreamBuffer \<Rightarrow> frc \<Rightarrow> frc" where
  "note_output b f =
     (let delta = expected_output_ts f - b_timestamp b;
          early = delta > 0 \<and> delta < ts_delta (output_frame_interval f);
          f1 = f\<lparr>expected_output_ts := (if early then expected_output_ts f - delta else expected_output_ts f)
                   + output_frame_interval f,
                 output_frame_count := output_frame_count f + 1\<rparr>
      in if measurement_interval f1 \<ge> 3000000000
         then f1\<lparr>input_frame_count := 0, output_frame_count := 0, measurement_interval := 0\<rparr>
         else f1)"

text \<open>\<open>OnFrameAvailable\<close>; \<open>None\<close> when it does not return.\<close>

definition OnFrameAvailable :: "(consumer \<Rightarrow> StreamBuffer \<Rightarrow> bool) \<Rightarrow> StreamBuffer \<Rightarrow> frc \<Rightarrow>
    (frc_call list \<times> frc) option" where
  "OnFrameAvailable prompt b f =
     (if \<not> active f then Some ([NotifyBufferReturned b f], f)
      else
        let f1 = note_input b f
        in if \<not> frame_repeat_enabled f1 \<and> SkipFrame b f1 then Some ([NotifyBufferReturned b f1], f1)
           else do {
             (cs, f2) \<leftarrow> (if frame_repeat_enabled f1 then RepeatLoop prompt b f1 else Some ([], f1));
             let (cs', f3) = pass_on prompt b (note_output b f2);
             Some (cs @ cs', f3)
           })"

end
