(* ===== verification/Buffer_Exchange_Claims.thy ===== *)
theory Buffer_Exchange_Claims
  imports Buffer_Exchange
begin

text \<open>
  The reference counts of the exchange are right in every reachable state, and so a buffer goes
  back to the source exactly when the last consumer has returned it.
\<close>

section \<open>References that are out\<close>

lemma out_simps:
  "out (e\<lparr>prod := p\<rparr>) h = out e h" "out (e\<lparr>at_source := m, returning := n\<rparr>) h = out e h"
  "out (e\<lparr>returning := n, at_source := m\<rparr>) h = out e h"
  by (simp_all add: out_def)

lemma filter_pairs:
  "size (filter_mset (\<lambda>x. snd x = h) (mset (map (\<lambda>c. (c, g)) cs))) = (if h = g then length cs else 0)"
  by (induction cs) auto

lemma out_register:
  "out (e\<lparr>prod := p, in_flight := in_flight e + mset (map (\<lambda>c. (c, g)) cs), at_source := m\<rparr>) h =
    out e h + (if h = g then length cs else 0)"
  using filter_pairs [of h g cs] by (simp add: out_def)

lemma out_deliver:
  "x \<in># in_flight e \<Longrightarrow>
    out (e\<lparr>in_flight := in_flight e - {#x#}, held := held e + {#x#}\<rparr>) h = out e h"
proof -
  assume "x \<in># in_flight e"
  then obtain r where "in_flight e = add_mset x r" by (metis insert_DiffM)
  then show ?thesis by (simp add: out_def)
qed

lemma out_give_back:
  "(c, g) \<in># held e \<Longrightarrow>
    out (e\<lparr>prod := p, held := held e - {#(c, g)#}, returning := m\<rparr>) h = (if h = g then out e h - 1 else out e h)"
proof -
  assume "(c, g) \<in># held e"
  then obtain r where "held e = add_mset (c, g) r" by (metis insert_DiffM)
  then show ?thesis by (auto simp: out_def)
qed

lemma out_held: "(c, h) \<in># held e \<Longrightarrow> 0 < out e h"
proof -
  assume "(c, h) \<in># held e"
  then obtain r where "held e = add_mset (c, h) r" by (metis insert_DiffM)
  then show ?thesis by (simp add: out_def)
qed

lemma one_less_u32: "n < 2 ^ 32 \<Longrightarrow> 1 < (of_nat n :: u32) \<longleftrightarrow> 1 < n"
  by (simp add: word_less_nat_alt unat_of_nat)

section \<open>Every step keeps the invariant\<close>

lemma inv_register:
  assumes "exchange_inv hs e" "b_handle b \<in># at_source e \<or> 0 < out e (b_handle b)"
    "buffer_consumers (prod e) \<noteq> []" "out e (b_handle b) + length (buffer_consumers (prod e)) < 2 ^ 32"
  shows "exchange_inv hs (e\<lparr>prod := register_buffer b (prod e),
      in_flight := in_flight e + mset (map (\<lambda>c. (c, b_handle b)) (consumers_of (prod e))),
      at_source := at_source e - {#b_handle b#}\<rparr>)" (is "exchange_inv hs ?e")
proof -
  let ?h = "b_handle b" and ?n = "length (buffer_consumers (prod e))"
  have o: "out ?e h = out e h + (if h = ?h then ?n else 0)" for h
    unfolding out_register by (simp add: consumers_of_def)
  have n: "?n \<noteq> 0" using assms(3) by simp
  have r: "ref_count (prod e) ?h = of_nat (out e ?h)"
    using assms(1) by (simp add: ref_count_def exchange_inv_def)
  have home: "count (at_source e) ?h + count (returning e) ?h = (if ?h \<in> set hs \<and> out e ?h = 0 then 1 else 0)"
    "?h \<notin> set hs \<longrightarrow> out e ?h = 0"
    using assms(1) by (simp_all add: exchange_inv_def)
  have pos: "count (at_source e) ?h \<noteq> 0 \<or> out e ?h \<noteq> 0"
    using assms(2) not_in_iff [of ?h "at_source e"] by auto
  have pool: "?h \<in> set hs"
  proof (rule ccontr)
    assume "?h \<notin> set hs"
    with home have "count (at_source e) ?h = 0 \<and> out e ?h = 0" by simp
    with pos show False by linarith
  qed
  have total: "count (at_source e) ?h + count (returning e) ?h = (if out e ?h = 0 then 1 else 0)"
    using assms(1) pool by (simp add: exchange_inv_def)
  have left: "count (at_source e) ?h - 1 + count (returning e) ?h = 0"
  proof (cases "out e ?h = 0")
    case True
    with pos have "1 \<le> count (at_source e) ?h" by linarith
    moreover have "count (at_source e) ?h + count (returning e) ?h = 1" using total True by simp
    ultimately show ?thesis by linarith
  next
    case False
    with total show ?thesis by simp
  qed
  show ?thesis unfolding exchange_inv_def o
  proof (intro conjI allI)
    show "kv_find (buffers (prod ?e)) h = (if out e h + (if h = ?h then ?n else 0) = 0 then None
        else Some (of_nat (out e h + (if h = ?h then ?n else 0))))" for h
      using assms(1) r n by (simp add: register_buffer_def GetNumConsumer_def exchange_inv_def)
    show "out e h + (if h = ?h then ?n else 0) < 2 ^ 32" for h
      using assms(1,4) by (simp add: exchange_inv_def)
    show "h \<notin> set hs \<longrightarrow> out e h + (if h = ?h then ?n else 0) = 0" for h
      using assms(1) pool by (auto simp: exchange_inv_def)
    show "count (at_source ?e) h + count (returning ?e) h = (if h \<in> set hs \<and> out e h + (if h = ?h then ?n else 0) = 0 then 1 else 0)" for h
      using assms(1) left n by (cases "h = ?h") (simp_all add: exchange_inv_def)
  qed (use assms(1) in \<open>simp_all add: register_buffer_def exchange_inv_def\<close>)
qed

lemma Returned_counts:
  assumes "exchange_inv hs e" "0 < out e (b_handle b)"
  shows "NotifyBufferReturned b (prod e) =
    (if 1 < out e (b_handle b)
     then ((prod e)\<lparr>buffers := kv_add (b_handle b) (of_nat (out e (b_handle b) - 1)) (buffers (prod e))\<rparr>, [])
     else ((prod e)\<lparr>buffers := kv_remove (b_handle b) (buffers (prod e))\<rparr>, [ToSource b]))"
proof -
  have "kv_find (buffers (prod e)) (b_handle b) = Some (of_nat (out e (b_handle b)))" "out e (b_handle b) < 2 ^ 32"
    using assms by (auto simp: exchange_inv_def)
  then show ?thesis using assms(2) one_less_u32 [of "out e (b_handle b)"]
    by (simp add: NotifyBufferReturned_def of_nat_diff)
qed

lemma inv_give_back:
  assumes "exchange_inv hs e" "(c, b_handle b) \<in># held e" "NotifyBufferReturned b (prod e) = (p, cs)"
  shows "exchange_inv hs (e\<lparr>prod := p, held := held e - {#(c, b_handle b)#},
      returning := returning e + to_source cs\<rparr>)" (is "exchange_inv hs ?e")
proof -
  let ?h = "b_handle b"
  have pos: "0 < out e ?h" using out_held [OF assms(2)] .
  have o: "out ?e h = (if h = ?h then out e h - 1 else out e h)" for h
    by (rule out_give_back [OF assms(2)])
  have pool: "?h \<in> set hs" using assms(1) pos by (metis exchange_inv_def less_numeral_extra(3))
  note run = Returned_counts [OF assms(1) pos, unfolded assms(3)]
  have home: "count (at_source e) h + count (returning e) h = (if h \<in> set hs \<and> out e h = 0 then 1 else 0)" for h
    using assms(1) by (simp add: exchange_inv_def)
  show ?thesis
  proof (cases "1 < out e ?h")
    case True
    moreover have "out e ?h - 1 < 2 ^ 32" using assms(1) by (simp add: exchange_inv_def less_imp_diff_less)
    ultimately show ?thesis using run assms(1) pool unfolding exchange_inv_def o
      by (auto simp: to_source_def)
  next
    case False
    with pos have "out e ?h = 1" by simp
    then have cs: "to_source cs = {#?h#}" and p: "p = (prod e)\<lparr>buffers := kv_remove ?h (buffers (prod e))\<rparr>"
      using run by (simp_all add: to_source_def)
    have "count (at_source ?e) h + count (returning ?e) h =
        (if h \<in> set hs \<and> (if h = ?h then out e h - 1 else out e h) = 0 then 1 else 0)" for h
      using home [of h] \<open>out e ?h = 1\<close> pool by (cases "h = ?h") (simp_all add: cs)
    then show ?thesis using assms(1) \<open>out e ?h = 1\<close> pool unfolding exchange_inv_def o by (simp add: p)
  qed
qed

lemma inv_consumers:
  "exchange_inv hs e \<Longrightarrow> buffers p = buffers (prod e) \<Longrightarrow> kv_wf (buffer_consumers p) \<Longrightarrow>
    exchange_inv hs (e\<lparr>prod := p\<rparr>)"
  by (simp add: exchange_inv_def out_simps)

lemma inv_way_home:
  assumes "exchange_inv hs e" "m + n = at_source e + returning e"
  shows "exchange_inv hs (e\<lparr>at_source := m, returning := n\<rparr>)"
proof -
  have "count m h + count n h = count (at_source e) h + count (returning e) h" for h
    using arg_cong [OF assms(2), of "\<lambda>x. count x h"] by simp
  with assms(1) show ?thesis by (simp add: exchange_inv_def out_simps)
qed

lemma exchange_step_inv: "exchange_step e e' \<Longrightarrow> exchange_inv hs e \<Longrightarrow> exchange_inv hs e'"
proof (induction rule: exchange_step.induct)
  case (Register e b)
  then show ?case by (intro inv_register) auto
next
  case (Bounce e b prompt cs)
  then have cs: "to_source cs = {#b_handle b#}" by (auto simp: NotifyBuffer_def to_source_def)
  then show ?case using Bounce by (intro inv_way_home) (auto dest: insert_DiffM simp: union_mset_add_mset_left [symmetric])
next
  case (Arrive h e)
  then show ?case by (intro inv_way_home) auto
next
  case (Deliver c h e)
  then show ?case unfolding exchange_inv_def out_deliver [OF Deliver(1)] by simp
next
  case (GiveBack c b e p cs)
  then show ?case by (intro inv_give_back) auto
next
  case (Add c e p)
  moreover from Add have "kv_wf (buffer_consumers (prod e))" by (simp add: exchange_inv_def)
  ultimately show ?case by (intro inv_consumers) (auto simp: AddConsumer_def split: if_splits)
next
  case (Drop c e p)
  moreover from Drop have "kv_wf (buffer_consumers (prod e))" by (simp add: exchange_inv_def)
  ultimately show ?case by (intro inv_consumers) (auto simp: RemoveConsumer_def split: if_splits)
qed

lemma exchange_start_inv: "exchange_start hs e \<Longrightarrow> exchange_inv hs e"
proof -
  assume s: "exchange_start hs e"
  then have "count (at_source e) h = (if h \<in> set hs then 1 else 0)" for h
    using distinct_count_atmost_1 [of hs] by (simp add: exchange_start_def)
  with s show ?thesis
    by (simp add: exchange_start_def exchange_inv_def BufferProducerImpl_def out_def)
qed

interpretation exchange_sys: invariant_system "exchange_start hs" exchange_step "exchange_inv hs" for hs
  by unfold_locales (auto intro: exchange_start_inv exchange_step_inv)

section \<open>Claims\<close>

lemma wait_ok: "CheckAndWaitPendingBuffers ws p = (0, p') \<Longrightarrow> buffers p' = []"
proof (induction ws arbitrary: p)
  case Nil
  then show ?case by (simp add: CheckAndWaitPendingBuffers.simps [of "[]"] split: if_splits)
next
  case (Cons w ws)
  then show ?case
    by (auto simp: CheckAndWaitPendingBuffers.simps [of "w # ws"] split: if_splits prod.splits)
qed

lemma all_home:
  assumes "exchange_inv hs e" "distinct hs" "buffers (prod e) = []"
  shows "at_source e + returning e = mset hs"
proof (rule multiset_eqI)
  fix h
  have "out e h = 0"
    using assms(1,3) unfolding exchange_inv_def by (metis map_of.simps(1) option.distinct(1))
  moreover have "count (mset hs) h = (if h \<in> set hs then 1 else 0)"
    using assms(2) distinct_count_atmost_1 [of hs] by simp
  ultimately show "count (at_source e + returning e) h = count (mset hs) h"
    using assms(1) by (simp add: exchange_inv_def)
qed

text \<open>
  C14. Whatever the order in which frames are passed, delivered and returned and consumers come
  and go: the reference count of a buffer is the number of deliveries that are not returned; when
  nothing of a buffer is out, it is exactly once with the source or in the call that hands it back,
  and otherwise in neither; the return of the last reference, and no other, makes that call; and
  when \<open>CheckAndWaitPendingBuffers\<close> ends without a timeout, every buffer is with the source or in
  such a call.
\<close>

theorem buffers_come_back:
  assumes "exchange_start hs e0" "exchange_step\<^sup>*\<^sup>* e0 e"
  shows "(\<forall>h. ref_count (prod e) h = of_nat (out e h)) \<and>
    (\<forall>h. count (at_source e) h + count (returning e) h = (if h \<in> set hs \<and> out e h = 0 then 1 else 0)) \<and>
    (\<forall>b. 0 < out e (b_handle b) \<longrightarrow> snd (NotifyBufferReturned b (prod e)) =
       (if out e (b_handle b) = 1 then [ToSource b] else [])) \<and>
    (\<forall>ws p. CheckAndWaitPendingBuffers ws p = (0, prod e) \<longrightarrow> at_source e + returning e = mset hs)"
proof -
  have i: "exchange_inv hs e" by (rule exchange_sys.inv_reachable [OF assms])
  have d: "distinct hs" using assms(1) by (simp add: exchange_start_def)
  have "snd (NotifyBufferReturned b (prod e)) = (if out e (b_handle b) = 1 then [ToSource b] else [])"
    if "0 < out e (b_handle b)" for b
    using Returned_counts [OF i that] that by auto
  moreover have "ref_count (prod e) h = of_nat (out e h)" for h
    using i by (simp add: ref_count_def exchange_inv_def)
  moreover have "at_source e + returning e = mset hs" if "CheckAndWaitPendingBuffers ws p = (0, prod e)" for ws p
    using all_home [OF i d wait_ok [OF that]] .
  moreover have "count (at_source e) h + count (returning e) h = (if h \<in> set hs \<and> out e h = 0 then 1 else 0)" for h
    using i by (simp add: exchange_inv_def)
  ultimately show ?thesis by blast
qed

definition ref_frame :: StreamBuffer where
  "ref_frame = \<lparr>b_info = \<lparr>buffer_format = kNV12, plane_info = []\<rparr>, b_timestamp = 1030, b_frame_number = 1,
     b_stream_id = 0, b_data_space = HAL_DATASPACE_UNKNOWN, b_handle = 5, b_fd = 3, b_size = 0, b_metafd = 0\<rparr>"

definition ref_producer :: producer where
  "ref_producer = \<lparr>buffers = [], buffer_consumers = [(7, 7), (8, 8)]\<rparr>"

definition ref_exchange :: "producer \<Rightarrow> exchange" where
  "ref_exchange p = \<lparr>prod = p, in_flight = {#}, held = {#}, at_source = mset [5, 6], returning = {#}\<rparr>"

definition ref_passed :: exchange where
  "ref_passed = \<lparr>prod = ref_producer\<lparr>buffers := [(5, 2)]\<rparr>, in_flight = mset [(7, 5), (8, 5)], held = {#},
     at_source = {#6#}, returning = {#}\<rparr>"

lemma ref_passed_reachable: "exchange_step\<^sup>*\<^sup>* (ref_exchange BufferProducerImpl) ref_passed"
proof -
  let ?p = "BufferProducerImpl\<lparr>buffer_consumers := [(7, 7)]\<rparr>"
  have "exchange_step (ref_exchange BufferProducerImpl) (ref_exchange ?p)"
    using exchange_step.Add [of 7 "ref_exchange BufferProducerImpl" ?p]
    by (simp add: ref_exchange_def AddConsumer_def IsConnectedLocked_def BufferProducerImpl_def)
  moreover have "exchange_step (ref_exchange ?p) (ref_exchange ref_producer)"
    using exchange_step.Add [of 8 "ref_exchange ?p" ref_producer]
    by (simp add: ref_exchange_def AddConsumer_def IsConnectedLocked_def BufferProducerImpl_def ref_producer_def)
  moreover have "exchange_step (ref_exchange ref_producer) ref_passed"
    using exchange_step.Register [of "ref_exchange ref_producer" ref_frame]
    by (simp add: ref_exchange_def ref_passed_def ref_producer_def ref_frame_def out_def
        register_buffer_def ref_count_def GetNumConsumer_def consumers_of_def)
  ultimately show ?thesis by (meson converse_rtranclp_into_rtranclp rtranclp.rtrancl_refl)
qed

theorem buffers_come_back_witness:
  "ref_count (prod ref_passed) 5 = 2 \<and> count (at_source ref_passed) 5 = 0 \<and>
   snd (NotifyBufferReturned ref_frame (prod ref_passed)) = []"
proof -
  have start: "exchange_start [5, 6] (ref_exchange BufferProducerImpl)"
    by (simp add: exchange_start_def ref_exchange_def)
  have "out ref_passed 5 = 2" by (simp add: out_def ref_passed_def)
  with buffers_come_back [OF start ref_passed_reachable] show ?thesis
    by (auto simp: ref_frame_def ref_passed_def)
qed

section \<open>A wait that ends early\<close>

definition ref_waiting :: exchange where
  "ref_waiting = \<lparr>prod = \<lparr>buffers = [], buffer_consumers = [(7, 7)]\<rparr>, in_flight = {#}, held = {#}, at_source = {#}, returning = {#5#}\<rparr>"

text \<open>
  The signal is sent before the source is called, so the wait for pending buffers can end while the
  last one is not back: with one buffer and one consumer this state is reached.
\<close>

theorem wait_ends_early:
  "\<exists>e0. exchange_start [5] e0 \<and> exchange_step\<^sup>*\<^sup>* e0 ref_waiting \<and>
     CheckAndWaitPendingBuffers [] (prod ref_waiting) = (0, prod ref_waiting) \<and> at_source ref_waiting = {#}"
proof (intro exI conjI)
  let ?e0 = "\<lparr>prod = BufferProducerImpl, in_flight = {#}, held = {#}, at_source = mset [5], returning = {#}\<rparr>"
  let ?p = "\<lparr>buffers = [], buffer_consumers = [(7, 7)]\<rparr>"
  let ?e1 = "?e0\<lparr>prod := ?p\<rparr>"
  let ?e2 = "?e1\<lparr>prod := ?p\<lparr>buffers := [(5, 1)]\<rparr>, in_flight := {#(7, 5)#}, at_source := {#}\<rparr>"
  let ?e3 = "?e2\<lparr>in_flight := {#}, held := {#(7, 5)#}\<rparr>"
  show "exchange_start [5] ?e0" by (simp add: exchange_start_def)
  have "exchange_step ?e0 ?e1"
    using exchange_step.Add [of 7 ?e0 ?p] by (simp add: AddConsumer_def IsConnectedLocked_def BufferProducerImpl_def)
  moreover have "exchange_step ?e1 ?e2"
    using exchange_step.Register [of ?e1 ref_frame]
    by (simp add: ref_frame_def out_def register_buffer_def ref_count_def GetNumConsumer_def consumers_of_def)
  moreover have "exchange_step ?e2 ?e3"
    using exchange_step.Deliver [of 7 5 ?e2] by simp
  moreover have "exchange_step ?e3 ref_waiting"
    using exchange_step.GiveBack [of 7 ref_frame ?e3 ?p "[ToSource ref_frame]"]
    by (simp add: ref_frame_def ref_waiting_def NotifyBufferReturned_def kv_remove_def to_source_def)
  ultimately show "exchange_step\<^sup>*\<^sup>* ?e0 ref_waiting"
    by (meson converse_rtranclp_into_rtranclp rtranclp.rtrancl_refl)
qed (simp_all add: ref_waiting_def CheckAndWaitPendingBuffers.simps)

end
