(* ===== verification/Frame_Rate_Claims.thy ===== *)
theory Frame_Rate_Claims
  imports Frame_Rate Buffer_Exchange_Claims
begin

text \<open>
  When the repeat loop of the frame rate controller ends and how many frames it sends, the bound
  on the output rate when frames are skipped, and what repeating does to the reference counts.
\<close>

section \<open>Passing a frame on\<close>

definition frames :: "frc_call list \<Rightarrow> (consumer \<times> StreamBuffer) list" where
  "frames cs = concat (map (\<lambda>c. case c of Frame k b \<Rightarrow> [(k, b)] | _ \<Rightarrow> []) cs)"

lemma frames_append [simp]: "frames (xs @ ys) = frames xs @ frames ys"
  by (simp add: frames_def)

lemma frames_Nil [simp]: "frames [] = []"
  by (simp add: frames_def)

lemma frames_Frame [simp]: "frames (Frame k b # cs) = (k, b) # frames cs"
  by (simp add: frames_def)

lemma frames_returned [simp]: "frames [NotifyBufferReturned b f] = []"
  by (simp add: frames_def NotifyBufferReturned_def)

lemma Returned_consumers: "buffer_consumers (fst (Buffer_Exchange.NotifyBufferReturned b p)) = buffer_consumers p"
  by (simp add: Buffer_Exchange.NotifyBufferReturned_def split: option.splits)

lemma deliver_consumers: "buffer_consumers (fst (deliver prompt b cs p)) = buffer_consumers p"
proof (induction cs arbitrary: p)
  case (Cons c cs)
  then show ?case using Returned_consumers [of b p] by (simp add: split_beta Let_def)
qed simp

lemma Returned_frames: "frames (frc_calls f (snd (Buffer_Exchange.NotifyBufferReturned b p))) = []"
  by (simp add: frc_calls_def Buffer_Exchange.NotifyBufferReturned_def split: option.splits)

lemma deliver_frames: "frames (frc_calls f (snd (deliver prompt b cs p))) = map (\<lambda>c. (c, b)) cs"
proof (induction cs arbitrary: p)
  case (Cons c cs)
  then show ?case using Returned_frames [of f b p]
    by (simp add: split_beta Let_def frc_calls_def)
qed (simp add: frc_calls_def)

definition outputs :: "frc \<Rightarrow> consumer list" where
  "outputs f = consumers_of (buffer_producer f)"

lemma pass_on_frames: "frames (fst (pass_on prompt b f)) = map (\<lambda>c. (c, b)) (outputs f)"
  using deliver_frames [of f prompt b "outputs f" "register_buffer b (buffer_producer f)"]
  by (auto simp: pass_on_def NotifyBuffer_def outputs_def consumers_of_def split_beta frc_calls_def)

text \<open>Only the table of references changes.\<close>

lemma pass_on_state: "\<exists>p. snd (pass_on prompt b f) = f\<lparr>buffer_producer := p\<rparr> \<and> consumers_of p = outputs f"
proof -
  have "consumers_of (fst (NotifyBuffer prompt b (buffer_producer f))) = outputs f"
    using deliver_consumers [of prompt b "outputs f" "register_buffer b (buffer_producer f)"]
    by (simp add: NotifyBuffer_def outputs_def consumers_of_def register_buffer_def)
  then show ?thesis by (auto simp: pass_on_def split_beta)
qed

section \<open>The repeat loop\<close>

abbreviation (input) lag :: "StreamBuffer \<Rightarrow> frc \<Rightarrow> int" where
  "lag b f \<equiv> b_timestamp b - expected_output_ts f"

text \<open>One iteration.\<close>

definition repeat_once :: "(consumer \<Rightarrow> StreamBuffer \<Rightarrow> bool) \<Rightarrow> StreamBuffer \<Rightarrow> frc \<Rightarrow> frc" where
  "repeat_once prompt b f =
     (let f1 = snd (pass_on prompt b f)
      in f1\<lparr>expected_output_ts := expected_output_ts f1 + output_frame_interval f1,
            output_frame_count := output_frame_count f1 + 1\<rparr>)"

lemma repeat_once_simps [simp]:
  "output_frame_interval (repeat_once prompt b f) = output_frame_interval f"
  "expected_output_ts (repeat_once prompt b f) = expected_output_ts f + output_frame_interval f"
  "input_frame_interval (repeat_once prompt b f) = input_frame_interval f"
  "outputs (repeat_once prompt b f) = outputs f"
  "has_producer (repeat_once prompt b f) = has_producer f"
  using pass_on_state [of prompt b f] by (auto simp: repeat_once_def outputs_def Let_def)

lemma RepeatLoop_step:
  "RepeatFrame b f \<Longrightarrow> RepeatLoop prompt b f =
     map_option (\<lambda>(cs, g). (fst (pass_on prompt b f) @ cs, g)) (RepeatLoop prompt b (repeat_once prompt b f))"
  by (subst RepeatLoop.simps)
    (auto simp: repeat_once_def split_beta Let_def map_option_case split: option.splits)

lemma RepeatLoop_end: "\<not> RepeatFrame b f \<Longrightarrow> RepeatLoop prompt b f = Some ([], f)"
  by (subst RepeatLoop.simps) simp

text \<open>A frame that is early by half an interval is repeated for ever.\<close>

definition runaway :: "StreamBuffer \<Rightarrow> frc \<Rightarrow> bool" where
  "runaway b f \<longleftrightarrow> input_frame_interval f \<noteq> 0 \<and> 0 < output_frame_interval f \<and>
     2 * lag b f \<le> - output_frame_interval f"

lemma runaway_step: "runaway b f \<Longrightarrow> RepeatFrame b f \<and> runaway b (repeat_once prompt b f)"
  by (auto simp: runaway_def RepeatFrame_def Let_def)

lemma RepeatLoop_Some:
  assumes "RepeatLoop prompt b f = Some r"
  shows "\<not> runaway b f"
proof (rule RepeatLoop.raw_induct [OF _ assms])
  fix L :: "(consumer \<Rightarrow> StreamBuffer \<Rightarrow> bool) \<Rightarrow> StreamBuffer \<Rightarrow> frc \<Rightarrow> (frc_call list \<times> frc) option"
  fix prompt :: "consumer \<Rightarrow> StreamBuffer \<Rightarrow> bool" and b :: StreamBuffer and f :: frc and r
  assume IH: "\<And>prompt b f r. L prompt b f = Some r \<Longrightarrow> \<not> runaway b f"
    and body: "(if RepeatFrame b f
      then let (cs, f1) = pass_on prompt b f;
               f2 = f1\<lparr>expected_output_ts := expected_output_ts f1 + output_frame_interval f1,
                       output_frame_count := output_frame_count f1 + 1\<rparr>
           in Option.bind (L prompt b f2) (\<lambda>(cs', f3). Some (cs @ cs', f3))
      else Some ([], f)) = Some r"
  show "\<not> runaway b f"
  proof
    assume "runaway b f"
    then have 1: "RepeatFrame b f" "runaway b (repeat_once prompt b f)" using runaway_step by blast+
    then obtain r1 where "L prompt b (repeat_once prompt b f) = Some r1"
      using body by (auto simp: repeat_once_def split_beta Let_def bind_eq_Some_conv)
    with 1(2) IH show False by blast
  qed
qed

lemma RepeatLoop_runaway: "runaway b f \<Longrightarrow> RepeatLoop prompt b f = None"
  using RepeatLoop_Some by (metis not_Some_eq)

text \<open>The frames sent before the one that ends the loop.\<close>

primrec repeat_times :: "nat \<Rightarrow> (consumer \<Rightarrow> StreamBuffer \<Rightarrow> bool) \<Rightarrow> StreamBuffer \<Rightarrow> frc \<Rightarrow> frc_call list \<times> frc" where
  "repeat_times 0 prompt b f = ([], f)"
| "repeat_times (Suc n) prompt b f =
     (case repeat_times n prompt b (repeat_once prompt b f) of
        (cs, g) \<Rightarrow> (fst (pass_on prompt b f) @ cs, g))"

definition repeats :: "StreamBuffer \<Rightarrow> frc \<Rightarrow> int" where
  "repeats b f = (2 * lag b f + output_frame_interval f) div (2 * output_frame_interval f)"

definition tie :: "StreamBuffer \<Rightarrow> frc \<Rightarrow> bool" where
  "tie b f \<longleftrightarrow> 2 * output_frame_interval f dvd 2 * lag b f + output_frame_interval f"

lemma repeats_once:
  assumes "0 < output_frame_interval f"
  shows "repeats b (repeat_once prompt b f) = repeats b f - 1" "tie b (repeat_once prompt b f) = tie b f"
proof -
  let ?I = "output_frame_interval f" and ?x = "2 * lag b f + output_frame_interval f"
  have e: "2 * lag b (repeat_once prompt b f) + output_frame_interval (repeat_once prompt b f) = ?x - 2 * ?I"
    by simp
  have "(?x - 2 * ?I) div (2 * ?I) = ?x div (2 * ?I) - 1"
    using assms div_mult_self4 [of "2 * ?I" "-1" ?x] by simp
  moreover have "2 * ?I dvd ?x - 2 * ?I \<longleftrightarrow> 2 * ?I dvd ?x"
    by (metis diff_add_cancel dvd_add_left_iff dvd_refl)
  ultimately show "repeats b (repeat_once prompt b f) = repeats b f - 1"
    "tie b (repeat_once prompt b f) = tie b f"
    unfolding repeats_def tie_def e by simp_all
qed

lemma RepeatFrame_iff:
  assumes "0 < output_frame_interval f" "input_frame_interval f \<noteq> 0" "\<not> runaway b f"
  shows "RepeatFrame b f \<longleftrightarrow> 0 < repeats b f" "0 \<le> repeats b f"
proof -
  let ?I = "output_frame_interval f" and ?x = "2 * lag b f + output_frame_interval f"
  have pos: "0 < ?x" using assms by (simp add: runaway_def)
  then show "0 \<le> repeats b f" unfolding repeats_def using assms(1) by (simp add: pos_imp_zdiv_nonneg_iff)
  have "0 < ?x div (2 * ?I) \<longleftrightarrow> 2 * ?I \<le> ?x"
    using assms(1) pos_imp_zdiv_pos_iff [of "2 * ?I" ?x] by simp
  moreover have "RepeatFrame b f \<longleftrightarrow> ?I \<le> 2 * lag b f"
    using assms pos by (auto simp: RepeatFrame_def Let_def abs_if)
  ultimately show "RepeatFrame b f \<longleftrightarrow> 0 < repeats b f" by (auto simp: repeats_def)
qed

text \<open>The loop returns when the frame is not early by half an interval and there is no tie.\<close>

lemma RepeatLoop_returns:
  assumes "0 < output_frame_interval f" "input_frame_interval f \<noteq> 0" "\<not> runaway b f" "\<not> tie b f"
  shows "RepeatLoop prompt b f = Some (repeat_times (nat (repeats b f)) prompt b f)"
  using assms
proof (induction "nat (repeats b f)" arbitrary: f)
  case 0
  then show ?case using RepeatFrame_iff [OF 0(2,3,4)] RepeatLoop_end by simp
next
  case (Suc n)
  let ?g = "repeat_once prompt b f"
  have r: "RepeatFrame b f" "nat (repeats b ?g) = n"
    using Suc(2) RepeatFrame_iff [OF Suc(3,4,5)] repeats_once [OF Suc(3)] by auto
  have "0 \<le> repeats b ?g" using Suc(2) repeats_once(1) [OF Suc(3), of b prompt] by simp
  then have "\<not> runaway b ?g"
    using Suc(3,6) repeats_once(2) [OF Suc(3), of b prompt] dvd_0_right
    by (auto simp: runaway_def repeats_def tie_def pos_imp_zdiv_nonneg_iff)
  with r Suc have "RepeatLoop prompt b ?g = Some (repeat_times n prompt b ?g)"
    using Suc(1) [of ?g] repeats_once(2) [OF Suc(3), of b prompt] by simp
  then show ?case using RepeatLoop_step [OF r(1), of prompt] Suc(2) [symmetric] by (simp add: split_beta)
qed

text \<open>With a tie it does not: the loop passes the frame's time by exactly half an interval.\<close>

lemma RepeatLoop_tie:
  assumes "0 < output_frame_interval f" "input_frame_interval f \<noteq> 0" "tie b f"
  shows "RepeatLoop prompt b f = None"
proof (cases "runaway b f")
  case False
  then show ?thesis using assms
  proof (induction "nat (repeats b f)" arbitrary: f)
    case 0
    let ?I = "output_frame_interval f" and ?x = "2 * lag b f + output_frame_interval f"
    have "?x div (2 * ?I) = 0" using 0 RepeatFrame_iff [OF 0(3,4,2)] by (simp add: repeats_def)
    with 0(5) have "?x = 0" unfolding tie_def by (metis dvd_div_mult_self mult_zero_left)
    with 0 show ?case by (simp add: runaway_def)
  next
    case (Suc n)
    let ?g = "repeat_once prompt b f"
    have r: "RepeatFrame b f" "nat (repeats b ?g) = n"
      using Suc(2) RepeatFrame_iff [OF Suc(4,5,3)] repeats_once [OF Suc(4)] by auto
    have "RepeatLoop prompt b ?g = None"
      using Suc(1) [of ?g] r(2) Suc(4,5,6) RepeatLoop_runaway [of b ?g] repeats_once(2) [OF Suc(4)]
      by (cases "runaway b ?g") auto
    then show ?case using RepeatLoop_step [OF r(1)] by simp
  qed
qed (rule RepeatLoop_runaway)

section \<open>A frame in repeat mode\<close>

lemma repeat_times_simps:
  "frames (fst (repeat_times n prompt b f)) = concat (replicate n (map (\<lambda>c. (c, b)) (outputs f)))"
  "expected_output_ts (snd (repeat_times n prompt b f)) = expected_output_ts f + int n * output_frame_interval f"
  "output_frame_interval (snd (repeat_times n prompt b f)) = output_frame_interval f"
  "outputs (snd (repeat_times n prompt b f)) = outputs f"
  "has_producer (snd (repeat_times n prompt b f)) = has_producer f"
  by (induction n arbitrary: f) (simp_all add: split_beta pass_on_frames algebra_simps)

text \<open>The controller repeats frames, has a rate and is past its first frame.\<close>

definition repeating :: "StreamBuffer \<Rightarrow> frc \<Rightarrow> bool" where
  "repeating b f \<longleftrightarrow> active f \<and> frame_repeat_enabled f \<and> 0 < output_frame_interval f \<and>
     previous_input_ts f \<noteq> 0 \<and> b_timestamp b \<noteq> previous_input_ts f \<and> expected_output_ts f \<noteq> 0"

lemma repeating_input:
  assumes "repeating b f"
  shows "input_frame_interval (note_input b f) \<noteq> 0" "0 < output_frame_interval (note_input b f)"
    "expected_output_ts (note_input b f) = expected_output_ts f"
    "output_frame_interval (note_input b f) = output_frame_interval f"
    "outputs (note_input b f) = outputs f" "has_producer (note_input b f) = has_producer f"
    "buffer_producer (note_input b f) = buffer_producer f"
  using assms by (simp_all add: repeating_def note_input_def Let_def outputs_def)

lemma note_output_simps:
  "outputs (note_output b f) = outputs f" "has_producer (note_output b f) = has_producer f"
  "buffer_producer (note_output b f) = buffer_producer f"
  "output_frame_interval (note_output b f) = output_frame_interval f"
  "active (note_output b f) = active f" "frame_repeat_enabled (note_output b f) = frame_repeat_enabled f"
  by (simp_all add: note_output_def Let_def outputs_def)

lemma OnFrame_repeating:
  assumes "repeating b f"
  shows "OnFrameAvailable prompt b f = (case RepeatLoop prompt b (note_input b f) of
      None \<Rightarrow> None
    | Some (cs, g) \<Rightarrow> (case pass_on prompt b (note_output b g) of (cs', h) \<Rightarrow> Some (cs @ cs', h)))"
  using assms by (auto simp: OnFrameAvailable_def repeating_def note_input_def Let_def split_beta
      split: option.splits)

text \<open>
  C17. In repeat mode \<open>OnFrameAvailable\<close> returns exactly when the frame is less than half an output
  interval early and does not fall exactly between two output times. Otherwise the loop never
  ends: it moves the expected time away from the frame, and the test uses the absolute distance.
  So frames that arrive faster than the output rate hang the thread that delivers them.
\<close>

theorem repeat_returns_iff:
  assumes "repeating b f"
  shows "OnFrameAvailable prompt b f = None \<longleftrightarrow>
    2 * (b_timestamp b - expected_output_ts f) \<le> - output_frame_interval f \<or>
    2 * output_frame_interval f dvd 2 * (b_timestamp b - expected_output_ts f) + output_frame_interval f"
proof -
  let ?g = "note_input b f"
  note g = repeating_input [OF assms]
  have "RepeatLoop prompt b ?g = None \<longleftrightarrow> runaway b ?g \<or> tie b ?g"
    using RepeatLoop_returns [OF g(2,1)] RepeatLoop_tie [OF g(2,1)] RepeatLoop_runaway
    by (metis option.distinct(1))
  then show ?thesis unfolding OnFrame_repeating [OF assms] runaway_def tie_def
    using g by (auto split: option.splits prod.splits)
qed

definition ref_frc :: frc where
  "ref_frc = FrameRateController\<lparr>active := True, frame_repeat_enabled := True, output_frame_interval := 100,
     expected_output_ts := 1100, previous_input_ts := 1000, has_producer := True,
     buffer_producer := ref_producer\<rparr>"

lemma ref_frc_repeating: "b_timestamp b \<noteq> 1000 \<Longrightarrow> repeating b ref_frc"
  by (simp add: repeating_def ref_frc_def)

lemma ref_frc_simps: "output_frame_interval ref_frc = 100" "expected_output_ts ref_frc = 1100"
  "outputs ref_frc = [7, 8]"
  by (simp_all add: ref_frc_def outputs_def consumers_of_def ref_producer_def)

theorem repeat_returns_iff_witness: "OnFrameAvailable (\<lambda>_ _. False) ref_frame ref_frc = None"
  using repeat_returns_iff [of ref_frame ref_frc] ref_frc_repeating [of ref_frame]
  by (simp add: ref_frc_simps) (simp add: ref_frame_def)

text \<open>
  C18. When it returns, every consumer gets the frame as often as output times have passed: once,
  and once more for each interval by which the frame is late, rounded to the nearest. The next
  expected output time is then between a half and one and a half intervals after the frame.
\<close>

theorem repeat_fills_gap:
  fixes f :: frc
  assumes "repeating b f" "- output_frame_interval f < 2 * (b_timestamp b - expected_output_ts f)"
    "\<not> 2 * output_frame_interval f dvd 2 * (b_timestamp b - expected_output_ts f) + output_frame_interval f"
  shows "\<exists>cs f'. OnFrameAvailable prompt b f = Some (cs, f') \<and>
    frames cs = concat (replicate (Suc (nat ((2 * (b_timestamp b - expected_output_ts f) + output_frame_interval f)
        div (2 * output_frame_interval f)))) (map (\<lambda>c. (c, b)) (outputs f))) \<and>
    output_frame_interval f < 2 * (expected_output_ts f' - b_timestamp b) \<and>
    2 * (expected_output_ts f' - b_timestamp b) < 3 * output_frame_interval f"
proof -
  let ?g = "note_input b f" and ?I = "output_frame_interval f"
  let ?x = "2 * (b_timestamp b - expected_output_ts f) + ?I"
  note g = repeating_input [OF assms(1)]
  define n where "n = nat (?x div (2 * ?I))"
  have nr: "\<not> runaway b ?g" "\<not> tie b ?g" "nat (repeats b ?g) = n"
    using assms(2,3) g by (auto simp: runaway_def tie_def repeats_def n_def)
  define h where "h = snd (repeat_times n prompt b ?g)"
  have loop: "RepeatLoop prompt b ?g = Some (repeat_times n prompt b ?g)"
    using RepeatLoop_returns [OF g(2,1) nr(1,2)] nr(3) by simp
  define r where "r = pass_on prompt b (note_output b h)"
  have run: "OnFrameAvailable prompt b f = Some (fst (repeat_times n prompt b ?g) @ fst r, snd r)"
    using loop by (simp add: OnFrame_repeating [OF assms(1)] split_beta h_def r_def)
  have fr: "frames (fst (repeat_times n prompt b ?g) @ fst r) =
      concat (replicate (Suc n) (map (\<lambda>c. (c, b)) (outputs f)))"
    using g(5) by (simp add: r_def h_def repeat_times_simps pass_on_frames note_output_simps
        replicate_append_same [symmetric] del: replicate_append_same)
  have x: "0 < ?x" "0 \<le> ?x div (2 * ?I)" using assms(1,2) by (auto simp: repeating_def pos_imp_zdiv_nonneg_iff)
  define rest where "rest = ?x mod (2 * ?I)"
  have "rest \<noteq> 0" "0 \<le> rest" "rest < 2 * ?I"
    using assms(3) g(2,4) by (auto simp: dvd_eq_mod_eq_0 rest_def)
  moreover have "2 * (int n * ?I) + rest = ?x"
    using x(2) div_mult_mod_eq [of ?x "2 * ?I"] unfolding n_def rest_def
    by (simp only: nat_0_le)
  moreover have "expected_output_ts h = expected_output_ts f + int n * ?I"
    using g(3,4) by (simp add: h_def repeat_times_simps)
  ultimately have near: "- ?I < 2 * (expected_output_ts h - b_timestamp b)"
    "2 * (expected_output_ts h - b_timestamp b) < ?I" by simp_all
  obtain p where "snd r = (note_output b h)\<lparr>buffer_producer := p\<rparr>" using pass_on_state by (metis r_def)
  moreover have "output_frame_interval h = ?I" using g(4) by (simp add: h_def repeat_times_simps)
  ultimately have "?I < 2 * (expected_output_ts (snd r) - b_timestamp b) \<and>
      2 * (expected_output_ts (snd r) - b_timestamp b) < 3 * ?I"
    using near g(2,4) by (auto simp: note_output_def Let_def)
  with run fr show ?thesis unfolding n_def [symmetric] by blast
qed

definition late_frame :: StreamBuffer where
  "late_frame = ref_frame\<lparr>b_timestamp := 1320\<rparr>"

theorem repeat_fills_gap_witness:
  "\<exists>cs f'. OnFrameAvailable (\<lambda>_ _. False) late_frame ref_frc = Some (cs, f') \<and>
    frames cs = [(7, late_frame), (8, late_frame), (7, late_frame), (8, late_frame), (7, late_frame), (8, late_frame)] \<and>
    1370 < expected_output_ts f' \<and> expected_output_ts f' < 1470"
proof -
  have ts: "b_timestamp late_frame = 1320" by (simp add: late_frame_def)
  show ?thesis
    using repeat_fills_gap [of late_frame ref_frc "\<lambda>_ _. False"] ref_frc_repeating [of late_frame]
    by (simp add: ref_frc_simps ts numeral_2_eq_2)
qed

section \<open>Repeating and returning\<close>

text \<open>Consumers that return the buffer at once: the last of them triggers the return to the source.\<close>

lemma deliver_prompt:
  assumes "kv_wf (buffers p)" "kv_find (buffers p) (b_handle b) = Some (of_nat (length cs))"
    "cs \<noteq> []" "length cs < 2 ^ 32"
  shows "deliver (\<lambda>_ _. True) b cs p =
    (p\<lparr>buffers := kv_remove (b_handle b) (buffers p)\<rparr>, map (\<lambda>c. ToConsumer c b) cs @ [ToSource b])"
  using assms
proof (induction cs arbitrary: p)
  case (Cons c cs)
  note gt = one_less_u32 [OF Cons.prems(4)]
  show ?case
  proof (cases "cs = []")
    case True
    then show ?thesis using Cons.prems by (simp add: Buffer_Exchange.NotifyBufferReturned_def)
  next
    case False
    let ?p = "p\<lparr>buffers := kv_add (b_handle b) (of_nat (length cs)) (buffers p)\<rparr>"
    have "Buffer_Exchange.NotifyBufferReturned b p = (?p, [])"
      using Cons.prems(2) gt False by (simp add: Buffer_Exchange.NotifyBufferReturned_def)
    moreover have "deliver (\<lambda>_ _. True) b cs ?p =
        (p\<lparr>buffers := kv_remove (b_handle b) (buffers p)\<rparr>, map (\<lambda>c. ToConsumer c b) cs @ [ToSource b])"
      using Cons.IH [of ?p] Cons.prems(1,4) False by (simp add: kv_remove_add)
    ultimately show ?thesis by simp
  qed
qed simp

text \<open>The buffer is not out, there are consumers, and the controller has a producer.\<close>

definition idle_buffer :: "StreamBuffer \<Rightarrow> frc \<Rightarrow> bool" where
  "idle_buffer b f \<longleftrightarrow> kv_wf (buffers (buffer_producer f)) \<and>
     kv_find (buffers (buffer_producer f)) (b_handle b) = None \<and> outputs f \<noteq> [] \<and>
     length (outputs f) < 2 ^ 32 \<and> has_producer f"

lemma pass_on_prompt:
  assumes "idle_buffer b f"
  shows "pass_on (\<lambda>_ _. True) b f = (map (\<lambda>c. Frame c b) (outputs f) @ [Upstream b], f)"
proof -
  let ?p = "buffer_producer f" and ?cs = "outputs f"
  have i: "kv_wf (buffers ?p)" "kv_find (buffers ?p) (b_handle b) = None" "buffer_consumers ?p \<noteq> []"
    "length ?cs < 2 ^ 32" "?cs \<noteq> []" "map snd (buffer_consumers ?p) = ?cs" "length (buffer_consumers ?p) = length ?cs"
    using assms by (auto simp: idle_buffer_def outputs_def consumers_of_def)
  have "NotifyBuffer (\<lambda>_ _. True) b ?p = (?p, map (\<lambda>c. ToConsumer c b) ?cs @ [ToSource b])"
    using i deliver_prompt [of "register_buffer b ?p" b ?cs]
    by (simp add: NotifyBuffer_def register_buffer_def ref_count_def GetNumConsumer_def kv_remove_add kv_remove_absent)
  then show ?thesis using assms
    by (simp add: pass_on_def frc_calls_def NotifyBufferReturned_def idle_buffer_def comp_def)
qed

lemma repeat_times_prompt:
  "idle_buffer b f \<Longrightarrow> fst (repeat_times n (\<lambda>_ _. True) b f) =
      concat (replicate n (map (\<lambda>c. Frame c b) (outputs f) @ [Upstream b])) \<and>
    idle_buffer b (snd (repeat_times n (\<lambda>_ _. True) b f))"
proof (induction n arbitrary: f)
  case (Suc n)
  have "idle_buffer b (repeat_once (\<lambda>_ _. True) b f)"
    using Suc.prems pass_on_prompt [OF Suc.prems]
    by (simp add: repeat_once_def idle_buffer_def outputs_def Let_def)
  with Suc.IH [OF this] pass_on_prompt [OF Suc.prems] show ?case by (simp add: split_beta)
qed simp

text \<open>
  A repeated frame is not kept while it is repeated: when the consumers return it at once, as
  stopped tracks do, each repetition gives the buffer back to the producer it came from, and the
  next repetition hands the consumers a buffer that the camera already owns again. The buffer is
  returned once per repetition although it was received once.
\<close>

theorem repeated_frame_used_after_return:
  fixes f :: frc
  assumes "repeating b f" "idle_buffer b f"
    "- output_frame_interval f < 2 * (b_timestamp b - expected_output_ts f)"
    "\<not> 2 * output_frame_interval f dvd 2 * (b_timestamp b - expected_output_ts f) + output_frame_interval f"
  shows "\<exists>f'. OnFrameAvailable (\<lambda>_ _. True) b f =
    Some (concat (replicate (Suc (nat ((2 * (b_timestamp b - expected_output_ts f) + output_frame_interval f)
        div (2 * output_frame_interval f)))) (map (\<lambda>c. Frame c b) (outputs f) @ [Upstream b])), f')"
proof -
  let ?g = "note_input b f" and ?pr = "\<lambda>_ _. True"
  note g = repeating_input [OF assms(1)]
  define n where "n = nat (repeats b ?g)"
  have n: "n = nat ((2 * (b_timestamp b - expected_output_ts f) + output_frame_interval f) div
      (2 * output_frame_interval f))"
    using g by (simp add: n_def repeats_def)
  have "\<not> runaway b ?g" "\<not> tie b ?g" using assms(3,4) g by (auto simp: runaway_def tie_def)
  then have loop: "RepeatLoop ?pr b ?g = Some (repeat_times n ?pr b ?g)"
    using RepeatLoop_returns [OF g(2,1)] n_def by simp
  have "idle_buffer b ?g" using assms(2) g by (simp add: idle_buffer_def)
  note times = repeat_times_prompt [OF this, of n]
  define h where "h = note_output b (snd (repeat_times n ?pr b ?g))"
  have "idle_buffer b h" using times by (simp add: h_def idle_buffer_def note_output_simps)
  then have "pass_on ?pr b h = (map (\<lambda>c. Frame c b) (outputs f) @ [Upstream b], h)"
    using pass_on_prompt [of b h] g(5) by (simp add: h_def note_output_simps repeat_times_simps)
  then have "OnFrameAvailable ?pr b f = Some (fst (repeat_times n ?pr b ?g) @
      map (\<lambda>c. Frame c b) (outputs f) @ [Upstream b], h)"
    using loop by (simp add: OnFrame_repeating [OF assms(1)] split_beta h_def)
  moreover have "fst (repeat_times n ?pr b ?g) @ map (\<lambda>c. Frame c b) (outputs f) @ [Upstream b] =
      concat (replicate (Suc n) (map (\<lambda>c. Frame c b) (outputs f) @ [Upstream b]))"
    using times g(5) by (simp add: replicate_append_same [symmetric] del: replicate_append_same)
  ultimately show ?thesis unfolding n [symmetric] by simp
qed

theorem repeated_frame_used_after_return_witness:
  "\<exists>f'. OnFrameAvailable (\<lambda>_ _. True) late_frame ref_frc =
    Some ([Frame 7 late_frame, Frame 8 late_frame, Upstream late_frame, Frame 7 late_frame, Frame 8 late_frame,
      Upstream late_frame, Frame 7 late_frame, Frame 8 late_frame, Upstream late_frame], f')"
proof -
  have ts: "b_timestamp late_frame = 1320" by (simp add: late_frame_def)
  have "idle_buffer late_frame ref_frc"
    by (simp add: idle_buffer_def ref_frc_def outputs_def consumers_of_def ref_producer_def)
  then show ?thesis
    using repeated_frame_used_after_return [of late_frame ref_frc] ref_frc_repeating [of late_frame]
    by (simp add: ref_frc_simps ts numeral_2_eq_2)
qed

section \<open>Single precision\<close>

lemma bit_length_bounds: "n \<noteq> 0 \<Longrightarrow> 2 ^ (bit_length n - 1) \<le> n"
proof (induction n rule: bit_length.induct)
  case (1 n)
  show ?case
  proof (cases "n div 2 = 0")
    case True
    then show ?thesis using 1(2) by (simp add: bit_length.simps [of n] bit_length.simps [of 0])
  next
    case False
    then have "2 ^ (bit_length (n div 2) - 1) \<le> n div 2" "bit_length (n div 2) = Suc (bit_length (n div 2) - 1)"
      using 1 by (auto simp: bit_length.simps [of "n div 2"])
    then have "2 * 2 ^ (bit_length (n div 2) - 1) \<le> n" by simp
    then show ?thesis using 1(2) \<open>bit_length (n div 2) = _\<close>
      by (subst bit_length.simps) (metis diff_Suc_1 power_Suc)
  qed
qed

text \<open>Rounding adds at most one part in \<open>2 ^ 23\<close>.\<close>

lemma round24_le: "2 ^ 23 * round24 n \<le> (2 ^ 23 + 1) * n"
proof (cases "bit_length n \<le> 24")
  case True
  then show ?thesis by (simp add: round24_def)
next
  case False
  define e where "e = bit_length n - 24"
  define q where "q = n div 2 ^ e"
  have "n \<noteq> 0" using False by (cases "n = 0") (simp_all add: bit_length.simps [of 0])
  then have "2 ^ (23 + e) \<le> n" using bit_length_bounds [of n] False by (simp add: e_def)
  then have q: "2 ^ 23 \<le> q" unfolding q_def by (simp add: power_add less_eq_div_iff_mult_less_eq)
  have qe: "q * 2 ^ e \<le> n" by (simp add: q_def)
  have "round24 n \<le> (q + 1) * 2 ^ e"
    by (simp add: round24_def Let_def e_def [symmetric] q_def [symmetric])
  then have "2 ^ 23 * round24 n \<le> 2 ^ 23 * ((q + 1) * 2 ^ e)" by simp
  also have "\<dots> = 2 ^ 23 * (q * 2 ^ e) + 2 ^ 23 * 2 ^ e" by (simp add: algebra_simps)
  also have "\<dots> \<le> 2 ^ 23 * (q * 2 ^ e) + q * 2 ^ e" using q by simp
  also have "\<dots> = (2 ^ 23 + 1) * (q * 2 ^ e)" by (simp add: algebra_simps)
  also have "\<dots> \<le> (2 ^ 23 + 1) * n" using qe by (intro mult_left_mono) simp_all
  finally show ?thesis .
qed

lemma ts_delta_bounds:
  assumes "0 < i"
  shows "0 \<le> ts_delta i" "99 * ts_delta i \<le> i + 50"
proof -
  define n where "n = nat i"
  have i: "i = int n" using assms by (simp add: n_def)
  have "(2 ^ 23) * (2 ^ 23 * round24 (10737418 * round24 n)) \<le> (2 ^ 23 + 1) * 10737418 * ((2 ^ 23 + 1) * n)"
    using round24_le [of "10737418 * round24 n"] round24_le [of n] by simp
  then have "99 * ((round24 (10737418 * round24 n) + 2 ^ 29) div 2 ^ 30) \<le> n + 50" by simp
  then show "99 * ts_delta i \<le> i + 50" "0 \<le> ts_delta i"
    using assms by (simp_all add: ts_delta_def i)
qed

lemma half_interval_bounds: "0 < i \<Longrightarrow> half_interval i \<le> i"
proof -
  assume "0 < i"
  moreover have "(round24 (nat i) + 1) div 2 \<le> nat i" if "nat i \<noteq> 0" using round24_le [of "nat i"] that by simp
  ultimately show ?thesis by (simp add: half_interval_def)
qed

section \<open>The output rate when frames are skipped\<close>

text \<open>The times of the frames that a consumer has received.\<close>

definition times :: "consumer \<Rightarrow> frc_call list \<Rightarrow> int list" where
  "times c cs = map (b_timestamp \<circ> snd) (filter (\<lambda>x. fst x = c) (frames cs))"

lemma times_append [simp]: "times c (xs @ ys) = times c xs @ times c ys"
  by (simp add: times_def)

definition skipping :: "consumer \<Rightarrow> frc \<Rightarrow> bool" where
  "skipping c f \<longleftrightarrow> active f \<and> \<not> frame_repeat_enabled f \<and> 0 < output_frame_interval f \<and>
     distinct (outputs f) \<and> c \<in> set (outputs f)"

lemma times_pass_on:
  assumes "distinct (outputs f)" "c \<in> set (outputs f)"
  shows "times c (fst (pass_on prompt b f)) = [b_timestamp b]"
proof -
  have "filter (\<lambda>x. fst x = c) (map (\<lambda>c. (c, b)) cs) = (if c \<in> set cs then [(c, b)] else [])"
    if "distinct cs" for cs using that by (induction cs) auto
  with assms show ?thesis by (simp add: times_def pass_on_frames)
qed

text \<open>A frame is passed on when it is less than half an interval early, and is skipped otherwise.\<close>

lemma OnFrame_skipping:
  assumes "skipping c f" "expected_output_ts f \<noteq> 0"
  shows "\<exists>cs f'. OnFrameAvailable prompt b f = Some (cs, f') \<and> skipping c f' \<and>
    output_frame_interval f' = output_frame_interval f \<and>
    (if SkipFrame b f then times c cs = [] \<and> expected_output_ts f' = expected_output_ts f
     else times c cs = [b_timestamp b] \<and> expected_output_ts f' =
       expected_output_ts (note_output b f))"
proof -
  let ?g = "note_input b f"
  have g: "expected_output_ts ?g = expected_output_ts f" "output_frame_interval ?g = output_frame_interval f"
    "skipping c ?g" "SkipFrame b ?g = SkipFrame b f"
    using assms by (auto simp: note_input_def Let_def skipping_def outputs_def SkipFrame_def)
  obtain p where p: "snd (pass_on prompt b (note_output b ?g)) = (note_output b ?g)\<lparr>buffer_producer := p\<rparr>"
    "consumers_of p = outputs (note_output b ?g)" using pass_on_state by blast
  have o: "skipping c (note_output b ?g)" "expected_output_ts (note_output b ?g) = expected_output_ts (note_output b f)"
    using g(3) apply (simp add: skipping_def note_output_simps)
    using g(1,2) by (simp add: note_output_def Let_def)
  show ?thesis
  proof (cases "SkipFrame b f")
    case True
    then have "OnFrameAvailable prompt b f = Some ([NotifyBufferReturned b ?g], ?g)"
      using g(3,4) assms(1) by (simp add: OnFrameAvailable_def Let_def skipping_def)
    then show ?thesis using True g by (simp add: times_def)
  next
    case False
    then have "OnFrameAvailable prompt b f = Some (pass_on prompt b (note_output b ?g))"
      using g(3,4) assms(1) by (simp add: OnFrameAvailable_def Let_def skipping_def split_beta)
    moreover have "times c (fst (pass_on prompt b (note_output b ?g))) = [b_timestamp b]"
      using o(1) by (intro times_pass_on) (auto simp: skipping_def)
    moreover have "skipping c ((note_output b ?g)\<lparr>buffer_producer := p\<rparr>)"
      using o(1) p(2) by (simp add: skipping_def outputs_def)
    ultimately show ?thesis using False p(1) o(2) g(2) by (cases "pass_on prompt b (note_output b ?g)")
        (simp add: note_output_simps)
  qed
qed

definition pace :: "int \<Rightarrow> int" where
  "pace i = i - ts_delta i"

lemma note_output_pace:
  assumes "0 < output_frame_interval f"
  shows "expected_output_ts f + pace (output_frame_interval f) \<le> expected_output_ts (note_output b f)"
  using ts_delta_bounds(1) [OF assms] by (auto simp: note_output_def Let_def pace_def)

lemma pace_nonneg: "0 < i \<Longrightarrow> 0 \<le> pace i"
  using ts_delta_bounds [of i] by (simp add: pace_def)

lemma paced_run:
  assumes "skipping c f" "0 < e" "e \<le> expected_output_ts f"
  shows "\<exists>css f'. run_ops (OnFrameAvailable prompt) bs f = Some (css, f') \<and>
    (\<forall>j < length (times c (concat css)). e + int j * pace (output_frame_interval f) -
       half_interval (output_frame_interval f) \<le> times c (concat css) ! j)"
  using assms
proof (induction bs arbitrary: f e)
  case Nil
  then show ?case by (simp add: times_def)
next
  case (Cons b bs)
  let ?I = "output_frame_interval f"
  have I: "0 < ?I" "0 \<le> half_interval ?I"
    using Cons.prems(1) by (simp_all add: skipping_def half_interval_def)
  from OnFrame_skipping [OF Cons.prems(1), of prompt b] Cons.prems(2,3) obtain cs g where g:
    "OnFrameAvailable prompt b f = Some (cs, g)" "skipping c g" "output_frame_interval g = ?I"
    "if SkipFrame b f then times c cs = [] \<and> expected_output_ts g = expected_output_ts f
     else times c cs = [b_timestamp b] \<and> expected_output_ts g = expected_output_ts (note_output b f)" by auto
  define d where "d = (if SkipFrame b f then e else e + pace ?I)"
  have "0 < d" "d \<le> expected_output_ts g"
    using Cons.prems(2,3) pace_nonneg [OF I(1)] note_output_pace [OF I(1), of b] g(4) by (auto simp: d_def split: if_splits)
  from Cons.IH [OF g(2) this] g(3) obtain css f' where run:
    "run_ops (OnFrameAvailable prompt) bs g = Some (css, f')"
    "\<forall>j < length (times c (concat css)). d + int j * pace ?I - half_interval ?I \<le> times c (concat css) ! j" by auto
  have "e - half_interval ?I \<le> b_timestamp b" if "\<not> SkipFrame b f"
    using that Cons.prems(3) I(2) by (auto simp: SkipFrame_def Let_def)
  then have "\<forall>j < length (times c (concat (cs # css))). e + int j * pace ?I - half_interval ?I \<le>
      times c (concat (cs # css)) ! j"
    using g(4) run(2) by (auto simp: d_def nth_Cons algebra_simps split: if_splits nat.splits)
  with g(1) run(1) show ?case by auto
qed

text \<open>
  C19. In skip mode the output rate is bounded whatever comes in: the \<open>j\<close>-th frame a consumer gets
  (counted from 0) is not older than \<open>j\<close> output intervals after the first frame, less half an
  interval once and less at most 1/99 of an interval (and half a nanosecond) per frame, the
  correction for frames that arrive early. Every call returns.
\<close>

theorem output_rate_bounded:
  assumes "skipping c f" "expected_output_ts f = 0" "0 < b_timestamp b"
  shows "\<exists>css f'. run_ops (OnFrameAvailable prompt) (b # bs) f = Some (css, f') \<and>
    (\<forall>j < length (times c (concat css)).
       b_timestamp b + int j * (output_frame_interval f - ts_delta (output_frame_interval f)) -
         half_interval (output_frame_interval f) \<le> times c (concat css) ! j) \<and>
    99 * ts_delta (output_frame_interval f) \<le> output_frame_interval f + 50 \<and>
    half_interval (output_frame_interval f) \<le> output_frame_interval f"
proof -
  let ?f = "f\<lparr>expected_output_ts := b_timestamp b\<rparr>"
  have "note_input b f = note_input b ?f" using assms(2,3) by (simp add: note_input_def Let_def)
  then have "OnFrameAvailable prompt b f = OnFrameAvailable prompt b ?f"
    using assms(1) by (simp add: OnFrameAvailable_def Let_def skipping_def)
  then have same: "run_ops (OnFrameAvailable prompt) (b # bs) f = run_ops (OnFrameAvailable prompt) (b # bs) ?f" by simp
  have "skipping c ?f" using assms(1) by (simp add: skipping_def outputs_def)
  moreover have "0 < output_frame_interval f" using assms(1) by (simp add: skipping_def)
  ultimately show ?thesis unfolding same
    using paced_run [of c ?f "b_timestamp b" prompt "b # bs"] assms(3) ts_delta_bounds half_interval_bounds
    by (simp add: pace_def del: run_ops.simps)
qed

definition skip_frc :: frc where
  "skip_frc = snd (Start (ref_frc\<lparr>active := False, frame_repeat_enabled := False\<rparr>))"

theorem output_rate_bounded_witness:
  "\<exists>css f'. run_ops (OnFrameAvailable (\<lambda>_ _. False)) [ref_frame, late_frame] skip_frc = Some (css, f') \<and>
    99 * ts_delta 100 \<le> 150 \<and> half_interval 100 \<le> 100"
proof -
  have "skipping 7 skip_frc" "expected_output_ts skip_frc = 0" "output_frame_interval skip_frc = 100"
    by (simp_all add: skip_frc_def Start_def reset_counts_def skipping_def ref_frc_def outputs_def
        consumers_of_def ref_producer_def)
  with output_rate_bounded [of 7 skip_frc ref_frame "\<lambda>_ _. False" "[late_frame]"] show ?thesis
    by (auto simp: ref_frame_def simp del: run_ops.simps)
qed

end
