(* ===== verification/Thread_Helper.thy ===== *)
theory Thread_Helper
  imports Prelude
begin

text \<open>
  The worker threads of the program, \<^verbatim>\<open>ThreadHelper\<close>: starting, asking to exit and joining.
  Source: \<^verbatim>\<open>common/utils/qmmf_thread.{h,cc}\<close>. The public methods hold \<^verbatim>\<open>lock_\<close>, so
  one of them runs at a time, but the worker runs beside them; what is atomic is a section under
  \<^verbatim>\<open>state_lock_\<close>, a thread creation or a join. Each method is therefore a function that
  executes one such section at a program point; \<open>None\<close> is a section that has to wait.
\<close>

section \<open>State\<close>

datatype ThreadHelperState = kInactive | kActive | kToIdle | kIdle

text \<open>
  The worker: no thread (\<^verbatim>\<open>thread_\<close> is not joinable), in its loop, after the loop, ended but
  not joined.
\<close>

datatype worker = Absent | Looping | Leaving | Ended

record helper =
  th_state :: ThreadHelperState
  thread :: worker

definition ThreadHelper :: helper where
  "ThreadHelper = \<lparr>th_state = kInactive, thread = Absent\<rparr>"

definition ChangeState :: "ThreadHelperState \<Rightarrow> helper \<Rightarrow> helper" where
  "ChangeState s h = h\<lparr>th_state := s\<rparr>"

definition WaitState :: "ThreadHelperState \<Rightarrow> helper \<Rightarrow> helper option" where
  "WaitState s h = (if th_state h = s then Some h else None)"

definition GetState :: "helper \<Rightarrow> ThreadHelperState" where
  "GetState h = th_state h"

definition ExitPending :: "helper \<Rightarrow> bool" where
  "ExitPending h = (GetState h = kToIdle)"

text \<open>
  \<^verbatim>\<open>thread_.join()\<close> waits for the end of the thread; on an object without a thread it throws,
  as does the creation of a thread into an object that has one: \<open>Abnormal\<close>.
\<close>

datatype point = Enter | Wait | Mark | Join | Reset | Create | Started | Return int | Abnormal

definition join_thread :: "point \<Rightarrow> helper \<Rightarrow> (point \<times> helper) option" where
  "join_thread next h =
     (case thread h of
        Absent \<Rightarrow> Some (Abnormal, h)
      | Ended \<Rightarrow> Some (next, h\<lparr>thread := Absent\<rparr>)
      | _ \<Rightarrow> None)"

section \<open>The methods\<close>

text \<open>\<open>Run\<close>; \<open>ok\<close> tells whether the thread can be created.\<close>

fun Run :: "bool \<Rightarrow> point \<Rightarrow> helper \<Rightarrow> (point \<times> helper) option" where
  "Run ok Enter h =
     (case GetState h of
        kActive \<Rightarrow> Some (Return (- EALREADY), h)
      | kToIdle \<Rightarrow> Some (Wait, h)
      | kIdle \<Rightarrow> Some (Join, h)
      | kInactive \<Rightarrow> Some (Create, h))"
| "Run ok Wait h = map_option (\<lambda>h. (Join, h)) (WaitState kIdle h)"
| "Run ok Join h = join_thread Reset h"
| "Run ok Reset h = Some (Create, ChangeState kInactive h)"
| "Run ok Create h =
     (if \<not> ok then Some (Return (- EINTR), h)
      else if thread h \<noteq> Absent then Some (Abnormal, h)
      else Some (Started, h\<lparr>thread := Looping\<rparr>))"
| "Run ok Started h = Some (Return 0, ChangeState kActive h)"
| "Run ok _ h = None"

fun RequestExit :: "point \<Rightarrow> helper \<Rightarrow> (point \<times> helper) option" where
  "RequestExit Enter h = (case GetState h of kActive \<Rightarrow> Some (Mark, h) | _ \<Rightarrow> Some (Return 0, h))"
| "RequestExit Mark h = Some (Return 0, ChangeState kToIdle h)"
| "RequestExit _ h = None"

fun RequestExitAndWait :: "point \<Rightarrow> helper \<Rightarrow> (point \<times> helper) option" where
  "RequestExitAndWait Enter h =
     (case GetState h of
        kActive \<Rightarrow> Some (Mark, h)
      | kToIdle \<Rightarrow> Some (Wait, h)
      | kIdle \<Rightarrow> Some (Join, h)
      | kInactive \<Rightarrow> Some (Return 0, h))"
| "RequestExitAndWait Mark h = Some (Join, ChangeState kToIdle h)"
| "RequestExitAndWait Wait h = map_option (\<lambda>h. (Join, h)) (WaitState kIdle h)"
| "RequestExitAndWait Join h = join_thread Reset h"
| "RequestExitAndWait Reset h = Some (Return 0, ChangeState kInactive h)"
| "RequestExitAndWait _ h = None"

text \<open>The worker: \<open>again\<close> is what \<^verbatim>\<open>ThreadLoop\<close> returns.\<close>

definition MainLoop :: "bool \<Rightarrow> helper \<Rightarrow> helper option" where
  "MainLoop again h =
     (case thread h of
        Looping \<Rightarrow> Some (if again then h else h\<lparr>thread := Leaving\<rparr>)
      | Leaving \<Rightarrow> Some ((ChangeState kIdle h)\<lparr>thread := Ended\<rparr>)
      | _ \<Rightarrow> None)"

section \<open>Interleavings\<close>

datatype request = M_Run | M_RequestExit | M_RequestExitAndWait

definition section_of :: "request \<Rightarrow> bool \<Rightarrow> point \<Rightarrow> helper \<Rightarrow> (point \<times> helper) option" where
  "section_of m ok p h =
     (case m of M_Run \<Rightarrow> Run ok p h | M_RequestExit \<Rightarrow> RequestExit p h
      | M_RequestExitAndWait \<Rightarrow> RequestExitAndWait p h)"

text \<open>A configuration: the method that holds \<^verbatim>\<open>lock_\<close> with its program point, and the helper.\<close>

type_synonym config = "(request \<times> point) option \<times> helper"

inductive thread_step :: "config \<Rightarrow> config \<Rightarrow> bool" where
  Call: "thread_step (None, h) (Some (m, Enter), h)"
| Section: "section_of m ok p h = Some (p', h') \<Longrightarrow> thread_step (Some (m, p), h) (Some (m, p'), h')"
| Leave: "thread_step (Some (m, Return r), h) (None, h)"
| Worker: "MainLoop again h = Some h' \<Longrightarrow> thread_step (c, h) (c, h')"

inductive_cases thread_stepE: "thread_step c d"

end
