(* ===== verification/Thread_Claims.thy ===== *)
theory Thread_Claims
  imports Thread_Helper
begin

text \<open>
  The life cycle of a worker thread under every interleaving with the methods of its owner.
\<close>

section \<open>The invariant\<close>

definition matching :: "helper \<Rightarrow> bool" where
  "matching h \<longleftrightarrow> (th_state h = kInactive) = (thread h = Absent)"

fun point_inv :: "request \<Rightarrow> point \<Rightarrow> helper \<Rightarrow> bool" where
  "point_inv m Enter h = matching h"
| "point_inv m Wait h = (thread h \<noteq> Absent \<and> th_state h \<noteq> kInactive)"
| "point_inv m Mark h = (thread h \<noteq> Absent \<and> th_state h \<noteq> kInactive)"
| "point_inv m Join h = (thread h \<noteq> Absent \<and> th_state h \<noteq> kInactive)"
| "point_inv m Reset h = (thread h = Absent)"
| "point_inv m Create h = (thread h = Absent \<and> th_state h = kInactive)"
| "point_inv m Started h = (thread h \<noteq> Absent)"
| "point_inv m (Return r) h = (matching h \<and> (m = M_RequestExitAndWait \<longrightarrow> thread h = Absent) \<and>
     (m = M_Run \<and> r = 0 \<longrightarrow> thread h \<noteq> Absent))"
| "point_inv m Abnormal h = False"

definition thread_inv :: "config \<Rightarrow> bool" where
  "thread_inv c \<longleftrightarrow> (case fst c of None \<Rightarrow> matching (snd c) | Some (m, p) \<Rightarrow> point_inv m p (snd c))"

lemma section_inv:
  assumes "section_of m ok p h = Some (p', h')" "point_inv m p h"
  shows "point_inv m p' h'"
proof (cases m)
  case M_Run
  with assms show ?thesis
    by (cases p) (auto simp: section_of_def GetState_def WaitState_def join_thread_def ChangeState_def
        matching_def split: ThreadHelperState.splits worker.splits if_splits)
next
  case M_RequestExit
  with assms show ?thesis
    by (cases p) (auto simp: section_of_def GetState_def ChangeState_def matching_def
        split: ThreadHelperState.splits)
next
  case M_RequestExitAndWait
  with assms show ?thesis
    by (cases p) (auto simp: section_of_def GetState_def WaitState_def join_thread_def ChangeState_def
        matching_def split: ThreadHelperState.splits worker.splits if_splits)
qed

lemma worker_inv: "MainLoop again h = Some h' \<Longrightarrow> point_inv m p h \<Longrightarrow> point_inv m p h'"
  by (cases p) (auto simp: MainLoop_def ChangeState_def matching_def split: worker.splits if_splits)

lemma thread_step_inv: "thread_step c d \<Longrightarrow> thread_inv c \<Longrightarrow> thread_inv d"
proof (induction rule: thread_step.induct)
  case (Section m ok p h p' h')
  then show ?case using section_inv by (simp add: thread_inv_def)
next
  case (Worker again h h' c)
  then show ?case using worker_inv [of again h h'] worker_inv [of again h h' _ Enter]
    by (auto simp: thread_inv_def split: option.splits)
qed (auto simp: thread_inv_def)

interpretation thread_sys: invariant_system "\<lambda>c. c = (None, ThreadHelper)" thread_step thread_inv
proof unfold_locales
  show "thread_inv c" if "c = (None, ThreadHelper)" for c
    using that by (simp add: thread_inv_def matching_def ThreadHelper_def)
  show "thread_inv d" if "thread_inv c" "thread_step c d" for c d
    using that thread_step_inv by blast
qed

section \<open>Claims\<close>

text \<open>
  C20. However the calls of the owner and the worker interleave, a thread is never started into an
  object that has one and never joined twice (both would end the process); when
  \<open>RequestExitAndWait\<close> has returned the thread is joined, and when \<open>Run\<close> has returned 0 there is
  one.
\<close>

theorem thread_life_cycle:
  assumes "thread_step\<^sup>*\<^sup>* (None, ThreadHelper) c"
  shows "(\<forall>m h. c \<noteq> (Some (m, Abnormal), h)) \<and>
    (\<forall>r h. c = (Some (M_RequestExitAndWait, Return r), h) \<longrightarrow> thread h = Absent \<and> th_state h = kInactive) \<and>
    (\<forall>h. c = (Some (M_Run, Return 0), h) \<longrightarrow> thread h \<noteq> Absent)"
  using thread_sys.inv_reachable [OF refl assms] by (auto simp: thread_inv_def matching_def)

lemma step_Call: "thread_step\<^sup>*\<^sup>* c (None, h) \<Longrightarrow> thread_step\<^sup>*\<^sup>* c (Some (m, Enter), h)"
  by (meson Call rtranclp.rtrancl_into_rtrancl)

lemma step_Section:
  "thread_step\<^sup>*\<^sup>* c (Some (m, p), h) \<Longrightarrow> section_of m True p h = Some (p', h') \<Longrightarrow>
    thread_step\<^sup>*\<^sup>* c (Some (m, p'), h')"
  by (meson Section rtranclp.rtrancl_into_rtrancl)

lemma step_Leave: "thread_step\<^sup>*\<^sup>* c (Some (m, Return r), h) \<Longrightarrow> thread_step\<^sup>*\<^sup>* c (None, h)"
  by (meson Leave rtranclp.rtrancl_into_rtrancl)

lemma step_Worker:
  "thread_step\<^sup>*\<^sup>* c (d, h) \<Longrightarrow> MainLoop again h = Some h' \<Longrightarrow> thread_step\<^sup>*\<^sup>* c (d, h')"
  by (meson Worker rtranclp.rtrancl_into_rtrancl)

lemmas steps_simps = section_of_def GetState_def ChangeState_def MainLoop_def ThreadHelper_def

lemma run_started: "thread_step\<^sup>*\<^sup>* (None, ThreadHelper)
    (Some (M_Run, Started), \<lparr>th_state = kInactive, thread = Looping\<rparr>)"
proof -
  have "thread_step\<^sup>*\<^sup>* (None, ThreadHelper) (Some (M_Run, Enter), ThreadHelper)"
    by (intro step_Call) simp
  then have "thread_step\<^sup>*\<^sup>* (None, ThreadHelper) (Some (M_Run, Create), ThreadHelper)"
    by (rule step_Section) (simp add: steps_simps)
  then show ?thesis by (rule step_Section) (simp add: steps_simps)
qed

theorem thread_life_cycle_witness:
  "thread_step\<^sup>*\<^sup>* (None, ThreadHelper) (Some (M_Run, Return 0), \<lparr>th_state = kActive, thread = Looping\<rparr>) \<and>
   thread \<lparr>th_state = kActive, thread = Looping\<rparr> \<noteq> Absent"
proof -
  have "thread_step\<^sup>*\<^sup>* (None, ThreadHelper) (Some (M_Run, Return 0), \<lparr>th_state = kActive, thread = Looping\<rparr>)"
    using run_started by (rule step_Section) (simp add: steps_simps)
  with thread_life_cycle [OF this] show ?thesis by blast
qed

text \<open>
  The notification that the worker has ended can be lost: \<open>Run\<close> marks the helper active after
  the thread is created, so the mark can overwrite the \<open>kIdle\<close> of a worker that ended at once. A
  \<open>RequestExit\<close> then sets \<open>kToIdle\<close>, and the next \<open>RequestExitAndWait\<close> waits for a \<open>kIdle\<close> that
  nobody will set: a reachable state with no further step, in which the owner holds the lock.
\<close>

theorem exit_notification_lost:
  "\<exists>h. thread_step\<^sup>*\<^sup>* (None, ThreadHelper) (Some (M_RequestExitAndWait, Wait), h) \<and>
    thread h = Ended \<and> (\<nexists>d. thread_step (Some (M_RequestExitAndWait, Wait), h) d)"
proof -
  let ?c = "(None, ThreadHelper)" and ?h = "\<lambda>s. \<lparr>th_state = s, thread = Ended\<rparr>"
  have "thread_step\<^sup>*\<^sup>* ?c (Some (M_Run, Started), \<lparr>th_state = kInactive, thread = Leaving\<rparr>)"
    using run_started by (rule step_Worker [where again = False]) (simp add: steps_simps)
  then have "thread_step\<^sup>*\<^sup>* ?c (Some (M_Run, Started), ?h kIdle)"
    by (rule step_Worker [where again = False]) (simp add: steps_simps)
  then have "thread_step\<^sup>*\<^sup>* ?c (Some (M_Run, Return 0), ?h kActive)"
    by (rule step_Section) (simp add: steps_simps)
  then have "thread_step\<^sup>*\<^sup>* ?c (Some (M_RequestExit, Enter), ?h kActive)"
    by (intro step_Call) (rule step_Leave)
  then have "thread_step\<^sup>*\<^sup>* ?c (Some (M_RequestExit, Mark), ?h kActive)"
    by (rule step_Section) (simp add: steps_simps)
  then have "thread_step\<^sup>*\<^sup>* ?c (Some (M_RequestExit, Return 0), ?h kToIdle)"
    by (rule step_Section) (simp add: steps_simps)
  then have "thread_step\<^sup>*\<^sup>* ?c (Some (M_RequestExitAndWait, Enter), ?h kToIdle)"
    by (intro step_Call) (rule step_Leave)
  then have "thread_step\<^sup>*\<^sup>* ?c (Some (M_RequestExitAndWait, Wait), ?h kToIdle)"
    by (rule step_Section) (simp add: steps_simps)
  moreover have "\<nexists>d. thread_step (Some (M_RequestExitAndWait, Wait), ?h kToIdle) d"
    by (auto elim!: thread_stepE simp: section_of_def WaitState_def MainLoop_def)
  ultimately show ?thesis by fastforce
qed

end
