(* ===== verification/Recorder.thy ===== *)
theory Recorder
  imports Prelude "HOL-Library.Monad_Syntax"
begin

unbundle bit_operations_syntax

text \<open>
  The recorder service behind its Binder interface, \<^verbatim>\<open>RecorderImpl\<close>: clients, the cameras
  they own, their sessions with the state of each, and the tracks of a session. Source:
  \<^verbatim>\<open>recorder/src/service/qmmf_recorder_impl.{h,cc}\<close>. The camera source, the encoder core
  and their audio counterparts are other components: a call to them is an entry of the log \<open>calls\<close>,
  and its status is the environment's answer, which may depend on the calls made before. A method
  is one step; in \<open>StartSession\<close> the audio tracks, which a second thread starts, come first.
  \<open>None\<close> is a failed assertion or the use of a null pointer.
\<close>

section \<open>Data\<close>

datatype VideoFormat = kRGB | kHEVC | kAVC | kNV12 | kNV12UBWC | kJPEG | kBayerRDI8BIT
  | kBayerRDI10BIT | kBayerRDI12BIT | kBayerRDI16BIT | kBayerIdeal

datatype AudioFormat = kPCM | kAAC | kAMR | kG711 | kMP3 | kMPEGH

text \<open>The type of a track and the member of the union that goes with it.\<close>

datatype TrackType = kVideo VideoFormat | kAudio AudioFormat

record TrackInfo =
  track_id :: u32
  track_type :: TrackType

datatype ClientState = kAlive | kDead

datatype SessionState = kActive | kPause | kIdle

datatype SlaveMode = kNone | kMaster | kSlave

datatype CodecParamType = kBitRateType | kFrameRateType | kInsertIDRType | kIDRIntervalType | kCamFrameCropType
  | kMarkLtrType | kUseLtrType | kAudioEffectsParamType | kAudioVolumeParamType | kDecodeOperatingRate
  | kEnableFrameRepeat | kVQZipInfo | kJPEGQuality | kDisplayParam

text \<open>The calls that leave the recorder: to the sources and encoders, and to the clients.\<close>

datatype api = Camera_source | Encoder_core | Audio_source | Audio_encoder_core

datatype track_op = T_create "u32 option" | T_delete | T_start | T_get | T_stop bool | T_pause | T_resume | T_flush
  | T_flush_source | T_return | T_params CodecParamType | T_rate | T_repeat

datatype camera_op = C_start | C_flush_cb | C_stop | C_return_images | C_capture | C_config | C_cancel
  | C_return_image | C_set_param | C_get_param | C_default_param | C_characteristics

datatype client_event = E_opened | E_closing | E_closed | E_error | E_result | E_snapshot

datatype source_call = Track api track_op u32 | Camera camera_op u32 | Client u32 client_event u32
  | Track_data u32 TrackType u32 u32 | Track_deleted u32 u32

type_synonym TrackInfoMap = "(u32, TrackInfo) kv"
type_synonym SessionTrackMap = "(u32, TrackInfoMap) kv"

record recorder =
  unique_session_id :: u32
  sources :: bool \<comment> \<open>whether the pointers to the sources and encoders are set\<close>
  timelapse_mode :: "(u32, bool) kv"
  client_session_map :: "(u32, SessionTrackMap) kv"
  client_cameraid_map :: "(u32, (u32, bool) kv) kv"
  camera_tracks_map :: "(u32, u32 list) kv"
  client_state :: "(u32, ClientState) kv"
  sessions_state :: "(u32, SessionState) kv"
  sessions_mutex_map :: "(u32, unit) kv"
  calls :: "source_call list"

text \<open>
  The environment: whether audio is compiled in, the answers to the calls, whether the audio
  source has a track, the resolution of a video track (\<open>None\<close> for a null track source), and what
  becomes of the recorder while \<open>StopCamera\<close> waits.
\<close>

record recorder_env =
  pulse_audio :: bool
  reply :: "source_call list \<Rightarrow> source_call \<Rightarrow> int"
  has_audio_track :: "u32 \<Rightarrow> bool"
  track_size :: "u32 \<Rightarrow> (u32 \<times> u32) option"
  wait_slaves :: "recorder \<Rightarrow> recorder"

definition ask :: "recorder_env \<Rightarrow> source_call \<Rightarrow> recorder \<Rightarrow> int \<times> recorder" where
  "ask E c r = (reply E (calls r) c, r\<lparr>calls := calls r @ [c]\<rparr>)"

definition tell :: "source_call list \<Rightarrow> recorder \<Rightarrow> recorder" where
  "tell cs r = r\<lparr>calls := calls r @ cs\<rparr>"

section \<open>Construction\<close>

definition RecorderImpl :: recorder where
  "RecorderImpl = \<lparr>unique_session_id = 0, sources = False, timelapse_mode = [], client_session_map = [],
     client_cameraid_map = [], camera_tracks_map = [], client_state = [], sessions_state = [],
     sessions_mutex_map = [], calls = []\<rparr>"

text \<open>\<open>ok\<close> tells whether all sources and encoders can be created.\<close>

definition Init :: "bool \<Rightarrow> recorder \<Rightarrow> int \<times> recorder" where
  "Init ok r = (if ok then (NO_ERROR, r\<lparr>sources := True\<rparr>) else (NO_MEMORY, r))"

definition DeInit :: "recorder \<Rightarrow> int \<times> recorder" where
  "DeInit r = (NO_ERROR, r\<lparr>sources := False\<rparr>)"

section \<open>Look-ups\<close>

text \<open>The operator \<open>[]\<close> of a \<^verbatim>\<open>std::map\<close> inserts a missing key; \<open>touch\<close> is this insertion.\<close>

definition sessions_of :: "u32 \<Rightarrow> recorder \<Rightarrow> SessionTrackMap" where
  "sessions_of c r = (case kv_find (client_session_map r) c of None \<Rightarrow> [] | Some m \<Rightarrow> m)"

definition tracks_of :: "u32 \<Rightarrow> u32 \<Rightarrow> recorder \<Rightarrow> TrackInfoMap" where
  "tracks_of c s r = (case kv_find (sessions_of c r) s of None \<Rightarrow> [] | Some m \<Rightarrow> m)"

definition set_tracks :: "u32 \<Rightarrow> u32 \<Rightarrow> TrackInfoMap \<Rightarrow> recorder \<Rightarrow> recorder" where
  "set_tracks c s m r =
     r\<lparr>client_session_map := kv_add c (kv_add s m (sessions_of c r)) (client_session_map r)\<rparr>"

definition touch :: "u32 \<Rightarrow> u32 \<Rightarrow> recorder \<Rightarrow> recorder" where
  "touch c s r = set_tracks c s (tracks_of c s r) r"

definition cameras_of :: "u32 \<Rightarrow> recorder \<Rightarrow> (u32, bool) kv" where
  "cameras_of c r = (case kv_find (client_cameraid_map r) c of None \<Rightarrow> [] | Some m \<Rightarrow> m)"

definition set_cameras :: "u32 \<Rightarrow> (u32, bool) kv \<Rightarrow> recorder \<Rightarrow> recorder" where
  "set_cameras c m r = r\<lparr>client_cameraid_map := kv_add c m (client_cameraid_map r)\<rparr>"

text \<open>\<open>emplace\<close> does not replace.\<close>

definition emplace :: "'k::linorder \<Rightarrow> 'v \<Rightarrow> ('k, 'v) kv \<Rightarrow> ('k, 'v) kv" where
  "emplace k v m = (if kv_find m k = None then kv_add k v m else m)"

definition IsClientValid :: "u32 \<Rightarrow> recorder \<Rightarrow> bool" where
  "IsClientValid c r = (kv_find (client_session_map r) c \<noteq> None)"

definition IsClientAlive :: "u32 \<Rightarrow> recorder \<Rightarrow> bool \<times> recorder" where
  "IsClientAlive c r =
     (let r1 = r\<lparr>client_state := emplace c kAlive (client_state r)\<rparr>
      in (kv_find (client_state r1) c = Some kAlive, r1))"

definition IsSessionValid :: "u32 \<Rightarrow> u32 \<Rightarrow> recorder \<Rightarrow> bool" where
  "IsSessionValid c s r = (kv_find (sessions_of c r) s \<noteq> None)"

definition IsTrackValid :: "u32 \<Rightarrow> u32 \<Rightarrow> u32 \<Rightarrow> recorder \<Rightarrow> bool" where
  "IsTrackValid c s t r = (kv_find (tracks_of c s r) t \<noteq> None)"

definition IsCameraValid :: "u32 \<Rightarrow> u32 \<Rightarrow> recorder \<Rightarrow> bool \<times> recorder" where
  "IsCameraValid c cam r =
     (if IsClientValid c r
      then (kv_find (cameras_of c r) cam = Some True, set_cameras c (cameras_of c r) r) else (False, r))"

definition IsCameraOwned :: "u32 \<Rightarrow> u32 \<Rightarrow> recorder \<Rightarrow> bool" where
  "IsCameraOwned c cam r = (\<exists>p \<in> set (client_cameraid_map r). fst p \<noteq> c \<and> kv_find (snd p) cam = Some True)"

text \<open>
  The checks of the state of a session look it up with the operator \<open>[]\<close>, so a session without a
  state gets the first one of the enumeration, \<open>kActive\<close>.
\<close>

definition session_state :: "u32 \<Rightarrow> recorder \<Rightarrow> SessionState \<times> recorder" where
  "session_state s r =
     (let r1 = r\<lparr>sessions_state := emplace s kActive (sessions_state r)\<rparr>
      in (case kv_find (sessions_state r1) s of None \<Rightarrow> kActive | Some x \<Rightarrow> x, r1))"

definition ChangeSessionState :: "u32 \<Rightarrow> SessionState \<Rightarrow> recorder \<Rightarrow> recorder" where
  "ChangeSessionState s x r = r\<lparr>sessions_state := kv_add s x (sessions_state r)\<rparr>"

definition GetUniqueServiceTrackId :: "u32 \<Rightarrow> u32 \<Rightarrow> u32 \<Rightarrow> u32" where
  "GetUniqueServiceTrackId c s t = (push_bit 24 c OR push_bit 16 s) OR t"

primrec GetServiceTrackId_in :: "u32 \<Rightarrow> SessionTrackMap \<Rightarrow> u32" where
  "GetServiceTrackId_in t [] = 0"
| "GetServiceTrackId_in t (p # ps) =
     (case kv_find (snd p) t of None \<Rightarrow> GetServiceTrackId_in t ps | Some i \<Rightarrow> track_id i)"

definition GetServiceTrackId :: "u32 \<Rightarrow> u32 \<Rightarrow> recorder \<Rightarrow> u32" where
  "GetServiceTrackId c t r = GetServiceTrackId_in t (sessions_of c r)"

definition GetCameraClients :: "u32 \<Rightarrow> recorder \<Rightarrow> u32 list" where
  "GetCameraClients cam r = map fst (filter (\<lambda>p. kv_find (snd p) cam \<noteq> None) (client_cameraid_map r))"

definition encoded :: "VideoFormat \<Rightarrow> bool" where
  "encoded f = (f = kHEVC \<or> f = kAVC \<or> f = kJPEG)"

section \<open>Clients and cameras\<close>

definition RegisterClient :: "u32 \<Rightarrow> recorder \<Rightarrow> int \<times> recorder" where
  "RegisterClient c r =
     (if kv_find (client_session_map r) c \<noteq> None then (NO_ERROR, r)
      else (NO_ERROR, r\<lparr>client_session_map := kv_add c [] (client_session_map r),
                        client_state := emplace c kAlive (client_state r),
                        client_cameraid_map := emplace c [] (client_cameraid_map r)\<rparr>))"

text \<open>The notification of every client but one.\<close>

definition notify_others :: "client_event \<Rightarrow> u32 \<Rightarrow> u32 \<Rightarrow> recorder \<Rightarrow> recorder" where
  "notify_others e c cam r =
     tell (map (\<lambda>k. Client k e cam) (filter (\<lambda>k. k \<noteq> c) (kv_keys (client_cameraid_map r)))) r"

definition StartCamera :: "recorder_env \<Rightarrow> u32 \<Rightarrow> u32 \<Rightarrow> SlaveMode \<Rightarrow> recorder \<Rightarrow> (int \<times> recorder) option" where
  "StartCamera E c cam mode r =
     (if \<not> IsClientValid c r then Some (BAD_VALUE, r)
      else if mode = kSlave \<and> \<not> IsCameraOwned c cam r then Some (NAME_NOT_FOUND, r)
      else if mode = kSlave then
        Some (NO_ERROR, set_cameras c (emplace cam False (cameras_of c r)) r)
      else if IsCameraOwned c cam r then Some (INVALID_OPERATION, r)
      else
        let (valid, r1) = IsCameraValid c cam r
        in if valid then Some (INVALID_OPERATION, r1)
           else if \<not> sources r1 then None
           else
             let (ret, r2) = ask E (Camera C_start cam) r1
             in if ret \<noteq> NO_ERROR then Some (BAD_VALUE, r2)
                else
                  let r3 = notify_others E_opened c cam r2;
                      r4 = set_cameras c (emplace cam True (cameras_of c r3)) r3;
                      (ret1, r5) = ask E (Camera C_flush_cb cam) r4
                  in if ret1 \<noteq> NO_ERROR then Some (BAD_VALUE, r5) else Some (NO_ERROR, r5))"

definition no_slaves :: "u32 \<Rightarrow> recorder \<Rightarrow> bool" where
  "no_slaves cam r = (\<forall>p \<in> set (client_cameraid_map r). kv_find (snd p) cam \<noteq> Some False)"

definition StopCamera :: "recorder_env \<Rightarrow> u32 \<Rightarrow> u32 \<Rightarrow> recorder \<Rightarrow> (int \<times> recorder) option" where
  "StopCamera E c cam r =
     (if \<not> IsClientValid c r then Some (BAD_VALUE, r)
      else if IsCameraOwned c cam r then
        Some (NO_ERROR, set_cameras c (kv_remove cam (cameras_of c r)) r)
      else
        let (valid, r1) = IsCameraValid c cam r
        in if \<not> valid then Some (INVALID_OPERATION, r1)
           else if \<not> sources r1 then None
           else
             let r2 = notify_others E_closing c cam r1;
                 r3 = (if no_slaves cam r2 then r2 else wait_slaves E r2)
             in if \<not> no_slaves cam r3 then Some (TIMED_OUT, r3)
                else
                  let (ret, r4) = ask E (Camera C_stop cam) r3
                  in if ret \<noteq> NO_ERROR then Some (BAD_VALUE, r4)
                     else Some (NO_ERROR, notify_others E_closed c cam
                            (set_cameras c (kv_remove cam (cameras_of c r4)) r4)))"

section \<open>Sessions\<close>

definition CreateSession :: "u32 \<Rightarrow> recorder \<Rightarrow> int \<times> u32 option \<times> recorder" where
  "CreateSession c r =
     (if \<not> IsClientValid c r then (BAD_VALUE, None, r)
      else if \<not> sources r then (NO_INIT, None, r)
      else
        let s = unique_session_id r + 1
        in (NO_ERROR, Some s,
            r\<lparr>unique_session_id := s,
              client_session_map := kv_add c (emplace s [] (sessions_of c r)) (client_session_map r),
              sessions_state := emplace s kIdle (sessions_state r),
              sessions_mutex_map := emplace s () (sessions_mutex_map r)\<rparr>))"

definition DeleteSession :: "u32 \<Rightarrow> u32 \<Rightarrow> recorder \<Rightarrow> int \<times> recorder" where
  "DeleteSession c s r =
     (if \<not> IsClientValid c r then (BAD_VALUE, r)
      else if \<not> IsSessionValid c s r then (BAD_VALUE, r)
      else if tracks_of c s r \<noteq> [] then (INVALID_OPERATION, r)
      else
        let r1 = r\<lparr>client_session_map := kv_add c (kv_remove s (sessions_of c r)) (client_session_map r),
                   sessions_state := kv_remove s (sessions_state r),
                   sessions_mutex_map := kv_remove s (sessions_mutex_map r)\<rparr>
        in (NO_ERROR, if \<forall>p \<in> set (client_session_map r1). snd p = []
                      then r1\<lparr>unique_session_id := 0\<rparr> else r1))"

text \<open>
  The loops over the tracks of a session. An action returns its status, whether the loop is left,
  and the recorder.
\<close>

type_synonym action = "TrackInfo \<Rightarrow> recorder \<Rightarrow> int \<times> bool \<times> recorder"

primrec each_track :: "action \<Rightarrow> TrackInfo list \<Rightarrow> recorder \<Rightarrow> int \<times> recorder" where
  "each_track f [] r = (NO_ERROR, r)"
| "each_track f (t # ts) r =
     (case f t r of (ret, leave, r1) \<Rightarrow> if leave then (ret, r1) else each_track f ts r1)"

text \<open>A call for a track, and the call of the encoder when the source succeeded.\<close>

definition then_encoder :: "recorder_env \<Rightarrow> source_call \<Rightarrow> bool \<Rightarrow> source_call \<Rightarrow> recorder \<Rightarrow>
    int \<times> bool \<times> recorder" where
  "then_encoder E call enc enc_call r =
     (let (ret, r1) = ask E call r
      in if ret \<noteq> NO_ERROR then (ret, True, r1)
         else if enc then (let (ret1, r2) = ask E enc_call r1 in (ret1, ret1 \<noteq> NO_ERROR, r2))
         else (ret, False, r1))"

definition start_video :: "recorder_env \<Rightarrow> action" where
  "start_video E t r =
     (case track_type t of
        kVideo f \<Rightarrow> then_encoder E (Track Camera_source T_start (track_id t)) (encoded f)
                     (Track Encoder_core T_start (track_id t)) r
      | kAudio f \<Rightarrow> (NO_ERROR, False, r))"

text \<open>A missing track source leaves the loop without an error.\<close>

definition start_audio :: "recorder_env \<Rightarrow> action" where
  "start_audio E t r =
     (case track_type t of
        kVideo f \<Rightarrow> (NO_ERROR, False, r)
      | kAudio f \<Rightarrow>
          (let (ret, r1) = ask E (Track Audio_source T_start (track_id t)) r
           in if ret \<noteq> NO_ERROR then (ret, True, r1)
              else if f = kPCM then (ret, False, r1)
              else
                let (ret1, r2) = ask E (Track Audio_source T_get (track_id t)) r1
                in if ret1 \<noteq> NO_ERROR \<or> \<not> has_audio_track E (track_id t) then (ret1, True, r2)
                   else (let (ret2, r3) = ask E (Track Audio_encoder_core T_start (track_id t)) r2
                         in (ret2, ret2 \<noteq> NO_ERROR, r3))))"

definition stop_track :: "recorder_env \<Rightarrow> bool \<Rightarrow> action" where
  "stop_track E force t r =
     (case track_type t of
        kVideo f \<Rightarrow> then_encoder E (Track Camera_source (T_stop False) (track_id t)) (encoded f)
                     (Track Encoder_core (T_stop force) (track_id t)) r
      | kAudio f \<Rightarrow>
          if pulse_audio E
          then then_encoder E (Track Audio_source (T_stop False) (track_id t)) (f \<noteq> kPCM)
                 (Track Audio_encoder_core (T_stop False) (track_id t)) r
          else (NO_ERROR, False, r))"

definition pause_track :: "recorder_env \<Rightarrow> track_op \<Rightarrow> action" where
  "pause_track E p t r =
     (case track_type t of
        kVideo f \<Rightarrow> then_encoder E (Track Camera_source p (track_id t)) False
                     (Track Encoder_core p (track_id t)) r
      | kAudio f \<Rightarrow>
          if pulse_audio E
          then then_encoder E (Track Audio_source p (track_id t)) (f \<noteq> kPCM)
                 (Track Audio_encoder_core p (track_id t)) r
          else (NO_ERROR, False, r))"

definition session_tracks :: "u32 \<Rightarrow> u32 \<Rightarrow> recorder \<Rightarrow> TrackInfo list" where
  "session_tracks c s r = map snd (tracks_of c s r)"

definition needs_sources :: "recorder_env \<Rightarrow> TrackInfo list \<Rightarrow> bool" where
  "needs_sources E ts =
     (\<exists>t \<in> set ts. case track_type t of kVideo f \<Rightarrow> True | kAudio f \<Rightarrow> pulse_audio E)"

definition ResumeSession :: "recorder_env \<Rightarrow> u32 \<Rightarrow> u32 \<Rightarrow> recorder \<Rightarrow> (int \<times> recorder) option" where
  "ResumeSession E c s r =
     (if \<not> IsClientValid c r then Some (BAD_VALUE, r)
      else if \<not> IsSessionValid c s r then Some (BAD_VALUE, r)
      else
        let (st, r1) = session_state s r
        in if st \<noteq> kPause then Some (NO_ERROR, r1)
           else if needs_sources E (session_tracks c s r1) \<and> \<not> sources r1 then None
           else
             let (ret, r2) = each_track (pause_track E T_resume) (session_tracks c s r1) r1
             in Some (ret, if ret = NO_ERROR then ChangeSessionState s kActive r2 else r2))"

definition PauseSession :: "recorder_env \<Rightarrow> u32 \<Rightarrow> u32 \<Rightarrow> recorder \<Rightarrow> (int \<times> recorder) option" where
  "PauseSession E c s r =
     (if \<not> IsClientValid c r then Some (BAD_VALUE, r)
      else if \<not> IsSessionValid c s r then Some (BAD_VALUE, r)
      else
        let (st, r1) = session_state s r
        in if st = kPause \<or> st = kIdle then Some (NO_ERROR, r1)
           else if needs_sources E (session_tracks c s r1) \<and> \<not> sources r1 then None
           else
             let (ret, r2) = each_track (pause_track E T_pause) (rev (session_tracks c s r1)) r1
             in Some (ret, if ret = NO_ERROR then ChangeSessionState s kPause r2 else r2))"

text \<open>
  \<open>StartSession\<close> and \<open>StopSession\<close> take the mutex of the session before they check anything: for a
  session that does not exist it is a null pointer.
\<close>

definition StartSession :: "recorder_env \<Rightarrow> u32 \<Rightarrow> u32 \<Rightarrow> recorder \<Rightarrow> (int \<times> recorder) option" where
  "StartSession E c s r = do {
     let r0 = touch c s r;
     _ \<leftarrow> kv_find (sessions_mutex_map r0) s;
     if \<not> IsClientValid c r0 then Some (BAD_VALUE, r0)
     else if \<not> IsSessionValid c s r0 then Some (BAD_VALUE, r0)
     else
       (let (st, r1) = session_state s r0
        in if st = kPause then map_option (\<lambda>(ret, r2). (NO_ERROR, r2)) (ResumeSession E c s r1)
           else if st = kActive then Some (NO_ERROR, r1)
           else if needs_sources E (session_tracks c s r1) \<and> \<not> sources r1 then None
           else
             let (audio, r2) = (if pulse_audio E then each_track (start_audio E) (session_tracks c s r1) r1
                                else (NO_ERROR, r1));
                 (ret, r3) = each_track (start_video E) (session_tracks c s r1) r2
             in Some (ret, if audio = NO_ERROR \<and> ret = NO_ERROR then ChangeSessionState s kActive r3 else r3))
   }"

definition StopSession :: "recorder_env \<Rightarrow> u32 \<Rightarrow> u32 \<Rightarrow> bool \<Rightarrow> recorder \<Rightarrow> (int \<times> recorder) option" where
  "StopSession E c s force r = do {
     let r0 = touch c s r;
     _ \<leftarrow> kv_find (sessions_mutex_map r0) s;
     if \<not> IsClientValid c r0 then Some (BAD_VALUE, r0)
     else if \<not> IsSessionValid c s r0 then Some (BAD_VALUE, r0)
     else
       (let (st, r1) = session_state s r0
        in if st = kIdle then Some (NO_ERROR, r1)
           else if needs_sources E (session_tracks c s r1) \<and> \<not> sources r1 then None
           else
             let (ret, r2) = each_track (stop_track E force) (rev (session_tracks c s r1)) r1
             in Some (ret, if ret = NO_ERROR then ChangeSessionState s kIdle r2 else r2))
   }"

section \<open>Tracks\<close>

record AudioTrackCreateParam =
  a_format :: AudioFormat
  a_channels :: u32
  a_sample_rate :: u32
  a_mpegh_bit_rate :: u32

definition IsAudioTrackCreateParamValid :: "AudioTrackCreateParam \<Rightarrow> bool" where
  "IsAudioTrackCreateParamValid p =
     (a_format p = kMPEGH \<longrightarrow> a_channels p = 4 \<and> a_sample_rate p = 48000 \<and>
        (a_mpegh_bit_rate p = 307200 \<or> a_mpegh_bit_rate p = 393216 \<or> a_mpegh_bit_rate p = 524288))"

definition add_track :: "u32 \<Rightarrow> u32 \<Rightarrow> u32 \<Rightarrow> TrackInfo \<Rightarrow> recorder \<Rightarrow> recorder" where
  "add_track c s t i r = set_tracks c s (emplace t i (tracks_of c s r)) r"

definition remove_track :: "u32 \<Rightarrow> u32 \<Rightarrow> u32 \<Rightarrow> recorder \<Rightarrow> recorder" where
  "remove_track c s t r = set_tracks c s (kv_remove t (tracks_of c s r)) r"

definition CreateAudioTrack :: "recorder_env \<Rightarrow> u32 \<Rightarrow> u32 \<Rightarrow> u32 \<Rightarrow> AudioTrackCreateParam \<Rightarrow>
    recorder \<Rightarrow> (int \<times> recorder) option" where
  "CreateAudioTrack E c s t p r =
     (if \<not> IsClientValid c r then Some (BAD_VALUE, r)
      else if \<not> IsSessionValid c s r then Some (BAD_VALUE, r)
      else if IsTrackValid c s t r then Some (BAD_VALUE, r)
      else if \<not> IsAudioTrackCreateParamValid p then Some (BAD_VALUE, r)
      else
        let i = GetUniqueServiceTrackId c s t;
            info = \<lparr>track_id = i, track_type = kAudio (a_format p)\<rparr>
        in if \<not> pulse_audio E then Some (NO_ERROR, add_track c s t info r)
           else if \<not> sources r then None
           else
             let (ret, leave, r1) = then_encoder E (Track Audio_source (T_create None) i) (a_format p \<noteq> kPCM)
                                      (Track Audio_encoder_core (T_create None) i) r
             in if ret \<noteq> NO_ERROR then Some (BAD_VALUE, r1)
                else Some (NO_ERROR, add_track c s t info r1))"

definition DeleteAudioTrack :: "recorder_env \<Rightarrow> u32 \<Rightarrow> u32 \<Rightarrow> u32 \<Rightarrow> recorder \<Rightarrow> (int \<times> recorder) option" where
  "DeleteAudioTrack E c s t r =
     (if \<not> IsClientValid c r then Some (BAD_VALUE, r)
      else if \<not> IsSessionValid c s r then Some (BAD_VALUE, r)
      else case kv_find (tracks_of c s r) t of
        None \<Rightarrow> Some (BAD_VALUE, r)
      | Some info \<Rightarrow>
          if \<not> pulse_audio E then Some (NO_ERROR, remove_track c s t r)
          else if \<not> sources r \<or> track_id info = 0 then None
          else case track_type info of
            kVideo f \<Rightarrow> None
          | kAudio f \<Rightarrow>
              let (ret, leave, r1) = then_encoder E (Track Audio_source T_delete (track_id info)) (f \<noteq> kPCM)
                                       (Track Audio_encoder_core T_delete (track_id info)) r
              in if ret \<noteq> NO_ERROR then Some (ret, r1) else Some (NO_ERROR, remove_track c s t r1))"

text \<open>What the client asks of a video track, with the entries of the extra parameters.\<close>

record VideoTrackCreateParam =
  v_camera_id :: u32
  v_width :: u32
  v_height :: u32
  v_format_type :: VideoFormat
  v_source_track :: "u32 option"
  v_linked_slave :: "bool option"
  v_timelapse :: bool

text \<open>
  The search for a track to link to: among the tracks of a session first one of the same size,
  else the smallest that is larger; \<open>(found, id)\<close> is passed on from session to session.
\<close>

primrec same_size :: "recorder_env \<Rightarrow> VideoTrackCreateParam \<Rightarrow> TrackInfo list \<Rightarrow> bool \<times> u32 \<Rightarrow>
    (bool \<times> u32) option" where
  "same_size E p [] acc = Some acc"
| "same_size E p (t # ts) acc = do {
     sz \<leftarrow> track_size E (track_id t);
     if v_width p = fst sz \<and> v_height p = snd sz then Some (True, track_id t) else same_size E p ts acc
   }"

primrec larger_size :: "recorder_env \<Rightarrow> VideoTrackCreateParam \<Rightarrow> TrackInfo list \<Rightarrow> u32 \<times> u32 \<Rightarrow>
    bool \<times> u32 \<Rightarrow> (bool \<times> u32) option" where
  "larger_size E p [] best acc = Some acc"
| "larger_size E p (t # ts) best acc = do {
     sz \<leftarrow> track_size E (track_id t);
     if v_width p \<le> fst sz \<and> v_height p \<le> snd sz \<and>
        ((fst best = 0 \<or> fst sz < fst best) \<or> (snd best = 0 \<or> snd sz < snd best))
     then larger_size E p ts sz (True, track_id t) else larger_size E p ts best acc
   }"

primrec search_sessions :: "recorder_env \<Rightarrow> VideoTrackCreateParam \<Rightarrow> SessionTrackMap \<Rightarrow> bool \<times> u32 \<Rightarrow>
    (bool \<times> u32) option" where
  "search_sessions E p [] acc = Some acc"
| "search_sessions E p (m # ms) acc = do {
     a \<leftarrow> same_size E p (map snd (snd m)) acc;
     b \<leftarrow> (if fst a then Some a else larger_size E p (map snd (snd m)) (0, 0) a);
     search_sessions E p ms b
   }"

primrec search_clients :: "recorder_env \<Rightarrow> VideoTrackCreateParam \<Rightarrow> u32 list \<Rightarrow> recorder \<Rightarrow> u32 option" where
  "search_clients E p [] r = Some (- 1)"
| "search_clients E p (c # cs) r =
     (if fst (IsCameraValid c (v_camera_id p) r)
      then map_option snd (search_sessions E p (sessions_of c r) (False, - 1))
      else search_clients E p cs r)"

text \<open>Without a camera source every look at a track is the use of a null pointer.\<close>

definition FindSuitableIdForLinkedTrack :: "recorder_env \<Rightarrow> VideoTrackCreateParam \<Rightarrow> recorder \<Rightarrow> u32 option" where
  "FindSuitableIdForLinkedTrack E p r =
     search_clients (if sources r then E else E\<lparr>track_size := (\<lambda>i. None)\<rparr>) p (GetCameraClients (v_camera_id p) r) r"

text \<open>The translation of the extra parameters: the source track that is passed on, or an error.\<close>

definition link_source :: "recorder_env \<Rightarrow> u32 \<Rightarrow> VideoTrackCreateParam \<Rightarrow> recorder \<Rightarrow>
    (int + u32 option) option" where
  "link_source E c p r =
     (case v_source_track p of
        Some t \<Rightarrow> Some (Inr (Some (GetServiceTrackId c t r)))
      | None \<Rightarrow>
          if v_linked_slave p = Some True then
            (case FindSuitableIdForLinkedTrack E p r of
               None \<Rightarrow> None
             | Some i \<Rightarrow> if i \<noteq> - 1 then Some (Inr (Some i)) else Some (Inl BAD_VALUE))
          else Some (Inr None))"

definition note_camera_track :: "u32 \<Rightarrow> u32 \<Rightarrow> recorder \<Rightarrow> recorder" where
  "note_camera_track cam i r =
     r\<lparr>camera_tracks_map := kv_add cam
         (insort_insert i (case kv_find (camera_tracks_map r) cam of None \<Rightarrow> [] | Some is \<Rightarrow> is))
         (camera_tracks_map r)\<rparr>"

text \<open>
  \<open>CreateVideoTrack\<close> with extra parameters. The overload without them is the same with none of
  the entries present.
\<close>

definition CreateVideoTrack :: "recorder_env \<Rightarrow> u32 \<Rightarrow> u32 \<Rightarrow> u32 \<Rightarrow> VideoTrackCreateParam \<Rightarrow>
    recorder \<Rightarrow> (int \<times> recorder) option" where
  "CreateVideoTrack E c s t p r =
     (if \<not> IsClientValid c r then Some (BAD_VALUE, r)
      else if \<not> IsSessionValid c s r then Some (BAD_VALUE, r)
      else if IsTrackValid c s t r then Some (BAD_VALUE, r)
      else
        let i = GetUniqueServiceTrackId c s t;
            info = \<lparr>track_id = i, track_type = kVideo (v_format_type p)\<rparr>
        in do {
          link \<leftarrow> link_source E c p r;
          (case link of
             Inl e \<Rightarrow> Some (e, r)
           | Inr src \<Rightarrow>
               if \<not> sources r then None
               else
                 let (ret, leave, r1) = then_encoder E (Track Camera_source (T_create src) i) (encoded (v_format_type p))
                                          (Track Encoder_core (T_create src) i) r
                 in if ret \<noteq> NO_ERROR then Some (BAD_VALUE, r1)
                    else if encoded (v_format_type p) \<and> v_timelapse p then
                      (let (ret1, r2) = ask E (Track Encoder_core (T_params kFrameRateType) i)
                                          (r1\<lparr>timelapse_mode := emplace t True (timelapse_mode r1)\<rparr>)
                       in if ret1 \<noteq> NO_ERROR then Some (ret1, r2)
                          else Some (NO_ERROR, add_track c s t info (note_camera_track (v_camera_id p) i r2)))
                    else Some (NO_ERROR, add_track c s t info (note_camera_track (v_camera_id p) i r1)))
        })"

definition CreateVideoTrack_plain :: "recorder_env \<Rightarrow> u32 \<Rightarrow> u32 \<Rightarrow> u32 \<Rightarrow> VideoTrackCreateParam \<Rightarrow>
    recorder \<Rightarrow> (int \<times> recorder) option" where
  "CreateVideoTrack_plain E c s t p r =
     CreateVideoTrack E c s t (p\<lparr>v_source_track := None, v_linked_slave := None, v_timelapse := False\<rparr>) r"

text \<open>The entry of a camera that has the track is searched by its service id, and its client id is erased.\<close>

primrec forget_camera_track :: "u32 \<Rightarrow> u32 \<Rightarrow> (u32, u32 list) kv \<Rightarrow> (u32, u32 list) kv" where
  "forget_camera_track i t [] = []"
| "forget_camera_track i t (p # ps) =
     (if i \<in> set (snd p) then (fst p, filter (\<lambda>x. x \<noteq> t) (snd p)) # ps else p # forget_camera_track i t ps)"

definition DeleteVideoTrack :: "recorder_env \<Rightarrow> u32 \<Rightarrow> u32 \<Rightarrow> u32 \<Rightarrow> recorder \<Rightarrow> (int \<times> recorder) option" where
  "DeleteVideoTrack E c s t r =
     (if \<not> IsClientValid c r then Some (BAD_VALUE, r)
      else if \<not> IsSessionValid c s r then Some (BAD_VALUE, r)
      else case kv_find (tracks_of c s r) t of
        None \<Rightarrow> Some (BAD_VALUE, r)
      | Some info \<Rightarrow>
          (case track_type info of
             kAudio f \<Rightarrow> None
           | kVideo f \<Rightarrow>
               if \<not> sources r \<or> track_id info = 0 then None
               else
                 let (ret, leave, r1) = then_encoder E (Track Camera_source T_delete (track_id info)) (encoded f)
                                          (Track Encoder_core T_delete (track_id info)) r
                 in if ret \<noteq> NO_ERROR then Some (ret, r1)
                    else
                      let r2 = remove_track c s t
                                 (r1\<lparr>camera_tracks_map := forget_camera_track (track_id info) t (camera_tracks_map r1)\<rparr>);
                          r3 = tell [Track_deleted c t] r2
                      in Some (NO_ERROR, r3\<lparr>timelapse_mode := kv_remove t (timelapse_mode r3)\<rparr>)))"

definition ReturnTrackBuffer :: "recorder_env \<Rightarrow> u32 \<Rightarrow> u32 \<Rightarrow> u32 \<Rightarrow> recorder \<Rightarrow> (int \<times> recorder) option" where
  "ReturnTrackBuffer E c s t r =
     (if \<not> IsClientValid c r then Some (BAD_VALUE, r)
      else if \<not> IsSessionValid c s r then Some (BAD_VALUE, r)
      else case kv_find (tracks_of c s r) t of
        None \<Rightarrow> Some (BAD_VALUE, r)
      | Some info \<Rightarrow>
          let who = (case track_type info of
                       kVideo f \<Rightarrow> Some (if encoded f then Encoder_core else Camera_source)
                     | kAudio f \<Rightarrow> if \<not> pulse_audio E then None
                                   else Some (if f \<noteq> kPCM then Audio_encoder_core else Audio_source))
          in case who of
               None \<Rightarrow> Some (NO_ERROR, r)
             | Some a \<Rightarrow>
                 if \<not> sources r then None
                 else let (ret, r1) = ask E (Track a T_return (track_id info)) r
                      in if ret \<noteq> NO_ERROR then None else Some (NO_ERROR, r1))"

definition SetAudioTrackParam :: "u32 \<Rightarrow> u32 \<Rightarrow> u32 \<Rightarrow> recorder \<Rightarrow> int" where
  "SetAudioTrackParam c s t r =
     (if \<not> IsClientValid c r then BAD_VALUE
      else if \<not> IsSessionValid c s r then BAD_VALUE
      else if \<not> IsTrackValid c s t r then BAD_VALUE else NO_ERROR)"

text \<open>One call when a condition holds; an error ends the method.\<close>

definition ask_if :: "recorder_env \<Rightarrow> bool \<Rightarrow> source_call \<Rightarrow> int \<times> recorder \<Rightarrow> int \<times> recorder" where
  "ask_if E cond call x = (if fst x \<noteq> NO_ERROR \<or> \<not> cond then x else ask E call (snd x))"

definition SetVideoTrackParam :: "recorder_env \<Rightarrow> u32 \<Rightarrow> u32 \<Rightarrow> u32 \<Rightarrow> CodecParamType \<Rightarrow>
    recorder \<Rightarrow> (int \<times> recorder) option" where
  "SetVideoTrackParam E c s t ty r =
     (if \<not> IsClientValid c r then Some (BAD_VALUE, r)
      else if \<not> IsSessionValid c s r then Some (BAD_VALUE, r)
      else case kv_find (tracks_of c s r) t of
        None \<Rightarrow> Some (BAD_VALUE, r)
      | Some info \<Rightarrow>
          let r1 = r\<lparr>timelapse_mode := emplace t False (timelapse_mode r)\<rparr>;
              lapse = (kv_find (timelapse_mode r1) t = Some True)
          in if \<not> sources r1 \<and> (\<not> (lapse \<and> ty = kFrameRateType) \<or> ty = kFrameRateType) then None
             else Some
               (ask_if E (ty = kEnableFrameRepeat) (Track Camera_source T_repeat (track_id info))
                 (ask_if E (ty = kFrameRateType) (Track Camera_source T_rate (track_id info))
                   (ask_if E (\<not> (lapse \<and> ty = kFrameRateType)) (Track Encoder_core (T_params ty) (track_id info))
                     (NO_ERROR, r1)))))"

section \<open>Image capture and camera parameters\<close>

text \<open>The shape that the operations on an owned camera share.\<close>

definition on_camera :: "recorder_env \<Rightarrow> camera_op \<Rightarrow> u32 \<Rightarrow> u32 \<Rightarrow> recorder \<Rightarrow> (int \<times> recorder) option" where
  "on_camera E p c cam r =
     (if \<not> IsClientValid c r then Some (BAD_VALUE, r)
      else
        let (valid, r1) = IsCameraValid c cam r
        in if \<not> valid then Some (INVALID_OPERATION, r1)
           else if \<not> sources r1 then None
           else Some (ask E (Camera p cam) r1))"

definition CaptureImage :: "recorder_env \<Rightarrow> u32 \<Rightarrow> u32 \<Rightarrow> recorder \<Rightarrow> (int \<times> recorder) option" where
  "CaptureImage E c cam r = on_camera E C_capture c cam r"

definition ConfigImageCapture :: "recorder_env \<Rightarrow> u32 \<Rightarrow> u32 \<Rightarrow> recorder \<Rightarrow> (int \<times> recorder) option" where
  "ConfigImageCapture E c cam r = on_camera E C_config c cam r"

definition CancelCaptureImage :: "recorder_env \<Rightarrow> u32 \<Rightarrow> u32 \<Rightarrow> recorder \<Rightarrow> (int \<times> recorder) option" where
  "CancelCaptureImage E c cam r = on_camera E C_cancel c cam r"

text \<open>No check of the client or of the camera here.\<close>

definition ReturnImageCaptureBuffer :: "recorder_env \<Rightarrow> u32 \<Rightarrow> u32 \<Rightarrow> recorder \<Rightarrow> (int \<times> recorder) option" where
  "ReturnImageCaptureBuffer E c cam r =
     (if \<not> sources r then None else Some (ask E (Camera C_return_image cam) r))"

definition SetCameraParam :: "recorder_env \<Rightarrow> u32 \<Rightarrow> u32 \<Rightarrow> recorder \<Rightarrow> (int \<times> recorder) option" where
  "SetCameraParam E c cam r = on_camera E C_set_param c cam r"

definition GetCameraParam :: "recorder_env \<Rightarrow> u32 \<Rightarrow> u32 \<Rightarrow> recorder \<Rightarrow> (int \<times> recorder) option" where
  "GetCameraParam E c cam r = on_camera E C_get_param c cam r"

definition GetDefaultCaptureParam :: "recorder_env \<Rightarrow> u32 \<Rightarrow> u32 \<Rightarrow> recorder \<Rightarrow> (int \<times> recorder) option" where
  "GetDefaultCaptureParam E c cam r = on_camera E C_default_param c cam r"

definition GetCameraCharacteristics :: "recorder_env \<Rightarrow> u32 \<Rightarrow> u32 \<Rightarrow> recorder \<Rightarrow> (int \<times> recorder) option" where
  "GetCameraCharacteristics E c cam r = on_camera E C_characteristics c cam r"

section \<open>Callbacks\<close>

definition TrackBufferCb :: "recorder_env \<Rightarrow> TrackType \<Rightarrow> u32 \<Rightarrow> u32 \<Rightarrow> u32 \<Rightarrow> recorder \<Rightarrow> recorder option" where
  "TrackBufferCb E ty c s t r =
     (if \<not> IsClientValid c r then None
      else
        let (alive, r1) = IsClientAlive c r
        in if \<not> alive then map_option snd (ReturnTrackBuffer E c s t r1)
           else Some (tell [Track_data c ty s t] r1))"

definition CameraSnapshotCb :: "u32 \<Rightarrow> u32 \<Rightarrow> recorder \<Rightarrow> recorder option" where
  "CameraSnapshotCb c cam r = (if \<not> IsClientValid c r then None else Some (tell [Client c E_snapshot cam] r))"

text \<open>A flush must succeed or not find the track.\<close>

primrec flush_tracks :: "recorder_env \<Rightarrow> u32 list \<Rightarrow> recorder \<Rightarrow> recorder option" where
  "flush_tracks E [] r = Some r"
| "flush_tracks E (i # is) r =
     (if \<not> sources r then flush_tracks E is r
      else
        let (ret, r1) = ask E (Track Encoder_core T_flush i) r
        in if ret \<noteq> NO_ERROR \<and> ret \<noteq> NAME_NOT_FOUND then None
           else
             let (ret1, r2) = ask E (Track Camera_source T_flush i) r1
             in if ret1 \<noteq> NO_ERROR \<and> ret1 \<noteq> NAME_NOT_FOUND then None else flush_tracks E is r2)"

definition CameraFlushCb :: "recorder_env \<Rightarrow> u32 \<Rightarrow> recorder \<Rightarrow> recorder option" where
  "CameraFlushCb E cam r =
     (let r1 = r\<lparr>camera_tracks_map := emplace cam [] (camera_tracks_map r)\<rparr>
      in case kv_find (camera_tracks_map r1) cam of None \<Rightarrow> Some r1 | Some is \<Rightarrow> flush_tracks E is r1)"

definition tell_clients :: "client_event \<Rightarrow> u32 \<Rightarrow> recorder \<Rightarrow> recorder option" where
  "tell_clients e cam r =
     (if \<forall>c \<in> set (GetCameraClients cam r). IsClientValid c r
      then Some (tell (map (\<lambda>c. Client c e cam) (GetCameraClients cam r)) r) else None)"

definition CameraResultCb :: "u32 \<Rightarrow> recorder \<Rightarrow> recorder option" where
  "CameraResultCb cam r = tell_clients E_result cam r"

definition CameraErrorCb :: "u32 \<Rightarrow> recorder \<Rightarrow> recorder option" where
  "CameraErrorCb cam r = tell_clients E_error cam r"

section \<open>The departure of a client\<close>

primrec return_cameras :: "recorder_env \<Rightarrow> u32 list \<Rightarrow> recorder \<Rightarrow> recorder option" where
  "return_cameras E [] r = Some r"
| "return_cameras E (cam # cams) r = do {
     r1 \<leftarrow> CameraFlushCb E cam (snd (ask E (Camera C_return_images cam) r));
     return_cameras E cams r1
   }"

primrec flush_sources :: "recorder_env \<Rightarrow> TrackInfo list \<Rightarrow> recorder \<Rightarrow> recorder" where
  "flush_sources E [] r = r"
| "flush_sources E (t # ts) r =
     flush_sources E ts
       (case track_type t of
          kVideo f \<Rightarrow> snd (ask E (Track Camera_source T_flush_source (track_id t)) r)
        | kAudio f \<Rightarrow> r)"

definition ForceReturnBuffers :: "recorder_env \<Rightarrow> u32 \<Rightarrow> recorder \<Rightarrow> recorder option" where
  "ForceReturnBuffers E c r =
     (if \<not> sources r then None
      else do {
        let r0 = set_cameras c (cameras_of c r) r;
        r1 \<leftarrow> return_cameras E (kv_keys (cameras_of c r0)) r0;
        Some (flush_sources E (concat (map (\<lambda>m. rev (map snd (snd m))) (sessions_of c r1))) r1)
      })"

primrec delete_tracks :: "recorder_env \<Rightarrow> u32 \<Rightarrow> u32 \<Rightarrow> (u32 \<times> TrackInfo) list \<Rightarrow> recorder \<Rightarrow> recorder option" where
  "delete_tracks E c s [] r = Some r"
| "delete_tracks E c s (p # ps) r = do {
     r1 \<leftarrow> (case track_type (snd p) of
             kVideo f \<Rightarrow> map_option snd (DeleteVideoTrack E c s (fst p) r)
           | kAudio f \<Rightarrow> if pulse_audio E then map_option snd (DeleteAudioTrack E c s (fst p) r) else Some r);
     delete_tracks E c s ps r1
   }"

primrec delete_sessions :: "recorder_env \<Rightarrow> u32 \<Rightarrow> SessionTrackMap \<Rightarrow> recorder \<Rightarrow> recorder option" where
  "delete_sessions E c [] r = Some r"
| "delete_sessions E c (m # ms) r = do {
     (ret, r1) \<leftarrow> StopSession E c (fst m) True r;
     r2 \<leftarrow> delete_tracks E c (fst m) (rev (snd m)) r1;
     delete_sessions E c ms (snd (DeleteSession c (fst m) r2))
   }"

primrec stop_cameras :: "recorder_env \<Rightarrow> u32 \<Rightarrow> u32 list \<Rightarrow> recorder \<Rightarrow> recorder option" where
  "stop_cameras E c [] r = Some r"
| "stop_cameras E c (cam # cams) r = do { (ret, r1) \<leftarrow> StopCamera E c cam r; stop_cameras E c cams r1 }"

definition DeRegisterClient :: "recorder_env \<Rightarrow> u32 \<Rightarrow> bool \<Rightarrow> recorder \<Rightarrow> (int \<times> recorder) option" where
  "DeRegisterClient E c force r =
     (if \<not> IsClientValid c r then Some (BAD_VALUE, r)
      else if \<not> force then
        (let r0 = set_cameras c (cameras_of c r) r
         in Some (NO_ERROR, if cameras_of c r0 = []
                            then r0\<lparr>client_cameraid_map := kv_remove c (client_cameraid_map r0)\<rparr> else r0))
      else do {
        r1 \<leftarrow> ForceReturnBuffers E c (r\<lparr>client_state := kv_add c kDead (client_state r)\<rparr>);
        r2 \<leftarrow> delete_sessions E c (sessions_of c r1) r1;
        let r3 = r2\<lparr>client_session_map := kv_remove c (client_session_map r2)\<rparr>;
        let r4 = set_cameras c (cameras_of c r3) r3;
        r5 \<leftarrow> stop_cameras E c (kv_keys (cameras_of c r4)) r4;
        Some (NO_ERROR, r5\<lparr>client_cameraid_map := kv_remove c (client_cameraid_map r5),
                            client_state := kv_remove c (client_state r5)\<rparr>)
      })"

end
