(* ===== verification/Recorder_Props.thy ===== *)
theory Recorder_Props
  imports Recorder
begin

text \<open>
  The bookkeeping of the recorder service: an invariant of its maps that every method keeps, and
  what the loops over the tracks of a session call.
\<close>

section \<open>The books\<close>

text \<open>What the invariant is about; the other members do not matter to it.\<close>

definition books where
  "books r = (client_session_map r, client_cameraid_map r, sessions_state r, sessions_mutex_map r,
     unique_session_id r)"

definition owns :: "u32 \<Rightarrow> u32 \<Rightarrow> recorder \<Rightarrow> bool" where
  "owns c cam r \<longleftrightarrow> kv_find (cameras_of c r) cam = Some True"

definition recorder_inv :: "recorder \<Rightarrow> bool" where
  "recorder_inv r \<longleftrightarrow>
     kv_wf (client_session_map r) \<and> kv_wf (client_cameraid_map r) \<and> kv_wf (sessions_state r) \<and>
     kv_wf (sessions_mutex_map r) \<and> (\<forall>c. kv_wf (sessions_of c r)) \<and> (\<forall>c. kv_wf (cameras_of c r)) \<and>
     (\<forall>c s. IsSessionValid c s r \<longrightarrow> kv_find (sessions_state r) s \<noteq> None \<and>
        kv_find (sessions_mutex_map r) s \<noteq> None \<and> s \<le> unique_session_id r) \<and>
     (\<forall>c d s. IsSessionValid c s r \<longrightarrow> IsSessionValid d s r \<longrightarrow> c = d) \<and>
     (\<forall>c d cam. owns c cam r \<longrightarrow> owns d cam r \<longrightarrow> c = d)"

lemma books_inv: "books r = books r' \<Longrightarrow> recorder_inv r = recorder_inv r'"
  by (simp add: books_def recorder_inv_def sessions_of_def IsSessionValid_def owns_def cameras_of_def)

named_theorems same_books \<open>operations that do not touch the books\<close>

lemma ask_books [same_books]: "books (snd (ask E c r)) = books r"
  by (simp add: ask_def books_def)

lemma tell_books [same_books]: "books (tell cs r) = books r"
  by (simp add: tell_def books_def)

lemma notify_books [same_books]: "books (notify_others e c cam r) = books r"
  by (simp add: notify_others_def tell_books)

lemma then_encoder_books [same_books]: "books (snd (snd (then_encoder E c1 b c2 r))) = books r"
  by (simp add: then_encoder_def ask_def books_def Let_def)

lemma start_video_books [same_books]: "books (snd (snd (start_video E t r))) = books r"
  by (simp add: start_video_def then_encoder_books split: TrackType.splits)

lemma start_audio_books [same_books]: "books (snd (snd (start_audio E t r))) = books r"
  by (auto simp: start_audio_def ask_def books_def Let_def split: TrackType.splits)

lemma stop_track_books [same_books]: "books (snd (snd (stop_track E f t r))) = books r"
  by (simp add: stop_track_def then_encoder_books split: TrackType.splits)

lemma pause_track_books [same_books]: "books (snd (snd (pause_track E p t r))) = books r"
  by (simp add: pause_track_def then_encoder_books split: TrackType.splits)

lemma each_track_books:
  "(\<And>t r. books (snd (snd (f t r))) = books r) \<Longrightarrow> books (snd (each_track f ts r)) = books r"
  by (induction ts arbitrary: r) (simp_all add: split_beta)

lemma ask_if_books [same_books]: "books (snd (ask_if E b c x)) = books (snd x)"
  by (simp add: ask_if_def ask_books)

lemma books_view:
  assumes "books r' = books r"
  shows "client_session_map r' = client_session_map r" "client_cameraid_map r' = client_cameraid_map r"
    "sessions_state r' = sessions_state r" "sessions_mutex_map r' = sessions_mutex_map r"
    "unique_session_id r' = unique_session_id r" "sessions_of c r' = sessions_of c r"
    "tracks_of c s r' = tracks_of c s r" "cameras_of c r' = cameras_of c r"
    "IsSessionValid c s r' = IsSessionValid c s r" "IsClientValid c r' = IsClientValid c r"
    "owns c cam r' = owns c cam r" "session_tracks c s r' = session_tracks c s r"
  using assms by (simp_all add: books_def sessions_of_def tracks_of_def cameras_of_def
      IsSessionValid_def IsClientValid_def owns_def session_tracks_def)

section \<open>Changes of the books\<close>

lemma sessions_of_set [simp]:
  "kv_wf (client_session_map r) \<Longrightarrow> sessions_of d (set_tracks c s m r) =
     (if d = c then kv_add s m (sessions_of c r) else sessions_of d r)"
  by (simp add: set_tracks_def sessions_of_def)

lemma set_tracks_frame [simp]:
  "client_cameraid_map (set_tracks c s m r) = client_cameraid_map r"
  "sessions_state (set_tracks c s m r) = sessions_state r"
  "sessions_mutex_map (set_tracks c s m r) = sessions_mutex_map r"
  "unique_session_id (set_tracks c s m r) = unique_session_id r"
  "cameras_of d (set_tracks c s m r) = cameras_of d r" "sources (set_tracks c s m r) = sources r"
  "calls (set_tracks c s m r) = calls r" "owns d cam (set_tracks c s m r) = owns d cam r"
  "kv_wf (client_session_map r) \<Longrightarrow> kv_wf (client_session_map (set_tracks c s m r))"
  by (simp_all add: set_tracks_def cameras_of_def owns_def)

lemma inv_set_tracks:
  assumes "recorder_inv r" "IsSessionValid c s r"
  shows "recorder_inv (set_tracks c s m r)"
proof -
  let ?r = "set_tracks c s m r"
  have wf: "kv_wf (client_session_map r)" "\<And>c. kv_wf (sessions_of c r)"
    using assms(1) by (simp_all add: recorder_inv_def)
  have v: "IsSessionValid d x ?r = IsSessionValid d x r" for d x
    using wf assms(2) by (auto simp: IsSessionValid_def)
  with assms(1) wf show ?thesis unfolding recorder_inv_def v by simp
qed

lemma cameras_of_set [simp]:
  "kv_wf (client_cameraid_map r) \<Longrightarrow> cameras_of d (set_cameras c m r) = (if d = c then m else cameras_of d r)"
  by (simp add: set_cameras_def cameras_of_def)

lemma set_cameras_frame [simp]:
  "sessions_of d (set_cameras c m r) = sessions_of d r" "tracks_of d s (set_cameras c m r) = tracks_of d s r"
  "IsSessionValid d s (set_cameras c m r) = IsSessionValid d s r"
  "IsClientValid d (set_cameras c m r) = IsClientValid d r" "sources (set_cameras c m r) = sources r"
  "calls (set_cameras c m r) = calls r"
  by (simp_all add: set_cameras_def sessions_of_def tracks_of_def IsSessionValid_def IsClientValid_def)

lemma inv_set_cameras:
  assumes "recorder_inv r" "kv_wf m"
    "\<And>cam d. kv_find m cam = Some True \<Longrightarrow> d \<noteq> c \<Longrightarrow> \<not> owns d cam r"
  shows "recorder_inv (set_cameras c m r)"
proof -
  have wf: "kv_wf (client_cameraid_map r)" using assms(1) by (simp add: recorder_inv_def)
  have o: "owns d cam (set_cameras c m r) = (if d = c then kv_find m cam = Some True else owns d cam r)" for d cam
    using wf by (simp add: owns_def)
  show ?thesis unfolding recorder_inv_def o using assms wf
    by (auto simp: recorder_inv_def) (simp_all add: set_cameras_def)
qed

lemma inv_set_cameras_same: "recorder_inv r \<Longrightarrow> recorder_inv (set_cameras c (cameras_of c r) r)"
  by (rule inv_set_cameras) (auto simp: recorder_inv_def owns_def)

lemma inv_remove_camera: "recorder_inv r \<Longrightarrow> recorder_inv (set_cameras c (kv_remove cam (cameras_of c r)) r)"
  by (rule inv_set_cameras) (auto simp: recorder_inv_def owns_def split: if_splits)

lemma inv_state:
  "recorder_inv r \<Longrightarrow> kv_wf m \<Longrightarrow> (\<And>s. kv_find (sessions_state r) s \<noteq> None \<Longrightarrow> kv_find m s \<noteq> None) \<Longrightarrow>
    recorder_inv (r\<lparr>sessions_state := m\<rparr>)"
  by (auto simp: recorder_inv_def sessions_of_def IsSessionValid_def owns_def cameras_of_def)

lemma emplace_wf [simp]: "kv_wf m \<Longrightarrow> kv_wf (emplace k v m)"
  by (simp add: emplace_def)

lemma emplace_find: "kv_wf m \<Longrightarrow> kv_find (emplace k v m) x =
    (if x = k then Some (case kv_find m k of None \<Rightarrow> v | Some u \<Rightarrow> u) else kv_find m x)"
  by (auto simp: emplace_def split: option.splits)

lemma inv_ChangeSessionState: "recorder_inv r \<Longrightarrow> recorder_inv (ChangeSessionState s x r)"
  unfolding ChangeSessionState_def by (rule inv_state) (auto simp: recorder_inv_def)

lemma inv_session_state: "recorder_inv r \<Longrightarrow> recorder_inv (snd (session_state s r))"
  unfolding session_state_def Let_def snd_conv
  by (rule inv_state) (auto simp: recorder_inv_def emplace_find)

section \<open>Every method keeps the invariant\<close>

lemma then_encoder_run:
  assumes "then_encoder E c1 b c2 r = (ret, leave, r')"
  shows "books r' = books r"
  using then_encoder_books [of E c1 b c2 r] assms by simp

lemma each_track_run:
  assumes "each_track f ts r = (ret, r')" "\<And>t r. books (snd (snd (f t r))) = books r"
  shows "books r' = books r"
  using each_track_books [of f ts r] assms by simp

lemma IsCameraValid_inv: "recorder_inv r \<Longrightarrow> recorder_inv (snd (IsCameraValid c cam r))"
  by (simp add: IsCameraValid_def inv_set_cameras_same)

lemma IsCameraValid_cases:
  assumes "IsCameraValid c cam r = (v, r')" "recorder_inv r"
  shows "recorder_inv r'" "v = (IsClientValid c r \<and> owns c cam r)" "owns d x r' = owns d x r"
    "sources r' = sources r" "IsClientValid d r' = IsClientValid d r" "calls r' = calls r"
proof -
  have wf: "kv_wf (client_cameraid_map r)" using assms(2) by (simp add: recorder_inv_def)
  show "recorder_inv r'" using IsCameraValid_inv [OF assms(2), of c cam] assms(1) by simp
  show "v = (IsClientValid c r \<and> owns c cam r)" using assms(1)
    by (auto simp: IsCameraValid_def owns_def split: if_splits)
  show "owns d x r' = owns d x r" "sources r' = sources r" "IsClientValid d r' = IsClientValid d r"
    "calls r' = calls r"
    using assms(1) wf by (auto simp: IsCameraValid_def owns_def split: if_splits)
qed

lemma owned_iff: "recorder_inv r \<Longrightarrow> IsCameraOwned c cam r \<longleftrightarrow> (\<exists>d. d \<noteq> c \<and> owns d cam r)"
proof -
  assume "recorder_inv r"
  then have "distinct (kv_keys (client_cameraid_map r))" by (simp add: recorder_inv_def kv_wf_distinct)
  then have m: "(d, m) \<in> set (client_cameraid_map r) \<longleftrightarrow> kv_find (client_cameraid_map r) d = Some m" for d m by simp
  show ?thesis
  proof
    assume "IsCameraOwned c cam r"
    then obtain d m where "(d, m) \<in> set (client_cameraid_map r)" "d \<noteq> c" "kv_find m cam = Some True"
      by (auto simp: IsCameraOwned_def)
    then show "\<exists>d. d \<noteq> c \<and> owns d cam r" using m by (auto simp: owns_def cameras_of_def)
  next
    assume "\<exists>d. d \<noteq> c \<and> owns d cam r"
    then obtain d m where "d \<noteq> c" "kv_find (client_cameraid_map r) d = Some m" "kv_find m cam = Some True"
      by (auto simp: owns_def cameras_of_def split: option.splits)
    with m show "IsCameraOwned c cam r" unfolding IsCameraOwned_def by (metis fst_conv snd_conv)
  qed
qed

lemma RegisterClient_inv: "recorder_inv r \<Longrightarrow> recorder_inv (snd (RegisterClient c r))"
proof -
  assume i: "recorder_inv r"
  show ?thesis
  proof (cases "kv_find (client_session_map r) c = None")
    case False
    with i show ?thesis by (auto simp: RegisterClient_def)
  next
    case True
    let ?r = "snd (RegisterClient c r)"
    have wf: "kv_wf (client_session_map r)" "kv_wf (client_cameraid_map r)"
      using i by (simp_all add: recorder_inv_def)
    have "sessions_of d ?r = sessions_of d r" "cameras_of d ?r = cameras_of d r" for d
      using True wf by (auto simp: RegisterClient_def sessions_of_def cameras_of_def emplace_find split: option.splits)
    then show ?thesis using i True wf
      unfolding recorder_inv_def IsSessionValid_def owns_def by (simp add: RegisterClient_def)
  qed
qed

lemma StartCamera_inv:
  assumes "StartCamera E c cam mode r = Some (ret, r')" "recorder_inv r"
  shows "recorder_inv r'"
proof -
  have slave: "recorder_inv (set_cameras c (emplace cam False (cameras_of c r)) r)"
    using assms(2) by (intro inv_set_cameras)
      (auto simp: recorder_inv_def owns_def emplace_find split: option.splits if_splits)
  obtain v r1 where v: "IsCameraValid c cam r = (v, r1)" by fastforce
  note vc = IsCameraValid_cases [OF v assms(2)]
  define r2 where "r2 = snd (ask E (Camera C_start cam) r1)"
  define r3 where "r3 = notify_others E_opened c cam r2"
  define r4 where "r4 = set_cameras c (emplace cam True (cameras_of c r3)) r3"
  define r5 where "r5 = snd (ask E (Camera C_flush_cb cam) r4)"
  have b: "books r2 = books r1" "books r3 = books r1" "books r5 = books r4"
    by (simp_all add: r2_def r3_def r5_def same_books)
  have i3: "recorder_inv r2" "recorder_inv r3" using books_inv b vc(1) by metis+
  have "recorder_inv r5" if "\<not> IsCameraOwned c cam r"
  proof -
    have "\<not> owns d cam r3" if "d \<noteq> c" for d
      using that \<open>\<not> IsCameraOwned c cam r\<close> owned_iff [OF assms(2)] books_view(11) [OF b(2)] vc(3) by metis
    then have "recorder_inv r4" unfolding r4_def using i3(2)
      by (intro inv_set_cameras) (auto simp: recorder_inv_def owns_def emplace_find split: if_splits)
    then show ?thesis using books_inv b(3) by metis
  qed
  with assms(1,2) slave vc(1) i3 v show ?thesis
    by (auto simp: StartCamera_def Let_def ask_def r2_def r3_def r4_def r5_def split: if_splits)
qed

text \<open>What happens to the recorder during the wait of \<open>StopCamera\<close> is the work of other clients.\<close>

definition calm_wait :: "recorder_env \<Rightarrow> bool" where
  "calm_wait E \<longleftrightarrow> (\<forall>r. recorder_inv r \<longrightarrow> recorder_inv (wait_slaves E r))"

lemma StopCamera_inv:
  assumes "StopCamera E c cam r = Some (ret, r')" "recorder_inv r" "calm_wait E"
  shows "recorder_inv r'"
proof -
  obtain v r1 where v: "IsCameraValid c cam r = (v, r1)" by fastforce
  define r2 where "r2 = notify_others E_closing c cam r1"
  define r3 where "r3 = (if no_slaves cam r2 then r2 else wait_slaves E r2)"
  define r4 where "r4 = snd (ask E (Camera C_stop cam) r3)"
  define r5 where "r5 = set_cameras c (kv_remove cam (cameras_of c r4)) r4"
  define r6 where "r6 = notify_others E_closed c cam r5"
  have i: "recorder_inv r1" by (rule IsCameraValid_cases(1) [OF v assms(2)])
  moreover have "books r2 = books r1" "books r4 = books r3" "books r6 = books r5"
    by (simp_all add: r2_def r4_def r6_def same_books)
  ultimately have i3: "recorder_inv r3" "recorder_inv r4" "recorder_inv r6"
    using assms(3) inv_remove_camera books_inv unfolding r3_def calm_wait_def r5_def by metis+
  have s: "recorder_inv (set_cameras c (kv_remove cam (cameras_of c r)) r)" by (rule inv_remove_camera [OF assms(2)])
  from assms(1,2) s i i3 v show ?thesis
    by (auto simp: StopCamera_def Let_def split_beta r2_def [symmetric] r3_def [symmetric] r4_def [symmetric]
        r5_def [symmetric] r6_def [symmetric] simp del: set_cameras_frame split: if_splits)
qed

lemma CreateSession_inv:
  assumes "CreateSession c r = (ret, sid, r')" "recorder_inv r" "unat (unique_session_id r) + 1 < 2 ^ 32"
  shows "recorder_inv r'"
proof (cases "ret = NO_ERROR \<and> IsClientValid c r \<and> sources r")
  case False
  then show ?thesis using assms by (auto simp: CreateSession_def Let_def split: if_splits)
next
  case True
  let ?s = "unique_session_id r + 1"
  have r': "r' = r\<lparr>unique_session_id := ?s,
      client_session_map := kv_add c (emplace ?s [] (sessions_of c r)) (client_session_map r),
      sessions_state := emplace ?s kIdle (sessions_state r),
      sessions_mutex_map := emplace ?s () (sessions_mutex_map r)\<rparr>"
    using True assms(1) by (simp add: CreateSession_def Let_def)
  have wf: "kv_wf (client_session_map r)" "kv_wf (sessions_state r)" "kv_wf (sessions_mutex_map r)"
    "\<And>c. kv_wf (sessions_of c r)" "\<And>c. kv_wf (cameras_of c r)" "kv_wf (client_cameraid_map r)"
    using assms(2) by (simp_all add: recorder_inv_def)
  have lt: "unique_session_id r < ?s" using assms(3) by (simp add: word_less_nat_alt unat_word_ariths)
  have bound: "x \<le> unique_session_id r" if "IsSessionValid d x r" for d x
    using that assms(2) by (simp add: recorder_inv_def)
  then have fresh: "\<not> IsSessionValid d ?s r" for d using lt by (meson leD)
  have so: "sessions_of d r' = (if d = c then emplace ?s [] (sessions_of c r) else sessions_of d r)" for d
    using wf(1) by (simp add: r' sessions_of_def)
  have v: "IsSessionValid d x r' = (IsSessionValid d x r \<or> d = c \<and> x = ?s)" for d x
    using wf(4) by (auto simp: IsSessionValid_def so emplace_find)
  have o: "owns d cam r' = owns d cam r" "cameras_of d r' = cameras_of d r" for d cam
    by (simp_all add: owns_def cameras_of_def r')
  have "x \<le> ?s" if "IsSessionValid d x r'" for d x
  proof (cases "IsSessionValid d x r")
    case True
    then have "x \<le> unique_session_id r" by (rule bound)
    also have "\<dots> \<le> ?s" using lt by simp
    finally show ?thesis .
  qed (use that v in simp)
  moreover have "d = d'" if "IsSessionValid d x r'" "IsSessionValid d' x r'" for d d' x
    using that v fresh assms(2) unfolding recorder_inv_def by metis
  moreover have "kv_find (sessions_state r') x \<noteq> None" "kv_find (sessions_mutex_map r') x \<noteq> None"
    if "IsSessionValid d x r'" for d x
    using that assms(2) wf(2,3) unfolding v by (auto simp: r' emplace_find recorder_inv_def)
  moreover have "kv_wf (sessions_of d r')" for d using wf(4) so by simp
  ultimately show ?thesis using assms(2) wf unfolding recorder_inv_def o by (simp add: r')
qed

lemma DeleteSession_inv:
  assumes "recorder_inv r"
  shows "recorder_inv (snd (DeleteSession c s r))"
    "x \<noteq> s \<or> d \<noteq> c \<Longrightarrow> IsSessionValid d x (snd (DeleteSession c s r)) = IsSessionValid d x r"
proof -
  have wf: "kv_wf (client_session_map r)" "kv_wf (sessions_state r)" "kv_wf (sessions_mutex_map r)"
    "\<And>c. kv_wf (sessions_of c r)" "\<And>c. kv_wf (cameras_of c r)" "kv_wf (client_cameraid_map r)"
    using assms by (simp_all add: recorder_inv_def)
  let ?r = "r\<lparr>client_session_map := kv_add c (kv_remove s (sessions_of c r)) (client_session_map r),
     sessions_state := kv_remove s (sessions_state r), sessions_mutex_map := kv_remove s (sessions_mutex_map r)\<rparr>"
  have so: "sessions_of d ?r = (if d = c then kv_remove s (sessions_of c r) else sessions_of d r)" for d
    using wf(1) by (simp add: sessions_of_def)
  have v: "IsSessionValid d x ?r = (IsSessionValid d x r \<and> (d \<noteq> c \<or> x \<noteq> s))" for d x
    by (auto simp: IsSessionValid_def so)
  have o: "owns d cam ?r = owns d cam r" "cameras_of d ?r = cameras_of d r" for d cam
    by (simp_all add: owns_def cameras_of_def)
  have i: "recorder_inv ?r" if "IsSessionValid c s r"
  proof -
    have only: "x = s \<Longrightarrow> IsSessionValid d x r \<Longrightarrow> d = c" for d x
      using that assms unfolding recorder_inv_def by metis
    have "kv_find (kv_remove s (sessions_state r)) x \<noteq> None" "kv_find (kv_remove s (sessions_mutex_map r)) x \<noteq> None"
      "x \<le> unique_session_id r" if "IsSessionValid d x ?r" for d x
      using that only [of x d] assms unfolding v by (auto simp: recorder_inv_def)
    moreover have "d = d'" if "IsSessionValid d x ?r" "IsSessionValid d' x ?r" for d d' x
      using that assms unfolding v recorder_inv_def by metis
    moreover have "kv_wf (sessions_of d ?r)" for d using wf(4) so by simp
    ultimately show ?thesis using assms wf unfolding recorder_inv_def o by (simp del: kv_find_remove)
  qed
  have reset: "recorder_inv (?r\<lparr>unique_session_id := 0\<rparr>)"
    if "recorder_inv ?r" "\<forall>p \<in> set (client_session_map ?r). snd p = []"
  proof -
    have "sessions_of d ?r = []" for d
      using that(2) by (auto simp: sessions_of_def split: option.splits dest!: map_of_SomeD)
    then have "\<not> IsSessionValid d x (?r\<lparr>unique_session_id := 0\<rparr>)" for d x
      by (simp add: IsSessionValid_def sessions_of_def)
    moreover have "sessions_of d (?r\<lparr>unique_session_id := 0\<rparr>) = sessions_of d ?r"
      "cameras_of d (?r\<lparr>unique_session_id := 0\<rparr>) = cameras_of d ?r"
      "owns d cam (?r\<lparr>unique_session_id := 0\<rparr>) = owns d cam ?r" for d cam
      by (simp_all add: sessions_of_def cameras_of_def owns_def)
    ultimately show ?thesis using that(1) unfolding recorder_inv_def by simp
  qed
  show "recorder_inv (snd (DeleteSession c s r))"
    using assms i reset by (auto simp: DeleteSession_def Let_def)
  have "IsSessionValid d x (?r\<lparr>unique_session_id := 0\<rparr>) = IsSessionValid d x ?r"
    by (simp add: IsSessionValid_def sessions_of_def)
  then show "IsSessionValid d x (snd (DeleteSession c s r)) = IsSessionValid d x r" if "x \<noteq> s \<or> d \<noteq> c"
    using that v by (auto simp: DeleteSession_def Let_def)
qed

section \<open>Sessions keep the maps\<close>

text \<open>The methods that only change the state of a session.\<close>

definition same_maps :: "recorder \<Rightarrow> recorder \<Rightarrow> bool" where
  "same_maps r r' \<longleftrightarrow> (recorder_inv r \<longrightarrow> recorder_inv r') \<and>
     client_session_map r' = client_session_map r \<and> client_cameraid_map r' = client_cameraid_map r"

lemma same_maps_refl [simp]: "same_maps r r"
  by (simp add: same_maps_def)

lemma same_maps_trans: "same_maps r r1 \<Longrightarrow> same_maps r1 r2 \<Longrightarrow> same_maps r r2"
  by (simp add: same_maps_def)

lemma same_maps_books: "books r' = books r \<Longrightarrow> same_maps r r'"
  using books_inv books_view(1,2) by (metis same_maps_def)

lemma same_maps_state: "same_maps r (snd (session_state s r))"
  using inv_session_state by (simp add: same_maps_def session_state_def Let_def)

lemma same_maps_change: "same_maps r (ChangeSessionState s x r)"
  using inv_ChangeSessionState by (simp add: same_maps_def) (simp add: ChangeSessionState_def)

lemma same_maps_each:
  "(\<And>t r. books (snd (snd (f t r))) = books r) \<Longrightarrow> same_maps r (snd (each_track f ts r))"
  by (intro same_maps_books each_track_books)

lemma same_maps_session:
  assumes "session_state s r = (st, r1)" "each_track f ts r1 = (ret, r2)"
    "\<And>t r. books (snd (snd (f t r))) = books r"
  shows "same_maps r r1" "same_maps r r2" "same_maps r (ChangeSessionState s x r2)"
proof -
  show 1: "same_maps r r1" using same_maps_state [of r s] assms(1) by simp
  show 2: "same_maps r r2" using same_maps_each [where f = f and r = r1 and ts = ts, OF assms(3)] assms(2) 1 same_maps_trans by (metis snd_conv)
  show "same_maps r (ChangeSessionState s x r2)" using 2 same_maps_change same_maps_trans by blast
qed

lemma ResumeSession_maps: "ResumeSession E c s r = Some (ret, r') \<Longrightarrow> same_maps r r'"
proof -
  assume run: "ResumeSession E c s r = Some (ret, r')"
  obtain st r1 where 1: "session_state s r = (st, r1)" by fastforce
  obtain e r2 where 2: "each_track (pause_track E T_resume) (session_tracks c s r1) r1 = (e, r2)" by fastforce
  from run 1 2 same_maps_session [OF 1 2 pause_track_books] show ?thesis
    by (auto simp: ResumeSession_def split: if_splits)
qed

lemma PauseSession_maps: "PauseSession E c s r = Some (ret, r') \<Longrightarrow> same_maps r r'"
proof -
  assume run: "PauseSession E c s r = Some (ret, r')"
  obtain st r1 where 1: "session_state s r = (st, r1)" by fastforce
  obtain e r2 where 2: "each_track (pause_track E T_pause) (rev (session_tracks c s r1)) r1 = (e, r2)" by fastforce
  from run 1 2 same_maps_session [OF 1 2 pause_track_books] show ?thesis
    by (auto simp: PauseSession_def split: if_splits)
qed

lemma touch_valid: "recorder_inv r \<Longrightarrow> IsSessionValid c s r \<Longrightarrow> touch c s r = r"
proof -
  assume i: "recorder_inv r" and v: "IsSessionValid c s r"
  then have wf: "kv_wf (client_session_map r)" "kv_wf (sessions_of c r)" by (simp_all add: recorder_inv_def)
  from v obtain m where m: "kv_find (sessions_of c r) s = Some m" by (auto simp: IsSessionValid_def)
  then obtain sm where sm: "kv_find (client_session_map r) c = Some sm" "sessions_of c r = sm"
    by (auto simp: sessions_of_def split: option.splits)
  have "kv_add s m sm = sm" using kv_add_same wf(2) m sm(2) by metis
  then show ?thesis using kv_add_same [OF wf(1) sm(1)] m sm(2)
    by (simp add: touch_def set_tracks_def tracks_of_def)
qed

lemma StopSession_maps:
  assumes "StopSession E c s force r = Some (ret, r')" "recorder_inv r" "IsSessionValid c s r"
  shows "same_maps r r'"
proof -
  obtain st r1 where 1: "session_state s r = (st, r1)" by fastforce
  obtain e r2 where 2: "each_track (stop_track E force) (rev (session_tracks c s r1)) r1 = (e, r2)" by fastforce
  from assms 1 2 same_maps_session [OF 1 2 stop_track_books] touch_valid [OF assms(2,3)] show ?thesis
    by (auto simp: StopSession_def Let_def bind_eq_Some_conv split: if_splits)
qed

lemma StartSession_maps:
  assumes "StartSession E c s r = Some (ret, r')" "recorder_inv r" "IsSessionValid c s r"
  shows "same_maps r r'"
proof -
  obtain st r1 where 1: "session_state s r = (st, r1)" by fastforce
  obtain a r2 where 2: "(if pulse_audio E then each_track (start_audio E) (session_tracks c s r1) r1
      else (NO_ERROR, r1)) = (a, r2)" by fastforce
  obtain e r3 where 3: "each_track (start_video E) (session_tracks c s r1) r2 = (e, r3)" by fastforce
  have m1: "same_maps r r1" using same_maps_state [of r s] 1 by simp
  have "same_maps r1 r2"
    using 2 same_maps_each [where f = "start_audio E" and r = r1 and ts = "session_tracks c s r1", OF start_audio_books] by (auto split: if_splits)
  moreover have "same_maps r2 r3"
    using 3 same_maps_each [where f = "start_video E" and r = r2 and ts = "session_tracks c s r1", OF start_video_books] by simp
  ultimately have m: "same_maps r r3" "same_maps r (ChangeSessionState s kActive r3)"
    using m1 same_maps_trans same_maps_change by blast+
  have "same_maps r r'" if "ResumeSession E c s r1 = Some (e, r')" for e
    using that ResumeSession_maps m1 same_maps_trans by blast
  with assms 1 2 3 m m1 touch_valid [OF assms(2,3)] show ?thesis
    by (auto simp: StartSession_def Let_def bind_eq_Some_conv simp del: split_paired_Ex split: if_splits)
qed

section \<open>Tracks\<close>

definition keeps :: "recorder \<Rightarrow> recorder \<Rightarrow> bool" where
  "keeps r r' \<longleftrightarrow> (recorder_inv r \<longrightarrow> recorder_inv r' \<and> (\<forall>d x. IsSessionValid d x r' = IsSessionValid d x r))"

lemma keeps_refl [simp]: "keeps r r"
  by (simp add: keeps_def)

lemma keeps_trans: "keeps r r1 \<Longrightarrow> keeps r1 r2 \<Longrightarrow> keeps r r2"
  by (simp add: keeps_def)

lemma keeps_books: "books r' = books r \<Longrightarrow> keeps r r'"
  using books_inv books_view(9) by (metis keeps_def)

lemma keeps_maps: "same_maps r r' \<Longrightarrow> keeps r r'"
  by (simp add: keeps_def same_maps_def IsSessionValid_def sessions_of_def)

lemma keeps_set_tracks: "IsSessionValid c s r \<Longrightarrow> keeps r (set_tracks c s m r)"
proof -
  assume v: "IsSessionValid c s r"
  have "IsSessionValid d x (set_tracks c s m r) = IsSessionValid d x r" if "recorder_inv r" for d x
  proof -
    have "kv_wf (client_session_map r)" "kv_wf (sessions_of c r)" using that by (simp_all add: recorder_inv_def)
    then show ?thesis using v by (auto simp: IsSessionValid_def)
  qed
  then show ?thesis using inv_set_tracks [OF _ v] by (simp add: keeps_def)
qed

lemma books_upd [same_books]:
  "books (r\<lparr>timelapse_mode := a\<rparr>) = books r" "books (r\<lparr>camera_tracks_map := b\<rparr>) = books r"
  "books (r\<lparr>client_state := d\<rparr>) = books r" "books (r\<lparr>calls := e\<rparr>) = books r"
  "books (note_camera_track cam i r) = books r"
  by (simp_all add: books_def note_camera_track_def)

lemma keeps_track:
  assumes "books r1 = books r" "IsSessionValid c s r"
  shows "keeps r (add_track c s t i r1)" "keeps r (remove_track c s t r1)"
proof -
  have "keeps r r1" "IsSessionValid c s r1" using assms keeps_books books_view(9) by metis+
  then show "keeps r (add_track c s t i r1)" "keeps r (remove_track c s t r1)"
    unfolding add_track_def remove_track_def by (blast intro: keeps_trans keeps_set_tracks)+
qed

lemma CreateAudioTrack_keeps: "CreateAudioTrack E c s t p r = Some (ret, r') \<Longrightarrow> keeps r r'"
proof -
  assume run: "CreateAudioTrack E c s t p r = Some (ret, r')"
  let ?i = "GetUniqueServiceTrackId c s t"
  obtain e l r1 where 1: "then_encoder E (Track Audio_source (T_create None) ?i) (a_format p \<noteq> kPCM)
      (Track Audio_encoder_core (T_create None) ?i) r = (e, l, r1)" by (metis prod_cases3)
  note b = then_encoder_run [OF 1]
  from run 1 keeps_books [OF b] keeps_track(1) [OF b] keeps_track(1) [OF refl] show ?thesis
    by (auto simp: CreateAudioTrack_def Let_def split: if_splits)
qed

lemma DeleteAudioTrack_keeps: "DeleteAudioTrack E c s t r = Some (ret, r') \<Longrightarrow> keeps r r'"
proof -
  assume run: "DeleteAudioTrack E c s t r = Some (ret, r')"
  have b: "books (snd (snd (then_encoder E c1 x c2 r))) = books r" for c1 x c2 by (rule then_encoder_books)
  from run keeps_books [OF b] keeps_track(2) [OF b] keeps_track(2) [OF refl] show ?thesis
    by (auto simp: DeleteAudioTrack_def Let_def split_beta split: if_splits option.splits TrackType.splits)
qed

lemma CreateVideoTrack_keeps: "CreateVideoTrack E c s t p r = Some (ret, r') \<Longrightarrow> keeps r r'"
proof -
  assume run: "CreateVideoTrack E c s t p r = Some (ret, r')"
  let ?i = "GetUniqueServiceTrackId c s t"
  show ?thesis
  proof (cases "IsClientValid c r \<and> IsSessionValid c s r \<and> \<not> IsTrackValid c s t r")
    case False
    with run show ?thesis by (auto simp: CreateVideoTrack_def split: if_splits)
  next
    case True
    then have v: "IsSessionValid c s r" by simp
    from run True obtain link where l: "link_source E c p r = Some link"
      by (cases "link_source E c p r") (auto simp: CreateVideoTrack_def Let_def)
    show ?thesis
    proof (cases link)
      case (Inl e)
      with run True l show ?thesis by (simp add: CreateVideoTrack_def Let_def)
    next
      case (Inr src)
      obtain e lv r1 where 1: "then_encoder E (Track Camera_source (T_create src) ?i) (encoded (v_format_type p))
          (Track Encoder_core (T_create src) ?i) r = (e, lv, r1)" by (metis prod_cases3)
      obtain e2 r2 where 2: "ask E (Track Encoder_core (T_params kFrameRateType) ?i)
          (r1\<lparr>timelapse_mode := emplace t True (timelapse_mode r1)\<rparr>) = (e2, r2)" by fastforce
      have b1: "books r1 = books r" by (rule then_encoder_run [OF 1])
      moreover have "books r2 = books r1"
        using ask_books [of E _ "r1\<lparr>timelapse_mode := emplace t True (timelapse_mode r1)\<rparr>"] 2
        by (metis books_upd(1) snd_conv)
      ultimately have b: "books r2 = books r" "books (note_camera_track cam i r1) = books r"
        "books (note_camera_track cam i r2) = books r" for cam i by (simp_all add: books_upd(5))
      from run True l Inr 1 2 keeps_books [OF b1] keeps_books [OF b(1)] keeps_track(1) [OF b(2) v]
        keeps_track(1) [OF b(3) v] show ?thesis
        by (auto simp: CreateVideoTrack_def Let_def split: if_splits)
    qed
  qed
qed

lemma DeleteVideoTrack_keeps: "DeleteVideoTrack E c s t r = Some (ret, r') \<Longrightarrow> keeps r r'"
proof -
  assume run: "DeleteVideoTrack E c s t r = Some (ret, r')"
  have b: "books (snd (snd (then_encoder E c1 x c2 r))) = books r" for c1 x c2 by (rule then_encoder_books)
  have b1: "books (snd (snd (then_encoder E c1 x c2 r))\<lparr>camera_tracks_map := m\<rparr>) = books r" for c1 x c2 m
    using b by (simp add: same_books)
  have u: "keeps r g \<Longrightarrow> keeps r (tell cs g\<lparr>timelapse_mode := k\<rparr>)" for g cs k
    using keeps_trans [OF _ keeps_books [of "tell cs g\<lparr>timelapse_mode := k\<rparr>" g]] by (simp add: same_books)
  from run keeps_books [OF b] u [OF keeps_track(2) [OF b1]] show ?thesis
    by (auto simp: DeleteVideoTrack_def Let_def split_beta split: if_splits option.splits TrackType.splits)
qed

lemma ReturnTrackBuffer_keeps: "ReturnTrackBuffer E c s t r = Some (ret, r') \<Longrightarrow> keeps r r'"
  using keeps_books [OF ask_books]
  by (auto simp: ReturnTrackBuffer_def Let_def split_beta split: if_splits option.splits TrackType.splits)

lemma SetVideoTrackParam_keeps: "SetVideoTrackParam E c s t ty r = Some (ret, r') \<Longrightarrow> keeps r r'"
proof -
  assume run: "SetVideoTrackParam E c s t ty r = Some (ret, r')"
  have "books (snd (ask_if E b1 c1 (ask_if E b2 c2 (ask_if E b3 c3 (NO_ERROR, r\<lparr>timelapse_mode := m\<rparr>))))) = books r"
    for b1 b2 b3 c1 c2 c3 m by (simp add: same_books)
  from keeps_books [OF this] run show ?thesis
    by (auto simp: SetVideoTrackParam_def Let_def split: if_splits option.splits) (metis snd_conv)+
qed

lemma on_camera_inv: "on_camera E p c cam r = Some (ret, r') \<Longrightarrow> recorder_inv r \<Longrightarrow> recorder_inv r'"
proof -
  assume run: "on_camera E p c cam r = Some (ret, r')" and i: "recorder_inv r"
  obtain v r1 where v: "IsCameraValid c cam r = (v, r1)" by fastforce
  have "recorder_inv r1" by (rule IsCameraValid_cases(1) [OF v i])
  moreover have "recorder_inv (snd (ask E (Camera p cam) r1))" using calculation books_inv ask_books by metis
  ultimately show ?thesis using run i v by (auto simp: on_camera_def Let_def ask_def split: if_splits)
qed

lemma IsClientAlive_keeps: "keeps r (snd (IsClientAlive c r))"
  by (rule keeps_books) (simp add: IsClientAlive_def Let_def same_books)

lemma TrackBufferCb_keeps: "TrackBufferCb E ty c s t r = Some r' \<Longrightarrow> keeps r r'"
proof -
  assume run: "TrackBufferCb E ty c s t r = Some r'"
  obtain a r1 where a: "IsClientAlive c r = (a, r1)" by fastforce
  then have k: "keeps r r1" using IsClientAlive_keeps [of r c] by simp
  moreover have "keeps r1 (tell cs r1)" for cs by (rule keeps_books) (rule tell_books)
  ultimately show ?thesis using run a ReturnTrackBuffer_keeps keeps_trans
    by (auto simp: TrackBufferCb_def split: if_splits)
qed

lemma flush_tracks_keeps: "flush_tracks E is r = Some r' \<Longrightarrow> books r' = books r"
proof (induction "is" arbitrary: r)
  case (Cons i "is")
  let ?r1 = "snd (ask E (Track Encoder_core T_flush i) r)"
  let ?r2 = "snd (ask E (Track Camera_source T_flush i) ?r1)"
  have "books ?r2 = books r" by (simp add: same_books)
  with Cons show ?case by (auto simp: split_beta Let_def split: if_splits)
qed simp

lemma CameraFlushCb_keeps: "CameraFlushCb E cam r = Some r' \<Longrightarrow> books r' = books r"
  using flush_tracks_keeps [of E _ "r\<lparr>camera_tracks_map := emplace cam [] (camera_tracks_map r)\<rparr>" r']
  by (auto simp: CameraFlushCb_def Let_def same_books split: option.splits)

lemma tell_clients_keeps: "tell_clients e cam r = Some r' \<Longrightarrow> books r' = books r"
  by (auto simp: tell_clients_def tell_books split: if_splits)

section \<open>The departure of a client\<close>

lemma return_cameras_books: "return_cameras E cams r = Some r' \<Longrightarrow> books r' = books r"
proof (induction cams arbitrary: r)
  case (Cons cam cams)
  let ?r = "snd (ask E (Camera C_return_images cam) r)"
  from Cons.prems obtain r1 where r1: "CameraFlushCb E cam ?r = Some r1" "return_cameras E cams r1 = Some r'"
    by (auto simp: bind_eq_Some_conv)
  have "books r1 = books r" using CameraFlushCb_keeps [OF r1(1)] by (simp add: ask_books)
  with Cons.IH [OF r1(2)] show ?case by simp
qed simp

lemma flush_sources_books: "books (flush_sources E ts r) = books r"
  by (induction ts arbitrary: r) (simp_all add: ask_books split: TrackType.split)

lemma keeps_camera_touch: "keeps r (set_cameras c (cameras_of c r) r)"
  using inv_set_cameras_same by (simp add: keeps_def)

lemma ForceReturnBuffers_keeps: "ForceReturnBuffers E c r = Some r' \<Longrightarrow> keeps r r'"
proof -
  assume run: "ForceReturnBuffers E c r = Some r'"
  let ?r0 = "set_cameras c (cameras_of c r) r"
  from run obtain r1 where 1: "return_cameras E (kv_keys (cameras_of c ?r0)) ?r0 = Some r1"
    and r': "r' = flush_sources E (concat (map (\<lambda>m. rev (map snd (snd m))) (sessions_of c r1))) r1"
    by (auto simp: ForceReturnBuffers_def Let_def bind_eq_Some_conv split: if_splits)
  have "books r' = books ?r0" using return_cameras_books [OF 1] by (simp add: r' flush_sources_books)
  then show ?thesis using keeps_camera_touch keeps_books keeps_trans by blast
qed

lemma delete_tracks_keeps: "delete_tracks E c s ps r = Some r' \<Longrightarrow> keeps r r'"
proof (induction ps arbitrary: r)
  case (Cons p ps)
  then obtain r1 where 1: "(case track_type (snd p) of
        kVideo f \<Rightarrow> map_option snd (DeleteVideoTrack E c s (fst p) r)
      | kAudio f \<Rightarrow> if pulse_audio E then map_option snd (DeleteAudioTrack E c s (fst p) r) else Some r) = Some r1"
    and 2: "delete_tracks E c s ps r1 = Some r'" by (auto simp: bind_eq_Some_conv)
  have "keeps r r1" using 1 DeleteVideoTrack_keeps DeleteAudioTrack_keeps
    by (auto split: TrackType.splits if_splits)
  with Cons.IH [OF 2] show ?case using keeps_trans by blast
qed simp

lemma delete_sessions_inv:
  "delete_sessions E c ms r = Some r' \<Longrightarrow> recorder_inv r \<Longrightarrow> distinct (map fst ms) \<Longrightarrow>
    (\<And>m. m \<in> set ms \<Longrightarrow> IsSessionValid c (fst m) r) \<Longrightarrow> recorder_inv r'"
proof (induction ms arbitrary: r)
  case (Cons m ms)
  from Cons.prems(1) obtain ret r1 r2 where 1: "StopSession E c (fst m) True r = Some (ret, r1)"
    and 2: "delete_tracks E c (fst m) (rev (snd m)) r1 = Some r2"
    and 3: "delete_sessions E c ms (snd (DeleteSession c (fst m) r2)) = Some r'"
    by (auto simp: bind_eq_Some_conv)
  have "keeps r r1" using StopSession_maps [OF 1 Cons.prems(2)] Cons.prems(4) [of m] keeps_maps by simp
  with delete_tracks_keeps [OF 2] have "keeps r r2" using keeps_trans by blast
  then have i: "recorder_inv r2" and v: "\<And>x. IsSessionValid c x r2 = IsSessionValid c x r"
    using Cons.prems(2) by (simp_all add: keeps_def)
  show ?case
  proof (rule Cons.IH [OF 3])
    show "recorder_inv (snd (DeleteSession c (fst m) r2))" by (rule DeleteSession_inv(1) [OF i])
    show "distinct (map fst ms)" using Cons.prems(3) by simp
    fix x assume x: "x \<in> set ms"
    then have "fst x \<noteq> fst m" using Cons.prems(3) by (metis distinct.simps(2) imageI list.set_map list.simps(9))
    then show "IsSessionValid c (fst x) (snd (DeleteSession c (fst m) r2))"
      using DeleteSession_inv(2) [OF i, of "fst x" "fst m" c c] v Cons.prems(4) [of x] x by simp
  qed
qed simp

lemma stop_cameras_inv:
  "stop_cameras E c cams r = Some r' \<Longrightarrow> recorder_inv r \<Longrightarrow> calm_wait E \<Longrightarrow> recorder_inv r'"
  by (induction cams arbitrary: r) (auto simp: bind_eq_Some_conv dest: StopCamera_inv)

lemma inv_remove_client:
  assumes "recorder_inv r"
  shows "recorder_inv (r\<lparr>client_session_map := kv_remove c (client_session_map r)\<rparr>)"
    "recorder_inv (r\<lparr>client_cameraid_map := kv_remove c (client_cameraid_map r)\<rparr>)"
proof -
  let ?r = "r\<lparr>client_session_map := kv_remove c (client_session_map r)\<rparr>"
  let ?q = "r\<lparr>client_cameraid_map := kv_remove c (client_cameraid_map r)\<rparr>"
  have s: "sessions_of d ?r = (if d = c then [] else sessions_of d r)" "cameras_of d ?r = cameras_of d r" for d
    by (simp_all add: sessions_of_def cameras_of_def)
  show "recorder_inv ?r" using assms unfolding recorder_inv_def IsSessionValid_def owns_def s by simp
  have q: "sessions_of d ?q = sessions_of d r" "cameras_of d ?q = (if d = c then [] else cameras_of d r)" for d
    by (simp_all add: sessions_of_def cameras_of_def)
  show "recorder_inv ?q" using assms unfolding recorder_inv_def IsSessionValid_def owns_def q by simp
qed

lemma DeRegisterClient_inv:
  assumes run: "DeRegisterClient E c force r = Some (ret, r')" and i: "recorder_inv r" and E: "calm_wait E"
  shows "recorder_inv r'"
proof (cases "IsClientValid c r \<and> force")
  case False
  let ?r0 = "set_cameras c (cameras_of c r) r"
  have "recorder_inv ?r0" "recorder_inv (?r0\<lparr>client_cameraid_map := kv_remove c (client_cameraid_map ?r0)\<rparr>)"
    using inv_set_cameras_same [OF i] inv_remove_client(2) by blast+
  then show ?thesis using run i False by (auto simp: DeRegisterClient_def Let_def split: if_splits)
next
  case True
  let ?r = "r\<lparr>client_state := kv_add c kDead (client_state r)\<rparr>"
  from run True obtain r1 r2 r5 where 1: "ForceReturnBuffers E c ?r = Some r1"
    and 2: "delete_sessions E c (sessions_of c r1) r1 = Some r2"
    and 5: "stop_cameras E c (kv_keys (cameras_of c (set_cameras c
        (cameras_of c (r2\<lparr>client_session_map := kv_remove c (client_session_map r2)\<rparr>))
        (r2\<lparr>client_session_map := kv_remove c (client_session_map r2)\<rparr>))))
      (set_cameras c (cameras_of c (r2\<lparr>client_session_map := kv_remove c (client_session_map r2)\<rparr>))
        (r2\<lparr>client_session_map := kv_remove c (client_session_map r2)\<rparr>)) = Some r5"
    and r': "r' = r5\<lparr>client_cameraid_map := kv_remove c (client_cameraid_map r5),
                       client_state := kv_remove c (client_state r5)\<rparr>"
    by (auto simp: DeRegisterClient_def Let_def bind_eq_Some_conv)
  have "recorder_inv ?r" using i books_inv books_upd(3) by metis
  then have i1: "recorder_inv r1" using ForceReturnBuffers_keeps [OF 1] by (simp add: keeps_def)
  have "distinct (map fst (sessions_of c r1))" using i1 kv_wf_distinct by (auto simp: recorder_inv_def)
  then have "recorder_inv r2" using i1
    by (intro delete_sessions_inv [OF 2]) (auto simp: IsSessionValid_def map_of_eq_None_iff)
  then have "recorder_inv r5" using stop_cameras_inv [OF 5 _ E] inv_set_cameras_same inv_remove_client(1) by blast
  then show ?thesis using inv_remove_client(2) books_inv books_upd(3) unfolding r' by metis
qed

section \<open>Every run of the service\<close>

text \<open>
  The calls that the Binder service makes and the callbacks of the sources. The counter of sessions does
  not run out, and a client starts and stops only a session of its own. The service does not check this: a
  client that starts the session of another becomes a second holder of it (theorem \<open>foreign_start\<close>).
\<close>

inductive recorder_step :: "recorder_env \<Rightarrow> recorder \<Rightarrow> recorder \<Rightarrow> bool" for E where
  s_Init: "recorder_step E r (snd (Init ok r))"
| s_DeInit: "recorder_step E r (snd (DeInit r))"
| s_RegisterClient: "recorder_step E r (snd (RegisterClient c r))"
| s_DeRegisterClient: "DeRegisterClient E c force r = Some (ret, r') \<Longrightarrow> recorder_step E r r'"
| s_StartCamera: "StartCamera E c cam mode r = Some (ret, r') \<Longrightarrow> recorder_step E r r'"
| s_StopCamera: "StopCamera E c cam r = Some (ret, r') \<Longrightarrow> recorder_step E r r'"
| s_CreateSession: "unat (unique_session_id r) + 1 < 2 ^ 32 \<Longrightarrow> CreateSession c r = (ret, sid, r') \<Longrightarrow>
    recorder_step E r r'"
| s_DeleteSession: "recorder_step E r (snd (DeleteSession c s r))"
| s_StartSession: "IsSessionValid c s r \<Longrightarrow> StartSession E c s r = Some (ret, r') \<Longrightarrow> recorder_step E r r'"
| s_StopSession: "IsSessionValid c s r \<Longrightarrow> StopSession E c s force r = Some (ret, r') \<Longrightarrow> recorder_step E r r'"
| s_PauseSession: "PauseSession E c s r = Some (ret, r') \<Longrightarrow> recorder_step E r r'"
| s_ResumeSession: "ResumeSession E c s r = Some (ret, r') \<Longrightarrow> recorder_step E r r'"
| s_CreateAudioTrack: "CreateAudioTrack E c s t ap r = Some (ret, r') \<Longrightarrow> recorder_step E r r'"
| s_CreateVideoTrack: "CreateVideoTrack E c s t vp r = Some (ret, r') \<Longrightarrow> recorder_step E r r'"
| s_DeleteAudioTrack: "DeleteAudioTrack E c s t r = Some (ret, r') \<Longrightarrow> recorder_step E r r'"
| s_DeleteVideoTrack: "DeleteVideoTrack E c s t r = Some (ret, r') \<Longrightarrow> recorder_step E r r'"
| s_ReturnTrackBuffer: "ReturnTrackBuffer E c s t r = Some (ret, r') \<Longrightarrow> recorder_step E r r'"
| s_SetVideoTrackParam: "SetVideoTrackParam E c s t ty r = Some (ret, r') \<Longrightarrow> recorder_step E r r'"
| s_camera: "on_camera E p c cam r = Some (ret, r') \<Longrightarrow> recorder_step E r r'"
| s_return_image: "ReturnImageCaptureBuffer E c cam r = Some (ret, r') \<Longrightarrow> recorder_step E r r'"
| s_track_data: "TrackBufferCb E tt c s t r = Some r' \<Longrightarrow> recorder_step E r r'"
| s_snapshot: "CameraSnapshotCb c cam r = Some r' \<Longrightarrow> recorder_step E r r'"
| s_flush: "CameraFlushCb E cam r = Some r' \<Longrightarrow> recorder_step E r r'"
| s_result: "CameraResultCb cam r = Some r' \<Longrightarrow> recorder_step E r r'"
| s_error: "CameraErrorCb cam r = Some r' \<Longrightarrow> recorder_step E r r'"

lemma books_Init: "books (snd (Init ok r)) = books r" "books (snd (DeInit r)) = books r"
  by (simp_all add: Init_def DeInit_def books_def)

lemma ReturnImage_books: "ReturnImageCaptureBuffer E c cam r = Some (ret, r') \<Longrightarrow> books r' = books r"
  using ask_books [of E "Camera C_return_image cam" r]
  by (auto simp: ReturnImageCaptureBuffer_def split: if_splits)

lemma Snapshot_books: "CameraSnapshotCb c cam r = Some r' \<Longrightarrow> books r' = books r"
  by (auto simp: CameraSnapshotCb_def tell_books split: if_splits)

lemma keeps_inv: "keeps r r' \<Longrightarrow> recorder_inv r \<Longrightarrow> recorder_inv r'"
  by (simp add: keeps_def)

lemmas steps_keep = CreateAudioTrack_keeps CreateVideoTrack_keeps DeleteAudioTrack_keeps DeleteVideoTrack_keeps
  ReturnTrackBuffer_keeps SetVideoTrackParam_keeps TrackBufferCb_keeps

lemmas steps_same = books_Init ReturnImage_books Snapshot_books CameraFlushCb_keeps
  tell_clients_keeps [of E_result, folded CameraResultCb_def] tell_clients_keeps [of E_error, folded CameraErrorCb_def]

lemmas steps_inv = RegisterClient_inv StartCamera_inv CreateSession_inv DeleteSession_inv(1) on_camera_inv

lemma recorder_step_inv:
  assumes "calm_wait E" "recorder_inv r" "recorder_step E r r'"
  shows "recorder_inv r'"
  using assms(3)
proof cases
  case (s_StartSession c s ret)
  then show ?thesis using StartSession_maps [OF s_StartSession(2)] assms(2) by (simp add: same_maps_def)
next
  case (s_StopSession c s force ret)
  then show ?thesis using StopSession_maps [OF s_StopSession(2)] assms(2) by (simp add: same_maps_def)
qed (use assms(1,2) in \<open>blast intro: steps_inv steps_keep [THEN keeps_inv] keeps_maps [THEN keeps_inv]
    keeps_books [THEN keeps_inv] PauseSession_maps ResumeSession_maps DeRegisterClient_inv StopCamera_inv
    steps_same\<close>)+

lemma recorder_inv_start: "recorder_inv RecorderImpl"
  by (simp add: recorder_inv_def RecorderImpl_def sessions_of_def cameras_of_def IsSessionValid_def owns_def)

end
