(* ===== verification/Recorder_Claims.thy ===== *)
theory Recorder_Claims
  imports Recorder_Props
begin

unbundle bit_operations_syntax

text \<open>
  The properties of the recorder service: what holds in every reachable state, what a start and a
  stop of a session call, and the cases in which they do not do what the client expects.
\<close>

section \<open>Reachable states\<close>

interpretation recorder_sys: invariant_system "\<lambda>r. r = RecorderImpl" "recorder_step E"
    "\<lambda>r. calm_wait E \<longrightarrow> recorder_inv r" for E
  by unfold_locales (auto simp: recorder_inv_start intro: recorder_step_inv)

section \<open>What the loops over the tracks call\<close>

lemma tell_tell [simp]: "tell ys (tell xs r) = tell (xs @ ys) r"
  by (simp add: tell_def)

lemma tell_nil [simp]: "tell [] r = r"
  by (simp add: tell_def)

lemma calls_tell [simp]: "calls (tell xs r) = calls r @ xs"
  by (simp add: tell_def)

lemma tell_frame [simp]:
  "sources (tell xs r) = sources r" "sessions_state (tell xs r) = sessions_state r"
  "sessions_mutex_map (tell xs r) = sessions_mutex_map r" "client_session_map (tell xs r) = client_session_map r"
  by (simp_all add: tell_def)

lemma ask_tell: "ask E c r = (reply E (calls r) c, tell [c] r)"
  by (simp add: ask_def tell_def)

lemma each_track_tell:
  "(\<And>t r. t \<in> set ts \<Longrightarrow> f t r = (0, False, tell (g t) r)) \<Longrightarrow>
    each_track f ts r = (0, tell (concat (map g ts)) r)"
  by (induction ts arbitrary: r) simp_all

lemma each_track_fails:
  assumes "\<And>t r. t \<in> set ts \<Longrightarrow> f t r = (0, False, tell (g t) r)"
    "\<And>r. f u r = (e, True, tell h r)"
  shows "each_track f (ts @ u # us) r = (e, tell (concat (map g ts) @ h) r)"
  using assms(1)
proof (induction ts arbitrary: r)
  case Nil
  then show ?case using assms(2) by simp
next
  case (Cons t ts)
  have "f t r = (0, False, tell (g t) r)" by (simp add: Cons.prems)
  then show ?case using Cons by simp
qed

text \<open>The calls that start and stop a track.\<close>

definition video_starts :: "TrackInfo \<Rightarrow> source_call list" where
  "video_starts t = (case track_type t of
      kVideo f \<Rightarrow> Track Camera_source T_start (track_id t) #
        (if encoded f then [Track Encoder_core T_start (track_id t)] else [])
    | kAudio f \<Rightarrow> [])"

definition audio_starts :: "TrackInfo \<Rightarrow> source_call list" where
  "audio_starts t = (case track_type t of
      kVideo f \<Rightarrow> []
    | kAudio f \<Rightarrow> Track Audio_source T_start (track_id t) #
        (if f = kPCM then [] else [Track Audio_source T_get (track_id t), Track Audio_encoder_core T_start (track_id t)]))"

definition track_stops :: "bool \<Rightarrow> TrackInfo \<Rightarrow> source_call list" where
  "track_stops force t = (case track_type t of
      kVideo f \<Rightarrow> Track Camera_source (T_stop False) (track_id t) #
        (if encoded f then [Track Encoder_core (T_stop force) (track_id t)] else [])
    | kAudio f \<Rightarrow> Track Audio_source (T_stop False) (track_id t) #
        (if f = kPCM then [] else [Track Audio_encoder_core (T_stop False) (track_id t)]))"

lemma start_video_ok:
  assumes "\<And>cs x. x \<in> set (video_starts t) \<Longrightarrow> reply E cs x = 0"
  shows "start_video E t r = (0, False, tell (video_starts t) r)"
  using assms by (auto simp: start_video_def video_starts_def then_encoder_def ask_tell split: TrackType.splits)

lemma start_audio_ok:
  assumes "\<And>cs x. x \<in> set (audio_starts t) \<Longrightarrow> reply E cs x = 0" "has_audio_track E (track_id t)"
  shows "start_audio E t r = (0, False, tell (audio_starts t) r)"
  using assms by (auto simp: start_audio_def audio_starts_def ask_tell split: TrackType.splits)

lemma stop_track_ok:
  assumes "\<And>cs x. x \<in> set (track_stops force t) \<Longrightarrow> reply E cs x = 0" "pulse_audio E"
  shows "stop_track E force t r = (0, False, tell (track_stops force t) r)"
  using assms by (auto simp: stop_track_def track_stops_def then_encoder_def ask_tell split: TrackType.splits)

section \<open>A session with a state\<close>

lemma inv_facts:
  assumes "recorder_inv r"
  shows "IsSessionValid c s r \<Longrightarrow> kv_find (sessions_state r) s \<noteq> None"
    "IsSessionValid c s r \<Longrightarrow> kv_find (sessions_mutex_map r) s \<noteq> None"
    "IsSessionValid d s r \<Longrightarrow> IsSessionValid c s r \<Longrightarrow> d = c" "owns d cam r \<Longrightarrow> owns c cam r \<Longrightarrow> d = c"
  using assms by (simp_all add: recorder_inv_def)

lemma session_state_some: "kv_find (sessions_state r) s = Some x \<Longrightarrow> session_state s r = (x, r)"
  by (simp add: session_state_def emplace_def)

lemma valid_client: "IsSessionValid c s r \<Longrightarrow> IsClientValid c r"
  by (auto simp: IsSessionValid_def IsClientValid_def sessions_of_def split: option.splits)

lemma valid_mutex: "recorder_inv r \<Longrightarrow> IsSessionValid c s r \<Longrightarrow> kv_find (sessions_mutex_map r) s = Some ()"
  unfolding recorder_inv_def by (metis option.exhaust unit.exhaust)

lemma StopSession_idle:
  assumes "recorder_inv r" "IsSessionValid c s r" "kv_find (sessions_state r) s = Some kIdle"
  shows "StopSession E c s force r = Some (0, r)"
  using assms valid_client [OF assms(2)] valid_mutex [OF assms(1,2)] touch_valid [OF assms(1,2)]
  by (simp add: StopSession_def session_state_some)

lemma StartSession_idle:
  assumes "recorder_inv r" "IsSessionValid c s r" "kv_find (sessions_state r) s = Some kIdle" "sources r"
    "(if pulse_audio E then each_track (start_audio E) (session_tracks c s r) r else (0, r)) = (a, r2)"
    "each_track (start_video E) (session_tracks c s r) r2 = (e, r3)"
  shows "StartSession E c s r = Some (e, if a = 0 \<and> e = 0 then ChangeSessionState s kActive r3 else r3)"
  using assms valid_client [OF assms(2)] valid_mutex [OF assms(1,2)] touch_valid [OF assms(1,2)]
  by (simp add: StartSession_def session_state_some)

lemma StopSession_active:
  assumes "recorder_inv r" "IsSessionValid c s r" "kv_find (sessions_state r) s = Some kActive" "sources r"
    "each_track (stop_track E force) (rev (session_tracks c s r)) r = (e, r2)"
  shows "StopSession E c s force r = Some (e, if e = 0 then ChangeSessionState s kIdle r2 else r2)"
  using assms valid_client [OF assms(2)] valid_mutex [OF assms(1,2)] touch_valid [OF assms(1,2)]
  by (simp add: StopSession_def session_state_some)

lemma state_after [simp]:
  "kv_wf (sessions_state r) \<Longrightarrow> kv_find (sessions_state (ChangeSessionState s x r)) d =
     (if d = s then Some x else kv_find (sessions_state r) d)"
  "calls (ChangeSessionState s x r) = calls r" "sources (ChangeSessionState s x r) = sources r"
  "session_tracks c d (ChangeSessionState s x r) = session_tracks c d r"
  "session_tracks c d (tell cs r) = session_tracks c d r"
  by (simp_all add: ChangeSessionState_def session_tracks_def tracks_of_def sessions_of_def tell_def)

lemma keeps_tell_change: "keeps r (ChangeSessionState s x (tell cs r))"
  using keeps_books [OF tell_books] keeps_maps [OF same_maps_change] keeps_trans by blast

lemma started_session:
  assumes "recorder_inv r" "IsSessionValid c s r"
  shows "recorder_inv (ChangeSessionState s x (tell cs r))" "IsSessionValid c s (ChangeSessionState s x (tell cs r))"
    "kv_find (sessions_state (ChangeSessionState s x (tell cs r))) s = Some x"
proof -
  show "recorder_inv (ChangeSessionState s x (tell cs r))" "IsSessionValid c s (ChangeSessionState s x (tell cs r))"
    using keeps_tell_change [of r s x cs] assms by (simp_all add: keeps_def)
  have "kv_wf (sessions_state r)" using assms(1) by (simp add: recorder_inv_def)
  then show "kv_find (sessions_state (ChangeSessionState s x (tell cs r))) s = Some x" by simp
qed

section \<open>The departure of a client\<close>

definition stops :: "recorder \<Rightarrow> source_call list" where
  "stops r = filter (\<lambda>x. case x of Camera C_stop cam \<Rightarrow> True | _ \<Rightarrow> False) (calls r)"

named_theorems no_stop \<open>operations that stop no camera\<close>

lemma stops_tell: "stops (tell cs r) = stops r @ filter (\<lambda>x. case x of Camera C_stop cam \<Rightarrow> True | _ \<Rightarrow> False) cs"
  by (simp add: stops_def)

lemma stops_ask [no_stop]: "stops (snd (ask E (Track a p i) r)) = stops r"
  "stops (snd (ask E (Camera C_return_images cam) r)) = stops r"
  by (simp_all add: ask_tell stops_tell)

lemma stops_calls: "calls r' = calls r \<Longrightarrow> stops r' = stops r"
  by (simp add: stops_def)

lemma stops_frame [simp]:
  "stops (set_tracks c s m r) = stops r" "stops (set_cameras c m' r) = stops r"
  "stops (ChangeSessionState s x r) = stops r" "stops (r\<lparr>timelapse_mode := a\<rparr>) = stops r"
  "stops (r\<lparr>camera_tracks_map := b\<rparr>) = stops r" "stops (r\<lparr>client_state := d\<rparr>) = stops r"
  "stops (r\<lparr>client_session_map := g\<rparr>) = stops r" "stops (r\<lparr>client_cameraid_map := h\<rparr>) = stops r"
  "stops (remove_track c s t r) = stops r" "stops (touch c s r) = stops r"
  "stops (snd (session_state s r)) = stops r" "stops (tell [Track_deleted c t] r) = stops r"
  by (simp_all add: stops_def remove_track_def touch_def session_state_def Let_def)

lemma stops_then_encoder [no_stop]: "stops (snd (snd (then_encoder E (Track a p i) b (Track a' p' i') r))) = stops r"
  by (simp add: then_encoder_def split_beta no_stop)

lemma stops_stop_track: "stops (snd (snd (stop_track E force t r))) = stops r"
  by (simp add: stop_track_def no_stop split: TrackType.split)

lemma stops_each:
  "(\<And>t r. stops (snd (snd (f t r))) = stops r) \<Longrightarrow> stops (snd (each_track f ts r)) = stops r"
  by (induction ts arbitrary: r) (simp_all add: split_beta)

lemma stops_StopSession: "StopSession E c s force r = Some (ret, r') \<Longrightarrow> stops r' = stops r"
proof -
  assume run: "StopSession E c s force r = Some (ret, r')"
  obtain st r1 where 1: "session_state s (touch c s r) = (st, r1)" by fastforce
  obtain e r2 where 2: "each_track (stop_track E force) (rev (session_tracks c s r1)) r1 = (e, r2)" by fastforce
  have s: "stops r1 = stops r" using stops_frame(10,11) 1 by (metis snd_conv)
  moreover have "stops r2 = stops r1"
    using stops_each [where f = "stop_track E force" and r = r1, OF stops_stop_track] 2 by (metis snd_conv)
  ultimately show ?thesis using run 1 2
    by (auto simp: StopSession_def Let_def bind_eq_Some_conv split: if_splits)
qed

lemma stops_DeleteTrack:
  "DeleteVideoTrack E c s t r = Some (ret, r') \<Longrightarrow> stops r' = stops r"
  "DeleteAudioTrack E c s t r = Some (ret, r') \<Longrightarrow> stops r' = stops r"
  by (auto simp: DeleteVideoTrack_def DeleteAudioTrack_def Let_def split_beta no_stop
      split: if_splits option.splits TrackType.splits)

lemma stops_delete_tracks: "delete_tracks E c s ps r = Some r' \<Longrightarrow> stops r' = stops r"
proof (induction ps arbitrary: r)
  case (Cons p ps)
  then obtain r1 where "(case track_type (snd p) of
        kVideo f \<Rightarrow> map_option snd (DeleteVideoTrack E c s (fst p) r)
      | kAudio f \<Rightarrow> if pulse_audio E then map_option snd (DeleteAudioTrack E c s (fst p) r) else Some r) = Some r1"
    and 2: "delete_tracks E c s ps r1 = Some r'" by (auto simp: bind_eq_Some_conv)
  then have "stops r1 = stops r" using stops_DeleteTrack by (auto split: TrackType.splits if_splits)
  with Cons.IH [OF 2] show ?case by simp
qed simp

lemma stops_delete_sessions: "delete_sessions E c ms r = Some r' \<Longrightarrow> stops r' = stops r"
proof (induction ms arbitrary: r)
  case (Cons m ms)
  have d: "stops (snd (DeleteSession c s q)) = stops q" for s q
    by (auto simp: DeleteSession_def Let_def stops_def)
  from Cons.prems obtain ret r1 r2 where "StopSession E c (fst m) True r = Some (ret, r1)"
    and "delete_tracks E c (fst m) (rev (snd m)) r1 = Some r2"
    and 3: "delete_sessions E c ms (snd (DeleteSession c (fst m) r2)) = Some r'"
    by (auto simp: bind_eq_Some_conv)
  then show ?case using Cons.IH [OF 3] stops_StopSession stops_delete_tracks d by metis
qed simp

lemma stops_flush_tracks: "flush_tracks E is r = Some r' \<Longrightarrow> stops r' = stops r"
  by (induction "is" arbitrary: r) (auto simp: Let_def split_beta no_stop split: if_splits dest!: meta_spec)

lemma stops_CameraFlushCb: "CameraFlushCb E cam r = Some r' \<Longrightarrow> stops r' = stops r"
  using stops_flush_tracks by (fastforce simp: CameraFlushCb_def Let_def split: option.splits)

lemma stops_return_cameras: "return_cameras E cams r = Some r' \<Longrightarrow> stops r' = stops r"
proof (induction cams arbitrary: r)
  case (Cons cam cams)
  then obtain r1 where "CameraFlushCb E cam (snd (ask E (Camera C_return_images cam) r)) = Some r1"
    "return_cameras E cams r1 = Some r'" by (auto simp: bind_eq_Some_conv)
  then show ?case using Cons.IH stops_CameraFlushCb stops_ask(2) by metis
qed simp

lemma stops_flush_sources: "stops (flush_sources E ts r) = stops r"
  by (induction ts arbitrary: r) (simp_all add: no_stop split: TrackType.split)

lemma stops_ForceReturn: "ForceReturnBuffers E c r = Some r' \<Longrightarrow> stops r' = stops r"
  using stops_return_cameras
  by (fastforce simp: ForceReturnBuffers_def Let_def bind_eq_Some_conv stops_flush_sources split: if_splits)

lemma stop_cameras_unknown: "\<not> IsClientValid c r \<Longrightarrow> stop_cameras E c cams r = Some r"
  by (induction cams) (simp_all add: StopCamera_def)

section \<open>Ids of tracks\<close>

lemma bit_below: "uint (x :: u32) < 2 ^ k \<Longrightarrow> bit x n \<Longrightarrow> n < k"
proof -
  assume x: "uint x < 2 ^ k" "bit x n"
  from x(1) have "take_bit k (uint x) = uint x" by (simp add: take_bit_int_eq_self_iff)
  then show ?thesis using x(2) bit_take_bit_iff [of k "uint x" n] by (simp add: bit_uint_iff bit_word.rep_eq)
qed

lemma track_id_parts:
  assumes "c < 256" "s < 256" "t < 65536"
  shows "drop_bit 24 (GetUniqueServiceTrackId c s t) = c"
    "take_bit 8 (drop_bit 16 (GetUniqueServiceTrackId c s t)) = s"
    "take_bit 16 (GetUniqueServiceTrackId c s t) = t"
proof -
  have "uint c < 2 ^ 8" "uint s < 2 ^ 8" "uint t < 2 ^ 16" using assms by (simp_all add: word_less_def)
  note b = this [THEN bit_below]
  show "drop_bit 24 (GetUniqueServiceTrackId c s t) = c"
    by (rule bit_word_eqI)
      (use b in \<open>force simp: GetUniqueServiceTrackId_def bit_or_iff bit_push_bit_iff bit_drop_bit_eq\<close>)
  show "take_bit 8 (drop_bit 16 (GetUniqueServiceTrackId c s t)) = s"
    by (rule bit_word_eqI)
      (use b in \<open>force simp: GetUniqueServiceTrackId_def bit_or_iff bit_push_bit_iff bit_drop_bit_eq bit_take_bit_iff\<close>)
  show "take_bit 16 (GetUniqueServiceTrackId c s t) = t"
    by (rule bit_word_eqI)
      (use b in \<open>force simp: GetUniqueServiceTrackId_def bit_or_iff bit_push_bit_iff bit_take_bit_iff\<close>)
qed

section \<open>A service at work\<close>

text \<open>Two clients; the first has a camera and an idle session with a raw, an encoded and an audio track.\<close>

definition working :: recorder where
  "working = \<lparr>unique_session_id = 1, sources = True, timelapse_mode = [],
     client_session_map = [(1, [(1, [(1, \<lparr>track_id = 0x1010001, track_type = kVideo kNV12\<rparr>),
                                     (2, \<lparr>track_id = 0x1010002, track_type = kVideo kAVC\<rparr>),
                                     (3, \<lparr>track_id = 0x1010003, track_type = kAudio kAAC\<rparr>)])]), (2, [])],
     client_cameraid_map = [(1, [(0, True)]), (2, [])], camera_tracks_map = [(0, [0x1010001, 0x1010002])],
     client_state = [(1, kAlive), (2, kAlive)], sessions_state = [(1, kIdle)], sessions_mutex_map = [(1, ())],
     calls = []\<rparr>"

definition good_env :: "source_call list \<Rightarrow> recorder_env" where
  "good_env bad = \<lparr>pulse_audio = True, reply = (\<lambda>cs x. if x \<in> set bad then BAD_VALUE else 0),
     has_audio_track = (\<lambda>i. True), track_size = (\<lambda>i. None), wait_slaves = id\<rparr>"

lemma working_inv: "recorder_inv working"
  by (auto simp: recorder_inv_def working_def sessions_of_def cameras_of_def IsSessionValid_def owns_def
      kv_wf_def split: if_splits)

lemma working_session: "IsSessionValid 1 1 working" "kv_find (sessions_state working) 1 = Some kIdle" "sources working"
  "IsClientValid 2 working"
  by (simp_all add: working_def IsSessionValid_def sessions_of_def IsClientValid_def)

section \<open>Properties\<close>

text \<open>
  C10. Let clients start and stop only their own sessions (which the service does not check), let the
  counter of sessions not run out, and let what other clients do during a wait for slave cameras keep
  these facts. Then in every state that the service reaches by calls of its clients and by callbacks, a
  session belongs to one client and has a state and a mutex, and a camera has at most one owner.
\<close>

theorem recorder_bookkeeping:
  assumes "(recorder_step E)\<^sup>*\<^sup>* RecorderImpl r" "calm_wait E" "IsSessionValid c s r" "owns d cam r"
  shows "kv_find (sessions_state r) s \<noteq> None \<and> kv_find (sessions_mutex_map r) s \<noteq> None \<and>
    IsSessionValid c' s r = (c' = c) \<and> owns d' cam r = (d' = d) \<and> IsCameraOwned c' cam r = (c' \<noteq> d)"
proof -
  have i: "recorder_inv r" using recorder_sys.inv_reachable [OF refl assms(1)] assms(2) by simp
  note f = inv_facts [OF i]
  have v: "IsSessionValid c' s r = (c' = c)" using f(3) [of c' s c] assms(3) by auto
  have o: "owns x cam r = (x = d)" for x using f(4) [of x cam d] assms(4) by auto
  show ?thesis using f(1,2) [OF assms(3)] v by (auto simp: owned_iff [OF i] o)
qed

text \<open>
  C9. Starting an idle session calls every track once, in the order of the ids, audio and video
  apart, and encoders after their sources; stopping it then stops every track once, in the
  opposite order. The session is active in between and idle afterwards.
\<close>

theorem session_start_stop:
  assumes "recorder_inv r" "IsSessionValid c s r" "kv_find (sessions_state r) s = Some kIdle" "sources r"
    "pulse_audio E" "\<And>cs x. reply E cs x = 0" "\<And>i. has_audio_track E i"
  shows "\<exists>r1 r2. StartSession E c s r = Some (0, r1) \<and>
    calls r1 = calls r @ concat (map audio_starts (session_tracks c s r)) @
      concat (map video_starts (session_tracks c s r)) \<and>
    kv_find (sessions_state r1) s = Some kActive \<and>
    StopSession E c s force r1 = Some (0, r2) \<and>
    calls r2 = calls r1 @ concat (map (track_stops force) (rev (session_tracks c s r))) \<and>
    kv_find (sessions_state r2) s = Some kIdle"
proof -
  let ?ts = "session_tracks c s r"
  let ?a = "tell (concat (map audio_starts ?ts)) r"
  let ?v = "tell (concat (map audio_starts ?ts) @ concat (map video_starts ?ts)) r"
  let ?r1 = "ChangeSessionState s kActive ?v"
  let ?w = "tell (concat (map (track_stops force) (rev ?ts))) ?r1"
  have "(if pulse_audio E then each_track (start_audio E) ?ts r else (0, r)) = (0, ?a)"
    using assms(5-7) each_track_tell [where f = "start_audio E"] start_audio_ok by simp
  moreover have "each_track (start_video E) ?ts ?a = (0, ?v)"
    using assms(6) each_track_tell [where f = "start_video E" and g = video_starts] start_video_ok by simp
  ultimately have start: "StartSession E c s r = Some (0, ?r1)" using StartSession_idle [OF assms(1-4)] by simp
  note s1 = started_session [OF assms(1,2), where x = kActive]
  have "each_track (stop_track E force) (rev (session_tracks c s ?r1)) ?r1 = (0, ?w)"
    using assms(5,6) each_track_tell [where f = "stop_track E force"] stop_track_ok by simp
  then have stop: "StopSession E c s force ?r1 = Some (0, ChangeSessionState s kIdle ?w)"
    using StopSession_active [OF s1] assms(4) by simp
  show ?thesis
  proof (intro exI conjI)
    show "StartSession E c s r = Some (0, ?r1)" by (rule start)
    show "StopSession E c s force ?r1 = Some (0, ChangeSessionState s kIdle ?w)" by (rule stop)
  qed (use s1(3) started_session(3) [OF s1(1,2)] in simp_all)
qed

text \<open>
  When the source of a video track refuses to start, the tracks before it stay started: the
  session is idle still, so \<open>StopSession\<close> answers that all is well and stops none of them.
\<close>

theorem failed_start_leaks:
  assumes "recorder_inv r" "IsSessionValid c s r" "kv_find (sessions_state r) s = Some kIdle" "sources r"
    "session_tracks c s r = ts @ t # us" "track_type t = kVideo f" "\<And>u. u \<in> set ts \<Longrightarrow> track_id u \<noteq> track_id t"
    "\<And>i. has_audio_track E i" "pulse_audio E" "e \<noteq> 0"
    "\<And>cs x. reply E cs x = (if x = Track Camera_source T_start (track_id t) then e else 0)"
  shows "\<exists>r1. StartSession E c s r = Some (e, r1) \<and>
    calls r1 = calls r @ concat (map audio_starts (ts @ t # us)) @ concat (map video_starts ts) @
      [Track Camera_source T_start (track_id t)] \<and> StopSession E c s force r1 = Some (0, r1)"
proof -
  let ?ts = "ts @ t # us"
  let ?bad = "Track Camera_source T_start (track_id t)"
  let ?a = "tell (concat (map audio_starts ?ts)) r"
  let ?r1 = "tell (concat (map audio_starts ?ts) @ concat (map video_starts ts) @ [?bad]) r"
  have na: "x \<in> set (audio_starts u) \<Longrightarrow> x \<noteq> ?bad" for x u
    by (auto simp: audio_starts_def split: TrackType.splits if_splits)
  have nv: "u \<in> set ts \<Longrightarrow> x \<in> set (video_starts u) \<Longrightarrow> x \<noteq> ?bad" for x u
    using assms(7) [of u] by (auto simp: video_starts_def split: TrackType.splits if_splits)
  have "each_track (start_audio E) ?ts r = (0, ?a)"
    by (rule each_track_tell, rule start_audio_ok) (use na assms(8,11) in simp_all)
  moreover have "each_track (start_video E) ?ts ?a = (e, tell (concat (map video_starts ts) @ [?bad]) ?a)"
    by (rule each_track_fails, rule start_video_ok)
      (use nv assms(6,10,11) in \<open>simp_all add: start_video_def then_encoder_def ask_tell\<close>)
  ultimately have start: "StartSession E c s r = Some (e, ?r1)"
    using StartSession_idle [OF assms(1-4), unfolded assms(5), where E = E] assms(9,10) by simp
  have "keeps r ?r1" by (rule keeps_books [OF tell_books])
  then have "recorder_inv ?r1" "IsSessionValid c s ?r1" using assms(1,2) by (simp_all add: keeps_def)
  then have "StopSession E c s force ?r1 = Some (0, ?r1)" using StopSession_idle assms(3) by simp
  with start show ?thesis by auto
qed

text \<open>
  A session that does not exist makes \<open>StartSession\<close> and \<open>StopSession\<close> lock a null mutex, also
  for a client that is not connected, where \<open>PauseSession\<close>, \<open>ResumeSession\<close> and \<open>DeleteSession\<close> answer with an error.
\<close>

theorem unknown_session:
  assumes "recorder_inv r" "kv_find (sessions_mutex_map r) s = None"
  shows "StartSession E c s r = None \<and> StopSession E c s force r = None \<and>
    PauseSession E c s r = Some (BAD_VALUE, r) \<and> ResumeSession E c s r = Some (BAD_VALUE, r) \<and>
    DeleteSession c s r = (BAD_VALUE, r)"
proof -
  have "sessions_mutex_map (touch c s r) = sessions_mutex_map r" by (simp add: touch_def)
  moreover have "\<not> IsSessionValid c s r" using inv_facts(2) [OF assms(1)] assms(2) by blast
  ultimately show ?thesis using assms(2)
    by (simp add: StartSession_def StopSession_def PauseSession_def ResumeSession_def DeleteSession_def)
qed

text \<open>
  Any client can mark another client's idle session as started: its own \<open>StartSession\<close> creates
  an empty session of the same id under its name, starts no track, and the owner's \<open>StartSession\<close>
  then returns without starting one.
\<close>

theorem foreign_start:
  assumes "recorder_inv r" "IsSessionValid c s r" "kv_find (sessions_state r) s = Some kIdle" "d \<noteq> c"
  shows "\<exists>r1. StartSession E d s r = Some (0, r1) \<and> StartSession E c s r1 = Some (0, r1) \<and> calls r1 = calls r \<and>
    IsSessionValid c s r1 \<and> IsSessionValid d s r1"
proof -
  let ?q = "touch d s r"
  let ?r1 = "ChangeSessionState s kActive ?q"
  have wf: "kv_wf (client_session_map r)" "\<And>c. kv_wf (sessions_of c r)" "kv_wf (sessions_state r)"
    using assms(1) by (simp_all add: recorder_inv_def)
  have "\<not> IsSessionValid d s r" using assms(1,2,4) unfolding recorder_inv_def by blast
  then have t: "tracks_of d s r = []" by (simp add: IsSessionValid_def tracks_of_def)
  have so: "sessions_of x ?q = (if x = d then kv_add s [] (sessions_of d r) else sessions_of x r)" for x
    using wf by (simp add: touch_def t)
  have v: "IsSessionValid d s ?q" "IsSessionValid c s ?q" "session_tracks d s ?q = []"
    using assms(2,4) wf by (simp_all add: IsSessionValid_def so session_tracks_def tracks_of_def)
  have m: "kv_find (sessions_mutex_map r) s = Some ()" by (rule valid_mutex [OF assms(1,2)])
  have st: "sessions_state ?q = sessions_state r" "sessions_mutex_map ?q = sessions_mutex_map r" "calls ?q = calls r"
    by (simp_all add: touch_def)
  have 1: "StartSession E d s r = Some (0, ?r1)"
    using v valid_client [OF v(1)] m st assms(3)
    by (simp add: StartSession_def Let_def session_state_some needs_sources_def)
  have v1: "IsSessionValid x s ?r1 = IsSessionValid x s ?q" for x
    by (simp add: IsSessionValid_def sessions_of_def ChangeSessionState_def)
  have "touch c s ?r1 = ?r1"
  proof -
    obtain sm ts where sm: "kv_find (client_session_map ?q) c = Some sm" "kv_find sm s = Some ts" "sessions_of c ?q = sm"
      using v(2) by (auto simp: IsSessionValid_def sessions_of_def split: option.splits)
    have "kv_wf (client_session_map ?q)" "kv_wf sm" using wf sm(3) so assms(4) by (auto simp: touch_def)
    then have "kv_add c (kv_add s ts sm) (client_session_map ?q) = client_session_map ?q"
      using kv_add_same sm(1,2) by metis
    moreover have "sessions_of c ?r1 = sm" using sm(1) by (simp add: ChangeSessionState_def sessions_of_def)
    ultimately show ?thesis using sm(2)
      by (simp add: touch_def set_tracks_def tracks_of_def) (simp add: ChangeSessionState_def touch_def set_tracks_def)
  qed
  moreover have "kv_find (sessions_state ?r1) s = Some kActive" "kv_find (sessions_mutex_map ?r1) s = Some ()"
    using wf(3) st m by (simp_all add: ChangeSessionState_def)
  ultimately have 2: "StartSession E c s ?r1 = Some (0, ?r1)"
    using v v1 valid_client [of c s ?r1] by (simp add: StartSession_def Let_def session_state_some)
  show ?thesis using 1 2 v v1 st(3) by auto
qed

text \<open>
  Service ids tell clients, sessions and tracks apart while clients and sessions are below 256
  and track ids below 65536; one more session or track and two tracks share an id.
\<close>

theorem service_track_ids:
  assumes "c < 256" "s < 256" "t < 65536" "c' < 256" "s' < 256" "t' < 65536"
  shows "(GetUniqueServiceTrackId c s t = GetUniqueServiceTrackId c' s' t' \<longleftrightarrow> c = c' \<and> s = s' \<and> t = t') \<and>
    GetUniqueServiceTrackId 1 256 t = GetUniqueServiceTrackId 1 0 t \<and>
    GetUniqueServiceTrackId c 1 0 = GetUniqueServiceTrackId c 0 65536"
proof (intro conjI)
  show "GetUniqueServiceTrackId c s t = GetUniqueServiceTrackId c' s' t' \<longleftrightarrow> c = c' \<and> s = s' \<and> t = t'"
    using track_id_parts [of c s t] track_id_parts [of c' s' t'] assms by auto
qed (simp_all add: GetUniqueServiceTrackId_def push_bit_eq_mult)

text \<open>
  The clean-up after a client that died stops none of its cameras: the client is forgotten
  first, so every \<open>StopCamera\<close> refuses it. The camera has no owner afterwards and keeps running.
\<close>

theorem dead_client_camera_runs_on:
  assumes "recorder_inv r" "DeRegisterClient E c True r = Some (0, r')"
  shows "stops r' = stops r \<and> \<not> IsClientValid c r' \<and> \<not> owns c cam r'"
proof -
  have v: "IsClientValid c r" using assms(2) by (rule contrapos_pp) (simp add: DeRegisterClient_def)
  define q where "q = r\<lparr>client_state := kv_add c kDead (client_state r)\<rparr>"
  from assms(2) v obtain r1 r2 r3 r4 r5 where 1: "ForceReturnBuffers E c q = Some r1"
    and 2: "delete_sessions E c (sessions_of c r1) r1 = Some r2"
    and 3: "r3 = r2\<lparr>client_session_map := kv_remove c (client_session_map r2)\<rparr>"
    and 4: "r4 = set_cameras c (cameras_of c r3) r3"
    and 5: "stop_cameras E c (kv_keys (cameras_of c r4)) r4 = Some r5"
    and r': "r' = r5\<lparr>client_cameraid_map := kv_remove c (client_cameraid_map r5),
                       client_state := kv_remove c (client_state r5)\<rparr>"
    by (auto simp: DeRegisterClient_def Let_def bind_eq_Some_conv q_def)
  have n: "\<not> IsClientValid c r4" by (simp add: 4 3 IsClientValid_def set_cameras_def)
  then have r5: "r5 = r4" using 5 stop_cameras_unknown by simp
  show ?thesis
    using stops_ForceReturn [OF 1] stops_delete_sessions [OF 2] n
    by (simp add: r' r5 owns_def cameras_of_def IsClientValid_def) (simp add: 4 3 q_def)
qed

section \<open>Witnesses\<close>

lemma working_tracks: "session_tracks 1 1 working =
    [\<lparr>track_id = 0x1010001, track_type = kVideo kNV12\<rparr>] @ \<lparr>track_id = 0x1010002, track_type = kVideo kAVC\<rparr> #
    [\<lparr>track_id = 0x1010003, track_type = kAudio kAAC\<rparr>]"
  by (simp add: session_tracks_def tracks_of_def sessions_of_def working_def)

lemma good_env_simps [simp]:
  "pulse_audio (good_env b)" "reply (good_env b) cs x = (if x \<in> set b then BAD_VALUE else 0)"
  "has_audio_track (good_env b) i" "wait_slaves (good_env b) = id"
  by (simp_all add: good_env_def)

lemma calm_good: "calm_wait (good_env b)"
  by (simp add: calm_wait_def)

lemma DeRegister_working: "map_option fst (DeRegisterClient (good_env []) 1 True working) = Some 0"
  by code_simp

definition first_steps :: recorder where
  "first_steps = snd (snd (CreateSession 1 (snd (the (StartCamera (good_env []) 1 0 kNone
     (snd (RegisterClient 1 (snd (Init True RecorderImpl)))))))))"

lemma first_steps_reached: "(recorder_step (good_env []))\<^sup>*\<^sup>* RecorderImpl first_steps"
proof -
  define r1 where "r1 = snd (Init True RecorderImpl)"
  define r2 where "r2 = snd (RegisterClient 1 r1)"
  define r3 where "r3 = snd (the (StartCamera (good_env []) 1 0 kNone r2))"
  have "StartCamera (good_env []) 1 0 kNone r2 = Some (0, r3)"
    unfolding r3_def r2_def r1_def by (simp add: Init_def RecorderImpl_def RegisterClient_def emplace_def
        StartCamera_def IsClientValid_def IsCameraOwned_def IsCameraValid_def cameras_of_def set_cameras_def
        ask_def notify_others_def tell_def kv_add_def)
  moreover from this have "unique_session_id r3 = 0"
    unfolding r3_def r2_def r1_def by (auto simp: Init_def RecorderImpl_def RegisterClient_def emplace_def
        StartCamera_def IsClientValid_def IsCameraOwned_def IsCameraValid_def cameras_of_def set_cameras_def
        ask_def notify_others_def tell_def kv_add_def)
  then have "recorder_step (good_env []) r3 first_steps"
    by (intro s_CreateSession [of r3 1 "fst (CreateSession 1 r3)" "fst (snd (CreateSession 1 r3))"])
      (simp_all add: first_steps_def r1_def r2_def r3_def)
  moreover have "recorder_step (good_env []) RecorderImpl r1" "recorder_step (good_env []) r1 r2"
    unfolding r1_def r2_def by (rule s_Init, rule s_RegisterClient)
  ultimately show ?thesis using s_StartCamera by (meson converse_rtranclp_into_rtranclp rtranclp.rtrancl_refl)
qed

theorem recorder_bookkeeping_witness:
  "IsSessionValid 1 1 first_steps \<and> owns 1 0 first_steps \<and> \<not> IsSessionValid 2 1 first_steps \<and>
    IsCameraOwned 2 0 first_steps"
proof -
  have "IsSessionValid 1 1 first_steps" "kv_find (cameras_of 1 first_steps) 0 = Some True" by code_simp+
  then show ?thesis using recorder_bookkeeping [OF first_steps_reached calm_good, of 1 1 1 0 2]
    by (simp add: owns_def)
qed

theorem session_start_stop_witness:
  "\<exists>r1 r2. StartSession (good_env []) 1 1 working = Some (0, r1) \<and> length (calls r1) = 6 \<and>
    StopSession (good_env []) 1 1 False r1 = Some (0, r2) \<and>
    drop 6 (calls r2) = [Track Audio_source (T_stop False) 0x1010003, Track Audio_encoder_core (T_stop False) 0x1010003,
      Track Camera_source (T_stop False) 0x1010002, Track Encoder_core (T_stop False) 0x1010002,
      Track Camera_source (T_stop False) 0x1010001]"
proof -
  obtain r1 r2 where r: "StartSession (good_env []) 1 1 working = Some (0, r1)"
    "calls r1 = calls working @ concat (map audio_starts (session_tracks 1 1 working)) @
      concat (map video_starts (session_tracks 1 1 working))"
    "StopSession (good_env []) 1 1 False r1 = Some (0, r2)"
    "calls r2 = calls r1 @ concat (map (track_stops False) (rev (session_tracks 1 1 working)))"
    using session_start_stop [OF working_inv working_session(1-3), of "good_env []" False] by auto
  have "length (calls r1) = 6"
    by (simp add: r(2) working_tracks audio_starts_def video_starts_def encoded_def) (simp add: working_def)
  then show ?thesis using r(1,3,4) by (simp add: working_tracks track_stops_def encoded_def)
qed

theorem failed_start_leaks_witness:
  "\<exists>r1. StartSession (good_env [Track Camera_source T_start 0x1010002]) 1 1 working = Some (BAD_VALUE, r1) \<and>
    Track Camera_source T_start 0x1010001 \<in> set (calls r1) \<and>
    StopSession (good_env [Track Camera_source T_start 0x1010002]) 1 1 False r1 = Some (0, r1)"
  using failed_start_leaks [OF working_inv working_session(1-3) working_tracks,
      of kAVC "good_env [Track Camera_source T_start 0x1010002]" BAD_VALUE False]
  by (auto simp: video_starts_def)

theorem unknown_session_witness:
  "StartSession (good_env []) 1 9 working = None \<and> PauseSession (good_env []) 1 9 working = Some (BAD_VALUE, working)"
  using unknown_session [OF working_inv, of 9 "good_env []" 1] by (simp add: working_def)

theorem foreign_start_witness:
  "\<exists>r1. StartSession (good_env []) 2 1 working = Some (0, r1) \<and> StartSession (good_env []) 1 1 r1 = Some (0, r1) \<and>
    calls r1 = []"
  using foreign_start [OF working_inv working_session(1,2), of 2 "good_env []"] by (auto simp: working_def)

theorem service_track_ids_witness:
  "GetUniqueServiceTrackId 1 2 3 \<noteq> GetUniqueServiceTrackId 1 3 3 \<and>
    GetUniqueServiceTrackId 1 256 3 = GetUniqueServiceTrackId 1 0 3"
  using service_track_ids [of 1 2 3 1 3 3] by simp

theorem dead_client_camera_runs_on_witness:
  "\<exists>r'. DeRegisterClient (good_env []) 1 True working = Some (0, r') \<and> stops r' = [] \<and> \<not> owns 1 0 r'"
proof -
  obtain r' where r: "DeRegisterClient (good_env []) 1 True working = Some (0, r')"
    using DeRegister_working by auto
  have "stops working = []" by (simp add: stops_def working_def)
  then show ?thesis using dead_client_camera_runs_on [OF working_inv r] r by auto
qed

end
