(* ===== verification/Thumbnail.thy ===== *)
theory Thumbnail
  imports Prelude "HOL-Library.Monad_Syntax"
begin

text \<open>
  The snapshot of a camera as one JPEG blob: its size from the footer, and the search for the
  thumbnails in its application segments. Source: \<^verbatim>\<open>recorder/src/service/qmmf_camera_source.cc\<close>
  (\<^verbatim>\<open>GetJpegSize\<close>, \<^verbatim>\<open>ParseThumb\<close>). Indices are 32-bit and wrap; a read outside the mapped
  buffer is \<open>None\<close>.
\<close>

section \<open>The footer\<close>

text \<open>
  \<open>blob_size\<close> is the size of the platform's \<^verbatim>\<open>camera3_jpeg_blob\<close>; \<open>footer\<close> reads one at an
  offset: the size of the image when the id is right.
\<close>

definition GetJpegSize :: "u32 \<Rightarrow> (u32 \<Rightarrow> u32 option) \<Rightarrow> u32 \<Rightarrow> u32" where
  "GetJpegSize blob_size footer len =
     (if len > blob_size
      then (case footer (len - blob_size - 1) of Some n \<Rightarrow> n | None \<Rightarrow> len)
      else len)"

section \<open>Markers\<close>

type_synonym byte = "8 word"
type_synonym image = "byte list"
type_synonym plane_infos = "(u32 \<times> u32) list" \<comment> \<open>offset and size\<close>

abbreviation (input) TAG :: byte where "TAG \<equiv> 0xFF"
abbreviation (input) SOI :: byte where "SOI \<equiv> 0xD8"
abbreviation (input) EOI :: byte where "EOI \<equiv> 0xD9"
abbreviation (input) APP1 :: byte where "APP1 \<equiv> 0xE1"
abbreviation (input) APP2 :: byte where "APP2 \<equiv> 0xE2"
abbreviation (input) MAX_PLANE :: nat where "MAX_PLANE \<equiv> 8"

definition rd :: "image \<Rightarrow> u32 \<Rightarrow> byte option" where
  "rd img i = (if unat i < length img then Some (img ! unat i) else None)"

text \<open>Whether the bytes at \<open>i\<close> are \<open>a\<close> and \<open>b\<close>; the second is read only after the first.\<close>

definition marker :: "image \<Rightarrow> byte \<Rightarrow> byte \<Rightarrow> u32 \<Rightarrow> bool option" where
  "marker img a b i = do {
     x \<leftarrow> rd img i;
     if x = a then do { y \<leftarrow> rd img (i + 1); Some (y = b) } else Some False
   }"

text \<open>The length of an application segment, behind its marker at \<open>i\<close>.\<close>

definition block_length :: "image \<Rightarrow> u32 \<Rightarrow> u32 option" where
  "block_length img i = do {
     h \<leftarrow> rd img (i + 2);
     l \<leftarrow> rd img (i + 3);
     Some (256 * ucast h + ucast l)
   }"

section \<open>The thumbnails\<close>

text \<open>
  The segments of one thumbnail, the first \<open>w\<close> bytes long at \<open>i\<close>. The first argument is the
  number of planes that are free.
\<close>

primrec thumb_blocks :: "nat \<Rightarrow> image \<Rightarrow> u32 \<Rightarrow> u32 \<Rightarrow> u32 \<Rightarrow> plane_infos \<Rightarrow> (int + u32 \<times> plane_infos) option" where
  "thumb_blocks 0 img len i w ps = Some (Inl (- EINVAL))"
| "thumb_blocks (Suc n) img len i w ps = do {
     let ps1 = ps @ [(i, w)];
     let i1 = i + w;
     eoi \<leftarrow> marker img TAG EOI (i1 - 2);
     if eoi then Some (Inr (i1, ps1))
     else do {
       app2 \<leftarrow> (if i1 + 4 < len then marker img TAG APP2 i1 else Some False);
       if app2 then do {
         block_size \<leftarrow> block_length img i1;
         let block_end = i1 + 2 + block_size;
         let i2 = i1 + 2 + 2;
         thumb_blocks n img len i2 (block_end - i2) ps1
       } else Some (Inl (- EINVAL))
     }
   }"

lemma next_index: "(i :: u32) < n \<Longrightarrow> unat (i + 1) = unat i + 1"
  by unat_arith

lemma u32_bound: "unat (i :: u32) < 4294967296"
  using unsigned_less [of i] by simp

lemma below_top: "k < 4294967296 \<Longrightarrow> k - unat (i :: u32) < 4294967296 - unat i"
  using u32_bound [of i] by arith

lemma next_block: "(i :: u32) < len - 1 \<Longrightarrow> i < len - 4 \<Longrightarrow> unat (4 + i) = unat i + 4"
proof -
  assume i: "i < len - 1" "i < len - 4"
  have "unat i + 4 < 2 ^ 32"
  proof (cases "4 \<le> len")
    case True
    then have "unat (len - 4) = unat len - 4" by (simp add: unat_sub)
    with i(2) have "unat i < unat len - 4" by (simp add: word_less_nat_alt)
    then show ?thesis using u32_bound [of len] by simp
  next
    case False
    then have "unat len < 4" by (simp add: word_le_nat_alt)
    then have "unat len = 0 \<or> unat len = 1 \<or> unat len = 2 \<or> unat len = 3" by arith
    then have "len = of_nat 0 \<or> len = of_nat 1 \<or> len = of_nat 2 \<or> len = of_nat 3"
      by (metis of_nat_unat ucast_id)
    then show ?thesis using i by (auto simp: word_less_nat_alt)
  qed
  then show ?thesis by (simp add: add.commute [of 4] unat_add_lem [of i 4, THEN iffD1])
qed

text \<open>The main loop, from \<open>i\<close>; \<open>Inr\<close> when it is left by its condition or a \<^verbatim>\<open>break\<close>.\<close>

function parse_from :: "image \<Rightarrow> u32 \<Rightarrow> u32 \<Rightarrow> u32 \<Rightarrow> u32 \<Rightarrow> nat \<Rightarrow> plane_infos \<Rightarrow> (int + plane_infos) option" where
  "parse_from img len i block_size block_end thumbs ps =
     (if \<not> i < len - 1 then Some (Inr ps)
      else case rd img i of
        None \<Rightarrow> None
      | Some a \<Rightarrow>
          if a \<noteq> TAG then parse_from img len (i + 1) block_size block_end thumbs ps
          else case rd img (i + 1) of
            None \<Rightarrow> None
          | Some b \<Rightarrow>
              if b = APP1 \<or> b = APP2 then
                (if i \<ge> len - 4 then Some (Inr ps)
                 else case block_length img i of
                   None \<Rightarrow> None
                 | Some n \<Rightarrow> parse_from img len (i + 3 + 1) n (i + 2 + n) thumbs ps)
              else if b = SOI \<and> block_size \<noteq> 0 then
                (let w = block_end - i
                 in if i + w > len then Some (Inr ps)
                    else case thumb_blocks (MAX_PLANE - length ps) img len i w ps of
                      None \<Rightarrow> None
                    | Some (Inl e) \<Rightarrow> Some (Inl e)
                    | Some (Inr (i1, ps1)) \<Rightarrow>
                        if thumbs + 1 > 1 then Some (Inr ps1)
                        else parse_from img len (i1 - 1 + 1) 0 0 (thumbs + 1) ps1)
              else parse_from img len (i + 1) block_size block_end thumbs ps)"
  by pat_completeness auto

termination
  by (relation "measures [\<lambda>(img, len, i, bs, be, thumbs, ps). 2 - thumbs,
        \<lambda>(img, len, i, bs, be, thumbs, ps). 2 ^ 32 - unat i]")
    (auto simp: not_le u32_bound next_block next_index intro!: below_top)

declare parse_from.simps [simp del]

text \<open>\<open>buffer.info\<close> is only changed on success: the planes are the main image and the thumbnails.\<close>

definition ParseThumb :: "image \<Rightarrow> u32 \<Rightarrow> (int \<times> plane_infos option) option" where
  "ParseThumb img len = do {
     r \<leftarrow> parse_from img len 0 0 0 0 [(0, len)];
     (case r of
        Inl e \<Rightarrow> Some (e, None)
      | Inr ps \<Rightarrow>
          if length ps > 1 then
            (let start = fst (last ps) + snd (last ps) in Some (0, Some (ps[0 := (start, len - start)])))
          else Some (0, Some ps))
   }"

end
