(* ===== verification/Thumbnail_Claims.thy ===== *)
theory Thumbnail_Claims
  imports Thumbnail
begin

text \<open>
  What the search for thumbnails finds in a well-formed image, and what it reads in one that is not.
\<close>

section \<open>Skipping\<close>

text \<open>Nothing starts at \<open>k\<close>; \<open>seen\<close> tells whether an application segment has been seen.\<close>

definition quiet :: "image \<Rightarrow> bool \<Rightarrow> nat \<Rightarrow> bool" where
  "quiet img seen k \<longleftrightarrow>
     img ! k \<noteq> TAG \<or> img ! (k + 1) \<noteq> APP1 \<and> img ! (k + 1) \<noteq> APP2 \<and> (img ! (k + 1) = SOI \<longrightarrow> \<not> seen)"

lemma unat_small [simp]: "k < 2 ^ 32 \<Longrightarrow> unat (of_nat k :: u32) = k"
  by (simp add: unat_of_nat)

lemma less_small: "k < 2 ^ 32 \<Longrightarrow> m < 2 ^ 32 \<Longrightarrow> (of_nat k :: u32) < of_nat m \<longleftrightarrow> k < m"
  by (simp add: word_less_nat_alt)

lemma rd_small: "k < length img \<Longrightarrow> length img < 2 ^ 32 \<Longrightarrow> rd img (of_nat k) = Some (img ! k)"
  by (simp add: rd_def)

lemma rd_next: "k + 1 < length img \<Longrightarrow> length img < 2 ^ 32 \<Longrightarrow> rd img (of_nat k + 1) = Some (img ! (k + 1))"
  using rd_small [of "k + 1" img] by (simp add: add.commute)

lemma last_index: "0 < m \<Longrightarrow> (of_nat m :: u32) - 1 = of_nat (m - 1)"
  by (cases m) simp_all

lemma before_last: "k + 1 < m \<Longrightarrow> m < 2 ^ 32 \<Longrightarrow> (of_nat k :: u32) < of_nat m - 1"
proof -
  assume m: "k + 1 < m" "m < 2 ^ 32"
  then obtain n where n: "m = Suc n" by (cases m) auto
  then have "(of_nat k :: u32) < of_nat n" using m less_small [of k n] by simp
  then show ?thesis by (simp add: n)
qed

lemma skip_one:
  assumes "quiet img (bs \<noteq> 0) k" "k + 1 < length img" "length img < 2 ^ 32"
  shows "parse_from img (of_nat (length img)) (of_nat k) bs be th ps =
    parse_from img (of_nat (length img)) (of_nat (k + 1)) bs be th ps"
proof -
  have "(of_nat k :: u32) < of_nat (length img) - 1" by (rule before_last [OF assms(2,3)])
  then show ?thesis using assms rd_small [of k img] rd_next [of k img]
    by (subst parse_from.simps) (auto simp: quiet_def add.commute)
qed

lemma skip_to:
  assumes "k \<le> m" "m < length img" "length img < 2 ^ 32" "\<And>x. k \<le> x \<Longrightarrow> x < m \<Longrightarrow> quiet img (bs \<noteq> 0) x"
  shows "parse_from img (of_nat (length img)) (of_nat k) bs be th ps =
    parse_from img (of_nat (length img)) (of_nat m) bs be th ps"
  using assms(1,2,4)
proof (induction m rule: dec_induct)
  case (step m)
  then show ?case using skip_one [of img bs m be th ps] assms(3) by simp
qed simp

lemma skip_rest:
  assumes "length img < 2 ^ 32" "\<And>x. k \<le> x \<Longrightarrow> x + 1 < length img \<Longrightarrow> quiet img (bs \<noteq> 0) x" "k \<le> length img"
    "0 < length img"
  shows "parse_from img (of_nat (length img)) (of_nat k) bs be th ps = Some (Inr ps)"
proof (cases "k < length img")
  case True
  let ?m = "length img - 1"
  have "parse_from img (of_nat (length img)) (of_nat k) bs be th ps =
      parse_from img (of_nat (length img)) (of_nat ?m) bs be th ps"
    using True assms(1,2) by (intro skip_to) auto
  also have "\<dots> = Some (Inr ps)" using assms(4) by (subst parse_from.simps) (simp add: last_index)
  finally show ?thesis .
next
  case False
  with assms(3) have "k = length img" by simp
  moreover have "\<not> (of_nat (length img) :: u32) < of_nat (length img) - 1"
    using assms(1,4) by (simp add: last_index less_small del: of_nat_diff)
  ultimately show ?thesis by (subst parse_from.simps) simp
qed

section \<open>Segments and thumbnails\<close>

lemma marker_small:
  "k + 1 < length img \<Longrightarrow> length img < 2 ^ 32 \<Longrightarrow>
    marker img a b (of_nat k) = Some (img ! k = a \<and> img ! (k + 1) = b)"
  by (simp add: marker_def rd_small rd_next)

lemma enter_segment:
  assumes "img ! k = TAG" "img ! (k + 1) = APP1" "k + 4 < length img" "length img < 2 ^ 32"
    "n = 256 * unat (img ! (k + 2)) + unat (img ! (k + 3))"
  shows "parse_from img (of_nat (length img)) (of_nat k) bs be th ps =
    parse_from img (of_nat (length img)) (of_nat (k + 4)) (of_nat n) (of_nat (k + 2 + n)) th ps"
proof -
  have 1: "(of_nat k :: u32) < of_nat (length img) - 1"
    using assms(3,4) by (intro before_last) simp_all
  obtain r where r: "length img = r + 4" "k < r" using assms(3) by (metis add.commute add_less_cancel_right le_Suc_ex less_imp_le_nat trans_less_add2 le_add2 order_trans)
  then have "(of_nat k :: u32) < of_nat r" using assms(4) less_small [of k r] by simp
  then have 2: "\<not> (of_nat (length img) :: u32) - 4 \<le> of_nat k" by (simp add: r)
  have "block_length img (of_nat k) = Some (of_nat n)"
    using rd_small [of "k + 2" img] rd_small [of "k + 3" img] assms(3,4,5)
    by (simp add: block_length_def add.commute)
  then show ?thesis using 1 2 assms rd_small [of k img] rd_next [of k img]
    by (subst parse_from.simps) (simp add: ac_simps)
qed

lemma one_block:
  assumes "j = k + w" "2 \<le> j" "j \<le> length img" "length img < 2 ^ 32" "img ! (j - 2) = TAG" "img ! (j - 1) = EOI"
  shows "thumb_blocks (Suc n) img len (of_nat k) (of_nat w) ps = Some (Inr (of_nat j, ps @ [(of_nat k, of_nat w)]))"
proof -
  have "(of_nat k :: u32) + of_nat w - 2 = of_nat (j - 2)" using assms(1,2) by (simp add: of_nat_diff)
  moreover have "j - 2 + 1 = j - 1" using assms(2) by simp
  ultimately show ?thesis using marker_small [of "j - 2" img TAG EOI] assms by simp
qed

lemma take_thumbnail:
  assumes "img ! k = TAG" "img ! (k + 1) = SOI" "bs \<noteq> 0" "j = k + w" "2 \<le> w" "j \<le> length img" "length img < 2 ^ 32"
    "img ! (j - 2) = TAG" "img ! (j - 1) = EOI"
  shows "parse_from img (of_nat (length img)) (of_nat k) bs (of_nat j) 0 [p] =
    parse_from img (of_nat (length img)) (of_nat j) 0 0 1 [p, (of_nat k, of_nat w)]"
proof -
  have 1: "(of_nat k :: u32) < of_nat (length img) - 1" "k + 1 < length img"
    using assms(4-7) by (auto intro!: before_last)
  have w: "(of_nat j :: u32) - of_nat k = of_nat w" using assms(4) by simp
  have 2: "\<not> (of_nat (length img) :: u32) < of_nat k + of_nat w"
    using assms(4,6,7) less_small [of "length img" j] by simp
  have 3: "thumb_blocks 7 img (of_nat (length img)) (of_nat k) (of_nat w) [p] =
      Some (Inr (of_nat j, [p, (of_nat k, of_nat w)]))"
    using one_block [OF assms(4) _ assms(6,7,8,9), of 6 "of_nat (length img)" "[p]"] assms(4,5)
    by (simp add: eval_nat_numeral)
  show ?thesis using assms(1-3) 1 2 3 w rd_small [of k img] rd_next [of k img] assms(7)
    by (subst parse_from.simps) (simp add: Let_def)
qed

section \<open>Properties\<close>

text \<open>The bytes of a plane.\<close>

definition slice :: "image \<Rightarrow> u32 \<times> u32 \<Rightarrow> image" where
  "slice img p = take (unat (snd p)) (drop (unat (fst p)) img)"

lemma slice_part:
  assumes "img = a @ b @ c" "length img < 2 ^ 32" "k = length a"
  shows "slice img (of_nat k, of_nat (length b)) = b"
proof -
  have "unat (of_nat k :: u32) = k" "unat (of_nat (length b) :: u32) = length b" using assms by simp_all
  then show ?thesis using assms by (simp add: slice_def)
qed

text \<open>
  C13. In an image with one application segment that ends with a thumbnail, the search finds the
  thumbnail and the image behind it: the first plane is what follows the segment, the second the
  thumbnail, byte for byte.
\<close>

theorem thumbnail_found:
  assumes "img = pre @ [TAG, APP1, h, l] @ c @ th @ rest" "length img < 2 ^ 32"
    "256 * unat h + unat l = 2 + length c + length th"
    "th = [TAG, SOI] @ body @ [TAG, EOI]"
    "\<And>k. k < length pre \<Longrightarrow> quiet img False k"
    "\<And>k. length pre + 4 \<le> k \<Longrightarrow> k < length pre + 4 + length c \<Longrightarrow> quiet img True k"
    "\<And>k. length img - length rest \<le> k \<Longrightarrow> k + 1 < length img \<Longrightarrow> quiet img False k"
  shows "\<exists>ps. ParseThumb img (of_nat (length img)) = Some (0, Some ps) \<and> map (slice img) ps = [rest, th]"
proof -
  let ?i = "length pre" and ?k = "length pre + 4 + length c" and ?n = "2 + length c + length th"
  let ?j = "?k + length th" and ?len = "of_nat (length img) :: u32"
  have len: "length img = ?j + length rest" "4 \<le> length th" using assms(1,4) by simp_all
  have at: "img ! ?i = TAG" "img ! (?i + 1) = APP1" "img ! (?i + 2) = h" "img ! (?i + 3) = l"
    "img ! ?k = TAG" "img ! (?k + 1) = SOI" "img ! (?j - 2) = TAG" "img ! (?j - 1) = EOI"
    using assms(1,4) by (simp_all add: nth_append)
  have n0: "(of_nat ?n :: u32) \<noteq> 0"
  proof -
    have "unat (of_nat ?n :: u32) = ?n" using len assms(2) by (intro unat_small) simp
    then show ?thesis by (metis add_2_eq_Suc nat.distinct(1) add.assoc unat_0)
  qed
  have "parse_from img ?len 0 0 0 0 [(0, ?len)] = parse_from img ?len (of_nat ?i) 0 0 0 [(0, ?len)]"
    using skip_to [of 0 ?i img 0 0 0 "[(0, ?len)]"] assms(2,5) len by simp
  also have "\<dots> = parse_from img ?len (of_nat (?i + 4)) (of_nat ?n) (of_nat ?j) 0 [(0, ?len)]"
  proof -
    have "?j = ?i + 2 + ?n" by simp
    moreover have "?i + 4 < length img" using len by linarith
    moreover have "?n = 256 * unat (img ! (?i + 2)) + unat (img ! (?i + 3))" using at(3,4) assms(3) by simp
    ultimately show ?thesis by (metis enter_segment [OF at(1,2) _ assms(2)])
  qed
  also have "\<dots> = parse_from img ?len (of_nat ?k) (of_nat ?n) (of_nat ?j) 0 [(0, ?len)]"
    using n0 assms(2,6) len by (intro skip_to) auto
  also have "\<dots> = parse_from img ?len (of_nat ?j) 0 0 1 [(0, ?len), (of_nat ?k, of_nat (length th))]"
    using take_thumbnail [OF at(5,6) n0 refl] at(7,8) len assms(2) by simp
  also have "\<dots> = Some (Inr [(0, ?len), (of_nat ?k, of_nat (length th))])"
    using assms(2,7) len by (intro skip_rest) auto
  finally have r: "ParseThumb img ?len =
      Some (0, Some [(of_nat ?j, ?len - of_nat ?j), (of_nat ?k, of_nat (length th))])"
    by (simp add: ParseThumb_def Let_def)
  have "?len - of_nat ?j = of_nat (length rest)" using len by simp
  moreover have "slice img (of_nat ?j, of_nat (length rest)) = rest"
    by (rule slice_part [of img "pre @ [TAG, APP1, h, l] @ c @ th" rest "[]"]) (use assms(1,2) in simp_all)
  moreover have "slice img (of_nat ?k, of_nat (length th)) = th"
    by (rule slice_part [of img "pre @ [TAG, APP1, h, l] @ c" th rest]) (use assms(1,2) in simp_all)
  ultimately show ?thesis using r by simp
qed

definition small_jpeg :: image where
  "small_jpeg = [TAG, SOI, TAG, APP1, 0, 7, 1, TAG, SOI, TAG, EOI, 5, 6]"

lemma small_jpeg_quiet:
  "k < 2 \<Longrightarrow> quiet small_jpeg False k" "6 \<le> k \<Longrightarrow> k < 7 \<Longrightarrow> quiet small_jpeg True k"
  "11 \<le> k \<Longrightarrow> k < 12 \<Longrightarrow> quiet small_jpeg False k"
proof -
  show "quiet small_jpeg False k" if "k < 2"
  proof -
    have "k = 0 \<or> k = 1" using that by arith
    then show ?thesis by (auto simp: quiet_def small_jpeg_def)
  qed
  show "quiet small_jpeg True k" if "6 \<le> k" "k < 7"
    using that le_antisym [of k 6] by (simp add: quiet_def small_jpeg_def)
  show "quiet small_jpeg False k" if "11 \<le> k" "k < 12"
    using that le_antisym [of k 11] by (simp add: quiet_def small_jpeg_def)
qed

theorem thumbnail_found_witness:
  "\<exists>ps. ParseThumb small_jpeg 13 = Some (0, Some ps) \<and> map (slice small_jpeg) ps = [[5, 6], [TAG, SOI, TAG, EOI]]"
proof -
  have len: "length small_jpeg = 13" by (simp add: small_jpeg_def)
  have "\<exists>ps. ParseThumb small_jpeg (of_nat (length small_jpeg)) = Some (0, Some ps) \<and>
      map (slice small_jpeg) ps = [[5, 6], [TAG, SOI, TAG, EOI]]"
    by (rule thumbnail_found [of small_jpeg "[TAG, SOI]" 0 7 "[1]" "[TAG, SOI, TAG, EOI]" "[5, 6]" "[]"])
      (simp_all add: len small_jpeg_quiet, simp add: small_jpeg_def)
  then show ?thesis by (simp add: len)
qed

text \<open>
  A thumbnail that goes on in a second segment is followed without a look at the size of the
  image: the length field of that segment makes the search read behind the mapped buffer.
\<close>

theorem thumbnail_overrun:
  "ParseThumb [TAG, APP1, 0, 6, TAG, SOI, 0, 0, TAG, APP2, 1, 0, 0, 0] 14 = None"
  by code_simp

end
