(* ===== verification/Track_Source.thy ===== *)
theory Track_Source
  imports Frame_Rate Recorder
begin

text \<open>
  A video track of the recorder: it takes frames from a camera port, another track or a rescaler
  and gives them to the client or to an encoder, until they come back. Source:
  \<^verbatim>\<open>recorder/src/service/qmmf_camera_source.{h,cc}\<close> (\<^verbatim>\<open>TrackSource\<close>). This theory has what a track
  does with frames; \<open>Camera_Source\<close> has how it is connected, started and stopped.

  A call that leaves the track is an entry of \<open>tlog\<close>. \<open>None\<close> is a failed assertion, the use of a null
  pointer or a division by zero. Each method is one step: its locks order the parts that matter.
\<close>

section \<open>State\<close>

text \<open>A frame with the members of \<^verbatim>\<open>StreamBuffer\<close> that only tracks use.\<close>

record qbuf =
  q_buffer :: StreamBuffer
  pending_encodes_per_frame :: u32
  encodes_per_frame_count :: u32
  needs_return :: bool

datatype stream_op = S_create | S_delete | S_start | S_stop | S_pause | S_resume | S_add | S_remove

datatype rescaler_op = R_init | R_start | R_stop | R_add | R_remove

datatype track_call = Returned StreamBuffer \<comment> \<open>\<^verbatim>\<open>NotifyBufferReturned\<close> of the producer\<close>
  | To_client StreamBuffer | To_consumer consumer StreamBuffer
  | Port_call stream_op u32 | Rescaler_call rescaler_op u32

text \<open>
  \<open>linked\<close> tells whether the consumer of the track has a producer handle, \<open>time_lapse\<close> is the interval
  in time-lapse mode, \<open>has_rescaler\<close>, \<open>slave_track_source\<close> and \<open>master_track\<close> how the track gets its frames.
\<close>

record track =
  params_id :: u32
  params_camera :: u32
  params_width :: u32
  params_height :: u32
  params_format :: VideoFormat
  linked :: bool
  is_stop :: bool
  is_paused :: bool
  eos_acked :: bool
  is_idle :: bool
  buffer_list :: "(u32, qbuf) kv"
  buffers_map :: "(nat, handle) kv"
  frames_received :: "qbuf list"
  frames_being_encoded :: "qbuf list"
  enable_frame_repeat :: bool
  frame_repeat_ts_prev :: u64
  frame_repeat_ts_curr :: u64
  time_lapse :: "u32 option"
  time_stamp :: u64
  buffer_map :: "(handle, u32) kv"
  stream_buffer_map :: "(handle, StreamBuffer) kv"
  num_consumers :: u32
  own_producer :: producer
  fsc :: frc
  frc_of :: frc
  has_rescaler :: bool
  slave_track_source :: bool
  master_track :: "nat option"
  tlog :: "track_call list"

text \<open>
  The parameters of a track: its id, camera, size and format and the interval of the time-lapse mode.
  \<open>rate\<close> sets the frame rate of a controller.
\<close>

definition TrackSource :: "u32 \<Rightarrow> u32 \<Rightarrow> u32 \<Rightarrow> u32 \<Rightarrow> VideoFormat \<Rightarrow> u32 option \<Rightarrow> bool \<times> int \<Rightarrow> track" where
  "TrackSource i cam w h f lapse rate =
     \<lparr>params_id = i, params_camera = cam, params_width = w, params_height = h, params_format = f, linked = False,
      is_stop = False, is_paused = False, eos_acked = False, is_idle = True, buffer_list = [], buffers_map = [],
      frames_received = [], frames_being_encoded = [], enable_frame_repeat = False, frame_repeat_ts_prev = 0,
      frame_repeat_ts_curr = 0, time_lapse = lapse, time_stamp = 0, buffer_map = [], stream_buffer_map = [],
      num_consumers = 0, own_producer = BufferProducerImpl,
      fsc = snd (SetFrameRate (fst rate) (snd rate) FrameRateController),
      frc_of = snd (SetFrameRate (fst rate) (snd rate) FrameRateController),
      has_rescaler = False, slave_track_source = False, master_track = None, tlog = []\<rparr>"

definition jot :: "track_call \<Rightarrow> track \<Rightarrow> track" where
  "jot c t = t\<lparr>tlog := tlog t @ [c]\<rparr>"

section \<open>Returning a frame\<close>

text \<open>The call of the producer handle.\<close>

definition give_back :: "StreamBuffer \<Rightarrow> track \<Rightarrow> track option" where
  "give_back b t = (if linked t then Some (jot (Returned b) t) else None)"

definition ReturnBufferToProducer :: "StreamBuffer \<Rightarrow> track \<Rightarrow> track option" where
  "ReturnBufferToProducer b t =
     (case kv_find (buffer_map t) (b_handle b) of
        None \<Rightarrow> Some t
      | Some n \<Rightarrow>
          if n = 1 then
            give_back b (t\<lparr>buffer_map := kv_remove (b_handle b) (buffer_map t),
                           stream_buffer_map := kv_remove (b_handle b) (stream_buffer_map t)\<rparr>)
          else if num_consumers t = 0 \<and> has_rescaler t then
            map_option (\<lambda>t1. t1\<lparr>buffer_map := kv_remove (b_handle b) (buffer_map t1)\<rparr>)
              (give_back b (t\<lparr>buffer_map := kv_add (b_handle b) (n - 1) (buffer_map t),
                              stream_buffer_map := kv_remove (b_handle b) (stream_buffer_map t)\<rparr>))
          else Some (t\<lparr>buffer_map := kv_add (b_handle b) (n - 1) (buffer_map t)\<rparr>))"

definition NotifyBufferReturned :: "StreamBuffer \<Rightarrow> track \<Rightarrow> track option" where
  "NotifyBufferReturned b t = ReturnBufferToProducer b t"

primrec return_all :: "StreamBuffer list \<Rightarrow> track \<Rightarrow> track option" where
  "return_all [] t = Some t"
| "return_all (b # bs) t = do { t1 \<leftarrow> ReturnBufferToProducer b t; return_all bs t1 }"

section \<open>Frames\<close>

definition IsStop :: "track \<Rightarrow> bool" where
  "IsStop t = is_stop t"

definition IsPaused :: "track \<Rightarrow> bool" where
  "IsPaused t = is_paused t"

text \<open>
  How often a frame is encoded. The input rate and interval are members that nothing sets: whether
  the input is slower and the number of repetitions it makes are arguments.
\<close>

definition CalculateEncodesPerFrame :: "bool \<Rightarrow> u32 \<Rightarrow> track \<Rightarrow> u32" where
  "CalculateEncodesPerFrame slower n t = (if \<not> enable_frame_repeat t \<or> \<not> slower then 1 else n)"

definition EnableFrameRepeat :: "bool \<Rightarrow> track \<Rightarrow> track" where
  "EnableFrameRepeat e t = t\<lparr>enable_frame_repeat := e, frc_of := Frame_Rate.EnableFrameRepeat e (frc_of t)\<rparr>"

text \<open>\<open>far\<close>: the new rate differs by more than 0.1.\<close>

definition UpdateFrameRate :: "bool \<Rightarrow> bool \<Rightarrow> bool \<times> int \<Rightarrow> track \<Rightarrow> track option" where
  "UpdateFrameRate positive far rate t =
     (if \<not> positive then None
      else if far then Some (t\<lparr>fsc := snd (SetFrameRate (fst rate) (snd rate) (fsc t)),
                               frc_of := snd (SetFrameRate (fst rate) (snd rate) (frc_of t))\<rparr>)
      else Some t)"

definition PushFrameToQueue :: "qbuf \<Rightarrow> track \<Rightarrow> track" where
  "PushFrameToQueue q t = t\<lparr>frames_received := frames_received t @ [q]\<rparr>"

text \<open>The calls of the producer of the track, whose source is the track.\<close>

primrec own_calls :: "exchange_call list \<Rightarrow> track \<Rightarrow> track option" where
  "own_calls [] t = Some t"
| "own_calls (c # cs) t =
     (case c of
        ToConsumer k b \<Rightarrow> own_calls cs (jot (To_consumer k b) t)
      | ToSource b \<Rightarrow> do { t1 \<leftarrow> NotifyBufferReturned b t; own_calls cs t1 })"

text \<open>The consumers of the track, which hold one reference together.\<close>

definition feed_consumers :: "(consumer \<Rightarrow> StreamBuffer \<Rightarrow> bool) \<Rightarrow> StreamBuffer \<Rightarrow> track \<Rightarrow> track option" where
  "feed_consumers prompt b t =
     (if num_consumers t > 0 then
        (case kv_find (buffer_map t) (b_handle b) of
           None \<Rightarrow> None
         | Some n \<Rightarrow>
             let t1 = t\<lparr>buffer_map := kv_add (b_handle b) (n + 1) (buffer_map t)\<rparr>;
                 (p, cs) = NotifyBuffer prompt b (own_producer t1)
             in own_calls cs (t1\<lparr>own_producer := p\<rparr>))
      else Some t)"

definition give_client :: "qbuf \<Rightarrow> track \<Rightarrow> track" where
  "give_client q t =
     jot (To_client (q_buffer q))
       (t\<lparr>buffer_list := emplace (word_of_int (b_fd (q_buffer q))) q (buffer_list t), is_idle := False\<rparr>)"

text \<open>The first section of \<open>OnFrameAvailable\<close>, under \<^verbatim>\<open>frame_lock_\<close>, and what follows it without that lock.\<close>

definition register_frame :: "qbuf \<Rightarrow> track \<Rightarrow> track" where
  "register_frame q t =
     (let b = q_buffer q
      in t\<lparr>buffer_map := emplace (b_handle b) 1 (buffer_map t),
           stream_buffer_map := emplace (b_handle b) b (stream_buffer_map t)\<rparr>)"

definition deliver_frame :: "bool \<Rightarrow> u32 \<Rightarrow> (consumer \<Rightarrow> StreamBuffer \<Rightarrow> bool) \<Rightarrow> qbuf \<Rightarrow> track \<Rightarrow> track option" where
  "deliver_frame slower n prompt q t =
     (let b = q_buffer q;
          k = CalculateEncodesPerFrame slower n t;
          q1 = (if time_lapse t = None
                then q\<lparr>needs_return := False, pending_encodes_per_frame := k, encodes_per_frame_count := k\<rparr> else q)
      in if eos_acked t \<and> IsStop t \<and> encoded (params_format t) then ReturnBufferToProducer b t
         else do {
           t1 \<leftarrow> feed_consumers prompt b t;
           if IsPaused t1 then ReturnBufferToProducer b t1
           else if \<not> encoded (params_format t1)
           then (if IsStop t1 then ReturnBufferToProducer b t1 else Some (give_client q1 t1))
           else Some (PushFrameToQueue q1 t1)
         })"

definition OnFrameAvailable :: "bool \<Rightarrow> u32 \<Rightarrow> (consumer \<Rightarrow> StreamBuffer \<Rightarrow> bool) \<Rightarrow> qbuf \<Rightarrow> track \<Rightarrow> track option" where
  "OnFrameAvailable slower n prompt q t = deliver_frame slower n prompt q (register_frame q t)"

section \<open>The client\<close>

primrec return_fds :: "u32 list \<Rightarrow> track \<Rightarrow> track option" where
  "return_fds [] t = Some t"
| "return_fds (fd # fds) t = do {
     q \<leftarrow> kv_find (buffer_list t) fd;
     t1 \<leftarrow> ReturnBufferToProducer (q_buffer q) t;
     return_fds fds (t1\<lparr>buffer_list := kv_remove fd (buffer_list t1)\<rparr>)
   }"

definition ReturnTrackBuffer :: "u32 list \<Rightarrow> track \<Rightarrow> (int \<times> track) option" where
  "ReturnTrackBuffer fds t =
     (if fds = [] then None
      else do {
        t1 \<leftarrow> return_fds fds t;
        Some (NO_ERROR, if buffer_list t1 = [] then t1\<lparr>is_idle := True\<rparr> else t1)
      })"

text \<open>The formats for which \<open>Flush\<close> gives the frames of the client back.\<close>

definition flushed_format :: "VideoFormat \<Rightarrow> bool" where
  "flushed_format f = (\<not> encoded f \<and> f \<noteq> VideoFormat.kBayerRDI16BIT)"

definition Flush :: "track \<Rightarrow> (int \<times> track) option" where
  "Flush t =
     (if flushed_format (params_format t) then do {
        t1 \<leftarrow> return_all (map (\<lambda>p. q_buffer (snd p)) (buffer_list t)) t;
        Some (NO_ERROR, t1\<lparr>buffer_list := [], is_idle := True\<rparr>)
      } else Some (NO_ERROR, t))"

section \<open>The encoder\<close>

text \<open>
  \<open>ws\<close> are the outcomes of the waits for a frame: whether the wait timed out and the track when the
  lock is held again. When there are no more, the wait times out.
\<close>

fun wait_frame :: "(bool \<times> track) list \<Rightarrow> track \<Rightarrow> track option" where
  "wait_frame ws t =
     (if frames_received t \<noteq> [] then Some t
      else case ws of
        [] \<Rightarrow> None
      | (timedout, t1) # ws1 \<Rightarrow> if timedout \<and> \<not> IsPaused t1 then None else wait_frame ws1 t1)"

declare wait_frame.simps [simp del]

text \<open>What the encoder gets: the pointer of the buffer and its time stamp.\<close>

record descriptor =
  d_data :: nat
  d_buffer :: StreamBuffer
  d_timestamp :: u64

abbreviation (input) kTsFactor :: u64 where "kTsFactor \<equiv> 10000000"

definition next_frame :: "(handle \<Rightarrow> nat) \<Rightarrow> track \<Rightarrow> (descriptor \<times> track) option" where
  "next_frame alloc t =
     (case frames_received t of
        [] \<Rightarrow> None
      | q # qs \<Rightarrow>
          let b = q_buffer q; data = alloc (b_handle b); ts = word_of_int (b_timestamp b);
              t1 = t\<lparr>buffers_map := kv_add data (b_handle b) (buffers_map t)\<rparr>
          in case time_lapse t1 of
               Some interval \<Rightarrow>
                 let stamp = time_stamp t1 + ucast (interval * 1000000)
                 in Some (\<lparr>d_data = data, d_buffer = b, d_timestamp = stamp\<rparr>,
                      t1\<lparr>frames_being_encoded := frames_being_encoded t1 @ [q\<lparr>needs_return := True\<rparr>],
                         frames_received := qs, time_stamp := stamp\<rparr>)
             | None \<Rightarrow>
                 if encodes_per_frame_count q = 0 then None
                 else
                   let factor = (ts - frame_repeat_ts_prev t1) div ucast (encodes_per_frame_count q) - kTsFactor;
                       stamp = (if encodes_per_frame_count q \<noteq> pending_encodes_per_frame q
                                then frame_repeat_ts_curr t1 + factor else ts);
                       q1 = q\<lparr>pending_encodes_per_frame := pending_encodes_per_frame q - 1\<rparr>;
                       last = (pending_encodes_per_frame q1 = 0);
                       q2 = (if last then q1\<lparr>needs_return := True\<rparr> else q1)
                   in Some (\<lparr>d_data = data, d_buffer = b, d_timestamp = stamp\<rparr>,
                        t1\<lparr>frame_repeat_ts_curr := stamp,
                           frame_repeat_ts_prev := (if last then ts else frame_repeat_ts_prev t1),
                           frames_being_encoded := frames_being_encoded t1 @ [q2],
                           frames_received := (if last then qs else q2 # qs)\<rparr>))"

definition GetBuffer :: "(handle \<Rightarrow> nat) \<Rightarrow> (bool \<times> track) list \<Rightarrow> track \<Rightarrow> (int \<times> descriptor \<times> track) option" where
  "GetBuffer alloc ws t = do {
     t1 \<leftarrow> wait_frame ws t;
     (d, t2) \<leftarrow> next_frame alloc t1;
     Some (if IsStop t2 then -1 else NO_ERROR, d, t2)
   }"

text \<open>The loop over the frames that are being encoded: the frames before, the one found, those behind.\<close>

fun split_handle :: "handle \<Rightarrow> qbuf list \<Rightarrow> (qbuf list \<times> qbuf \<times> qbuf list) option" where
  "split_handle h [] = None"
| "split_handle h (q # qs) =
     (if b_handle (q_buffer q) = h then Some ([], q, qs)
      else map_option (\<lambda>(xs, x, ys). (q # xs, x, ys)) (split_handle h qs))"

definition ReturnBuffer :: "nat \<Rightarrow> track \<Rightarrow> (int \<times> track) option" where
  "ReturnBuffer data t = do {
     h \<leftarrow> kv_find (buffers_map t) data;
     (xs, q, ys) \<leftarrow> split_handle h (frames_being_encoded t);
     t1 \<leftarrow> (if needs_return q then ReturnBufferToProducer (q_buffer q) t else Some t);
     Some (NO_ERROR, t1\<lparr>frames_being_encoded := xs @ ys, buffers_map := kv_remove data (buffers_map t1)\<rparr>)
   }"

definition ClearInputQueue :: "track \<Rightarrow> track option" where
  "ClearInputQueue t =
     (if \<not> linked t then None
      else map_option (\<lambda>t1. t1\<lparr>frames_received := []\<rparr>) (return_all (map q_buffer (frames_received t)) t))"

end
