(* ===== verification/Camera_Source.thy ===== *)
theory Camera_Source
  imports Track_Source
begin

text \<open>
  The tracks of the recorder with the ports, controllers and other tracks that feed them, and the
  class that owns cameras and tracks. Source: \<^verbatim>\<open>recorder/src/service/qmmf_camera_source.cc\<close>
  (\<^verbatim>\<open>CameraSource\<close>, and \<^verbatim>\<open>TrackSource\<close> where it is connected, started and stopped), and the ports of
  \<^verbatim>\<open>qmmf_camera_context.cc\<close> as far as tracks use them.

  Tracks are objects that outlive their entry in \<^verbatim>\<open>track_sources_\<close> while another track reads from
  them: an object is its index in \<open>objs\<close>. What the camera context, its ports and the rescalers answer
  is a parameter. \<open>None\<close> is a failed assertion or the use of a null pointer.
\<close>

section \<open>State\<close>

datatype context_op = X_open | X_close | X_capture | X_config | X_setup | X_cancel | X_return_all | X_return
  | X_set | X_get | X_default | X_characteristics

record camera_source =
  camera_map :: "(u32, unit) kv"
  track_sources :: "(u32, nat) kv"
  rescalers :: "(u32, unit) kv"
  active_ports :: "(u32, producer) kv"
  objs :: "track list"
  contexts :: "(context_op \<times> u32) list" \<comment> \<open>the calls of camera contexts\<close>

record source_env =
  context_reply :: "context_op \<Rightarrow> u32 \<Rightarrow> int"
  port_reply :: "stream_op \<Rightarrow> u32 \<Rightarrow> int"
  rescaler_reply :: "rescaler_op \<Rightarrow> u32 \<Rightarrow> int"
  stop_waits :: "frc \<Rightarrow> (bool \<times> producer) list"
  idle_waits :: "camera_source \<Rightarrow> (bool \<times> camera_source) list"

definition CameraSource :: camera_source where
  "CameraSource = \<lparr>camera_map = [], track_sources = [], rescalers = [], active_ports = [], objs = [], contexts = []\<rparr>"

text \<open>The consumer interfaces of a track: its own, those of its two controllers and of its rescaler.\<close>

definition track_intf :: "nat \<Rightarrow> consumer" where "track_intf i = 4 * i + 1"
definition frc_intf :: "nat \<Rightarrow> consumer" where "frc_intf i = 4 * i + 2"
definition fsc_intf :: "nat \<Rightarrow> consumer" where "fsc_intf i = 4 * i + 3"
definition rescaler_intf :: "nat \<Rightarrow> consumer" where "rescaler_intf i = 4 * i + 4"

definition obj :: "nat \<Rightarrow> camera_source \<Rightarrow> track option" where
  "obj i w = (if i < length (objs w) then Some (objs w ! i) else None)"

definition set_obj :: "nat \<Rightarrow> track \<Rightarrow> camera_source \<Rightarrow> camera_source" where
  "set_obj i t w = w\<lparr>objs := (objs w)[i := t]\<rparr>"

definition with_obj :: "nat \<Rightarrow> (track \<Rightarrow> track option) \<Rightarrow> camera_source \<Rightarrow> camera_source option" where
  "with_obj i f w = do { t \<leftarrow> obj i w; t1 \<leftarrow> f t; Some (set_obj i t1 w) }"

text \<open>A status that must be 0.\<close>

definition ensure :: "bool \<Rightarrow> 'a \<Rightarrow> 'a option" where
  "ensure ok x = (if ok then Some x else None)"

section \<open>Ports\<close>

text \<open>The operation of the port of a track: an error when there is none, else the port's own answer.\<close>

definition GetPort :: "u32 \<Rightarrow> camera_source \<Rightarrow> producer option" where
  "GetPort i w = kv_find (active_ports w) i"

definition port_op :: "source_env \<Rightarrow> stream_op \<Rightarrow> u32 \<Rightarrow> camera_source \<Rightarrow> int option" where
  "port_op E p i w =
     (case GetPort i w of
        None \<Rightarrow> Some BAD_VALUE
      | Some x \<Rightarrow> if port_reply E p i = NO_ERROR then Some NO_ERROR else None)"

definition StartStream :: "source_env \<Rightarrow> u32 \<Rightarrow> camera_source \<Rightarrow> int option" where
  "StartStream E i w = port_op E S_start i w"

definition StopStream :: "source_env \<Rightarrow> u32 \<Rightarrow> camera_source \<Rightarrow> int option" where
  "StopStream E i w = port_op E S_stop i w"

definition PauseStream :: "source_env \<Rightarrow> u32 \<Rightarrow> camera_source \<Rightarrow> int option" where
  "PauseStream E i w = port_op E S_pause i w"

definition ResumeStream :: "source_env \<Rightarrow> u32 \<Rightarrow> camera_source \<Rightarrow> int option" where
  "ResumeStream E i w = port_op E S_resume i w"

definition port_AddConsumer :: "u32 \<Rightarrow> consumer \<Rightarrow> camera_source \<Rightarrow> (int \<times> camera_source) option" where
  "port_AddConsumer i c w =
     (case GetPort i w of
        None \<Rightarrow> Some (BAD_VALUE, w)
      | Some p \<Rightarrow>
          if IsConnected c p then None
          else map_option (\<lambda>p1. (NO_ERROR, w\<lparr>active_ports := kv_add i p1 (active_ports w)\<rparr>))
                 (Buffer_Exchange.AddConsumer c p))"

definition port_RemoveConsumer :: "u32 \<Rightarrow> consumer \<Rightarrow> camera_source \<Rightarrow> (int \<times> camera_source) option" where
  "port_RemoveConsumer i c w =
     (case GetPort i w of
        None \<Rightarrow> Some (BAD_VALUE, w)
      | Some p \<Rightarrow>
          if \<not> IsConnected c p then None
          else map_option (\<lambda>p1. (NO_ERROR, w\<lparr>active_ports := kv_add i p1 (active_ports w)\<rparr>))
                 (Buffer_Exchange.RemoveConsumer c p))"

text \<open>\<open>CreateStream\<close> makes a port when the context can set it up; the port starts without consumers.\<close>

definition CreateStream :: "source_env \<Rightarrow> u32 \<Rightarrow> camera_source \<Rightarrow> int \<times> camera_source" where
  "CreateStream E i w =
     (let r = port_reply E S_create i
      in (r, if r = NO_ERROR then w\<lparr>active_ports := emplace i BufferProducerImpl (active_ports w)\<rparr> else w))"

definition DeleteStream :: "source_env \<Rightarrow> u32 \<Rightarrow> camera_source \<Rightarrow> (int \<times> camera_source) option" where
  "DeleteStream E i w =
     (case GetPort i w of
        None \<Rightarrow> Some (BAD_VALUE, w)
      | Some p \<Rightarrow>
          if GetNumConsumer p > 0 then Some (NO_ERROR, w)
          else if port_reply E S_delete i \<noteq> NO_ERROR then None
          else Some (NO_ERROR, w\<lparr>active_ports := kv_remove i (active_ports w)\<rparr>))"

section \<open>Connections of a track\<close>

definition AddConsumer :: "consumer \<Rightarrow> track \<Rightarrow> (int \<times> track) option" where
  "AddConsumer c t =
     (if c = 0 then Some (BAD_VALUE, t)
      else map_option (\<lambda>p. (NO_ERROR, t\<lparr>own_producer := p, num_consumers := GetNumConsumer p\<rparr>))
             (Buffer_Exchange.AddConsumer c (own_producer t)))"

definition RemoveConsumer :: "consumer \<Rightarrow> track \<Rightarrow> (int \<times> track) option" where
  "RemoveConsumer c t =
     (if GetNumConsumer (own_producer t) = 0 then Some (INVALID_OPERATION, t)
      else map_option (\<lambda>p. (NO_ERROR, t\<lparr>own_producer := p, num_consumers := GetNumConsumer p\<rparr>))
             (Buffer_Exchange.RemoveConsumer c (own_producer t)))"

text \<open>The steps of a connection, each with the assertion on its status.\<close>

definition add_to_frc :: "nat \<Rightarrow> track \<Rightarrow> track option" where
  "add_to_frc i t =
     (case Frame_Rate.AddConsumer (track_intf i) (frc_of t) of
        (r, cs, f) \<Rightarrow> ensure (r = 0) (t\<lparr>frc_of := f, linked := True\<rparr>))"

definition add_to_fsc :: "consumer \<Rightarrow> bool \<Rightarrow> track \<Rightarrow> track option" where
  "add_to_fsc c to_frc t =
     (case Frame_Rate.AddConsumer c (fsc t) of
        (r, cs, f) \<Rightarrow> ensure (r = 0)
          (t\<lparr>fsc := f, frc_of := (if to_frc then (frc_of t)\<lparr>has_producer := True\<rparr> else frc_of t)\<rparr>))"

definition remove_from_fsc :: "consumer \<Rightarrow> bool \<Rightarrow> track \<Rightarrow> track option" where
  "remove_from_fsc c to_frc t =
     (case Frame_Rate.RemoveConsumer c (fsc t) of
        (r, cs, f) \<Rightarrow> ensure (r = 0)
          (t\<lparr>fsc := f, frc_of := (if to_frc then (frc_of t)\<lparr>has_producer := False\<rparr> else frc_of t)\<rparr>))"

definition remove_from_frc :: "nat \<Rightarrow> track \<Rightarrow> track option" where
  "remove_from_frc i t =
     (case Frame_Rate.RemoveConsumer (track_intf i) (frc_of t) of
        (r, cs, f) \<Rightarrow> ensure (r = 0) (t\<lparr>frc_of := f, linked := False\<rparr>))"

definition start_controllers :: "track \<Rightarrow> track option" where
  "start_controllers t =
     (case Start (fsc t) of
        (r, f) \<Rightarrow> (case Start (frc_of t) of
          (r1, f1) \<Rightarrow> ensure (r = 0 \<and> r1 = 0) (t\<lparr>fsc := f, frc_of := f1\<rparr>)))"

definition stop_controllers :: "source_env \<Rightarrow> track \<Rightarrow> track option" where
  "stop_controllers E t =
     (case Stop (stop_waits E (frc_of t)) (frc_of t) of
        (r, f) \<Rightarrow> (case Stop (stop_waits E (fsc t)) (fsc t) of
          (r1, f1) \<Rightarrow> ensure (r = 0 \<and> r1 = 0) (t\<lparr>frc_of := f, fsc := f1\<rparr>)))"

text \<open>The producer handle of the first controller.\<close>

definition feed_fsc :: "track \<Rightarrow> track option" where
  "feed_fsc t = Some (t\<lparr>fsc := (fsc t)\<lparr>has_producer := True\<rparr>\<rparr>)"

definition feed_frc :: "track \<Rightarrow> track option" where
  "feed_frc t = Some (t\<lparr>frc_of := (frc_of t)\<lparr>has_producer := True\<rparr>\<rparr>)"

text \<open>The master track, to which the first controller of a slave is connected.\<close>

definition join_master :: "nat \<Rightarrow> camera_source \<Rightarrow> camera_source option" where
  "join_master i w = do {
     t \<leftarrow> obj i w;
     m \<leftarrow> master_track t;
     w1 \<leftarrow> with_obj m (\<lambda>x. do { (r, x1) \<leftarrow> AddConsumer (fsc_intf i) x; ensure (r = NO_ERROR) x1 }) w;
     with_obj i feed_fsc w1
   }"

definition leave_master :: "nat \<Rightarrow> camera_source \<Rightarrow> camera_source option" where
  "leave_master i w = do {
     t \<leftarrow> obj i w;
     m \<leftarrow> master_track t;
     with_obj m (\<lambda>x. do { (r, x1) \<leftarrow> RemoveConsumer (fsc_intf i) x; ensure (r = NO_ERROR) x1 }) w
   }"

definition rescaler_ok :: "source_env \<Rightarrow> rescaler_op \<Rightarrow> track \<Rightarrow> bool" where
  "rescaler_ok E p t = (rescaler_reply E p (params_id t) = NO_ERROR)"

section \<open>The life of a track\<close>

definition InitCopy :: "nat \<Rightarrow> bool \<Rightarrow> track \<Rightarrow> int \<times> track" where
  "InitCopy m rescaler t = (0, t\<lparr>master_track := Some m, slave_track_source := True, has_rescaler := rescaler\<rparr>)"

definition Init :: "source_env \<Rightarrow> track \<Rightarrow> camera_source \<Rightarrow> int \<times> track \<times> camera_source" where
  "Init E t w =
     (let t1 = t\<lparr>slave_track_source := False, has_rescaler := False, master_track := None\<rparr>;
          (r, w1) = CreateStream E (params_id t) w
      in if r \<noteq> NO_ERROR then (BAD_VALUE, t1, w1) else (r, t1, w1))"

definition DeInit :: "source_env \<Rightarrow> nat \<Rightarrow> camera_source \<Rightarrow> (int \<times> camera_source) option" where
  "DeInit E i w = do {
     t \<leftarrow> obj i w;
     (r, w1) \<leftarrow> (if slave_track_source t then Some (NO_ERROR, w) else DeleteStream E (params_id t) w);
     if r \<noteq> NO_ERROR then None
     else map_option (\<lambda>w2. (NO_ERROR, w2)) (with_obj i (\<lambda>x. Some (x\<lparr>has_rescaler := False\<rparr>)) w1)
   }"

definition link_rescaled :: "source_env \<Rightarrow> nat \<Rightarrow> camera_source \<Rightarrow> camera_source option" where
  "link_rescaled E i w = do {
     w1 \<leftarrow> join_master i w;
     w2 \<leftarrow> with_obj i (add_to_fsc (rescaler_intf i) False) w1;
     with_obj i (\<lambda>t. if rescaler_ok E R_add t then feed_frc t else None) w2
   }"

definition link_slave :: "nat \<Rightarrow> camera_source \<Rightarrow> camera_source option" where
  "link_slave i w = do {
     w1 \<leftarrow> join_master i w;
     with_obj i (add_to_fsc (frc_intf i) True) w1
   }"

definition link_port :: "source_env \<Rightarrow> nat \<Rightarrow> camera_source \<Rightarrow> camera_source option" where
  "link_port E i w = do {
     t \<leftarrow> obj i w;
     (r, w1) \<leftarrow> port_AddConsumer (params_id t) (fsc_intf i) w;
     w2 \<leftarrow> ensure (r = NO_ERROR) w1;
     w3 \<leftarrow> with_obj i (\<lambda>x. do { x1 \<leftarrow> feed_fsc x; add_to_fsc (frc_intf i) True x1 }) w2;
     r1 \<leftarrow> StartStream E (params_id t) w3;
     ensure (r1 = NO_ERROR) w3
   }"

definition StartTrack :: "source_env \<Rightarrow> nat \<Rightarrow> camera_source \<Rightarrow> (int \<times> camera_source) option" where
  "StartTrack E i w = do {
     w1 \<leftarrow> with_obj i (\<lambda>t. add_to_frc i (t\<lparr>is_stop := False, eos_acked := False\<rparr>)) w;
     t \<leftarrow> obj i w1;
     w2 \<leftarrow> (if has_rescaler t then link_rescaled E i w1
             else if slave_track_source t then link_slave i w1 else Some w1);
     w3 \<leftarrow> (if slave_track_source t then Some w2 else link_port E i w2);
     w4 \<leftarrow> ensure (has_rescaler t \<longrightarrow> rescaler_ok E R_start t) w3;
     w5 \<leftarrow> with_obj i start_controllers w4;
     Some (NO_ERROR, w5)
   }"

definition unlink_port :: "source_env \<Rightarrow> nat \<Rightarrow> camera_source \<Rightarrow> camera_source option" where
  "unlink_port E i w = do {
     t \<leftarrow> obj i w;
     r \<leftarrow> StopStream E (params_id t) w;
     w1 \<leftarrow> ensure (r = NO_ERROR) w;
     w2 \<leftarrow> with_obj i (remove_from_fsc (frc_intf i) True) w1;
     (r1, w3) \<leftarrow> port_RemoveConsumer (params_id t) (fsc_intf i) w2;
     ensure (r1 = NO_ERROR) w3
   }"

definition unlink_rescaled :: "source_env \<Rightarrow> nat \<Rightarrow> camera_source \<Rightarrow> camera_source option" where
  "unlink_rescaled E i w = do {
     t \<leftarrow> obj i w;
     w1 \<leftarrow> ensure (rescaler_ok E R_remove t) w;
     w2 \<leftarrow> with_obj i (remove_from_fsc (rescaler_intf i) False) w1;
     leave_master i w2
   }"

definition unlink_slave :: "nat \<Rightarrow> camera_source \<Rightarrow> camera_source option" where
  "unlink_slave i w = do {
     w1 \<leftarrow> with_obj i (remove_from_fsc (frc_intf i) True) w;
     leave_master i w1
   }"

text \<open>The end of the pipeline, in \<open>StopTrack\<close> for a track without an encoder, else when its port is idle.\<close>

definition stop_pipeline :: "source_env \<Rightarrow> nat \<Rightarrow> camera_source \<Rightarrow> camera_source option" where
  "stop_pipeline E i w = do {
     t \<leftarrow> obj i w;
     w1 \<leftarrow> with_obj i (stop_controllers E) w;
     w2 \<leftarrow> ensure (has_rescaler t \<longrightarrow> rescaler_ok E R_stop t) w1;
     w3 \<leftarrow> (if slave_track_source t then Some w2 else unlink_port E i w2);
     w4 \<leftarrow> (if has_rescaler t then unlink_rescaled E i w3
             else if slave_track_source t then unlink_slave i w3 else Some w3);
     with_obj i (remove_from_frc i) w4
   }"

text \<open>The wait for the idle state: an outcome is a time-out or not, and the state with the lock held again.\<close>

fun wait_idle :: "nat \<Rightarrow> (bool \<times> camera_source) list \<Rightarrow> camera_source \<Rightarrow> (int \<times> camera_source) option" where
  "wait_idle i ws w = do {
     t \<leftarrow> obj i w;
     if is_idle t then Some (NO_ERROR, w)
     else case ws of
       [] \<Rightarrow> Some (TIMED_OUT, w)
     | (timedout, w1) # ws1 \<Rightarrow> if timedout then Some (TIMED_OUT, w1) else wait_idle i ws1 w1
   }"

declare wait_idle.simps [simp del]

definition StopTrack :: "source_env \<Rightarrow> nat \<Rightarrow> camera_source \<Rightarrow> (int \<times> camera_source) option" where
  "StopTrack E i w = do {
     w1 \<leftarrow> with_obj i (\<lambda>t. Some (t\<lparr>is_paused := False\<rparr>)) w;
     t \<leftarrow> obj i w1;
     if is_stop t then Some (NO_ERROR, w1)
     else do {
       w2 \<leftarrow> with_obj i (\<lambda>x. Some (x\<lparr>is_stop := True\<rparr>)) w1;
       w3 \<leftarrow> (if \<not> encoded (params_format t) then stop_pipeline E i w2 else Some w2);
       wait_idle i (idle_waits E w3) w3
     }
   }"

definition PauseTrack :: "source_env \<Rightarrow> nat \<Rightarrow> camera_source \<Rightarrow> (int \<times> camera_source) option" where
  "PauseTrack E i w = do {
     w1 \<leftarrow> with_obj i (\<lambda>t. Some (t\<lparr>is_paused := True\<rparr>)) w;
     t \<leftarrow> obj i w1;
     r \<leftarrow> (if slave_track_source t then Some NO_ERROR else PauseStream E (params_id t) w1);
     if r \<noteq> NO_ERROR then None
     else map_option (\<lambda>w2. (NO_ERROR, w2)) (with_obj i (\<lambda>x. Some (x\<lparr>is_idle := True\<rparr>)) w1)
   }"

definition ResumeTrack :: "source_env \<Rightarrow> nat \<Rightarrow> camera_source \<Rightarrow> (int \<times> camera_source) option" where
  "ResumeTrack E i w = do {
     w1 \<leftarrow> with_obj i (\<lambda>t. Some (t\<lparr>is_paused := False\<rparr>)) w;
     t \<leftarrow> obj i w1;
     r \<leftarrow> ResumeStream E (params_id t) w1;
     if r \<noteq> NO_ERROR then None
     else map_option (\<lambda>w2. (NO_ERROR, w2)) (with_obj i (\<lambda>x. Some (x\<lparr>is_idle := False\<rparr>)) w1)
   }"

section \<open>The encoder's events\<close>

datatype CodecPortStatus = kPortStop | kPortIdle | kPortStart

text \<open>The frames that are still counted go back to the producer; their counts stay.\<close>

primrec return_counted :: "(handle \<times> u32) list \<Rightarrow> track \<Rightarrow> track option" where
  "return_counted [] t = Some t"
| "return_counted (p # ps) t =
     (case kv_find (stream_buffer_map t) (fst p) of
        None \<Rightarrow> return_counted ps t
      | Some b \<Rightarrow> do { t1 \<leftarrow> give_back b t; return_counted ps t1 })"

definition NotifyPortEvent :: "source_env \<Rightarrow> CodecPortStatus \<Rightarrow> nat \<Rightarrow> camera_source \<Rightarrow> camera_source option" where
  "NotifyPortEvent E st i w =
     (case st of
        kPortStop \<Rightarrow> with_obj i (\<lambda>t. map_option (\<lambda>t1. t1\<lparr>eos_acked := True\<rparr>) (ClearInputQueue t)) w
      | kPortIdle \<Rightarrow> do {
          w1 \<leftarrow> with_obj i (\<lambda>t. do { t1 \<leftarrow> ClearInputQueue t; return_counted (buffer_map t1) t1 }) w;
          w2 \<leftarrow> stop_pipeline E i w1;
          with_obj i (\<lambda>t. ensure (frames_being_encoded t = []) (t\<lparr>is_idle := True\<rparr>)) w2
        }
      | kPortStart \<Rightarrow> with_obj i (\<lambda>t. Some (t\<lparr>is_idle := False\<rparr>)) w)"

section \<open>Cameras\<close>

abbreviation (input) FAILED_TRANSACTION :: int where "FAILED_TRANSACTION \<equiv> - 2147483646"

definition context_call :: "source_env \<Rightarrow> context_op \<Rightarrow> u32 \<Rightarrow> camera_source \<Rightarrow> int \<times> camera_source" where
  "context_call E p cam w = (context_reply E p cam, w\<lparr>contexts := contexts w @ [(p, cam)]\<rparr>)"

definition IsCameraOpen :: "u32 \<Rightarrow> camera_source \<Rightarrow> bool" where
  "IsCameraOpen cam w = (kv_find (camera_map w) cam \<noteq> None)"

definition StartCamera :: "source_env \<Rightarrow> u32 \<Rightarrow> camera_source \<Rightarrow> int \<times> camera_source" where
  "StartCamera E cam w =
     (if IsCameraOpen cam w then (BAD_VALUE, w)
      else
        let (r, w1) = context_call E X_open cam (w\<lparr>camera_map := emplace cam () (camera_map w)\<rparr>)
        in if r \<noteq> NO_ERROR then (r, w1\<lparr>camera_map := kv_remove cam (camera_map w1)\<rparr>) else (NO_ERROR, w1))"

definition StopCamera :: "source_env \<Rightarrow> u32 \<Rightarrow> camera_source \<Rightarrow> int \<times> camera_source" where
  "StopCamera E cam w =
     (if \<not> IsCameraOpen cam w then (BAD_VALUE, w)
      else
        let (r, w1) = context_call E X_close cam w
        in if r \<noteq> NO_ERROR then (FAILED_TRANSACTION, w1)
           else (NO_ERROR, w1\<lparr>camera_map := kv_remove cam (camera_map w1)\<rparr>))"

text \<open>The shape of the calls that are passed on to the context of an open camera.\<close>

definition on_context :: "source_env \<Rightarrow> context_op \<Rightarrow> u32 \<Rightarrow> camera_source \<Rightarrow> int \<times> camera_source" where
  "on_context E p cam w = (if \<not> IsCameraOpen cam w then (BAD_VALUE, w) else context_call E p cam w)"

definition SetFlushCb :: "u32 \<Rightarrow> camera_source \<Rightarrow> int" where
  "SetFlushCb cam w = (if \<not> IsCameraOpen cam w then BAD_VALUE else NO_ERROR)"

definition CaptureImage :: "source_env \<Rightarrow> u32 \<Rightarrow> camera_source \<Rightarrow> int \<times> camera_source" where
  "CaptureImage E cam w = on_context E X_capture cam w"

definition ConfigImageCapture :: "source_env \<Rightarrow> u32 \<Rightarrow> camera_source \<Rightarrow> int \<times> camera_source" where
  "ConfigImageCapture E cam w =
     (if \<not> IsCameraOpen cam w then (BAD_VALUE, w)
      else let (r, w1) = context_call E X_config cam w
           in if r \<noteq> NO_ERROR then (r, w1) else context_call E X_setup cam w1)"

definition CancelCaptureImage :: "source_env \<Rightarrow> u32 \<Rightarrow> camera_source \<Rightarrow> int \<times> camera_source" where
  "CancelCaptureImage E cam w = on_context E X_cancel cam w"

definition ReturnAllImageCaptureBuffers :: "source_env \<Rightarrow> u32 \<Rightarrow> camera_source \<Rightarrow> int \<times> camera_source" where
  "ReturnAllImageCaptureBuffers E cam w = on_context E X_return_all cam w"

definition ReturnImageCaptureBuffer :: "source_env \<Rightarrow> u32 \<Rightarrow> camera_source \<Rightarrow> int \<times> camera_source" where
  "ReturnImageCaptureBuffer E cam w = on_context E X_return cam w"

definition SetCameraParam :: "source_env \<Rightarrow> u32 \<Rightarrow> camera_source \<Rightarrow> int \<times> camera_source" where
  "SetCameraParam E cam w = on_context E X_set cam w"

definition GetCameraParam :: "source_env \<Rightarrow> u32 \<Rightarrow> camera_source \<Rightarrow> int \<times> camera_source" where
  "GetCameraParam E cam w = on_context E X_get cam w"

definition GetDefaultCaptureParam :: "source_env \<Rightarrow> u32 \<Rightarrow> camera_source \<Rightarrow> int \<times> camera_source" where
  "GetDefaultCaptureParam E cam w = on_context E X_default cam w"

definition GetCameraCharacteristics :: "source_env \<Rightarrow> u32 \<Rightarrow> camera_source \<Rightarrow> int \<times> camera_source" where
  "GetCameraCharacteristics E cam w = on_context E X_characteristics cam w"

section \<open>Tracks\<close>

definition IsTrackIdValid :: "u32 \<Rightarrow> camera_source \<Rightarrow> bool" where
  "IsTrackIdValid i w = (kv_find (track_sources w) i \<noteq> None)"

definition GetTrackSource :: "u32 \<Rightarrow> camera_source \<Rightarrow> nat option" where
  "GetTrackSource i w = kv_find (track_sources w) i"

text \<open>\<open>VideoTrackParams\<close>: the parameters of the client and the entries of the extra parameters.\<close>

record VideoTrackParams =
  vt_camera :: u32
  vt_width :: u32
  vt_height :: u32
  vt_format :: VideoFormat
  vt_source :: "u32 option"
  vt_lapse :: "u32 option"
  vt_rate :: "bool \<times> int"

definition GetSourceTrackId :: "u32 option \<Rightarrow> int" where
  "GetSourceTrackId s = (case s of Some i \<Rightarrow> sint i | None \<Rightarrow> NAME_NOT_FOUND)"

definition copy_format :: "VideoFormat \<Rightarrow> bool" where
  "copy_format f = (f = VideoFormat.kHEVC \<or> f = VideoFormat.kAVC \<or> f = VideoFormat.kNV12 \<or>
     f = VideoFormat.kNV12UBWC \<or> f = VideoFormat.kRGB)"

definition ValidateSlaveTrackParam :: "VideoTrackParams \<Rightarrow> track \<Rightarrow> bool" where
  "ValidateSlaveTrackParam s m =
     (if \<not> copy_format (vt_format s) \<and> \<not> copy_format (params_format m) then False
      else \<not> (vt_width s > params_width m \<or> vt_height s > params_height m))"

definition GetYUVFormatType :: "VideoFormat \<Rightarrow> VideoFormat" where
  "GetYUVFormatType f = (if f = VideoFormat.kHEVC \<or> f = VideoFormat.kAVC then VideoFormat.kNV12UBWC else f)"

text \<open>True when the formats are the same.\<close>

definition IsFormatChanged :: "VideoFormat \<Rightarrow> VideoFormat \<Rightarrow> bool" where
  "IsFormatChanged a b = (GetYUVFormatType a = GetYUVFormatType b)"

definition CheckLinkedStream :: "VideoTrackParams \<Rightarrow> track \<Rightarrow> bool" where
  "CheckLinkedStream s m =
     (if \<not> copy_format (vt_format s) \<and> \<not> copy_format (params_format m) then False
      else vt_width s = params_width m \<and> vt_height s = params_height m \<and>
           IsFormatChanged (params_format m) (vt_format s))"

definition add_obj :: "u32 \<Rightarrow> track \<Rightarrow> camera_source \<Rightarrow> camera_source" where
  "add_obj i t w = w\<lparr>objs := objs w @ [t], track_sources := emplace i (length (objs w)) (track_sources w)\<rparr>"

text \<open>
  The failure exits return the status so far, which is \<open>NO_ERROR\<close> for the format RGB.
\<close>

definition create_normal :: "source_env \<Rightarrow> u32 \<Rightarrow> VideoTrackParams \<Rightarrow> track \<Rightarrow> camera_source \<Rightarrow> int \<times> camera_source" where
  "create_normal E i p t w =
     (if vt_format p = VideoFormat.kRGB then (NO_ERROR, w)
      else
        let (r, t1, w1) = Init E t w
        in if r \<noteq> NO_ERROR then (r, w1) else (r, add_obj i t1 w1))"

definition create_copy :: "source_env \<Rightarrow> u32 \<Rightarrow> VideoTrackParams \<Rightarrow> nat \<Rightarrow> bool \<Rightarrow> track \<Rightarrow> camera_source \<Rightarrow>
    int \<times> camera_source" where
  "create_copy E i p m linked_mode t w =
     (if \<not> linked_mode \<and> rescaler_reply E R_init i \<noteq> NO_ERROR then (BAD_VALUE, w)
      else
        let w1 = (if linked_mode then w else w\<lparr>rescalers := emplace i () (rescalers w)\<rparr>);
            (r, t1) = InitCopy m (\<not> linked_mode) t
        in (r, add_obj i t1 w1))"

definition CreateTrackSource :: "source_env \<Rightarrow> u32 \<Rightarrow> VideoTrackParams \<Rightarrow> camera_source \<Rightarrow>
    (int \<times> camera_source) option" where
  "CreateTrackSource E i p w =
     (if \<not> IsCameraOpen (vt_camera p) w then Some (BAD_VALUE, w)
      else
        let t = TrackSource i (vt_camera p) (vt_width p) (vt_height p) (vt_format p) (vt_lapse p) (vt_rate p);
            s = GetSourceTrackId (vt_source p)
        in if s = NAME_NOT_FOUND then Some (create_normal E i p t w)
           else do {
             m \<leftarrow> kv_find (track_sources w) (word_of_int s);
             master \<leftarrow> obj m w;
             if ValidateSlaveTrackParam p master
             then Some (create_copy E i p m (CheckLinkedStream p master) t w)
             else Some (create_normal E i p t w)
           })"

definition DeleteTrackSource :: "source_env \<Rightarrow> u32 \<Rightarrow> camera_source \<Rightarrow> (int \<times> camera_source) option" where
  "DeleteTrackSource E i w =
     (case GetTrackSource i w of
        None \<Rightarrow> Some (BAD_VALUE, w)
      | Some k \<Rightarrow> do {
          (r, w1) \<leftarrow> DeInit E k w;
          Some (r, w1\<lparr>track_sources := kv_remove i (track_sources w1), rescalers := kv_remove i (rescalers w1)\<rparr>)
        })"

text \<open>The shape of the calls of a track; an error of the track fails an assertion.\<close>

definition on_track :: "(nat \<Rightarrow> camera_source \<Rightarrow> (int \<times> camera_source) option) \<Rightarrow> u32 \<Rightarrow> camera_source \<Rightarrow>
    (int \<times> camera_source) option" where
  "on_track f i w =
     (case GetTrackSource i w of
        None \<Rightarrow> Some (BAD_VALUE, w)
      | Some k \<Rightarrow> do { (r, w1) \<leftarrow> f k w; ensure (r = NO_ERROR) (r, w1) })"

definition lift_track :: "(track \<Rightarrow> (int \<times> track) option) \<Rightarrow> nat \<Rightarrow> camera_source \<Rightarrow>
    (int \<times> camera_source) option" where
  "lift_track f k w = do { t \<leftarrow> obj k w; (r, t1) \<leftarrow> f t; Some (r, set_obj k t1 w) }"

definition StartTrackSource :: "source_env \<Rightarrow> u32 \<Rightarrow> camera_source \<Rightarrow> (int \<times> camera_source) option" where
  "StartTrackSource E i w = on_track (StartTrack E) i w"

definition StopTrackSource :: "source_env \<Rightarrow> u32 \<Rightarrow> camera_source \<Rightarrow> (int \<times> camera_source) option" where
  "StopTrackSource E i w = on_track (StopTrack E) i w"

definition PauseTrackSource :: "source_env \<Rightarrow> u32 \<Rightarrow> camera_source \<Rightarrow> (int \<times> camera_source) option" where
  "PauseTrackSource E i w = on_track (PauseTrack E) i w"

definition ResumeTrackSource :: "source_env \<Rightarrow> u32 \<Rightarrow> camera_source \<Rightarrow> (int \<times> camera_source) option" where
  "ResumeTrackSource E i w = on_track (ResumeTrack E) i w"

definition FlushTrackSource :: "u32 \<Rightarrow> camera_source \<Rightarrow> (int \<times> camera_source) option" where
  "FlushTrackSource i w = on_track (lift_track Flush) i w"

definition ReturnTrackBuffer :: "u32 \<Rightarrow> u32 list \<Rightarrow> camera_source \<Rightarrow> (int \<times> camera_source) option" where
  "ReturnTrackBuffer i fds w = on_track (lift_track (Track_Source.ReturnTrackBuffer fds)) i w"

definition FlushTrack :: "u32 \<Rightarrow> camera_source \<Rightarrow> (int \<times> camera_source) option" where
  "FlushTrack i w =
     (case GetTrackSource i w of
        None \<Rightarrow> Some (NAME_NOT_FOUND, w)
      | Some k \<Rightarrow> map_option (\<lambda>w1. (NO_ERROR, w1)) (with_obj k ClearInputQueue w))"

definition UpdateTrackFrameRate :: "bool \<Rightarrow> bool \<Rightarrow> bool \<times> int \<Rightarrow> u32 \<Rightarrow> camera_source \<Rightarrow>
    (int \<times> camera_source) option" where
  "UpdateTrackFrameRate positive far rate i w =
     (case GetTrackSource i w of
        None \<Rightarrow> Some (BAD_VALUE, w)
      | Some k \<Rightarrow> map_option (\<lambda>w1. (NO_ERROR, w1)) (with_obj k (UpdateFrameRate positive far rate) w))"

definition EnableTrackFrameRepeat :: "bool \<Rightarrow> u32 \<Rightarrow> camera_source \<Rightarrow> (int \<times> camera_source) option" where
  "EnableTrackFrameRepeat e i w =
     (case GetTrackSource i w of
        None \<Rightarrow> Some (BAD_VALUE, w)
      | Some k \<Rightarrow> map_option (\<lambda>w1. (NO_ERROR, w1)) (with_obj k (\<lambda>t. Some (Track_Source.EnableFrameRepeat e t)) w))"

end
