(* ===== verification/Track_Source_Props.thy ===== *)
theory Track_Source_Props
  imports Track_Source
begin

text \<open>
  The frames of a track that has no consumers of its own and does not repeat frames: each one that
  arrives is with the client, waits for the encoder, is being encoded, or has been given back once.
\<close>

section \<open>The ledger\<close>

abbreviation q_handle :: "qbuf \<Rightarrow> handle" where
  "q_handle q \<equiv> b_handle (q_buffer q)"

definition out_frames :: "track \<Rightarrow> handle multiset" where
  "out_frames t = mset (map (\<lambda>p. q_handle (snd p)) (buffer_list t)) + mset (map q_handle (frames_received t)) +
     mset (map q_handle (frames_being_encoded t))"

definition returned :: "track \<Rightarrow> handle multiset" where
  "returned t = mset (concat (map (\<lambda>c. case c of Returned b \<Rightarrow> [b_handle b] | _ \<Rightarrow> []) (tlog t)))"

definition plain_track :: "track \<Rightarrow> bool" where
  "plain_track t \<longleftrightarrow> linked t \<and> num_consumers t = 0 \<and> \<not> enable_frame_repeat t"

definition counted :: "handle multiset \<Rightarrow> track \<Rightarrow> bool" where
  "counted H t \<longleftrightarrow> kv_wf (buffer_map t) \<and> (\<forall>h. kv_find (buffer_map t) h = (if h \<in># H then Some 1 else None)) \<and>
     (\<forall>h. count H h \<le> 1)"

definition encoder_view :: "(handle \<Rightarrow> nat) \<Rightarrow> track \<Rightarrow> bool" where
  "encoder_view alloc t \<longleftrightarrow> kv_wf (buffers_map t) \<and>
     (\<forall>q \<in> set (frames_received t). time_lapse t = None \<longrightarrow> pending_encodes_per_frame q = 1 \<and> encodes_per_frame_count q = 1) \<and>
     (\<forall>q \<in> set (frames_being_encoded t). needs_return q \<and> kv_find (buffers_map t) (alloc (q_handle q)) = Some (q_handle q)) \<and>
     (\<forall>d h. kv_find (buffers_map t) d = Some h \<longrightarrow> d = alloc h)"

text \<open>\<open>X\<close> are the frames that are counted and in none of the lists.\<close>

definition track_inv :: "(handle \<Rightarrow> nat) \<Rightarrow> handle multiset \<Rightarrow> handle multiset \<times> track \<Rightarrow> bool" where
  "track_inv alloc X x \<longleftrightarrow> (case x of (A, t) \<Rightarrow>
     plain_track t \<and> kv_wf (buffer_list t) \<and> counted (out_frames t + X) t \<and> encoder_view alloc t \<and> A = returned t + out_frames t + X)"

section \<open>Giving one frame back\<close>

lemma kv_remove_mset:
  "distinct (kv_keys m) \<Longrightarrow> kv_find m k = Some v \<Longrightarrow> mset m = add_mset (k, v) (mset (kv_remove k m))"
proof (induction m)
  case (Cons p m)
  show ?case
  proof (cases "fst p = k")
    case True
    then have "kv_remove k m = m" using Cons.prems(1) by (intro kv_remove_absent) (simp add: map_of_eq_None_iff)
    then show ?thesis using True Cons.prems by (cases p) (simp add: kv_remove_def)
  next
    case False
    then show ?thesis using Cons by (cases p) (simp add: kv_remove_def)
  qed
qed simp

definition drop_handle :: "handle \<Rightarrow> track \<Rightarrow> track" where
  "drop_handle h t = t\<lparr>buffer_map := kv_remove h (buffer_map t), stream_buffer_map := kv_remove h (stream_buffer_map t)\<rparr>"

lemma return_counted_once:
  assumes "linked t" "kv_find (buffer_map t) (b_handle b) = Some 1"
  shows "ReturnBufferToProducer b t = Some (jot (Returned b) (drop_handle (b_handle b) t))"
  using assms by (simp add: ReturnBufferToProducer_def give_back_def drop_handle_def)

lemma jot_drop_frame [simp]:
  "buffer_list (jot c t) = buffer_list t" "buffer_list (drop_handle h t) = buffer_list t"
  "frames_received (jot c t) = frames_received t" "frames_received (drop_handle h t) = frames_received t"
  "frames_being_encoded (jot c t) = frames_being_encoded t" "frames_being_encoded (drop_handle h t) = frames_being_encoded t"
  "buffers_map (jot c t) = buffers_map t" "buffers_map (drop_handle h t) = buffers_map t"
  "buffer_map (jot c t) = buffer_map t" "buffer_map (drop_handle h t) = kv_remove h (buffer_map t)"
  "time_lapse (jot c t) = time_lapse t" "time_lapse (drop_handle h t) = time_lapse t"
  "linked (jot c t) = linked t" "linked (drop_handle h t) = linked t"
  "plain_track (jot c t) = plain_track t" "plain_track (drop_handle h t) = plain_track t"
  "encoder_view al (jot c t) = encoder_view al t" "encoder_view al (drop_handle h t) = encoder_view al t"
  "out_frames (jot c t) = out_frames t" "out_frames (drop_handle h t) = out_frames t"
  "returned (drop_handle h t) = returned t" "returned (jot (Returned b) t) = add_mset (b_handle b) (returned t)"
  "returned (jot (To_client b) t) = returned t"
  by (simp_all add: jot_def drop_handle_def plain_track_def encoder_view_def out_frames_def returned_def)

lemma counted_fresh: "counted (add_mset h H) t \<Longrightarrow> h \<notin># H"
proof -
  assume "counted (add_mset h H) t"
  then have "count (add_mset h H) h \<le> 1" unfolding counted_def by blast
  then show ?thesis by (simp add: not_in_iff)
qed

lemma counted_drop: "counted (add_mset h H) t \<Longrightarrow> counted H (drop_handle h t)"
proof -
  assume c: "counted (add_mset h H) t"
  then have le: "count (add_mset h H) x \<le> 1" for x unfolding counted_def by blast
  have "count H x \<le> 1" for x using le [of x] by (simp split: if_splits)
  then show ?thesis using c counted_fresh [OF c] by (auto simp: counted_def)
qed

lemma give_one:
  assumes "plain_track t" "counted (add_mset (b_handle b) H) t"
  shows "ReturnBufferToProducer b t = Some (jot (Returned b) (drop_handle (b_handle b) t))"
    "counted H (jot (Returned b) (drop_handle (b_handle b) t))"
proof -
  show "ReturnBufferToProducer b t = Some (jot (Returned b) (drop_handle (b_handle b) t))"
    using assms by (intro return_counted_once) (auto simp: plain_track_def counted_def)
  show "counted H (jot (Returned b) (drop_handle (b_handle b) t))"
    using counted_drop [OF assms(2)] by (simp add: counted_def)
qed

lemma give_all:
  "plain_track t \<Longrightarrow> counted (mset (map b_handle bs) + H) t \<Longrightarrow>
    \<exists>t1. return_all bs t = Some t1 \<and> counted H t1 \<and> plain_track t1 \<and> out_frames t1 = out_frames t \<and>
      returned t1 = mset (map b_handle bs) + returned t \<and> buffer_list t1 = buffer_list t \<and>
      frames_received t1 = frames_received t \<and> frames_being_encoded t1 = frames_being_encoded t \<and>
      (\<forall>al. encoder_view al t1 = encoder_view al t)"
proof (induction bs arbitrary: t)
  case (Cons b bs)
  let ?t = "jot (Returned b) (drop_handle (b_handle b) t)"
  have c: "counted (add_mset (b_handle b) (mset (map b_handle bs) + H)) t" using Cons.prems(2) by simp
  note g = give_one [OF Cons.prems(1) c]
  from Cons.IH [of ?t] g(2) Cons.prems(1) show ?case by (simp add: g(1))
qed simp

section \<open>Every step keeps the ledger\<close>

lemma counted_cong: "counted H t \<Longrightarrow> buffer_map t' = buffer_map t \<Longrightarrow> counted H t'"
  by (simp add: counted_def)

lemma counted_new:
  assumes "counted H t" "h \<notin># H" "buffer_map t' = emplace h 1 (buffer_map t)"
  shows "counted (add_mset h H) t'"
proof -
  have wf: "kv_wf (buffer_map t)" and n: "kv_find (buffer_map t) h = None" using assms(1,2) by (simp_all add: counted_def)
  then have "buffer_map t' = kv_add h 1 (buffer_map t)" using assms(3) by (simp add: emplace_def)
  then show ?thesis using assms(1,2) wf by (auto simp: counted_def not_in_iff)
qed

text \<open>A frame that has been counted and is on its way to the client, the encoder or back.\<close>

lemma back_inv:
  assumes "track_inv alloc (add_mset (b_handle b) X) (A, t)"
  shows "\<exists>t1. ReturnBufferToProducer b t = Some t1 \<and> track_inv alloc X (A, t1)"
proof -
  have t: "plain_track t" "counted (add_mset (b_handle b) (out_frames t + X)) t" using assms by (simp_all add: track_inv_def)
  show ?thesis using give_one [OF t] assms by (simp add: track_inv_def)
qed

lemma client_inv:
  assumes "track_inv alloc (add_mset (q_handle q) X) (A, t)" "kv_find (buffer_list t) (word_of_int (b_fd (q_buffer q))) = None"
  shows "track_inv alloc X (A, give_client q t)"
proof -
  let ?fd = "word_of_int (b_fd (q_buffer q)) :: u32"
  have t: "kv_wf (buffer_list t)" "counted (add_mset (q_handle q) (out_frames t + X)) t" using assms(1) by (simp_all add: track_inv_def)
  have bl: "buffer_list (give_client q t) = kv_add ?fd q (buffer_list t)"
    using assms(2) by (simp add: give_client_def emplace_def)
  have "mset (kv_add ?fd q (buffer_list t)) = add_mset (?fd, q) (mset (buffer_list t))"
    using kv_remove_mset [of "kv_add ?fd q (buffer_list t)" ?fd q] t(1) assms(2)
    by (simp add: kv_wf_distinct kv_remove_add kv_remove_absent)
  then have h: "out_frames (give_client q t) = add_mset (q_handle q) (out_frames t)"
    unfolding out_frames_def mset_map bl by simp (simp add: give_client_def)
  have "counted (add_mset (q_handle q) (out_frames t + X)) (give_client q t)"
    using t(2) by (rule counted_cong) (simp add: give_client_def)
  moreover have "plain_track (give_client q t)" "encoder_view alloc (give_client q t)" "returned (give_client q t) = returned t"
    using assms(1) by (simp_all add: track_inv_def give_client_def plain_track_def encoder_view_def returned_def jot_def)
  ultimately show ?thesis using assms(1) t(1) by (simp add: track_inv_def h bl)
qed

lemma push_inv:
  assumes "track_inv alloc (add_mset (q_handle q) X) (A, t)"
    "time_lapse t = None \<Longrightarrow> pending_encodes_per_frame q = 1 \<and> encodes_per_frame_count q = 1"
  shows "track_inv alloc X (A, PushFrameToQueue q t)"
proof -
  have "counted (add_mset (q_handle q) (out_frames t + X)) t" using assms(1) by (simp add: track_inv_def)
  then have "counted (add_mset (q_handle q) (out_frames t + X)) (PushFrameToQueue q t)"
    by (rule counted_cong) (simp add: PushFrameToQueue_def)
  moreover have "out_frames (PushFrameToQueue q t) = add_mset (q_handle q) (out_frames t)"
    by (simp add: PushFrameToQueue_def out_frames_def)
  moreover have "plain_track (PushFrameToQueue q t)" "encoder_view alloc (PushFrameToQueue q t)"
    "returned (PushFrameToQueue q t) = returned t" "buffer_list (PushFrameToQueue q t) = buffer_list t"
    using assms by (auto simp: track_inv_def PushFrameToQueue_def plain_track_def encoder_view_def returned_def)
  ultimately show ?thesis using assms(1) by (simp add: track_inv_def)
qed

lemma register_inv:
  assumes i: "track_inv alloc X (A, t)" and fresh: "q_handle q \<notin># out_frames t + X"
  shows "track_inv alloc (add_mset (q_handle q) X) (add_mset (q_handle q) A, register_frame q t)"
proof -
  have "counted (add_mset (q_handle q) (out_frames t + X)) (register_frame q t)"
    by (rule counted_new [of "out_frames t + X" t]) (use i fresh in \<open>simp_all add: track_inv_def register_frame_def Let_def\<close>)
  then show ?thesis using i
    by (simp add: track_inv_def register_frame_def Let_def out_frames_def returned_def plain_track_def encoder_view_def)
qed

lemma deliver_inv:
  assumes i: "track_inv alloc (add_mset (q_handle q) X) (A, t)"
    and fd: "kv_find (buffer_list t) (word_of_int (b_fd (q_buffer q))) = None"
    and run: "deliver_frame slower n prompt q t = Some t'"
  shows "track_inv alloc X (A, t')"
proof -
  define q1 where "q1 = (if time_lapse t = None
      then q\<lparr>needs_return := False, pending_encodes_per_frame := 1, encodes_per_frame_count := 1\<rparr> else q)"
  have q1: "q_buffer q1 = q_buffer q" "time_lapse t = None \<Longrightarrow> pending_encodes_per_frame q1 = 1 \<and> encodes_per_frame_count q1 = 1"
    by (simp_all add: q1_def)
  obtain t2 where gone: "ReturnBufferToProducer (q_buffer q) t = Some t2" "track_inv alloc X (A, t2)"
    using back_inv [OF i] by blast
  have client: "track_inv alloc X (A, give_client q1 t)" using client_inv [of alloc q1 X A t] i fd q1(1) by simp
  have push: "track_inv alloc X (A, PushFrameToQueue q1 t)" using push_inv [of alloc q1 X A t] i q1 by simp
  have "feed_consumers prompt (q_buffer q) t = Some t" "CalculateEncodesPerFrame slower n t = 1"
    using i by (simp_all add: track_inv_def feed_consumers_def CalculateEncodesPerFrame_def plain_track_def)
  then have "deliver_frame slower n prompt q t =
      (if eos_acked t \<and> IsStop t \<and> encoded (params_format t) then ReturnBufferToProducer (q_buffer q) t
       else if IsPaused t then ReturnBufferToProducer (q_buffer q) t
       else if \<not> encoded (params_format t)
       then (if IsStop t then ReturnBufferToProducer (q_buffer q) t else Some (give_client q1 t))
       else Some (PushFrameToQueue q1 t))"
    by (simp add: deliver_frame_def Let_def q1_def)
  with run gone client push show ?thesis by (auto split: if_splits)
qed

lemma flush_inv:
  assumes "track_inv alloc X (A, t)" "Flush t = Some (r, t')"
  shows "track_inv alloc X (A, t')"
proof (cases "flushed_format (params_format t)")
  case True
  let ?bs = "map (\<lambda>p. q_buffer (snd p)) (buffer_list t)"
  let ?H = "mset (map q_handle (frames_received t)) + mset (map q_handle (frames_being_encoded t)) + X"
  have t: "plain_track t" "counted (out_frames t + X) t" "A = returned t + out_frames t + X" "encoder_view alloc t"
    using assms(1) by (simp_all add: track_inv_def)
  have h: "out_frames t + X = mset (map b_handle ?bs) + ?H" by (simp add: out_frames_def comp_def)
  obtain t1 where 1: "return_all ?bs t = Some t1" "counted ?H t1" "plain_track t1" "returned t1 = mset (map b_handle ?bs) + returned t"
    "frames_received t1 = frames_received t" "frames_being_encoded t1 = frames_being_encoded t" "encoder_view alloc t1"
    using give_all [OF t(1), of ?bs ?H] t(2,4) h by auto
  have "t' = t1\<lparr>buffer_list := [], is_idle := True\<rparr>" using assms(2) True 1(1) by (simp add: Flush_def)
  then show ?thesis using 1 t(3) h
    by (simp add: track_inv_def counted_def plain_track_def encoder_view_def returned_def out_frames_def kv_wf_def)
next
  case False
  then show ?thesis using assms by (simp add: Flush_def)
qed

lemma clear_inv:
  assumes "track_inv alloc X (A, t)" "ClearInputQueue t = Some t'"
  shows "track_inv alloc X (A, t')"
proof -
  let ?bs = "map q_buffer (frames_received t)"
  let ?H = "mset (map (\<lambda>p. q_handle (snd p)) (buffer_list t)) + mset (map q_handle (frames_being_encoded t)) + X"
  have t: "plain_track t" "counted (out_frames t + X) t" "A = returned t + out_frames t + X" "encoder_view alloc t" "kv_wf (buffer_list t)"
    using assms(1) by (simp_all add: track_inv_def)
  have h: "out_frames t + X = mset (map b_handle ?bs) + ?H" by (simp add: out_frames_def comp_def)
  obtain t1 where 1: "return_all ?bs t = Some t1" "counted ?H t1" "plain_track t1" "returned t1 = mset (map b_handle ?bs) + returned t"
    "buffer_list t1 = buffer_list t" "frames_being_encoded t1 = frames_being_encoded t" "encoder_view alloc t1"
    using give_all [OF t(1), of ?bs ?H] t(2,4) h by auto
  have "t' = t1\<lparr>frames_received := []\<rparr>" using assms(2) 1(1) t(1) by (auto simp: ClearInputQueue_def plain_track_def)
  then show ?thesis using 1 t(3,5) h
    by (simp add: track_inv_def counted_def plain_track_def encoder_view_def returned_def out_frames_def)
qed

lemma return_fds_inv:
  "return_fds fds t = Some t' \<Longrightarrow> track_inv alloc X (A, t) \<Longrightarrow> track_inv alloc X (A, t')"
proof (induction fds arbitrary: t)
  case (Cons fd fds)
  from Cons.prems(1) obtain q t1 where q: "kv_find (buffer_list t) fd = Some q" "ReturnBufferToProducer (q_buffer q) t = Some t1"
    "return_fds fds (t1\<lparr>buffer_list := kv_remove fd (buffer_list t1)\<rparr>) = Some t'" by (auto simp: bind_eq_Some_conv)
  have t: "plain_track t" "counted (out_frames t + X) t" "A = returned t + out_frames t + X" "encoder_view alloc t" "kv_wf (buffer_list t)"
    using Cons.prems(2) by (simp_all add: track_inv_def)
  let ?H = "mset (map (\<lambda>p. q_handle (snd p)) (kv_remove fd (buffer_list t))) + mset (map q_handle (frames_received t)) +
      mset (map q_handle (frames_being_encoded t)) + X"
  have h: "out_frames t + X = add_mset (q_handle q) ?H"
    unfolding out_frames_def mset_map kv_remove_mset [OF kv_wf_distinct [OF t(5)] q(1)] by simp
  note g = give_one [OF t(1), of "q_buffer q" ?H]
  have t1: "t1 = jot (Returned (q_buffer q)) (drop_handle (q_handle q) t)" "counted ?H t1" using g q(2) t(2) h by simp_all
  have "track_inv alloc X (A, t1\<lparr>buffer_list := kv_remove fd (buffer_list t1)\<rparr>)"
    using t t1(2) h unfolding t1(1)
    by (simp add: track_inv_def counted_def plain_track_def encoder_view_def out_frames_def) (simp add: returned_def jot_def drop_handle_def)
  then show ?case by (rule Cons.IH [OF q(3)])
qed simp

lemma client_return_inv:
  assumes "track_inv alloc X (A, t)" "ReturnTrackBuffer fds t = Some (r, t')"
  shows "track_inv alloc X (A, t')"
proof -
  have idle: "track_inv alloc X (A, x\<lparr>is_idle := b\<rparr>) = track_inv alloc X (A, x)" for x b
    by (simp add: track_inv_def counted_def plain_track_def encoder_view_def out_frames_def returned_def)
  from assms(2) obtain t1 where "return_fds fds t = Some t1" "t' = t1 \<or> t' = t1\<lparr>is_idle := True\<rparr>"
    by (auto simp: ReturnTrackBuffer_def bind_eq_Some_conv split: if_splits)
  then show ?thesis using return_fds_inv [OF _ assms(1)] idle by metis
qed

lemma fetch_inv:
  assumes i: "track_inv alloc X (A, t)" and run: "next_frame alloc t = Some (d, t')" and inj: "inj alloc"
  shows "track_inv alloc X (A, t')"
proof -
  from run obtain q qs where q: "frames_received t = q # qs" by (auto simp: next_frame_def split: list.splits)
  have t: "plain_track t" "counted (out_frames t + X) t" "A = returned t + out_frames t + X" "encoder_view alloc t" "kv_wf (buffer_list t)"
    using i by (simp_all add: track_inv_def)
  have one: "time_lapse t = None \<Longrightarrow> pending_encodes_per_frame q = 1 \<and> encodes_per_frame_count q = 1"
    using t(4) q by (simp add: encoder_view_def)
  define q1 where "q1 = last (frames_being_encoded t')"
  have q1: "q_buffer q1 = q_buffer q" "needs_return q1" "frames_being_encoded t' = frames_being_encoded t @ [q1]"
    "frames_received t' = qs" "buffers_map t' = kv_add (alloc (q_handle q)) (q_handle q) (buffers_map t)"
    using run one by (auto simp: q1_def next_frame_def q Let_def split: option.splits if_splits)
  have same: "buffer_map t' = buffer_map t" "buffer_list t' = buffer_list t" "tlog t' = tlog t" "time_lapse t' = time_lapse t"
    "linked t' = linked t" "num_consumers t' = num_consumers t" "enable_frame_repeat t' = enable_frame_repeat t"
    using run by (auto simp: next_frame_def q Let_def split: option.splits if_splits)
  have h: "out_frames t' = out_frames t" by (simp add: out_frames_def same q q1)
  have "encoder_view alloc t'"
    using t(4) unfolding encoder_view_def q1 same
    by (auto simp: q q1 inj_eq [OF inj] split: if_splits)
  moreover have "counted (out_frames t + X) t'" using t(2) by (rule counted_cong) (rule same(1))
  ultimately show ?thesis using t by (simp add: track_inv_def h same plain_track_def returned_def)
qed

lemma split_handle_found:
  "split_handle h qs = Some (xs, q, ys) \<Longrightarrow> qs = xs @ q # ys \<and> q_handle q = h"
  by (induction qs arbitrary: xs) (auto split: if_splits)

lemma split_handle_in: "q \<in> set qs \<Longrightarrow> split_handle (q_handle q) qs \<noteq> None"
  by (induction qs) auto

lemma encoder_drop:
  assumes v: "encoder_view alloc t" and fr: "frames_being_encoded t = xs @ q # ys"
    and d: "kv_find (buffers_map t) data = Some (q_handle q)" and new: "q_handle q \<notin> q_handle ` set (xs @ ys)"
    and t': "buffers_map t' = kv_remove data (buffers_map t)" "frames_being_encoded t' = xs @ ys"
      "frames_received t' = frames_received t" "time_lapse t' = time_lapse t"
  shows "encoder_view alloc t'"
  unfolding encoder_view_def t'
proof (intro conjI ballI allI impI)
  fix x assume x: "x \<in> set (xs @ ys)"
  then have v': "needs_return x" "kv_find (buffers_map t) (alloc (q_handle x)) = Some (q_handle x)"
    using v fr by (auto simp: encoder_view_def)
  have "q_handle x \<noteq> q_handle q" using x new by (metis imageI)
  then have "alloc (q_handle x) \<noteq> data" using v'(2) d by auto
  with v' show "needs_return x" "kv_find (kv_remove data (buffers_map t)) (alloc (q_handle x)) = Some (q_handle x)"
    by simp_all
qed (use v in \<open>simp_all add: encoder_view_def split: if_splits\<close>)

lemma done_inv:
  assumes i: "track_inv alloc X (A, t)" and run: "ReturnBuffer data t = Some (r, t')"
  shows "track_inv alloc X (A, t')"
proof -
  from run obtain h xs q ys t1 where 1: "kv_find (buffers_map t) data = Some h"
    "split_handle h (frames_being_encoded t) = Some (xs, q, ys)"
    "(if needs_return q then ReturnBufferToProducer (q_buffer q) t else Some t) = Some t1"
    and t': "t' = t1\<lparr>frames_being_encoded := xs @ ys, buffers_map := kv_remove data (buffers_map t1)\<rparr>"
    by (auto simp: ReturnBuffer_def bind_eq_Some_conv)
  have t: "plain_track t" "counted (out_frames t + X) t" "A = returned t + out_frames t + X" "encoder_view alloc t" "kv_wf (buffer_list t)"
    using i by (simp_all add: track_inv_def)
  note sp = split_handle_found [OF 1(2)]
  let ?H = "mset (map (\<lambda>p. q_handle (snd p)) (buffer_list t)) + mset (map q_handle (frames_received t)) +
      mset (map q_handle (xs @ ys)) + X"
  have h: "out_frames t + X = add_mset (q_handle q) ?H" using sp by (simp add: out_frames_def)
  have c: "counted (add_mset (q_handle q) ?H) t" using t(2) h by simp
  have "needs_return q" using t(4) sp by (simp add: encoder_view_def)
  with 1(3) give_one [OF t(1) c] have t1: "t1 = jot (Returned (q_buffer q)) (drop_handle (q_handle q) t)" "counted ?H t1"
    by simp_all
  have "q_handle q \<notin> q_handle ` set (xs @ ys)" using counted_fresh [OF c] by (simp add: image_Un)
  note drop = encoder_drop [OF t(4) _ _ this]
  have "encoder_view alloc t'"
    by (rule drop [of data]) (use sp 1(1) in \<open>simp_all add: t' t1(1)\<close>)
  moreover have "counted ?H t'" using t1(2) by (rule counted_cong) (simp add: t')
  moreover have "out_frames t' + X = ?H" "returned t' = add_mset (q_handle q) (returned t)" "plain_track t'" "buffer_list t' = buffer_list t"
    using t(1) by (simp_all add: t' t1(1) out_frames_def plain_track_def returned_def jot_def drop_handle_def)
  ultimately show ?thesis using t(3,5) h by (simp add: track_inv_def)
qed

section \<open>Runs\<close>

text \<open>
  Frames arrive that are not out already: \<open>OnFrameAvailable\<close> counts a frame under \<^verbatim>\<open>frame_lock_\<close> and delivers
  it later without that lock; \<open>R\<close> are the frames in between. The client and the encoder return what they
  have, queues are cleared and flushed, and the flags of the track change at any time. The queue is cleared
  in two parts: first its frames are given back, then it is emptied, and a frame that \<open>PushFrameToQueue\<close>
  appends in between, without a lock, is dropped: \<open>L\<close> are these frames. Every other method is one step; a
  call that fails an assertion ends the run.
\<close>

type_synonym track_state = "handle multiset \<times> qbuf list \<times> handle multiset \<times> track"

inductive track_step :: "(handle \<Rightarrow> nat) \<Rightarrow> track_state \<Rightarrow> track_state \<Rightarrow> bool" for alloc where
  Arrive: "q_handle q \<notin># out_frames t + mset (map q_handle R) + L \<Longrightarrow>
    track_step alloc (A, R, L, t) (add_mset (q_handle q) A, q # R, L, register_frame q t)"
| Deliver: "q \<in> set R \<Longrightarrow> kv_find (buffer_list t) (word_of_int (b_fd (q_buffer q))) = None \<Longrightarrow>
    deliver_frame slower n prompt q t = Some t' \<Longrightarrow> track_step alloc (A, R, L, t) (A, remove1 q R, L, t')"
| Client: "ReturnTrackBuffer fds t = Some (r, t') \<Longrightarrow> track_step alloc (A, R, L, t) (A, R, L, t')"
| Flushing: "Flush t = Some (r, t') \<Longrightarrow> track_step alloc (A, R, L, t) (A, R, L, t')"
| Fetch: "next_frame alloc t = Some (d, t') \<Longrightarrow> track_step alloc (A, R, L, t) (A, R, L, t')"
| Done: "ReturnBuffer data t = Some (r, t') \<Longrightarrow> track_step alloc (A, R, L, t) (A, R, L, t')"
| Clearing: "mset R = mset R' + mset P \<Longrightarrow> ClearInputQueue t = Some t' \<Longrightarrow>
    track_step alloc (A, R, L, t) (A, R', L + mset (map q_handle P), t')"
| Flags: "track_step alloc (A, R, L, t) (A, R, L, t\<lparr>is_stop := a, is_paused := b, eos_acked := c, is_idle := d\<rparr>)"

definition fresh_track :: "track_state \<Rightarrow> bool" where
  "fresh_track x \<longleftrightarrow> (\<exists>i cam w h f lapse rate. x = ({#}, [], {#}, (TrackSource i cam w h f lapse rate)\<lparr>linked := True\<rparr>))"

definition track_ledger :: "(handle \<Rightarrow> nat) \<Rightarrow> track_state \<Rightarrow> bool" where
  "track_ledger alloc x \<longleftrightarrow> (case x of (A, R, L, t) \<Rightarrow> track_inv alloc (mset (map q_handle R) + L) (A, t))"

lemma handles_remove1: "q \<in> set R \<Longrightarrow> mset (map q_handle R) = add_mset (q_handle q) (mset (map q_handle (remove1 q R)))"
  by (induction R) auto

lemma track_step_inv: "inj alloc \<Longrightarrow> track_ledger alloc x \<Longrightarrow> track_step alloc x y \<Longrightarrow> track_ledger alloc y"
proof -
  assume inj: "inj alloc" and i: "track_ledger alloc x" and s: "track_step alloc x y"
  from s i show ?thesis
  proof cases
    case (Arrive q t R L A)
    then show ?thesis using i register_inv [of alloc "mset (map q_handle R) + L" A t q] by (simp add: track_ledger_def)
  next
    case (Deliver q R t slower n prompt t' A L)
    have "mset (map q_handle R) = add_mset (q_handle q) (mset (map q_handle (remove1 q R)))"
      by (rule handles_remove1) (rule Deliver(3))
    then show ?thesis using i Deliver deliver_inv [of alloc q "mset (map q_handle (remove1 q R)) + L" A t] by (simp add: track_ledger_def)
  next
    case (Clearing R R' P t t' A L)
    have "mset (map q_handle R) = mset (map q_handle R') + mset (map q_handle P)" by (metis Clearing(3) image_mset_union mset_map)
    then have "track_inv alloc (mset (map q_handle R') + (L + mset (map q_handle P))) (A, t)"
      using i Clearing(1) by (simp add: track_ledger_def ac_simps)
    then show ?thesis using clear_inv Clearing(2,4) by (simp add: track_ledger_def)
  next
    case (Flags A R L t a b c d)
    then show ?thesis using i
      by (simp add: track_ledger_def track_inv_def counted_def plain_track_def encoder_view_def out_frames_def returned_def)
  qed (use inj in \<open>auto simp: track_ledger_def intro: client_return_inv flush_inv fetch_inv done_inv\<close>)
qed

lemma fresh_track_inv: "fresh_track x \<Longrightarrow> track_ledger alloc x"
  by (auto simp: fresh_track_def track_ledger_def track_inv_def TrackSource_def plain_track_def counted_def encoder_view_def out_frames_def
      returned_def kv_wf_def)

interpretation track_sys: invariant_system fresh_track "track_step alloc" "\<lambda>x. inj alloc \<longrightarrow> track_ledger alloc x" for alloc
  by unfold_locales (auto intro: fresh_track_inv track_step_inv)

end
