(* ===== verification/Camera_Source_Claims.thy ===== *)
theory Camera_Source_Claims
  imports Camera_Source Track_Source_Props
begin

text \<open>
  Properties of tracks: what becomes of their frames, and what starting, stopping, pausing and
  creating them does.
\<close>

section \<open>Frames\<close>

lemma split_handle_some:
  "q \<in> set qs \<Longrightarrow> \<exists>xs x ys. split_handle (q_handle q) qs = Some (xs, x, ys)"
  by (induction qs) (auto split: option.splits)

lemma inv_ReturnBuffer:
  assumes i: "track_inv alloc X (A, t)" and q: "q \<in> set (frames_being_encoded t)"
  shows "\<exists>t'. ReturnBuffer (alloc (q_handle q)) t = Some (NO_ERROR, t')"
proof -
  have t: "plain_track t" "counted (out_frames t + X) t" using i by (simp_all add: track_inv_def)
  have d: "kv_find (buffers_map t) (alloc (q_handle q)) = Some (q_handle q)"
    using i q by (simp add: track_inv_def encoder_view_def)
  obtain xs x ys where sp: "split_handle (q_handle q) (frames_being_encoded t) = Some (xs, x, ys)"
    using split_handle_some [OF q] by blast
  then have x: "frames_being_encoded t = xs @ x # ys" using split_handle_found by blast
  have "counted (add_mset (q_handle x) (out_frames t - {#q_handle x#} + X)) t"
    using t(2) x by (simp add: out_frames_def)
  from give_one(1) [OF t(1) this] show ?thesis using d sp by (simp add: ReturnBuffer_def)
qed

lemma inv_ReturnTrackBuffer:
  assumes i: "track_inv alloc X (A, t)" and q: "kv_find (buffer_list t) fd = Some q"
  shows "\<exists>t'. Track_Source.ReturnTrackBuffer [fd] t = Some (NO_ERROR, t')"
proof -
  have t: "plain_track t" "counted (out_frames t + X) t" using i by (simp_all add: track_inv_def)
  have "q_handle q \<in># out_frames t" using map_of_SomeD [OF q] by (force simp: out_frames_def)
  then have "counted (add_mset (q_handle q) (out_frames t - {#q_handle q#} + X)) t" using t(2) by (simp add: insert_DiffM union_mset_add_mset_left [symmetric])
  from give_one(1) [OF t(1) this] show ?thesis using q by (simp add: Track_Source.ReturnTrackBuffer_def)
qed

lemma inv_ClearInputQueue: "track_inv alloc X (A, t) \<Longrightarrow> ClearInputQueue t \<noteq> None"
proof -
  assume i: "track_inv alloc X (A, t)"
  let ?bs = "map q_buffer (frames_received t)"
  let ?H = "mset (map (\<lambda>p. q_handle (snd p)) (buffer_list t)) + mset (map q_handle (frames_being_encoded t)) + X"
  have h: "out_frames t + X = mset (map b_handle ?bs) + ?H" by (simp add: out_frames_def comp_def)
  have t: "plain_track t" "counted (out_frames t + X) t" using i by (simp_all add: track_inv_def)
  then obtain t1 where "return_all ?bs t = Some t1" using give_all [of t ?bs ?H] h by auto
  then show ?thesis using t(1) by (simp add: ClearInputQueue_def plain_track_def)
qed

lemma inv_Flush: "track_inv alloc X (A, t) \<Longrightarrow> Flush t \<noteq> None"
proof -
  assume i: "track_inv alloc X (A, t)"
  let ?bs = "map (\<lambda>p. q_buffer (snd p)) (buffer_list t)"
  let ?H = "mset (map q_handle (frames_received t)) + mset (map q_handle (frames_being_encoded t)) + X"
  have h: "out_frames t + X = mset (map b_handle ?bs) + ?H" by (simp add: out_frames_def comp_def)
  have t: "plain_track t" "counted (out_frames t + X) t" using i by (simp_all add: track_inv_def)
  then obtain t1 where "return_all ?bs t = Some t1" using give_all [of t ?bs ?H] h by auto
  then show ?thesis by (simp add: Flush_def)
qed

lemma counted_none: "counted {#} t \<Longrightarrow> buffer_map t = []"
  by (cases "buffer_map t") (auto simp: counted_def dest: spec [of _ "fst (hd (buffer_map t))"])

text \<open>
  C11. Take a track that has no consumers of its own and does not repeat frames. In whatever order
  frames are counted, delivered to the client or the encoder, come back, or are cleared and flushed, as
  long as no call fails an assertion: each frame that the track got is exactly once on its way in, with the
  client, waiting for or with the encoder, given back to the camera, or dropped, which happens only to a
  frame that is pushed while the queue is cleared. When no frame is in one of these places but given
  back, all are back and no count is left. Clearing and flushing do not fail, nor does the return of one
  frame that the client or the encoder has.
\<close>

theorem frames_come_back:
  assumes "inj alloc" "fresh_track x" "(track_step alloc)\<^sup>*\<^sup>* x (A, R, L, t)"
  shows "A = returned t + (out_frames t + mset (map q_handle R) + L) \<and> (\<forall>h. count (out_frames t + mset (map q_handle R) + L) h \<le> 1) \<and>
    (out_frames t = {#} \<and> R = [] \<and> L = {#} \<longrightarrow> returned t = A \<and> buffer_map t = []) \<and>
    (\<forall>q \<in> set (frames_being_encoded t). \<exists>t'. ReturnBuffer (alloc (q_handle q)) t = Some (NO_ERROR, t')) \<and>
    (\<forall>fd \<in> kv_keyset (buffer_list t). \<exists>t'. Track_Source.ReturnTrackBuffer [fd] t = Some (NO_ERROR, t')) \<and>
    ClearInputQueue t \<noteq> None \<and> Flush t \<noteq> None"
proof -
  let ?X = "mset (map q_handle R) + L"
  have i: "track_inv alloc ?X (A, t)" using track_sys.inv_reachable [OF assms(2,3)] assms(1) by (simp add: track_ledger_def)
  then have c: "counted (out_frames t + ?X) t" "A = returned t + out_frames t + ?X" by (simp_all add: track_inv_def)
  have "\<forall>h. count (out_frames t + mset (map q_handle R) + L) h \<le> 1" using c(1) by (simp add: counted_def add.assoc)
  moreover have "returned t = A \<and> buffer_map t = []" if "out_frames t = {#} \<and> R = [] \<and> L = {#}"
    using that c counted_none [of t] by simp
  moreover have "\<exists>t'. Track_Source.ReturnTrackBuffer [fd] t = Some (NO_ERROR, t')" if "fd \<in> kv_keyset (buffer_list t)" for fd
    using that inv_ReturnTrackBuffer [OF i] by (auto simp: kv_keyset_find)
  ultimately show ?thesis
    using c(2) inv_ReturnBuffer [OF i] inv_ClearInputQueue [OF i] inv_Flush [OF i] by (simp add: add.assoc)
qed

definition demo_track :: track where
  "demo_track = (TrackSource 1 0 640 480 VideoFormat.kNV12 None (False, 33))\<lparr>linked := True\<rparr>"

definition demo_q :: "handle \<Rightarrow> qbuf" where
  "demo_q h = \<lparr>q_buffer = \<lparr>b_info = \<lparr>buffer_format = BufferFormat.kNV12, plane_info = []\<rparr>, b_timestamp = 5, b_frame_number = 1,
       b_stream_id = 0, b_data_space = HAL_DATASPACE_UNKNOWN, b_handle = h, b_fd = 7, b_size = 0, b_metafd = 0\<rparr>,
     pending_encodes_per_frame = 0, encodes_per_frame_count = 0, needs_return = False\<rparr>"

definition demo_frame :: track where
  "demo_frame = the (deliver_frame False 0 (\<lambda>_ _. False) (demo_q 3) (register_frame (demo_q 3) demo_track))"

definition demo_done :: track where
  "demo_done = snd (the (Track_Source.ReturnTrackBuffer [7] demo_frame))"

lemmas demo_defs = demo_track_def demo_q_def TrackSource_def register_frame_def deliver_frame_def emplace_def
  CalculateEncodesPerFrame_def feed_consumers_def IsPaused_def IsStop_def encoded_def give_client_def jot_def
  PushFrameToQueue_def Track_Source.ReturnTrackBuffer_def ReturnBufferToProducer_def give_back_def kv_remove_def Let_def

text \<open>Frame 3 goes to the client, who can return it, and comes back.\<close>

theorem frames_come_back_witness:
  "{#3#} = returned demo_frame + out_frames demo_frame \<and> out_frames demo_frame = {#3#} \<and>
   (\<exists>t'. Track_Source.ReturnTrackBuffer [7] demo_frame = Some (NO_ERROR, t')) \<and>
   {#3#} = returned demo_done \<and> out_frames demo_done = {#} \<and> buffer_map demo_done = [] \<and> Flush demo_done \<noteq> None"
proof -
  have 1: "deliver_frame False 0 (\<lambda>_ _. False) (demo_q 3) (register_frame (demo_q 3) demo_track) = Some demo_frame"
    by (simp add: demo_frame_def) (simp add: demo_defs)
  have 2: "Track_Source.ReturnTrackBuffer [7] demo_frame = Some (NO_ERROR, demo_done)"
    by (simp add: demo_done_def demo_frame_def) (simp add: demo_defs)
  have "track_step id ({#}, [], {#}, demo_track) (add_mset (q_handle (demo_q 3)) {#}, [demo_q 3], {#}, register_frame (demo_q 3) demo_track)"
    by (rule track_step.Arrive) (simp add: out_frames_def demo_track_def TrackSource_def)
  moreover have "track_step id ({#3#}, [demo_q 3], {#}, register_frame (demo_q 3) demo_track) ({#3#}, remove1 (demo_q 3) [demo_q 3], {#}, demo_frame)"
    by (rule track_step.Deliver [OF _ _ 1]) (simp_all add: demo_defs)
  ultimately have r1: "(track_step id)\<^sup>*\<^sup>* ({#}, [], {#}, demo_track) ({#3#}, [], {#}, demo_frame)"
    by (simp add: demo_q_def rtranclp.rtrancl_into_rtrancl)
  then have r2: "(track_step id)\<^sup>*\<^sup>* ({#}, [], {#}, demo_track) ({#3#}, [], {#}, demo_done)"
    using track_step.Client [OF 2] by (rule rtranclp.rtrancl_into_rtrancl)
  have fresh: "fresh_track ({#}, [], {#}, demo_track)" unfolding fresh_track_def demo_track_def by blast
  have o: "out_frames demo_frame = {#3#}" "7 \<in> kv_keyset (buffer_list demo_frame)"
    by (simp_all add: out_frames_def demo_frame_def) (simp_all add: demo_defs)
  have e: "out_frames demo_done = {#}" by (simp add: out_frames_def demo_done_def demo_frame_def) (simp add: demo_defs)
  have "{#3#} = returned demo_frame + (out_frames demo_frame + mset (map q_handle []) + {#})" using frames_come_back [OF inj_on_id fresh r1] by blast
  moreover have "\<exists>t'. Track_Source.ReturnTrackBuffer [7] demo_frame = Some (NO_ERROR, t')"
    using frames_come_back [OF inj_on_id fresh r1] o(2) by blast
  moreover have "returned demo_done = {#3#} \<and> buffer_map demo_done = []" "Flush demo_done \<noteq> None"
    using frames_come_back [OF inj_on_id fresh r2] e by blast+
  ultimately show ?thesis unfolding e o(1) by simp
qed

section \<open>Starting and stopping\<close>

lemma obj_set_obj: "obj i w = Some t \<Longrightarrow> obj k (set_obj i x w) = (if k = i then Some x else obj k w)"
  by (auto simp: obj_def set_obj_def split: if_splits)

lemma set_obj_again [simp]: "set_obj i x (set_obj i y w) = set_obj i x w"
  by (simp add: set_obj_def)

lemma with_obj_some: "obj i w = Some t \<Longrightarrow> with_obj i f w = map_option (\<lambda>x. set_obj i x w) (f t)"
  by (cases "f t") (simp_all add: with_obj_def)

lemma ports_frame [simp]:
  "GetPort k (set_obj i x w) = GetPort k w" "active_ports (set_obj i x w) = active_ports w"
  "set_obj i x (w\<lparr>active_ports := ps\<rparr>) = (set_obj i x w)\<lparr>active_ports := ps\<rparr>"
  "obj i (w\<lparr>active_ports := ps\<rparr>) = obj i w"
  by (simp_all add: GetPort_def set_obj_def obj_def)

text \<open>A producer with one more consumer.\<close>

definition joined :: "consumer \<Rightarrow> producer \<Rightarrow> producer" where
  "joined c p = p\<lparr>buffer_consumers := kv_add c c (buffer_consumers p)\<rparr>"

definition apart :: "consumer \<Rightarrow> producer \<Rightarrow> bool" where
  "apart c p \<longleftrightarrow> c \<noteq> 0 \<and> kv_wf (buffer_consumers p) \<and> \<not> IsConnected c p"

lemma joined_laws:
  assumes "apart c p"
  shows "Buffer_Exchange.AddConsumer c p = Some (joined c p)" "IsConnected c (joined c p)"
    "Buffer_Exchange.RemoveConsumer c (joined c p) = Some p" "buffers (joined c p) = buffers p"
  using assms by (auto simp: apart_def joined_def IsConnected_def IsConnectedLocked_def Buffer_Exchange.AddConsumer_def
      Buffer_Exchange.RemoveConsumer_def kv_remove_absent)

text \<open>A controller that has been started, and stopped.\<close>

definition running :: "consumer \<Rightarrow> frc \<Rightarrow> frc" where
  "running c f = reset_counts (f\<lparr>buffer_producer := joined c (buffer_producer f), has_producer := True, active := True\<rparr>)"

definition at_rest :: "consumer \<Rightarrow> frc \<Rightarrow> bool" where
  "at_rest c f \<longleftrightarrow> \<not> active f \<and> buffers (buffer_producer f) = [] \<and> apart c (buffer_producer f)"

lemma Stop_running:
  "at_rest c f \<Longrightarrow> Stop ws (running c f) =
    (0, reset_counts (f\<lparr>buffer_producer := joined c (buffer_producer f), has_producer := True\<rparr>))"
  by (simp add: Stop_def running_def at_rest_def joined_laws CheckAndWaitPendingBuffers.simps reset_counts_def)

definition started :: "nat \<Rightarrow> track \<Rightarrow> track" where
  "started i t = t\<lparr>is_stop := False, eos_acked := False, linked := True,
     fsc := running (frc_intf i) (fsc t), frc_of := running (track_intf i) (frc_of t)\<rparr>"

text \<open>A raw track with a port of its own that is ready to be started.\<close>

definition ready :: "source_env \<Rightarrow> nat \<Rightarrow> producer \<Rightarrow> track \<Rightarrow> camera_source \<Rightarrow> bool" where
  "ready E i p t w \<longleftrightarrow> obj i w = Some t \<and> \<not> slave_track_source t \<and> \<not> has_rescaler t \<and> \<not> encoded (params_format t) \<and>
     is_idle t \<and> at_rest (frc_intf i) (fsc t) \<and> at_rest (track_intf i) (frc_of t) \<and>
     kv_wf (active_ports w) \<and> GetPort (params_id t) w = Some p \<and> apart (fsc_intf i) p \<and>
     port_reply E S_start (params_id t) = NO_ERROR \<and> port_reply E S_stop (params_id t) = NO_ERROR"

definition with_port :: "u32 \<Rightarrow> producer \<Rightarrow> camera_source \<Rightarrow> camera_source" where
  "with_port k p w = w\<lparr>active_ports := kv_add k p (active_ports w)\<rparr>"

lemma with_port_frame [simp]:
  "obj i (with_port k p w) = obj i w" "set_obj i x (with_port k p w) = with_port k p (set_obj i x w)"
  "kv_wf (active_ports w) \<Longrightarrow> GetPort j (with_port k p w) = (if j = k then Some p else GetPort j w)"
  by (auto simp: with_port_def GetPort_def)

lemma at_rest_add:
  "at_rest c f \<Longrightarrow> Frame_Rate.AddConsumer c f = (0, [SetProducer c], f\<lparr>buffer_producer := joined c (buffer_producer f)\<rparr>)"
  by (simp add: Frame_Rate.AddConsumer_def at_rest_def joined_laws) (simp add: apart_def)

lemma StartTrack_ready:
  assumes "ready E i p t w"
  shows "StartTrack E i w = Some (NO_ERROR, with_port (params_id t) (joined (fsc_intf i) p) (set_obj i (started i t) w))"
proof -
  let ?k = "params_id t" and ?f = "fsc t" and ?g = "frc_of t"
  define t1 where "t1 = t\<lparr>is_stop := False, eos_acked := False, linked := True,
      frc_of := ?g\<lparr>buffer_producer := joined (track_intf i) (buffer_producer ?g)\<rparr>\<rparr>"
  define t2 where "t2 = t1\<lparr>fsc := ?f\<lparr>has_producer := True, buffer_producer := joined (frc_intf i) (buffer_producer ?f)\<rparr>,
      frc_of := (frc_of t1)\<lparr>has_producer := True\<rparr>\<rparr>"
  note r = assms [unfolded ready_def]
  have a: "add_to_frc i (t\<lparr>is_stop := False, eos_acked := False\<rparr>) = Some t1"
    using r by (simp add: add_to_frc_def at_rest_add ensure_def t1_def)
  have o1: "obj i (set_obj i t1 w) = Some t1" using r by (simp add: obj_set_obj)
  have p1: "port_AddConsumer ?k (fsc_intf i) (set_obj i t1 w) = Some (NO_ERROR, with_port ?k (joined (fsc_intf i) p) (set_obj i t1 w))"
    using r joined_laws [of "fsc_intf i" p] by (simp add: port_AddConsumer_def with_port_def apart_def)
  have f1: "do { x1 \<leftarrow> feed_fsc t1; add_to_fsc (frc_intf i) True x1 } = Some t2"
  proof -
    have "at_rest (frc_intf i) (?f\<lparr>has_producer := True\<rparr>)" using r by (simp add: at_rest_def)
    then show ?thesis by (simp add: feed_fsc_def add_to_fsc_def at_rest_add ensure_def t2_def t1_def)
  qed
  have s: "start_controllers t2 = Some (started i t)"
    using r by (simp add: start_controllers_def ensure_def t2_def t1_def Start_def at_rest_def started_def running_def reset_counts_def)
  have k1: "params_id t1 = ?k" by (simp add: t1_def)
  have w1: "with_obj i (\<lambda>x. do { x1 \<leftarrow> feed_fsc x; add_to_fsc (frc_intf i) True x1 })
      (with_port ?k (joined (fsc_intf i) p) (set_obj i t1 w)) = Some (with_port ?k (joined (fsc_intf i) p) (set_obj i t2 w))"
    using o1 f1 by (subst with_obj_some [of i _ t1]) simp_all
  have l: "link_port E i (set_obj i t1 w) = Some (with_port ?k (joined (fsc_intf i) p) (set_obj i t2 w))"
    using r o1 p1 w1 k1 by (simp add: link_port_def ensure_def StartStream_def port_op_def)
  have o2: "obj i (set_obj i t2 w) = Some t2" using r by (simp add: obj_set_obj)
  have "\<not> slave_track_source t1" "\<not> has_rescaler t1" using r by (simp_all add: t1_def)
  then show ?thesis using r a o1 o2 l s by (simp add: StartTrack_def with_obj_some ensure_def)
qed

text \<open>The controllers keep the producer handle of the port; the counts of both are reset.\<close>

definition stopped :: "track \<Rightarrow> track" where
  "stopped t = t\<lparr>is_stop := True, is_paused := False, eos_acked := False, linked := False,
     fsc := reset_counts ((fsc t)\<lparr>has_producer := True\<rparr>), frc_of := reset_counts ((frc_of t)\<lparr>has_producer := False\<rparr>)\<rparr>"

lemma remove_joined:
  assumes "at_rest c f"
  shows "Frame_Rate.RemoveConsumer c (reset_counts (f\<lparr>buffer_producer := joined c (buffer_producer f), has_producer := b\<rparr>)) =
    (0, [ClearProducer c], reset_counts (f\<lparr>has_producer := b\<rparr>))"
  using assms by (simp add: Frame_Rate.RemoveConsumer_def at_rest_def joined_laws reset_counts_def) (simp add: apart_def)

lemma with_port_again:
  assumes "kv_wf (active_ports w)" "GetPort k w = Some p"
  shows "with_port k p (with_port k x w) = w"
proof -
  have "kv_add k p (kv_add k x (active_ports w)) = active_ports w"
    using assms by (simp add: kv_add_add kv_add_same GetPort_def)
  then show ?thesis by (simp add: with_port_def)
qed

lemma port_leave:
  assumes "kv_wf (active_ports w)" "apart c p" "GetPort k w = Some p"
  shows "port_RemoveConsumer k c (with_port k (joined c p) w) = Some (NO_ERROR, w)"
proof -
  let ?w = "with_port k (joined c p) w"
  have "port_RemoveConsumer k c ?w = Some (NO_ERROR, with_port k p ?w)"
    using assms joined_laws [OF assms(2)] by (simp add: port_RemoveConsumer_def) (simp add: with_port_def)
  then show ?thesis using with_port_again [OF assms(1,3)] by simp
qed

lemma stop_pipeline_ready:
  assumes r: "ready E i p t w" and t: "t1 = (started i t)\<lparr>is_paused := False, is_stop := True\<rparr>"
    and w: "w1 = with_port (params_id t) (joined (fsc_intf i) p) (set_obj i t1 w)"
  shows "stop_pipeline E i w1 = Some (set_obj i (stopped t) w)"
proof -
  let ?k = "params_id t" and ?f = "fsc t" and ?g = "frc_of t" and ?P = "joined (fsc_intf i) p"
  define f1 where "f1 = reset_counts (?f\<lparr>buffer_producer := joined (frc_intf i) (buffer_producer ?f), has_producer := True\<rparr>)"
  define g1 where "g1 = reset_counts (?g\<lparr>buffer_producer := joined (track_intf i) (buffer_producer ?g), has_producer := True\<rparr>)"
  define g2 where "g2 = reset_counts (?g\<lparr>buffer_producer := joined (track_intf i) (buffer_producer ?g), has_producer := False\<rparr>)"
  define t2 where "t2 = t1\<lparr>frc_of := g1, fsc := f1\<rparr>"
  define t3 where "t3 = t1\<lparr>fsc := reset_counts (?f\<lparr>has_producer := True\<rparr>), frc_of := g2\<rparr>"
  note r = r [unfolded ready_def]
  have o: "obj i (set_obj i x w) = Some x" for x using r by (simp add: obj_set_obj)
  have 1: "stop_controllers E t1 = Some t2"
    using r by (simp add: stop_controllers_def t started_def Stop_running ensure_def t2_def f1_def g1_def)
  have 2: "remove_from_fsc (frc_intf i) True t2 = Some t3"
  proof -
    have "g1\<lparr>has_producer := False\<rparr> = g2" by (simp add: g1_def g2_def reset_counts_def)
    then show ?thesis using r by (simp add: remove_from_fsc_def t2_def f1_def remove_joined ensure_def t3_def)
  qed
  have 3: "remove_from_frc i t3 = Some (stopped t)"
    using r by (simp add: remove_from_frc_def t3_def g2_def remove_joined ensure_def stopped_def t started_def)
  have 4: "unlink_port E i (with_port ?k ?P (set_obj i t2 w)) = Some (set_obj i t3 w)"
  proof -
    have "params_id t2 = ?k" by (simp add: t2_def t started_def)
    moreover have "with_obj i (remove_from_fsc (frc_intf i) True) (with_port ?k ?P (set_obj i t2 w)) =
        Some (with_port ?k ?P (set_obj i t3 w))"
      using o [of t2] 2 by (subst with_obj_some [of i _ t2]) simp_all
    moreover have "port_RemoveConsumer ?k (fsc_intf i) (with_port ?k ?P (set_obj i t3 w)) = Some (NO_ERROR, set_obj i t3 w)"
      using r by (intro port_leave) simp_all
    ultimately show ?thesis using r o [of t2]
      by (simp add: unlink_port_def ensure_def StopStream_def port_op_def)
  qed
  have "with_obj i (stop_controllers E) w1 = Some (with_port ?k ?P (set_obj i t2 w))"
    using o [of t1] 1 by (subst with_obj_some [of i _ t1]) (simp_all add: w)
  moreover have "with_obj i (remove_from_frc i) (set_obj i t3 w) = Some (set_obj i (stopped t) w)"
    using o [of t3] 3 by (subst with_obj_some [of i _ t3]) simp_all
  moreover have "obj i w1 = Some t1" "\<not> slave_track_source t1" "\<not> has_rescaler t1"
    using r o [of t1] by (simp_all add: w t started_def)
  ultimately show ?thesis using 4 by (simp add: stop_pipeline_def ensure_def)
qed

lemma StopTrack_ready:
  assumes r: "ready E i p t w"
  shows "StopTrack E i (with_port (params_id t) (joined (fsc_intf i) p) (set_obj i (started i t) w)) =
    Some (NO_ERROR, set_obj i (stopped t) w)"
proof -
  let ?k = "params_id t" and ?P = "joined (fsc_intf i) p"
  define t1 where "t1 = (started i t)\<lparr>is_paused := False\<rparr>"
  have o: "obj i (set_obj i x w) = Some x" for x using r by (simp add: ready_def obj_set_obj)
  have 1: "with_obj i (\<lambda>x. Some (x\<lparr>is_paused := False\<rparr>)) (with_port ?k ?P (set_obj i (started i t) w)) =
      Some (with_port ?k ?P (set_obj i t1 w))"
    using o by (subst with_obj_some [of i _ "started i t"]) (simp_all add: t1_def)
  have 2: "with_obj i (\<lambda>x. Some (x\<lparr>is_stop := True\<rparr>)) (with_port ?k ?P (set_obj i t1 w)) =
      Some (with_port ?k ?P (set_obj i (t1\<lparr>is_stop := True\<rparr>) w))"
    using o by (subst with_obj_some [of i _ t1]) simp_all
  have 3: "stop_pipeline E i (with_port ?k ?P (set_obj i (t1\<lparr>is_stop := True\<rparr>) w)) = Some (set_obj i (stopped t) w)"
    by (rule stop_pipeline_ready [OF r _ refl]) (simp add: t1_def)
  have 4: "\<not> is_stop t1" "\<not> encoded (params_format t1)" using r by (simp_all add: t1_def started_def ready_def)
  have "wait_idle i ws (set_obj i (stopped t) w) = Some (NO_ERROR, set_obj i (stopped t) w)" for ws
    using r o by (simp add: wait_idle.simps stopped_def ready_def)
  then show ?thesis using 1 2 3 4 o [of t1] by (simp add: StopTrack_def)
qed

text \<open>
  A raw track that is started gets its frames from its port, through both controllers, which
  are running; when it is stopped again the port, the controllers and all other tracks have the
  consumers they had before, the controllers have stopped and the track is cut off.
\<close>

theorem start_stop_track:
  assumes "ready E i p t w"
  shows "\<exists>w1 t1 w2 t2. StartTrack E i w = Some (NO_ERROR, w1) \<and> obj i w1 = Some t1 \<and>
    linked t1 \<and> active (fsc t1) \<and> active (frc_of t1) \<and> \<not> is_stop t1 \<and>
    (\<exists>q. GetPort (params_id t) w1 = Some q \<and> IsConnected (fsc_intf i) q) \<and>
    IsConnected (frc_intf i) (buffer_producer (fsc t1)) \<and> IsConnected (track_intf i) (buffer_producer (frc_of t1)) \<and>
    StopTrack E i w1 = Some (NO_ERROR, w2) \<and> obj i w2 = Some t2 \<and> active_ports w2 = active_ports w \<and>
    \<not> linked t2 \<and> \<not> active (fsc t2) \<and> \<not> active (frc_of t2) \<and> is_stop t2 \<and>
    buffer_producer (fsc t2) = buffer_producer (fsc t) \<and> buffer_producer (frc_of t2) = buffer_producer (frc_of t) \<and>
    (\<forall>k. k \<noteq> i \<longrightarrow> obj k w1 = obj k w \<and> obj k w2 = obj k w)"
proof -
  let ?w1 = "with_port (params_id t) (joined (fsc_intf i) p) (set_obj i (started i t) w)"
  let ?w2 = "set_obj i (stopped t) w"
  note r = assms [unfolded ready_def]
  have "obj i ?w1 = Some (started i t)" "obj i ?w2 = Some (stopped t)" using r by (simp_all add: obj_set_obj)
  moreover have "obj k ?w1 = obj k w \<and> obj k ?w2 = obj k w" if "k \<noteq> i" for k using r that by (simp add: obj_set_obj)
  moreover have "GetPort (params_id t) ?w1 = Some (joined (fsc_intf i) p)" "IsConnected (fsc_intf i) (joined (fsc_intf i) p)"
    using r joined_laws(2) by simp_all
  moreover have "linked (started i t)" "active (fsc (started i t))" "active (frc_of (started i t))" "\<not> is_stop (started i t)"
    by (simp_all add: started_def running_def reset_counts_def)
  moreover have "IsConnected (frc_intf i) (buffer_producer (fsc (started i t)))"
    "IsConnected (track_intf i) (buffer_producer (frc_of (started i t)))"
    using r joined_laws(2) by (simp_all add: started_def running_def reset_counts_def at_rest_def)
  moreover have "\<not> linked (stopped t)" "\<not> active (fsc (stopped t))" "\<not> active (frc_of (stopped t))" "is_stop (stopped t)"
    "buffer_producer (fsc (stopped t)) = buffer_producer (fsc t)" "buffer_producer (frc_of (stopped t)) = buffer_producer (frc_of t)"
    using r by (simp_all add: stopped_def reset_counts_def at_rest_def)
  moreover have "active_ports ?w2 = active_ports w" by simp
  ultimately show ?thesis using StartTrack_ready [OF assms] StopTrack_ready [OF assms] by blast
qed

definition demo_env :: source_env where
  "demo_env = \<lparr>context_reply = \<lambda>_ _. NO_ERROR, port_reply = \<lambda>_ _. NO_ERROR, rescaler_reply = \<lambda>_ _. NO_ERROR,
     stop_waits = \<lambda>_. [], idle_waits = \<lambda>_. []\<rparr>"

definition demo_source :: camera_source where
  "demo_source = CameraSource\<lparr>camera_map := [(0, ())], track_sources := [(1, 0)],
     active_ports := [(1, BufferProducerImpl)], objs := [TrackSource 1 0 640 480 VideoFormat.kNV12 None (False, 33)]\<rparr>"

theorem start_stop_track_witness:
  "\<exists>w1 t1 w2 t2. StartTrack demo_env 0 demo_source = Some (NO_ERROR, w1) \<and> obj 0 w1 = Some t1 \<and> linked t1 \<and>
     StopTrack demo_env 0 w1 = Some (NO_ERROR, w2) \<and> obj 0 w2 = Some t2 \<and> \<not> linked t2 \<and>
     active_ports w2 = [(1, BufferProducerImpl)]"
proof -
  have "ready demo_env 0 BufferProducerImpl (objs demo_source ! 0) demo_source"
    by (simp add: ready_def demo_env_def demo_source_def CameraSource_def obj_def TrackSource_def encoded_def at_rest_def
        apart_def FrameRateController_def SetFrameRate_def BufferProducerImpl_def IsConnected_def IsConnectedLocked_def
        frc_intf_def track_intf_def fsc_intf_def GetPort_def kv_wf_def)
  from start_stop_track [OF this] show ?thesis by (auto simp: demo_source_def)
qed

section \<open>Time stamps\<close>

lemma next_frame_lapse:
  "time_lapse t = Some n \<Longrightarrow> next_frame alloc t = Some (d, t1) \<Longrightarrow>
    d_timestamp d = time_stamp t + ucast (n * 1000000) \<and> time_stamp t1 = d_timestamp d \<and> time_lapse t1 = Some n"
  by (auto simp: next_frame_def Let_def split: list.splits)

lemma ucast_nat: "(ucast (n :: u32) :: u64) = of_nat (unat n)"
  by (simp add: word_unat_eq_iff unsigned_ucast_eq unat_of_nat take_bit_eq_mod)

lemma lapse_exact: "(ucast (n * 1000000) :: u64) = ucast n * 1000000 \<longleftrightarrow> unat (n :: u32) \<le> 4294"
proof -
  have n: "unat n < 2 ^ 32" using unsigned_less [of n] by simp
  have "unat (n * 1000000) = unat n * 1000000 mod 2 ^ 32" by (simp add: unat_word_ariths)
  then have "(ucast (n * 1000000) :: u64) = ucast n * 1000000 \<longleftrightarrow>
      (of_nat (unat n * 1000000 mod 2 ^ 32) :: u64) = of_nat (unat n * 1000000)"
    unfolding ucast_nat by simp
  also have "\<dots> \<longleftrightarrow> unat n * 1000000 mod 2 ^ 32 = unat n * 1000000"
    using n by (simp add: word_unat_eq_iff unat_of_nat del: of_nat_mult of_nat_mod)
  also have "\<dots> \<longleftrightarrow> unat n \<le> 4294"
  proof
    assume "unat n * 1000000 mod 2 ^ 32 = unat n * 1000000"
    moreover have "unat n * 1000000 mod 2 ^ 32 < 2 ^ 32" by (rule mod_less_divisor) simp
    ultimately show "unat n \<le> 4294" by simp
  qed simp
  finally show ?thesis .
qed

text \<open>
  In time-lapse mode the time stamps of two frames that follow each other are the interval in
  nanoseconds apart exactly when it is at most 4294 milliseconds; beyond that the product wraps at
  32 bits.
\<close>

theorem time_lapse_stamps:
  assumes "time_lapse t = Some n" "next_frame alloc t = Some (d, t1)" "next_frame alloc t1 = Some (d', t2)"
  shows "d_timestamp d' - d_timestamp d = ucast (n * 1000000) \<and>
    (d_timestamp d' - d_timestamp d = ucast n * 1000000 \<longleftrightarrow> unat n \<le> 4294)"
  using next_frame_lapse [OF assms(1,2)] next_frame_lapse [OF _ assms(3), of n] lapse_exact [of n] by simp

definition slow_track :: track where
  "slow_track = (TrackSource 1 0 640 480 VideoFormat.kAVC (Some 5000) (False, 33))\<lparr>frames_received := [demo_q 3, demo_q 4]\<rparr>"

theorem time_lapse_stamps_witness:
  "\<exists>d t1 d' t2. next_frame id slow_track = Some (d, t1) \<and> next_frame id t1 = Some (d', t2) \<and>
     d_timestamp d' - d_timestamp d = 705032704 \<and> d_timestamp d' - d_timestamp d \<noteq> 5000 * 1000000"
proof -
  have l: "time_lapse slow_track = Some 5000" by (simp add: slow_track_def TrackSource_def)
  obtain d t1 where 1: "next_frame id slow_track = Some (d, t1)" "frames_received t1 = [demo_q 4]" "time_lapse t1 = Some 5000"
    by (simp add: next_frame_def slow_track_def TrackSource_def Let_def)
  then obtain d' t2 where 2: "next_frame id t1 = Some (d', t2)" by (simp add: next_frame_def Let_def)
  show ?thesis using time_lapse_stamps [OF l 1(1) 2] 1(1) 2 by (intro exI [of _ d] exI [of _ t1] exI [of _ d'] exI [of _ t2]) simp
qed

section \<open>The life of a track\<close>

text \<open>What \<open>CreateTrackSource\<close> makes of a raw track with a stream of its own.\<close>

definition created :: "u32 \<Rightarrow> VideoTrackParams \<Rightarrow> track" where
  "created i v = TrackSource i (vt_camera v) (vt_width v) (vt_height v) (vt_format v) (vt_lapse v) (vt_rate v)"

definition creatable :: "source_env \<Rightarrow> u32 \<Rightarrow> VideoTrackParams \<Rightarrow> camera_source \<Rightarrow> bool" where
  "creatable E i v w \<longleftrightarrow> IsCameraOpen (vt_camera v) w \<and> vt_source v = None \<and> \<not> encoded (vt_format v) \<and>
     vt_format v \<noteq> VideoFormat.kRGB \<and> \<not> IsTrackIdValid i w \<and> GetPort i w = None \<and> kv_find (rescalers w) i = None \<and>
     kv_wf (track_sources w) \<and> kv_wf (active_ports w) \<and> (\<forall>p. port_reply E p i = NO_ERROR)"

definition with_track :: "u32 \<Rightarrow> VideoTrackParams \<Rightarrow> camera_source \<Rightarrow> camera_source" where
  "with_track i v w = add_obj i (created i v) (with_port i BufferProducerImpl w)"

lemma CreateTrackSource_creatable:
  "creatable E i v w \<Longrightarrow> CreateTrackSource E i v w = Some (NO_ERROR, with_track i v w)"
  by (simp add: creatable_def CreateTrackSource_def GetSourceTrackId_def create_normal_def Init_def CreateStream_def
      TrackSource_def with_track_def created_def with_port_def emplace_def GetPort_def Let_def)

lemma with_track_obj: "obj (length (objs w)) (with_track i v w) = Some (created i v)"
  by (simp add: with_track_def add_obj_def obj_def with_port_def)

lemma with_track_id: "creatable E i v w \<Longrightarrow> GetTrackSource i (with_track i v w) = Some (length (objs w))"
  by (simp add: creatable_def with_track_def add_obj_def GetTrackSource_def IsTrackIdValid_def emplace_def with_port_def)

lemma with_track_ready:
  assumes "creatable E i v w"
  shows "ready E (length (objs w)) BufferProducerImpl (created i v) (with_track i v w)"
proof -
  have "active_ports (with_track i v w) = kv_add i BufferProducerImpl (active_ports w)"
    by (simp add: with_track_def add_obj_def with_port_def)
  then show ?thesis using assms with_track_obj [of w i v]
    by (simp add: ready_def creatable_def created_def TrackSource_def at_rest_def apart_def FrameRateController_def SetFrameRate_def
        BufferProducerImpl_def IsConnected_def IsConnectedLocked_def frc_intf_def track_intf_def fsc_intf_def GetPort_def)
qed

lemma DeleteTrackSource_stopped:
  assumes "creatable E i v w"
  shows "\<exists>w1. DeleteTrackSource E i (set_obj (length (objs w)) (stopped (created i v)) (with_track i v w)) = Some (NO_ERROR, w1) \<and>
    track_sources w1 = track_sources w \<and> active_ports w1 = active_ports w \<and> rescalers w1 = rescalers w \<and> camera_map w1 = camera_map w"
proof -
  let ?k = "length (objs w)"
  define w1 where "w1 = set_obj ?k (stopped (created i v)) (with_track i v w)"
  define w2 where "w2 = w1\<lparr>active_ports := active_ports w\<rparr>"
  note c = assms [unfolded creatable_def]
  have o: "obj ?k w1 = Some (stopped (created i v))" "obj ?k w2 = Some (stopped (created i v))"
    using obj_set_obj [OF with_track_obj] by (simp_all add: w1_def w2_def)
  have g: "GetTrackSource i w1 = Some ?k"
    using with_track_id [OF assms] by (simp add: w1_def GetTrackSource_def set_obj_def)
  have f: "params_id (stopped (created i v)) = i" "\<not> slave_track_source (stopped (created i v))"
    by (simp_all add: stopped_def created_def TrackSource_def)
  have "active_ports w1 = kv_add i BufferProducerImpl (active_ports w)"
    by (simp add: w1_def with_track_def add_obj_def with_port_def)
  then have "DeleteStream E i w1 = Some (NO_ERROR, w2)"
    using c by (simp add: DeleteStream_def GetPort_def GetNumConsumer_def w2_def kv_remove_absent) (simp add: BufferProducerImpl_def)
  then have "DeInit E ?k w1 = Some (NO_ERROR, set_obj ?k ((stopped (created i v))\<lparr>has_rescaler := False\<rparr>) w2)"
    using o f by (simp add: DeInit_def with_obj_some)
  then have "DeleteTrackSource E i w1 = Some (NO_ERROR, (set_obj ?k ((stopped (created i v))\<lparr>has_rescaler := False\<rparr>) w2)
      \<lparr>track_sources := kv_remove i (track_sources w2), rescalers := kv_remove i (rescalers w2)\<rparr>)"
    using g by (simp add: DeleteTrackSource_def set_obj_def)
  moreover have "kv_remove i (track_sources w2) = track_sources w" "kv_remove i (rescalers w2) = rescalers w" "camera_map w2 = camera_map w"
    using c by (simp_all add: w2_def w1_def set_obj_def with_track_def add_obj_def with_port_def emplace_def IsTrackIdValid_def
        kv_remove_absent)
  ultimately show ?thesis by (simp add: w1_def [symmetric]) (simp add: w2_def set_obj_def)
qed

text \<open>
  C12. A raw track lives through creation, start, stop and deletion: every call succeeds when the
  camera's ports do, the track is known from its creation on, and afterwards the tables of tracks,
  ports and rescalers are what they were.
\<close>

theorem track_life_cycle:
  assumes "creatable E i v w"
  shows "\<exists>w1 w2 w3 w4. CreateTrackSource E i v w = Some (NO_ERROR, w1) \<and> IsTrackIdValid i w1 \<and>
    StartTrackSource E i w1 = Some (NO_ERROR, w2) \<and> StopTrackSource E i w2 = Some (NO_ERROR, w3) \<and>
    DeleteTrackSource E i w3 = Some (NO_ERROR, w4) \<and> \<not> IsTrackIdValid i w4 \<and> track_sources w4 = track_sources w \<and>
    active_ports w4 = active_ports w \<and> rescalers w4 = rescalers w \<and> camera_map w4 = camera_map w"
proof -
  let ?k = "length (objs w)" and ?t = "created i v"
  define w1 where "w1 = with_track i v w"
  define w2 where "w2 = with_port i (joined (fsc_intf ?k) BufferProducerImpl) (set_obj ?k (started ?k ?t) w1)"
  have r: "ready E ?k BufferProducerImpl ?t w1" unfolding w1_def by (rule with_track_ready [OF assms])
  have id: "GetTrackSource i w1 = Some ?k" unfolding w1_def by (rule with_track_id [OF assms])
  have pid: "params_id ?t = i" by (simp add: created_def TrackSource_def)
  have 1: "StartTrackSource E i w1 = Some (NO_ERROR, w2)"
    using StartTrack_ready [OF r] id pid by (simp add: StartTrackSource_def on_track_def ensure_def w2_def)
  have "GetTrackSource i w2 = Some ?k"
    using id by (simp add: w2_def GetTrackSource_def with_port_def set_obj_def)
  then have 2: "StopTrackSource E i w2 = Some (NO_ERROR, set_obj ?k (stopped ?t) w1)"
    using StopTrack_ready [OF r] pid by (simp add: StopTrackSource_def on_track_def ensure_def w2_def)
  obtain w4 where 3: "DeleteTrackSource E i (set_obj ?k (stopped ?t) w1) = Some (NO_ERROR, w4)" "track_sources w4 = track_sources w"
    "active_ports w4 = active_ports w" "rescalers w4 = rescalers w" "camera_map w4 = camera_map w"
    using DeleteTrackSource_stopped [OF assms] unfolding w1_def by blast
  have "IsTrackIdValid i w1" "\<not> IsTrackIdValid i w4"
    using id 3(2) assms by (simp_all add: IsTrackIdValid_def GetTrackSource_def creatable_def)
  moreover have "CreateTrackSource E i v w = Some (NO_ERROR, w1)"
    unfolding w1_def by (rule CreateTrackSource_creatable [OF assms])
  ultimately show ?thesis using 1 2 3 by blast
qed

definition demo_params :: VideoTrackParams where
  "demo_params = \<lparr>vt_camera = 0, vt_width = 640, vt_height = 480, vt_format = VideoFormat.kNV12, vt_source = None,
     vt_lapse = None, vt_rate = (False, 33)\<rparr>"

theorem track_life_cycle_witness:
  "\<exists>w1 w2 w3 w4. CreateTrackSource demo_env 5 demo_params demo_source = Some (NO_ERROR, w1) \<and>
     StartTrackSource demo_env 5 w1 = Some (NO_ERROR, w2) \<and> StopTrackSource demo_env 5 w2 = Some (NO_ERROR, w3) \<and>
     DeleteTrackSource demo_env 5 w3 = Some (NO_ERROR, w4) \<and> track_sources w4 = [(1, 0)]"
proof -
  have "creatable demo_env 5 demo_params demo_source"
    by (simp add: creatable_def demo_env_def demo_params_def demo_source_def CameraSource_def IsCameraOpen_def encoded_def
        IsTrackIdValid_def GetPort_def kv_wf_def)
  from track_life_cycle [OF this] show ?thesis by (auto simp: demo_source_def)
qed

end
