(* ===== verification/Track_Fault_Claims.thy ===== *)
theory Track_Fault_Claims
  imports Camera_Source_Claims
begin

text \<open>
  What tracks do with requests and frames they cannot handle: formats without a stream, slaves that
  are resumed, frames that a controller repeats, and raw frames that are still out at the stop.
\<close>

section \<open>Requests\<close>

text \<open>
  A track in the format RGB that has no source track is refused, but the call reports success:
  no track exists and every later operation on its id fails.
\<close>

theorem rgb_track_lost:
  assumes "IsCameraOpen (vt_camera v) w" "vt_source v = None" "vt_format v = VideoFormat.kRGB" "\<not> IsTrackIdValid i w"
  shows "CreateTrackSource E i v w = Some (NO_ERROR, w) \<and> StartTrackSource E i w = Some (BAD_VALUE, w) \<and>
    StopTrackSource E i w = Some (BAD_VALUE, w) \<and> DeleteTrackSource E i w = Some (BAD_VALUE, w)"
  using assms by (simp add: CreateTrackSource_def GetSourceTrackId_def create_normal_def StartTrackSource_def StopTrackSource_def
      on_track_def DeleteTrackSource_def GetTrackSource_def IsTrackIdValid_def)

theorem rgb_track_lost_witness:
  "CreateTrackSource demo_env 5 (demo_params\<lparr>vt_format := VideoFormat.kRGB\<rparr>) demo_source = Some (NO_ERROR, demo_source) \<and>
     StartTrackSource demo_env 5 demo_source = Some (BAD_VALUE, demo_source)"
  using rgb_track_lost [of "demo_params\<lparr>vt_format := VideoFormat.kRGB\<rparr>" demo_source 5 demo_env]
  by (simp add: demo_params_def demo_source_def CameraSource_def IsCameraOpen_def IsTrackIdValid_def)

text \<open>
  A track that copies another one has no port. It can be paused, and stays as it is but for the
  flags; the attempt to resume it asks the camera to resume that port and fails an assertion.
\<close>

theorem slave_resume_aborts:
  assumes "obj k w = Some t" "slave_track_source t" "GetPort (params_id t) w = None"
  shows "\<exists>w1. PauseTrack E k w = Some (NO_ERROR, w1) \<and> obj k w1 = Some (t\<lparr>is_paused := True, is_idle := True\<rparr>) \<and>
    active_ports w1 = active_ports w \<and> ResumeTrack E k w1 = None"
proof -
  let ?t1 = "t\<lparr>is_paused := True\<rparr>" and ?t2 = "t\<lparr>is_paused := True, is_idle := True\<rparr>"
  have o: "obj k (set_obj k x w) = Some x" for x using assms(1) by (simp add: obj_set_obj)
  have "with_obj k (\<lambda>t. Some (t\<lparr>is_paused := True\<rparr>)) w = Some (set_obj k ?t1 w)"
    using assms(1) by (simp add: with_obj_some)
  moreover have "with_obj k (\<lambda>t. Some (t\<lparr>is_idle := True\<rparr>)) (set_obj k ?t1 w) = Some (set_obj k ?t2 w)"
    using o [of ?t1] by (simp add: with_obj_some)
  ultimately have 1: "PauseTrack E k w = Some (NO_ERROR, set_obj k ?t2 w)"
    using o [of ?t1] assms(2) by (simp add: PauseTrack_def)
  have "with_obj k (\<lambda>t. Some (t\<lparr>is_paused := False\<rparr>)) (set_obj k ?t2 w) = Some (set_obj k (?t2\<lparr>is_paused := False\<rparr>) w)"
    using o [of ?t2] by (simp add: with_obj_some)
  then have "ResumeTrack E k (set_obj k ?t2 w) = None"
    using o assms(3) by (simp add: ResumeTrack_def ResumeStream_def port_op_def)
  then show ?thesis using 1 o by (intro exI [of _ "set_obj k ?t2 w"]) simp
qed

definition demo_slave :: track where
  "demo_slave = snd (InitCopy 0 False (TrackSource 2 0 640 480 VideoFormat.kNV12 None (False, 33)))"

theorem slave_resume_aborts_witness:
  "\<exists>w1. PauseTrack demo_env 1 (add_obj 2 demo_slave demo_source) = Some (NO_ERROR, w1) \<and> ResumeTrack demo_env 1 w1 = None"
proof -
  have "obj 1 (add_obj 2 demo_slave demo_source) = Some demo_slave" "slave_track_source demo_slave"
    "GetPort (params_id demo_slave) (add_obj 2 demo_slave demo_source) = None"
    by (simp_all add: obj_def add_obj_def demo_source_def GetPort_def demo_slave_def InitCopy_def TrackSource_def)
  from slave_resume_aborts [OF this, of demo_env] show ?thesis by blast
qed

section \<open>Repeated frames\<close>

text \<open>An encoder track without consumers that encodes every frame once, with nothing in its queues.\<close>

definition quiet_encoder :: "track \<Rightarrow> bool" where
  "quiet_encoder t \<longleftrightarrow> encoded (params_format t) \<and> linked t \<and> \<not> is_paused t \<and> \<not> is_stop t \<and> num_consumers t = 0 \<and>
     time_lapse t = None \<and> frames_received t = [] \<and> frames_being_encoded t = [] \<and> buffer_map t = [] \<and> buffers_map t = []"

lemma encoder_arrival:
  assumes "encoded (params_format t)" "\<not> is_paused t" "\<not> is_stop t" "num_consumers t = 0" "time_lapse t = None"
    "CalculateEncodesPerFrame slower n t = 1"
  shows "OnFrameAvailable slower n prompt q t = Some (t\<lparr>buffer_map := emplace (q_handle q) 1 (buffer_map t),
    stream_buffer_map := emplace (q_handle q) (q_buffer q) (stream_buffer_map t),
    frames_received := frames_received t @ [q\<lparr>needs_return := False, pending_encodes_per_frame := 1, encodes_per_frame_count := 1\<rparr>]\<rparr>)"
  using assms by (simp add: Track_Source.OnFrameAvailable_def deliver_frame_def register_frame_def IsStop_def IsPaused_def feed_consumers_def PushFrameToQueue_def
      CalculateEncodesPerFrame_def Let_def)

lemma next_frame_once:
  assumes "frames_received t = q # qs" "time_lapse t = None" "pending_encodes_per_frame q = 1" "encodes_per_frame_count q = 1"
  shows "\<exists>d c p. next_frame alloc t = Some (d, t\<lparr>buffers_map := kv_add (alloc (q_handle q)) (q_handle q) (buffers_map t),
    frame_repeat_ts_curr := c, frame_repeat_ts_prev := p,
    frames_being_encoded := frames_being_encoded t @ [q\<lparr>pending_encodes_per_frame := 0, needs_return := True\<rparr>],
    frames_received := qs\<rparr>) \<and> d_data d = alloc (q_handle q)"
  using assms by (simp add: next_frame_def Let_def) blast

text \<open>
  A controller that repeats a frame gives it to the track again while the encoder still has it.
  The track keeps one count for both. When the encoder returns the first, the frame goes back to the
  camera although the encoder still reads the second, and the return of that fails an assertion.
\<close>

theorem repeated_frame_aborts:
  assumes "quiet_encoder t" "CalculateEncodesPerFrame slower n t = 1"
    "OnFrameAvailable slower n prompt q t = Some t1" "OnFrameAvailable slower n prompt q t1 = Some t2"
  shows "\<exists>d t3 d' t4 t5. next_frame alloc t2 = Some (d, t3) \<and> next_frame alloc t3 = Some (d', t4) \<and> d_data d = d_data d' \<and>
    ReturnBuffer (d_data d) t4 = Some (NO_ERROR, t5) \<and> Returned (q_buffer q) \<in> set (tlog t5) \<and>
    length (frames_being_encoded t5) = 1 \<and> ReturnBuffer (d_data d') t5 = None"
proof -
  let ?h = "q_handle q"
  let ?q = "q\<lparr>needs_return := False, pending_encodes_per_frame := 1, encodes_per_frame_count := 1\<rparr>"
  let ?e = "?q\<lparr>pending_encodes_per_frame := 0, needs_return := True\<rparr>"
  note e = assms(1) [unfolded quiet_encoder_def]
  have m: "emplace ?h (1 :: u32) [] = [(?h, 1)]" "emplace ?h (1 :: u32) [(?h, 1)] = [(?h, 1)]" by (simp_all add: emplace_def)
  define s1 where "s1 = emplace ?h (q_buffer q) (stream_buffer_map t)"
  have t1: "t1 = t\<lparr>buffer_map := [(?h, 1)], stream_buffer_map := s1, frames_received := [?q]\<rparr>"
    using encoder_arrival [of t slower n prompt q] assms(2,3) e by (simp add: m s1_def)
  have "CalculateEncodesPerFrame slower n t1 = 1" using assms(2) by (simp add: t1 CalculateEncodesPerFrame_def)
  then have t2: "t2 = t1\<lparr>stream_buffer_map := emplace ?h (q_buffer q) s1, frames_received := [?q, ?q]\<rparr>"
    using encoder_arrival [of t1 slower n prompt q] assms(4) e by (simp add: t1 m)
  have r2: "frames_received t2 = ?q # [?q]" "time_lapse t2 = None" using e by (simp_all add: t2 t1)
  obtain d c p where 3: "next_frame alloc t2 = Some (d, t2\<lparr>buffers_map := [(alloc ?h, ?h)], frame_repeat_ts_curr := c,
      frame_repeat_ts_prev := p, frames_being_encoded := [?e], frames_received := [?q]\<rparr>)" "d_data d = alloc ?h"
    using next_frame_once [OF r2, of alloc] e by (auto simp: t2 t1)
  define t3 where "t3 = t2\<lparr>buffers_map := [(alloc ?h, ?h)], frame_repeat_ts_curr := c, frame_repeat_ts_prev := p,
      frames_being_encoded := [?e], frames_received := [?q]\<rparr>"
  have r3: "frames_received t3 = ?q # []" "time_lapse t3 = None" using e by (simp_all add: t3_def t2 t1)
  obtain d' c' p' where 4: "next_frame alloc t3 = Some (d', t3\<lparr>buffers_map := [(alloc ?h, ?h)], frame_repeat_ts_curr := c',
      frame_repeat_ts_prev := p', frames_being_encoded := [?e, ?e], frames_received := []\<rparr>)" "d_data d' = alloc ?h"
    using next_frame_once [OF r3, of alloc] by (auto simp: t3_def)
  define t4 where "t4 = t3\<lparr>buffers_map := [(alloc ?h, ?h)], frame_repeat_ts_curr := c', frame_repeat_ts_prev := p',
      frames_being_encoded := [?e, ?e], frames_received := []\<rparr>"
  have f4: "linked t4" "buffer_map t4 = [(?h, 1)]" "buffers_map t4 = [(alloc ?h, ?h)]" "frames_being_encoded t4 = [?e, ?e]"
    using e by (simp_all add: t4_def t3_def t2 t1)
  define t5 where "t5 = (jot (Returned (q_buffer q)) (drop_handle ?h t4))\<lparr>frames_being_encoded := [?e], buffers_map := []\<rparr>"
  have "ReturnBufferToProducer (q_buffer ?e) t4 = Some (jot (Returned (q_buffer q)) (drop_handle ?h t4))"
    using return_counted_once [of t4 "q_buffer q"] f4 by simp
  then have 5: "ReturnBuffer (alloc ?h) t4 = Some (NO_ERROR, t5)"
    using f4 by (simp add: ReturnBuffer_def t5_def kv_remove_def)
  have "ReturnBuffer (alloc ?h) t5 = None" "Returned (q_buffer q) \<in> set (tlog t5)" "length (frames_being_encoded t5) = 1"
    by (simp_all add: ReturnBuffer_def t5_def jot_def)
  then show ?thesis using 3 4 5 unfolding t3_def [symmetric] t4_def [symmetric] by metis
qed

definition demo_encoder :: track where
  "demo_encoder = (TrackSource 1 0 640 480 VideoFormat.kAVC None (False, 33))\<lparr>linked := True\<rparr>"

definition fed :: "track \<Rightarrow> track" where
  "fed t = the (OnFrameAvailable False 0 (\<lambda>_ _. False) (demo_q 3) t)"

theorem repeated_frame_aborts_witness:
  "\<exists>d t3 d' t4 t5. next_frame id (fed (fed demo_encoder)) = Some (d, t3) \<and> next_frame id t3 = Some (d', t4) \<and>
     ReturnBuffer (d_data d) t4 = Some (NO_ERROR, t5) \<and> ReturnBuffer (d_data d') t5 = None"
proof -
  have q: "quiet_encoder demo_encoder" "CalculateEncodesPerFrame False 0 demo_encoder = 1"
    by (simp_all add: quiet_encoder_def demo_encoder_def TrackSource_def encoded_def CalculateEncodesPerFrame_def)
  have 1: "OnFrameAvailable False 0 (\<lambda>_ _. False) (demo_q 3) demo_encoder = Some (fed demo_encoder)"
    using q by (simp add: fed_def encoder_arrival quiet_encoder_def)
  have "quiet_encoder demo_encoder \<Longrightarrow> OnFrameAvailable False 0 (\<lambda>_ _. False) (demo_q 3) (fed demo_encoder) =
      Some (fed (fed demo_encoder))"
    by (simp add: fed_def [of "fed demo_encoder"])
      (simp add: fed_def encoder_arrival quiet_encoder_def CalculateEncodesPerFrame_def)
  from repeated_frame_aborts [OF q 1 this, OF q(1), of id] show ?thesis by blast
qed

section \<open>Raw frames that are still out\<close>

text \<open>
  \<open>Flush\<close> gives back the frames of the client for all raw formats but 16-bit Bayer: there they
  stay out, and the controller that waits for them makes the stop of the track fail an assertion.
\<close>

theorem flush_leaves_rdi16:
  assumes "params_format t = VideoFormat.kBayerRDI16BIT" "obj k w = Some t" "\<not> is_stop t" "active (frc_of t)"
    "buffers (buffer_producer (frc_of t)) \<noteq> []" "\<And>f. stop_waits E f = []"
  shows "Flush t = Some (NO_ERROR, t) \<and> StopTrack E k w = None"
proof
  show "Flush t = Some (NO_ERROR, t)" using assms(1) by (simp add: Flush_def flushed_format_def)
  let ?t1 = "t\<lparr>is_paused := False\<rparr>" and ?t2 = "t\<lparr>is_paused := False, is_stop := True\<rparr>"
  have o: "obj k (set_obj k x w) = Some x" for x using assms(2) by (simp add: obj_set_obj)
  obtain f where "Stop [] (frc_of t) = (- ETIMEDOUT, f)"
    using assms(4,5) by (simp add: Stop_def reset_counts_def CheckAndWaitPendingBuffers.simps)
  then have "stop_controllers E ?t2 = None"
    using assms(6) by (simp add: stop_controllers_def ensure_def split: prod.splits)
  then have "stop_pipeline E k (set_obj k ?t2 w) = None"
    using o [of ?t2] by (simp add: stop_pipeline_def with_obj_some)
  then show "StopTrack E k w = None"
    using assms(1,2,3) o [of ?t1] by (simp add: StopTrack_def with_obj_some encoded_def)
qed

definition demo_rdi :: track where
  "demo_rdi = (TrackSource 1 0 640 480 VideoFormat.kBayerRDI16BIT None (False, 33))
     \<lparr>frc_of := FrameRateController\<lparr>active := True, buffer_producer := \<lparr>buffers = [(3, 1)], buffer_consumers = [(1, 1)]\<rparr>\<rparr>\<rparr>"

theorem flush_leaves_rdi16_witness:
  "Flush demo_rdi = Some (NO_ERROR, demo_rdi) \<and> StopTrack demo_env 0 (CameraSource\<lparr>objs := [demo_rdi]\<rparr>) = None"
  by (rule flush_leaves_rdi16) (simp_all add: demo_rdi_def TrackSource_def obj_def demo_env_def)

end
