(* ===== verification/Zsl_Port.thy ===== *)
theory Zsl_Port
  imports Stream Smooth_Zoom "HOL-Library.Multiset"
begin

text \<open>
  The queue of a zero-shutter-lag port: it pairs frames with their results by time stamp, keeps the
  latest ones, and gives one of them to the camera for reprocessing. Source:
  \<^verbatim>\<open>recorder/src/service/qmmf_camera_context.cc\<close> (\<^verbatim>\<open>ZslPort\<close>). Each operation is one critical section
  under \<^verbatim>\<open>zsl_queue_lock_\<close>; it returns the frames that it gives back to the camera.
\<close>

section \<open>State\<close>

record ZSLEntry =
  z_buffer :: StreamBuffer
  z_result :: metadata
  z_timestamp :: int

record zsl =
  zsl_queue :: "ZSLEntry list"
  zsl_input_buffer :: ZSLEntry
  zsl_running :: bool
  zsl_queue_depth :: u32
  input_stream_id :: int
  zsl_stream_id :: int
  zsl_width :: u32
  zsl_height :: u32

text \<open>A value-initialised buffer.\<close>

definition zero_buffer :: StreamBuffer where
  "zero_buffer = \<lparr>b_info = \<lparr>buffer_format = kRGB, plane_info = []\<rparr>, b_timestamp = 0, b_frame_number = 0, b_stream_id = 0,
     b_data_space = HAL_DATASPACE_UNKNOWN, b_handle = 0, b_fd = 0, b_size = 0, b_metafd = 0\<rparr>"

definition ZslPort :: "u32 \<Rightarrow> u32 \<Rightarrow> u32 \<Rightarrow> zsl" where
  "ZslPort depth w h =
     \<lparr>zsl_queue = [], zsl_input_buffer = \<lparr>z_buffer = zero_buffer, z_result = [], z_timestamp = -1\<rparr>, zsl_running = False,
      zsl_queue_depth = depth, input_stream_id = -1, zsl_stream_id = -1, zsl_width = w, zsl_height = h\<rparr>"

text \<open>What \<^verbatim>\<open>SetUpZSL\<close> sets: the stream of the port when it was created, then the input stream and the flag.\<close>

definition zsl_streamed :: "int \<Rightarrow> zsl \<Rightarrow> zsl" where
  "zsl_streamed i z = z\<lparr>zsl_stream_id := i\<rparr>"

definition zsl_configured :: "int \<Rightarrow> zsl \<Rightarrow> zsl" where
  "zsl_configured j z = z\<lparr>input_stream_id := j, zsl_running := True\<rparr>"

text \<open>The test for an entry whose frame has arrived.\<close>

definition has_frame :: "ZSLEntry \<Rightarrow> bool" where
  "has_frame e = (z_timestamp e = b_timestamp (z_buffer e))"

definition give_frame :: "ZSLEntry \<Rightarrow> StreamBuffer list" where
  "give_frame e = (if has_frame e then [z_buffer e] else [])"

section \<open>The queue\<close>

text \<open>The first entry with a time stamp is changed, or else a new one is appended.\<close>

fun merge_entry :: "int \<Rightarrow> (ZSLEntry \<Rightarrow> ZSLEntry) \<Rightarrow> ZSLEntry \<Rightarrow> ZSLEntry list \<Rightarrow> ZSLEntry list" where
  "merge_entry ts f new [] = [new]"
| "merge_entry ts f new (e # es) = (if z_timestamp e = ts then f e # es else e # merge_entry ts f new es)"

text \<open>The oldest entry is taken out when the queue is too long; \<open>none\<close> is the initial value of the local variable.\<close>

definition drop_oldest :: "ZSLEntry \<Rightarrow> zsl \<Rightarrow> ZSLEntry \<times> zsl" where
  "drop_oldest none z =
     (if length (zsl_queue z) \<ge> unat (zsl_queue_depth z + 1)
      then (case zsl_queue z of e # es \<Rightarrow> (e, z\<lparr>zsl_queue := es\<rparr>) | [] \<Rightarrow> (none, z))
      else (none, z))"

text \<open>
  \<open>ZSLCaptureCallback\<close> declares its entry without an initialiser: \<open>junk\<close> is what its buffer holds.
\<close>

definition ZSLCaptureCallback :: "StreamBuffer \<Rightarrow> StreamBuffer \<Rightarrow> zsl \<Rightarrow> StreamBuffer list \<times> zsl" where
  "ZSLCaptureCallback junk b z =
     (if zsl_running z then
        (case drop_oldest \<lparr>z_buffer = junk, z_result = [], z_timestamp = -1\<rparr>
           (z\<lparr>zsl_queue := merge_entry (b_timestamp b) (\<lambda>e. e\<lparr>z_buffer := b\<rparr>)
                \<lparr>z_buffer = b, z_result = [], z_timestamp = b_timestamp b\<rparr> (zsl_queue z)\<rparr>)
         of (e, z1) \<Rightarrow> (give_frame e, z1))
      else ([b], z))"

definition HandleZSLCaptureResult :: "metadata_api \<Rightarrow> metadata \<Rightarrow> zsl \<Rightarrow> StreamBuffer list \<times> zsl" where
  "HandleZSLCaptureResult M md z =
     (if zsl_stream_id z < 0 then ([], z)
      else case md_find M md ANDROID_SENSOR_TIMESTAMP of
        Some (ts # _) \<Rightarrow>
          if zsl_running z then
            (case drop_oldest \<lparr>z_buffer = zero_buffer, z_result = [], z_timestamp = -1\<rparr>
               (z\<lparr>zsl_queue := merge_entry ts (\<lambda>e. e\<lparr>z_result := md_append M (z_result e) md\<rparr>)
                    \<lparr>z_buffer = zero_buffer, z_result = md_append M [] md, z_timestamp = ts\<rparr> (zsl_queue z)\<rparr>)
             of (e, z1) \<Rightarrow> (give_frame e, z1))
          else ([], z)
      | _ \<Rightarrow> ([], z))"

definition PauseAndFlushZSLQueue :: "zsl \<Rightarrow> StreamBuffer list \<times> zsl" where
  "PauseAndFlushZSLQueue z = (concat (map give_frame (zsl_queue z)), z\<lparr>zsl_running := False, zsl_queue := []\<rparr>)"

definition ResumeZSL :: "zsl \<Rightarrow> zsl" where
  "ResumeZSL z = z\<lparr>zsl_running := True\<rparr>"

definition IsRunning :: "zsl \<Rightarrow> bool" where
  "IsRunning z = (zsl_running z \<and> zsl_stream_id z \<ge> 0)"

section \<open>Reprocessing\<close>

abbreviation (input) AE_CONVERGED :: int where "AE_CONVERGED \<equiv> 2"
abbreviation (input) AE_LOCKED :: int where "AE_LOCKED \<equiv> 3"

definition good_entry :: "metadata_api \<Rightarrow> ZSLEntry \<Rightarrow> bool" where
  "good_entry M e = (has_frame e \<and> z_result e \<noteq> [] \<and>
     (case md_find M (z_result e) ANDROID_CONTROL_AE_STATE of
        Some (s # _) \<Rightarrow> s = AE_CONVERGED \<or> s = AE_LOCKED
      | _ \<Rightarrow> False))"

text \<open>The search from the back: the entries before the one found, that one, and those behind it.\<close>

fun split_last :: "(ZSLEntry \<Rightarrow> bool) \<Rightarrow> ZSLEntry list \<Rightarrow> (ZSLEntry list \<times> ZSLEntry \<times> ZSLEntry list) option" where
  "split_last P [] = None"
| "split_last P (e # es) =
     (case split_last P es of
        Some (xs, x, ys) \<Rightarrow> Some (e # xs, x, ys)
      | None \<Rightarrow> if P e then Some ([], e, es) else None)"

definition PickZSLBuffer :: "metadata_api \<Rightarrow> zsl \<Rightarrow> int \<times> zsl" where
  "PickZSLBuffer M z =
     (if zsl_queue z = [] then (- ENODEV, z)
      else if 0 \<le> z_timestamp (zsl_input_buffer z) then (- 16, z)
      else case split_last (good_entry M) (zsl_queue z) of
        Some (xs, x, ys) \<Rightarrow> (0, z\<lparr>zsl_input_buffer := x, zsl_queue := xs @ ys\<rparr>)
      | None \<Rightarrow> (- ENOENT, z))"

definition GetZSLInputBuffer :: "zsl \<Rightarrow> StreamBuffer" where
  "GetZSLInputBuffer z = z_buffer (zsl_input_buffer z)"

definition ReturnZSLInputBuffer :: "StreamBuffer \<Rightarrow> zsl \<Rightarrow> StreamBuffer list \<times> zsl" where
  "ReturnZSLInputBuffer b z =
     (if b_handle b = b_handle (z_buffer (zsl_input_buffer z))
      then ([z_buffer (zsl_input_buffer z)], z\<lparr>zsl_input_buffer := (zsl_input_buffer z)\<lparr>z_timestamp := -1\<rparr>\<rparr>)
      else ([], z))"

definition ValidateCaptureParams :: "u32 \<Rightarrow> u32 \<Rightarrow> BufferFormat \<Rightarrow> zsl \<Rightarrow> int" where
  "ValidateCaptureParams w h f z =
     (if f \<noteq> kBLOB then - EINVAL
      else if w \<noteq> zsl_width z \<or> h \<noteq> zsl_height z then - EINVAL
      else if w > zsl_width z \<or> h > zsl_height z then - EINVAL
      else 0)"

end
