(* ===== verification/Zsl_Claims.thy ===== *)
theory Zsl_Claims
  imports Zsl_Port
begin

text \<open>
  Where the frames of a zero-shutter-lag port are: in the queue, under reprocessing, or back with the
  camera; and which frame is picked.
\<close>

section \<open>The ledger\<close>

definition queued :: "ZSLEntry list \<Rightarrow> handle multiset" where
  "queued es = mset (map b_handle (concat (map give_frame es)))"


definition given :: "StreamBuffer list \<Rightarrow> handle multiset" where
  "given bs = mset (map b_handle bs)"


lemma queued_simps [simp]:
  "queued [] = {#}" "queued (e # es) = given (give_frame e) + queued es" "queued (es @ fs) = queued es + queued fs"
  by (simp_all add: queued_def given_def)

lemma given_simps [simp]: "given [] = {#}" "given [b] = {#b_handle b#}" "given (concat (map give_frame es)) = queued es"
  by (simp_all add: given_def queued_def)






section \<open>Runs\<close>




lemma split_last_none: "split_last P es = None \<longleftrightarrow> (\<forall>y \<in> set es. \<not> P y)"
  by (induction es) (auto split: option.splits)

lemma split_last_found:
  "split_last P es = Some (xs, x, ys) \<Longrightarrow> es = xs @ x # ys \<and> P x \<and> (\<forall>y \<in> set ys. \<not> P y)"
proof (induction es arbitrary: xs)
  case (Cons e es)
  then show ?case using split_last_none [of P es] by (auto split: option.splits if_splits)
qed simp






section \<open>Properties\<close>


text \<open>
  A port of depth one: its streams are made, frame 7 comes with its result and is picked, frame 8 comes
  and is pushed out by frame 9, and frame 7 comes back from reprocessing.
\<close>

definition demo_zsl_meta :: metadata_api where
  "demo_zsl_meta = \<lparr>md_find = map_of, md_update = (\<lambda>m t v. (t, v) # m),
     md_erase = (\<lambda>m t. filter (\<lambda>p. fst p \<noteq> t) m), md_append = (@), md_sort = (\<lambda>m. m)\<rparr>"

definition demo_zsl_frame :: "int \<Rightarrow> handle \<Rightarrow> StreamBuffer" where
  "demo_zsl_frame ts h = zero_buffer\<lparr>b_timestamp := ts, b_handle := h\<rparr>"

definition demo_zsl_result :: "int \<Rightarrow> metadata" where
  "demo_zsl_result ts = [(ANDROID_SENSOR_TIMESTAMP, [ts]), (ANDROID_CONTROL_AE_STATE, [2])]"

definition demo_entry :: "int \<Rightarrow> handle \<Rightarrow> metadata \<Rightarrow> ZSLEntry" where
  "demo_entry ts h md = \<lparr>z_buffer = demo_zsl_frame ts h, z_result = md, z_timestamp = ts\<rparr>"

definition demo_zsl :: "ZSLEntry list \<Rightarrow> ZSLEntry \<Rightarrow> zsl" where
  "demo_zsl q e = \<lparr>zsl_queue = q, zsl_input_buffer = e, zsl_running = True, zsl_queue_depth = 1, input_stream_id = 1,
     zsl_stream_id = 0, zsl_width = 640, zsl_height = 480\<rparr>"

definition demo_none :: ZSLEntry where
  "demo_none = \<lparr>z_buffer = zero_buffer, z_result = [], z_timestamp = -1\<rparr>"

lemmas demo_zsl_defs = demo_zsl_meta_def demo_zsl_frame_def demo_zsl_result_def demo_entry_def demo_zsl_def demo_none_def
  ZslPort_def zsl_streamed_def zsl_configured_def zero_buffer_def has_frame_def give_frame_def drop_oldest_def given_def







text \<open>
  C37. A pick succeeds exactly when no frame is under reprocessing and the queue has a frame with a
  result whose exposure has converged; it takes the newest such frame and no other.
\<close>

theorem zsl_pick_newest:
  "(fst (PickZSLBuffer M z) = 0 \<longleftrightarrow> z_timestamp (zsl_input_buffer z) < 0 \<and> (\<exists>e \<in> set (zsl_queue z). good_entry M e)) \<and>
   (case PickZSLBuffer M z of (r, z') \<Rightarrow>
      if r = 0 then \<exists>xs x ys. zsl_queue z = xs @ x # ys \<and> good_entry M x \<and> filter (good_entry M) ys = [] \<and>
        z' = z\<lparr>zsl_input_buffer := x, zsl_queue := xs @ ys\<rparr>
      else z' = z)"
proof (cases "split_last (good_entry M) (zsl_queue z)")
  case None
  then have "\<forall>y \<in> set (zsl_queue z). \<not> good_entry M y" using split_last_none by blast
  then show ?thesis using None by (auto simp: PickZSLBuffer_def)
next
  case (Some p)
  obtain xs x ys where p: "p = (xs, x, ys)" by (cases p)
  then have q: "zsl_queue z = xs @ x # ys" "good_entry M x" "\<forall>y \<in> set ys. \<not> good_entry M y"
    using split_last_found [of "good_entry M" "zsl_queue z" xs x ys] Some by simp_all
  show ?thesis
  proof (cases "0 \<le> z_timestamp (zsl_input_buffer z)")
    case True
    then show ?thesis using q by (simp add: PickZSLBuffer_def)
  next
    case False
    then have "PickZSLBuffer M z = (0, z\<lparr>zsl_input_buffer := x, zsl_queue := xs @ ys\<rparr>)"
      using q Some p by (simp add: PickZSLBuffer_def)
    moreover have "filter (good_entry M) ys = []" using q(3) by simp
    ultimately have "\<exists>xs' x' ys'. zsl_queue z = xs' @ x' # ys' \<and> good_entry M x' \<and> filter (good_entry M) ys' = [] \<and>
        snd (PickZSLBuffer M z) = z\<lparr>zsl_input_buffer := x', zsl_queue := xs' @ ys'\<rparr>" "fst (PickZSLBuffer M z) = 0"
      using q(1,2) by auto
    moreover have "z_timestamp (zsl_input_buffer z) < 0 \<and> (\<exists>e \<in> set (zsl_queue z). good_entry M e)" using q(1,2) False by simp
    ultimately show ?thesis by (simp add: case_prod_beta)
  qed
qed

theorem zsl_pick_newest_witness:
  "fst (PickZSLBuffer demo_zsl_meta (demo_zsl [demo_entry 5 7 (demo_zsl_result 5), demo_entry 6 8 (demo_zsl_result 6), demo_entry 7 9 []] demo_none)) = 0 \<and>
   zsl_queue (snd (PickZSLBuffer demo_zsl_meta (demo_zsl [demo_entry 5 7 (demo_zsl_result 5), demo_entry 6 8 (demo_zsl_result 6), demo_entry 7 9 []] demo_none))) =
     [demo_entry 5 7 (demo_zsl_result 5), demo_entry 7 9 []]"
  using zsl_pick_newest [of demo_zsl_meta "demo_zsl [demo_entry 5 7 (demo_zsl_result 5), demo_entry 6 8 (demo_zsl_result 6), demo_entry 7 9 []] demo_none"]
  by (auto simp: PickZSLBuffer_def good_entry_def demo_zsl_defs)

end
