(* ===== verification/Camera_Context.thy ===== *)
theory Camera_Context
  imports Complex_Main Device_Requests Buffer_Exchange Zsl_Port
begin

text \<open>
  An open camera of the recorder service: its ports, one per device stream, and the requests it keeps
  running on the device. Source: \<^verbatim>\<open>recorder/src/service/qmmf_camera_context.{h,cc}\<close> (\<^verbatim>\<open>CameraContext\<close>,
  \<^verbatim>\<open>CameraPort\<close>).

  The calls of the device adaptor are entries of \<open>clog\<close>; what it answers is a parameter that sees the
  log. \<open>None\<close> is a failed assertion, an access outside a container, or a wait that does not end.
  Frame rates are rational numbers: the comparisons and roundings of the code are exact on the
  single precision values it stores.
\<close>

section \<open>State\<close>

datatype PortState = PORT_CREATED | PORT_READYTOSTART | PORT_STARTED | PORT_READYTOSTOP | PORT_STOPPED | PORT_PAUSED

datatype SnapshotMode = SNone | kStill | kStillPlusRaw | kVideo | kVideoPlusRaw | kContinuous | kZsl

record StreamParam =
  sp_id :: u32
  sp_width :: u32
  sp_height :: u32
  sp_rotation :: u32
  sp_format :: BufferFormat
  sp_framerate :: rat
  sp_flags :: u64

record SnapshotParam =
  sn_width :: u32
  sn_height :: u32
  sn_quality :: u32
  sn_format :: BufferFormat

abbreviation (input) kIAEC :: u64 where "kIAEC \<equiv> 1"
abbreviation (input) kUncashed :: u64 where "kUncashed \<equiv> 2"
abbreviation (input) kEncoded :: u64 where "kEncoded \<equiv> 4"

record CameraParameters =
  is_partial_metadata_enabled :: bool
  frame_rate :: int
  batch_size :: nat
  cp_feature_flags :: u32

text \<open>A port; \<open>port_zsl\<close> is present for a \<^verbatim>\<open>ZslPort\<close>.\<close>

record port =
  port_id :: u32
  port_params :: StreamParam
  port_camera_parameters :: CameraParameters
  camera_stream_id :: int
  port_state :: PortState
  ready_to_start :: bool
  aec_converged :: bool
  aec_timestamp :: int
  port_producer :: producer
  port_zsl :: "zsl option"

record HFRMode =
  hfr_width :: u32
  hfr_height :: u32
  hfr_batch_size :: u32
  hfr_framerate :: u32

datatype device_call = D_begin
  | D_end bool bool nat u32 u32 \<comment> \<open>constrained, raw only, batch size, sensor mode, frame rate\<close>
  | D_end_default
  | D_create CameraStreamParameters | D_create_input u32 u32 | D_delete int bool | D_prepare int
  | D_submit "Camera3Request list" bool | D_flush | D_wait_idle | D_return StreamBuffer
  | D_default int | D_initialize | D_open u32 | D_info u32
  | To_flush_cb int | To_snapshot_cb u32 StreamBuffer | To_result_cb metadata | To_error_cb CameraErrorCode

record camera_context =
  camera_id :: int
  camera_device :: bool
  static_meta :: metadata
  stream_prepared :: "(int, bool) kv"
  streaming_request_id :: int
  capture_request_id :: int
  last_frame_number_map :: "(int, int) kv"
  removed_stream_ids :: "(int, unit) kv"
  last_frame_number :: int
  snapshot_request :: Camera3Request
  capture_cnt :: u32
  cancel_capture :: bool
  result_cb :: bool
  error_cb :: bool
  supported_fps :: "int list"
  ports :: "(u32, port) kv"
  snapshot_buffer_list :: "(u32, StreamBuffer) kv"
  snapshot_buffer_stream_list :: "(u32, int) kv"
  hfr_supported :: bool
  hfr_batch_modes_list :: "HFRMode list"
  streaming_active_requests :: "Camera3Request list"
  batch_stream_id :: int
  aec_state :: int
  aec_time :: int
  partial_results :: int
  snapshot_param :: SnapshotParam
  snapshot_type :: SnapshotMode
  new_snapshot_type :: SnapshotMode
  raw_snapshot_format :: BufferFormat
  jpeg_input_format :: BufferFormat
  new_jpeg_input_format :: BufferFormat
  exif_en :: bool
  thumbnails :: "(u32 \<times> u32 \<times> u32) list"
  snapshot_stream_param :: CameraStreamParameters
  restart_pipe :: bool
  reconfig_pipe :: bool
  port_paused :: bool
  stopped_stream_ids :: "(int, unit) kv"
  camera_parameters :: CameraParameters
  continuous_mode_is_on :: bool
  clog :: "device_call list"

record context_env =
  cmeta :: metadata_api
  dev_reply :: "device_call list \<Rightarrow> device_call \<Rightarrow> int"
  dev_last_frame :: "device_call list \<Rightarrow> device_call \<Rightarrow> int"
  default_request :: "int \<Rightarrow> metadata"
  camera_info :: "u32 \<Rightarrow> metadata"
  flush_restart_tag :: "tag option" \<comment> \<open>absent where the platform has none\<close>
  static_mem_alloc :: bool
  constrained_threshold :: rat
  batch_threshold :: rat
  sensor_table :: "metadata \<Rightarrow> int list option"
  valid_resolution :: "metadata \<Rightarrow> BufferFormat \<Rightarrow> u32 \<Rightarrow> u32 \<Rightarrow> bool"
  valid_format :: "metadata \<Rightarrow> BufferFormat \<Rightarrow> bool"
  max_resolution :: "metadata \<Rightarrow> BufferFormat \<Rightarrow> u32 \<times> u32"
  input_supported :: "metadata \<Rightarrow> bool"
  prepare_wait :: "int \<Rightarrow> camera_context \<Rightarrow> camera_context"
  pending_waits :: "camera_context \<Rightarrow> (bool \<times> camera_context) list"
  aec_waits :: "camera_context \<Rightarrow> (bool \<times> camera_context) list"

abbreviation (input) NO_IN_FLIGHT_REPEATING_FRAMES :: int where "NO_IN_FLIGHT_REPEATING_FRAMES \<equiv> - 1"
abbreviation (input) zsl_port_id :: u32 where "zsl_port_id \<equiv> 0x100"
abbreviation (input) AE_INACTIVE :: int where "AE_INACTIVE \<equiv> 0"
abbreviation (input) kAE_CONVERGED :: int where "kAE_CONVERGED \<equiv> 2"
abbreviation (input) kAE_LOCKED :: int where "kAE_LOCKED \<equiv> 3"

definition call :: "context_env \<Rightarrow> device_call \<Rightarrow> camera_context \<Rightarrow> int \<times> camera_context" where
  "call E c w = (dev_reply E (clog w) c, w\<lparr>clog := clog w @ [c]\<rparr>)"

text \<open>A call that must not fail.\<close>

definition must :: "context_env \<Rightarrow> device_call \<Rightarrow> camera_context \<Rightarrow> camera_context option" where
  "must E c w = (case call E c w of (r, w1) \<Rightarrow> if r = 0 then Some w1 else None)"

section \<open>Requests\<close>

abbreviation (input) no_request :: Camera3Request where
  "no_request \<equiv> \<lparr>c3_metadata = [], c3_streamIds = []\<rparr>"

definition add_stream :: "int \<Rightarrow> Camera3Request \<Rightarrow> Camera3Request" where
  "add_stream i r = (if i \<in> set (c3_streamIds r) then r else r\<lparr>c3_streamIds := c3_streamIds r @ [i]\<rparr>)"

text \<open>
  The loop over the requests of a batch, from index \<open>k\<close> for \<open>n\<close> requests; \<open>md\<close> is the metadata of
  the first request, which a later request without metadata gets.
\<close>

fun ready_from :: "nat \<Rightarrow> nat \<Rightarrow> int \<Rightarrow> metadata \<Rightarrow> Camera3Request list \<Rightarrow> Camera3Request list option" where
  "ready_from k 0 i md rs = Some rs"
| "ready_from k (Suc n) i md [] = None"
| "ready_from k (Suc n) i md (r # rs) = do {
     let r1 = add_stream i r;
     r2 \<leftarrow> (if 1 < k \<and> c3_metadata r1 = []
            then (if md = [] then None else Some (r1\<lparr>c3_metadata := md\<rparr>)) else Some r1);
     rs1 \<leftarrow> ready_from (Suc k) n i md rs;
     Some (r2 # rs1)
   }"

definition resize :: "nat \<Rightarrow> Camera3Request list \<Rightarrow> Camera3Request list" where
  "resize n rs = rs @ replicate (n - length rs) no_request"

definition first_metadata :: "Camera3Request list \<Rightarrow> metadata" where
  "first_metadata rs = (case rs of [] \<Rightarrow> [] | r # _ \<Rightarrow> c3_metadata r)"

definition drop_stream :: "int \<Rightarrow> Camera3Request \<Rightarrow> Camera3Request" where
  "drop_stream i r = r\<lparr>c3_streamIds := remove1 i (c3_streamIds r)\<rparr>"

text \<open>What the loop over the ports collects: the requests, the streams touched, those removed, the highest rate.\<close>

record scan =
  sc_requests :: "Camera3Request list"
  sc_ids :: "(int, unit) kv"
  sc_removed :: "(int, unit) kv"
  sc_fps :: rat

definition scan_port :: "port \<Rightarrow> scan \<Rightarrow> scan option" where
  "scan_port p s =
     (let i = camera_stream_id p; fps = sp_framerate (port_params p); n = batch_size (port_camera_parameters p)
      in case port_state p of
           PORT_READYTOSTART \<Rightarrow> do {
             rs \<leftarrow> ready_from 0 n i (first_metadata (sc_requests s)) (resize n (sc_requests s));
             Some (s\<lparr>sc_requests := rs, sc_ids := kv_add i () (sc_ids s), sc_fps := max (sc_fps s) fps\<rparr>)
           }
         | PORT_READYTOSTOP \<Rightarrow>
             if \<exists>r \<in> set (sc_requests s). i \<in> set (c3_streamIds r)
             then Some (s\<lparr>sc_requests := map (drop_stream i) (sc_requests s), sc_ids := kv_add i () (sc_ids s),
                          sc_removed := kv_add i () (sc_removed s)\<rparr>)
             else Some s
         | PORT_STARTED \<Rightarrow> Some (s\<lparr>sc_ids := kv_add i () (sc_ids s), sc_fps := max (sc_fps s) fps\<rparr>)
         | _ \<Rightarrow> Some s)"

primrec scan_ports :: "(u32 \<times> port) list \<Rightarrow> scan \<Rightarrow> scan option" where
  "scan_ports [] s = Some s"
| "scan_ports (p # ps) s = do { s1 \<leftarrow> scan_port (snd p) s; scan_ports ps s1 }"

text \<open>The requests behind the first that have no stream left; they must be the last ones.\<close>

definition drop_stale :: "Camera3Request list \<Rightarrow> Camera3Request list option" where
  "drop_stale rs =
     (case rs of
        [] \<Rightarrow> None
      | r # qs \<Rightarrow>
          let used = takeWhile (\<lambda>q. c3_streamIds q \<noteq> []) qs
          in if list_all (\<lambda>q. c3_streamIds q = []) (drop (length used) qs) then Some (r # used) else None)"

definition set_rate :: "metadata_api \<Rightarrow> int \<Rightarrow> Camera3Request \<Rightarrow> Camera3Request" where
  "set_rate M fps r =
     r\<lparr>c3_metadata := md_update M (md_update M (c3_metadata r) ANDROID_CONTROL_AE_TARGET_FPS_RANGE [fps, fps])
        ANDROID_SENSOR_FRAME_DURATION [1000000000 div fps]\<rparr>"

text \<open>A division by zero is possible for rates up to one half; it is excluded by \<open>None\<close>.\<close>

definition set_rates :: "metadata_api \<Rightarrow> rat \<Rightarrow> Camera3Request list \<Rightarrow> Camera3Request list option" where
  "set_rates M fps rs =
     (if fps > 0 then
        (let n = \<lceil>fps - 1 / 2\<rceil> in if n = 0 then None else Some (map (set_rate M n) rs))
      else Some rs)"

section \<open>The running request\<close>

definition aec_Reset :: "camera_context \<Rightarrow> camera_context" where
  "aec_Reset w = w\<lparr>aec_state := AE_INACTIVE, aec_time := -1\<rparr>"

definition CancelRequest :: "context_env \<Rightarrow> camera_context \<Rightarrow> (int \<times> camera_context) option" where
  "CancelRequest E w =
     (if streaming_request_id w < 0 \<and> capture_request_id w < 0 then Some (NO_ERROR, w)
      else do {
        w1 \<leftarrow> must E D_flush w;
        w2 \<leftarrow> must E D_wait_idle w1;
        Some (NO_ERROR, (aec_Reset w2)\<lparr>streaming_request_id := -1, capture_request_id := -1,
                           last_frame_number := NO_IN_FLIGHT_REPEATING_FRAMES\<rparr>)
      })"

definition prepared :: "int \<Rightarrow> camera_context \<Rightarrow> bool" where
  "prepared i w = (kv_find (stream_prepared w) i = Some True)"

text \<open>
  \<open>prepare_wait\<close> is the state in which the wait for a stream looks again. The look-up of a stream
  that has no entry makes one.
\<close>

primrec wait_prepared :: "context_env \<Rightarrow> int list \<Rightarrow> camera_context \<Rightarrow> camera_context option" where
  "wait_prepared E [] w = Some w"
| "wait_prepared E (i # is) w =
     (if prepared i w then wait_prepared E is w
      else let w1 = prepare_wait E i w in if prepared i w1 then wait_prepared E is w1 else None)"

text \<open>\<open>SubmitRequestList\<close>: the id of the request, the last frame number of the one before, and the new state.\<close>

definition submit :: "context_env \<Rightarrow> Camera3Request list \<Rightarrow> bool \<Rightarrow> camera_context \<Rightarrow> int \<times> int \<times> camera_context" where
  "submit E rs streaming w =
     (let c = D_submit rs streaming; (r, w1) = call E c w in (r, dev_last_frame E (clog w) c, w1))"

text \<open>The last frame number of each stream of a new request, and the streams whose frames are waited for.\<close>

definition note_stream :: "(int, unit) kv \<Rightarrow> int \<Rightarrow> int \<Rightarrow> camera_context \<Rightarrow> camera_context" where
  "note_stream gone fr i w =
     (let m = last_frame_number_map w;
          m1 = (case kv_find m i of
                  Some _ \<Rightarrow> if fr \<noteq> NO_IN_FLIGHT_REPEATING_FRAMES then kv_add i fr m else m
                | None \<Rightarrow> kv_add i NO_IN_FLIGHT_REPEATING_FRAMES m)
      in w\<lparr>last_frame_number_map := m1,
           removed_stream_ids :=
             (if kv_find gone i \<noteq> None \<and> kv_find m1 i \<noteq> Some NO_IN_FLIGHT_REPEATING_FRAMES
              then kv_add i () (removed_stream_ids w) else removed_stream_ids w)\<rparr>)"

primrec note_streams :: "(int, unit) kv \<Rightarrow> int \<Rightarrow> int list \<Rightarrow> camera_context \<Rightarrow> camera_context" where
  "note_streams gone fr [] w = w"
| "note_streams gone fr (i # is) w = note_streams gone fr is (note_stream gone fr i w)"

text \<open>The wait for the frames of removed streams: an outcome is a time-out or not, and the state afterwards.\<close>

fun wait_pending :: "(bool \<times> camera_context) list \<Rightarrow> camera_context \<Rightarrow> camera_context" where
  "wait_pending ws w =
     (if removed_stream_ids w = [] then w
      else case ws of
        [] \<Rightarrow> w
      | (timedout, w1) # ws1 \<Rightarrow> if timedout then w1 else wait_pending ws1 w1)"

declare wait_pending.simps [simp del]

definition submit_streams :: "context_env \<Rightarrow> scan \<Rightarrow> camera_context \<Rightarrow> (int \<times> camera_context) option" where
  "submit_streams E s w = do {
     rs \<leftarrow> set_rates (cmeta E) (sc_fps s) (streaming_active_requests w);
     w1 \<leftarrow> Some (w\<lparr>streaming_active_requests := rs\<rparr>);
     w2 \<leftarrow> (if list_all (\<lambda>r. c3_metadata r \<noteq> []) rs then Some w1 else None);
     w3 \<leftarrow> wait_prepared E (c3_streamIds (hd rs)) w2;
     let (i, fr, w4) = submit E (rev rs) True w3;
     let fr1 = (if fr = NO_IN_FLIGHT_REPEATING_FRAMES then last_frame_number w4 else fr);
     if i < 0 then None
     else
       let w5 = note_streams (sc_removed s) fr1 (kv_keys (sc_ids s))
                  (w4\<lparr>last_frame_number := fr1, streaming_request_id := i\<rparr>)
       in Some (NO_ERROR, wait_pending (pending_waits E w5) w5)
   }"

definition UpdateRequest :: "context_env \<Rightarrow> camera_context \<Rightarrow> (int \<times> camera_context) option" where
  "UpdateRequest E w = do {
     s \<leftarrow> scan_ports (ports w) \<lparr>sc_requests = streaming_active_requests w, sc_ids = [], sc_removed = [], sc_fps = 0\<rparr>;
     rs \<leftarrow> drop_stale (sc_requests s);
     let w1 = w\<lparr>streaming_active_requests := rs\<rparr>;
     if c3_streamIds (hd rs) = [] then CancelRequest E w1 else submit_streams E s w1
   }"

section \<open>Ports\<close>

definition CameraPort :: "StreamParam \<Rightarrow> CameraParameters \<Rightarrow> port" where
  "CameraPort p c =
     \<lparr>port_id = sp_id p, port_params = p, port_camera_parameters = c, camera_stream_id = -1, port_state = PORT_CREATED,
      ready_to_start = False, aec_converged = False, aec_timestamp = 0, port_producer = BufferProducerImpl, port_zsl = None\<rparr>"

definition set_port :: "u32 \<Rightarrow> (port \<Rightarrow> port) \<Rightarrow> camera_context \<Rightarrow> camera_context" where
  "set_port k f w = w\<lparr>ports := map (\<lambda>(j, p). (j, if j = k then f p else p)) (ports w)\<rparr>"

definition GetPort :: "u32 \<Rightarrow> camera_context \<Rightarrow> port option" where
  "GetPort k w = kv_find (ports w) k"

definition port_Start :: "context_env \<Rightarrow> u32 \<Rightarrow> camera_context \<Rightarrow> (int \<times> camera_context) option" where
  "port_Start E k w = do {
     p \<leftarrow> GetPort k w;
     if port_state p = PORT_STARTED then Some (NO_ERROR, w)
     else do {
       (r, w1) \<leftarrow> UpdateRequest E
         (set_port k (\<lambda>p. p\<lparr>ready_to_start := True, aec_converged := False, port_state := PORT_READYTOSTART\<rparr>) w);
       if r \<noteq> NO_ERROR then Some (r, w1)
       else Some (NO_ERROR, set_port k (\<lambda>p. p\<lparr>port_state := PORT_STARTED\<rparr>) w1)
     }
   }"

definition port_Stop :: "context_env \<Rightarrow> u32 \<Rightarrow> camera_context \<Rightarrow> (int \<times> camera_context) option" where
  "port_Stop E k w = do {
     p \<leftarrow> GetPort k w;
     if port_state p = PORT_CREATED then Some (NO_ERROR, w)
     else do {
       (r, w1) \<leftarrow> UpdateRequest E
         (set_port k (\<lambda>p. p\<lparr>ready_to_start := False, aec_converged := False, port_state := PORT_READYTOSTOP\<rparr>) w);
       if r \<noteq> NO_ERROR then Some (r, w1)
       else Some (NO_ERROR, set_port k (\<lambda>p. p\<lparr>port_state := PORT_STOPPED\<rparr>) w1)
     }
   }"

definition port_Pause :: "u32 \<Rightarrow> camera_context \<Rightarrow> camera_context option" where
  "port_Pause k w = do {
     p \<leftarrow> GetPort k w;
     if port_state p = PORT_STARTED then Some (set_port k (\<lambda>p. p\<lparr>port_state := PORT_PAUSED\<rparr>) w) else None
   }"

definition port_Resume :: "u32 \<Rightarrow> camera_context \<Rightarrow> camera_context option" where
  "port_Resume k w = do {
     p \<leftarrow> GetPort k w;
     if port_state p = PORT_PAUSED then Some (set_port k (\<lambda>p. p\<lparr>port_state := PORT_STARTED\<rparr>) w) else None
   }"

text \<open>The calls of the context: an unknown port is an error, an error of the port fails an assertion.\<close>

definition on_port :: "(u32 \<Rightarrow> camera_context \<Rightarrow> (int \<times> camera_context) option) \<Rightarrow> u32 \<Rightarrow> camera_context \<Rightarrow>
    (int \<times> camera_context) option" where
  "on_port f k w =
     (case GetPort k w of
        None \<Rightarrow> Some (- EINVAL, w)
      | Some p \<Rightarrow> do { (r, w1) \<leftarrow> f k w; if r = NO_ERROR then Some (NO_ERROR, w1) else None })"

definition StartStream :: "context_env \<Rightarrow> u32 \<Rightarrow> camera_context \<Rightarrow> (int \<times> camera_context) option" where
  "StartStream E k w = on_port (port_Start E) k w"

definition StopStream :: "context_env \<Rightarrow> u32 \<Rightarrow> camera_context \<Rightarrow> (int \<times> camera_context) option" where
  "StopStream E k w = on_port (port_Stop E) k w"

definition PauseStream :: "u32 \<Rightarrow> camera_context \<Rightarrow> (int \<times> camera_context) option" where
  "PauseStream k w = on_port (\<lambda>k w. map_option (Pair NO_ERROR) (port_Pause k w)) k w"

definition ResumeStream :: "u32 \<Rightarrow> camera_context \<Rightarrow> (int \<times> camera_context) option" where
  "ResumeStream k w = on_port (\<lambda>k w. map_option (Pair NO_ERROR) (port_Resume k w)) k w"

end
