(* ===== verification/Camera_Streams.thy ===== *)
theory Camera_Streams
  imports Camera_Context
begin

unbundle bit_operations_syntax

text \<open>
  The streams and ports of an open camera, and what comes back from the device. Source:
  \<^verbatim>\<open>recorder/src/service/qmmf_camera_context.cc\<close>, with the format conversions of
  \<^verbatim>\<open>common/utils/qmmf_common_utils.h\<close>.
\<close>

section \<open>Formats and flags\<close>

abbreviation (input) HAL_PIXEL_FORMAT_RGB_888 :: hal_format where "HAL_PIXEL_FORMAT_RGB_888 \<equiv> HAL_PIXEL_FORMAT_OTHER 3"
abbreviation (input) no_hal_format :: hal_format where "no_hal_format \<equiv> HAL_PIXEL_FORMAT_OTHER 0xFFFFFFFF"

definition FromQmmfToHalFormat :: "BufferFormat \<Rightarrow> hal_format" where
  "FromQmmfToHalFormat f =
     (case f of
        kRGB \<Rightarrow> HAL_PIXEL_FORMAT_RGB_888
      | kBLOB \<Rightarrow> HAL_PIXEL_FORMAT_BLOB
      | kNV12UBWC \<Rightarrow> HAL_PIXEL_FORMAT_IMPLEMENTATION_DEFINED
      | kNV12 \<Rightarrow> HAL_PIXEL_FORMAT_IMPLEMENTATION_DEFINED
      | kNV12Encodable \<Rightarrow> HAL_PIXEL_FORMAT_IMPLEMENTATION_DEFINED
      | kNV21 \<Rightarrow> HAL_PIXEL_FORMAT_YCbCr_420_888
      | kNV16 \<Rightarrow> HAL_PIXEL_FORMAT_YCbCr_422_888
      | kRAW8 \<Rightarrow> HAL_PIXEL_FORMAT_RAW8
      | kRAW10 \<Rightarrow> HAL_PIXEL_FORMAT_RAW10
      | kRAW12 \<Rightarrow> HAL_PIXEL_FORMAT_RAW12
      | kRAW16 \<Rightarrow> HAL_PIXEL_FORMAT_RAW16
      | kUnsupported \<Rightarrow> no_hal_format)"

definition FromHalToQmmfFormat :: "hal_format \<Rightarrow> BufferFormat" where
  "FromHalToQmmfFormat f =
     (case f of
        HAL_PIXEL_FORMAT_BLOB \<Rightarrow> kBLOB
      | HAL_PIXEL_FORMAT_YCbCr_420_SP_VENUS_UBWC \<Rightarrow> kNV12UBWC
      | HAL_PIXEL_FORMAT_IMPLEMENTATION_DEFINED \<Rightarrow> kNV12
      | HAL_PIXEL_FORMAT_YCbCr_420_888 \<Rightarrow> kNV21
      | HAL_PIXEL_FORMAT_YCbCr_422_888 \<Rightarrow> kNV16
      | HAL_PIXEL_FORMAT_RAW8 \<Rightarrow> kRAW8
      | HAL_PIXEL_FORMAT_RAW10 \<Rightarrow> kRAW10
      | HAL_PIXEL_FORMAT_RAW12 \<Rightarrow> kRAW12
      | HAL_PIXEL_FORMAT_RAW16 \<Rightarrow> kRAW16
      | _ \<Rightarrow> kUnsupported)"

definition IsRawOnly :: "hal_format \<Rightarrow> bool" where
  "IsRawOnly f = (f = HAL_PIXEL_FORMAT_RAW8 \<or> f = HAL_PIXEL_FORMAT_RAW10 \<or> f = HAL_PIXEL_FORMAT_RAW12 \<or>
     f = HAL_PIXEL_FORMAT_RAW16)"

abbreviation (input) kPrivateUncached :: u32 where "kPrivateUncached \<equiv> 0x10"
abbreviation (input) kSwReadOften :: u32 where "kSwReadOften \<equiv> 0x40"
abbreviation (input) kSwWriteOften :: u32 where "kSwWriteOften \<equiv> 0x80"
abbreviation (input) kVideoEncoder :: u32 where "kVideoEncoder \<equiv> 0x100"
abbreviation (input) kEIS :: u32 where "kEIS \<equiv> 1"
abbreviation (input) kLDC :: u32 where "kLDC \<equiv> 4"
abbreviation (input) VIDEO_STREAM_BUFFER_COUNT :: u32 where "VIDEO_STREAM_BUFFER_COUNT \<equiv> 11"
abbreviation (input) PREVIEW_STREAM_BUFFER_COUNT :: u32 where "PREVIEW_STREAM_BUFFER_COUNT \<equiv> 10"
abbreviation (input) EXTRA_DCVS_BUFFERS :: u32 where "EXTRA_DCVS_BUFFERS \<equiv> 2"
abbreviation (input) EXTRA_HFR_BUFFERS :: u32 where "EXTRA_HFR_BUFFERS \<equiv> 4"

section \<open>Device streams\<close>

text \<open>The zero-shutter-lag port, when the camera is in that mode and the port exists.\<close>

definition zsl_port :: "camera_context \<Rightarrow> zsl option" where
  "zsl_port w = (if snapshot_type w = kZsl then Option.bind (GetPort zsl_port_id w) port_zsl else None)"

definition set_zsl :: "zsl \<Rightarrow> camera_context \<Rightarrow> camera_context" where
  "set_zsl z w = set_port zsl_port_id (\<lambda>p. p\<lparr>port_zsl := Some z\<rparr>) w"

definition ReturnStreamBuffer :: "context_env \<Rightarrow> StreamBuffer \<Rightarrow> camera_context \<Rightarrow> camera_context option" where
  "ReturnStreamBuffer E b w = do {
     w1 \<leftarrow> must E (D_return b) w;
     let i = b_stream_id b;
     if kv_find (removed_stream_ids w1) i = None then Some w1
     else
       let last = (case kv_find (last_frame_number_map w1) i of Some n \<Rightarrow> n | None \<Rightarrow> 0)
       in Some (if last = uint (b_frame_number b)
                then w1\<lparr>removed_stream_ids := kv_remove i (removed_stream_ids w1),
                        last_frame_number_map := kv_remove i (last_frame_number_map w1)\<rparr>
                else w1\<lparr>last_frame_number_map := kv_add i last (last_frame_number_map w1)\<rparr>)
   }"

primrec return_buffers :: "context_env \<Rightarrow> StreamBuffer list \<Rightarrow> camera_context \<Rightarrow> camera_context option" where
  "return_buffers E [] w = Some w"
| "return_buffers E (b # bs) w = do { w1 \<leftarrow> ReturnStreamBuffer E b w; return_buffers E bs w1 }"

definition flush_zsl :: "context_env \<Rightarrow> camera_context \<Rightarrow> camera_context option" where
  "flush_zsl E w =
     (case zsl_port w of
        Some z \<Rightarrow> if IsRunning z
          then (case PauseAndFlushZSLQueue z of (bs, z1) \<Rightarrow> return_buffers E bs (set_zsl z1 w)) else Some w
      | None \<Rightarrow> Some w)"

definition resume_zsl :: "camera_context \<Rightarrow> camera_context" where
  "resume_zsl w = (case zsl_port w of Some z \<Rightarrow> set_zsl (ResumeZSL z) w | None \<Rightarrow> w)"

text \<open>
  The table of sensor modes: the number of modes, the size of an entry, and the entries, each
  starting with width, height and rate, which are compared with the stream's as unsigned numbers.
\<close>

definition table_at :: "int list \<Rightarrow> int \<Rightarrow> int option" where
  "table_at tab k = (if 0 \<le> k \<and> k < int (length tab) then Some (tab ! nat k) else None)"

fun best_mode :: "int list \<Rightarrow> int \<Rightarrow> u32 \<Rightarrow> u32 \<Rightarrow> u32 \<Rightarrow> nat \<Rightarrow> int \<Rightarrow> int \<Rightarrow> int \<Rightarrow> int option" where
  "best_mode tab len w h fps 0 i matched found = Some found"
| "best_mode tab len w h fps (Suc n) i matched found = do {
     sw \<leftarrow> table_at tab (2 + i * len);
     sh \<leftarrow> table_at tab (3 + i * len);
     sf \<leftarrow> table_at tab (4 + i * len);
     if word_of_int sw \<ge> w \<and> word_of_int sh \<ge> h \<and> word_of_int sf \<ge> fps \<and> sf \<le> matched
     then best_mode tab len w h fps n (i + 1) sf i
     else best_mode tab len w h fps n (i + 1) matched found
   }"

abbreviation (input) MAX_SENSOR_FPS :: int where "MAX_SENSOR_FPS \<equiv> 480"

definition GetSensorModeIndex :: "context_env \<Rightarrow> u32 \<Rightarrow> u32 \<Rightarrow> u32 \<Rightarrow> camera_context \<Rightarrow> u32 option" where
  "GetSensorModeIndex E w h fps c =
     (case sensor_table E (static_meta c) of
        None \<Rightarrow> Some 0
      | Some tab \<Rightarrow> do {
          n \<leftarrow> table_at tab 0;
          len \<leftarrow> table_at tab 1;
          m \<leftarrow> best_mode tab len w h fps (nat n) 0 MAX_SENSOR_FPS (-1);
          Some (word_of_int (m + 1))
        })"

definition is_constrained :: "context_env \<Rightarrow> u32 \<Rightarrow> camera_context \<Rightarrow> bool" where
  "is_constrained E rate w = (hfr_supported w \<and>
     (constrained_threshold E \<le> of_int (uint rate) \<or>
      list_ex (\<lambda>p. constrained_threshold E \<le> sp_framerate (port_params (snd p))) (ports w)))"

definition max_frame_rate :: "u32 \<Rightarrow> camera_context \<Rightarrow> u32" where
  "max_frame_rate rate w = foldl (\<lambda>m p. max m (word_of_int \<lfloor>sp_framerate (port_params (snd p))\<rfloor>)) rate (ports w)"

text \<open>The end of a configuration for a new stream.\<close>

definition configure_end :: "context_env \<Rightarrow> CameraStreamParameters \<Rightarrow> u32 \<Rightarrow> int \<Rightarrow> camera_context \<Rightarrow> camera_context option" where
  "configure_end E params rate i w = do {
     let rate1 = max_frame_rate rate w;
     mode \<leftarrow> (if rate1 > 30 \<and> of_int (uint rate1) < constrained_threshold E
              then GetSensorModeIndex E (par_width params) (par_height params) rate1 w else Some 0);
     w1 \<leftarrow> must E (D_end (is_constrained E rate w) (IsRawOnly (par_format params)) (batch_size (camera_parameters w)) mode rate1) w;
     Some (w1\<lparr>stream_prepared := kv_add i True (stream_prepared w1)\<rparr>)
   }"

definition CreateDeviceStream :: "context_env \<Rightarrow> CameraStreamParameters \<Rightarrow> u32 \<Rightarrow> bool \<Rightarrow> camera_context \<Rightarrow>
    (int \<times> int \<times> camera_context) option" where
  "CreateDeviceStream E params rate cache w = do {
     w1 \<leftarrow> flush_zsl E w;
     w2 \<leftarrow> (if streaming_request_id w1 < 0 \<and> \<not> cache then must E D_begin w1 else Some w1);
     let (i, w3) = call E (D_create params) w2;
     if i < 0 then Some (BAD_VALUE, 0, w3)
     else do {
       w4 \<leftarrow> (if streaming_request_id w3 < 0 \<and> \<not> cache then configure_end E params rate i w3 else Some w3);
       Some (NO_ERROR, i, if cache then w4 else resume_zsl w4)
     }
   }"

definition CreateDeviceInputStream :: "context_env \<Rightarrow> u32 \<Rightarrow> u32 \<Rightarrow> bool \<Rightarrow> camera_context \<Rightarrow>
    (int \<times> int \<times> camera_context) option" where
  "CreateDeviceInputStream E iw ih cache w = do {
     w1 \<leftarrow> (if streaming_request_id w < 0 \<and> \<not> cache then must E D_begin w else Some w);
     let (i, w2) = call E (D_create_input iw ih) w1;
     if i < 0 then Some (BAD_VALUE, 0, w2)
     else do {
       w3 \<leftarrow> (if streaming_request_id w2 < 0 \<and> \<not> cache then must E D_end_default w2 else Some w2);
       Some (NO_ERROR, i, w3)
     }
   }"

definition DeleteDeviceStream :: "context_env \<Rightarrow> int \<Rightarrow> bool \<Rightarrow> camera_context \<Rightarrow> (int \<times> camera_context) option" where
  "DeleteDeviceStream E i cache w = do {
     let resume = (case zsl_port w of Some z \<Rightarrow> 0 \<le> streaming_request_id w \<and> IsRunning z | None \<Rightarrow> False);
     w1 \<leftarrow> (if resume then do { x \<leftarrow> flush_zsl E w; (r, x1) \<leftarrow> CancelRequest E x; Some x1 } else Some w);
     w2 \<leftarrow> (if zsl_port w1 \<noteq> None then must E D_begin w1 else Some w1);
     w3 \<leftarrow> must E (D_delete i cache) w2;
     if zsl_port w3 = None then Some (NO_ERROR, w3)
     else do {
       w4 \<leftarrow> must E D_end_default w3;
       let w5 = resume_zsl w4;
       if \<not> resume then Some (NO_ERROR, w5)
       else case streaming_active_requests w5 of
         [] \<Rightarrow> None
       | q # _ \<Rightarrow>
           (let (r, last, w6) = submit E [q] True w5
            in if r < 0 then None else Some (NO_ERROR, w6\<lparr>streaming_request_id := r\<rparr>))
     }
   }"

definition CreateCaptureRequest :: "context_env \<Rightarrow> int \<Rightarrow> Camera3Request \<Rightarrow> camera_context \<Rightarrow>
    (Camera3Request \<times> camera_context) option" where
  "CreateCaptureRequest E template q w = do {
     w1 \<leftarrow> must E (D_default template) w;
     Some (q\<lparr>c3_metadata := default_request E template\<rparr>, w1)
   }"

section \<open>Creating and deleting ports\<close>

definition GetExtraBufferCount :: "rat \<Rightarrow> u32" where
  "GetExtraBufferCount fps =
     (let n = \<lfloor>fps\<rfloor>
      in if n = 24 \<or> n = 30 \<or> n = 48 then EXTRA_DCVS_BUFFERS
         else if n = 60 \<or> n = 90 then EXTRA_HFR_BUFFERS
         else if n = 120 then 2 * EXTRA_HFR_BUFFERS
         else if n = 240 then 3 * EXTRA_HFR_BUFFERS
         else 0)"

definition stream_parameters :: "StreamParam \<Rightarrow> CameraParameters \<Rightarrow> CameraStreamParameters" where
  "stream_parameters p c =
     (let f1 = kVideoEncoder OR (if sp_format p \<noteq> kNV12UBWC then kSwReadOften OR kSwWriteOften else kPrivateAllocUbwc);
          f2 = (if cp_feature_flags c AND kLDC \<noteq> 0 \<or> cp_feature_flags c AND kEIS \<noteq> 0
                then f1 AND NOT kPrivateAllocUbwc else f1);
          f3 = f2 OR (if sp_flags p AND kUncashed \<noteq> 0 then kPrivateUncached else 0)
      in \<lparr>par_width = sp_width p, par_height = sp_height p, par_format = FromQmmfToHalFormat (sp_format p),
          par_data_space = HAL_DATASPACE_UNKNOWN, par_rotation = unat (sp_rotation p), par_allocFlags = f3,
          par_bufferCount = (if sp_flags p AND kEncoded \<noteq> 0
                             then VIDEO_STREAM_BUFFER_COUNT + GetExtraBufferCount (sp_framerate p)
                             else PREVIEW_STREAM_BUFFER_COUNT),
          par_cb = True, par_cam_feature_flags = cp_feature_flags c\<rparr>)"

definition port_Init :: "context_env \<Rightarrow> port \<Rightarrow> camera_context \<Rightarrow> (int \<times> port \<times> camera_context) option" where
  "port_Init E p w = do {
     (r, i, w1) \<leftarrow> CreateDeviceStream E (stream_parameters (port_params p) (port_camera_parameters p))
                      (word_of_int \<lfloor>sp_framerate (port_params p)\<rfloor>) False w;
     if r \<noteq> NO_ERROR \<or> i < 0 then Some (BAD_VALUE, p, w1)
     else Some (NO_ERROR, p\<lparr>camera_stream_id := i, port_state := PORT_CREATED\<rparr>, w1)
   }"

definition port_DeInit :: "context_env \<Rightarrow> port \<Rightarrow> camera_context \<Rightarrow> (int \<times> camera_context) option" where
  "port_DeInit E p w =
     (if ready_to_start p then None
      else do {
        (r, w1) \<leftarrow> DeleteDeviceStream E (camera_stream_id p) True w;
        if r \<noteq> NO_ERROR then Some (BAD_VALUE, w1) else Some (r, w1)
      })"

definition RestoreBatchStreamId :: "port \<Rightarrow> camera_context \<Rightarrow> camera_context" where
  "RestoreBatchStreamId p w =
     (if batch_stream_id w = camera_stream_id p
      then w\<lparr>batch_stream_id := -1, camera_parameters := (camera_parameters w)\<lparr>batch_size := 1\<rparr>\<rparr> else w)"

definition StoreBatchStreamId :: "port \<Rightarrow> camera_context \<Rightarrow> camera_context" where
  "StoreBatchStreamId p w =
     (if batch_size (port_camera_parameters p) > 1 \<and> \<not> batch_stream_id w > -1
      then w\<lparr>batch_stream_id := camera_stream_id p\<rparr> else w)"

text \<open>The mode for a size and a rate; the rate must be nearer than the single precision 0.1.\<close>

definition hfr_mode :: "StreamParam \<Rightarrow> HFRMode \<Rightarrow> bool" where
  "hfr_mode p m = (sp_width p = hfr_width m \<and> sp_height p = hfr_height m \<and>
     \<bar>sp_framerate p - of_int (uint (hfr_framerate m))\<bar> < 13421773 / 134217728)"

definition GetBatchSize :: "context_env \<Rightarrow> StreamParam \<Rightarrow> camera_context \<Rightarrow> (int \<times> nat) \<times> camera_context" where
  "GetBatchSize E p w =
     (if batch_size (camera_parameters w) > 1 then ((NO_ERROR, 1), w)
      else if constrained_threshold E \<le> sp_framerate p \<and> \<not> hfr_supported w then ((BAD_VALUE, 0), w)
      else if constrained_threshold E \<le> sp_framerate p \<and> snapshot_type w = kZsl then ((BAD_VALUE, 0), w)
      else
        let found = (\<lambda>n. ((NO_ERROR, n), w\<lparr>camera_parameters := (camera_parameters w)\<lparr>batch_size := n\<rparr>\<rparr>))
        in if batch_threshold E \<le> sp_framerate p
           then (case List.find (hfr_mode p) (hfr_batch_modes_list w) of
                   Some m \<Rightarrow> found (unat (hfr_batch_size m))
                 | None \<Rightarrow> ((BAD_VALUE, 0), w))
           else found 1)"

abbreviation (input) TEMPLATE_VIDEO_RECORD :: int where "TEMPLATE_VIDEO_RECORD \<equiv> 3"

text \<open>The port of a new stream enters the table; the first one makes the request.\<close>

definition register_port :: "context_env \<Rightarrow> StreamParam \<Rightarrow> port \<Rightarrow> camera_context \<Rightarrow> (int \<times> camera_context) option" where
  "register_port E p q w = do {
     let i = camera_stream_id q;
     let w1 = w\<lparr>stream_prepared := kv_add i (\<not> static_mem_alloc E) (stream_prepared w)\<rparr>;
     w2 \<leftarrow> (if static_mem_alloc E then must E (D_prepare i) w1 else Some w1);
     let w3 = StoreBatchStreamId q w2;
     w4 \<leftarrow> (if streaming_active_requests w3 = []
             then map_option (\<lambda>(rq, x). x\<lparr>streaming_active_requests := [rq]\<rparr>)
                    (CreateCaptureRequest E TEMPLATE_VIDEO_RECORD no_request w3)
             else Some w3);
     Some (NO_ERROR, if kv_find (ports w4) (sp_id p) = None then w4\<lparr>ports := kv_add (sp_id p) q (ports w4)\<rparr> else w4)
   }"

definition CreateStream :: "context_env \<Rightarrow> StreamParam \<Rightarrow> camera_context \<Rightarrow> (int \<times> camera_context) option" where
  "CreateStream E p w =
     (if \<not> camera_device w \<or> sp_id p = 0 then None
      else case GetBatchSize E p w of
        ((r, n), w1) \<Rightarrow>
          if r \<noteq> NO_ERROR then Some (BAD_VALUE, w1)
          else do {
            let w2 = w1\<lparr>camera_parameters := (camera_parameters w1)\<lparr>batch_size := n\<rparr>\<rparr>;
            (r1, q, w3) \<leftarrow> port_Init E (CameraPort p (camera_parameters w2)) w2;
            if r1 \<noteq> NO_ERROR then Some (BAD_VALUE, w3)
            else register_port E p q w3
          })"

definition DeleteStream :: "context_env \<Rightarrow> u32 \<Rightarrow> camera_context \<Rightarrow> (int \<times> camera_context) option" where
  "DeleteStream E k w =
     (case GetPort k w of
        None \<Rightarrow> Some (BAD_VALUE, w)
      | Some p \<Rightarrow>
          if GetNumConsumer (port_producer p) > 0 then Some (NO_ERROR, w)
          else do {
            (r, w1) \<leftarrow> port_DeInit E p w;
            if r \<noteq> NO_ERROR then None
            else let w2 = RestoreBatchStreamId p w1 in Some (r, w2\<lparr>ports := kv_remove k (ports w2)\<rparr>)
          })"

definition AddConsumer :: "u32 \<Rightarrow> consumer \<Rightarrow> camera_context \<Rightarrow> (int \<times> camera_context) option" where
  "AddConsumer k c w =
     (case GetPort k w of
        None \<Rightarrow> Some (BAD_VALUE, w)
      | Some p \<Rightarrow>
          if IsConnected c (port_producer p) then None
          else map_option (\<lambda>q. (NO_ERROR, set_port k (\<lambda>p. p\<lparr>port_producer := q\<rparr>) w))
                 (Buffer_Exchange.AddConsumer c (port_producer p)))"

definition RemoveConsumer :: "u32 \<Rightarrow> consumer \<Rightarrow> camera_context \<Rightarrow> (int \<times> camera_context) option" where
  "RemoveConsumer k c w =
     (case GetPort k w of
        None \<Rightarrow> Some (BAD_VALUE, w)
      | Some p \<Rightarrow>
          if \<not> IsConnected c (port_producer p) then None
          else map_option (\<lambda>q. (NO_ERROR, set_port k (\<lambda>p. p\<lparr>port_producer := q\<rparr>) w))
                 (Buffer_Exchange.RemoveConsumer c (port_producer p)))"

end
