(* ===== verification/Camera_Capture.thy ===== *)
theory Camera_Capture
  imports Camera_Streams
begin

text \<open>
  Image capture, parameters and callbacks of an open camera. Source:
  \<^verbatim>\<open>recorder/src/service/qmmf_camera_context.cc\<close>. The tables of resolutions and formats in the static
  metadata are read by parameters of the environment.
\<close>

section \<open>Pausing and resuming all streams\<close>

primrec each_port :: "(u32 \<Rightarrow> camera_context \<Rightarrow> camera_context option) \<Rightarrow> u32 list \<Rightarrow> camera_context \<Rightarrow>
    camera_context option" where
  "each_port f [] w = Some w"
| "each_port f (k # ks) w = do { w1 \<leftarrow> f k w; each_port f ks w1 }"

text \<open>A port call whose error fails an assertion.\<close>

definition surely :: "(u32 \<Rightarrow> camera_context \<Rightarrow> (int \<times> camera_context) option) \<Rightarrow> u32 \<Rightarrow> camera_context \<Rightarrow>
    camera_context option" where
  "surely f k w = do { (r, w1) \<leftarrow> f k w; if r = NO_ERROR then Some w1 else None }"

definition PauseActiveStreams :: "context_env \<Rightarrow> bool \<Rightarrow> camera_context \<Rightarrow> camera_context option" where
  "PauseActiveStreams E immediately w =
     (if streaming_request_id w < 0 \<and> capture_request_id w < 0 then Some w
      else if port_paused w then Some w
      else do {
        w1 \<leftarrow> (if immediately then do {
                  x \<leftarrow> must E D_flush w;
                  x1 \<leftarrow> Some (x\<lparr>clog := clog x @ [To_flush_cb (camera_id x)]\<rparr>);
                  x2 \<leftarrow> must E D_wait_idle x1;
                  each_port port_Pause (kv_keys (ports x2)) (x2\<lparr>last_frame_number := NO_IN_FLIGHT_REPEATING_FRAMES\<rparr>)
                } else each_port (surely (port_Stop E)) (kv_keys (ports w)) w);
        w2 \<leftarrow> (if stopped_stream_ids w1 = [] then Some w1 else None);
        Some ((case streaming_active_requests w2 of
                 [] \<Rightarrow> w2
               | q # qs \<Rightarrow> w2\<lparr>stopped_stream_ids := foldl (\<lambda>m i. kv_add i () m) [] (c3_streamIds q),
                              streaming_active_requests := q\<lparr>c3_streamIds := []\<rparr> # qs\<rparr>)
              \<lparr>port_paused := True, streaming_request_id := -1, capture_request_id := -1\<rparr>)
      })"

definition ResumeActiveStreams :: "context_env \<Rightarrow> bool \<Rightarrow> camera_context \<Rightarrow> camera_context option" where
  "ResumeActiveStreams E state_only w =
     (if stopped_stream_ids w = [] then Some (w\<lparr>port_paused := False\<rparr>)
      else do {
        w1 \<leftarrow> each_port (if state_only then port_Resume else surely (port_Start E)) (kv_keys (ports w)) w;
        Some (w1\<lparr>stopped_stream_ids := [], port_paused := False\<rparr>)
      })"

section \<open>Camera parameters\<close>

definition SetCameraParam :: "context_env \<Rightarrow> metadata \<Rightarrow> camera_context \<Rightarrow> (int \<times> camera_context) option" where
  "SetCameraParam E md w =
     (if first_metadata (streaming_active_requests w) = [] then Some (NO_INIT, w)
      else
        let rs = map (\<lambda>r. r\<lparr>c3_metadata := md_append (cmeta E) [] md\<rparr>) (streaming_active_requests w);
            w1 = w\<lparr>streaming_active_requests := rs\<rparr>
        in if streaming_request_id w1 \<ge> 0 \<and> snapshot_type w1 \<noteq> kContinuous then
             (let (r, fr, w2) = submit E rs True w1;
                  w3 = (if fr \<noteq> NO_IN_FLIGHT_REPEATING_FRAMES then w2\<lparr>last_frame_number := fr\<rparr> else w2)
              in if r < 0 then None else Some (NO_ERROR, w3\<lparr>streaming_request_id := r\<rparr>))
           else Some (NO_ERROR, w1))"

definition GetCameraParam :: "context_env \<Rightarrow> camera_context \<Rightarrow> metadata" where
  "GetCameraParam E w = md_append (cmeta E) []
     (if first_metadata (streaming_active_requests w) \<noteq> [] then first_metadata (streaming_active_requests w)
      else static_meta w)"

definition GetDefaultCaptureParam :: "context_env \<Rightarrow> camera_context \<Rightarrow> int + metadata" where
  "GetDefaultCaptureParam E w =
     (if c3_metadata (snapshot_request w) \<noteq> [] then Inr (md_append (cmeta E) [] (c3_metadata (snapshot_request w)))
      else Inl NO_INIT)"

definition GetCameraCharacteristics :: "context_env \<Rightarrow> camera_context \<Rightarrow> int + metadata" where
  "GetCameraCharacteristics E w =
     (if static_meta w = [] then Inl NO_INIT else Inr (md_append (cmeta E) [] (static_meta w)))"

section \<open>Captured images\<close>

definition ReturnImageCaptureBuffer :: "context_env \<Rightarrow> int \<Rightarrow> camera_context \<Rightarrow> (int \<times> camera_context) option" where
  "ReturnImageCaptureBuffer E i w =
     (let k = word_of_int i
      in case kv_find (snapshot_buffer_list w) k of
           None \<Rightarrow> Some (BAD_VALUE, w)
         | Some b \<Rightarrow>
             if b_fd b \<noteq> i then None
             else if kv_find (snapshot_buffer_stream_list w) k = None then Some (BAD_VALUE, w)
             else do {
               w1 \<leftarrow> must E (D_return b) w;
               Some (NO_ERROR, w1\<lparr>snapshot_buffer_list := kv_remove k (snapshot_buffer_list w1),
                                 snapshot_buffer_stream_list := kv_remove k (snapshot_buffer_stream_list w1)\<rparr>)
             })"

lemma returned_image_shrinks:
  "ReturnImageCaptureBuffer E i w = Some (r, w1) \<Longrightarrow> length (snapshot_buffer_list w1) \<le> length (snapshot_buffer_list w)"
  by (auto simp: ReturnImageCaptureBuffer_def must_def call_def Let_def kv_remove_def bind_eq_Some_conv
      split: option.splits if_splits)

text \<open>
  The loop compares its counter with the size of the list, which shrinks in every round; \<open>n\<close> is the
  counter. The key of an entry is read as a signed number.
\<close>

function return_images_from :: "context_env \<Rightarrow> nat \<Rightarrow> int \<Rightarrow> camera_context \<Rightarrow> (int \<times> camera_context) option" where
  "return_images_from E n r w =
     (if n < length (snapshot_buffer_list w) then
        (case ReturnImageCaptureBuffer E (sint (fst (hd (snapshot_buffer_list w)))) w of
           None \<Rightarrow> None
         | Some (r1, w1) \<Rightarrow>
             if r1 = NO_ERROR then return_images_from E (Suc n) r1 w1 else None)
      else Some (r, w))"
  by pat_completeness auto

termination
  by (relation "measure (\<lambda>(E, n, r, w). length (snapshot_buffer_list w) - n)") (auto dest!: returned_image_shrinks)

declare return_images_from.simps [simp del]

definition ReturnAllImageCaptureBuffers :: "context_env \<Rightarrow> camera_context \<Rightarrow> (int \<times> camera_context) option" where
  "ReturnAllImageCaptureBuffers E w = return_images_from E 0 NO_ERROR w"

definition SnapshotCaptureCallback :: "context_env \<Rightarrow> StreamBuffer \<Rightarrow> camera_context \<Rightarrow> camera_context option" where
  "SnapshotCaptureCallback E b w =
     (let n = capture_cnt w; w1 = w\<lparr>capture_cnt := n + 1\<rparr>; k = word_of_int (b_fd b)
      in if cancel_capture w1 then must E (D_return b) w1
         else Some (w1\<lparr>
           snapshot_buffer_list := (if kv_find (snapshot_buffer_list w1) k = None then kv_add k b (snapshot_buffer_list w1)
                                    else snapshot_buffer_list w1),
           snapshot_buffer_stream_list := (if kv_find (snapshot_buffer_stream_list w1) k = None
                                           then kv_add k (b_stream_id b) (snapshot_buffer_stream_list w1)
                                           else snapshot_buffer_stream_list w1),
           clog := clog w1 @ [To_snapshot_cb n b]\<rparr>))"

definition NotifyBufferReturned :: "context_env \<Rightarrow> StreamBuffer \<Rightarrow> camera_context \<Rightarrow> camera_context option" where
  "NotifyBufferReturned E b w =
     (if snapshot_type w = kZsl then do {
        z \<leftarrow> zsl_port w;
        (case ReturnZSLInputBuffer b z of (bs, z1) \<Rightarrow> return_buffers E bs (set_zsl z1 w))
      } else ReturnStreamBuffer E b w)"

section \<open>Callbacks of the device\<close>

text \<open>A frame of a port's stream: to the consumers, or back to the device when there are none or its exposure has not settled.\<close>

definition exposed :: "port \<Rightarrow> StreamBuffer \<Rightarrow> camera_context \<Rightarrow> port \<times> bool" where
  "exposed p b w =
     (if bit (sp_flags (port_params p)) 0 then
        (let p1 = (if aec_converged p then p
                   else p\<lparr>aec_converged := aec_state w = kAE_LOCKED \<or> aec_state w = kAE_CONVERGED, aec_timestamp := aec_time w\<rparr>)
         in (p1, aec_converged p1 \<and> b_timestamp b \<ge> aec_timestamp p1))
      else (p, True))"

definition StreamCallback :: "context_env \<Rightarrow> (consumer \<Rightarrow> StreamBuffer \<Rightarrow> bool) \<Rightarrow> u32 \<Rightarrow> StreamBuffer \<Rightarrow> camera_context \<Rightarrow>
    (exchange_call list \<times> camera_context) option" where
  "StreamCallback E prompt k b w = do {
     p \<leftarrow> GetPort k w;
     if b_stream_id b \<noteq> camera_stream_id p then None
     else
       let (p1, ok) = exposed p b w
       in if GetNumConsumer (port_producer p1) > 0 \<and> ok then
            (case NotifyBuffer prompt b (port_producer p1) of
               (q, cs) \<Rightarrow> Some (cs, set_port k (\<lambda>_. p1\<lparr>port_producer := q\<rparr>) w))
          else map_option (Pair []) (ReturnStreamBuffer E b (set_port k (\<lambda>_. p1) w))
   }"

definition forget_frame :: "int \<Rightarrow> int \<Rightarrow> camera_context \<Rightarrow> camera_context" where
  "forget_frame n i w =
     (let last = (case kv_find (last_frame_number_map w) i of Some m \<Rightarrow> m | None \<Rightarrow> 0)
      in if last = n
         then w\<lparr>last_frame_number_map := kv_remove i (last_frame_number_map w),
                removed_stream_ids := kv_remove i (removed_stream_ids w)\<rparr>
         else w\<lparr>last_frame_number_map := kv_add i last (last_frame_number_map w)\<rparr>)"

definition CameraErrorCb :: "CameraErrorCode \<Rightarrow> CaptureResultExtras \<Rightarrow> camera_context \<Rightarrow> camera_context" where
  "CameraErrorCb e x w =
     (let w1 = (if e = ERROR_CAMERA_REQUEST \<or> e = ERROR_CAMERA_BUFFER
                then foldl (\<lambda>v i. forget_frame (uint (frameNumber x)) i v) w (kv_keys (removed_stream_ids w)) else w)
      in if error_cb w1 then w1\<lparr>clog := clog w1 @ [To_error_cb e]\<rparr> else w1)"

definition CameraPreparedCb :: "int \<Rightarrow> camera_context \<Rightarrow> camera_context" where
  "CameraPreparedCb i w = w\<lparr>stream_prepared := kv_add i True (stream_prepared w)\<rparr>"

definition note_exposure :: "context_env \<Rightarrow> metadata \<Rightarrow> camera_context \<Rightarrow> camera_context" where
  "note_exposure E md w =
     (case (md_find (cmeta E) md ANDROID_CONTROL_AE_STATE, md_find (cmeta E) md ANDROID_SENSOR_TIMESTAMP) of
        (Some (s # _), Some (t # _)) \<Rightarrow> if aec_state w \<noteq> s then w\<lparr>aec_state := s, aec_time := t\<rparr> else w
      | _ \<Rightarrow> w)"

definition HandleFinalResult :: "context_env \<Rightarrow> metadata \<Rightarrow> camera_context \<Rightarrow> camera_context option" where
  "HandleFinalResult E md w = do {
     let w1 = note_exposure E md w;
     w2 \<leftarrow> (if snapshot_type w1 = kZsl then do {
              z \<leftarrow> zsl_port w1;
              (case HandleZSLCaptureResult (cmeta E) md z of (bs, z1) \<Rightarrow> return_buffers E bs (set_zsl z1 w1))
            } else Some w1);
     Some (if result_cb w2 then w2\<lparr>clog := clog w2 @ [To_result_cb md]\<rparr> else w2)
   }"

definition QueryPartialTag :: "context_env \<Rightarrow> metadata \<Rightarrow> tag \<Rightarrow> int option" where
  "QueryPartialTag E md t = (case md_find (cmeta E) md t of Some (v # _) \<Rightarrow> Some v | _ \<Rightarrow> None)"

definition partial_result :: "context_env \<Rightarrow> CaptureResultExtras \<Rightarrow> metadata \<Rightarrow> metadata option" where
  "partial_result E x md = do {
     awb_mode \<leftarrow> QueryPartialTag E md ANDROID_CONTROL_AWB_MODE;
     af_mode \<leftarrow> QueryPartialTag E md ANDROID_CONTROL_AF_MODE;
     ae \<leftarrow> QueryPartialTag E md ANDROID_CONTROL_AE_STATE;
     awb \<leftarrow> QueryPartialTag E md ANDROID_CONTROL_AWB_STATE;
     af \<leftarrow> QueryPartialTag E md ANDROID_CONTROL_AF_STATE;
     Some (foldl (\<lambda>m (t, v). md_update (cmeta E) m t [v]) []
       [(ANDROID_REQUEST_FRAME_COUNT, sint (frameNumber x)), (ANDROID_REQUEST_ID, requestId x),
        (ANDROID_CONTROL_AWB_STATE, awb), (ANDROID_CONTROL_AF_MODE, af_mode), (ANDROID_CONTROL_AWB_MODE, awb_mode),
        (ANDROID_CONTROL_AF_STATE, af), (ANDROID_CONTROL_AE_STATE, ae)])
   }"

definition CameraResultCb :: "context_env \<Rightarrow> CaptureResultExtras \<Rightarrow> metadata \<Rightarrow> camera_context \<Rightarrow> camera_context option" where
  "CameraResultCb E x md w =
     (if partialResultCount x < partial_results w then
        (case partial_result E x md of
           Some m \<Rightarrow> HandleFinalResult E m w
         | None \<Rightarrow>
             if is_partial_metadata_enabled (camera_parameters w) \<and> result_cb w
             then Some (w\<lparr>clog := clog w @ [To_result_cb md]\<rparr>) else Some w)
      else HandleFinalResult E md w)"

fun wait_aec :: "(bool \<times> camera_context) list \<Rightarrow> camera_context \<Rightarrow> int \<times> camera_context" where
  "wait_aec ws w =
     (if aec_state w = kAE_LOCKED \<or> aec_state w = kAE_CONVERGED then (NO_ERROR, w)
      else case ws of
        [] \<Rightarrow> (TIMED_OUT, w)
      | (timedout, w1) # ws1 \<Rightarrow> if timedout then (TIMED_OUT, w1) else wait_aec ws1 w1)"

declare wait_aec.simps [simp del]

definition WaitAecToConverge :: "context_env \<Rightarrow> camera_context \<Rightarrow> int \<times> camera_context" where
  "WaitAecToConverge E w = (if streaming_request_id w = -1 then (NO_ERROR, w) else wait_aec (aec_waits E w) w)"

end
