(* ===== verification/Camera_Snapshot.thy ===== *)
theory Camera_Snapshot
  imports Camera_Capture
begin

text \<open>
  Snapshot streams, image capture with and without zero shutter lag, and the end of a camera. Source:
  \<^verbatim>\<open>recorder/src/service/qmmf_camera_context.cc\<close>.
\<close>

section \<open>Snapshot streams\<close>

definition zero_stream_param :: CameraStreamParameters where
  "zero_stream_param = \<lparr>par_width = 0, par_height = 0, par_format = HAL_PIXEL_FORMAT_OTHER 0, par_data_space = HAL_DATASPACE_UNKNOWN,
     par_rotation = 0, par_allocFlags = 0, par_bufferCount = 0, par_cb = False, par_cam_feature_flags = 0\<rparr>"

definition IsStreamParamsChanged :: "CameraStreamParameters \<Rightarrow> camera_context \<Rightarrow> bool" where
  "IsStreamParamsChanged p w =
     (let q = snapshot_stream_param w
      in par_format p \<noteq> par_format q \<or> par_width p \<noteq> par_width q \<or> par_height p \<noteq> par_height q \<or>
         par_bufferCount p > par_bufferCount q \<or> par_allocFlags p \<noteq> par_allocFlags q)"

primrec delete_streams :: "context_env \<Rightarrow> int list \<Rightarrow> bool \<Rightarrow> int \<Rightarrow> camera_context \<Rightarrow> (int \<times> camera_context) option" where
  "delete_streams E [] cache r w = Some (r, w)"
| "delete_streams E (i # is) cache r w = do {
     (e, w1) \<leftarrow> DeleteDeviceStream E i cache w;
     delete_streams E is cache (if e \<noteq> NO_ERROR then e else r) w1
   }"

definition DeleteSnapshotStream :: "context_env \<Rightarrow> bool \<Rightarrow> camera_context \<Rightarrow> (int \<times> camera_context) option" where
  "DeleteSnapshotStream E cache w = do {
     (r, w1) \<leftarrow> delete_streams E (c3_streamIds (snapshot_request w)) (cache \<or> streaming_request_id w = -1) NO_ERROR w;
     Some (r, w1\<lparr>snapshot_request := (snapshot_request w1)\<lparr>c3_streamIds := []\<rparr>, snapshot_stream_param := zero_stream_param,
                 snapshot_type := SNone, capture_request_id := -1\<rparr>)
   }"

definition add_snapshot :: "context_env \<Rightarrow> CameraStreamParameters \<Rightarrow> bool \<Rightarrow> camera_context \<Rightarrow> (int \<times> camera_context) option" where
  "add_snapshot E p cache w = do {
     (r, i, w1) \<leftarrow> CreateDeviceStream E p (word_of_int (frame_rate (camera_parameters w))) cache w;
     Some (r, if r \<noteq> NO_ERROR then w1
              else w1\<lparr>snapshot_request := (snapshot_request w1)\<lparr>c3_streamIds := c3_streamIds (snapshot_request w1) @ [i]\<rparr>\<rparr>)
   }"

abbreviation (input) MAX_SNAPSHOT_BUFFER_COUNT :: u32 where "MAX_SNAPSHOT_BUFFER_COUNT \<equiv> 15"

definition raw_param :: "context_env \<Rightarrow> CameraStreamParameters \<Rightarrow> camera_context \<Rightarrow> CameraStreamParameters" where
  "raw_param E p w =
     (let (mw, mh) = max_resolution E (static_meta w) (raw_snapshot_format w)
      in p\<lparr>par_format := FromQmmfToHalFormat (raw_snapshot_format w), par_width := mw, par_height := mh,
           par_allocFlags := kSwWriteOften OR kSwReadOften, par_bufferCount := MAX_SNAPSHOT_BUFFER_COUNT\<rparr>)"

definition replace_snapshot :: "context_env \<Rightarrow> CameraStreamParameters \<Rightarrow> bool \<Rightarrow> camera_context \<Rightarrow> (int \<times> camera_context) option" where
  "replace_snapshot E p cache w = do {
     w1 \<leftarrow> PauseActiveStreams E True w;
     let ids = c3_streamIds (snapshot_request w1);
     if length ids > 1 then Some (BAD_VALUE, w1)
     else do {
       (r, w2) \<leftarrow> (if ids \<noteq> [] then DeleteSnapshotStream E True w1 else Some (NO_ERROR, w1));
       if r \<noteq> NO_ERROR then Some (r, w2) else add_snapshot E p cache w2
     }
   }"

definition CreateSnapshotStream :: "context_env \<Rightarrow> CameraStreamParameters \<Rightarrow> bool \<Rightarrow> camera_context \<Rightarrow>
    (int \<times> camera_context) option" where
  "CreateSnapshotStream E p cache w = do {
     (r, w1) \<leftarrow> (if IsStreamParamsChanged p w then replace_snapshot E p cache w else Some (NO_ERROR, w));
     if r \<noteq> NO_ERROR then Some (r, w1)
     else if snapshot_type w1 = kStillPlusRaw \<or> snapshot_type w1 = kVideoPlusRaw
     then add_snapshot E (raw_param E p w1) cache w1
     else Some (r, w1)
   }"

definition GetSnapshotStreamParams :: "SnapshotParam \<Rightarrow> CameraStreamParameters" where
  "GetSnapshotStreamParams p =
     zero_stream_param\<lparr>par_format := FromQmmfToHalFormat (sn_format p), par_width := sn_width p, par_height := sn_height p,
       par_allocFlags := kSwWriteOften OR kSwReadOften OR (if sn_format p = kNV12Encodable then kVideoEncoder else 0),
       par_cb := True, par_bufferCount := MAX_SNAPSHOT_BUFFER_COUNT\<rparr>"

definition ValidateResolution :: "context_env \<Rightarrow> BufferFormat \<Rightarrow> u32 \<Rightarrow> u32 \<Rightarrow> camera_context \<Rightarrow> int" where
  "ValidateResolution E f sw sh w = (if valid_resolution E (static_meta w) f sw sh then NO_ERROR else BAD_VALUE)"

definition IsNeedReconfigSnapshotStream :: "camera_context \<Rightarrow> bool" where
  "IsNeedReconfigSnapshotStream w =
     (let a = snapshot_type w; b = new_snapshot_type w
      in a \<noteq> b \<and> (a = kStillPlusRaw \<or> b = kStillPlusRaw \<or> a = kVideoPlusRaw \<or> b = kVideoPlusRaw))"

definition SetUpCapture :: "context_env \<Rightarrow> SnapshotParam \<Rightarrow> camera_context \<Rightarrow> (int \<times> camera_context) option" where
  "SetUpCapture E p w =
     (if snapshot_type w = kZsl then do {
        z \<leftarrow> zsl_port w;
        Some (ValidateCaptureParams (sn_width p) (sn_height p) (sn_format p) z, w)
      } else
        let needed = (c3_streamIds (snapshot_request w) = [] \<or> sn_width (snapshot_param w) \<noteq> sn_width p \<or>
              sn_height (snapshot_param w) \<noteq> sn_height p \<or> IsNeedReconfigSnapshotStream w \<or>
              jpeg_input_format w \<noteq> new_jpeg_input_format w \<or> sn_format (snapshot_param w) \<noteq> sn_format p);
            w1 = w\<lparr>snapshot_param := p, snapshot_type := new_snapshot_type w, jpeg_input_format := new_jpeg_input_format w\<rparr>
        in if \<not> needed then Some (NO_ERROR, w1)
           else if ValidateResolution E (sn_format p) (sn_width p) (sn_height p) w1 \<noteq> NO_ERROR then Some (BAD_VALUE, w1)
           else do {
             let sp = GetSnapshotStreamParams p;
             (r, w2) \<leftarrow> CreateSnapshotStream E sp False w1;
             if r \<noteq> NO_ERROR then Some (r, w2)
             else Some (NO_ERROR, snd (WaitAecToConverge E (w2\<lparr>snapshot_param := p, snapshot_stream_param := sp\<rparr>)))
           })"

section \<open>Capture\<close>

text \<open>
  One image: the metadata of its request, and the video streams that are captured with it. When the
  streams are paused they go back to the running request.
\<close>

definition image_metadata :: "context_env \<Rightarrow> metadata list \<Rightarrow> camera_context \<Rightarrow> metadata \<times> metadata list" where
  "image_metadata E ms w =
     (let (md, ms1) =
        (if first_metadata (streaming_active_requests w) \<noteq> [] \<and> (snapshot_type w = kVideo \<or> snapshot_type w = kVideoPlusRaw)
         then (md_append (cmeta E) [] (first_metadata (streaming_active_requests w)), ms)
         else case ms of m # ms1 \<Rightarrow> (md_append (cmeta E) [] m, ms1) | [] \<Rightarrow> (c3_metadata (snapshot_request w), []))
      in (md_update (cmeta E) md ANDROID_JPEG_QUALITY [uint (sn_quality (snapshot_param w)) mod 256], ms1))"

definition image_streams :: "camera_context \<Rightarrow> (int list \<times> camera_context) option" where
  "image_streams w =
     (if snapshot_type w = kVideo \<or> snapshot_type w = kContinuous \<or> snapshot_type w = kVideoPlusRaw then
        (case streaming_active_requests w of
           [q] \<Rightarrow>
             if port_paused w then
               (if c3_streamIds q \<noteq> [] then None
                else let ids = kv_keys (stopped_stream_ids w)
                     in Some (ids, w\<lparr>streaming_active_requests := [q\<lparr>c3_streamIds := ids\<rparr>], port_paused := False\<rparr>))
             else Some (c3_streamIds q, w)
         | _ \<Rightarrow> Some ([], w))
      else Some ([], w))"

primrec image_requests :: "context_env \<Rightarrow> nat \<Rightarrow> metadata list \<Rightarrow> camera_context \<Rightarrow>
    (Camera3Request list \<times> camera_context) option" where
  "image_requests E 0 ms w = Some ([], w)"
| "image_requests E (Suc n) ms w = do {
     let (md, ms1) = image_metadata E ms w;
     (ids, w1) \<leftarrow> image_streams (w\<lparr>snapshot_request := (snapshot_request w)\<lparr>c3_metadata := md\<rparr>\<rparr>);
     let q = snapshot_request w1;
     (qs, w2) \<leftarrow> image_requests E n ms1 w1;
     Some (q\<lparr>c3_streamIds := c3_streamIds q @ ids\<rparr> # qs, w2)
   }"

definition submit_images :: "context_env \<Rightarrow> Camera3Request list \<Rightarrow> camera_context \<Rightarrow> camera_context option" where
  "submit_images E qs w =
     (let streaming = (snapshot_type w = kContinuous);
          (r, fr, w1) = submit E qs streaming (w\<lparr>cancel_capture := False\<rparr>);
          w2 = (if fr \<noteq> NO_IN_FLIGHT_REPEATING_FRAMES then w1\<lparr>last_frame_number := fr\<rparr> else w1)
      in if r < 0 then None
         else ResumeActiveStreams E streaming
                (if streaming then w2\<lparr>streaming_request_id := r\<rparr> else w2\<lparr>capture_request_id := r\<rparr>))"

definition CaptureZSLImage :: "context_env \<Rightarrow> camera_context \<Rightarrow> (int \<times> camera_context) option" where
  "CaptureZSLImage E w = do {
     z \<leftarrow> zsl_port w;
     let (stat, z1) = PickZSLBuffer (cmeta E) z;
     let w1 = set_zsl z1 w;
     (case c3_streamIds (snapshot_request w1) of
        [] \<Rightarrow> None
      | i # _ \<Rightarrow>
          let quality = [uint (sn_quality (snapshot_param w1)) mod 256];
              q = (if stat = NO_ERROR
                   then \<lparr>c3_metadata = md_update (cmeta E) (z_result (zsl_input_buffer z1)) ANDROID_JPEG_QUALITY quality,
                         c3_streamIds = [input_stream_id z1, i]\<rparr>
                   else (snapshot_request w1)\<lparr>c3_metadata :=
                          md_update (cmeta E) (c3_metadata (snapshot_request w1)) ANDROID_JPEG_QUALITY quality\<rparr>);
              w2 = (if stat = NO_ERROR then w1
                    else w1\<lparr>snapshot_request := (snapshot_request w1)\<lparr>c3_metadata := c3_metadata q\<rparr>\<rparr>);
              (r, fr, w3) = submit E [q] False w2
          in Some (if r < 0 then -2147483648 else NO_ERROR, w3))
   }"

definition CaptureImage :: "context_env \<Rightarrow> nat \<Rightarrow> metadata list \<Rightarrow> camera_context \<Rightarrow> (int \<times> camera_context) option" where
  "CaptureImage E n ms w =
     (let w1 = w\<lparr>capture_cnt := 0\<rparr>
      in if c3_streamIds (snapshot_request w1) = [] then Some (BAD_VALUE, w1)
         else if continuous_mode_is_on w1 then Some (NO_ERROR, w1)
         else
           let cont = (snapshot_type w1 = kContinuous); w2 = (if cont then w1\<lparr>continuous_mode_is_on := True\<rparr> else w1)
           in if snapshot_type w2 = kZsl then CaptureZSLImage E w2
              else do {
                (qs, w3) \<leftarrow> image_requests E (if cont then 1 else n) ms w2;
                w4 \<leftarrow> submit_images E qs w3;
                Some (NO_ERROR, w4)
              })"

section \<open>Zero shutter lag\<close>

abbreviation (input) TEMPLATE_ZERO_SHUTTER_LAG :: int where "TEMPLATE_ZERO_SHUTTER_LAG \<equiv> 5"
abbreviation (input) kHwCameraZsl :: u32 where "kHwCameraZsl \<equiv> 1"
abbreviation (input) kHwFb :: u32 where "kHwFb \<equiv> 0x200"

definition SetUpZSL :: "context_env \<Rightarrow> port \<Rightarrow> zsl \<Rightarrow> camera_context \<Rightarrow> (int \<times> port \<times> camera_context) option" where
  "SetUpZSL E p z w =
     (let prm = port_params p
      in if zsl_queue_depth z = 0 then Some (BAD_VALUE, p, w)
         else if \<lfloor>sp_framerate prm\<rfloor> \<notin> set (supported_fps w) then Some (BAD_VALUE, p, w)
         else if ValidateResolution E (sp_format prm) (sp_width prm) (sp_height prm) w \<noteq> NO_ERROR then Some (BAD_VALUE, p, w)
         else do {
           (r, i, w1) \<leftarrow> CreateDeviceStream E (zero_stream_param\<lparr>par_bufferCount := zsl_queue_depth z + VIDEO_STREAM_BUFFER_COUNT,
                par_format := FromQmmfToHalFormat (sp_format prm), par_width := sp_width prm, par_height := sp_height prm,
                par_allocFlags := kHwFb OR kHwCameraZsl, par_cb := True\<rparr>) (word_of_int \<lfloor>sp_framerate prm\<rfloor>) False w;
           if r \<noteq> NO_ERROR then Some (r, p, w1)
           else do {
             (r1, j, w2) \<leftarrow> CreateDeviceInputStream E (sp_width prm) (sp_height prm) True w1;
             if r1 \<noteq> NO_ERROR then Some (r1, p\<lparr>camera_stream_id := i\<rparr>, w2)
             else Some (NO_ERROR, p\<lparr>camera_stream_id := i, port_state := PORT_CREATED,
                    port_zsl := Some (zsl_configured j (zsl_streamed i z))\<rparr>, w2)
           }
         })"

text \<open>The parameters of \<^verbatim>\<open>QMMF_SNAPSHOT_TYPE\<close>.\<close>

record SnapshotType =
  ty_mode :: SnapshotMode
  ty_raw_format :: BufferFormat
  ty_zsl_depth :: u32
  ty_zsl_image :: SnapshotParam

definition start_zsl_port :: "context_env \<Rightarrow> u32 \<Rightarrow> CameraStreamParameters \<Rightarrow> camera_context \<Rightarrow> (int \<times> camera_context) option" where
  "start_zsl_port E depth sp w = do {
     let prm = \<lparr>sp_id = zsl_port_id, sp_width = par_width sp, sp_height = par_height sp, sp_rotation = 0,
                sp_format = FromHalToQmmfFormat (par_format sp), sp_framerate = of_int (frame_rate (camera_parameters w)), sp_flags = 0\<rparr>;
     (r, p, w1) \<leftarrow> SetUpZSL E (CameraPort prm (camera_parameters w)) (ZslPort depth (par_width sp) (par_height sp)) w;
     if r \<noteq> NO_ERROR then Some (BAD_VALUE, w1)
     else do {
       let w2 = (if kv_find (ports w1) zsl_port_id = None then w1\<lparr>ports := kv_add zsl_port_id p (ports w1)\<rparr> else w1);
       (r1, w3) \<leftarrow> port_Start E zsl_port_id w2;
       if r1 \<noteq> NO_ERROR then Some (r1, w3)
       else map_option (Pair NO_ERROR) (ResumeActiveStreams E False w3)
     }
   }"

definition StartZSL :: "context_env \<Rightarrow> SnapshotType \<Rightarrow> camera_context \<Rightarrow> (int \<times> camera_context) option" where
  "StartZSL E ty w =
     (if \<not> input_supported E (static_meta w) then Some (BAD_VALUE, w)
      else do {
        let w1 = w\<lparr>snapshot_param := ty_zsl_image ty\<rparr>;
        let sp = GetSnapshotStreamParams (snapshot_param w1);
        w2 \<leftarrow> PauseActiveStreams E True w1;
        (r, w3) \<leftarrow> CreateSnapshotStream E sp True w2;
        if r \<noteq> NO_ERROR then Some (r, w3)
        else do {
          let rs = (if streaming_active_requests w3 = [] then [no_request] else streaming_active_requests w3);
          (q, w4) \<leftarrow> CreateCaptureRequest E TEMPLATE_ZERO_SHUTTER_LAG (hd rs) w3;
          let fps = frame_rate (camera_parameters w4);
          let q1 = q\<lparr>c3_metadata := md_update (cmeta E) (c3_metadata q) ANDROID_CONTROL_AE_TARGET_FPS_RANGE [fps, fps]\<rparr>;
          start_zsl_port E (ty_zsl_depth ty) sp (w4\<lparr>streaming_active_requests := q1 # tl rs\<rparr>)
        }
      })"

definition zsl_DeInit :: "context_env \<Rightarrow> port \<Rightarrow> zsl \<Rightarrow> camera_context \<Rightarrow> (int \<times> camera_context) option" where
  "zsl_DeInit E p z w = do {
     (r, w1) \<leftarrow> (if input_stream_id z \<noteq> -1 then DeleteDeviceStream E (input_stream_id z) True w else Some (NO_ERROR, w));
     if r \<noteq> NO_ERROR then Some (BAD_VALUE, w1) else port_DeInit E p w1
   }"

text \<open>The port object outlives the look-up; its own fields are read from the table until it is deleted.\<close>

definition StopZSL :: "context_env \<Rightarrow> camera_context \<Rightarrow> (int \<times> camera_context) option" where
  "StopZSL E w = do {
     p \<leftarrow> GetPort zsl_port_id w;
     z \<leftarrow> port_zsl p;
     let (bs, z1) = PauseAndFlushZSLQueue z;
     w1 \<leftarrow> return_buffers E bs (set_zsl z1 w);
     w2 \<leftarrow> PauseActiveStreams E True w1;
     (r, w3) \<leftarrow> port_Stop E zsl_port_id w2;
     if r \<noteq> NO_ERROR then Some (r, w3)
     else do {
       (r1, w4) \<leftarrow> DeleteSnapshotStream E True w3;
       p1 \<leftarrow> GetPort zsl_port_id w4;
       (r2, w5) \<leftarrow> zsl_DeInit E p1 z1 w4;
       if r2 \<noteq> NO_ERROR then Some (r2, w5)
       else map_option (Pair r2) (ResumeActiveStreams E False (w5\<lparr>ports := kv_remove zsl_port_id (ports w5)\<rparr>))
     }
   }"

section \<open>Configuration, cancelling, closing\<close>

text \<open>The entries of \<^verbatim>\<open>ImageConfigParam\<close> that the code reads.\<close>

record ImageConfig =
  cfg_thumbnails :: "(u32 \<times> u32 \<times> u32) list option"
  cfg_exif :: "bool option"
  cfg_jpeg :: "BufferFormat option"
  cfg_type :: "SnapshotType option"

definition ValidateCaptureConfig :: "ImageConfig \<Rightarrow> int" where
  "ValidateCaptureConfig c = (if cfg_exif c = Some False \<and> cfg_thumbnails c \<noteq> None then INVALID_OPERATION else NO_ERROR)"

definition raw_format :: "BufferFormat \<Rightarrow> bool" where
  "raw_format f = (f = kRAW8 \<or> f = kRAW10 \<or> f = kRAW12 \<or> f = kRAW16)"

definition config_type :: "context_env \<Rightarrow> SnapshotType \<Rightarrow> camera_context \<Rightarrow> (int \<times> camera_context) option" where
  "config_type E ty w =
     (let raw = (ty_mode ty = kStillPlusRaw \<or> ty_mode ty = kVideoPlusRaw)
      in if raw \<and> (\<not> raw_format (ty_raw_format ty) \<or> \<not> valid_format E (static_meta w) (ty_raw_format ty)) then Some (BAD_VALUE, w)
         else do {
           let w1 = (if raw then w\<lparr>raw_snapshot_format := ty_raw_format ty\<rparr> else w)\<lparr>new_snapshot_type := ty_mode ty\<rparr>;
           (if snapshot_type w1 \<noteq> kZsl \<and> new_snapshot_type w1 = kZsl then do {
              (r, w2) \<leftarrow> StartZSL E ty w1;
              if r \<noteq> NO_ERROR then None else Some (NO_ERROR, w2\<lparr>snapshot_type := new_snapshot_type w2\<rparr>)
            } else if snapshot_type w1 = kZsl \<and> new_snapshot_type w1 \<noteq> kZsl then do {
              (r, w2) \<leftarrow> StopZSL E w1;
              if r \<noteq> NO_ERROR then None else Some (NO_ERROR, w2\<lparr>snapshot_type := new_snapshot_type w2\<rparr>)
            } else Some (NO_ERROR, w1))
         })"

definition ConfigImageCapture :: "context_env \<Rightarrow> ImageConfig \<Rightarrow> camera_context \<Rightarrow> (int \<times> camera_context) option" where
  "ConfigImageCapture E c w =
     (if ValidateCaptureConfig c \<noteq> NO_ERROR then Some (INVALID_OPERATION, w)
      else
        let w1 = (case cfg_thumbnails c of Some ts \<Rightarrow> w\<lparr>thumbnails := ts, reconfig_pipe := True\<rparr> | None \<Rightarrow> w);
            w2 = (case cfg_exif c of
                    Some e \<Rightarrow> if exif_en w1 \<noteq> e then w1\<lparr>exif_en := e, restart_pipe := True\<rparr> else w1 | None \<Rightarrow> w1);
            w3 = (case cfg_jpeg c of
                    Some f \<Rightarrow> if new_jpeg_input_format w2 \<noteq> f then w2\<lparr>new_jpeg_input_format := f, restart_pipe := True\<rparr> else w2
                  | None \<Rightarrow> w2)
        in (case cfg_type c of Some ty \<Rightarrow> config_type E ty w3 | None \<Rightarrow> Some (NO_ERROR, w3)))"

definition CancelCaptureImage :: "context_env \<Rightarrow> camera_context \<Rightarrow> (int \<times> camera_context) option" where
  "CancelCaptureImage E w =
     (if snapshot_type w = kZsl then do {
        (r, w1) \<leftarrow> StopZSL E w;
        if r \<noteq> NO_ERROR then None else Some (NO_ERROR, w1\<lparr>snapshot_type := kStill\<rparr>)
      } else if c3_streamIds (snapshot_request w) \<noteq> [] then do {
        w1 \<leftarrow> PauseActiveStreams E True (w\<lparr>cancel_capture := True, continuous_mode_is_on := False\<rparr>);
        (r, w2) \<leftarrow> DeleteSnapshotStream E False w1;
        w3 \<leftarrow> ResumeActiveStreams E False w2;
        Some (NO_ERROR, w3)
      } else Some (NO_ERROR, w))"

definition CloseCamera :: "context_env \<Rightarrow> int \<Rightarrow> camera_context \<Rightarrow> (int \<times> camera_context) option" where
  "CloseCamera E cam w =
     (if camera_id w \<noteq> cam \<or> \<not> camera_device w then None
      else do {
        (r, w1) \<leftarrow> DeleteSnapshotStream E False w;
        if streaming_request_id w1 > 0 then Some (INVALID_OPERATION, w1)
        else do {
          w2 \<leftarrow> must E D_wait_idle w1;
          Some (NO_ERROR, w2\<lparr>last_frame_number := NO_IN_FLIGHT_REPEATING_FRAMES, camera_device := False\<rparr>)
        }
      })"

section \<open>Opening\<close>

definition CameraContext :: camera_context where
  "CameraContext =
     \<lparr>camera_id = -1, camera_device = False, static_meta = [], stream_prepared = [], streaming_request_id = -1,
      capture_request_id = -1, last_frame_number_map = [], removed_stream_ids = [],
      last_frame_number = NO_IN_FLIGHT_REPEATING_FRAMES, snapshot_request = no_request, capture_cnt = 0, cancel_capture = False,
      result_cb = False, error_cb = False, supported_fps = [], ports = [], snapshot_buffer_list = [],
      snapshot_buffer_stream_list = [], hfr_supported = False, hfr_batch_modes_list = [], streaming_active_requests = [],
      batch_stream_id = -1, aec_state = AE_INACTIVE, aec_time = -1, partial_results = 0,
      snapshot_param = \<lparr>sn_width = 0, sn_height = 0, sn_quality = 95, sn_format = kBLOB\<rparr>, snapshot_type = kVideo,
      new_snapshot_type = kVideo, raw_snapshot_format = kRAW10, jpeg_input_format = kUnsupported,
      new_jpeg_input_format = kUnsupported, exif_en = True, thumbnails = [], snapshot_stream_param = zero_stream_param,
      restart_pipe = True, reconfig_pipe = False, port_paused = False, stopped_stream_ids = [],
      camera_parameters = \<lparr>is_partial_metadata_enabled = False, frame_rate = 30, batch_size = 1, cp_feature_flags = 0\<rparr>,
      continuous_mode_is_on = False, clog = []\<rparr>"

fun constant_rates :: "int list \<Rightarrow> int list" where
  "constant_rates (a # b # r) = (if a = b then a # constant_rates r else constant_rates r)"
| "constant_rates _ = []"

definition InitSupportedFPS :: "context_env \<Rightarrow> tag \<Rightarrow> camera_context \<Rightarrow> camera_context" where
  "InitSupportedFPS E ranges w =
     (case md_find (cmeta E) (static_meta w) ranges of
        Some r \<Rightarrow> w\<lparr>supported_fps := supported_fps w @ constant_rates r\<rparr>
      | None \<Rightarrow> w)"

text \<open>Entries of five: width, height, lowest and highest rate, batch size. Only constant rates are kept.\<close>

fun constant_modes :: "int list \<Rightarrow> HFRMode list" where
  "constant_modes (a # b # lo # hi # n # r) =
     (if (word_of_int lo :: u32) = word_of_int hi
      then \<lparr>hfr_width = word_of_int a, hfr_height = word_of_int b, hfr_batch_size = word_of_int n, hfr_framerate = word_of_int lo\<rparr>
             # constant_modes r
      else constant_modes r)"
| "constant_modes _ = []"

definition InitHFRModes :: "context_env \<Rightarrow> tag \<Rightarrow> int \<Rightarrow> camera_context \<Rightarrow> camera_context" where
  "InitHFRModes E configs high_speed w =
     (let caps = (case md_find (cmeta E) (static_meta w) ANDROID_REQUEST_AVAILABLE_CAPABILITIES of Some c \<Rightarrow> c | None \<Rightarrow> []);
          w1 = (if high_speed \<in> set caps then w\<lparr>hfr_supported := True\<rparr> else w)
      in if \<not> hfr_supported w1 then w1
         else w1\<lparr>hfr_batch_modes_list := hfr_batch_modes_list w1 @
                (case md_find (cmeta E) (static_meta w1) configs of Some c \<Rightarrow> constant_modes c | None \<Rightarrow> [])\<rparr>)"

text \<open>The extra parameters of a camera: each tag may have several entries, of which there must be one.\<close>

record CameraExtra =
  x_hdr :: "bool list option"
  x_sensor_mode :: "int list option"
  x_eis :: "bool list option"
  x_ldc :: "bool list option"
  x_partial :: "bool list option"

definition one_entry :: "'a list option \<Rightarrow> ('a \<Rightarrow> CameraParameters \<Rightarrow> CameraParameters) \<Rightarrow> bool \<times> CameraParameters \<Rightarrow>
    bool \<times> CameraParameters" where
  "one_entry x f s =
     (case s of (ok, c) \<Rightarrow>
        if \<not> ok then s
        else case x of None \<Rightarrow> s | Some [v] \<Rightarrow> (True, f v c) | Some _ \<Rightarrow> (False, c))"

definition add_flag :: "u32 \<Rightarrow> bool \<Rightarrow> CameraParameters \<Rightarrow> CameraParameters" where
  "add_flag n on c = (if on then c\<lparr>cp_feature_flags := cp_feature_flags c OR n\<rparr> else c)"

definition force_mode :: "int \<Rightarrow> CameraParameters \<Rightarrow> CameraParameters" where
  "force_mode m c =
     (if m \<ge> 0 then c\<lparr>cp_feature_flags := cp_feature_flags c OR (push_bit 16 (word_of_int (m + 1)) OR 8)\<rparr> else c)"

definition parse_extra :: "CameraExtra \<Rightarrow> CameraParameters \<Rightarrow> bool \<times> CameraParameters" where
  "parse_extra x c =
     one_entry (x_partial x) (\<lambda>on c. if on then c\<lparr>is_partial_metadata_enabled := True\<rparr> else c)
       (one_entry (x_ldc x) (add_flag 4)
         (one_entry (x_eis x) (add_flag 1)
           (one_entry (x_sensor_mode x) force_mode (one_entry (x_hdr x) (add_flag 2) (True, c)))))"

abbreviation (input) TEMPLATE_STILL_CAPTURE :: int where "TEMPLATE_STILL_CAPTURE \<equiv> 2"

text \<open>\<open>ranges\<close>, \<open>configs\<close> and \<open>high_speed\<close> are the platform's names of two tags and of a capability.\<close>

definition OpenCamera :: "context_env \<Rightarrow> tag \<Rightarrow> tag \<Rightarrow> int \<Rightarrow> u32 \<Rightarrow> int \<Rightarrow> CameraExtra \<Rightarrow> bool \<Rightarrow> bool \<Rightarrow> camera_context \<Rightarrow>
    (int \<times> camera_context) option" where
  "OpenCamera E ranges configs high_speed cam rate x cb errcb w =
     (case parse_extra x \<lparr>is_partial_metadata_enabled = False, frame_rate = rate, batch_size = 1, cp_feature_flags = 0\<rparr> of
        (ok, c) \<Rightarrow>
          let w1 = w\<lparr>camera_parameters := c\<rparr>
          in if \<not> ok then Some (BAD_VALUE, w1)
             else case call E D_initialize (w1\<lparr>camera_device := True\<rparr>) of
               (r, w2) \<Rightarrow>
                 if r \<noteq> NO_ERROR then Some (r, w2\<lparr>camera_device := False\<rparr>)
                 else do {
                   w3 \<leftarrow> must E (D_open cam) w2;
                   w4 \<leftarrow> must E (D_info cam) (w3\<lparr>camera_id := uint cam\<rparr>);
                   let md = (case flush_restart_tag E of Some t \<Rightarrow> md_update (cmeta E) (camera_info E cam) t [0] | None \<Rightarrow> camera_info E cam);
                   let w5 = InitSupportedFPS E ranges (w4\<lparr>static_meta := md\<rparr>);
                   w6 \<leftarrow> (if supported_fps w5 = [] then None else Some (InitHFRModes E configs high_speed w5));
                   let w7 = (case md_find (cmeta E) (static_meta w6) ANDROID_REQUEST_PARTIAL_RESULT_COUNT of
                               Some (n # _) \<Rightarrow> w6\<lparr>partial_results := n\<rparr> | _ \<Rightarrow> w6);
                   (q, w8) \<leftarrow> CreateCaptureRequest E TEMPLATE_STILL_CAPTURE (snapshot_request w7) w7;
                   Some (NO_ERROR, w8\<lparr>snapshot_request := q, result_cb := cb, error_cb := errcb\<rparr>)
                 })"

end
