(* ===== verification/Camera_Context_Props.thy ===== *)
theory Camera_Context_Props
  imports Camera_Snapshot
begin

text \<open>
  Which streams a camera runs. What matters for it is the view of a context: for every port its
  stream, its state and its batch size, the request kept, its id, and the request the device repeats,
  which the log tells. The callbacks leave the view alone.
\<close>

section \<open>The view\<close>

definition running_after :: "Camera3Request list \<Rightarrow> device_call \<Rightarrow> Camera3Request list" where
  "running_after rs c = (case c of D_submit qs streaming \<Rightarrow> if streaming then qs else rs | D_flush \<Rightarrow> [] | _ \<Rightarrow> rs)"

text \<open>The request list the device repeats after the calls of a log.\<close>

definition running :: "device_call list \<Rightarrow> Camera3Request list" where
  "running cs = foldl running_after [] cs"

lemma running_append [simp]: "running (cs @ ds) = foldl running_after (running cs) ds"
  by (simp add: running_def)

lemma running_after_simps [simp]:
  "running_after rs (D_submit qs True) = qs" "running_after rs (D_submit qs False) = rs" "running_after rs D_flush = []"
  "running_after rs D_wait_idle = rs" "running_after rs (D_return b) = rs" "running_after rs (To_snapshot_cb n b) = rs"
  "running_after rs (To_result_cb md) = rs" "running_after rs (To_error_cb e) = rs" "running_after rs D_begin = rs"
  "running_after rs (D_end c w z m f) = rs" "running_after rs (D_create p) = rs" "running_after rs (D_prepare i) = rs"
  "running_after rs (D_delete i x) = rs" "running_after rs (D_default i) = rs" "running_after rs D_end_default = rs"
  by (simp_all add: running_after_def)

type_synonym port_tag = "int \<times> PortState \<times> nat \<times> bool"

definition port_tag :: "port \<Rightarrow> port_tag" where
  "port_tag p = (camera_stream_id p, port_state p, batch_size (port_camera_parameters p), ready_to_start p)"

abbreviation tags_of :: "(u32, port) kv \<Rightarrow> (u32, port_tag) kv" where
  "tags_of ps \<equiv> map (\<lambda>(k, p). (k, port_tag p)) ps"

definition view :: "camera_context \<Rightarrow> (u32, port_tag) kv \<times> Camera3Request list \<times> int \<times> Camera3Request list" where
  "view w = (tags_of (ports w), streaming_active_requests w, streaming_request_id w, running (clog w))"

lemma view_set_port:
  "(\<And>p. port_tag (f p) = port_tag p) \<Longrightarrow> view (set_port k f w) = view w"
  by (simp add: view_def set_port_def case_prod_beta)

lemma view_set_known:
  "kv_wf (ports w) \<Longrightarrow> GetPort k w = Some p \<Longrightarrow> port_tag q = port_tag p \<Longrightarrow> view (set_port k (\<lambda>_. q) w) = view w"
proof -
  assume p: "kv_wf (ports w)" "GetPort k w = Some p" "port_tag q = port_tag p"
  have "b = p" if "(k, b) \<in> set (ports w)" for b
    using that p(1,2) kv_wf_distinct [OF p(1)] by (simp add: GetPort_def)
  then show ?thesis using p(3) by (auto simp: view_def set_port_def)
qed

lemma must_view: "must E c w = Some w1 \<Longrightarrow> running_after (running (clog w)) c = running (clog w) \<Longrightarrow> view w1 = view w \<and> ports w1 = ports w"
  by (auto simp: must_def call_def view_def split: if_splits)

lemma ReturnStreamBuffer_view: "ReturnStreamBuffer E b w = Some w1 \<Longrightarrow> view w1 = view w \<and> ports w1 = ports w"
  by (auto simp: ReturnStreamBuffer_def Let_def bind_eq_Some_conv view_def must_def call_def split: if_splits)

lemma return_buffers_view: "return_buffers E bs w = Some w1 \<Longrightarrow> view w1 = view w \<and> ports w1 = ports w"
  by (induction bs arbitrary: w) (auto simp: bind_eq_Some_conv dest: ReturnStreamBuffer_view)

lemma set_zsl_view: "view (set_zsl z w) = view w"
  unfolding set_zsl_def by (rule view_set_port) (simp add: port_tag_def)

lemma StreamCallback_view:
  assumes "kv_wf (ports w)" "StreamCallback E prompt k b w = Some (cs, w1)"
  shows "view w1 = view w"
proof -
  obtain p p1 ok where p: "GetPort k w = Some p" "exposed p b w = (p1, ok)" "b_stream_id b = camera_stream_id p"
    using assms(2) by (auto simp: StreamCallback_def bind_eq_Some_conv split: if_splits prod.splits)
  have t: "port_tag p1 = port_tag p" "port_tag (p1\<lparr>port_producer := q\<rparr>) = port_tag p" for q
    using p(2) by (auto simp: exposed_def port_tag_def Let_def split: if_splits)
  show ?thesis using assms(2) p t [THEN view_set_known [OF assms(1) p(1)]]
    by (auto simp: StreamCallback_def split: if_splits prod.splits dest!: ReturnStreamBuffer_view)
qed

lemma forget_frame_view: "view (forget_frame n i w) = view w"
  by (simp add: forget_frame_def Let_def view_def)

lemma CameraErrorCb_view: "view (CameraErrorCb e x w) = view w"
proof -
  have *: "view (foldl (\<lambda>v i. forget_frame n i v) w is) = view w" for n "is"
    by (induction "is" arbitrary: w) (simp_all add: forget_frame_view)
  have **: "view (w\<lparr>clog := clog w @ [To_error_cb e]\<rparr>) = view w" for w by (simp add: view_def)
  show ?thesis by (simp add: CameraErrorCb_def Let_def * **)
qed

lemma CameraPreparedCb_view: "view (CameraPreparedCb i w) = view w"
  by (simp add: CameraPreparedCb_def view_def)

lemma HandleFinalResult_view:
  assumes "HandleFinalResult E md w = Some w1"
  shows "view w1 = view w"
proof -
  let ?v = "note_exposure E md w"
  have v: "view ?v = view w" by (auto simp: note_exposure_def view_def split: option.splits list.splits)
  obtain u where u: "(if snapshot_type ?v = kZsl then do {
              z \<leftarrow> zsl_port ?v;
              (case HandleZSLCaptureResult (cmeta E) md z of (bs, z1) \<Rightarrow> return_buffers E bs (set_zsl z1 ?v))
            } else Some ?v) = Some u" "w1 = (if result_cb u then u\<lparr>clog := clog u @ [To_result_cb md]\<rparr> else u)"
    using assms by (auto simp: HandleFinalResult_def Let_def bind_eq_Some_conv)
  have "view u = view ?v"
  proof (cases "snapshot_type ?v = kZsl")
    case True
    then obtain z where "(case HandleZSLCaptureResult (cmeta E) md z of (bs, z1) \<Rightarrow> return_buffers E bs (set_zsl z1 ?v)) = Some u"
      using u(1) by (auto simp: bind_eq_Some_conv)
    then show ?thesis by (cases "HandleZSLCaptureResult (cmeta E) md z") (auto dest!: return_buffers_view simp: set_zsl_view)
  qed (use u(1) in simp)
  then show ?thesis using u(2) v by (auto simp: view_def)
qed

lemma CameraResultCb_view: "CameraResultCb E x md w = Some w1 \<Longrightarrow> view w1 = view w"
  by (auto simp: CameraResultCb_def split: if_splits option.splits dest: HandleFinalResult_view)
    (auto simp: view_def)

lemma AddConsumer_view: "kv_wf (ports w) \<Longrightarrow> AddConsumer k c w = Some (r, w1) \<Longrightarrow> view w1 = view w"
  by (auto simp: AddConsumer_def split: option.splits if_splits intro!: view_set_port simp: port_tag_def)

lemma RemoveConsumer_view: "kv_wf (ports w) \<Longrightarrow> RemoveConsumer k c w = Some (r, w1) \<Longrightarrow> view w1 = view w"
  by (auto simp: RemoveConsumer_def split: option.splits if_splits intro!: view_set_port simp: port_tag_def)

lemma ReturnImageCaptureBuffer_view: "ReturnImageCaptureBuffer E i w = Some (r, w1) \<Longrightarrow> view w1 = view w"
  by (auto simp: ReturnImageCaptureBuffer_def Let_def bind_eq_Some_conv must_def call_def view_def split: option.splits if_splits)

lemma SnapshotCaptureCallback_view: "SnapshotCaptureCallback E b w = Some w1 \<Longrightarrow> view w1 = view w"
  by (auto simp: SnapshotCaptureCallback_def Let_def must_def call_def view_def split: if_splits)

section \<open>One update\<close>

text \<open>What a port does to a request of a context whose requests are not batched.\<close>

definition change :: "port \<Rightarrow> Camera3Request \<Rightarrow> Camera3Request" where
  "change p r = (case port_state p of
     PORT_READYTOSTART \<Rightarrow> add_stream (camera_stream_id p) r
   | PORT_READYTOSTOP \<Rightarrow> drop_stream (camera_stream_id p) r
   | _ \<Rightarrow> r)"

definition unbatched :: "(u32, port) kv \<Rightarrow> bool" where
  "unbatched ps \<longleftrightarrow> (\<forall>p \<in> snd ` set ps. batch_size (port_camera_parameters p) = 1)"

lemma drop_absent: "i \<notin> set (c3_streamIds r) \<Longrightarrow> drop_stream i r = r"
  by (simp add: drop_stream_def remove1_idem)

lemma scan_port_one:
  "batch_size (port_camera_parameters p) = 1 \<Longrightarrow> sc_requests s = [r] \<Longrightarrow>
   \<exists>s1. scan_port p s = Some s1 \<and> sc_requests s1 = [change p r]"
  by (auto simp: scan_port_def change_def resize_def Let_def drop_absent split: PortState.splits)

lemma scan_ports_one:
  "unbatched ps \<Longrightarrow> sc_requests s = [r] \<Longrightarrow>
   \<exists>s1. scan_ports ps s = Some s1 \<and> sc_requests s1 = [foldl (\<lambda>r p. change (snd p) r) r ps]"
proof (induction ps arbitrary: r s)
  case (Cons p ps)
  then obtain s1 where "scan_port (snd p) s = Some s1" "sc_requests s1 = [change (snd p) r]"
    using scan_port_one [of "snd p" s r] by (auto simp: unbatched_def)
  with Cons.IH [of s1 "change (snd p) r"] Cons.prems(1) show ?case by (auto simp: unbatched_def)
qed simp

text \<open>The streams of the request follow the ports that are about to start or to stop.\<close>

definition settled :: "PortState \<Rightarrow> bool" where
  "settled s \<longleftrightarrow> s \<notin> {PORT_READYTOSTART, PORT_READYTOSTOP}"

lemma change_settled: "settled (port_state p) \<Longrightarrow> change p r = r"
  by (auto simp: change_def settled_def split: PortState.splits)

lemma changes_settled: "\<forall>x \<in> set ps. settled (port_state (snd x)) \<Longrightarrow> foldl (\<lambda>r p. change (snd p) r) r ps = r"
  by (induction ps) (auto simp: change_settled)

lemma change_one:
  "distinct (kv_keys ps) \<Longrightarrow> kv_find ps k = Some p \<Longrightarrow> \<forall>x \<in> set ps. fst x \<noteq> k \<longrightarrow> settled (port_state (snd x)) \<Longrightarrow>
   foldl (\<lambda>r p. change (snd p) r) r ps = change p r"
proof (induction ps arbitrary: r)
  case (Cons x ps)
  show ?case
  proof (cases "fst x = k")
    case True
    then have "\<forall>y \<in> set ps. fst y \<noteq> k" using Cons.prems(1) by (auto simp: image_iff)
    then have "\<forall>y \<in> set ps. settled (port_state (snd y))" using Cons.prems(3) by simp
    then show ?thesis using True Cons.prems(2) by (cases x) (simp add: changes_settled)
  next
    case False
    then show ?thesis using Cons by (cases x) (simp add: change_settled)
  qed
qed simp

text \<open>Waiting lets callbacks run: they do not touch the view.\<close>

definition waits_keep :: "context_env \<Rightarrow> bool" where
  "waits_keep E \<longleftrightarrow> (\<forall>i w. view (prepare_wait E i w) = view w) \<and> (\<forall>w. \<forall>x \<in> set (pending_waits E w). view (snd x) = view w)"

lemma wait_prepared_view: "waits_keep E \<Longrightarrow> wait_prepared E is w = Some w1 \<Longrightarrow> view w1 = view w"
  by (induction "is" arbitrary: w) (auto simp: Let_def waits_keep_def split: if_splits)

lemma wait_pending_view: "\<forall>x \<in> set ws. view (snd x) = v \<Longrightarrow> view w = v \<Longrightarrow> view (wait_pending ws w) = v"
  by (induction ws w rule: wait_pending.induct) (subst wait_pending.simps, auto split: list.splits)

lemma note_streams_view: "view (note_streams gone fr is w) = view w"
  by (induction "is" arbitrary: w) (simp_all add: note_stream_def view_def Let_def)

lemma submit_streams_view:
  assumes k: "waits_keep E" and r: "streaming_active_requests w = [r]" and run: "submit_streams E s w = Some (e, w1)"
  shows "e = NO_ERROR \<and> (\<exists>r1 i. c3_streamIds r1 = c3_streamIds r \<and> 0 \<le> i \<and> view w1 = (tags_of (ports w), [r1], i, [r1]))"
proof -
  obtain rs where rs: "set_rates (cmeta E) (sc_fps s) [r] = Some rs" using run r by (auto simp: submit_streams_def bind_eq_Some_conv)
  then obtain r1 where r1: "rs = [r1]" "c3_streamIds r1 = c3_streamIds r"
    by (auto simp: set_rates_def set_rate_def Let_def split: if_splits)
  let ?w = "w\<lparr>streaming_active_requests := [r1]\<rparr>"
  obtain w3 where w3: "wait_prepared E (c3_streamIds r1) ?w = Some w3" using run r rs r1(1)
    by (auto simp: submit_streams_def bind_eq_Some_conv split: if_splits)
  obtain i fr w4 where s: "submit E [r1] True w3 = (i, fr, w4)" by (cases "submit E [r1] True w3") auto
  define l where "l = (if fr = NO_IN_FLIGHT_REPEATING_FRAMES then last_frame_number w4 else fr)"
  define w5 where "w5 = note_streams (sc_removed s) l (kv_keys (sc_ids s)) (w4\<lparr>last_frame_number := l, streaming_request_id := i\<rparr>)"
  have e: "e = NO_ERROR" "0 \<le> i" "w1 = wait_pending (pending_waits E w5) w5"
    using run r rs r1(1) w3 s by (auto simp: submit_streams_def w5_def l_def Let_def split: if_splits)
  have "view w4 = (tags_of (ports w), [r1], streaming_request_id w4, [r1])"
    using wait_prepared_view [OF k w3] s by (auto simp: submit_def call_def view_def Let_def)
  then have "view w5 = (tags_of (ports w), [r1], i, [r1])"
    unfolding w5_def note_streams_view by (simp add: view_def)
  then have "view w1 = (tags_of (ports w), [r1], i, [r1])"
    unfolding e(3) using k by (intro wait_pending_view) (auto simp: waits_keep_def)
  with e r1(2) show ?thesis by blast
qed

lemma CancelRequest_view:
  assumes "CancelRequest E w = Some (e, w1)" "streaming_request_id w < 0 \<Longrightarrow> running (clog w) = []"
  shows "e = NO_ERROR \<and> (\<exists>i < 0. view w1 = (tags_of (ports w), streaming_active_requests w, i, []))"
proof (cases "streaming_request_id w < 0 \<and> capture_request_id w < 0")
  case True
  then show ?thesis using assms by (auto simp: CancelRequest_def view_def)
next
  case False
  then have "e = NO_ERROR" "view w1 = (tags_of (ports w), streaming_active_requests w, -1, [])"
    using assms by (auto simp: CancelRequest_def bind_eq_Some_conv must_def call_def view_def aec_Reset_def split: if_splits)
  then show ?thesis by (auto intro: exI [of _ "-1"])
qed

lemma UpdateRequest_view:
  assumes k: "waits_keep E" and r: "streaming_active_requests w = [r]" and u: "unbatched (ports w)"
    and idle: "streaming_request_id w < 0 \<Longrightarrow> running (clog w) = []" and run: "UpdateRequest E w = Some (e, w1)"
  defines "ids \<equiv> c3_streamIds (foldl (\<lambda>r p. change (snd p) r) r (ports w))"
  shows "e = NO_ERROR \<and> (\<exists>r1 i. c3_streamIds r1 = ids \<and>
    view w1 = (tags_of (ports w), [r1], i, if ids = [] then [] else [r1]) \<and> (i < 0 \<longleftrightarrow> ids = []))"
proof -
  let ?r = "foldl (\<lambda>r p. change (snd p) r) r (ports w)"
  obtain s where s: "scan_ports (ports w) \<lparr>sc_requests = streaming_active_requests w, sc_ids = [], sc_removed = [], sc_fps = 0\<rparr> = Some s"
    "sc_requests s = [?r]"
    using scan_ports_one [OF u] r by (metis scan.select_convs(1))
  let ?w = "w\<lparr>streaming_active_requests := [?r]\<rparr>"
  have run1: "(if ids = [] then CancelRequest E ?w else submit_streams E s ?w) = Some (e, w1)"
    using run s by (simp add: UpdateRequest_def drop_stale_def Let_def ids_def)
  show ?thesis
  proof (cases "ids = []")
    case True
    then have "CancelRequest E ?w = Some (e, w1)" using run1 by simp
    from CancelRequest_view [OF this] idle True show ?thesis by (auto simp: ids_def)
  next
    case False
    then have "submit_streams E s ?w = Some (e, w1)" using run1 by simp
    from submit_streams_view [OF k _ this, of ?r] False show ?thesis by (fastforce simp: ids_def)
  qed
qed

end
