(* ===== verification/Camera_Context_Inv.thy ===== *)
theory Camera_Context_Inv
  imports Camera_Context_Props
begin

text \<open>
  The streams an open camera runs are those of its started and paused ports: the invariant, and that
  every call on the streams keeps it. It is for ports that need no batches of requests.
\<close>

section \<open>The invariant\<close>

definition on_air :: "PortState \<Rightarrow> bool" where
  "on_air s \<longleftrightarrow> s = PORT_STARTED \<or> s = PORT_PAUSED"

text \<open>The streams of the ports that are started or paused.\<close>

definition active_streams :: "(u32, port) kv \<Rightarrow> int set" where
  "active_streams ps = {camera_stream_id p | k p. (k, p) \<in> set ps \<and> on_air (port_state p)}"

definition port_ok :: "port_tag \<Rightarrow> bool" where
  "port_ok x = (case x of (i, s, n, ready) \<Rightarrow> n = 1 \<and> settled s \<and> (on_air s \<longleftrightarrow> ready))"

definition on_air_ids :: "(u32, port_tag) kv \<Rightarrow> int set" where
  "on_air_ids ts = {i. \<exists>k s n ready. (k, i, s, n, ready) \<in> set ts \<and> on_air s}"

definition view_ok :: "(u32, port_tag) kv \<times> Camera3Request list \<times> int \<times> Camera3Request list \<Rightarrow> bool" where
  "view_ok v = (case v of (ts, rs, i, run) \<Rightarrow>
     kv_wf ts \<and> distinct (map (fst \<circ> snd) ts) \<and> (\<forall>x \<in> set ts. port_ok (snd x)) \<and>
     (case rs of
        [] \<Rightarrow> ts = [] \<and> i < 0 \<and> run = []
      | [r] \<Rightarrow> distinct (c3_streamIds r) \<and> set (c3_streamIds r) = on_air_ids ts \<and> (i < 0 \<longleftrightarrow> c3_streamIds r = []) \<and>
          map c3_streamIds run = (if c3_streamIds r = [] then [] else [c3_streamIds r])
      | _ \<Rightarrow> False))"

definition context_inv :: "camera_context \<Rightarrow> bool" where
  "context_inv w \<longleftrightarrow> view_ok (view w)"

lemma tags_keys [simp]: "kv_keys (tags_of ps) = kv_keys ps"
  by (simp add: case_prod_beta comp_def)

lemma tags_wf [simp]: "kv_wf (tags_of ps) \<longleftrightarrow> kv_wf ps"
  unfolding kv_wf_def tags_keys ..

lemma on_air_active: "on_air_ids (tags_of ps) = active_streams ps"
  by (force simp: on_air_ids_def active_streams_def port_tag_def)

lemma context_inv_wf: "context_inv w \<Longrightarrow> kv_wf (ports w)"
  by (auto simp: context_inv_def view_ok_def view_def)

lemma context_inv_unbatched: "context_inv w \<Longrightarrow> unbatched (ports w)"
  by (fastforce simp: context_inv_def view_ok_def view_def unbatched_def port_ok_def port_tag_def)

text \<open>Changing the state of one port.\<close>

definition retag :: "u32 \<Rightarrow> (port_tag \<Rightarrow> port_tag) \<Rightarrow> (u32, port_tag) kv \<Rightarrow> (u32, port_tag) kv" where
  "retag k g ts = map (\<lambda>(j, t). (j, if j = k then g t else t)) ts"

lemma tags_set_port: "(\<And>p. port_tag (f p) = g (port_tag p)) \<Longrightarrow> tags_of (ports (set_port k f w)) = retag k g (tags_of (ports w))"
  by (auto simp: set_port_def retag_def)

lemma retag_retag: "retag k g (retag k h ts) = retag k (g \<circ> h) ts"
  by (auto simp: retag_def)

lemma retag_cong: "(\<And>x. (k, x) \<in> set ts \<Longrightarrow> g x = h x) \<Longrightarrow> retag k g ts = retag k h ts"
  by (auto simp: retag_def)

lemma retag_keys [simp]: "kv_wf (retag k g ts) \<longleftrightarrow> kv_wf ts"
  by (simp add: kv_wf_def retag_def case_prod_beta comp_def)

definition put :: "PortState \<Rightarrow> bool \<Rightarrow> port_tag \<Rightarrow> port_tag" where
  "put s ready x = (case x of (i, _, n, _) \<Rightarrow> (i, s, n, ready))"

lemma put_simp [simp]: "put s b (i, t, n, c) = (i, s, n, b)"
  by (simp add: put_def)

lemma retag_simps [simp]: "retag k g [] = []" "retag k g ((j, x) # ts) = (j, if j = k then g x else x) # retag k g ts"
  by (simp_all add: retag_def)

lemma retag_ids [simp]: "map (fst \<circ> snd) (retag k (put s b) ts) = map (fst \<circ> snd) ts"
  by (auto simp: retag_def put_def)

lemma retag_absent: "k \<notin> fst ` set ts \<Longrightarrow> retag k g ts = ts"
  by (induction ts) (auto simp: retag_def)

lemma on_air_simps [simp]:
  "on_air_ids [] = {}"
  "on_air_ids ((j, i, s, n, b) # ts) = (if on_air s then insert i (on_air_ids ts) else on_air_ids ts)"
  by (auto simp: on_air_ids_def)

lemma on_air_within: "on_air_ids ts \<subseteq> set (map (fst \<circ> snd) ts)"
  by (force simp: on_air_ids_def)

lemma on_air_retag:
  "distinct (kv_keys ts) \<Longrightarrow> distinct (map (fst \<circ> snd) ts) \<Longrightarrow> kv_find ts k = Some (i, t) \<Longrightarrow>
   on_air_ids (retag k (put s b) ts) = (if on_air s then insert i (on_air_ids ts) else on_air_ids ts - {i})"
proof (induction ts)
  case (Cons x ts)
  obtain j l u n r where x: "x = (j, l, u, n, r)" by (metis surj_pair)
  show ?case
  proof (cases "j = k")
    case True
    then have "retag k (put s b) ts = ts" "i \<notin> on_air_ids ts" "l = i"
      using Cons.prems x on_air_within [of ts] by (auto intro!: retag_absent)
    then show ?thesis using True x by auto
  next
    case False
    have "i \<in> set (map (fst \<circ> snd) ts)" using Cons.prems(3) False x by (force dest!: map_of_SomeD)
    then have "i \<noteq> l" using Cons.prems(2) x by auto
    then show ?thesis using False Cons x by auto
  qed
qed simp

lemma put_ok: "port_ok x \<Longrightarrow> settled s \<Longrightarrow> (on_air s \<longleftrightarrow> b) \<Longrightarrow> port_ok (put s b x)"
  by (cases x) (simp add: port_ok_def)

lemma retag_ok: "\<forall>x \<in> set ts. port_ok (snd x) \<Longrightarrow> settled s \<Longrightarrow> (on_air s \<longleftrightarrow> b) \<Longrightarrow> \<forall>x \<in> set (retag k (put s b) ts). port_ok (snd x)"
  by (force simp: retag_def intro: put_ok simp del: put_simp)

lemma GetPort_set_port: "GetPort j (set_port k f w) = (if j = k then map_option f (GetPort k w) else GetPort j w)"
proof -
  have "kv_find (map (\<lambda>(i, p). (i, if i = k then f p else p)) ps) j = (if j = k then map_option f (kv_find ps k) else kv_find ps j)" for ps
    by (induction ps) auto
  then show ?thesis by (simp add: GetPort_def set_port_def)
qed

lemma context_inv_port:
  assumes "context_inv w" "GetPort k w = Some p"
  obtains r where "streaming_active_requests w = [r]" "kv_wf (tags_of (ports w))" "distinct (map (fst \<circ> snd) (tags_of (ports w)))"
    "\<forall>x \<in> set (tags_of (ports w)). port_ok (snd x)" "distinct (c3_streamIds r)" "set (c3_streamIds r) = on_air_ids (tags_of (ports w))"
    "streaming_request_id w < 0 \<longleftrightarrow> c3_streamIds r = []"
    "map c3_streamIds (running (clog w)) = (if c3_streamIds r = [] then [] else [c3_streamIds r])"
    "kv_find (tags_of (ports w)) k = Some (port_tag p)"
proof -
  have "ports w \<noteq> []" using assms(2) by (auto simp: GetPort_def)
  moreover have "kv_find (tags_of (ports w)) k = Some (port_tag p)" using assms(2) by (simp add: GetPort_def map_of_map)
  ultimately show thesis using assms(1) that unfolding context_inv_def view_ok_def view_def
    by (auto split: list.splits)
qed

text \<open>A port that is about to start or to stop, the update, and the port's new state.\<close>

definition turn :: "bool \<Rightarrow> port \<Rightarrow> port" where
  "turn b p = p\<lparr>ready_to_start := b, aec_converged := False, port_state := (if b then PORT_READYTOSTART else PORT_READYTOSTOP)\<rparr>"

definition turned :: "bool \<Rightarrow> port \<Rightarrow> port" where
  "turned b p = p\<lparr>port_state := (if b then PORT_STARTED else PORT_STOPPED)\<rparr>"

lemma turned_change:
  assumes inv: "context_inv w" and p: "GetPort k w = Some p"
  shows "foldl (\<lambda>r p. change (snd p) r) r (ports (set_port k (turn b) w)) = change (turn b p) r"
proof (rule change_one)
  let ?w = "set_port k (turn b) w"
  show "distinct (kv_keys (ports ?w))" using kv_wf_distinct [OF context_inv_wf [OF inv]]
    by (simp add: set_port_def case_prod_beta comp_def)
  show "kv_find (ports ?w) k = Some (turn b p)" using p GetPort_set_port [of k k "turn b" w] by (simp add: GetPort_def)
  have "\<forall>x \<in> set (tags_of (ports w)). port_ok (snd x)" using inv by (simp add: context_inv_def view_ok_def view_def)
  then show "\<forall>x \<in> set (ports ?w). fst x \<noteq> k \<longrightarrow> settled (port_state (snd x))"
    by (fastforce simp: set_port_def port_ok_def port_tag_def)
qed

lemma turned_stream:
  assumes inv: "context_inv w" and k: "waits_keep E" and p: "GetPort k w = Some p"
    and run: "UpdateRequest E (set_port k (turn b) w) = Some (e, w1)"
  shows "e = NO_ERROR \<and> context_inv (set_port k (turned b) w1) \<and>
    active_streams (ports (set_port k (turned b) w1)) =
      (if b then insert (camera_stream_id p) else (\<lambda>A. A - {camera_stream_id p})) (active_streams (ports w))"
proof -
  obtain r where c: "streaming_active_requests w = [r]" "kv_wf (tags_of (ports w))" "distinct (map (fst \<circ> snd) (tags_of (ports w)))"
    "\<forall>x \<in> set (tags_of (ports w)). port_ok (snd x)" "distinct (c3_streamIds r)" "set (c3_streamIds r) = on_air_ids (tags_of (ports w))"
    "streaming_request_id w < 0 \<longleftrightarrow> c3_streamIds r = []"
    "map c3_streamIds (running (clog w)) = (if c3_streamIds r = [] then [] else [c3_streamIds r])"
    "kv_find (tags_of (ports w)) k = Some (port_tag p)"
    by (rule context_inv_port [OF inv p])
  let ?w = "set_port k (turn b) w" and ?r = "(if b then add_stream else drop_stream) (camera_stream_id p) r"
  have u: "unbatched (ports ?w)" using context_inv_unbatched [OF inv] by (auto simp: unbatched_def set_port_def turn_def)
  have "foldl (\<lambda>r p. change (snd p) r) r (ports ?w) = change (turn b p) r" by (rule turned_change [OF inv p])
  then have ch: "foldl (\<lambda>r p. change (snd p) r) r (ports ?w) = ?r" by (simp add: change_def turn_def)
  have "streaming_active_requests ?w = [r]" "streaming_request_id ?w < 0 \<Longrightarrow> running (clog ?w) = []" using c by (auto simp: set_port_def)
  note up = UpdateRequest_view [OF k this(1) u this(2) run]
  then obtain r1 i where v: "e = NO_ERROR" "c3_streamIds r1 = c3_streamIds ?r"
    "view w1 = (tags_of (ports ?w), [r1], i, if c3_streamIds ?r = [] then [] else [r1])" "i < 0 \<longleftrightarrow> c3_streamIds ?r = []"
    unfolding ch by blast
  have t1: "tags_of (ports w1) = retag k (put (if b then PORT_READYTOSTART else PORT_READYTOSTOP) b) (tags_of (ports w))"
    using v(3) tags_set_port [of "turn b" "put (if b then PORT_READYTOSTART else PORT_READYTOSTOP) b" k w]
    by (simp add: view_def turn_def port_tag_def)
  let ?s = "if b then PORT_STARTED else PORT_STOPPED"
  have "tags_of (ports (set_port k (turned b) w1)) = retag k (\<lambda>(i, s, n, c). (i, ?s, n, c)) (tags_of (ports w1))"
    by (rule tags_set_port) (simp add: turned_def port_tag_def)
  then have t2: "tags_of (ports (set_port k (turned b) w1)) = retag k (put ?s b) (tags_of (ports w))"
    unfolding t1 by (simp add: retag_retag) (simp add: retag_def put_def case_prod_beta)
  obtain st where st: "port_tag p = (camera_stream_id p, st)" by (simp add: port_tag_def)
  have a: "on_air_ids (retag k (put ?s b) (tags_of (ports w))) =
      (if b then insert (camera_stream_id p) else (\<lambda>A. A - {camera_stream_id p})) (on_air_ids (tags_of (ports w)))"
    using on_air_retag [OF kv_wf_distinct [OF c(2)] c(3)] c(9) st by (auto simp: on_air_def)
  then have "on_air_ids (retag k (put ?s b) (tags_of (ports w))) = set (c3_streamIds ?r)"
    using c(5,6) by (auto simp: add_stream_def drop_stream_def)
  moreover have "active_streams (ports (set_port k (turned b) w1)) =
      (if b then insert (camera_stream_id p) else (\<lambda>A. A - {camera_stream_id p})) (active_streams (ports w))"
    using a t2 on_air_active by metis
  moreover have "distinct (c3_streamIds ?r)" using c(5) by (simp add: add_stream_def drop_stream_def)
  moreover have "\<forall>x \<in> set (retag k (put ?s b) (tags_of (ports w))). port_ok (snd x)"
    by (rule retag_ok [OF c(4)]) (auto simp: settled_def on_air_def)
  moreover have "view (set_port k (turned b) w1) =
      (retag k (put ?s b) (tags_of (ports w)), [r1], i, if c3_streamIds ?r = [] then [] else [r1])"
    using v(3) t2 by (simp add: view_def set_port_def)
  ultimately show ?thesis using c(2,3) v(1,2,4) by (auto simp: context_inv_def view_ok_def)
qed

section \<open>Every call keeps it\<close>

lemma StartStream_inv:
  assumes "context_inv w" "waits_keep E" "StartStream E k w = Some (e, w1)"
  shows "context_inv w1"
proof (cases "GetPort k w")
  case (Some p)
  show ?thesis
  proof (cases "port_state p = PORT_STARTED")
    case False
    then obtain e2 w2 where u: "UpdateRequest E (set_port k (turn True) w) = Some (e2, w2)"
      using assms(3) Some by (auto simp: StartStream_def on_port_def port_Start_def turn_def [abs_def] bind_eq_Some_conv)
    have "e2 = NO_ERROR" "context_inv (set_port k (turned True) w2)" using turned_stream [OF assms(1,2) Some u] by simp_all
    then show ?thesis using assms(3) Some False u
      by (simp add: StartStream_def on_port_def port_Start_def turn_def [abs_def] turned_def [abs_def])
  qed (use assms Some in \<open>simp add: StartStream_def on_port_def port_Start_def\<close>)
qed (use assms in \<open>simp add: StartStream_def on_port_def\<close>)

lemma StopStream_inv:
  assumes "context_inv w" "waits_keep E" "StopStream E k w = Some (e, w1)"
  shows "context_inv w1"
proof (cases "GetPort k w")
  case (Some p)
  show ?thesis
  proof (cases "port_state p = PORT_CREATED")
    case False
    then obtain e2 w2 where u: "UpdateRequest E (set_port k (turn False) w) = Some (e2, w2)"
      using assms(3) Some by (auto simp: StopStream_def on_port_def port_Stop_def turn_def [abs_def] bind_eq_Some_conv)
    have "e2 = NO_ERROR" "context_inv (set_port k (turned False) w2)" using turned_stream [OF assms(1,2) Some u] by simp_all
    then show ?thesis using assms(3) Some False u
      by (simp add: StopStream_def on_port_def port_Stop_def turn_def [abs_def] turned_def [abs_def])
  qed (use assms Some in \<open>simp add: StopStream_def on_port_def port_Stop_def\<close>)
qed (use assms in \<open>simp add: StopStream_def on_port_def\<close>)

text \<open>A port on air that stays on air.\<close>

lemma set_on_air_inv:
  assumes inv: "context_inv w" and p: "GetPort k w = Some p" and s: "on_air (port_state p)" "on_air s"
  shows "context_inv (set_port k (\<lambda>p. p\<lparr>port_state := s\<rparr>) w)"
proof -
  obtain r where c: "streaming_active_requests w = [r]" "kv_wf (tags_of (ports w))" "distinct (map (fst \<circ> snd) (tags_of (ports w)))"
    "\<forall>x \<in> set (tags_of (ports w)). port_ok (snd x)" "distinct (c3_streamIds r)" "set (c3_streamIds r) = on_air_ids (tags_of (ports w))"
    "streaming_request_id w < 0 \<longleftrightarrow> c3_streamIds r = []"
    "map c3_streamIds (running (clog w)) = (if c3_streamIds r = [] then [] else [c3_streamIds r])"
    "kv_find (tags_of (ports w)) k = Some (port_tag p)"
    by (rule context_inv_port [OF inv p])
  have "port_ok (port_tag p)" using c(4) map_of_SomeD [OF c(9)] by (metis snd_conv)
  then have r: "ready_to_start p" using s(1) by (simp add: port_tag_def port_ok_def)
  have "tags_of (ports (set_port k (\<lambda>p. p\<lparr>port_state := s\<rparr>) w)) = retag k (\<lambda>(i, t, n, c). (i, s, n, c)) (tags_of (ports w))"
    by (rule tags_set_port) (simp add: port_tag_def)
  also have "\<dots> = retag k (put s True) (tags_of (ports w))"
  proof -
    have eq: "x = port_tag p" if "(k, x) \<in> set (tags_of (ports w))" for x
      using that c(9) kv_wf_distinct [OF c(2)] by (metis map_of_eq_Some_iff option.inject)
    then have "(\<lambda>(i, t, n, c). (i, s, n, c)) x = put s True x" if "(k, x) \<in> set (tags_of (ports w))" for x
      unfolding eq [OF that] using r by (simp add: port_tag_def)
    then show ?thesis by (rule retag_cong)
  qed
  finally have t: "tags_of (ports (set_port k (\<lambda>p. p\<lparr>port_state := s\<rparr>) w)) = retag k (put s True) (tags_of (ports w))" .
  have "camera_stream_id p \<in> on_air_ids (tags_of (ports w))"
    unfolding on_air_active using p s(1) by (force simp: active_streams_def GetPort_def dest: map_of_SomeD)
  moreover obtain st where "port_tag p = (camera_stream_id p, st)" by (simp add: port_tag_def)
  ultimately have "on_air_ids (retag k (put s True) (tags_of (ports w))) = on_air_ids (tags_of (ports w))"
    using on_air_retag [OF kv_wf_distinct [OF c(2)] c(3), of k "camera_stream_id p" st s True] c(9) s(2) by auto
  moreover have "\<forall>x \<in> set (retag k (put s True) (tags_of (ports w))). port_ok (snd x)"
    by (rule retag_ok [OF c(4)]) (use s(2) in \<open>auto simp: settled_def on_air_def\<close>)
  moreover have "view (set_port k (\<lambda>p. p\<lparr>port_state := s\<rparr>) w) = (retag k (put s True) (tags_of (ports w)), [r], streaming_request_id w, running (clog w))"
    using t c(1) by (simp add: view_def set_port_def)
  ultimately show ?thesis using c by (simp add: context_inv_def view_ok_def)
qed

lemma PauseStream_inv: "context_inv w \<Longrightarrow> PauseStream k w = Some (e, w1) \<Longrightarrow> context_inv w1"
  by (auto simp: PauseStream_def on_port_def port_Pause_def bind_eq_Some_conv on_air_def split: option.splits if_splits
      intro!: set_on_air_inv)

lemma ResumeStream_inv: "context_inv w \<Longrightarrow> ResumeStream k w = Some (e, w1) \<Longrightarrow> context_inv w1"
  by (auto simp: ResumeStream_def on_port_def port_Resume_def bind_eq_Some_conv on_air_def split: option.splits if_splits
      intro!: set_on_air_inv)

lemma SetCameraParam_inv:
  assumes "context_inv w" "SetCameraParam E md w = Some (e, w1)"
  shows "context_inv w1"
proof (cases "streaming_active_requests w")
  case (Cons r rs)
  then have r: "streaming_active_requests w = [r]" using assms(1) by (auto simp: context_inv_def view_ok_def view_def split: list.splits)
  define ts where "ts = tags_of (ports w)"
  have v: "view_ok (ts, [r], streaming_request_id w, running (clog w))"
    using assms(1) r by (simp add: context_inv_def view_def ts_def)
  let ?r = "r\<lparr>c3_metadata := md_append (cmeta E) [] md\<rparr>"
  have "view w1 = (ts, [r], streaming_request_id w, running (clog w)) \<or> view w1 = (ts, [?r], streaming_request_id w, running (clog w)) \<or>
    (\<exists>j \<ge> 0. streaming_request_id w \<ge> 0 \<and> view w1 = (ts, [?r], j, [?r]))"
    using assms(2) r by (auto simp: SetCameraParam_def Let_def submit_def call_def view_def ts_def split: if_splits)
  then show ?thesis
  proof (elim disjE exE conjE)
    fix j assume "j \<ge> 0" "streaming_request_id w \<ge> 0" "view w1 = (ts, [?r], j, [?r])"
    then show ?thesis using v by (simp add: context_inv_def view_ok_def)
  qed (use v in \<open>simp_all add: context_inv_def view_ok_def\<close>)
qed (use assms in \<open>simp add: SetCameraParam_def first_metadata_def\<close>)

text \<open>A new stream whose rate needs no batches and whose id no port has.\<close>

definition stream_ids :: "camera_context \<Rightarrow> int set" where
  "stream_ids w = camera_stream_id ` snd ` set (ports w)"

lemma flush_zsl_view: "flush_zsl E w = Some w1 \<Longrightarrow> view w1 = view w"
  by (auto simp: flush_zsl_def split: option.splits if_splits prod.splits dest!: return_buffers_view simp: set_zsl_view)

lemma resume_zsl_view: "view (resume_zsl w) = view w"
  by (simp add: resume_zsl_def set_zsl_view split: option.splits)

lemma configure_end_view: "configure_end E p rate i w = Some w1 \<Longrightarrow> view w1 = view w"
  by (auto simp: configure_end_def Let_def bind_eq_Some_conv must_def call_def view_def split: if_splits)

lemma CreateDeviceStream_view:
  "CreateDeviceStream E p rate cache w = Some (r, i, w1) \<Longrightarrow> view w1 = view w"
proof -
  assume run: "CreateDeviceStream E p rate cache w = Some (r, i, w1)"
  obtain v where v: "flush_zsl E w = Some v" using run by (auto simp: CreateDeviceStream_def bind_eq_Some_conv)
  obtain u where u: "(if streaming_request_id v < 0 \<and> \<not> cache then must E D_begin v else Some v) = Some u"
    using run v by (auto simp: CreateDeviceStream_def bind_eq_Some_conv)
  have vu: "view u = view w" using flush_zsl_view [OF v] u by (auto split: if_splits dest!: must_view)
  obtain j x where x: "call E (D_create p) u = (j, x)" by fastforce
  then have vx: "view x = view w" using vu by (auto simp: call_def view_def)
  consider "w1 = x" | y where "(if streaming_request_id x < 0 \<and> \<not> cache then configure_end E p rate j x else Some x) = Some y"
      "w1 = (if cache then y else resume_zsl y)"
    using run v u x by (auto simp: CreateDeviceStream_def bind_eq_Some_conv Let_def split: if_splits)
  then show ?thesis
  proof cases
    case 2
    then have "view y = view x" by (auto split: if_splits dest!: configure_end_view)
    then show ?thesis using 2(2) vx by (auto simp: resume_zsl_view)
  qed (use vx in simp)
qed

text \<open>The log only grows.\<close>

definition extends :: "camera_context \<Rightarrow> camera_context \<Rightarrow> bool" where
  "extends w v \<longleftrightarrow> (\<exists>cs. clog v = clog w @ cs)"

lemma extends_trans: "extends w v \<Longrightarrow> extends v u \<Longrightarrow> extends w u"
  by (auto simp: extends_def)

lemma extends_set [simp]: "extends w w" "extends (set_port k f w) v = extends w v" "extends (set_zsl z w) v = extends w v"
  by (auto simp: extends_def set_port_def set_zsl_def)

lemma must_extends: "must E c w = Some v \<Longrightarrow> extends w v"
  by (auto simp: must_def call_def extends_def split: if_splits)

lemma ReturnStreamBuffer_extends: "ReturnStreamBuffer E b w = Some v \<Longrightarrow> extends w v"
  by (auto simp: ReturnStreamBuffer_def Let_def bind_eq_Some_conv extends_def must_def call_def split: if_splits)

lemma return_buffers_extends: "return_buffers E bs w = Some v \<Longrightarrow> extends w v"
proof (induction bs arbitrary: w)
  case (Cons b bs)
  then show ?case by (auto simp: bind_eq_Some_conv dest!: ReturnStreamBuffer_extends intro: extends_trans)
qed simp

lemma flush_zsl_extends: "flush_zsl E w = Some v \<Longrightarrow> extends w v"
  by (auto simp: flush_zsl_def split: option.splits if_splits prod.splits dest!: return_buffers_extends)

lemma CreateDeviceStream_id:
  assumes run: "CreateDeviceStream E p rate cache w = Some (NO_ERROR, i, w1)"
  shows "\<exists>cs. i = dev_reply E (clog w @ cs) (D_create p)"
proof -
  obtain v where v: "flush_zsl E w = Some v" using run by (auto simp: CreateDeviceStream_def bind_eq_Some_conv)
  obtain u where u: "(if streaming_request_id v < 0 \<and> \<not> cache then must E D_begin v else Some v) = Some u"
    using run v by (auto simp: CreateDeviceStream_def bind_eq_Some_conv)
  have "extends w u" using flush_zsl_extends [OF v] u by (auto split: if_splits dest: must_extends extends_trans)
  moreover have "i = dev_reply E (clog u) (D_create p)"
    using run v u by (auto simp: CreateDeviceStream_def bind_eq_Some_conv Let_def call_def split: if_splits)
  ultimately show ?thesis by (auto simp: extends_def)
qed

text \<open>A device that gives no stream the id of an open port.\<close>

definition fresh_ids :: "context_env \<Rightarrow> camera_context \<Rightarrow> bool" where
  "fresh_ids E w \<longleftrightarrow> (\<forall>cs p. dev_reply E (clog w @ cs) (D_create p) \<notin> stream_ids w)"

lemma tags_add: "tags_of (kv_add k p ps) = kv_add k (port_tag p) (tags_of ps)"
  by (induction ps) auto

lemma ids_add: "kv_find ts k = None \<Longrightarrow> mset (map (fst \<circ> snd) (kv_add k x ts)) = add_mset (fst x) (mset (map (fst \<circ> snd) ts))"
  by (induction ts) auto

lemma on_air_add:
  "kv_find ts k = None \<Longrightarrow> \<not> on_air s \<Longrightarrow> on_air_ids (kv_add k (i, s, n, b) ts) = on_air_ids ts"
  by (induction ts) (auto split: if_splits)

lemma set_kv_add: "kv_find m k = None \<Longrightarrow> set (kv_add k v m) = insert (k, v) (set m)"
  by (induction m) (auto split: if_splits)

lemma add_port_ok:
  assumes "view_ok (ts, [r], j, run)" "kv_find ts k = None" "i \<notin> fst ` snd ` set ts"
  shows "view_ok (kv_add k (i, PORT_CREATED, 1, False) ts, [r], j, run)"
proof -
  have "distinct (map (fst \<circ> snd) (kv_add k (i, PORT_CREATED, 1, False) ts))"
  proof -
    have "mset (map (fst \<circ> snd) (kv_add k (i, PORT_CREATED, 1, False) ts)) = mset (i # map (fst \<circ> snd) ts)"
      using ids_add [OF assms(2), of "(i, PORT_CREATED, 1, False)"] by simp
    moreover have "distinct (i # map (fst \<circ> snd) ts)" using assms(1,3) by (auto simp: view_ok_def image_comp)
    ultimately show ?thesis by (metis mset_eq_imp_distinct_iff)
  qed
  moreover have "\<forall>x \<in> set (kv_add k (i, PORT_CREATED, 1, False) ts). port_ok (snd x)"
    using assms(1) by (auto simp: set_kv_add [OF assms(2)] view_ok_def port_ok_def settled_def on_air_def)
  moreover have "on_air_ids (kv_add k (i, PORT_CREATED, 1, False) ts) = on_air_ids ts"
    by (rule on_air_add [OF assms(2)]) (simp add: on_air_def)
  ultimately show ?thesis using assms(1) by (simp add: view_ok_def)
qed

lemma GetBatchSize_view: "GetBatchSize E p w = (x, w1) \<Longrightarrow> view w1 = view w \<and> clog w1 = clog w"
  by (auto simp: GetBatchSize_def Let_def view_def split: if_splits option.splits)

lemma GetBatchSize_one: "sp_framerate p < batch_threshold E \<Longrightarrow> GetBatchSize E p w = ((NO_ERROR, n), w1) \<Longrightarrow> n = 1"
  by (auto simp: GetBatchSize_def Let_def split: if_splits)

lemma stream_ids_tags: "stream_ids w = fst ` snd ` set (tags_of (ports w))"
  by (force simp: stream_ids_def port_tag_def)

lemma stream_ids_view: "view v = view w \<Longrightarrow> stream_ids v = stream_ids w"
  unfolding stream_ids_tags view_def by (metis fst_conv)

lemma port_Init_view: "port_Init E c w = Some (r, q, w1) \<Longrightarrow> view w1 = view w"
  by (auto simp: port_Init_def bind_eq_Some_conv split: if_splits dest!: CreateDeviceStream_view)

lemma port_Init_tag:
  assumes "port_Init E c w = Some (NO_ERROR, q, w1)" "fresh_ids E w"
  shows "port_tag q = (camera_stream_id q, PORT_CREATED, batch_size (port_camera_parameters c), ready_to_start c)"
    "camera_stream_id q \<notin> stream_ids w"
proof -
  obtain i where q: "q = c\<lparr>camera_stream_id := i, port_state := PORT_CREATED\<rparr>"
    and "CreateDeviceStream E (stream_parameters (port_params c) (port_camera_parameters c))
           (word_of_int \<lfloor>sp_framerate (port_params c)\<rfloor>) False w = Some (NO_ERROR, i, w1)"
    using assms(1) by (auto simp: port_Init_def bind_eq_Some_conv split: if_splits)
  then show "camera_stream_id q \<notin> stream_ids w" using assms(2) CreateDeviceStream_id by (fastforce simp: fresh_ids_def)
  show "port_tag q = (camera_stream_id q, PORT_CREATED, batch_size (port_camera_parameters c), ready_to_start c)"
    using q by (simp add: port_tag_def)
qed

text \<open>Before the first stream there is no request; the first request has no stream.\<close>

lemma first_request:
  assumes "view_ok (ts, rs, j, run)" "rs' = rs \<or> rs = [] \<and> (\<exists>md. rs' = [\<lparr>c3_metadata = md, c3_streamIds = []\<rparr>])"
  shows "view_ok (ts, rs', j, run)"
  using assms by (auto simp: view_ok_def)

lemma register_port_inv:
  assumes inv: "context_inv w" and q: "port_tag q = (i, PORT_CREATED, 1, False)" "i \<notin> stream_ids w"
    and run: "register_port E p q w = Some (e, w1)"
  shows "context_inv w1"
proof -
  let ?v = "w\<lparr>stream_prepared := kv_add (camera_stream_id q) (\<not> static_mem_alloc E) (stream_prepared w)\<rparr>"
  obtain u where u: "(if static_mem_alloc E then must E (D_prepare (camera_stream_id q)) ?v else Some ?v) = Some u"
    using run by (auto simp: register_port_def Let_def bind_eq_Some_conv)
  have vu: "view u = view w" using u by (auto simp: must_def call_def view_def split: if_splits)
  let ?u = "StoreBatchStreamId q u"
  have vs: "view ?u = view w" using vu by (simp add: StoreBatchStreamId_def view_def)
  obtain y where y: "(if streaming_active_requests ?u = []
      then map_option (\<lambda>(rq, x). x\<lparr>streaming_active_requests := [rq]\<rparr>) (CreateCaptureRequest E TEMPLATE_VIDEO_RECORD no_request ?u)
      else Some ?u) = Some y"
    "w1 = (if kv_find (ports y) (sp_id p) = None then y\<lparr>ports := kv_add (sp_id p) q (ports y)\<rparr> else y)"
    using run u by (auto simp: register_port_def Let_def bind_eq_Some_conv)
  define ts where "ts = tags_of (ports w)"
  have w: "view w = (ts, streaming_active_requests w, streaming_request_id w, running (clog w))" by (simp add: view_def ts_def)
  obtain r where r: "view y = (ts, [r], streaming_request_id w, running (clog w))"
    "[r] = streaming_active_requests w \<or> streaming_active_requests w = [] \<and> (\<exists>md. [r] = [\<lparr>c3_metadata = md, c3_streamIds = []\<rparr>])"
  proof (cases "streaming_active_requests w")
    case Nil
    then show thesis using y(1) vs that [of "\<lparr>c3_metadata = default_request E TEMPLATE_VIDEO_RECORD, c3_streamIds = []\<rparr>"]
      by (auto simp: view_def ts_def CreateCaptureRequest_def bind_eq_Some_conv must_def call_def split: if_splits)
  next
    case (Cons r rs)
    then have "rs = []" using inv by (auto simp: context_inv_def view_ok_def view_def split: list.splits)
    then show thesis using y(1) vs that [of r] Cons by (auto simp: view_def ts_def split: if_splits)
  qed
  have "view_ok (ts, streaming_active_requests w, streaming_request_id w, running (clog w))" using inv w by (simp add: context_inv_def)
  then have ok: "view_ok (view y)" unfolding r(1) using r(2) by (rule first_request)
  show ?thesis
  proof (cases "kv_find (ports y) (sp_id p)")
    case None
    have ty: "tags_of (ports y) = ts" using r(1) by (simp add: view_def)
    have "kv_find (tags_of (ports y)) (sp_id p) = None" using None by (simp add: map_of_map)
    then have "kv_find ts (sp_id p) = None" unfolding ty .
    moreover have "i \<notin> fst ` snd ` set ts" using q(2) by (simp add: stream_ids_tags ts_def)
    ultimately have "view_ok (kv_add (sp_id p) (i, PORT_CREATED, 1, False) ts, [r], streaming_request_id w, running (clog w))"
      using ok r(1) by (intro add_port_ok) simp_all
    moreover have "view w1 = (kv_add (sp_id p) (i, PORT_CREATED, 1, False) ts, [r], streaming_request_id w, running (clog w))"
      using y(2) None r(1) q(1) ty by (simp add: view_def tags_add)
    ultimately show ?thesis by (simp add: context_inv_def)
  qed (use y(2) ok in \<open>simp add: context_inv_def\<close>)
qed

lemma CreateStream_inv:
  assumes inv: "context_inv w" and slow: "sp_framerate p < batch_threshold E" and fresh: "fresh_ids E w"
    and run: "CreateStream E p w = Some (e, w1)"
  shows "context_inv w1"
proof -
  obtain r n v where b: "GetBatchSize E p w = ((r, n), v)" by (metis surj_pair)
  note vv = GetBatchSize_view [OF b]
  show ?thesis
  proof (cases "r = NO_ERROR")
    case True
    let ?v = "v\<lparr>camera_parameters := (camera_parameters v)\<lparr>batch_size := n\<rparr>\<rparr>"
    obtain r1 q u where d: "port_Init E (CameraPort p (camera_parameters ?v)) ?v = Some (r1, q, u)"
      using run b True by (auto simp: CreateStream_def bind_eq_Some_conv Let_def split: if_splits)
    have vu: "view u = view w" using port_Init_view [OF d] vv by (simp add: view_def)
    show ?thesis
    proof (cases "r1 = NO_ERROR")
      case r1: True
      have f: "fresh_ids E ?v" using fresh vv stream_ids_view [of ?v w] by (simp add: fresh_ids_def view_def)
      have "n = 1" using GetBatchSize_one [OF slow] b True by simp
      note t = port_Init_tag [OF d [unfolded r1] f]
      have "port_tag q = (camera_stream_id q, PORT_CREATED, 1, False)" using t(1) \<open>n = 1\<close> by (simp add: CameraPort_def)
      moreover have "camera_stream_id q \<notin> stream_ids u" using t(2) vu vv stream_ids_view [of ?v u] by (simp add: view_def)
      moreover have "context_inv u" using inv vu by (simp add: context_inv_def)
      moreover have "register_port E p q u = Some (e, w1)" using run b True d r1
        by (simp add: CreateStream_def Let_def split: if_splits)
      ultimately show ?thesis by (metis register_port_inv)
    qed (use run b True d vu inv in \<open>auto simp: CreateStream_def Let_def context_inv_def split: if_splits\<close>)
  qed (use run b vv inv in \<open>auto simp: CreateStream_def context_inv_def split: if_splits\<close>)
qed

lemma tags_remove: "tags_of (kv_remove k ps) = kv_remove k (tags_of ps)"
  by (induction ps) (auto simp: kv_remove_def)

lemma remove_port_ok:
  assumes "view_ok (ts, [r], j, run)" "kv_find ts k = Some (i, s, n, False)"
  shows "view_ok (kv_remove k ts, [r], j, run)"
proof -
  have ok: "kv_wf ts" "\<forall>x \<in> set ts. port_ok (snd x)" using assms(1) by (simp_all add: view_ok_def)
  have "x = (i, s, n, False)" if "(k, x) \<in> set ts" for x
    using that assms(2) kv_wf_distinct [OF ok(1)] by (metis map_of_eq_Some_iff option.inject)
  moreover have "\<not> on_air s" using ok(2) map_of_SomeD [OF assms(2)] by (auto simp: port_ok_def)
  ultimately have "on_air_ids (kv_remove k ts) = on_air_ids ts" by (fastforce simp: on_air_ids_def)
  moreover have "distinct (map (fst \<circ> snd) (kv_remove k ts))" using assms(1) by (auto simp: view_ok_def kv_remove_def distinct_map_filter)
  ultimately show ?thesis using assms(1) by (auto simp: view_ok_def)
qed

lemma DeleteStream_inv:
  assumes inv: "context_inv w" and z: "snapshot_type w \<noteq> kZsl" and run: "DeleteStream E k w = Some (e, w1)"
  shows "context_inv w1"
proof (cases "GetPort k w")
  case (Some p)
  show ?thesis
  proof (cases "GetNumConsumer (port_producer p) > 0")
    case False
    obtain r where c: "streaming_active_requests w = [r]" "kv_find (tags_of (ports w)) k = Some (port_tag p)"
      by (rule context_inv_port [OF inv Some])
    have "zsl_port v = None" if "snapshot_type v = snapshot_type w" for v using z that by (simp add: zsl_port_def)
    then obtain v where v: "must E (D_delete (camera_stream_id p) True) w = Some v" "\<not> ready_to_start p"
      "w1 = (RestoreBatchStreamId p v)\<lparr>ports := kv_remove k (ports (RestoreBatchStreamId p v))\<rparr>"
      using run Some False by (auto simp: DeleteStream_def port_DeInit_def DeleteDeviceStream_def bind_eq_Some_conv Let_def
          must_def call_def split: if_splits)
    have "view w1 = (kv_remove k (tags_of (ports w)), [r], streaming_request_id w, running (clog w))"
      using v(1,3) c(1) by (auto simp: view_def RestoreBatchStreamId_def must_def call_def tags_remove split: if_splits)
    moreover have "view_ok (tags_of (ports w), [r], streaming_request_id w, running (clog w))"
      using inv c(1) by (simp add: context_inv_def view_def)
    ultimately show ?thesis unfolding context_inv_def using remove_port_ok c(2) v(2) by (simp add: port_tag_def)
  qed (use run inv Some in \<open>simp add: DeleteStream_def\<close>)
qed (use run inv in \<open>simp add: DeleteStream_def\<close>)

end
