(* ===== verification/Camera_Context_Claims.thy ===== *)
theory Camera_Context_Claims
  imports Camera_Context_Inv
begin

text \<open>
  Properties of an open camera: the streams it runs, what pausing and resuming them does, the images
  that go back, and the frames a stopped stream waits for.
\<close>

section \<open>Runs of a camera\<close>

text \<open>
  The calls on streams, the camera parameters, consumers and returned images, and the callbacks of the
  device, in any order. A new stream's rate needs no batches, and the device gives it an id that no open
  port has; streams are deleted while no zero-shutter-lag queue runs. Image capture, zero shutter lag, the
  pausing and resuming of all streams that these two do, and closing the camera are not among the steps.
\<close>

inductive context_step :: "context_env \<Rightarrow> camera_context \<Rightarrow> camera_context \<Rightarrow> bool" for E where
  Create: "sp_framerate p < batch_threshold E \<Longrightarrow> fresh_ids E w \<Longrightarrow> CreateStream E p w = Some (e, w1) \<Longrightarrow> context_step E w w1"
| Delete: "snapshot_type w \<noteq> kZsl \<Longrightarrow> DeleteStream E k w = Some (e, w1) \<Longrightarrow> context_step E w w1"
| Start: "StartStream E k w = Some (e, w1) \<Longrightarrow> context_step E w w1"
| Stop: "StopStream E k w = Some (e, w1) \<Longrightarrow> context_step E w w1"
| Pause: "PauseStream k w = Some (e, w1) \<Longrightarrow> context_step E w w1"
| Resume: "ResumeStream k w = Some (e, w1) \<Longrightarrow> context_step E w w1"
| Param: "SetCameraParam E md w = Some (e, w1) \<Longrightarrow> context_step E w w1"
| Add: "AddConsumer k c w = Some (e, w1) \<Longrightarrow> context_step E w w1"
| Remove: "RemoveConsumer k c w = Some (e, w1) \<Longrightarrow> context_step E w w1"
| Image: "ReturnImageCaptureBuffer E i w = Some (e, w1) \<Longrightarrow> context_step E w w1"
| Captured: "SnapshotCaptureCallback E b w = Some w1 \<Longrightarrow> context_step E w w1"
| Frame: "StreamCallback E prompt k b w = Some (cs, w1) \<Longrightarrow> context_step E w w1"
| Returned: "ReturnStreamBuffer E b w = Some w1 \<Longrightarrow> context_step E w w1"
| Failed: "context_step E w (CameraErrorCb c x w)"
| Prepared: "context_step E w (CameraPreparedCb i w)"
| Result: "CameraResultCb E x md w = Some w1 \<Longrightarrow> context_step E w w1"

lemmas view_kept = AddConsumer_view RemoveConsumer_view ReturnImageCaptureBuffer_view SnapshotCaptureCallback_view
  StreamCallback_view ReturnStreamBuffer_view [THEN conjunct1] CameraResultCb_view

definition context_safe :: "context_env \<Rightarrow> camera_context \<Rightarrow> bool" where
  "context_safe E w \<longleftrightarrow> waits_keep E \<and> context_inv w"

lemma context_step_inv: "context_safe E w \<Longrightarrow> context_step E w w1 \<Longrightarrow> context_safe E w1"
proof -
  assume i: "context_safe E w" and s: "context_step E w w1"
  have k: "context_inv w1" if "view w1 = view w" using i that by (simp add: context_safe_def context_inv_def)
  have "context_inv w1" using s
  proof cases
    case Failed
    then show ?thesis using k CameraErrorCb_view by blast
  next
    case Prepared
    then show ?thesis using k CameraPreparedCb_view by blast
  qed (use i k in \<open>auto simp: context_safe_def intro: CreateStream_inv DeleteStream_inv StartStream_inv StopStream_inv
      PauseStream_inv ResumeStream_inv SetCameraParam_inv view_kept context_inv_wf\<close>)
  then show ?thesis using i by (simp add: context_safe_def)
qed

text \<open>A camera without streams.\<close>

definition context_start :: "context_env \<Rightarrow> camera_context \<Rightarrow> bool" where
  "context_start E w \<longleftrightarrow> waits_keep E \<and> ports w = [] \<and> streaming_active_requests w = [] \<and> streaming_request_id w < 0 \<and>
     running (clog w) = []"

lemma context_start_safe: "context_start E w \<Longrightarrow> context_safe E w"
  by (auto simp: context_start_def context_safe_def context_inv_def view_ok_def view_def)

interpretation context_sys: invariant_system "context_start E" "context_step E" "context_safe E" for E
  by unfold_locales (fact context_start_safe, fact context_step_inv)

section \<open>Properties\<close>

text \<open>
  C26. As long as an open camera sees only the calls and callbacks of \<open>context_step\<close> (streams, parameters,
  consumers, returned images and buffers; neither image capture nor zero shutter lag, high-speed batches or
  closing) and a wait leaves its streams as they are, in every order of them the request it keeps names the
  streams of its started and paused ports, each once, and the device repeats exactly a request with these
  streams, or none when there are none.
\<close>

theorem camera_runs_active_streams:
  assumes "context_start E w" "(context_step E)\<^sup>*\<^sup>* w w1"
  shows "(\<exists>ids. distinct ids \<and> set ids = active_streams (ports w1) \<and>
      map c3_streamIds (streaming_active_requests w1) \<in> {[], [ids]} \<and>
      map c3_streamIds (running (clog w1)) = (if ids = [] then [] else [ids]) \<and> (streaming_request_id w1 \<ge> 0 \<longleftrightarrow> ids \<noteq> []))"
proof -
  have v: "view_ok (view w1)" using context_sys.inv_reachable [OF assms] by (simp add: context_safe_def context_inv_def)
  show ?thesis
  proof (cases "streaming_active_requests w1")
    case Nil
    then show ?thesis using v by (intro exI [of _ "[]"]) (auto simp: view_ok_def view_def active_streams_def)
  next
    case (Cons r rs)
    then have "rs = []" using v by (auto simp: view_ok_def view_def split: list.splits)
    then show ?thesis using v Cons by (intro exI [of _ "c3_streamIds r"]) (auto simp: view_ok_def view_def on_air_active)
  qed
qed

section \<open>A call that returns\<close>

text \<open>A device that takes requests and flushes.\<close>

definition obliging :: "context_env \<Rightarrow> bool" where
  "obliging E \<longleftrightarrow> (\<forall>cs. dev_reply E cs D_flush = 0 \<and> dev_reply E cs D_wait_idle = 0 \<and> (\<forall>rs. 0 \<le> dev_reply E cs (D_submit rs True)))"

lemma CancelRequest_total: "obliging E \<Longrightarrow> \<exists>w1. CancelRequest E w = Some (NO_ERROR, w1)"
  by (auto simp: CancelRequest_def obliging_def must_def call_def)

lemma wait_prepared_total: "\<forall>i \<in> set is. prepared i w \<Longrightarrow> wait_prepared E is w = Some w"
  by (induction "is") auto

lemma scan_fps:
  "scan_ports ps s = Some s1 \<Longrightarrow> \<forall>x \<in> set ps. 1 \<le> sp_framerate (port_params (snd x)) \<Longrightarrow> sc_fps s = 0 \<or> 1 \<le> sc_fps s \<Longrightarrow>
   sc_fps s1 = 0 \<or> 1 \<le> sc_fps s1"
proof (induction ps arbitrary: s)
  case (Cons x ps)
  obtain s2 where s: "scan_port (snd x) s = Some s2" "scan_ports ps s2 = Some s1" using Cons.prems(1) by (auto simp: bind_eq_Some_conv)
  have "sc_fps s2 = 0 \<or> 1 \<le> sc_fps s2"
    using s(1) Cons.prems(2,3) by (auto simp: scan_port_def Let_def bind_eq_Some_conv split: PortState.splits if_splits)
  then show ?case using Cons.IH [OF s(2)] Cons.prems(2) by simp
qed simp

lemma set_rates_total:
  assumes "f = 0 \<or> 1 \<le> f" "\<And>m t v. md_update M m t v \<noteq> []" "\<forall>r \<in> set rs. c3_metadata r \<noteq> []"
  shows "\<exists>qs. set_rates M f rs = Some qs \<and> list_all (\<lambda>r. c3_metadata r \<noteq> []) qs \<and> map c3_streamIds qs = map c3_streamIds rs"
proof (cases "f = 0")
  case False
  then have "1 \<le> \<lceil>f - 1 / 2\<rceil>" using assms(1) by linarith
  then have "\<lceil>f - 1 / 2\<rceil> \<noteq> 0" by linarith
  then show ?thesis using False assms by (auto simp: set_rates_def Let_def list_all_iff set_rate_def)
qed (use assms in \<open>auto simp: set_rates_def list_all_iff\<close>)

lemma changes_metadata: "c3_metadata (foldl (\<lambda>r p. change (snd p) r) r ps) = c3_metadata r"
  by (induction ps arbitrary: r) (auto simp: change_def add_stream_def drop_stream_def split: PortState.splits)

lemma UpdateRequest_total:
  assumes r: "streaming_active_requests w = [r]" "c3_metadata r \<noteq> []" and u: "unbatched (ports w)" and d: "obliging E"
    and f: "\<forall>x \<in> set (ports w). 1 \<le> sp_framerate (port_params (snd x))" "\<And>m t v. md_update (cmeta E) m t v \<noteq> []"
    and prep: "\<forall>i \<in> set (c3_streamIds (foldl (\<lambda>r p. change (snd p) r) r (ports w))). prepared i w"
  shows "\<exists>w1. UpdateRequest E w = Some (NO_ERROR, w1)"
proof -
  let ?r = "foldl (\<lambda>r p. change (snd p) r) r (ports w)"
  let ?s = "\<lparr>sc_requests = streaming_active_requests w, sc_ids = [], sc_removed = [], sc_fps = 0\<rparr>"
  obtain s where s: "scan_ports (ports w) ?s = Some s" "sc_requests s = [?r]"
    using scan_ports_one [OF u, of ?s r] r(1) by auto
  have md: "\<forall>q \<in> set [?r]. c3_metadata q \<noteq> []" using r(2) by (simp add: changes_metadata)
  have rate: "sc_fps s = 0 \<or> 1 \<le> sc_fps s" using scan_fps [OF s(1) f(1)] by simp
  show ?thesis
  proof (cases "c3_streamIds ?r = []")
    case True
    then show ?thesis using s CancelRequest_total [OF d] by (simp add: UpdateRequest_def drop_stale_def Let_def)
  next
    case False
    obtain qs where q: "set_rates (cmeta E) (sc_fps s) [?r] = Some qs" "list_all (\<lambda>r. c3_metadata r \<noteq> []) qs"
      "map c3_streamIds qs = map c3_streamIds [?r]" using set_rates_total [OF rate f(2) md] by blast
    have hq: "c3_streamIds (hd qs) = c3_streamIds ?r" using q(3) by (cases qs) auto
    let ?w = "w\<lparr>streaming_active_requests := qs\<rparr>"
    have "wait_prepared E (c3_streamIds (hd qs)) ?w = Some ?w"
      using prep hq by (intro wait_prepared_total) (simp add: prepared_def)
    moreover have "\<not> fst (submit E (rev qs) True ?w) < 0" using d by (auto simp: obliging_def submit_def call_def Let_def not_less)
    ultimately have "\<exists>w1. submit_streams E s (w\<lparr>streaming_active_requests := [?r]\<rparr>) = Some (NO_ERROR, w1)"
      using q(1,2) by (auto simp: submit_streams_def Let_def case_prod_beta)
    then show ?thesis using s False by (simp add: UpdateRequest_def drop_stale_def Let_def)
  qed
qed

text \<open>What starting or stopping a stream needs: prepared streams, rates of at least one, and metadata that does not vanish.\<close>

definition can_update :: "context_env \<Rightarrow> port \<Rightarrow> camera_context \<Rightarrow> bool" where
  "can_update E p w \<longleftrightarrow> context_inv w \<and> waits_keep E \<and> obliging E \<and> first_metadata (streaming_active_requests w) \<noteq> [] \<and>
     (\<forall>m t v. md_update (cmeta E) m t v \<noteq> []) \<and> (\<forall>x \<in> set (ports w). 1 \<le> sp_framerate (port_params (snd x))) \<and>
     (\<forall>i \<in> insert (camera_stream_id p) (active_streams (ports w)). prepared i w)"

lemma turn_total:
  assumes c: "can_update E p w" and p: "GetPort k w = Some p"
  shows "\<exists>w1. UpdateRequest E (set_port k (turn b) w) = Some (NO_ERROR, w1)"
proof -
  have inv: "context_inv w" using c by (simp add: can_update_def)
  obtain r where r: "streaming_active_requests w = [r]" "set (c3_streamIds r) = on_air_ids (tags_of (ports w))"
    by (rule context_inv_port [OF inv p])
  let ?w = "set_port k (turn b) w"
  have ids: "set (c3_streamIds (change q r)) \<subseteq> insert (camera_stream_id q) (set (c3_streamIds r))" for q r
    by (auto simp: change_def add_stream_def drop_stream_def split: PortState.splits dest: set_remove1_subset [THEN subsetD])
  have sub: "set (c3_streamIds (foldl (\<lambda>r p. change (snd p) r) r (ports ?w))) \<subseteq> insert (camera_stream_id p) (active_streams (ports w))"
    using turned_change [OF inv p, of r b] ids [of "turn b p" r] r(2) on_air_active by (auto simp: turn_def)
  show ?thesis
  proof (rule UpdateRequest_total)
    show "streaming_active_requests ?w = [r]" using r(1) by (simp add: set_port_def)
    show "c3_metadata r \<noteq> []" "md_update (cmeta E) m t v \<noteq> []" "obliging E" for m t v
      using c r(1) by (simp_all add: can_update_def first_metadata_def)
    show "unbatched (ports ?w)" using context_inv_unbatched [OF inv] by (auto simp: unbatched_def set_port_def turn_def)
    show "\<forall>x \<in> set (ports ?w). 1 \<le> sp_framerate (port_params (snd x))"
      using c by (auto simp: can_update_def set_port_def turn_def)
    show "\<forall>i \<in> set (c3_streamIds (foldl (\<lambda>r p. change (snd p) r) r (ports ?w))). prepared i ?w"
      using c sub by (auto simp: can_update_def prepared_def set_port_def)
  qed
qed

lemma turn_call:
  assumes "can_update E p w" "GetPort k w = Some p" "port_state p \<in> {PORT_STOPPED, PORT_PAUSED} \<or> b \<and> port_state p = PORT_CREATED \<or> \<not> b \<and> port_state p = PORT_STARTED"
  shows "\<exists>w1. (if b then StartStream else StopStream) E k w = Some (NO_ERROR, w1) \<and>
    active_streams (ports w1) = (if b then insert (camera_stream_id p) (active_streams (ports w))
      else active_streams (ports w) - {camera_stream_id p}) \<and> context_inv w1"
proof -
  obtain w1 where u: "UpdateRequest E (set_port k (turn b) w) = Some (NO_ERROR, w1)" using turn_total [OF assms(1,2)] by blast
  have "context_inv w" "waits_keep E" using assms(1) by (simp_all add: can_update_def)
  note t = turned_stream [OF this assms(2) u]
  have "(if b then StartStream else StopStream) E k w = Some (NO_ERROR, set_port k (turned b) w1)"
    using u assms(2,3) by (auto simp: StartStream_def StopStream_def on_port_def port_Start_def port_Stop_def turn_def [abs_def]
        turned_def [abs_def])
  then show ?thesis using t by auto
qed

text \<open>
  C27. Starting and stopping a known stream return: with the streams prepared and a device that
  takes requests, starting adds exactly the stream to those on air and stopping takes exactly it
  away, and the device runs the others on.
\<close>

theorem streams_start_and_stop:
  assumes "can_update E p w" "GetPort k w = Some p" "port_state p \<in> {PORT_STOPPED, PORT_PAUSED} \<or> b \<and> port_state p = PORT_CREATED \<or> \<not> b \<and> port_state p = PORT_STARTED"
  shows "\<exists>w1. (if b then StartStream else StopStream) E k w = Some (NO_ERROR, w1) \<and>
    active_streams (ports w1) = (if b then insert (camera_stream_id p) (active_streams (ports w))
      else active_streams (ports w) - {camera_stream_id p}) \<and> context_inv w1"
  using turn_call [OF assms] .

section \<open>A camera with one stream\<close>

definition demo_env :: context_env where
  "demo_env = \<lparr>cmeta = \<lparr>md_find = map_of, md_update = (\<lambda>m t v. (t, v) # m), md_erase = (\<lambda>m t. filter (\<lambda>x. fst x \<noteq> t) m),
      md_append = (@), md_sort = id\<rparr>,
     dev_reply = (\<lambda>cs c. case c of D_create p \<Rightarrow> int (length cs) | _ \<Rightarrow> 0), dev_last_frame = (\<lambda>cs c. -1),
     default_request = (\<lambda>i. [(ANDROID_JPEG_QUALITY, [95])]), camera_info = (\<lambda>c. []), flush_restart_tag = None, static_mem_alloc = False,
     constrained_threshold = 90, batch_threshold = 120, sensor_table = (\<lambda>m. None), valid_resolution = (\<lambda>m f a b. True),
     valid_format = (\<lambda>m f. True), max_resolution = (\<lambda>m f. (4000, 3000)), input_supported = (\<lambda>m. True),
     prepare_wait = (\<lambda>i w. w), pending_waits = (\<lambda>w. []), aec_waits = (\<lambda>w. [])\<rparr>"

definition demo_open :: camera_context where
  "demo_open = CameraContext\<lparr>camera_device := True\<rparr>"

definition demo_stream :: StreamParam where
  "demo_stream = \<lparr>sp_id = 7, sp_width = 640, sp_height = 480, sp_rotation = 0, sp_format = kNV12, sp_framerate = 30, sp_flags = 0\<rparr>"

definition demo_created :: camera_context where
  "demo_created = snd (the (CreateStream demo_env demo_stream demo_open))"

lemma demo_waits: "waits_keep demo_env"
  by (simp add: waits_keep_def demo_env_def)

lemma demo_start: "context_start demo_env demo_open"
  by (simp add: context_start_def demo_waits demo_open_def CameraContext_def running_def)

lemma demo_create: "CreateStream demo_env demo_stream demo_open = Some (NO_ERROR, demo_created)"
  unfolding demo_created_def
  by (simp add: CreateStream_def demo_open_def demo_stream_def CameraContext_def GetBatchSize_def demo_env_def Let_def port_Init_def
      CreateDeviceStream_def flush_zsl_def zsl_port_def CameraPort_def must_def call_def configure_end_def max_frame_rate_def
      is_constrained_def resume_zsl_def register_port_def StoreBatchStreamId_def CreateCaptureRequest_def stream_parameters_def)

lemma demo_fresh: "fresh_ids demo_env demo_open"
  by (simp add: fresh_ids_def stream_ids_def demo_open_def CameraContext_def)

lemma demo_step: "context_step demo_env demo_open demo_created"
  by (rule context_step.Create [OF _ demo_fresh demo_create]) (simp add: demo_stream_def demo_env_def)

lemmas demo_inv = context_sys.inv_reachable [OF demo_start r_into_rtranclp [of "context_step demo_env", OF demo_step], unfolded context_safe_def, THEN conjunct2]

definition demo_started :: camera_context where
  "demo_started = snd (the (StartStream demo_env 7 demo_created))"

lemma demo_port: "\<exists>p. GetPort 7 demo_created = Some p \<and> port_state p = PORT_CREATED \<and> can_update demo_env p demo_created"
proof -
  have "ports demo_created = [(7, (CameraPort demo_stream (camera_parameters demo_open))\<lparr>camera_stream_id := 1\<rparr>)] \<and>
      stream_prepared demo_created = [(1, True)] \<and> first_metadata (streaming_active_requests demo_created) \<noteq> []"
    unfolding demo_created_def
  by (simp add: CreateStream_def demo_open_def demo_stream_def CameraContext_def GetBatchSize_def demo_env_def Let_def port_Init_def
      CreateDeviceStream_def flush_zsl_def zsl_port_def CameraPort_def must_def call_def configure_end_def max_frame_rate_def
      is_constrained_def resume_zsl_def register_port_def StoreBatchStreamId_def CreateCaptureRequest_def stream_parameters_def first_metadata_def)
  moreover have "obliging demo_env" "\<And>m t v. md_update (cmeta demo_env) m t v \<noteq> []" by (simp_all add: obliging_def demo_env_def)
  ultimately show ?thesis
    by (auto simp: GetPort_def CameraPort_def can_update_def demo_inv demo_waits prepared_def active_streams_def on_air_def demo_stream_def)
qed

theorem streams_start_and_stop_witness:
  "\<exists>w1. StartStream demo_env 7 demo_created = Some (NO_ERROR, w1) \<and> active_streams (ports w1) \<noteq> {} \<and> context_inv w1"
proof -
  obtain p where p: "GetPort 7 demo_created = Some p" "port_state p = PORT_CREATED" "can_update demo_env p demo_created"
    using demo_port by blast
  show ?thesis using streams_start_and_stop [OF p(3,1), of True] p(2) by auto
qed

lemma demo_start_stream: "StartStream demo_env 7 demo_created = Some (NO_ERROR, demo_started)"
  unfolding demo_started_def using demo_port turn_call [of demo_env _ demo_created 7 True] by fastforce

lemma demo_on_air: "active_streams (ports demo_started) \<noteq> {}"
  using demo_port demo_start_stream turn_call [of demo_env _ demo_created 7 True] by auto

theorem camera_runs_active_streams_witness:
  "\<exists>ids. ids \<noteq> [] \<and> set ids = active_streams (ports demo_started) \<and> map c3_streamIds (running (clog demo_started)) = [ids]"
proof -
  have "(context_step demo_env)\<^sup>*\<^sup>* demo_open demo_started"
    using demo_step context_step.Start [OF demo_start_stream] by (meson r_into_rtranclp rtranclp.rtrancl_into_rtrancl)
  then obtain ids where "distinct ids" "set ids = active_streams (ports demo_started)"
      "map c3_streamIds (running (clog demo_started)) = (if ids = [] then [] else [ids])"
    using camera_runs_active_streams [OF demo_start] by blast
  then show ?thesis using demo_on_air by (metis set_empty2)
qed

end
