(* ===== verification/Camera_Fault_Claims.thy ===== *)
theory Camera_Fault_Claims
  imports Camera_Context_Inv
begin

text \<open>
  Where an open camera does less than it means to: the images that are not returned, the pause that
  fails an assertion, and the second request of a batch.
\<close>

section \<open>Returning all images\<close>

definition images_ok :: "camera_context \<Rightarrow> bool" where
  "images_ok w \<longleftrightarrow> kv_wf (snapshot_buffer_list w) \<and> (\<forall>(k, b) \<in> set (snapshot_buffer_list w). b_fd b = sint k) \<and>
     (\<forall>(k, b) \<in> set (snapshot_buffer_list w). kv_find (snapshot_buffer_stream_list w) k \<noteq> None)"

lemma return_first_image:
  assumes ok: "images_ok w" and l: "snapshot_buffer_list w = (k, b) # bs" and dev: "\<And>cs. dev_reply E cs (D_return b) = 0"
  shows "\<exists>w1. ReturnImageCaptureBuffer E (sint k) w = Some (NO_ERROR, w1) \<and> snapshot_buffer_list w1 = bs \<and> images_ok w1"
proof -
  have b: "b_fd b = sint k" "kv_find (snapshot_buffer_stream_list w) k \<noteq> None" using ok l by (auto simp: images_ok_def)
  have keys: "\<forall>x \<in> set bs. fst x \<noteq> k" using ok l by (force simp: images_ok_def kv_wf_def)
  then have "kv_remove k (snapshot_buffer_list w) = bs" using l by (auto simp: kv_remove_def)
  moreover have "kv_wf bs" using ok l by (simp add: images_ok_def kv_wf_def)
  ultimately have run: "ReturnImageCaptureBuffer E (sint k) w = Some (NO_ERROR, w\<lparr>clog := clog w @ [D_return b],
      snapshot_buffer_list := bs, snapshot_buffer_stream_list := kv_remove k (snapshot_buffer_stream_list w)\<rparr>)"
    using l b dev by (auto simp: ReturnImageCaptureBuffer_def must_def call_def Let_def)
  have "kv_find (kv_remove k (snapshot_buffer_stream_list w)) j \<noteq> None" if "(j, c) \<in> set bs" for j c
    using that keys ok l by (fastforce simp: images_ok_def)
  then have "images_ok (w\<lparr>clog := clog w @ [D_return b], snapshot_buffer_list := bs,
      snapshot_buffer_stream_list := kv_remove k (snapshot_buffer_stream_list w)\<rparr>)"
    using ok l \<open>kv_wf bs\<close> unfolding images_ok_def by auto
  with run show ?thesis by auto
qed

lemma return_images_loop:
  assumes dev: "\<And>cs b. dev_reply E cs (D_return b) = 0"
  shows "images_ok w \<Longrightarrow> \<exists>r1 w1. return_images_from E n r w = Some (r1, w1) \<and> (r1 = r \<or> r1 = NO_ERROR) \<and>
    snapshot_buffer_list w1 = drop ((length (snapshot_buffer_list w) - n + 1) div 2) (snapshot_buffer_list w)"
proof (induction "length (snapshot_buffer_list w)" arbitrary: n r w rule: less_induct)
  case less
  show ?case
  proof (cases "n < length (snapshot_buffer_list w)")
    case True
    then obtain k b bs where l: "snapshot_buffer_list w = (k, b) # bs" by (cases "snapshot_buffer_list w") auto
    obtain v where v: "ReturnImageCaptureBuffer E (sint k) w = Some (NO_ERROR, v)" "snapshot_buffer_list v = bs" "images_ok v"
      using return_first_image [OF less.prems l dev] by blast
    have "length (snapshot_buffer_list v) < length (snapshot_buffer_list w)" using l v(2) by simp
    from less.hyps [OF this v(3), of "Suc n" NO_ERROR] obtain w1 where
      w1: "return_images_from E (Suc n) NO_ERROR v = Some (NO_ERROR, w1)" "snapshot_buffer_list w1 = drop ((length bs - Suc n + 1) div 2) bs"
      using v(2) by auto
    have "(length (snapshot_buffer_list w) - n + 1) div 2 = Suc ((length bs - Suc n + 1) div 2)" using True l by simp presburger
    moreover have "return_images_from E n r w = Some (NO_ERROR, w1)"
      using True l v(1) w1(1) by (subst return_images_from.simps) simp
    ultimately show ?thesis using w1(2) l by simp
  next
    case False
    then show ?thesis by (subst return_images_from.simps) auto
  qed
qed

text \<open>
  Returning all captured images returns only the first half of them, rounded up: the loop
  compares its counter with the size of the list it empties. With two or more images some stay out.
\<close>

theorem half_of_the_images:
  assumes "images_ok w" "\<And>cs b. dev_reply E cs (D_return b) = 0"
  shows "\<exists>w1. ReturnAllImageCaptureBuffers E w = Some (NO_ERROR, w1) \<and>
    snapshot_buffer_list w1 = drop ((length (snapshot_buffer_list w) + 1) div 2) (snapshot_buffer_list w)"
  using return_images_loop [OF assms(2,1), where n = 0 and r = NO_ERROR] by (auto simp: ReturnAllImageCaptureBuffers_def)

definition quiet_env :: context_env where
  "quiet_env = \<lparr>cmeta = \<lparr>md_find = map_of, md_update = (\<lambda>m t v. (t, v) # m), md_erase = (\<lambda>m t. filter (\<lambda>x. fst x \<noteq> t) m),
      md_append = (@), md_sort = id\<rparr>,
     dev_reply = (\<lambda>cs c. 0), dev_last_frame = (\<lambda>cs c. -1),
     default_request = (\<lambda>i. []), camera_info = (\<lambda>c. []), flush_restart_tag = None, static_mem_alloc = False,
     constrained_threshold = 90, batch_threshold = 120, sensor_table = (\<lambda>m. None), valid_resolution = (\<lambda>m f a b. True),
     valid_format = (\<lambda>m f. True), max_resolution = (\<lambda>m f. (4000, 3000)), input_supported = (\<lambda>m. True),
     prepare_wait = (\<lambda>i w. w), pending_waits = (\<lambda>w. []), aec_waits = (\<lambda>w. [])\<rparr>"

definition two_images :: camera_context where
  "two_images = CameraContext\<lparr>snapshot_buffer_list := [(3, zero_buffer\<lparr>b_fd := 3\<rparr>), (4, zero_buffer\<lparr>b_fd := 4\<rparr>)],
     snapshot_buffer_stream_list := [(3, 1), (4, 1)]\<rparr>"

theorem half_of_the_images_witness:
  "\<exists>w1. ReturnAllImageCaptureBuffers quiet_env two_images = Some (NO_ERROR, w1) \<and>
     snapshot_buffer_list w1 = [(4, zero_buffer\<lparr>b_fd := 4\<rparr>)]"
proof -
  have "images_ok two_images" by (simp add: images_ok_def two_images_def kv_wf_def)
  moreover have "\<And>cs b. dev_reply quiet_env cs (D_return b) = 0" by (simp add: quiet_env_def)
  ultimately show ?thesis using half_of_the_images [of two_images quiet_env] by (simp add: two_images_def)
qed

section \<open>Pausing\<close>

lemma each_pause_none:
  "(k, p) \<in> set (ports w) \<Longrightarrow> distinct (kv_keys (ports w)) \<Longrightarrow> port_state p \<noteq> PORT_STARTED \<Longrightarrow> k \<in> set ks \<Longrightarrow> distinct ks \<Longrightarrow>
   each_port port_Pause ks w = None"
proof (induction ks arbitrary: w)
  case (Cons j ks)
  have p: "GetPort k w = Some p" using Cons.prems(1,2) by (simp add: GetPort_def)
  show ?case
  proof (cases "j = k")
    case True
    then show ?thesis using p Cons.prems(3) by (simp add: port_Pause_def)
  next
    case False
    then have "k \<in> set ks" "distinct ks" using Cons.prems(4,5) by auto
    moreover have "(k, p) \<in> set (ports w1) \<and> distinct (kv_keys (ports w1))" if "port_Pause j w = Some w1" for w1
      using that False Cons.prems(1,2) by (force simp: port_Pause_def set_port_def bind_eq_Some_conv case_prod_beta comp_def split: if_splits)
    ultimately show ?thesis using Cons.IH Cons.prems(3) by (cases "port_Pause j w") auto
  qed
qed simp

text \<open>
  While a request runs and a port is not started, such as one that was created for a stream to
  be started later, pausing all streams at once fails an assertion. So does setting up an image
  capture whose parameters differ from the last ones.
\<close>

theorem pause_needs_started_ports:
  assumes "kv_wf (ports w)" "(k, p) \<in> set (ports w)" "port_state p \<noteq> PORT_STARTED" "0 \<le> streaming_request_id w" "\<not> port_paused w"
  shows "PauseActiveStreams E True w = None \<and> (IsStreamParamsChanged sp w \<longrightarrow> CreateSnapshotStream E sp cache w = None)"
proof -
  have "each_port port_Pause (kv_keys (ports x)) (x\<lparr>last_frame_number := l\<rparr>) = None" if "ports x = ports w" for x l
    using that assms(2,3) kv_wf_distinct [OF assms(1)] by (intro each_pause_none [of k p]) (auto simp: image_iff intro!: bexI [of _ "(k, p)"])
  then have "PauseActiveStreams E True w = None" using assms(4,5)
    by (auto simp: PauseActiveStreams_def must_def call_def)
  then show ?thesis by (simp add: CreateSnapshotStream_def replace_snapshot_def)
qed

definition one_of_two :: camera_context where
  "one_of_two = CameraContext\<lparr>streaming_request_id := 0,
     ports := (let p = CameraPort \<lparr>sp_id = 1, sp_width = 640, sp_height = 480, sp_rotation = 0, sp_format = kNV12, sp_framerate = 30, sp_flags = 0\<rparr>
                         (camera_parameters CameraContext)
               in [(1, p\<lparr>port_state := PORT_STARTED, camera_stream_id := 0\<rparr>), (2, p\<lparr>camera_stream_id := 1\<rparr>)])\<rparr>"

theorem pause_needs_started_ports_witness: "PauseActiveStreams quiet_env True one_of_two = None"
proof -
  define p where "p = snd (ports one_of_two ! 1)"
  have "kv_wf (ports one_of_two)" "(2, p) \<in> set (ports one_of_two)" "port_state p \<noteq> PORT_STARTED" "0 \<le> streaming_request_id one_of_two"
    "\<not> port_paused one_of_two"
    by (simp_all add: one_of_two_def kv_wf_def CameraPort_def Let_def p_def CameraContext_def)
  then show ?thesis using pause_needs_started_ports by blast
qed

end
