(* ===== verification/Rescaler.thy ===== *)
theory Rescaler
  imports Camera_Snapshot
begin

text \<open>
  The rescaler between a port and its tracks: a pool of output buffers, a list of frames to scale, and
  the thread that takes a frame, scales it into a buffer of the pool and passes that on. Source:
  \<^verbatim>\<open>recorder/src/service/qmmf_camera_rescaler.{h,cc}\<close>. The resizer engine, the allocator and
  \<^verbatim>\<open>mmap\<close> are parameters. \<open>None\<close> is a wait that does not end or an access outside a container.
\<close>

section \<open>The memory pool\<close>

record pool =
  alloc_device :: bool
  pool_slots :: "handle list option" \<comment> \<open>the slots in use, absent without an array\<close>
  buffers_allocated :: u32
  pool_pending :: u32
  pool_buffers :: "(handle, bool) kv" \<comment> \<open>True marks a buffer that is free\<close>
  pool_width :: u32
  pool_height :: u32
  pool_format :: hal_format
  buffer_cnt :: u32
  is_eis_on :: bool
  is_ldc_on :: bool

record pool_env =
  create_device :: bool
  hw_alloc :: "handle list \<Rightarrow> u32 \<Rightarrow> u32 \<Rightarrow> hal_format \<Rightarrow> u32 \<Rightarrow> handle option"
  hw_aligned_width :: "handle \<Rightarrow> u32 option"
  hw_aligned_height :: "handle \<Rightarrow> u32 option"
  hw_format :: "handle \<Rightarrow> hal_format"
  hw_fd :: "handle \<Rightarrow> int"
  hw_size :: "handle \<Rightarrow> u32"
  hw_meta_fd :: "handle \<Rightarrow> int"
  pool_waits :: "pool \<Rightarrow> pool list" \<comment> \<open>the pool after each wait for a buffer\<close>
  resizer_ok :: "u32 \<Rightarrow> u32 \<Rightarrow> BufferFormat \<Rightarrow> bool"
  map_addr :: "u32 \<Rightarrow> nat option"
  frame_waits :: "StreamBuffer list \<Rightarrow> (bool \<times> StreamBuffer list) list"
  prompt :: "consumer \<Rightarrow> StreamBuffer \<Rightarrow> bool"

abbreviation (input) RESCALER_BUFFERS_CNT :: u32 where "RESCALER_BUFFERS_CNT \<equiv> 13"

definition CameraRescalerMemPool :: pool where
  "CameraRescalerMemPool = \<lparr>alloc_device = False, pool_slots = None, buffers_allocated = 0, pool_pending = 0, pool_buffers = [],
     pool_width = 0, pool_height = 0, pool_format = HAL_PIXEL_FORMAT_OTHER 0, buffer_cnt = RESCALER_BUFFERS_CNT, is_eis_on = False, is_ldc_on = False\<rparr>"

definition pool_flag :: "bool list option \<Rightarrow> (pool \<Rightarrow> pool) \<Rightarrow> pool \<Rightarrow> pool option" where
  "pool_flag x f p = (case x of None \<Rightarrow> Some p | Some [on] \<Rightarrow> Some (if on then f p else p) | Some _ \<Rightarrow> None)"

definition Initialize :: "pool_env \<Rightarrow> u32 \<Rightarrow> u32 \<Rightarrow> hal_format \<Rightarrow> CameraExtra \<Rightarrow> pool \<Rightarrow> int \<times> pool" where
  "Initialize E w h f x p =
     (let p1 = p\<lparr>pool_width := w, pool_height := h, pool_format := f\<rparr>
      in case pool_flag (x_eis x) (\<lambda>p. p\<lparr>is_eis_on := True\<rparr>) p1 of
           None \<Rightarrow> (BAD_VALUE, p1)
         | Some p2 \<Rightarrow>
             case pool_flag (x_ldc x) (\<lambda>p. p\<lparr>is_ldc_on := True\<rparr>) p2 of
               None \<Rightarrow> (BAD_VALUE, p2)
             | Some p3 \<Rightarrow>
                 if \<not> create_device E then (-1, p3)
                 else (NO_ERROR, p3\<lparr>alloc_device := True, pool_slots := (if buffer_cnt p3 > 0 then Some [] else None)\<rparr>))"

definition ReturnBufferLocked :: "StreamBuffer \<Rightarrow> pool \<Rightarrow> int \<times> pool" where
  "ReturnBufferLocked b p =
     (if pool_pending p = 0 then (INVALID_OPERATION, p)
      else if kv_find (pool_buffers p) (b_handle b) = None then (BAD_VALUE, p)
      else (NO_ERROR, p\<lparr>pool_buffers := kv_add (b_handle b) True (pool_buffers p), pool_pending := pool_pending p - 1\<rparr>))"

definition usage_flags :: "pool \<Rightarrow> u32" where
  "usage_flags p =
     (let f = kSwWriteOften OR kSwReadOften OR kHwFb OR kVideoEncoder OR kPrivateAllocUbwc
      in if is_eis_on p \<or> is_ldc_on p then f AND NOT kPrivateAllocUbwc
         else f AND NOT (kSwWriteOften OR kSwReadOften))"

definition AllocHWMemBuffer :: "pool_env \<Rightarrow> pool \<Rightarrow> handle option" where
  "AllocHWMemBuffer E p =
     (let (w, h) = (if pool_width p = 0 \<or> pool_height p = 0 then (1, 1) else (pool_width p, pool_height p))
      in hw_alloc E (kv_keys (pool_buffers p)) w h (pool_format p) (usage_flags p))"

definition two_planes :: "BufferFormat \<Rightarrow> pool \<Rightarrow> u32 \<Rightarrow> u32 \<Rightarrow> CameraBufferMetaData" where
  "two_planes f p aw ah =
     \<lparr>buffer_format = f,
      plane_info = [plane (pool_width p) (pool_height p) aw ah (aw * ah) 0,
                    plane (pool_width p) (pool_height p div 2) aw (ah div 2) (aw * (ah div 2)) (aw * ah)]\<rparr>"

definition PopulateMetaInfo :: "pool_env \<Rightarrow> pool \<Rightarrow> handle \<Rightarrow> int + CameraBufferMetaData" where
  "PopulateMetaInfo E p h =
     (case hw_aligned_height E h of
        None \<Rightarrow> Inl BAD_VALUE
      | Some ah \<Rightarrow>
          case hw_aligned_width E h of
            None \<Rightarrow> Inl BAD_VALUE
          | Some aw \<Rightarrow>
              if hw_format E h \<in> {HAL_PIXEL_FORMAT_YCbCr_420_888, HAL_PIXEL_FORMAT_IMPLEMENTATION_DEFINED,
                   HAL_PIXEL_FORMAT_YCbCr_420_SP_VENUS, HAL_PIXEL_FORMAT_NV12_ENCODEABLE} then Inr (two_planes kNV12 p aw ah)
              else if hw_format E h = HAL_PIXEL_FORMAT_YCbCr_420_SP_VENUS_UBWC then Inr (two_planes kNV12UBWC p aw ah)
              else if hw_format E h = HAL_PIXEL_FORMAT_RGB_888
              then Inr \<lparr>buffer_format = kRGB, plane_info = [plane (pool_width p) (pool_height p) aw ah 0 0]\<rparr>
              else if hw_format E h = HAL_PIXEL_FORMAT_NV21_ZSL then Inr (two_planes kNV21 p aw ah)
              else if hw_format E h = HAL_PIXEL_FORMAT_YCbCr_422_888
              then Inr \<lparr>buffer_format = kNV16,
                        plane_info = [plane (pool_width p) (pool_height p) aw ah (aw * ah) 0,
                                      plane (pool_width p) (pool_height p) aw ah (aw * ah) (aw * ah)]\<rparr>
              else Inl NAME_NOT_FOUND)"

text \<open>A free buffer of the pool, or a new one while there is a slot; it is marked as taken.\<close>

definition find_free :: "pool \<Rightarrow> handle option" where
  "find_free p = map_option fst (List.find snd (pool_buffers p))"

definition take_buffer :: "pool_env \<Rightarrow> pool \<Rightarrow> (int + handle) \<times> pool" where
  "take_buffer E p =
     (case find_free p of
        Some h \<Rightarrow>
          let p1 = p\<lparr>pool_buffers := kv_add h False (pool_buffers p)\<rparr>
          in if h \<in> set (case pool_slots p of Some s \<Rightarrow> s | None \<Rightarrow> []) then (Inr h, p1) else (Inl INVALID_OPERATION, p1)
      | None \<Rightarrow>
          if \<not> buffers_allocated p < buffer_cnt p then (Inl INVALID_OPERATION, p)
          else case AllocHWMemBuffer E p of
            None \<Rightarrow> (Inl NO_MEMORY, p)
          | Some h \<Rightarrow>
              (Inr h, p\<lparr>pool_slots := map_option (\<lambda>s. s @ [h]) (pool_slots p),
                        pool_buffers := (if kv_find (pool_buffers p) h = None then kv_add h False (pool_buffers p) else pool_buffers p),
                        buffers_allocated := buffers_allocated p + 1\<rparr>))"

definition GetBufferLocked :: "pool_env \<Rightarrow> StreamBuffer \<Rightarrow> pool \<Rightarrow> int \<times> StreamBuffer \<times> pool" where
  "GetBufferLocked E b p =
     (case take_buffer E p of
        (Inl e, p1) \<Rightarrow> (e, b, p1)
      | (Inr h, p1) \<Rightarrow>
          case PopulateMetaInfo E p1 h of
            Inl e \<Rightarrow> (e, b\<lparr>b_handle := h\<rparr>, p1)
          | Inr info \<Rightarrow>
              (NO_ERROR, b\<lparr>b_handle := h, b_info := info, b_fd := hw_fd E h, b_metafd := hw_meta_fd E h, b_size := hw_size E h\<rparr>,
               p1\<lparr>pool_pending := pool_pending p1 + 1\<rparr>))"

text \<open>The wait for a free buffer goes on after a time-out; when the outcomes end it has not ended.\<close>

primrec wait_buffer :: "pool list \<Rightarrow> pool \<Rightarrow> pool option" where
  "wait_buffer [] p = (if pool_pending p = buffer_cnt p then None else Some p)"
| "wait_buffer (q # qs) p = (if pool_pending p = buffer_cnt p then wait_buffer qs q else Some p)"

definition GetFreeOutputBuffer :: "pool_env \<Rightarrow> StreamBuffer \<Rightarrow> pool \<Rightarrow> (int \<times> StreamBuffer \<times> pool) option" where
  "GetFreeOutputBuffer E b p =
     (let b1 = b\<lparr>b_fd := -1\<rparr>
      in if pool_slots p = None then Some (NO_ERROR, b1, p)
         else map_option (GetBufferLocked E b1) (wait_buffer (pool_waits E p) p))"

text \<open>The destructor frees the buffers of the table.\<close>

definition free_pool :: "pool \<Rightarrow> handle list" where
  "free_pool p = kv_keys (pool_buffers p)"

section \<open>The rescaler\<close>

text \<open>What the rescaler calls: a frame that goes back to its producer, scaling, a call of its own consumers, unmapping.\<close>

datatype rescale_call = R_back StreamBuffer | R_draw StreamBuffer StreamBuffer | R_out exchange_call | R_unmap nat u32

record rescaler =
  rs_pool :: pool
  bufs_list :: "StreamBuffer list"
  mapped_buffs :: "(u32, nat \<times> u32) kv"
  rs_producer :: producer
  is_stop :: bool
  rs_thread :: bool
  abort :: bool
  is_running :: bool
  rs_calls :: "rescale_call list"

definition CameraRescaler :: rescaler where
  "CameraRescaler = \<lparr>rs_pool = CameraRescalerMemPool, bufs_list = [], mapped_buffs = [], rs_producer = BufferProducerImpl,
     is_stop = False, rs_thread = False, abort = False, is_running = False, rs_calls = []\<rparr>"

definition note_call :: "rescale_call list \<Rightarrow> rescaler \<Rightarrow> rescaler" where
  "note_call cs r = r\<lparr>rs_calls := rs_calls r @ cs\<rparr>"

definition ReturnBufferToProducer :: "StreamBuffer \<Rightarrow> rescaler \<Rightarrow> rescaler" where
  "ReturnBufferToProducer b r = note_call [R_back b] r"

definition ReturnBufferToBufferPool :: "StreamBuffer \<Rightarrow> rescaler \<Rightarrow> int \<times> rescaler" where
  "ReturnBufferToBufferPool b r = (case ReturnBufferLocked b (rs_pool r) of (e, p) \<Rightarrow> (e, r\<lparr>rs_pool := p\<rparr>))"

text \<open>The calls of the own producer: a buffer that comes back to its source goes to the pool.\<close>

definition NotifyBufferReturned :: "StreamBuffer \<Rightarrow> rescaler \<Rightarrow> rescaler" where
  "NotifyBufferReturned b r = snd (ReturnBufferToBufferPool b r)"

primrec run_calls :: "exchange_call list \<Rightarrow> rescaler \<Rightarrow> rescaler" where
  "run_calls [] r = r"
| "run_calls (c # cs) r =
     run_calls cs (let r1 = note_call [R_out c] r in case c of ToConsumer k b \<Rightarrow> r1 | ToSource b \<Rightarrow> NotifyBufferReturned b r1)"

definition NotifyBufferToClient :: "pool_env \<Rightarrow> StreamBuffer \<Rightarrow> rescaler \<Rightarrow> int \<times> rescaler" where
  "NotifyBufferToClient E b r =
     (if GetNumConsumer (rs_producer r) > 0 then
        (case NotifyBuffer (prompt E) b (rs_producer r) of
           (q, cs) \<Rightarrow> (NO_ERROR, run_calls cs (r\<lparr>rs_producer := q\<rparr>)))
      else ReturnBufferToBufferPool b r)"

text \<open>A consumer returns a buffer it was given.\<close>

definition consumer_returns :: "StreamBuffer \<Rightarrow> rescaler \<Rightarrow> rescaler" where
  "consumer_returns b r =
     (case Buffer_Exchange.NotifyBufferReturned b (rs_producer r) of (q, cs) \<Rightarrow> run_calls cs (r\<lparr>rs_producer := q\<rparr>))"

definition AddBuf :: "StreamBuffer \<Rightarrow> rescaler \<Rightarrow> rescaler" where
  "AddBuf b r = r\<lparr>bufs_list := bufs_list r @ [b]\<rparr>"

definition IsStop :: "rescaler \<Rightarrow> bool" where
  "IsStop r = is_stop r"

definition OnFrameAvailable :: "StreamBuffer \<Rightarrow> rescaler \<Rightarrow> rescaler" where
  "OnFrameAvailable b r = (if IsStop r then ReturnBufferToProducer b r else AddBuf b r)"

text \<open>
  The loop tests the iterator that it has erased, which is never the end of the list: behind the last
  frame it reads the end. Only an empty list is flushed.
\<close>

definition FlushBufs :: "rescaler \<Rightarrow> rescaler option" where
  "FlushBufs r = (if bufs_list r = [] then Some r else None)"

definition MapBuf :: "pool_env \<Rightarrow> StreamBuffer \<Rightarrow> rescaler \<Rightarrow> int \<times> rescaler" where
  "MapBuf E b r =
     (if b_fd b = -1 then (BAD_VALUE, r)
      else
        let k = word_of_int (b_fd b)
        in if kv_find (mapped_buffs r) k \<noteq> None then (NO_ERROR, r)
           else case map_addr E k of
             None \<Rightarrow> (BAD_VALUE, r)
           | Some a \<Rightarrow> (NO_ERROR, r\<lparr>mapped_buffs := kv_add k (a, b_size b) (mapped_buffs r)\<rparr>))"

definition UnMapBufs :: "rescaler \<Rightarrow> rescaler" where
  "UnMapBufs r = (note_call (map (\<lambda>(k, a, n). R_unmap a n) (filter (\<lambda>(k, a, n). a \<noteq> 0) (mapped_buffs r))) r)\<lparr>mapped_buffs := []\<rparr>"

text \<open>The wait for a frame: a time-out ends the iteration.\<close>

fun wait_frame :: "(bool \<times> StreamBuffer list) list \<Rightarrow> StreamBuffer list \<Rightarrow> StreamBuffer list" where
  "wait_frame ws bs =
     (if bs \<noteq> [] then bs
      else case ws of
        [] \<Rightarrow> []
      | (timedout, bs1) # ws1 \<Rightarrow> if timedout then [] else wait_frame ws1 bs1)"

declare wait_frame.simps [simp del]

text \<open>What the copy takes over of the frame (the camera id and the flags, which the buffers of the model do not carry, are copied too).\<close>

definition scaled :: "StreamBuffer \<Rightarrow> StreamBuffer \<Rightarrow> StreamBuffer" where
  "scaled inb outb = outb\<lparr>b_stream_id := 0x55aa, b_timestamp := b_timestamp inb, b_frame_number := b_frame_number inb\<rparr>"

definition scale_frame :: "pool_env \<Rightarrow> StreamBuffer \<Rightarrow> rescaler \<Rightarrow> rescaler option" where
  "scale_frame E b r = do {
     (e, outb, p) \<leftarrow> GetFreeOutputBuffer E zero_buffer (rs_pool r);
     let c = scaled b outb;
     let r1 = r\<lparr>rs_pool := p\<rparr>;
     (case MapBuf E c r1 of
        (m, r2) \<Rightarrow>
          if m \<noteq> NO_ERROR then Some (ReturnBufferToProducer b (snd (ReturnBufferToBufferPool c r2)))
          else Some (snd (NotifyBufferToClient E c (ReturnBufferToProducer b (note_call [R_draw b c] r2)))))
   }"

definition ThreadLoop :: "pool_env \<Rightarrow> rescaler \<Rightarrow> rescaler option" where
  "ThreadLoop E r =
     (case wait_frame (frame_waits E (bufs_list r)) (bufs_list r) of
        [] \<Rightarrow> Some r
      | b # bs \<Rightarrow> scale_frame E b (r\<lparr>bufs_list := bs\<rparr>))"

section \<open>Starting and stopping\<close>

definition Run :: "rescaler \<Rightarrow> int \<times> rescaler" where
  "Run r = (if is_running r then (- ENOSYS, r) else (0, r\<lparr>abort := False, is_running := True, rs_thread := True\<rparr>))"

definition RequestExit :: "rescaler \<Rightarrow> rescaler" where
  "RequestExit r = (if \<not> rs_thread r \<or> \<not> is_running r then r else r\<lparr>abort := True\<rparr>)"

definition ExitPending :: "rescaler \<Rightarrow> bool" where
  "ExitPending r = (\<not> (abort r \<and> is_running r))"

text \<open>One turn of the worker: an iteration, or its end.\<close>

definition MainLoop :: "pool_env \<Rightarrow> rescaler \<Rightarrow> rescaler option" where
  "MainLoop E r = (if abort r then Some (r\<lparr>is_running := False\<rparr>) else ThreadLoop E r)"

text \<open>The join lets the worker end; \<open>inside\<close> says that it is inside an iteration, which it still finishes.\<close>

definition RequestExitAndWait :: "pool_env \<Rightarrow> bool \<Rightarrow> rescaler \<Rightarrow> rescaler option" where
  "RequestExitAndWait E inside r =
     (if \<not> rs_thread r then Some r
      else do {
        r1 \<leftarrow> (if inside \<and> is_running r then ThreadLoop E (r\<lparr>abort := True\<rparr>) else Some (r\<lparr>abort := True\<rparr>));
        r2 \<leftarrow> MainLoop E r1;
        Some (r2\<lparr>rs_thread := False\<rparr>)
      })"

definition Start :: "rescaler \<Rightarrow> rescaler" where
  "Start r = snd (Run (r\<lparr>is_stop := False\<rparr>))"

definition Stop :: "pool_env \<Rightarrow> bool \<Rightarrow> rescaler \<Rightarrow> rescaler option" where
  "Stop E inside r = map_option UnMapBufs (RequestExitAndWait E inside (r\<lparr>is_stop := True\<rparr>))"

definition Validate :: "pool_env \<Rightarrow> u32 \<Rightarrow> u32 \<Rightarrow> BufferFormat \<Rightarrow> int" where
  "Validate E w h f = (if resizer_ok E w h f then NO_ERROR else BAD_VALUE)"

definition Init :: "pool_env \<Rightarrow> u32 \<Rightarrow> u32 \<Rightarrow> BufferFormat \<Rightarrow> CameraExtra \<Rightarrow> rescaler \<Rightarrow> int \<times> rescaler" where
  "Init E w h f x r =
     (if w = 0 \<or> h = 0 then (BAD_VALUE, r)
      else if Validate E w h f \<noteq> NO_ERROR then (BAD_VALUE, r)
      else case Initialize E w h (FromQmmfToHalFormat f) x (rs_pool r) of (e, p) \<Rightarrow> (e, r\<lparr>rs_pool := p\<rparr>))"

definition AddConsumer :: "consumer \<Rightarrow> rescaler \<Rightarrow> (int \<times> rescaler) option" where
  "AddConsumer c r =
     (if c = 0 then Some (BAD_VALUE, r)
      else map_option (\<lambda>q. (NO_ERROR, r\<lparr>rs_producer := q\<rparr>)) (Buffer_Exchange.AddConsumer c (rs_producer r)))"

definition RemoveConsumer :: "consumer \<Rightarrow> rescaler \<Rightarrow> (int \<times> rescaler) option" where
  "RemoveConsumer c r =
     (if GetNumConsumer (rs_producer r) = 0 then Some (INVALID_OPERATION, r)
      else map_option (\<lambda>q. (NO_ERROR, r\<lparr>rs_producer := q\<rparr>)) (Buffer_Exchange.RemoveConsumer c (rs_producer r)))"

end
