(* ===== verification/Rescaler_Claims.thy ===== *)
theory Rescaler_Claims
  imports Rescaler
begin

text \<open>
  The pool of the rescaler counts the buffers that are out and gives none out twice; a frame is
  scaled, goes back once and its copy reaches the consumers; what is in the list when the rescaler is
  stopped stays there.
\<close>

section \<open>The pool\<close>

definition taken :: "(handle, bool) kv \<Rightarrow> handle list" where
  "taken bs = map fst (filter (\<lambda>x. \<not> snd x) bs)"

text \<open>The pool with the buffers that are out and the number of successful returns of a buffer that was not.\<close>

definition pool_inv :: "pool \<times> handle multiset \<times> nat \<Rightarrow> bool" where
  "pool_inv x \<longleftrightarrow> (case x of (p, X, n) \<Rightarrow>
     kv_wf (pool_buffers p) \<and> X \<subseteq># mset (taken (pool_buffers p)) \<and> unat (pool_pending p) \<le> size X \<and>
     (n = 0 \<longrightarrow> unat (pool_pending p) = size X) \<and>
     (\<exists>s. pool_slots p = Some s \<and> set s = kv_keyset (pool_buffers p)) \<and>
     unat (buffers_allocated p) = length (pool_buffers p) \<and> buffers_allocated p \<le> buffer_cnt p \<and> buffer_cnt p = RESCALER_BUFFERS_CNT)"

lemma taken_simps [simp]: "taken [] = []" "taken ((h, b) # bs) = (if b then taken bs else h # taken bs)"
  by (simp_all add: taken_def)

lemma taken_length: "length (taken bs) \<le> length bs"
  by (simp add: taken_def)

lemma taken_add:
  "kv_wf bs \<Longrightarrow> kv_find bs h = Some b \<Longrightarrow> mset (taken (kv_add h c bs)) = mset (taken bs) - (if b then {#} else {#h#}) + (if c then {#} else {#h#})"
proof (induction bs)
  case (Cons x bs)
  obtain k v where x: "x = (k, v)" by (cases x)
  have wf: "kv_wf bs" "\<forall>y \<in> set bs. k < fst y" using Cons.prems(1) x by (auto simp: kv_wf_def)
  show ?case
  proof (cases "k = h")
    case True
    then show ?thesis using Cons.prems x by (cases b) auto
  next
    case False
    then have f: "kv_find bs h = Some b" using Cons.prems(2) x by simp
    then have "k < h" using wf(2) by (auto dest!: map_of_SomeD)
    moreover have "\<not> b \<Longrightarrow> h \<in># mset (taken bs)" using map_of_SomeD [OF f] by (force simp: taken_def)
    ultimately show ?thesis using Cons.IH [OF wf(1) f] x by (auto simp: multiset_eq_iff)
  qed
qed simp

lemma taken_new: "kv_find bs h = None \<Longrightarrow> mset (taken (kv_add h False bs)) = add_mset h (mset (taken bs))"
  by (induction bs) auto

lemma length_add: "kv_wf bs \<Longrightarrow> length (kv_add h c bs) = (if kv_find bs h = None then Suc (length bs) else length bs)"
proof (induction bs)
  case (Cons x bs)
  have wf: "kv_wf bs" "\<forall>y \<in> set bs. fst x < fst y" using Cons.prems by (auto simp: kv_wf_def)
  have "kv_find bs h = None" if "h \<le> fst x" using wf(2) that by (force simp: map_of_eq_None_iff)
  then show ?case using Cons.IH [OF wf(1)] by (cases x) auto
qed simp

text \<open>An allocator that gives out handles it has not given out before.\<close>

definition pool_env_ok :: "pool_env \<Rightarrow> bool" where
  "pool_env_ok E \<longleftrightarrow> (\<forall>hs w h f u k. hw_alloc E hs w h f u = Some k \<longrightarrow> k \<notin> set hs)"

text \<open>
  A take that need not wait, whether it succeeds or fails, and the return of any buffer, one that is out or
  not: the thread also returns the buffer of a take that failed.
\<close>

inductive pool_step :: "pool_env \<Rightarrow> pool \<times> handle multiset \<times> nat \<Rightarrow> pool \<times> handle multiset \<times> nat \<Rightarrow> bool" for E where
  Get: "pool_pending p \<noteq> buffer_cnt p \<Longrightarrow> GetFreeOutputBuffer E b p = Some (e, b1, p1) \<Longrightarrow>
    pool_step E (p, X, n) (p1, if e = NO_ERROR then add_mset (b_handle b1) X else X, n)"
| Return: "ReturnBufferLocked b p = (e, p1) \<Longrightarrow>
    pool_step E (p, X, n) (p1, if e = NO_ERROR then X - {#b_handle b#} else X, if e = NO_ERROR \<and> b_handle b \<notin># X then Suc n else n)"

lemma find_free_some:
  assumes "kv_wf bs" "length (taken bs) < length bs"
  shows "\<exists>h. map_option fst (List.find snd bs) = Some h \<and> kv_find bs h = Some True"
proof -
  have "\<exists>x \<in> set bs. snd x"
  proof (rule ccontr)
    assume "\<not> (\<exists>x \<in> set bs. snd x)"
    then have "taken bs = map fst bs" by (auto simp: taken_def intro!: arg_cong [of _ _ "map fst"])
    then show False using assms(2) by simp
  qed
  then obtain x where x: "List.find snd bs = Some x" "snd x" "x \<in> set bs"
    by (metis find_None_iff find_Some_iff not_None_eq nth_mem)
  then have "kv_find bs (fst x) = Some True" using kv_wf_distinct [OF assms(1)] by (cases x) auto
  then show ?thesis using x(1) by simp
qed

lemma find_free_busy: "find_free p = Some h \<Longrightarrow> kv_wf (pool_buffers p) \<Longrightarrow> kv_find (pool_buffers p) h = Some True"
proof -
  assume "find_free p = Some h" "kv_wf (pool_buffers p)"
  then obtain x where x: "List.find snd (pool_buffers p) = Some x" "fst x = h" and "distinct (kv_keys (pool_buffers p))"
    by (auto simp: find_free_def dest: kv_wf_distinct)
  moreover have "snd x" "x \<in> set (pool_buffers p)" using x(1) by (auto simp: find_Some_iff)
  ultimately show ?thesis by (cases x) simp
qed


lemma get_not_waiting:
  "pool_pending p \<noteq> buffer_cnt p \<Longrightarrow> pool_slots p \<noteq> None \<Longrightarrow> GetFreeOutputBuffer E b p = Some (GetBufferLocked E (b\<lparr>b_fd := -1\<rparr>) p)"
  by (cases "pool_waits E p") (auto simp: GetFreeOutputBuffer_def Let_def)

lemma meta_info_error: "PopulateMetaInfo E p h = Inl e \<Longrightarrow> e \<noteq> NO_ERROR"
  by (auto simp: PopulateMetaInfo_def split: option.splits if_splits)

text \<open>What a failing take can mean.\<close>

definition take_error :: "pool_env \<Rightarrow> pool \<Rightarrow> pool \<Rightarrow> int \<Rightarrow> bool" where
  "take_error E p p1 e \<longleftrightarrow> e = NO_MEMORY \<or> (\<exists>h. PopulateMetaInfo E p1 h = Inl e) \<or>
     e = INVALID_OPERATION \<and> unat (pool_pending p) < length (taken (pool_buffers p))"

lemma pending_bound:
  assumes "pool_inv (p, X, n)" "pool_pending p \<noteq> buffer_cnt p"
  shows "unat (pool_pending p) < 13" "unat (pool_pending p + 1) = Suc (unat (pool_pending p))"
proof -
  have "size X \<le> length (pool_buffers p)"
    using assms(1) size_mset_mono [of X "mset (taken (pool_buffers p))"] taken_length [of "pool_buffers p"] by (auto simp: pool_inv_def)
  also have "\<dots> \<le> 13" using assms(1) by (auto simp: pool_inv_def word_le_nat_alt)
  finally have "unat (pool_pending p) \<le> 13" using assms(1) by (auto simp: pool_inv_def)
  moreover have "pool_pending p \<noteq> 13" using assms by (auto simp: pool_inv_def)
  then have "unat (pool_pending p) \<noteq> unat (13 :: u32)" unfolding word_unat_eq_iff .
  ultimately show "unat (pool_pending p) < 13" by simp
  then show "unat (pool_pending p + 1) = Suc (unat (pool_pending p))" by (simp add: unat_word_ariths)
qed

text \<open>A buffer that was taken from the pool, with what becomes of it.\<close>

lemma taken_inv:
  assumes i: "pool_inv (p, X, n)" and n: "pool_pending p \<noteq> buffer_cnt p"
    and t: "take_buffer E p = (Inr h, p1)" "mset (taken (pool_buffers p1)) = add_mset h (mset (taken (pool_buffers p)))"
    and k: "kv_wf (pool_buffers p1)" "\<exists>s. pool_slots p1 = Some s \<and> set s = kv_keyset (pool_buffers p1)"
      "unat (buffers_allocated p1) = length (pool_buffers p1)" "buffers_allocated p1 \<le> buffer_cnt p1" "buffer_cnt p1 = buffer_cnt p"
      "pool_pending p1 = pool_pending p"
    and g: "GetBufferLocked E b p = (e, b1, p2)"
  shows "pool_inv (p2, if e = NO_ERROR then add_mset (b_handle b1) X else X, n) \<and> (e = NO_ERROR \<or> take_error E p p2 e)"
proof (cases "PopulateMetaInfo E p1 h")
  case (Inl e1)
  then have r: "e = e1" "p2 = p1" using g t(1) by (simp_all add: GetBufferLocked_def)
  have "X \<subseteq># add_mset h (mset (taken (pool_buffers p)))" using i by (auto simp: pool_inv_def intro: subset_mset.order_trans)
  then show ?thesis using r meta_info_error [OF Inl] Inl i k t(2) by (auto simp: pool_inv_def take_error_def)
next
  case (Inr m)
  then have r: "e = NO_ERROR" "b_handle b1 = h" "p2 = p1\<lparr>pool_pending := pool_pending p + 1\<rparr>"
    using g t(1) k(6) by (auto simp: GetBufferLocked_def)
  then show ?thesis using i k t(2) pending_bound(2) [OF i n] by (auto simp: pool_inv_def)
qed

lemma get_inv:
  assumes ok: "pool_env_ok E" and i: "pool_inv (p, X, n)" and w: "pool_pending p \<noteq> buffer_cnt p"
    and run: "GetFreeOutputBuffer E b p = Some (e, b1, p2)"
  shows "pool_inv (p2, if e = NO_ERROR then add_mset (b_handle b1) X else X, n) \<and> (e = NO_ERROR \<or> take_error E p p2 e)"
proof -
  obtain s where s: "pool_slots p = Some s" "set s = kv_keyset (pool_buffers p)" using i by (auto simp: pool_inv_def)
  have wf: "kv_wf (pool_buffers p)" and len: "unat (buffers_allocated p) = length (pool_buffers p)" "buffers_allocated p \<le> buffer_cnt p"
    "buffer_cnt p = 13" using i by (auto simp: pool_inv_def)
  have g: "GetBufferLocked E (b\<lparr>b_fd := -1\<rparr>) p = (e, b1, p2)" using run get_not_waiting [OF w, of E b] s(1) by simp
  show ?thesis
  proof (cases "find_free p")
    case (Some h)
    have h: "kv_find (pool_buffers p) h = Some True" by (rule find_free_busy [OF Some wf])
    then have "h \<in> kv_keyset (pool_buffers p)" by (simp add: kv_keyset_find)
    then have "h \<in> set s" "insert h (kv_keyset (pool_buffers p)) = kv_keyset (pool_buffers p)" using s(2) by (simp_all add: insert_absorb)
    then have t: "take_buffer E p = (Inr h, p\<lparr>pool_buffers := kv_add h False (pool_buffers p)\<rparr>)"
      "kv_keyset (kv_add h False (pool_buffers p)) = set s" using Some s by (simp_all add: take_buffer_def Let_def)
    have m: "mset (taken (kv_add h False (pool_buffers p))) = add_mset h (mset (taken (pool_buffers p)))" using taken_add [OF wf h, of False] by simp
    show ?thesis by (rule taken_inv [OF i w t(1) _ _ _ _ _ _ _ g]) (use t(2) m s(1) wf len h in \<open>simp_all add: length_add\<close>)
  next
    case None
    have all: "length (taken (pool_buffers p)) = length (pool_buffers p)"
      using None find_free_some [OF wf] taken_length [of "pool_buffers p"] by (fastforce simp: find_free_def)
    show ?thesis
    proof (cases "buffers_allocated p < buffer_cnt p")
      case a: True
      show ?thesis
      proof (cases "AllocHWMemBuffer E p")
        case (Some h)
        then obtain aw ah where "hw_alloc E (kv_keys (pool_buffers p)) aw ah (pool_format p) (usage_flags p) = Some h"
          by (auto simp: AllocHWMemBuffer_def split: if_splits)
        then have h: "kv_find (pool_buffers p) h = None" using ok unfolding pool_env_ok_def by (metis map_of_eq_None_iff set_map)
        have "unat (buffers_allocated p + 1) = Suc (length (pool_buffers p))" "buffers_allocated p + 1 \<le> buffer_cnt p"
          using a len(1) unsigned_less [of "buffer_cnt p", where ?'a = nat] by (simp_all add: unat_word_ariths word_less_nat_alt word_le_nat_alt)
        moreover have t: "take_buffer E p = (Inr h, p\<lparr>pool_slots := Some (s @ [h]), pool_buffers := kv_add h False (pool_buffers p),
            buffers_allocated := buffers_allocated p + 1\<rparr>)" using None Some a s h by (simp add: take_buffer_def)
        ultimately show ?thesis
          by (intro taken_inv [OF i w t _ _ _ _ _ _ _ g]) (use s wf h taken_new [OF h] in \<open>simp_all add: length_add\<close>)
      next
        case x: None
        then show ?thesis using g None a i by (auto simp: GetBufferLocked_def take_buffer_def take_error_def)
      qed
    next
      case False
      then have "length (pool_buffers p) = 13" using len by (auto simp: word_le_nat_alt word_less_nat_alt)
      then have "unat (pool_pending p) < length (taken (pool_buffers p))" using all pending_bound(1) [OF i w] by simp
      then show ?thesis using g None False i by (auto simp: GetBufferLocked_def take_buffer_def take_error_def)
    qed
  qed
qed

lemma subtract_mono: "A \<subseteq># B \<Longrightarrow> A - C \<subseteq># B - C"
  by (simp add: subseteq_mset_def diff_le_mono)

text \<open>A return takes back a buffer of the table while something is pending.\<close>

lemma return_inv:
  assumes i: "pool_inv (p, X, n)" and run: "ReturnBufferLocked b p = (e, p1)"
  shows "pool_inv (p1, if e = NO_ERROR then X - {#b_handle b#} else X, if e = NO_ERROR \<and> b_handle b \<notin># X then Suc n else n)"
proof (cases "pool_pending p = 0 \<or> kv_find (pool_buffers p) (b_handle b) = None")
  case True
  then have "e \<noteq> NO_ERROR" "p1 = p" using run by (auto simp: ReturnBufferLocked_def split: if_splits)
  then show ?thesis using i by simp
next
  case False
  then obtain v where h: "kv_find (pool_buffers p) (b_handle b) = Some v" and pos: "pool_pending p \<noteq> 0" by auto
  have wf: "kv_wf (pool_buffers p)" and X: "X \<subseteq># mset (taken (pool_buffers p))" using i by (auto simp: pool_inv_def)
  have r: "e = NO_ERROR" "p1 = p\<lparr>pool_buffers := kv_add (b_handle b) True (pool_buffers p), pool_pending := pool_pending p - 1\<rparr>"
    using run h pos by (auto simp: ReturnBufferLocked_def)
  have out: "\<not> v" if "b_handle b \<in># X"
  proof -
    have "(b_handle b, False) \<in> set (pool_buffers p)" using mset_subset_eqD [OF X that] by (auto simp: taken_def)
    then show ?thesis using h kv_wf_distinct [OF wf] by simp
  qed
  have "unat (pool_pending p) \<noteq> 0" "unat (pool_pending p - 1) = unat (pool_pending p) - 1" using pos by (auto simp: unat_minus_one unat_eq_zero)
  moreover have "insert (b_handle b) (kv_keyset (pool_buffers p)) = kv_keyset (pool_buffers p)" using h by (auto simp: kv_keyset_find)
  moreover have "X - {#b_handle b#} \<subseteq># mset (taken (kv_add (b_handle b) True (pool_buffers p)))"
  proof (cases "b_handle b \<in># X")
    case True
    then show ?thesis using out X taken_add [OF wf h, of True] by (simp add: subtract_mono)
  next
    case no: False
    then have "X \<subseteq># mset (taken (pool_buffers p)) - {#b_handle b#}" if "\<not> v"
      using X by (metis diff_single_trivial subtract_mono)
    then show ?thesis using X no taken_add [OF wf h, of True] by (cases v) (simp_all add: diff_single_trivial)
  qed
  ultimately show ?thesis using r i h wf by (auto simp: pool_inv_def length_add size_Diff_singleton_if)
qed

definition pool_safe :: "pool_env \<Rightarrow> pool \<times> handle multiset \<times> nat \<Rightarrow> bool" where
  "pool_safe E x \<longleftrightarrow> pool_env_ok E \<and> pool_inv x"

definition pool_start :: "pool_env \<Rightarrow> pool \<times> handle multiset \<times> nat \<Rightarrow> bool" where
  "pool_start E x \<longleftrightarrow> pool_env_ok E \<and>
     (\<exists>w h f c. fst (Initialize E w h f c CameraRescalerMemPool) = NO_ERROR \<and> x = (snd (Initialize E w h f c CameraRescalerMemPool), {#}, 0))"

lemma initialized:
  "fst (Initialize E w h f c CameraRescalerMemPool) = NO_ERROR \<Longrightarrow> pool_inv (snd (Initialize E w h f c CameraRescalerMemPool), {#}, 0)"
  by (auto simp: Initialize_def pool_inv_def Let_def CameraRescalerMemPool_def pool_flag_def split: option.splits if_splits list.splits)

interpretation pool_sys: invariant_system "pool_start E" "pool_step E" "pool_safe E" for E
proof
  show "pool_safe E x" if "pool_start E x" for x using that initialized by (auto simp: pool_start_def pool_safe_def)
  show "pool_safe E y" if "pool_safe E x" "pool_step E x y" for x y
    using that(2,1)
  proof cases
    case (Get p b e b1 p1 X n)
    then show ?thesis using that(1) get_inv [of E p X n b e b1 p1] by (simp add: pool_safe_def)
  next
    case (Return b p e p1 X n)
    then show ?thesis using that(1) return_inv [of p X n b e p1] by (simp add: pool_safe_def)
  qed
qed

lemma pool_once: "pool_inv (p, X, n) \<Longrightarrow> count X h \<le> 1"
proof -
  assume i: "pool_inv (p, X, n)"
  then have "distinct (taken (pool_buffers p))" using kv_wf_distinct [of "pool_buffers p"] by (auto simp: pool_inv_def taken_def distinct_map_filter)
  then have "count (mset (taken (pool_buffers p))) h \<le> 1" by (metis distinct_count_atmost_1 count_mset le_refl zero_le_one)
  moreover have "count X h \<le> count (mset (taken (pool_buffers p))) h" using i by (auto simp: pool_inv_def intro: mset_subset_eq_count)
  ultimately show ?thesis by simp
qed

section \<open>Properties\<close>

text \<open>
  C29. Over any order of taking output buffers, with or without success, and of returning any
  buffers, the rescaler's pool never has more than thirteen buffers and gives out none that is out. As
  long as only buffers that were out have been taken back, it counts the buffers that are out; then the
  return of one succeeds, and a take that need not wait fails only for lack of memory, because the layout
  of the buffer it took cannot be read, or because every buffer is taken though not all are out.
\<close>

theorem rescaler_pool:
  assumes "pool_start E x" "(pool_step E)\<^sup>*\<^sup>* x (p, X, n)"
  shows "(\<forall>h. count X h \<le> 1) \<and> length (pool_buffers p) \<le> 13 \<and>
    (\<forall>b b1 p1. pool_pending p \<noteq> buffer_cnt p \<and> GetFreeOutputBuffer E b p = Some (NO_ERROR, b1, p1) \<longrightarrow> b_handle b1 \<notin># X) \<and>
    (n = 0 \<longrightarrow> unat (pool_pending p) = size X \<and>
       (\<forall>b. b_handle b \<in># X \<longrightarrow> fst (ReturnBufferLocked b p) = NO_ERROR) \<and>
       (\<forall>b e b1 p1. pool_pending p \<noteq> buffer_cnt p \<and> GetFreeOutputBuffer E b p = Some (e, b1, p1) \<longrightarrow>
          e = NO_ERROR \<or> e = NO_MEMORY \<or> (\<exists>h. PopulateMetaInfo E p1 h = Inl e) \<or>
          e = INVALID_OPERATION \<and> size X < length (taken (pool_buffers p))))"
proof -
  have ok: "pool_env_ok E" and i: "pool_inv (p, X, n)" using pool_sys.inv_reachable [OF assms] by (simp_all add: pool_safe_def)
  have "b_handle b1 \<notin># X" if "pool_pending p \<noteq> buffer_cnt p" "GetFreeOutputBuffer E b p = Some (NO_ERROR, b1, p1)" for b b1 p1
    using pool_once [of p1 "add_mset (b_handle b1) X" n "b_handle b1"] get_inv [OF ok i that] by (simp add: not_in_iff)
  moreover have "length (pool_buffers p) \<le> 13" using i by (auto simp: pool_inv_def word_le_nat_alt)
  moreover have "fst (ReturnBufferLocked b p) = NO_ERROR" if "n = 0" "b_handle b \<in># X" for b
  proof -
    have "0 < size X" using that(2) by (metis nonempty_has_size empty_not_add_mset multi_member_split)
    then have "pool_pending p \<noteq> 0" using i that(1) by (auto simp: pool_inv_def)
    moreover have "b_handle b \<in># mset (taken (pool_buffers p))" using i that(2) by (auto simp: pool_inv_def dest: mset_subset_eqD)
    then have "kv_find (pool_buffers p) (b_handle b) \<noteq> None" by (auto simp: taken_def map_of_eq_None_iff)
    ultimately show ?thesis by (auto simp: ReturnBufferLocked_def)
  qed
  moreover have "e = NO_ERROR \<or> e = NO_MEMORY \<or> (\<exists>h. PopulateMetaInfo E p1 h = Inl e) \<or> e = INVALID_OPERATION \<and> size X < length (taken (pool_buffers p))"
    if "n = 0" "pool_pending p \<noteq> buffer_cnt p" "GetFreeOutputBuffer E b p = Some (e, b1, p1)" for b e b1 p1
    using get_inv [OF ok i that(2,3)] i that(1) unfolding take_error_def by (auto simp: pool_inv_def)
  moreover have "n = 0 \<longrightarrow> unat (pool_pending p) = size X" using i by (auto simp: pool_inv_def)
  ultimately show ?thesis using pool_once [OF i] by blast
qed

definition demo_pool_env :: pool_env where
  "demo_pool_env = \<lparr>create_device = True, hw_alloc = (\<lambda>hs w h f u. Some (Suc (fold max hs 0))), hw_aligned_width = (\<lambda>h. Some 640),
     hw_aligned_height = (\<lambda>h. Some 480), hw_format = (\<lambda>h. HAL_PIXEL_FORMAT_NV12_ENCODEABLE), hw_fd = int, hw_size = (\<lambda>h. 460800),
     hw_meta_fd = (\<lambda>h. 0), pool_waits = (\<lambda>p. []), resizer_ok = (\<lambda>w h f. True), map_addr = (\<lambda>k. Some 4096),
     frame_waits = (\<lambda>bs. []), prompt = (\<lambda>c b. False)\<rparr>"

definition no_extra :: CameraExtra where
  "no_extra = \<lparr>x_hdr = None, x_sensor_mode = None, x_eis = None, x_ldc = None, x_partial = None\<rparr>"

definition demo_pool :: pool where
  "demo_pool = snd (Initialize demo_pool_env 640 480 HAL_PIXEL_FORMAT_NV12_ENCODEABLE no_extra CameraRescalerMemPool)"

lemma demo_pool_ok: "pool_env_ok demo_pool_env"
proof -
  have "x \<le> fold max hs n" if "x \<in> set hs \<or> x \<le> n" for x n :: nat and hs
    using that by (induction hs arbitrary: n) (auto intro: le_max_iff_disj [THEN iffD2])
  then have "Suc (fold max hs 0) \<notin> set hs" for hs :: "nat list" by (metis not_less_eq_eq order_refl)
  then show ?thesis by (simp add: pool_env_ok_def demo_pool_env_def)
qed

lemma demo_pool_start: "pool_start demo_pool_env (demo_pool, {#}, 0)"
proof -
  have "fst (Initialize demo_pool_env 640 480 HAL_PIXEL_FORMAT_NV12_ENCODEABLE no_extra CameraRescalerMemPool) = NO_ERROR"
    by (simp add: Initialize_def demo_pool_env_def no_extra_def pool_flag_def CameraRescalerMemPool_def Let_def)
  then show ?thesis unfolding pool_start_def demo_pool_def using demo_pool_ok by blast
qed

text \<open>Buffer 1 is taken; its return succeeds.\<close>

theorem rescaler_pool_witness:
  "\<exists>p1. (pool_step demo_pool_env)\<^sup>*\<^sup>* (demo_pool, {#}, 0) (p1, {#1#}, 0) \<and> unat (pool_pending p1) = 1 \<and>
     fst (ReturnBufferLocked (zero_buffer\<lparr>b_handle := 1\<rparr>) p1) = NO_ERROR"
proof -
  obtain e b1 p1 where g: "GetFreeOutputBuffer demo_pool_env zero_buffer demo_pool = Some (e, b1, p1)" "e = NO_ERROR" "b_handle b1 = 1"
    and n: "pool_pending demo_pool \<noteq> buffer_cnt demo_pool"
    by (simp add: GetFreeOutputBuffer_def demo_pool_def Initialize_def demo_pool_env_def no_extra_def pool_flag_def CameraRescalerMemPool_def
        Let_def GetBufferLocked_def take_buffer_def find_free_def AllocHWMemBuffer_def PopulateMetaInfo_def)
  have "pool_step demo_pool_env (demo_pool, {#}, 0) (p1, {#1#}, 0)" using pool_step.Get [OF n g(1), of "{#}" 0] g(2,3) by simp
  then have r: "(pool_step demo_pool_env)\<^sup>*\<^sup>* (demo_pool, {#}, 0) (p1, {#1#}, 0)" by (rule r_into_rtranclp)
  show ?thesis using rescaler_pool [OF demo_pool_start r] r by (intro exI [of _ p1]) simp
qed

section \<open>Frames\<close>

lemma run_calls_log: "rs_calls (run_calls cs r) = rs_calls r @ map R_out cs"
proof (induction cs arbitrary: r)
  case (Cons c cs)
  have "rs_calls (NotifyBufferReturned b q) = rs_calls q" for b q
    by (auto simp: NotifyBufferReturned_def ReturnBufferToBufferPool_def split: prod.splits)
  then show ?case using Cons by (simp add: note_call_def Let_def split: exchange_call.splits)
qed simp

text \<open>The deliveries among the calls of the rescaler.\<close>

definition deliveries :: "rescale_call list \<Rightarrow> (consumer \<times> StreamBuffer) list" where
  "deliveries cs = concat (map (\<lambda>c. case c of R_out (ToConsumer k b) \<Rightarrow> [(k, b)] | _ \<Rightarrow> []) cs)"

lemma deliveries_simps [simp]:
  "deliveries [] = []" "deliveries (cs @ ds) = deliveries cs @ deliveries ds"
  "deliveries (R_out (ToConsumer k b) # cs) = (k, b) # deliveries cs" "deliveries (R_out (ToSource b) # cs) = deliveries cs"
  by (simp_all add: deliveries_def)

lemma deliveries_out: "deliveries (map R_out (snd (deliver pr b cs p))) = map (\<lambda>c. (c, b)) cs"
  by (induction cs arbitrary: p)
    (auto simp: case_prod_beta Let_def Buffer_Exchange.NotifyBufferReturned_def split: option.split)

definition given_back :: "rescale_call list \<Rightarrow> StreamBuffer list" where
  "given_back cs = concat (map (\<lambda>c. case c of R_back b \<Rightarrow> [b] | _ \<Rightarrow> []) cs)"

lemma given_back_append: "given_back (cs @ ds) = given_back cs @ given_back ds"
  by (simp add: given_back_def)

lemma given_back_out: "given_back (map R_out cs) = []"
  by (induction cs) (simp_all add: given_back_def)

text \<open>
  C30. An iteration of the rescaler that gets an output buffer with a file descriptor, can map it and
  has a consumer, scales the oldest frame into it and gives the frame back to its producer once; then it
  passes the copy, with the frame's time stamp and number, exactly once to each consumer of the table, in
  order. The frames behind it stay in order.
\<close>

theorem frame_rescaled:
  assumes "bufs_list r = b # bs" "GetFreeOutputBuffer E zero_buffer (rs_pool r) = Some (NO_ERROR, c, p)" "b_fd c \<noteq> -1"
    "kv_find (mapped_buffs r) (word_of_int (b_fd c)) \<noteq> None \<or> map_addr E (word_of_int (b_fd c)) \<noteq> None"
    "GetNumConsumer (rs_producer r) > 0"
  shows "\<exists>r1 d cs. ThreadLoop E r = Some r1 \<and> bufs_list r1 = bs \<and>
    d = c\<lparr>b_stream_id := 0x55aa, b_timestamp := b_timestamp b, b_frame_number := b_frame_number b\<rparr> \<and>
    rs_calls r1 = rs_calls r @ R_draw b d # R_back b # cs \<and>
    deliveries cs = map (\<lambda>x. (snd x, d)) (buffer_consumers (rs_producer r)) \<and> given_back cs = []"
proof -
  let ?r = "r\<lparr>bufs_list := bs, rs_pool := p\<rparr>"
  have w: "wait_frame (frame_waits E (bufs_list r)) (bufs_list r) = b # bs" using assms(1) by (subst wait_frame.simps) simp
  obtain r2 where m: "MapBuf E (scaled b c) ?r = (NO_ERROR, r2)" and r2: "rs_calls r2 = rs_calls r" "bufs_list r2 = bs" "rs_producer r2 = rs_producer r"
    using assms(3,4) by (cases "kv_find (mapped_buffs r) (word_of_int (b_fd c))") (auto simp: MapBuf_def scaled_def Let_def)
  obtain q cs where q: "NotifyBuffer (prompt E) (scaled b c) (rs_producer r) = (q, cs)" by fastforce
  have keep: "bufs_list (run_calls cs x) = bufs_list x" for cs x
    by (induction cs arbitrary: x) (auto simp: note_call_def NotifyBufferReturned_def ReturnBufferToBufferPool_def Let_def split: exchange_call.splits prod.splits)
  have n: "buffer_consumers (rs_producer r) \<noteq> []" using assms(5) by (auto simp: GetNumConsumer_def)
  have d: "deliveries (map R_out cs) = map (\<lambda>x. (snd x, scaled b c)) (buffer_consumers (rs_producer r))"
    using deliveries_out [of "prompt E" "scaled b c" "map snd (buffer_consumers (rs_producer r))" "register_buffer (scaled b c) (rs_producer r)"] q n
    by (simp add: NotifyBuffer_def)
  have t: "ThreadLoop E r = Some (snd (NotifyBufferToClient E (scaled b c) (ReturnBufferToProducer b (note_call [R_draw b (scaled b c)] r2))))"
    using w assms(2) m by (simp add: ThreadLoop_def scale_frame_def Let_def)
  show ?thesis
    by (rule exI [of _ "snd (NotifyBufferToClient E (scaled b c) (ReturnBufferToProducer b (note_call [R_draw b (scaled b c)] r2)))"],
        rule exI [of _ "scaled b c"], rule exI [of _ "map R_out cs"])
      (use t q r2 assms(5) d in \<open>simp add: NotifyBufferToClient_def ReturnBufferToProducer_def note_call_def run_calls_log keep given_back_out scaled_def\<close>)
qed

definition demo_rescaler :: rescaler where
  "demo_rescaler = CameraRescaler\<lparr>rs_pool := demo_pool, bufs_list := [zero_buffer\<lparr>b_timestamp := 5\<rparr>], rs_thread := True, is_running := True,
     rs_producer := BufferProducerImpl\<lparr>buffer_consumers := [(3, 3), (9, 9)]\<rparr>\<rparr>"

theorem frame_rescaled_witness: "\<exists>r1 d cs. ThreadLoop demo_pool_env demo_rescaler = Some r1 \<and> bufs_list r1 = [] \<and> b_timestamp d = 5 \<and>
    rs_calls r1 = R_draw (zero_buffer\<lparr>b_timestamp := 5\<rparr>) d # R_back (zero_buffer\<lparr>b_timestamp := 5\<rparr>) # cs \<and> deliveries cs = [(3, d), (9, d)]"
proof -
  obtain c p where g: "GetFreeOutputBuffer demo_pool_env zero_buffer (rs_pool demo_rescaler) = Some (NO_ERROR, c, p)" "b_fd c = 1"
    by (simp add: GetFreeOutputBuffer_def demo_rescaler_def demo_pool_def Initialize_def demo_pool_env_def no_extra_def pool_flag_def
        CameraRescalerMemPool_def Let_def GetBufferLocked_def take_buffer_def find_free_def AllocHWMemBuffer_def PopulateMetaInfo_def)
  have l: "bufs_list demo_rescaler = [zero_buffer\<lparr>b_timestamp := 5\<rparr>]" "b_fd c \<noteq> -1" "GetNumConsumer (rs_producer demo_rescaler) > 0"
    "kv_find (mapped_buffs demo_rescaler) (word_of_int (b_fd c)) \<noteq> None \<or> map_addr demo_pool_env (word_of_int (b_fd c)) \<noteq> None"
    using g(2) by (simp_all add: demo_rescaler_def demo_pool_env_def GetNumConsumer_def)
  from frame_rescaled [OF l(1) g(1) l(2) l(4) l(3)] show ?thesis
    by (auto simp: demo_rescaler_def CameraRescaler_def)
qed

text \<open>
  Stopping the rescaler while its thread waits leaves every frame of the list where it is: none
  goes back to its producer, and flushing the list would read behind its end.
\<close>

theorem stop_strands_frames:
  assumes "rs_thread r" "bufs_list r \<noteq> []"
  shows "\<exists>r1. Stop E False r = Some r1 \<and> bufs_list r1 = bufs_list r \<and> given_back (rs_calls r1) = given_back (rs_calls r) \<and>
    \<not> rs_thread r1 \<and> FlushBufs r1 = None"
proof -
  have "given_back (map (\<lambda>(k, a, n). R_unmap a n) xs) = []" for xs by (induction xs) (auto simp: given_back_def)
  then show ?thesis using assms
    by (auto simp: Stop_def RequestExitAndWait_def MainLoop_def UnMapBufs_def note_call_def FlushBufs_def given_back_append)
qed

theorem stop_strands_frames_witness: "\<exists>r1. Stop demo_pool_env False demo_rescaler = Some r1 \<and> bufs_list r1 \<noteq> [] \<and> FlushBufs r1 = None"
  using stop_strands_frames [of demo_rescaler demo_pool_env] by (auto simp: demo_rescaler_def)

end
