(* ===== verification/Encoder_Core.thy ===== *)
theory Encoder_Core
  imports Recorder
begin

text \<open>
  The video encoder of a track: \<^verbatim>\<open>TrackEncoder\<close>, which lends output buffers to the codec, passes the
  filled ones to the client and takes them back, and \<^verbatim>\<open>EncoderCore\<close>, the table of track encoders.
  Source: \<^verbatim>\<open>recorder/src/service/qmmf_encoder_core.{h,cc}\<close>. The codec, the ION allocator, \<^verbatim>\<open>mmap\<close>, the
  clock and the outcomes of waits are parameters. \<open>None\<close> is a failed assertion or an undefined step.
\<close>

unbundle bit_operations_syntax

section \<open>Data\<close>

record BufferDescriptor =
  bd_data :: nat \<comment> \<open>an address, 0 for the null pointer\<close>
  bd_fd :: int
  bd_size :: u32
  bd_capacity :: u32
  bd_timestamp :: u64
  bd_flag :: u32

definition zero_descriptor :: BufferDescriptor where
  "zero_descriptor = \<lparr>bd_data = 0, bd_fd = 0, bd_size = 0, bd_capacity = 0, bd_timestamp = 0, bd_flag = 0\<rparr>"

record BnBuffer =
  ion_fd :: int
  ion_meta_fd :: int
  bn_size :: u32
  bn_timestamp :: u64
  bn_width :: u32
  bn_height :: u32
  buffer_id :: u32
  bn_flag :: u32
  bn_capacity :: u32

abbreviation (input) kFlagEOS :: u32 where "kFlagEOS \<equiv> 2"
abbreviation (input) kFlagIDRFrame :: u32 where "kFlagIDRFrame \<equiv> 8"
abbreviation (input) kFlagIFrame :: u32 where "kFlagIFrame \<equiv> 16"
abbreviation (input) kFlagPFrame :: u32 where "kFlagPFrame \<equiv> 32"
abbreviation (input) kFlagBFrame :: u32 where "kFlagBFrame \<equiv> 64"
abbreviation (input) kVideoFrameType :: u32 where "kVideoFrameType \<equiv> 4"
abbreviation (input) AVCODEC_OUT_BUF_COUNT :: u32 where "AVCODEC_OUT_BUF_COUNT \<equiv> 6"
abbreviation (input) kBufferWaitDuration :: u64 where "kBufferWaitDuration \<equiv> 5000000000"
abbreviation (input) FPS_TIME_INTERVAL :: u64 where "FPS_TIME_INTERVAL \<equiv> 3000000"
abbreviation (input) FAILED_TRANSACTION :: int where "FAILED_TRANSACTION \<equiv> - 2147483646"

text \<open>\<open>enc_fps\<close> names a frame rate; the five intervals it stands for are computed in double precision.\<close>

record enc_params =
  enc_track_id :: u32
  enc_format :: VideoFormat
  enc_slices :: bool
  enc_fps :: nat
  enc_data_cb :: bool

text \<open>
  The replies of the codec and of the allocator. An allocation gives a file descriptor, with a handle
  on legacy devices, or the error number; \<open>map_buffer\<close> is the address of a mapping.
\<close>

record codec_env =
  jpeg_postproc :: bool
  ion_abi :: bool
  open_ion :: int
  ion_legacy :: bool
  cd_configure :: int
  cd_input :: int
  cd_requirements :: "int \<times> u32 \<times> u32"
  cd_register :: int
  cd_output :: int
  cd_start :: int
  cd_stop :: int
  cd_params :: int
  cd_release :: int
  cd_flush :: int
  ion_alloc_fd :: "BufferDescriptor list \<Rightarrow> u32 \<Rightarrow> int + int"
  ion_alloc :: "BufferDescriptor list \<Rightarrow> u32 \<Rightarrow> int + int"
  ion_share :: "int \<Rightarrow> int + int"
  map_buffer :: "int \<Rightarrow> u32 \<Rightarrow> int + nat"
  clean_cache :: "int \<Rightarrow> BufferDescriptor \<Rightarrow> int"
  five_frames :: "nat \<Rightarrow> u64"

text \<open>A call of the client: the buffer and the type of its frame.\<close>

type_synonym data_call = "BnBuffer \<times> u32 \<times> u32"

record track_encoder =
  te_params :: enc_params
  avcodec :: bool \<comment> \<open>set by \<open>Init\<close>; the constructor leaves the pointer undefined\<close>
  output_buffer_list :: "BufferDescriptor list"
  output_free_buffer_queue :: "BufferDescriptor list"
  output_occupy_buffer_queue :: "BufferDescriptor list"
  fd_ion_handle_map :: "(int, int) kv"
  te_ion_device :: int
  eos_atoutput :: bool
  is_force_cleanup :: bool
  debug_fps :: u32
  num_bytes :: u32
  prevtv :: "int \<times> int" \<comment> \<open>seconds and nanoseconds\<close>
  frame_count :: u32
  wait_duration :: u64
  data_calls :: "data_call list"

definition zero_params :: enc_params where
  "zero_params = \<lparr>enc_track_id = 0, enc_format = kRGB, enc_slices = False, enc_fps = 0, enc_data_cb = False\<rparr>"

definition TrackEncoder :: "u32 \<Rightarrow> int \<Rightarrow> track_encoder" where
  "TrackEncoder fps dev =
     \<lparr>te_params = zero_params, avcodec = False, output_buffer_list = [], output_free_buffer_queue = [], output_occupy_buffer_queue = [],
      fd_ion_handle_map = [], te_ion_device = dev, eos_atoutput = False, is_force_cleanup = False, debug_fps = fps, num_bytes = 0,
      prevtv = (0, 0), frame_count = 0, wait_duration = kBufferWaitDuration, data_calls = []\<rparr>"

section \<open>Output buffers\<close>

definition page_size :: "u32 \<Rightarrow> u32" where
  "page_size n = (n + 4095) AND NOT 4095"

text \<open>One buffer: the memory, its descriptor, its mapping.\<close>

definition output_memory :: "codec_env \<Rightarrow> u32 \<Rightarrow> track_encoder \<Rightarrow> (int + int) \<times> track_encoder" where
  "output_memory E n t =
     (if \<not> ion_legacy E then (ion_alloc_fd E (output_buffer_list t) n, t)
      else case ion_alloc E (output_buffer_list t) n of
        Inl e \<Rightarrow> (Inl e, t)
      | Inr h \<Rightarrow>
          (case ion_share E h of
             Inl e \<Rightarrow> (Inl e, t)
           | Inr fd \<Rightarrow>
               (Inr fd, if kv_find (fd_ion_handle_map t) fd = None
                        then t\<lparr>fd_ion_handle_map := kv_add fd h (fd_ion_handle_map t)\<rparr> else t)))"

primrec alloc_bufs :: "codec_env \<Rightarrow> nat \<Rightarrow> u32 \<Rightarrow> track_encoder \<Rightarrow> int \<times> track_encoder" where
  "alloc_bufs E 0 n t = (NO_ERROR, t)"
| "alloc_bufs E (Suc k) n t =
     (let m = page_size n
      in case output_memory E m t of
           (Inl e, t1) \<Rightarrow> (e, t1)
         | (Inr fd, t1) \<Rightarrow>
             (case map_buffer E fd m of
                Inl e \<Rightarrow> (e, t1)
              | Inr a \<Rightarrow>
                  alloc_bufs E k m
                    (t1\<lparr>output_buffer_list := output_buffer_list t1 @ [zero_descriptor\<lparr>bd_fd := fd, bd_capacity := m, bd_data := a\<rparr>]\<rparr>)))"

definition output_count :: "enc_params \<Rightarrow> u32 \<Rightarrow> u32" where
  "output_count p n = (if enc_format p = kAVC \<and> enc_slices p then n else AVCODEC_OUT_BUF_COUNT)"

definition AllocOutputPortBufs :: "codec_env \<Rightarrow> track_encoder \<Rightarrow> (int \<times> track_encoder) option" where
  "AllocOutputPortBufs E t =
     (case cd_requirements E of
        (e, k, n) \<Rightarrow>
          if e \<noteq> NO_ERROR \<or> te_ion_device t < 0 then None
          else Some (alloc_bufs E (unat (output_count (te_params t) k)) n t))"

text \<open>At least five seconds, as \<open>wait_duration\<close> is computed in \<open>Init\<close> and \<open>SetParams\<close>.\<close>

definition wait_time :: "codec_env \<Rightarrow> nat \<Rightarrow> u64" where
  "wait_time E fps = (if five_frames E fps < kBufferWaitDuration then kBufferWaitDuration else five_frames E fps)"

definition GetWaitTime :: "track_encoder \<Rightarrow> u64" where
  "GetWaitTime t = wait_duration t"

definition Init :: "codec_env \<Rightarrow> enc_params \<Rightarrow> track_encoder \<Rightarrow> (int \<times> track_encoder) option" where
  "Init E p t =
     (let t1 = t\<lparr>te_params := p\<rparr>
      in if enc_format p = kJPEG \<and> \<not> jpeg_postproc E then Some (- EINVAL, t1)
         else if cd_configure E \<noteq> NO_ERROR \<or> cd_input E \<noteq> NO_ERROR then None
         else case AllocOutputPortBufs E (t1\<lparr>avcodec := True\<rparr>) of
           None \<Rightarrow> None
         | Some (e, t2) \<Rightarrow>
             if e \<noteq> NO_ERROR then None
             else if cd_register E \<noteq> NO_ERROR then Some (cd_register E, t2)
             else if cd_output E \<noteq> NO_ERROR then Some (cd_output E, t2)
             else Some (NO_ERROR, t2\<lparr>output_free_buffer_queue := output_free_buffer_queue t2 @ output_buffer_list t2,
                                     wait_duration := wait_time E (enc_fps p)\<rparr>))"

text \<open>What the destructor gives back, buffer by buffer.\<close>

datatype release = Munmap nat u32 | Ion_free int | Close_fd int

definition release_buffer :: "codec_env \<Rightarrow> (int, int) kv \<Rightarrow> BufferDescriptor \<Rightarrow> release list" where
  "release_buffer E m b =
     (if bd_data b \<noteq> 0 then [Munmap (bd_data b) (bd_capacity b)] else []) @
     (if bd_fd b \<noteq> 0 then
        (if ion_legacy E then [Ion_free (case kv_find m (bd_fd b) of Some h \<Rightarrow> h | None \<Rightarrow> 0)] else []) @ [Close_fd (bd_fd b)]
      else [])"

definition free_encoder :: "codec_env \<Rightarrow> track_encoder \<Rightarrow> release list option" where
  "free_encoder E t =
     (if \<not> avcodec t then None else Some (concat (map (release_buffer E (fd_ion_handle_map t)) (output_buffer_list t))))"

section \<open>The codec takes and fills buffers\<close>

text \<open>The wait for a free buffer: a time-out ends it; each other outcome carries the state after the wait.\<close>

fun wait_free :: "(bool \<times> track_encoder) list \<Rightarrow> track_encoder \<Rightarrow> bool \<times> track_encoder" where
  "wait_free ws t =
     (if output_free_buffer_queue t \<noteq> [] then (True, t)
      else case ws of
        [] \<Rightarrow> (False, t)
      | (timedout, t1) # ws1 \<Rightarrow> if timedout then (False, t1) else wait_free ws1 t1)"

declare wait_free.simps [simp del]

text \<open>
  \<open>GetBuffer\<close> has two critical sections: the first reads the front of the free queue, the second
  moves it. What other threads do between them is \<open>mid\<close>.
\<close>

definition front_buffer :: "codec_env \<Rightarrow> (bool \<times> track_encoder) list \<Rightarrow> track_encoder \<Rightarrow> (int + BufferDescriptor) \<times> track_encoder" where
  "front_buffer E ws t =
     (case wait_free ws t of
        (found, t1) \<Rightarrow>
          if \<not> found then (Inl TIMED_OUT, t1)
          else
            let b = hd (output_free_buffer_queue t1);
                h = (case kv_find (fd_ion_handle_map t1) (bd_fd b) of Some h \<Rightarrow> h | None \<Rightarrow> 0);
                t2 = t1\<lparr>fd_ion_handle_map := kv_add (bd_fd b) h (fd_ion_handle_map t1)\<rparr>
            in if ion_abi E then (Inr b, t1)
               else if clean_cache E h b \<noteq> NO_ERROR then (Inl (clean_cache E h b), t2)
               else (Inr b, t2))"

definition occupy_buffer :: "BufferDescriptor \<Rightarrow> track_encoder \<Rightarrow> track_encoder option" where
  "occupy_buffer b t =
     (if output_free_buffer_queue t = [] then None
      else Some (t\<lparr>output_occupy_buffer_queue := output_occupy_buffer_queue t @ [b],
                   output_free_buffer_queue := tl (output_free_buffer_queue t)\<rparr>))"

definition GetBuffer :: "codec_env \<Rightarrow> (bool \<times> track_encoder) list \<Rightarrow> (track_encoder \<Rightarrow> track_encoder) \<Rightarrow> BufferDescriptor \<Rightarrow> track_encoder
    \<Rightarrow> (int \<times> BufferDescriptor \<times> track_encoder) option" where
  "GetBuffer E ws mid c t =
     (case front_buffer E ws t of
        (Inl e, t1) \<Rightarrow> Some (e, c, t1)
      | (Inr b, t1) \<Rightarrow> map_option (\<lambda>t2. (NO_ERROR, c\<lparr>bd_fd := bd_fd b, bd_data := bd_data b\<rparr>, t2)) (occupy_buffer b (mid t1)))"

text \<open>The first occupied buffer that fits goes to the end of the free queue.\<close>

definition move_first :: "(BufferDescriptor \<Rightarrow> bool) \<Rightarrow> track_encoder \<Rightarrow> bool \<times> track_encoder" where
  "move_first P t =
     (case List.extract P (output_occupy_buffer_queue t) of
        None \<Rightarrow> (False, t)
      | Some (xs, b, ys) \<Rightarrow>
          (True, t\<lparr>output_free_buffer_queue := output_free_buffer_queue t @ [b], output_occupy_buffer_queue := xs @ ys\<rparr>))"

text \<open>The measured rate, for the log.\<close>

definition usec :: "int \<times> int \<Rightarrow> int" where
  "usec tv = fst tv * 1000000 + snd tv div 1000"

definition note_rate :: "int \<times> int \<Rightarrow> BufferDescriptor \<Rightarrow> track_encoder \<Rightarrow> track_encoder" where
  "note_rate now c t =
     (if debug_fps t AND 1 = 0 \<or> bd_size c = 0 \<or> bd_timestamp c = 0 then t
      else
        let t1 = t\<lparr>num_bytes := num_bytes t + bd_size c, frame_count := frame_count t + 1\<rparr>
        in if word_of_int (usec now - usec (prevtv t)) \<ge> FPS_TIME_INTERVAL
           then t1\<lparr>prevtv := now, frame_count := 0, num_bytes := 0\<rparr> else t1)"

definition frame_type :: "u32 \<Rightarrow> u32" where
  "frame_type f =
     (let a = (if f AND kFlagIDRFrame \<noteq> 0 then kFlagIDRFrame else 0);
          b = (if f AND kFlagIFrame \<noteq> 0 then a OR kFlagIFrame else a);
          c = (if f AND kFlagPFrame \<noteq> 0 then kFlagPFrame else b)
      in if f AND kFlagBFrame \<noteq> 0 then kFlagBFrame else c)"

definition bn_buffer :: "BufferDescriptor \<Rightarrow> BufferDescriptor \<Rightarrow> BnBuffer" where
  "bn_buffer b c =
     \<lparr>ion_fd = bd_fd b, ion_meta_fd = -1, bn_size = bd_size c, bn_timestamp = bd_timestamp c, bn_width = -1, bn_height = -1,
      buffer_id = word_of_int (bd_fd b), bn_flag = bd_flag c, bn_capacity = bd_capacity b\<rparr>"

definition NotifyBufferToClient :: "BufferDescriptor \<Rightarrow> track_encoder \<Rightarrow> track_encoder option" where
  "NotifyBufferToClient c t =
     (if \<not> enc_data_cb (te_params t) then None
      else
        let t1 = (if bd_flag c AND kFlagEOS \<noteq> 0 then t\<lparr>eos_atoutput := True\<rparr> else t)
        in if is_force_cleanup t1 then Some t1
           else case List.find (\<lambda>b. bd_data b = bd_data c) (output_occupy_buffer_queue t1) of
             None \<Rightarrow> None
           | Some b \<Rightarrow> Some (t1\<lparr>data_calls := data_calls t1 @ [(bn_buffer b c, kVideoFrameType, frame_type (bd_flag c))]\<rparr>))"

definition ReturnBuffer :: "int \<times> int \<Rightarrow> BufferDescriptor \<Rightarrow> track_encoder \<Rightarrow> (int \<times> track_encoder) option" where
  "ReturnBuffer now c t =
     (if bd_data c = 0 then None
      else
        let t1 = note_rate now c t
        in if eos_atoutput t1 \<or> bd_size c = 0 then Some (NO_ERROR, snd (move_first (\<lambda>b. bd_data b = bd_data c) t1))
           else map_option (Pair NO_ERROR) (NotifyBufferToClient c t1))"

section \<open>The client gives buffers back\<close>

primrec return_ids :: "u32 list \<Rightarrow> track_encoder \<Rightarrow> int \<times> track_encoder" where
  "return_ids [] t = (NO_ERROR, t)"
| "return_ids (i # is) t =
     (case move_first (\<lambda>b. bd_fd b = sint i) t of
        (match, t1) \<Rightarrow> if match then return_ids is t1 else (FAILED_TRANSACTION, t1))"

definition OnBufferReturnFromClient :: "BnBuffer list \<Rightarrow> track_encoder \<Rightarrow> int \<times> track_encoder" where
  "OnBufferReturnFromClient bs t = (if is_force_cleanup t then (NO_ERROR, t) else return_ids (map buffer_id bs) t)"

section \<open>The life of a track encoder\<close>

definition Start :: "codec_env \<Rightarrow> track_encoder \<Rightarrow> (int \<times> track_encoder) option" where
  "Start E t = (if \<not> avcodec t \<or> cd_start E \<noteq> NO_ERROR then None else Some (NO_ERROR, t\<lparr>eos_atoutput := False\<rparr>))"

definition force_cleanup :: "track_encoder \<Rightarrow> track_encoder" where
  "force_cleanup t =
     t\<lparr>is_force_cleanup := True, output_free_buffer_queue := output_free_buffer_queue t @ output_occupy_buffer_queue t,
       output_occupy_buffer_queue := []\<rparr>"

definition Stop :: "codec_env \<Rightarrow> bool \<Rightarrow> track_encoder \<Rightarrow> (int \<times> track_encoder) option" where
  "Stop E force t =
     (let t1 = (if force then force_cleanup t else t)
      in if \<not> avcodec t \<or> cd_stop E \<noteq> NO_ERROR then None else Some (NO_ERROR, t1))"

text \<open>\<open>rate\<close> is the new frame rate, when that is the parameter.\<close>

definition SetParams :: "codec_env \<Rightarrow> nat option \<Rightarrow> track_encoder \<Rightarrow> (int \<times> track_encoder) option" where
  "SetParams E rate t =
     (if \<not> avcodec t then None
      else Some (cd_params E, case rate of None \<Rightarrow> t | Some fps \<Rightarrow> t\<lparr>wait_duration := wait_time E fps\<rparr>))"

definition ReleaseHeaders :: "codec_env \<Rightarrow> track_encoder \<Rightarrow> int option" where
  "ReleaseHeaders E t = (if \<not> avcodec t then None else Some (cd_release E))"

definition Flush :: "codec_env \<Rightarrow> track_encoder \<Rightarrow> int option" where
  "Flush E t = (if \<not> avcodec t then None else Some (cd_flush E))"

section \<open>The table of track encoders\<close>

record encoder_core =
  track_encoders :: "(u32, track_encoder) kv"
  core_ion_device :: int

definition EncoderCore :: encoder_core where
  "EncoderCore = \<lparr>track_encoders = [], core_ion_device = -1\<rparr>"

definition isTrackValid :: "u32 \<Rightarrow> encoder_core \<Rightarrow> bool" where
  "isTrackValid i c = (kv_find (track_encoders c) i \<noteq> None)"

text \<open>An encoder for a track id that is taken is dropped again: \<^verbatim>\<open>emplace\<close> keeps the old one.\<close>

definition AddSource :: "codec_env \<Rightarrow> u32 \<Rightarrow> enc_params \<Rightarrow> encoder_core \<Rightarrow> (int \<times> encoder_core) option" where
  "AddSource E fps p c =
     (let dev = (if core_ion_device c < 0 then open_ion E else core_ion_device c);
          c1 = c\<lparr>core_ion_device := dev\<rparr>
      in if dev < 0 then None
         else case Init E p (TrackEncoder fps dev) of
           None \<Rightarrow> None
         | Some (e, t) \<Rightarrow>
             if e \<noteq> NO_ERROR then (if avcodec t then Some (BAD_VALUE, c1) else None)
             else Some (NO_ERROR, if isTrackValid (enc_track_id p) c1 then c1
                                  else c1\<lparr>track_encoders := kv_add (enc_track_id p) t (track_encoders c1)\<rparr>))"

text \<open>The calls that reach one track encoder.\<close>

definition on_track :: "u32 \<Rightarrow> int \<Rightarrow> (track_encoder \<Rightarrow> (int \<times> track_encoder) option) \<Rightarrow> encoder_core \<Rightarrow> (int \<times> encoder_core) option" where
  "on_track i bad f c =
     (case kv_find (track_encoders c) i of
        None \<Rightarrow> Some (bad, c)
      | Some t \<Rightarrow> map_option (\<lambda>(e, t1). (e, c\<lparr>track_encoders := kv_add i t1 (track_encoders c)\<rparr>)) (f t))"

definition StartTrackEncoder :: "codec_env \<Rightarrow> u32 \<Rightarrow> encoder_core \<Rightarrow> (int \<times> encoder_core) option" where
  "StartTrackEncoder E i = on_track i BAD_VALUE (Start E)"

definition StopTrackEncoder :: "codec_env \<Rightarrow> u32 \<Rightarrow> bool \<Rightarrow> encoder_core \<Rightarrow> (int \<times> encoder_core) option" where
  "StopTrackEncoder E i force = on_track i BAD_VALUE (Stop E force)"

definition SetTrackEncoderParams :: "codec_env \<Rightarrow> u32 \<Rightarrow> nat option \<Rightarrow> encoder_core \<Rightarrow> (int \<times> encoder_core) option" where
  "SetTrackEncoderParams E i rate =
     on_track i BAD_VALUE (\<lambda>t. case SetParams E rate t of Some (e, t1) \<Rightarrow> (if e \<noteq> NO_ERROR then None else Some (e, t1)) | None \<Rightarrow> None)"

definition DeleteTrackEncoder :: "codec_env \<Rightarrow> u32 \<Rightarrow> encoder_core \<Rightarrow> (int \<times> encoder_core) option" where
  "DeleteTrackEncoder E i c =
     (case kv_find (track_encoders c) i of
        None \<Rightarrow> Some (BAD_VALUE, c)
      | Some t \<Rightarrow>
          if ReleaseHeaders E t \<noteq> Some NO_ERROR then None
          else Some (NO_ERROR, c\<lparr>track_encoders := kv_remove i (track_encoders c)\<rparr>))"

definition ReturnTrackBuffer :: "u32 \<Rightarrow> BnBuffer list \<Rightarrow> encoder_core \<Rightarrow> (int \<times> encoder_core) option" where
  "ReturnTrackBuffer i bs = on_track i BAD_VALUE (\<lambda>t. Some (OnBufferReturnFromClient bs t))"

definition FlushTrack :: "codec_env \<Rightarrow> u32 \<Rightarrow> encoder_core \<Rightarrow> (int \<times> encoder_core) option" where
  "FlushTrack E i = on_track i NAME_NOT_FOUND (\<lambda>t. map_option (\<lambda>e. (e, t)) (Flush E t))"

end
