(* ===== verification/Encoder_Claims.thy ===== *)
theory Encoder_Claims
  imports Encoder_Core
begin

text \<open>
  The output buffers of a track encoder: how they are allocated, who has each of them over any
  interleaving of the codec's threads, the client and the recorder service, the end of a stream, and
  a stop for a client that is gone.
\<close>

section \<open>Allocation\<close>

text \<open>What the allocator promises: open descriptors differ and fit in an \<^verbatim>\<open>int32_t\<close>, mappings do not overlap.\<close>

definition memory_ok :: "codec_env \<Rightarrow> bool" where
  "memory_ok E \<longleftrightarrow>
     (\<forall>n t fd t1. output_memory E n t = (Inr fd, t1) \<longrightarrow> fd \<notin> bd_fd ` set (output_buffer_list t) \<and> 0 \<le> fd \<and> fd < 2 ^ 31) \<and>
     (\<forall>fd n a. map_buffer E fd n = Inr a \<longrightarrow> a \<noteq> 0) \<and>
     (\<forall>fd n fd' n' a. map_buffer E fd n = Inr a \<and> map_buffer E fd' n' = Inr a \<longrightarrow> fd = fd')"

text \<open>The buffers of a track encoder: told apart by descriptor and by address.\<close>

definition buffers_ok :: "codec_env \<Rightarrow> BufferDescriptor list \<Rightarrow> bool" where
  "buffers_ok E bs \<longleftrightarrow> distinct (map bd_fd bs) \<and> distinct (map bd_data bs) \<and>
     (\<forall>b \<in> set bs. bd_data b \<noteq> 0 \<and> 0 \<le> bd_fd b \<and> bd_fd b < 2 ^ 31 \<and> map_buffer E (bd_fd b) (bd_capacity b) = Inr (bd_data b))"

lemma page_down: "unat ((w :: u32) AND NOT 4095) = unat w div 4096 * 4096"
proof -
  have "(4095 :: u32) = mask 12" by (simp add: mask_eq_exp_minus_1)
  then have "w AND NOT 4095 = w AND NOT (take_bit 12 w)" by (simp add: bit_eq_iff bit_simps) blast
  also have "\<dots> = w - take_bit 12 w" by (rule disjunctive_diff [symmetric]) (simp add: bit_simps)
  finally have e: "w AND NOT 4095 = w - take_bit 12 w" .
  have m: "unat (take_bit 12 w) = unat w mod 4096" unfolding unsigned_take_bit_eq by (simp add: take_bit_eq_mod)
  then have "take_bit 12 w \<le> w" by (simp add: word_le_nat_alt)
  then have "unat (w - take_bit 12 w) = unat w - unat w mod 4096" by (simp add: unat_sub m)
  then show ?thesis using e by (simp add: minus_mod_eq_div_mult)
qed

lemma page_size_nat: "unat n < 2 ^ 32 - 4095 \<Longrightarrow> unat (page_size n) = (unat n + 4095) div 4096 * 4096"
proof -
  assume "unat n < 2 ^ 32 - 4095"
  then have "unat (n + 4095) = unat n + 4095" by (simp add: unat_word_ariths(1))
  then show ?thesis unfolding page_size_def page_down by simp
qed

lemma page_size_page: "page_size (page_size n) = page_size n"
proof -
  define k where "k = unat (n + 4095) div 4096"
  have p: "unat (page_size n) = k * 4096" unfolding page_size_def page_down k_def ..
  have "k * 4096 < 2 ^ 32" using unsigned_less [of "page_size n", where ?'a = nat] p by simp
  then have "unat (page_size n + 4095) = k * 4096 + 4095" using p by (simp add: unat_word_ariths(1))
  then have "unat (page_size (page_size n)) = k * 4096" unfolding page_size_def [of "page_size n"] page_down by simp
  then show ?thesis using p by (metis unsigned_word_eqI)
qed

lemma output_memory_keeps: "output_memory E n t = (r, t1) \<Longrightarrow> \<exists>m. t1 = t\<lparr>fd_ion_handle_map := m\<rparr>"
  by (auto simp: output_memory_def split: if_splits sum.splits intro: exI [of _ "fd_ion_handle_map t"])

lemma buffers_ok_snoc:
  assumes "memory_ok E" "buffers_ok E (output_buffer_list t)" "output_memory E m t = (Inr fd, t1)" "map_buffer E fd m = Inr a"
  shows "buffers_ok E (output_buffer_list t @ [zero_descriptor\<lparr>bd_fd := fd, bd_capacity := m, bd_data := a\<rparr>])"
proof -
  have fd: "fd \<notin> bd_fd ` set (output_buffer_list t)" "0 \<le> fd" "fd < 2 ^ 31" and a: "a \<noteq> 0"
    and inj: "\<And>fd' n'. map_buffer E fd' n' = Inr a \<Longrightarrow> fd' = fd"
    using assms(1,3,4) unfolding memory_ok_def by blast+
  have "a \<notin> bd_data ` set (output_buffer_list t)" using assms(2) fd(1) inj by (fastforce simp: buffers_ok_def)
  then show ?thesis using assms(2,4) fd a by (auto simp: buffers_ok_def)
qed

text \<open>A successful allocation gives new buffers, each of the page size of the request, and touches nothing else.\<close>

lemma alloc_bufs_ok:
  assumes "alloc_bufs E k n t = (e, t')" "memory_ok E" "buffers_ok E (output_buffer_list t)"
  shows "buffers_ok E (output_buffer_list t') \<and> (\<forall>b \<in> set (output_buffer_list t') - set (output_buffer_list t). bd_capacity b = page_size n) \<and>
    (\<exists>bs m. t' = t\<lparr>output_buffer_list := bs, fd_ion_handle_map := m\<rparr>) \<and>
    (e = NO_ERROR \<and> (\<forall>n t e t1. output_memory E n t = (Inl e, t1) \<longrightarrow> e \<noteq> 0) \<and> (\<forall>fd n e. map_buffer E fd n = Inl e \<longrightarrow> e \<noteq> 0) \<longrightarrow>
       length (output_buffer_list t') = length (output_buffer_list t) + k)"
  using assms
proof (induction k arbitrary: n t)
  case 0
  then show ?case by (auto intro!: exI [of _ "output_buffer_list t"] exI [of _ "fd_ion_handle_map t"])
next
  case (Suc k)
  obtain r t1 where r: "output_memory E (page_size n) t = (r, t1)" by fastforce
  then obtain m where t1: "t1 = t\<lparr>fd_ion_handle_map := m\<rparr>" using output_memory_keeps by blast
  have same: "output_buffer_list t1 = output_buffer_list t" using t1 by simp
  have stop: ?case if "t' = t1" "e = 0 \<longrightarrow> (\<exists>n t t1. output_memory E n t = (Inl 0, t1)) \<or> (\<exists>fd n. map_buffer E fd n = Inl 0)"
  proof -
    have "\<exists>bs m. t' = t\<lparr>output_buffer_list := bs, fd_ion_handle_map := m\<rparr>"
      using that(1) t1 by (auto intro!: exI [of _ "output_buffer_list t"] exI [of _ m])
    then show ?thesis using that Suc.prems(3) same by (metis Diff_cancel empty_iff)
  qed
  show ?case
  proof (cases r)
    case (Inl x)
    then have "e = x" "t' = t1" using Suc.prems(1) r by (simp_all add: Let_def)
    then show ?thesis using stop r Inl by blast
  next
    case (Inr fd)
    show ?thesis
    proof (cases "map_buffer E fd (page_size n)")
      case (Inl x)
      then have "e = x" "t' = t1" using Suc.prems(1) r Inr by (simp_all add: Let_def)
      then show ?thesis using stop Inl by blast
    next
      case a: (Inr a)
      define b where "b = zero_descriptor\<lparr>bd_fd := fd, bd_capacity := page_size n, bd_data := a\<rparr>"
      define t2 where "t2 = t1\<lparr>output_buffer_list := output_buffer_list t1 @ [b]\<rparr>"
      have rest: "alloc_bufs E k (page_size n) t2 = (e, t')" using Suc.prems(1) r Inr a by (simp add: Let_def t2_def b_def)
      have ok: "buffers_ok E (output_buffer_list t2)"
        using buffers_ok_snoc [OF Suc.prems(2,3) r [unfolded Inr] a] same by (simp add: t2_def b_def)
      note IH = Suc.IH [OF rest Suc.prems(2) ok]
      have l: "output_buffer_list t2 = output_buffer_list t @ [b]" "bd_capacity b = page_size n" using same by (simp_all add: t2_def b_def)
      have "\<exists>bs m. t' = t\<lparr>output_buffer_list := bs, fd_ion_handle_map := m\<rparr>" using IH t1 by (auto simp: t2_def)
      then show ?thesis using IH l by (auto simp: page_size_page)
    qed
  qed
qed

section \<open>Moving buffers\<close>

lemma move_first_in:
  assumes "b \<in> set (output_occupy_buffer_queue t)" "\<And>x. x \<in> set (output_occupy_buffer_queue t) \<Longrightarrow> P x \<longleftrightarrow> x = b"
  shows "move_first P t = (True, t\<lparr>output_free_buffer_queue := output_free_buffer_queue t @ [b],
    output_occupy_buffer_queue := remove1 b (output_occupy_buffer_queue t)\<rparr>)"
proof -
  obtain xs ys where s: "output_occupy_buffer_queue t = xs @ b # ys" "b \<notin> set xs" using split_list_first [OF assms(1)] by blast
  then have "List.extract P (output_occupy_buffer_queue t) = Some (xs, b, ys)" using assms(2) by (auto simp: extract_Some_iff)
  then show ?thesis using s by (simp add: move_first_def remove1_append)
qed

lemma move_first_out: "(\<And>x. x \<in> set (output_occupy_buffer_queue t) \<Longrightarrow> \<not> P x) \<Longrightarrow> move_first P t = (False, t)"
  by (simp add: move_first_def extract_None_iff [THEN iffD2])

lemma move_first_keeps:
  "move_first P t = (r, t1) \<Longrightarrow> \<exists>f u. t1 = t\<lparr>output_free_buffer_queue := output_free_buffer_queue t @ f, output_occupy_buffer_queue := u\<rparr> \<and>
     mset f + mset u = mset (output_occupy_buffer_queue t)"
proof (cases "List.extract P (output_occupy_buffer_queue t)")
  case None
  then show "move_first P t = (r, t1) \<Longrightarrow> ?thesis" by (intro exI [of _ "[]"] exI [of _ "output_occupy_buffer_queue t"]) (simp add: move_first_def)
next
  case (Some q)
  then obtain xs b ys where "List.extract P (output_occupy_buffer_queue t) = Some (xs, b, ys)" by (cases q) auto
  then show "move_first P t = (r, t1) \<Longrightarrow> ?thesis"
    by (intro exI [of _ "[b]"] exI [of _ "xs @ ys"]) (simp add: move_first_def extract_Some_iff)
qed

lemma sint_fd: "0 \<le> fd \<Longrightarrow> fd < 2 ^ 31 \<Longrightarrow> sint (word_of_int fd :: u32) = fd"
  by (simp add: sint_uint uint_word_of_int signed_take_bit_int_eq_self_iff take_bit_int_eq_self_iff)

lemma return_ids_all:
  assumes "mset bs \<subseteq># mset (output_occupy_buffer_queue t)" "inj_on bd_fd (set (output_occupy_buffer_queue t))"
    "\<forall>b \<in> set bs. sint (i b) = bd_fd b"
  shows "return_ids (map i bs) t = (NO_ERROR, t\<lparr>output_free_buffer_queue := output_free_buffer_queue t @ bs,
    output_occupy_buffer_queue := fold remove1 bs (output_occupy_buffer_queue t)\<rparr>)"
  using assms
proof (induction bs arbitrary: t)
  case (Cons b bs)
  let ?t = "t\<lparr>output_free_buffer_queue := output_free_buffer_queue t @ [b], output_occupy_buffer_queue := remove1 b (output_occupy_buffer_queue t)\<rparr>"
  have b: "b \<in> set (output_occupy_buffer_queue t)" using Cons.prems(1) by (auto dest: mset_subset_eq_insertD)
  have "x \<in> set (output_occupy_buffer_queue t) \<Longrightarrow> (bd_fd x = sint (i b)) \<longleftrightarrow> x = b" for x
    using Cons.prems(2,3) b by (auto dest: inj_onD)
  then have m: "move_first (\<lambda>x. bd_fd x = sint (i b)) t = (True, ?t)" by (rule move_first_in [OF b])
  have "return_ids (map i bs) ?t = (NO_ERROR, ?t\<lparr>output_free_buffer_queue := output_free_buffer_queue ?t @ bs,
      output_occupy_buffer_queue := fold remove1 bs (output_occupy_buffer_queue ?t)\<rparr>)"
  proof (rule Cons.IH)
    show "mset bs \<subseteq># mset (output_occupy_buffer_queue ?t)" using Cons.prems(1) by (simp add: insert_subset_eq_iff)
    show "inj_on bd_fd (set (output_occupy_buffer_queue ?t))" using Cons.prems(2) by (auto intro: inj_on_subset [OF _ set_remove1_subset])
  qed (use Cons.prems(3) in simp)
  then show ?case using m by simp
qed simp

lemma mset_fold_remove1: "mset (fold remove1 bs xs) = mset xs - mset bs"
  by (induction bs arbitrary: xs) simp_all

section \<open>The threads around a track encoder\<close>

text \<open>
  A state has the track encoder, the buffers that the codec and the client have, the buffer that the
  codec's thread has read but not yet moved, and the number of calls made before the last start. The
  two sections of \<open>GetBuffer\<close> are two steps, so everything else may come between them.
\<close>

type_synonym enc_state = "track_encoder \<times> BufferDescriptor multiset \<times> BufferDescriptor multiset \<times> BufferDescriptor option \<times> nat"

inductive enc_step :: "codec_env \<Rightarrow> enc_state \<Rightarrow> enc_state \<Rightarrow> bool" for E where
  Peek: "front_buffer E [] t = (r, t1) \<Longrightarrow> enc_step E (t, C, K, None, n) (t1, C, K, (case r of Inl e \<Rightarrow> None | Inr b \<Rightarrow> Some b), n)"
| Occupy: "occupy_buffer b t = Some t1 \<Longrightarrow> enc_step E (t, C, K, Some b, n) (t1, add_mset b C, K, None, n)"
| Filled: "b \<in># C \<Longrightarrow> bd_data c = bd_data b \<Longrightarrow> ReturnBuffer now c t = Some (e, t1) \<Longrightarrow>
    enc_step E (t, C, K, p, n) (t1, C - {#b#}, (if eos_atoutput t \<or> bd_size c = 0 then K else add_mset b K), p, n)"
| Returned: "mset bs \<subseteq># K \<Longrightarrow> OnBufferReturnFromClient (map (\<lambda>b. bn_buffer b (c b)) bs) t = (e, t1) \<Longrightarrow>
    enc_step E (t, C, K, p, n) (t1, C, K - mset bs, p, n)"
| Started: "Start E t = Some (e, t1) \<Longrightarrow> enc_step E (t, C, K, p, n) (t1, C, K, p, length (data_calls t1))"
| Stopped: "Stop E force t = Some (e, t1) \<Longrightarrow> enc_step E (t, C, K, p, n) (t1, C, K, p, n)"
| Changed: "SetParams E rate t = Some (e, t1) \<Longrightarrow> enc_step E (t, C, K, p, n) (t1, C, K, p, n)"

definition enc_start :: "codec_env \<Rightarrow> enc_state \<Rightarrow> bool" where
  "enc_start E x \<longleftrightarrow> memory_ok E \<and> (\<exists>fps dev p t. enc_data_cb p \<and> Init E p (TrackEncoder fps dev) = Some (NO_ERROR, t) \<and> x = (t, {#}, {#}, None, 0))"

definition call_eos :: "data_call \<Rightarrow> bool" where
  "call_eos x = (bn_flag (fst x) AND kFlagEOS \<noteq> 0)"

text \<open>Where the buffers are, and that the end of the stream is the last call.\<close>

definition enc_ledger :: "codec_env \<Rightarrow> enc_state \<Rightarrow> bool" where
  "enc_ledger E x = (case x of (t, C, K, p, n) \<Rightarrow>
     buffers_ok E (output_buffer_list t) \<and> enc_data_cb (te_params t) \<and>
     mset (output_free_buffer_queue t) + mset (output_occupy_buffer_queue t) = mset (output_buffer_list t) \<and>
     set_mset (C + K) \<subseteq> set (output_buffer_list t) \<and>
     (\<not> is_force_cleanup t \<longrightarrow> mset (output_occupy_buffer_queue t) = C + K) \<and>
     (\<forall>b. p = Some b \<longrightarrow> output_free_buffer_queue t \<noteq> [] \<and> hd (output_free_buffer_queue t) = b))"

definition eos_last :: "enc_state \<Rightarrow> bool" where
  "eos_last x = (case x of (t, C, K, p, n) \<Rightarrow> n \<le> length (data_calls t) \<and>
     ((\<forall>y \<in> set (drop n (data_calls t)). \<not> call_eos y) \<or>
      eos_atoutput t \<and> drop n (data_calls t) \<noteq> [] \<and> (\<forall>y \<in> set (butlast (drop n (data_calls t))). \<not> call_eos y)))"

lemma ledger_occ:
  assumes "enc_ledger E (t, C, K, p, n)"
  shows "set (output_occupy_buffer_queue t) \<subseteq> set (output_buffer_list t)" "set (output_free_buffer_queue t) \<subseteq> set (output_buffer_list t)"
  using assms unfolding enc_ledger_def by (auto dest!: arg_cong [where f = set_mset])

lemma ledger_inj:
  assumes "enc_ledger E (t, C, K, p, n)"
  shows "inj_on bd_fd (set (output_buffer_list t))" "inj_on bd_data (set (output_buffer_list t))"
  using assms by (auto simp: enc_ledger_def buffers_ok_def distinct_map)

lemma ledger_distinct:
  assumes "enc_ledger E (t, C, K, p, n)"
  shows "distinct (output_free_buffer_queue t @ output_occupy_buffer_queue t)"
proof -
  have "mset (output_free_buffer_queue t @ output_occupy_buffer_queue t) = mset (output_buffer_list t)" "distinct (output_buffer_list t)"
    using assms by (simp_all add: enc_ledger_def buffers_ok_def distinct_map)
  then show ?thesis using mset_eq_imp_distinct_iff by blast
qed

lemma ledger_cong:
  assumes "output_buffer_list t1 = output_buffer_list t" "output_free_buffer_queue t1 = output_free_buffer_queue t"
    "output_occupy_buffer_queue t1 = output_occupy_buffer_queue t" "is_force_cleanup t1 = is_force_cleanup t" "te_params t1 = te_params t"
  shows "enc_ledger E (t1, C, K, p, m) = enc_ledger E (t, C, K, p, n)"
  using assms by (simp add: enc_ledger_def)

lemma note_rate_keeps [simp]:
  "output_buffer_list (note_rate now c t) = output_buffer_list t"
  "output_free_buffer_queue (note_rate now c t) = output_free_buffer_queue t"
  "output_occupy_buffer_queue (note_rate now c t) = output_occupy_buffer_queue t"
  "is_force_cleanup (note_rate now c t) = is_force_cleanup t"
  "te_params (note_rate now c t) = te_params t"
  "eos_atoutput (note_rate now c t) = eos_atoutput t"
  "data_calls (note_rate now c t) = data_calls t"
  by (simp_all add: note_rate_def Let_def)

lemma front_keeps:
  assumes "front_buffer E [] t = (r, t1)"
  shows "\<exists>m. t1 = t\<lparr>fd_ion_handle_map := m\<rparr>" "r = Inr b \<Longrightarrow> output_free_buffer_queue t \<noteq> [] \<and> hd (output_free_buffer_queue t) = b"
  using assms by (auto simp: front_buffer_def wait_free.simps [of "[]"] Let_def split: if_splits intro: exI [of _ "fd_ion_handle_map t"])

lemma peek_ledger: "enc_ledger E (t, C, K, None, n) \<Longrightarrow> front_buffer E [] t = (r, t1) \<Longrightarrow>
    enc_ledger E (t1, C, K, (case r of Inl e \<Rightarrow> None | Inr b \<Rightarrow> Some b), n)"
  using front_keeps(1) [of E t r t1] front_keeps(2) [of E t r t1] by (auto simp: enc_ledger_def split: sum.splits)

lemma occupy_ledger:
  assumes "enc_ledger E (t, C, K, Some b, n)" "occupy_buffer b t = Some t1"
  shows "enc_ledger E (t1, add_mset b C, K, None, n)"
proof -
  have f: "output_free_buffer_queue t = b # tl (output_free_buffer_queue t)" using assms(1) by (auto simp: enc_ledger_def)
  then have "mset (output_free_buffer_queue t) = add_mset b (mset (tl (output_free_buffer_queue t)))" by (metis mset.simps(2))
  moreover have "b \<in> set (output_buffer_list t)" using ledger_occ(2) [OF assms(1)] f by (metis list.set_intros(1) subsetD)
  ultimately show ?thesis using assms by (auto simp: enc_ledger_def occupy_buffer_def split: if_splits)
qed

text \<open>The codec gives back a buffer: to the client, or to the free queue without data or after the end of the stream.\<close>

lemma filled_occ:
  assumes "enc_ledger E (t, C, K, p, n)" "b \<in># C" "bd_data c = bd_data b" "\<not> is_force_cleanup t"
  shows "b \<in> set (output_occupy_buffer_queue t)" "x \<in> set (output_occupy_buffer_queue t) \<Longrightarrow> (bd_data x = bd_data c) \<longleftrightarrow> x = b"
proof -
  have o: "mset (output_occupy_buffer_queue t) = C + K" using assms(1,4) by (simp add: enc_ledger_def)
  show b: "b \<in> set (output_occupy_buffer_queue t)" using o assms(2) by (metis set_mset_mset union_iff)
  show "(bd_data x = bd_data c) \<longleftrightarrow> x = b" if "x \<in> set (output_occupy_buffer_queue t)" for x
    using that b assms(3) ledger_inj(2) [OF assms(1)] ledger_occ(1) [OF assms(1)] by (metis inj_onD subsetD)
qed

lemma filled_ledger:
  assumes i: "enc_ledger E (t, C, K, p, n)" and b: "b \<in># C" "bd_data c = bd_data b" and r: "ReturnBuffer now c t = Some (e, t1)"
  shows "enc_ledger E (t1, C - {#b#}, (if eos_atoutput t \<or> bd_size c = 0 then K else add_mset b K), p, n)"
proof (cases "eos_atoutput t \<or> bd_size c = 0")
  case True
  define t0 where "t0 = note_rate now c t"
  have t1: "move_first (\<lambda>x. bd_data x = bd_data c) t0 = (fst (move_first (\<lambda>x. bd_data x = bd_data c) t0), t1)"
    using r True by (auto simp: ReturnBuffer_def Let_def t0_def split: if_splits)
  have i0: "enc_ledger E (t0, C, K, p, n)" using i by (simp add: t0_def enc_ledger_def)
  obtain f u where fu: "t1 = t0\<lparr>output_free_buffer_queue := output_free_buffer_queue t0 @ f, output_occupy_buffer_queue := u\<rparr>"
    "mset f + mset u = mset (output_occupy_buffer_queue t0)" using move_first_keeps [OF t1] by blast
  have "mset u = C - {#b#} + K" if "\<not> is_force_cleanup t0"
  proof -
    note m = filled_occ [OF i0 b that]
    have "output_occupy_buffer_queue t1 = remove1 b (output_occupy_buffer_queue t0)"
      using move_first_in [of b t0 "\<lambda>x. bd_data x = bd_data c", OF m] t1 by auto
    moreover have "output_occupy_buffer_queue t1 = u" using fu(1) by simp
    ultimately show ?thesis using i0 that b(1) by (simp add: enc_ledger_def)
  qed
  moreover have "set_mset (C - {#b#} + K) \<subseteq> set (output_buffer_list t)" using i by (auto simp: enc_ledger_def dest: in_diffD)
  ultimately show ?thesis using i0 fu True by (auto simp: enc_ledger_def t0_def union_assoc)
next
  case False
  have "enc_ledger E (t1, C, K, p, n)"
    using i r False by (auto simp: ReturnBuffer_def NotifyBufferToClient_def Let_def enc_ledger_def split: if_splits option.splits)
  moreover have "C - {#b#} + add_mset b K = C + K" using b(1) by (metis insert_DiffM2 union_mset_add_mset_left union_mset_add_mset_right add.right_neutral)
  ultimately show ?thesis using False b(1) by (auto simp: enc_ledger_def dest: in_diffD)
qed

lemma bn_buffer_id:
  assumes "enc_ledger E (t, C, K, p, n)" "b \<in># K"
  shows "sint (buffer_id (bn_buffer b c)) = bd_fd b"
proof -
  have "b \<in> set (output_buffer_list t)" using assms by (auto simp: enc_ledger_def)
  then show ?thesis using assms(1) by (auto simp: enc_ledger_def buffers_ok_def bn_buffer_def intro: sint_fd)
qed

lemma returned_all:
  assumes i: "enc_ledger E (t, C, K, p, n)" and bs: "mset bs \<subseteq># K" and nf: "\<not> is_force_cleanup t"
  shows "OnBufferReturnFromClient (map (\<lambda>b. bn_buffer b (c b)) bs) t = (NO_ERROR, t\<lparr>output_free_buffer_queue := output_free_buffer_queue t @ bs,
    output_occupy_buffer_queue := fold remove1 bs (output_occupy_buffer_queue t)\<rparr>)"
proof -
  have o: "mset (output_occupy_buffer_queue t) = C + K" using i nf by (simp add: enc_ledger_def)
  have "return_ids (map (\<lambda>b. buffer_id (bn_buffer b (c b))) bs) t = (NO_ERROR, t\<lparr>output_free_buffer_queue := output_free_buffer_queue t @ bs,
      output_occupy_buffer_queue := fold remove1 bs (output_occupy_buffer_queue t)\<rparr>)"
  proof (rule return_ids_all)
    show "mset bs \<subseteq># mset (output_occupy_buffer_queue t)" using bs o by (simp add: subset_mset.add_increasing)
    show "inj_on bd_fd (set (output_occupy_buffer_queue t))" by (rule inj_on_subset [OF ledger_inj(1) [OF i] ledger_occ(1) [OF i]])
    show "\<forall>b\<in>set bs. sint (buffer_id (bn_buffer b (c b))) = bd_fd b"
      using bn_buffer_id [OF i] bs by (metis mset_subset_eqD set_mset_mset)
  qed
  then show ?thesis using nf by (simp add: OnBufferReturnFromClient_def comp_def)
qed

lemma returned_ledger:
  assumes i: "enc_ledger E (t, C, K, p, n)" and bs: "mset bs \<subseteq># K" and r: "OnBufferReturnFromClient (map (\<lambda>b. bn_buffer b (c b)) bs) t = (e, t1)"
  shows "enc_ledger E (t1, C, K - mset bs, p, n)"
proof (cases "is_force_cleanup t")
  case True
  then show ?thesis using i r by (auto simp: enc_ledger_def OnBufferReturnFromClient_def dest: in_diffD)
next
  case False
  have t1: "t1 = t\<lparr>output_free_buffer_queue := output_free_buffer_queue t @ bs,
      output_occupy_buffer_queue := fold remove1 bs (output_occupy_buffer_queue t)\<rparr>" using returned_all [OF i bs False, of c] r by simp
  have o: "mset (output_occupy_buffer_queue t) = C + K" using i False by (simp add: enc_ledger_def)
  have "mset (fold remove1 bs (output_occupy_buffer_queue t)) = C + (K - mset bs)"
    unfolding mset_fold_remove1 o using bs by (rule multiset_diff_union_assoc)
  moreover have "mset (output_free_buffer_queue t @ bs) + (C + (K - mset bs)) = mset (output_buffer_list t)"
  proof -
    have "mset bs + (C + (K - mset bs)) = C + K" using bs by (metis add.left_commute subset_mset.add_diff_inverse)
    moreover have "mset (output_free_buffer_queue t) + (C + K) = mset (output_buffer_list t)" using i o by (simp add: enc_ledger_def)
    ultimately show ?thesis by (metis add.assoc mset_append)
  qed
  moreover have "set_mset (C + (K - mset bs)) \<subseteq> set (output_buffer_list t)" using i by (auto simp: enc_ledger_def dest: in_diffD)
  ultimately show ?thesis using i False unfolding t1 enc_ledger_def prod.case by simp
qed

lemma stop_ledger: "enc_ledger E (t, C, K, p, n) \<Longrightarrow> Stop E force t = Some (e, t1) \<Longrightarrow> enc_ledger E (t1, C, K, p, n)"
  by (auto simp: enc_ledger_def Stop_def force_cleanup_def Let_def split: if_splits)

lemma enc_step_ledger: "enc_step E x y \<Longrightarrow> enc_ledger E x \<Longrightarrow> enc_ledger E y"
proof (induction rule: enc_step.induct)
  case (Started t e t1 C K p n)
  then show ?case by (auto simp: Start_def enc_ledger_def split: if_splits)
next
  case (Changed rate t e t1 C K p n)
  then show ?case by (auto simp: SetParams_def enc_ledger_def split: if_splits option.splits)
qed (blast intro: peek_ledger occupy_ledger filled_ledger returned_ledger stop_ledger)+

lemma buffers_ok_Nil [simp]: "buffers_ok E []"
  by (simp add: buffers_ok_def)

lemma init_buffers:
  assumes "Init E p (TrackEncoder fps dev) = Some (NO_ERROR, t)"
  obtains t2 where "alloc_bufs E (unat (output_count p (fst (snd (cd_requirements E))))) (snd (snd (cd_requirements E))) (TrackEncoder fps dev\<lparr>te_params := p, avcodec := True\<rparr>) = (NO_ERROR, t2)"
    "t = t2\<lparr>output_free_buffer_queue := output_free_buffer_queue t2 @ output_buffer_list t2, wait_duration := wait_time E (enc_fps p)\<rparr>"
  using assms by (auto simp: Init_def AllocOutputPortBufs_def Let_def split: if_splits option.splits prod.splits)

lemma start_ledger: "enc_start E x \<Longrightarrow> enc_ledger E x"
proof -
  assume "enc_start E x"
  then obtain fps dev p t where m: "memory_ok E" "enc_data_cb p" "x = (t, {#}, {#}, None, 0)" and i: "Init E p (TrackEncoder fps dev) = Some (NO_ERROR, t)"
    unfolding enc_start_def by blast
  from i obtain t2 where a: "alloc_bufs E (unat (output_count p (fst (snd (cd_requirements E))))) (snd (snd (cd_requirements E))) (TrackEncoder fps dev\<lparr>te_params := p, avcodec := True\<rparr>) = (NO_ERROR, t2)"
    and t: "t = t2\<lparr>output_free_buffer_queue := output_free_buffer_queue t2 @ output_buffer_list t2, wait_duration := wait_time E (enc_fps p)\<rparr>"
    by (rule init_buffers)
  show ?thesis using alloc_bufs_ok [OF a m(1)] m(2,3) t by (auto simp: enc_ledger_def TrackEncoder_def)
qed

interpretation enc_sys: invariant_system "enc_start E" "enc_step E" "enc_ledger E" for E
  by unfold_locales (auto intro: start_ledger enc_step_ledger)

section \<open>Who has the buffers\<close>

text \<open>
  C31. Let the codec return buffers it has, and the client only buffers it was given (the encoder does not
  check this). In every interleaving of the codec's threads, the client and the recorder service each output
  buffer is exactly once in the free or in the occupied queue, and before a forced stop the occupied
  ones are those that the codec or the client has. The codec's thread always finds the buffer that
  it has read, the return of a buffer that the codec has fails no assertion, and the client may return
  what it has.
\<close>

theorem encoder_ledger:
  assumes "enc_start E x" "(enc_step E)\<^sup>*\<^sup>* x (t, C, K, p, n)"
  shows "mset (output_free_buffer_queue t) + mset (output_occupy_buffer_queue t) = mset (output_buffer_list t) \<and> distinct (output_buffer_list t) \<and>
    (\<not> is_force_cleanup t \<longrightarrow> mset (output_occupy_buffer_queue t) = C + K) \<and>
    (\<forall>b. p = Some b \<longrightarrow> occupy_buffer b t \<noteq> None) \<and>
    (\<forall>b c now. b \<in># C \<and> bd_data c = bd_data b \<longrightarrow> ReturnBuffer now c t \<noteq> None) \<and>
    (\<forall>bs c. mset bs \<subseteq># K \<longrightarrow> fst (OnBufferReturnFromClient (map (\<lambda>b. bn_buffer b (c b)) bs) t) = NO_ERROR)"
proof -
  have i: "enc_ledger E (t, C, K, p, n)" by (rule enc_sys.inv_reachable [OF assms])
  have "ReturnBuffer now c t \<noteq> None" if b: "b \<in># C" "bd_data c = bd_data b" for b c now
  proof -
    have "b \<in> set (output_buffer_list t)" using i b(1) by (auto simp: enc_ledger_def)
    then have d: "bd_data c \<noteq> 0" using i b(2) by (auto simp: enc_ledger_def buffers_ok_def)
    have "List.find (\<lambda>x. bd_data x = bd_data c) (output_occupy_buffer_queue t) \<noteq> None" if "\<not> is_force_cleanup t"
      using filled_occ(1) [OF i b that] b(2) by (auto simp: find_None_iff)
    then show ?thesis using i d
      by (auto simp: ReturnBuffer_def NotifyBufferToClient_def Let_def enc_ledger_def split: option.splits)
  qed
  moreover have "fst (OnBufferReturnFromClient (map (\<lambda>b. bn_buffer b (c b)) bs) t) = NO_ERROR" if "mset bs \<subseteq># K" for bs c
    using returned_all [OF i that, of c] by (cases "is_force_cleanup t") (simp_all add: OnBufferReturnFromClient_def)
  moreover have "occupy_buffer b t \<noteq> None" if "p = Some b" for b using i that by (auto simp: enc_ledger_def occupy_buffer_def)
  ultimately show ?thesis using i by (auto simp: enc_ledger_def buffers_ok_def distinct_map)
qed

definition demo_codec :: codec_env where
  "demo_codec = \<lparr>jpeg_postproc = True, ion_abi = True, open_ion = 3, ion_legacy = False, cd_configure = 0, cd_input = 0,
     cd_requirements = (0, 4, 5000), cd_register = 0, cd_output = 0, cd_start = 0, cd_stop = 0, cd_params = 0, cd_release = 0, cd_flush = 0,
     ion_alloc_fd = (\<lambda>bs n. let fd = fold max (map bd_fd bs) 4 + 1 in if fd < 2 ^ 31 then Inr fd else Inl ENOMEM),
     ion_alloc = (\<lambda>bs n. Inl ENOMEM), ion_share = (\<lambda>h. Inl ENOMEM),
     map_buffer = (\<lambda>fd n. if 0 \<le> fd then Inr (Suc (nat fd)) else Inl EINVAL), clean_cache = (\<lambda>h b. 0), five_frames = (\<lambda>fps. 0)\<rparr>"

definition demo_enc_params :: enc_params where
  "demo_enc_params = \<lparr>enc_track_id = 1, enc_format = kAVC, enc_slices = False, enc_fps = 30, enc_data_cb = True\<rparr>"

definition demo_buffer :: "int \<Rightarrow> BufferDescriptor" where
  "demo_buffer fd = zero_descriptor\<lparr>bd_fd := fd, bd_capacity := 8192, bd_data := Suc (nat fd)\<rparr>"

definition demo_track_encoder :: track_encoder where
  "demo_track_encoder = (TrackEncoder 0 3)\<lparr>te_params := demo_enc_params, avcodec := True, output_buffer_list := map demo_buffer [5,6,7,8,9,10],
     output_free_buffer_queue := map demo_buffer [5,6,7,8,9,10]\<rparr>"

lemma demo_memory_ok: "memory_ok demo_codec"
proof -
  have le: "x \<le> fold max fs m" if "x \<in> set fs \<or> x \<le> m" for x m :: int and fs
    using that by (induction fs arbitrary: m) (auto intro: le_max_iff_disj [THEN iffD2])
  have "fold max (map bd_fd bs) 4 + 1 \<notin> bd_fd ` set bs" for bs :: "BufferDescriptor list"
    using le [of "fold max (map bd_fd bs) 4 + 1" "map bd_fd bs" 4] by auto
  moreover have "4 \<le> fold max (map bd_fd bs) (4 :: int)" for bs :: "BufferDescriptor list" using le [of 4 "map bd_fd bs" 4] by simp
  ultimately show ?thesis unfolding memory_ok_def output_memory_def by (auto simp: demo_codec_def Let_def split: if_splits) (smt (verit))+
qed

lemma demo_init: "Init demo_codec demo_enc_params (TrackEncoder 0 3) = Some (NO_ERROR, demo_track_encoder)"
proof -
  let ?t = "TrackEncoder 0 3\<lparr>te_params := demo_enc_params, avcodec := True\<rparr>"
  have p: "page_size 5000 = 8192" "page_size 8192 = 8192" by (simp_all add: page_size_def)
  have "alloc_bufs demo_codec (Suc (Suc (Suc (Suc (Suc (Suc 0)))))) 5000 ?t = (NO_ERROR, ?t\<lparr>output_buffer_list := map demo_buffer [5,6,7,8,9,10]\<rparr>)"
    by (simp add: output_memory_def p demo_codec_def TrackEncoder_def demo_buffer_def zero_descriptor_def)
  then have "alloc_bufs demo_codec 6 5000 ?t = (NO_ERROR, ?t\<lparr>output_buffer_list := map demo_buffer [5,6,7,8,9,10]\<rparr>)"
    by (simp only: numeral_eq_Suc pred_numeral_simps BitM.simps)
  moreover have "output_count demo_enc_params 4 = 6" "cd_requirements demo_codec = (0, 4, 5000)" "te_ion_device ?t = 3"
    by (simp_all add: output_count_def demo_enc_params_def demo_codec_def TrackEncoder_def)
  ultimately have "AllocOutputPortBufs demo_codec ?t = Some (NO_ERROR, ?t\<lparr>output_buffer_list := map demo_buffer [5,6,7,8,9,10]\<rparr>)"
    by (simp add: AllocOutputPortBufs_def TrackEncoder_def demo_enc_params_def)
  then show ?thesis
    by (simp add: Init_def Let_def) (simp add: demo_codec_def demo_enc_params_def TrackEncoder_def demo_track_encoder_def wait_time_def)
qed

lemma demo_enc_start: "enc_start demo_codec (demo_track_encoder, {#}, {#}, None, 0)"
proof -
  have "enc_data_cb demo_enc_params" by (simp add: demo_enc_params_def)
  then show ?thesis unfolding enc_start_def using demo_memory_ok demo_init by blast
qed

theorem encoder_ledger_witness:
  "\<exists>t. (enc_step demo_codec)\<^sup>*\<^sup>* (demo_track_encoder, {#}, {#}, None, 0) (t, {#demo_buffer 5#}, {#}, None, 0) \<and>
     mset (output_occupy_buffer_queue t) = {#demo_buffer 5#} \<and> (\<forall>now. ReturnBuffer now (demo_buffer 5\<lparr>bd_size := 9\<rparr>) t \<noteq> None)"
proof -
  obtain t1 where t1: "front_buffer demo_codec [] demo_track_encoder = (Inr (demo_buffer 5), t1)" "t1 = demo_track_encoder"
    by (simp add: front_buffer_def wait_free.simps demo_track_encoder_def demo_codec_def Let_def)
  obtain t2 where t2: "occupy_buffer (demo_buffer 5) t1 = Some t2" "\<not> is_force_cleanup t2" "output_occupy_buffer_queue t2 = [demo_buffer 5]"
    by (simp add: occupy_buffer_def t1(2) demo_track_encoder_def TrackEncoder_def)
  have "enc_step demo_codec (demo_track_encoder, {#}, {#}, None, 0) (t1, {#}, {#}, Some (demo_buffer 5), 0)"
    using enc_step.Peek [OF t1(1), of "{#}" "{#}" 0] by simp
  then have r: "(enc_step demo_codec)\<^sup>*\<^sup>* (demo_track_encoder, {#}, {#}, None, 0) (t2, {#demo_buffer 5#}, {#}, None, 0)"
    using enc_step.Occupy [OF t2(1), of demo_codec "{#}" "{#}" 0] by (meson converse_rtranclp_into_rtranclp r_into_rtranclp)
  have "demo_buffer 5 \<in># {#demo_buffer 5#} \<and> bd_data (demo_buffer 5\<lparr>bd_size := 9\<rparr>) = bd_data (demo_buffer 5)" by simp
  then have "ReturnBuffer now (demo_buffer 5\<lparr>bd_size := 9\<rparr>) t2 \<noteq> None" for now using encoder_ledger [OF demo_enc_start r] by blast
  then show ?thesis using r encoder_ledger [OF demo_enc_start r] t2(2) by auto
qed

section \<open>A buffer's way\<close>

lemma occ_keys:
  assumes "enc_ledger E (t, C, K, p, n)" "b \<in> set (output_buffer_list t)" "x \<in> set (output_buffer_list t)"
  shows "bd_data x = bd_data b \<longleftrightarrow> x = b" "bd_fd x = bd_fd b \<longleftrightarrow> x = b"
  using ledger_inj [OF assms(1)] assms(2,3) by (auto dest: inj_onD)

lemma return_filled:
  assumes "bd_data c \<noteq> 0" "bd_size c \<noteq> 0" "\<not> eos_atoutput t" "\<not> is_force_cleanup t" "enc_data_cb (te_params t)"
    "List.find (\<lambda>x. bd_data x = bd_data c) (output_occupy_buffer_queue t) = Some b"
  obtains t2 where "ReturnBuffer now c t = Some (NO_ERROR, t2)" "data_calls t2 = data_calls t @ [(bn_buffer b c, kVideoFrameType, frame_type (bd_flag c))]"
    "output_occupy_buffer_queue t2 = output_occupy_buffer_queue t" "output_free_buffer_queue t2 = output_free_buffer_queue t" "\<not> is_force_cleanup t2"
proof -
  define t1 where "t1 = (if bd_flag c AND kFlagEOS \<noteq> 0 then (note_rate now c t)\<lparr>eos_atoutput := True\<rparr> else note_rate now c t)"
  have t1: "is_force_cleanup t1 = is_force_cleanup t" "output_occupy_buffer_queue t1 = output_occupy_buffer_queue t"
    "output_free_buffer_queue t1 = output_free_buffer_queue t" "data_calls t1 = data_calls t" by (simp_all add: t1_def)
  have "NotifyBufferToClient c (note_rate now c t) = Some (t1\<lparr>data_calls := data_calls t1 @ [(bn_buffer b c, kVideoFrameType, frame_type (bd_flag c))]\<rparr>)"
    unfolding NotifyBufferToClient_def t1_def [symmetric] Let_def using assms(4-6) t1 by simp
  then show ?thesis using that assms(1-4) t1 by (simp add: ReturnBuffer_def Let_def)
qed

text \<open>
  C32. A buffer that the codec takes from the front of the free queue and gives back with data goes
  to the client once, with the data's size, time stamp and flags under the buffer's descriptor, and
  is at the end of the free queue when the client has returned it; no other buffer moves.
\<close>

theorem encoder_round_trip:
  assumes "enc_start E x" "(enc_step E)\<^sup>*\<^sup>* x (t, C, K, None, n)" "output_free_buffer_queue t = b # fs" "\<not> is_force_cleanup t" "\<not> eos_atoutput t"
    "ion_abi E \<or> (\<forall>h b. clean_cache E h b = NO_ERROR)" "bd_size c \<noteq> 0" "bd_data c = bd_data b"
  shows "\<exists>t1 t2 t3. GetBuffer E [] id z t = Some (NO_ERROR, z\<lparr>bd_fd := bd_fd b, bd_data := bd_data b\<rparr>, t1) \<and>
    ReturnBuffer now c t1 = Some (NO_ERROR, t2) \<and>
    data_calls t2 = data_calls t @ [(bn_buffer b c, kVideoFrameType, frame_type (bd_flag c))] \<and>
    OnBufferReturnFromClient [bn_buffer b c] t2 = (NO_ERROR, t3) \<and> output_free_buffer_queue t3 = fs @ [b] \<and>
    output_occupy_buffer_queue t3 = output_occupy_buffer_queue t"
proof -
  have i: "enc_ledger E (t, C, K, None, n)" by (rule enc_sys.inv_reachable [OF assms(1,2)])
  obtain t0 where fr: "front_buffer E [] t = (Inr b, t0)" using assms(3,6) by (cases "ion_abi E") (simp_all add: front_buffer_def wait_free.simps Let_def)
  then obtain m where t0: "t0 = t\<lparr>fd_ion_handle_map := m\<rparr>" using front_keeps(1) by blast
  define t1 where "t1 = t0\<lparr>output_occupy_buffer_queue := output_occupy_buffer_queue t @ [b], output_free_buffer_queue := fs\<rparr>"
  have g: "GetBuffer E [] id z t = Some (NO_ERROR, z\<lparr>bd_fd := bd_fd b, bd_data := bd_data b\<rparr>, t1)"
    using fr assms(3) by (simp add: GetBuffer_def occupy_buffer_def t0 t1_def)
  have bl: "b \<in> set (output_buffer_list t)" using ledger_occ(2) [OF i] assms(3) by auto
  have "b \<notin> set (output_occupy_buffer_queue t)" using ledger_distinct [OF i] assms(3) by auto
  then have new: "bd_data x \<noteq> bd_data c \<and> bd_fd x \<noteq> bd_fd b" if "x \<in> set (output_occupy_buffer_queue t)" for x
    using occ_keys [OF i bl subsetD [OF ledger_occ(1) [OF i] that]] that assms(8) by auto
  have bd: "bd_data c \<noteq> 0" "sint (word_of_int (bd_fd b) :: u32) = bd_fd b" using i bl assms(8) by (auto simp: enc_ledger_def buffers_ok_def intro: sint_fd)
  obtain t2 where r: "ReturnBuffer now c t1 = Some (NO_ERROR, t2)" "data_calls t2 = data_calls t @ [(bn_buffer b c, kVideoFrameType, frame_type (bd_flag c))]"
    and q: "output_occupy_buffer_queue t2 = output_occupy_buffer_queue t @ [b]" "output_free_buffer_queue t2 = fs" "\<not> is_force_cleanup t2"
  proof (rule return_filled [of c t1 b now])
    show "List.find (\<lambda>x. bd_data x = bd_data c) (output_occupy_buffer_queue t1) = Some b"
      using new assms(8) by (auto simp: find_Some_iff t1_def intro!: exI [of _ "length (output_occupy_buffer_queue t)"] simp: nth_append)
  qed (use i assms(4,5,7) bd(1) in \<open>simp_all add: t1_def t0 enc_ledger_def\<close>)
  have "List.extract (\<lambda>x. bd_fd x = bd_fd b) (output_occupy_buffer_queue t @ [b]) = Some (output_occupy_buffer_queue t, b, [])"
    using new by (auto simp: extract_Some_iff)
  then have "\<exists>t3. OnBufferReturnFromClient [bn_buffer b c] t2 = (NO_ERROR, t3) \<and> output_free_buffer_queue t3 = fs @ [b] \<and>
      output_occupy_buffer_queue t3 = output_occupy_buffer_queue t"
    using q bd(2) by (simp add: OnBufferReturnFromClient_def bn_buffer_def move_first_def)
  then show ?thesis using g r by blast
qed

theorem encoder_round_trip_witness:
  "\<exists>t1 t2 t3. GetBuffer demo_codec [] id zero_descriptor demo_track_encoder = Some (NO_ERROR, zero_descriptor\<lparr>bd_fd := 5, bd_data := 6\<rparr>, t1) \<and>
     ReturnBuffer (0, 0) (demo_buffer 5\<lparr>bd_size := 9\<rparr>) t1 = Some (NO_ERROR, t2) \<and>
     OnBufferReturnFromClient [bn_buffer (demo_buffer 5) (demo_buffer 5\<lparr>bd_size := 9\<rparr>)] t2 = (NO_ERROR, t3) \<and>
     output_free_buffer_queue t3 = map demo_buffer [6, 7, 8, 9, 10, 5]"
  using encoder_round_trip [OF demo_enc_start rtranclp.rtrancl_refl, of "demo_buffer 5" "map demo_buffer [6, 7, 8, 9, 10]" "demo_buffer 5\<lparr>bd_size := 9\<rparr>"
      zero_descriptor "(0, 0)"]
  by (simp add: demo_track_encoder_def TrackEncoder_def demo_codec_def) (auto simp: demo_buffer_def zero_descriptor_def)

section \<open>The end of a stream, and the client that is gone\<close>

lemma notify_calls:
  assumes "ReturnBuffer now c t = Some (e, t1)"
  shows "is_force_cleanup t1 = is_force_cleanup t \<and> (data_calls t1 = data_calls t \<and> (eos_atoutput t \<longrightarrow> eos_atoutput t1) \<or>
    \<not> eos_atoutput t \<and> \<not> is_force_cleanup t \<and> (\<exists>y. data_calls t1 = data_calls t @ [y] \<and> (call_eos y \<longrightarrow> eos_atoutput t1)))"
proof (cases "eos_atoutput t \<or> bd_size c = 0")
  case True
  have m: "move_first (\<lambda>x. bd_data x = bd_data c) (note_rate now c t) =
      (fst (move_first (\<lambda>x. bd_data x = bd_data c) (note_rate now c t)), t1)"
    using assms True by (auto simp: ReturnBuffer_def Let_def split: if_splits)
  show ?thesis using move_first_keeps [OF m] by auto
next
  case False
  then show ?thesis using assms
    by (auto simp: ReturnBuffer_def NotifyBufferToClient_def Let_def call_eos_def bn_buffer_def split: if_splits option.splits)
qed

lemma return_ids_keeps: "return_ids is t = (e, t1) \<Longrightarrow> data_calls t1 = data_calls t \<and> eos_atoutput t1 = eos_atoutput t \<and> is_force_cleanup t1 = is_force_cleanup t"
proof (induction "is" arbitrary: t)
  case (Cons i "is")
  obtain r t2 where m: "move_first (\<lambda>b. bd_fd b = sint i) t = (r, t2)" by fastforce
  have "data_calls t2 = data_calls t" "eos_atoutput t2 = eos_atoutput t" "is_force_cleanup t2 = is_force_cleanup t" using move_first_keeps [OF m] by auto
  then show ?case using Cons m by (auto split: if_splits)
qed simp

lemma client_keeps: "OnBufferReturnFromClient bs t = (e, t1) \<Longrightarrow>
    data_calls t1 = data_calls t \<and> eos_atoutput t1 = eos_atoutput t \<and> is_force_cleanup t1 = is_force_cleanup t"
  using return_ids_keeps by (auto simp: OnBufferReturnFromClient_def split: if_splits)

lemma eos_filled: "eos_last (t, C, K, p, n) \<Longrightarrow> ReturnBuffer now c t = Some (e, t1) \<Longrightarrow> eos_last (t1, C', K', p', n)"
  using notify_calls [of now c t e t1] by (auto simp: eos_last_def)

lemma eos_step: "enc_step E x y \<Longrightarrow> eos_last x \<Longrightarrow> eos_last y"
proof (induction rule: enc_step.induct)
  case (Peek t r t1 C K n)
  then show ?case using front_keeps(1) [OF Peek(1)] by (auto simp: eos_last_def)
next
  case (Occupy b t t1 C K n)
  then show ?case by (auto simp: eos_last_def occupy_buffer_def split: if_splits)
next
  case (Filled b C c now t e t1 K p n)
  then show ?case by (blast intro: eos_filled)
next
  case (Returned bs K c t e t1 C p n)
  then show ?case using client_keeps [OF Returned(2)] by (simp add: eos_last_def)
next
  case (Stopped force t e t1 C K p n)
  then show ?case by (auto simp: eos_last_def Stop_def force_cleanup_def Let_def split: if_splits)
next
  case (Changed rate t e t1 C K p n)
  then show ?case by (auto simp: eos_last_def SetParams_def split: if_splits option.splits)
qed (simp add: eos_last_def)

lemma init_calls: "enc_start E (t, C, K, p, n) \<Longrightarrow> data_calls t = [] \<and> n = 0"
proof -
  assume "enc_start E (t, C, K, p, n)"
  then obtain fps dev q where m: "memory_ok E" "n = 0" and i: "Init E q (TrackEncoder fps dev) = Some (NO_ERROR, t)"
    unfolding enc_start_def by blast
  from i obtain t2 where a: "alloc_bufs E (unat (output_count q (fst (snd (cd_requirements E))))) (snd (snd (cd_requirements E))) (TrackEncoder fps dev\<lparr>te_params := q, avcodec := True\<rparr>) = (NO_ERROR, t2)"
    and t: "t = t2\<lparr>output_free_buffer_queue := output_free_buffer_queue t2 @ output_buffer_list t2, wait_duration := wait_time E (enc_fps q)\<rparr>"
    by (rule init_buffers)
  show ?thesis using alloc_bufs_ok [OF a m(1)] m(2) t by (auto simp: TrackEncoder_def)
qed

interpretation eos_sys: invariant_system "enc_start E" "enc_step E" eos_last for E
proof
  show "eos_last x" if "enc_start E x" for x using that init_calls [of E] by (cases x) (auto simp: eos_last_def)
  show "eos_last y" if "eos_last x" "enc_step E x y" for x y using that by (blast intro: eos_step)
qed

text \<open>
  C33. After every start the end of the stream is the last thing the client hears: no call that the
  encoder has made since the last start, the latest excepted, has the flag of the end.
\<close>

theorem eos_is_last:
  assumes "enc_start E x" "(enc_step E)\<^sup>*\<^sup>* x (t, C, K, p, n)" "n \<le> i" "Suc i < length (data_calls t)"
  shows "\<not> call_eos (data_calls t ! i)"
proof -
  have l: "eos_last (t, C, K, p, n)" by (rule eos_sys.inv_reachable [OF assms(1,2)])
  have "data_calls t ! i = butlast (drop n (data_calls t)) ! (i - n)" using assms(3,4) by (simp add: nth_butlast)
  moreover have "i - n < length (butlast (drop n (data_calls t)))" using assms(3,4) by simp
  ultimately have "data_calls t ! i \<in> set (butlast (drop n (data_calls t)))" by (metis nth_mem)
  then show ?thesis using l by (auto simp: eos_last_def dest: in_set_butlastD)
qed

definition demo_occupied :: track_encoder where
  "demo_occupied = demo_track_encoder\<lparr>output_occupy_buffer_queue := [demo_buffer 5, demo_buffer 6], output_free_buffer_queue := map demo_buffer [7,8,9,10]\<rparr>"

lemma demo_occupied_run:
  "(enc_step demo_codec)\<^sup>*\<^sup>* (demo_track_encoder, {#}, {#}, None, 0) (demo_occupied, {#demo_buffer 5, demo_buffer 6#}, {#}, None, 0)"
proof -
  have take: "(enc_step demo_codec)\<^sup>*\<^sup>* (t, C, K, None, n)
      (t\<lparr>output_occupy_buffer_queue := output_occupy_buffer_queue t @ [b], output_free_buffer_queue := fs\<rparr>, add_mset b C, K, None, n)"
    if "output_free_buffer_queue t = b # fs" for t b fs C K n
  proof -
    have "front_buffer demo_codec [] t = (Inr b, t)" using that by (simp add: front_buffer_def wait_free.simps demo_codec_def Let_def)
    from enc_step.Peek [OF this, of C K n] have 1: "enc_step demo_codec (t, C, K, None, n) (t, C, K, Some b, n)" by simp
    have "occupy_buffer b t = Some (t\<lparr>output_occupy_buffer_queue := output_occupy_buffer_queue t @ [b], output_free_buffer_queue := fs\<rparr>)"
      using that by (simp add: occupy_buffer_def)
    from enc_step.Occupy [OF this, of demo_codec C K n] show ?thesis using 1 by (meson converse_rtranclp_into_rtranclp r_into_rtranclp)
  qed
  define t1 where "t1 = demo_track_encoder\<lparr>output_occupy_buffer_queue := [demo_buffer 5], output_free_buffer_queue := map demo_buffer [6,7,8,9,10]\<rparr>"
  have "(enc_step demo_codec)\<^sup>*\<^sup>* (demo_track_encoder, {#}, {#}, None, 0) (t1, {#demo_buffer 5#}, {#}, None, 0)"
    using take [of demo_track_encoder "demo_buffer 5" "map demo_buffer [6,7,8,9,10]" "{#}" "{#}" 0] by (simp add: t1_def demo_track_encoder_def TrackEncoder_def)
  moreover have "(enc_step demo_codec)\<^sup>*\<^sup>* (t1, {#demo_buffer 5#}, {#}, None, 0) (demo_occupied, {#demo_buffer 6, demo_buffer 5#}, {#}, None, 0)"
    using take [of t1 "demo_buffer 6" "map demo_buffer [7,8,9,10]" "{#demo_buffer 5#}" "{#}" 0] by (simp add: t1_def demo_occupied_def)
  ultimately show ?thesis by (simp add: add_mset_commute)
qed

theorem eos_is_last_witness:
  "\<exists>t. (enc_step demo_codec)\<^sup>*\<^sup>* (demo_track_encoder, {#}, {#}, None, 0) (t, {#}, {#demo_buffer 6, demo_buffer 5#}, None, 0) \<and>
     length (data_calls t) = 2 \<and> \<not> call_eos (data_calls t ! 0)"
proof -
  let ?c = "demo_buffer 5\<lparr>bd_size := 9\<rparr>" and ?d = "demo_buffer 6\<lparr>bd_size := 9, bd_flag := 2\<rparr>"
  obtain t1 where t1: "ReturnBuffer (0, 0) ?c demo_occupied = Some (NO_ERROR, t1)" "\<not> eos_atoutput t1"
    "\<exists>t2. ReturnBuffer (0, 0) ?d t1 = Some (NO_ERROR, t2) \<and> length (data_calls t2) = 2"
    by (simp add: ReturnBuffer_def note_rate_def NotifyBufferToClient_def demo_occupied_def demo_track_encoder_def TrackEncoder_def
        demo_enc_params_def demo_buffer_def zero_descriptor_def Let_def)
  then obtain t2 where t2: "ReturnBuffer (0, 0) ?d t1 = Some (NO_ERROR, t2)" "length (data_calls t2) = 2" by blast
  have "enc_step demo_codec (demo_occupied, {#demo_buffer 5, demo_buffer 6#}, {#}, None, 0) (t1, {#demo_buffer 6#}, {#demo_buffer 5#}, None, 0)"
    using enc_step.Filled [OF _ _ t1(1), of "demo_buffer 5" "{#demo_buffer 5, demo_buffer 6#}" demo_codec "{#}" None 0]
    by (simp add: demo_occupied_def demo_track_encoder_def TrackEncoder_def)
  moreover have "enc_step demo_codec (t1, {#demo_buffer 6#}, {#demo_buffer 5#}, None, 0) (t2, {#}, {#demo_buffer 6, demo_buffer 5#}, None, 0)"
    using enc_step.Filled [OF _ _ t2(1), of "demo_buffer 6" "{#demo_buffer 6#}" demo_codec "{#demo_buffer 5#}" None 0] t1(2) by simp
  ultimately have r: "(enc_step demo_codec)\<^sup>*\<^sup>* (demo_track_encoder, {#}, {#}, None, 0) (t2, {#}, {#demo_buffer 6, demo_buffer 5#}, None, 0)"
    using demo_occupied_run by (meson rtranclp.rtrancl_into_rtrancl)
  show ?thesis using eos_is_last [OF demo_enc_start r, of 0] r t2(2) by auto
qed

text \<open>
  C34. A forced stop puts every output buffer back into the free queue, and from then on, in every
  order of calls, restarts included, nothing is sent to the client any more and what the client
  returns is taken without effect.
\<close>

theorem forced_stop_silent:
  assumes "enc_start E x" "(enc_step E)\<^sup>*\<^sup>* x (t, C, K, p, n)" "Stop E True t = Some (e, t1)" "(enc_step E)\<^sup>*\<^sup>* (t1, C, K, p, n) (t2, C2, K2, p2, n2)"
  shows "e = NO_ERROR \<and> mset (output_free_buffer_queue t1) = mset (output_buffer_list t1) \<and> output_occupy_buffer_queue t1 = [] \<and>
    data_calls t2 = data_calls t \<and> OnBufferReturnFromClient bs t2 = (NO_ERROR, t2)"
proof -
  have i: "enc_ledger E (t, C, K, p, n)" by (rule enc_sys.inv_reachable [OF assms(1,2)])
  have s: "e = NO_ERROR" "t1 = force_cleanup t" using assms(3) by (simp_all add: Stop_def Let_def split: if_splits)
  have "is_force_cleanup (fst y) \<and> data_calls (fst y) = data_calls t" if "(enc_step E)\<^sup>*\<^sup>* (t1, C, K, p, n) y" for y
    using that
  proof (induction rule: rtranclp_induct)
    case base
    then show ?case by (simp add: s(2) force_cleanup_def)
  next
    case (step y z)
    from step(2,3) show ?case
    proof (induction rule: enc_step.induct)
      case (Peek t r t1 C K n)
      then show ?case using front_keeps(1) [OF Peek(1)] by auto
    next
      case (Filled b C c now t e t1 K p n)
      then show ?case using notify_calls [OF Filled(3)] by auto
    next
      case (Returned bs K c t e t1 C p n)
      then show ?case using client_keeps [OF Returned(2)] by simp
    qed (auto simp: occupy_buffer_def Start_def Stop_def force_cleanup_def SetParams_def Let_def split: if_splits option.splits)
  qed
  from this [OF assms(4)] have f: "is_force_cleanup t2" "data_calls t2 = data_calls t" by simp_all
  moreover have "mset (output_free_buffer_queue t1) = mset (output_buffer_list t1)" using i by (simp add: s(2) force_cleanup_def enc_ledger_def)
  moreover have "output_occupy_buffer_queue t1 = []" by (simp add: s(2) force_cleanup_def)
  ultimately show ?thesis using s(1) by (simp add: OnBufferReturnFromClient_def)
qed

theorem forced_stop_silent_witness:
  "\<exists>t1. Stop demo_codec True demo_track_encoder = Some (NO_ERROR, t1) \<and> OnBufferReturnFromClient [bn_buffer (demo_buffer 9) (demo_buffer 9)] t1 = (NO_ERROR, t1)"
proof -
  have s: "Stop demo_codec True demo_track_encoder = Some (NO_ERROR, force_cleanup demo_track_encoder)"
    by (simp add: Stop_def demo_codec_def demo_track_encoder_def)
  show ?thesis using forced_stop_silent [OF demo_enc_start rtranclp.rtrancl_refl s rtranclp.rtrancl_refl] s by blast
qed

text \<open>
  C35. A successful \<^verbatim>\<open>Init\<close> gives the encoder the number of buffers it asks for, all of them free, each a
  whole number of pages and at least of the size the codec requires, less than a page above it.
\<close>

theorem output_buffer_sizes:
  assumes "Init E p (TrackEncoder fps dev) = Some (NO_ERROR, t)" "memory_ok E" "cd_requirements E = (0, k, n)" "unat n < 2 ^ 32 - 4095"
    "\<forall>m t e t1. output_memory E m t = (Inl e, t1) \<longrightarrow> e \<noteq> 0" "\<forall>fd m e. map_buffer E fd m = Inl e \<longrightarrow> e \<noteq> 0" "b \<in> set (output_buffer_list t)"
  shows "length (output_buffer_list t) = unat (output_count p k) \<and> output_free_buffer_queue t = output_buffer_list t \<and>
    4096 dvd unat (bd_capacity b) \<and> unat n \<le> unat (bd_capacity b) \<and> unat (bd_capacity b) < unat n + 4096"
proof -
  from assms(1) obtain t2 where a: "alloc_bufs E (unat (output_count p (fst (snd (cd_requirements E))))) (snd (snd (cd_requirements E))) (TrackEncoder fps dev\<lparr>te_params := p, avcodec := True\<rparr>) = (NO_ERROR, t2)"
    and t: "t = t2\<lparr>output_free_buffer_queue := output_free_buffer_queue t2 @ output_buffer_list t2, wait_duration := wait_time E (enc_fps p)\<rparr>"
    by (rule init_buffers)
  note r = alloc_bufs_ok [OF a assms(2)]
  have "length (output_buffer_list t) = unat (output_count p k)" using r assms(3,5,6) t by (auto simp: TrackEncoder_def)
  moreover have "output_free_buffer_queue t = output_buffer_list t" using r t by (auto simp: TrackEncoder_def)
  moreover have "bd_capacity b = page_size n" using r assms(3,7) t by (auto simp: TrackEncoder_def)
  moreover have "unat (page_size n) = (unat n + 4095) div 4096 * 4096" by (rule page_size_nat [OF assms(4)])
  moreover have "unat n \<le> (unat n + 4095) div 4096 * 4096" "(unat n + 4095) div 4096 * 4096 < unat n + 4096"
    using div_mult_mod_eq [of "unat n + 4095" 4096] mod_less_divisor [of 4096 "unat n + 4095"] by linarith+
  ultimately show ?thesis by simp
qed

theorem output_buffer_sizes_witness: "length (output_buffer_list demo_track_encoder) = 6 \<and> 5000 \<le> unat (bd_capacity (demo_buffer 7))"
proof -
  have "demo_buffer 7 \<in> set (output_buffer_list demo_track_encoder)" by (simp add: demo_track_encoder_def)
  moreover have "cd_requirements demo_codec = (0, 4, 5000)" by (simp add: demo_codec_def)
  moreover have "\<forall>m t e t1. output_memory demo_codec m t = (Inl e, t1) \<longrightarrow> e \<noteq> 0" "\<forall>fd m e. map_buffer demo_codec fd m = Inl e \<longrightarrow> e \<noteq> 0"
    by (auto simp: output_memory_def demo_codec_def Let_def split: if_splits)
  ultimately show ?thesis using output_buffer_sizes [OF demo_init demo_memory_ok, of 4 5000 "demo_buffer 7"]
    by (simp add: output_count_def demo_enc_params_def)
qed

end
