(* ===== verification/Recorder_Ion.thy ===== *)
theory Recorder_Ion
  imports Encoder_Core
begin

text \<open>
  The shared buffers of the audio tracks: allocation, mapping, and the translation between the
  descriptors of the codec and those of the client. Source:
  \<^verbatim>\<open>recorder/src/service/qmmf_recorder_ion.{h,cc}\<close>. \<open>None\<close> is a use of a pointer that was never set. \<open>Import\<close>
  and \<open>Export\<close> are given for every extension of the descriptor: \<open>IonDescriptor\<close> has all fields of the
  code; the tracks, which never read \<^verbatim>\<open>buf_id\<close> and \<^verbatim>\<open>offset\<close>, use the descriptor without these two.
\<close>

record IonDescriptor = BufferDescriptor +
  ion_buf_id :: u32
  ion_offset :: u32

record RecorderIonBuffer =
  ib_data :: "nat option" \<comment> \<open>absent until the buffer is mapped\<close>
  ib_map_fd :: int

record ion =
  ion_buffer_map :: "(int, RecorderIonBuffer) kv"
  ion_device :: int
  ion_buffer_size :: int
  request_size :: int

text \<open>
  The replies of the driver: a descriptor, or a failure after which \<^verbatim>\<open>errno\<close> is \<open>io_errno\<close>; the result
  of \<^verbatim>\<open>close\<close> is 0 or -1.
\<close>

record ion_env =
  io_open :: int
  io_errno :: int
  io_alloc :: "int list \<Rightarrow> int option"
  io_map :: "int \<Rightarrow> nat option"
  io_close :: "int \<Rightarrow> int"
  io_close_device :: int

definition MAP_FAILED :: nat where
  "MAP_FAILED = 2 ^ 64 - 1"

definition RecorderIon :: ion where
  "RecorderIon = \<lparr>ion_buffer_map = [], ion_device = -1, ion_buffer_size = 0, request_size = 0\<rparr>"

section \<open>Allocation\<close>

definition align_page :: "int \<Rightarrow> int" where
  "align_page n = (n + 4095) div 4096 * 4096"

primrec alloc_ion :: "ion_env \<Rightarrow> nat \<Rightarrow> ion \<Rightarrow> bool \<times> ion" where
  "alloc_ion E 0 i = (True, i)"
| "alloc_ion E (Suc k) i =
     (case io_alloc E (kv_keys (ion_buffer_map i)) of
        None \<Rightarrow> (False, i)
      | Some fd \<Rightarrow>
          alloc_ion E k
            (if kv_find (ion_buffer_map i) fd = None
             then i\<lparr>ion_buffer_map := kv_add fd \<lparr>ib_data = None, ib_map_fd = fd\<rparr> (ion_buffer_map i)\<rparr> else i))"

text \<open>The buffers are mapped in the order of their descriptors; a failure ends the loop with the result of \<^verbatim>\<open>close\<close>.\<close>

fun map_ion :: "ion_env \<Rightarrow> (int, RecorderIonBuffer) kv \<Rightarrow> int option \<times> (int, RecorderIonBuffer) kv" where
  "map_ion E [] = (None, [])"
| "map_ion E ((k, b) # m) =
     (case io_map E (ib_map_fd b) of
        None \<Rightarrow> (Some (io_close E (ib_map_fd b)), (k, b\<lparr>ib_data := Some MAP_FAILED\<rparr>) # m)
      | Some a \<Rightarrow> (case map_ion E m of (r, m1) \<Rightarrow> (r, (k, b\<lparr>ib_data := Some a\<rparr>) # m1)))"

definition Allocate :: "ion_env \<Rightarrow> int \<Rightarrow> int \<Rightarrow> ion \<Rightarrow> int \<times> ion" where
  "Allocate E number n i =
     (if number \<le> 0 \<or> n \<le> 0 then (- EINVAL, i)
      else
        let i1 = i\<lparr>request_size := n, ion_buffer_size := align_page n, ion_device := io_open E\<rparr>
        in if io_open E < 0 then (io_errno E, i1)
           else case alloc_ion E (nat number) i1 of
             (ok, i2) \<Rightarrow>
               if \<not> ok then (io_errno E, i2)
               else case map_ion E (ion_buffer_map i2) of
                 (r, m) \<Rightarrow> (case r of None \<Rightarrow> 0 | Some c \<Rightarrow> c, i2\<lparr>ion_buffer_map := m\<rparr>))"

text \<open>A buffer that cannot be closed ends the loop; the buffers before it keep their entries, closed.\<close>

fun close_ion :: "ion_env \<Rightarrow> (int, RecorderIonBuffer) kv \<Rightarrow> bool \<times> (int, RecorderIonBuffer) kv" where
  "close_ion E [] = (True, [])"
| "close_ion E ((k, b) # m) =
     (if io_close E (ib_map_fd b) < 0 then (False, (k, b\<lparr>ib_data := Some 0\<rparr>) # m)
      else case close_ion E m of (ok, m1) \<Rightarrow> (ok, (k, b\<lparr>ib_data := Some 0, ib_map_fd := -1\<rparr>) # m1))"

definition Deallocate :: "ion_env \<Rightarrow> ion \<Rightarrow> int \<times> ion" where
  "Deallocate E i =
     (if ion_device i = -1 then (0, i)
      else case close_ion E (ion_buffer_map i) of
        (ok, m) \<Rightarrow>
          if \<not> ok then (io_errno E, i\<lparr>ion_buffer_map := m\<rparr>)
          else if io_close_device E < 0 then (io_errno E, i\<lparr>ion_buffer_map := []\<rparr>)
          else (0, RecorderIon))"

text \<open>The destructor asserts that the buffers are gone.\<close>

definition free_ion :: "ion_env \<Rightarrow> ion \<Rightarrow> ion option" where
  "free_ion E i =
     (if ion_buffer_map i = [] then Some i
      else case Deallocate E i of (r, i1) \<Rightarrow> if r = 0 then Some i1 else None)"

section \<open>Descriptors\<close>

definition ion_descriptor :: "ion \<Rightarrow> RecorderIonBuffer \<Rightarrow> BufferDescriptor option" where
  "ion_descriptor i b =
     map_option (\<lambda>a. \<lparr>bd_data = a, bd_fd = ib_map_fd b, bd_size = 0, bd_capacity = word_of_int (request_size i), bd_timestamp = 0, bd_flag = 0\<rparr>)
       (ib_data b)"

definition GetList :: "ion \<Rightarrow> BufferDescriptor list option" where
  "GetList i = those (map (\<lambda>(k, b). ion_descriptor i b) (ion_buffer_map i))"

text \<open>\<open>Import\<close> changes the descriptor it is given: it sets six fields and leaves \<^verbatim>\<open>buf_id\<close> and \<^verbatim>\<open>offset\<close> as they are.\<close>

definition Import :: "BnBuffer \<Rightarrow> 'a BufferDescriptor_scheme \<Rightarrow> ion \<Rightarrow> (int \<times> 'a BufferDescriptor_scheme) option" where
  "Import n b i =
     (case kv_find (ion_buffer_map i) (sint (buffer_id n)) of
        None \<Rightarrow> Some (- EINVAL, b)
      | Some e \<Rightarrow>
          map_option (\<lambda>a. (0, b\<lparr>bd_data := a, bd_fd := sint (buffer_id n), bd_capacity := word_of_int (request_size i), bd_size := bn_size n,
                               bd_timestamp := bn_timestamp n, bd_flag := bn_flag n\<rparr>)) (ib_data e))"

definition Export :: "'a BufferDescriptor_scheme \<Rightarrow> ion \<Rightarrow> int + BnBuffer" where
  "Export b i =
     (if kv_find (ion_buffer_map i) (bd_fd b) = None then Inl (- EINVAL)
      else Inr \<lparr>ion_fd = bd_fd b, ion_meta_fd = -1, bn_size = bd_size b, bn_timestamp = bd_timestamp b, bn_width = -1, bn_height = -1,
                buffer_id = word_of_int (bd_fd b), bn_flag = bd_flag b, bn_capacity = bd_capacity b\<rparr>)"

end
