(* ===== verification/Audio_Encoder.thy ===== *)
theory Audio_Encoder
  imports Recorder_Ion
begin

text \<open>
  The encoder of an audio track, which gives output buffers to the codec, sends the filled ones to
  the client and takes them back, and the table of audio encoders. Source:
  \<^verbatim>\<open>recorder/src/service/qmmf_audio_encoder_core.{h,cc}\<close>. The replies of the codec are parameters.
\<close>

section \<open>The track encoder\<close>

record audio_env =
  ac_configure :: int
  ac_input :: int
  ac_input_requirements :: int
  ac_output :: int
  ac_output_requirements :: "int \<times> u32 \<times> u32"
  ac_start :: int
  ac_stop :: int
  ac_release :: int
  ac_pause :: int
  ac_resume :: int
  ac_ion :: ion_env

text \<open>What happens to the codec.\<close>

datatype codec_call = Codec_new | Codec_start | Codec_stop | Codec_release | Codec_delete

record audio_encoder =
  ae_codec :: bool
  ae_buffers :: "BufferDescriptor list"
  ae_ion :: ion
  eos_received :: bool
  ae_log :: "codec_call list"
  ae_calls :: "BnBuffer list" \<comment> \<open>the buffers sent to the client\<close>

definition AudioTrackEncoder :: audio_encoder where
  "AudioTrackEncoder = \<lparr>ae_codec = False, ae_buffers = [], ae_ion = RecorderIon, eos_received = False, ae_log = [], ae_calls = []\<rparr>"

definition log_codec :: "codec_call list \<Rightarrow> audio_encoder \<Rightarrow> audio_encoder" where
  "log_codec cs t = t\<lparr>ae_log := ae_log t @ cs\<rparr>"

text \<open>The labels at the end of \<open>Start\<close>, each falling through to the next.\<close>

definition error_start_avcodec :: "audio_encoder \<Rightarrow> audio_encoder" where
  "error_start_avcodec t = (log_codec [Codec_delete] t)\<lparr>ae_codec := False\<rparr>"

definition error_start_headers :: "audio_encoder \<Rightarrow> audio_encoder" where
  "error_start_headers t = error_start_avcodec (log_codec [Codec_release] t)"

definition error_start_ion :: "audio_env \<Rightarrow> audio_encoder \<Rightarrow> audio_encoder" where
  "error_start_ion E t = error_start_headers (t\<lparr>ae_ion := snd (Deallocate (ac_ion E) (ae_ion t))\<rparr>)"

definition error_start_buffers :: "audio_env \<Rightarrow> audio_encoder \<Rightarrow> audio_encoder" where
  "error_start_buffers E t = error_start_ion E (t\<lparr>ae_buffers := []\<rparr>)"

definition error_start_stop :: "audio_env \<Rightarrow> audio_encoder \<Rightarrow> audio_encoder" where
  "error_start_stop E t = error_start_buffers E (log_codec [Codec_stop] t)"

text \<open>The buffers: the old ones go, new ones come, all of them free.\<close>

definition start_buffers :: "audio_env \<Rightarrow> u32 \<Rightarrow> u32 \<Rightarrow> audio_encoder \<Rightarrow> (int \<times> audio_encoder) option" where
  "start_buffers E k n t =
     (case Allocate (ac_ion E) (sint k) (sint n) (snd (Deallocate (ac_ion E) (ae_ion t))) of
        (r, i) \<Rightarrow>
          let t1 = t\<lparr>ae_ion := i\<rparr>
          in if r < 0 then Some (FAILED_TRANSACTION, error_start_ion E t1)
             else case GetList i of
               None \<Rightarrow> None
             | Some bs \<Rightarrow>
                 let t2 = t1\<lparr>ae_buffers := bs\<rparr>
                 in if ac_start E \<noteq> NO_ERROR then Some (ac_start E, error_start_stop E t2)
                    else Some (NO_ERROR, log_codec [Codec_start] t2))"

definition Start :: "audio_env \<Rightarrow> audio_encoder \<Rightarrow> (int \<times> audio_encoder) option" where
  "Start E t =
     (let t1 = (log_codec [Codec_new] t)\<lparr>eos_received := False, ae_codec := True\<rparr>
      in if ac_configure E \<noteq> NO_ERROR then Some (ac_configure E, error_start_avcodec t1)
         else if ac_input E \<noteq> NO_ERROR then Some (ac_input E, error_start_headers t1)
         else if ac_input_requirements E \<noteq> NO_ERROR then Some (ac_input_requirements E, error_start_headers t1)
         else if ac_output E \<noteq> NO_ERROR then Some (ac_output E, error_start_headers t1)
         else case ac_output_requirements E of
           (r, k, n) \<Rightarrow> if r \<noteq> NO_ERROR then Some (r, error_start_headers t1) else start_buffers E k n t1)"

text \<open>The wait for the last buffer ends with a signal or after five seconds; its outcome is only logged.\<close>

definition Stop :: "audio_env \<Rightarrow> audio_encoder \<Rightarrow> int \<times> audio_encoder" where
  "Stop E t =
     (if \<not> ae_codec t then (NO_INIT, t)
      else (if ac_release E \<noteq> NO_ERROR then ac_release E else ac_stop E,
            (log_codec [Codec_stop, Codec_release, Codec_delete] t)\<lparr>ae_codec := False\<rparr>))"

definition Pause :: "audio_env \<Rightarrow> audio_encoder \<Rightarrow> int" where
  "Pause E t = (if \<not> ae_codec t then NO_INIT else ac_pause E)"

definition Resume :: "audio_env \<Rightarrow> audio_encoder \<Rightarrow> int" where
  "Resume E t = (if \<not> ae_codec t then NO_INIT else ac_resume E)"

definition SetParam :: "audio_encoder \<Rightarrow> int" where
  "SetParam t = NO_ERROR"

text \<open>The wait for a buffer goes on after a time-out; when the outcomes end it has not ended.\<close>

primrec wait_audio :: "audio_encoder list \<Rightarrow> audio_encoder \<Rightarrow> audio_encoder option" where
  "wait_audio [] t = (if ae_buffers t = [] then None else Some t)"
| "wait_audio (w # ws) t = (if ae_buffers t = [] then wait_audio ws w else Some t)"

definition GetBuffer :: "audio_encoder list \<Rightarrow> audio_encoder \<Rightarrow> (int \<times> BufferDescriptor \<times> audio_encoder) option" where
  "GetBuffer ws t =
     map_option (\<lambda>t1. (NO_ERROR, hd (ae_buffers t1), t1\<lparr>ae_buffers := tl (ae_buffers t1)\<rparr>)) (wait_audio ws t)"

definition ReturnBuffer :: "BufferDescriptor \<Rightarrow> audio_encoder \<Rightarrow> (int \<times> audio_encoder) option" where
  "ReturnBuffer c t =
     (if bd_data c = 0 then None
      else case Export c (ae_ion t) of
        Inl e \<Rightarrow> Some (FAILED_TRANSACTION, t)
      | Inr n \<Rightarrow> Some (NO_ERROR, t\<lparr>ae_calls := ae_calls t @ [n]\<rparr>))"

primrec OnBufferReturnFromClient :: "BnBuffer list \<Rightarrow> audio_encoder \<Rightarrow> (int \<times> audio_encoder) option" where
  "OnBufferReturnFromClient [] t = Some (NO_ERROR, t)"
| "OnBufferReturnFromClient (n # ns) t =
     (case Import n zero_descriptor (ae_ion t) of
        None \<Rightarrow> None
      | Some (r, c) \<Rightarrow>
          if r < 0 then Some (FAILED_TRANSACTION, t)
          else OnBufferReturnFromClient ns
                 (t\<lparr>ae_buffers := ae_buffers t @ [c\<lparr>bd_size := 0, bd_timestamp := 0\<rparr>],
                    eos_received := (eos_received t \<or> bd_flag c AND kFlagEOS \<noteq> 0)\<rparr>))"

section \<open>The table of audio encoders\<close>

type_synonym audio_core = "(u32, audio_encoder) kv"

text \<open>A call that reaches the entry of a track.\<close>

definition on_entry :: "'k \<Rightarrow> ('v \<Rightarrow> (int \<times> 'v) option) \<Rightarrow> ('k :: linorder, 'v) kv \<Rightarrow> (int \<times> ('k, 'v) kv) option" where
  "on_entry k f m =
     (case kv_find m k of
        None \<Rightarrow> Some (BAD_VALUE, m)
      | Some v \<Rightarrow> map_option (\<lambda>(e, v1). (e, kv_add k v1 m)) (f v))"

definition AddSource :: "u32 \<Rightarrow> audio_core \<Rightarrow> int \<times> audio_core" where
  "AddSource i c = (NO_ERROR, if kv_find c i = None then kv_add i AudioTrackEncoder c else c)"

definition DeleteTrackEncoder :: "u32 \<Rightarrow> audio_core \<Rightarrow> int \<times> audio_core" where
  "DeleteTrackEncoder i c = (if kv_find c i = None then (BAD_VALUE, c) else (NO_ERROR, kv_remove i c))"

definition StartTrackEncoder :: "audio_env \<Rightarrow> u32 \<Rightarrow> audio_core \<Rightarrow> (int \<times> audio_core) option" where
  "StartTrackEncoder E i = on_entry i (Start E)"

definition StopTrackEncoder :: "audio_env \<Rightarrow> u32 \<Rightarrow> audio_core \<Rightarrow> (int \<times> audio_core) option" where
  "StopTrackEncoder E i = on_entry i (\<lambda>t. Some (Stop E t))"

definition PauseTrackEncoder :: "audio_env \<Rightarrow> u32 \<Rightarrow> audio_core \<Rightarrow> (int \<times> audio_core) option" where
  "PauseTrackEncoder E i = on_entry i (\<lambda>t. Some (Pause E t, t))"

definition ResumeTrackEncoder :: "audio_env \<Rightarrow> u32 \<Rightarrow> audio_core \<Rightarrow> (int \<times> audio_core) option" where
  "ResumeTrackEncoder E i = on_entry i (\<lambda>t. Some (Resume E t, t))"

definition SetTrackEncoderParam :: "u32 \<Rightarrow> audio_core \<Rightarrow> (int \<times> audio_core) option" where
  "SetTrackEncoderParam i = on_entry i (\<lambda>t. Some (SetParam t, t))"

definition ReturnTrackBuffer :: "u32 \<Rightarrow> BnBuffer list \<Rightarrow> audio_core \<Rightarrow> (int \<times> audio_core) option" where
  "ReturnTrackBuffer i ns = on_entry i (OnBufferReturnFromClient ns)"

end
