(* ===== verification/Audio_Source.thy ===== *)
theory Audio_Source
  imports Audio_Encoder
begin

text \<open>
  The sources of audio tracks: a raw source with its thread between the audio client of the platform
  and the recorder, an encoded source that feeds a codec, and the table of sources. Source:
  \<^verbatim>\<open>recorder/src/service/qmmf_audio_{raw,encoded}_track_source.cc\<close> and \<^verbatim>\<open>qmmf_audio_source.cc\<close>. The
  PulseAudio client is a parameter; \<open>None\<close> is a failed assertion, a use of an undefined value, or a wait
  that does not end.
\<close>

record pulse_env =
  p_connect :: int
  p_configure :: int
  p_param :: "string \<Rightarrow> string \<Rightarrow> int"
  p_size :: "int \<times> int"
  p_start :: int
  p_stop :: int
  p_pause :: int
  p_resume :: int
  p_send :: "BufferDescriptor list \<Rightarrow> int"
  p_ion :: ion_env
  p_inputs :: int \<comment> \<open>the number of input buffers of the codec\<close>

abbreviation (input) ALREADY_EXISTS :: int where "ALREADY_EXISTS \<equiv> - 17"

text \<open>What goes to the PulseAudio client and to the recorder.\<close>

datatype audio_out = To_pulse "BufferDescriptor list" | To_recorder BnBuffer | Pulse_gone

section \<open>The raw source\<close>

datatype AudioMessage = kMessageStop | kMessagePause | kMessageResume | kMessageBuffer BufferDescriptor | kMessageBnBuffer BnBuffer

record raw_source =
  raw_profile :: string
  raw_pulse :: bool
  raw_ion :: ion
  raw_thread :: bool
  messages :: "AudioMessage list"
  th_buffers :: "BufferDescriptor list"
  th_bn_buffers :: "BnBuffer list"
  keep_running :: bool
  stop_received :: bool
  th_paused :: bool
  raw_out :: "audio_out list"

definition AudioRawTrackSource :: "string \<Rightarrow> raw_source" where
  "AudioRawTrackSource prof =
     \<lparr>raw_profile = prof, raw_pulse = False, raw_ion = RecorderIon, raw_thread = False, messages = [], th_buffers = [], th_bn_buffers = [],
      keep_running = False, stop_received = False, th_paused = False, raw_out = []\<rparr>"

definition raw_emit :: "audio_out \<Rightarrow> raw_source \<Rightarrow> raw_source" where
  "raw_emit x t = t\<lparr>raw_out := raw_out t @ [x]\<rparr>"

text \<open>The labels at the end of \<open>Init\<close>. A profile that is refused leaves without any of them.\<close>

definition raw_disconnect :: "raw_source \<Rightarrow> raw_source" where
  "raw_disconnect t = (raw_emit Pulse_gone t)\<lparr>raw_pulse := False\<rparr>"

definition raw_Init :: "pulse_env \<Rightarrow> raw_source \<Rightarrow> int \<times> raw_source" where
  "raw_Init E t =
     (if raw_pulse t then (ALREADY_EXISTS, t)
      else
        let t1 = t\<lparr>raw_pulse := True\<rparr>
        in if p_connect E < 0 \<or> p_configure E < 0 then (FAILED_TRANSACTION, raw_disconnect t1)
           else if raw_profile t \<noteq> [] \<and> p_param E ''audio_stream_profile'' (raw_profile t) \<noteq> NO_ERROR
           then (p_param E ''audio_stream_profile'' (raw_profile t), t1)
           else if fst (p_size E) < 0 then (FAILED_TRANSACTION, raw_disconnect t1)
           else case Allocate (p_ion E) 4 (snd (p_size E)) (raw_ion t1) of
             (r, i) \<Rightarrow>
               if r < 0 then (FAILED_TRANSACTION, raw_disconnect (t1\<lparr>raw_ion := snd (Deallocate (p_ion E) i)\<rparr>))
               else (NO_ERROR, t1\<lparr>raw_ion := i\<rparr>))"

definition raw_DeInit :: "pulse_env \<Rightarrow> raw_source \<Rightarrow> (int \<times> raw_source) option" where
  "raw_DeInit E t =
     (if \<not> raw_pulse t then None
      else Some (NO_ERROR, raw_disconnect (t\<lparr>raw_ion := snd (Deallocate (p_ion E) (raw_ion t))\<rparr>)))"

text \<open>The start of the thread sends the buffers to the PulseAudio client.\<close>

definition thread_start :: "pulse_env \<Rightarrow> raw_source \<Rightarrow> raw_source option" where
  "thread_start E t =
     (case GetList (raw_ion t) of
        None \<Rightarrow> None
      | Some bs \<Rightarrow>
          if p_send E bs < 0 then None
          else Some ((raw_emit (To_pulse bs) t)\<lparr>th_buffers := [], th_bn_buffers := [], keep_running := True, stop_received := False,
                       th_paused := False\<rparr>))"

definition raw_StartTrack :: "pulse_env \<Rightarrow> raw_source \<Rightarrow> (int \<times> raw_source) option" where
  "raw_StartTrack E t =
     (if raw_thread t then Some (ALREADY_EXISTS, t)
      else if \<not> raw_pulse t then None
      else if p_start E < 0 then Some (FAILED_TRANSACTION, t)
      else map_option (Pair NO_ERROR) (thread_start E (t\<lparr>messages := [], raw_thread := True\<rparr>)))"

definition push_message :: "AudioMessage \<Rightarrow> raw_source \<Rightarrow> raw_source" where
  "push_message m t = t\<lparr>messages := messages t @ [m]\<rparr>"

text \<open>The join waits for the thread; \<open>rest\<close> is what happens until it ends, \<open>None\<close> when it does not.\<close>

definition raw_StopTrack :: "pulse_env \<Rightarrow> (raw_source \<Rightarrow> raw_source option) \<Rightarrow> raw_source \<Rightarrow> (int \<times> raw_source) option" where
  "raw_StopTrack E rest t =
     (let t1 = push_message kMessageStop t
      in if \<not> raw_pulse t then None
         else if p_stop E < 0 then Some (FAILED_TRANSACTION, t1)
         else if raw_thread t1 then
           (case rest t1 of
              None \<Rightarrow> None
            | Some t2 \<Rightarrow> if keep_running t2 then None else Some (NO_ERROR, t2\<lparr>raw_thread := False, messages := []\<rparr>))
         else Some (NO_ERROR, t1\<lparr>messages := []\<rparr>))"

definition raw_PauseTrack :: "pulse_env \<Rightarrow> raw_source \<Rightarrow> int \<times> raw_source" where
  "raw_PauseTrack E t = (if p_pause E < 0 then FAILED_TRANSACTION else NO_ERROR, push_message kMessagePause t)"

definition raw_ResumeTrack :: "pulse_env \<Rightarrow> raw_source \<Rightarrow> int \<times> raw_source" where
  "raw_ResumeTrack E t = (if p_resume E < 0 then (FAILED_TRANSACTION, t) else (NO_ERROR, push_message kMessageResume t))"

definition raw_SetParameter :: "pulse_env \<Rightarrow> string \<Rightarrow> string \<Rightarrow> raw_source \<Rightarrow> int" where
  "raw_SetParameter E k v t = p_param E k v"

definition raw_ReturnTrackBuffer :: "BnBuffer list \<Rightarrow> raw_source \<Rightarrow> int \<times> raw_source" where
  "raw_ReturnTrackBuffer ns t = (NO_ERROR, fold (\<lambda>n. push_message (kMessageBnBuffer n)) ns t)"

definition raw_BufferHandler :: "BufferDescriptor \<Rightarrow> raw_source \<Rightarrow> raw_source" where
  "raw_BufferHandler b t = push_message (kMessageBuffer b) t"

definition raw_ErrorHandler :: "int \<Rightarrow> raw_source \<Rightarrow> raw_source option" where
  "raw_ErrorHandler e t = None"

section \<open>The thread of the raw source\<close>

definition take_message :: "raw_source \<Rightarrow> raw_source" where
  "take_message t =
     (case messages t of
        [] \<Rightarrow> t
      | m # ms \<Rightarrow>
          let t1 = t\<lparr>messages := ms\<rparr>
          in case m of
               kMessagePause \<Rightarrow> t1\<lparr>th_paused := True\<rparr>
             | kMessageResume \<Rightarrow> t1\<lparr>th_paused := False\<rparr>
             | kMessageStop \<Rightarrow> t1\<lparr>th_paused := False, stop_received := True\<rparr>
             | kMessageBuffer b \<Rightarrow> t1\<lparr>th_buffers := th_buffers t @ [b]\<rparr>
             | kMessageBnBuffer n \<Rightarrow> t1\<lparr>th_bn_buffers := th_bn_buffers t @ [n]\<rparr>)"

definition send_recorder :: "raw_source \<Rightarrow> raw_source option" where
  "send_recorder t =
     (case th_buffers t of
        [] \<Rightarrow> Some t
      | b # bs \<Rightarrow>
          if th_paused t \<or> \<not> keep_running t then Some t
          else case Export b (raw_ion t) of
            Inl e \<Rightarrow> None
          | Inr n \<Rightarrow> Some ((raw_emit (To_recorder n) t)\<lparr>th_buffers := bs\<rparr>))"

definition cleared :: "BufferDescriptor \<Rightarrow> BufferDescriptor" where
  "cleared b = b\<lparr>bd_size := 0, bd_timestamp := 0\<rparr>"

definition send_pulse :: "pulse_env \<Rightarrow> raw_source \<Rightarrow> raw_source option" where
  "send_pulse E t =
     (case th_bn_buffers t of
        [] \<Rightarrow> Some t
      | n # ns \<Rightarrow>
          if th_paused t \<or> \<not> keep_running t then Some t
          else if stop_received t \<and> bn_flag n AND kFlagEOS \<noteq> 0 then Some (t\<lparr>keep_running := False, th_bn_buffers := ns\<rparr>)
          else case Import n zero_descriptor (raw_ion t) of
            None \<Rightarrow> None
          | Some (r, b) \<Rightarrow>
              if r < 0 then None
              else if p_send E [cleared b] < 0 then None
              else Some ((raw_emit (To_pulse [cleared b]) t)\<lparr>th_bn_buffers := ns\<rparr>))"

text \<open>
  An iteration behind the wait: the wait changes nothing, but it may not end, since a signal between its
  unlocked test and the wait itself is lost. That an iteration takes place is therefore never claimed.
\<close>

definition raw_Thread :: "pulse_env \<Rightarrow> raw_source \<Rightarrow> raw_source option" where
  "raw_Thread E t =
     (if \<not> keep_running t then Some t
      else case send_recorder (take_message t) of None \<Rightarrow> None | Some t1 \<Rightarrow> send_pulse E t1)"

definition idle :: "raw_source \<Rightarrow> bool" where
  "idle t = (th_bn_buffers t = [] \<and> th_buffers t = [] \<and> messages t = [])"

section \<open>The encoded source\<close>

record encoded_source =
  es_profile :: string
  es_pulse :: bool
  es_ion :: ion
  es_buffers :: "BufferDescriptor list"
  es_buffer_size :: int
  stop_called :: bool
  stop_notify_received :: bool
  es_out :: "audio_out list"

definition AudioEncodedTrackSource :: "string \<Rightarrow> encoded_source" where
  "AudioEncodedTrackSource prof =
     \<lparr>es_profile = prof, es_pulse = False, es_ion = RecorderIon, es_buffers = [], es_buffer_size = 0, stop_called = True,
      stop_notify_received = True, es_out = []\<rparr>"

definition es_emit :: "audio_out \<Rightarrow> encoded_source \<Rightarrow> encoded_source" where
  "es_emit x t = t\<lparr>es_out := es_out t @ [x]\<rparr>"

definition es_disconnect :: "encoded_source \<Rightarrow> encoded_source" where
  "es_disconnect t = (es_emit Pulse_gone t)\<lparr>es_pulse := False\<rparr>"

definition es_Init :: "pulse_env \<Rightarrow> encoded_source \<Rightarrow> int \<times> encoded_source" where
  "es_Init E t =
     (if es_pulse t then (ALREADY_EXISTS, t)
      else
        let t1 = t\<lparr>es_pulse := True\<rparr>
        in if p_connect E < 0 \<or> p_configure E < 0 \<or>
              es_profile t \<noteq> [] \<and> p_param E ''audio_stream_profile'' (es_profile t) \<noteq> NO_ERROR \<or> fst (p_size E) < 0
           then (FAILED_TRANSACTION, es_disconnect t1)
           else
             let t2 = t1\<lparr>es_buffer_size := snd (p_size E)\<rparr>
             in case Allocate (p_ion E) (p_inputs E) (es_buffer_size t2) (es_ion t2) of
                  (r, i) \<Rightarrow>
                    if r < 0 then (FAILED_TRANSACTION, es_disconnect (t2\<lparr>es_ion := snd (Deallocate (p_ion E) i)\<rparr>))
                    else (NO_ERROR, t2\<lparr>es_ion := i\<rparr>))"

definition es_DeInit :: "pulse_env \<Rightarrow> encoded_source \<Rightarrow> (int \<times> encoded_source) option" where
  "es_DeInit E t =
     (if \<not> es_pulse t then None
      else Some (NO_ERROR, es_disconnect (t\<lparr>es_ion := snd (Deallocate (p_ion E) (es_ion t))\<rparr>)))"

definition es_StopTrack :: "pulse_env \<Rightarrow> encoded_source \<Rightarrow> int \<times> encoded_source" where
  "es_StopTrack E t = (if p_stop E < 0 then (FAILED_TRANSACTION, t) else (NO_ERROR, t\<lparr>stop_called := True\<rparr>))"

definition es_StartTrack :: "pulse_env \<Rightarrow> encoded_source \<Rightarrow> (int \<times> encoded_source) option" where
  "es_StartTrack E t =
     (if \<not> es_pulse t then None
      else if p_start E < 0 then Some (FAILED_TRANSACTION, snd (es_StopTrack E t))
      else case GetList (es_ion t) of
        None \<Rightarrow> None
      | Some bs \<Rightarrow>
          if p_send E bs < 0 then Some (FAILED_TRANSACTION, snd (es_StopTrack E t))
          else Some (NO_ERROR, (es_emit (To_pulse bs) t)\<lparr>stop_called := False, stop_notify_received := False\<rparr>))"

definition es_PauseTrack :: "pulse_env \<Rightarrow> int" where
  "es_PauseTrack E = p_pause E"

definition es_ResumeTrack :: "pulse_env \<Rightarrow> int" where
  "es_ResumeTrack E = p_resume E"

definition es_SetParameter :: "pulse_env \<Rightarrow> string \<Rightarrow> string \<Rightarrow> int" where
  "es_SetParameter E k v = p_param E k v"

text \<open>The call is not supported and fails an assertion.\<close>

definition es_ReturnTrackBuffer :: "BnBuffer list \<Rightarrow> encoded_source \<Rightarrow> (int \<times> encoded_source) option" where
  "es_ReturnTrackBuffer ns t = None"

primrec wait_pcm :: "encoded_source list \<Rightarrow> encoded_source \<Rightarrow> encoded_source option" where
  "wait_pcm [] t = (if es_buffers t = [] \<and> \<not> stop_notify_received t then None else Some t)"
| "wait_pcm (w # ws) t = (if es_buffers t = [] \<and> \<not> stop_notify_received t then wait_pcm ws w else Some t)"

definition es_GetBuffer :: "encoded_source list \<Rightarrow> BufferDescriptor \<Rightarrow> encoded_source \<Rightarrow> (int \<times> BufferDescriptor \<times> encoded_source) option" where
  "es_GetBuffer ws b t =
     (case wait_pcm ws t of
        None \<Rightarrow> None
      | Some t1 \<Rightarrow>
          if stop_notify_received t1 then Some (NO_ERROR, b, t1)
          else
            let c = hd (es_buffers t1)
            in Some (if bd_flag c AND kFlagEOS \<noteq> 0 then -1 else NO_ERROR, c, t1\<lparr>es_buffers := tl (es_buffers t1)\<rparr>))"

text \<open>\<open>mid\<close> is the flag when the reply is tested: a stop may come between.\<close>

definition es_ReturnBuffer :: "pulse_env \<Rightarrow> bool \<Rightarrow> BufferDescriptor \<Rightarrow> encoded_source \<Rightarrow> int \<times> encoded_source" where
  "es_ReturnBuffer E mid b t =
     (if stop_called t then (NO_ERROR, t)
      else
        let c = (cleared b)\<lparr>bd_capacity := word_of_int (es_buffer_size t)\<rparr>
        in if p_send E [c] < 0 then (if mid then NO_ERROR else FAILED_TRANSACTION, t)
           else (NO_ERROR, es_emit (To_pulse [c]) t))"

datatype CodecPortStatus = kPortStop | kPortIdle | kPortStart

definition es_NotifyPortEvent :: "CodecPortStatus option \<Rightarrow> encoded_source \<Rightarrow> int \<times> encoded_source" where
  "es_NotifyPortEvent s t =
     (NO_ERROR,
      case s of
        Some kPortStop \<Rightarrow> if stop_called t then t\<lparr>stop_notify_received := True\<rparr> else t
      | Some kPortIdle \<Rightarrow> if stop_notify_received t then t\<lparr>es_buffers := []\<rparr> else t
      | _ \<Rightarrow> t)"

definition es_GetBufferSize :: "encoded_source \<Rightarrow> int" where
  "es_GetBufferSize t = es_buffer_size t"

definition es_SetBufferSize :: "int \<Rightarrow> encoded_source \<Rightarrow> int \<times> encoded_source" where
  "es_SetBufferSize n t = (NO_ERROR, t\<lparr>es_buffer_size := n\<rparr>)"

definition es_ErrorHandler :: "int \<Rightarrow> encoded_source \<Rightarrow> encoded_source option" where
  "es_ErrorHandler e t = None"

definition es_BufferHandler :: "BufferDescriptor \<Rightarrow> encoded_source \<Rightarrow> encoded_source" where
  "es_BufferHandler b t = t\<lparr>es_buffers := es_buffers t @ [b]\<rparr>"

section \<open>The table of sources\<close>

datatype audio_track = Raw raw_source | Encoded encoded_source

type_synonym audio_sources = "(u32, audio_track) kv"

definition CreateTrackSource :: "pulse_env \<Rightarrow> u32 \<Rightarrow> bool \<Rightarrow> string \<Rightarrow> audio_sources \<Rightarrow> int \<times> audio_sources" where
  "CreateTrackSource E i pcm prof w =
     (if kv_find w i \<noteq> None then (BAD_VALUE, w)
      else if pcm then
        (case raw_Init E (AudioRawTrackSource prof) of
           (r, t) \<Rightarrow> if r \<noteq> NO_ERROR then (r, w) else (NO_ERROR, kv_add i (Raw t) w))
      else
        (case es_Init E (AudioEncodedTrackSource prof) of
           (r, t) \<Rightarrow> if r \<noteq> NO_ERROR then (r, w) else (NO_ERROR, kv_add i (Encoded t) w)))"

text \<open>The virtual call of a track.\<close>

definition on_source :: "(raw_source \<Rightarrow> (int \<times> raw_source) option) \<Rightarrow> (encoded_source \<Rightarrow> (int \<times> encoded_source) option) \<Rightarrow> audio_track
    \<Rightarrow> (int \<times> audio_track) option" where
  "on_source f g t =
     (case t of Raw r \<Rightarrow> map_option (map_prod id Raw) (f r) | Encoded e \<Rightarrow> map_option (map_prod id Encoded) (g e))"

definition DeleteTrackSource :: "pulse_env \<Rightarrow> u32 \<Rightarrow> audio_sources \<Rightarrow> (int \<times> audio_sources) option" where
  "DeleteTrackSource E i w =
     (case kv_find w i of
        None \<Rightarrow> Some (BAD_VALUE, w)
      | Some t \<Rightarrow>
          (case on_source (raw_DeInit E) (es_DeInit E) t of
             None \<Rightarrow> None
           | Some (r, t1) \<Rightarrow> if r \<noteq> NO_ERROR then Some (r, kv_add i t1 w) else Some (NO_ERROR, kv_remove i w)))"

definition StartTrackSource :: "pulse_env \<Rightarrow> u32 \<Rightarrow> audio_sources \<Rightarrow> (int \<times> audio_sources) option" where
  "StartTrackSource E i = on_entry i (on_source (raw_StartTrack E) (es_StartTrack E))"

definition StopTrackSource :: "pulse_env \<Rightarrow> (raw_source \<Rightarrow> raw_source option) \<Rightarrow> u32 \<Rightarrow> audio_sources \<Rightarrow> (int \<times> audio_sources) option" where
  "StopTrackSource E rest i = on_entry i (on_source (raw_StopTrack E rest) (\<lambda>t. Some (es_StopTrack E t)))"

definition PauseTrackSource :: "pulse_env \<Rightarrow> u32 \<Rightarrow> audio_sources \<Rightarrow> (int \<times> audio_sources) option" where
  "PauseTrackSource E i = on_entry i (on_source (\<lambda>t. Some (raw_PauseTrack E t)) (\<lambda>t. Some (es_PauseTrack E, t)))"

definition ResumeTrackSource :: "pulse_env \<Rightarrow> u32 \<Rightarrow> audio_sources \<Rightarrow> (int \<times> audio_sources) option" where
  "ResumeTrackSource E i = on_entry i (on_source (\<lambda>t. Some (raw_ResumeTrack E t)) (\<lambda>t. Some (es_ResumeTrack E, t)))"

definition SetParameter :: "pulse_env \<Rightarrow> u32 \<Rightarrow> string \<Rightarrow> string \<Rightarrow> audio_sources \<Rightarrow> (int \<times> audio_sources) option" where
  "SetParameter E i k v = on_entry i (on_source (\<lambda>t. Some (raw_SetParameter E k v t, t)) (\<lambda>t. Some (es_SetParameter E k v, t)))"

definition ReturnTrackBuffer :: "u32 \<Rightarrow> BnBuffer list \<Rightarrow> audio_sources \<Rightarrow> (int \<times> audio_sources) option" where
  "ReturnTrackBuffer i ns = on_entry i (on_source (\<lambda>t. Some (raw_ReturnTrackBuffer ns t)) (es_ReturnTrackBuffer ns))"

definition getTrackSource :: "u32 \<Rightarrow> audio_sources \<Rightarrow> int \<times> audio_track option" where
  "getTrackSource i w = (case kv_find w i of None \<Rightarrow> (BAD_VALUE, None) | Some t \<Rightarrow> (NO_ERROR, Some t))"

end
