(* ===== verification/Audio_Claims.thy ===== *)
theory Audio_Claims
  imports Audio_Source
begin

text \<open>
  The audio path: descriptors that survive the way to the client and back, encoders that clean up
  after a failed start, a raw source that keeps the order of its buffers, and
  a failed allocation that nobody notices.
\<close>

section \<open>Shared buffers\<close>

text \<open>
  C38. A mapped buffer that is exported to the client and imported into a descriptor when it comes back
  has its address, file descriptor, capacity, size, time stamp and flags again; the buffer id and the
  offset are those that the descriptor had before. A buffer that is not shared is refused both ways.
\<close>

theorem ion_round_trip:
  fixes b c d :: IonDescriptor
  assumes "kv_find (ion_buffer_map i) (bd_fd b) = Some e" "ib_data e = Some (bd_data b)" "bd_capacity b = word_of_int (request_size i)"
    "0 \<le> bd_fd b" "bd_fd b < 2 ^ 31"
  shows "(\<exists>n. Export b i = Inr n \<and> Import n c i = Some (0, b\<lparr>ion_buf_id := ion_buf_id c, ion_offset := ion_offset c\<rparr>)) \<and>
    (kv_find (ion_buffer_map i) (bd_fd d) = None \<longrightarrow> Export d i = Inl (- EINVAL)) \<and>
    (kv_find (ion_buffer_map i) (sint (buffer_id m)) = None \<longrightarrow> Import m c i = Some (- EINVAL, c))"
proof -
  have "sint (word_of_int (bd_fd b) :: u32) = bd_fd b"
    using assms(4,5) by (simp add: sint_uint uint_word_of_int signed_take_bit_int_eq_self_iff take_bit_int_eq_self_iff)
  then show ?thesis using assms(1-3) by (simp add: Export_def Import_def)
qed

definition demo_ion :: ion where
  "demo_ion = \<lparr>ion_buffer_map = [(5, \<lparr>ib_data = Some 100, ib_map_fd = 5\<rparr>)], ion_device = 3, ion_buffer_size = 4096, request_size = 4000\<rparr>"

definition demo_shared :: IonDescriptor where
  "demo_shared = \<lparr>bd_data = 100, bd_fd = 5, bd_size = 9, bd_capacity = 4000, bd_timestamp = 7, bd_flag = 2, ion_buf_id = 5, ion_offset = 0\<rparr>"

definition demo_slot :: IonDescriptor where
  "demo_slot = \<lparr>bd_data = 1, bd_fd = 6, bd_size = 1, bd_capacity = 1, bd_timestamp = 1, bd_flag = 1, ion_buf_id = 77, ion_offset = 78\<rparr>"

theorem ion_round_trip_witness:
  "\<exists>n. Export demo_shared demo_ion = Inr n \<and> Import n demo_slot demo_ion = Some (0, demo_shared\<lparr>ion_buf_id := 77, ion_offset := 78\<rparr>) \<and>
     Export demo_slot demo_ion = Inl (- EINVAL)"
  using ion_round_trip [of demo_ion demo_shared "\<lparr>ib_data = Some 100, ib_map_fd = 5\<rparr>" demo_slot demo_slot]
  by (auto simp: demo_ion_def demo_shared_def demo_slot_def)

definition demo_pcm :: BufferDescriptor where
  "demo_pcm = \<lparr>bd_data = 100, bd_fd = 5, bd_size = 9, bd_capacity = 4000, bd_timestamp = 7, bd_flag = 2\<rparr>"

text \<open>Only the checks of the arguments and a close that fails after a failed mapping give a negative result.\<close>

lemma failed_allocation_positive:
  assumes "0 < io_errno E" "0 < number" "0 < n" "io_open E < 0 \<or> \<not> fst (alloc_ion E (nat number) (i\<lparr>request_size := n, ion_buffer_size := align_page n, ion_device := io_open E\<rparr>))"
  shows "0 < fst (Allocate E number n i)"
  using assms by (auto simp: Allocate_def Let_def split: prod.splits)

section \<open>Starting an audio encoder\<close>

definition codec_log :: "audio_env \<Rightarrow> audio_encoder \<Rightarrow> codec_call list" where
  "codec_log E t = drop (length (ae_log t)) (ae_log (snd (the (Start E t))))"

lemmas error_labels = error_start_avcodec_def error_start_headers_def error_start_ion_def error_start_buffers_def error_start_stop_def log_codec_def

text \<open>
  An audio encoder that fails to start gives the error, has no codec, and has deleted the one it
  made exactly once, released before unless its configuration failed; it then answers \<^verbatim>\<open>NO_INIT\<close> to
  every call that needs one. One that starts has a codec that is not stopped, and stopping deletes it.
\<close>

theorem audio_start_or_nothing:
  assumes "Start E t = Some (r, t1)"
  shows "(r = NO_ERROR \<longrightarrow> ae_codec t1 \<and> codec_log E t = [Codec_new, Codec_start] \<and> \<not> eos_received t1 \<and>
      ae_log (snd (Stop E t1)) = ae_log t1 @ [Codec_stop, Codec_release, Codec_delete] \<and> \<not> ae_codec (snd (Stop E t1))) \<and>
    (r \<noteq> NO_ERROR \<longrightarrow> \<not> ae_codec t1 \<and> Stop E t1 = (NO_INIT, t1) \<and> Pause E t1 = NO_INIT \<and> Resume E t1 = NO_INIT \<and>
      codec_log E t \<in> {[Codec_new, Codec_delete], [Codec_new, Codec_release, Codec_delete], [Codec_new, Codec_stop, Codec_release, Codec_delete]} \<and>
      (codec_log E t = [Codec_new, Codec_delete] \<longleftrightarrow> ac_configure E \<noteq> NO_ERROR))"
  using assms
  by (auto simp: Start_def start_buffers_def codec_log_def error_labels Stop_def Pause_def Resume_def Let_def split: if_splits prod.splits option.splits)

definition demo_ion_env :: ion_env where
  "demo_ion_env = \<lparr>io_open = 3, io_errno = 12, io_alloc = (\<lambda>fs. Some (fold max fs 4 + 1)), io_map = (\<lambda>fd. Some (Suc (nat fd))), io_close = (\<lambda>fd. 0), io_close_device = 0\<rparr>"

definition demo_audio :: audio_env where
  "demo_audio = \<lparr>ac_configure = 0, ac_input = 0, ac_input_requirements = 0, ac_output = 0, ac_output_requirements = (0, 2, 4000), ac_start = 0,
     ac_stop = 0, ac_release = 0, ac_pause = 0, ac_resume = 0, ac_ion = demo_ion_env\<rparr>"

theorem audio_start_or_nothing_witness:
  "\<exists>t1. Start (demo_audio\<lparr>ac_output := - 12\<rparr>) AudioTrackEncoder = Some (- 12, t1) \<and> Stop (demo_audio\<lparr>ac_output := - 12\<rparr>) t1 = (NO_INIT, t1)"
proof -
  obtain t1 where "Start (demo_audio\<lparr>ac_output := - 12\<rparr>) AudioTrackEncoder = Some (- 12, t1)" by (simp add: Start_def demo_audio_def Let_def)
  then show ?thesis using audio_start_or_nothing [of "demo_audio\<lparr>ac_output := - 12\<rparr>" AudioTrackEncoder "- 12" t1] by auto
qed

text \<open>
  When the ION device cannot be opened, an audio encoder that is started for the first time
  starts with success and without a single buffer: its codec waits for one for ever.
\<close>

theorem audio_starts_without_buffers:
  assumes "io_open (ac_ion E) < 0" "0 < io_errno (ac_ion E)" "ac_configure E = 0" "ac_input E = 0" "ac_input_requirements E = 0" "ac_output E = 0"
    "ac_output_requirements E = (0, k, n)" "0 < sint k" "0 < sint n" "ac_start E = 0"
  shows "\<exists>t. Start E AudioTrackEncoder = Some (NO_ERROR, t) \<and> ae_buffers t = [] \<and> (\<forall>m. GetBuffer (replicate m t) t = None)"
proof -
  define i where "i = RecorderIon\<lparr>request_size := sint n, ion_buffer_size := align_page (sint n), ion_device := io_open (ac_ion E)\<rparr>"
  define t where "t = AudioTrackEncoder\<lparr>ae_log := [Codec_new, Codec_start], eos_received := False, ae_codec := True, ae_ion := i, ae_buffers := []\<rparr>"
  have "Allocate (ac_ion E) (sint k) (sint n) RecorderIon = (io_errno (ac_ion E), i)" using assms(1,8,9) by (simp add: Allocate_def Let_def i_def)
  moreover have "GetList i = Some []" by (simp add: GetList_def i_def RecorderIon_def)
  moreover have "Deallocate (ac_ion E) RecorderIon = (0, RecorderIon)" by (simp add: Deallocate_def RecorderIon_def)
  ultimately have "Start E AudioTrackEncoder = Some (NO_ERROR, t)"
    using assms by (simp add: Start_def start_buffers_def log_codec_def AudioTrackEncoder_def Let_def t_def)
  moreover have "wait_audio (replicate m t) t = None" for m by (induction m) (simp_all add: t_def)
  ultimately show ?thesis by (auto simp: GetBuffer_def t_def)
qed

theorem audio_starts_without_buffers_witness:
  "\<exists>t. Start (demo_audio\<lparr>ac_ion := demo_ion_env\<lparr>io_open := -1\<rparr>\<rparr>) AudioTrackEncoder = Some (NO_ERROR, t) \<and> ae_buffers t = []"
  using audio_starts_without_buffers [of "demo_audio\<lparr>ac_ion := demo_ion_env\<lparr>io_open := -1\<rparr>\<rparr>" 2 4000] by (auto simp: demo_audio_def demo_ion_env_def)

section \<open>The order of raw audio\<close>

definition bn_of :: "BufferDescriptor \<Rightarrow> BnBuffer" where
  "bn_of b = \<lparr>ion_fd = bd_fd b, ion_meta_fd = -1, bn_size = bd_size b, bn_timestamp = bd_timestamp b, bn_width = -1, bn_height = -1,
     buffer_id = word_of_int (bd_fd b), bn_flag = bd_flag b, bn_capacity = bd_capacity b\<rparr>"

text \<open>The empty buffer that goes back to the PulseAudio client for a buffer of the recorder.\<close>

definition refill :: "ion \<Rightarrow> BnBuffer \<Rightarrow> BufferDescriptor" where
  "refill i n = cleared (snd (the (Import n zero_descriptor i)))"

definition to_recorder :: "audio_out list \<Rightarrow> BnBuffer list" where
  "to_recorder xs = concat (map (\<lambda>x. case x of To_recorder n \<Rightarrow> [n] | _ \<Rightarrow> []) xs)"

definition to_pulse :: "audio_out list \<Rightarrow> BufferDescriptor list" where
  "to_pulse xs = concat (map (\<lambda>x. case x of To_pulse bs \<Rightarrow> bs | _ \<Rightarrow> []) xs)"

definition in_buffers :: "AudioMessage list \<Rightarrow> BufferDescriptor list" where
  "in_buffers ms = concat (map (\<lambda>m. case m of kMessageBuffer b \<Rightarrow> [b] | _ \<Rightarrow> []) ms)"

definition in_returns :: "AudioMessage list \<Rightarrow> BnBuffer list" where
  "in_returns ms = concat (map (\<lambda>m. case m of kMessageBnBuffer n \<Rightarrow> [n] | _ \<Rightarrow> []) ms)"

lemmas audio_lists = to_recorder_def to_pulse_def in_buffers_def in_returns_def

definition is_eos :: "BnBuffer \<Rightarrow> bool" where
  "is_eos n = (bn_flag n AND kFlagEOS \<noteq> 0)"

text \<open>
  A source with a running thread, the buffers that the PulseAudio client has delivered and those that
  the recorder has returned since the start of the thread.
\<close>

inductive raw_step :: "pulse_env \<Rightarrow> raw_source \<times> BufferDescriptor list \<times> BnBuffer list \<Rightarrow> raw_source \<times> BufferDescriptor list \<times> BnBuffer list \<Rightarrow> bool" for E where
  Delivered: "raw_step E (t, A, R) (raw_BufferHandler b t, A @ [b], R)"
| Given_back: "raw_step E (t, A, R) (snd (raw_ReturnTrackBuffer ns t), A, R @ ns)"
| Pausing: "raw_step E (t, A, R) (snd (raw_PauseTrack E t), A, R)"
| Resuming: "raw_step E (t, A, R) (snd (raw_ResumeTrack E t), A, R)"
| Stopping: "raw_step E (t, A, R) (push_message kMessageStop t, A, R)"
| Working: "raw_Thread E t = Some t1 \<Longrightarrow> raw_step E (t, A, R) (t1, A, R)"

definition raw_order :: "audio_out list \<Rightarrow> ion \<Rightarrow> raw_source \<times> BufferDescriptor list \<times> BnBuffer list \<Rightarrow> bool" where
  "raw_order L0 i x = (case x of (t, A, R) \<Rightarrow>
     raw_ion t = i \<and>
     (\<exists>L ns. raw_out t = L0 @ L \<and>
        map bn_of A = to_recorder L @ map bn_of (th_buffers t @ in_buffers (messages t)) \<and>
        R = ns @ th_bn_buffers t @ in_returns (messages t) \<and>
        (if keep_running t then to_pulse L = map (refill i) ns
         else \<exists>ms n. ns = ms @ [n] \<and> is_eos n \<and> stop_received t \<and> to_pulse L = map (refill i) ms)))"

definition raw_begin :: "pulse_env \<Rightarrow> raw_source \<times> BufferDescriptor list \<times> BnBuffer list \<Rightarrow> bool" where
  "raw_begin E x \<longleftrightarrow> (\<exists>t0 t. raw_StartTrack E t0 = Some (NO_ERROR, t) \<and> x = (t, [], []))"

lemma push_order:
  assumes "raw_order L0 i (t, A, R)" "in_buffers [m] = bs" "in_returns [m] = ns"
  shows "raw_order L0 i (push_message m t, A @ bs, R @ ns)"
proof -
  have "in_buffers (messages t @ [m]) = in_buffers (messages t) @ bs" "in_returns (messages t @ [m]) = in_returns (messages t) @ ns"
    using assms(2,3) by (simp_all add: audio_lists)
  moreover obtain L ks where "raw_ion t = i" "raw_out t = L0 @ L" "map bn_of A = to_recorder L @ map bn_of (th_buffers t @ in_buffers (messages t))"
    "R = ks @ th_bn_buffers t @ in_returns (messages t)" "if keep_running t then to_pulse L = map (refill i) ks
         else \<exists>ms n. ks = ms @ [n] \<and> is_eos n \<and> stop_received t \<and> to_pulse L = map (refill i) ms"
    using assms(1) unfolding raw_order_def prod.case by blast
  ultimately show ?thesis unfolding raw_order_def prod.case push_message_def
    by (intro conjI exI [of _ L] exI [of _ ks]) simp_all
qed

lemma returns_order:
  assumes "raw_order L0 i (t, A, R)"
  shows "raw_order L0 i (fold (\<lambda>n. push_message (kMessageBnBuffer n)) ns t, A, R @ ns)"
  using assms
proof (induction ns arbitrary: t R)
  case (Cons n ns)
  have "raw_order L0 i (push_message (kMessageBnBuffer n) t, A, R @ [n])"
    using push_order [OF Cons.prems, of "kMessageBnBuffer n" "[]" "[n]"] by (simp add: audio_lists)
  then show ?case using Cons.IH by fastforce
qed simp

lemma take_order: "raw_order L0 i (t, A, R) \<Longrightarrow> keep_running t \<Longrightarrow> raw_order L0 i (take_message t, A, R)"
  by (cases "messages t") (auto simp: take_message_def raw_order_def audio_lists Let_def split: AudioMessage.splits)

lemma recorder_order:
  assumes "raw_order L0 i (t, A, R)" "keep_running t" "send_recorder t = Some t1"
  shows "raw_order L0 i (t1, A, R) \<and> keep_running t1"
proof (cases "th_buffers t = [] \<or> th_paused t")
  case True
  then show ?thesis using assms by (auto simp: send_recorder_def split: list.splits)
next
  case False
  then obtain b bs where b: "th_buffers t = b # bs" by (cases "th_buffers t") auto
  have t1: "t1 = (raw_emit (To_recorder (bn_of b)) t)\<lparr>th_buffers := bs\<rparr>"
    using assms(2,3) False b by (auto simp: send_recorder_def Export_def bn_of_def split: if_splits)
  obtain L ks where "raw_ion t = i" "raw_out t = L0 @ L" "map bn_of A = to_recorder L @ map bn_of (th_buffers t @ in_buffers (messages t))"
    "R = ks @ th_bn_buffers t @ in_returns (messages t)" "to_pulse L = map (refill i) ks"
    using assms(1,2) unfolding raw_order_def prod.case by auto
  then show ?thesis unfolding raw_order_def prod.case t1 raw_emit_def using b assms(2)
    by (auto simp: to_recorder_def to_pulse_def intro!: exI [of _ "L @ [To_recorder (bn_of b)]"])
qed

lemma pulse_order:
  assumes "raw_order L0 i (t, A, R)" "keep_running t" "send_pulse E t = Some t1"
  shows "raw_order L0 i (t1, A, R)"
proof (cases "th_bn_buffers t = [] \<or> th_paused t")
  case True
  then show ?thesis using assms by (auto simp: send_pulse_def split: list.splits)
next
  case False
  then obtain n ns where n: "th_bn_buffers t = n # ns" by (cases "th_bn_buffers t") auto
  obtain L ks where o: "raw_ion t = i" "raw_out t = L0 @ L" "map bn_of A = to_recorder L @ map bn_of (th_buffers t @ in_buffers (messages t))"
    "R = ks @ th_bn_buffers t @ in_returns (messages t)" "to_pulse L = map (refill i) ks"
    using assms(1,2) unfolding raw_order_def prod.case by auto
  show ?thesis
  proof (cases "stop_received t \<and> is_eos n")
    case True
    then have "t1 = t\<lparr>keep_running := False, th_bn_buffers := ns\<rparr>" using assms(2,3) False n by (simp add: send_pulse_def is_eos_def)
    then show ?thesis unfolding raw_order_def prod.case using o n True by (auto intro!: exI [of _ L] exI [of _ "ks @ [n]"])
  next
    case nf: False
    have t1: "t1 = (raw_emit (To_pulse [refill i n]) t)\<lparr>th_bn_buffers := ns\<rparr>"
      using assms(2,3) False n nf o(1) by (auto simp: send_pulse_def is_eos_def refill_def split: if_splits option.splits)
    show ?thesis unfolding raw_order_def prod.case t1 raw_emit_def using o n assms(2)
      by (auto simp: to_recorder_def to_pulse_def intro!: exI [of _ "L @ [To_pulse [refill i n]]"] exI [of _ "ks @ [n]"])
  qed
qed

lemma thread_order: "raw_order L0 i (t, A, R) \<Longrightarrow> raw_Thread E t = Some t1 \<Longrightarrow> raw_order L0 i (t1, A, R)"
proof (cases "keep_running t")
  case True
  assume o: "raw_order L0 i (t, A, R)" and r: "raw_Thread E t = Some t1"
  have k: "keep_running (take_message t)" using True by (simp add: take_message_def Let_def split: list.splits AudioMessage.splits)
  obtain t2 where t2: "send_recorder (take_message t) = Some t2" "send_pulse E t2 = Some t1"
    using r True by (auto simp: raw_Thread_def split: option.splits)
  show ?thesis using recorder_order [OF take_order [OF o True] k t2(1)] pulse_order t2(2) by blast
qed (simp add: raw_Thread_def)

lemma raw_step_order: "raw_step E x y \<Longrightarrow> raw_order L0 i x \<Longrightarrow> raw_order L0 i y"
proof (induction rule: raw_step.induct)
  case (Delivered t A R b)
  then show ?case using push_order [of L0 i t A R "kMessageBuffer b" "[b]" "[]"] by (simp add: raw_BufferHandler_def audio_lists)
next
  case (Given_back t A R ns)
  then show ?case using returns_order by (simp add: raw_ReturnTrackBuffer_def)
next
  case (Pausing t A R)
  then show ?case using push_order [of L0 i t A R kMessagePause "[]" "[]"] by (simp add: raw_PauseTrack_def audio_lists)
next
  case (Resuming t A R)
  then show ?case using push_order [of L0 i t A R kMessageResume "[]" "[]"] by (simp add: raw_ResumeTrack_def audio_lists)
next
  case (Stopping t A R)
  then show ?case using push_order [of L0 i t A R kMessageStop "[]" "[]"] by (simp add: audio_lists)
next
  case (Working t t1 A R)
  then show ?case by (blast intro: thread_order)
qed

interpretation raw_sys: invariant_system "\<lambda>x. raw_begin E x \<and> raw_out (fst x) = L0 \<and> raw_ion (fst x) = i" "raw_step E" "raw_order L0 i" for E L0 i
proof
  show "raw_order L0 i x" if "raw_begin E x \<and> raw_out (fst x) = L0 \<and> raw_ion (fst x) = i" for x
    using that by (auto simp: raw_begin_def raw_StartTrack_def thread_start_def raw_order_def raw_emit_def audio_lists split: if_splits option.splits)
  show "raw_order L0 i y" if "raw_order L0 i x" "raw_step E x y" for x y using that raw_step_order by blast
qed

text \<open>Buffers that are shared, and a PulseAudio client that takes them.\<close>

definition importable :: "ion \<Rightarrow> BnBuffer \<Rightarrow> bool" where
  "importable i n \<longleftrightarrow> (\<exists>e a. kv_find (ion_buffer_map i) (sint (buffer_id n)) = Some e \<and> ib_data e = Some a)"

definition queue_ok :: "pulse_env \<Rightarrow> raw_source \<Rightarrow> bool" where
  "queue_ok E t \<longleftrightarrow> (\<forall>b \<in> set (th_buffers t @ in_buffers (messages t)). kv_find (ion_buffer_map (raw_ion t)) (bd_fd b) \<noteq> None) \<and>
     (\<forall>n \<in> set (th_bn_buffers t @ in_returns (messages t)). importable (raw_ion t) n) \<and> (\<forall>bs. 0 \<le> p_send E bs)"

lemma take_ok: "queue_ok E t \<Longrightarrow> queue_ok E (take_message t)"
  by (cases "messages t") (auto simp: take_message_def queue_ok_def audio_lists Let_def split: AudioMessage.splits)

lemma recorder_ok: "queue_ok E t \<Longrightarrow> \<exists>t1. send_recorder t = Some t1 \<and> queue_ok E t1 \<and> messages t1 = messages t \<and> th_bn_buffers t1 = th_bn_buffers t \<and>
    keep_running t1 = keep_running t \<and> stop_received t1 = stop_received t \<and> th_paused t1 = th_paused t"
  by (cases "th_buffers t") (auto simp: send_recorder_def queue_ok_def raw_emit_def Export_def)

lemma pulse_ok:
  assumes "queue_ok E t" "keep_running t"
  shows "\<exists>t1. send_pulse E t = Some t1 \<and> queue_ok E t1 \<and> messages t1 = messages t \<and> stop_received t1 = stop_received t \<and> th_paused t1 = th_paused t \<and>
    th_bn_buffers t1 = (if th_paused t then th_bn_buffers t else tl (th_bn_buffers t)) \<and>
    (keep_running t1 \<longleftrightarrow> \<not> (th_bn_buffers t \<noteq> [] \<and> \<not> th_paused t \<and> stop_received t \<and> is_eos (hd (th_bn_buffers t))))"
proof (cases "th_bn_buffers t = [] \<or> th_paused t")
  case True
  then show ?thesis using assms by (auto simp: send_pulse_def split: list.splits)
next
  case False
  then obtain n ns where n: "th_bn_buffers t = n # ns" by (cases "th_bn_buffers t") auto
  have "\<exists>b. Import n zero_descriptor (raw_ion t) = Some (0, b)" using assms(1) n by (auto simp: queue_ok_def importable_def Import_def)
  then obtain b where "Import n zero_descriptor (raw_ion t) = Some (0, b)" ..
  moreover have "\<not> p_send E [cleared b] < 0" using assms(1) by (simp add: queue_ok_def not_less)
  ultimately show ?thesis using assms n False
    by (cases "stop_received t \<and> is_eos n") (auto simp: send_pulse_def is_eos_def queue_ok_def raw_emit_def)
qed

lemma take_running [simp]: "keep_running (take_message t) = keep_running t"
  by (simp add: take_message_def Let_def split: list.splits AudioMessage.splits)

lemma thread_ok:
  assumes "queue_ok E t" "keep_running t"
  shows "\<exists>t1. raw_Thread E t = Some t1 \<and> queue_ok E t1 \<and> messages t1 = messages (take_message t) \<and> stop_received t1 = stop_received (take_message t) \<and>
    th_paused t1 = th_paused (take_message t) \<and>
    th_bn_buffers t1 = (if th_paused (take_message t) then th_bn_buffers (take_message t) else tl (th_bn_buffers (take_message t))) \<and>
    (keep_running t1 \<longleftrightarrow> \<not> (th_bn_buffers (take_message t) \<noteq> [] \<and> \<not> th_paused (take_message t) \<and> stop_received (take_message t) \<and> is_eos (hd (th_bn_buffers (take_message t)))))"
proof -
  obtain t2 where t2: "send_recorder (take_message t) = Some t2" "queue_ok E t2" "messages t2 = messages (take_message t)"
    "th_bn_buffers t2 = th_bn_buffers (take_message t)" "keep_running t2" "stop_received t2 = stop_received (take_message t)" "th_paused t2 = th_paused (take_message t)"
    using recorder_ok [OF take_ok [OF assms(1)]] assms(2) by auto
  have "raw_Thread E t = send_pulse E t2" using t2(1) assms(2) by (simp add: raw_Thread_def)
  then show ?thesis using pulse_ok [OF t2(2,5)] by (simp only: t2(3,4,6,7))
qed

text \<open>
  C36. Over any order of deliveries, returns, pauses, resumptions and stops and the iterations of its
  thread, a raw audio source passes the buffers of the PulseAudio client to the recorder in the order
  of their delivery, and the returned ones, emptied, to the PulseAudio client in the order of their
  return: none is lost, none passes twice, and what has not passed is queued. The thread ends only on
  a returned buffer that marks the end, after a stop; with shared buffers no iteration fails.
\<close>

theorem raw_audio_in_order:
  assumes "raw_begin E (t0, [], [])" "(raw_step E)\<^sup>*\<^sup>* (t0, [], []) (t, A, R)"
  shows "\<exists>L ns. raw_out t = raw_out t0 @ L \<and>
    map bn_of A = to_recorder L @ map bn_of (th_buffers t @ in_buffers (messages t)) \<and>
    R = ns @ th_bn_buffers t @ in_returns (messages t) \<and>
    (keep_running t \<longrightarrow> to_pulse L = map (refill (raw_ion t0)) ns) \<and>
    (\<not> keep_running t \<longrightarrow> (\<exists>ms n. ns = ms @ [n] \<and> is_eos n \<and> stop_received t \<and> to_pulse L = map (refill (raw_ion t0)) ms)) \<and>
    ((\<forall>b \<in> set A. kv_find (ion_buffer_map (raw_ion t0)) (bd_fd b) \<noteq> None) \<and>
     (\<forall>n \<in> set R. \<exists>e a. kv_find (ion_buffer_map (raw_ion t0)) (sint (buffer_id n)) = Some e \<and> ib_data e = Some a) \<and>
     (\<forall>bs. 0 \<le> p_send E bs) \<longrightarrow> raw_Thread E t \<noteq> None)"
proof -
  have o: "raw_order (raw_out t0) (raw_ion t0) (t, A, R)" using raw_sys.inv_reachable [OF _ assms(2)] assms(1) by auto
  then obtain L ns where q: "raw_ion t = raw_ion t0" "raw_out t = raw_out t0 @ L"
    "map bn_of A = to_recorder L @ map bn_of (th_buffers t @ in_buffers (messages t))" "R = ns @ th_bn_buffers t @ in_returns (messages t)"
    "if keep_running t then to_pulse L = map (refill (raw_ion t0)) ns
     else \<exists>ms n. ns = ms @ [n] \<and> is_eos n \<and> stop_received t \<and> to_pulse L = map (refill (raw_ion t0)) ms"
    unfolding raw_order_def prod.case by blast
  have "raw_Thread E t \<noteq> None" if "\<forall>b \<in> set A. kv_find (ion_buffer_map (raw_ion t0)) (bd_fd b) \<noteq> None"
    "\<forall>n \<in> set R. \<exists>e a. kv_find (ion_buffer_map (raw_ion t0)) (sint (buffer_id n)) = Some e \<and> ib_data e = Some a" "\<forall>bs. 0 \<le> p_send E bs"
  proof (cases "keep_running t")
    case True
    have "kv_find (ion_buffer_map (raw_ion t)) (bd_fd b) \<noteq> None" if b: "b \<in> set (th_buffers t @ in_buffers (messages t))" for b
    proof -
      have "bn_of b \<in> set (map bn_of A)" using q(3) b by auto
      then obtain a where "a \<in> set A" "bn_of b = bn_of a" by auto
      then show ?thesis using \<open>\<forall>b \<in> set A. _\<close> q(1) by (metis bn_of_def BnBuffer.ext_inject)
    qed
    then have "queue_ok E t" using that(2,3) q(1,4) by (auto simp: queue_ok_def importable_def)
    then show ?thesis using thread_ok True by fastforce
  qed (simp add: raw_Thread_def)
  then show ?thesis using q(2-5) by (intro exI [of _ L] exI [of _ ns]) (auto split: if_splits)
qed

definition demo_pulse :: pulse_env where
  "demo_pulse = \<lparr>p_connect = 0, p_configure = 0, p_param = (\<lambda>k v. 0), p_size = (0, 4000), p_start = 0, p_stop = 0, p_pause = 0, p_resume = 0,
     p_send = (\<lambda>bs. 0), p_ion = demo_ion_env, p_inputs = 4\<rparr>"

definition demo_raw :: raw_source where
  "demo_raw = (AudioRawTrackSource [])\<lparr>raw_pulse := True, raw_ion := demo_ion, raw_thread := True, keep_running := True,
     raw_out := [To_pulse [demo_pcm\<lparr>bd_size := 0, bd_timestamp := 0, bd_flag := 0\<rparr>]]\<rparr>"

lemma demo_raw_begin: "raw_begin demo_pulse (demo_raw, [], [])"
proof -
  have "raw_StartTrack demo_pulse ((AudioRawTrackSource [])\<lparr>raw_pulse := True, raw_ion := demo_ion\<rparr>) = Some (NO_ERROR, demo_raw)"
    by (simp add: raw_StartTrack_def thread_start_def demo_pulse_def AudioRawTrackSource_def GetList_def demo_ion_def ion_descriptor_def raw_emit_def
        demo_raw_def demo_pcm_def)
  then show ?thesis unfolding raw_begin_def by blast
qed

theorem raw_audio_in_order_witness:
  "\<exists>t. (raw_step demo_pulse)\<^sup>*\<^sup>* (demo_raw, [], []) (t, [demo_pcm], []) \<and> raw_Thread demo_pulse t \<noteq> None \<and>
     (\<exists>L. raw_out t = raw_out demo_raw @ L \<and> to_recorder L @ map bn_of (th_buffers t @ in_buffers (messages t)) = [bn_of demo_pcm])"
proof -
  have "raw_step demo_pulse (demo_raw, [], []) (raw_BufferHandler demo_pcm demo_raw, [demo_pcm], [])"
    using raw_step.Delivered [of demo_pulse demo_raw "[]" "[]" demo_pcm] by simp
  then have r: "(raw_step demo_pulse)\<^sup>*\<^sup>* (demo_raw, [], []) (raw_BufferHandler demo_pcm demo_raw, [demo_pcm], [])" ..
  have "\<forall>b \<in> set [demo_pcm]. kv_find (ion_buffer_map (raw_ion demo_raw)) (bd_fd b) \<noteq> None" "\<forall>bs. 0 \<le> p_send demo_pulse bs"
    by (simp_all add: demo_raw_def demo_ion_def demo_pcm_def demo_pulse_def)
  then show ?thesis using raw_audio_in_order [OF demo_raw_begin r] r by fastforce
qed

text \<open>While it is paused with buffers, the thread neither waits nor changes anything.\<close>

theorem paused_thread_spins:
  assumes "th_paused t" "th_buffers t \<noteq> []" "messages t = []" "keep_running t"
  shows "\<not> idle t \<and> raw_Thread E t = Some t"
  using assms by (cases "th_bn_buffers t") (auto simp: idle_def raw_Thread_def take_message_def send_recorder_def send_pulse_def split: list.splits)

section \<open>The end of the thread\<close>

primrec run_thread :: "pulse_env \<Rightarrow> nat \<Rightarrow> raw_source \<Rightarrow> raw_source option" where
  "run_thread E 0 t = Some t"
| "run_thread E (Suc k) t = (case raw_Thread E t of None \<Rightarrow> None | Some t1 \<Rightarrow> run_thread E k t1)"

lemma never_ends: "\<forall>n \<in> set (th_bn_buffers t @ in_returns (messages t)). \<not> is_eos n \<Longrightarrow> keep_running t \<Longrightarrow> run_thread E k t = Some t1 \<Longrightarrow> keep_running t1"
proof (induction k arbitrary: t)
  case (Suc k)
  obtain t2 where t2: "raw_Thread E t = Some t2" "run_thread E k t2 = Some t1" using Suc.prems(3) by (auto split: option.splits)
  have u: "\<forall>n \<in> set (th_bn_buffers (take_message t) @ in_returns (messages (take_message t))). \<not> is_eos n"
    using Suc.prems(1) by (cases "messages t") (auto simp: take_message_def in_returns_def Let_def split: AudioMessage.splits)
  have "(\<forall>n \<in> set (th_bn_buffers t2 @ in_returns (messages t2)). \<not> is_eos n) \<and> keep_running t2"
    using t2(1) u Suc.prems(2)
    by (auto simp: raw_Thread_def send_recorder_def send_pulse_def raw_emit_def is_eos_def split: option.splits list.splits if_splits sum.splits)
  then show ?case using Suc.IH t2(2) by blast
qed simp

text \<open>
  While no returned buffer marks the end, stopping a raw source does not return, however long its
  thread goes on. (Waiting, which the iterations leave out, cannot make it end.)
\<close>

theorem raw_stop_waits:
  assumes "raw_pulse t" "raw_thread t" "keep_running t" "0 \<le> p_stop E"
    "\<forall>m \<in> set (th_bn_buffers t @ in_returns (messages t)). \<not> is_eos m"
  shows "raw_StopTrack E (run_thread E k) t = None"
proof -
  define u where "u = push_message kMessageStop t"
  have "\<forall>m \<in> set (th_bn_buffers u @ in_returns (messages u)). \<not> is_eos m" "keep_running u" "raw_thread u"
    using assms(2,3,5) by (auto simp: u_def push_message_def in_returns_def)
  then have "keep_running t1" if "run_thread E k u = Some t1" for t1 using never_ends that by blast
  then show ?thesis using assms(1,4) \<open>raw_thread u\<close> by (auto simp: raw_StopTrack_def Let_def simp flip: u_def split: option.splits)
qed

theorem raw_stop_waits_witness: "raw_StopTrack demo_pulse (run_thread demo_pulse 100) demo_raw = None"
  by (rule raw_stop_waits) (simp_all add: demo_raw_def AudioRawTrackSource_def audio_lists demo_pulse_def)

end
