(* ===== verification/Recorder_Client.thy ===== *)
theory Recorder_Client
  imports Recorder_Ion Stream
begin

text \<open>
  The library an application links: it keeps the sessions, tracks and callbacks of the application,
  maps the shared buffers of the service into the process and hands every request to the service.
  Source: \<^verbatim>\<open>recorder/src/client/qmmf_recorder_client.{h,cc}\<close> (class \<^verbatim>\<open>RecorderClient\<close>) and
  \<^verbatim>\<open>qmmf_recorder_client_ion.{h,cc}\<close>, built without the first camera HAL; the build flag
  \<^verbatim>\<open>TARGET_USES_GBM\<close> is a parameter. Everything the client asks of the kernel, of the service and of
  the application is a \<open>call\<close>, appended with its answer to the trace; the answers are arbitrary
  functions of what happened before. \<open>None\<close> stands for a failed assertion or for undefined behaviour.
  Arguments the client only hands on (codec parameters, metadata, extra parameters) are left out.
\<close>

section \<open>Data\<close>

datatype EventType = kServerDied | kCameraError | kCameraOpened | kCameraClosing | kCameraClosed

text \<open>The descriptor the application gets, with the identifier of the buffer; the offset is always 0 and left out.\<close>

record TrackBuffer = BufferDescriptor +
  buf_id :: u32

record BufferInfo =
  bi_fd :: int
  bi_meta_fd :: int
  bi_size :: u32
  bi_vaddr :: nat \<comment> \<open>0 for the null pointer\<close>

record RecorderClientIonBuffer =
  cb_data :: nat
  cb_capacity :: u32
  cb_map_fd :: int

text \<open>The width, the height and the format of the first plane, when the flag \<^verbatim>\<open>kCamBufMetaData\<close> is set.\<close>

record MetaData =
  md_plane :: "(u32 \<times> u32 \<times> BufferFormat) option"

datatype gbm_format = GBM_FORMAT_RAW10 | GBM_FORMAT_RAW12 | GBM_FORMAT_RAW16 | GBM_FORMAT_NV12
  | GBM_FORMAT_NV21_ZSL | GBM_FORMAT_NV16 | GBM_FORMAT_BLOB | GBM_FORMAT_YCbCr_420_SP_VENUS_UBWC | GBM_FORMAT_0

datatype service_cmd = S_connect | S_disconnect | S_start_camera u32 bool | S_stop_camera u32
  | S_create_session u32 | S_delete_session u32 | S_start_session u32 | S_stop_session u32 bool
  | S_pause_session u32 | S_resume_session u32 | S_create_audio u32 u32 | S_create_video u32 u32
  | S_create_video_extra u32 u32 | S_delete_audio u32 u32 | S_delete_video u32 u32
  | S_return_buffers u32 u32 "BnBuffer list" | S_set_audio u32 u32 | S_set_video u32 u32
  | S_capture u32 u32 | S_config u32 | S_cancel u32 | S_return_image u32 u32
  | S_set_param u32 | S_get_param u32 | S_get_default u32 | S_get_static u32 | S_vendor_tags

text \<open>A callback of the application is known by a number; one that may be missing is an option.\<close>

datatype app_call = Recorder_event nat EventType | Data_cb nat u32 "TrackBuffer list" "MetaData list"
  | Event_cb nat u32 EventType | Image_cb nat u32 u32 TrackBuffer MetaData | Result_cb nat u32

datatype call = Ion_open | Ion_close int | Get_service | Link_to_death | Unlink_to_death
  | Mmap int u32 | Munmap nat u32 | Close int | Sync_start int | Sync_end int
  | Gbm_import int int u32 u32 gbm_format | Gbm_destroy int
  | Set_global_tags | Clear_global_tags | Service u32 service_cmd | App app_call

type_synonym history = "(call \<times> int) list"
type_synonym BufferInfoMap = "(u32, BufferInfo) kv"

record client =
  recorder_service :: bool
  death_notifier :: bool
  ci_device :: int
  ci_buffers :: "(u32, (int, RecorderClientIonBuffer) kv) kv"
  ion_device :: int
  client_id :: u32
  sessions :: "(u32, (u32, unit) kv) kv"
  session_cb_list :: "(u32, nat) kv"
  track_cb_list :: "(u32, (u32, nat) kv) kv"
  recorder_cb :: "nat option"
  image_capture_cb :: "nat option"
  metadata_cb :: "nat option"
  track_buffers_map :: "(u32, BufferInfoMap) kv"
  snapshot_buffers :: BufferInfoMap
  gbm_buffers_map :: "(int, int) kv"
  vendor_tag_desc :: bool
  trace :: history

record client_env =
  answer :: "history \<Rightarrow> call \<Rightarrow> int"
  errno_after :: "history \<Rightarrow> int"
  new_id :: "history \<Rightarrow> u32" \<comment> \<open>what the service writes to the identifier it returns\<close>
  target_gbm :: bool

definition issue :: "client_env \<Rightarrow> call \<Rightarrow> client \<Rightarrow> int \<times> client" where
  "issue E q c = (let a = answer E (trace c) q in (a, c\<lparr>trace := trace c @ [(q, a)]\<rparr>))"

definition emit :: "call \<Rightarrow> client \<Rightarrow> client" where
  "emit q c = c\<lparr>trace := trace c @ [(q, 0)]\<rparr>"

text \<open>The pointer in an answer, and the request to the service, which asserts the identity of the client.\<close>

definition pointer :: "int \<Rightarrow> nat" where
  "pointer a = nat (a mod 2 ^ 64)"

definition call_service :: "client_env \<Rightarrow> service_cmd \<Rightarrow> client \<Rightarrow> (int \<times> client) option" where
  "call_service E s c = (if client_id c = 0 then None else Some (issue E (Service (client_id c) s) c))"

section \<open>Audio buffers: \<^verbatim>\<open>RecorderClientIon\<close>\<close>

definition app_buffer :: "BnBuffer \<Rightarrow> nat \<Rightarrow> int \<Rightarrow> TrackBuffer" where
  "app_buffer b a fd = \<lparr>bd_data = a, bd_fd = fd, bd_size = bn_size b, bd_capacity = bn_capacity b,
     bd_timestamp = bn_timestamp b, bd_flag = bn_flag b, buf_id = buffer_id b\<rparr>"

definition ion_map_of :: "u32 \<Rightarrow> client \<Rightarrow> (int, RecorderClientIonBuffer) kv" where
  "ion_map_of t c = (case kv_find (ci_buffers c) t of None \<Rightarrow> [] | Some m \<Rightarrow> m)"

definition set_ion_map :: "u32 \<Rightarrow> (int, RecorderClientIonBuffer) kv \<Rightarrow> client \<Rightarrow> client" where
  "set_ion_map t m c = c\<lparr>ci_buffers := kv_add t m (ci_buffers c)\<rparr>"

definition Associate :: "client_env \<Rightarrow> u32 \<Rightarrow> BnBuffer \<Rightarrow> client \<Rightarrow> (int + TrackBuffer) \<times> client" where
  "Associate E t b c =
     (if ci_device c = -1 then (Inl (- ENODEV), c)
      else case kv_find (ion_map_of t c) (sint (buffer_id b)) of
        Some e \<Rightarrow> (Inr (app_buffer b (cb_data e) (cb_map_fd e)), snd (issue E (Close (ion_fd b)) c))
      | None \<Rightarrow>
          let c1 = (if kv_find (ci_buffers c) t = None then set_ion_map t [] c else c);
              (a, c2) = issue E (Mmap (ion_fd b) (bn_capacity b)) c1
          in if pointer a = MAP_FAILED
             then let c3 = snd (issue E (Close (ion_fd b)) c2) in (Inl (errno_after E (trace c3)), c3)
             else
               let c3 = emit (Sync_start (ion_fd b)) c2;
                   e = \<lparr>cb_data = pointer a, cb_capacity = bn_capacity b, cb_map_fd = ion_fd b\<rparr>
               in (Inr (app_buffer b (pointer a) (ion_fd b)),
                   set_ion_map t (emplace (sint (buffer_id b)) e (ion_map_of t c3)) c3))"

text \<open>A failure ends the loop with \<^verbatim>\<open>errno\<close>; the buffers released before keep their entries.\<close>

fun release_ion :: "client_env \<Rightarrow> (int, RecorderClientIonBuffer) kv \<Rightarrow> client \<Rightarrow>
    int option \<times> (int, RecorderClientIonBuffer) kv \<times> client" where
  "release_ion E [] c = (None, [], c)"
| "release_ion E ((k, b) # m) c =
     (let c1 = (if cb_map_fd b \<noteq> 0 then emit (Sync_end (cb_map_fd b)) c else c);
          (r, c2) = issue E (Munmap (cb_data b) (cb_capacity b)) c1
      in if r < 0
         then let c3 = snd (issue E (Close (cb_map_fd b)) c2) in (Some (errno_after E (trace c3)), (k, b) # m, c3)
         else
           let (r2, c3) = issue E (Close (cb_map_fd b)) c2
           in if r2 < 0 then (Some (errno_after E (trace c3)), (k, b\<lparr>cb_data := 0\<rparr>) # m, c3)
              else let (r3, m3, c4) = release_ion E m c3 in (r3, (k, b\<lparr>cb_data := 0, cb_map_fd := -1\<rparr>) # m3, c4))"

definition Release :: "client_env \<Rightarrow> u32 \<Rightarrow> client \<Rightarrow> int \<times> client" where
  "Release E t c =
     (case kv_find (ci_buffers c) t of
        None \<Rightarrow> (0, c)
      | Some m \<Rightarrow>
          (case release_ion E m c of
             (Some e, m1, c1) \<Rightarrow> (e, set_ion_map t m1 c1)
           | (None, m1, c1) \<Rightarrow> (0, c1\<lparr>ci_buffers := kv_remove t (ci_buffers c1)\<rparr>)))"

text \<open>
  The destructor walks the map and \<^verbatim>\<open>Release\<close> erases the entry under its iterator, which the walk
  then advances: undefined behaviour, unless the release failed and kept the entry.
\<close>

fun free_tracks :: "client_env \<Rightarrow> u32 list \<Rightarrow> client \<Rightarrow> client option" where
  "free_tracks E [] c = Some c"
| "free_tracks E (t # ts) c =
     (let c1 = snd (Release E t c) in if kv_find (ci_buffers c1) t = None then None else free_tracks E ts c1)"

definition free_client_ion :: "client_env \<Rightarrow> client \<Rightarrow> client option" where
  "free_client_ion E c = map_option (\<lambda>c1. snd (issue E (Ion_close (ci_device c1)) c1)) (free_tracks E (kv_keys (ci_buffers c)) c)"

section \<open>Mapping of video buffers and images\<close>

definition gbm_format_of :: "BufferFormat \<Rightarrow> gbm_format" where
  "gbm_format_of f = (case f of
      kRAW10 \<Rightarrow> GBM_FORMAT_RAW10
    | kRAW12 \<Rightarrow> GBM_FORMAT_RAW12
    | kRAW16 \<Rightarrow> GBM_FORMAT_RAW16
    | BufferFormat.kNV12 \<Rightarrow> GBM_FORMAT_NV12
    | kNV21 \<Rightarrow> GBM_FORMAT_NV21_ZSL
    | kNV16 \<Rightarrow> GBM_FORMAT_NV16
    | kBLOB \<Rightarrow> GBM_FORMAT_BLOB
    | BufferFormat.kNV12UBWC \<Rightarrow> GBM_FORMAT_YCbCr_420_SP_VENUS_UBWC
    | _ \<Rightarrow> GBM_FORMAT_0)"

definition ImportBuffer :: "client_env \<Rightarrow> int \<Rightarrow> int \<Rightarrow> MetaData \<Rightarrow> client \<Rightarrow> client" where
  "ImportBuffer E fd metafd md c =
     (if kv_find (gbm_buffers_map c) fd \<noteq> None then c
      else if metafd = -1 then c
      else
        let (w, h, f) = (case md_plane md of None \<Rightarrow> (0, 0, GBM_FORMAT_0) | Some (w, h, f) \<Rightarrow> (w, h, gbm_format_of f));
            (bo, c1) = issue E (Gbm_import fd metafd w h f) c
        in c1\<lparr>gbm_buffers_map := emplace fd bo (gbm_buffers_map c1)\<rparr>)"

text \<open>The descriptor that is left to close: none for an imported buffer.\<close>

definition ReleaseBuffer :: "int \<Rightarrow> client \<Rightarrow> int \<times> client" where
  "ReleaseBuffer fd c =
     (case kv_find (gbm_buffers_map c) fd of
        None \<Rightarrow> (fd, c)
      | Some bo \<Rightarrow> (-1, emit (Gbm_destroy bo) (c\<lparr>gbm_buffers_map := kv_remove fd (gbm_buffers_map c)\<rparr>)))"

definition MapBuffer :: "client_env \<Rightarrow> BufferInfo \<Rightarrow> client \<Rightarrow> (int \<times> BufferInfo \<times> client) option" where
  "MapBuffer E i c =
     (if ion_device c \<le> 0 then None
      else
        let (a, c1) = issue E (Mmap (bi_fd i) (bi_size i)) c
        in if pointer a = 0 then Some (NO_MEMORY, i, c1)
           else Some (NO_ERROR, i\<lparr>bi_vaddr := pointer a\<rparr>, emit (Sync_start (bi_fd i)) c1))"

definition UnmapBuffer :: "client_env \<Rightarrow> BufferInfo \<Rightarrow> client \<Rightarrow> (int \<times> BufferInfo \<times> client) option" where
  "UnmapBuffer E i c =
     (if ion_device c \<le> 0 then None
      else if bi_vaddr i = 0 then Some (NO_ERROR, i, c)
      else
        let (r, c1) = issue E (Munmap (bi_vaddr i) (bi_size i)) (emit (Sync_end (bi_fd i)) c)
        in if r < 0 then Some (errno_after E (trace c1), i, c1)
           else
             let (fd, c2) = (if target_gbm E then ReleaseBuffer (bi_fd i) c1 else (bi_fd i, c1));
                 i1 = i\<lparr>bi_vaddr := 0, bi_fd := fd\<rparr>
             in if fd = -1 then Some (NO_ERROR, i1, c2)
                else
                  let (r2, c3) = issue E (Close fd) c2
                  in if r2 < 0 then Some (errno_after E (trace c3), i1, c3)
                     else Some (NO_ERROR, i1\<lparr>bi_fd := -1\<rparr>, c3))"

fun unmap_buffers :: "client_env \<Rightarrow> BufferInfoMap \<Rightarrow> client \<Rightarrow> (int \<times> BufferInfoMap \<times> client) option" where
  "unmap_buffers E [] c = Some (NO_ERROR, [], c)"
| "unmap_buffers E ((k, i) # m) c =
     do {
       (r, i1, c1) \<leftarrow> UnmapBuffer E i c;
       if r \<noteq> NO_ERROR then Some (r, (k, i1) # m, c1)
       else do {
         (r2, m2, c2) \<leftarrow> unmap_buffers E m c1;
         Some (r2, (k, i1) # m2, c2)
       }
     }"

fun unmap_tracks :: "client_env \<Rightarrow> (u32, BufferInfoMap) kv \<Rightarrow> client \<Rightarrow> (int \<times> (u32, BufferInfoMap) kv \<times> client) option" where
  "unmap_tracks E [] c = Some (NO_ERROR, [], c)"
| "unmap_tracks E ((t, m) # ts) c =
     do {
       (r, m1, c1) \<leftarrow> unmap_buffers E m c;
       if r \<noteq> NO_ERROR then Some (r, (t, m1) # ts, c1)
       else do {
         (r2, ts2, c2) \<leftarrow> unmap_tracks E ts c1;
         Some (r2, (t, m1) # ts2, c2)
       }
     }"

section \<open>Connection\<close>

definition RecorderClient :: "int \<Rightarrow> client" where
  "RecorderClient device = \<lparr>recorder_service = False, death_notifier = False, ci_device = device, ci_buffers = [],
     ion_device = -1, client_id = 0, sessions = [], session_cb_list = [], track_cb_list = [], recorder_cb = None,
     image_capture_cb = None, metadata_cb = None, track_buffers_map = [], snapshot_buffers = [], gbm_buffers_map = [],
     vendor_tag_desc = False, trace = []\<rparr>"

definition CheckServiceStatus :: "client \<Rightarrow> bool" where
  "CheckServiceStatus c = recorder_service c"

definition Connect :: "client_env \<Rightarrow> nat option \<Rightarrow> client \<Rightarrow> int \<times> client" where
  "Connect E cb c =
     (if CheckServiceStatus c then (NO_ERROR, c)
      else
        let (device, c1) = issue E Ion_open c;
            c2 = c1\<lparr>ion_device := device\<rparr>
        in if device < 0 then (NO_INIT, c2)
           else
             let (handle, c3) = issue E Get_service (c2\<lparr>recorder_cb := cb, death_notifier := True\<rparr>)
             in if handle = 0 then (NO_INIT, c3)
                else
                  let c4 = emit Link_to_death (c3\<lparr>recorder_service := True\<rparr>);
                      i = new_id E (trace c4);
                      (ret, c5) = issue E (Service i S_connect) c4
                  in (ret, c5\<lparr>client_id := i, session_cb_list := [], track_cb_list := []\<rparr>))"

text \<open>What \<^verbatim>\<open>Disconnect\<close> and the death of the service both reset.\<close>

definition drop_service :: "client_env \<Rightarrow> client \<Rightarrow> client" where
  "drop_service E c =
     (let c1 = (emit Unlink_to_death c)\<lparr>recorder_service := False, death_notifier := False, sessions := [],
                  session_cb_list := [], track_cb_list := []\<rparr>;
          c2 = (if ion_device c1 > 0 then (snd (issue E (Ion_close (ion_device c1)) c1))\<lparr>ion_device := -1\<rparr> else c1)
      in c2\<lparr>client_id := 0\<rparr>)"

definition Disconnect :: "client_env \<Rightarrow> client \<Rightarrow> int \<times> client" where
  "Disconnect E c =
     (if \<not> CheckServiceStatus c then (NO_INIT, c)
      else
        let (ret, c1) = issue E (Service (client_id c) S_disconnect) c
        in (ret, (emit Clear_global_tags (drop_service E c1))\<lparr>vendor_tag_desc := False\<rparr>))"

definition ServiceDeathHandler :: "client_env \<Rightarrow> client \<Rightarrow> client option" where
  "ServiceDeathHandler E c =
     do {
       (r, ts, c1) \<leftarrow> unmap_tracks E (track_buffers_map c) c;
       if r \<noteq> NO_ERROR then Some (c1\<lparr>track_buffers_map := ts\<rparr>)
       else do {
         (r2, m, c2) \<leftarrow> unmap_buffers E (snapshot_buffers c1) (c1\<lparr>track_buffers_map := []\<rparr>);
         if r2 \<noteq> NO_ERROR then Some (c2\<lparr>snapshot_buffers := m\<rparr>)
         else if \<not> recorder_service c2 then None
         else
           let c3 = (drop_service E (c2\<lparr>snapshot_buffers := []\<rparr>))\<lparr>image_capture_cb := None, metadata_cb := None\<rparr>
           in Some (case recorder_cb c3 of None \<Rightarrow> c3 | Some cb \<Rightarrow> emit (App (Recorder_event cb kServerDied)) c3)
       }
     }"

section \<open>Cameras and sessions\<close>

definition with_service :: "(client \<Rightarrow> (int \<times> client) option) \<Rightarrow> client \<Rightarrow> (int \<times> client) option" where
  "with_service f c = (if \<not> CheckServiceStatus c then Some (NO_INIT, c) else f c)"

definition GetVendorTagDescriptor :: "client_env \<Rightarrow> client \<Rightarrow> (int \<times> client) option" where
  "GetVendorTagDescriptor E = with_service (call_service E S_vendor_tags)"

definition StartCamera :: "client_env \<Rightarrow> u32 \<Rightarrow> nat option \<Rightarrow> client \<Rightarrow> (int \<times> client) option" where
  "StartCamera E camera cb = with_service (\<lambda>c.
     do {
       (ret, c1) \<leftarrow> call_service E (S_start_camera camera (cb \<noteq> None)) (if cb = None then c else c\<lparr>metadata_cb := cb\<rparr>);
       if ret \<noteq> NO_ERROR then Some (ret, c1)
       else if vendor_tag_desc c1 then Some (ret, c1)
       else do {
         (ret2, c2) \<leftarrow> GetVendorTagDescriptor E (c1\<lparr>vendor_tag_desc := True\<rparr>);
         if ret2 \<noteq> 0 then Some (ret2, c2) else Some (issue E Set_global_tags c2)
       }
     })"

definition StopCamera :: "client_env \<Rightarrow> u32 \<Rightarrow> client \<Rightarrow> (int \<times> client) option" where
  "StopCamera E camera = with_service (call_service E (S_stop_camera camera))"

definition CreateSession :: "client_env \<Rightarrow> nat \<Rightarrow> client \<Rightarrow> (int \<times> client) option" where
  "CreateSession E cb = with_service (\<lambda>c.
     let s = new_id E (trace c)
     in do {
       (ret, c1) \<leftarrow> call_service E (S_create_session s) c;
       if ret \<noteq> NO_ERROR then Some (ret, c1)
       else Some (ret, c1\<lparr>sessions := emplace s [] (sessions c1), session_cb_list := emplace s cb (session_cb_list c1)\<rparr>)
     })"

text \<open>The guard of every call on a session, and of every call on a track.\<close>

definition tracks :: "u32 \<Rightarrow> client \<Rightarrow> (u32, unit) kv" where
  "tracks s c = (case kv_find (sessions c) s of None \<Rightarrow> [] | Some m \<Rightarrow> m)"

definition with_session :: "u32 \<Rightarrow> (client \<Rightarrow> (int \<times> client) option) \<Rightarrow> client \<Rightarrow> (int \<times> client) option" where
  "with_session s f = with_service (\<lambda>c. if kv_find (sessions c) s = None then Some (BAD_VALUE, c) else f c)"

definition with_track :: "u32 \<Rightarrow> u32 \<Rightarrow> (client \<Rightarrow> (int \<times> client) option) \<Rightarrow> client \<Rightarrow> (int \<times> client) option" where
  "with_track s t f = with_session s (\<lambda>c. if kv_find (tracks s c) t = None then Some (BAD_VALUE, c) else f c)"

definition DeleteSession :: "client_env \<Rightarrow> u32 \<Rightarrow> client \<Rightarrow> (int \<times> client) option" where
  "DeleteSession E s = with_session s (\<lambda>c.
     if tracks s c \<noteq> [] then Some (INVALID_OPERATION, c)
     else do {
       (ret, c1) \<leftarrow> call_service E (S_delete_session s) c;
       Some (ret, c1\<lparr>sessions := kv_remove s (sessions c1), session_cb_list := kv_remove s (session_cb_list c1)\<rparr>)
     })"

primrec release_tracks :: "client_env \<Rightarrow> u32 list \<Rightarrow> client \<Rightarrow> client" where
  "release_tracks E [] c = c"
| "release_tracks E (t # ts) c = release_tracks E ts (snd (Release E t c))"

definition StartSession :: "client_env \<Rightarrow> u32 \<Rightarrow> client \<Rightarrow> (int \<times> client) option" where
  "StartSession E s = with_session s (\<lambda>c. call_service E (S_start_session s) (release_tracks E (kv_keys (tracks s c)) c))"

definition StopSession :: "client_env \<Rightarrow> u32 \<Rightarrow> bool \<Rightarrow> client \<Rightarrow> (int \<times> client) option" where
  "StopSession E s do_flush = with_session s (call_service E (S_stop_session s do_flush))"

definition PauseSession :: "client_env \<Rightarrow> u32 \<Rightarrow> client \<Rightarrow> (int \<times> client) option" where
  "PauseSession E s = with_session s (call_service E (S_pause_session s))"

definition ResumeSession :: "client_env \<Rightarrow> u32 \<Rightarrow> client \<Rightarrow> (int \<times> client) option" where
  "ResumeSession E s = with_session s (call_service E (S_resume_session s))"

section \<open>Tracks\<close>

definition UpdateSessionTopology :: "u32 \<Rightarrow> u32 \<Rightarrow> bool \<Rightarrow> client \<Rightarrow> client" where
  "UpdateSessionTopology s t add c =
     c\<lparr>sessions := kv_add s (if add then emplace t () (tracks s c) else kv_remove t (tracks s c)) (sessions c)\<rparr>"

definition track_cbs :: "u32 \<Rightarrow> client \<Rightarrow> (u32, nat) kv" where
  "track_cbs s c = (case kv_find (track_cb_list c) s of None \<Rightarrow> [] | Some m \<Rightarrow> m)"

definition create_track :: "client_env \<Rightarrow> service_cmd \<Rightarrow> u32 \<Rightarrow> u32 \<Rightarrow> nat \<Rightarrow> client \<Rightarrow> (int \<times> client) option" where
  "create_track E cmd s t cb = with_service (\<lambda>c.
     if t = 0 then None
     else if kv_find (sessions c) s = None then Some (BAD_VALUE, c)
     else if kv_find (tracks s c) t \<noteq> None then Some (BAD_VALUE, c)
     else do {
       (ret, c1) \<leftarrow> call_service E cmd c;
       if ret \<noteq> NO_ERROR then Some (ret, c1)
       else
         let c2 = UpdateSessionTopology s t True c1
         in Some (ret, c2\<lparr>track_cb_list := kv_add s (emplace t cb (track_cbs s c2)) (track_cb_list c2)\<rparr>)
     })"

definition CreateAudioTrack :: "client_env \<Rightarrow> u32 \<Rightarrow> u32 \<Rightarrow> nat \<Rightarrow> client \<Rightarrow> (int \<times> client) option" where
  "CreateAudioTrack E s t cb = create_track E (S_create_audio s t) s t cb"

definition CreateVideoTrack :: "client_env \<Rightarrow> u32 \<Rightarrow> u32 \<Rightarrow> nat \<Rightarrow> client \<Rightarrow> (int \<times> client) option" where
  "CreateVideoTrack E s t cb = create_track E (S_create_video s t) s t cb"

definition CreateVideoTrack_extra :: "client_env \<Rightarrow> u32 \<Rightarrow> u32 \<Rightarrow> nat \<Rightarrow> client \<Rightarrow> (int \<times> client) option" where
  "CreateVideoTrack_extra E s t cb = create_track E (S_create_video_extra s t) s t cb"

definition bn_of :: "TrackBuffer \<Rightarrow> BnBuffer" where
  "bn_of b = \<lparr>ion_fd = sint (buf_id b), ion_meta_fd = -1, bn_size = bd_size b, bn_timestamp = bd_timestamp b, bn_width = 0,
     bn_height = 0, buffer_id = buf_id b, bn_flag = bd_flag b, bn_capacity = bd_capacity b\<rparr>"

definition ReturnTrackBuffer :: "client_env \<Rightarrow> u32 \<Rightarrow> u32 \<Rightarrow> TrackBuffer list \<Rightarrow> client \<Rightarrow> (int \<times> client) option" where
  "ReturnTrackBuffer E s t bs = with_service (call_service E (S_return_buffers s t (map bn_of bs)))"

definition SetAudioTrackParam :: "client_env \<Rightarrow> u32 \<Rightarrow> u32 \<Rightarrow> client \<Rightarrow> (int \<times> client) option" where
  "SetAudioTrackParam E s t = with_track s t (call_service E (S_set_audio s t))"

definition SetVideoTrackParam :: "client_env \<Rightarrow> u32 \<Rightarrow> u32 \<Rightarrow> client \<Rightarrow> (int \<times> client) option" where
  "SetVideoTrackParam E s t = with_track s t (call_service E (S_set_video s t))"

definition forget_track :: "u32 \<Rightarrow> u32 \<Rightarrow> int \<times> client \<Rightarrow> (int \<times> client) option" where
  "forget_track s t = (\<lambda>(ret, c).
     if ret \<noteq> NO_ERROR then Some (ret, c)
     else
       let c1 = UpdateSessionTopology s t False c
       in Some (ret, c1\<lparr>track_cb_list := kv_add s (kv_remove t (track_cbs s c1)) (track_cb_list c1)\<rparr>))"

definition DeleteAudioTrack :: "client_env \<Rightarrow> u32 \<Rightarrow> u32 \<Rightarrow> client \<Rightarrow> (int \<times> client) option" where
  "DeleteAudioTrack E s t = with_track s t (\<lambda>c. call_service E (S_delete_audio s t) (snd (Release E t c)) \<bind> forget_track s t)"

definition info_map :: "u32 \<Rightarrow> client \<Rightarrow> BufferInfoMap" where
  "info_map t c = (case kv_find (track_buffers_map c) t of None \<Rightarrow> [] | Some m \<Rightarrow> m)"

definition DeleteVideoTrack :: "client_env \<Rightarrow> u32 \<Rightarrow> u32 \<Rightarrow> client \<Rightarrow> (int \<times> client) option" where
  "DeleteVideoTrack E s t = with_track s t (\<lambda>c.
     do {
       (r, m, c1) \<leftarrow> unmap_buffers E (info_map t c) c;
       if r \<noteq> NO_ERROR then Some (r, c1\<lparr>track_buffers_map := kv_add t m (track_buffers_map c1)\<rparr>)
       else call_service E (S_delete_video s t) (c1\<lparr>track_buffers_map := kv_remove t (track_buffers_map c1)\<rparr>) \<bind> forget_track s t
     })"

section \<open>Images and parameters\<close>

definition CaptureImage :: "client_env \<Rightarrow> u32 \<Rightarrow> u32 \<Rightarrow> nat option \<Rightarrow> client \<Rightarrow> (int \<times> client) option" where
  "CaptureImage E camera num cb = with_service (\<lambda>c.
     map_option (\<lambda>(ret, c1). (ret, c1\<lparr>image_capture_cb := cb\<rparr>)) (call_service E (S_capture camera num) c))"

definition ConfigImageCapture :: "client_env \<Rightarrow> u32 \<Rightarrow> client \<Rightarrow> (int \<times> client) option" where
  "ConfigImageCapture E camera = with_service (call_service E (S_config camera))"

definition CancelCaptureImage :: "client_env \<Rightarrow> u32 \<Rightarrow> client \<Rightarrow> (int \<times> client) option" where
  "CancelCaptureImage E camera = with_service (call_service E (S_cancel camera))"

text \<open>The entry is copied before it is unmapped, so a failure leaves it in the table as it was.\<close>

definition ReturnImageCaptureBuffer :: "client_env \<Rightarrow> u32 \<Rightarrow> TrackBuffer \<Rightarrow> client \<Rightarrow> (int \<times> client) option" where
  "ReturnImageCaptureBuffer E camera b = with_service (\<lambda>c.
     case kv_find (snapshot_buffers c) (word_of_int (bd_fd b)) of
       None \<Rightarrow> Some (BAD_VALUE, c)
     | Some i \<Rightarrow>
         do {
           (r, i1, c1) \<leftarrow> UnmapBuffer E i c;
           if r \<noteq> NO_ERROR then Some (r, c1)
           else call_service E (S_return_image camera (buf_id b))
                  (c1\<lparr>snapshot_buffers := kv_remove (word_of_int (bd_fd b)) (snapshot_buffers c1)\<rparr>)
         })"

definition SetCameraParam :: "client_env \<Rightarrow> u32 \<Rightarrow> client \<Rightarrow> (int \<times> client) option" where
  "SetCameraParam E camera = with_service (call_service E (S_set_param camera))"

definition GetCameraParam :: "client_env \<Rightarrow> u32 \<Rightarrow> client \<Rightarrow> (int \<times> client) option" where
  "GetCameraParam E camera = with_service (call_service E (S_get_param camera))"

definition GetDefaultCaptureParam :: "client_env \<Rightarrow> u32 \<Rightarrow> client \<Rightarrow> (int \<times> client) option" where
  "GetDefaultCaptureParam E camera = with_service (call_service E (S_get_default camera))"

definition GetCameraCharacteristics :: "client_env \<Rightarrow> u32 \<Rightarrow> client \<Rightarrow> (int \<times> client) option" where
  "GetCameraCharacteristics E camera = with_service (call_service E (S_get_static camera))"

section \<open>Callbacks of the service\<close>

text \<open>
  On the request to remap every buffer the loop erases the entry its iterator stands on, which is
  undefined as soon as one track has buffers.
\<close>

definition NotifyRecorderEvent :: "EventType \<Rightarrow> bool \<Rightarrow> client \<Rightarrow> client option" where
  "NotifyRecorderEvent e remap_all c =
     (if e = kCameraError \<and> remap_all \<and> track_buffers_map c \<noteq> [] then None
      else Some (case recorder_cb c of None \<Rightarrow> c | Some cb \<Rightarrow> emit (App (Recorder_event cb e)) c))"

definition NotifySnapshotData :: "client_env \<Rightarrow> u32 \<Rightarrow> u32 \<Rightarrow> BnBuffer \<Rightarrow> MetaData \<Rightarrow> client \<Rightarrow> client option" where
  "NotifySnapshotData E camera n b md c =
     (case image_capture_cb c of
        None \<Rightarrow> None
      | Some cb \<Rightarrow>
          if ion_fd b \<le> 0 \<or> buffer_id b = 0 then None
          else do {
            (r, i, c1) \<leftarrow> MapBuffer E \<lparr>bi_fd = ion_fd b, bi_meta_fd = ion_meta_fd b, bi_size = bn_capacity b, bi_vaddr = 0\<rparr> c;
            if r \<noteq> NO_ERROR then Some c1
            else
              let c2 = c1\<lparr>snapshot_buffers := emplace (word_of_int (ion_fd b)) i (snapshot_buffers c1)\<rparr>;
                  c3 = (if target_gbm E then ImportBuffer E (ion_fd b) (ion_meta_fd b) md c2 else c2)
              in Some (emit (App (Image_cb cb camera n (app_buffer b (bi_vaddr i) (ion_fd b)) md)) c3)
          })"

definition set_info_map :: "u32 \<Rightarrow> BufferInfoMap \<Rightarrow> client \<Rightarrow> client" where
  "set_info_map t m c = c\<lparr>track_buffers_map := kv_add t m (track_buffers_map c)\<rparr>"

text \<open>One buffer of a track that is not in the table: it is mapped, imported and entered.\<close>

definition map_video :: "client_env \<Rightarrow> u32 \<Rightarrow> BnBuffer \<Rightarrow> MetaData list \<Rightarrow> client \<Rightarrow> (BufferInfo option \<times> client) option" where
  "map_video E t b ms c =
     do {
       (r, i, c1) \<leftarrow> MapBuffer E \<lparr>bi_fd = ion_fd b, bi_meta_fd = ion_meta_fd b, bi_size = bn_capacity b, bi_vaddr = 0\<rparr> c;
       if r \<noteq> NO_ERROR then Some (None, c1)
       else if target_gbm E \<and> ms = [] then None
       else
         let c2 = (if target_gbm E then ImportBuffer E (ion_fd b) (ion_meta_fd b) (hd ms) c1 else c1)
         in Some (Some i, set_info_map t (emplace (buffer_id b) i (info_map t c2)) c2)
     }"

fun prepare_video :: "client_env \<Rightarrow> u32 \<Rightarrow> BnBuffer list \<Rightarrow> MetaData list \<Rightarrow> client \<Rightarrow> (TrackBuffer list option \<times> client) option" where
  "prepare_video E t [] ms c = Some (Some [], c)"
| "prepare_video E t (b # bs) ms c =
     do {
       (i, c1) \<leftarrow> (case kv_find (info_map t c) (buffer_id b) of Some i \<Rightarrow> Some (Some i, c) | None \<Rightarrow> map_video E t b ms c);
       case i of
         None \<Rightarrow> Some (None, c1)
       | Some i \<Rightarrow>
           map_option (\<lambda>(ds, c2). (map_option ((#) (app_buffer b (bi_vaddr i) (bi_fd i))) ds, c2)) (prepare_video E t bs (tl ms) c1)
     }"

definition track_cb :: "u32 \<Rightarrow> u32 \<Rightarrow> client \<Rightarrow> nat option" where
  "track_cb s t c = kv_find (track_cbs s c) t"

definition to_track :: "u32 \<Rightarrow> u32 \<Rightarrow> (nat \<Rightarrow> app_call) \<Rightarrow> client \<Rightarrow> client" where
  "to_track s t f c = (case track_cb s t c of None \<Rightarrow> c | Some cb \<Rightarrow> emit (App (f cb)) c)"

definition NotifyVideoTrackData :: "client_env \<Rightarrow> u32 \<Rightarrow> u32 \<Rightarrow> BnBuffer list \<Rightarrow> MetaData list \<Rightarrow> client \<Rightarrow> client option" where
  "NotifyVideoTrackData E s t bs ms c =
     map_option (\<lambda>(ds, c1). case ds of None \<Rightarrow> c1 | Some ds \<Rightarrow> to_track s t (\<lambda>cb. Data_cb cb t ds ms) c1) (prepare_video E t bs ms c)"

definition NotifyVideoTrackEvent :: "u32 \<Rightarrow> u32 \<Rightarrow> EventType \<Rightarrow> client \<Rightarrow> client" where
  "NotifyVideoTrackEvent s t e = to_track s t (\<lambda>cb. Event_cb cb t e)"

fun prepare_audio :: "client_env \<Rightarrow> u32 \<Rightarrow> BnBuffer list \<Rightarrow> client \<Rightarrow> TrackBuffer list option \<times> client" where
  "prepare_audio E t [] c = (Some [], c)"
| "prepare_audio E t (b # bs) c =
     (case Associate E t b c of
        (Inr d, c1) \<Rightarrow> (case prepare_audio E t bs c1 of (ds, c2) \<Rightarrow> (map_option ((#) d) ds, c2))
      | (Inl r, c1) \<Rightarrow> if r \<noteq> 0 then (None, c1)
                      else (case prepare_audio E t bs c1 of (ds, c2) \<Rightarrow> (map_option ((#) \<lparr>bd_data = 0, bd_fd = 0, bd_size = 0,
                              bd_capacity = 0, bd_timestamp = 0, bd_flag = 0, buf_id = 0\<rparr>) ds, c2)))"

definition NotifyAudioTrackData :: "client_env \<Rightarrow> u32 \<Rightarrow> u32 \<Rightarrow> BnBuffer list \<Rightarrow> MetaData list \<Rightarrow> client \<Rightarrow> client" where
  "NotifyAudioTrackData E s t bs ms c =
     (case prepare_audio E t bs c of (None, c1) \<Rightarrow> c1 | (Some ds, c1) \<Rightarrow> to_track s t (\<lambda>cb. Data_cb cb t ds ms) c1)"

definition NotifyAudioTrackEvent :: "u32 \<Rightarrow> u32 \<Rightarrow> EventType \<Rightarrow> client \<Rightarrow> client" where
  "NotifyAudioTrackEvent s t e = to_track s t (\<lambda>cb. Event_cb cb t e)"

definition NotifyCameraResult :: "u32 \<Rightarrow> client \<Rightarrow> client" where
  "NotifyCameraResult camera c = (case metadata_cb c of None \<Rightarrow> c | Some cb \<Rightarrow> emit (App (Result_cb cb camera)) c)"

end
