(* ===== verification/Recorder_Client_Props.thy ===== *)
theory Recorder_Client_Props
  imports Recorder_Client
begin

text \<open>
  The operations and callbacks of the client as one sequence, the bookkeeping they keep, and the
  sessions and tracks the service has confirmed, computed from the trace alone.
\<close>

section \<open>Sequences of calls and callbacks\<close>

datatype client_op = Op_connect "nat option" | Op_disconnect | Op_death | Op_start_camera u32 "nat option"
  | Op_stop_camera u32 | Op_create_session nat | Op_delete_session u32 | Op_start_session u32 | Op_stop_session u32 bool
  | Op_pause u32 | Op_resume u32 | Op_create_audio u32 u32 nat | Op_create_video u32 u32 nat
  | Op_create_video_extra u32 u32 nat | Op_return_buffers u32 u32 "TrackBuffer list" | Op_set_audio u32 u32
  | Op_set_video u32 u32 | Op_delete_audio u32 u32 | Op_delete_video u32 u32 | Op_capture u32 u32 "nat option"
  | Op_config u32 | Op_cancel u32 | Op_return_image u32 TrackBuffer | Op_set_param u32 | Op_get_param u32
  | Op_get_default u32 | Op_get_static u32 | Op_vendor_tags | On_event EventType bool
  | On_snapshot u32 u32 BnBuffer MetaData | On_video u32 u32 "BnBuffer list" "MetaData list"
  | On_video_event u32 u32 EventType | On_audio u32 u32 "BnBuffer list" "MetaData list"
  | On_audio_event u32 u32 EventType | On_result u32

primrec exec_op :: "client_env \<Rightarrow> client_op \<Rightarrow> client \<Rightarrow> client option" where
  "exec_op E (Op_connect cb) c = Some (snd (Connect E cb c))"
| "exec_op E Op_disconnect c = Some (snd (Disconnect E c))"
| "exec_op E Op_death c = ServiceDeathHandler E c"
| "exec_op E (Op_start_camera i cb) c = map_option snd (StartCamera E i cb c)"
| "exec_op E (Op_stop_camera i) c = map_option snd (StopCamera E i c)"
| "exec_op E (Op_create_session cb) c = map_option snd (CreateSession E cb c)"
| "exec_op E (Op_delete_session s) c = map_option snd (DeleteSession E s c)"
| "exec_op E (Op_start_session s) c = map_option snd (StartSession E s c)"
| "exec_op E (Op_stop_session s f) c = map_option snd (StopSession E s f c)"
| "exec_op E (Op_pause s) c = map_option snd (PauseSession E s c)"
| "exec_op E (Op_resume s) c = map_option snd (ResumeSession E s c)"
| "exec_op E (Op_create_audio s t cb) c = map_option snd (CreateAudioTrack E s t cb c)"
| "exec_op E (Op_create_video s t cb) c = map_option snd (CreateVideoTrack E s t cb c)"
| "exec_op E (Op_create_video_extra s t cb) c = map_option snd (CreateVideoTrack_extra E s t cb c)"
| "exec_op E (Op_return_buffers s t bs) c = map_option snd (ReturnTrackBuffer E s t bs c)"
| "exec_op E (Op_set_audio s t) c = map_option snd (SetAudioTrackParam E s t c)"
| "exec_op E (Op_set_video s t) c = map_option snd (SetVideoTrackParam E s t c)"
| "exec_op E (Op_delete_audio s t) c = map_option snd (DeleteAudioTrack E s t c)"
| "exec_op E (Op_delete_video s t) c = map_option snd (DeleteVideoTrack E s t c)"
| "exec_op E (Op_capture i n cb) c = map_option snd (CaptureImage E i n cb c)"
| "exec_op E (Op_config i) c = map_option snd (ConfigImageCapture E i c)"
| "exec_op E (Op_cancel i) c = map_option snd (CancelCaptureImage E i c)"
| "exec_op E (Op_return_image i b) c = map_option snd (ReturnImageCaptureBuffer E i b c)"
| "exec_op E (Op_set_param i) c = map_option snd (SetCameraParam E i c)"
| "exec_op E (Op_get_param i) c = map_option snd (GetCameraParam E i c)"
| "exec_op E (Op_get_default i) c = map_option snd (GetDefaultCaptureParam E i c)"
| "exec_op E (Op_get_static i) c = map_option snd (GetCameraCharacteristics E i c)"
| "exec_op E Op_vendor_tags c = map_option snd (GetVendorTagDescriptor E c)"
| "exec_op E (On_event e r) c = NotifyRecorderEvent e r c"
| "exec_op E (On_snapshot i n b md) c = NotifySnapshotData E i n b md c"
| "exec_op E (On_video s t bs ms) c = NotifyVideoTrackData E s t bs ms c"
| "exec_op E (On_video_event s t e) c = Some (NotifyVideoTrackEvent s t e c)"
| "exec_op E (On_audio s t bs ms) c = Some (NotifyAudioTrackData E s t bs ms c)"
| "exec_op E (On_audio_event s t e) c = Some (NotifyAudioTrackEvent s t e c)"
| "exec_op E (On_result i) c = Some (NotifyCameraResult i c)"

primrec exec :: "client_env \<Rightarrow> client_op list \<Rightarrow> client \<Rightarrow> client option" where
  "exec E [] c = Some c"
| "exec E (p # ps) c = exec_op E p c \<bind> exec E ps"

lemma exec_invariant:
  assumes "exec E ps c = Some c'" and "I c" and "\<And>p c c'. exec_op E p c = Some c' \<Longrightarrow> I c \<Longrightarrow> I c'"
  shows "I c'"
  using assms(1,2) by (induction ps arbitrary: c) (auto simp: bind_eq_Some_conv intro: assms(3))

section \<open>What the service has confirmed\<close>

type_synonym topology = "u32 \<Rightarrow> u32 set option"

definition confirm :: "service_cmd \<Rightarrow> topology \<Rightarrow> topology" where
  "confirm q v = (case q of
      S_create_session s \<Rightarrow> if v s = None then v(s \<mapsto> {}) else v
    | S_delete_session s \<Rightarrow> v(s := None)
    | S_create_audio s t \<Rightarrow> v(s := map_option (insert t) (v s))
    | S_create_video s t \<Rightarrow> v(s := map_option (insert t) (v s))
    | S_create_video_extra s t \<Rightarrow> v(s := map_option (insert t) (v s))
    | S_delete_audio s t \<Rightarrow> v(s := map_option (\<lambda>T. T - {t}) (v s))
    | S_delete_video s t \<Rightarrow> v(s := map_option (\<lambda>T. T - {t}) (v s))
    | _ \<Rightarrow> v)"

text \<open>
  The view of the service: what it has confirmed, and whether it has just refused to disconnect the client.
  A service that lets the client go forgets everything; so does one that has died, after which the client
  unlinks from it without having asked. A service that refuses keeps what it has, though the client unlinks.
\<close>

type_synonym service_view = "topology \<times> bool"

primrec confirm_call :: "call \<times> int \<Rightarrow> service_view \<Rightarrow> service_view" where
  "confirm_call (q, a) x = (case q of
      Service i cmd \<Rightarrow>
        if cmd = S_disconnect then (if a = NO_ERROR then (Map.empty, False) else (fst x, True))
        else (if a = NO_ERROR then confirm cmd (fst x) else fst x, snd x)
    | Unlink_to_death \<Rightarrow> (if snd x then fst x else Map.empty, False)
    | _ \<Rightarrow> x)"

primrec confirmed :: "service_view \<Rightarrow> history \<Rightarrow> service_view" where
  "confirmed x [] = x"
| "confirmed x (e # h) = confirmed (confirm_call e x) h"

abbreviation (input) nothing_yet :: service_view where
  "nothing_yet \<equiv> (Map.empty, False)"

text \<open>A request is in order when the service knows the session and the track it names.\<close>

definition in_order :: "service_cmd \<Rightarrow> topology \<Rightarrow> bool" where
  "in_order q v = (case q of
      S_delete_session s \<Rightarrow> v s = Some {}
    | S_start_session s \<Rightarrow> v s \<noteq> None
    | S_stop_session s f \<Rightarrow> v s \<noteq> None
    | S_pause_session s \<Rightarrow> v s \<noteq> None
    | S_resume_session s \<Rightarrow> v s \<noteq> None
    | S_create_audio s t \<Rightarrow> v s \<noteq> None \<and> t \<notin> the (v s) \<and> t \<noteq> 0
    | S_create_video s t \<Rightarrow> v s \<noteq> None \<and> t \<notin> the (v s) \<and> t \<noteq> 0
    | S_create_video_extra s t \<Rightarrow> v s \<noteq> None \<and> t \<notin> the (v s) \<and> t \<noteq> 0
    | S_delete_audio s t \<Rightarrow> v s \<noteq> None \<and> t \<in> the (v s)
    | S_delete_video s t \<Rightarrow> v s \<noteq> None \<and> t \<in> the (v s)
    | S_set_audio s t \<Rightarrow> v s \<noteq> None \<and> t \<in> the (v s)
    | S_set_video s t \<Rightarrow> v s \<noteq> None \<and> t \<in> the (v s)
    | S_return_buffers s t bs \<Rightarrow> v s \<noteq> None \<and> t \<in> the (v s)
    | _ \<Rightarrow> True)"

text \<open>The return of track buffers is the one request the client hands on without looking at its tables.\<close>

definition buffer_return :: "service_cmd \<Rightarrow> bool" where
  "buffer_return q = (case q of S_return_buffers s t bs \<Rightarrow> True | _ \<Rightarrow> False)"

definition call_in_order :: "call \<Rightarrow> topology \<Rightarrow> bool" where
  "call_in_order q v = (case q of Service i cmd \<Rightarrow> buffer_return cmd \<or> in_order cmd v | _ \<Rightarrow> True)"

primrec requests_in_order :: "service_view \<Rightarrow> history \<Rightarrow> bool" where
  "requests_in_order x [] = True"
| "requests_in_order x (e # h) = (call_in_order (fst e) (fst x) \<and> requests_in_order (confirm_call e x) h)"

definition disconnect_refused :: "history \<Rightarrow> bool" where
  "disconnect_refused h = list_ex (\<lambda>(q, a). case q of Service i S_disconnect \<Rightarrow> a \<noteq> NO_ERROR | _ \<Rightarrow> False) h"

definition deletion_refused :: "history \<Rightarrow> bool" where
  "deletion_refused h = list_ex (\<lambda>(q, a). case q of Service i (S_delete_session s) \<Rightarrow> a \<noteq> NO_ERROR | _ \<Rightarrow> False) h"

lemma confirmed_append [simp]: "confirmed v (g @ h) = confirmed (confirmed v g) h"
  by (induction g arbitrary: v) auto

lemma requests_in_order_append [simp]:
  "requests_in_order v (g @ h) \<longleftrightarrow> requests_in_order v g \<and> requests_in_order (confirmed v g) h"
  by (induction g arbitrary: v) auto

lemma deletion_refused_append [simp]: "deletion_refused (g @ h) \<longleftrightarrow> deletion_refused g \<or> deletion_refused h"
  by (simp add: deletion_refused_def)

lemma disconnect_refused_append [simp]: "disconnect_refused (g @ h) \<longleftrightarrow> disconnect_refused g \<or> disconnect_refused h"
  by (simp add: disconnect_refused_def)

section \<open>Calls that leave the sessions alone\<close>

definition plain_call :: "call \<Rightarrow> bool" where
  "plain_call q = (case q of
      Service i cmd \<Rightarrow> (case cmd of
          S_connect \<Rightarrow> True | S_start_camera k f \<Rightarrow> True | S_stop_camera k \<Rightarrow> True
        | S_return_buffers s t bs \<Rightarrow> True | S_capture k n \<Rightarrow> True | S_config k \<Rightarrow> True | S_cancel k \<Rightarrow> True
        | S_return_image k n \<Rightarrow> True | S_set_param k \<Rightarrow> True | S_get_param k \<Rightarrow> True | S_get_default k \<Rightarrow> True
        | S_get_static k \<Rightarrow> True | S_vendor_tags \<Rightarrow> True | _ \<Rightarrow> False)
    | Unlink_to_death \<Rightarrow> False
    | _ \<Rightarrow> True)"

lemma plain_call_simps [simp]:
  "plain_call Ion_open" "plain_call (Ion_close d)" "plain_call Get_service" "plain_call Link_to_death" "plain_call (Mmap d n)"
  "plain_call (Munmap a n)" "plain_call (Close d)" "plain_call (Sync_start d)" "plain_call (Sync_end d)"
  "plain_call (Gbm_import d md w ht f)" "plain_call (Gbm_destroy bo)" "plain_call Set_global_tags" "plain_call Clear_global_tags"
  "plain_call (App p)" "plain_call (Service i S_connect)"
  "plain_call (Service i (S_start_camera k f'))" "plain_call (Service i (S_stop_camera k))"
  "plain_call (Service i (S_return_buffers s t bs))" "plain_call (Service i (S_capture k m))" "plain_call (Service i (S_config k))"
  "plain_call (Service i (S_cancel k))" "plain_call (Service i (S_return_image k m))" "plain_call (Service i (S_set_param k))"
  "plain_call (Service i (S_get_param k))" "plain_call (Service i (S_get_default k))" "plain_call (Service i (S_get_static k))"
  "plain_call (Service i S_vendor_tags)"
  by (simp_all add: plain_call_def)

lemma plain_call_effect:
  assumes "plain_call q"
  shows "confirm_call (q, a) x = x" "call_in_order q v" "\<not> deletion_refused [(q, a)]" "\<not> disconnect_refused [(q, a)]"
  using assms
  by (cases q; cases x; simp add: plain_call_def call_in_order_def deletion_refused_def disconnect_refused_def;
      fastforce simp: confirm_def in_order_def buffer_return_def split: service_cmd.splits)+

lemma plain_calls_effect:
  assumes "list_all (plain_call \<circ> fst) h"
  shows "confirmed x h = x" "requests_in_order x h" "\<not> deletion_refused h" "\<not> disconnect_refused h"
proof -
  have "confirmed x h = x \<and> requests_in_order x h \<and> \<not> deletion_refused h \<and> \<not> disconnect_refused h"
    using assms
  proof (induction h)
    case Nil
    then show ?case by (simp add: deletion_refused_def disconnect_refused_def)
  next
    case (Cons e h)
    obtain q a where e: "e = (q, a)" by (cases e)
    have "deletion_refused (e # h) \<longleftrightarrow> deletion_refused [e] \<or> deletion_refused h" "disconnect_refused (e # h) \<longleftrightarrow> disconnect_refused [e] \<or> disconnect_refused h"
      using deletion_refused_append [of "[e]" h] disconnect_refused_append [of "[e]" h] by simp_all
    with Cons show ?case by (simp add: e plain_call_effect del: confirm_call.simps)
  qed
  then show "confirmed x h = x" "requests_in_order x h" "\<not> deletion_refused h" "\<not> disconnect_refused h" by auto
qed

definition core :: "client \<Rightarrow> bool \<times> (u32, (u32, unit) kv) kv \<times> (u32, nat) kv \<times> (u32, (u32, nat) kv) kv" where
  "core c = (recorder_service c, sessions c, session_cb_list c, track_cb_list c)"

definition quiet :: "client \<Rightarrow> client \<Rightarrow> bool" where
  "quiet c c' \<longleftrightarrow> core c' = core c \<and> (\<exists>h. trace c' = trace c @ h \<and> list_all (plain_call \<circ> fst) h)"

lemma quiet_refl [simp]: "quiet c c"
  by (simp add: quiet_def)

lemma quiet_trans: "quiet c d \<Longrightarrow> quiet d e \<Longrightarrow> quiet c e"
  unfolding quiet_def by fastforce

lemmas plain_defs = quiet_def core_def issue_def emit_def Let_def

lemma quiet_issue: "plain_call q \<Longrightarrow> quiet c (snd (issue E q c))"
  by (simp add: plain_defs)

lemma quiet_emit: "plain_call q \<Longrightarrow> quiet c (emit q c)"
  by (simp add: plain_defs)

lemma quiet_Associate: "quiet c (snd (Associate E t b c))"
  by (auto simp: Associate_def plain_defs set_ion_map_def split: option.splits)

lemma quiet_release_ion: "release_ion E m c = (r, m', c') \<Longrightarrow> quiet c c'"
proof (induction m arbitrary: c r m' c')
  case Nil
  then show ?case by simp
next
  case (Cons p m)
  obtain k b where p: "p = (k, b)" by (cases p)
  let ?c1 = "if cb_map_fd b \<noteq> 0 then emit (Sync_end (cb_map_fd b)) c else c"
  let ?c2 = "snd (issue E (Munmap (cb_data b) (cb_capacity b)) ?c1)"
  let ?c3 = "snd (issue E (Close (cb_map_fd b)) ?c2)"
  have "quiet c ?c3"
    by (intro quiet_trans [OF _ quiet_issue] quiet_issue) (auto intro: quiet_emit)
  then show ?case
    using Cons.prems Cons.IH [of ?c3]
    by (auto simp: p Let_def split: prod.splits if_splits intro: quiet_trans)
qed

lemma quiet_Release: "quiet c (snd (Release E t c))"
proof (cases "kv_find (ci_buffers c) t")
  case (Some m)
  obtain r m' c' where r: "release_ion E m c = (r, m', c')" by (cases "release_ion E m c")
  then have "quiet c c'" by (rule quiet_release_ion)
  then show ?thesis using Some r by (cases r) (auto simp: Release_def quiet_def core_def set_ion_map_def)
qed (simp add: Release_def)

lemma quiet_ImportBuffer: "quiet c (ImportBuffer E fd mfd md c)"
  by (auto simp: ImportBuffer_def plain_defs split: option.splits)

lemma quiet_MapBuffer: "MapBuffer E i c = Some (r, i', c') \<Longrightarrow> quiet c c'"
  by (auto simp: MapBuffer_def plain_defs split: if_splits)

lemma quiet_UnmapBuffer: "UnmapBuffer E i c = Some (r, i', c') \<Longrightarrow> quiet c c'"
  by (auto simp: UnmapBuffer_def ReleaseBuffer_def plain_defs split: if_splits option.splits)

lemma quiet_unmap_buffers: "unmap_buffers E m c = Some (r, m', c') \<Longrightarrow> quiet c c'"
  by (induction m arbitrary: c r m' c')
    (auto simp: bind_eq_Some_conv split: if_splits dest!: quiet_UnmapBuffer, blast intro: quiet_trans)

lemma quiet_unmap_tracks: "unmap_tracks E ts c = Some (r, ts', c') \<Longrightarrow> quiet c c'"
  by (induction ts arbitrary: c r ts' c')
    (auto simp: bind_eq_Some_conv split: if_splits dest!: quiet_unmap_buffers, blast intro: quiet_trans)

lemma quiet_release_tracks: "quiet c (release_tracks E ts c)"
  by (induction ts arbitrary: c) (auto intro: quiet_trans quiet_Release)

lemma quiet_set_info_map: "quiet c d \<Longrightarrow> quiet c (set_info_map t m d)"
  by (simp add: quiet_def core_def set_info_map_def)

lemma quiet_map_video: "map_video E t b ms c = Some (i, c') \<Longrightarrow> quiet c c'"
  unfolding map_video_def
  by (auto simp: bind_eq_Some_conv Let_def split: if_splits dest!: quiet_MapBuffer
      intro: quiet_set_info_map quiet_trans [OF _ quiet_ImportBuffer])

lemma quiet_prepare_video: "prepare_video E t bs ms c = Some (ds, c') \<Longrightarrow> quiet c c'"
proof (induction bs arbitrary: ms c ds c')
  case (Cons b bs)
  then show ?case
    by (auto simp: bind_eq_Some_conv split: option.splits dest!: quiet_map_video Cons.IH elim: quiet_trans)
qed simp

lemma quiet_prepare_audio: "quiet c (snd (prepare_audio E t bs c))"
proof (induction bs arbitrary: c)
  case (Cons b bs)
  show ?case
    using quiet_trans [OF quiet_Associate [of c E t b] Cons [of "snd (Associate E t b c)"]] quiet_Associate [of c E t b]
    by (auto split: prod.splits sum.splits)
qed simp

lemma quiet_to_track: "quiet c (to_track s t f c)"
  by (auto simp: to_track_def intro: quiet_emit split: option.splits)

section \<open>The bookkeeping\<close>

definition client_view :: "client \<Rightarrow> topology" where
  "client_view c = (\<lambda>s. map_option kv_keyset (kv_find (sessions c) s))"

definition books :: "client \<Rightarrow> bool" where
  "books c \<longleftrightarrow> kv_wf (sessions c) \<and> (\<forall>s m. kv_find (sessions c) s = Some m \<longrightarrow> kv_wf m) \<and>
     kv_wf (session_cb_list c) \<and> kv_keyset (session_cb_list c) = kv_keyset (sessions c) \<and>
     kv_wf (track_cb_list c) \<and> (\<forall>s m. kv_find (track_cb_list c) s = Some m \<longrightarrow> kv_wf m) \<and>
     (\<forall>s. kv_keyset (track_cbs s c) = kv_keyset (tracks s c)) \<and>
     (\<not> recorder_service c \<longrightarrow> sessions c = [])"

text \<open>The client may have forgotten an empty session the service still has, and nothing else.\<close>

definition lags :: "topology \<Rightarrow> topology \<Rightarrow> bool" where
  "lags v w \<longleftrightarrow> (\<forall>s. v s = w s \<or> v s = None \<and> w s = Some {})"

definition agrees :: "client \<Rightarrow> bool" where
  "agrees c \<longleftrightarrow> (\<not> disconnect_refused (trace c) \<longrightarrow>
     requests_in_order nothing_yet (trace c) \<and> \<not> snd (confirmed nothing_yet (trace c)) \<and>
     lags (client_view c) (fst (confirmed nothing_yet (trace c))) \<and>
     (\<not> deletion_refused (trace c) \<longrightarrow> client_view c = fst (confirmed nothing_yet (trace c))))"

lemma lagsD: "lags v w \<Longrightarrow> v s = Some T \<Longrightarrow> w s = Some T"
  unfolding lags_def by (metis option.distinct(1))

lemma lags_in_order:
  assumes "lags v w" and "in_order q v"
  shows "in_order q w"
proof -
  have eq: "w s = v s" if "v s \<noteq> None" for s
    using that assms(1) unfolding lags_def by metis
  show ?thesis
    using assms(2) by (cases q) (auto simp: in_order_def eq dest!: lagsD [OF assms(1)])
qed

lemma lags_upd: "lags v w \<Longrightarrow> x = y \<or> x = None \<and> y = Some {} \<Longrightarrow> lags (v(s := x)) (w(s := y))"
  by (simp add: lags_def)

lemma lags_upd_left: "lags v w \<Longrightarrow> x = w s \<or> x = None \<and> w s = Some {} \<Longrightarrow> lags (v(s := x)) w"
  using lags_upd [of v w x "w s" s] by simp

lemma lags_confirm:
  assumes "lags v w" and "in_order q v"
  shows "lags (confirm q v) (confirm q w)"
proof -
  have eq: "w s = v s" if "v s \<noteq> None" for s
    using that assms(1) unfolding lags_def by metis
  have create: "lags (confirm (S_create_session s) v) (confirm (S_create_session s) w)" for s
  proof (cases "v s")
    case None
    then have "w s = None \<or> w s = Some {}" using assms(1) unfolding lags_def by metis
    with None assms(1) show ?thesis by (auto simp: confirm_def intro: lags_upd lags_upd_left)
  next
    case (Some T)
    with eq [of s] assms(1) show ?thesis by (simp add: confirm_def)
  qed
  show ?thesis
  proof (cases q)
    case (S_create_session s)
    with create show ?thesis by simp
  qed (use assms eq in \<open>simp_all add: confirm_def in_order_def lags_upd\<close>)
qed

lemma books_core: "core c' = core c \<Longrightarrow> books c' = books c"
  by (simp add: core_def books_def tracks_def track_cbs_def)

lemma client_view_core: "core c' = core c \<Longrightarrow> client_view c' = client_view c"
  by (simp add: core_def client_view_def)

lemma agrees_plain:
  assumes "agrees c" and "trace c' = trace c @ h" and "list_all (plain_call \<circ> fst) h" and "client_view c' = client_view c"
  shows "agrees c'"
  using assms by (simp add: agrees_def plain_calls_effect)

definition in_step :: "client \<Rightarrow> bool" where
  "in_step c \<longleftrightarrow> books c \<and> agrees c"

lemma in_step_quiet: "quiet c c' \<Longrightarrow> in_step c \<Longrightarrow> in_step c'"
  unfolding in_step_def quiet_def using books_core client_view_core agrees_plain by blast

lemma agrees_service:
  assumes "agrees c" and "trace c' = trace c @ [(Service i q, a)]" and "in_order q (client_view c)" and "q \<noteq> S_disconnect"
    and "client_view c' = (if a = NO_ERROR then confirm q (client_view c) else client_view c) \<or>
         (\<exists>s. q = S_delete_session s \<and> client_view c' = (client_view c)(s := None))"
  shows "agrees c'"
proof (cases "disconnect_refused (trace c)")
  case no: False
  let ?x = "confirmed nothing_yet (trace c)"
  have lag: "lags (client_view c) (fst ?x)" using assms(1) no by (simp add: agrees_def)
  have order: "in_order q (fst ?x)" by (rule lags_in_order [OF lag assms(3)])
  have w': "confirmed nothing_yet (trace c') = (if a = NO_ERROR then confirm q (fst ?x) else fst ?x, snd ?x)"
    by (simp add: assms(2,4))
  have refused: "deletion_refused (trace c') \<longleftrightarrow> deletion_refused (trace c) \<or> (\<exists>s. q = S_delete_session s) \<and> a \<noteq> NO_ERROR"
    by (cases q) (auto simp: assms(2) deletion_refused_def)
  have "lags (client_view c') (fst (confirmed nothing_yet (trace c')))"
    using assms(3,5) lag order lags_confirm [OF lag assms(3)]
    by (auto simp: w' confirm_def in_order_def intro: lags_upd lags_upd_left)
  moreover have "client_view c' = fst (confirmed nothing_yet (trace c'))" if "\<not> deletion_refused (trace c')"
    using that no assms(1,5) refused by (auto simp: w' agrees_def confirm_def)
  moreover have "requests_in_order nothing_yet (trace c')"
    using assms(1,2) no order by (simp add: agrees_def call_in_order_def)
  moreover have "\<not> snd (confirmed nothing_yet (trace c'))" using assms(1) no by (simp add: w' agrees_def)
  ultimately show ?thesis by (simp add: agrees_def)
qed (simp add: agrees_def assms(2))

section \<open>Every operation keeps the bookkeeping\<close>

lemma call_serviceD:
  "call_service E q c = Some (r, c') \<Longrightarrow> client_id c \<noteq> 0 \<and> core c' = core c \<and> trace c' = trace c @ [(Service (client_id c) q, r)]"
  by (auto simp: call_service_def issue_def Let_def core_def split: if_splits)

lemma quiet_call_service: "call_service E q c = Some (r, c') \<Longrightarrow> (\<And>i. plain_call (Service i q)) \<Longrightarrow> quiet c c'"
  using call_serviceD [of E q c r c'] by (simp add: quiet_def)

lemma with_serviceE:
  assumes "with_service f c = Some (r, c')" and "c' = c \<Longrightarrow> P" and "recorder_service c \<Longrightarrow> f c = Some (r, c') \<Longrightarrow> P"
  shows P
  using assms by (auto simp: with_service_def CheckServiceStatus_def split: if_splits)

lemma in_step_plain:
  assumes "with_service (call_service E q) c = Some (r, c')" and "\<And>i. plain_call (Service i q)" and "in_step c"
  shows "in_step c'"
  using assms(1) by (rule with_serviceE) (use assms(2,3) in \<open>auto dest: quiet_call_service intro: in_step_quiet\<close>)

lemma in_step_service:
  assumes "in_step c" and "call_service E q c = Some (r, c1)" and "in_order q (client_view c)" and "q \<noteq> S_disconnect" and "books c'" and "trace c' = trace c1"
    and "client_view c' = (if r = NO_ERROR then confirm q (client_view c) else client_view c) \<or>
         (\<exists>s. q = S_delete_session s \<and> client_view c' = (client_view c)(s := None))"
  shows "in_step c'"
  using assms call_serviceD [OF assms(2)] agrees_service [of c c' "client_id c" q r] by (simp add: in_step_def)

lemma in_step_request:
  assumes "in_step c" and "call_service E q c = Some (r, c1)" and "in_order q (client_view c)" and "q \<noteq> S_disconnect" and "\<And>v. confirm q v = v"
  shows "in_step c1"
  using in_step_service [OF assms(1-4), of c1] call_serviceD [OF assms(2)] books_core [of c1 c] client_view_core [of c1 c] assms(1,5)
  by (simp add: in_step_def)

lemma view_tracks: "kv_find (sessions c) s \<noteq> None \<Longrightarrow> client_view c s = Some (kv_keyset (tracks s c))"
  by (auto simp: client_view_def tracks_def)

lemma kv_keyset_emplace [simp]: "kv_keyset (emplace k v m) = insert k (kv_keyset m)"
  by (auto simp: emplace_def kv_keyset_find)

lemma kv_wf_emplace [simp]: "kv_wf m \<Longrightarrow> kv_wf (emplace k v m)"
  by (simp add: emplace_def)

lemma books_wf:
  assumes "books c"
  shows "kv_wf (sessions c)" "kv_wf (tracks s c)" "kv_wf (session_cb_list c)" "kv_wf (track_cb_list c)" "kv_wf (track_cbs s c)"
  using assms by (auto simp: books_def tracks_def track_cbs_def split: option.splits)

lemma books_create:
  assumes "books c" and "recorder_service c"
  shows "books (c\<lparr>sessions := emplace s [] (sessions c), session_cb_list := emplace s cb (session_cb_list c)\<rparr>)"
    (is "books ?c")
proof -
  have "tracks r ?c = tracks r c" for r
    using books_wf(1) [OF assms(1)] by (auto simp: tracks_def emplace_def split: option.splits)
  moreover have "track_cbs r ?c = track_cbs r c" for r by (simp add: track_cbs_def)
  ultimately show ?thesis
    using assms books_wf(1) [OF assms(1)] kv_keyset_find [of s "sessions c"] kv_keyset_find [of s "session_cb_list c"]
    by (auto simp: books_def emplace_def split: if_splits)
qed

lemma books_delete:
  assumes "books c" and "recorder_service c" and "tracks s c = []"
  shows "books (c\<lparr>sessions := kv_remove s (sessions c), session_cb_list := kv_remove s (session_cb_list c)\<rparr>)"
    (is "books ?c")
proof -
  have "tracks r ?c = tracks r c" for r
    using assms(3) by (auto simp: tracks_def split: option.splits)
  moreover have "track_cbs r ?c = track_cbs r c" for r by (simp add: track_cbs_def)
  ultimately show ?thesis
    using assms by (auto simp: books_def split: if_splits)
qed

text \<open>The set of the tracks of a session and of its callbacks are replaced together.\<close>

lemma books_tracks:
  assumes "books c" and "recorder_service c" and "kv_find (sessions c) s \<noteq> None" and "kv_wf m" and "kv_wf k"
    and "kv_keyset k = kv_keyset m"
  shows "books (c\<lparr>sessions := kv_add s m (sessions c), track_cb_list := kv_add s k (track_cb_list c)\<rparr>)"
    (is "books ?c")
proof -
  have "tracks r ?c = (if r = s then m else tracks r c)" for r
    using books_wf(1) [OF assms(1)] by (simp add: tracks_def)
  moreover have "track_cbs r ?c = (if r = s then k else track_cbs r c)" for r
    using books_wf(4) [OF assms(1)] by (simp add: track_cbs_def)
  moreover have "insert s (kv_keyset (sessions c)) = kv_keyset (sessions c)"
    using assms(3) by (auto simp: kv_keyset_find)
  ultimately show ?thesis
    using assms books_wf(1,4) [OF assms(1)] by (simp add: books_def)
qed

lemma view_after_tracks:
  assumes "books c" and "kv_find (sessions c) s \<noteq> None"
  shows "client_view (c\<lparr>sessions := kv_add s m (sessions c), track_cb_list := k\<rparr>) = (client_view c)(s := Some (kv_keyset m))"
  using books_wf(1) [OF assms(1)] by (simp add: client_view_def fun_eq_iff)

lemma in_step_create_session:
  assumes "in_step c" and "CreateSession E cb c = Some (r, c')"
  shows "in_step c'"
  using assms(2) unfolding CreateSession_def
proof (rule with_serviceE)
  assume on: "recorder_service c"
  let ?s = "new_id E (trace c)"
  assume "(let s = ?s in do { (ret, c1) \<leftarrow> call_service E (S_create_session s) c; if ret \<noteq> NO_ERROR then Some (ret, c1)
       else Some (ret, c1\<lparr>sessions := emplace s [] (sessions c1), session_cb_list := emplace s cb (session_cb_list c1)\<rparr>) }) = Some (r, c')"
  then obtain c1 where call: "call_service E (S_create_session ?s) c = Some (r, c1)"
    and c': "c' = (if r \<noteq> NO_ERROR then c1 else c1\<lparr>sessions := emplace ?s [] (sessions c1), session_cb_list := emplace ?s cb (session_cb_list c1)\<rparr>)"
    by (auto simp: Let_def bind_eq_Some_conv split: if_splits)
  note d = call_serviceD [OF call]
  have b: "books c1" and on1: "recorder_service c1" and wf: "kv_wf (sessions c1)"
    using assms(1) d books_core [of c1 c] on books_wf(1) [of c1] by (auto simp: in_step_def core_def)
  show "in_step c'"
  proof (rule in_step_service [OF assms(1) call])
    show "books c'" using books_create [OF b on1] b by (simp add: c')
    show "client_view c' = (if r = NO_ERROR then confirm (S_create_session ?s) (client_view c) else client_view c) \<or>
      (\<exists>s. S_create_session ?s = S_delete_session s \<and> client_view c' = (client_view c)(s := None))"
      using d wf by (auto simp: c' client_view_def confirm_def emplace_def core_def fun_eq_iff)
  qed (simp_all add: in_order_def c')
qed (use assms(1) in simp)

lemma with_sessionE:
  assumes "with_session s f c = Some (r, c')" and "c' = c \<Longrightarrow> P"
    and "recorder_service c \<Longrightarrow> kv_find (sessions c) s \<noteq> None \<Longrightarrow> f c = Some (r, c') \<Longrightarrow> P"
  shows P
  using assms unfolding with_session_def by (auto elim!: with_serviceE split: if_splits)

lemma with_trackE:
  assumes "with_track s t f c = Some (r, c')" and "c' = c \<Longrightarrow> P"
    and "recorder_service c \<Longrightarrow> kv_find (sessions c) s \<noteq> None \<Longrightarrow> t \<in> kv_keyset (tracks s c) \<Longrightarrow> f c = Some (r, c') \<Longrightarrow> P"
  shows P
  using assms unfolding with_track_def by (auto elim!: with_sessionE split: if_splits simp: kv_keyset_find)

lemma in_step_delete_session:
  assumes "in_step c" and "DeleteSession E s c = Some (r, c')"
  shows "in_step c'"
  using assms(2) unfolding DeleteSession_def
proof (rule with_sessionE)
  assume on: "recorder_service c" and s: "kv_find (sessions c) s \<noteq> None"
  assume "(if tracks s c \<noteq> [] then Some (INVALID_OPERATION, c) else do { (ret, c1) \<leftarrow> call_service E (S_delete_session s) c;
      Some (ret, c1\<lparr>sessions := kv_remove s (sessions c1), session_cb_list := kv_remove s (session_cb_list c1)\<rparr>) }) = Some (r, c')"
  then consider "c' = c" | c1 where "tracks s c = []" "call_service E (S_delete_session s) c = Some (r, c1)"
      "c' = c1\<lparr>sessions := kv_remove s (sessions c1), session_cb_list := kv_remove s (session_cb_list c1)\<rparr>"
    by (auto simp: bind_eq_Some_conv split: if_splits)
  then show "in_step c'"
  proof cases
    case (2 c1)
    note d = call_serviceD [OF 2(2)]
    have b: "books c1" "recorder_service c1" "tracks s c1 = []"
      using assms(1) d 2(1) on books_core [of c1 c] by (auto simp: in_step_def core_def tracks_def)
    show ?thesis
    proof (rule in_step_service [OF assms(1) 2(2)])
      show "books c'" using books_delete [OF b] by (simp add: 2(3))
      show "in_order (S_delete_session s) (client_view c)" using view_tracks [OF s] 2(1) by (simp add: in_order_def)
      have "client_view c' = (client_view c)(s := None)"
        using d by (auto simp: 2(3) client_view_def core_def fun_eq_iff)
      then show "client_view c' = (if r = NO_ERROR then confirm (S_delete_session s) (client_view c) else client_view c) \<or>
        (\<exists>sa. S_delete_session s = S_delete_session sa \<and> client_view c' = (client_view c)(sa := None))" by blast
    qed (simp_all add: 2(3))
  qed (use assms(1) in simp)
qed (use assms(1) in simp)

lemma in_step_create_track:
  assumes "in_step c" and "create_track E q s t cb c = Some (r, c')"
    and q: "q \<in> {S_create_audio s t, S_create_video s t, S_create_video_extra s t}"
  shows "in_step c'"
  using assms(2) unfolding create_track_def
proof (rule with_serviceE)
  assume on: "recorder_service c"
  assume "(if t = 0 then None else if kv_find (sessions c) s = None then Some (BAD_VALUE, c)
     else if kv_find (tracks s c) t \<noteq> None then Some (BAD_VALUE, c)
     else do { (ret, c1) \<leftarrow> call_service E q c; if ret \<noteq> NO_ERROR then Some (ret, c1)
       else let c2 = UpdateSessionTopology s t True c1
         in Some (ret, c2\<lparr>track_cb_list := kv_add s (emplace t cb (track_cbs s c2)) (track_cb_list c2)\<rparr>) }) = Some (r, c')"
  then consider "c' = c" | c1 where "t \<noteq> 0" "kv_find (sessions c) s \<noteq> None" "t \<notin> kv_keyset (tracks s c)" "call_service E q c = Some (r, c1)"
      "c' = (if r \<noteq> NO_ERROR then c1 else c1\<lparr>sessions := kv_add s (emplace t () (tracks s c1)) (sessions c1),
               track_cb_list := kv_add s (emplace t cb (track_cbs s c1)) (track_cb_list c1)\<rparr>)"
    by (auto simp: bind_eq_Some_conv Let_def UpdateSessionTopology_def track_cbs_def kv_keyset_find split: if_splits)
  then show "in_step c'"
  proof cases
    case (2 c1)
    note d = call_serviceD [OF 2(4)]
    have b: "books c1" "recorder_service c1" "kv_find (sessions c1) s \<noteq> None" "tracks s c1 = tracks s c" "client_view c1 = client_view c"
      using assms(1) d 2(2) on books_core [of c1 c] client_view_core [of c1 c] by (auto simp: in_step_def core_def tracks_def)
    have same: "kv_keyset (track_cbs s c1) = kv_keyset (tracks s c1)" using b(1) by (simp add: books_def)
    show ?thesis
    proof (rule in_step_service [OF assms(1) 2(4)])
      show "books c'" using books_tracks [OF b(1,2,3)] books_wf [OF b(1)] b(1) same by (simp add: 2(5))
      show "in_order q (client_view c)" using view_tracks [OF 2(2)] 2(1,3) q by (auto simp: in_order_def)
      have "client_view c' = (if r = NO_ERROR then (client_view c)(s := Some (insert t (kv_keyset (tracks s c)))) else client_view c)"
        using view_after_tracks [OF b(1,3)] b(4,5) by (simp add: 2(5))
      then show "client_view c' = (if r = NO_ERROR then confirm q (client_view c) else client_view c) \<or>
        (\<exists>sa. q = S_delete_session sa \<and> client_view c' = (client_view c)(sa := None))"
        using q view_tracks [OF 2(2)] by (auto simp: confirm_def)
    qed (use q in \<open>auto simp: 2(5)\<close>)
  qed (use assms(1) in simp)
qed (use assms(1) in simp)

lemma in_step_forget_track:
  assumes "in_step c" and "call_service E q c \<bind> forget_track s t = Some (r, c')" and "recorder_service c"
    and s: "kv_find (sessions c) s \<noteq> None" and t: "t \<in> kv_keyset (tracks s c)" and q: "q \<in> {S_delete_audio s t, S_delete_video s t}"
  shows "in_step c'"
proof -
  from assms(2) obtain c1 where call: "call_service E q c = Some (r, c1)"
    and c': "c' = (if r \<noteq> NO_ERROR then c1 else c1\<lparr>sessions := kv_add s (kv_remove t (tracks s c1)) (sessions c1),
               track_cb_list := kv_add s (kv_remove t (track_cbs s c1)) (track_cb_list c1)\<rparr>)"
    by (auto simp: bind_eq_Some_conv forget_track_def Let_def UpdateSessionTopology_def track_cbs_def split: if_splits)
  note d = call_serviceD [OF call]
  have b: "books c1" "recorder_service c1" "kv_find (sessions c1) s \<noteq> None" "tracks s c1 = tracks s c" "client_view c1 = client_view c"
    using assms(1,3) d s books_core [of c1 c] client_view_core [of c1 c] by (auto simp: in_step_def core_def tracks_def)
  have same: "kv_keyset (track_cbs s c1) = kv_keyset (tracks s c1)" using b(1) by (simp add: books_def)
  show ?thesis
  proof (rule in_step_service [OF assms(1) call])
    show "books c'" using books_tracks [OF b(1,2,3)] books_wf [OF b(1)] b(1) same by (simp add: c')
    show "in_order q (client_view c)" using view_tracks [OF s] t q by (auto simp: in_order_def)
    have "client_view c' = (if r = NO_ERROR then (client_view c)(s := Some (kv_keyset (tracks s c) - {t})) else client_view c)"
      using view_after_tracks [OF b(1,3)] b(4,5) by (simp add: c')
    then show "client_view c' = (if r = NO_ERROR then confirm q (client_view c) else client_view c) \<or>
      (\<exists>sa. q = S_delete_session sa \<and> client_view c' = (client_view c)(sa := None))"
      using q view_tracks [OF s] by (auto simp: confirm_def)
  qed (use q in \<open>auto simp: c'\<close>)
qed

lemma in_step_drop:
  assumes "\<not> disconnect_refused (trace c) \<Longrightarrow> requests_in_order nothing_yet (trace c) \<and> \<not> snd (confirmed nothing_yet (trace c))"
  shows "in_step (drop_service E c)"
proof -
  have "\<exists>h. trace (drop_service E c) = trace c @ (Unlink_to_death, 0) # h \<and> list_all (plain_call \<circ> fst) h"
    by (simp add: drop_service_def emit_def issue_def Let_def split: if_split)
  then obtain h where h: "trace (drop_service E c) = trace c @ (Unlink_to_death, 0) # h" "list_all (plain_call \<circ> fst) h"
    by blast
  have view: "client_view (drop_service E c) = Map.empty" and "books (drop_service E c)"
    by (auto simp: drop_service_def emit_def issue_def Let_def client_view_def books_def tracks_def track_cbs_def)
  moreover have "agrees (drop_service E c)"
    using assms h view by (auto simp: agrees_def plain_calls_effect lags_def call_in_order_def)
  ultimately show ?thesis by (simp add: in_step_def)
qed

lemma in_step_gone: "in_step c \<Longrightarrow> in_step (drop_service E c)"
  by (rule in_step_drop) (simp add: in_step_def agrees_def)

lemma in_step_connect: "in_step c \<Longrightarrow> in_step (snd (Connect E cb c))"
proof (cases "recorder_service c")
  case False
  assume step: "in_step c"
  with False have "sessions c = []" "session_cb_list c = []" "\<forall>s. track_cbs s c = []"
    by (auto simp: in_step_def books_def tracks_def)
  then have b: "books (snd (Connect E cb c))" and view: "client_view (snd (Connect E cb c)) = client_view c"
    using step False
    by (auto simp: Connect_def CheckServiceStatus_def issue_def emit_def Let_def in_step_def books_def tracks_def track_cbs_def client_view_def)
  have "\<exists>h. trace (snd (Connect E cb c)) = trace c @ h \<and> list_all (plain_call \<circ> fst) h"
    using False by (simp add: Connect_def CheckServiceStatus_def issue_def emit_def Let_def split: if_split)
  then obtain h where "trace (snd (Connect E cb c)) = trace c @ h" "list_all (plain_call \<circ> fst) h" by blast
  then show ?thesis using step b view agrees_plain [of c "snd (Connect E cb c)"] by (simp add: in_step_def)
qed (simp add: Connect_def CheckServiceStatus_def)

lemma in_step_trivial:
  assumes "in_step c" and "core c' = core c" and "trace c' = trace c"
  shows "in_step c'"
  using assms in_step_quiet [of c c'] by (simp add: quiet_def)

lemma in_step_disconnect: "in_step c \<Longrightarrow> in_step (snd (Disconnect E c))"
proof -
  assume step: "in_step c"
  let ?c = "snd (issue E (Service (client_id c) S_disconnect) c)"
  obtain a where "trace ?c = trace c @ [(Service (client_id c) S_disconnect, a)]" by (simp add: issue_def Let_def)
  then have "in_step (drop_service E ?c)"
    using step by (intro in_step_drop) (auto simp: in_step_def agrees_def disconnect_refused_def call_in_order_def in_order_def)
  then have "in_step (emit Clear_global_tags (drop_service E ?c))" by (rule in_step_quiet [OF quiet_emit, rotated]) simp
  with step show ?thesis
    by (auto simp: Disconnect_def split: prod.splits intro: in_step_trivial simp: core_def)
qed

lemma in_step_death:
  assumes "in_step c" and "ServiceDeathHandler E c = Some c'"
  shows "in_step c'"
proof -
  from assms(2) obtain r ts c1 where 1: "unmap_tracks E (track_buffers_map c) c = Some (r, ts, c1)"
    by (auto simp: ServiceDeathHandler_def bind_eq_Some_conv)
  have s1: "in_step (c1\<lparr>track_buffers_map := x\<rparr>)" for x
    by (rule in_step_trivial [OF in_step_quiet [OF quiet_unmap_tracks [OF 1] assms(1)]]) (simp_all add: core_def)
  show ?thesis
  proof (cases "r = NO_ERROR")
    case True
    with assms(2) 1 obtain r2 m c2 where 2: "unmap_buffers E (snapshot_buffers c1) (c1\<lparr>track_buffers_map := []\<rparr>) = Some (r2, m, c2)"
      by (auto simp: ServiceDeathHandler_def bind_eq_Some_conv)
    have s2: "in_step (c2\<lparr>snapshot_buffers := x\<rparr>)" for x
      by (rule in_step_trivial [OF in_step_quiet [OF quiet_unmap_buffers [OF 2] s1]]) (simp_all add: core_def)
    let ?c3 = "(drop_service E (c2\<lparr>snapshot_buffers := []\<rparr>))\<lparr>image_capture_cb := None, metadata_cb := None\<rparr>"
    have "in_step ?c3"
      by (rule in_step_trivial [OF in_step_gone [OF s2]]) (simp_all add: core_def)
    then have "in_step (case recorder_cb ?c3 of None \<Rightarrow> ?c3 | Some cb \<Rightarrow> emit (App (Recorder_event cb kServerDied)) ?c3)"
      by (auto intro: in_step_quiet [OF quiet_emit] split: option.splits)
    then show ?thesis
      using assms(2) 1 2 True s2 by (auto simp: ServiceDeathHandler_def Let_def split: if_splits)
  qed (use assms(2) 1 s1 in \<open>auto simp: ServiceDeathHandler_def\<close>)
qed

end
