(* ===== verification/Recorder_Client_Claims.thy ===== *)
theory Recorder_Client_Claims
  imports Recorder_Client_Props
begin

text \<open>
  The client and the service agree: the properties of the bookkeeping of the client over any
  sequence of calls of the application and callbacks of the service, for any answers.
\<close>

lemma in_step_StartCamera:
  assumes "in_step c" and "StartCamera E k cb c = Some (r, c')"
  shows "in_step c'"
  using assms(2) unfolding StartCamera_def
proof (rule with_serviceE)
  let ?c0 = "if cb = None then c else c\<lparr>metadata_cb := cb\<rparr>"
  assume "do { (ret, c1) \<leftarrow> call_service E (S_start_camera k (cb \<noteq> None)) ?c0; if ret \<noteq> NO_ERROR then Some (ret, c1)
       else if vendor_tag_desc c1 then Some (ret, c1)
       else do { (ret2, c2) \<leftarrow> GetVendorTagDescriptor E (c1\<lparr>vendor_tag_desc := True\<rparr>);
         if ret2 \<noteq> 0 then Some (ret2, c2) else Some (issue E Set_global_tags c2) } } = Some (r, c')"
  then obtain ret c1 where call: "call_service E (S_start_camera k (cb \<noteq> None)) ?c0 = Some (ret, c1)"
    and rest: "c' = c1 \<or> (\<exists>ret2 c2. GetVendorTagDescriptor E (c1\<lparr>vendor_tag_desc := True\<rparr>) = Some (ret2, c2) \<and>
                 (c' = c2 \<or> c' = snd (issue E Set_global_tags c2)))"
    by (auto simp: bind_eq_Some_conv split: if_splits)
  have "in_step ?c0" using in_step_trivial [OF assms(1)] by (simp add: core_def)
  then have c1: "in_step c1" using quiet_call_service [OF call] in_step_quiet by simp
  have "in_step (c1\<lparr>vendor_tag_desc := True\<rparr>)" by (rule in_step_trivial [OF c1]) (simp_all add: core_def)
  then have "in_step c2" if "GetVendorTagDescriptor E (c1\<lparr>vendor_tag_desc := True\<rparr>) = Some (ret2, c2)" for ret2 c2
    using that in_step_plain unfolding GetVendorTagDescriptor_def by fastforce
  then show "in_step c'" using rest c1 by (auto intro: in_step_quiet [OF quiet_issue])
qed (use assms(1) in simp)

lemma in_step_session_request:
  assumes step: "in_step c" and run: "with_session s (\<lambda>c. call_service E q (f c)) c = Some (r, c')" and f: "quiet c (f c)"
    and q: "q \<in> {S_start_session s, S_stop_session s b, S_pause_session s, S_resume_session s}"
  shows "in_step c'"
  using run
proof (rule with_sessionE)
  assume s: "kv_find (sessions c) s \<noteq> None" and call: "call_service E q (f c) = Some (r, c')"
  have "core (f c) = core c" using f by (simp add: quiet_def)
  then have "client_view (f c) = client_view c" by (rule client_view_core)
  with q view_tracks [OF s] have "in_order q (client_view (f c))" by (auto simp: in_order_def)
  moreover have "confirm q v = v" "q \<noteq> S_disconnect" for v using q by (auto simp: confirm_def)
  ultimately show "in_step c'" by (metis in_step_request [OF in_step_quiet [OF f step] call])
qed (use step in simp)

lemma in_step_track_request:
  assumes "in_step c" and "with_track s t (call_service E q) c = Some (r, c')" and "q \<in> {S_set_audio s t, S_set_video s t}"
  shows "in_step c'"
  using assms(2)
proof (rule with_trackE)
  assume s: "kv_find (sessions c) s \<noteq> None" and t: "t \<in> kv_keyset (tracks s c)" and call: "call_service E q c = Some (r, c')"
  have "in_order q (client_view c)" using assms(3) view_tracks [OF s] t by (auto simp: in_order_def)
  moreover have "confirm q v = v" "q \<noteq> S_disconnect" for v using assms(3) by (auto simp: confirm_def)
  ultimately show "in_step c'" by (metis in_step_request [OF assms(1) call])
qed (use assms(1) in simp)

lemma quiet_facts: "quiet c d \<Longrightarrow> recorder_service d = recorder_service c \<and> sessions d = sessions c"
  by (auto simp: quiet_def core_def)

lemma in_step_DeleteAudioTrack:
  assumes "in_step c" and "DeleteAudioTrack E s t c = Some (r, c')"
  shows "in_step c'"
  using assms(2) unfolding DeleteAudioTrack_def
proof (rule with_trackE)
  note q = quiet_Release [of c E t]
  assume "recorder_service c" "kv_find (sessions c) s \<noteq> None" "t \<in> kv_keyset (tracks s c)"
  moreover assume "call_service E (S_delete_audio s t) (snd (Release E t c)) \<bind> forget_track s t = Some (r, c')"
  ultimately show "in_step c'"
    using quiet_facts [OF q] in_step_forget_track [OF in_step_quiet [OF q assms(1)], of E "S_delete_audio s t" s t r c']
    by (simp add: tracks_def)
qed (use assms(1) in simp)

lemma in_step_DeleteVideoTrack:
  assumes step1: "in_step c" and run: "DeleteVideoTrack E s t c = Some (r, c')"
  shows "in_step c'"
  using run unfolding DeleteVideoTrack_def
proof (rule with_trackE)
  assume step: "recorder_service c" "kv_find (sessions c) s \<noteq> None" "t \<in> kv_keyset (tracks s c)"
  assume "do { (r, m, c1) \<leftarrow> unmap_buffers E (info_map t c) c;
       if r \<noteq> NO_ERROR then Some (r, c1\<lparr>track_buffers_map := kv_add t m (track_buffers_map c1)\<rparr>)
       else call_service E (S_delete_video s t) (c1\<lparr>track_buffers_map := kv_remove t (track_buffers_map c1)\<rparr>) \<bind> forget_track s t
     } = Some (r, c')"
  then obtain r1 m c1 where 1: "unmap_buffers E (info_map t c) c = Some (r1, m, c1)"
    and 2: "c' = c1\<lparr>track_buffers_map := kv_add t m (track_buffers_map c1)\<rparr> \<or>
      call_service E (S_delete_video s t) (c1\<lparr>track_buffers_map := kv_remove t (track_buffers_map c1)\<rparr>) \<bind> forget_track s t = Some (r, c')"
    by (auto simp: bind_eq_Some_conv split: if_splits)
  note q = quiet_unmap_buffers [OF 1]
  have s1: "in_step (c1\<lparr>track_buffers_map := x\<rparr>)" for x
    by (rule in_step_trivial [OF in_step_quiet [OF q step1]]) (simp_all add: core_def)
  from 2 show "in_step c'"
    using s1 quiet_facts [OF q] step in_step_forget_track [OF s1, of E "S_delete_video s t" "kv_remove t (track_buffers_map c1)" s t r c']
    by (auto simp: tracks_def)
qed (use step1 in simp)

lemma in_step_ReturnImage:
  assumes step: "in_step c" and ret: "ReturnImageCaptureBuffer E k b c = Some (r, c')"
  shows "in_step c'"
  using ret unfolding ReturnImageCaptureBuffer_def
proof (rule with_serviceE)
  assume run: "(case kv_find (snapshot_buffers c) (word_of_int (bd_fd b)) of None \<Rightarrow> Some (BAD_VALUE, c)
     | Some i \<Rightarrow> do { (r, i1, c1) \<leftarrow> UnmapBuffer E i c; if r \<noteq> NO_ERROR then Some (r, c1)
           else call_service E (S_return_image k (buf_id b))
                  (c1\<lparr>snapshot_buffers := kv_remove (word_of_int (bd_fd b)) (snapshot_buffers c1)\<rparr>) }) = Some (r, c')"
  show "in_step c'"
  proof (cases "kv_find (snapshot_buffers c) (word_of_int (bd_fd b))")
    case (Some i)
    with run obtain r1 i1 c1 where 1: "UnmapBuffer E i c = Some (r1, i1, c1)"
      and 2: "c' = c1 \<or> call_service E (S_return_image k (buf_id b))
                  (c1\<lparr>snapshot_buffers := kv_remove (word_of_int (bd_fd b)) (snapshot_buffers c1)\<rparr>) = Some (r, c')"
      by (auto simp: bind_eq_Some_conv split: if_splits)
    have c1: "in_step c1" by (rule in_step_quiet [OF quiet_UnmapBuffer [OF 1] step])
    have "in_step (c1\<lparr>snapshot_buffers := x\<rparr>)" for x by (rule in_step_trivial [OF c1]) (simp_all add: core_def)
    with c1 2 show ?thesis by (auto dest!: quiet_call_service intro: in_step_quiet)
  qed (use run step in simp)
qed (use step in simp)

lemma in_step_NotifySnapshotData: "in_step c \<Longrightarrow> NotifySnapshotData E k n b md c = Some c' \<Longrightarrow> in_step c'"
proof -
  assume step: "in_step c" and run: "NotifySnapshotData E k n b md c = Some c'"
  let ?i = "\<lparr>bi_fd = ion_fd b, bi_meta_fd = ion_meta_fd b, bi_size = bn_capacity b, bi_vaddr = 0\<rparr>"
  let ?store = "\<lambda>i c1. c1\<lparr>snapshot_buffers := emplace (word_of_int (ion_fd b)) i (snapshot_buffers c1)\<rparr>"
  from run obtain cb r i c1 where 1: "MapBuffer E ?i c = Some (r, i, c1)"
    and 2: "c' = c1 \<or> c' = emit (App (Image_cb cb k n (app_buffer b (bi_vaddr i) (ion_fd b)) md))
             (if target_gbm E then ImportBuffer E (ion_fd b) (ion_meta_fd b) md (?store i c1) else ?store i c1)"
    by (auto simp: NotifySnapshotData_def bind_eq_Some_conv Let_def split: option.splits if_splits)
  have c1: "in_step c1" by (rule in_step_quiet [OF quiet_MapBuffer [OF 1] step])
  then have "in_step (?store i c1)" using in_step_trivial [OF c1] by (simp add: core_def)
  then have "in_step (emit (App p) (if target_gbm E then ImportBuffer E (ion_fd b) (ion_meta_fd b) md (?store i c1) else ?store i c1))" for p
    by (intro in_step_quiet [OF quiet_emit]) (auto intro: in_step_quiet [OF quiet_ImportBuffer])
  with c1 2 show ?thesis by blast
qed

lemma in_step_op:
  assumes "exec_op E p c = Some c'" and "in_step c"
  shows "in_step c'"
proof (cases p)
  case (Op_start_session s)
  with assms show ?thesis
    by (auto simp: StartSession_def intro: in_step_session_request quiet_release_tracks)
next
  case (Op_stop_session s f)
  with assms show ?thesis by (auto simp: StopSession_def intro: in_step_session_request [where f = "\<lambda>c. c"])
next
  case (Op_pause s)
  with assms show ?thesis by (auto simp: PauseSession_def intro: in_step_session_request [where f = "\<lambda>c. c"])
next
  case (Op_resume s)
  with assms show ?thesis by (auto simp: ResumeSession_def intro: in_step_session_request [where f = "\<lambda>c. c"])
next
  case (Op_capture i n cb)
  with assms obtain r where "CaptureImage E i n cb c = Some (r, c')" by auto
  then show ?thesis unfolding CaptureImage_def
  proof (rule with_serviceE)
    assume "map_option (\<lambda>(ret, c1). (ret, c1\<lparr>image_capture_cb := cb\<rparr>)) (call_service E (S_capture i n) c) = Some (r, c')"
    then obtain c1 where c1: "call_service E (S_capture i n) c = Some (r, c1)" "c' = c1\<lparr>image_capture_cb := cb\<rparr>" by auto
    have "in_step c1" using in_step_quiet [OF quiet_call_service [OF c1(1)] assms(2)] by simp
    then show ?thesis by (rule in_step_trivial) (simp_all add: c1(2) core_def)
  qed (use assms in simp)
next
  case (On_event e r)
  with assms show ?thesis
    by (auto simp: NotifyRecorderEvent_def intro: in_step_quiet [OF quiet_emit] split: if_splits option.splits)
next
  case (On_video s t bs ms)
  with assms show ?thesis
    by (auto simp: NotifyVideoTrackData_def dest!: quiet_prepare_video
        intro: in_step_quiet in_step_quiet [OF quiet_to_track] split: option.splits)
next
  case (On_audio s t bs ms)
  with assms show ?thesis
    using quiet_prepare_audio [of c E t bs]
    by (auto simp: NotifyAudioTrackData_def intro: in_step_quiet quiet_trans [OF _ quiet_to_track] split: prod.splits option.splits)
next
  case (On_result i)
  with assms show ?thesis
    by (auto simp: NotifyCameraResult_def intro: in_step_quiet [OF quiet_emit] split: option.splits)
qed (use assms in \<open>auto intro: in_step_connect in_step_disconnect in_step_death in_step_StartCamera in_step_create_session
      in_step_delete_session in_step_DeleteAudioTrack in_step_DeleteVideoTrack in_step_ReturnImage in_step_NotifySnapshotData
      in_step_quiet [OF quiet_to_track] dest: in_step_create_track in_step_plain in_step_track_request
      simp: CreateAudioTrack_def CreateVideoTrack_def CreateVideoTrack_extra_def StopCamera_def ReturnTrackBuffer_def
        SetAudioTrackParam_def SetVideoTrackParam_def ConfigImageCapture_def CancelCaptureImage_def SetCameraParam_def
        GetCameraParam_def GetDefaultCaptureParam_def GetCameraCharacteristics_def GetVendorTagDescriptor_def
        NotifyVideoTrackEvent_def NotifyAudioTrackEvent_def\<close>)

lemma in_step_init: "in_step (RecorderClient d)"
  by (simp add: in_step_def books_def agrees_def RecorderClient_def client_view_def tracks_def track_cbs_def lags_def)

lemma in_step_exec: "exec E ps (RecorderClient d) = Some c \<Longrightarrow> in_step c"
  using exec_invariant [where I = in_step] in_step_init in_step_op by blast

section \<open>Sample run\<close>

text \<open>Everything succeeds: identifiers are 7, addresses and descriptors are positive.\<close>

definition sample_env :: client_env where
  "sample_env = \<lparr>answer = (\<lambda>h q. case q of Ion_open \<Rightarrow> 5 | Get_service \<Rightarrow> 1 | Mmap fd n \<Rightarrow> 4096 * fd | _ \<Rightarrow> 0),
     errno_after = (\<lambda>h. EINVAL), new_id = (\<lambda>h. 7), target_gbm = False\<rparr>"

definition refusing_env :: client_env where
  "refusing_env = sample_env\<lparr>answer := (\<lambda>h q. case q of Service i S_connect \<Rightarrow> - ENOSYS
     | Service i (S_delete_session s) \<Rightarrow> - ENOSYS | Munmap a n \<Rightarrow> -1 | _ \<Rightarrow> answer sample_env h q)\<rparr>"

definition sample_buffer :: BnBuffer where
  "sample_buffer = \<lparr>ion_fd = 9, ion_meta_fd = -1, bn_size = 64, bn_timestamp = 1, bn_width = 16, bn_height = 4, buffer_id = 33,
     bn_flag = 0, bn_capacity = 4096\<rparr>"

lemmas client_run = sample_env_def refusing_env_def RecorderClient_def Connect_def CheckServiceStatus_def issue_def emit_def
  Let_def CreateSession_def with_service_def call_service_def emplace_def CreateVideoTrack_def create_track_def tracks_def
  UpdateSessionTopology_def track_cbs_def with_session_def with_track_def StartSession_def DeleteSession_def

section \<open>Properties\<close>

text \<open>
  C39. The tables of the client stay consistent in every run of calls of the application and callbacks
  of the service: each session has its callback, the callbacks of a session are exactly those of its
  tracks, keys are unique and sorted, and a client that is not connected has no session.
\<close>

theorem client_bookkeeping:
  assumes "exec E ps (RecorderClient d) = Some c"
  shows "kv_wf (sessions c) \<and> kv_keyset (session_cb_list c) = kv_keyset (sessions c) \<and>
    (\<forall>s. kv_keyset (track_cbs s c) = kv_keyset (tracks s c)) \<and>
    (\<forall>s t. track_cb s t c \<noteq> None \<longleftrightarrow> t \<in> kv_keyset (tracks s c)) \<and>
    (\<not> recorder_service c \<longrightarrow> sessions c = [] \<and> session_cb_list c = [] \<and> (\<forall>s t. track_cb s t c = None))"
proof -
  have b: "books c" using in_step_exec [OF assms] by (simp add: in_step_def)
  then have same: "kv_keyset (track_cbs s c) = kv_keyset (tracks s c)" for s by (simp add: books_def)
  then have cb: "track_cb s t c \<noteq> None \<longleftrightarrow> t \<in> kv_keyset (tracks s c)" for s t
    using kv_keyset_find [of t "track_cbs s c"] by (simp add: track_cb_def)
  have "\<not> recorder_service c \<longrightarrow> sessions c = [] \<and> session_cb_list c = [] \<and> (\<forall>s t. track_cb s t c = None)"
    using b same by (auto simp: books_def tracks_def track_cb_def)
  with b same cb show ?thesis by (auto simp: books_def)
qed

theorem client_bookkeeping_witness:
  "\<exists>c. exec sample_env [Op_connect None, Op_create_session 4, Op_create_video 7 2 8] (RecorderClient 3) = Some c \<and>
     kv_keyset (track_cbs 7 c) = kv_keyset (tracks 7 c) \<and> track_cb 7 2 c = Some 8"
proof -
  let ?run = "exec sample_env [Op_connect None, Op_create_session 4, Op_create_video 7 2 8] (RecorderClient 3)"
  have "?run \<noteq> None \<and> track_cb 7 2 (the ?run) = Some 8" by (simp add: client_run track_cb_def)
  then obtain c where "?run = Some c" "track_cb 7 2 c = Some 8" by auto
  then show ?thesis using client_bookkeeping [of sample_env _ 3 c] by blast
qed

text \<open>
  C40. As long as the service has not refused to disconnect the client, the client implements the view
  of the service, which is computed from the answers of the service alone: every request but the return of
  track buffers names a session and a track the service has confirmed (and, for a new track, one it does not
  have); the sessions of the client are the confirmed ones as long as no deletion of a session was refused
  either, and at worst an empty session is forgotten. The return of track buffers is handed on for any
  session and track as soon as the client is connected, and changes none of its tables.
\<close>

theorem client_follows_service:
  assumes "exec E ps (RecorderClient d) = Some c"
  shows "(\<not> disconnect_refused (trace c) \<longrightarrow> requests_in_order nothing_yet (trace c) \<and>
      (\<forall>s. client_view c s = fst (confirmed nothing_yet (trace c)) s \<or>
           client_view c s = None \<and> fst (confirmed nothing_yet (trace c)) s = Some {}) \<and>
      (\<not> deletion_refused (trace c) \<longrightarrow> client_view c = fst (confirmed nothing_yet (trace c)))) \<and>
    (\<forall>s t bs r c1. recorder_service c \<and> ReturnTrackBuffer E s t bs c = Some (r, c1) \<longrightarrow>
      trace c1 = trace c @ [(Service (client_id c) (S_return_buffers s t (map bn_of bs)), r)] \<and> client_view c1 = client_view c)"
proof -
  have "trace c1 = trace c @ [(Service (client_id c) (S_return_buffers s t (map bn_of bs)), r)] \<and> client_view c1 = client_view c"
    if "recorder_service c" "ReturnTrackBuffer E s t bs c = Some (r, c1)" for s t bs r c1
    using that call_serviceD [of E "S_return_buffers s t (map bn_of bs)" c r c1] client_view_core [of c1 c]
    by (simp add: ReturnTrackBuffer_def with_service_def CheckServiceStatus_def)
  then show ?thesis using in_step_exec [OF assms] unfolding in_step_def agrees_def lags_def by blast
qed

theorem client_follows_service_witness:
  "\<exists>c. exec sample_env [Op_connect None, Op_create_session 4, Op_create_video 7 2 8, Op_start_session 7] (RecorderClient 3) = Some c \<and>
     requests_in_order nothing_yet (trace c) \<and> client_view c 7 = Some {2} \<and> client_view c = fst (confirmed nothing_yet (trace c))"
proof -
  let ?run = "exec sample_env [Op_connect None, Op_create_session 4, Op_create_video 7 2 8, Op_start_session 7] (RecorderClient 3)"
  have "?run \<noteq> None \<and> client_view (the ?run) 7 = Some {2} \<and> \<not> deletion_refused (trace (the ?run)) \<and> \<not> disconnect_refused (trace (the ?run))"
    by (simp add: client_run Release_def client_view_def deletion_refused_def disconnect_refused_def)
  then obtain c where "?run = Some c" "client_view c 7 = Some {2}" "\<not> deletion_refused (trace c)" "\<not> disconnect_refused (trace c)" by auto
  then show ?thesis using client_follows_service [of sample_env _ 3 c] by blast
qed

section \<open>Faults\<close>

text \<open>A connection the service refuses leaves the client connected: the next attempt succeeds without asking.\<close>

theorem refused_connection_sticks:
  assumes "\<not> recorder_service c" and "Connect E cb c = (r, c1)" and "r \<noteq> NO_ERROR" and "r \<noteq> NO_INIT"
  shows "Connect E' cb' c1 = (NO_ERROR, c1)"
  using assms by (auto simp: Connect_def CheckServiceStatus_def issue_def emit_def Let_def split: if_splits)

text \<open>A session whose deletion is refused is forgotten by the client, which can no longer delete it.\<close>

theorem refused_deletion_forgets:
  assumes "DeleteSession E s c = Some (r, c1)" and "recorder_service c" and "tracks s c = []"
  shows "DeleteSession E' s c1 = Some (BAD_VALUE, c1)"
proof -
  from assms(1,2) have "recorder_service c1 \<and> kv_find (sessions c1) s = None"
    by (auto simp: DeleteSession_def with_session_def with_service_def CheckServiceStatus_def call_service_def issue_def Let_def
        assms(3) bind_eq_Some_conv split: if_splits)
  then show ?thesis
    by (simp add: DeleteSession_def with_session_def with_service_def CheckServiceStatus_def)
qed

text \<open>
  The death of the service is not reported when a buffer cannot be unmapped: the handler gives up, and
  the client stays connected to the dead service.
\<close>

theorem death_goes_unreported:
  assumes "track_buffers_map c = (t, (k, i) # m) # ts" and "ion_device c > 0" and "bi_vaddr i \<noteq> 0"
    and "\<And>h a n. answer E h (Munmap a n) = -1" and "\<And>h. errno_after E h = EINVAL"
  shows "\<exists>c'. ServiceDeathHandler E c = Some c' \<and> recorder_service c' = recorder_service c \<and> client_id c' = client_id c \<and>
    trace c' = trace c @ [(Sync_end (bi_fd i), 0), (Munmap (bi_vaddr i) (bi_size i), -1)]"
  using assms by (simp add: ServiceDeathHandler_def UnmapBuffer_def issue_def emit_def Let_def)

text \<open>
  An image whose descriptor cannot be closed stays in the table with an address that is unmapped
  already; returning it again unmaps whatever is there by then.
\<close>

theorem image_unmapped_twice:
  assumes "recorder_service c" and "ion_device c > 0" and "\<not> target_gbm E"
    and "kv_find (snapshot_buffers c) (word_of_int (bd_fd b)) = Some i" and "bi_vaddr i \<noteq> 0" and "bi_fd i \<noteq> -1"
    and "\<And>h a n. answer E h (Munmap a n) = 0" and "\<And>h d. answer E h (Close d) = -1" and "\<And>h. errno_after E h = EINVAL"
  shows "\<exists>c'. ReturnImageCaptureBuffer E k b c = Some (EINVAL, c') \<and> (Munmap (bi_vaddr i) (bi_size i), 0) \<in> set (trace c') \<and>
    kv_find (snapshot_buffers c') (word_of_int (bd_fd b)) = Some i"
  using assms
  by (simp add: ReturnImageCaptureBuffer_def with_service_def CheckServiceStatus_def UnmapBuffer_def issue_def emit_def Let_def)

text \<open>
  After a release that failed in the middle the released audio buffers stay in the table, and the next
  delivery of such a buffer hands the null pointer to the application.
\<close>

theorem released_audio_buffer_reused:
  assumes "ci_device c \<noteq> -1" and "kv_find (ion_map_of t c) (sint (buffer_id b)) = Some e" and "cb_data e = 0"
  shows "fst (Associate E t b c) = Inr (app_buffer b 0 (cb_map_fd e))"
  using assms by (simp add: Associate_def)

text \<open>The destructor of the audio buffers is undefined as soon as a track has some and the kernel does its part.\<close>

theorem free_client_ion_undefined:
  assumes "ci_buffers c = (t, m) # ts" and "\<And>h a n. answer E h (Munmap a n) = 0" and "\<And>h d. answer E h (Close d) = 0"
  shows "free_client_ion E c = None"
proof -
  have "fst (release_ion E n c) = None" for n c
    by (induction n arbitrary: c) (auto simp: Let_def issue_def assms(2,3) split: prod.splits, (metis fst_conv)+)
  moreover obtain r m1 c1 where "release_ion E m c = (r, m1, c1)" by (cases "release_ion E m c")
  ultimately have "r = None" by (metis fst_conv)
  then have "kv_find (ci_buffers (snd (Release E t c))) t = None"
    using assms(1) \<open>release_ion E m c = (r, m1, c1)\<close> by (simp add: Release_def)
  then show ?thesis by (simp add: free_client_ion_def assms(1))
qed

end
