(* ===== verification/Spec2Isabelle.thy ===== *)
theory Spec2Isabelle
  imports Stream_Claims Extra_Param_Claims Handler_Claims Device_Claims Client_Claims AV_Queue_Claims Frame_Rate_Claims Thread_Claims
    Recorder_Claims Thumbnail_Claims Track_Fault_Claims Zsl_Claims Camera_Context_Claims Camera_Fault_Claims Rescaler_Claims Encoder_Claims Audio_Claims
    Recorder_Client_Claims
begin

text \<open>
  A verification of the QMMF SDK, the multimedia framework that sits between camera, codec and
  audio drivers and their clients. The development covers the camera adaptor, the recorder service
  and the containers and helpers under them.

  \<^bold>\<open>The program.\<close> A client talks through Binder to the recorder service (\<^verbatim>\<open>RecorderImpl\<close>), which
  keeps clients, cameras, sessions and tracks and drives the camera source and the encoders. A
  camera source opens cameras through the camera adaptor (\<^verbatim>\<open>Camera3DeviceClient\<close>), which speaks the
  Camera3 protocol to the HAL: it configures streams, hands requests to a request thread and matches
  the shutters, results and buffers that come back. Frames travel from producers to consumers by
  reference counts and may pass a frame rate controller. Extra parameters travel as a byte container.

  \<^bold>\<open>Theories.\<close>
  \<^item> \<^verbatim>\<open>Prelude\<close>: sorted association lists for \<^verbatim>\<open>std::map\<close>, error codes, list lemmas, and the locales
    shared by the components: \<^verbatim>\<open>invariant_system\<close> (an invariant of a step relation holds in every
    reachable state) and \<^verbatim>\<open>forward_simulation\<close> (a run of operations refines a run of the specification).
  \<^item> \<^verbatim>\<open>Monitor\<close>, \<^verbatim>\<open>Stream\<close>, \<^verbatim>\<open>Prepare_Handler\<close>, \<^verbatim>\<open>Request_Handler\<close>, \<^verbatim>\<open>Smooth_Zoom\<close>: the parts of the
    adaptor (\<^verbatim>\<open>common/cameraadaptor/qmmf_camera3_*\<close>). \<^verbatim>\<open>Stream_Props\<close>, \<^verbatim>\<open>Stream_Claims\<close>,
    \<^verbatim>\<open>Request_Handler_Props\<close> and \<^verbatim>\<open>Handler_Claims\<close> show the accounting of buffers of a stream, the queue
    discipline of requests, what a submission sends and gives back on errors, and the end of the
    worker loops.
  \<^item> \<^verbatim>\<open>Adaptor_State\<close>, \<^verbatim>\<open>Device\<close>, \<^verbatim>\<open>Device_Requests\<close>, \<^verbatim>\<open>Device_Results\<close>: \<^verbatim>\<open>Camera3DeviceClient\<close>, its life cycle
    and configuration, the translation of requests, and the HAL callbacks. \<^verbatim>\<open>Device_Error\<close>,
    \<^verbatim>\<open>Device_Order\<close>, \<^verbatim>\<open>Device_Delivery\<close>, \<^verbatim>\<open>Device_Claims\<close> and \<^verbatim>\<open>Client_Claims\<close> show that an error is final and
    reported once, that results stay in order, and that a request is delivered completely.
  \<^item> \<^verbatim>\<open>Extra_Param\<close>, with \<^verbatim>\<open>Extra_Param_Props\<close> and \<^verbatim>\<open>Extra_Param_Claims\<close>: the byte container of
    \<^verbatim>\<open>recorder/src/client/qmmf_recorder_extra_param.cc\<close>; what is stored is fetched, raw bytes rebuild it.
  \<^item> \<^verbatim>\<open>AV_Queue\<close>, with \<^verbatim>\<open>AV_Queue_Props\<close> and \<^verbatim>\<open>AV_Queue_Claims\<close>: the linked queue of \<^verbatim>\<open>common/avqueue\<close> on an
    explicit heap, refined to a bounded queue.
  \<^item> \<^verbatim>\<open>Buffer_Exchange\<close> and \<^verbatim>\<open>Frame_Rate\<close>, with their claims: producers and consumers of
    \<^verbatim>\<open>recorder/src/service/qmmf_recorder_utils.h\<close> and the controller of \<^verbatim>\<open>qmmf_camera_frc.cc\<close>; buffers come
    back to their source, and frames are skipped and repeated as the output rate demands.
  \<^item> \<^verbatim>\<open>Thread_Helper\<close>, with \<^verbatim>\<open>Thread_Claims\<close>: \<^verbatim>\<open>common/utils/qmmf_thread.cc\<close>, a method and the worker
    interleaved section by section.
  \<^item> \<^verbatim>\<open>Recorder\<close>, with \<^verbatim>\<open>Recorder_Props\<close> and \<^verbatim>\<open>Recorder_Claims\<close>: \<^verbatim>\<open>recorder/src/service/qmmf_recorder_impl.cc\<close>,
    every method of the recorder service; the invariant of its maps and what sessions call.
  \<^item> \<^verbatim>\<open>Track_Source\<close> and \<^verbatim>\<open>Camera_Source\<close>: the tracks of \<^verbatim>\<open>recorder/src/service/qmmf_camera_source.cc\<close>, their
    frames and their connections, and \<^verbatim>\<open>CameraSource\<close>. \<^verbatim>\<open>Track_Source_Props\<close> and \<^verbatim>\<open>Camera_Source_Claims\<close>
    show where every frame is, with the frames that a cleared queue drops, and that a track can be created, started, stopped and
    deleted without a trace; \<^verbatim>\<open>Track_Fault_Claims\<close> has the requests and frames a track cannot handle.
  \<^item> \<^verbatim>\<open>Zsl_Port\<close>, \<^verbatim>\<open>Camera_Context\<close>, \<^verbatim>\<open>Camera_Streams\<close>, \<^verbatim>\<open>Camera_Capture\<close>, \<^verbatim>\<open>Camera_Snapshot\<close>: an open camera of
    \<^verbatim>\<open>recorder/src/service/qmmf_camera_context.cc\<close>, between the camera source and the adaptor: the queue of
    a zero-shutter-lag port, the ports and the repeating request, the streams, the callbacks, image
    capture and the life cycle. \<^verbatim>\<open>Zsl_Claims\<close> shows where the frames of the queue are;
    \<^verbatim>\<open>Camera_Context_Props\<close>, \<^verbatim>\<open>Camera_Context_Inv\<close> and \<^verbatim>\<open>Camera_Context_Claims\<close> show that the device repeats
    exactly the streams of the ports on air and that starting and stopping a stream returns;
    \<^verbatim>\<open>Camera_Fault_Claims\<close> has the images that are not returned and the pause that fails.
  \<^item> \<^verbatim>\<open>Rescaler\<close>, with \<^verbatim>\<open>Rescaler_Claims\<close>: \<^verbatim>\<open>recorder/src/service/qmmf_camera_rescaler.cc\<close>, which copies the
    frames of a port into buffers of its own pool for the tracks behind it.
  \<^item> \<^verbatim>\<open>Encoder_Core\<close>, with \<^verbatim>\<open>Encoder_Claims\<close>: \<^verbatim>\<open>recorder/src/service/qmmf_encoder_core.cc\<close>, the output buffers of a
    video encoder on their way between the codec and the client.
  \<^item> \<^verbatim>\<open>Recorder_Ion\<close>, \<^verbatim>\<open>Audio_Encoder\<close> and \<^verbatim>\<open>Audio_Source\<close>, with \<^verbatim>\<open>Audio_Claims\<close>: the shared buffers, the encoders and
    the sources of audio tracks (\<^verbatim>\<open>recorder/src/service/qmmf_recorder_ion.cc\<close> and \<^verbatim>\<open>qmmf_audio_*.cc\<close>).
  \<^item> \<^verbatim>\<open>Recorder_Client\<close>, with \<^verbatim>\<open>Recorder_Client_Props\<close> and \<^verbatim>\<open>Recorder_Client_Claims\<close>: the library of the
    application (\<^verbatim>\<open>recorder/src/client/qmmf_recorder_client.cc\<close>, \<^verbatim>\<open>qmmf_recorder_client_ion.cc\<close>). What it asks
    of kernel and service is a trace with arbitrary answers; its tables are what the trace confirms as long as
    the service lets the client go when it asks.
  \<^item> \<^verbatim>\<open>Thumbnail\<close>, with \<^verbatim>\<open>Thumbnail_Claims\<close>: the search for thumbnails in a JPEG blob.

  \<^bold>\<open>Conventions.\<close> A class is a record and a method a function on it; \<^verbatim>\<open>None\<close> is a failed assertion, a
  null pointer, an access outside a container or another undefined step, and a negative number is
  the returned error. What lies outside is a parameter: the HAL, the allocators, the callbacks of the
  client, the outcome and the effect of a wait on a condition variable, the answers of the sources and
  encoders. A critical section is one step; where threads interleave, the step relations
  interleave such sections. Maps are sorted association lists, so iteration follows the order of
  \<^verbatim>\<open>std::map\<close>; the insertion that \<^verbatim>\<open>operator[]\<close> makes is written out where a method relies on it.
  Frame numbers, ids and sizes are 32-bit words; counters that are compared with a bound are kept at
  their width. Single precision values in the zoom are a parameter with the laws that it needs; in
  the frame rate controller the products with 0.5 and 0.01 are computed on integers, exact below the
  precision of the type used.

  \<^bold>\<open>Loops.\<close> Loops over containers are structural recursion. The loops that may run forever are fuelled or
  partial functions: the repeat loop of the frame rate controller, where the claim says exactly when
  it returns, and the waits of the queue and of the threads, which end or not by their outcomes.

  \<^bold>\<open>Runs.\<close> A claim about every run quantifies over the steps of its step relation, and its text names what
  these leave out: clients of the service that start sessions of others, consumers and repetition on a track,
  image capture and zero shutter lag in the runs of a camera, \<^verbatim>\<open>AVQueueWake\<close>. The hand-over behind a lock (the
  return of a buffer to its source, the delivery of a counted frame) is a step of its own; the signal that
  the thread of a raw audio source can miss is not modelled, and no claim says that its iterations happen.

  \<^bold>\<open>Not modelled.\<close> The OMX adaptor, the overlay, the resizers, the JPEG and EXIF writers, the memory
  interfaces and the PulseAudio client are glue to vendor libraries whose code is not part of the
  repository; the Binder proxies of the service marshal structures; the camera context for the first camera HAL
  is a second implementation of an interface modelled here.
\<close>

end
